(* ===== verification/Prelude.thy ===== *)
theory Prelude
  imports
    Main
    "HOL-Library.AList"
    "HOL-Library.Char_ord"
    "HOL-Library.List_Lexorder"
    "HOL-Library.Product_Lexorder"
    "HOL-Library.Multiset"
    "HOL-Library.Signed_Division"
begin

text \<open>
  What the components share: Go's \<open>int64\<close> arithmetic, byte strings and
  \<open>strings.TrimSpace\<close>, instants, contexts, the early-return pattern
  \<open>if err := ...; err != nil { return err }\<close>, and Go maps as association lists.
\<close>

named_theorems ok_simps "inversion of a computation that returned a result"
named_theorems i64_simps "wrap-around arithmetic on values that fit"

section \<open>64-bit integers\<close>

text \<open>
  An \<open>int64\<close> is an \<open>int\<close>; every operation of the source that can leave the range is
  written with the wrapping operators below. \<open>i64\<close> says that a value has the type.
\<close>

type_synonym int64 = int

definition MaxInt64 :: int64 where
  "MaxInt64 = 9223372036854775807"

definition i64 :: "int \<Rightarrow> bool" where
  "i64 x \<longleftrightarrow> - 9223372036854775808 \<le> x \<and> x \<le> 9223372036854775807"

definition wrap64 :: "int \<Rightarrow> int64" where
  "wrap64 x = (x + 9223372036854775808) mod 18446744073709551616 - 9223372036854775808"

definition add64 :: "int64 \<Rightarrow> int64 \<Rightarrow> int64" where
  "add64 a b = wrap64 (a + b)"

definition sub64 :: "int64 \<Rightarrow> int64 \<Rightarrow> int64" where
  "sub64 a b = wrap64 (a - b)"

definition mul64 :: "int64 \<Rightarrow> int64 \<Rightarrow> int64" where
  "mul64 a b = wrap64 (a * b)"

definition quot64 :: "int64 \<Rightarrow> int64 \<Rightarrow> int64" where
  "quot64 a b = wrap64 (a sdiv b)"

definition rem64 :: "int64 \<Rightarrow> int64 \<Rightarrow> int64" where
  "rem64 a b = wrap64 (a smod b)"

lemma i64_wrap64 [simp]: "i64 (wrap64 x)"
  unfolding i64_def wrap64_def
  using pos_mod_bound [of "18446744073709551616" "x + 9223372036854775808"]
    pos_mod_sign [of "18446744073709551616" "x + 9223372036854775808"]
  by linarith

lemma wrap64_id [i64_simps]: "i64 x \<Longrightarrow> wrap64 x = x"
  by (simp add: i64_def wrap64_def)

lemma add64_id [i64_simps]: "i64 (a + b) \<Longrightarrow> add64 a b = a + b"
  by (simp add: add64_def wrap64_id)

lemma sub64_id [i64_simps]: "i64 (a - b) \<Longrightarrow> sub64 a b = a - b"
  by (simp add: sub64_def wrap64_id)

lemma mul64_id [i64_simps]: "i64 (a * b) \<Longrightarrow> mul64 a b = a * b"
  by (simp add: mul64_def wrap64_id)

lemma i64_MaxInt64 [simp]: "i64 MaxInt64"
  by (simp add: i64_def MaxInt64_def)

lemma i64_nonneg: "0 \<le> x \<Longrightarrow> x \<le> MaxInt64 \<Longrightarrow> i64 x"
  by (simp add: i64_def MaxInt64_def)

lemma i64_le_Max: "i64 x \<Longrightarrow> x \<le> MaxInt64"
  by (simp add: i64_def MaxInt64_def)

lemma i64_between: "0 \<le> x \<Longrightarrow> x \<le> y \<Longrightarrow> i64 y \<Longrightarrow> i64 x"
  by (simp add: i64_def)

text \<open>The guard \<open>total > math.MaxInt64 - x\<close> the source writes before an addition.\<close>

lemma sub64_MaxInt64: "0 \<le> x \<Longrightarrow> i64 x \<Longrightarrow> sub64 MaxInt64 x = MaxInt64 - x"
  by (rule sub64_id) (simp add: i64_def MaxInt64_def)

lemma quot64_nonneg:
  "0 \<le> a \<Longrightarrow> 0 < b \<Longrightarrow> i64 a \<Longrightarrow> quot64 a b = a div b"
proof -
  assume a: "0 \<le> a" and b: "0 < b" and i: "i64 a"
  have "a sdiv b = a div b"
    using a b by (cases "a = 0") (simp_all add: signed_divide_int_def sgn_if)
  moreover have "0 \<le> a div b" using a b by (simp add: pos_imp_zdiv_nonneg_iff)
  moreover have "a div b \<le> a"
    using a b div_by_1 zdiv_mono2 [of a 1 b] by simp
  ultimately show ?thesis
    using i by (simp add: quot64_def wrap64_id i64_between)
qed

lemma rem64_nonneg:
  "0 \<le> a \<Longrightarrow> 0 < b \<Longrightarrow> i64 a \<Longrightarrow> rem64 a b = a mod b"
proof -
  assume a: "0 \<le> a" and b: "0 < b" and i: "i64 a"
  have "a smod b = a mod b"
    using a b by (cases "a = 0") (simp_all add: signed_modulo_int_def)
  moreover have "0 \<le> a mod b" using b by simp
  moreover have "a mod b \<le> a" using a b by (simp add: zmod_le_nonneg_dividend)
  ultimately show ?thesis
    using i by (simp add: rem64_def wrap64_id i64_between)
qed

section \<open>Strings\<close>

text \<open>
  A Go string is a sequence of bytes: a \<open>char list\<close>, compared bytewise (the
  lexicographic order). \<open>strings.TrimSpace\<close> removes the white space of Unicode, whose
  UTF-8 encodings are listed here.
\<close>

definition unicode_spaces :: "string list" where
  "unicode_spaces =
    [[CHR 0x09], [CHR 0x0A], [CHR 0x0B], [CHR 0x0C], [CHR 0x0D], [CHR 0x20],
     [CHR 0xC2, CHR 0x85], [CHR 0xC2, CHR 0xA0], [CHR 0xE1, CHR 0x9A, CHR 0x80],
     [CHR 0xE2, CHR 0x80, CHR 0x80], [CHR 0xE2, CHR 0x80, CHR 0x81],
     [CHR 0xE2, CHR 0x80, CHR 0x82], [CHR 0xE2, CHR 0x80, CHR 0x83],
     [CHR 0xE2, CHR 0x80, CHR 0x84], [CHR 0xE2, CHR 0x80, CHR 0x85],
     [CHR 0xE2, CHR 0x80, CHR 0x86], [CHR 0xE2, CHR 0x80, CHR 0x87],
     [CHR 0xE2, CHR 0x80, CHR 0x88], [CHR 0xE2, CHR 0x80, CHR 0x89],
     [CHR 0xE2, CHR 0x80, CHR 0x8A], [CHR 0xE2, CHR 0x80, CHR 0xA8],
     [CHR 0xE2, CHR 0x80, CHR 0xA9], [CHR 0xE2, CHR 0x80, CHR 0xAF],
     [CHR 0xE2, CHR 0x81, CHR 0x9F], [CHR 0xE3, CHR 0x80, CHR 0x80]]"

fun strip_prefix :: "string \<Rightarrow> string \<Rightarrow> string option" where
  "strip_prefix [] s = Some s"
| "strip_prefix (c # cs) [] = None"
| "strip_prefix (c # cs) (d # ds) = (if c = d then strip_prefix cs ds else None)"

fun strip_any :: "string list \<Rightarrow> string \<Rightarrow> string option" where
  "strip_any [] s = None"
| "strip_any (p # ps) s = (case strip_prefix p s of Some r \<Rightarrow> Some r | None \<Rightarrow> strip_any ps s)"

text \<open>Removal of leading white space; one unit of fuel per byte is enough, since every
  entry of the table is non-empty.\<close>

fun strip_all :: "nat \<Rightarrow> string list \<Rightarrow> string \<Rightarrow> string" where
  "strip_all 0 ps s = s"
| "strip_all (Suc n) ps s = (case strip_any ps s of Some r \<Rightarrow> strip_all n ps r | None \<Rightarrow> s)"

definition TrimSpace :: "string \<Rightarrow> string" where
  "TrimSpace s =
     (let l = strip_all (length s) unicode_spaces s
      in rev (strip_all (length l) (map rev unicode_spaces) (rev l)))"

lemma TrimSpace_Nil [simp]: "TrimSpace [] = []"
  by (simp add: TrimSpace_def)

section \<open>Time and contexts\<close>

text \<open>
  An instant is the number of nanoseconds since Go's zero time, so \<open>IsZero\<close> is \<open>= 0\<close>,
  \<open>Before\<close> is \<open><\<close> and \<open>Equal\<close> is \<open>=\<close>; a duration is a number of nanoseconds.
\<close>

type_synonym Time = int
type_synonym Duration = int
type_synonym TenantID = string

definition IsZero :: "Time \<Rightarrow> bool" where
  "IsZero t \<longleftrightarrow> t = 0"

text \<open>
  \<open>ctx.Err()\<close> is asked once at the head of each operation; the operation takes the
  answer of that call. An operation that asks several times takes one answer per call.
\<close>

datatype ctx_error = Canceled | DeadlineExceeded

type_synonym ctx = "ctx_error option"

section \<open>Early returns\<close>

definition bind_ok :: "'e + 'b \<Rightarrow> ('b \<Rightarrow> 'e + 'a) \<Rightarrow> 'e + 'a" where
  "bind_ok r k = (case r of Inl e \<Rightarrow> Inl e | Inr x \<Rightarrow> k x)"

definition on_ok :: "'e + 'b \<Rightarrow> 's \<Rightarrow> ('b \<Rightarrow> ('e + 'a) \<times> 's) \<Rightarrow> ('e + 'a) \<times> 's" where
  "on_ok r st k = (case r of Inl e \<Rightarrow> (Inl e, st) | Inr x \<Rightarrow> k x)"

text \<open>The same after a call that has changed the state.\<close>

definition on_done ::
  "('e + 'b) \<times> 's \<Rightarrow> ('b \<Rightarrow> 's \<Rightarrow> ('e + 'a) \<times> 's) \<Rightarrow> ('e + 'a) \<times> 's"
where
  "on_done p f = (case p of (Inl e, st) \<Rightarrow> (Inl e, st) | (Inr x, st) \<Rightarrow> f x st)"

abbreviation fails :: "'e \<Rightarrow> 's \<Rightarrow> ('e + 'a) \<times> 's" where
  "fails e st \<equiv> (Inl e, st)"

definition ensure :: "bool \<Rightarrow> 'e \<Rightarrow> 'e + unit" where
  "ensure b e = (if b then Inr () else Inl e)"

lemma bind_ok_simps [simp]: "bind_ok (Inl e) k = Inl e" "bind_ok (Inr x) k = k x"
  by (simp_all add: bind_ok_def)

lemma on_ok_simps [simp]: "on_ok (Inl e) st k = (Inl e, st)" "on_ok (Inr x) st k = k x"
  by (simp_all add: on_ok_def)

lemma on_done_simps [simp]:
  "on_done (Inl e, st) f = (Inl e, st)" "on_done (Inr x, st) f = f x st"
  by (simp_all add: on_done_def)

lemma on_done_Inr [ok_simps]:
  "on_done p f = (Inr y, st') \<longleftrightarrow> (\<exists>x st. p = (Inr x, st) \<and> f x st = (Inr y, st'))"
  by (auto simp: on_done_def split: prod.splits sum.splits)

lemma ensure_simps [simp]: "ensure True e = Inr ()" "ensure False e = Inl e"
  by (simp_all add: ensure_def)

lemma ensure_Inr [ok_simps]: "ensure b e = Inr u \<longleftrightarrow> b"
  by (simp add: ensure_def)

lemma ensure_Inl: "ensure b e = Inl e' \<longleftrightarrow> \<not> b \<and> e' = e"
  by (auto simp: ensure_def)

lemma bind_ok_Inr [ok_simps]: "bind_ok r k = Inr y \<longleftrightarrow> (\<exists>x. r = Inr x \<and> k x = Inr y)"
  by (cases r) simp_all

lemma on_ok_result:
  "on_ok x st f = (r, st') \<longleftrightarrow>
     (\<exists>e. x = Inl e \<and> r = Inl e \<and> st' = st) \<or> (\<exists>v. x = Inr v \<and> f v = (r, st'))"
  by (cases x) (auto simp: on_ok_def)

lemma on_ok_Inr [ok_simps]:
  "on_ok r st k = (Inr y, st') \<longleftrightarrow> (\<exists>x. r = Inr x \<and> k x = (Inr y, st'))"
  by (cases r) simp_all

lemma if_fails_Inr [ok_simps]:
  "(if b then fails e st else k) = (Inr y, st') \<longleftrightarrow> \<not> b \<and> k = (Inr y, st')"
  by simp

lemma if_Inl_Inr [ok_simps]: "(if b then Inl e else k) = Inr y \<longleftrightarrow> \<not> b \<and> k = Inr y"
  by simp

lemma case_option_fails_Inr [ok_simps]:
  "(case v of None \<Rightarrow> fails e st | Some x \<Rightarrow> k x) = (Inr y, st')
     \<longleftrightarrow> (\<exists>x. v = Some x \<and> k x = (Inr y, st'))"
  by (cases v) simp_all

lemma case_option_exists_fails_Inr [ok_simps]:
  "(case v of None \<Rightarrow> k | Some x \<Rightarrow> fails (e x) st) = (Inr y, st')
     \<longleftrightarrow> v = None \<and> k = (Inr y, st')"
  by (cases v) simp_all

lemma case_option_Inl_Inr [ok_simps]:
  "(case v of None \<Rightarrow> Inl e | Some x \<Rightarrow> k x) = Inr y \<longleftrightarrow> (\<exists>x. v = Some x \<and> k x = Inr y)"
  by (cases v) simp_all

text \<open>
  An operation on a state is \<open>atomic\<close> when every error leaves the state as it was.
\<close>

definition atomic_op :: "('s \<Rightarrow> ('e + 'a) \<times> 's) \<Rightarrow> bool" where
  "atomic_op f \<longleftrightarrow> (\<forall>st e st'. f st = (Inl e, st') \<longrightarrow> st' = st)"

lemma on_ok_keeps:
  "on_ok r st k = (Inl e, st') \<Longrightarrow> (\<And>x. r = Inr x \<Longrightarrow> k x = (Inl e, st') \<Longrightarrow> st' = st) \<Longrightarrow> st' = st"
  by (cases r) simp_all

section \<open>Go maps\<close>

text \<open>
  A Go map is an association list with distinct keys. Its order is the order in which
  \<open>range\<close> happens to visit it, which Go leaves open: nothing is proved from it.
\<close>

type_synonym ('k, 'v) gomap = "('k \<times> 'v) list"

abbreviation wf_map :: "('k, 'v) gomap \<Rightarrow> bool" where
  "wf_map m \<equiv> distinct (map fst m)"

definition vals :: "('k, 'v) gomap \<Rightarrow> 'v list" where
  "vals m = map snd m"

definition lookup0 :: "('k, int64) gomap \<Rightarrow> 'k \<Rightarrow> int64" where
  "lookup0 m k = (case map_of m k of None \<Rightarrow> 0 | Some v \<Rightarrow> v)"

lemma map_of_update [simp]: "map_of (AList.update k v m) = (map_of m)(k \<mapsto> v)"
  by (rule update_conv')

lemma map_of_delete [simp]: "map_of (AList.delete k m) = (map_of m)(k := None)"
  by (rule delete_conv')

lemma wf_map_update [simp]: "wf_map m \<Longrightarrow> wf_map (AList.update k v m)"
  by (rule distinct_update)

lemma wf_map_delete [simp]: "wf_map m \<Longrightarrow> wf_map (AList.delete k m)"
  by (rule distinct_delete)

lemma in_vals_iff: "wf_map m \<Longrightarrow> x \<in> set (vals m) \<longleftrightarrow> (\<exists>k. map_of m k = Some x)"
  by (force simp: vals_def dest: map_of_SomeD)

lemma map_of_in_vals: "map_of m k = Some x \<Longrightarrow> x \<in> set (vals m)"
  by (force simp: vals_def dest: map_of_SomeD)

section \<open>Lists\<close>

lemma length_sort_key_filter: "length (sort_key f (filter P xs)) \<le> length xs"
  by simp

lemma sum_list_map_le:
  fixes f g :: "'a \<Rightarrow> int"
  shows "(\<And>x. x \<in> set xs \<Longrightarrow> f x \<le> g x) \<Longrightarrow> sum_list (map f xs) \<le> sum_list (map g xs)"
  by (rule sum_list_mono)

lemma sum_list_mset_eq:
  fixes f :: "'a \<Rightarrow> int"
  shows "mset xs = mset ys \<Longrightarrow> sum_list (map f xs) = sum_list (map f ys)"
  by (metis mset_map sum_mset_sum_list)

end
