(* ===== verification/Commission_Types.thy ===== *)
theory Commission_Types
  imports Prelude
begin

text \<open>
  The data of \<open>biz/commission\<close> (amount.go, model.go, state.go, errors.go and the types of
  service.go) with its validation. An enumeration is a string type in the source: a
  datatype with one constructor per constant, and an \<open>Other\<close> constructor for any string
  that is none of the constants (the zero value is \<open>Other []\<close>). A slice is a list; a
  map that may be nil is an option of a Go map.
\<close>

section \<open>Errors\<close>

datatype Permission =
    PermissionRead | PermissionManageTemplates | PermissionManagePrograms
  | PermissionApprovePrograms | PermissionManageAttributions | PermissionRecordEvents
  | PermissionManageEarnings | PermissionSettle | PermissionCompleteSettlement
  | PermissionDeliverOutbox

text \<open>
  \<open>ErrCtx\<close> is what \<open>ctx.Err()\<close> answers, \<open>ErrAuthorize\<close> the wrapped error of the host's
  authorizer, \<open>ErrAdapter\<close> the error of the host's settlement adapter, with whether it is
  a verified rejection, and \<open>ErrJoin\<close> the result of \<open>errors.Join\<close>.
\<close>

datatype commission_error =
    ErrInvalidAmount | ErrAmountOverflow | ErrInvalidCommissionEvent | ErrLimitExceeded
  | ErrInvalidBeneficiary | ErrInvalidTier | ErrInvalidRule | ErrInvalidTemplate
  | ErrEventTypeDisabled | ErrCurrencyMismatch | ErrCommissionCapExceeded
  | ErrInvalidEarningTransition | ErrNilStore | ErrUnauthorized | ErrInvalidTransition
  | ErrTemplateAlreadyExists | ErrTemplateNotFound | ErrTemplateNotActive
  | ErrInvalidProgram | ErrProgramAlreadyExists | ErrProgramNotFound | ErrProgramNotActive
  | ErrProgramExceedsTemplate | ErrInvalidAttribution | ErrVersionConflict
  | ErrEventConflict | ErrInvalidEvent | ErrInvalidEarning | ErrEarningNotFound
  | ErrEarningUnavailable | ErrInvalidEarningFilter | ErrInvalidSettlement
  | ErrSettlementAlreadyExists | ErrSettlementNotFound | ErrSettlementOutcomeConflict
  | ErrSettlementAdapterNotConfigured | ErrInvalidSettlementReceipt
  | ErrInvalidOutboxFilter | ErrInvalidOutbox | ErrOutboxNotFound
  | ErrCtx ctx_error | ErrAuthorize Permission string | ErrAdapter bool string
  | ErrJoin commission_error commission_error

text \<open>The head of every store operation: \<open>if err := ctx.Err(); err != nil { return err }\<close>.\<close>

definition ctx_ok :: "ctx \<Rightarrow> commission_error + unit" where
  "ctx_ok cx = (case cx of None \<Rightarrow> Inr () | Some e \<Rightarrow> Inl (ErrCtx e))"

lemma ctx_ok_simps [simp]: "ctx_ok None = Inr ()" "ctx_ok (Some e) = Inl (ErrCtx e)"
  by (simp_all add: ctx_ok_def)

lemma ctx_ok_Inr [ok_simps]: "ctx_ok cx = Inr u \<longleftrightarrow> cx = None"
  by (simp add: ctx_ok_def split: option.splits)

section \<open>Amounts\<close>

record Amount =
  Currency :: string
  Minor :: int64

definition currencyCodeLength :: nat where
  "currencyCodeLength = 3"

definition zeroAmount :: Amount where
  "zeroAmount = \<lparr>Currency = [], Minor = 0\<rparr>"

definition validAmount :: "Amount \<Rightarrow> bool" where
  "validAmount amount \<longleftrightarrow>
     (if Minor amount < 0 \<or> length (Currency amount) \<noteq> currencyCodeLength then False
      else list_all (\<lambda>c. \<not> (c < CHR ''A'' \<or> CHR ''Z'' < c)) (Currency amount))"

definition Validate :: "Amount \<Rightarrow> commission_error + unit" where
  "Validate amount = ensure (validAmount amount) ErrInvalidAmount"

definition optionalAmountValid :: "Amount \<Rightarrow> bool" where
  "optionalAmountValid amount \<longleftrightarrow> amount = zeroAmount \<or> validAmount amount"

lemma validAmount_nonneg: "validAmount a \<Longrightarrow> 0 \<le> Minor a"
  by (simp add: validAmount_def split: if_splits)

lemma validAmount_Minor: "validAmount a \<Longrightarrow> 0 \<le> x \<Longrightarrow> validAmount (a\<lparr>Minor := x\<rparr>)"
  by (simp add: validAmount_def split: if_splits)

lemma validAmount_Currency:
  "validAmount a \<Longrightarrow> Currency b = Currency a \<Longrightarrow> 0 \<le> Minor b \<Longrightarrow> validAmount b"
  by (simp add: validAmount_def split: if_splits)

lemma optionalAmountValid_nonneg: "optionalAmountValid a \<Longrightarrow> 0 \<le> Minor a"
  by (auto simp: optionalAmountValid_def zeroAmount_def dest: validAmount_nonneg)

section \<open>Beneficiaries, tiers, rules\<close>

datatype BeneficiaryKind =
  BeneficiaryKindTenant | BeneficiaryKindUser | BeneficiaryKindExternal
| BeneficiaryKindOther string

record BeneficiaryRef =
  b_Kind :: BeneficiaryKind
  b_ID :: string

definition validBeneficiary :: "BeneficiaryRef \<Rightarrow> bool" where
  "validBeneficiary beneficiary \<longleftrightarrow>
     (if TrimSpace (b_ID beneficiary) = [] then False
      else case b_Kind beneficiary of BeneficiaryKindOther _ \<Rightarrow> False | _ \<Rightarrow> True)"

record Tier =
  MinMinor :: int64
  MaxMinor :: int64
  BasisPoints :: int64
  FixedMinor :: int64

record Rule =
  r_Slot :: string
  r_Beneficiary :: BeneficiaryRef
  r_Tiers :: "Tier list"

definition basisPointDenominator :: int64 where
  "basisPointDenominator = 10000"

definition validateTier :: "Tier \<Rightarrow> commission_error + unit" where
  "validateTier tier = ensure
     (\<not> (MinMinor tier < 0 \<or> MaxMinor tier < 0
         \<or> MaxMinor tier \<noteq> 0 \<and> MaxMinor tier \<le> MinMinor tier
         \<or> BasisPoints tier < 0 \<or> BasisPoints tier > basisPointDenominator
         \<or> FixedMinor tier < 0 \<or> BasisPoints tier = 0 \<and> FixedMinor tier = 0))
     ErrInvalidTier"

text \<open>\<open>for _, x := range xs { if err := f(x); err != nil { return err } }\<close>\<close>

fun forEach :: "('a \<Rightarrow> 'e + unit) \<Rightarrow> 'a list \<Rightarrow> 'e + unit" where
  "forEach f [] = Inr ()"
| "forEach f (x # xs) = (case f x of Inl e \<Rightarrow> Inl e | Inr _ \<Rightarrow> forEach f xs)"

lemma forEach_Inr [ok_simps]: "forEach f xs = Inr u \<longleftrightarrow> (\<forall>x\<in>set xs. f x = Inr ())"
  by (induction xs) (auto split: sum.splits)

definition kindUnset :: BeneficiaryKind where
  "kindUnset = BeneficiaryKindOther []"

definition validateRule :: "Rule \<Rightarrow> bool \<Rightarrow> commission_error + unit" where
  "validateRule rule requireBeneficiary =
     (if TrimSpace (r_Slot rule) = [] \<or> length (r_Tiers rule) = 0 then Inl ErrInvalidRule
      else if (requireBeneficiary \<or> b_Kind (r_Beneficiary rule) \<noteq> kindUnset
               \<or> b_ID (r_Beneficiary rule) \<noteq> []) \<and> \<not> validBeneficiary (r_Beneficiary rule)
      then Inl ErrInvalidBeneficiary
      else forEach validateTier (r_Tiers rule))"

lemma validateRule_tiers:
  "validateRule r b = Inr u \<Longrightarrow> t \<in> set (r_Tiers r) \<Longrightarrow> validateTier t = Inr ()"
  by (auto simp: validateRule_def ok_simps split: if_splits)

lemma validateRule_beneficiary:
  "validateRule r True = Inr u \<Longrightarrow> validBeneficiary (r_Beneficiary r)"
  by (auto simp: validateRule_def split: if_splits)

lemma validateRule_weaken: "validateRule r True = Inr u \<Longrightarrow> validateRule r False = Inr u"
  by (auto simp: validateRule_def split: if_splits)

section \<open>Events\<close>

record CommissionEvent =
  ev_TenantID :: TenantID
  ev_SourceType :: string
  ev_SourceID :: string
  ev_OccurredAt :: Time
  ev_Commissionable :: Amount
  ev_Attributes :: "(string, string) gomap option"

definition validateCommissionEvent :: "CommissionEvent \<Rightarrow> commission_error + unit" where
  "validateCommissionEvent event = ensure
     (\<not> (ev_TenantID event = [] \<or> TrimSpace (ev_SourceType event) = []
         \<or> TrimSpace (ev_SourceID event) = [] \<or> IsZero (ev_OccurredAt event)
         \<or> \<not> validAmount (ev_Commissionable event)))
     ErrInvalidCommissionEvent"

section \<open>Templates\<close>

datatype TemplateStatus =
  TemplateStatusDraft | TemplateStatusActive | TemplateStatusRetired
| TemplateStatusOther string

definition validTemplateStatus :: "TemplateStatus \<Rightarrow> bool" where
  "validTemplateStatus status = (case status of TemplateStatusOther _ \<Rightarrow> False | _ \<Rightarrow> True)"

record Template =
  t_ID :: string
  t_Version :: int64
  t_Status :: TemplateStatus
  t_CreatedAt :: Time
  t_UpdatedAt :: Time
  t_AllowedEventTypes :: "string list"
  t_MaxCommission :: Amount
  t_FreezePeriod :: Duration
  t_Rules :: "Rule list"

text \<open>The loop over the rules: each rule valid, no slot twice.\<close>

fun validateTemplateRules :: "string list \<Rightarrow> Rule list \<Rightarrow> commission_error + unit" where
  "validateTemplateRules slots [] = Inr ()"
| "validateTemplateRules slots (rule # rules) =
     (case validateRule rule False of Inl e \<Rightarrow> Inl e
      | Inr _ \<Rightarrow> if r_Slot rule \<in> set slots then Inl ErrInvalidTemplate
                else validateTemplateRules (r_Slot rule # slots) rules)"

definition validateTemplate :: "Template \<Rightarrow> commission_error + unit" where
  "validateTemplate template =
     (if TrimSpace (t_ID template) = [] \<or> t_Version template \<le> 0
         \<or> \<not> validTemplateStatus (t_Status template) \<or> IsZero (t_CreatedAt template)
         \<or> IsZero (t_UpdatedAt template) \<or> t_UpdatedAt template < t_CreatedAt template
         \<or> t_FreezePeriod template < 0 \<or> \<not> optionalAmountValid (t_MaxCommission template)
      then Inl ErrInvalidTemplate
      else bind_ok (forEach (\<lambda>eventType. ensure (TrimSpace eventType \<noteq> []) ErrInvalidTemplate)
                      (t_AllowedEventTypes template))
             (\<lambda>_. validateTemplateRules [] (t_Rules template)))"

definition validateNewTemplate :: "Template \<Rightarrow> commission_error + unit" where
  "validateNewTemplate template =
     bind_ok (validateTemplate template)
       (\<lambda>_. if t_Status template \<noteq> TemplateStatusDraft then Inl ErrInvalidTemplate else Inr ())"

lemma validateTemplateRules_ok:
  "validateTemplateRules slots rules = Inr u \<longleftrightarrow>
     (\<forall>r\<in>set rules. validateRule r False = Inr ()) \<and> distinct (map r_Slot rules)
     \<and> set slots \<inter> set (map r_Slot rules) = {}"
  by (induction rules arbitrary: slots) (auto split: sum.splits)

lemma validateTemplate_rules:
  "validateTemplate t = Inr u \<Longrightarrow>
     (\<forall>r\<in>set (t_Rules t). validateRule r False = Inr ()) \<and> distinct (map r_Slot (t_Rules t))"
  by (auto simp: validateTemplate_def ok_simps validateTemplateRules_ok split: if_splits)

record Calculation =
  calc_Slot :: string
  calc_Beneficiary :: BeneficiaryRef
  calc_Amount :: Amount

end
