(* ===== verification/Commission_Lifecycle.thy ===== *)
theory Commission_Lifecycle
  imports Commission_Types
begin

text \<open>
  The lifecycles of templates, programs and earnings (\<open>lifecycle.go\<close> and
  \<open>TransitionEarning\<close> of \<open>state.go\<close>), the actions offered for a status, and the step
  relations whose reachable statuses the invariants below are about.
\<close>

section \<open>Statuses and actions\<close>

datatype ProgramStatus =
  ProgramStatusDraft | ProgramStatusPendingApproval | ProgramStatusActive
| ProgramStatusSuspended | ProgramStatusRetired | ProgramStatusOther string

definition validProgramStatus :: "ProgramStatus \<Rightarrow> bool" where
  "validProgramStatus status = (case status of ProgramStatusOther _ \<Rightarrow> False | _ \<Rightarrow> True)"

datatype EarningStatus =
  EarningStatusPending | EarningStatusAvailable | EarningStatusHeld | EarningStatusSettling
| EarningStatusSettled | EarningStatusReversed | EarningStatusRecoveryDue
| EarningStatusOther string

definition validEarningStatus :: "EarningStatus \<Rightarrow> bool" where
  "validEarningStatus status = (case status of EarningStatusOther _ \<Rightarrow> False | _ \<Rightarrow> True)"

text \<open>The conversion \<open>string(status)\<close>.\<close>

fun earningStatusString :: "EarningStatus \<Rightarrow> string" where
  "earningStatusString EarningStatusPending = ''pending''"
| "earningStatusString EarningStatusAvailable = ''available''"
| "earningStatusString EarningStatusHeld = ''held''"
| "earningStatusString EarningStatusSettling = ''settling''"
| "earningStatusString EarningStatusSettled = ''settled''"
| "earningStatusString EarningStatusReversed = ''reversed''"
| "earningStatusString EarningStatusRecoveryDue = ''recovery_due''"
| "earningStatusString (EarningStatusOther s) = s"

datatype EarningAction =
  EarningActionMakeAvailable | EarningActionHold | EarningActionRelease
| EarningActionStartSettlement | EarningActionSettle | EarningActionRejectSettlement
| EarningActionReverse | EarningActionOther string

datatype TemplateAction = TemplateActionActivate | TemplateActionRetire | TemplateActionOther string

datatype ProgramAction =
  ProgramActionSubmit | ProgramActionApprove | ProgramActionSuspend | ProgramActionResume
| ProgramActionRetire | ProgramActionOther string

section \<open>Transitions\<close>

fun nextTemplateStatus ::
  "TemplateStatus \<Rightarrow> TemplateAction \<Rightarrow> commission_error + TemplateStatus" where
  "nextTemplateStatus status TemplateActionActivate =
     (if status = TemplateStatusDraft then Inr TemplateStatusActive else Inl ErrInvalidTransition)"
| "nextTemplateStatus status TemplateActionRetire =
     (if status = TemplateStatusActive then Inr TemplateStatusRetired else Inl ErrInvalidTransition)"
| "nextTemplateStatus status (TemplateActionOther _) = Inl ErrInvalidTransition"

fun nextProgramStatus ::
  "ProgramStatus \<Rightarrow> ProgramAction \<Rightarrow> commission_error + ProgramStatus" where
  "nextProgramStatus status ProgramActionSubmit =
     (if status = ProgramStatusDraft then Inr ProgramStatusPendingApproval
      else Inl ErrInvalidTransition)"
| "nextProgramStatus status ProgramActionApprove =
     (if status = ProgramStatusPendingApproval then Inr ProgramStatusActive
      else Inl ErrInvalidTransition)"
| "nextProgramStatus status ProgramActionSuspend =
     (if status = ProgramStatusActive then Inr ProgramStatusSuspended
      else Inl ErrInvalidTransition)"
| "nextProgramStatus status ProgramActionResume =
     (if status = ProgramStatusSuspended then Inr ProgramStatusActive
      else Inl ErrInvalidTransition)"
| "nextProgramStatus status ProgramActionRetire =
     (if status \<in> {ProgramStatusDraft, ProgramStatusPendingApproval, ProgramStatusActive,
                   ProgramStatusSuspended}
      then Inr ProgramStatusRetired else Inl ErrInvalidTransition)"
| "nextProgramStatus status (ProgramActionOther _) = Inl ErrInvalidTransition"

definition TransitionEarning ::
  "EarningStatus \<Rightarrow> EarningAction \<Rightarrow> commission_error + EarningStatus" where
  "TransitionEarning status action =
     (case (status, action) of
        (EarningStatusPending, EarningActionMakeAvailable) \<Rightarrow> Inr EarningStatusAvailable
      | (EarningStatusPending, EarningActionHold) \<Rightarrow> Inr EarningStatusHeld
      | (EarningStatusAvailable, EarningActionHold) \<Rightarrow> Inr EarningStatusHeld
      | (EarningStatusAvailable, EarningActionStartSettlement) \<Rightarrow> Inr EarningStatusSettling
      | (EarningStatusAvailable, EarningActionReverse) \<Rightarrow> Inr EarningStatusReversed
      | (EarningStatusHeld, EarningActionRelease) \<Rightarrow> Inr EarningStatusAvailable
      | (EarningStatusHeld, EarningActionReverse) \<Rightarrow> Inr EarningStatusReversed
      | (EarningStatusSettling, EarningActionSettle) \<Rightarrow> Inr EarningStatusSettled
      | (EarningStatusSettling, EarningActionRejectSettlement) \<Rightarrow> Inr EarningStatusAvailable
      | (EarningStatusSettled, EarningActionReverse) \<Rightarrow> Inr EarningStatusRecoveryDue
      | _ \<Rightarrow> Inl ErrInvalidEarningTransition)"

fun AvailableEarningActions :: "EarningStatus \<Rightarrow> EarningAction list" where
  "AvailableEarningActions EarningStatusPending =
     [EarningActionMakeAvailable, EarningActionHold]"
| "AvailableEarningActions EarningStatusAvailable =
     [EarningActionHold, EarningActionStartSettlement, EarningActionReverse]"
| "AvailableEarningActions EarningStatusHeld = [EarningActionRelease, EarningActionReverse]"
| "AvailableEarningActions EarningStatusSettling =
     [EarningActionSettle, EarningActionRejectSettlement]"
| "AvailableEarningActions EarningStatusSettled = [EarningActionReverse]"
| "AvailableEarningActions _ = []"

fun AvailableManualEarningActions :: "EarningStatus \<Rightarrow> EarningAction list" where
  "AvailableManualEarningActions EarningStatusPending = [EarningActionHold]"
| "AvailableManualEarningActions EarningStatusAvailable =
     [EarningActionHold, EarningActionReverse]"
| "AvailableManualEarningActions EarningStatusHeld =
     [EarningActionRelease, EarningActionReverse]"
| "AvailableManualEarningActions EarningStatusSettled = [EarningActionReverse]"
| "AvailableManualEarningActions _ = []"

text \<open>The actions \<open>Store.TransitionEarning\<close> refuses because an aggregate owns them.\<close>

definition aggregateAction :: "EarningAction \<Rightarrow> bool" where
  "aggregateAction action \<longleftrightarrow>
     action = EarningActionMakeAvailable \<or> action = EarningActionStartSettlement
     \<or> action = EarningActionSettle \<or> action = EarningActionRejectSettlement"

section \<open>The step relations\<close>

inductive earning_step :: "EarningStatus \<Rightarrow> EarningStatus \<Rightarrow> bool" where
  act: "TransitionEarning s a = Inr s' \<Longrightarrow> earning_step s s'"

inductive earning_reach :: "EarningStatus \<Rightarrow> EarningStatus \<Rightarrow> bool" for s0 where
  init: "earning_reach s0 s0"
| step: "earning_reach s0 s \<Longrightarrow> earning_step s s' \<Longrightarrow> earning_reach s0 s'"

inductive_cases earning_stepE: "earning_step s s'"

inductive_simps earning_step_iff: "earning_step s s'"

inductive program_step :: "ProgramStatus \<Rightarrow> ProgramStatus \<Rightarrow> bool" where
  act: "nextProgramStatus s a = Inr s' \<Longrightarrow> program_step s s'"

inductive program_reach :: "ProgramStatus \<Rightarrow> ProgramStatus \<Rightarrow> bool" for s0 where
  init: "program_reach s0 s0"
| step: "program_reach s0 s \<Longrightarrow> program_step s s' \<Longrightarrow> program_reach s0 s'"

lemma TransitionEarning_Inr:
  "TransitionEarning s a = Inr s' \<Longrightarrow> (s, a, s') \<in>
     {(EarningStatusPending, EarningActionMakeAvailable, EarningStatusAvailable),
      (EarningStatusPending, EarningActionHold, EarningStatusHeld),
      (EarningStatusAvailable, EarningActionHold, EarningStatusHeld),
      (EarningStatusAvailable, EarningActionStartSettlement, EarningStatusSettling),
      (EarningStatusAvailable, EarningActionReverse, EarningStatusReversed),
      (EarningStatusHeld, EarningActionRelease, EarningStatusAvailable),
      (EarningStatusHeld, EarningActionReverse, EarningStatusReversed),
      (EarningStatusSettling, EarningActionSettle, EarningStatusSettled),
      (EarningStatusSettling, EarningActionRejectSettlement, EarningStatusAvailable),
      (EarningStatusSettled, EarningActionReverse, EarningStatusRecoveryDue)}"
  by (cases s; cases a) (simp_all add: TransitionEarning_def)

lemma TransitionEarning_valid:
  "TransitionEarning s a = Inr s' \<Longrightarrow> validEarningStatus s \<and> validEarningStatus s'"
  by (drule TransitionEarning_Inr) (auto simp: validEarningStatus_def)

lemma nextProgramStatus_valid:
  "nextProgramStatus s a = Inr s' \<Longrightarrow> validProgramStatus s \<and> validProgramStatus s' \<and> s' \<noteq> s"
  by (cases a) (auto simp: validProgramStatus_def split: if_splits)

lemma nextTemplateStatus_valid:
  "nextTemplateStatus s a = Inr s' \<Longrightarrow> validTemplateStatus s \<and> validTemplateStatus s' \<and> s' \<noteq> s"
  by (cases a) (auto simp: validTemplateStatus_def split: if_splits)

text \<open>
  The action lists are exact: an action is offered for a status if and only if the
  transition it requests is legal there, and the manual list holds exactly the legal
  actions that no aggregate operation owns.
\<close>

theorem available_actions_exact:
  "(a \<in> set (AvailableEarningActions s) \<longleftrightarrow> (\<exists>s'. TransitionEarning s a = Inr s'))
   \<and> (a \<in> set (AvailableManualEarningActions s) \<longleftrightarrow>
        (\<exists>s'. TransitionEarning s a = Inr s') \<and> \<not> aggregateAction a)"
  by (cases s; cases a) (simp_all add: TransitionEarning_def aggregateAction_def)

lemma settled_origin:
  "earning_step s s' \<Longrightarrow> s' = EarningStatusSettled \<Longrightarrow> s = EarningStatusSettling"
  by (auto elim!: earning_stepE dest!: TransitionEarning_Inr)

lemma earning_reach_from_settled:
  "earning_reach s0 s \<Longrightarrow> s0 \<in> {EarningStatusSettled, EarningStatusRecoveryDue} \<Longrightarrow>
     s \<in> {EarningStatusSettled, EarningStatusRecoveryDue}"
  by (induction rule: earning_reach.induct)
     (auto elim!: earning_stepE dest!: TransitionEarning_Inr)

lemma earning_reach_from_reversed:
  "earning_reach s0 s \<Longrightarrow> s0 \<in> {EarningStatusReversed, EarningStatusRecoveryDue} \<Longrightarrow> s = s0"
  by (induction rule: earning_reach.induct)
     (auto elim!: earning_stepE dest!: TransitionEarning_Inr)

text \<open>
  Money leaves once. An earning that has been settled can never become available or
  settling again, whatever sequence of actions follows (its only way on is
  \<open>recovery_due\<close>), and the reversed and recovery-due statuses are final.
\<close>

theorem settled_never_payable_again:
  assumes "earning_reach s0 s"
  shows "(s0 = EarningStatusSettled \<longrightarrow> s \<in> {EarningStatusSettled, EarningStatusRecoveryDue})
    \<and> (s0 \<in> {EarningStatusReversed, EarningStatusRecoveryDue} \<longrightarrow> s = s0)"
  using assms earning_reach_from_settled earning_reach_from_reversed by blast

theorem settled_never_payable_again_witness:
  "earning_reach EarningStatusSettled EarningStatusRecoveryDue
   \<and> EarningStatusRecoveryDue \<in> {EarningStatusSettled, EarningStatusRecoveryDue}"
proof -
  have r: "earning_reach EarningStatusSettled EarningStatusRecoveryDue"
    by (rule earning_reach.step [OF earning_reach.init])
       (rule earning_step.act [of _ EarningActionReverse], simp add: TransitionEarning_def)
  then show ?thesis using settled_never_payable_again [OF r] by simp
qed

lemma program_reach_retired: "program_reach s0 s \<Longrightarrow> s0 = ProgramStatusRetired \<Longrightarrow> s = s0"
proof (induction rule: program_reach.induct)
  case init
  then show ?case by simp
next
  case (step s s')
  from step.hyps(2) obtain a where "nextProgramStatus s a = Inr s'"
    by (auto elim: program_step.cases)
  with step show ?case by (cases a) simp_all
qed

lemma program_active_origin:
  "nextProgramStatus s a = Inr ProgramStatusActive \<Longrightarrow>
     s = ProgramStatusPendingApproval \<and> a = ProgramActionApprove
     \<or> s = ProgramStatusSuspended \<and> a = ProgramActionResume"
  by (cases a) (auto split: if_splits)

end
