(* ===== verification/Commission_Formula.thy ===== *)
theory Commission_Formula
  imports Commission_Types
begin

text \<open>
  The commission calculator (\<open>biz/commission/formula.go\<close>) and the comparison of a
  program's rule with the template's cap (\<open>ruleWithinCap\<close>, \<open>sortedTiers\<close> of
  service.go). The loops work on \<open>int64\<close> with the source's overflow guards; \<open>tierShare\<close>
  and \<open>ruleShare\<close> are the mathematical amounts they are proved to compute.
\<close>

section \<open>Tiers\<close>

definition tierIntersection :: "Tier \<Rightarrow> int64 \<Rightarrow> int64" where
  "tierIntersection tier amount =
     (if amount \<le> MinMinor tier then 0
      else let upper = (if MaxMinor tier \<noteq> 0 \<and> amount > MaxMinor tier then MaxMinor tier
                        else amount)
           in if upper \<le> MinMinor tier then 0 else sub64 upper (MinMinor tier))"

definition tierContains :: "Tier \<Rightarrow> int64 \<Rightarrow> bool" where
  "tierContains tier amount \<longleftrightarrow>
     MinMinor tier \<le> amount \<and> (MaxMinor tier = 0 \<or> amount < MaxMinor tier)"

definition percentageMinor :: "int64 \<Rightarrow> int64 \<Rightarrow> commission_error + int64" where
  "percentageMinor minor basisPoints =
     (if minor < 0 \<or> basisPoints < 0 \<or> basisPoints > basisPointDenominator
      then Inl ErrInvalidTier
      else let whole = quot64 minor basisPointDenominator;
               remainder = rem64 minor basisPointDenominator
           in Inr (add64 (mul64 whole basisPoints)
                     (quot64 (mul64 remainder basisPoints) basisPointDenominator)))"

section \<open>Rules\<close>

fun sumTiers :: "int64 \<Rightarrow> int64 \<Rightarrow> Tier list \<Rightarrow> commission_error + int64" where
  "sumTiers amount sofar [] = Inr sofar"
| "sumTiers amount sofar (tier # tiers) =
     (case percentageMinor (tierIntersection tier amount) (BasisPoints tier) of
        Inl e \<Rightarrow> Inl e
      | Inr percentage \<Rightarrow>
          if sofar > sub64 MaxInt64 percentage then Inl ErrAmountOverflow
          else let sofar' = add64 sofar percentage in
            if tierContains tier amount then
              if sofar' > sub64 MaxInt64 (FixedMinor tier) then Inl ErrAmountOverflow
              else sumTiers amount (add64 sofar' (FixedMinor tier)) tiers
            else sumTiers amount sofar' tiers)"

definition calculateRule :: "Rule \<Rightarrow> int64 \<Rightarrow> commission_error + int64" where
  "calculateRule rule commissionableMinor =
     sumTiers commissionableMinor 0 (sort_key MinMinor (r_Tiers rule))"

section \<open>Templates\<close>

definition validateCalculationTemplate :: "Template \<Rightarrow> commission_error + unit" where
  "validateCalculationTemplate template =
     (if t_FreezePeriod template < 0 \<or> \<not> optionalAmountValid (t_MaxCommission template)
      then Inl ErrInvalidTemplate
      else bind_ok (forEach (\<lambda>eventType. ensure (eventType \<noteq> []) ErrInvalidTemplate)
                      (t_AllowedEventTypes template))
             (\<lambda>_. forEach (\<lambda>rule. validateRule rule False) (t_Rules template)))"

definition allowsEventType :: "string list \<Rightarrow> string \<Rightarrow> bool" where
  "allowsEventType allowed sourceType \<longleftrightarrow> list_ex (\<lambda>eventType. eventType = sourceType) allowed"

definition capEnabled :: "Template \<Rightarrow> bool" where
  "capEnabled template \<longleftrightarrow> Minor (t_MaxCommission template) > 0"

fun calculateRules ::
  "Template \<Rightarrow> CommissionEvent \<Rightarrow> int64 \<Rightarrow> Calculation list \<Rightarrow> Rule list
     \<Rightarrow> commission_error + Calculation list" where
  "calculateRules template event sofar calculations [] = Inr calculations"
| "calculateRules template event sofar calculations (rule # rules) =
     (case validateRule rule True of Inl e \<Rightarrow> Inl e
      | Inr _ \<Rightarrow>
        (case calculateRule rule (Minor (ev_Commissionable event)) of Inl e \<Rightarrow> Inl e
         | Inr minor \<Rightarrow>
            if minor = 0 then calculateRules template event sofar calculations rules
            else if sofar > sub64 MaxInt64 minor then Inl ErrAmountOverflow
            else let sofar' = add64 sofar minor in
              if capEnabled template \<and> sofar' > Minor (t_MaxCommission template)
              then Inl ErrCommissionCapExceeded
              else calculateRules template event sofar'
                (calculations @
                   [\<lparr>calc_Slot = r_Slot rule, calc_Beneficiary = r_Beneficiary rule,
                     calc_Amount = \<lparr>Currency = Currency (ev_Commissionable event),
                                    Minor = minor\<rparr>\<rparr>]) rules))"

definition Calculate :: "Template \<Rightarrow> CommissionEvent \<Rightarrow> commission_error + Calculation list" where
  "Calculate template event =
     bind_ok (validateCommissionEvent event) (\<lambda>_.
     bind_ok (validateCalculationTemplate template) (\<lambda>_.
       if \<not> allowsEventType (t_AllowedEventTypes template) (ev_SourceType event)
       then Inl ErrEventTypeDisabled
       else if capEnabled template
            \<and> Currency (t_MaxCommission template) \<noteq> Currency (ev_Commissionable event)
       then Inl ErrCurrencyMismatch
       else calculateRules template event 0 [] (t_Rules template)))"

section \<open>Rules under a cap\<close>

definition tierKey :: "Tier \<Rightarrow> int64 \<times> int64 \<times> int64 \<times> int64" where
  "tierKey t = (MinMinor t, MaxMinor t, BasisPoints t, FixedMinor t)"

definition sortedTiers :: "Tier list \<Rightarrow> Tier list" where
  "sortedTiers tiers = sort_key tierKey tiers"

definition tierWithin :: "Tier \<Rightarrow> Tier \<Rightarrow> bool" where
  "tierWithin tier capTier \<longleftrightarrow>
     \<not> (MinMinor tier \<noteq> MinMinor capTier \<or> MaxMinor tier \<noteq> MaxMinor capTier
        \<or> BasisPoints tier > BasisPoints capTier \<or> FixedMinor tier > FixedMinor capTier)"

definition ruleWithinCap :: "Rule \<Rightarrow> Rule \<Rightarrow> bool" where
  "ruleWithinCap rule cap \<longleftrightarrow>
     (if length (r_Tiers rule) \<noteq> length (r_Tiers cap) then False
      else list_all (\<lambda>(tier, capTier). tierWithin tier capTier)
             (zip (sortedTiers (r_Tiers rule)) (sortedTiers (r_Tiers cap))))"

section \<open>The amounts as mathematics\<close>

definition tierShare :: "Tier \<Rightarrow> int \<Rightarrow> int" where
  "tierShare t a =
     max 0 ((if MaxMinor t = 0 then a else min a (MaxMinor t)) - MinMinor t)
         * BasisPoints t div 10000
     + (if tierContains t a then FixedMinor t else 0)"

definition ruleShare :: "Rule \<Rightarrow> int \<Rightarrow> int" where
  "ruleShare r a = sum_list (map (\<lambda>t. tierShare t a) (r_Tiers r))"

text \<open>The fields have their Go type.\<close>

definition typedTier :: "Tier \<Rightarrow> bool" where
  "typedTier t \<longleftrightarrow> i64 (MinMinor t) \<and> i64 (MaxMinor t) \<and> i64 (BasisPoints t) \<and> i64 (FixedMinor t)"

definition typedRule :: "Rule \<Rightarrow> bool" where
  "typedRule r \<longleftrightarrow> list_all typedTier (r_Tiers r)"

lemma tierIntersection_math:
  assumes "validateTier t = Inr ()" "typedTier t" "0 \<le> a" "i64 a"
  shows "tierIntersection t a
         = max 0 ((if MaxMinor t = 0 then a else min a (MaxMinor t)) - MinMinor t)"
proof -
  have "0 \<le> MinMinor t" "0 \<le> MaxMinor t" "i64 (MaxMinor t)"
    using assms by (auto simp: validateTier_def typedTier_def ok_simps)
  moreover have "sub64 u (MinMinor t) = u - MinMinor t"
    if "MinMinor t < u" "i64 u" for u
    using that \<open>0 \<le> MinMinor t\<close> by (intro sub64_id) (simp add: i64_def)
  ultimately show ?thesis
    using assms(3,4) by (auto simp: tierIntersection_def Let_def)
qed

lemma tierIntersection_range:
  assumes "validateTier t = Inr ()" "typedTier t" "0 \<le> a" "i64 a"
  shows "0 \<le> tierIntersection t a \<and> tierIntersection t a \<le> a"
  using assms(1,3) unfolding tierIntersection_math [OF assms]
  by (auto simp: validateTier_def ok_simps)

lemma split_percentage:
  fixes m b :: int
  shows "m div 10000 * b + m mod 10000 * b div 10000 = m * b div 10000"
proof -
  have "m * b = (m div 10000 * 10000 + m mod 10000) * b"
    by simp
  also have "\<dots> = m mod 10000 * b + (m div 10000 * b) * 10000"
    by (simp only: ring_distribs ac_simps)
  finally have "m * b = m mod 10000 * b + (m div 10000 * b) * 10000" .
  then show ?thesis by (simp only: div_mult_self1)
qed

lemma percentage_le:
  fixes m b :: int
  assumes "0 \<le> m" "0 \<le> b" "b \<le> 10000"
  shows "0 \<le> m * b div 10000 \<and> m * b div 10000 \<le> m"
proof -
  have "m * b \<le> m * 10000" using assms by (intro mult_left_mono) auto
  then have "m * b div 10000 \<le> m * 10000 div 10000" by (intro zdiv_mono1) auto
  moreover have "0 \<le> m * b" using assms by simp
  ultimately show ?thesis by (simp add: pos_imp_zdiv_nonneg_iff)
qed

lemma percentageMinor_exact:
  assumes "i64 m" "0 \<le> m" "0 \<le> b" "b \<le> 10000"
  shows "percentageMinor m b = Inr (m * b div 10000)"
proof -
  have q: "quot64 m 10000 = m div 10000" and r: "rem64 m 10000 = m mod 10000"
    using assms by (simp_all add: quot64_nonneg rem64_nonneg)
  have d: "0 \<le> m div 10000 * b \<and> m div 10000 * b \<le> m"
  proof -
    have "m div 10000 * b \<le> m div 10000 * 10000"
      using assms by (intro mult_left_mono) (auto simp: pos_imp_zdiv_nonneg_iff)
    also have "\<dots> \<le> m"
      using div_mult_mod_eq [of m 10000] pos_mod_sign [of 10000 m] by linarith
    finally show ?thesis using assms by (simp add: pos_imp_zdiv_nonneg_iff)
  qed
  have e: "0 \<le> m mod 10000 * b \<and> m mod 10000 * b \<le> 10000 * 10000"
    using assms by (intro conjI mult_mono) (auto simp: less_imp_le)
  have "mul64 (m div 10000) b = m div 10000 * b"
    using i64_between [of "m div 10000 * b" m] d assms(1) by (intro mul64_id) blast
  moreover have "mul64 (m mod 10000) b = m mod 10000 * b"
    using e by (intro mul64_id) (simp add: i64_def)
  moreover have "quot64 (m mod 10000 * b) 10000 = m mod 10000 * b div 10000"
    using e by (intro quot64_nonneg) (auto simp: i64_def)
  moreover have "add64 (m div 10000 * b) (m mod 10000 * b div 10000) = m * b div 10000"
    using i64_between [of "m * b div 10000" m] percentage_le [OF assms(2-4)] assms(1)
    by (subst add64_id) (simp_all only: split_percentage)
  ultimately show ?thesis
    using assms q r by (simp add: percentageMinor_def basisPointDenominator_def Let_def)
qed

lemma tierShare_nonneg: "validateTier t = Inr () \<Longrightarrow> 0 \<le> tierShare t a"
  by (auto simp: tierShare_def validateTier_def ok_simps pos_imp_zdiv_nonneg_iff
      intro!: add_nonneg_nonneg)

lemma ruleShare_nonneg:
  "\<forall>t\<in>set (r_Tiers r). validateTier t = Inr () \<Longrightarrow> 0 \<le> ruleShare r a"
  unfolding ruleShare_def by (rule sum_list_nonneg) (auto intro: tierShare_nonneg)

text \<open>The loop adds up the shares and fails exactly when the sum does not fit.\<close>

lemma sumTiers_spec:
  assumes "\<forall>t\<in>set ts. validateTier t = Inr () \<and> typedTier t" "0 \<le> a" "i64 a"
    and "0 \<le> sofar" "sofar \<le> MaxInt64"
  shows "sumTiers a sofar ts =
    (let s = sofar + sum_list (map (\<lambda>t. tierShare t a) ts)
     in if s \<le> MaxInt64 then Inr s else Inl ErrAmountOverflow)"
  using assms(1,4,5)
proof (induction ts arbitrary: sofar)
  case Nil
  then show ?case by simp
next
  case (Cons t ts)
  define p where "p = tierIntersection t a * BasisPoints t div 10000"
  have v: "validateTier t = Inr ()" "typedTier t" using Cons.prems by auto
  note m = tierIntersection_math [OF v assms(2,3)]
  have bp: "0 \<le> BasisPoints t" "BasisPoints t \<le> 10000" "0 \<le> FixedMinor t" "i64 (FixedMinor t)"
    using v by (auto simp: validateTier_def typedTier_def basisPointDenominator_def ok_simps)
  have ti: "0 \<le> tierIntersection t a" "i64 (tierIntersection t a)"
    using tierIntersection_range [OF v assms(2,3)] assms(3) by (auto intro: i64_between)
  have pm: "percentageMinor (tierIntersection t a) (BasisPoints t) = Inr p"
    unfolding p_def using ti bp by (intro percentageMinor_exact) auto
  have p: "0 \<le> p" "i64 p"
    using percentage_le [OF ti(1) bp(1,2)] ti(2) by (auto simp: p_def intro: i64_between)
  have share: "tierShare t a = p + (if tierContains t a then FixedMinor t else 0)"
    by (simp add: tierShare_def p_def m)
  have rest: "0 \<le> sum_list (map (\<lambda>t. tierShare t a) ts)"
    using Cons.prems by (intro sum_list_nonneg) (auto intro: tierShare_nonneg)
  have sub: "sub64 MaxInt64 p = MaxInt64 - p" "sub64 MaxInt64 (FixedMinor t) = MaxInt64 - FixedMinor t"
    using p bp by (auto intro: sub64_MaxInt64)
  have add: "add64 x y = x + y" if "0 \<le> x" "0 \<le> y" "x + y \<le> MaxInt64" for x y
    using that by (intro add64_id i64_nonneg) auto
  show ?case
  proof (cases "sofar + p \<le> MaxInt64")
    case False
    then show ?thesis using pm sub share rest bp by (simp add: Let_def)
  next
    case fits: True
    have ih: "sumTiers a x ts =
      (if x + sum_list (map (\<lambda>t. tierShare t a) ts) \<le> MaxInt64
       then Inr (x + sum_list (map (\<lambda>t. tierShare t a) ts)) else Inl ErrAmountOverflow)"
      if "0 \<le> x" "x \<le> MaxInt64" for x
      using Cons.IH [OF _ that] Cons.prems by (simp add: Let_def)
    show ?thesis
    proof (cases "tierContains t a")
      case True
      then show ?thesis
        using pm sub share rest bp fits p Cons.prems
        by (simp add: Let_def add ih add.assoc)
    next
      case False
      then show ?thesis
        using pm sub share fits p Cons.prems by (simp add: Let_def add ih add.assoc)
    qed
  qed
qed

lemma ruleShare_sorted:
  "sum_list (map (\<lambda>t. tierShare t a) (sort_key f (r_Tiers r))) = ruleShare r a"
  unfolding ruleShare_def by (rule sum_list_mset_eq) simp

lemma calculateRule_spec:
  assumes "\<forall>t\<in>set (r_Tiers r). validateTier t = Inr ()" "typedRule r" "0 \<le> a" "i64 a"
  shows "calculateRule r a
         = (if ruleShare r a \<le> MaxInt64 then Inr (ruleShare r a) else Inl ErrAmountOverflow)"
  unfolding calculateRule_def
  using assms sumTiers_spec [of "sort_key MinMinor (r_Tiers r)" a 0]
  by (simp add: typedRule_def list_all_iff Let_def ruleShare_sorted MaxInt64_def)


section \<open>Calculations of a template\<close>

definition templateShare :: "Template \<Rightarrow> int \<Rightarrow> int" where
  "templateShare t a = sum_list (map (\<lambda>r. ruleShare r a) (t_Rules t))"

definition expectedCalculation :: "CommissionEvent \<Rightarrow> Rule \<Rightarrow> Calculation" where
  "expectedCalculation ev r =
     \<lparr>calc_Slot = r_Slot r, calc_Beneficiary = r_Beneficiary r,
      calc_Amount = \<lparr>Currency = Currency (ev_Commissionable ev),
                     Minor = ruleShare r (Minor (ev_Commissionable ev))\<rparr>\<rparr>"

definition expectedCalculations :: "CommissionEvent \<Rightarrow> Rule list \<Rightarrow> Calculation list" where
  "expectedCalculations ev rs =
     map (expectedCalculation ev)
       (filter (\<lambda>r. ruleShare r (Minor (ev_Commissionable ev)) \<noteq> 0) rs)"

definition typedTemplate :: "Template \<Rightarrow> bool" where
  "typedTemplate t \<longleftrightarrow> list_all typedRule (t_Rules t) \<and> i64 (Minor (t_MaxCommission t))"

definition typedEvent :: "CommissionEvent \<Rightarrow> bool" where
  "typedEvent ev \<longleftrightarrow> i64 (Minor (ev_Commissionable ev))"

lemma expectedCalculations_simps [simp]:
  "expectedCalculations ev [] = []"
  "expectedCalculations ev (r # rs) =
     (if ruleShare r (Minor (ev_Commissionable ev)) = 0 then []
      else [expectedCalculation ev r]) @ expectedCalculations ev rs"
  by (simp_all add: expectedCalculations_def)

lemma validateRule_tiers_ok:
  "validateRule r b = Inr u \<Longrightarrow> \<forall>t\<in>set (r_Tiers r). validateTier t = Inr ()"
  by (auto dest: validateRule_tiers)

lemma rules_share_nonneg:
  "\<forall>r\<in>set rs. validateRule r False = Inr () \<Longrightarrow> 0 \<le> (\<Sum>r\<leftarrow>rs. ruleShare r a)"
  by (rule sum_list_nonneg) (auto intro: ruleShare_nonneg dest: validateRule_tiers)

lemma calculateRules_iff:
  assumes "\<forall>r\<in>set rs. validateRule r False = Inr () \<and> typedRule r"
    and "0 \<le> sofar" "sofar \<le> MaxInt64"
    and "capEnabled t \<Longrightarrow> sofar \<le> Minor (t_MaxCommission t)"
    and a: "0 \<le> Minor (ev_Commissionable ev)" "i64 (Minor (ev_Commissionable ev))"
  shows "calculateRules t ev sofar acc rs = Inr cs \<longleftrightarrow>
    (\<forall>r\<in>set rs. validateRule r True = Inr ())
    \<and> sofar + (\<Sum>r\<leftarrow>rs. ruleShare r (Minor (ev_Commissionable ev))) \<le> MaxInt64
    \<and> (capEnabled t \<longrightarrow>
         sofar + (\<Sum>r\<leftarrow>rs. ruleShare r (Minor (ev_Commissionable ev))) \<le> Minor (t_MaxCommission t))
    \<and> cs = acc @ expectedCalculations ev rs"
  using assms(1-4)
proof (induction rs arbitrary: sofar acc)
  case Nil
  then show ?case by auto
next
  case (Cons r rs)
  define m where "m = ruleShare r (Minor (ev_Commissionable ev))"
  define rest where "rest = (\<Sum>r\<leftarrow>rs. ruleShare r (Minor (ev_Commissionable ev)))"
  have r: "\<forall>t\<in>set (r_Tiers r). validateTier t = Inr ()" "typedRule r"
    using Cons.prems(1) validateRule_tiers_ok [of r False] by auto
  have m: "0 \<le> m" using r(1) by (simp add: m_def ruleShare_nonneg)
  have rest: "0 \<le> rest" unfolding rest_def using Cons.prems(1) by (intro rules_share_nonneg) auto
  note spec = calculateRule_spec [OF r a, folded m_def]
  have ih: "calculateRules t ev x acc' rs = Inr cs \<longleftrightarrow>
      (\<forall>r\<in>set rs. validateRule r True = Inr ()) \<and> x + rest \<le> MaxInt64
      \<and> (capEnabled t \<longrightarrow> x + rest \<le> Minor (t_MaxCommission t))
      \<and> cs = acc' @ expectedCalculations ev rs"
    if "0 \<le> x" "x \<le> MaxInt64" "capEnabled t \<Longrightarrow> x \<le> Minor (t_MaxCommission t)" for x acc'
    using Cons.IH [of x acc'] that Cons.prems(1) unfolding rest_def by simp
  show ?case
  proof (cases "validateRule r True")
    case (Inl e)
    then show ?thesis by simp
  next
    case (Inr u)
    show ?thesis
    proof (cases "sofar + m \<le> MaxInt64 \<and> (capEnabled t \<longrightarrow> sofar + m \<le> Minor (t_MaxCommission t))")
      case fits: True
      have "m \<le> MaxInt64" using fits Cons.prems(2) by simp
      moreover have "add64 sofar m = sofar + m"
        using fits Cons.prems(2) m by (intro add64_id i64_nonneg) auto
      moreover have "sub64 MaxInt64 m = MaxInt64 - m"
        using m \<open>m \<le> MaxInt64\<close> by (intro sub64_MaxInt64 i64_nonneg) auto
      ultimately show ?thesis
        using Inr fits spec m Cons.prems(2-4) ih [of "sofar + m"] ih [of sofar]
        by (auto simp: Let_def expectedCalculation_def m_def [symmetric] rest_def [symmetric]
            add.assoc)
    next
      case over: False
      have "sub64 MaxInt64 m = MaxInt64 - m" if "m \<le> MaxInt64"
        using m that by (intro sub64_MaxInt64 i64_nonneg) auto
      moreover have "m \<noteq> 0" using over Cons.prems(3,4) by auto
      moreover have "add64 sofar m = sofar + m" if "sofar + m \<le> MaxInt64"
        using that Cons.prems(2) m by (intro add64_id i64_nonneg) auto
      ultimately have "calculateRules t ev sofar acc (r # rs) \<noteq> Inr cs"
        using Inr spec over m by (auto simp: Let_def)
      moreover have "\<not> (sofar + (m + rest) \<le> MaxInt64 \<and>
          (capEnabled t \<longrightarrow> sofar + (m + rest) \<le> Minor (t_MaxCommission t)))"
        using over rest by auto
      ultimately show ?thesis by (auto simp: m_def rest_def)
    qed
  qed
qed

text \<open>The checks \<open>Calculate\<close> makes before the loop.\<close>

definition calculable :: "Template \<Rightarrow> CommissionEvent \<Rightarrow> bool" where
  "calculable t ev \<longleftrightarrow>
     validateCommissionEvent ev = Inr () \<and> validateCalculationTemplate t = Inr ()
     \<and> ev_SourceType ev \<in> set (t_AllowedEventTypes t)
     \<and> (capEnabled t \<longrightarrow> Currency (t_MaxCommission t) = Currency (ev_Commissionable ev))"

lemma Calculate_eq:
  "Calculate t ev = Inr cs \<longleftrightarrow>
     calculable t ev \<and> calculateRules t ev 0 [] (t_Rules t) = Inr cs"
  by (auto simp: Calculate_def calculable_def allowsEventType_def ok_simps list_ex_iff)

lemma calculable_typed:
  assumes "calculable t ev" "typedTemplate t" "typedEvent ev"
  shows "\<forall>r\<in>set (t_Rules t). validateRule r False = Inr () \<and> typedRule r"
    and "0 \<le> Minor (ev_Commissionable ev)" and "i64 (Minor (ev_Commissionable ev))"
    and "0 \<le> Minor (t_MaxCommission t)"
  using assms
  by (auto simp: calculable_def validateCalculationTemplate_def validateCommissionEvent_def
      typedTemplate_def typedEvent_def ok_simps list_all_iff
      dest: validAmount_nonneg optionalAmountValid_nonneg split: if_splits)

lemma Calculate_exact_iff:
  assumes "typedTemplate t" and "typedEvent ev"
  shows "Calculate t ev = Inr cs \<longleftrightarrow>
    calculable t ev
    \<and> (\<forall>r\<in>set (t_Rules t). validateRule r True = Inr ())
    \<and> templateShare t (Minor (ev_Commissionable ev)) \<le> MaxInt64
    \<and> (capEnabled t \<longrightarrow>
        templateShare t (Minor (ev_Commissionable ev)) \<le> Minor (t_MaxCommission t))
    \<and> cs = expectedCalculations ev (t_Rules t)"
proof (cases "calculable t ev")
  case True
  note c = calculable_typed [OF this assms]
  show ?thesis
    using calculateRules_iff [OF c(1), of 0 t ev "[]" cs] c True
    by (simp add: Calculate_eq templateShare_def MaxInt64_def)
next
  case False
  then show ?thesis by (simp add: Calculate_eq)
qed

text \<open>
  C27. What the calculator returns. For a template and an event whose fields have their Go
  types, \<open>Calculate\<close> succeeds exactly when the event and the template are valid, the event
  type is allowed, the currencies agree under a cap, every rule names a valid beneficiary,
  and the exact sum of the rules' shares fits in an \<open>int64\<close> and under the cap; and then it
  returns one calculation per rule with a non-zero share, in the order of the rules,
  with exactly that share. In particular no overflow is silent and no rule is skipped.
\<close>

theorem Calculate_exact:
  assumes "typedTemplate t" and "typedEvent ev"
  shows "Calculate t ev = Inr cs \<longleftrightarrow>
    calculable t ev
    \<and> (\<forall>r\<in>set (t_Rules t). validateRule r True = Inr ())
    \<and> templateShare t (Minor (ev_Commissionable ev)) \<le> MaxInt64
    \<and> (capEnabled t \<longrightarrow>
        templateShare t (Minor (ev_Commissionable ev)) \<le> Minor (t_MaxCommission t))
    \<and> cs = expectedCalculations ev (t_Rules t)"
  by (rule Calculate_exact_iff [OF assms])

section \<open>A rule under a cap never pays more than the cap\<close>

lemma tierWithin_share: "tierWithin t c \<Longrightarrow> tierShare t a \<le> tierShare c a"
  by (auto simp: tierShare_def tierWithin_def tierContains_def
      intro!: add_mono zdiv_mono1 mult_left_mono)

lemma list_all_zip_sum_le:
  fixes f g :: "'a \<Rightarrow> int"
  assumes "length xs = length ys" "list_all (\<lambda>(x, y). P x y) (zip xs ys)"
    and "\<And>x y. P x y \<Longrightarrow> f x \<le> f y"
  shows "sum_list (map f xs) \<le> sum_list (map f ys)"
  using assms(1,2) by (induction xs ys rule: list_induct2) (auto intro: add_mono assms(3))

lemma ruleWithinCap_share: "ruleWithinCap r c \<Longrightarrow> ruleShare r a \<le> ruleShare c a"
proof -
  assume w: "ruleWithinCap r c"
  have "ruleShare r a = (\<Sum>t\<leftarrow>sortedTiers (r_Tiers r). tierShare t a)"
    by (simp add: sortedTiers_def ruleShare_sorted)
  also have "\<dots> \<le> (\<Sum>t\<leftarrow>sortedTiers (r_Tiers c). tierShare t a)"
    using w
    by (intro list_all_zip_sum_le [where P = tierWithin])
       (auto simp: ruleWithinCap_def sortedTiers_def tierWithin_share split: if_splits)
  also have "\<dots> = ruleShare c a" by (simp add: sortedTiers_def ruleShare_sorted)
  finally show ?thesis .
qed

text \<open>
  A program's rule that \<open>ruleWithinCap\<close> accepts never earns more than the template's
  rule: at every amount for which the template's own rule can be calculated, the
  program's rule can be calculated too, and its commission is no larger.
\<close>

theorem ruleWithinCap_sound:
  assumes "ruleWithinCap r c" and "calculateRule c a = Inr y"
    and "validateRule r b = Inr ()" and "validateRule c b' = Inr ()"
    and "typedRule r" and "typedRule c" and "0 \<le> a" and "i64 a"
  shows "\<exists>x. calculateRule r a = Inr x \<and> 0 \<le> x \<and> x \<le> y"
  using assms(2) calculateRule_spec [OF validateRule_tiers_ok [OF assms(4)] assms(6-8)]
    calculateRule_spec [OF validateRule_tiers_ok [OF assms(3)] assms(5,7,8)]
    ruleWithinCap_share [OF assms(1), of a]
    ruleShare_nonneg [OF validateRule_tiers_ok [OF assms(3)], of a]
  by (auto split: if_splits)

section \<open>Tiers that do not overlap\<close>

fun nonOverlapping :: "Tier list \<Rightarrow> bool" where
  "nonOverlapping [] = True"
| "nonOverlapping [t] = True"
| "nonOverlapping (t # u # ts) =
     (MaxMinor t \<noteq> 0 \<and> MaxMinor t \<le> MinMinor u \<and> nonOverlapping (u # ts))"

lemma nonOverlapping_Cons:
  assumes "nonOverlapping (t # ts)" "\<forall>u\<in>set ts. validateTier u = Inr ()" "u \<in> set ts"
  shows "MaxMinor t \<noteq> 0 \<and> MaxMinor t \<le> MinMinor u"
  using assms
proof (induction ts arbitrary: t)
  case Nil
  then show ?case by simp
next
  case (Cons v vs)
  then have "u = v \<or> MaxMinor v \<noteq> 0 \<and> MaxMinor v \<le> MinMinor u" by auto
  then show ?case using Cons.prems by (auto simp: validateTier_def ok_simps)
qed

lemma nonOverlapping_tl: "nonOverlapping (t # ts) \<Longrightarrow> nonOverlapping ts"
  by (cases ts) auto

lemma nonOverlapping_sum:
  assumes "nonOverlapping ts" "\<forall>t\<in>set ts. validateTier t = Inr () \<and> l \<le> MinMinor t \<and> FixedMinor t \<le> f"
    and "0 \<le> f"
  shows "(\<Sum>t\<leftarrow>ts. tierShare t a) \<le> max 0 (a - l) + (if \<exists>t\<in>set ts. tierContains t a then f else 0)"
  using assms(1,2)
proof (induction ts arbitrary: l)
  case Nil
  then show ?case by simp
next
  case (Cons t ts)
  have t: "0 \<le> BasisPoints t" "BasisPoints t \<le> 10000" "l \<le> MinMinor t" "FixedMinor t \<le> f"
      "MaxMinor t = 0 \<or> MinMinor t < MaxMinor t" "0 \<le> MaxMinor t"
    using Cons.prems(2) by (auto simp: validateTier_def ok_simps basisPointDenominator_def)
  define w where "w = max 0 ((if MaxMinor t = 0 then a else min a (MaxMinor t)) - MinMinor t)"
  have share: "tierShare t a \<le> w + (if tierContains t a then f else 0)"
    using percentage_le [of w "BasisPoints t"] t by (auto simp: tierShare_def w_def)
  have gap: "MaxMinor t \<noteq> 0 \<and> MaxMinor t \<le> MinMinor u" if "u \<in> set ts" for u
    using nonOverlapping_Cons [OF Cons.prems(1) _ that] Cons.prems(2) by auto
  show ?case
  proof (cases "ts = [] \<or> a < MaxMinor t")
    case True
    have "tierShare u a = 0 \<and> \<not> tierContains u a" if "u \<in> set ts" for u
      using gap [OF that] that True Cons.prems(2)
      by (auto simp: tierShare_def tierContains_def validateTier_def ok_simps)
    then have "map (\<lambda>t. tierShare t a) ts = map (\<lambda>_. 0) ts" and "\<not> (\<exists>t\<in>set ts. tierContains t a)"
      by auto
    then have "(\<Sum>t\<leftarrow>ts. tierShare t a) = 0" and "\<not> (\<exists>t\<in>set ts. tierContains t a)"
      by (simp_all only: sum_list_0) blast
    moreover have "w \<le> max 0 (a - l)"
      using t(3) by (simp add: w_def max_def min_def)
    ultimately show ?thesis using share by (simp only: list.map sum_list.Cons) auto
  next
    case False
    then have m: "MaxMinor t \<noteq> 0" "MaxMinor t \<le> a"
      using gap [of "hd ts"] by (simp_all add: hd_in_set)
    have "(\<Sum>t\<leftarrow>ts. tierShare t a)
        \<le> max 0 (a - MaxMinor t) + (if \<exists>t\<in>set ts. tierContains t a then f else 0)"
      using Cons.prems gap by (intro Cons.IH nonOverlapping_tl [OF Cons.prems(1)]) auto
    moreover have "\<not> tierContains t a" using m by (simp add: tierContains_def)
    moreover have "w \<le> MaxMinor t - MinMinor t" using m t(5) by (auto simp: w_def)
    ultimately show ?thesis using share t(3) m by auto
  qed
qed

text \<open>
  For tiers that do not overlap (which the code allows but does not require), the
  percentage part is taken at most once from each minor unit and at most one fixed amount
  applies: the commission of the rule is at most the commissionable amount plus the
  largest fixed amount.
\<close>

theorem calculateRule_nonOverlapping_bound:
  assumes "calculateRule r a = Inr x" and "nonOverlapping (sort_key MinMinor (r_Tiers r))"
    and "validateRule r b = Inr ()" and "typedRule r" and "0 \<le> a" and "i64 a"
    and "0 \<le> f" and "\<forall>t\<in>set (r_Tiers r). FixedMinor t \<le> f"
  shows "0 \<le> x \<and> x \<le> a + f"
proof -
  note v = validateRule_tiers_ok [OF assms(3)]
  have "x = ruleShare r a"
    using assms(1) calculateRule_spec [OF v assms(4-6)] by (simp split: if_splits)
  moreover have "ruleShare r a \<le> max 0 (a - 0)
      + (if \<exists>t\<in>set (sort_key MinMinor (r_Tiers r)). tierContains t a then f else 0)"
    unfolding ruleShare_sorted [of a MinMinor r, symmetric]
    using v assms(7,8) by (intro nonOverlapping_sum [OF assms(2)]) (auto simp: validateTier_def ok_simps)
  ultimately show ?thesis
    using ruleShare_nonneg [OF v, of a] assms(5,7) by (auto split: if_splits)
qed

section \<open>A concrete template\<close>

definition sampleTiers :: "Tier list" where
  "sampleTiers =
     [\<lparr>MinMinor = 100000, MaxMinor = 0, BasisPoints = 250, FixedMinor = 0\<rparr>,
      \<lparr>MinMinor = 0, MaxMinor = 100000, BasisPoints = 500, FixedMinor = 30\<rparr>]"

definition sampleRule :: Rule where
  "sampleRule = \<lparr>r_Slot = ''agent'',
     r_Beneficiary = \<lparr>b_Kind = BeneficiaryKindUser, b_ID = ''u1''\<rparr>, r_Tiers = sampleTiers\<rparr>"

definition sampleTemplate :: Template where
  "sampleTemplate = \<lparr>t_ID = ''tpl'', t_Version = 1, t_Status = TemplateStatusActive,
     t_CreatedAt = 10, t_UpdatedAt = 10, t_AllowedEventTypes = [''order''],
     t_MaxCommission = \<lparr>Currency = ''USD'', Minor = 20000\<rparr>, t_FreezePeriod = 5,
     t_Rules = [sampleRule]\<rparr>"

definition sampleEvent :: CommissionEvent where
  "sampleEvent = \<lparr>ev_TenantID = ''t1'', ev_SourceType = ''order'', ev_SourceID = ''o1'',
     ev_OccurredAt = 20, ev_Commissionable = \<lparr>Currency = ''USD'', Minor = 120000\<rparr>,
     ev_Attributes = None\<rparr>"

lemma TrimSpace_sample [simp]:
  "TrimSpace ''agent'' = ''agent''" "TrimSpace ''u1'' = ''u1''" "TrimSpace ''tpl'' = ''tpl''"
  "TrimSpace ''order'' = ''order''" "TrimSpace ''o1'' = ''o1''"
  by (simp_all add: TrimSpace_def unicode_spaces_def)

lemmas sample_defs = sampleTiers_def sampleRule_def sampleTemplate_def sampleEvent_def

lemma sample_typed: "typedTemplate sampleTemplate" "typedEvent sampleEvent" "typedRule sampleRule"
  by (simp_all add: typedTemplate_def typedEvent_def typedRule_def typedTier_def i64_def sample_defs)

lemma sample_rule_valid: "validateRule sampleRule b = Inr ()"
  by (simp add: validateRule_def validateTier_def validBeneficiary_def basisPointDenominator_def
      sample_defs)

lemma sample_share: "ruleShare sampleRule 120000 = 5500"
  by (simp add: ruleShare_def tierShare_def tierContains_def sample_defs)

lemma sample_calculateRule: "calculateRule sampleRule 120000 = Inr 5500"
  using calculateRule_spec [OF validateRule_tiers_ok [OF sample_rule_valid] sample_typed(3),
      of 120000]
  by (simp add: sample_share i64_def MaxInt64_def)

lemma sample_calculable: "calculable sampleTemplate sampleEvent"
  using sample_rule_valid [of False]
  by (simp add: calculable_def validateCommissionEvent_def validateCalculationTemplate_def
      optionalAmountValid_def validAmount_def currencyCodeLength_def IsZero_def capEnabled_def
      sampleTemplate_def sampleEvent_def less_eq_char_def less_char_def)

lemma sample_expected:
  "expectedCalculations sampleEvent (t_Rules sampleTemplate) =
     [\<lparr>calc_Slot = ''agent'', calc_Beneficiary = \<lparr>b_Kind = BeneficiaryKindUser, b_ID = ''u1''\<rparr>,
       calc_Amount = \<lparr>Currency = ''USD'', Minor = 5500\<rparr>\<rparr>]"
  "templateShare sampleTemplate (Minor (ev_Commissionable sampleEvent)) = 5500"
  using sample_share
  by (simp_all add: templateShare_def expectedCalculation_def sampleTemplate_def sampleEvent_def)
     (simp add: sampleRule_def)

lemma sample_cap: "Minor (t_MaxCommission sampleTemplate) = 20000" "t_Rules sampleTemplate = [sampleRule]"
  by (simp_all add: sampleTemplate_def)

theorem Calculate_exact_witness:
  "Calculate sampleTemplate sampleEvent = Inr
     [\<lparr>calc_Slot = ''agent'', calc_Beneficiary = \<lparr>b_Kind = BeneficiaryKindUser, b_ID = ''u1''\<rparr>,
       calc_Amount = \<lparr>Currency = ''USD'', Minor = 5500\<rparr>\<rparr>]"
  using Calculate_exact [OF sample_typed(1,2)] sample_rule_valid [of True] sample_calculable
    sample_expected sample_cap
  by (simp add: MaxInt64_def)

lemma sample_Calculate:
  "Calculate sampleTemplate sampleEvent = Inr
     [\<lparr>calc_Slot = ''agent'', calc_Beneficiary = \<lparr>b_Kind = BeneficiaryKindUser, b_ID = ''u1''\<rparr>,
       calc_Amount = \<lparr>Currency = ''USD'', Minor = 5500\<rparr>\<rparr>]"
  using Calculate_exact_iff [OF sample_typed(1,2)] sample_rule_valid [of True] sample_calculable
    sample_expected sample_cap
  by (simp add: MaxInt64_def)

theorem ruleWithinCap_sound_witness:
  "\<exists>x. calculateRule sampleRule 120000 = Inr x \<and> 0 \<le> x \<and> x \<le> 5500"
proof (rule ruleWithinCap_sound [OF _ sample_calculateRule sample_rule_valid sample_rule_valid
        sample_typed(3) sample_typed(3)])
  show "ruleWithinCap sampleRule sampleRule"
    by (simp add: ruleWithinCap_def sortedTiers_def tierWithin_def tierKey_def sample_defs)
qed (simp_all add: i64_def)

theorem calculateRule_nonOverlapping_bound_witness:
  "calculateRule sampleRule 120000 = Inr 5500 \<and> 0 \<le> (5500::int) \<and> (5500::int) \<le> 120000 + 30"
proof (rule conjI [OF sample_calculateRule], rule calculateRule_nonOverlapping_bound [OF sample_calculateRule _ sample_rule_valid
        sample_typed(3)])
  show "nonOverlapping (sort_key MinMinor (r_Tiers sampleRule))"
    by (simp add: sample_defs)
qed (simp_all add: i64_def sample_defs)

end
