(* ===== verification/Decimals.thy ===== *)
theory Decimals
  imports Prelude
begin

text \<open>
  Decimal numerals of the Go library: \<open>strconv.FormatInt(v, 10)\<close> and
  \<open>strconv.ParseInt(s, 10, 64)\<close>, and that the second reads back what the first wrote.
\<close>

definition digitChar :: "nat \<Rightarrow> char" where
  "digitChar d = char_of (48 + d)"

fun natDigits :: "nat \<Rightarrow> string" where
  "natDigits n =
     (if n < 10 then [digitChar n] else natDigits (n div 10) @ [digitChar (n mod 10)])"

declare natDigits.simps [simp del]

definition FormatInt :: "int64 \<Rightarrow> string" where
  "FormatInt v = (if v < 0 then CHR ''-'' # natDigits (nat (- v)) else natDigits (nat v))"

definition isDigit :: "char \<Rightarrow> bool" where
  "isDigit c \<longleftrightarrow> CHR ''0'' \<le> c \<and> c \<le> CHR ''9''"

definition digitsValue :: "string \<Rightarrow> int" where
  "digitsValue ds = foldl (\<lambda>n c. 10 * n + (of_char c - 48)) 0 ds"

text \<open>An optional sign, one or more digits, and a value in the range.\<close>

definition readInt :: "string \<Rightarrow> int option" where
  "readInt s =
     (let (neg, ds) = (case s of [] \<Rightarrow> (False, [])
            | c # cs \<Rightarrow> if c = CHR ''-'' then (True, cs)
                        else if c = CHR ''+'' then (False, cs) else (False, s))
      in if ds = [] \<or> \<not> list_all isDigit ds then None
         else Some (if neg then - digitsValue ds else digitsValue ds))"

definition ParseInt64 :: "string \<Rightarrow> int64 option" where
  "ParseInt64 s = (case readInt s of None \<Rightarrow> None | Some v \<Rightarrow> if i64 v then Some v else None)"

lemma of_char_digitChar: "d < 10 \<Longrightarrow> of_char (digitChar d) = 48 + d"
  by (simp add: digitChar_def of_char_of)

lemma of_char_digitChar_int: "d < 10 \<Longrightarrow> (of_char (digitChar d) :: int) = 48 + int d"
proof -
  assume "d < 10"
  then have "int (of_char (digitChar d)) = 48 + int d" by (simp add: of_char_digitChar)
  then show ?thesis by (metis of_nat_of_char)
qed

lemma less_eq_char_nat: "c \<le> d \<longleftrightarrow> (of_char c :: nat) \<le> of_char d"
  by (simp add: less_eq_char_def)

lemma isDigit_digitChar: "d < 10 \<Longrightarrow> isDigit (digitChar d)"
  by (simp add: isDigit_def less_eq_char_nat of_char_digitChar)

lemma natDigits_neq_Nil: "natDigits n \<noteq> []"
  by (subst natDigits.simps) simp

lemma natDigits_isDigit: "list_all isDigit (natDigits n)"
  by (induction n rule: natDigits.induct)
     (subst natDigits.simps, simp add: isDigit_digitChar)

lemma digitsValue_natDigits: "digitsValue (natDigits n) = int n"
proof (induction n rule: natDigits.induct)
  case (1 n)
  show ?case
  proof (cases "n < 10")
    case True
    then show ?thesis by (subst natDigits.simps) (simp add: digitsValue_def of_char_digitChar_int)
  next
    case False
    then have "digitsValue (natDigits n) = 10 * digitsValue (natDigits (n div 10)) + int (n mod 10)"
      by (subst natDigits.simps) (simp add: digitsValue_def of_char_digitChar_int)
    then show ?thesis using "1.IH" [OF False] by (simp add: zmod_int zdiv_int)
  qed
qed

lemma natDigits_head: "\<exists>c cs. natDigits n = c # cs \<and> isDigit c"
  using natDigits_neq_Nil [of n] natDigits_isDigit [of n] by (cases "natDigits n") simp_all

lemma readInt_FormatInt: "readInt (FormatInt v) = Some v"
proof -
  obtain c cs where "natDigits (nat v) = c # cs" "isDigit c" using natDigits_head by blast
  moreover have "isDigit c \<Longrightarrow> c \<noteq> CHR ''-'' \<and> c \<noteq> CHR ''+''"
    by (auto simp: isDigit_def less_eq_char_nat)
  ultimately show ?thesis
    using natDigits_isDigit [of "nat v"] natDigits_isDigit [of "nat (- v)"]
      digitsValue_natDigits [of "nat v"] digitsValue_natDigits [of "nat (- v)"]
    by (auto simp: readInt_def FormatInt_def Let_def natDigits_neq_Nil)
qed

lemma ParseInt64_FormatInt: "i64 v \<Longrightarrow> ParseInt64 (FormatInt v) = Some v"
  by (simp add: ParseInt64_def readInt_FormatInt)

lemma FormatInt_inject: "FormatInt v = FormatInt w \<longleftrightarrow> v = w"
  by (metis readInt_FormatInt option.inject)

lemma FormatInt_neq_Nil: "FormatInt v \<noteq> []"
  by (simp add: FormatInt_def natDigits_neq_Nil)

end
