(* ===== verification/Commission_Records.thy ===== *)
theory Commission_Records
  imports Commission_Lifecycle Commission_Formula Decimals
begin

text \<open>
  The records of \<open>service.go\<close> (programs, attributions, earnings, journals, outbox,
  settlements, event commits) and the identifiers and fingerprints of \<open>identifiers.go\<close>.

  The source hashes the JSON encoding of a value with SHA-256. Here the value handed to
  \<open>json.Marshal\<close> is a \<open>json\<close> term, and the composition of marshalling, hashing and hex
  encoding is a pair of functions \<open>digests\<close>, an argument of every definition that needs
  it: \<open>digest16\<close> keeps the first 16 bytes of the hash, \<open>digest32\<close> all of it. Where
  distinct identifiers matter, that they do not collide is a named hypothesis.
\<close>

section \<open>Programs, attributions, earnings\<close>

record Program =
  p_ID :: string
  p_TenantID :: TenantID
  p_TemplateID :: string
  p_TemplateVersion :: int64
  p_Status :: ProgramStatus
  p_Version :: int64
  p_Rules :: "Rule list"
  p_CreatedAt :: Time
  p_UpdatedAt :: Time

record Attribution =
  a_TenantID :: TenantID
  a_ProgramID :: string
  a_Slot :: string
  a_Beneficiary :: BeneficiaryRef
  a_Active :: bool
  a_Version :: int64
  a_CreatedAt :: Time
  a_UpdatedAt :: Time

record Earning =
  e_ID :: string
  e_TenantID :: TenantID
  e_ProgramID :: string
  e_TemplateID :: string
  e_TemplateVersion :: int64
  e_SourceType :: string
  e_SourceID :: string
  e_Slot :: string
  e_Beneficiary :: BeneficiaryRef
  e_Amount :: Amount
  e_Status :: EarningStatus
  e_AvailableAt :: Time
  e_Version :: int64
  e_CreatedAt :: Time
  e_UpdatedAt :: Time

text \<open>What reading an absent key of \<open>map[string]Earning\<close> gives.\<close>

definition zeroEarning :: Earning where
  "zeroEarning = \<lparr>e_ID = [], e_TenantID = [], e_ProgramID = [], e_TemplateID = [],
     e_TemplateVersion = 0, e_SourceType = [], e_SourceID = [], e_Slot = [],
     e_Beneficiary = \<lparr>b_Kind = kindUnset, b_ID = []\<rparr>, e_Amount = zeroAmount,
     e_Status = EarningStatusOther [], e_AvailableAt = 0, e_Version = 0, e_CreatedAt = 0,
     e_UpdatedAt = 0\<rparr>"

section \<open>Journal, outbox, settlements\<close>

datatype JournalKind =
  JournalKindAccrual | JournalKindAvailable | JournalKindHeld | JournalKindSettlement
| JournalKindReversal | JournalKindRecovery | JournalKindOther string

definition validJournalKind :: "JournalKind \<Rightarrow> bool" where
  "validJournalKind kind = (case kind of JournalKindOther _ \<Rightarrow> False | _ \<Rightarrow> True)"

fun journalKindString :: "JournalKind \<Rightarrow> string" where
  "journalKindString JournalKindAccrual = ''accrual''"
| "journalKindString JournalKindAvailable = ''available''"
| "journalKindString JournalKindHeld = ''held''"
| "journalKindString JournalKindSettlement = ''settlement''"
| "journalKindString JournalKindReversal = ''reversal''"
| "journalKindString JournalKindRecovery = ''recovery''"
| "journalKindString (JournalKindOther s) = s"

record JournalEntry =
  j_ID :: string
  j_TenantID :: TenantID
  j_EarningID :: string
  j_Kind :: JournalKind
  j_Amount :: Amount
  j_CreatedAt :: Time

record OutboxEvent =
  o_ID :: string
  o_TenantID :: TenantID
  o_Type :: string
  o_AggregateID :: string
  o_Payload :: "(string, string) gomap"
  o_CreatedAt :: Time
  o_PublishedAt :: "Time option"

datatype SettlementStatus =
  SettlementStatusSubmitted | SettlementStatusSettled | SettlementStatusRejected
| SettlementStatusOther string

fun settlementStatusString :: "SettlementStatus \<Rightarrow> string" where
  "settlementStatusString SettlementStatusSubmitted = ''submitted''"
| "settlementStatusString SettlementStatusSettled = ''settled''"
| "settlementStatusString SettlementStatusRejected = ''rejected''"
| "settlementStatusString (SettlementStatusOther s) = s"

record Settlement =
  s_ID :: string
  s_TenantID :: TenantID
  s_Beneficiary :: BeneficiaryRef
  s_Amount :: Amount
  s_EarningIDs :: "string list"
  s_Status :: SettlementStatus
  s_ProviderReference :: string
  s_Version :: int64
  s_CreatedAt :: Time
  s_UpdatedAt :: Time

record EventCommit =
  c_Event :: CommissionEvent
  c_ProgramID :: string
  c_ProgramVersion :: int64
  c_TemplateID :: string
  c_TemplateVersion :: int64
  c_AttributionVersions :: "(string, int64) gomap option"
  c_Earnings :: "Earning list"
  c_Journals :: "JournalEntry list"
  c_Outbox :: "OutboxEvent list"

section \<open>Filters\<close>

record EarningFilter =
  ef_ProgramID :: string
  ef_Beneficiary :: "BeneficiaryRef option"
  ef_Statuses :: "EarningStatus list"
  ef_Cursor :: string
  ef_Limit :: int

record OutboxCursor =
  oc_CreatedAt :: Time
  oc_ID :: string

record OutboxFilter =
  of_UnpublishedOnly :: bool
  of_Cursor :: OutboxCursor
  of_Limit :: int

definition OutboxCursorFor :: "OutboxEvent \<Rightarrow> OutboxCursor" where
  "OutboxCursorFor event = \<lparr>oc_CreatedAt = o_CreatedAt event, oc_ID = o_ID event\<rparr>"

section \<open>Identifiers and fingerprints\<close>

text \<open>
  \<open>JTime\<close> is the string an instant is formatted to (RFC 3339 with nanoseconds, in UTC),
  which is one string per instant.
\<close>

datatype json =
  JNull | JString string | JInt int | JTime Time | JArray "json list"
| JObject "(string \<times> json) list"

record digests =
  digest16 :: "json \<Rightarrow> string"
  digest32 :: "json \<Rightarrow> string"

fun beneficiaryKindString :: "BeneficiaryKind \<Rightarrow> string" where
  "beneficiaryKindString BeneficiaryKindTenant = ''tenant''"
| "beneficiaryKindString BeneficiaryKindUser = ''user''"
| "beneficiaryKindString BeneficiaryKindExternal = ''external''"
| "beneficiaryKindString (BeneficiaryKindOther s) = s"

definition stableID :: "digests \<Rightarrow> string \<Rightarrow> string list \<Rightarrow> string" where
  "stableID D prefix parts =
     prefix @ ''_'' @ digest16 D (JArray (map JString (prefix # parts)))"

definition earningID ::
  "digests \<Rightarrow> CommissionEvent \<Rightarrow> string \<Rightarrow> string \<Rightarrow> BeneficiaryRef \<Rightarrow> string" where
  "earningID D event programID slot beneficiary =
     stableID D ''earning''
       [ev_TenantID event, ev_SourceType event, ev_SourceID event, programID, slot,
        beneficiaryKindString (b_Kind beneficiary), b_ID beneficiary]"

definition journalID :: "digests \<Rightarrow> string \<Rightarrow> JournalKind \<Rightarrow> int64 \<Rightarrow> string" where
  "journalID D eid kind version =
     stableID D ''journal'' [eid, journalKindString kind, FormatInt version]"

definition outboxID :: "digests \<Rightarrow> string \<Rightarrow> string \<Rightarrow> string \<Rightarrow> int64 \<Rightarrow> string" where
  "outboxID D tenantID aggregateID eventType version =
     stableID D ''outbox'' [tenantID, aggregateID, eventType, FormatInt version]"

definition eventFingerprint :: "digests \<Rightarrow> CommissionEvent \<Rightarrow> string" where
  "eventFingerprint D event =
     digest32 D (JObject
       [(''tenant_id'', JString (ev_TenantID event)),
        (''source_type'', JString (ev_SourceType event)),
        (''source_id'', JString (ev_SourceID event)),
        (''occurred_at'', JTime (ev_OccurredAt event)),
        (''currency'', JString (Currency (ev_Commissionable event))),
        (''amount_minor'', JInt (Minor (ev_Commissionable event))),
        (''attributes'', (case ev_Attributes event of None \<Rightarrow> JNull
           | Some m \<Rightarrow> JObject (map (\<lambda>(k, v). (k, JString v)) (sort_key fst m))))])"

definition eventIdempotencyFingerprint :: "digests \<Rightarrow> CommissionEvent \<Rightarrow> string \<Rightarrow> string" where
  "eventIdempotencyFingerprint D event programID =
     digest32 D (JObject
       [(''fact_fingerprint'', JString (eventFingerprint D event)),
        (''program_id'', JString programID)])"

definition commissionCalculatorVersion :: string where
  "commissionCalculatorVersion = ''v1''"

record DecisionSnapshot =
  d_FactFingerprint :: string
  d_IdempotencyFingerprint :: string
  d_ProgramID :: string
  d_ProgramVersion :: int64
  d_TemplateID :: string
  d_TemplateVersion :: int64
  d_AttributionVersions :: "(string, int64) gomap option"
  d_CalculatorVersion :: string
  d_OutcomeDigest :: string

definition canonicalTime :: "Time \<Rightarrow> json" where
  "canonicalTime value = (if IsZero value then JString [] else JTime value)"

text \<open>The earnings of a commit have distinct identifiers, so the order is unique.\<close>

definition decisionOutcomeDigest :: "digests \<Rightarrow> Earning list \<Rightarrow> string" where
  "decisionOutcomeDigest D earnings =
     digest32 D (JObject [(''earnings'', JArray (map (\<lambda>earning. JObject
       [(''id'', JString (e_ID earning)),
        (''slot'', JString (e_Slot earning)),
        (''beneficiary_kind'', JString (beneficiaryKindString (b_Kind (e_Beneficiary earning)))),
        (''beneficiary_id'', JString (b_ID (e_Beneficiary earning))),
        (''currency'', JString (Currency (e_Amount earning))),
        (''amount_minor'', JInt (Minor (e_Amount earning))),
        (''status'', JString (earningStatusString (e_Status earning))),
        (''available_at'', canonicalTime (e_AvailableAt earning))])
       (sort_key (\<lambda>e. (e_ID e, e_Slot e, beneficiaryKindString (b_Kind (e_Beneficiary e)),
                       b_ID (e_Beneficiary e))) earnings)))])"

definition decisionSnapshotFor :: "digests \<Rightarrow> EventCommit \<Rightarrow> DecisionSnapshot" where
  "decisionSnapshotFor D commit =
     \<lparr>d_FactFingerprint = eventFingerprint D (c_Event commit),
      d_IdempotencyFingerprint = eventIdempotencyFingerprint D (c_Event commit) (c_ProgramID commit),
      d_ProgramID = c_ProgramID commit,
      d_ProgramVersion = c_ProgramVersion commit,
      d_TemplateID = c_TemplateID commit,
      d_TemplateVersion = c_TemplateVersion commit,
      d_AttributionVersions = c_AttributionVersions commit,
      d_CalculatorVersion = commissionCalculatorVersion,
      d_OutcomeDigest = decisionOutcomeDigest D (c_Earnings commit)\<rparr>"

section \<open>Identifiers do not collide\<close>

text \<open>
  The idealisation under which identifiers and fingerprints stand for what they are made of:
  the two digests tell any two JSON values apart. For the code it rests on SHA-256, and on
  strings that are valid UTF-8 (\<open>json.Marshal\<close> replaces an invalid byte).
\<close>

definition collisionFree :: "digests \<Rightarrow> bool" where
  "collisionFree D \<longleftrightarrow> inj (digest16 D) \<and> inj (digest32 D)"

lemma stableID_inject:
  "collisionFree D \<Longrightarrow> stableID D p parts = stableID D p parts' \<longleftrightarrow> parts = parts'"
proof -
  assume "collisionFree D"
  then have "digest16 D a = digest16 D b \<longleftrightarrow> a = b" for a b by (simp add: collisionFree_def inj_eq)
  moreover have "map JString xs = map JString ys \<longleftrightarrow> xs = ys" for xs ys
    by (rule inj_map_eq_map) (simp add: inj_def)
  ultimately show ?thesis by (simp add: stableID_def)
qed

lemma journalKindString_inject:
  "validJournalKind k \<Longrightarrow> validJournalKind k' \<Longrightarrow>
     journalKindString k = journalKindString k' \<longleftrightarrow> k = k'"
  by (cases k; cases k') (simp_all add: validJournalKind_def)

lemma journalID_inject:
  "collisionFree D \<Longrightarrow> journalID D e k v = journalID D e' k' v' \<longleftrightarrow>
     e = e' \<and> journalKindString k = journalKindString k' \<and> v = v'"
  by (simp add: journalID_def stableID_inject FormatInt_inject)

lemma outboxID_inject:
  "collisionFree D \<Longrightarrow> outboxID D t a y v = outboxID D t' a' y' v' \<longleftrightarrow>
     t = t' \<and> a = a' \<and> y = y' \<and> v = v'"
  by (simp add: outboxID_def stableID_inject FormatInt_inject)

section \<open>A collision-free instance of the hashes\<close>

text \<open>
  The hypothesis holds of a concrete function: the payload written out in an unambiguous
  text, every element preceded by a plus sign and every sequence closed by a minus sign.
\<close>

fun encodeString :: "string \<Rightarrow> string" where
  "encodeString [] = ''-''"
| "encodeString (c # cs) = CHR ''+'' # c # encodeString cs"

fun encodeJson :: "json \<Rightarrow> string" and encodeArray :: "json list \<Rightarrow> string"
  and encodeObject :: "(string \<times> json) list \<Rightarrow> string" where
  "encodeJson JNull = ''n''"
| "encodeJson (JString s) = CHR ''s'' # encodeString s"
| "encodeJson (JInt i) = CHR ''i'' # encodeString (FormatInt i)"
| "encodeJson (JTime t) = CHR ''t'' # encodeString (FormatInt t)"
| "encodeJson (JArray js) = CHR ''a'' # encodeArray js"
| "encodeJson (JObject kvs) = CHR ''o'' # encodeObject kvs"
| "encodeArray [] = ''-''"
| "encodeArray (j # js) = CHR ''+'' # encodeJson j @ encodeArray js"
| "encodeObject [] = ''-''"
| "encodeObject ((k, j) # kvs) = CHR ''+'' # encodeString k @ encodeJson j @ encodeObject kvs"

lemma encodeString_inject:
  "encodeString s @ r = encodeString s' @ r' \<longleftrightarrow> s = s' \<and> r = r'"
proof (induction s arbitrary: s')
  case Nil
  then show ?case by (cases s') auto
next
  case (Cons c s)
  then show ?case by (cases s') auto
qed

lemma encode_inject:
  "encodeJson j @ r = encodeJson j' @ r' \<longleftrightarrow> j = j' \<and> r = r'"
  "encodeArray js @ r = encodeArray js' @ r' \<longleftrightarrow> js = js' \<and> r = r'"
  "encodeObject kvs @ r = encodeObject kvs' @ r' \<longleftrightarrow> kvs = kvs' \<and> r = r'"
proof (induction j and js and kvs arbitrary: j' r r' and js' r r' and kvs' r r'
    rule: encodeJson_encodeArray_encodeObject.induct)
  case 1
  then show ?case by (cases j') simp_all
next
  case (2 s)
  then show ?case by (cases j') (simp_all add: encodeString_inject)
next
  case (3 i)
  then show ?case by (cases j') (simp_all add: encodeString_inject FormatInt_inject)
next
  case (4 t)
  then show ?case by (cases j') (simp_all add: encodeString_inject FormatInt_inject)
next
  case (5 js)
  then show ?case by (cases j') simp_all
next
  case (6 kvs)
  then show ?case by (cases j') simp_all
next
  case 7
  then show ?case by (cases js') simp_all
next
  case (8 j js)
  then show ?case by (cases js') simp_all
next
  case 9
  then show ?case by (cases kvs' rule: encodeObject.cases) simp_all
next
  case (10 k j kvs)
  then show ?case
    by (cases kvs' rule: encodeObject.cases) (simp_all add: encodeString_inject)
qed

definition plainDigests :: digests where
  "plainDigests = \<lparr>digest16 = encodeJson, digest32 = encodeJson\<rparr>"

lemma plainDigests_collisionFree: "collisionFree plainDigests"
  using encode_inject(1) [of _ "[]" _ "[]"]
  by (simp add: collisionFree_def plainDigests_def inj_def)

end
