(* ===== verification/Commission_Store.thy ===== *)
theory Commission_Store
  imports Commission_Records
begin

text \<open>
  \<open>MemoryStore\<close> (\<open>biz/commission/memory.go\<close>), every operation of it. The mutex makes each
  operation one step, so an operation is a function from the store to its result and the
  store it leaves; loops that write are recursions that thread the store, so that an error
  in the middle of a loop leaves what was written before it. \<open>clone\<close> functions are the
  identity on values. The operations that create identifiers take the digests \<open>D\<close>.
\<close>

record recordedEvent =
  re_fingerprint :: string
  re_decision :: DecisionSnapshot
  re_earningIDs :: "string list"

record earningTransition =
  et_earning :: Earning
  et_journal :: JournalEntry
  et_outbox :: OutboxEvent

record MemoryStore =
  ms_templates :: "(string \<times> int64, Template) gomap"
  ms_programs :: "(TenantID \<times> string, Program) gomap"
  ms_attributions :: "(TenantID \<times> string \<times> string, Attribution) gomap"
  ms_events :: "(TenantID \<times> string \<times> string, recordedEvent) gomap"
  ms_earnings :: "(string, Earning) gomap"
  ms_journals :: "JournalEntry list"
  ms_journalIDs :: "string set"
  ms_outbox :: "(TenantID \<times> string, OutboxEvent) gomap"
  ms_settlements :: "(TenantID \<times> string, Settlement) gomap"

definition NewMemoryStore :: MemoryStore where
  "NewMemoryStore = \<lparr>ms_templates = [], ms_programs = [], ms_attributions = [], ms_events = [],
     ms_earnings = [], ms_journals = [], ms_journalIDs = {}, ms_outbox = [], ms_settlements = []\<rparr>"

section \<open>Templates\<close>

definition Store_CreateTemplate ::
  "ctx \<Rightarrow> Template \<Rightarrow> MemoryStore \<Rightarrow> (commission_error + unit) \<times> MemoryStore" where
  "Store_CreateTemplate cx template st =
     on_ok (ctx_ok cx) st (\<lambda>_.
     on_ok (validateNewTemplate template) st (\<lambda>_.
       let key = (t_ID template, t_Version template) in
       case map_of (ms_templates st) key of
         Some _ \<Rightarrow> fails ErrTemplateAlreadyExists st
       | None \<Rightarrow> (Inr (), st\<lparr>ms_templates := AList.update key template (ms_templates st)\<rparr>)))"

definition zeroTemplate :: Template where
  "zeroTemplate = \<lparr>t_ID = [], t_Version = 0, t_Status = TemplateStatusOther [], t_CreatedAt = 0,
     t_UpdatedAt = 0, t_AllowedEventTypes = [], t_MaxCommission = zeroAmount,
     t_FreezePeriod = 0, t_Rules = []\<rparr>"

text \<open>The loop that keeps the highest version of an identifier.\<close>

fun selectLatest ::
  "string \<Rightarrow> Template \<Rightarrow> (string \<times> int64, Template) gomap \<Rightarrow> Template" where
  "selectLatest tid selected [] = selected"
| "selectLatest tid selected ((key, template) # entries) =
     selectLatest tid
       (if fst key = tid \<and> (t_Version selected = 0 \<or> snd key > t_Version selected)
        then template else selected) entries"

definition Store_GetTemplate ::
  "ctx \<Rightarrow> string \<Rightarrow> int64 \<Rightarrow> MemoryStore \<Rightarrow> commission_error + Template" where
  "Store_GetTemplate cx tid version st =
     bind_ok (ctx_ok cx) (\<lambda>_.
       if tid = [] \<or> version < 0 then Inl ErrInvalidTemplate
       else if version > 0 then
         (case map_of (ms_templates st) (tid, version) of
            None \<Rightarrow> Inl ErrTemplateNotFound
          | Some template \<Rightarrow> Inr template)
       else let selected = selectLatest tid zeroTemplate (ms_templates st) in
         if t_Version selected = 0 then Inl ErrTemplateNotFound else Inr selected)"

definition Store_TransitionTemplate ::
  "ctx \<Rightarrow> string \<Rightarrow> int64 \<Rightarrow> TemplateAction \<Rightarrow> Time \<Rightarrow> MemoryStore
     \<Rightarrow> (commission_error + Template) \<times> MemoryStore" where
  "Store_TransitionTemplate cx tid version action now st =
     on_ok (ctx_ok cx) st (\<lambda>_.
       if tid = [] \<or> version \<le> 0 \<or> IsZero now then fails ErrInvalidTemplate st
       else case map_of (ms_templates st) (tid, version) of
         None \<Rightarrow> fails ErrTemplateNotFound st
       | Some template \<Rightarrow>
           on_ok (nextTemplateStatus (t_Status template) action) st (\<lambda>next_status.
             let template' = template\<lparr>t_Status := next_status, t_UpdatedAt := now\<rparr>
             in (Inr template',
                 st\<lparr>ms_templates := AList.update (tid, version) template' (ms_templates st)\<rparr>)))"

section \<open>Programs\<close>

definition templateRule :: "Template \<Rightarrow> string \<Rightarrow> Rule option" where
  "templateRule template slot = find (\<lambda>rule. r_Slot rule = slot) (t_Rules template)"

fun validateProgramRules ::
  "Template \<Rightarrow> string list \<Rightarrow> Rule list \<Rightarrow> commission_error + unit" where
  "validateProgramRules template slots [] = Inr ()"
| "validateProgramRules template slots (rule # rules) =
     (case validateRule rule True of
        Inl _ \<Rightarrow> Inl ErrInvalidProgram
      | Inr _ \<Rightarrow>
          if r_Slot rule \<in> set slots then Inl ErrInvalidProgram
          else case templateRule template (r_Slot rule) of
            None \<Rightarrow> Inl ErrProgramExceedsTemplate
          | Some capRule \<Rightarrow>
              if \<not> ruleWithinCap rule capRule then Inl ErrProgramExceedsTemplate
              else validateProgramRules template (r_Slot rule # slots) rules)"

definition validateProgramAgainstTemplate ::
  "Program \<Rightarrow> Template \<Rightarrow> commission_error + unit" where
  "validateProgramAgainstTemplate program template =
     (if p_ID program = [] \<or> p_TenantID program = [] \<or> p_TemplateID program = []
         \<or> p_TemplateVersion program \<le> 0 \<or> \<not> validProgramStatus (p_Status program)
         \<or> length (p_Rules program) = 0
      then Inl ErrInvalidProgram
      else if t_ID template \<noteq> p_TemplateID program
              \<or> t_Version template \<noteq> p_TemplateVersion program
      then Inl ErrInvalidProgram
      else validateProgramRules template [] (p_Rules program))"

definition validateNewProgram :: "Program \<Rightarrow> commission_error + unit" where
  "validateNewProgram program =
     (if p_ID program = [] \<or> p_TenantID program = [] \<or> p_TemplateID program = []
         \<or> p_TemplateVersion program \<le> 0 \<or> p_Status program \<noteq> ProgramStatusDraft
         \<or> p_Version program \<noteq> 1 \<or> IsZero (p_CreatedAt program) \<or> IsZero (p_UpdatedAt program)
         \<or> length (p_Rules program) = 0
      then Inl ErrInvalidProgram
      else forEach (\<lambda>rule. case validateRule rule True of
                       Inl _ \<Rightarrow> Inl ErrInvalidProgram | Inr _ \<Rightarrow> Inr ()) (p_Rules program))"

definition Store_CreateProgram ::
  "ctx \<Rightarrow> Program \<Rightarrow> MemoryStore \<Rightarrow> (commission_error + unit) \<times> MemoryStore" where
  "Store_CreateProgram cx program st =
     on_ok (ctx_ok cx) st (\<lambda>_.
     on_ok (validateNewProgram program) st (\<lambda>_.
       let key = (p_TenantID program, p_ID program) in
       case map_of (ms_programs st) key of
         Some _ \<Rightarrow> fails ErrProgramAlreadyExists st
       | None \<Rightarrow>
         (case map_of (ms_templates st) (p_TemplateID program, p_TemplateVersion program) of
            None \<Rightarrow> fails ErrTemplateNotFound st
          | Some template \<Rightarrow>
              on_ok (validateProgramAgainstTemplate program template) st (\<lambda>_.
                (Inr (), st\<lparr>ms_programs := AList.update key program (ms_programs st)\<rparr>)))))"

definition Store_GetProgram ::
  "ctx \<Rightarrow> TenantID \<Rightarrow> string \<Rightarrow> MemoryStore \<Rightarrow> commission_error + Program" where
  "Store_GetProgram cx tenantID pid st =
     bind_ok (ctx_ok cx) (\<lambda>_.
       if tenantID = [] \<or> pid = [] then Inl ErrInvalidProgram
       else case map_of (ms_programs st) (tenantID, pid) of
         None \<Rightarrow> Inl ErrProgramNotFound
       | Some program \<Rightarrow> Inr program)"

definition Store_TransitionProgram ::
  "ctx \<Rightarrow> TenantID \<Rightarrow> string \<Rightarrow> int64 \<Rightarrow> ProgramAction \<Rightarrow> Time \<Rightarrow> MemoryStore
     \<Rightarrow> (commission_error + Program) \<times> MemoryStore" where
  "Store_TransitionProgram cx tenantID pid expectedVersion action now st =
     on_ok (ctx_ok cx) st (\<lambda>_.
       if tenantID = [] \<or> pid = [] \<or> expectedVersion \<le> 0 \<or> IsZero now
       then fails ErrInvalidProgram st
       else case map_of (ms_programs st) (tenantID, pid) of
         None \<Rightarrow> fails ErrProgramNotFound st
       | Some program \<Rightarrow>
         if p_Version program \<noteq> expectedVersion then fails ErrVersionConflict st
         else on_ok (nextProgramStatus (p_Status program) action) st (\<lambda>next_status.
              on_ok (if next_status = ProgramStatusActive then
                       (case map_of (ms_templates st)
                               (p_TemplateID program, p_TemplateVersion program) of
                          None \<Rightarrow> Inl ErrTemplateNotFound
                        | Some template \<Rightarrow>
                            if t_Status template \<noteq> TemplateStatusActive
                            then Inl ErrTemplateNotActive else Inr ())
                     else Inr ()) st (\<lambda>_.
              let program' = program\<lparr>p_Status := next_status,
                    p_Version := add64 (p_Version program) 1, p_UpdatedAt := now\<rparr>
              in (Inr program',
                  st\<lparr>ms_programs := AList.update (tenantID, pid) program' (ms_programs st)\<rparr>))))"

section \<open>Attributions\<close>

definition validateAttribution :: "Attribution \<Rightarrow> commission_error + unit" where
  "validateAttribution attribution = ensure
     (\<not> (a_TenantID attribution = [] \<or> a_ProgramID attribution = [] \<or> a_Slot attribution = []
         \<or> \<not> validBeneficiary (a_Beneficiary attribution))) ErrInvalidAttribution"

definition Store_SetAttribution ::
  "ctx \<Rightarrow> Attribution \<Rightarrow> int64 \<Rightarrow> MemoryStore
     \<Rightarrow> (commission_error + Attribution) \<times> MemoryStore" where
  "Store_SetAttribution cx attribution expectedVersion st =
     on_ok (ctx_ok cx) st (\<lambda>_.
       if validateAttribution attribution \<noteq> Inr () \<or> expectedVersion < 0
       then fails ErrInvalidAttribution st
       else let key = (a_TenantID attribution, a_ProgramID attribution, a_Slot attribution) in
         case map_of (ms_attributions st) key of
           None \<Rightarrow>
             if expectedVersion \<noteq> 0 then fails ErrVersionConflict st
             else let attribution' = attribution\<lparr>a_Version := 1\<rparr>
               in (Inr attribution', st\<lparr>ms_attributions :=
                     AList.update key attribution' (ms_attributions st)\<rparr>)
         | Some current \<Rightarrow>
             if a_Version current \<noteq> expectedVersion then fails ErrVersionConflict st
             else let attribution' = attribution\<lparr>a_Version := add64 (a_Version current) 1,
                                                a_CreatedAt := a_CreatedAt current\<rparr>
               in (Inr attribution', st\<lparr>ms_attributions :=
                     AList.update key attribution' (ms_attributions st)\<rparr>))"

definition Store_ListAttributions ::
  "ctx \<Rightarrow> TenantID \<Rightarrow> string \<Rightarrow> MemoryStore \<Rightarrow> commission_error + Attribution list" where
  "Store_ListAttributions cx tenantID programID st =
     bind_ok (ctx_ok cx) (\<lambda>_.
       if tenantID = [] \<or> programID = [] then Inl ErrInvalidAttribution
       else Inr (sort_key a_Slot
              (map snd (filter (\<lambda>(key, _). fst key = tenantID \<and> fst (snd key) = programID)
                          (ms_attributions st)))))"

section \<open>Event commits\<close>

definition validateStoredEarning :: "Earning \<Rightarrow> commission_error + unit" where
  "validateStoredEarning earning = ensure
     (\<not> (e_ID earning = [] \<or> e_TenantID earning = [] \<or> e_ProgramID earning = []
         \<or> e_TemplateID earning = [] \<or> e_TemplateVersion earning \<le> 0
         \<or> e_SourceType earning = [] \<or> e_SourceID earning = [] \<or> e_Slot earning = []
         \<or> \<not> validBeneficiary (e_Beneficiary earning) \<or> \<not> validAmount (e_Amount earning)
         \<or> \<not> validEarningStatus (e_Status earning) \<or> IsZero (e_AvailableAt earning)
         \<or> e_Version earning \<le> 0 \<or> IsZero (e_CreatedAt earning) \<or> IsZero (e_UpdatedAt earning)))
     ErrInvalidEarning"

text \<open>The loops that build a set of identifiers and fail at the first one seen twice.\<close>

fun noDuplicates :: "commission_error \<Rightarrow> 'a list \<Rightarrow> 'a list \<Rightarrow> commission_error + unit" where
  "noDuplicates e seen [] = Inr ()"
| "noDuplicates e seen (x # xs) =
     (if x \<in> set seen then Inl e else noDuplicates e (x # seen) xs)"

fun validateCommitJournals ::
  "CommissionEvent \<Rightarrow> string list \<Rightarrow> string list \<Rightarrow> JournalEntry list \<Rightarrow> commission_error + unit"
where
  "validateCommitJournals event earningIDs journalIDs [] = Inr ()"
| "validateCommitJournals event earningIDs journalIDs (journal # journals) =
     (if j_ID journal = [] \<or> j_TenantID journal \<noteq> ev_TenantID event
         \<or> \<not> validJournalKind (j_Kind journal) \<or> \<not> validAmount (j_Amount journal)
         \<or> IsZero (j_CreatedAt journal) then Inl ErrInvalidEvent
      else if j_EarningID journal \<notin> set earningIDs then Inl ErrInvalidEvent
      else if j_ID journal \<in> set journalIDs then Inl ErrInvalidEvent
      else validateCommitJournals event earningIDs (j_ID journal # journalIDs) journals)"

fun validateCommitOutbox ::
  "CommissionEvent \<Rightarrow> string list \<Rightarrow> OutboxEvent list \<Rightarrow> commission_error + unit" where
  "validateCommitOutbox event outboxIDs [] = Inr ()"
| "validateCommitOutbox event outboxIDs (outbox # outboxes) =
     (if o_ID outbox = [] \<or> o_TenantID outbox \<noteq> ev_TenantID event \<or> o_Type outbox = []
         \<or> o_AggregateID outbox = [] \<or> IsZero (o_CreatedAt outbox) then Inl ErrInvalidEvent
      else if o_ID outbox \<in> set outboxIDs then Inl ErrInvalidEvent
      else validateCommitOutbox event (o_ID outbox # outboxIDs) outboxes)"

definition validateEventCommit :: "EventCommit \<Rightarrow> commission_error + unit" where
  "validateEventCommit commit =
     bind_ok (validateCommissionEvent (c_Event commit)) (\<lambda>_.
       let emptyFinancialEntries = (length (c_Earnings commit) = 0
             \<and> length (c_Journals commit) = 0 \<and> length (c_Outbox commit) = 0) in
       if c_ProgramID commit = [] \<or> c_TemplateID commit = [] \<or> c_ProgramVersion commit \<le> 0
          \<or> c_TemplateVersion commit \<le> 0 \<or> c_AttributionVersions commit = None
          \<or> (\<not> emptyFinancialEntries \<and> (length (c_Earnings commit) = 0
              \<or> length (c_Journals commit) = 0 \<or> length (c_Outbox commit) = 0))
       then Inl ErrInvalidEvent
       else bind_ok (forEach (\<lambda>earning. ensure
              (\<not> (validateStoredEarning earning \<noteq> Inr ()
                  \<or> e_TenantID earning \<noteq> ev_TenantID (c_Event commit)
                  \<or> e_ProgramID earning \<noteq> c_ProgramID commit
                  \<or> e_TemplateID earning \<noteq> c_TemplateID commit
                  \<or> e_TemplateVersion earning \<noteq> c_TemplateVersion commit
                  \<or> e_SourceType earning \<noteq> ev_SourceType (c_Event commit)
                  \<or> e_SourceID earning \<noteq> ev_SourceID (c_Event commit)))
              ErrInvalidEarning) (c_Earnings commit)) (\<lambda>_.
            bind_ok (noDuplicates ErrInvalidEarning [] (map e_ID (c_Earnings commit))) (\<lambda>_.
            bind_ok (validateCommitJournals (c_Event commit) (map e_ID (c_Earnings commit)) []
                       (c_Journals commit)) (\<lambda>_.
            validateCommitOutbox (c_Event commit) [] (c_Outbox commit)))))"

definition validateCommitVersionsLocked ::
  "EventCommit \<Rightarrow> MemoryStore \<Rightarrow> commission_error + unit" where
  "validateCommitVersionsLocked commit st =
     (case map_of (ms_programs st) (ev_TenantID (c_Event commit), c_ProgramID commit) of
        None \<Rightarrow> Inl ErrProgramNotFound
      | Some program \<Rightarrow>
        if p_Version program \<noteq> c_ProgramVersion commit then Inl ErrVersionConflict
        else if p_Status program \<noteq> ProgramStatusActive then Inl ErrProgramNotActive
        else if p_TemplateID program \<noteq> c_TemplateID commit
                \<or> p_TemplateVersion program \<noteq> c_TemplateVersion commit
        then Inl ErrVersionConflict
        else bind_ok (forEach (\<lambda>rule.
               case map_of (case c_AttributionVersions commit of None \<Rightarrow> [] | Some versions \<Rightarrow> versions) (r_Slot rule) of
                 None \<Rightarrow> Inl ErrVersionConflict
               | Some expectedVersion \<Rightarrow>
                   let currentVersion =
                     (case map_of (ms_attributions st)
                             (ev_TenantID (c_Event commit), p_ID program, r_Slot rule) of
                        None \<Rightarrow> 0 | Some attribution \<Rightarrow> a_Version attribution)
                   in ensure (currentVersion = expectedVersion) ErrVersionConflict)
               (p_Rules program)) (\<lambda>_.
             case map_of (ms_templates st) (c_TemplateID commit, c_TemplateVersion commit) of
               None \<Rightarrow> Inl ErrTemplateNotFound
             | Some template \<Rightarrow>
                 if t_Status template \<noteq> TemplateStatusActive then Inl ErrTemplateNotActive
                 else Inr ()))"

fun cloneEarningsLocked :: "MemoryStore \<Rightarrow> string list \<Rightarrow> commission_error + Earning list" where
  "cloneEarningsLocked st [] = Inr []"
| "cloneEarningsLocked st (eid # ids) =
     (case map_of (ms_earnings st) eid of
        None \<Rightarrow> Inl ErrInvalidEarning
      | Some earning \<Rightarrow> (case cloneEarningsLocked st ids of
          Inl e \<Rightarrow> Inl e | Inr earnings \<Rightarrow> Inr (earning # earnings)))"

definition putEarnings :: "Earning list \<Rightarrow> MemoryStore \<Rightarrow> MemoryStore" where
  "putEarnings earnings st =
     st\<lparr>ms_earnings := fold (\<lambda>earning. AList.update (e_ID earning) earning) earnings
                         (ms_earnings st)\<rparr>"

definition putJournals :: "JournalEntry list \<Rightarrow> MemoryStore \<Rightarrow> MemoryStore" where
  "putJournals journals st =
     st\<lparr>ms_journals := ms_journals st @ journals,
        ms_journalIDs := ms_journalIDs st \<union> j_ID ` set journals\<rparr>"

definition outboxKey :: "OutboxEvent \<Rightarrow> TenantID \<times> string" where
  "outboxKey event = (o_TenantID event, o_ID event)"

definition putOutbox :: "OutboxEvent list \<Rightarrow> MemoryStore \<Rightarrow> MemoryStore" where
  "putOutbox events st =
     st\<lparr>ms_outbox := fold (\<lambda>event. AList.update (outboxKey event) event) events (ms_outbox st)\<rparr>"

definition eventKey :: "CommissionEvent \<Rightarrow> TenantID \<times> string \<times> string" where
  "eventKey event = (ev_TenantID event, ev_SourceType event, ev_SourceID event)"

definition Store_CommitEvent ::
  "digests \<Rightarrow> ctx \<Rightarrow> EventCommit \<Rightarrow> MemoryStore
     \<Rightarrow> (commission_error + Earning list) \<times> MemoryStore" where
  "Store_CommitEvent D cx commit st =
     on_ok (ctx_ok cx) st (\<lambda>_.
     on_ok (validateEventCommit commit) st (\<lambda>_.
       let key = eventKey (c_Event commit);
           fingerprint = eventIdempotencyFingerprint D (c_Event commit) (c_ProgramID commit)
       in case map_of (ms_events st) key of
         Some existing \<Rightarrow>
           if re_fingerprint existing \<noteq> fingerprint then fails ErrEventConflict st
           else (cloneEarningsLocked st (re_earningIDs existing), st)
       | None \<Rightarrow>
           on_ok (validateCommitVersionsLocked commit st) st (\<lambda>_.
             if list_ex (\<lambda>earning. map_of (ms_earnings st) (e_ID earning) \<noteq> None)
                  (c_Earnings commit) then fails ErrEventConflict st
             else if list_ex (\<lambda>outbox. map_of (ms_outbox st) (outboxKey outbox) \<noteq> None)
                  (c_Outbox commit) then fails ErrEventConflict st
             else if list_ex (\<lambda>journal. j_ID journal \<in> ms_journalIDs st)
                  (c_Journals commit) then fails ErrEventConflict st
             else let ids = map e_ID (c_Earnings commit);
                      st1 = putOutbox (c_Outbox commit)
                              (putJournals (c_Journals commit)
                                (putEarnings (c_Earnings commit) st));
                      st2 = st1\<lparr>ms_events := AList.update key
                              \<lparr>re_fingerprint = fingerprint,
                               re_decision = decisionSnapshotFor D commit,
                               re_earningIDs = ids\<rparr> (ms_events st1)\<rparr>
                  in (cloneEarningsLocked st2 ids, st2))))"

end
