(* ===== verification/Commission_Earnings.thy ===== *)
theory Commission_Earnings
  imports Commission_Store
begin

text \<open>
  The operations of \<open>MemoryStore\<close> on earnings, settlements, journals and the outbox
  (\<open>biz/commission/memory.go\<close>, from \<open>GetEarning\<close> on).
\<close>

section \<open>Reading earnings and journals\<close>

definition Store_GetEarning ::
  "ctx \<Rightarrow> TenantID \<Rightarrow> string \<Rightarrow> MemoryStore \<Rightarrow> commission_error + Earning" where
  "Store_GetEarning cx tenantID eid st =
     bind_ok (ctx_ok cx) (\<lambda>_.
       if tenantID = [] \<or> eid = [] then Inl ErrInvalidEarning
       else case map_of (ms_earnings st) eid of
         None \<Rightarrow> Inl ErrEarningNotFound
       | Some earning \<Rightarrow>
           if e_TenantID earning \<noteq> tenantID then Inl ErrEarningNotFound else Inr earning)"

definition earningFilterValid :: "EarningFilter \<Rightarrow> bool" where
  "earningFilterValid filt \<longleftrightarrow>
     \<not> ef_Limit filt < 0
     \<and> (case ef_Beneficiary filt of None \<Rightarrow> True | Some b \<Rightarrow> validBeneficiary b)
     \<and> list_all validEarningStatus (ef_Statuses filt)"

definition earningFilterMatches :: "EarningFilter \<Rightarrow> Earning \<Rightarrow> bool" where
  "earningFilterMatches filt earning \<longleftrightarrow>
     \<not> (ef_ProgramID filt \<noteq> [] \<and> e_ProgramID earning \<noteq> ef_ProgramID filt)
     \<and> (case ef_Beneficiary filt of None \<Rightarrow> True | Some b \<Rightarrow> e_Beneficiary earning = b)
     \<and> (length (ef_Statuses filt) = 0 \<or> e_Status earning \<in> set (ef_Statuses filt))"

text \<open>The page after a cursor: the first entry past it starts the page.\<close>

definition limitPage :: "int \<Rightarrow> 'a list \<Rightarrow> 'a list" where
  "limitPage limit xs = (if limit > 0 \<and> int (length xs) > limit then take (nat limit) xs else xs)"

definition Store_ListEarnings ::
  "ctx \<Rightarrow> TenantID \<Rightarrow> EarningFilter \<Rightarrow> MemoryStore \<Rightarrow> commission_error + Earning list" where
  "Store_ListEarnings cx tenantID filt st =
     bind_ok (ctx_ok cx) (\<lambda>_.
       if tenantID = [] \<or> \<not> earningFilterValid filt then Inl ErrInvalidEarningFilter
       else let earnings = sort_key e_ID
                  (filter (\<lambda>earning. \<not> (e_TenantID earning \<noteq> tenantID
                                          \<or> \<not> earningFilterMatches filt earning))
                     (vals (ms_earnings st)));
                page = (if ef_Cursor filt \<noteq> []
                        then dropWhile (\<lambda>earning. \<not> e_ID earning > ef_Cursor filt) earnings
                        else earnings)
            in Inr (limitPage (ef_Limit filt) page))"

definition Store_ListJournalEntries ::
  "ctx \<Rightarrow> TenantID \<Rightarrow> string \<Rightarrow> MemoryStore \<Rightarrow> commission_error + JournalEntry list" where
  "Store_ListJournalEntries cx tenantID eid st =
     bind_ok (ctx_ok cx) (\<lambda>_.
       if tenantID = [] \<or> eid = [] then Inl ErrInvalidEarning
       else Inr (sort_key j_CreatedAt
              (filter (\<lambda>entry. j_TenantID entry = tenantID \<and> j_EarningID entry = eid)
                 (ms_journals st))))"

section \<open>Transitions of earnings\<close>

definition newEarningTransition ::
  "digests \<Rightarrow> Earning \<Rightarrow> EarningAction \<Rightarrow> Time \<Rightarrow> earningTransition" where
  "newEarningTransition D earning action now =
     (let kind = (case action of
            EarningActionHold \<Rightarrow> JournalKindHeld
          | EarningActionReverse \<Rightarrow>
              (if e_Status earning = EarningStatusRecoveryDue then JournalKindRecovery
               else JournalKindReversal)
          | EarningActionSettle \<Rightarrow> JournalKindSettlement
          | _ \<Rightarrow> JournalKindAvailable);
          status = earningStatusString (e_Status earning);
          eventType = ''commission.earning.'' @ status
      in \<lparr>et_earning = earning,
          et_journal = \<lparr>j_ID = journalID D (e_ID earning) kind (e_Version earning),
             j_TenantID = e_TenantID earning, j_EarningID = e_ID earning, j_Kind = kind,
             j_Amount = e_Amount earning, j_CreatedAt = now\<rparr>,
          et_outbox = \<lparr>o_ID = outboxID D (e_TenantID earning) (e_ID earning) eventType
                                (e_Version earning),
             o_TenantID = e_TenantID earning, o_Type = eventType, o_AggregateID = e_ID earning,
             o_Payload = [(''earning_id'', e_ID earning), (''status'', status)],
             o_CreatedAt = now, o_PublishedAt = None\<rparr>\<rparr>)"

fun checkJournalIDs :: "string set \<Rightarrow> string list \<Rightarrow> string list \<Rightarrow> commission_error + unit" where
  "checkJournalIDs stored seen [] = Inr ()"
| "checkJournalIDs stored seen (jid # ids) =
     (if jid \<in> stored then Inl ErrEventConflict
      else if jid \<in> set seen then Inl ErrEventConflict
      else checkJournalIDs stored (jid # seen) ids)"

fun validateOutboxKeys ::
  "(TenantID \<times> string, OutboxEvent) gomap \<Rightarrow> (TenantID \<times> string) list \<Rightarrow> (TenantID \<times> string) list
     \<Rightarrow> commission_error + unit" where
  "validateOutboxKeys stored seen [] = Inr ()"
| "validateOutboxKeys stored seen (key # keys) =
     (case map_of stored key of
        Some _ \<Rightarrow> Inl ErrEventConflict
      | None \<Rightarrow> if key \<in> set seen then Inl ErrEventConflict
               else validateOutboxKeys stored (key # seen) keys)"

definition validateOutboxEventsLocked ::
  "OutboxEvent list \<Rightarrow> MemoryStore \<Rightarrow> commission_error + unit" where
  "validateOutboxEventsLocked events st =
     validateOutboxKeys (ms_outbox st) [] (map outboxKey events)"

definition validateEarningTransitionsLocked ::
  "earningTransition list \<Rightarrow> MemoryStore \<Rightarrow> commission_error + unit" where
  "validateEarningTransitionsLocked transitions st =
     bind_ok (checkJournalIDs (ms_journalIDs st) [] (map (j_ID \<circ> et_journal) transitions))
       (\<lambda>_. validateOutboxEventsLocked (map et_outbox transitions) st)"

definition appendOutboxLocked ::
  "OutboxEvent \<Rightarrow> MemoryStore \<Rightarrow> (commission_error + unit) \<times> MemoryStore" where
  "appendOutboxLocked event st =
     (case map_of (ms_outbox st) (outboxKey event) of
        Some _ \<Rightarrow> fails ErrEventConflict st
      | None \<Rightarrow> (Inr (), st\<lparr>ms_outbox := AList.update (outboxKey event) event (ms_outbox st)\<rparr>))"

definition appendEarningTransitionLocked ::
  "earningTransition \<Rightarrow> MemoryStore \<Rightarrow> (commission_error + unit) \<times> MemoryStore" where
  "appendEarningTransitionLocked transition st =
     appendOutboxLocked (et_outbox transition)
       (st\<lparr>ms_journals := ms_journals st @ [et_journal transition],
           ms_journalIDs := insert (j_ID (et_journal transition)) (ms_journalIDs st)\<rparr>)"

fun appendEarningTransitions ::
  "earningTransition list \<Rightarrow> MemoryStore \<Rightarrow> (commission_error + unit) \<times> MemoryStore" where
  "appendEarningTransitions [] st = (Inr (), st)"
| "appendEarningTransitions (transition # transitions) st =
     (case appendEarningTransitionLocked transition st of
        (Inl e, st') \<Rightarrow> (Inl e, st')
      | (Inr _, st') \<Rightarrow> appendEarningTransitions transitions st')"

definition applyEarningTransitionsLocked ::
  "earningTransition list \<Rightarrow> MemoryStore \<Rightarrow> (commission_error + unit) \<times> MemoryStore" where
  "applyEarningTransitionsLocked transitions st =
     appendEarningTransitions transitions (putEarnings (map et_earning transitions) st)"

definition advanceEarning :: "Earning \<Rightarrow> EarningStatus \<Rightarrow> Time \<Rightarrow> Earning" where
  "advanceEarning earning next_status now =
     earning\<lparr>e_Status := next_status, e_Version := add64 (e_Version earning) 1,
             e_UpdatedAt := now\<rparr>"

definition Store_TransitionEarning ::
  "digests \<Rightarrow> ctx \<Rightarrow> TenantID \<Rightarrow> string \<Rightarrow> int64 \<Rightarrow> EarningAction \<Rightarrow> Time \<Rightarrow> MemoryStore
     \<Rightarrow> (commission_error + Earning) \<times> MemoryStore" where
  "Store_TransitionEarning D cx tenantID eid expectedVersion action now st =
     on_ok (ctx_ok cx) st (\<lambda>_.
       if tenantID = [] \<or> eid = [] \<or> expectedVersion \<le> 0 \<or> IsZero now \<or> aggregateAction action
       then fails ErrInvalidEarning st
       else case map_of (ms_earnings st) eid of
         None \<Rightarrow> fails ErrEarningNotFound st
       | Some earning \<Rightarrow>
         if e_TenantID earning \<noteq> tenantID then fails ErrEarningNotFound st
         else if e_Version earning \<noteq> expectedVersion then fails ErrVersionConflict st
         else on_ok (TransitionEarning (e_Status earning) action) st (\<lambda>next_status.
              let earning' = advanceEarning earning next_status now;
                  transition = newEarningTransition D earning' action now
              in on_ok (validateEarningTransitionsLocked [transition] st) st (\<lambda>_.
                 case applyEarningTransitionsLocked [transition] st of
                   (Inl e, st') \<Rightarrow> (Inl e, st')
                 | (Inr _, st') \<Rightarrow> (Inr earning', st'))))"

section \<open>Time-driven release\<close>

definition dueEarnings :: "Time \<Rightarrow> MemoryStore \<Rightarrow> Earning list" where
  "dueEarnings now st =
     sort_key (\<lambda>e. (e_AvailableAt e, e_ID e))
       (filter (\<lambda>earning. e_Status earning = EarningStatusPending \<and> \<not> e_AvailableAt earning > now)
          (vals (ms_earnings st)))"

definition lookupEarning :: "MemoryStore \<Rightarrow> string \<Rightarrow> Earning" where
  "lookupEarning st eid =
     (case map_of (ms_earnings st) eid of None \<Rightarrow> zeroEarning | Some earning \<Rightarrow> earning)"

fun releaseTransitions ::
  "digests \<Rightarrow> Time \<Rightarrow> MemoryStore \<Rightarrow> string list \<Rightarrow> commission_error + earningTransition list" where
  "releaseTransitions D now st [] = Inr []"
| "releaseTransitions D now st (eid # ids) =
     (let earning = lookupEarning st eid in
      case TransitionEarning (e_Status earning) EarningActionMakeAvailable of
        Inl e \<Rightarrow> Inl e
      | Inr next_status \<Rightarrow>
          (case releaseTransitions D now st ids of
             Inl e \<Rightarrow> Inl e
           | Inr transitions \<Rightarrow>
               Inr (newEarningTransition D (advanceEarning earning next_status now)
                      EarningActionMakeAvailable now # transitions)))"

definition Store_MakeAvailableDue ::
  "digests \<Rightarrow> ctx \<Rightarrow> Time \<Rightarrow> int \<Rightarrow> MemoryStore
     \<Rightarrow> (commission_error + Earning list) \<times> MemoryStore" where
  "Store_MakeAvailableDue D cx now limit st =
     on_ok (ctx_ok cx) st (\<lambda>_.
       if IsZero now \<or> limit \<le> 0 then fails ErrInvalidEarning st
       else let due = dueEarnings now st;
                batch = (if int (length due) > limit then take (nat limit) due else due)
         in on_ok (releaseTransitions D now st (map e_ID batch)) st (\<lambda>transitions.
            on_ok (validateEarningTransitionsLocked transitions st) st (\<lambda>_.
            case applyEarningTransitionsLocked transitions st of
              (Inl e, st') \<Rightarrow> (Inl e, st')
            | (Inr _, st') \<Rightarrow> (Inr (map et_earning transitions), st'))))"

section \<open>Settlements\<close>

definition validateSettlement ::
  "Settlement \<Rightarrow> (string, int64) gomap \<Rightarrow> commission_error + unit" where
  "validateSettlement settlement expectedVersions =
     (if s_ID settlement = [] \<or> s_TenantID settlement = []
         \<or> \<not> validBeneficiary (s_Beneficiary settlement) \<or> \<not> validAmount (s_Amount settlement)
         \<or> Minor (s_Amount settlement) \<le> 0 \<or> s_Status settlement \<noteq> SettlementStatusSubmitted
         \<or> s_Version settlement \<le> 0 \<or> IsZero (s_CreatedAt settlement)
         \<or> IsZero (s_UpdatedAt settlement) \<or> length (s_EarningIDs settlement) = 0
         \<or> length (s_EarningIDs settlement) \<noteq> length expectedVersions
      then Inl ErrInvalidSettlement
      else bind_ok (forEach (\<lambda>eid. ensure (\<not> (eid = [] \<or> lookup0 expectedVersions eid \<le> 0))
                               ErrInvalidSettlement) (s_EarningIDs settlement))
             (\<lambda>_. noDuplicates ErrInvalidSettlement [] (s_EarningIDs settlement)))"

definition settlementOutbox ::
  "digests \<Rightarrow> Settlement \<Rightarrow> SettlementStatus \<Rightarrow> int64 \<Rightarrow> Time \<Rightarrow> OutboxEvent" where
  "settlementOutbox D settlement status version createdAt =
     (let eventType = ''commission.settlement.'' @ settlementStatusString status
      in \<lparr>o_ID = outboxID D (s_TenantID settlement) (s_ID settlement) eventType version,
          o_TenantID = s_TenantID settlement, o_Type = eventType,
          o_AggregateID = s_ID settlement,
          o_Payload = (if status = SettlementStatusSubmitted
                       then [(''settlement_id'', s_ID settlement),
                             (''currency'', Currency (s_Amount settlement))]
                       else [(''settlement_id'', s_ID settlement),
                             (''status'', settlementStatusString status)]),
          o_CreatedAt = createdAt, o_PublishedAt = None\<rparr>)"

text \<open>The first loop of \<open>StartSettlement\<close>: every earning claimable, and their sum.\<close>

fun claimTotal ::
  "Settlement \<Rightarrow> (string, int64) gomap \<Rightarrow> MemoryStore \<Rightarrow> int64 \<Rightarrow> string list
     \<Rightarrow> commission_error + int64" where
  "claimTotal settlement expectedVersions st sofar [] = Inr sofar"
| "claimTotal settlement expectedVersions st sofar (eid # ids) =
     (case map_of (ms_earnings st) eid of
        None \<Rightarrow> Inl ErrEarningUnavailable
      | Some earning \<Rightarrow>
        if e_TenantID earning \<noteq> s_TenantID settlement
           \<or> e_Status earning \<noteq> EarningStatusAvailable
           \<or> e_Version earning \<noteq> lookup0 expectedVersions eid
           \<or> e_Beneficiary earning \<noteq> s_Beneficiary settlement
           \<or> Currency (e_Amount earning) \<noteq> Currency (s_Amount settlement)
        then Inl ErrEarningUnavailable
        else if Minor (e_Amount earning) > sub64 MaxInt64 sofar then Inl ErrInvalidSettlement
        else claimTotal settlement expectedVersions st
               (add64 sofar (Minor (e_Amount earning))) ids)"

text \<open>The second loop: the earnings become settling, one write each.\<close>

fun claimEarnings ::
  "Time \<Rightarrow> string list \<Rightarrow> MemoryStore \<Rightarrow> (commission_error + unit) \<times> MemoryStore" where
  "claimEarnings now [] st = (Inr (), st)"
| "claimEarnings now (eid # ids) st =
     (let earning = lookupEarning st eid in
      case TransitionEarning (e_Status earning) EarningActionStartSettlement of
        Inl e \<Rightarrow> (Inl e, st)
      | Inr next_status \<Rightarrow>
          claimEarnings now ids
            (st\<lparr>ms_earnings := AList.update eid (advanceEarning earning next_status now)
                                  (ms_earnings st)\<rparr>))"

definition settlementKey :: "Settlement \<Rightarrow> TenantID \<times> string" where
  "settlementKey settlement = (s_TenantID settlement, s_ID settlement)"

definition Store_StartSettlement ::
  "digests \<Rightarrow> ctx \<Rightarrow> Settlement \<Rightarrow> (string, int64) gomap \<Rightarrow> MemoryStore
     \<Rightarrow> (commission_error + Settlement) \<times> MemoryStore" where
  "Store_StartSettlement D cx settlement expectedVersions st =
     on_ok (ctx_ok cx) st (\<lambda>_.
     on_ok (validateSettlement settlement expectedVersions) st (\<lambda>_.
       let key = settlementKey settlement in
       case map_of (ms_settlements st) key of
         Some _ \<Rightarrow> fails ErrSettlementAlreadyExists st
       | None \<Rightarrow>
         on_ok (claimTotal settlement expectedVersions st 0 (sort (s_EarningIDs settlement))) st
           (\<lambda>sum.
            if sum \<noteq> Minor (s_Amount settlement) then fails ErrInvalidSettlement st
            else let submittedOutbox = settlementOutbox D settlement SettlementStatusSubmitted
                       (s_Version settlement) (s_CreatedAt settlement)
              in on_ok (validateOutboxEventsLocked [submittedOutbox] st) st (\<lambda>_.
                 case claimEarnings (s_CreatedAt settlement) (s_EarningIDs settlement) st of
                   (Inl e, st1) \<Rightarrow> (Inl e, st1)
                 | (Inr _, st1) \<Rightarrow>
                   (case appendOutboxLocked submittedOutbox
                           (st1\<lparr>ms_settlements := AList.update key settlement
                                                    (ms_settlements st1)\<rparr>) of
                      (Inl e, st2) \<Rightarrow> (Inl e, st2)
                    | (Inr _, st2) \<Rightarrow> (Inr settlement, st2))))))"

definition Store_GetSettlement ::
  "ctx \<Rightarrow> TenantID \<Rightarrow> string \<Rightarrow> MemoryStore \<Rightarrow> commission_error + Settlement" where
  "Store_GetSettlement cx tenantID sid st =
     bind_ok (ctx_ok cx) (\<lambda>_.
       if tenantID = [] \<or> sid = [] then Inl ErrInvalidSettlement
       else case map_of (ms_settlements st) (tenantID, sid) of
         None \<Rightarrow> Inl ErrSettlementNotFound
       | Some settlement \<Rightarrow> Inr settlement)"

fun finishTransitions ::
  "digests \<Rightarrow> TenantID \<Rightarrow> bool \<Rightarrow> Time \<Rightarrow> MemoryStore \<Rightarrow> string list
     \<Rightarrow> commission_error + earningTransition list" where
  "finishTransitions D tenantID settled now st [] = Inr []"
| "finishTransitions D tenantID settled now st (eid # ids) =
     (case map_of (ms_earnings st) eid of
        None \<Rightarrow> Inl ErrEarningUnavailable
      | Some earning \<Rightarrow>
        if e_TenantID earning \<noteq> tenantID \<or> e_Status earning \<noteq> EarningStatusSettling
        then Inl ErrEarningUnavailable
        else let action = (if settled then EarningActionSettle
                           else EarningActionRejectSettlement)
          in case TransitionEarning (e_Status earning) action of
               Inl e \<Rightarrow> Inl e
             | Inr next_status \<Rightarrow>
                 (case finishTransitions D tenantID settled now st ids of
                    Inl e \<Rightarrow> Inl e
                  | Inr transitions \<Rightarrow>
                      Inr (newEarningTransition D (advanceEarning earning next_status now)
                             action now # transitions)))"

definition Store_FinishSettlement ::
  "digests \<Rightarrow> ctx \<Rightarrow> TenantID \<Rightarrow> string \<Rightarrow> int64 \<Rightarrow> bool \<Rightarrow> string \<Rightarrow> Time \<Rightarrow> MemoryStore
     \<Rightarrow> (commission_error + Settlement) \<times> MemoryStore" where
  "Store_FinishSettlement D cx tenantID sid expectedVersion settled providerReference now st =
     on_ok (ctx_ok cx) st (\<lambda>_.
       if tenantID = [] \<or> sid = [] \<or> expectedVersion \<le> 0 \<or> IsZero now
       then fails ErrInvalidSettlement st
       else case map_of (ms_settlements st) (tenantID, sid) of
         None \<Rightarrow> fails ErrSettlementNotFound st
       | Some batch \<Rightarrow>
         let desiredStatus = (if settled then SettlementStatusSettled
                              else SettlementStatusRejected) in
         if s_Status batch \<noteq> SettlementStatusSubmitted then
           (if s_Status batch = desiredStatus \<and> s_ProviderReference batch = providerReference
            then (Inr batch, st) else fails ErrSettlementOutcomeConflict st)
         else if s_Version batch \<noteq> expectedVersion then fails ErrVersionConflict st
         else on_ok (finishTransitions D tenantID settled now st (s_EarningIDs batch)) st
           (\<lambda>transitions.
            on_ok (validateEarningTransitionsLocked transitions st) st (\<lambda>_.
            let completed = batch\<lparr>s_Status := desiredStatus,
                  s_ProviderReference := providerReference,
                  s_Version := add64 (s_Version batch) 1, s_UpdatedAt := now\<rparr>;
                completedOutbox = settlementOutbox D completed (s_Status completed)
                  (s_Version completed) now
            in on_ok (validateOutboxEventsLocked [completedOutbox] st) st (\<lambda>_.
               case applyEarningTransitionsLocked transitions st of
                 (Inl e, st1) \<Rightarrow> (Inl e, st1)
               | (Inr _, st1) \<Rightarrow>
                 (case appendOutboxLocked completedOutbox
                         (st1\<lparr>ms_settlements := AList.update (tenantID, sid) completed
                                                  (ms_settlements st1)\<rparr>) of
                    (Inl e, st2) \<Rightarrow> (Inl e, st2)
                  | (Inr _, st2) \<Rightarrow> (Inr completed, st2))))))"

section \<open>Outbox\<close>

definition cursorEmpty :: "OutboxCursor \<Rightarrow> bool" where
  "cursorEmpty cursor \<longleftrightarrow> IsZero (oc_CreatedAt cursor) \<and> oc_ID cursor = []"

definition outboxFilterValid :: "OutboxFilter \<Rightarrow> bool" where
  "outboxFilterValid filt \<longleftrightarrow>
     of_Limit filt \<ge> 0
     \<and> (IsZero (oc_CreatedAt (of_Cursor filt)) = (oc_ID (of_Cursor filt) = []))"

definition outboxEventAfterCursor :: "OutboxEvent \<Rightarrow> OutboxCursor \<Rightarrow> bool" where
  "outboxEventAfterCursor event cursor \<longleftrightarrow>
     (if cursorEmpty cursor then True
      else if o_CreatedAt event > oc_CreatedAt cursor then True
      else o_CreatedAt event = oc_CreatedAt cursor \<and> o_ID event > oc_ID cursor)"

definition Store_ListOutbox ::
  "ctx \<Rightarrow> TenantID \<Rightarrow> OutboxFilter \<Rightarrow> MemoryStore \<Rightarrow> commission_error + OutboxEvent list" where
  "Store_ListOutbox cx tenantID filt st =
     bind_ok (ctx_ok cx) (\<lambda>_.
       if tenantID = [] \<or> \<not> outboxFilterValid filt then Inl ErrInvalidOutboxFilter
       else let events = sort_key (\<lambda>e. (o_CreatedAt e, o_ID e))
                  (filter (\<lambda>event. \<not> (o_TenantID event \<noteq> tenantID
                             \<or> (of_UnpublishedOnly filt \<and> o_PublishedAt event \<noteq> None)))
                     (vals (ms_outbox st)));
                page = (if \<not> cursorEmpty (of_Cursor filt)
                        then dropWhile (\<lambda>event. \<not> outboxEventAfterCursor event (of_Cursor filt))
                               events
                        else events)
            in Inr (limitPage (of_Limit filt) page))"

definition Store_MarkOutboxPublished ::
  "ctx \<Rightarrow> TenantID \<Rightarrow> string \<Rightarrow> Time \<Rightarrow> MemoryStore
     \<Rightarrow> (commission_error + unit) \<times> MemoryStore" where
  "Store_MarkOutboxPublished cx tenantID oid publishedAt st =
     on_ok (ctx_ok cx) st (\<lambda>_.
       if tenantID = [] \<or> oid = [] \<or> IsZero publishedAt then fails ErrInvalidOutbox st
       else case map_of (ms_outbox st) (tenantID, oid) of
         None \<Rightarrow> fails ErrOutboxNotFound st
       | Some event \<Rightarrow>
         (case o_PublishedAt event of
            Some _ \<Rightarrow> (Inr (), st)
          | None \<Rightarrow> (Inr (), st\<lparr>ms_outbox := AList.update (tenantID, oid)
                               (event\<lparr>o_PublishedAt := Some publishedAt\<rparr>) (ms_outbox st)\<rparr>)))"

end
