(* ===== verification/Commission_Effects.thy ===== *)
theory Commission_Effects
  imports Commission_Earnings
begin

text \<open>
  What each operation of the store does to it: for a successful run the new store as a
  closed expression, and for a failing run the old store (every operation is
  all-or-nothing). The later theories use only these facts.
\<close>

section \<open>Batches of writes\<close>

lemma fold_update_map_of:
  "map_of (fold (\<lambda>x. AList.update (f x) x) xs m) = map_of m ++ map_of (rev (map (\<lambda>x. (f x, x)) xs))"
proof (induction xs arbitrary: m)
  case Nil
  then show ?case by simp
next
  case (Cons x xs)
  show ?case
    by (simp add: Cons.IH map_add_def fun_eq_iff split: option.splits)
qed

lemma fold_update_wf: "wf_map m \<Longrightarrow> wf_map (fold (\<lambda>x. AList.update (f x) x) xs m)"
  by (induction xs arbitrary: m) simp_all

lemma fold_update_lookup:
  assumes "distinct (map f xs)"
  shows "map_of (fold (\<lambda>x. AList.update (f x) x) xs m) k
       = (if k \<in> f ` set xs then Some (the_inv_into (set xs) f k) else map_of m k)"
proof -
  have d: "distinct (map fst (rev (map (\<lambda>x. (f x, x)) xs)))"
    using assms by (simp add: rev_map [symmetric] comp_def distinct_map)
  have inj: "inj_on f (set xs)" using assms by (simp add: distinct_map)
  show ?thesis
  proof (cases "k \<in> f ` set xs")
    case True
    then obtain x where x: "x \<in> set xs" "k = f x" by auto
    then have "map_of (rev (map (\<lambda>x. (f x, x)) xs)) k = Some x"
      using d by (intro map_of_is_SomeI) auto
    then show ?thesis
      using True x inj by (simp add: fold_update_map_of map_add_Some_iff the_inv_into_f_f)
  next
    case False
    then have "map_of (rev (map (\<lambda>x. (f x, x)) xs)) k = None"
      by (auto simp: map_of_eq_None_iff)
    then show ?thesis using False by (simp add: fold_update_map_of map_add_def)
  qed
qed

lemma fold_update_hit:
  assumes "distinct (map f xs)" "x \<in> set xs"
  shows "map_of (fold (\<lambda>x. AList.update (f x) x) xs m) (f x) = Some x"
  using assms by (simp add: fold_update_lookup distinct_map the_inv_into_f_f)

lemma fold_update_miss:
  "k \<notin> f ` set xs \<Longrightarrow> map_of (fold (\<lambda>x. AList.update (f x) x) xs m) k = map_of m k"
  by (induction xs arbitrary: m) auto

lemma fold_update_Some:
  assumes "distinct (map f xs)" "map_of (fold (\<lambda>x. AList.update (f x) x) xs m) k = Some y"
  shows "y \<in> set xs \<and> f y = k \<or> k \<notin> f ` set xs \<and> map_of m k = Some y"
  using assms fold_update_hit [OF assms(1)] fold_update_miss [of k f xs m]
  by (cases "k \<in> f ` set xs") auto

lemma noDuplicates_ok:
  "noDuplicates e seen xs = Inr u \<longleftrightarrow> distinct xs \<and> set seen \<inter> set xs = {}"
  by (induction xs arbitrary: seen) auto

section \<open>Journal and outbox checks\<close>

lemma checkJournalIDs_ok:
  "checkJournalIDs stored seen ids = Inr u \<longleftrightarrow>
     distinct ids \<and> set seen \<inter> set ids = {} \<and> stored \<inter> set ids = {}"
  by (induction ids arbitrary: seen) auto

lemma validateOutboxKeys_ok:
  "validateOutboxKeys stored seen keys = Inr u \<longleftrightarrow>
     distinct keys \<and> set seen \<inter> set keys = {} \<and> (\<forall>k\<in>set keys. map_of stored k = None)"
  by (induction keys arbitrary: seen) (auto split: option.splits)

lemma validateOutboxEventsLocked_ok:
  "validateOutboxEventsLocked events st = Inr u \<longleftrightarrow>
     distinct (map outboxKey events)
     \<and> (\<forall>e\<in>set events. map_of (ms_outbox st) (outboxKey e) = None)"
  by (auto simp: validateOutboxEventsLocked_def validateOutboxKeys_ok)

lemma validateEarningTransitionsLocked_ok:
  "validateEarningTransitionsLocked ts st = Inr u \<longleftrightarrow>
     distinct (map (j_ID \<circ> et_journal) ts)
     \<and> (\<forall>t\<in>set ts. j_ID (et_journal t) \<notin> ms_journalIDs st)
     \<and> distinct (map (outboxKey \<circ> et_outbox) ts)
     \<and> (\<forall>t\<in>set ts. map_of (ms_outbox st) (outboxKey (et_outbox t)) = None)"
  by (auto simp: validateEarningTransitionsLocked_def checkJournalIDs_ok
      validateOutboxEventsLocked_ok ok_simps)

text \<open>The three batches a list of transitions writes.\<close>

definition applied :: "earningTransition list \<Rightarrow> MemoryStore \<Rightarrow> MemoryStore" where
  "applied ts st =
     putOutbox (map et_outbox ts) (putJournals (map et_journal ts) (putEarnings (map et_earning ts) st))"

lemma appendEarningTransitions_ok:
  assumes "distinct (map (outboxKey \<circ> et_outbox) ts)"
    and "\<forall>t\<in>set ts. map_of (ms_outbox st) (outboxKey (et_outbox t)) = None"
  shows "appendEarningTransitions ts st
       = (Inr (), putOutbox (map et_outbox ts) (putJournals (map et_journal ts) st))"
  using assms
proof (induction ts arbitrary: st)
  case Nil
  then show ?case by (simp add: putOutbox_def putJournals_def)
next
  case (Cons t ts)
  define st1 where "st1 = st\<lparr>ms_journals := ms_journals st @ [et_journal t],
      ms_journalIDs := insert (j_ID (et_journal t)) (ms_journalIDs st),
      ms_outbox := AList.update (outboxKey (et_outbox t)) (et_outbox t) (ms_outbox st)\<rparr>"
  have "appendEarningTransitionLocked t st = (Inr (), st1)"
    using Cons.prems(2) by (simp add: appendEarningTransitionLocked_def appendOutboxLocked_def st1_def)
  moreover have "appendEarningTransitions ts st1
      = (Inr (), putOutbox (map et_outbox ts) (putJournals (map et_journal ts) st1))"
    using Cons.prems by (intro Cons.IH) (auto simp: st1_def image_def)
  moreover have "putOutbox (map et_outbox ts) (putJournals (map et_journal ts) st1)
      = putOutbox (map et_outbox (t # ts)) (putJournals (map et_journal (t # ts)) st)"
    by (simp add: st1_def putOutbox_def putJournals_def)
  ultimately show ?case by simp
qed

lemma apply_validated:
  "validateEarningTransitionsLocked ts st = Inr u \<Longrightarrow>
     applyEarningTransitionsLocked ts st = (Inr (), applied ts st)"
  by (simp add: applyEarningTransitionsLocked_def applied_def validateEarningTransitionsLocked_ok
      appendEarningTransitions_ok putEarnings_def)

lemma applied_simps [simp]:
  "ms_templates (applied ts st) = ms_templates st"
  "ms_programs (applied ts st) = ms_programs st"
  "ms_attributions (applied ts st) = ms_attributions st"
  "ms_events (applied ts st) = ms_events st"
  "ms_settlements (applied ts st) = ms_settlements st"
  "ms_earnings (applied ts st) = ms_earnings (putEarnings (map et_earning ts) st)"
  "ms_journals (applied ts st) = ms_journals st @ map et_journal ts"
  "ms_journalIDs (applied ts st) = ms_journalIDs st \<union> j_ID ` et_journal ` set ts"
  "ms_outbox (applied ts st) = ms_outbox (putOutbox (map et_outbox ts) st)"
  by (simp_all add: applied_def putEarnings_def putJournals_def putOutbox_def)

lemma newEarningTransition_earning [simp]:
  "et_earning (newEarningTransition D e a now) = e"
  "j_EarningID (et_journal (newEarningTransition D e a now)) = e_ID e"
  "j_TenantID (et_journal (newEarningTransition D e a now)) = e_TenantID e"
  "j_Amount (et_journal (newEarningTransition D e a now)) = e_Amount e"
  "j_CreatedAt (et_journal (newEarningTransition D e a now)) = now"
  "o_TenantID (et_outbox (newEarningTransition D e a now)) = e_TenantID e"
  "o_AggregateID (et_outbox (newEarningTransition D e a now)) = e_ID e"
  by (simp_all add: newEarningTransition_def Let_def)

lemma advanceEarning_simps [simp]:
  "e_ID (advanceEarning e s now) = e_ID e"
  "e_TenantID (advanceEarning e s now) = e_TenantID e"
  "e_Amount (advanceEarning e s now) = e_Amount e"
  "e_Beneficiary (advanceEarning e s now) = e_Beneficiary e"
  "e_AvailableAt (advanceEarning e s now) = e_AvailableAt e"
  "e_CreatedAt (advanceEarning e s now) = e_CreatedAt e"
  "e_Status (advanceEarning e s now) = s"
  "e_Version (advanceEarning e s now) = add64 (e_Version e) 1"
  "e_UpdatedAt (advanceEarning e s now) = now"
  by (simp_all add: advanceEarning_def)

section \<open>Earnings and commits\<close>

lemma TransitionEarning_effect:
  "Store_TransitionEarning D cx tenantID eid v a now st = (Inr e', st') \<longleftrightarrow>
     cx = None \<and> tenantID \<noteq> [] \<and> eid \<noteq> [] \<and> v > 0 \<and> \<not> IsZero now \<and> \<not> aggregateAction a
     \<and> (\<exists>e s. map_of (ms_earnings st) eid = Some e \<and> e_TenantID e = tenantID \<and> e_Version e = v
          \<and> TransitionEarning (e_Status e) a = Inr s \<and> e' = advanceEarning e s now
          \<and> validateEarningTransitionsLocked [newEarningTransition D e' a now] st = Inr ()
          \<and> st' = applied [newEarningTransition D e' a now] st)"
  by (auto simp: Store_TransitionEarning_def ok_simps Let_def apply_validated)

lemma TransitionEarning_atomic: "atomic_op (Store_TransitionEarning D cx tenantID eid v a now)"
  by (auto simp: atomic_op_def Store_TransitionEarning_def Let_def apply_validated on_ok_def
      split: if_splits option.splits sum.splits)

lemma MakeAvailableDue_atomic: "atomic_op (Store_MakeAvailableDue D cx now limit)"
  by (auto simp: atomic_op_def Store_MakeAvailableDue_def Let_def apply_validated on_ok_def
      split: if_splits sum.splits)

definition dueBatch :: "Time \<Rightarrow> int \<Rightarrow> MemoryStore \<Rightarrow> Earning list" where
  "dueBatch now limit st =
     (if int (length (dueEarnings now st)) > limit then take (nat limit) (dueEarnings now st)
      else dueEarnings now st)"

lemma MakeAvailableDue_effect:
  "Store_MakeAvailableDue D cx now limit st = (Inr es, st') \<longleftrightarrow>
     cx = None \<and> \<not> IsZero now \<and> limit > 0
     \<and> (\<exists>ts. releaseTransitions D now st (map e_ID (dueBatch now limit st)) = Inr ts
          \<and> validateEarningTransitionsLocked ts st = Inr () \<and> es = map et_earning ts
          \<and> st' = applied ts st)"
  by (auto simp: Store_MakeAvailableDue_def ok_simps Let_def apply_validated dueBatch_def)

lemma cloneEarningsLocked_ok:
  "cloneEarningsLocked st ids = Inr es \<longleftrightarrow> map (map_of (ms_earnings st)) ids = map Some es"
proof (induction ids arbitrary: es)
  case Nil
  then show ?case by auto
next
  case (Cons i ids)
  then show ?case
    by (cases es; cases "cloneEarningsLocked st ids") (auto split: option.splits)
qed

lemma cloneEarningsLocked_fresh:
  assumes "distinct (map e_ID es)"
    and "ms_earnings st' = ms_earnings (putEarnings es st)"
  shows "cloneEarningsLocked st' (map e_ID es) = Inr es"
  using assms
  by (auto simp: cloneEarningsLocked_ok putEarnings_def fold_update_hit)

lemma validateEventCommit_distinct:
  "validateEventCommit c = Inr u \<Longrightarrow> distinct (map e_ID (c_Earnings c))"
  by (auto simp: validateEventCommit_def ok_simps Let_def noDuplicates_ok split: if_splits)

lemma validateCommitJournals_ok:
  "validateCommitJournals ev eids jids js = Inr u \<Longrightarrow>
     distinct (map j_ID js) \<and> set jids \<inter> j_ID ` set js = {}
     \<and> (\<forall>j\<in>set js. j_TenantID j = ev_TenantID ev \<and> j_EarningID j \<in> set eids
           \<and> validJournalKind (j_Kind j) \<and> validAmount (j_Amount j))"
proof (induction js arbitrary: jids)
  case Nil
  then show ?case by simp
next
  case (Cons j js)
  then have "validateCommitJournals ev eids (j_ID j # jids) js = Inr u"
    by (simp split: if_splits)
  from Cons.IH [OF this] Cons.prems show ?case by (auto split: if_splits)
qed

lemma validateCommitOutbox_ok:
  "validateCommitOutbox ev oids os = Inr u \<Longrightarrow>
     distinct (map o_ID os) \<and> set oids \<inter> o_ID ` set os = {}
     \<and> (\<forall>x\<in>set os. o_TenantID x = ev_TenantID ev)"
proof (induction os arbitrary: oids)
  case Nil
  then show ?case by simp
next
  case (Cons x os)
  then have "validateCommitOutbox ev (o_ID x # oids) os = Inr u"
    by (simp split: if_splits)
  from Cons.IH [OF this] Cons.prems show ?case by (auto split: if_splits)
qed

lemma validateEventCommit_parts:
  assumes "validateEventCommit c = Inr u"
  shows "validateCommissionEvent (c_Event c) = Inr ()"
    and "\<forall>e\<in>set (c_Earnings c). validateStoredEarning e = Inr ()
           \<and> e_TenantID e = ev_TenantID (c_Event c)"
    and "distinct (map j_ID (c_Journals c))"
    and "\<forall>j\<in>set (c_Journals c). j_TenantID j = ev_TenantID (c_Event c)
           \<and> j_EarningID j \<in> e_ID ` set (c_Earnings c)"
    and "distinct (map o_ID (c_Outbox c))"
    and "\<forall>x\<in>set (c_Outbox c). o_TenantID x = ev_TenantID (c_Event c)"
  using assms
  by (auto simp: validateEventCommit_def ok_simps Let_def
      dest!: validateCommitJournals_ok validateCommitOutbox_ok split: if_splits)

text \<open>The store after a commit that was not seen before.\<close>

definition committed :: "digests \<Rightarrow> EventCommit \<Rightarrow> MemoryStore \<Rightarrow> MemoryStore" where
  "committed D c st =
     (putOutbox (c_Outbox c) (putJournals (c_Journals c) (putEarnings (c_Earnings c) st)))
       \<lparr>ms_events := AList.update (eventKey (c_Event c))
          \<lparr>re_fingerprint = eventIdempotencyFingerprint D (c_Event c) (c_ProgramID c),
           re_decision = decisionSnapshotFor D c, re_earningIDs = map e_ID (c_Earnings c)\<rparr>
          (ms_events st)\<rparr>"

lemma committed_simps [simp]:
  "ms_templates (committed D c st) = ms_templates st"
  "ms_programs (committed D c st) = ms_programs st"
  "ms_attributions (committed D c st) = ms_attributions st"
  "ms_settlements (committed D c st) = ms_settlements st"
  "ms_earnings (committed D c st) = ms_earnings (putEarnings (c_Earnings c) st)"
  "ms_journals (committed D c st) = ms_journals st @ c_Journals c"
  "ms_journalIDs (committed D c st) = ms_journalIDs st \<union> j_ID ` set (c_Journals c)"
  "ms_outbox (committed D c st) = ms_outbox (putOutbox (c_Outbox c) st)"
  by (simp_all add: committed_def putEarnings_def putJournals_def putOutbox_def)

definition commitFresh :: "EventCommit \<Rightarrow> MemoryStore \<Rightarrow> bool" where
  "commitFresh c st \<longleftrightarrow>
     (\<forall>e\<in>set (c_Earnings c). map_of (ms_earnings st) (e_ID e) = None)
     \<and> (\<forall>x\<in>set (c_Outbox c). map_of (ms_outbox st) (outboxKey x) = None)
     \<and> (\<forall>j\<in>set (c_Journals c). j_ID j \<notin> ms_journalIDs st)"

lemma CommitEvent_new:
  assumes "map_of (ms_events st) (eventKey (c_Event c)) = None"
  shows "Store_CommitEvent D cx c st =
    on_ok (ctx_ok cx) st (\<lambda>_. on_ok (validateEventCommit c) st (\<lambda>_.
    on_ok (validateCommitVersionsLocked c st) st (\<lambda>_.
      if commitFresh c st then (Inr (c_Earnings c), committed D c st)
      else fails ErrEventConflict st)))"
proof (cases "validateEventCommit c")
  case (Inl e)
  then show ?thesis by (simp add: Store_CommitEvent_def)
next
  case (Inr u)
  note d = validateEventCommit_distinct [OF Inr]
  have "ms_events (putOutbox os (putJournals js (putEarnings es st))) = ms_events st" for os js es
    by (simp add: putEarnings_def putJournals_def putOutbox_def)
  moreover have "cloneEarningsLocked (committed D c st) (map e_ID (c_Earnings c)) = Inr (c_Earnings c)"
    using d by (rule cloneEarningsLocked_fresh) simp
  ultimately show ?thesis
    using assms Inr
    by (auto simp: Store_CommitEvent_def committed_def commitFresh_def Let_def list_ex_iff on_ok_def
        split: sum.splits)
qed

lemma CommitEvent_seen:
  assumes "map_of (ms_events st) (eventKey (c_Event c)) = Some r"
  shows "Store_CommitEvent D cx c st =
    on_ok (ctx_ok cx) st (\<lambda>_. on_ok (validateEventCommit c) st (\<lambda>_.
      if re_fingerprint r \<noteq> eventIdempotencyFingerprint D (c_Event c) (c_ProgramID c)
      then fails ErrEventConflict st
      else (cloneEarningsLocked st (re_earningIDs r), st)))"
  using assms by (simp add: Store_CommitEvent_def Let_def)

lemma CommitEvent_atomic: "atomic_op (Store_CommitEvent D cx c)"
proof -
  have "st' = st" if f: "Store_CommitEvent D cx c st = (Inl e, st')" for st e st'
  proof (cases "map_of (ms_events st) (eventKey (c_Event c))")
    case None
    then show ?thesis
      using f by (auto simp: CommitEvent_new on_ok_def split: sum.splits if_splits)
  next
    case (Some r)
    then show ?thesis
      using f by (auto simp: CommitEvent_seen on_ok_def split: sum.splits if_splits)
  qed
  then show ?thesis by (auto simp: atomic_op_def)
qed

lemma CommitEvent_effect:
  assumes "Store_CommitEvent D cx c st = (Inr es, st')"
  shows "cx = None" and "validateEventCommit c = Inr ()"
    and "st' = st \<and> map_of (ms_events st) (eventKey (c_Event c)) \<noteq> None
         \<or> map_of (ms_events st) (eventKey (c_Event c)) = None
           \<and> validateCommitVersionsLocked c st = Inr () \<and> commitFresh c st
           \<and> es = c_Earnings c \<and> st' = committed D c st"
  using assms
  by (cases "map_of (ms_events st) (eventKey (c_Event c))";
      auto simp: CommitEvent_new CommitEvent_seen ok_simps split: if_splits)+

end
