(* ===== verification/Commission_Settle.thy ===== *)
theory Commission_Settle
  imports Commission_Effects
begin

text \<open>
  What \<open>StartSettlement\<close>, \<open>FinishSettlement\<close> and the release loop do: the loops in closed
  form, the new store of a successful run, and that a failing run changes nothing.
\<close>

lemma lookupEarning_Some: "map_of (ms_earnings st) i = Some e \<Longrightarrow> lookupEarning st i = e"
  by (simp add: lookupEarning_def)

lemma lookupEarning_status:
  "e_Status (lookupEarning st i) = s \<Longrightarrow> validEarningStatus s \<Longrightarrow>
     map_of (ms_earnings st) i = Some (lookupEarning st i)"
  by (auto simp: lookupEarning_def zeroEarning_def validEarningStatus_def split: option.splits)

section \<open>The release loop\<close>

definition releaseTransition :: "digests \<Rightarrow> Time \<Rightarrow> MemoryStore \<Rightarrow> string \<Rightarrow> earningTransition" where
  "releaseTransition D now st i =
     newEarningTransition D (advanceEarning (lookupEarning st i) EarningStatusAvailable now)
       EarningActionMakeAvailable now"

lemma releaseTransitions_ok:
  "releaseTransitions D now st ids = Inr ts \<longleftrightarrow>
     (\<forall>i\<in>set ids. e_Status (lookupEarning st i) = EarningStatusPending)
     \<and> ts = map (releaseTransition D now st) ids"
proof (induction ids arbitrary: ts)
  case Nil
  then show ?case by auto
next
  case (Cons i ids)
  have "TransitionEarning s EarningActionMakeAvailable
      = (if s = EarningStatusPending then Inr EarningStatusAvailable
         else Inl ErrInvalidEarningTransition)" for s
    by (cases s) (simp_all add: TransitionEarning_def)
  then show ?case
    using Cons.IH
    by (cases "releaseTransitions D now st ids")
       (auto simp: Let_def releaseTransition_def split: if_splits)
qed

section \<open>Starting a settlement\<close>

definition claimable ::
  "Settlement \<Rightarrow> (string, int64) gomap \<Rightarrow> MemoryStore \<Rightarrow> string \<Rightarrow> bool" where
  "claimable s ev st i \<longleftrightarrow>
     (\<exists>e. map_of (ms_earnings st) i = Some e \<and> e_TenantID e = s_TenantID s
        \<and> e_Status e = EarningStatusAvailable \<and> e_Version e = lookup0 ev i
        \<and> e_Beneficiary e = s_Beneficiary s
        \<and> Currency (e_Amount e) = Currency (s_Amount s))"

definition earningMinor :: "MemoryStore \<Rightarrow> string \<Rightarrow> int" where
  "earningMinor st i = Minor (e_Amount (lookupEarning st i))"

lemma claimTotal_claimable:
  "claimTotal s ev st sofar ids = Inr tot \<Longrightarrow> \<forall>i\<in>set ids. claimable s ev st i"
  by (induction ids arbitrary: sofar) (auto simp: claimable_def split: option.splits if_splits)

lemma claimTotal_sum:
  assumes "claimTotal s ev st sofar ids = Inr tot" "0 \<le> sofar" "sofar \<le> MaxInt64"
    and "\<forall>i\<in>set ids. 0 \<le> earningMinor st i"
  shows "tot = sofar + (\<Sum>i\<leftarrow>ids. earningMinor st i)"
  using assms
proof (induction ids arbitrary: sofar)
  case Nil
  then show ?case by simp
next
  case (Cons i ids)
  from Cons.prems obtain e where e: "map_of (ms_earnings st) i = Some e"
    and le: "\<not> Minor (e_Amount e) > sub64 MaxInt64 sofar"
    and rest: "claimTotal s ev st (add64 sofar (Minor (e_Amount e))) ids = Inr tot"
    by (auto split: option.splits if_splits)
  have m: "earningMinor st i = Minor (e_Amount e)" "0 \<le> Minor (e_Amount e)"
    using e Cons.prems(4) by (auto simp: earningMinor_def lookupEarning_Some)
  have "sub64 MaxInt64 sofar = MaxInt64 - sofar"
    using Cons.prems by (intro sub64_MaxInt64 i64_nonneg) auto
  with le have fits: "sofar + Minor (e_Amount e) \<le> MaxInt64" by simp
  then have "add64 sofar (Minor (e_Amount e)) = sofar + Minor (e_Amount e)"
    using Cons.prems m by (intro add64_id i64_nonneg) auto
  then show ?case
    using Cons.IH [OF rest] fits m Cons.prems by simp
qed

lemma claimEarnings_ok:
  assumes "distinct ids" "\<forall>i\<in>set ids. e_Status (lookupEarning st i) = EarningStatusAvailable"
  shows "\<exists>m. claimEarnings now ids st = (Inr (), st\<lparr>ms_earnings := m\<rparr>)
    \<and> (wf_map (ms_earnings st) \<longrightarrow> wf_map m)
    \<and> (\<forall>k. map_of m k = (if k \<in> set ids
          then Some (advanceEarning (lookupEarning st k) EarningStatusSettling now)
          else map_of (ms_earnings st) k))"
  using assms
proof (induction ids arbitrary: st)
  case Nil
  show ?case by (rule exI [of _ "ms_earnings st"]) simp
next
  case (Cons i ids)
  define e where "e = advanceEarning (lookupEarning st i) EarningStatusSettling now"
  define st1 where "st1 = st\<lparr>ms_earnings := AList.update i e (ms_earnings st)\<rparr>"
  have step: "claimEarnings now (i # ids) st = claimEarnings now ids st1"
    using Cons.prems(2) by (simp add: TransitionEarning_def Let_def e_def st1_def)
  have same: "lookupEarning st1 k = lookupEarning st k" if "k \<noteq> i" for k
    using that by (simp add: lookupEarning_def st1_def)
  have "distinct ids" and "\<forall>k\<in>set ids. e_Status (lookupEarning st1 k) = EarningStatusAvailable"
    using Cons.prems same by (auto simp: ball_Un) (metis)
  then obtain m where m: "claimEarnings now ids st1 = (Inr (), st1\<lparr>ms_earnings := m\<rparr>)"
    "wf_map (ms_earnings st1) \<longrightarrow> wf_map m"
    "\<forall>k. map_of m k = (if k \<in> set ids
        then Some (advanceEarning (lookupEarning st1 k) EarningStatusSettling now)
        else map_of (ms_earnings st1) k)"
    using Cons.IH by blast
  show ?case
  proof (intro exI [of _ m] conjI allI)
    show "claimEarnings now (i # ids) st = (Inr (), st\<lparr>ms_earnings := m\<rparr>)"
      using step m(1) by (simp add: st1_def)
    show "wf_map (ms_earnings st) \<longrightarrow> wf_map m"
      using m(2) by (simp add: st1_def)
    show "map_of m k = (if k \<in> set (i # ids)
        then Some (advanceEarning (lookupEarning st k) EarningStatusSettling now)
        else map_of (ms_earnings st) k)" for k
      using m(3) same [of k] Cons.prems(1) by (cases "k = i") (auto simp: st1_def e_def)
  qed
qed

lemma validateSettlement_parts:
  assumes "validateSettlement s ev = Inr u"
  shows "s_Status s = SettlementStatusSubmitted" and "distinct (s_EarningIDs s)"
    and "0 < Minor (s_Amount s)" and "s_EarningIDs s \<noteq> []"
    and "s_TenantID s \<noteq> []" and "s_ID s \<noteq> []" and "0 < s_Version s"
  using assms by (auto simp: validateSettlement_def ok_simps noDuplicates_ok split: if_splits)

text \<open>The store after a settlement has started; \<open>m\<close> is the new map of earnings.\<close>

definition started :: "digests \<Rightarrow> Settlement \<Rightarrow> (string, Earning) gomap \<Rightarrow> MemoryStore \<Rightarrow> MemoryStore"
where
  "started D s m st =
     st\<lparr>ms_earnings := m,
        ms_settlements := AList.update (settlementKey s) s (ms_settlements st),
        ms_outbox := (let x = settlementOutbox D s SettlementStatusSubmitted (s_Version s)
                            (s_CreatedAt s)
                      in AList.update (outboxKey x) x (ms_outbox st))\<rparr>"

lemma StartSettlement_cases:
  assumes "Store_StartSettlement D cx s ev st = (r, st')"
  shows "(\<exists>e. r = Inl e) \<and> st' = st
    \<or> r = Inr s \<and> cx = None \<and> validateSettlement s ev = Inr ()
      \<and> map_of (ms_settlements st) (settlementKey s) = None
      \<and> (\<forall>i\<in>set (s_EarningIDs s). claimable s ev st i)
      \<and> claimTotal s ev st 0 (sort (s_EarningIDs s)) = Inr (Minor (s_Amount s))
      \<and> (\<exists>m. st' = started D s m st \<and> (wf_map (ms_earnings st) \<longrightarrow> wf_map m)
           \<and> (\<forall>k. map_of m k = (if k \<in> set (s_EarningIDs s)
                 then Some (advanceEarning (lookupEarning st k) EarningStatusSettling
                              (s_CreatedAt s))
                 else map_of (ms_earnings st) k)))"
proof -
  let ?x = "settlementOutbox D s SettlementStatusSubmitted (s_Version s) (s_CreatedAt s)"
  show ?thesis
  proof (cases "cx = None \<and> validateSettlement s ev = Inr ()
      \<and> map_of (ms_settlements st) (settlementKey s) = None
      \<and> claimTotal s ev st 0 (sort (s_EarningIDs s)) = Inr (Minor (s_Amount s))
      \<and> validateOutboxEventsLocked [?x] st = Inr ()")
    case False
    then have "(\<exists>e. r = Inl e) \<and> st' = st"
      using assms
      by (auto simp: Store_StartSettlement_def Let_def on_ok_def ctx_ok_def
          split: option.splits sum.splits if_splits)
    then show ?thesis ..
  next
    case True
    have c: "\<forall>i\<in>set (s_EarningIDs s). claimable s ev st i"
      using claimTotal_claimable [of s ev st 0 "sort (s_EarningIDs s)"] True by auto
    then have "\<forall>i\<in>set (s_EarningIDs s). e_Status (lookupEarning st i) = EarningStatusAvailable"
      by (auto simp: claimable_def lookupEarning_def)
    then obtain m where m: "claimEarnings (s_CreatedAt s) (s_EarningIDs s) st
        = (Inr (), st\<lparr>ms_earnings := m\<rparr>)" "wf_map (ms_earnings st) \<longrightarrow> wf_map m"
      "\<forall>k. map_of m k = (if k \<in> set (s_EarningIDs s)
          then Some (advanceEarning (lookupEarning st k) EarningStatusSettling (s_CreatedAt s))
          else map_of (ms_earnings st) k)"
      using claimEarnings_ok validateSettlement_parts(2) True by blast
    have "map_of (ms_outbox st) (outboxKey ?x) = None"
      using True by (simp add: validateOutboxEventsLocked_ok)
    then have "Store_StartSettlement D cx s ev st = (Inr s, started D s m st)"
      using True m(1)
      by (simp add: Store_StartSettlement_def Let_def appendOutboxLocked_def started_def)
    then show ?thesis using assms True c m by auto
  qed
qed

lemma StartSettlement_atomic: "atomic_op (Store_StartSettlement D cx s ev)"
  unfolding atomic_op_def using StartSettlement_cases [of D cx s ev] by blast

section \<open>Finishing a settlement\<close>

definition outcomeStatus :: "bool \<Rightarrow> EarningStatus" where
  "outcomeStatus settled = (if settled then EarningStatusSettled else EarningStatusAvailable)"

definition outcomeAction :: "bool \<Rightarrow> EarningAction" where
  "outcomeAction settled = (if settled then EarningActionSettle else EarningActionRejectSettlement)"

definition desiredStatus :: "bool \<Rightarrow> SettlementStatus" where
  "desiredStatus settled = (if settled then SettlementStatusSettled else SettlementStatusRejected)"

definition finishTransition ::
  "digests \<Rightarrow> bool \<Rightarrow> Time \<Rightarrow> MemoryStore \<Rightarrow> string \<Rightarrow> earningTransition" where
  "finishTransition D settled now st i =
     newEarningTransition D (advanceEarning (lookupEarning st i) (outcomeStatus settled) now)
       (outcomeAction settled) now"

lemma finishTransitions_ok:
  "finishTransitions D tenantID settled now st ids = Inr ts \<longleftrightarrow>
     (\<forall>i\<in>set ids. \<exists>e. map_of (ms_earnings st) i = Some e \<and> e_TenantID e = tenantID
        \<and> e_Status e = EarningStatusSettling)
     \<and> ts = map (finishTransition D settled now st) ids"
proof (induction ids arbitrary: ts)
  case Nil
  then show ?case by auto
next
  case (Cons i ids)
  have step: "finishTransitions D tenantID settled now st (i # ids) =
    (case map_of (ms_earnings st) i of
       None \<Rightarrow> Inl ErrEarningUnavailable
     | Some e \<Rightarrow>
         if e_TenantID e = tenantID \<and> e_Status e = EarningStatusSettling
         then bind_ok (finishTransitions D tenantID settled now st ids)
                (\<lambda>ts. Inr (finishTransition D settled now st i # ts))
         else Inl ErrEarningUnavailable)"
    by (cases settled)
       (simp_all add: TransitionEarning_def bind_ok_def finishTransition_def lookupEarning_def
          outcomeAction_def outcomeStatus_def split: option.splits)
  show ?case
    unfolding step using Cons.IH by (auto simp: ok_simps split: option.splits)
qed

definition completedBatch :: "Settlement \<Rightarrow> bool \<Rightarrow> string \<Rightarrow> Time \<Rightarrow> Settlement" where
  "completedBatch batch settled ref now =
     batch\<lparr>s_Status := desiredStatus settled, s_ProviderReference := ref,
           s_Version := add64 (s_Version batch) 1, s_UpdatedAt := now\<rparr>"

lemma completedBatch_simps [simp]:
  "s_ID (completedBatch b settled ref now) = s_ID b"
  "s_TenantID (completedBatch b settled ref now) = s_TenantID b"
  "s_Beneficiary (completedBatch b settled ref now) = s_Beneficiary b"
  "s_Amount (completedBatch b settled ref now) = s_Amount b"
  "s_EarningIDs (completedBatch b settled ref now) = s_EarningIDs b"
  "s_Status (completedBatch b settled ref now) = desiredStatus settled"
  "s_Version (completedBatch b settled ref now) = add64 (s_Version b) 1"
  "settlementKey (completedBatch b settled ref now) = settlementKey b"
  by (simp_all add: completedBatch_def settlementKey_def)

definition finished ::
  "digests \<Rightarrow> TenantID \<Rightarrow> string \<Rightarrow> Settlement \<Rightarrow> bool \<Rightarrow> string \<Rightarrow> Time \<Rightarrow> MemoryStore \<Rightarrow> MemoryStore"
where
  "finished D tenantID sid batch settled ref now st =
     (let completed = completedBatch batch settled ref now;
          x = settlementOutbox D completed (s_Status completed) (s_Version completed) now;
          st1 = applied (map (finishTransition D settled now st) (s_EarningIDs batch)) st
      in st1\<lparr>ms_settlements := AList.update (tenantID, sid) completed (ms_settlements st),
             ms_outbox := AList.update (outboxKey x) x (ms_outbox st1)\<rparr>)"

text \<open>The event types of earnings and of settlements differ, so their outbox keys do.\<close>

lemma settlement_key_fresh:
  assumes "collisionFree D"
  shows "outboxKey (settlementOutbox D b s v t)
       \<noteq> outboxKey (et_outbox (newEarningTransition D e a now))"
  using assms
  by (auto simp: outboxKey_def settlementOutbox_def newEarningTransition_def Let_def outboxID_inject)

lemma FinishSettlement_cases:
  assumes "collisionFree D"
    and "Store_FinishSettlement D cx tenantID sid v settled ref now st = (r, st')"
  shows "(\<exists>e. r = Inl e) \<and> st' = st
    \<or> (\<exists>batch. map_of (ms_settlements st) (tenantID, sid) = Some batch
         \<and> s_Status batch = desiredStatus settled \<and> s_ProviderReference batch = ref
         \<and> r = Inr batch \<and> st' = st)
    \<or> (\<exists>batch. map_of (ms_settlements st) (tenantID, sid) = Some batch
         \<and> s_Status batch = SettlementStatusSubmitted \<and> s_Version batch = v
         \<and> (\<forall>i\<in>set (s_EarningIDs batch). \<exists>e. map_of (ms_earnings st) i = Some e
              \<and> e_TenantID e = tenantID \<and> e_Status e = EarningStatusSettling)
         \<and> validateEarningTransitionsLocked
             (map (finishTransition D settled now st) (s_EarningIDs batch)) st = Inr ()
         \<and> r = Inr (completedBatch batch settled ref now)
         \<and> st' = finished D tenantID sid batch settled ref now st)"
proof (cases "cx = None \<and> \<not> (tenantID = [] \<or> sid = [] \<or> v \<le> 0 \<or> IsZero now)
    \<and> map_of (ms_settlements st) (tenantID, sid) \<noteq> None")
  case False
  then show ?thesis
    using assms(2)
    by (auto simp: Store_FinishSettlement_def Let_def on_ok_def ctx_ok_def
        split: option.splits if_splits)
next
  case head: True
  then obtain batch where b: "map_of (ms_settlements st) (tenantID, sid) = Some batch" by auto
  let ?ts = "map (finishTransition D settled now st) (s_EarningIDs batch)"
  let ?c = "completedBatch batch settled ref now"
  let ?x = "settlementOutbox D ?c (s_Status ?c) (s_Version ?c) now"
  have ops: "Store_FinishSettlement D cx tenantID sid v settled ref now st =
    (if s_Status batch \<noteq> SettlementStatusSubmitted then
       (if s_Status batch = desiredStatus settled \<and> s_ProviderReference batch = ref
        then (Inr batch, st) else fails ErrSettlementOutcomeConflict st)
     else if s_Version batch \<noteq> v then fails ErrVersionConflict st
     else on_ok (finishTransitions D tenantID settled now st (s_EarningIDs batch)) st (\<lambda>ts.
          on_ok (validateEarningTransitionsLocked ts st) st (\<lambda>_.
          on_ok (validateOutboxEventsLocked [?x] st) st (\<lambda>_.
            case applyEarningTransitionsLocked ts st of
              (Inl e, st1) \<Rightarrow> (Inl e, st1)
            | (Inr _, st1) \<Rightarrow>
              (case appendOutboxLocked ?x (st1\<lparr>ms_settlements :=
                      AList.update (tenantID, sid) ?c (ms_settlements st1)\<rparr>) of
                 (Inl e, st2) \<Rightarrow> (Inl e, st2) | (Inr _, st2) \<Rightarrow> (Inr ?c, st2))))))"
    unfolding Store_FinishSettlement_def Let_def desiredStatus_def completedBatch_def
    using head b by simp
  show ?thesis
  proof (cases "s_Status batch = SettlementStatusSubmitted \<and> s_Version batch = v
      \<and> finishTransitions D tenantID settled now st (s_EarningIDs batch) = Inr ?ts
      \<and> validateEarningTransitionsLocked ?ts st = Inr ()
      \<and> validateOutboxEventsLocked [?x] st = Inr ()")
    case False
    moreover have "finishTransitions D tenantID settled now st (s_EarningIDs batch) = Inr ts
        \<Longrightarrow> ts = ?ts" for ts
      by (simp add: finishTransitions_ok)
    ultimately show ?thesis
      using assms(2) b unfolding ops by (auto simp: on_ok_def split: sum.splits if_splits)
  next
    case True
    let ?st1 = "applied ?ts st"
    have "map_of (ms_outbox st) (outboxKey ?x) = None"
      using True unfolding validateOutboxEventsLocked_ok by auto
    moreover have "outboxKey ?x \<notin> outboxKey ` set (map et_outbox ?ts)"
      using settlement_key_fresh [OF assms(1)] by (auto simp: finishTransition_def)
    ultimately have "map_of (ms_outbox ?st1) (outboxKey ?x) = None"
      by (simp add: putOutbox_def fold_update_miss)
    then have "Store_FinishSettlement D cx tenantID sid v settled ref now st
        = (Inr ?c, finished D tenantID sid batch settled ref now st)"
      unfolding ops using True
      by (auto simp: apply_validated appendOutboxLocked_def finished_def Let_def)
    then show ?thesis
      using assms(2) b True by (simp add: finishTransitions_ok)
  qed
qed

lemma FinishSettlement_atomic:
  "collisionFree D \<Longrightarrow> atomic_op (Store_FinishSettlement D cx tenantID sid v settled ref now)"
  unfolding atomic_op_def
  using FinishSettlement_cases [of D cx tenantID sid v settled ref now] by blast

end
