(* ===== verification/Commission_Steps.thy ===== *)
theory Commission_Steps
  imports Commission_Settle
begin

text \<open>
  The store as a state machine. \<open>store_step\<close> is any one operation with any arguments,
  successful or not; \<open>store_change\<close> lists what a step can do to the store, and every step
  is one of these changes or no change at all (\<open>store_step_change\<close>). Invariants are proved
  over the changes. The store is a trusted port: a commit is assumed to hold earnings as
  the service builds them (pending or available, at version 1). The fields of the templates
  and programs it is given are \<open>int64\<close>, as their Go types say.
\<close>

definition freshCommit :: "EventCommit \<Rightarrow> bool" where
  "freshCommit c \<longleftrightarrow>
     (\<forall>e\<in>set (c_Earnings c). e_Status e \<in> {EarningStatusPending, EarningStatusAvailable}
        \<and> e_Version e = 1)"

inductive store_step :: "digests \<Rightarrow> MemoryStore \<Rightarrow> MemoryStore \<Rightarrow> bool" for D where
  create_template:
    "Store_CreateTemplate cx t st = (r, st') \<Longrightarrow> typedTemplate t \<Longrightarrow> store_step D st st'"
| transition_template:
    "Store_TransitionTemplate cx tid v a now st = (r, st') \<Longrightarrow> store_step D st st'"
| create_program:
    "Store_CreateProgram cx p st = (r, st') \<Longrightarrow> list_all typedRule (p_Rules p) \<Longrightarrow>
     store_step D st st'"
| transition_program:
    "Store_TransitionProgram cx tn pid v pa now st = (r, st') \<Longrightarrow> store_step D st st'"
| set_attribution: "Store_SetAttribution cx at v st = (r, st') \<Longrightarrow> store_step D st st'"
| commit_event:
    "Store_CommitEvent D cx c st = (r, st') \<Longrightarrow> freshCommit c \<Longrightarrow> store_step D st st'"
| transition_earning:
    "Store_TransitionEarning D cx tn eid v ea now st = (r, st') \<Longrightarrow> store_step D st st'"
| make_available_due: "Store_MakeAvailableDue D cx now limit st = (r, st') \<Longrightarrow> store_step D st st'"
| start_settlement: "Store_StartSettlement D cx s ev st = (r, st') \<Longrightarrow> store_step D st st'"
| finish_settlement:
    "Store_FinishSettlement D cx tn sid v settled ref now st = (r, st') \<Longrightarrow> store_step D st st'"
| mark_published: "Store_MarkOutboxPublished cx tn oid at st = (r, st') \<Longrightarrow> store_step D st st'"

inductive store_reach :: "digests \<Rightarrow> MemoryStore \<Rightarrow> MemoryStore \<Rightarrow> bool" for D st0 where
  init: "store_reach D st0 st0"
| step: "store_reach D st0 st \<Longrightarrow> store_step D st st' \<Longrightarrow> store_reach D st0 st'"

inductive store_change :: "digests \<Rightarrow> MemoryStore \<Rightarrow> MemoryStore \<Rightarrow> bool" for D st where
  new_template:
    "map_of (ms_templates st) (t_ID t, t_Version t) = None \<Longrightarrow> validateNewTemplate t = Inr () \<Longrightarrow>
     typedTemplate t \<Longrightarrow>
     store_change D st (st\<lparr>ms_templates := AList.update (t_ID t, t_Version t) t (ms_templates st)\<rparr>)"
| move_template:
    "map_of (ms_templates st) k = Some t \<Longrightarrow> nextTemplateStatus (t_Status t) a = Inr s \<Longrightarrow>
     store_change D st (st\<lparr>ms_templates :=
       AList.update k (t\<lparr>t_Status := s, t_UpdatedAt := now\<rparr>) (ms_templates st)\<rparr>)"
| new_program:
    "map_of (ms_programs st) (p_TenantID p, p_ID p) = None \<Longrightarrow> validateNewProgram p = Inr () \<Longrightarrow>
     map_of (ms_templates st) (p_TemplateID p, p_TemplateVersion p) = Some t \<Longrightarrow>
     validateProgramAgainstTemplate p t = Inr () \<Longrightarrow> list_all typedRule (p_Rules p) \<Longrightarrow>
     store_change D st (st\<lparr>ms_programs := AList.update (p_TenantID p, p_ID p) p (ms_programs st)\<rparr>)"
| move_program:
    "map_of (ms_programs st) k = Some p \<Longrightarrow> nextProgramStatus (p_Status p) pa = Inr ps \<Longrightarrow>
     (ps = ProgramStatusActive \<Longrightarrow>
        \<exists>t. map_of (ms_templates st) (p_TemplateID p, p_TemplateVersion p) = Some t
          \<and> t_Status t = TemplateStatusActive) \<Longrightarrow>
     store_change D st (st\<lparr>ms_programs := AList.update k
       (p\<lparr>p_Status := ps, p_Version := add64 (p_Version p) 1, p_UpdatedAt := now\<rparr>)
       (ms_programs st)\<rparr>)"
| put_attribution:
    "validateAttribution at = Inr () \<Longrightarrow>
     k = (a_TenantID at, a_ProgramID at, a_Slot at) \<Longrightarrow>
     a_Version at = (case map_of (ms_attributions st) k of
        None \<Rightarrow> 1 | Some cur \<Rightarrow> add64 (a_Version cur) 1) \<Longrightarrow>
     store_change D st (st\<lparr>ms_attributions := AList.update k at (ms_attributions st)\<rparr>)"
| commit:
    "validateEventCommit c = Inr () \<Longrightarrow> map_of (ms_events st) (eventKey (c_Event c)) = None \<Longrightarrow>
     validateCommitVersionsLocked c st = Inr () \<Longrightarrow> commitFresh c st \<Longrightarrow> freshCommit c \<Longrightarrow>
     store_change D st (committed D c st)"
| transit:
    "map_of (ms_earnings st) i = Some e \<Longrightarrow> \<not> aggregateAction ea \<Longrightarrow>
     TransitionEarning (e_Status e) ea = Inr es \<Longrightarrow>
     ts = [newEarningTransition D (advanceEarning e es now) ea now] \<Longrightarrow>
     validateEarningTransitionsLocked ts st = Inr () \<Longrightarrow>
     store_change D st (applied ts st)"
| release:
    "ids = map e_ID (dueBatch now limit st) \<Longrightarrow>
     \<forall>i\<in>set ids. e_Status (lookupEarning st i) = EarningStatusPending \<Longrightarrow>
     validateEarningTransitionsLocked (map (releaseTransition D now st) ids) st = Inr () \<Longrightarrow>
     store_change D st (applied (map (releaseTransition D now st) ids) st)"
| start:
    "validateSettlement s ev = Inr () \<Longrightarrow> map_of (ms_settlements st) (settlementKey s) = None \<Longrightarrow>
     \<forall>i\<in>set (s_EarningIDs s). claimable s ev st i \<Longrightarrow>
     claimTotal s ev st 0 (sort (s_EarningIDs s)) = Inr (Minor (s_Amount s)) \<Longrightarrow>
     (wf_map (ms_earnings st) \<Longrightarrow> wf_map m) \<Longrightarrow>
     \<forall>k. map_of m k = (if k \<in> set (s_EarningIDs s)
        then Some (advanceEarning (lookupEarning st k) EarningStatusSettling (s_CreatedAt s))
        else map_of (ms_earnings st) k) \<Longrightarrow>
     store_change D st (started D s m st)"
| finish:
    "map_of (ms_settlements st) (tn, sid) = Some b \<Longrightarrow> s_Status b = SettlementStatusSubmitted \<Longrightarrow>
     \<forall>i\<in>set (s_EarningIDs b). \<exists>e. map_of (ms_earnings st) i = Some e \<and> e_TenantID e = tn
        \<and> e_Status e = EarningStatusSettling \<Longrightarrow>
     validateEarningTransitionsLocked (map (finishTransition D settled now st) (s_EarningIDs b)) st
       = Inr () \<Longrightarrow>
     store_change D st (finished D tn sid b settled ref now st)"
| publish:
    "map_of (ms_outbox st) k = Some x \<Longrightarrow> o_PublishedAt x = None \<Longrightarrow>
     store_change D st (st\<lparr>ms_outbox :=
       AList.update k (x\<lparr>o_PublishedAt := Some at\<rparr>) (ms_outbox st)\<rparr>)"

section \<open>Every step is a change or leaves the store alone\<close>

lemma CreateTemplate_change:
  "Store_CreateTemplate cx t st = (r, st') \<Longrightarrow> typedTemplate t \<Longrightarrow>
     (\<exists>e. r = Inl e) \<and> st' = st \<or> r = Inr () \<and> store_change D st st'"
  by (auto simp: Store_CreateTemplate_def Let_def on_ok_result
      intro: store_change.new_template split: option.splits)

lemma TransitionTemplate_change:
  "Store_TransitionTemplate cx tid v a now st = (r, st') \<Longrightarrow>
     (\<exists>e. r = Inl e) \<and> st' = st \<or> (\<exists>t. r = Inr t) \<and> store_change D st st'"
  by (auto simp: Store_TransitionTemplate_def Let_def on_ok_def ctx_ok_def
      intro: store_change.move_template split: sum.splits option.splits if_splits)

lemma CreateProgram_change:
  "Store_CreateProgram cx p st = (r, st') \<Longrightarrow> list_all typedRule (p_Rules p) \<Longrightarrow>
     (\<exists>e. r = Inl e) \<and> st' = st \<or> r = Inr () \<and> store_change D st st'"
  by (auto simp: Store_CreateProgram_def Let_def on_ok_result
      intro: store_change.new_program split: option.splits)

lemma TransitionProgram_change:
  "Store_TransitionProgram cx tn pid v pa now st = (r, st') \<Longrightarrow>
     (\<exists>e. r = Inl e) \<and> st' = st \<or> (\<exists>p. r = Inr p) \<and> store_change D st st'"
  by (auto simp: Store_TransitionProgram_def Let_def on_ok_def ctx_ok_def
      intro!: store_change.move_program split: sum.splits option.splits if_splits)

lemma SetAttribution_change:
  "Store_SetAttribution cx at v st = (r, st') \<Longrightarrow>
     (\<exists>e. r = Inl e) \<and> st' = st \<or> (\<exists>a. r = Inr a) \<and> store_change D st st'"
  by (auto simp: Store_SetAttribution_def Let_def on_ok_def ctx_ok_def validateAttribution_def
      ensure_def intro!: store_change.put_attribution
      split: sum.splits option.splits if_splits)

lemma CommitEvent_change:
  assumes "Store_CommitEvent D cx c st = (r, st')" "freshCommit c"
  shows "st' = st \<or> store_change D st st'"
proof (cases r)
  case (Inl e)
  then show ?thesis
    using assms(1) CommitEvent_atomic [of D cx c] by (auto simp: atomic_op_def)
next
  case (Inr es)
  then show ?thesis
    using CommitEvent_effect [of D cx c st es st'] assms by (auto intro: store_change.commit)
qed

lemma TransitionEarning_change:
  assumes "Store_TransitionEarning D cx tn eid v ea now st = (r, st')"
  shows "st' = st \<or> store_change D st st'"
proof (cases r)
  case (Inl e)
  then show ?thesis
    using assms TransitionEarning_atomic [of D cx tn eid v ea now] by (auto simp: atomic_op_def)
next
  case (Inr e)
  then show ?thesis
    using assms unfolding TransitionEarning_effect [of D cx tn eid v ea now st] Inr
    by (auto intro: store_change.transit)
qed

lemma MakeAvailableDue_change:
  assumes "Store_MakeAvailableDue D cx now limit st = (r, st')"
  shows "st' = st \<or> store_change D st st'"
proof (cases r)
  case (Inl e)
  then show ?thesis
    using assms MakeAvailableDue_atomic [of D cx now limit] by (auto simp: atomic_op_def)
next
  case (Inr es)
  then show ?thesis
    using assms store_change.release [OF refl, of now limit st D]
    unfolding Inr MakeAvailableDue_effect releaseTransitions_ok by blast
qed

lemma StartSettlement_change:
  assumes "Store_StartSettlement D cx s ev st = (r, st')"
  shows "st' = st \<or> store_change D st st'"
  using StartSettlement_cases [OF assms] store_change.start [of s ev st] by blast

lemma FinishSettlement_change:
  assumes "collisionFree D" "Store_FinishSettlement D cx tn sid v settled ref now st = (r, st')"
  shows "st' = st \<or> store_change D st st'"
  using FinishSettlement_cases [OF assms] by (auto intro: store_change.finish)

lemma MarkOutboxPublished_change:
  "Store_MarkOutboxPublished cx tn oid at st = (r, st') \<Longrightarrow> st' = st \<or> store_change D st st'"
  by (auto simp: Store_MarkOutboxPublished_def on_ok_def ctx_ok_def
      intro: store_change.publish split: sum.splits option.splits if_splits)

lemma store_step_change:
  assumes "collisionFree D" "store_step D st st'"
  shows "st' = st \<or> store_change D st st'"
  using assms(2)
proof cases
  case create_template
  then show ?thesis by (auto dest: CreateTemplate_change)
next
  case transition_template
  then show ?thesis by (auto dest: TransitionTemplate_change)
next
  case create_program
  then show ?thesis by (auto dest: CreateProgram_change)
next
  case transition_program
  then show ?thesis by (auto dest: TransitionProgram_change)
next
  case set_attribution
  then show ?thesis by (auto dest: SetAttribution_change)
qed (auto dest: CommitEvent_change TransitionEarning_change MakeAvailableDue_change
      StartSettlement_change FinishSettlement_change [OF assms(1)] MarkOutboxPublished_change)

text \<open>An invariant of the changes holds in every reachable store.\<close>

lemma store_reach_induct:
  assumes "collisionFree D" "store_reach D st0 st" "P st0"
    and "\<And>st st'. P st \<Longrightarrow> store_change D st st' \<Longrightarrow> P st'"
  shows "P st"
  using assms(2)
proof (induction rule: store_reach.induct)
  case init
  then show ?case by (rule assms(3))
next
  case (step st st')
  then show ?case using store_step_change [OF assms(1), of st st'] assms(4) by blast
qed

lemma store_operations_atomic_each:
  assumes "collisionFree D"
  shows "atomic_op (Store_CreateTemplate cx t)" and "atomic_op (Store_TransitionTemplate cx tid v ta now)"
    and "atomic_op (Store_CreateProgram cx p)"
    and "atomic_op (Store_TransitionProgram cx tn pid v pa now)"
    and "atomic_op (Store_SetAttribution cx at v)"
    and "atomic_op (Store_CommitEvent D cx c)"
    and "atomic_op (Store_TransitionEarning D cx tn eid v ea now)"
    and "atomic_op (Store_MakeAvailableDue D cx now limit)"
    and "atomic_op (Store_StartSettlement D cx s ev)"
    and "atomic_op (Store_FinishSettlement D cx tn sid v settled ref now)"
    and "atomic_op (Store_MarkOutboxPublished cx tn oid now)"
proof -
  show "atomic_op (Store_CreateTemplate cx t)"
    by (auto simp: atomic_op_def Store_CreateTemplate_def Let_def on_ok_result split: option.splits)
  show "atomic_op (Store_TransitionTemplate cx tid v ta now)"
    using TransitionTemplate_change by (fastforce simp: atomic_op_def)
  show "atomic_op (Store_CreateProgram cx p)"
    by (auto simp: atomic_op_def Store_CreateProgram_def Let_def on_ok_result split: option.splits)
  show "atomic_op (Store_TransitionProgram cx tn pid v pa now)"
    using TransitionProgram_change by (fastforce simp: atomic_op_def)
  show "atomic_op (Store_SetAttribution cx at v)"
    using SetAttribution_change by (fastforce simp: atomic_op_def)
  show "atomic_op (Store_MarkOutboxPublished cx tn oid now)"
    by (auto simp: atomic_op_def Store_MarkOutboxPublished_def on_ok_def ctx_ok_def
        split: sum.splits option.splits if_splits)
qed (use assms in \<open>simp_all add: CommitEvent_atomic TransitionEarning_atomic
      MakeAvailableDue_atomic StartSettlement_atomic FinishSettlement_atomic\<close>)

text \<open>
  Every operation of the store is all-or-nothing: whenever it returns an error, the
  store is exactly what it was, although \<open>CommitEvent\<close>, \<open>StartSettlement\<close>,
  \<open>FinishSettlement\<close>, \<open>TransitionEarning\<close> and \<open>MakeAvailableDue\<close> write several maps one
  after the other and can fail between two writes. \<open>FinishSettlement\<close> checks the outbox
  key of the batch apart from those of its earnings, so for it the hashes must not collide.
\<close>

theorem store_operations_atomic:
  assumes "collisionFree D"
  shows "(atomic_op (Store_CreateTemplate cx t))
    \<and> (atomic_op (Store_TransitionTemplate cx tid v ta now))
    \<and> (atomic_op (Store_CreateProgram cx p))
    \<and> (atomic_op (Store_TransitionProgram cx tn pid v pa now))
    \<and> (atomic_op (Store_SetAttribution cx at v))
    \<and> (atomic_op (Store_CommitEvent D cx c))
    \<and> (atomic_op (Store_TransitionEarning D cx tn eid v ea now))
    \<and> (atomic_op (Store_MakeAvailableDue D cx now limit))
    \<and> (atomic_op (Store_StartSettlement D cx s ev))
    \<and> (atomic_op (Store_FinishSettlement D cx tn sid v settled ref now))
    \<and> (atomic_op (Store_MarkOutboxPublished cx tn oid now))"
  by (intro conjI impI; rule store_operations_atomic_each [OF assms]; assumption?)

lemma store_operations_atomic_witness:
  "atomic_op (Store_FinishSettlement plainDigests None ''t'' ''s'' 1 True ''ref'' 5)"
  by (rule store_operations_atomic [OF plainDigests_collisionFree,
        THEN conjunct2, THEN conjunct2, THEN conjunct2, THEN conjunct2, THEN conjunct2, THEN conjunct2, THEN conjunct2, THEN conjunct2, THEN conjunct2, THEN conjunct1])

end
