(* ===== verification/Commission_Samples.thy ===== *)
theory Commission_Samples
  imports Commission_Steps
begin

text \<open>
  A concrete run of the store, used to show that the hypotheses of the theorems about
  reachable stores can hold: a template and a program are created and activated, an event
  with two earnings is committed, one earning is paid by a settlement and the settlement of
  the other is rejected and tried again.
\<close>

definition draftTemplate :: Template where
  "draftTemplate = sampleTemplate\<lparr>t_Status := TemplateStatusDraft\<rparr>"

definition sampleProgram :: Program where
  "sampleProgram = \<lparr>p_ID = ''p1'', p_TenantID = ''t1'', p_TemplateID = ''tpl'',
     p_TemplateVersion = 1, p_Status = ProgramStatusDraft, p_Version = 1,
     p_Rules = [sampleRule], p_CreatedAt = 11, p_UpdatedAt = 11\<rparr>"

definition sampleEarning :: "string \<Rightarrow> int64 \<Rightarrow> Earning" where
  "sampleEarning i minor = \<lparr>e_ID = i, e_TenantID = ''t1'', e_ProgramID = ''p1'',
     e_TemplateID = ''tpl'', e_TemplateVersion = 1, e_SourceType = ''order'',
     e_SourceID = ''o1'', e_Slot = ''agent'',
     e_Beneficiary = \<lparr>b_Kind = BeneficiaryKindUser, b_ID = ''u1''\<rparr>,
     e_Amount = \<lparr>Currency = ''USD'', Minor = minor\<rparr>, e_Status = EarningStatusPending,
     e_AvailableAt = 25, e_Version = 1, e_CreatedAt = 20, e_UpdatedAt = 20\<rparr>"

definition sampleJournal :: "string \<Rightarrow> string \<Rightarrow> int64 \<Rightarrow> JournalEntry" where
  "sampleJournal i eid minor = \<lparr>j_ID = i, j_TenantID = ''t1'', j_EarningID = eid,
     j_Kind = JournalKindAccrual, j_Amount = \<lparr>Currency = ''USD'', Minor = minor\<rparr>,
     j_CreatedAt = 20\<rparr>"

definition sampleCommit :: EventCommit where
  "sampleCommit = \<lparr>c_Event = sampleEvent, c_ProgramID = ''p1'', c_ProgramVersion = 3,
     c_TemplateID = ''tpl'', c_TemplateVersion = 1, c_AttributionVersions = Some [(''agent'', 0)],
     c_Earnings = [sampleEarning ''e1'' 5000, sampleEarning ''e2'' 500],
     c_Journals = [sampleJournal ''j1'' ''e1'' 5000, sampleJournal ''j2'' ''e2'' 500],
     c_Outbox = [\<lparr>o_ID = ''x1'', o_TenantID = ''t1'', o_Type = ''accrued'',
                   o_AggregateID = ''e1'', o_Payload = [], o_CreatedAt = 20,
                   o_PublishedAt = None\<rparr>]\<rparr>"

definition sampleBatch :: "string \<Rightarrow> string \<Rightarrow> int64 \<Rightarrow> Settlement" where
  "sampleBatch i eid minor = \<lparr>s_ID = i, s_TenantID = ''t1'',
     s_Beneficiary = \<lparr>b_Kind = BeneficiaryKindUser, b_ID = ''u1''\<rparr>,
     s_Amount = \<lparr>Currency = ''USD'', Minor = minor\<rparr>, s_EarningIDs = [eid],
     s_Status = SettlementStatusSubmitted, s_ProviderReference = [], s_Version = 1,
     s_CreatedAt = 40, s_UpdatedAt = 40\<rparr>"

definition store0 :: MemoryStore where
  "store0 = snd (Store_CreateTemplate None draftTemplate NewMemoryStore)"
definition store1 :: MemoryStore where
  "store1 = snd (Store_TransitionTemplate None ''tpl'' 1 TemplateActionActivate 10 store0)"
definition store2 :: MemoryStore where
  "store2 = snd (Store_CreateProgram None sampleProgram store1)"
definition store3 :: MemoryStore where
  "store3 = snd (Store_TransitionProgram None ''t1'' ''p1'' 1 ProgramActionSubmit 12 store2)"
definition store4 :: MemoryStore where
  "store4 = snd (Store_TransitionProgram None ''t1'' ''p1'' 2 ProgramActionApprove 13 store3)"
definition store5 :: MemoryStore where
  "store5 = snd (Store_CommitEvent plainDigests None sampleCommit store4)"
definition store6 :: MemoryStore where
  "store6 = snd (Store_MakeAvailableDue plainDigests None 30 10 store5)"
definition store7 :: MemoryStore where
  "store7 = snd (Store_StartSettlement plainDigests None (sampleBatch ''s1'' ''e1'' 5000) [(''e1'', 2)] store6)"
definition store8 :: MemoryStore where
  "store8 = snd (Store_FinishSettlement plainDigests None ''t1'' ''s1'' 1 True ''ref'' 50 store7)"
definition store9 :: MemoryStore where
  "store9 = snd (Store_StartSettlement plainDigests None (sampleBatch ''s2'' ''e2'' 500) [(''e2'', 2)] store7)"

lemma store0_eq:
  "store0 = NewMemoryStore\<lparr>ms_templates := [((''tpl'', 1), draftTemplate)]\<rparr>"
proof -
  have "validateNewTemplate draftTemplate = Inr ()"
    using sample_rule_valid [of False]
    by (simp add: validateNewTemplate_def validateTemplate_def draftTemplate_def validTemplateStatus_def
        optionalAmountValid_def validAmount_def currencyCodeLength_def IsZero_def
        sampleTemplate_def less_eq_char_def less_char_def)
  then show ?thesis
    by (simp add: store0_def Store_CreateTemplate_def Let_def ctx_ok_def NewMemoryStore_def)
       (simp add: draftTemplate_def sampleTemplate_def)
qed

lemma store1_eq:
  "store1 = NewMemoryStore\<lparr>ms_templates := [((''tpl'', 1), sampleTemplate)]\<rparr>"
  by (simp add: store1_def store0_eq Store_TransitionTemplate_def ctx_ok_def NewMemoryStore_def IsZero_def
      Let_def draftTemplate_def)
     (simp add: sampleTemplate_def)

lemma sample_within: "ruleWithinCap sampleRule sampleRule"
  by (simp add: ruleWithinCap_def sortedTiers_def tierWithin_def tierKey_def sample_defs)

lemma store2_eq:
  "store2 = store1\<lparr>ms_programs := [((''t1'', ''p1''), sampleProgram)]\<rparr>"
proof -
  have "validateNewProgram sampleProgram = Inr ()"
    using sample_rule_valid [of True]
    by (simp add: validateNewProgram_def sampleProgram_def IsZero_def)
  moreover have "validateProgramAgainstTemplate sampleProgram sampleTemplate = Inr ()"
    using sample_rule_valid [of True] sample_within
    by (simp add: validateProgramAgainstTemplate_def sampleProgram_def validProgramStatus_def
        templateRule_def sampleTemplate_def)
  ultimately show ?thesis
    by (simp add: store2_def store1_eq Store_CreateProgram_def ctx_ok_def NewMemoryStore_def Let_def)
       (simp add: sampleProgram_def)
qed

lemma store4_eq:
  "store4 = store1\<lparr>ms_programs := [((''t1'', ''p1''),
     sampleProgram\<lparr>p_Status := ProgramStatusActive, p_Version := 3, p_UpdatedAt := 13\<rparr>)]\<rparr>"
  by (simp add: store4_def store3_def store2_eq store1_eq Store_TransitionProgram_def ctx_ok_def
      NewMemoryStore_def IsZero_def Let_def sampleProgram_def add64_id i64_def MaxInt64_def)
     (simp add: sampleTemplate_def)

lemma validAmount_USD [simp]: "validAmount \<lparr>Currency = ''USD'', Minor = m\<rparr> \<longleftrightarrow> 0 \<le> m"
  by (simp add: validAmount_def currencyCodeLength_def less_eq_char_def less_char_def)

lemma sample_event_valid: "validateCommissionEvent sampleEvent = Inr ()"
  by (simp add: validateCommissionEvent_def sampleEvent_def IsZero_def)

lemma sample_earning_fields:
  "e_ID (sampleEarning i m) = i" "e_TenantID (sampleEarning i m) = ''t1''"
  "e_Status (sampleEarning i m) = EarningStatusPending" "e_AvailableAt (sampleEarning i m) = 25"
  "e_Version (sampleEarning i m) = 1" "e_Amount (sampleEarning i m) = \<lparr>Currency = ''USD'', Minor = m\<rparr>"
  "e_Beneficiary (sampleEarning i m) = \<lparr>b_Kind = BeneficiaryKindUser, b_ID = ''u1''\<rparr>"
  by (simp_all add: sampleEarning_def)

lemma sample_earning_valid: "0 \<le> m \<Longrightarrow> i \<noteq> [] \<Longrightarrow> validateStoredEarning (sampleEarning i m) = Inr ()"
  by (simp add: validateStoredEarning_def sampleEarning_def validBeneficiary_def IsZero_def
      validEarningStatus_def)

lemma sample_commit_valid: "validateEventCommit sampleCommit = Inr ()"
proof -
  have "ev_TenantID sampleEvent = ''t1''" "ev_SourceType sampleEvent = ''order''"
    "ev_SourceID sampleEvent = ''o1''" by (simp_all add: sampleEvent_def)
  moreover have "e_ProgramID (sampleEarning i m) = ''p1''" "e_TemplateID (sampleEarning i m) = ''tpl''"
    "e_TemplateVersion (sampleEarning i m) = 1" "e_SourceType (sampleEarning i m) = ''order''"
    "e_SourceID (sampleEarning i m) = ''o1''" for i m by (simp_all add: sampleEarning_def)
  ultimately show ?thesis
    by (simp add: validateEventCommit_def sampleCommit_def sample_event_valid sample_earning_valid
        sample_earning_fields sampleJournal_def validJournalKind_def IsZero_def)
qed

lemma sample_commit_versions: "validateCommitVersionsLocked sampleCommit store4 = Inr ()"
  by (simp add: validateCommitVersionsLocked_def sampleCommit_def sampleEvent_def store4_eq store1_eq
      NewMemoryStore_def sampleProgram_def)
     (simp add: sampleRule_def sampleTemplate_def)

lemma store5_eq: "store5 = committed plainDigests sampleCommit store4"
proof -
  have "map_of (ms_events store4) (eventKey (c_Event sampleCommit)) = None"
    by (simp add: store4_eq store1_eq NewMemoryStore_def)
  moreover have "commitFresh sampleCommit store4"
    by (simp add: commitFresh_def store4_eq store1_eq NewMemoryStore_def)
  ultimately show ?thesis
    by (simp add: store5_def CommitEvent_new sample_commit_valid sample_commit_versions ctx_ok_def)
qed

lemma store5_parts:
  "ms_earnings store5 = [(''e1'', sampleEarning ''e1'' 5000), (''e2'', sampleEarning ''e2'' 500)]"
  "ms_journalIDs store5 = {''j1'', ''j2''}"
  "map fst (ms_outbox store5) = [(''t1'', ''x1'')]"
  "ms_settlements store5 = []"
  unfolding store5_eq
  by (simp_all add: putEarnings_def putOutbox_def store4_eq store1_eq NewMemoryStore_def
      sampleCommit_def outboxKey_def sampleJournal_def sample_earning_fields)

lemma char_12: "CHR ''1'' < CHR ''2''"
  by (simp add: less_char_def)

lemma store5_due: "dueBatch 30 10 store5 = [sampleEarning ''e1'' 5000, sampleEarning ''e2'' 500]"
  by (simp add: dueBatch_def dueEarnings_def store5_parts vals_def sample_earning_fields char_12
      less_imp_le)

lemmas plain_inject = journalID_inject [OF plainDigests_collisionFree]
  outboxID_inject [OF plainDigests_collisionFree]

lemma hashed_ids:
  "journalID D i k v \<noteq> ''j1''" "journalID D i k v \<noteq> ''j2''" "outboxID D t a y v \<noteq> ''x1''"
  by (simp_all add: journalID_def outboxID_def stableID_def)

lemma store6_result:
  "\<exists>es. Store_MakeAvailableDue plainDigests None 30 10 store5 = (Inr es, store6)"
  "store6 = applied (map (releaseTransition plainDigests 30 store5) [''e1'', ''e2'']) store5"
proof -
  have "map_of (ms_outbox store5) (''t1'', outboxID D t a y v) = None" for D t a y v
    using store5_parts(3) hashed_ids(3) by (auto simp: map_of_eq_None_iff simp flip: set_map)
  then have "validateEarningTransitionsLocked
      (map (releaseTransition plainDigests 30 store5) [''e1'', ''e2'']) store5 = Inr ()"
    by (simp add: validateEarningTransitionsLocked_ok releaseTransition_def lookupEarning_def
        store5_parts newEarningTransition_def Let_def outboxKey_def sample_earning_fields
        hashed_ids plain_inject)
  moreover have "releaseTransitions plainDigests 30 store5 [''e1'', ''e2'']
      = Inr (map (releaseTransition plainDigests 30 store5) [''e1'', ''e2''])"
    unfolding releaseTransitions_ok by (simp add: lookupEarning_def store5_parts sample_earning_fields)
  ultimately have "Store_MakeAvailableDue plainDigests None 30 10 store5
      = (Inr (map et_earning (map (releaseTransition plainDigests 30 store5) [''e1'', ''e2''])),
         applied (map (releaseTransition plainDigests 30 store5) [''e1'', ''e2'']) store5)"
    unfolding MakeAvailableDue_effect by (simp add: store5_due sample_earning_fields IsZero_def)
  then show "\<exists>es. Store_MakeAvailableDue plainDigests None 30 10 store5 = (Inr es, store6)"
    and "store6 = applied (map (releaseTransition plainDigests 30 store5) [''e1'', ''e2'']) store5"
    by (simp_all add: store6_def)
qed

lemmas store6_run = store6_result(1)
lemmas store6_eq = store6_result(2)

definition releasedSample :: "string \<Rightarrow> int64 \<Rightarrow> Earning" where
  "releasedSample i m = advanceEarning (sampleEarning i m) EarningStatusAvailable 30"

lemma released_fields:
  "e_ID (releasedSample i m) = i" "e_TenantID (releasedSample i m) = ''t1''"
  "e_Status (releasedSample i m) = EarningStatusAvailable" "e_Version (releasedSample i m) = 2"
  "e_Amount (releasedSample i m) = \<lparr>Currency = ''USD'', Minor = m\<rparr>"
  "e_Beneficiary (releasedSample i m) = \<lparr>b_Kind = BeneficiaryKindUser, b_ID = ''u1''\<rparr>"
  by (simp_all add: releasedSample_def sample_earning_fields add64_id i64_def MaxInt64_def)

lemma store6_parts:
  "ms_earnings store6 = [(''e1'', releasedSample ''e1'' 5000), (''e2'', releasedSample ''e2'' 500)]"
  "ms_settlements store6 = []"
  by (simp_all add: store6_eq putEarnings_def releaseTransition_def lookupEarning_def store5_parts
      sample_earning_fields releasedSample_def)

lemma sample_batch_fields:
  "s_ID (sampleBatch i e m) = i" "s_TenantID (sampleBatch i e m) = ''t1''"
  "s_EarningIDs (sampleBatch i e m) = [e]" "s_Status (sampleBatch i e m) = SettlementStatusSubmitted"
  "s_Version (sampleBatch i e m) = 1" "s_CreatedAt (sampleBatch i e m) = 40"
  "s_Amount (sampleBatch i e m) = \<lparr>Currency = ''USD'', Minor = m\<rparr>"
  "s_Beneficiary (sampleBatch i e m) = \<lparr>b_Kind = BeneficiaryKindUser, b_ID = ''u1''\<rparr>"
  by (simp_all add: sampleBatch_def)

lemma sample_batch_valid:
  "0 < m \<Longrightarrow> i \<noteq> [] \<Longrightarrow> e \<noteq> [] \<Longrightarrow> validateSettlement (sampleBatch i e m) [(e, 2)] = Inr ()"
  by (simp add: validateSettlement_def sampleBatch_def validBeneficiary_def IsZero_def lookup0_def)

text \<open>Submitting a batch of one released earning.\<close>

lemma sample_start:
  assumes "map_of (ms_earnings st) e = Some (releasedSample e m)" "0 < m" "m \<le> MaxInt64"
    and "i \<noteq> []" "e \<noteq> []" "map_of (ms_settlements st) (''t1'', i) = None"
    and "map_of (ms_outbox st) (''t1'', outboxID D ''t1'' i ''commission.settlement.submitted'' 1) = None"
  shows "Store_StartSettlement D None (sampleBatch i e m) [(e, 2)] st
       = (Inr (sampleBatch i e m), started D (sampleBatch i e m)
            (AList.update e (advanceEarning (releasedSample e m) EarningStatusSettling 40) (ms_earnings st)) st)"
  using assms add64_id [of 0 m] sub64_MaxInt64 [of 0]
  by (simp add: Store_StartSettlement_def ctx_ok_def sample_batch_valid sample_batch_fields
      settlementKey_def released_fields lookup0_def sub64_MaxInt64 i64_def validateOutboxEventsLocked_def
      settlementOutbox_def Let_def outboxKey_def lookupEarning_def TransitionEarning_def
      appendOutboxLocked_def started_def MaxInt64_def)

lemma store6_outbox:
  "map_of (ms_outbox store6) (''t1'', outboxID plainDigests ''t1'' i y v) = None \<longleftrightarrow>
     \<not> (i \<in> {''e1'', ''e2''} \<and> y = ''commission.earning.available'' \<and> v = 2)"
proof -
  have "map_of (ms_outbox store5) (''t1'', outboxID D t a y v) = None" for D t a y v
    using store5_parts(3) hashed_ids(3) by (auto simp: map_of_eq_None_iff simp flip: set_map)
  then show ?thesis
    by (auto simp: store6_eq putOutbox_def releaseTransition_def lookupEarning_def store5_parts
        newEarningTransition_def Let_def outboxKey_def sample_earning_fields plain_inject
        add64_id i64_def MaxInt64_def)
qed

lemma store7_eq:
  "store7 = started plainDigests (sampleBatch ''s1'' ''e1'' 5000)
     [(''e1'', advanceEarning (releasedSample ''e1'' 5000) EarningStatusSettling 40),
      (''e2'', releasedSample ''e2'' 500)] store6"
  by (simp add: store7_def sample_start store6_parts store6_outbox MaxInt64_def)

lemma store9_eq:
  "store9 = started plainDigests (sampleBatch ''s2'' ''e2'' 500)
     [(''e1'', advanceEarning (releasedSample ''e1'' 5000) EarningStatusSettling 40),
      (''e2'', advanceEarning (releasedSample ''e2'' 500) EarningStatusSettling 40)] store7"
proof -
  have "map_of (ms_outbox store7) (''t1'', outboxID plainDigests ''t1'' ''s2'' y v) = None" for y v
    using store6_outbox [of "''s2''" y v]
    by (simp add: store7_eq started_def settlementOutbox_def Let_def outboxKey_def
        sample_batch_fields plain_inject)
  then show ?thesis
    by (simp add: store9_def sample_start store7_eq started_def Let_def store6_parts MaxInt64_def
        sample_batch_fields settlementKey_def)
qed

lemma store8_eq:
  "store8 = finished plainDigests ''t1'' ''s1'' (sampleBatch ''s1'' ''e1'' 5000) True ''ref'' 50 store7"
proof -
  let ?b = "sampleBatch ''s1'' ''e1'' 5000"
  have E: "map_of (ms_earnings store7) ''e1''
      = Some (advanceEarning (releasedSample ''e1'' 5000) EarningStatusSettling 40)"
    by (simp add: store7_eq started_def)
  have S: "map_of (ms_settlements store7) (''t1'', ''s1'') = Some ?b"
    by (simp add: store7_eq started_def settlementKey_def sample_batch_fields)
  have J: "ms_journalIDs store7 = {''j1'', ''j2'', journalID plainDigests ''e1'' JournalKindAvailable 2,
      journalID plainDigests ''e2'' JournalKindAvailable 2}"
    by (auto simp: store7_eq started_def store6_eq releaseTransition_def lookupEarning_def store5_parts
        newEarningTransition_def Let_def sample_earning_fields add64_id i64_def MaxInt64_def)
  have O: "map_of (ms_outbox store7) (''t1'', outboxID plainDigests ''t1'' i y v) = None
      \<longleftrightarrow> \<not> (i \<in> {''e1'', ''e2''} \<and> y = ''commission.earning.available'' \<and> v = 2)
        \<and> \<not> (i = ''s1'' \<and> y = ''commission.settlement.submitted'' \<and> v = 1)" for i y v
    using store6_outbox [of i y v]
    by (auto simp: store7_eq started_def settlementOutbox_def Let_def outboxKey_def
        sample_batch_fields plain_inject)
  have v4: "validateEarningTransitionsLocked
      (map (finishTransition plainDigests True 50 store7) [''e1'']) store7 = Inr ()"
    unfolding validateEarningTransitionsLocked_ok
    by (simp add: finishTransition_def lookupEarning_def E J O newEarningTransition_def Let_def
        outboxKey_def released_fields outcomeStatus_def outcomeAction_def hashed_ids plain_inject)
  have out: "map_of (ms_outbox store7) (''t1'', outboxID plainDigests ''t1'' ''s1'' ''commission.settlement.settled'' v) = None" for v
    by (simp add: O)
  have key: "o_TenantID (et_outbox (finishTransition plainDigests True 50 store7 ''e1'')) = ''t1''"
    "o_ID (et_outbox (finishTransition plainDigests True 50 store7 ''e1''))
       \<noteq> outboxID plainDigests t ''s1'' y v" for t y v
    by (simp_all add: finishTransition_def lookupEarning_def E newEarningTransition_def Let_def
        released_fields plain_inject)
  have fin: "finishTransitions plainDigests ''t1'' True 50 store7 [''e1'']
      = Inr (map (finishTransition plainDigests True 50 store7) [''e1''])"
    unfolding finishTransitions_ok by (simp add: E released_fields)
  let ?op = "Store_FinishSettlement plainDigests None ''t1'' ''s1'' 1 True ''ref'' 50 store7"
  have "\<exists>x. ?op = (Inr x, finished plainDigests ''t1'' ''s1'' ?b True ''ref'' 50 store7)"
  proof -
    have "fst ?op \<noteq> Inl e" for e
      using S fin v4 out key(2) [symmetric] unfolding Store_FinishSettlement_def
      by (auto simp: Let_def ctx_ok_def IsZero_def sample_batch_fields validateOutboxEventsLocked_def
          apply_validated key(1) settlementOutbox_def outboxKey_def appendOutboxLocked_def putOutbox_def)
    then show ?thesis
      using FinishSettlement_cases [OF plainDigests_collisionFree prod.collapse [symmetric],
          of None "''t1''" "''s1''" 1 True "''ref''" 50 store7] S
      by (auto simp: sample_batch_fields desiredStatus_def prod_eq_iff)
  qed
  then show ?thesis by (auto simp: store8_def)
qed

lemma sample_freshCommit: "freshCommit sampleCommit"
  by (simp add: freshCommit_def sampleCommit_def sample_earning_fields)

lemma sample_typed_draft: "typedTemplate draftTemplate"
  using sample_typed(1) by (simp add: typedTemplate_def draftTemplate_def)

lemma sample_typed_program: "list_all typedRule (p_Rules sampleProgram)"
  using sample_typed(3) by (simp add: sampleProgram_def)

lemma sample_reach:
  "store_reach plainDigests NewMemoryStore store4" "store_reach plainDigests store4 store5"
  "store_reach plainDigests store5 store7"
  "store_reach plainDigests store7 store8" "store_reach plainDigests store7 store9"
proof -
  show "store_reach plainDigests NewMemoryStore store4"
    unfolding store4_def store3_def store2_def store1_def store0_def
    by (rule store_reach.step [OF store_reach.step [OF store_reach.step [OF store_reach.step
          [OF store_reach.step [OF store_reach.init
          store_step.create_template [OF prod.collapse [symmetric] sample_typed_draft]]
          store_step.transition_template [OF prod.collapse [symmetric]]]
          store_step.create_program [OF prod.collapse [symmetric] sample_typed_program]]
          store_step.transition_program [OF prod.collapse [symmetric]]]
          store_step.transition_program [OF prod.collapse [symmetric]]])
  show "store_reach plainDigests store4 store5"
    unfolding store5_def
    by (rule store_reach.step [OF store_reach.init store_step.commit_event
          [OF prod.collapse [symmetric] sample_freshCommit]])
  show "store_reach plainDigests store5 store7"
    unfolding store7_def store6_def
    by (rule store_reach.step [OF store_reach.step [OF store_reach.init
          store_step.make_available_due [OF prod.collapse [symmetric]]]
          store_step.start_settlement [OF prod.collapse [symmetric]]])
  show "store_reach plainDigests store7 store8"
    unfolding store8_def
    by (rule store_reach.step [OF store_reach.init
          store_step.finish_settlement [OF prod.collapse [symmetric]]])
  show "store_reach plainDigests store7 store9"
    unfolding store9_def
    by (rule store_reach.step [OF store_reach.init
          store_step.start_settlement [OF prod.collapse [symmetric]]])
qed

lemma store_reach_trans:
  "store_reach D b c \<Longrightarrow> store_reach D a b \<Longrightarrow> store_reach D a c"
  by (induction rule: store_reach.induct) (auto intro: store_reach.step)

lemma sample_reach_all:
  "store_reach plainDigests NewMemoryStore store5" "store_reach plainDigests NewMemoryStore store7"
  "store_reach plainDigests NewMemoryStore store8" "store_reach plainDigests NewMemoryStore store9"
  by (meson sample_reach store_reach_trans)+

end
