(* ===== verification/Commission_Invariants.thy ===== *)
theory Commission_Invariants
  imports Commission_Samples
begin

text \<open>
  What holds in every reachable store. The money of an earning is free, claimed by a
  submitted settlement or paid by a settled one (\<open>custody\<close>); the invariant \<open>payout_inv\<close>
  says that the settlements and the custody of the earnings agree. \<open>earningsEvolve\<close> is
  what one change does to the earnings.
\<close>

section \<open>The facts of an earning never change\<close>

definition sameFacts :: "Earning \<Rightarrow> Earning \<Rightarrow> bool" where
  "sameFacts e e' \<longleftrightarrow> (\<exists>s v t. e' = e\<lparr>e_Status := s, e_Version := v, e_UpdatedAt := t\<rparr>)"

lemma sameFacts_refl [simp]: "sameFacts e e"
  unfolding sameFacts_def by (cases e) (auto intro: exI [of _ "e_Status e"])

lemma sameFacts_advance [simp]: "sameFacts e (advanceEarning e s now)"
  by (auto simp: sameFacts_def advanceEarning_def)

lemma sameFacts_trans: "sameFacts a b \<Longrightarrow> sameFacts b c \<Longrightarrow> sameFacts a c"
  unfolding sameFacts_def by (cases a; cases c) auto

lemma sameFacts_fields:
  assumes "sameFacts e e'"
  shows "e_ID e' = e_ID e" "e_TenantID e' = e_TenantID e" "e_ProgramID e' = e_ProgramID e"
    "e_TemplateID e' = e_TemplateID e" "e_TemplateVersion e' = e_TemplateVersion e"
    "e_SourceType e' = e_SourceType e" "e_SourceID e' = e_SourceID e" "e_Slot e' = e_Slot e"
    "e_Beneficiary e' = e_Beneficiary e" "e_Amount e' = e_Amount e"
    "e_AvailableAt e' = e_AvailableAt e" "e_CreatedAt e' = e_CreatedAt e"
  using assms by (auto simp: sameFacts_def)

section \<open>Earnings move one transition at a time\<close>

definition movedOnce :: "Earning \<Rightarrow> Earning \<Rightarrow> bool" where
  "movedOnce e e' \<longleftrightarrow> (\<exists>a s now. TransitionEarning (e_Status e) a = Inr s \<and> e' = advanceEarning e s now)"

definition earningsEvolve :: "MemoryStore \<Rightarrow> MemoryStore \<Rightarrow> bool" where
  "earningsEvolve st st' \<longleftrightarrow>
     (\<forall>i e. map_of (ms_earnings st) i = Some e \<longrightarrow>
        (\<exists>e'. map_of (ms_earnings st') i = Some e' \<and> (e' = e \<or> movedOnce e e')))
     \<and> (\<forall>i e'. map_of (ms_earnings st) i = None \<and> map_of (ms_earnings st') i = Some e' \<longrightarrow>
          e_ID e' = i \<and> i \<noteq> [] \<and> validAmount (e_Amount e') \<and> e_Version e' = 1
          \<and> e_Status e' \<in> {EarningStatusPending, EarningStatusAvailable})"

lemma movedOnce_sameFacts: "movedOnce e e' \<Longrightarrow> sameFacts e e'"
  by (auto simp: movedOnce_def)

lemma earningsEvolve_same: "ms_earnings st' = ms_earnings st \<Longrightarrow> earningsEvolve st st'"
  by (auto simp: earningsEvolve_def)

lemma lookup_putEarnings:
  assumes "distinct (map e_ID es)"
  shows "map_of (ms_earnings (putEarnings es st)) i =
    (if i \<in> e_ID ` set es then find (\<lambda>e. e_ID e = i) es else map_of (ms_earnings st) i)"
proof (cases "i \<in> e_ID ` set es")
  case True
  then obtain e where e: "e \<in> set es" "e_ID e = i" by auto
  then have "find (\<lambda>e. e_ID e = i) es = Some e"
    using assms by (induction es) auto
  then show ?thesis
    using e fold_update_hit [OF assms e(1)] by (auto simp: putEarnings_def)
next
  case False
  then show ?thesis by (simp add: putEarnings_def fold_update_miss)
qed

text \<open>A batch of advanced earnings, one per identifier.\<close>

lemma putEarnings_advanced:
  assumes "\<forall>i e. map_of (ms_earnings st) i = Some e \<longrightarrow> e_ID e = i"
    and "distinct ids" "\<forall>i\<in>set ids. map_of (ms_earnings st) i \<noteq> None"
  shows "map_of (ms_earnings (putEarnings (map (\<lambda>i. advanceEarning (lookupEarning st i) s now) ids) st)) i
    = (if i \<in> set ids then Some (advanceEarning (lookupEarning st i) s now)
       else map_of (ms_earnings st) i)"
proof -
  let ?f = "\<lambda>i. advanceEarning (lookupEarning st i) s now"
  have key: "e_ID (lookupEarning st i) = i" if "i \<in> set ids" for i
    using that assms(1,3) by (auto simp: lookupEarning_def split: option.splits)
  then have ids: "map e_ID (map ?f ids) = ids"
    by (simp add: map_idI)
  show ?thesis
  proof (cases "i \<in> set ids")
    case True
    then have "map_of (ms_earnings (putEarnings (map ?f ids) st)) (e_ID (?f i)) = Some (?f i)"
      unfolding putEarnings_def using assms(2) ids
      by (simp add: fold_update_hit [where f = e_ID and xs = "map ?f ids" and x = "?f i", simplified]
          comp_def)
    then show ?thesis using True key by simp
  next
    case False
    then have "i \<notin> e_ID ` set (map ?f ids)" using key by auto
    then show ?thesis using False by (simp add: putEarnings_def fold_update_miss)
  qed
qed

definition keyed :: "MemoryStore \<Rightarrow> bool" where
  "keyed st \<longleftrightarrow> (\<forall>i e. map_of (ms_earnings st) i = Some e \<longrightarrow> e_ID e = i)"

text \<open>The transitions of one batch all move earnings that are there.\<close>

lemma applied_batch:
  assumes "keyed st"
    and "validateEarningTransitionsLocked
           (map (\<lambda>i. newEarningTransition D (advanceEarning (lookupEarning st i) s now) a now) ids) st = Inr ()"
    and "\<forall>i\<in>set ids. map_of (ms_earnings st) i \<noteq> None"
  shows "map_of (ms_earnings (applied
            (map (\<lambda>i. newEarningTransition D (advanceEarning (lookupEarning st i) s now) a now) ids) st)) k
    = (if k \<in> set ids then Some (advanceEarning (lookupEarning st k) s now)
       else map_of (ms_earnings st) k)"
proof -
  have "distinct ids"
    using assms(2) unfolding validateEarningTransitionsLocked_ok map_map
    by (blast dest: distinct_map [THEN iffD1])
  then show ?thesis
    using putEarnings_advanced [of st ids s now k] assms(1,3) by (simp add: keyed_def comp_def)
qed

lemma released_lookup:
  assumes "keyed st" "\<forall>i\<in>set ids. e_Status (lookupEarning st i) = EarningStatusPending"
    and "validateEarningTransitionsLocked (map (releaseTransition D now st) ids) st = Inr ()"
  shows "map_of (ms_earnings (applied (map (releaseTransition D now st) ids) st)) k
    = (if k \<in> set ids then Some (advanceEarning (lookupEarning st k) EarningStatusAvailable now)
       else map_of (ms_earnings st) k)"
proof -
  have "\<forall>i\<in>set ids. map_of (ms_earnings st) i \<noteq> None"
    using assms(2) lookupEarning_status [OF _ ] by (fastforce simp: validEarningStatus_def)
  then show ?thesis
    using assms applied_batch [of st D EarningStatusAvailable now EarningActionMakeAvailable ids k]
    by (simp add: releaseTransition_def [abs_def])
qed

lemma finished_lookup:
  assumes "keyed st" "\<forall>i\<in>set (s_EarningIDs b). map_of (ms_earnings st) i \<noteq> None"
    and "validateEarningTransitionsLocked (map (finishTransition D settled now st) (s_EarningIDs b)) st = Inr ()"
  shows "map_of (ms_earnings (finished D tn sid b settled ref now st)) k
    = (if k \<in> set (s_EarningIDs b)
       then Some (advanceEarning (lookupEarning st k) (outcomeStatus settled) now)
       else map_of (ms_earnings st) k)"
  using assms applied_batch [of st D "outcomeStatus settled" now "outcomeAction settled" "s_EarningIDs b" k]
  by (simp add: finished_def Let_def finishTransition_def [abs_def])

lemma validStored:
  "validateStoredEarning e = Inr () \<Longrightarrow> validAmount (e_Amount e) \<and> e_ID e \<noteq> []"
  by (auto simp: validateStoredEarning_def ok_simps)

lemma committed_lookup:
  assumes "validateEventCommit c = Inr ()" "commitFresh c st" "freshCommit c"
  shows "map_of (ms_earnings st) i = Some e \<Longrightarrow> map_of (ms_earnings (committed D c st)) i = Some e"
    and "map_of (ms_earnings st) i = None \<Longrightarrow> map_of (ms_earnings (committed D c st)) i = Some e' \<Longrightarrow>
      e' \<in> set (c_Earnings c) \<and> e_ID e' = i \<and> i \<noteq> [] \<and> validAmount (e_Amount e') \<and> e_Version e' = 1
      \<and> e_Status e' \<in> {EarningStatusPending, EarningStatusAvailable}"
proof -
  have d: "distinct (map e_ID (c_Earnings c))"
    using assms(1) by (rule validateEventCommit_distinct)
  show "map_of (ms_earnings (committed D c st)) i = Some e" if "map_of (ms_earnings st) i = Some e"
    using that assms(2) lookup_putEarnings [OF d, of st i] by (auto simp: commitFresh_def)
  show "e' \<in> set (c_Earnings c) \<and> e_ID e' = i \<and> i \<noteq> [] \<and> validAmount (e_Amount e') \<and> e_Version e' = 1
      \<and> e_Status e' \<in> {EarningStatusPending, EarningStatusAvailable}"
    if n: "map_of (ms_earnings st) i = None" "map_of (ms_earnings (committed D c st)) i = Some e'"
  proof -
    have "e' \<in> set (c_Earnings c)" "e_ID e' = i"
      using n fold_update_Some [OF d, of "ms_earnings st" i e'] by (auto simp: putEarnings_def)
    then show ?thesis
      using assms(3) validateEventCommit_parts(2) [OF assms(1)] validStored [of e']
      by (auto simp: freshCommit_def)
  qed
qed

lemma movedOnce_advance:
  "map_of (ms_earnings st) i = Some e \<Longrightarrow> TransitionEarning (e_Status e) a = Inr s \<Longrightarrow>
     movedOnce e (advanceEarning (lookupEarning st i) s now)"
  by (auto simp: movedOnce_def lookupEarning_Some)

lemma earningsEvolve_batch:
  assumes "\<And>k. map_of (ms_earnings st') k = (if k \<in> A then Some (f k) else map_of (ms_earnings st) k)"
    and "\<And>i. i \<in> A \<Longrightarrow> \<exists>e. map_of (ms_earnings st) i = Some e \<and> movedOnce e (f i)"
  shows "earningsEvolve st st'"
  unfolding earningsEvolve_def
proof (intro conjI allI impI)
  fix i e assume "map_of (ms_earnings st) i = Some e"
  then show "\<exists>e'. map_of (ms_earnings st') i = Some e' \<and> (e' = e \<or> movedOnce e e')"
    using assms [of i] by (cases "i \<in> A") auto
next
  fix i e' assume "map_of (ms_earnings st) i = None \<and> map_of (ms_earnings st') i = Some e'"
  then have False using assms [of i] by (cases "i \<in> A") auto
  then show "e_ID e' = i" "i \<noteq> []" "validAmount (e_Amount e')" "e_Version e' = 1"
    "e_Status e' \<in> {EarningStatusPending, EarningStatusAvailable}" by simp_all
qed

lemma change_earningsEvolve:
  assumes "keyed st" "store_change D st st'"
  shows "earningsEvolve st st'"
  using assms(2)
proof cases
  case (commit c)
  then show ?thesis
    using committed_lookup [where D = D and c = c and st = st] unfolding earningsEvolve_def by blast
next
  case (transit i e ea es ts now)
  show ?thesis
  proof (rule earningsEvolve_batch)
    show "map_of (ms_earnings st') k
        = (if k \<in> {i} then Some (advanceEarning e es now) else map_of (ms_earnings st) k)" for k
      using transit applied_batch [of st D es now ea "[i]" k] assms(1)
      by (auto simp: lookupEarning_Some)
    show "\<exists>e'. map_of (ms_earnings st) j = Some e' \<and> movedOnce e' (advanceEarning e es now)"
      if "j \<in> {i}" for j
      using that transit by (auto simp: movedOnce_def)
  qed
next
  case (release ids now limit)
  show ?thesis
  proof (rule earningsEvolve_batch)
    show "map_of (ms_earnings st') k = (if k \<in> set ids
        then Some (advanceEarning (lookupEarning st k) EarningStatusAvailable now)
        else map_of (ms_earnings st) k)" for k
      unfolding release(1) by (rule released_lookup [OF assms(1) release(3,4)])
    show "\<exists>e. map_of (ms_earnings st) i = Some e
        \<and> movedOnce e (advanceEarning (lookupEarning st i) EarningStatusAvailable now)"
      if i: "i \<in> set ids" for i
    proof -
      have s: "e_Status (lookupEarning st i) = EarningStatusPending" using i release(3) by blast
      then have "map_of (ms_earnings st) i = Some (lookupEarning st i)"
        by (rule lookupEarning_status) (simp add: validEarningStatus_def)
      moreover have "TransitionEarning EarningStatusPending EarningActionMakeAvailable
          = Inr EarningStatusAvailable" by (simp add: TransitionEarning_def)
      ultimately show ?thesis using movedOnce_advance [of st i] s by metis
    qed
  qed
next
  case (start s ev m)
  show ?thesis
  proof (rule earningsEvolve_batch)
    show "map_of (ms_earnings st') k = (if k \<in> set (s_EarningIDs s)
        then Some (advanceEarning (lookupEarning st k) EarningStatusSettling (s_CreatedAt s))
        else map_of (ms_earnings st) k)" for k
      using start by (simp add: started_def)
    show "\<exists>e. map_of (ms_earnings st) i = Some e
        \<and> movedOnce e (advanceEarning (lookupEarning st i) EarningStatusSettling (s_CreatedAt s))"
      if "i \<in> set (s_EarningIDs s)" for i
      using that start(4) movedOnce_advance [of st i _ EarningActionStartSettlement]
      by (fastforce simp: claimable_def TransitionEarning_def)
  qed
next
  case (finish tn sid b settled now ref)
  show ?thesis
  proof (rule earningsEvolve_batch)
    have "\<forall>i\<in>set (s_EarningIDs b). map_of (ms_earnings st) i \<noteq> None"
      using finish(4) by fastforce
    then show "map_of (ms_earnings st') k = (if k \<in> set (s_EarningIDs b)
        then Some (advanceEarning (lookupEarning st k) (outcomeStatus settled) now)
        else map_of (ms_earnings st) k)" for k
      unfolding finish(1) by (rule finished_lookup [OF assms(1) _ finish(5)])
    show "\<exists>e. map_of (ms_earnings st) i = Some e
        \<and> movedOnce e (advanceEarning (lookupEarning st i) (outcomeStatus settled) now)"
      if "i \<in> set (s_EarningIDs b)" for i
      using that finish(4) movedOnce_advance [of st i _ "outcomeAction settled"]
      by (fastforce simp: TransitionEarning_def outcomeAction_def outcomeStatus_def)
  qed
qed (simp_all add: earningsEvolve_same)

section \<open>Custody of the money\<close>

datatype custody = Free | Claimed | Paid

fun custodyOf :: "EarningStatus \<Rightarrow> custody" where
  "custodyOf EarningStatusSettling = Claimed"
| "custodyOf EarningStatusSettled = Paid"
| "custodyOf EarningStatusRecoveryDue = Paid"
| "custodyOf _ = Free"

fun batchCustody :: "SettlementStatus \<Rightarrow> custody" where
  "batchCustody SettlementStatusSubmitted = Claimed"
| "batchCustody SettlementStatusSettled = Paid"
| "batchCustody _ = Free"

lemma manual_custody:
  "TransitionEarning s a = Inr s' \<Longrightarrow> \<not> aggregateAction a \<Longrightarrow> custodyOf s' = custodyOf s"
  by (cases s; cases a) (auto simp: TransitionEarning_def aggregateAction_def)

text \<open>A settlement agrees with the earnings it lists.\<close>

definition batchOk :: "MemoryStore \<Rightarrow> TenantID \<times> string \<Rightarrow> Settlement \<Rightarrow> bool" where
  "batchOk st k b \<longleftrightarrow>
     settlementKey b = k \<and> distinct (s_EarningIDs b)
     \<and> s_Status b \<in> {SettlementStatusSubmitted, SettlementStatusSettled, SettlementStatusRejected}
     \<and> (\<forall>i\<in>set (s_EarningIDs b). \<exists>e. map_of (ms_earnings st) i = Some e
          \<and> e_TenantID e = s_TenantID b \<and> e_Beneficiary e = s_Beneficiary b
          \<and> Currency (e_Amount e) = Currency (s_Amount b))
     \<and> Minor (s_Amount b) = (\<Sum>i\<leftarrow>s_EarningIDs b. earningMinor st i)"

definition liveBatch :: "MemoryStore \<Rightarrow> TenantID \<times> string \<Rightarrow> string \<Rightarrow> custody \<Rightarrow> bool" where
  "liveBatch st k i c \<longleftrightarrow>
     c \<noteq> Free \<and> (\<exists>b. map_of (ms_settlements st) k = Some b \<and> i \<in> set (s_EarningIDs b)
                     \<and> batchCustody (s_Status b) = c)"

definition payout_inv :: "MemoryStore \<Rightarrow> bool" where
  "payout_inv st \<longleftrightarrow>
     keyed st
     \<and> (\<forall>i e. map_of (ms_earnings st) i = Some e \<longrightarrow> validAmount (e_Amount e))
     \<and> (\<forall>k b. map_of (ms_settlements st) k = Some b \<longrightarrow> batchOk st k b)
     \<and> (\<forall>k i c e. liveBatch st k i c \<and> map_of (ms_earnings st) i = Some e \<longrightarrow> custodyOf (e_Status e) = c)
     \<and> (\<forall>k k' i c c'. liveBatch st k i c \<and> liveBatch st k' i c' \<longrightarrow> k = k')
     \<and> (\<forall>i e. map_of (ms_earnings st) i = Some e \<and> custodyOf (e_Status e) \<noteq> Free \<longrightarrow>
          (\<exists>k. liveBatch st k i (custodyOf (e_Status e))))"

lemma payout_invD:
  assumes "payout_inv st"
  shows "keyed st"
    and "\<And>i e. map_of (ms_earnings st) i = Some e \<Longrightarrow> validAmount (e_Amount e)"
    and "\<And>k b. map_of (ms_settlements st) k = Some b \<Longrightarrow> batchOk st k b"
    and "\<And>k i c e. liveBatch st k i c \<Longrightarrow> map_of (ms_earnings st) i = Some e \<Longrightarrow> custodyOf (e_Status e) = c"
    and "\<And>k k' i c c'. liveBatch st k i c \<Longrightarrow> liveBatch st k' i c' \<Longrightarrow> k = k'"
    and "\<And>i e. map_of (ms_earnings st) i = Some e \<Longrightarrow> custodyOf (e_Status e) \<noteq> Free \<Longrightarrow>
           \<exists>k. liveBatch st k i (custodyOf (e_Status e))"
  using assms unfolding payout_inv_def by blast+

lemma evolve_facts:
  assumes "earningsEvolve st st'" "map_of (ms_earnings st) i = Some e"
  shows "\<exists>e'. map_of (ms_earnings st') i = Some e' \<and> sameFacts e e'"
  using assms movedOnce_sameFacts unfolding earningsEvolve_def by (metis sameFacts_refl)

lemma keyed_evolve:
  assumes "keyed st" "earningsEvolve st st'"
  shows "keyed st'"
  unfolding keyed_def
proof (intro allI impI)
  fix i e' assume e': "map_of (ms_earnings st') i = Some e'"
  show "e_ID e' = i"
  proof (cases "map_of (ms_earnings st) i")
    case None
    then show ?thesis using assms(2) e' unfolding earningsEvolve_def by blast
  next
    case (Some e)
    then show ?thesis
      using evolve_facts [OF assms(2) Some] e' assms(1) sameFacts_fields(1)
      by (fastforce simp: keyed_def)
  qed
qed

lemma validAmount_evolve:
  assumes "payout_inv st" "earningsEvolve st st'" "map_of (ms_earnings st') i = Some e'"
  shows "validAmount (e_Amount e')"
proof (cases "map_of (ms_earnings st) i")
  case None
  then show ?thesis using assms(2,3) unfolding earningsEvolve_def by blast
next
  case (Some e)
  then show ?thesis
    using evolve_facts [OF assms(2) Some] assms(3) payout_invD(2) [OF assms(1) Some]
      sameFacts_fields(10) by fastforce
qed

lemma batchOk_evolve:
  assumes "earningsEvolve st st'" "batchOk st k b"
  shows "batchOk st' k b"
proof -
  have "\<exists>e'. map_of (ms_earnings st') i = Some e'
      \<and> e_TenantID e' = s_TenantID b \<and> e_Beneficiary e' = s_Beneficiary b
      \<and> Currency (e_Amount e') = Currency (s_Amount b) \<and> earningMinor st' i = earningMinor st i"
    if i: "i \<in> set (s_EarningIDs b)" for i
  proof -
    obtain e where e: "map_of (ms_earnings st) i = Some e" "e_TenantID e = s_TenantID b"
      "e_Beneficiary e = s_Beneficiary b" "Currency (e_Amount e) = Currency (s_Amount b)"
      using assms(2) i unfolding batchOk_def by blast
    then show ?thesis
      using evolve_facts [OF assms(1) e(1)] sameFacts_fields
      by (fastforce simp: earningMinor_def lookupEarning_Some)
  qed
  note new = this
  have sums: "(\<Sum>i\<leftarrow>s_EarningIDs b. earningMinor st' i) = (\<Sum>i\<leftarrow>s_EarningIDs b. earningMinor st i)"
    by (intro arg_cong [where f = sum_list] map_cong refl) (use new in blast)
  show ?thesis
    using assms(2) new unfolding batchOk_def sums by blast
qed

lemma payout_neutral:
  assumes inv: "payout_inv st" and ev: "earningsEvolve st st'"
    and S: "ms_settlements st' = ms_settlements st"
    and keep: "\<And>i e e'. map_of (ms_earnings st) i = Some e \<Longrightarrow> map_of (ms_earnings st') i = Some e' \<Longrightarrow>
                 custodyOf (e_Status e') = custodyOf (e_Status e)"
  shows "payout_inv st'"
proof -
  have L: "liveBatch st' = liveBatch st"
    by (intro ext) (simp add: liveBatch_def S)
  have four: "custodyOf (e_Status e') = c"
    if l: "liveBatch st k i c" and e': "map_of (ms_earnings st') i = Some e'" for k i c e'
  proof -
    obtain b where "map_of (ms_settlements st) k = Some b" "i \<in> set (s_EarningIDs b)"
      using l unfolding liveBatch_def by blast
    then obtain e where "map_of (ms_earnings st) i = Some e"
      using payout_invD(3) [OF inv] unfolding batchOk_def by blast
    then show ?thesis using keep e' payout_invD(4) [OF inv l] by metis
  qed
  have six: "\<exists>k. liveBatch st k i (custodyOf (e_Status e'))"
    if e': "map_of (ms_earnings st') i = Some e'" and c: "custodyOf (e_Status e') \<noteq> Free" for i e'
  proof (cases "map_of (ms_earnings st) i")
    case None
    then have "e_Status e' \<in> {EarningStatusPending, EarningStatusAvailable}"
      using ev e' unfolding earningsEvolve_def by blast
    then show ?thesis using c by auto
  next
    case (Some e)
    then show ?thesis using keep [OF Some e'] payout_invD(6) [OF inv Some] c by simp
  qed
  show ?thesis
    unfolding payout_inv_def L
    using keyed_evolve [OF payout_invD(1) [OF inv] ev] validAmount_evolve [OF inv ev]
      batchOk_evolve [OF ev] payout_invD(3,5) [OF inv] four six S by simp blast
qed

section \<open>Starting and finishing a settlement keep the invariant\<close>

lemma claimable_D:
  assumes "claimable s ev st i"
  shows "\<exists>e. map_of (ms_earnings st) i = Some e \<and> e_Status e = EarningStatusAvailable"
  using assms unfolding claimable_def by blast

lemma start_batchOk:
  assumes inv: "payout_inv st" and v: "validateSettlement s ev = Inr ()"
    and c: "\<forall>i\<in>set (s_EarningIDs s). claimable s ev st i"
    and tot: "claimTotal s ev st 0 (sort (s_EarningIDs s)) = Inr (Minor (s_Amount s))"
  shows "batchOk st (settlementKey s) s"
proof -
  have "0 \<le> earningMinor st i" if i: "i \<in> set (s_EarningIDs s)" for i
  proof -
    obtain e where e: "map_of (ms_earnings st) i = Some e"
      using c i claimable_D by blast
    then have "validAmount (e_Amount e)" by (rule payout_invD(2) [OF inv])
    then show ?thesis using e by (simp add: earningMinor_def lookupEarning_Some validAmount_def split: if_splits)
  qed
  then have "Minor (s_Amount s) = (\<Sum>i\<leftarrow>sort (s_EarningIDs s). earningMinor st i)"
    using claimTotal_sum [OF tot] by (simp add: MaxInt64_def)
  also have "\<dots> = (\<Sum>i\<leftarrow>s_EarningIDs s. earningMinor st i)"
    by (rule sum_list_mset_eq) simp
  finally have "Minor (s_Amount s) = (\<Sum>i\<leftarrow>s_EarningIDs s. earningMinor st i)" .
  then show ?thesis
    using validateSettlement_parts [OF v] c unfolding batchOk_def claimable_def by fast
qed

lemma payout_start:
  assumes inv: "payout_inv st" and ev: "earningsEvolve st st'"
    and ok: "batchOk st k0 s" and fresh: "map_of (ms_settlements st) k0 = None"
    and sub: "s_Status s = SettlementStatusSubmitted"
    and S: "ms_settlements st' = AList.update k0 s (ms_settlements st)"
    and av: "\<And>i. i \<in> set (s_EarningIDs s) \<Longrightarrow>
               \<exists>e. map_of (ms_earnings st) i = Some e \<and> e_Status e = EarningStatusAvailable"
    and E: "\<And>k. map_of (ms_earnings st') k = (if k \<in> set (s_EarningIDs s)
              then Some (advanceEarning (lookupEarning st k) EarningStatusSettling now)
              else map_of (ms_earnings st) k)"
  shows "payout_inv st'"
proof -
  have L: "liveBatch st' k i c \<longleftrightarrow>
      k = k0 \<and> i \<in> set (s_EarningIDs s) \<and> c = Claimed \<or> liveBatch st k i c" for k i c
    using fresh sub by (auto simp: liveBatch_def S)
  have none: "\<not> liveBatch st k i c" if "i \<in> set (s_EarningIDs s)" for k i c
    using av [OF that] payout_invD(4) [OF inv, of k i c] by (auto simp: liveBatch_def)
  have four: "custodyOf (e_Status e') = c"
    if "liveBatch st' k i c" "map_of (ms_earnings st') i = Some e'" for k i c e'
    using that none [of i] payout_invD(4) [OF inv, of k i c e'] unfolding L E
    by (auto split: if_splits)
  have five: "k = k'" if "liveBatch st' k i c" "liveBatch st' k' i c'" for k k' i c c'
    using that none [of i] payout_invD(5) [OF inv] unfolding L by blast
  have six: "\<exists>k. liveBatch st' k i (custodyOf (e_Status e'))"
    if "map_of (ms_earnings st') i = Some e'" "custodyOf (e_Status e') \<noteq> Free" for i e'
  proof (cases "i \<in> set (s_EarningIDs s)")
    case True
    then have "liveBatch st' k0 i (custodyOf (e_Status e'))" using that(1) unfolding L E by auto
    then show ?thesis by blast
  next
    case False
    then show ?thesis using that payout_invD(6) [OF inv, of i e'] unfolding L E by auto
  qed
  have three: "batchOk st' k b" if "map_of (ms_settlements st') k = Some b" for k b
    using that batchOk_evolve [OF ev ok] batchOk_evolve [OF ev payout_invD(3) [OF inv, of k b]]
    by (auto simp: S split: if_splits)
  show ?thesis
    unfolding payout_inv_def
    using keyed_evolve [OF payout_invD(1) [OF inv] ev] validAmount_evolve [OF inv ev]
      three four five six by blast
qed

lemma payout_finish:
  assumes inv: "payout_inv st" and ev: "earningsEvolve st st'"
    and b: "map_of (ms_settlements st) k0 = Some b" and sub: "s_Status b = SettlementStatusSubmitted"
    and S: "ms_settlements st' = AList.update k0 (completedBatch b settled ref now) (ms_settlements st)"
    and E: "\<And>k. map_of (ms_earnings st') k = (if k \<in> set (s_EarningIDs b)
              then Some (advanceEarning (lookupEarning st k) (outcomeStatus settled) now)
              else map_of (ms_earnings st) k)"
  shows "payout_inv st'"
proof -
  have ok: "batchOk st k0 b" by (rule payout_invD(3) [OF inv b])
  have L: "liveBatch st' k i c \<longleftrightarrow>
      k = k0 \<and> i \<in> set (s_EarningIDs b) \<and> settled \<and> c = Paid \<or> k \<noteq> k0 \<and> liveBatch st k i c" for k i c
    by (cases settled) (auto simp: liveBatch_def S desiredStatus_def)
  have own: "liveBatch st k0 i Claimed" if "i \<in> set (s_EarningIDs b)" for i
    using that b sub by (simp add: liveBatch_def)
  have mine: "k = k0" if "i \<in> set (s_EarningIDs b)" "liveBatch st k i c" for k i c
    using payout_invD(5) [OF inv that(2) own [OF that(1)]] .
  have lost: "i \<in> set (s_EarningIDs b)" if "liveBatch st k0 i c" for i c
    using that b by (auto simp: liveBatch_def)
  have four: "custodyOf (e_Status e') = c"
    if "liveBatch st' k i c" "map_of (ms_earnings st') i = Some e'" for k i c e'
    using that mine [of i k c] payout_invD(4) [OF inv, of k i c e'] unfolding L E
    by (auto simp: outcomeStatus_def split: if_splits)
  have five: "k = k'" if "liveBatch st' k i c" "liveBatch st' k' i c'" for k k' i c c'
    using that mine [of i] payout_invD(5) [OF inv] unfolding L by blast
  have six: "\<exists>k. liveBatch st' k i (custodyOf (e_Status e'))"
    if e': "map_of (ms_earnings st') i = Some e'" "custodyOf (e_Status e') \<noteq> Free" for i e'
  proof (cases "i \<in> set (s_EarningIDs b)")
    case True
    then have "liveBatch st' k0 i (custodyOf (e_Status e'))"
      using that unfolding L E by (auto simp: outcomeStatus_def split: if_splits)
    then show ?thesis by blast
  next
    case False
    then obtain k where "liveBatch st k i (custodyOf (e_Status e'))"
      using e' payout_invD(6) [OF inv, of i e'] unfolding E if_not_P [OF False] by blast
    then show ?thesis using lost False unfolding L by blast
  qed
  have completed: "batchOk st k0 (completedBatch b settled ref now)"
    using ok by (cases settled) (auto simp: batchOk_def desiredStatus_def)
  have three: "batchOk st' k b'" if "map_of (ms_settlements st') k = Some b'" for k b'
    using that batchOk_evolve [OF ev completed] batchOk_evolve [OF ev payout_invD(3) [OF inv, of k b']]
    by (auto simp: S split: if_splits)
  show ?thesis
    unfolding payout_inv_def
    using keyed_evolve [OF payout_invD(1) [OF inv] ev] validAmount_evolve [OF inv ev]
      three four five six by blast
qed

lemma change_payout_inv:
  assumes inv: "payout_inv st" and ch: "store_change D st st'"
  shows "payout_inv st'"
proof -
  note ev = change_earningsEvolve [OF payout_invD(1) [OF inv] ch]
  show ?thesis
    using ch
  proof cases
    case (commit c)
    show ?thesis
      using payout_neutral [OF inv ev] committed_lookup(1) [OF commit(2,5,6)] unfolding commit(1)
      by (metis committed_simps(4) option.inject)
  next
    case (transit i e ea es ts now)
    have "map_of (ms_earnings st') k
        = (if k = i then Some (advanceEarning e es now) else map_of (ms_earnings st) k)" for k
      using transit applied_batch [of st D es now ea "[i]" k] payout_invD(1) [OF inv]
      by (auto simp: lookupEarning_Some)
    then show ?thesis
      using transit manual_custody by (intro payout_neutral [OF inv ev]) (auto split: if_splits)
  next
    case (release ids now limit)
    have "custodyOf (e_Status e') = custodyOf (e_Status e)"
      if "map_of (ms_earnings st) i = Some e" "map_of (ms_earnings st') i = Some e'" for i e e'
      using that release(3) unfolding release(1) released_lookup [OF payout_invD(1) [OF inv] release(3,4)]
      by (auto simp: lookupEarning_Some split: if_splits)
    then show ?thesis using release by (intro payout_neutral [OF inv ev]) auto
  next
    case (start s cv m)
    show ?thesis
    proof (rule payout_start [OF inv ev start_batchOk [OF inv start(2,4,5)] start(3)])
      show "s_Status s = SettlementStatusSubmitted"
        by (rule validateSettlement_parts [OF start(2)])
    qed (use start claimable_D in \<open>auto simp: started_def\<close>)
  next
    case (finish tn sid b settled now ref)
    show ?thesis
    proof (rule payout_finish [OF inv ev finish(2,3)])
      show "ms_settlements st'
          = AList.update (tn, sid) (completedBatch b settled ref now) (ms_settlements st)"
        unfolding finish(1) by (simp add: finished_def Let_def)
      have "\<forall>i\<in>set (s_EarningIDs b). map_of (ms_earnings st) i \<noteq> None"
        using finish(4) by fastforce
      then show "map_of (ms_earnings st') k = (if k \<in> set (s_EarningIDs b)
          then Some (advanceEarning (lookupEarning st k) (outcomeStatus settled) now)
          else map_of (ms_earnings st) k)" for k
        unfolding finish(1) by (rule finished_lookup [OF payout_invD(1) [OF inv] _ finish(5)])
    qed
  qed (rule payout_neutral [OF inv ev]; simp)+
qed

lemma NewMemoryStore_payout_inv: "payout_inv NewMemoryStore"
  by (simp add: payout_inv_def NewMemoryStore_def keyed_def liveBatch_def)

lemma reach_payout_inv:
  assumes "collisionFree D" "store_reach D NewMemoryStore st"
  shows "payout_inv st"
  using store_reach_induct [where P = payout_inv, OF assms NewMemoryStore_payout_inv]
    change_payout_inv by blast

end
