(* ===== verification/Commission_Ledger.thy ===== *)
theory Commission_Ledger
  imports Commission_Invariants
begin

text \<open>
  The journal and the record of events of the store, the guarantees about payouts, and the
  release of due earnings. \<open>ledger_inv\<close> says that journals have distinct identifiers and
  refer, as the recorded events do, to earnings that are there.
\<close>

section \<open>Journals and recorded events\<close>

definition ledger_inv :: "MemoryStore \<Rightarrow> bool" where
  "ledger_inv st \<longleftrightarrow>
     wf_map (ms_earnings st)
     \<and> ms_journalIDs st = j_ID ` set (ms_journals st) \<and> distinct (map j_ID (ms_journals st))
     \<and> (\<forall>j\<in>set (ms_journals st). \<exists>e. map_of (ms_earnings st) (j_EarningID j) = Some e
          \<and> e_TenantID e = j_TenantID j)
     \<and> (\<forall>k r i. map_of (ms_events st) k = Some r \<and> i \<in> set (re_earningIDs r) \<longrightarrow>
          map_of (ms_earnings st) i \<noteq> None)"

definition refers :: "MemoryStore \<Rightarrow> JournalEntry \<Rightarrow> bool" where
  "refers st j \<longleftrightarrow> (\<exists>e. map_of (ms_earnings st) (j_EarningID j) = Some e \<and> e_TenantID e = j_TenantID j)"

text \<open>What a change adds to the journal and to the recorded events.\<close>

definition ledgerGrows :: "MemoryStore \<Rightarrow> MemoryStore \<Rightarrow> bool" where
  "ledgerGrows st st' \<longleftrightarrow>
     (wf_map (ms_earnings st) \<longrightarrow> wf_map (ms_earnings st'))
     \<and> (\<exists>js. ms_journals st' = ms_journals st @ js \<and> ms_journalIDs st' = ms_journalIDs st \<union> j_ID ` set js
          \<and> distinct (map j_ID js) \<and> ms_journalIDs st \<inter> j_ID ` set js = {} \<and> (\<forall>j\<in>set js. refers st' j))
     \<and> (\<forall>k r. map_of (ms_events st) k = Some r \<longrightarrow> map_of (ms_events st') k = Some r)
     \<and> (\<forall>k r i. map_of (ms_events st) k = None \<and> map_of (ms_events st') k = Some r
          \<and> i \<in> set (re_earningIDs r) \<longrightarrow> map_of (ms_earnings st') i \<noteq> None)"

lemma ledgerGrows_same:
  "ms_earnings st' = ms_earnings st \<Longrightarrow> ms_journals st' = ms_journals st \<Longrightarrow>
   ms_journalIDs st' = ms_journalIDs st \<Longrightarrow> ms_events st' = ms_events st \<Longrightarrow> ledgerGrows st st'"
  by (auto simp: ledgerGrows_def)

lemma ledgerGrows_applied:
  assumes ok: "validateEarningTransitionsLocked ts st = Inr ()"
    and st': "ms_earnings st' = ms_earnings (applied ts st)" "ms_journals st' = ms_journals (applied ts st)"
      "ms_journalIDs st' = ms_journalIDs (applied ts st)" "ms_events st' = ms_events st"
    and ref: "\<And>t. t \<in> set ts \<Longrightarrow> refers st' (et_journal t)"
  shows "ledgerGrows st st'"
proof -
  have "distinct (map j_ID (map et_journal ts))" "ms_journalIDs st \<inter> j_ID ` set (map et_journal ts) = {}"
    using ok unfolding validateEarningTransitionsLocked_ok by auto
  moreover have "wf_map (ms_earnings st) \<longrightarrow> wf_map (ms_earnings st')"
    unfolding st' applied_simps putEarnings_def by (simp add: fold_update_wf)
  ultimately show ?thesis
    unfolding ledgerGrows_def
    by (intro conjI exI [of _ "map et_journal ts"]) (auto simp: st' image_image intro: ref)
qed

lemma batch_refers:
  assumes "keyed st" "map_of (ms_earnings st) i = Some e"
    "map_of (ms_earnings st') i = Some (advanceEarning (lookupEarning st i) s now)"
  shows "refers st' (et_journal (newEarningTransition D (advanceEarning (lookupEarning st i) s now) a now))"
  using assms by (auto simp: refers_def lookupEarning_Some keyed_def)

lemma committed_events:
  "map_of (ms_events (committed D c st)) k =
     (if k = eventKey (c_Event c)
      then Some \<lparr>re_fingerprint = eventIdempotencyFingerprint D (c_Event c) (c_ProgramID c),
             re_decision = decisionSnapshotFor D c, re_earningIDs = map e_ID (c_Earnings c)\<rparr>
      else map_of (ms_events st) k)"
  by (simp add: committed_def putEarnings_def putJournals_def putOutbox_def)

lemma ledgerGrows_commit:
  assumes v: "validateEventCommit c = Inr ()" and f: "commitFresh c st" "freshCommit c"
    and n: "map_of (ms_events st) (eventKey (c_Event c)) = None"
  shows "ledgerGrows st (committed D c st)"
proof -
  note d = validateEventCommit_distinct [OF v] and p = validateEventCommit_parts [OF v]
  have hit: "map_of (ms_earnings (committed D c st)) (e_ID e) = Some e" if "e \<in> set (c_Earnings c)" for e
    using fold_update_hit [OF d that] by (simp add: putEarnings_def)
  have "\<forall>j\<in>set (c_Journals c). refers (committed D c st) j"
    using p(2,4) hit unfolding refers_def by (metis imageE)
  moreover have "ms_journalIDs st \<inter> j_ID ` set (c_Journals c) = {}"
    using f(1) by (auto simp: commitFresh_def)
  moreover have "wf_map (ms_earnings st) \<longrightarrow> wf_map (ms_earnings (committed D c st))"
    by (simp add: putEarnings_def fold_update_wf)
  ultimately show ?thesis
    using n p(3) hit unfolding ledgerGrows_def
    by (intro conjI exI [of _ "c_Journals c"])
       (fastforce simp: committed_events simp del: map_of_eq_None_iff split: if_splits)+
qed

lemma change_ledgerGrows:
  assumes "keyed st" "store_change D st st'"
  shows "ledgerGrows st st'"
  using assms(2)
proof cases
  case (commit c)
  then show ?thesis using ledgerGrows_commit by blast
next
  case (transit i e ea es ts now)
  have E: "map_of (ms_earnings st') i = Some (advanceEarning e es now)"
    using transit applied_batch [of st D es now ea "[i]" i] assms(1) by (simp add: lookupEarning_Some)
  show ?thesis
    using transit E batch_refers [OF assms(1) transit(2), of st' es now D ea]
    by (intro ledgerGrows_applied [of ts]) (auto simp: lookupEarning_Some)
next
  case (release ids now limit)
  have "refers st' (et_journal (releaseTransition D now st i))" if i: "i \<in> set ids" for i
  proof -
    have "map_of (ms_earnings st) i = Some (lookupEarning st i)"
      using i release(3) by (intro lookupEarning_status [of st i EarningStatusPending])
         (auto simp: validEarningStatus_def)
    then show ?thesis
      using batch_refers [OF assms(1)] released_lookup [OF assms(1) release(3,4), of i] i
      unfolding release(1) releaseTransition_def by simp
  qed
  then show ?thesis
    using release by (intro ledgerGrows_applied [OF release(4)]) auto
next
  case (start s ev m)
  then show ?thesis by (auto simp: ledgerGrows_def started_def)
next
  case (finish tn sid b settled now ref)
  have "refers st' (et_journal (finishTransition D settled now st i))"
    if i: "i \<in> set (s_EarningIDs b)" for i
  proof -
    have "\<forall>i\<in>set (s_EarningIDs b). map_of (ms_earnings st) i \<noteq> None" using finish(4) by fastforce
    then show ?thesis
      using batch_refers [OF assms(1)] i
        finished_lookup [OF assms(1) _ finish(5), where ref = ref and tn = tn and sid = sid and k = i]
      unfolding finish(1) finishTransition_def by fastforce
  qed
  then show ?thesis
    unfolding finish(1)
    by (intro ledgerGrows_applied [OF finish(5)]) (auto simp: finished_def Let_def)
qed (simp_all add: ledgerGrows_same)

lemma ledger_inv_grows:
  assumes inv: "ledger_inv st" and ev: "earningsEvolve st st'" and g: "ledgerGrows st st'"
  shows "ledger_inv st'"
proof -
  have keep: "\<exists>e'. map_of (ms_earnings st') i = Some e' \<and> e_TenantID e' = e_TenantID e"
    if "map_of (ms_earnings st) i = Some e" for i e
    using evolve_facts [OF ev that] sameFacts_fields(2) by blast
  obtain js where js: "ms_journals st' = ms_journals st @ js"
    "ms_journalIDs st' = ms_journalIDs st \<union> j_ID ` set js" "distinct (map j_ID js)"
    "ms_journalIDs st \<inter> j_ID ` set js = {}" "\<forall>j\<in>set js. refers st' j"
    using g unfolding ledgerGrows_def by blast
  have j: "\<exists>e. map_of (ms_earnings st') (j_EarningID j) = Some e \<and> e_TenantID e = j_TenantID j"
    if "j \<in> set (ms_journals st')" for j
    using that js(1,5) keep inv unfolding ledger_inv_def refers_def by fastforce
  have e: "map_of (ms_earnings st') i \<noteq> None"
    if r: "map_of (ms_events st') k = Some r" "i \<in> set (re_earningIDs r)" for k r i
  proof (cases "map_of (ms_events st) k")
    case None
    then show ?thesis using g r unfolding ledgerGrows_def by blast
  next
    case (Some r')
    then have "r' = r" using g r unfolding ledgerGrows_def by fastforce
    then have "map_of (ms_earnings st) i \<noteq> None"
      using inv r Some unfolding ledger_inv_def by blast
    then show ?thesis using keep by (metis not_Some_eq)
  qed
  show ?thesis
    using inv g js j e unfolding ledger_inv_def ledgerGrows_def by auto
qed

definition store_inv :: "MemoryStore \<Rightarrow> bool" where
  "store_inv st \<longleftrightarrow> payout_inv st \<and> ledger_inv st"

lemma NewMemoryStore_inv: "store_inv NewMemoryStore"
  using NewMemoryStore_payout_inv by (simp add: store_inv_def ledger_inv_def NewMemoryStore_def)

lemma change_store_inv: "store_inv st \<Longrightarrow> store_change D st st' \<Longrightarrow> store_inv st'"
  using change_payout_inv ledger_inv_grows change_ledgerGrows change_earningsEvolve payout_invD(1)
  unfolding store_inv_def by metis

lemma reach_inv: "collisionFree D \<Longrightarrow> store_reach D st st' \<Longrightarrow> store_inv st \<Longrightarrow> store_inv st'"
  using store_reach_induct [where P = store_inv] change_store_inv by metis

lemma reach_new_inv: "collisionFree D \<Longrightarrow> store_reach D NewMemoryStore st \<Longrightarrow> store_inv st"
  using reach_inv NewMemoryStore_inv by blast

lemma store_invD:
  assumes "store_inv st"
  shows "payout_inv st" "ledger_inv st" "keyed st" "wf_map (ms_earnings st)"
  using assms payout_invD(1) by (auto simp: store_inv_def ledger_inv_def)

text \<open>Induction along a run from a store that satisfies the invariant.\<close>

lemma reach_rel_induct:
  assumes "collisionFree D" "store_reach D st0 st" "store_inv st0" "P st0"
    and step: "\<And>st st'. store_inv st \<Longrightarrow> P st \<Longrightarrow> store_change D st st' \<Longrightarrow> P st'"
  shows "P st"
proof -
  have "store_inv st \<and> P st"
    using store_reach_induct [where P = "\<lambda>st. store_inv st \<and> P st", OF assms(1,2)]
      assms(3,4) step change_store_inv by blast
  then show ?thesis ..
qed

end
