(* ===== verification/Commission_Guarantees.thy ===== *)
theory Commission_Guarantees
  imports Commission_Ledger
begin

text \<open>
  What the store promises: settlements never pay an earning twice and pay exactly what the
  earnings say, earnings and journals are a history that only grows, an event is recorded
  once, and the release of due earnings is bounded and complete.
\<close>

section \<open>Settlements\<close>

lemma live_statusD:
  "s_Status b \<in> {SettlementStatusSubmitted, SettlementStatusSettled} \<Longrightarrow>
   map_of (ms_settlements st) k = Some b \<Longrightarrow> i \<in> set (s_EarningIDs b) \<Longrightarrow>
     liveBatch st k i (batchCustody (s_Status b))"
  by (auto simp: liveBatch_def)

text \<open>
  C1. No earning is paid twice: in every store reachable from the empty one, an earning
  belongs to at most one settlement that is submitted or settled.
\<close>

theorem no_double_payout:
  assumes "collisionFree D" "store_reach D NewMemoryStore st"
    and "map_of (ms_settlements st) k = Some b" "map_of (ms_settlements st) k' = Some b'"
    and "s_Status b \<in> {SettlementStatusSubmitted, SettlementStatusSettled}"
    and "s_Status b' \<in> {SettlementStatusSubmitted, SettlementStatusSettled}"
    and "i \<in> set (s_EarningIDs b)" "i \<in> set (s_EarningIDs b')"
  shows "k = k'"
  using payout_invD(5) [OF reach_payout_inv [OF assms(1,2)]] live_statusD assms by metis

lemma no_double_payout_witness:
  "map_of (ms_settlements store9) (''t1'', ''s1'') = Some (sampleBatch ''s1'' ''e1'' 5000)
   \<and> map_of (ms_settlements store9) (''t1'', ''s2'') = Some (sampleBatch ''s2'' ''e2'' 500)
   \<and> set (s_EarningIDs (sampleBatch ''s1'' ''e1'' 5000))
      \<inter> set (s_EarningIDs (sampleBatch ''s2'' ''e2'' 500)) = {}"
proof -
  have s: "map_of (ms_settlements store9) (''t1'', ''s1'') = Some (sampleBatch ''s1'' ''e1'' 5000)"
    "map_of (ms_settlements store9) (''t1'', ''s2'') = Some (sampleBatch ''s2'' ''e2'' 500)"
    by (simp_all add: store9_eq store7_eq started_def settlementKey_def sample_batch_fields)
  then show ?thesis
    using no_double_payout [OF plainDigests_collisionFree sample_reach_all(4) s]
    by (auto simp: sample_batch_fields)
qed

text \<open>
  C3. Every submitted or settled settlement is backed by its earnings: they exist, are
  distinct, belong to its tenant, beneficiary and currency, are settling while it is
  submitted and settled (or due for recovery) once it is settled, and its amount is exactly
  the sum of theirs.
\<close>

theorem settlement_backed:
  assumes "collisionFree D" "store_reach D NewMemoryStore st"
    and "map_of (ms_settlements st) k = Some b"
    and "s_Status b \<in> {SettlementStatusSubmitted, SettlementStatusSettled}"
  shows "distinct (s_EarningIDs b)
    \<and> Minor (s_Amount b) = (\<Sum>i\<leftarrow>s_EarningIDs b. Minor (e_Amount (lookupEarning st i)))
    \<and> (\<forall>i\<in>set (s_EarningIDs b). \<exists>e. map_of (ms_earnings st) i = Some e
        \<and> e_TenantID e = s_TenantID b \<and> e_Beneficiary e = s_Beneficiary b
        \<and> Currency (e_Amount e) = Currency (s_Amount b)
        \<and> e_Status e \<in> (if s_Status b = SettlementStatusSubmitted then {EarningStatusSettling}
                         else {EarningStatusSettled, EarningStatusRecoveryDue}))"
proof -
  note inv = reach_payout_inv [OF assms(1,2)]
  have ok: "batchOk st k b" by (rule payout_invD(3) [OF inv assms(3)])
  have "e_Status e \<in> (if s_Status b = SettlementStatusSubmitted then {EarningStatusSettling}
                       else {EarningStatusSettled, EarningStatusRecoveryDue})"
    if "i \<in> set (s_EarningIDs b)" "map_of (ms_earnings st) i = Some e" for i e
    using payout_invD(4) [OF inv live_statusD [OF assms(4,3) that(1)] that(2)] assms(4)
    by (cases "e_Status e") auto
  then show ?thesis
    using ok unfolding batchOk_def earningMinor_def by blast
qed

lemma settlement_backed_witness:
  "\<exists>b. map_of (ms_settlements store8) (''t1'', ''s1'') = Some b
     \<and> s_Status b = SettlementStatusSettled \<and> s_EarningIDs b = [''e1'']
     \<and> Minor (e_Amount (lookupEarning store8 ''e1'')) = 5000"
proof -
  let ?b = "completedBatch (sampleBatch ''s1'' ''e1'' 5000) True ''ref'' 50"
  have s: "map_of (ms_settlements store8) (''t1'', ''s1'') = Some ?b"
    by (simp add: store8_eq finished_def Let_def)
  moreover have "s_Status ?b = SettlementStatusSettled" by (simp add: desiredStatus_def)
  ultimately show ?thesis
    using settlement_backed [OF plainDigests_collisionFree sample_reach_all(3) s]
    by (auto simp: sample_batch_fields)
qed

text \<open>
  Money marked as paid was paid: an earning that is settled or due for recovery is
  listed by exactly one settled settlement.
\<close>

theorem paid_earning_has_one_settlement:
  assumes "collisionFree D" "store_reach D NewMemoryStore st"
    and "map_of (ms_earnings st) i = Some e"
    and "e_Status e \<in> {EarningStatusSettled, EarningStatusRecoveryDue}"
  shows "\<exists>!k. \<exists>b. map_of (ms_settlements st) k = Some b \<and> s_Status b = SettlementStatusSettled
           \<and> i \<in> set (s_EarningIDs b)"
proof -
  note inv = reach_payout_inv [OF assms(1,2)]
  have paid: "custodyOf (e_Status e) = Paid" using assms(4) by auto
  have settled: "batchCustody s = Paid \<longleftrightarrow> s = SettlementStatusSettled" for s
    by (cases s) auto
  have live: "liveBatch st k i Paid \<longleftrightarrow> (\<exists>b. map_of (ms_settlements st) k = Some b
      \<and> s_Status b = SettlementStatusSettled \<and> i \<in> set (s_EarningIDs b))" for k
    by (auto simp: liveBatch_def settled)
  show ?thesis
    unfolding live [symmetric]
    using payout_invD(6) [OF inv assms(3)] payout_invD(5) [OF inv] paid by (metis custody.distinct(3))
qed

lemma paid_earning_has_one_settlement_witness:
  "\<exists>!k. \<exists>b. map_of (ms_settlements store8) k = Some b \<and> s_Status b = SettlementStatusSettled
      \<and> ''e1'' \<in> set (s_EarningIDs b)"
proof (rule paid_earning_has_one_settlement [OF plainDigests_collisionFree sample_reach_all(3)])
  have k: "keyed store7" by (rule payout_invD(1) [OF reach_payout_inv
      [OF plainDigests_collisionFree sample_reach_all(2)]])
  have E: "map_of (ms_earnings store7) ''e1''
      = Some (advanceEarning (releasedSample ''e1'' 5000) EarningStatusSettling 40)"
    by (simp add: store7_eq started_def)
  show "map_of (ms_earnings store8) ''e1''
      = Some (advanceEarning (lookupEarning store7 ''e1'') EarningStatusSettled 50)"
    using E k by (simp add: store8_eq finished_def Let_def putEarnings_def sample_batch_fields
        finishTransition_def lookupEarning_def released_fields outcomeStatus_def)
qed simp

section \<open>Histories that only grow\<close>

text \<open>
  An earning is never removed, its facts (tenant, program, template version, source,
  slot, beneficiary, amount, availability and creation times) never change, and its status
  only moves along the transitions of \<open>TransitionEarning\<close>, whatever operations run.
\<close>

theorem earning_history:
  assumes "collisionFree D" "store_reach D NewMemoryStore st" "store_reach D st st'"
    and e: "map_of (ms_earnings st) i = Some e"
  shows "\<exists>e'. map_of (ms_earnings st') i = Some e' \<and> sameFacts e e'
           \<and> earning_reach (e_Status e) (e_Status e')"
proof (rule reach_rel_induct [OF assms(1,3)])
  show "store_inv st" by (rule reach_new_inv [OF assms(1,2)])
  show "\<exists>e'. map_of (ms_earnings st) i = Some e' \<and> sameFacts e e'
          \<and> earning_reach (e_Status e) (e_Status e')"
    using e by (auto intro: earning_reach.init)
next
  fix s s'
  assume s: "store_inv s" "store_change D s s'"
    and "\<exists>e'. map_of (ms_earnings s) i = Some e' \<and> sameFacts e e'
          \<and> earning_reach (e_Status e) (e_Status e')"
  then obtain e1 where e1: "map_of (ms_earnings s) i = Some e1" "sameFacts e e1"
    "earning_reach (e_Status e) (e_Status e1)" by blast
  have "earningsEvolve s s'" by (rule change_earningsEvolve [OF store_invD(3) [OF s(1)] s(2)])
  then obtain e2 where e2: "map_of (ms_earnings s') i = Some e2" "e2 = e1 \<or> movedOnce e1 e2"
    using e1(1) unfolding earningsEvolve_def by blast
  then have "earning_reach (e_Status e) (e_Status e2)"
    using e1(3) earning_reach.step [OF e1(3) earning_step.act] by (auto simp: movedOnce_def)
  moreover have "sameFacts e e2"
    using e2(2) e1(2) movedOnce_sameFacts sameFacts_trans by blast
  ultimately show "\<exists>e'. map_of (ms_earnings s') i = Some e' \<and> sameFacts e e'
      \<and> earning_reach (e_Status e) (e_Status e')" using e2(1) by blast
qed

lemma earning_history_witness:
  "\<exists>e'. map_of (ms_earnings store8) ''e1'' = Some e' \<and> sameFacts (sampleEarning ''e1'' 5000) e'
     \<and> earning_reach EarningStatusPending (e_Status e')"
proof -
  have "store_reach plainDigests store5 store8"
    using sample_reach(3,4) store_reach_trans by blast
  then show ?thesis
    using earning_history [OF plainDigests_collisionFree sample_reach_all(1), of store8 "''e1''"]
    by (simp add: store5_parts sample_earning_fields)
qed

text \<open>
  The journal is append-only: no operation removes, reorders or rewrites an entry, the
  identifiers of the entries are distinct, and every entry refers to an earning of its own
  tenant that is in the store.
\<close>

theorem journal_append_only:
  assumes "collisionFree D" "store_reach D NewMemoryStore st" "store_reach D st st'"
  shows "(\<exists>js. ms_journals st' = ms_journals st @ js) \<and> distinct (map j_ID (ms_journals st'))
    \<and> (\<forall>j\<in>set (ms_journals st'). \<exists>e. map_of (ms_earnings st') (j_EarningID j) = Some e
          \<and> e_TenantID e = j_TenantID j)"
proof -
  have inv: "store_inv st" by (rule reach_new_inv [OF assms(1,2)])
  have "\<exists>js. ms_journals st' = ms_journals st @ js"
  proof (rule reach_rel_induct [OF assms(1,3) inv])
    fix s s'
    assume s: "store_inv s" "\<exists>js. ms_journals s = ms_journals st @ js" "store_change D s s'"
    have "ledgerGrows s s'" by (rule change_ledgerGrows [OF store_invD(3) [OF s(1)] s(3)])
    then show "\<exists>js. ms_journals s' = ms_journals st @ js"
      using s(2) unfolding ledgerGrows_def by fastforce
  qed simp
  then show ?thesis
    using store_invD(2) [OF reach_inv [OF assms(1,3) inv]] unfolding ledger_inv_def by blast
qed

lemma journal_append_only_witness:
  "\<exists>js. ms_journals store8 = ms_journals store5 @ js"
  using journal_append_only [OF plainDigests_collisionFree sample_reach_all(1)
      store_reach_trans [OF sample_reach(4) sample_reach(3)]] by blast

section \<open>An event is recorded once\<close>

lemma cloned_evolve:
  assumes "earningsEvolve st st'" "map (map_of (ms_earnings st)) ids = map Some es"
  shows "\<exists>es'. map (map_of (ms_earnings st')) ids = map Some es' \<and> list_all2 sameFacts es es'"
  using assms(2)
proof (induction ids arbitrary: es)
  case Nil
  then show ?case by auto
next
  case (Cons i ids)
  then obtain e es0 where es: "es = e # es0" "map_of (ms_earnings st) i = Some e"
    "map (map_of (ms_earnings st)) ids = map Some es0" by (cases es) auto
  obtain e' where "map_of (ms_earnings st') i = Some e'" "sameFacts e e'"
    using evolve_facts [OF assms(1) es(2)] by blast
  moreover obtain es' where "map (map_of (ms_earnings st')) ids = map Some es'"
    "list_all2 sameFacts es0 es'" using Cons.IH [OF es(3)] by blast
  ultimately show ?case using es(1) by (intro exI [of _ "e' # es'"]) simp
qed

lemma list_all2_sameFacts_trans:
  "list_all2 sameFacts a b \<Longrightarrow> list_all2 sameFacts b c \<Longrightarrow> list_all2 sameFacts a c"
  by (rule list_all2_trans [of sameFacts sameFacts sameFacts]) (auto intro: sameFacts_trans)

text \<open>What a successful commit leaves behind: the record of the event and its earnings.\<close>

definition recordedAs :: "digests \<Rightarrow> EventCommit \<Rightarrow> Earning list \<Rightarrow> MemoryStore \<Rightarrow> bool" where
  "recordedAs D c es st \<longleftrightarrow>
     (\<exists>r es'. map_of (ms_events st) (eventKey (c_Event c)) = Some r
        \<and> re_fingerprint r = eventIdempotencyFingerprint D (c_Event c) (c_ProgramID c)
        \<and> map (map_of (ms_earnings st)) (re_earningIDs r) = map Some es' \<and> list_all2 sameFacts es es')"

lemma commit_recorded:
  assumes "Store_CommitEvent D cx c st = (Inr es, st')"
  shows "recordedAs D c es st'"
proof (cases "map_of (ms_events st) (eventKey (c_Event c))")
  case None
  then have v: "validateEventCommit c = Inr ()" "es = c_Earnings c" "st' = committed D c st"
    using CommitEvent_effect [OF assms] by auto
  have "map (map_of (ms_earnings st')) (map e_ID es) = map Some es"
    using fold_update_hit [OF validateEventCommit_distinct [OF v(1)]]
    by (simp add: v putEarnings_def)
  then show ?thesis
    unfolding recordedAs_def v(3) committed_events
    by (auto simp: v(2) list_all2_refl intro!: exI [of _ es])
next
  case (Some r)
  then show ?thesis
    using assms unfolding CommitEvent_seen [OF Some]
    by (auto simp: ok_simps recordedAs_def list_all2_refl cloneEarningsLocked_ok split: if_splits)
qed

lemma recordedAs_reach:
  assumes "collisionFree D" "store_reach D st st'" "store_inv st" "recordedAs D c es st"
  shows "recordedAs D c es st'"
proof (rule reach_rel_induct [where P = "recordedAs D c es", OF assms(1,2,3,4)])
  fix s s'
  assume s: "store_inv s" "recordedAs D c es s" "store_change D s s'"
  obtain r es1 where r: "map_of (ms_events s) (eventKey (c_Event c)) = Some r"
    "re_fingerprint r = eventIdempotencyFingerprint D (c_Event c) (c_ProgramID c)"
    "map (map_of (ms_earnings s)) (re_earningIDs r) = map Some es1" "list_all2 sameFacts es es1"
    using s(2) unfolding recordedAs_def by blast
  have "ledgerGrows s s'" by (rule change_ledgerGrows [OF store_invD(3) [OF s(1)] s(3)])
  then have "map_of (ms_events s') (eventKey (c_Event c)) = Some r"
    using r(1) unfolding ledgerGrows_def by blast
  moreover obtain es2 where "map (map_of (ms_earnings s')) (re_earningIDs r) = map Some es2"
    "list_all2 sameFacts es1 es2"
    using cloned_evolve [OF change_earningsEvolve [OF store_invD(3) [OF s(1)] s(3)] r(3)] by blast
  ultimately show "recordedAs D c es s'"
    using r(2) list_all2_sameFacts_trans [OF r(4)] unfolding recordedAs_def by blast
qed

text \<open>
  C25. A commission event takes effect once. After a commit succeeded, and whatever other
  operations ran since, committing an event with the same tenant, source type and source
  identifier changes nothing: with the same idempotency fingerprint it returns the earnings
  of the first commit with their facts unchanged, even if the program, its template or its
  attributions have changed since, and with another fingerprint it is a conflict.
\<close>

theorem event_recorded_once:
  assumes "collisionFree D" "store_reach D NewMemoryStore st" "freshCommit c"
    and "Store_CommitEvent D cx c st = (Inr es, st1)" "store_reach D st1 st2"
    and "eventKey (c_Event c') = eventKey (c_Event c)" "validateEventCommit c' = Inr ()"
  shows "if eventIdempotencyFingerprint D (c_Event c') (c_ProgramID c')
            = eventIdempotencyFingerprint D (c_Event c) (c_ProgramID c)
         then \<exists>es'. Store_CommitEvent D None c' st2 = (Inr es', st2) \<and> list_all2 sameFacts es es'
         else Store_CommitEvent D None c' st2 = (Inl ErrEventConflict, st2)"
proof -
  have "store_reach D NewMemoryStore st1"
    using assms(2-4) by (meson store_reach.step store_step.commit_event)
  then have "recordedAs D c es st2"
    using recordedAs_reach [OF assms(1,5)] reach_new_inv [OF assms(1)] commit_recorded [OF assms(4)]
    by blast
  then obtain r es' where r: "map_of (ms_events st2) (eventKey (c_Event c')) = Some r"
    "re_fingerprint r = eventIdempotencyFingerprint D (c_Event c) (c_ProgramID c)"
    "map (map_of (ms_earnings st2)) (re_earningIDs r) = map Some es'" "list_all2 sameFacts es es'"
    unfolding recordedAs_def assms(6) by blast
  then have "cloneEarningsLocked st2 (re_earningIDs r) = Inr es'"
    by (simp only: cloneEarningsLocked_ok)
  then show ?thesis
    unfolding CommitEvent_seen [OF r(1)] using r assms(7) by (auto simp: ctx_ok_def)
qed

lemma event_recorded_once_witness:
  "(\<exists>es'. Store_CommitEvent plainDigests None sampleCommit store8 = (Inr es', store8)
      \<and> list_all2 sameFacts (c_Earnings sampleCommit) es')"
proof -
  have "\<exists>es. Store_CommitEvent plainDigests None sampleCommit store4 = (Inr es, store5)"
  proof -
    have "map_of (ms_events store4) (eventKey (c_Event sampleCommit)) = None"
      by (simp add: store4_eq store1_eq NewMemoryStore_def)
    moreover have "commitFresh sampleCommit store4"
      by (simp add: commitFresh_def store4_eq store1_eq NewMemoryStore_def)
    ultimately show ?thesis
      by (simp add: store5_eq CommitEvent_new sample_commit_valid sample_commit_versions ctx_ok_def)
  qed
  then obtain es where es: "Store_CommitEvent plainDigests None sampleCommit store4 = (Inr es, store5)" ..
  have "map_of (ms_events store4) (eventKey (c_Event sampleCommit)) = None"
    by (simp add: store4_eq store1_eq NewMemoryStore_def)
  then have "es = c_Earnings sampleCommit" using CommitEvent_effect(3) [OF es] by simp
  then show ?thesis
    using event_recorded_once [OF plainDigests_collisionFree sample_reach(1) sample_freshCommit es
        store_reach_trans [OF sample_reach(4) sample_reach(3)] refl sample_commit_valid] by simp
qed

section \<open>Release of due earnings\<close>

lemma due_iff:
  "wf_map (ms_earnings st) \<Longrightarrow> e \<in> set (dueEarnings now st) \<longleftrightarrow>
     (\<exists>i. map_of (ms_earnings st) i = Some e) \<and> e_Status e = EarningStatusPending \<and> e_AvailableAt e \<le> now"
  by (auto simp: dueEarnings_def in_vals_iff)

lemma dueBatch_subset: "set (dueBatch now limit st) \<subseteq> set (dueEarnings now st)"
  by (auto simp: dueBatch_def dest: in_set_takeD split: if_splits)

lemma dueBatch_length: "0 < limit \<Longrightarrow> int (length (dueBatch now limit st)) \<le> limit"
  by (auto simp: dueBatch_def)

lemma dueBatch_short: "int (length (dueBatch now limit st)) < limit \<Longrightarrow> dueBatch now limit st = dueEarnings now st"
  by (auto simp: dueBatch_def split: if_splits)

text \<open>What is left out of the batch comes after everything in it.\<close>

lemma dueBatch_first:
  assumes "x \<in> set (dueBatch now limit st)" "y \<in> set (dueEarnings now st)" "y \<notin> set (dueBatch now limit st)"
  shows "(e_AvailableAt x, e_ID x) \<le> (e_AvailableAt y, e_ID y)"
proof -
  let ?l = "dueEarnings now st" and ?f = "\<lambda>e. (e_AvailableAt e, e_ID e)"
  have b: "dueBatch now limit st = take (nat limit) ?l"
    using assms(2,3) by (auto simp: dueBatch_def split: if_splits)
  have "set ?l = set (take (nat limit) ?l) \<union> set (drop (nat limit) ?l)"
    by (metis append_take_drop_id set_append)
  then have y: "y \<in> set (drop (nat limit) ?l)" using assms(2,3) b by auto
  have "sorted (map ?f ?l)" by (simp add: dueEarnings_def)
  then have "sorted (map ?f (take (nat limit) ?l) @ map ?f (drop (nat limit) ?l))"
    by (simp only: map_append [symmetric] append_take_drop_id)
  then show ?thesis
    using assms(1) y unfolding b sorted_append by (auto simp del: less_eq_prod_simp)
qed

lemma make_available_due_each:
  assumes "collisionFree D" "store_reach D NewMemoryStore st"
    and run: "Store_MakeAvailableDue D cx now limit st = (Inr es, st')"
  shows "int (length es) \<le> limit"
    and "\<forall>e'\<in>set es. \<exists>e. map_of (ms_earnings st) (e_ID e') = Some e
           \<and> e_Status e = EarningStatusPending \<and> e_AvailableAt e \<le> now
           \<and> e' = advanceEarning e EarningStatusAvailable now
           \<and> map_of (ms_earnings st') (e_ID e') = Some e'"
    and "\<forall>i. i \<notin> e_ID ` set es \<longrightarrow> map_of (ms_earnings st') i = map_of (ms_earnings st) i"
    and "\<forall>i e. map_of (ms_earnings st') i = Some e \<and> e_Status e = EarningStatusPending
           \<and> e_AvailableAt e \<le> now \<longrightarrow> int (length es) = limit
           \<and> (\<forall>e'\<in>set es. (e_AvailableAt e', e_ID e') \<le> (e_AvailableAt e, i))"
proof -
  have inv: "store_inv st" by (rule reach_new_inv [OF assms(1,2)])
  note k = store_invD(3) [OF inv] and w = store_invD(4) [OF inv]
  let ?b = "dueBatch now limit st"
  let ?ids = "map e_ID ?b"
  have due: "map_of (ms_earnings st) (e_ID e) = Some e \<and> e_Status e = EarningStatusPending
      \<and> e_AvailableAt e \<le> now" if "e \<in> set ?b" for e
    using that dueBatch_subset due_iff [OF w] k unfolding keyed_def by blast
  have r: "0 < limit" "validateEarningTransitionsLocked (map (releaseTransition D now st) ?ids) st = Inr ()"
    "es = map et_earning (map (releaseTransition D now st) ?ids)"
    "st' = applied (map (releaseTransition D now st) ?ids) st"
    using run unfolding MakeAvailableDue_effect releaseTransitions_ok by blast+
  have es: "es = map (\<lambda>e. advanceEarning e EarningStatusAvailable now) ?b"
    unfolding r(3) using due by (simp add: releaseTransition_def lookupEarning_Some)
  have ids: "e_ID ` set es = set ?ids" unfolding es by (simp add: image_image)
  have "\<forall>i\<in>set ?ids. e_Status (lookupEarning st i) = EarningStatusPending"
    using due by (auto simp: lookupEarning_Some)
  note E = released_lookup [OF k this r(2), folded r(4)]
  have len: "length es = length ?b" by (simp add: es)
  show "int (length es) \<le> limit" unfolding len by (rule dueBatch_length [OF r(1)])
  show "\<forall>e'\<in>set es. \<exists>e. map_of (ms_earnings st) (e_ID e') = Some e
      \<and> e_Status e = EarningStatusPending \<and> e_AvailableAt e \<le> now
      \<and> e' = advanceEarning e EarningStatusAvailable now \<and> map_of (ms_earnings st') (e_ID e') = Some e'"
    unfolding es using due E by (auto simp: lookupEarning_Some)
  show "\<forall>i. i \<notin> e_ID ` set es \<longrightarrow> map_of (ms_earnings st') i = map_of (ms_earnings st) i"
    unfolding ids E by simp
  show "\<forall>i e. map_of (ms_earnings st') i = Some e \<and> e_Status e = EarningStatusPending
      \<and> e_AvailableAt e \<le> now \<longrightarrow> int (length es) = limit
      \<and> (\<forall>e'\<in>set es. (e_AvailableAt e', e_ID e') \<le> (e_AvailableAt e, i))"
  proof (intro allI impI)
    fix i e
    assume a: "map_of (ms_earnings st') i = Some e \<and> e_Status e = EarningStatusPending
      \<and> e_AvailableAt e \<le> now"
    then have i: "i \<notin> set ?ids" "map_of (ms_earnings st) i = Some e"
      using E [of i] by (auto split: if_splits)
    then have e: "e_ID e = i" "e \<in> set (dueEarnings now st)" "e \<notin> set ?b"
      using k a due_iff [OF w] by (auto simp: keyed_def)
    have "\<not> int (length ?b) < limit" using dueBatch_short e(2,3) by metis
    then have "int (length es) = limit"
      using dueBatch_length [OF r(1), of now st] len by simp
    moreover have "(e_AvailableAt e', e_ID e') \<le> (e_AvailableAt e, i)" if e': "e' \<in> set es" for e'
    proof -
      obtain x where x: "x \<in> set ?b" "e' = advanceEarning x EarningStatusAvailable now"
        using e' unfolding es by auto
      show ?thesis
        using dueBatch_first [OF x(1) e(2,3)] by (simp only: x(2) advanceEarning_simps e(1))
    qed
    ultimately show "int (length es) = limit
        \<and> (\<forall>e'\<in>set es. (e_AvailableAt e', e_ID e') \<le> (e_AvailableAt e, i))" by blast
  qed
qed

text \<open>
  A run of \<open>MakeAvailableDue\<close> releases at most \<open>limit\<close> earnings, each of them pending
  and due before and available after, and touches no other earning. When it releases fewer
  than the limit no pending due earning is left, and when some are left they become
  available no earlier than every released one.
\<close>

theorem make_available_due:
  assumes "collisionFree D" "store_reach D NewMemoryStore st"
    and run: "Store_MakeAvailableDue D cx now limit st = (Inr es, st')"
  shows "(int (length es) \<le> limit)
    \<and> (\<forall>e'\<in>set es. \<exists>e. map_of (ms_earnings st) (e_ID e') = Some e
           \<and> e_Status e = EarningStatusPending \<and> e_AvailableAt e \<le> now
           \<and> e' = advanceEarning e EarningStatusAvailable now
           \<and> map_of (ms_earnings st') (e_ID e') = Some e')
    \<and> (\<forall>i. i \<notin> e_ID ` set es \<longrightarrow> map_of (ms_earnings st') i = map_of (ms_earnings st) i)
    \<and> (\<forall>i e. map_of (ms_earnings st') i = Some e \<and> e_Status e = EarningStatusPending
           \<and> e_AvailableAt e \<le> now \<longrightarrow> int (length es) = limit
           \<and> (\<forall>e'\<in>set es. (e_AvailableAt e', e_ID e') \<le> (e_AvailableAt e, i)))"
  by (intro conjI impI; rule make_available_due_each [OF assms]; assumption?)

lemma make_available_due_witness:
  "\<exists>es. Store_MakeAvailableDue plainDigests None 30 10 store5 = (Inr es, store6) \<and> int (length es) \<le> 10"
proof -
  obtain es where es: "Store_MakeAvailableDue plainDigests None 30 10 store5 = (Inr es, store6)"
    using store6_run by blast
  then show ?thesis
    using make_available_due [OF plainDigests_collisionFree sample_reach_all(1) es] by blast
qed

end
