(* ===== verification/Commission_Limits.thy ===== *)
theory Commission_Limits
  imports Commission_Earnings
begin

text \<open>
  The request bounds of the service (\<open>biz/commission/limits.go\<close>). A byte length is an int,
  as \<open>len\<close> is in the source; \<open>normalizeServiceLimits\<close> answers with the limits to install
  and the error that makes every command fail closed. Its loop over pointers to the fields
  is a recursion over their values, in the order of the source.
\<close>

record ServiceLimits =
  MaxIdentifierBytes :: int
  MaxEventAttributes :: int
  MaxEventAttributeBytes :: int
  MaxEventTypes :: int
  MaxRulesPerTemplate :: int
  MaxTiersPerRule :: int
  MaxSettlementItems :: int
  MaxDueBatch :: int
  MaxFilterStatuses :: int
  DefaultPageSize :: int
  MaxPageSize :: int

definition DefaultServiceLimits :: ServiceLimits where
  "DefaultServiceLimits = \<lparr>MaxIdentifierBytes = 256, MaxEventAttributes = 64,
     MaxEventAttributeBytes = 8 * 2 ^ 10, MaxEventTypes = 64, MaxRulesPerTemplate = 64,
     MaxTiersPerRule = 32, MaxSettlementItems = 500, MaxDueBatch = 500, MaxFilterStatuses = 16,
     DefaultPageSize = 100, MaxPageSize = 500\<rparr>"

definition limitValues :: "ServiceLimits \<Rightarrow> int list" where
  "limitValues limits = [MaxIdentifierBytes limits, MaxEventAttributes limits,
     MaxEventAttributeBytes limits, MaxEventTypes limits, MaxRulesPerTemplate limits,
     MaxTiersPerRule limits, MaxSettlementItems limits, MaxDueBatch limits,
     MaxFilterStatuses limits, DefaultPageSize limits, MaxPageSize limits]"

definition withLimitValues :: "int list \<Rightarrow> ServiceLimits" where
  "withLimitValues vs = \<lparr>MaxIdentifierBytes = vs ! 0, MaxEventAttributes = vs ! 1,
     MaxEventAttributeBytes = vs ! 2, MaxEventTypes = vs ! 3, MaxRulesPerTemplate = vs ! 4,
     MaxTiersPerRule = vs ! 5, MaxSettlementItems = vs ! 6, MaxDueBatch = vs ! 7,
     MaxFilterStatuses = vs ! 8, DefaultPageSize = vs ! 9, MaxPageSize = vs ! 10\<rparr>"

fun normalizeValues :: "int list \<Rightarrow> int list \<Rightarrow> commission_error + int list" where
  "normalizeValues (value # values) (defaultValue # defaultValues) =
     (if value < 0 then Inl ErrLimitExceeded
      else bind_ok (normalizeValues values defaultValues)
             (\<lambda>vs. Inr ((if value = 0 then defaultValue else value) # vs)))"
| "normalizeValues _ _ = Inr []"

definition normalizeServiceLimits ::
  "ServiceLimits \<Rightarrow> ServiceLimits \<times> commission_error option" where
  "normalizeServiceLimits limits =
     (let defaults = DefaultServiceLimits in
      case normalizeValues (limitValues limits) (limitValues defaults) of
        Inl e \<Rightarrow> (defaults, Some e)
      | Inr values \<Rightarrow>
          let limits' = withLimitValues values
          in if DefaultPageSize limits' > MaxPageSize limits' then (defaults, Some ErrLimitExceeded)
             else (limits', None))"

definition identifierOK :: "ServiceLimits \<Rightarrow> string \<Rightarrow> bool" where
  "identifierOK limits value \<longleftrightarrow> value \<noteq> [] \<and> int (length value) \<le> MaxIdentifierBytes limits"

fun limitAttributes :: "ServiceLimits \<Rightarrow> int \<Rightarrow> (string \<times> string) list \<Rightarrow> commission_error + unit" where
  "limitAttributes limits bytes [] = Inr ()"
| "limitAttributes limits bytes ((key, value) # attributes) =
     (if TrimSpace key = [] \<or> int (length key) > MaxIdentifierBytes limits
      then Inl ErrLimitExceeded
      else if int (length value) > MaxEventAttributeBytes limits
              \<or> int (length key) > MaxEventAttributeBytes limits - bytes
      then Inl ErrLimitExceeded
      else let bytes' = bytes + int (length key) in
        if int (length value) > MaxEventAttributeBytes limits - bytes' then Inl ErrLimitExceeded
        else limitAttributes limits (bytes' + int (length value)) attributes)"

definition limits_validateEvent :: "ServiceLimits \<Rightarrow> CommissionEvent \<Rightarrow> commission_error + unit" where
  "limits_validateEvent limits event =
     (let attributes = (case ev_Attributes event of None \<Rightarrow> [] | Some m \<Rightarrow> m) in
      if \<not> identifierOK limits (ev_SourceType event) \<or> \<not> identifierOK limits (ev_SourceID event)
      then Inl ErrLimitExceeded
      else if int (length attributes) > MaxEventAttributes limits then Inl ErrLimitExceeded
      else limitAttributes limits 0 attributes)"

definition limits_validateRules :: "ServiceLimits \<Rightarrow> Rule list \<Rightarrow> commission_error + unit" where
  "limits_validateRules limits rules =
     forEach (\<lambda>rule.
       if \<not> identifierOK limits (r_Slot rule) \<or> int (length (r_Tiers rule)) > MaxTiersPerRule limits
       then Inl ErrLimitExceeded
       else if b_ID (r_Beneficiary rule) \<noteq> [] \<and> \<not> identifierOK limits (b_ID (r_Beneficiary rule))
       then Inl ErrLimitExceeded else Inr ()) rules"

definition limits_validateTemplate :: "ServiceLimits \<Rightarrow> Template \<Rightarrow> commission_error + unit" where
  "limits_validateTemplate limits template =
     (if \<not> identifierOK limits (t_ID template)
         \<or> int (length (t_AllowedEventTypes template)) > MaxEventTypes limits
         \<or> int (length (t_Rules template)) > MaxRulesPerTemplate limits
      then Inl ErrLimitExceeded
      else bind_ok (forEach (\<lambda>eventType. ensure (identifierOK limits eventType) ErrLimitExceeded)
                      (t_AllowedEventTypes template))
             (\<lambda>_. limits_validateRules limits (t_Rules template)))"

definition limits_validateProgram :: "ServiceLimits \<Rightarrow> Program \<Rightarrow> commission_error + unit" where
  "limits_validateProgram limits program =
     (if \<not> identifierOK limits (p_ID program) \<or> \<not> identifierOK limits (p_TemplateID program)
         \<or> int (length (p_Rules program)) > MaxRulesPerTemplate limits
      then Inl ErrLimitExceeded
      else limits_validateRules limits (p_Rules program))"

definition limits_validateAttribution ::
  "ServiceLimits \<Rightarrow> Attribution \<Rightarrow> commission_error + unit" where
  "limits_validateAttribution limits attribution = ensure
     (\<not> (\<not> identifierOK limits (a_ProgramID attribution) \<or> \<not> identifierOK limits (a_Slot attribution)
         \<or> \<not> identifierOK limits (b_ID (a_Beneficiary attribution)))) ErrLimitExceeded"

definition normalizeEarningFilter ::
  "ServiceLimits \<Rightarrow> EarningFilter \<Rightarrow> commission_error + EarningFilter" where
  "normalizeEarningFilter limits filt =
     (if \<not> earningFilterValid filt then Inl ErrInvalidEarningFilter
      else if int (length (ef_ProgramID filt)) > MaxIdentifierBytes limits
              \<or> int (length (ef_Cursor filt)) > MaxIdentifierBytes limits
              \<or> int (length (ef_Statuses filt)) > MaxFilterStatuses limits
      then Inl ErrLimitExceeded
      else if (case ef_Beneficiary filt of None \<Rightarrow> False | Some b \<Rightarrow> \<not> identifierOK limits (b_ID b))
      then Inl ErrLimitExceeded
      else if ef_Limit filt = 0 then Inr (filt\<lparr>ef_Limit := DefaultPageSize limits\<rparr>)
      else if ef_Limit filt > MaxPageSize limits then Inl ErrLimitExceeded
      else Inr filt)"

definition normalizeOutboxFilter ::
  "ServiceLimits \<Rightarrow> OutboxFilter \<Rightarrow> commission_error + OutboxFilter" where
  "normalizeOutboxFilter limits filt =
     (if \<not> outboxFilterValid filt then Inl ErrInvalidOutboxFilter
      else if int (length (oc_ID (of_Cursor filt))) > MaxIdentifierBytes limits
      then Inl ErrLimitExceeded
      else if of_Limit filt = 0 then Inr (filt\<lparr>of_Limit := DefaultPageSize limits\<rparr>)
      else if of_Limit filt > MaxPageSize limits then Inl ErrLimitExceeded
      else Inr filt)"

section \<open>The limits installed are usable\<close>

definition boundedLimits :: "ServiceLimits \<Rightarrow> bool" where
  "boundedLimits limits \<longleftrightarrow>
     (\<forall>v\<in>set (limitValues limits). 0 < v) \<and> DefaultPageSize limits \<le> MaxPageSize limits"

lemma DefaultServiceLimits_bounded: "boundedLimits DefaultServiceLimits"
  by (simp add: boundedLimits_def limitValues_def DefaultServiceLimits_def)

lemma normalizeValues_ok:
  assumes "length vs = length ds" "\<forall>d\<in>set ds. 0 < d"
  shows "normalizeValues vs ds =
    (if \<exists>v\<in>set vs. v < 0 then Inl ErrLimitExceeded
     else Inr (map2 (\<lambda>v d. if v = 0 then d else v) vs ds))"
  using assms by (induction vs ds rule: list_induct2) auto

lemma withLimitValues_inverse [simp]: "withLimitValues (limitValues l) = l"
  by (simp add: withLimitValues_def limitValues_def)

lemma limitValues_withLimitValues:
  "length vs = 11 \<Longrightarrow> limitValues (withLimitValues vs) = vs"
  by (simp add: withLimitValues_def limitValues_def list_eq_iff_nth_eq less_Suc_eq
      numeral_eq_Suc all_conj_distrib [symmetric] cong: conj_cong)

text \<open>
  Whatever limits the host asks for, the limits the service works with are all positive
  and a default page fits in the largest page; an error is reported exactly when a limit is
  negative or the page range is empty once zero fields took their defaults, and limits
  without an error are the host's with zero fields replaced by their defaults.
\<close>

theorem normalizeServiceLimits_bounded:
  "boundedLimits (fst (normalizeServiceLimits limits))
   \<and> (let page = (\<lambda>v d. if v = 0 then d else v);
          wanted = map2 page (limitValues limits) (limitValues DefaultServiceLimits)
      in snd (normalizeServiceLimits limits) =
           (if (\<exists>v\<in>set (limitValues limits). v < 0) \<or> wanted ! 9 > wanted ! 10
            then Some ErrLimitExceeded else None)
         \<and> (if snd (normalizeServiceLimits limits) = None
            then limitValues (fst (normalizeServiceLimits limits)) = wanted
            else fst (normalizeServiceLimits limits) = DefaultServiceLimits))"
proof -
  let ?w = "map2 (\<lambda>v d. if v = 0 then d else v) (limitValues limits) (limitValues DefaultServiceLimits)"
  have len: "length (limitValues l) = 11" for l by (simp add: limitValues_def)
  have pos: "\<forall>d\<in>set (limitValues DefaultServiceLimits). 0 < d"
    using DefaultServiceLimits_bounded by (simp add: boundedLimits_def)
  have w: "length ?w = 11" by (simp add: len)
  have page: "DefaultPageSize (withLimitValues ?w) = ?w ! 9" "MaxPageSize (withLimitValues ?w) = ?w ! 10"
    by (simp_all add: withLimitValues_def)
  have n: "normalizeServiceLimits limits =
      (if (\<exists>v\<in>set (limitValues limits). v < 0) \<or> ?w ! 9 > ?w ! 10
       then (DefaultServiceLimits, Some ErrLimitExceeded) else (withLimitValues ?w, None))"
    unfolding normalizeServiceLimits_def Let_def
    using normalizeValues_ok [OF _ pos, of "limitValues limits"] len page by simp
  have "0 < v" if v: "v \<in> set ?w" "\<forall>v\<in>set (limitValues limits). \<not> v < 0" for v
  proof -
    obtain x d where "x \<in> set (limitValues limits)" "d \<in> set (limitValues DefaultServiceLimits)"
      "v = (if x = 0 then d else x)" using v(1) by (auto dest: set_zip_leftD set_zip_rightD)
    then show ?thesis using v(2) pos by fastforce
  qed
  then have "boundedLimits (withLimitValues ?w)" if "\<not> ((\<exists>v\<in>set (limitValues limits). v < 0) \<or> ?w ! 9 > ?w ! 10)"
    using that page limitValues_withLimitValues [OF w] by (auto simp: boundedLimits_def)
  then show ?thesis
    unfolding n Let_def using DefaultServiceLimits_bounded limitValues_withLimitValues [OF w] by auto
qed

end
