(* ===== verification/Commission_Service.thy ===== *)
theory Commission_Service
  imports Commission_Limits
begin

text \<open>
  \<open>Service\<close> (\<open>biz/commission/service.go\<close>): authorization, rule composition and the host's
  settlement adapter around the store, every command of it.

  A command may ask its context, its clock and its authorizer several times and call the
  store several times, and other goroutines use the store in between. A \<open>world\<close> gives the
  answers: \<open>w_ctx\<close> the answer of the call of \<open>ctx.Err()\<close> at a moment, \<open>w_now\<close> the clock,
  and \<open>w_other\<close> what the other goroutines did to the store up to a moment. Moments are
  numbered along the command. The authorizer and the adapter are the host's: parameters.
  A nil service is \<open>None\<close>.
\<close>

record Actor =
  ac_ID :: string
  ac_TenantID :: TenantID
  ac_Host :: bool

datatype SettlementSubmissionStatus =
  SettlementSubmissionPending | SettlementSubmissionSettled | SettlementSubmissionRejected
| SettlementSubmissionOther string

definition validSettlementSubmissionStatus :: "SettlementSubmissionStatus \<Rightarrow> bool" where
  "validSettlementSubmissionStatus status =
     (case status of SettlementSubmissionOther _ \<Rightarrow> False | _ \<Rightarrow> True)"

record SettlementReceipt =
  rc_Status :: SettlementSubmissionStatus
  rc_ProviderReference :: string

text \<open>An adapter error: whether it is a verified rejection, and its text.\<close>

record submitError =
  se_rejected :: bool
  se_text :: string

type_synonym Authorizer = "nat \<Rightarrow> Actor \<Rightarrow> Permission \<Rightarrow> TenantID \<Rightarrow> string option"
type_synonym SettlementAdapter = "Settlement \<Rightarrow> SettlementReceipt \<times> submitError option"

record Service =
  sv_store_nil :: bool
  sv_authorizer :: "Authorizer option"
  sv_adapter :: "SettlementAdapter option"
  sv_limits :: ServiceLimits
  sv_limitsErr :: "commission_error option"

record world =
  w_ctx :: "nat \<Rightarrow> ctx"
  w_now :: "nat \<Rightarrow> Time"
  w_other :: "nat \<Rightarrow> MemoryStore \<Rightarrow> MemoryStore"

section \<open>Construction\<close>

type_synonym Option = "Service \<Rightarrow> Service"

definition WithAuthorizer :: "Authorizer option \<Rightarrow> Option" where
  "WithAuthorizer authorizer service = service\<lparr>sv_authorizer := authorizer\<rparr>"

definition WithSettlementAdapter :: "SettlementAdapter option \<Rightarrow> Option" where
  "WithSettlementAdapter adapter service = service\<lparr>sv_adapter := adapter\<rparr>"

definition WithLimits :: "ServiceLimits \<Rightarrow> Option" where
  "WithLimits limits service =
     service\<lparr>sv_limits := fst (normalizeServiceLimits limits),
             sv_limitsErr := snd (normalizeServiceLimits limits)\<rparr>"

definition NewService :: "bool \<Rightarrow> Option option list \<Rightarrow> Service" where
  "NewService store_nil opts =
     fold (\<lambda>opt service. case opt of None \<Rightarrow> service | Some f \<Rightarrow> f service) opts
       \<lparr>sv_store_nil = store_nil, sv_authorizer = None, sv_adapter = None,
        sv_limits = DefaultServiceLimits, sv_limitsErr = None\<rparr>"

section \<open>Authorization\<close>

definition authorize ::
  "Service option \<Rightarrow> world \<Rightarrow> nat \<Rightarrow> Actor \<Rightarrow> Permission \<Rightarrow> TenantID \<Rightarrow> commission_error + unit"
where
  "authorize sv w k actor permission tenantID =
     bind_ok (ctx_ok (w_ctx w k)) (\<lambda>_.
       case sv of None \<Rightarrow> Inl ErrNilStore | Some service \<Rightarrow>
       if tenantID = [] \<and> \<not> ac_Host actor then Inl ErrUnauthorized
       else if tenantID \<noteq> [] \<and> \<not> ac_Host actor
               \<and> (ac_ID actor = [] \<or> ac_TenantID actor \<noteq> tenantID) then Inl ErrUnauthorized
       else case sv_limitsErr service of Some e \<Rightarrow> Inl e | None \<Rightarrow>
       if tenantID \<noteq> [] \<and> \<not> identifierOK (sv_limits service) tenantID then Inl ErrLimitExceeded
       else case sv_authorizer service of None \<Rightarrow> Inl ErrUnauthorized | Some f \<Rightarrow>
         (case f k actor permission tenantID of
            None \<Rightarrow> Inr ()
          | Some text \<Rightarrow> Inl (ErrAuthorize permission text)))"

definition authorizeHost ::
  "Service option \<Rightarrow> world \<Rightarrow> nat \<Rightarrow> Actor \<Rightarrow> Permission \<Rightarrow> TenantID \<Rightarrow> commission_error + unit"
where
  "authorizeHost sv w k actor permission tenantID =
     (case sv of None \<Rightarrow> Inl ErrNilStore | Some service \<Rightarrow>
        bind_ok (ctx_ok (w_ctx w k)) (\<lambda>_.
          if \<not> ac_Host actor \<or> sv_authorizer service = None then Inl ErrUnauthorized
          else authorize sv w (k + 1) actor permission tenantID))"

text \<open>
  The head of every command: the authorization, then the store it works on. What follows
  gets the service that was authorized.
\<close>

definition guarded ::
  "Service option \<Rightarrow> commission_error + unit \<Rightarrow> MemoryStore
     \<Rightarrow> (Service \<Rightarrow> (commission_error + 'a) \<times> MemoryStore)
     \<Rightarrow> (commission_error + 'a) \<times> MemoryStore" where
  "guarded sv auth st k =
     on_ok auth st (\<lambda>_.
       case sv of None \<Rightarrow> fails ErrNilStore st
       | Some service \<Rightarrow> if sv_store_nil service then fails ErrNilStore st else k service)"

text \<open>A read of the store at a moment: the store as the other goroutines left it.\<close>

definition reads ::
  "world \<Rightarrow> nat \<Rightarrow> (ctx \<Rightarrow> MemoryStore \<Rightarrow> commission_error + 'b) \<Rightarrow> MemoryStore
     \<Rightarrow> ('b \<Rightarrow> MemoryStore \<Rightarrow> (commission_error + 'a) \<times> MemoryStore)
     \<Rightarrow> (commission_error + 'a) \<times> MemoryStore" where
  "reads w k op st f =
     (let st' = w_other w k st in on_ok (op (w_ctx w k) st') st' (\<lambda>x. f x st'))"

definition answer ::
  "world \<Rightarrow> nat \<Rightarrow> (ctx \<Rightarrow> MemoryStore \<Rightarrow> commission_error + 'a) \<Rightarrow> MemoryStore
     \<Rightarrow> (commission_error + 'a) \<times> MemoryStore" where
  "answer w k op st = reads w k op st (\<lambda>x st'. (Inr x, st'))"

text \<open>The last call of a command writes the store.\<close>

definition writes ::
  "world \<Rightarrow> nat \<Rightarrow> (ctx \<Rightarrow> MemoryStore \<Rightarrow> (commission_error + 'a) \<times> MemoryStore) \<Rightarrow> MemoryStore
     \<Rightarrow> (commission_error + 'a) \<times> MemoryStore" where
  "writes w k op st = op (w_ctx w k) (w_other w k st)"

section \<open>Templates and programs\<close>

definition Service_CreateTemplate ::
  "Service option \<Rightarrow> world \<Rightarrow> Actor \<Rightarrow> Template \<Rightarrow> MemoryStore
     \<Rightarrow> (commission_error + unit) \<times> MemoryStore" where
  "Service_CreateTemplate sv w actor template st =
     guarded sv (authorizeHost sv w 0 actor PermissionManageTemplates []) st (\<lambda>service.
       let template = (if t_Status template = TemplateStatusOther []
                       then template\<lparr>t_Status := TemplateStatusDraft\<rparr> else template) in
       if t_Status template \<noteq> TemplateStatusDraft then fails ErrInvalidTemplate st
       else
         let template = (if IsZero (t_CreatedAt template)
                         then template\<lparr>t_CreatedAt := w_now w 0\<rparr> else template);
             template = (if IsZero (t_UpdatedAt template)
                         then template\<lparr>t_UpdatedAt := t_CreatedAt template\<rparr> else template)
         in on_ok (limits_validateTemplate (sv_limits service) template) st (\<lambda>_.
            writes w 2 (\<lambda>cx. Store_CreateTemplate cx template) st))"

definition Service_TransitionTemplate ::
  "Service option \<Rightarrow> world \<Rightarrow> Actor \<Rightarrow> string \<Rightarrow> int64 \<Rightarrow> TemplateAction \<Rightarrow> MemoryStore
     \<Rightarrow> (commission_error + Template) \<times> MemoryStore" where
  "Service_TransitionTemplate sv w actor tid version action st =
     guarded sv (authorizeHost sv w 0 actor PermissionManageTemplates []) st (\<lambda>service.
       if \<not> identifierOK (sv_limits service) tid then fails ErrLimitExceeded st
       else writes w 2 (\<lambda>cx. Store_TransitionTemplate cx tid version action (w_now w 0)) st)"

definition Service_CreateProgram ::
  "Service option \<Rightarrow> world \<Rightarrow> Actor \<Rightarrow> Program \<Rightarrow> MemoryStore
     \<Rightarrow> (commission_error + unit) \<times> MemoryStore" where
  "Service_CreateProgram sv w actor program st =
     guarded sv (authorize sv w 0 actor PermissionManagePrograms (p_TenantID program)) st (\<lambda>service.
     on_ok (limits_validateProgram (sv_limits service) program) st (\<lambda>_.
       let program = (if p_Status program = ProgramStatusOther []
                      then program\<lparr>p_Status := ProgramStatusDraft\<rparr> else program) in
       if p_Status program \<noteq> ProgramStatusDraft then fails ErrInvalidProgram st
       else let program = (if p_Version program = 0 then program\<lparr>p_Version := 1\<rparr> else program) in
       if p_Version program \<noteq> 1 then fails ErrInvalidProgram st
       else reads w 1 (\<lambda>cx. Store_GetTemplate cx (p_TemplateID program) (p_TemplateVersion program)) st
         (\<lambda>template st.
          on_ok (validateProgramAgainstTemplate program template) st (\<lambda>_.
          let program = (if IsZero (p_CreatedAt program)
                         then program\<lparr>p_CreatedAt := w_now w 0\<rparr> else program);
              program = (if IsZero (p_UpdatedAt program)
                         then program\<lparr>p_UpdatedAt := p_CreatedAt program\<rparr> else program)
          in writes w 2 (\<lambda>cx. Store_CreateProgram cx program) st))))"

definition Service_TransitionProgram ::
  "Service option \<Rightarrow> world \<Rightarrow> Actor \<Rightarrow> TenantID \<Rightarrow> string \<Rightarrow> int64 \<Rightarrow> ProgramAction \<Rightarrow> MemoryStore
     \<Rightarrow> (commission_error + Program) \<times> MemoryStore" where
  "Service_TransitionProgram sv w actor tenantID pid expectedVersion action st =
     guarded sv (if action = ProgramActionApprove
                 then authorizeHost sv w 0 actor PermissionApprovePrograms tenantID
                 else authorize sv w 0 actor PermissionManagePrograms tenantID) st (\<lambda>service.
       if \<not> identifierOK (sv_limits service) pid then fails ErrLimitExceeded st
       else writes w 2
              (\<lambda>cx. Store_TransitionProgram cx tenantID pid expectedVersion action (w_now w 0)) st)"

section \<open>Attributions\<close>

definition programHasSlot :: "Program \<Rightarrow> string \<Rightarrow> bool" where
  "programHasSlot program slot \<longleftrightarrow> list_ex (\<lambda>rule. r_Slot rule = slot) (p_Rules program)"

definition Service_SetAttribution ::
  "Service option \<Rightarrow> world \<Rightarrow> Actor \<Rightarrow> TenantID \<Rightarrow> Attribution \<Rightarrow> int64 \<Rightarrow> MemoryStore
     \<Rightarrow> (commission_error + Attribution) \<times> MemoryStore" where
  "Service_SetAttribution sv w actor tenantID attribution expectedVersion st =
     guarded sv (authorize sv w 0 actor PermissionManageAttributions tenantID) st (\<lambda>service.
       if a_TenantID attribution \<noteq> tenantID then fails ErrInvalidAttribution st
       else on_ok (limits_validateAttribution (sv_limits service) attribution) st (\<lambda>_.
       reads w 1 (\<lambda>cx. Store_GetProgram cx tenantID (a_ProgramID attribution)) st (\<lambda>program st.
       if \<not> programHasSlot program (a_Slot attribution) then fails ErrInvalidAttribution st
       else on_ok (validateAttribution attribution) st (\<lambda>_.
         let attribution = (if IsZero (a_CreatedAt attribution)
                            then attribution\<lparr>a_CreatedAt := w_now w 0\<rparr> else attribution);
             attribution = attribution\<lparr>a_UpdatedAt := w_now w 1\<rparr>
         in writes w 2 (\<lambda>cx. Store_SetAttribution cx attribution expectedVersion) st))))"

section \<open>Recording events\<close>

text \<open>The beneficiary of a slot with an active attribution is the attributed one.\<close>

definition activeBySlot :: "Attribution list \<Rightarrow> (string, Attribution) gomap" where
  "activeBySlot attributions =
     fold (\<lambda>attribution bySlot. if a_Active attribution
              then AList.update (a_Slot attribution) attribution bySlot else bySlot)
       attributions []"

definition effectiveTemplate :: "Template \<Rightarrow> Program \<Rightarrow> Attribution list \<Rightarrow> Template" where
  "effectiveTemplate template program attributions =
     (let bySlot = activeBySlot attributions in
      template\<lparr>t_Rules := map (\<lambda>rule.
        case map_of bySlot (r_Slot rule) of
          None \<Rightarrow> rule
        | Some attribution \<Rightarrow> rule\<lparr>r_Beneficiary := a_Beneficiary attribution\<rparr>)
        (p_Rules program)\<rparr>)"

definition attributionVersions :: "Program \<Rightarrow> Attribution list \<Rightarrow> (string, int64) gomap" where
  "attributionVersions program attributions =
     (let versions = fold (\<lambda>rule. AList.update (r_Slot rule) 0) (p_Rules program) []
      in fold (\<lambda>attribution versions.
                if map_of versions (a_Slot attribution) \<noteq> None
                then AList.update (a_Slot attribution) (a_Version attribution) versions
                else versions) attributions versions)"

definition entryStatus :: "CommissionEvent \<Rightarrow> Template \<Rightarrow> Time \<Rightarrow> EarningStatus" where
  "entryStatus event template now =
     (if \<not> ev_OccurredAt event + t_FreezePeriod template > now then EarningStatusAvailable
      else EarningStatusPending)"

definition eventEarning ::
  "digests \<Rightarrow> CommissionEvent \<Rightarrow> Program \<Rightarrow> Template \<Rightarrow> Time \<Rightarrow> Calculation \<Rightarrow> Earning" where
  "eventEarning D event program template now calculation =
     \<lparr>e_ID = earningID D event (p_ID program) (calc_Slot calculation) (calc_Beneficiary calculation),
      e_TenantID = ev_TenantID event, e_ProgramID = p_ID program, e_TemplateID = t_ID template,
      e_TemplateVersion = t_Version template, e_SourceType = ev_SourceType event,
      e_SourceID = ev_SourceID event, e_Slot = calc_Slot calculation,
      e_Beneficiary = calc_Beneficiary calculation, e_Amount = calc_Amount calculation,
      e_Status = entryStatus event template now,
      e_AvailableAt = ev_OccurredAt event + t_FreezePeriod template, e_Version = 1,
      e_CreatedAt = now, e_UpdatedAt = now\<rparr>"

definition eventJournals :: "digests \<Rightarrow> Time \<Rightarrow> Earning \<Rightarrow> JournalEntry list" where
  "eventJournals D now earning =
     (let journal = (\<lambda>kind. \<lparr>j_ID = journalID D (e_ID earning) kind (e_Version earning),
            j_TenantID = e_TenantID earning, j_EarningID = e_ID earning, j_Kind = kind,
            j_Amount = e_Amount earning, j_CreatedAt = now\<rparr>)
      in journal JournalKindAccrual #
         (if e_Status earning = EarningStatusAvailable then [journal JournalKindAvailable] else []))"

definition eventOutbox :: "digests \<Rightarrow> Program \<Rightarrow> Time \<Rightarrow> Earning \<Rightarrow> OutboxEvent" where
  "eventOutbox D program now earning =
     (let status = earningStatusString (e_Status earning) in
      \<lparr>o_ID = outboxID D (e_TenantID earning) (e_ID earning) status (e_Version earning),
       o_TenantID = e_TenantID earning, o_Type = ''commission.earning.'' @ status,
       o_AggregateID = e_ID earning,
       o_Payload = [(''earning_id'', e_ID earning), (''program_id'', p_ID program),
                    (''status'', status), (''currency'', Currency (e_Amount earning))],
       o_CreatedAt = now, o_PublishedAt = None\<rparr>)"

definition buildEventEntries ::
  "digests \<Rightarrow> CommissionEvent \<Rightarrow> Program \<Rightarrow> Template \<Rightarrow> Calculation list \<Rightarrow> Time
     \<Rightarrow> Earning list \<times> JournalEntry list \<times> OutboxEvent list" where
  "buildEventEntries D event program template calculations now =
     (let earnings = map (eventEarning D event program template now) calculations
      in (earnings, concat (map (eventJournals D now) earnings),
          map (eventOutbox D program now) earnings))"

definition eventCommit ::
  "digests \<Rightarrow> CommissionEvent \<Rightarrow> Program \<Rightarrow> Template \<Rightarrow> Attribution list \<Rightarrow> Calculation list
     \<Rightarrow> Time \<Rightarrow> EventCommit" where
  "eventCommit D event program template attributions calculations now =
     (case buildEventEntries D event program template calculations now of
        (earnings, journals, outbox) \<Rightarrow>
          \<lparr>c_Event = event, c_ProgramID = p_ID program, c_ProgramVersion = p_Version program,
           c_TemplateID = t_ID template, c_TemplateVersion = t_Version template,
           c_AttributionVersions = Some (attributionVersions program attributions),
           c_Earnings = earnings, c_Journals = journals, c_Outbox = outbox\<rparr>)"

definition Service_RecordEvent ::
  "digests \<Rightarrow> Service option \<Rightarrow> world \<Rightarrow> Actor \<Rightarrow> string \<Rightarrow> CommissionEvent \<Rightarrow> MemoryStore
     \<Rightarrow> (commission_error + Earning list) \<times> MemoryStore" where
  "Service_RecordEvent D sv w actor programID event st =
     guarded sv (authorizeHost sv w 0 actor PermissionRecordEvents (ev_TenantID event)) st (\<lambda>service.
       if \<not> identifierOK (sv_limits service) programID then fails ErrLimitExceeded st
       else on_ok (validateCommissionEvent event) st (\<lambda>_.
       on_ok (limits_validateEvent (sv_limits service) event) st (\<lambda>_.
       reads w 2 (\<lambda>cx. Store_GetProgram cx (ev_TenantID event) programID) st (\<lambda>program st.
       if p_Status program \<noteq> ProgramStatusActive then fails ErrProgramNotActive st
       else reads w 3 (\<lambda>cx. Store_GetTemplate cx (p_TemplateID program) (p_TemplateVersion program)) st
         (\<lambda>template st.
       if t_Status template \<noteq> TemplateStatusActive then fails ErrTemplateNotActive st
       else reads w 4 (\<lambda>cx. Store_ListAttributions cx (ev_TenantID event) (p_ID program)) st
         (\<lambda>attributions st.
       on_ok (Calculate (effectiveTemplate template program attributions) event) st (\<lambda>calculations.
       writes w 5 (\<lambda>cx. Store_CommitEvent D cx
         (eventCommit D event program template attributions calculations (w_now w 0))) st)))))))"

section \<open>Earnings\<close>

definition Service_MakeAvailableDue ::
  "digests \<Rightarrow> Service option \<Rightarrow> world \<Rightarrow> Actor \<Rightarrow> MemoryStore
     \<Rightarrow> (commission_error + Earning list) \<times> MemoryStore" where
  "Service_MakeAvailableDue D sv w actor st =
     guarded sv (authorizeHost sv w 0 actor PermissionManageEarnings []) st (\<lambda>service.
       writes w 2 (\<lambda>cx. Store_MakeAvailableDue D cx (w_now w 0) (MaxDueBatch (sv_limits service))) st)"

definition Service_TransitionEarning ::
  "digests \<Rightarrow> Service option \<Rightarrow> world \<Rightarrow> Actor \<Rightarrow> TenantID \<Rightarrow> string \<Rightarrow> int64 \<Rightarrow> EarningAction
     \<Rightarrow> MemoryStore \<Rightarrow> (commission_error + Earning) \<times> MemoryStore" where
  "Service_TransitionEarning D sv w actor tenantID eid expectedVersion action st =
     guarded sv (authorize sv w 0 actor PermissionManageEarnings tenantID) st (\<lambda>service.
       if \<not> identifierOK (sv_limits service) eid then fails ErrLimitExceeded st
       else if action = EarningActionMakeAvailable then fails ErrInvalidEarningTransition st
       else writes w 1
              (\<lambda>cx. Store_TransitionEarning D cx tenantID eid expectedVersion action (w_now w 0)) st)"

definition Service_GetEarning ::
  "Service option \<Rightarrow> world \<Rightarrow> Actor \<Rightarrow> TenantID \<Rightarrow> string \<Rightarrow> MemoryStore
     \<Rightarrow> (commission_error + Earning \<times> EarningAction list) \<times> MemoryStore" where
  "Service_GetEarning sv w actor tenantID eid st =
     guarded sv (authorize sv w 0 actor PermissionRead tenantID) st (\<lambda>service.
       if \<not> identifierOK (sv_limits service) eid then fails ErrLimitExceeded st
       else reads w 1 (\<lambda>cx. Store_GetEarning cx tenantID eid) st (\<lambda>earning st.
              (Inr (earning, AvailableManualEarningActions (e_Status earning)), st)))"

definition Service_ListEarnings ::
  "Service option \<Rightarrow> world \<Rightarrow> Actor \<Rightarrow> TenantID \<Rightarrow> EarningFilter \<Rightarrow> MemoryStore
     \<Rightarrow> (commission_error + Earning list) \<times> MemoryStore" where
  "Service_ListEarnings sv w actor tenantID filt st =
     guarded sv (authorize sv w 0 actor PermissionRead tenantID) st (\<lambda>service.
     on_ok (normalizeEarningFilter (sv_limits service) filt) st (\<lambda>normalized.
       answer w 1 (\<lambda>cx. Store_ListEarnings cx tenantID normalized) st))"

definition Service_ListJournalEntries ::
  "Service option \<Rightarrow> world \<Rightarrow> Actor \<Rightarrow> TenantID \<Rightarrow> string \<Rightarrow> MemoryStore
     \<Rightarrow> (commission_error + JournalEntry list) \<times> MemoryStore" where
  "Service_ListJournalEntries sv w actor tenantID eid st =
     guarded sv (authorize sv w 0 actor PermissionRead tenantID) st (\<lambda>service.
       if \<not> identifierOK (sv_limits service) eid then fails ErrLimitExceeded st
       else answer w 1 (\<lambda>cx. Store_ListJournalEntries cx tenantID eid) st)"

section \<open>Settlements\<close>

text \<open>The first loop of \<open>StartSettlement\<close>: the earnings, each read at its own moment.\<close>

fun collectEarnings ::
  "Service \<Rightarrow> world \<Rightarrow> nat \<Rightarrow> TenantID \<Rightarrow> string list \<Rightarrow> string list \<Rightarrow> MemoryStore
     \<Rightarrow> (commission_error + Earning list) \<times> MemoryStore" where
  "collectEarnings service w k tenantID seen [] st = (Inr [], st)"
| "collectEarnings service w k tenantID seen (eid # ids) st =
     (if eid = [] then fails ErrInvalidSettlement st
      else if \<not> identifierOK (sv_limits service) eid then fails ErrLimitExceeded st
      else if eid \<in> set seen then fails ErrInvalidSettlement st
      else let st' = w_other w k st in
        case Store_GetEarning (w_ctx w k) tenantID eid st' of
          Inl e \<Rightarrow> (Inl e, st')
        | Inr earning \<Rightarrow>
            if e_Status earning \<noteq> EarningStatusAvailable then fails ErrInvalidSettlement st'
            else case collectEarnings service w (k + 1) tenantID (eid # seen) ids st' of
              (Inl e, st'') \<Rightarrow> (Inl e, st'')
            | (Inr earnings, st'') \<Rightarrow> (Inr (earning # earnings), st''))"

text \<open>The second loop: one beneficiary, one currency, and the sum.\<close>

fun settlementAmount ::
  "BeneficiaryRef \<Rightarrow> Amount \<Rightarrow> Earning list \<Rightarrow> commission_error + Amount" where
  "settlementAmount beneficiary amount [] = Inr amount"
| "settlementAmount beneficiary amount (earning # earnings) =
     (if e_Beneficiary earning \<noteq> beneficiary \<or> Currency (e_Amount earning) \<noteq> Currency amount
      then Inl ErrInvalidSettlement
      else if Minor (e_Amount earning) > sub64 MaxInt64 (Minor amount) then Inl ErrInvalidSettlement
      else settlementAmount beneficiary
             (amount\<lparr>Minor := add64 (Minor amount) (Minor (e_Amount earning))\<rparr>) earnings)"

definition newSettlement ::
  "TenantID \<Rightarrow> string \<Rightarrow> BeneficiaryRef \<Rightarrow> Amount \<Rightarrow> string list \<Rightarrow> Time \<Rightarrow> Settlement" where
  "newSettlement tenantID sid beneficiary amount earningIDs now =
     \<lparr>s_ID = sid, s_TenantID = tenantID, s_Beneficiary = beneficiary, s_Amount = amount,
      s_EarningIDs = earningIDs, s_Status = SettlementStatusSubmitted, s_ProviderReference = [],
      s_Version = 1, s_CreatedAt = now, s_UpdatedAt = now\<rparr>"

definition Service_StartSettlement ::
  "digests \<Rightarrow> Service option \<Rightarrow> world \<Rightarrow> nat \<Rightarrow> Actor \<Rightarrow> TenantID \<Rightarrow> string \<Rightarrow> string list
     \<Rightarrow> MemoryStore \<Rightarrow> (commission_error + Settlement) \<times> MemoryStore" where
  "Service_StartSettlement D sv w k actor tenantID sid earningIDs st =
     guarded sv (authorize sv w k actor PermissionSettle tenantID) st (\<lambda>service.
       if sid = [] \<or> length earningIDs = 0 then fails ErrInvalidSettlement st
       else if \<not> identifierOK (sv_limits service) sid
               \<or> int (length earningIDs) > MaxSettlementItems (sv_limits service)
       then fails ErrLimitExceeded st
       else case collectEarnings service w (k + 1) tenantID [] earningIDs st of
         (Inl e, st) \<Rightarrow> (Inl e, st)
       | (Inr earnings, st) \<Rightarrow>
           let beneficiary = e_Beneficiary (hd earnings);
               currency = Currency (e_Amount (hd earnings))
           in on_ok (settlementAmount beneficiary \<lparr>Currency = currency, Minor = 0\<rparr> earnings) st
                (\<lambda>amount.
              writes w (k + 1 + length earningIDs)
                (\<lambda>cx. Store_StartSettlement D cx
                   (newSettlement tenantID sid beneficiary amount earningIDs (w_now w k))
                   (zip earningIDs (map e_Version earnings))) st))"

definition Service_CompleteSettlement ::
  "digests \<Rightarrow> Service option \<Rightarrow> world \<Rightarrow> nat \<Rightarrow> Actor \<Rightarrow> TenantID \<Rightarrow> string \<Rightarrow> int64 \<Rightarrow> bool
     \<Rightarrow> string \<Rightarrow> MemoryStore \<Rightarrow> (commission_error + Settlement) \<times> MemoryStore" where
  "Service_CompleteSettlement D sv w k actor tenantID sid expectedVersion settled providerReference st =
     guarded sv (authorizeHost sv w k actor PermissionCompleteSettlement tenantID) st (\<lambda>service.
       if \<not> identifierOK (sv_limits service) sid then fails ErrLimitExceeded st
       else if settled \<and> providerReference = [] then fails ErrInvalidSettlementReceipt st
       else if providerReference \<noteq> [] \<and> \<not> identifierOK (sv_limits service) providerReference
       then fails ErrLimitExceeded st
       else writes w (k + 2) (\<lambda>cx. Store_FinishSettlement D cx tenantID sid expectedVersion settled
              providerReference (w_now w k)) st)"

text \<open>What an error of \<open>Settle\<close> returns beside it.\<close>

definition zeroSettlement :: Settlement where
  "zeroSettlement = \<lparr>s_ID = [], s_TenantID = [],
     s_Beneficiary = \<lparr>b_Kind = kindUnset, b_ID = []\<rparr>, s_Amount = zeroAmount, s_EarningIDs = [],
     s_Status = SettlementStatusOther [], s_ProviderReference = [], s_Version = 0,
     s_CreatedAt = 0, s_UpdatedAt = 0\<rparr>"

definition settlementAnswer ::
  "(commission_error + Settlement) \<times> MemoryStore
     \<Rightarrow> (Settlement \<times> commission_error option) \<times> MemoryStore" where
  "settlementAnswer r = (case r of
     (Inl e, st) \<Rightarrow> ((zeroSettlement, Some e), st) | (Inr s, st) \<Rightarrow> ((s, None), st))"

text \<open>
  \<open>Settle\<close> returns a settlement and an error together. Moments 0 and 1 authorize it, 2 and
  the following ones belong to \<open>StartSettlement\<close>, and the completion starts after those.
\<close>

definition Service_Settle ::
  "digests \<Rightarrow> Service option \<Rightarrow> world \<Rightarrow> Actor \<Rightarrow> TenantID \<Rightarrow> string \<Rightarrow> string list \<Rightarrow> MemoryStore
     \<Rightarrow> (Settlement \<times> commission_error option) \<times> MemoryStore" where
  "Service_Settle D sv w actor tenantID sid earningIDs st =
     (case sv of
        None \<Rightarrow> ((zeroSettlement, Some ErrSettlementAdapterNotConfigured), st)
      | Some service \<Rightarrow>
     (case authorizeHost sv w 0 actor PermissionCompleteSettlement tenantID of
        Inl e \<Rightarrow> ((zeroSettlement, Some e), st)
      | Inr _ \<Rightarrow>
     (case sv_adapter service of
        None \<Rightarrow> ((zeroSettlement, Some ErrSettlementAdapterNotConfigured), st)
      | Some submit \<Rightarrow>
     (case Service_StartSettlement D sv w 2 actor tenantID sid earningIDs st of
        (Inl e, st) \<Rightarrow> ((zeroSettlement, Some e), st)
      | (Inr settlement, st) \<Rightarrow>
        let complete = (\<lambda>settled reference. Service_CompleteSettlement D sv w (length earningIDs + 4)
                          actor tenantID (s_ID settlement) (s_Version settlement) settled reference st);
            reference = rc_ProviderReference (fst (submit settlement))
        in case snd (submit settlement) of
          Some err \<Rightarrow>
            if se_rejected err then
              (case complete False reference of
                 (Inl e, st') \<Rightarrow>
                   ((zeroSettlement, Some (ErrJoin (ErrAdapter True (se_text err)) e)), st')
               | (Inr completed, st') \<Rightarrow> ((completed, Some (ErrAdapter True (se_text err))), st'))
            else ((settlement, Some (ErrAdapter False (se_text err))), st)
        | None \<Rightarrow>
            if \<not> validSettlementSubmissionStatus (rc_Status (fst (submit settlement)))
            then ((settlement, Some ErrInvalidSettlementReceipt), st)
            else (case rc_Status (fst (submit settlement)) of
                SettlementSubmissionPending \<Rightarrow>
                  if \<not> identifierOK (sv_limits service) reference
                  then ((settlement, Some ErrInvalidSettlementReceipt), st)
                  else ((settlement, None), st)
              | SettlementSubmissionSettled \<Rightarrow>
                  if \<not> identifierOK (sv_limits service) reference
                  then ((settlement, Some ErrInvalidSettlementReceipt), st)
                  else settlementAnswer (complete True reference)
              | SettlementSubmissionRejected \<Rightarrow>
                  if reference \<noteq> [] \<and> \<not> identifierOK (sv_limits service) reference
                  then ((settlement, Some ErrLimitExceeded), st)
                  else settlementAnswer (complete False reference)
              | SettlementSubmissionOther _ \<Rightarrow> ((settlement, Some ErrInvalidSettlementReceipt), st))))))"

definition Service_GetSettlement ::
  "Service option \<Rightarrow> world \<Rightarrow> Actor \<Rightarrow> TenantID \<Rightarrow> string \<Rightarrow> MemoryStore
     \<Rightarrow> (commission_error + Settlement) \<times> MemoryStore" where
  "Service_GetSettlement sv w actor tenantID sid st =
     guarded sv (authorize sv w 0 actor PermissionRead tenantID) st (\<lambda>service.
       if \<not> identifierOK (sv_limits service) sid then fails ErrLimitExceeded st
       else answer w 1 (\<lambda>cx. Store_GetSettlement cx tenantID sid) st)"

section \<open>Outbox\<close>

definition Service_ListOutbox ::
  "Service option \<Rightarrow> world \<Rightarrow> Actor \<Rightarrow> TenantID \<Rightarrow> OutboxFilter \<Rightarrow> MemoryStore
     \<Rightarrow> (commission_error + OutboxEvent list) \<times> MemoryStore" where
  "Service_ListOutbox sv w actor tenantID filt st =
     guarded sv (authorizeHost sv w 0 actor PermissionDeliverOutbox tenantID) st (\<lambda>service.
     on_ok (normalizeOutboxFilter (sv_limits service) filt) st (\<lambda>normalized.
       answer w 2 (\<lambda>cx. Store_ListOutbox cx tenantID normalized) st))"

definition Service_MarkOutboxPublished ::
  "Service option \<Rightarrow> world \<Rightarrow> Actor \<Rightarrow> TenantID \<Rightarrow> string \<Rightarrow> Time \<Rightarrow> MemoryStore
     \<Rightarrow> (commission_error + unit) \<times> MemoryStore" where
  "Service_MarkOutboxPublished sv w actor tenantID oid publishedAt st =
     guarded sv (authorizeHost sv w 0 actor PermissionDeliverOutbox tenantID) st (\<lambda>service.
       if \<not> identifierOK (sv_limits service) oid then fails ErrLimitExceeded st
       else let publishedAt = (if IsZero publishedAt then w_now w 0 else publishedAt)
            in writes w 2 (\<lambda>cx. Store_MarkOutboxPublished cx tenantID oid publishedAt) st)"

end
