(* ===== verification/Commission_Boundary.thy ===== *)
theory Commission_Boundary
  imports Commission_Guarantees Commission_Service
begin

text \<open>
  What the service adds to the store: no command runs without permission, and every
  command, run among any other users of the store, is a sequence of store operations, so
  what holds in every reachable store holds behind the service too.
\<close>

section \<open>Permission\<close>

definition allowed :: "Service option \<Rightarrow> Actor \<Rightarrow> Permission \<Rightarrow> TenantID \<Rightarrow> bool" where
  "allowed sv actor permission tenantID \<longleftrightarrow>
     (\<exists>service f k. sv = Some service \<and> sv_authorizer service = Some f
        \<and> f k actor permission tenantID = None
        \<and> (ac_Host actor \<or> tenantID \<noteq> [] \<and> ac_ID actor \<noteq> [] \<and> ac_TenantID actor = tenantID))"

lemma authorize_allowed: "authorize sv w k actor p t = Inr u \<Longrightarrow> allowed sv actor p t"
  by (auto simp: authorize_def allowed_def ok_simps split: option.splits if_splits)

lemma authorizeHost_allowed:
  "authorizeHost sv w k actor p t = Inr u \<Longrightarrow> ac_Host actor \<and> allowed sv actor p t"
  by (auto simp: authorizeHost_def ok_simps dest: authorize_allowed split: option.splits if_splits)

lemma guarded_denied:
  "(\<And>u. auth = Inr u \<Longrightarrow> P) \<Longrightarrow> \<not> P \<Longrightarrow> \<exists>e. guarded sv auth st k = (Inl e, st)"
  by (cases auth) (auto simp: guarded_def)

lemma commands_fail_closed_each:
  shows "\<not> (ac_Host actor \<and> allowed sv actor PermissionManageTemplates []) \<Longrightarrow>
           \<exists>e. Service_CreateTemplate sv w actor template st = (Inl e, st)"
    and "\<not> (ac_Host actor \<and> allowed sv actor PermissionManageTemplates []) \<Longrightarrow>
           \<exists>e. Service_TransitionTemplate sv w actor tid v ta st = (Inl e, st)"
    and "\<not> allowed sv actor PermissionManagePrograms (p_TenantID program) \<Longrightarrow>
           \<exists>e. Service_CreateProgram sv w actor program st = (Inl e, st)"
    and "\<not> (ac_Host actor \<and> allowed sv actor PermissionApprovePrograms tn) \<Longrightarrow>
           \<exists>e. Service_TransitionProgram sv w actor tn pid v ProgramActionApprove st = (Inl e, st)"
    and "pa \<noteq> ProgramActionApprove \<Longrightarrow> \<not> allowed sv actor PermissionManagePrograms tn \<Longrightarrow>
           \<exists>e. Service_TransitionProgram sv w actor tn pid v pa st = (Inl e, st)"
    and "\<not> allowed sv actor PermissionManageAttributions tn \<Longrightarrow>
           \<exists>e. Service_SetAttribution sv w actor tn attribution v st = (Inl e, st)"
    and "\<not> (ac_Host actor \<and> allowed sv actor PermissionRecordEvents (ev_TenantID event)) \<Longrightarrow>
           \<exists>e. Service_RecordEvent D sv w actor pid event st = (Inl e, st)"
    and "\<not> (ac_Host actor \<and> allowed sv actor PermissionManageEarnings []) \<Longrightarrow>
           \<exists>e. Service_MakeAvailableDue D sv w actor st = (Inl e, st)"
    and "\<not> allowed sv actor PermissionManageEarnings tn \<Longrightarrow>
           \<exists>e. Service_TransitionEarning D sv w actor tn eid v ea st = (Inl e, st)"
    and "\<not> allowed sv actor PermissionRead tn \<Longrightarrow>
           \<exists>e. Service_GetEarning sv w actor tn eid st = (Inl e, st)"
    and "\<not> allowed sv actor PermissionRead tn \<Longrightarrow>
           \<exists>e. Service_ListEarnings sv w actor tn filt st = (Inl e, st)"
    and "\<not> allowed sv actor PermissionRead tn \<Longrightarrow>
           \<exists>e. Service_ListJournalEntries sv w actor tn eid st = (Inl e, st)"
    and "\<not> allowed sv actor PermissionSettle tn \<Longrightarrow>
           \<exists>e. Service_StartSettlement D sv w k actor tn sid ids st = (Inl e, st)"
    and "\<not> (ac_Host actor \<and> allowed sv actor PermissionCompleteSettlement tn) \<Longrightarrow>
           \<exists>e. Service_CompleteSettlement D sv w k actor tn sid v settled ref st = (Inl e, st)"
    and "\<not> (ac_Host actor \<and> allowed sv actor PermissionCompleteSettlement tn) \<Longrightarrow>
           \<exists>e. Service_Settle D sv w actor tn sid ids st = ((zeroSettlement, Some e), st)"
    and "\<not> allowed sv actor PermissionRead tn \<Longrightarrow>
           \<exists>e. Service_GetSettlement sv w actor tn sid st = (Inl e, st)"
    and "\<not> (ac_Host actor \<and> allowed sv actor PermissionDeliverOutbox tn) \<Longrightarrow>
           \<exists>e. Service_ListOutbox sv w actor tn ofilt st = (Inl e, st)"
    and "\<not> (ac_Host actor \<and> allowed sv actor PermissionDeliverOutbox tn) \<Longrightarrow>
           \<exists>e. Service_MarkOutboxPublished sv w actor tn oid at st = (Inl e, st)"
proof -
  show "\<not> (ac_Host actor \<and> allowed sv actor PermissionCompleteSettlement tn) \<Longrightarrow>
      \<exists>e. Service_Settle D sv w actor tn sid ids st = ((zeroSettlement, Some e), st)"
    using authorizeHost_allowed [of sv w 0 actor PermissionCompleteSettlement tn]
    by (cases "authorizeHost sv w 0 actor PermissionCompleteSettlement tn")
       (auto simp: Service_Settle_def split: option.splits)
qed (unfold Service_CreateTemplate_def Service_TransitionTemplate_def Service_CreateProgram_def
      Service_TransitionProgram_def Service_SetAttribution_def Service_RecordEvent_def
      Service_MakeAvailableDue_def Service_TransitionEarning_def Service_GetEarning_def
      Service_ListEarnings_def Service_ListJournalEntries_def Service_StartSettlement_def
      Service_CompleteSettlement_def Service_GetSettlement_def Service_ListOutbox_def
      Service_MarkOutboxPublished_def,
    (rule guarded_denied; use authorize_allowed authorizeHost_allowed in \<open>force split: if_splits\<close>)+)

text \<open>
  The service fails closed. A command of a tenant runs only for an actor that the
  configured authorizer allowed for exactly that permission and tenant and that is the host
  or a named member of the tenant, and a host command only for the host as well; otherwise
  (in particular with no service or no authorizer) it returns an error and the store is
  untouched.
\<close>

theorem commands_fail_closed:
  shows "(\<not> (ac_Host actor \<and> allowed sv actor PermissionManageTemplates []) \<longrightarrow>
           (\<exists>e. Service_CreateTemplate sv w actor template st = (Inl e, st)))
    \<and> (\<not> (ac_Host actor \<and> allowed sv actor PermissionManageTemplates []) \<longrightarrow>
           (\<exists>e. Service_TransitionTemplate sv w actor tid v ta st = (Inl e, st)))
    \<and> (\<not> allowed sv actor PermissionManagePrograms (p_TenantID program) \<longrightarrow>
           (\<exists>e. Service_CreateProgram sv w actor program st = (Inl e, st)))
    \<and> (\<not> (ac_Host actor \<and> allowed sv actor PermissionApprovePrograms tn) \<longrightarrow>
           (\<exists>e. Service_TransitionProgram sv w actor tn pid v ProgramActionApprove st = (Inl e, st)))
    \<and> (pa \<noteq> ProgramActionApprove \<longrightarrow> \<not> allowed sv actor PermissionManagePrograms tn \<longrightarrow>
           (\<exists>e. Service_TransitionProgram sv w actor tn pid v pa st = (Inl e, st)))
    \<and> (\<not> allowed sv actor PermissionManageAttributions tn \<longrightarrow>
           (\<exists>e. Service_SetAttribution sv w actor tn attribution v st = (Inl e, st)))
    \<and> (\<not> (ac_Host actor \<and> allowed sv actor PermissionRecordEvents (ev_TenantID event)) \<longrightarrow>
           (\<exists>e. Service_RecordEvent D sv w actor pid event st = (Inl e, st)))
    \<and> (\<not> (ac_Host actor \<and> allowed sv actor PermissionManageEarnings []) \<longrightarrow>
           (\<exists>e. Service_MakeAvailableDue D sv w actor st = (Inl e, st)))
    \<and> (\<not> allowed sv actor PermissionManageEarnings tn \<longrightarrow>
           (\<exists>e. Service_TransitionEarning D sv w actor tn eid v ea st = (Inl e, st)))
    \<and> (\<not> allowed sv actor PermissionRead tn \<longrightarrow>
           (\<exists>e. Service_GetEarning sv w actor tn eid st = (Inl e, st)))
    \<and> (\<not> allowed sv actor PermissionRead tn \<longrightarrow>
           (\<exists>e. Service_ListEarnings sv w actor tn filt st = (Inl e, st)))
    \<and> (\<not> allowed sv actor PermissionRead tn \<longrightarrow>
           (\<exists>e. Service_ListJournalEntries sv w actor tn eid st = (Inl e, st)))
    \<and> (\<not> allowed sv actor PermissionSettle tn \<longrightarrow>
           (\<exists>e. Service_StartSettlement D sv w k actor tn sid ids st = (Inl e, st)))
    \<and> (\<not> (ac_Host actor \<and> allowed sv actor PermissionCompleteSettlement tn) \<longrightarrow>
           (\<exists>e. Service_CompleteSettlement D sv w k actor tn sid v settled ref st = (Inl e, st)))
    \<and> (\<not> (ac_Host actor \<and> allowed sv actor PermissionCompleteSettlement tn) \<longrightarrow>
           (\<exists>e. Service_Settle D sv w actor tn sid ids st = ((zeroSettlement, Some e), st)))
    \<and> (\<not> allowed sv actor PermissionRead tn \<longrightarrow>
           (\<exists>e. Service_GetSettlement sv w actor tn sid st = (Inl e, st)))
    \<and> (\<not> (ac_Host actor \<and> allowed sv actor PermissionDeliverOutbox tn) \<longrightarrow>
           (\<exists>e. Service_ListOutbox sv w actor tn ofilt st = (Inl e, st)))
    \<and> (\<not> (ac_Host actor \<and> allowed sv actor PermissionDeliverOutbox tn) \<longrightarrow>
           (\<exists>e. Service_MarkOutboxPublished sv w actor tn oid at st = (Inl e, st)))"
  by (intro conjI impI; rule commands_fail_closed_each; assumption?)

lemma commands_fail_closed_witness:
  "\<exists>e. Service_RecordEvent plainDigests (Some (NewService False []))
         \<lparr>w_ctx = \<lambda>_. None, w_now = \<lambda>_. 50, w_other = \<lambda>_ s. s\<rparr>
         \<lparr>ac_ID = ''root'', ac_TenantID = ''t1'', ac_Host = True\<rparr> ''p1'' sampleEvent store4 = (Inl e, store4)"
proof -
  show ?thesis
    by (rule commands_fail_closed [THEN conjunct2, THEN conjunct2, THEN conjunct2, THEN conjunct2, THEN conjunct2, THEN conjunct2, THEN conjunct1, THEN mp]) (simp add: allowed_def NewService_def)
qed

section \<open>A command is a run of the store\<close>

text \<open>The other users of the store use it through its operations too.\<close>

definition storeWorld :: "digests \<Rightarrow> world \<Rightarrow> bool" where
  "storeWorld D w \<longleftrightarrow> (\<forall>k st. store_reach D st (w_other w k st))"

definition runs :: "digests \<Rightarrow> MemoryStore \<Rightarrow> 'a \<times> MemoryStore \<Rightarrow> bool" where
  "runs D st r \<longleftrightarrow> store_reach D st (snd r)"

named_theorems runs_intro "a command is a run of the store"

lemma runs_stay [runs_intro]: "runs D st (x, st)"
  by (simp add: runs_def store_reach.init)

lemma runs_on_ok [runs_intro]: "(\<And>x. r = Inr x \<Longrightarrow> runs D st (f x)) \<Longrightarrow> runs D st (on_ok r st f)"
  by (cases r) (auto simp: runs_def store_reach.init)

lemma runs_guarded [runs_intro]:
  "(\<And>service. runs D st (f service)) \<Longrightarrow> runs D st (guarded sv auth st f)"
  unfolding guarded_def by (rule runs_on_ok) (auto simp: runs_stay split: option.splits)

lemma runs_trans: "store_reach D st st1 \<Longrightarrow> runs D st1 r \<Longrightarrow> runs D st r"
  unfolding runs_def by (rule store_reach_trans)

lemma runs_reads [runs_intro]:
  assumes "storeWorld D w" "\<And>x st'. runs D st' (f x st')"
  shows "runs D st (reads w k op st f)"
proof -
  have "store_reach D st (w_other w k st)" using assms(1) by (simp add: storeWorld_def)
  then show ?thesis
    unfolding reads_def Let_def by (rule runs_trans) (rule runs_on_ok, rule assms(2))
qed

lemma runs_answer [runs_intro]: "storeWorld D w \<Longrightarrow> runs D st (answer w k op st)"
  unfolding answer_def by (rule runs_reads) (auto simp: runs_stay)

lemma runs_writes [runs_intro]:
  assumes "storeWorld D w" "\<And>cx st. store_step D st (snd (op cx st))"
  shows "runs D st (writes w k op st)"
  unfolding writes_def runs_def
  using assms store_reach.step unfolding storeWorld_def by blast

lemma runs_if [runs_intro]:
  "(b \<Longrightarrow> runs D st r) \<Longrightarrow> (\<not> b \<Longrightarrow> runs D st r') \<Longrightarrow> runs D st (if b then r else r')"
  by simp

lemmas store_steps = store_step.intros [OF prod.collapse [symmetric]]

lemma eventCommit_fresh: "freshCommit (eventCommit D ev p t as cs now)"
  by (auto simp: freshCommit_def eventCommit_def buildEventEntries_def Let_def eventEarning_def
      entryStatus_def)

lemma runs_collect:
  assumes "storeWorld D w"
  shows "store_reach D st (snd (collectEarnings service w k tn seen ids st))"
proof (induction ids arbitrary: k seen st)
  case Nil
  then show ?case by (simp add: store_reach.init)
next
  case (Cons i ids)
  have "store_reach D st (w_other w k st)" using assms by (simp add: storeWorld_def)
  moreover have "store_reach D st (snd (collectEarnings service w (k + 1) tn (i # seen) ids (w_other w k st)))"
    using Cons store_reach_trans calculation by blast
  ultimately show ?case
    by (auto simp: Let_def store_reach.init split: sum.splits prod.splits)
qed

lemma runs_StartSettlement:
  assumes w: "storeWorld D w"
  shows "runs D st (Service_StartSettlement D sv w k actor tn sid ids st)"
  unfolding Service_StartSettlement_def
proof (intro runs_guarded runs_if runs_stay)
  fix service :: Service
  obtain r st1 where c: "collectEarnings service w (k + 1) tn [] ids st = (r, st1)" by fastforce
  have reach: "store_reach D st st1"
    using runs_collect [OF w, of st service "k + 1" tn "[]" ids] c by simp
  show "runs D st (case collectEarnings service w (k + 1) tn [] ids st of
      (Inl e, st) \<Rightarrow> (Inl e, st)
    | (Inr earnings, st) \<Rightarrow>
        let beneficiary = e_Beneficiary (hd earnings); currency = Currency (e_Amount (hd earnings))
        in on_ok (settlementAmount beneficiary \<lparr>Currency = currency, Minor = 0\<rparr> earnings) st
             (\<lambda>amount. writes w (k + 1 + length ids)
                (\<lambda>cx. Store_StartSettlement D cx
                   (newSettlement tn sid beneficiary amount ids (w_now w k))
                   (zip ids (map e_Version earnings))) st))"
    unfolding c Let_def
    by (cases r) (auto intro!: runs_trans [OF reach] runs_on_ok runs_writes w runs_stay store_steps)
qed

lemma runs_CompleteSettlement:
  assumes "storeWorld D w"
  shows "runs D st (Service_CompleteSettlement D sv w k actor tn sid v settled ref st)"
  unfolding Service_CompleteSettlement_def
  by (intro runs_intro assms store_steps)

lemma runs_Settle:
  assumes w: "storeWorld D w"
  shows "runs D st (Service_Settle D sv w actor tn sid ids st)"
proof -
  obtain r st1 where c: "Service_StartSettlement D sv w 2 actor tn sid ids st = (r, st1)" by fastforce
  have 1: "store_reach D st st1"
    using runs_StartSettlement [OF w, of st sv 2 actor tn sid ids] c by (simp add: runs_def)
  have 2: "runs D st (x, st2)"
    if "Service_CompleteSettlement D sv w k actor tn sid' v s ref st1 = (y, st2)"
    for x :: "Settlement \<times> commission_error option" and k sid' v s ref y st2
    using runs_CompleteSettlement [OF w, of st1 sv k actor tn sid' v s ref] that
      store_reach_trans [OF _ 1] by (simp add: runs_def)
  have 3: "runs D st (settlementAnswer (Service_CompleteSettlement D sv w k actor tn sid' v s ref st1))"
    for k sid' v s ref
    using 2 [where k = k and sid' = sid' and v = v and s = s and ref = ref] unfolding settlementAnswer_def by (auto split: prod.splits sum.splits)
  show ?thesis
    unfolding Service_Settle_def c Let_def
    using 1 2 3 by (auto simp: runs_stay runs_def [of _ _ "(_, st1)"] split: option.splits sum.splits
        prod.splits SettlementSubmissionStatus.splits)
qed

lemma service_runs_store_each:
  assumes "storeWorld D w"
  shows "typedTemplate template \<Longrightarrow> runs D st (Service_CreateTemplate sv w actor template st)"
    and "runs D st (Service_TransitionTemplate sv w actor tid v ta st)"
    and "list_all typedRule (p_Rules program) \<Longrightarrow> runs D st (Service_CreateProgram sv w actor program st)"
    and "runs D st (Service_TransitionProgram sv w actor tn pid v pa st)"
    and "runs D st (Service_SetAttribution sv w actor tn attribution v st)"
    and "runs D st (Service_RecordEvent D sv w actor pid event st)"
    and "runs D st (Service_MakeAvailableDue D sv w actor st)"
    and "runs D st (Service_TransitionEarning D sv w actor tn eid v ea st)"
    and "runs D st (Service_GetEarning sv w actor tn eid st)"
    and "runs D st (Service_ListEarnings sv w actor tn filt st)"
    and "runs D st (Service_ListJournalEntries sv w actor tn eid st)"
    and "runs D st (Service_StartSettlement D sv w k actor tn sid ids st)"
    and "runs D st (Service_CompleteSettlement D sv w k actor tn sid v settled ref st)"
    and "runs D st (Service_Settle D sv w actor tn sid ids st)"
    and "runs D st (Service_GetSettlement sv w actor tn sid st)"
    and "runs D st (Service_ListOutbox sv w actor tn ofilt st)"
    and "runs D st (Service_MarkOutboxPublished sv w actor tn oid at st)"
proof -
  show "runs D st (Service_CreateTemplate sv w actor template st)" if "typedTemplate template"
    unfolding Service_CreateTemplate_def Let_def
    by (intro runs_intro assms store_steps) (use that in \<open>auto simp: typedTemplate_def\<close>)
  show "runs D st (Service_CreateProgram sv w actor program st)" if "list_all typedRule (p_Rules program)"
    unfolding Service_CreateProgram_def Let_def
    by (intro runs_intro assms store_steps) (use that in auto)
  show "runs D st (Service_StartSettlement D sv w k actor tn sid ids st)"
    by (rule runs_StartSettlement [OF assms])
  show "runs D st (Service_CompleteSettlement D sv w k actor tn sid v settled ref st)"
    by (rule runs_CompleteSettlement [OF assms])
  show "runs D st (Service_Settle D sv w actor tn sid ids st)"
    by (rule runs_Settle [OF assms])
qed (unfold Service_TransitionTemplate_def Service_TransitionProgram_def Service_SetAttribution_def
      Service_RecordEvent_def Service_MakeAvailableDue_def Service_TransitionEarning_def
      Service_GetEarning_def Service_ListEarnings_def Service_ListJournalEntries_def
      Service_GetSettlement_def Service_ListOutbox_def Service_MarkOutboxPublished_def Let_def,
    (intro runs_intro assms store_steps eventCommit_fresh)+)

text \<open>
  Every command of the service is a sequence of operations of the store: if what the
  other users do between its store calls is a run of the store, then so is the command, for
  any actor, authorizer, adapter, clock and contexts. So every invariant of reachable stores
  (no earning paid twice, settlements backed, an append-only journal) holds behind the
  service.
\<close>

theorem service_runs_store:
  assumes "storeWorld D w"
  shows "(typedTemplate template \<longrightarrow> runs D st (Service_CreateTemplate sv w actor template st))
    \<and> (runs D st (Service_TransitionTemplate sv w actor tid v ta st))
    \<and> (list_all typedRule (p_Rules program) \<longrightarrow> runs D st (Service_CreateProgram sv w actor program st))
    \<and> (runs D st (Service_TransitionProgram sv w actor tn pid v pa st))
    \<and> (runs D st (Service_SetAttribution sv w actor tn attribution v st))
    \<and> (runs D st (Service_RecordEvent D sv w actor pid event st))
    \<and> (runs D st (Service_MakeAvailableDue D sv w actor st))
    \<and> (runs D st (Service_TransitionEarning D sv w actor tn eid v ea st))
    \<and> (runs D st (Service_GetEarning sv w actor tn eid st))
    \<and> (runs D st (Service_ListEarnings sv w actor tn filt st))
    \<and> (runs D st (Service_ListJournalEntries sv w actor tn eid st))
    \<and> (runs D st (Service_StartSettlement D sv w k actor tn sid ids st))
    \<and> (runs D st (Service_CompleteSettlement D sv w k actor tn sid v settled ref st))
    \<and> (runs D st (Service_Settle D sv w actor tn sid ids st))
    \<and> (runs D st (Service_GetSettlement sv w actor tn sid st))
    \<and> (runs D st (Service_ListOutbox sv w actor tn ofilt st))
    \<and> (runs D st (Service_MarkOutboxPublished sv w actor tn oid at st))"
  by (intro conjI impI; rule service_runs_store_each [OF assms]; assumption?)

lemma service_runs_store_witness:
  "store_reach plainDigests store4
     (snd (Service_RecordEvent plainDigests (Some (NewService False []))
         \<lparr>w_ctx = \<lambda>_. None, w_now = \<lambda>_. 50, w_other = \<lambda>_ s. s\<rparr>
         \<lparr>ac_ID = ''root'', ac_TenantID = ''t1'', ac_Host = True\<rparr> ''p1'' sampleEvent store4))"
proof -
  let ?w = "\<lparr>w_ctx = \<lambda>_. None, w_now = \<lambda>_. 50, w_other = \<lambda>_ s. s\<rparr> :: world"
  have "storeWorld plainDigests ?w" by (simp add: storeWorld_def store_reach.init)
  then show ?thesis
    unfolding runs_def [symmetric]
    by (rule service_runs_store [THEN conjunct2, THEN conjunct2, THEN conjunct2, THEN conjunct2, THEN conjunct2, THEN conjunct1])
qed

end
