(* ===== verification/Commission_Caps.thy ===== *)
theory Commission_Caps
  imports Commission_Boundary
begin

text \<open>
  Programs stay under their templates. A program is checked against its template once, when
  it is created; templates keep their rules and caps for ever (\<open>sameTemplate\<close>), so the
  check holds in every reachable store, and no event earns more than the template allows.
\<close>

definition sameTemplate :: "Template \<Rightarrow> Template \<Rightarrow> bool" where
  "sameTemplate t t' \<longleftrightarrow> (\<exists>s now. t' = t\<lparr>t_Status := s, t_UpdatedAt := now\<rparr>)"

lemma sameTemplate_refl [simp]: "sameTemplate t t"
  unfolding sameTemplate_def by (cases t) (auto intro: exI [of _ "t_Status t"])

lemma sameTemplate_trans: "sameTemplate a b \<Longrightarrow> sameTemplate b c \<Longrightarrow> sameTemplate a c"
  unfolding sameTemplate_def by (cases a; cases c) auto

lemma sameTemplate_fields:
  assumes "sameTemplate t t'"
  shows "t_ID t' = t_ID t" "t_Version t' = t_Version t" "t_Rules t' = t_Rules t"
    "t_MaxCommission t' = t_MaxCommission t" "t_FreezePeriod t' = t_FreezePeriod t"
    "t_AllowedEventTypes t' = t_AllowedEventTypes t"
  using assms by (auto simp: sameTemplate_def)

definition templatesKept :: "MemoryStore \<Rightarrow> MemoryStore \<Rightarrow> bool" where
  "templatesKept st st' \<longleftrightarrow>
     (\<forall>k t. map_of (ms_templates st) k = Some t \<longrightarrow>
        (\<exists>t'. map_of (ms_templates st') k = Some t' \<and> sameTemplate t t'))"

lemma templatesKept_same: "ms_templates st' = ms_templates st \<Longrightarrow> templatesKept st st'"
  by (auto simp: templatesKept_def)

lemma templatesKept_trans: "templatesKept a b \<Longrightarrow> templatesKept b c \<Longrightarrow> templatesKept a c"
  unfolding templatesKept_def using sameTemplate_trans by blast

lemma change_templatesKept: "store_change D st st' \<Longrightarrow> templatesKept st st'"
proof (induction rule: store_change.cases)
  case (move_template k t a s now)
  have "sameTemplate t (t\<lparr>t_Status := s, t_UpdatedAt := now\<rparr>)" by (auto simp: sameTemplate_def)
  then show ?case using move_template by (auto simp: templatesKept_def)
qed (auto simp: templatesKept_def started_def finished_def Let_def)

text \<open>What the store keeps of a program and of a template.\<close>

definition underTemplate :: "MemoryStore \<Rightarrow> Program \<Rightarrow> bool" where
  "underTemplate st p \<longleftrightarrow> list_all typedRule (p_Rules p) \<and> 0 < p_TemplateVersion p
     \<and> (\<exists>t. map_of (ms_templates st) (p_TemplateID p, p_TemplateVersion p) = Some t
            \<and> validateProgramRules t [] (p_Rules p) = Inr ())"

definition goodTemplate :: "TenantID \<times> int64 \<Rightarrow> Template \<Rightarrow> bool" where
  "goodTemplate k t \<longleftrightarrow> k = (t_ID t, t_Version t) \<and> typedTemplate t
     \<and> (\<forall>r\<in>set (t_Rules t). validateRule r False = Inr ())"

definition program_inv :: "MemoryStore \<Rightarrow> bool" where
  "program_inv st \<longleftrightarrow>
     (\<forall>k t. map_of (ms_templates st) k = Some t \<longrightarrow> goodTemplate k t)
     \<and> (\<forall>k p. map_of (ms_programs st) k = Some p \<longrightarrow> k = (p_TenantID p, p_ID p) \<and> underTemplate st p)"

lemma validateProgramRules_cong:
  "t_Rules t' = t_Rules t \<Longrightarrow> validateProgramRules t' slots rs = validateProgramRules t slots rs"
  by (induction rs arbitrary: slots) (auto simp: templateRule_def split: sum.splits option.splits)

lemma validateProgramRules_ok:
  "validateProgramRules t slots rs = Inr u \<longleftrightarrow>
     distinct (map r_Slot rs) \<and> set slots \<inter> r_Slot ` set rs = {}
     \<and> (\<forall>r\<in>set rs. validateRule r True = Inr () \<and>
          (\<exists>c. templateRule t (r_Slot r) = Some c \<and> ruleWithinCap r c))"
  by (induction rs arbitrary: slots) (auto split: sum.splits option.splits)

lemma underTemplate_kept:
  assumes "templatesKept st st'" "underTemplate st p"
  shows "underTemplate st' p"
  using assms sameTemplate_fields(3) validateProgramRules_cong
  unfolding underTemplate_def templatesKept_def by (metis (no_types, lifting))

lemma goodTemplate_same: "goodTemplate k t \<Longrightarrow> sameTemplate t t' \<Longrightarrow> goodTemplate k t'"
  by (auto simp: goodTemplate_def typedTemplate_def sameTemplate_fields)

lemma change_program_inv:
  assumes inv: "program_inv st" and ch: "store_change D st st'"
  shows "program_inv st'"
proof -
  note kept = change_templatesKept [OF ch]
  have Told: "\<And>k t. map_of (ms_templates st) k = Some t \<Longrightarrow> goodTemplate k t"
    and Pold: "\<And>k p. map_of (ms_programs st) k = Some p \<Longrightarrow> k = (p_TenantID p, p_ID p) \<and> underTemplate st p"
    using inv unfolding program_inv_def by blast+
  have T: "goodTemplate k t" if t: "map_of (ms_templates st') k = Some t" for k t
    using ch
  proof cases
    case (new_template t0)
    have "goodTemplate (t_ID t0, t_Version t0) t0"
      using new_template validateTemplate_rules [of t0]
      by (auto simp: goodTemplate_def validateNewTemplate_def ok_simps)
    then show ?thesis
      using t Told [of k t] new_template(1) by (cases "k = (t_ID t0, t_Version t0)") simp_all
  next
    case (move_template k0 t0 a s now)
    have "sameTemplate t0 (t0\<lparr>t_Status := s, t_UpdatedAt := now\<rparr>)" by (auto simp: sameTemplate_def)
    then have "goodTemplate k0 (t0\<lparr>t_Status := s, t_UpdatedAt := now\<rparr>)"
      using Told [OF move_template(2)] goodTemplate_same by blast
    then show ?thesis
      using t Told [of k t] move_template(1) by (cases "k = k0") auto
  qed (use t Told [of k t] in \<open>simp_all add: started_def finished_def Let_def\<close>)
  have P: "k = (p_TenantID p, p_ID p) \<and> underTemplate st p"
    if p: "map_of (ms_programs st') k = Some p" for k p
    using ch
  proof cases
    case (new_program p0 t)
    have "underTemplate st p0"
      using new_program
      by (auto simp: underTemplate_def validateProgramAgainstTemplate_def split: if_splits)
    then show ?thesis
      using p Pold [of k p] new_program(1) by (cases "k = (p_TenantID p0, p_ID p0)") auto
  next
    case (move_program k0 p0 pa ps now)
    then show ?thesis
      using p Pold [of k p] Pold [OF move_program(2)]
      by (cases "k = k0") (auto simp: underTemplate_def)
  qed (use p Pold [of k p] in \<open>simp_all add: started_def finished_def Let_def\<close>)
  show ?thesis
    unfolding program_inv_def using T P underTemplate_kept [OF kept] by blast
qed

lemma reach_program_inv:
  "collisionFree D \<Longrightarrow> store_reach D st st' \<Longrightarrow> program_inv st \<Longrightarrow> program_inv st'"
  using store_reach_induct [where P = program_inv] change_program_inv by metis

lemma reach_templatesKept: "collisionFree D \<Longrightarrow> store_reach D st st' \<Longrightarrow> templatesKept st st'"
  using store_reach_induct [where P = "templatesKept st", of D st st'] templatesKept_same
    change_templatesKept templatesKept_trans by metis

lemma NewMemoryStore_program_inv: "program_inv NewMemoryStore"
  by (simp add: program_inv_def NewMemoryStore_def)

section \<open>An event earns no more than the template allows\<close>

lemma reads_Inr:
  "reads w k op st f = (Inr y, st') \<longleftrightarrow>
     (\<exists>x. op (w_ctx w k) (w_other w k st) = Inr x \<and> f x (w_other w k st) = (Inr y, st'))"
  by (auto simp: reads_def Let_def ok_simps)

lemma guarded_Inr:
  "guarded sv auth st f = (Inr y, st') \<longleftrightarrow>
     (\<exists>u service. auth = Inr u \<and> sv = Some service \<and> \<not> sv_store_nil service \<and> f service = (Inr y, st'))"
  by (auto simp: guarded_def ok_simps split: option.splits if_splits)

lemma GetProgram_Inr:
  "Store_GetProgram cx tn pid st = Inr p \<Longrightarrow> map_of (ms_programs st) (tn, pid) = Some p"
  by (auto simp: Store_GetProgram_def ok_simps)

lemma GetTemplate_Inr:
  "Store_GetTemplate cx tid v st = Inr t \<Longrightarrow> 0 < v \<Longrightarrow> map_of (ms_templates st) (tid, v) = Some t"
  by (auto simp: Store_GetTemplate_def ok_simps)

text \<open>What a successful run of \<open>RecordEvent\<close> read and committed.\<close>

lemma RecordEvent_Inr:
  assumes "Service_RecordEvent D sv w actor pid event st = (Inr es, st')"
  obtains p t ats cs where
    "map_of (ms_programs (fold (w_other w) [2] st)) (ev_TenantID event, pid) = Some p"
    "Store_GetTemplate (w_ctx w 3) (p_TemplateID p) (p_TemplateVersion p) (fold (w_other w) [2, 3] st) = Inr t"
    "p_Status p = ProgramStatusActive" "t_Status t = TemplateStatusActive"
    "Store_ListAttributions (w_ctx w 4) (ev_TenantID event) (p_ID p) (fold (w_other w) [2, 3, 4] st) = Inr ats"
    "Calculate (effectiveTemplate t p ats) event = Inr cs"
    "Store_CommitEvent D (w_ctx w 5) (eventCommit D event p t ats cs (w_now w 0))
       (fold (w_other w) [2, 3, 4, 5] st) = (Inr es, st')"
  using assms
  by (auto simp: Service_RecordEvent_def guarded_Inr reads_Inr writes_def ok_simps
      dest!: GetProgram_Inr split: if_splits)

lemma effectiveTemplate_simps [simp]:
  "t_MaxCommission (effectiveTemplate t p ats) = t_MaxCommission t"
  "t_AllowedEventTypes (effectiveTemplate t p ats) = t_AllowedEventTypes t"
  by (simp_all add: effectiveTemplate_def Let_def)

text \<open>An attribution changes the beneficiary of a rule and nothing else.\<close>

lemma effectiveTemplate_rule:
  assumes "r \<in> set (t_Rules (effectiveTemplate t p ats))"
  obtains r0 where "r0 \<in> set (p_Rules p)" "r_Slot r = r_Slot r0" "r_Tiers r = r_Tiers r0"
  using assms by (auto simp: effectiveTemplate_def Let_def split: option.splits)

lemma effectiveTemplate_slots:
  "map r_Slot (t_Rules (effectiveTemplate t p ats)) = map r_Slot (p_Rules p)"
  by (simp add: effectiveTemplate_def Let_def comp_def split: option.split cong: map_cong)

lemma expected_total:
  "(\<Sum>c\<leftarrow>expectedCalculations ev rs. Minor (calc_Amount c))
     = (\<Sum>r\<leftarrow>rs. ruleShare r (Minor (ev_Commissionable ev)))"
  by (induction rs) (simp_all add: expectedCalculation_def)

lemma expected_slots:
  "distinct (map r_Slot rs) \<Longrightarrow> distinct (map calc_Slot (expectedCalculations ev rs))"
  by (induction rs) (auto simp: expectedCalculations_def expectedCalculation_def)

lemma ruleShare_tiers: "r_Tiers r = r_Tiers r' \<Longrightarrow> ruleShare r a = ruleShare r' a"
  by (simp add: ruleShare_def)

lemma templateRule_in: "templateRule t s = Some c \<Longrightarrow> c \<in> set (t_Rules t) \<and> r_Slot c = s"
  by (auto simp: templateRule_def find_Some_iff)

lemma calculation_capped:
  assumes "validateProgramRules t [] (p_Rules p) = Inr ()" "list_all typedRule (p_Rules p)"
    and cs: "cs = expectedCalculations ev (t_Rules (effectiveTemplate t p ats))" and c: "c \<in> set cs"
  shows "\<exists>r\<in>set (t_Rules t). r_Slot r = calc_Slot c \<and> 0 < Minor (calc_Amount c)
    \<and> Minor (calc_Amount c) \<le> ruleShare r (Minor (ev_Commissionable ev))
    \<and> Currency (calc_Amount c) = Currency (ev_Commissionable ev)"
proof -
  let ?a = "Minor (ev_Commissionable ev)"
  obtain r where r: "r \<in> set (t_Rules (effectiveTemplate t p ats))" "c = expectedCalculation ev r"
    "ruleShare r ?a \<noteq> 0" using c cs by (auto simp: expectedCalculations_def)
  obtain r0 where r0: "r0 \<in> set (p_Rules p)" "r_Slot r = r_Slot r0" "r_Tiers r = r_Tiers r0"
    using effectiveTemplate_rule [OF r(1)] .
  have share: "ruleShare r ?a = ruleShare r0 ?a" by (rule ruleShare_tiers [OF r0(3)])
  obtain k where k: "templateRule t (r_Slot r0) = Some k" "ruleWithinCap r0 k" "validateRule r0 True = Inr ()"
    using assms(1) r0(1) unfolding validateProgramRules_ok by blast
  have "0 \<le> ruleShare r0 ?a"
    using validateRule_tiers_ok [OF k(3)] by (rule ruleShare_nonneg)
  then show ?thesis
    using r r0(2) share templateRule_in [OF k(1)] ruleWithinCap_share [OF k(2), of ?a]
    by (auto simp: expectedCalculation_def intro!: bexI [of _ k])
qed

lemma effectiveTemplate_typed:
  "typedTemplate t \<Longrightarrow> list_all typedRule (p_Rules p) \<Longrightarrow> typedTemplate (effectiveTemplate t p ats)"
  by (auto simp: typedTemplate_def list_all_iff typedRule_def elim!: effectiveTemplate_rule)

lemma eventCommit_earnings:
  "c_Earnings (eventCommit D ev p t ats cs now) = map (eventEarning D ev p t now) cs"
  "eventKey (c_Event (eventCommit D ev p t ats cs now)) = eventKey ev"
  by (simp_all add: eventCommit_def buildEventEntries_def Let_def)

text \<open>
  C23. A recorded event earns at most what the platform's template allows, whatever the
  tenant's program and attributions say and whatever runs in between: when \<open>RecordEvent\<close>
  records an event that was not recorded before, each earning belongs to the event's tenant
  and to a slot of the template, in the currency of the event, is positive and at most the
  commission of the template's own rule for that slot; there is at most one earning per
  slot; and their sum is within the template's cap when it has one.
\<close>

theorem RecordEvent_within_template:
  assumes "collisionFree D" "store_reach D NewMemoryStore st" "storeWorld D w" "typedEvent event"
    and run: "Service_RecordEvent D sv w actor pid event st = (Inr es, st')"
    and new: "map_of (ms_events (fold (w_other w) [2, 3, 4, 5] st)) (eventKey event) = None"
  shows "\<exists>p t. map_of (ms_programs (fold (w_other w) [2] st)) (ev_TenantID event, pid) = Some p
    \<and> map_of (ms_templates (fold (w_other w) [2, 3] st)) (p_TemplateID p, p_TemplateVersion p) = Some t
    \<and> (\<forall>e\<in>set es. e_TenantID e = ev_TenantID event
         \<and> Currency (e_Amount e) = Currency (ev_Commissionable event) \<and> 0 < Minor (e_Amount e)
         \<and> (\<exists>r\<in>set (t_Rules t). r_Slot r = e_Slot e
              \<and> Minor (e_Amount e) \<le> ruleShare r (Minor (ev_Commissionable event))))
    \<and> distinct (map e_Slot es)
    \<and> (capEnabled t \<longrightarrow> (\<Sum>e\<leftarrow>es. Minor (e_Amount e)) \<le> Minor (t_MaxCommission t))"
  using run
proof (rule RecordEvent_Inr)
  fix p t ats cs
  let ?st2 = "fold (w_other w) [2] st" and ?st3 = "fold (w_other w) [2, 3] st"
  assume p: "map_of (ms_programs ?st2) (ev_TenantID event, pid) = Some p"
    and gt: "Store_GetTemplate (w_ctx w 3) (p_TemplateID p) (p_TemplateVersion p) ?st3 = Inr t"
    and calc: "Calculate (effectiveTemplate t p ats) event = Inr cs"
    and commit: "Store_CommitEvent D (w_ctx w 5) (eventCommit D event p t ats cs (w_now w 0))
       (fold (w_other w) [2, 3, 4, 5] st) = (Inr es, st')"
  have r2: "store_reach D st ?st2" and r3: "store_reach D ?st2 ?st3"
    using assms(3) by (simp_all add: storeWorld_def)
  have inv2: "program_inv ?st2"
    using reach_program_inv [OF assms(1)] r2 assms(2) NewMemoryStore_program_inv by blast
  have inv3: "program_inv ?st3" by (rule reach_program_inv [OF assms(1) r3 inv2])
  have under: "underTemplate ?st3 p"
    using underTemplate_kept [OF reach_templatesKept [OF assms(1) r3]] inv2 p
    unfolding program_inv_def by blast
  have t: "map_of (ms_templates ?st3) (p_TemplateID p, p_TemplateVersion p) = Some t"
    by (rule GetTemplate_Inr [OF gt]) (use under in \<open>simp add: underTemplate_def\<close>)
  have rules: "validateProgramRules t [] (p_Rules p) = Inr ()" "list_all typedRule (p_Rules p)"
    using under t by (auto simp: underTemplate_def)
  have "typedTemplate t" using inv3 t unfolding program_inv_def goodTemplate_def by blast
  note typed = effectiveTemplate_typed [OF this rules(2), of ats]
  have cs: "cs = expectedCalculations event (t_Rules (effectiveTemplate t p ats))"
    and cap: "capEnabled (effectiveTemplate t p ats) \<Longrightarrow>
      templateShare (effectiveTemplate t p ats) (Minor (ev_Commissionable event)) \<le> Minor (t_MaxCommission t)"
    using calc Calculate_exact_iff [OF typed assms(4)] by auto
  have es: "es = map (eventEarning D event p t (w_now w 0)) cs"
    using CommitEvent_effect(3) [OF commit] new unfolding eventCommit_earnings by blast
  have total: "(\<Sum>e\<leftarrow>es. Minor (e_Amount e)) = (\<Sum>c\<leftarrow>cs. Minor (calc_Amount c))"
    by (simp add: es eventEarning_def comp_def)
  have "distinct (map calc_Slot cs)"
    using rules(1) effectiveTemplate_slots [of t p ats] unfolding cs
    by (intro expected_slots) (simp add: validateProgramRules_ok)
  then have "distinct (map e_Slot es)" by (simp add: es eventEarning_def comp_def)
  moreover have "capEnabled t \<longrightarrow> (\<Sum>e\<leftarrow>es. Minor (e_Amount e)) \<le> Minor (t_MaxCommission t)"
    using cap unfolding total cs expected_total templateShare_def by (simp add: capEnabled_def)
  moreover have "\<forall>e\<in>set es. e_TenantID e = ev_TenantID event
         \<and> Currency (e_Amount e) = Currency (ev_Commissionable event) \<and> 0 < Minor (e_Amount e)
         \<and> (\<exists>r\<in>set (t_Rules t). r_Slot r = e_Slot e
              \<and> Minor (e_Amount e) \<le> ruleShare r (Minor (ev_Commissionable event)))"
    using calculation_capped [OF rules cs] by (fastforce simp: es eventEarning_def)
  ultimately show ?thesis using p t by blast
qed

section \<open>A successful run\<close>

definition sampleWorld :: world where
  "sampleWorld = \<lparr>w_ctx = \<lambda>_. None, w_now = \<lambda>_. 50, w_other = \<lambda>_ s. s\<rparr>"

definition sampleService :: "Service option" where
  "sampleService = Some (NewService False [Some (WithAuthorizer (Some (\<lambda>_ _ _ _. None)))])"

definition sampleHost :: Actor where
  "sampleHost = \<lparr>ac_ID = ''root'', ac_TenantID = ''t1'', ac_Host = True\<rparr>"

lemma sampleWorld_store: "storeWorld D sampleWorld"
  by (simp add: storeWorld_def sampleWorld_def store_reach.init)

lemma sample_authorized:
  "t \<noteq> [] \<Longrightarrow> length t \<le> 256 \<Longrightarrow> authorizeHost sampleService sampleWorld k sampleHost p t = Inr ()"
  by (simp add: authorizeHost_def authorize_def sampleService_def sampleWorld_def sampleHost_def
      NewService_def WithAuthorizer_def DefaultServiceLimits_def identifierOK_def)

definition activeProgram :: Program where
  "activeProgram = sampleProgram\<lparr>p_Status := ProgramStatusActive, p_Version := 3, p_UpdatedAt := 13\<rparr>"

lemma activeProgram_fields:
  "p_ID activeProgram = ''p1''" "p_TenantID activeProgram = ''t1''" "p_TemplateID activeProgram = ''tpl''"
  "p_TemplateVersion activeProgram = 1" "p_Status activeProgram = ProgramStatusActive"
  "p_Version activeProgram = 3" "p_Rules activeProgram = [sampleRule]"
  by (simp_all add: activeProgram_def sampleProgram_def)

lemma store4_parts:
  "ms_programs store4 = [((''t1'', ''p1''), activeProgram)]"
  "ms_templates store4 = [((''tpl'', 1), sampleTemplate)]"
  "ms_attributions store4 = []" "ms_events store4 = []" "ms_earnings store4 = []"
  "ms_journalIDs store4 = {}" "ms_outbox store4 = []"
  by (simp_all add: store4_eq store1_eq NewMemoryStore_def activeProgram_def)

lemma sample_fields:
  "ev_TenantID sampleEvent = ''t1''" "ev_SourceType sampleEvent = ''order''"
  "ev_SourceID sampleEvent = ''o1''" "ev_OccurredAt sampleEvent = 20" "ev_Attributes sampleEvent = None"
  "t_ID sampleTemplate = ''tpl''" "t_Version sampleTemplate = 1" "t_FreezePeriod sampleTemplate = 5"
  "t_Status sampleTemplate = TemplateStatusActive" "t_Rules sampleTemplate = [sampleRule]"
  "r_Slot sampleRule = ''agent''"
  by (simp_all add: sampleEvent_def sampleTemplate_def sampleRule_def)

definition sampleCalculation :: Calculation where
  "sampleCalculation = \<lparr>calc_Slot = ''agent'',
     calc_Beneficiary = \<lparr>b_Kind = BeneficiaryKindUser, b_ID = ''u1''\<rparr>,
     calc_Amount = \<lparr>Currency = ''USD'', Minor = 5500\<rparr>\<rparr>"

definition builtCommit :: EventCommit where
  "builtCommit = eventCommit plainDigests sampleEvent activeProgram sampleTemplate [] [sampleCalculation] 50"

lemma stableID_neq_Nil [simp]: "stableID D (c # cs) ps \<noteq> []"
  by (simp add: stableID_def)

lemma built_valid: "validateEventCommit builtCommit = Inr ()"
  by (simp add: validateEventCommit_def builtCommit_def eventCommit_def buildEventEntries_def Let_def
      sample_event_valid activeProgram_fields sample_fields eventEarning_def eventJournals_def
      eventOutbox_def validateStoredEarning_def sampleCalculation_def entryStatus_def IsZero_def
      validBeneficiary_def validEarningStatus_def validJournalKind_def earningID_def outboxID_def
      plain_inject)
     (simp add: journalID_def)

lemma sample_effective: "effectiveTemplate sampleTemplate activeProgram [] = sampleTemplate"
  by (simp add: effectiveTemplate_def activeBySlot_def activeProgram_fields sampleTemplate_def)

lemma built_commits:
  "\<exists>st'. Store_CommitEvent plainDigests None builtCommit store4
     = (Inr [eventEarning plainDigests sampleEvent activeProgram sampleTemplate 50 sampleCalculation], st')"
proof -
  have "validateCommitVersionsLocked builtCommit store4 = Inr ()"
    by (simp add: validateCommitVersionsLocked_def builtCommit_def eventCommit_def buildEventEntries_def
        Let_def store4_parts activeProgram_fields sample_fields attributionVersions_def)
  moreover have "commitFresh builtCommit store4"
    by (simp add: commitFresh_def store4_parts)
  moreover have "c_Earnings builtCommit
      = [eventEarning plainDigests sampleEvent activeProgram sampleTemplate 50 sampleCalculation]"
    by (simp add: builtCommit_def eventCommit_earnings)
  ultimately show ?thesis
    using CommitEvent_new [of store4 builtCommit plainDigests None] built_valid
    by (simp add: store4_parts)
qed

lemma sample_RecordEvent:
  "\<exists>st'. Service_RecordEvent plainDigests sampleService sampleWorld sampleHost ''p1'' sampleEvent store4
     = (Inr [eventEarning plainDigests sampleEvent activeProgram sampleTemplate 50 sampleCalculation], st')"
proof -
  have w: "w_ctx sampleWorld k = None" "w_now sampleWorld k = 50" "w_other sampleWorld k st = st" for k st
    by (simp_all add: sampleWorld_def)
  obtain sv where sv: "sampleService = Some sv" "\<not> sv_store_nil sv" "sv_limits sv = DefaultServiceLimits"
    by (simp add: sampleService_def NewService_def WithAuthorizer_def)
  have "Store_GetProgram None ''t1'' ''p1'' store4 = Inr activeProgram"
    "Store_GetTemplate None ''tpl'' 1 store4 = Inr sampleTemplate"
    "Store_ListAttributions None ''t1'' ''p1'' store4 = Inr []"
    by (simp_all add: Store_GetProgram_def Store_GetTemplate_def Store_ListAttributions_def store4_parts)
  moreover have "limits_validateEvent DefaultServiceLimits sampleEvent = Inr ()"
    by (simp add: limits_validateEvent_def sample_fields identifierOK_def DefaultServiceLimits_def)
  moreover have "identifierOK DefaultServiceLimits ''p1''"
    by (simp add: identifierOK_def DefaultServiceLimits_def)
  moreover have "Calculate sampleTemplate sampleEvent = Inr [sampleCalculation]"
    using sample_Calculate by (simp add: sampleCalculation_def)
  ultimately show ?thesis
    using built_commits sample_authorized [of "''t1''" 0 PermissionRecordEvents]
    unfolding Service_RecordEvent_def guarded_def reads_def writes_def Let_def w sv(1)
    by (simp add: sv sample_fields activeProgram_fields sample_event_valid sample_effective builtCommit_def)
qed

lemma RecordEvent_within_template_witness:
  "\<exists>es st'. Service_RecordEvent plainDigests sampleService sampleWorld sampleHost ''p1'' sampleEvent store4
       = (Inr es, st') \<and> length es = 1 \<and> (\<Sum>e\<leftarrow>es. Minor (e_Amount e)) \<le> 20000"
proof -
  let ?es = "[eventEarning plainDigests sampleEvent activeProgram sampleTemplate 50 sampleCalculation]"
  obtain st' where run: "Service_RecordEvent plainDigests sampleService sampleWorld sampleHost ''p1''
      sampleEvent store4 = (Inr ?es, st')" using sample_RecordEvent by blast
  have w: "w_other sampleWorld k st = st" for k st by (simp add: sampleWorld_def)
  have "map_of (ms_events (fold (w_other sampleWorld) [2, 3, 4, 5] store4)) (eventKey sampleEvent) = None"
    by (simp add: w store4_parts)
  from RecordEvent_within_template [OF plainDigests_collisionFree sample_reach(1) sampleWorld_store
      sample_typed(2) run this]
  have "(\<Sum>e\<leftarrow>?es. Minor (e_Amount e)) \<le> 20000"
    by (simp add: w store4_parts activeProgram_fields capEnabled_def sampleTemplate_def sample_fields)
  then show ?thesis using run by (intro exI [of _ ?es] exI [of _ st']) simp
qed

section \<open>Two behaviours worth knowing\<close>

text \<open>
  A retry is not answered once the program is suspended: after an event was recorded,
  suspending its program makes the same command fail with \<open>ErrProgramNotActive\<close> instead of
  returning the original earnings, because \<open>RecordEvent\<close> checks the program before the store
  looks for the recorded event.
\<close>

theorem retry_fails_after_suspend:
  "\<exists>es st1 p st2.
     Service_RecordEvent plainDigests sampleService sampleWorld sampleHost ''p1'' sampleEvent store4
       = (Inr es, st1)
     \<and> Store_TransitionProgram None ''t1'' ''p1'' 3 ProgramActionSuspend 60 st1 = (Inr p, st2)
     \<and> map_of (ms_events st2) (eventKey sampleEvent) \<noteq> None
     \<and> Service_RecordEvent plainDigests sampleService sampleWorld sampleHost ''p1'' sampleEvent st2
       = (Inl ErrProgramNotActive, st2)"
proof -
  let ?es = "[eventEarning plainDigests sampleEvent activeProgram sampleTemplate 50 sampleCalculation]"
  obtain st1 where run: "Service_RecordEvent plainDigests sampleService sampleWorld sampleHost ''p1''
      sampleEvent store4 = (Inr ?es, st1)" using sample_RecordEvent by blast
  have w: "w_ctx sampleWorld k = None" "w_now sampleWorld k = 50" "w_other sampleWorld k st = st" for k st
    by (simp_all add: sampleWorld_def)
  from run obtain c where c: "Store_CommitEvent plainDigests None c store4 = (Inr ?es, st1)"
    "eventKey (c_Event c) = eventKey sampleEvent"
    by (rule RecordEvent_Inr) (auto simp: w eventCommit_earnings)
  then have st1: "st1 = committed plainDigests c store4"
    using CommitEvent_effect(3) [OF c(1)] by (simp add: store4_parts)
  define p where "p = activeProgram\<lparr>p_Status := ProgramStatusSuspended, p_Version := 4, p_UpdatedAt := 60\<rparr>"
  define st2 where "st2 = st1\<lparr>ms_programs := [((''t1'', ''p1''), p)]\<rparr>"
  have "Store_TransitionProgram None ''t1'' ''p1'' 3 ProgramActionSuspend 60 st1 = (Inr p, st2)"
    by (simp add: Store_TransitionProgram_def st1 store4_parts activeProgram_fields IsZero_def p_def
        st2_def Let_def add64_id i64_def)
  moreover have "map_of (ms_events st2) (eventKey sampleEvent) \<noteq> None"
    by (simp add: st2_def st1 committed_events c(2))
  moreover have "Service_RecordEvent plainDigests sampleService sampleWorld sampleHost ''p1''
      sampleEvent st2 = (Inl ErrProgramNotActive, st2)"
  proof -
    obtain sv where sv: "sampleService = Some sv" "\<not> sv_store_nil sv" "sv_limits sv = DefaultServiceLimits"
      by (simp add: sampleService_def NewService_def WithAuthorizer_def)
    have "Store_GetProgram None ''t1'' ''p1'' st2 = Inr p"
      by (simp add: Store_GetProgram_def st2_def)
    moreover have "limits_validateEvent DefaultServiceLimits sampleEvent = Inr ()"
      by (simp add: limits_validateEvent_def sample_fields identifierOK_def DefaultServiceLimits_def)
    moreover have "identifierOK DefaultServiceLimits ''p1''" "p_Status p \<noteq> ProgramStatusActive"
      by (simp_all add: identifierOK_def DefaultServiceLimits_def p_def)
    ultimately show ?thesis
      using sample_authorized [of "''t1''" 0 PermissionRecordEvents]
      unfolding Service_RecordEvent_def guarded_def reads_def Let_def w sv(1)
      by (simp add: sv sample_fields sample_event_valid)
  qed
  ultimately show ?thesis using run by blast
qed

text \<open>
  Holding and releasing a pending earning ends its freeze period early: the two manual
  actions make it available before its \<open>AvailableAt\<close>, which \<open>MakeAvailableDue\<close> never does.
\<close>

theorem hold_release_skips_freeze:
  "\<exists>e st' e' st''.
     Store_TransitionEarning plainDigests None ''t1'' ''e1'' 1 EarningActionHold 21 store5 = (Inr e, st')
     \<and> Store_TransitionEarning plainDigests None ''t1'' ''e1'' 2 EarningActionRelease 22 st' = (Inr e', st'')
     \<and> e_Status e' = EarningStatusAvailable \<and> 22 < e_AvailableAt e'"
proof -
  let ?e = "advanceEarning (sampleEarning ''e1'' 5000) EarningStatusHeld 21"
  let ?t = "newEarningTransition plainDigests ?e EarningActionHold 21"
  let ?e' = "advanceEarning ?e EarningStatusAvailable 22"
  let ?t' = "newEarningTransition plainDigests ?e' EarningActionRelease 22"
  have out: "map_of (ms_outbox store5) (''t1'', outboxID D t a y v) = None" for D t a y v
    using store5_parts(3) hashed_ids(3) by (auto simp: map_of_eq_None_iff simp flip: set_map)
  have add: "add64 1 1 = 2" "add64 2 1 = 3" by (simp_all add: add64_id i64_def)
  have v1: "validateEarningTransitionsLocked [?t] store5 = Inr ()"
    by (simp add: validateEarningTransitionsLocked_ok newEarningTransition_def Let_def outboxKey_def
        sample_earning_fields out store5_parts hashed_ids)
  have 1: "Store_TransitionEarning plainDigests None ''t1'' ''e1'' 1 EarningActionHold 21 store5
      = (Inr ?e, applied [?t] store5)"
    unfolding TransitionEarning_effect using v1
    by (simp add: store5_parts sample_earning_fields TransitionEarning_def IsZero_def aggregateAction_def)
  have v2: "validateEarningTransitionsLocked [?t'] (applied [?t] store5) = Inr ()"
    by (simp add: validateEarningTransitionsLocked_ok newEarningTransition_def Let_def outboxKey_def
        putOutbox_def sample_earning_fields out store5_parts hashed_ids plain_inject add)
  have "map_of (ms_earnings (applied [?t] store5)) ''e1'' = Some ?e"
    by (simp add: putEarnings_def sample_earning_fields)
  then have "Store_TransitionEarning plainDigests None ''t1'' ''e1'' 2 EarningActionRelease 22
      (applied [?t] store5) = (Inr ?e', applied [?t'] (applied [?t] store5))"
    unfolding TransitionEarning_effect using v2
    by (simp add: sample_earning_fields TransitionEarning_def IsZero_def aggregateAction_def add)
  moreover have "e_Status ?e' = EarningStatusAvailable" "22 < e_AvailableAt ?e'"
    by (simp_all add: sample_earning_fields)
  ultimately show ?thesis using 1 by blast
qed

end
