(* ===== verification/Core_Types.thy ===== *)
theory Core_Types
  imports Decimals
begin

text \<open>
  The tenant and the deployment unit of \<open>core/types\<close>, their status, and the validation of tenant identifiers. A map
  that may be nil is an option of a Go map; two tenants are compared as the code compares
  them, with \<open>maps.Equal\<close>, for which a nil map and an empty map are equal.
\<close>

datatype TenantStatus =
  TenantStatusPending | TenantStatusActive | TenantStatusSuspended | TenantStatusSoftDeleted
| TenantStatusHardDeleted | TenantStatusOther string

fun tenantStatusString :: "TenantStatus \<Rightarrow> string" where
  "tenantStatusString TenantStatusPending = ''pending''"
| "tenantStatusString TenantStatusActive = ''active''"
| "tenantStatusString TenantStatusSuspended = ''suspended''"
| "tenantStatusString TenantStatusSoftDeleted = ''soft_deleted''"
| "tenantStatusString TenantStatusHardDeleted = ''hard_deleted''"
| "tenantStatusString (TenantStatusOther s) = s"

record Tenant =
  tn_ID :: TenantID
  tn_Name :: string
  tn_Status :: TenantStatus
  tn_PlanID :: string
  tn_Config :: "(string, string) gomap option"

type_synonym DeploymentUnitID = string

datatype DeploymentUnitStatus =
  DeploymentUnitStatusActive | DeploymentUnitStatusDisabled | DeploymentUnitStatusOther string

record DeploymentUnit =
  du_ID :: DeploymentUnitID
  du_Status :: DeploymentUnitStatus
  du_Region :: string
  du_ResidencyTags :: "string list option"
  du_Metadata :: "(string, string) gomap option"

definition configMap :: "(string, string) gomap option \<Rightarrow> string \<Rightarrow> string option" where
  "configMap m = (case m of None \<Rightarrow> Map.empty | Some kvs \<Rightarrow> map_of kvs)"

text \<open>
  \<open>maps.Equal\<close>: the same number of entries, and every key of the first has in the second the
  value it has in the first.
\<close>

definition mapsEqual :: "('k, 'v) gomap option \<Rightarrow> ('k, 'v) gomap option \<Rightarrow> bool" where
  "mapsEqual m m' =
     (let a = (case m of None \<Rightarrow> [] | Some kvs \<Rightarrow> kvs);
          b = (case m' of None \<Rightarrow> [] | Some kvs \<Rightarrow> kvs)
      in length a = length b \<and> list_all (\<lambda>(k, v). map_of b k = map_of a k) a)"

definition tenantsEqual :: "Tenant \<Rightarrow> Tenant \<Rightarrow> bool" where
  "tenantsEqual a b \<longleftrightarrow> tn_ID a = tn_ID b \<and> tn_Name a = tn_Name b \<and> tn_Status a = tn_Status b
     \<and> tn_PlanID a = tn_PlanID b \<and> mapsEqual (tn_Config a) (tn_Config b)"

definition wf_opt :: "('k, 'v) gomap option \<Rightarrow> bool" where
  "wf_opt m \<longleftrightarrow> (case m of None \<Rightarrow> True | Some kvs \<Rightarrow> wf_map kvs)"

lemma mapsEqual_refl [simp]: "mapsEqual m m"
  by (cases m) (auto simp: mapsEqual_def list_all_iff)

lemma tenantsEqual_refl [simp]: "tenantsEqual t t"
  by (simp add: tenantsEqual_def)

text \<open>On maps with distinct keys it is equality of the maps.\<close>

lemma entries_agree:
  assumes wf: "wf_map a" "wf_map b"
  shows "length a = length b \<and> list_all (\<lambda>(k, v). map_of b k = map_of a k) a \<longleftrightarrow> map_of a = map_of b"
proof -
  have dist: "distinct a" "distinct b" using wf by (simp_all add: distinct_map)
  have a: "map_of a k = Some v \<longleftrightarrow> (k, v) \<in> set a" and b: "map_of b k = Some v \<longleftrightarrow> (k, v) \<in> set b" for k v
    using wf by simp_all
  have "list_all (\<lambda>(k, v). map_of b k = map_of a k) a
      \<longleftrightarrow> (\<forall>k v. map_of a k = Some v \<longrightarrow> map_of b k = map_of a k)"
    using a by (simp add: list_all_iff split_beta) (metis prod.collapse fst_conv)
  then have "list_all (\<lambda>(k, v). map_of b k = map_of a k) a
      \<longleftrightarrow> (\<forall>k v. map_of a k = Some v \<longrightarrow> map_of b k = Some v)" by auto
  also have "\<dots> \<longleftrightarrow> set a \<subseteq> set b" by (simp only: a b) auto
  finally have sub: "list_all (\<lambda>(k, v). map_of b k = map_of a k) a \<longleftrightarrow> set a \<subseteq> set b" .
  have "length a = length b \<and> set a \<subseteq> set b \<longleftrightarrow> set a = set b"
    using dist by (metis List.finite_set card_subset_eq distinct_card order_refl)
  with sub have "length a = length b \<and> list_all (\<lambda>(k, v). map_of b k = map_of a k) a \<longleftrightarrow> set a = set b"
    by simp
  also have "\<dots> \<longleftrightarrow> map_of a = map_of b" using wf by (simp add: map_of_inject_set)
  finally show ?thesis .
qed

lemma mapsEqual_iff:
  assumes "wf_opt m" "wf_opt m'"
  shows "mapsEqual m m' \<longleftrightarrow> configMap m = configMap m'"
  using assms entries_agree [of "[]" "[]"] entries_agree [of "[]"] entries_agree [of _ "[]"] entries_agree
  by (simp add: mapsEqual_def wf_opt_def configMap_def split: option.splits)

section \<open>Tenant identifiers\<close>

datatype TenantIDStrategy =
  TenantIDStrategyString | TenantIDStrategyInt | TenantIDStrategyUUID
| TenantIDStrategyOther string

datatype tenant_id_error = ErrEmptyTenantID | ErrInvalidTenantID

definition isHex :: "char \<Rightarrow> bool" where
  "isHex r \<longleftrightarrow> (CHR ''0'' \<le> r \<and> r \<le> CHR ''9'') \<or> (CHR ''a'' \<le> r \<and> r \<le> CHR ''f'')
     \<or> (CHR ''A'' \<le> r \<and> r \<le> CHR ''F'')"

definition isCanonicalUUID :: "string \<Rightarrow> bool" where
  "isCanonicalUUID value \<longleftrightarrow> length value = 36
     \<and> list_all (\<lambda>(i, r). if i \<in> {8, 13, 18, 23} then r = CHR ''-'' else isHex r)
         (zip [0..<36] value)"

definition TenantID_Int64 :: "TenantID \<Rightarrow> tenant_id_error + int64" where
  "TenantID_Int64 tid = (case ParseInt64 tid of None \<Rightarrow> Inl ErrInvalidTenantID | Some v \<Rightarrow> Inr v)"

definition NewTenantIDFromInt :: "int64 \<Rightarrow> TenantID" where
  "NewTenantIDFromInt v = FormatInt v"

definition toLowerChar :: "char \<Rightarrow> char" where
  "toLowerChar c = (if CHR ''A'' \<le> c \<and> c \<le> CHR ''Z'' then char_of (of_char c + 32 :: nat) else c)"

text \<open>
  \<open>strings.ToLower\<close> is only reached for a canonical UUID, whose characters are ASCII.
\<close>

definition ParseTenantID :: "string \<Rightarrow> TenantIDStrategy \<Rightarrow> tenant_id_error + TenantID" where
  "ParseTenantID raw strategy =
     (let normalized = TrimSpace raw in
      if normalized = [] then Inl ErrEmptyTenantID
      else case strategy of
        TenantIDStrategyString \<Rightarrow> Inr normalized
      | TenantIDStrategyInt \<Rightarrow>
          if ParseInt64 normalized = None then Inl ErrInvalidTenantID else Inr normalized
      | TenantIDStrategyUUID \<Rightarrow>
          if \<not> isCanonicalUUID normalized then Inl ErrInvalidTenantID
          else Inr (map toLowerChar normalized)
      | TenantIDStrategyOther s \<Rightarrow> if s = [] then Inr normalized else Inl ErrInvalidTenantID)"

section \<open>Identifiers are canonical\<close>

lemma strip_prefix_Some: "strip_prefix p s = Some r \<longleftrightarrow> s = p @ r"
  by (induction p s rule: strip_prefix.induct) auto

lemma strip_prefix_append [simp]: "strip_prefix p (p @ r) = Some r"
  by (simp add: strip_prefix_Some)

lemma strip_any_None: "strip_any ps s = None \<longleftrightarrow> (\<forall>p\<in>set ps. \<forall>r. s \<noteq> p @ r)"
  by (induction ps) (auto simp: strip_prefix_Some split: option.splits)

lemma strip_any_Some: "strip_any ps s = Some r \<Longrightarrow> \<exists>p\<in>set ps. s = p @ r"
  by (induction ps) (auto simp: strip_prefix_Some split: option.splits)

lemma strip_all_stripped:
  "[] \<notin> set ps \<Longrightarrow> length s \<le> n \<Longrightarrow> strip_any ps (strip_all n ps s) = None"
proof (induction n arbitrary: s)
  case 0
  then show ?case by (simp add: strip_any_None) (metis append_is_Nil_conv)
next
  case (Suc n)
  show ?case
  proof (cases "strip_any ps s")
    case None
    then show ?thesis by simp
  next
    case (Some r)
    then obtain p where "p \<in> set ps" "s = p @ r" using strip_any_Some by blast
    with Suc.prems have "length r \<le> n" by (cases p) auto
    with Suc Some show ?thesis by simp
  qed
qed

lemma strip_all_suffix: "\<exists>pre. s = pre @ strip_all n ps s"
proof (induction n arbitrary: s)
  case (Suc n)
  show ?case
  proof (cases "strip_any ps s")
    case (Some r)
    then obtain p where "s = p @ r" using strip_any_Some by blast
    then show ?thesis using Suc [of r] Some by (metis append.assoc strip_all.simps(2) option.simps(5))
  qed simp
qed simp

lemma strip_all_id: "strip_any ps s = None \<Longrightarrow> strip_all n ps s = s"
  by (cases n) simp_all

lemma spaces_nonempty: "[] \<notin> set unicode_spaces" "[] \<notin> set (map rev unicode_spaces)"
  by (simp_all add: unicode_spaces_def)

definition trimmed :: "string \<Rightarrow> bool" where
  "trimmed s \<longleftrightarrow> strip_any unicode_spaces s = None
     \<and> strip_any (map rev unicode_spaces) (rev s) = None"

lemma TrimSpace_trimmed: "trimmed (TrimSpace s)"
proof -
  let ?l = "strip_all (length s) unicode_spaces s"
  let ?r = "strip_all (length ?l) (map rev unicode_spaces) (rev ?l)"
  obtain pre where "rev ?l = pre @ ?r" using strip_all_suffix by blast
  then have l: "?l = rev ?r @ rev pre" by (metis rev_append rev_rev_ident)
  have "strip_any unicode_spaces ?l = None"
    by (rule strip_all_stripped) (simp_all add: spaces_nonempty)
  then have "strip_any unicode_spaces (rev ?r) = None"
    using l by (metis append.assoc strip_any_None)
  moreover have "strip_any (map rev unicode_spaces) ?r = None"
    by (rule strip_all_stripped) (simp_all only: spaces_nonempty length_rev order_refl not_False_eq_True)
  ultimately show ?thesis by (simp add: trimmed_def TrimSpace_def Let_def)
qed

lemma TrimSpace_id: "trimmed s \<Longrightarrow> TrimSpace s = s"
  by (simp add: trimmed_def TrimSpace_def strip_all_id)

text \<open>Every space of the table begins and ends with one of these bytes.\<close>

definition spaceEnd :: "char \<Rightarrow> bool" where
  "spaceEnd c \<longleftrightarrow> c \<in> hd ` set unicode_spaces \<or> c \<in> last ` set unicode_spaces"

lemma spaces_hd_last: "p \<in> set unicode_spaces \<Longrightarrow> spaceEnd (hd p) \<and> spaceEnd (last p)"
  by (simp add: spaceEnd_def)

lemma trimmed_plain:
  assumes "s \<noteq> []" "\<not> spaceEnd (hd s)" "\<not> spaceEnd (last s)"
  shows "trimmed s"
proof -
  have "s \<noteq> p @ r" if p: "p \<in> set unicode_spaces" for p r
    using that assms spaces_hd_last [OF p] spaces_nonempty by (metis hd_append2)
  moreover have "rev s \<noteq> rev p @ r" if p: "p \<in> set unicode_spaces" for p r
    using that assms spaces_hd_last [OF p] spaces_nonempty
    by (metis last_appendR rev_append rev_rev_ident)
  ultimately show ?thesis by (simp add: trimmed_def strip_any_None)
qed

lemma space_or_sign: "spaceEnd c \<Longrightarrow> \<not> isDigit c \<and> c \<noteq> CHR ''-'' \<and> \<not> isHex c"
  unfolding spaceEnd_def isDigit_def isHex_def less_eq_char_nat
  by (auto simp: unicode_spaces_def)

lemma FormatInt_ends: "\<not> spaceEnd (hd (FormatInt v)) \<and> \<not> spaceEnd (last (FormatInt v))"
proof -
  have "\<not> spaceEnd (hd (natDigits n)) \<and> \<not> spaceEnd (last (natDigits n))" for n
    using natDigits_isDigit [of n] natDigits_neq_Nil [of n] space_or_sign
    by (metis hd_in_set last_in_set list_all_iff)
  then show ?thesis using natDigits_neq_Nil space_or_sign by (auto simp: FormatInt_def)
qed

lemma toLowerChar_idem: "toLowerChar (toLowerChar c) = toLowerChar c"
  by (simp add: toLowerChar_def less_eq_char_nat of_char_of)

lemma isHex_toLower: "isHex r \<Longrightarrow> isHex (toLowerChar r)"
  by (auto simp: toLowerChar_def isHex_def less_eq_char_nat of_char_of)

lemma isCanonicalUUID_nth:
  "isCanonicalUUID s \<longleftrightarrow> length s = 36
     \<and> (\<forall>i<36. if i \<in> {8, 13, 18, 23} then s ! i = CHR ''-'' else isHex (s ! i))"
proof (cases "length s = 36")
  case True
  then have "set (zip [0..<36] s) = {([0..<36] ! i, s ! i) | i. i < 36}" by (simp add: set_zip)
  moreover have "[0..<36] ! i = i" if "i < 36" for i :: nat using that by simp
  ultimately have "set (zip [0..<36] s) = {(i, s ! i) | i. i < 36}" by force
  with True show ?thesis by (auto simp: isCanonicalUUID_def list_all_iff)
qed (simp add: isCanonicalUUID_def)

lemma isCanonicalUUID_lower: "isCanonicalUUID s \<Longrightarrow> isCanonicalUUID (map toLowerChar s)"
  unfolding isCanonicalUUID_nth
  by (auto simp: isHex_toLower) (simp_all add: toLowerChar_def less_eq_char_nat)

lemma isCanonicalUUID_trimmed: "isCanonicalUUID s \<Longrightarrow> trimmed s"
proof (rule trimmed_plain)
  assume s: "isCanonicalUUID s"
  then have ends: "isHex (s ! 0)" "isHex (s ! 35)" and len: "length s = 36"
    by (force simp: isCanonicalUUID_nth)+
  then show "s \<noteq> []" by auto
  with ends len show "\<not> spaceEnd (hd s)" "\<not> spaceEnd (last s)"
    using space_or_sign by (auto simp: hd_conv_nth last_conv_nth)
qed

lemma parsed_again:
  assumes "ParseTenantID raw strategy = Inr t"
  shows "t \<noteq> [] \<and> TrimSpace t = t \<and> ParseTenantID t strategy = Inr t"
proof -
  let ?n = "TrimSpace raw"
  have n: "?n \<noteq> []" using assms by (auto simp: ParseTenantID_def Let_def)
  have trim: "TrimSpace ?n = ?n" by (rule TrimSpace_id [OF TrimSpace_trimmed])
  show ?thesis
  proof (cases "strategy = TenantIDStrategyUUID")
    case True
    with assms n have t: "t = map toLowerChar ?n" and c: "isCanonicalUUID ?n"
      by (auto simp: ParseTenantID_def Let_def split: if_splits)
    have "isCanonicalUUID t" using c t isCanonicalUUID_lower by simp
    moreover have "map toLowerChar t = t" by (simp add: t toLowerChar_idem)
    moreover have "t \<noteq> []" using t n by simp
    ultimately show ?thesis
      using True TrimSpace_id [OF isCanonicalUUID_trimmed] by (simp add: ParseTenantID_def Let_def)
  next
    case False
    with assms n have "t = ?n"
      by (auto simp: ParseTenantID_def Let_def split: TenantIDStrategy.splits if_splits)
    with assms n trim show ?thesis by (simp add: ParseTenantID_def Let_def)
  qed
qed

text \<open>
  A tenant identifier that \<open>ParseTenantID\<close> returns is non-empty and canonical: it has no
  space around it and parsing it again, with the same strategy, returns it unchanged. Two
  spellings of one tenant are therefore told apart only by what the strategy keeps.
\<close>

theorem ParseTenantID_canonical:
  assumes "ParseTenantID raw strategy = Inr t"
  shows "t \<noteq> [] \<and> TrimSpace t = t \<and> ParseTenantID t strategy = Inr t"
  using assms by (rule parsed_again)

theorem ParseTenantID_canonical_witness:
  "ParseTenantID '' A0eebc99-9c0B-4ef8-bb6d-6bb9bd380a11 '' TenantIDStrategyUUID
     = Inr ''a0eebc99-9c0b-4ef8-bb6d-6bb9bd380a11''
   \<and> ParseTenantID ''a0eebc99-9c0b-4ef8-bb6d-6bb9bd380a11'' TenantIDStrategyUUID
     = Inr ''a0eebc99-9c0b-4ef8-bb6d-6bb9bd380a11''"
proof -
  have "ParseTenantID '' A0eebc99-9c0B-4ef8-bb6d-6bb9bd380a11 '' TenantIDStrategyUUID
     = Inr ''a0eebc99-9c0b-4ef8-bb6d-6bb9bd380a11''" by code_simp
  from this ParseTenantID_canonical [OF this] show ?thesis by simp
qed

text \<open>
  An identifier made from an \<open>int64\<close> is accepted by the integer strategy as it is, and
  \<open>Int64\<close> reads the same value back from it.
\<close>

theorem TenantID_int_roundtrip:
  assumes "i64 v"
  shows "ParseTenantID (NewTenantIDFromInt v) TenantIDStrategyInt = Inr (NewTenantIDFromInt v)
    \<and> TenantID_Int64 (NewTenantIDFromInt v) = Inr v"
proof -
  have "TrimSpace (FormatInt v) = FormatInt v"
    by (rule TrimSpace_id, rule trimmed_plain) (simp_all add: FormatInt_neq_Nil FormatInt_ends)
  with assms show ?thesis
    by (simp add: ParseTenantID_def TenantID_Int64_def NewTenantIDFromInt_def Let_def
        ParseInt64_FormatInt FormatInt_neq_Nil)
qed

theorem TenantID_int_roundtrip_witness:
  "TenantID_Int64 (NewTenantIDFromInt (- 9223372036854775808)) = Inr (- 9223372036854775808)"
  by (rule TenantID_int_roundtrip [THEN conjunct2]) (simp add: i64_def)

end
