(* ===== verification/Core_Context.thy ===== *)
theory Core_Context
  imports Core_Types
begin

text \<open>
  The tenant state a context carries (\<open>core/context\<close>): which side an operation runs on, the
  tenant and the deployment unit. A context is what \<open>ctx.Value(stateKey{})\<close> finds in it, the
  innermost state, and nothing when none was ever put in.
\<close>

datatype side = sideNone | sideTenant | sideHost

record tenantState =
  cs_side :: side
  cs_tenant :: Tenant
  cs_deployment :: DeploymentUnit
  cs_hasDeployment :: bool

definition zeroTenant :: Tenant where
  "zeroTenant = \<lparr>tn_ID = [], tn_Name = [], tn_Status = TenantStatusOther [], tn_PlanID = [],
     tn_Config = None\<rparr>"

definition zeroUnit :: DeploymentUnit where
  "zeroUnit = \<lparr>du_ID = [], du_Status = DeploymentUnitStatusOther [], du_Region = [],
     du_ResidencyTags = None, du_Metadata = None\<rparr>"

type_synonym saasContext = "tenantState option"

definition WithTenant :: "saasContext \<Rightarrow> Tenant \<Rightarrow> saasContext" where
  "WithTenant cx tenant = Some \<lparr>cs_side = sideTenant, cs_tenant = tenant,
     cs_deployment = zeroUnit, cs_hasDeployment = False\<rparr>"

definition WithTenantDeployment :: "saasContext \<Rightarrow> Tenant \<Rightarrow> DeploymentUnit \<Rightarrow> saasContext" where
  "WithTenantDeployment cx tenant unit1 = Some \<lparr>cs_side = sideTenant, cs_tenant = tenant,
     cs_deployment = unit1, cs_hasDeployment = True\<rparr>"

definition FromContext :: "saasContext \<Rightarrow> Tenant option" where
  "FromContext cx = (case cx of
       None \<Rightarrow> None
     | Some current \<Rightarrow> if cs_side current \<noteq> sideTenant then None else Some (cs_tenant current))"

definition DeploymentFromContext :: "saasContext \<Rightarrow> DeploymentUnit option" where
  "DeploymentFromContext cx = (case cx of
       None \<Rightarrow> None
     | Some current \<Rightarrow>
         if cs_side current \<noteq> sideTenant \<or> \<not> cs_hasDeployment current then None
         else Some (cs_deployment current))"

definition WithHost :: "saasContext \<Rightarrow> saasContext" where
  "WithHost cx = Some \<lparr>cs_side = sideHost, cs_tenant = zeroTenant, cs_deployment = zeroUnit,
     cs_hasDeployment = False\<rparr>"

definition IsHost :: "saasContext \<Rightarrow> bool" where
  "IsHost cx \<longleftrightarrow> (case cx of None \<Rightarrow> False | Some current \<Rightarrow> cs_side current = sideHost)"

text \<open>\<open>Detach\<close> also drops the cancellation of the parent, which this state does not show.\<close>

definition Detach :: "saasContext \<Rightarrow> saasContext" where
  "Detach cx = Some \<lparr>cs_side = sideNone, cs_tenant = zeroTenant, cs_deployment = zeroUnit,
     cs_hasDeployment = False\<rparr>"

definition Switch :: "saasContext \<Rightarrow> Tenant \<Rightarrow> saasContext" where
  "Switch cx tenant = WithTenant cx tenant"

lemmas tenant_context = WithTenant_def WithTenantDeployment_def FromContext_def
  DeploymentFromContext_def WithHost_def IsHost_def Detach_def Switch_def

text \<open>
  A context is of one side at a time: under any nesting, entering the host side or
  detaching hides the tenant and its deployment of the contexts around it, entering a tenant
  ends the host's privilege and hides the deployment of the tenant before, and no context is
  at once a host context and a tenant context.
\<close>

theorem context_sides_exclusive:
  "IsHost (WithHost cx) \<and> FromContext (WithHost cx) = None
     \<and> DeploymentFromContext (WithHost cx) = None
   \<and> \<not> IsHost (Detach cx) \<and> FromContext (Detach cx) = None
     \<and> DeploymentFromContext (Detach cx) = None
   \<and> \<not> IsHost (Switch cx t) \<and> FromContext (Switch cx t) = Some t
     \<and> DeploymentFromContext (Switch cx t) = None
   \<and> \<not> IsHost (WithTenantDeployment cx t u) \<and> FromContext (WithTenantDeployment cx t u) = Some t
     \<and> DeploymentFromContext (WithTenantDeployment cx t u) = Some u
   \<and> \<not> (IsHost cx \<and> FromContext cx \<noteq> None) \<and> \<not> (IsHost cx \<and> DeploymentFromContext cx \<noteq> None)"
  by (cases cx) (simp_all add: tenant_context)

end
