(* ===== verification/Interfaces.thy ===== *)
theory Interfaces
  imports Prelude
begin

text \<open>
  The interfaces the components rely on, as locales with what their clients get from them:
  \<open>directory\<close> and \<open>cas_directory\<close> (a store of keyed records, which implements a finite map),
  \<open>cursor_listing\<close> (a page-by-page listing that a client walks) and \<open>optimistic\<close> (a command
  that names the version it expects). They are interpreted in the theories of the stores
  that provide them.
\<close>

section \<open>Directories of keyed records\<close>

definition err_of :: "'e + unit \<Rightarrow> 'e option" where
  "err_of r = (case r of Inl e \<Rightarrow> Some e | Inr _ \<Rightarrow> None)"

lemma err_of_simps [simp]:
  "err_of (Inl e) = Some e" "err_of (Inr ()) = None"
  "err_of r = None \<longleftrightarrow> r = Inr ()" "err_of r = Some e \<longleftrightarrow> r = Inl e"
  by (auto simp: err_of_def split: sum.splits)

text \<open>
  What a store of records is asked: one operation with its argument. The answer of a read is
  the record.
\<close>

datatype ('k, 'v) dir_op = DGet 'k | DCreate 'v | DUpdate 'v | DRemove 'k

type_synonym ('e, 'v, 's) answer = "('e + 'v option) \<times> 's"

text \<open>
  The contract, as the operations on a finite map: \<open>check\<close> is the validation of a record,
  \<open>may\<close> the extra test of a replacement, \<open>bad\<close> the test of a key.
\<close>

record ('k, 'v, 'e) dir_rules =
  dr_key :: "'v \<Rightarrow> 'k"
  dr_check :: "'v \<Rightarrow> 'e option"
  dr_may :: "'v \<Rightarrow> 'v \<Rightarrow> 'e option"
  dr_bad :: "'k \<Rightarrow> 'e option"
  dr_exists :: 'e
  dr_missing :: 'e

fun dir_spec ::
  "('k, 'v, 'e) dir_rules \<Rightarrow> ('k, 'v) dir_op \<Rightarrow> ('k \<rightharpoonup> 'v) \<Rightarrow> ('e, 'v, 'k \<rightharpoonup> 'v) answer"
where
  "dir_spec R (DGet k) m =
     ((case dr_bad R k of Some e \<Rightarrow> Inl e | None \<Rightarrow>
        (case m k of None \<Rightarrow> Inl (dr_missing R) | Some v \<Rightarrow> Inr (Some v))), m)"
| "dir_spec R (DCreate v) m =
     (case dr_check R v of Some e \<Rightarrow> (Inl e, m) | None \<Rightarrow>
        if m (dr_key R v) \<noteq> None then (Inl (dr_exists R), m)
        else (Inr None, m(dr_key R v \<mapsto> v)))"
| "dir_spec R (DUpdate v) m =
     (case dr_check R v of Some e \<Rightarrow> (Inl e, m) | None \<Rightarrow>
        (case m (dr_key R v) of None \<Rightarrow> (Inl (dr_missing R), m) | Some old \<Rightarrow>
           (case dr_may R old v of Some e \<Rightarrow> (Inl e, m) | None \<Rightarrow>
              (Inr None, m(dr_key R v \<mapsto> v)))))"
| "dir_spec R (DRemove k) m =
     (case dr_bad R k of Some e \<Rightarrow> (Inl e, m) | None \<Rightarrow>
        if m k = None then (Inl (dr_missing R), m) else (Inr None, m(k := None)))"

text \<open>A run of operations, with their answers in order.\<close>

fun dir_run ::
  "(('k, 'v) dir_op \<Rightarrow> 's \<Rightarrow> ('e, 'v, 's) answer) \<Rightarrow> ('k, 'v) dir_op list \<Rightarrow> 's
     \<Rightarrow> ('e + 'v option) list \<times> 's"
where
  "dir_run exec [] s = ([], s)"
| "dir_run exec (op # ops) s =
     (let (r, s') = exec op s; (rs, s'') = dir_run exec ops s' in (r # rs, s''))"

definition dir_keyed :: "('k, 'v, 'e) dir_rules \<Rightarrow> ('k \<rightharpoonup> 'v) \<Rightarrow> bool" where
  "dir_keyed R m \<longleftrightarrow> (\<forall>k v. m k = Some v \<longrightarrow> dr_key R v = k \<and> dr_check R v = None)"

lemma dir_spec_keyed: "dir_keyed R m \<Longrightarrow> dir_keyed R (snd (dir_spec R op m))"
  by (cases op) (auto simp: dir_keyed_def split: option.splits)

lemma dir_spec_get_state [simp]: "snd (dir_spec R (DGet k) m) = m"
  by simp

lemma dir_spec_error: "fst (dir_spec R op m) = Inl e \<Longrightarrow> snd (dir_spec R op m) = m"
  by (cases op) (auto split: option.splits if_splits)

locale directory =
  fixes R :: "('k, 'v, 'e) dir_rules"
    and provides :: "('k, 'v) dir_op \<Rightarrow> bool"
    and inv :: "'s \<Rightarrow> bool"
    and abs :: "'s \<Rightarrow> 'k \<Rightarrow> 'v option"
    and exec :: "('k, 'v) dir_op \<Rightarrow> 's \<Rightarrow> ('e, 'v, 's) answer"
  assumes exec_inv: "inv s \<Longrightarrow> provides op \<Longrightarrow> inv (snd (exec op s))"
    and exec_spec: "inv s \<Longrightarrow> provides op \<Longrightarrow>
      (fst (exec op s), abs (snd (exec op s))) = dir_spec R op (abs s)"
    and check_key: "dr_check R v = None \<Longrightarrow> dr_bad R (dr_key R v) = None"
begin

lemma exec_fst: "inv s \<Longrightarrow> provides op \<Longrightarrow> fst (exec op s) = fst (dir_spec R op (abs s))"
  using exec_spec by (metis fst_conv)

lemma exec_abs: "inv s \<Longrightarrow> provides op \<Longrightarrow> abs (snd (exec op s)) = snd (dir_spec R op (abs s))"
  using exec_spec by (metis snd_conv)

text \<open>A run of the store is the run of the finite map.\<close>

lemma run_refines:
  "inv s \<Longrightarrow> list_all provides ops \<Longrightarrow>
     fst (dir_run exec ops s) = fst (dir_run (dir_spec R) ops (abs s))
     \<and> abs (snd (dir_run exec ops s)) = snd (dir_run (dir_spec R) ops (abs s))
     \<and> inv (snd (dir_run exec ops s))"
proof (induction ops arbitrary: s)
  case (Cons op ops)
  then have p: "provides op" by simp
  have i: "inv (snd (exec op s))" using Cons.prems exec_inv by simp
  have "fst (dir_spec R op (abs s)) = fst (exec op s)"
       "snd (dir_spec R op (abs s)) = abs (snd (exec op s))"
    using Cons.prems p by (simp_all add: exec_fst exec_abs)
  with Cons.IH [OF i] Cons.prems show ?case by (simp add: Let_def split_beta)
qed simp

lemma run_keyed:
  assumes "inv s" "list_all provides ops" "dir_keyed R (abs s)"
  shows "dir_keyed R (abs (snd (dir_run exec ops s)))"
proof -
  have "dir_keyed R (snd (dir_run (dir_spec R) ops m))" if "dir_keyed R m" for m
    using that
  proof (induction ops arbitrary: m)
    case (Cons op ops)
    then show ?case using dir_spec_keyed by (auto simp: Let_def split_beta)
  qed simp
  with assms run_refines show ?thesis by auto
qed

text \<open>A record reads back as it was written, and only its key changes.\<close>

lemma create_get:
  assumes "inv s" "provides (DCreate v)" "fst (exec (DCreate v) s) = Inr a" "provides (DGet k)"
  shows "fst (exec (DGet k) (snd (exec (DCreate v) s)))
    = (if k = dr_key R v then Inr (Some v) else fst (exec (DGet k) s))"
proof -
  have ok: "fst (dir_spec R (DCreate v) (abs s)) = Inr a" using assms by (simp add: exec_fst)
  then have c: "dr_check R v = None" by (auto split: option.splits)
  with ok have m: "abs (snd (exec (DCreate v) s)) = (abs s)(dr_key R v \<mapsto> v)"
    using assms by (auto simp: exec_abs split: if_splits)
  show ?thesis
    using assms exec_inv [of s] check_key [OF c]
    by (cases "k = dr_key R v") (simp_all add: exec_fst m split: option.split)
qed

lemma failed_keeps: "inv s \<Longrightarrow> provides op \<Longrightarrow> fst (exec op s) = Inl e \<Longrightarrow> abs (snd (exec op s)) = abs s"
  using dir_spec_error by (simp add: exec_fst exec_abs)

end

text \<open>
  A directory with a conditional replacement. \<open>same\<close> is the equality of records the store
  compares with.
\<close>

locale cas_directory = directory R provides inv abs exec
  for R :: "('k, 'v, 'e) dir_rules" and provides inv and abs :: "'s \<Rightarrow> 'k \<Rightarrow> 'v option" and exec +
  fixes same :: "'v \<Rightarrow> 'v \<Rightarrow> bool" and conflict :: 'e
    and cas :: "'v \<Rightarrow> 'v \<Rightarrow> 's \<Rightarrow> ('e + unit) \<times> 's"
  assumes cas_inv: "inv s \<Longrightarrow> inv (snd (cas old new s))"
    and cas_ok: "inv s \<Longrightarrow> fst (cas old new s) = Inr u \<longleftrightarrow>
      dr_check R old = None \<and> dr_check R new = None \<and> dr_key R old = dr_key R new
      \<and> (\<exists>v. abs s (dr_key R old) = Some v \<and> same v old)"
    and cas_done: "inv s \<Longrightarrow> fst (cas old new s) = Inr u \<Longrightarrow>
      abs (snd (cas old new s)) = (abs s)(dr_key R new \<mapsto> new)"
    and cas_failed: "inv s \<Longrightarrow> fst (cas old new s) = Inl e \<Longrightarrow> abs (snd (cas old new s)) = abs s"
begin

text \<open>
  Two replacements of one snapshot do not both happen: the second one fails as long as what
  the key holds then is not the same as the snapshot.
\<close>

lemma second_cas_fails:
  assumes "inv s" "fst (cas old new s) = Inr u" "\<not> same new old"
  shows "\<exists>e. fst (cas old new' (snd (cas old new s))) = Inl e"
proof -
  let ?t = "snd (cas old new s)"
  have k: "dr_key R old = dr_key R new" using assms cas_ok by blast
  have "abs ?t (dr_key R old) = Some new" using assms k cas_done by simp
  with assms cas_inv have "fst (cas old new' ?t) \<noteq> Inr u'" for u'
    using cas_ok [of ?t old new' u'] by auto
  then show ?thesis by (cases "fst (cas old new' ?t)") auto
qed

end

section \<open>Listings by cursor\<close>

text \<open>
  A client that asks page after page, from the last key of the page before; between two
  pages the store may have changed, so every page has its own state.
\<close>

fun walk_pages :: "('a \<Rightarrow> 'k) \<Rightarrow> ('s \<Rightarrow> 'k \<Rightarrow> 'a list) \<Rightarrow> 's list \<Rightarrow> 'k \<Rightarrow> 'a list" where
  "walk_pages key page [] c = []"
| "walk_pages key page (s # ss) c =
     (let xs = page s c in if xs = [] then [] else xs @ walk_pages key page ss (key (last xs)))"

locale cursor_listing =
  fixes key :: "'a \<Rightarrow> 'k :: linorder"
    and inv :: "'s \<Rightarrow> bool"
    and rows :: "'s \<Rightarrow> 'f \<Rightarrow> 'a list"
    and page :: "nat \<Rightarrow> 'f \<Rightarrow> 's \<Rightarrow> 'k \<Rightarrow> 'a list"
  assumes rows_sorted: "inv s \<Longrightarrow> sorted_wrt (<) (map key (rows s f))"
    and page_rows: "inv s \<Longrightarrow> 0 < n \<Longrightarrow> page n f s c = take n (filter (\<lambda>x. c < key x) (rows s f))"
begin

lemma page_sorted: "inv s \<Longrightarrow> 0 < n \<Longrightarrow> sorted_wrt (<) (map key (page n f s c))"
  using rows_sorted [of s f]
  by (simp add: page_rows sorted_wrt_map sorted_wrt_filter sorted_wrt_take)

lemma page_after: "inv s \<Longrightarrow> 0 < n \<Longrightarrow> x \<in> set (page n f s c) \<Longrightarrow> c < key x \<and> x \<in> set (rows s f)"
  by (auto simp: page_rows dest: in_set_takeD)

lemma page_last:
  "inv s \<Longrightarrow> 0 < n \<Longrightarrow> x \<in> set (page n f s c) \<Longrightarrow> key x \<le> key (last (page n f s c))"
proof -
  assume i: "inv s" "0 < n" and x: "x \<in> set (page n f s c)"
  then obtain ys y where p: "page n f s c = ys @ [y]" by (metis append_butlast_last_id empty_iff list.set(1))
  with page_sorted [OF i, of f c] x show ?thesis by (auto simp: sorted_wrt_append)
qed

text \<open>What a page leaves out after its cursor is beyond its last key.\<close>

lemma page_rest:
  assumes i: "inv s" "0 < n" and x: "x \<in> set (rows s f)" "c < key x"
    and out: "x \<notin> set (page n f s c)"
  shows "page n f s c \<noteq> [] \<and> key (last (page n f s c)) < key x"
proof -
  let ?r = "filter (\<lambda>x. c < key x) (rows s f)"
  have sorted: "sorted_wrt (\<lambda>a b. key a < key b) ?r"
    using rows_sorted [OF i(1), of f] by (simp add: sorted_wrt_map sorted_wrt_filter)
  have "x \<in> set ?r" using x by simp
  moreover have "x \<notin> set (take n ?r)" using out i by (simp add: page_rows)
  ultimately have d: "x \<in> set (drop n ?r)"
    by (metis Un_iff append_take_drop_id set_append)
  then have "take n ?r \<noteq> []" using i(2) by auto
  moreover from sorted have "sorted_wrt (\<lambda>a b. key a < key b) (take n ?r @ drop n ?r)" by simp
  then have "\<forall>a\<in>set (take n ?r). key a < key x" using d by (simp only: sorted_wrt_append) blast
  ultimately show ?thesis using i by (simp add: page_rows)
qed

text \<open>No row twice, and in order, whatever the store did between the pages.\<close>

lemma walk_after:
  "list_all inv ss \<Longrightarrow> 0 < n \<Longrightarrow> x \<in> set (walk_pages key (page n f) ss c) \<Longrightarrow> c < key x"
proof (induction ss arbitrary: c)
  case (Cons s ss)
  let ?p = "page n f s c"
  from Cons.prems consider "x \<in> set ?p"
    | "last ?p \<in> set ?p" "x \<in> set (walk_pages key (page n f) ss (key (last ?p)))"
    by (auto simp: Let_def split: if_splits)
  then show ?case
  proof cases
    case 1
    then show ?thesis using Cons.prems page_after [of s n x f c] by simp
  next
    case 2
    then have "c < key (last ?p)" using Cons.prems page_after [of s n "last ?p" f c] by simp
    also have "\<dots> < key x" using 2 Cons by simp
    finally show ?thesis .
  qed
qed simp

lemma walk_sorted:
  "list_all inv ss \<Longrightarrow> 0 < n \<Longrightarrow> sorted_wrt (<) (map key (walk_pages key (page n f) ss c))"
proof (induction ss arbitrary: c)
  case (Cons s ss)
  let ?p = "page n f s c"
  have "key x < key y" if "x \<in> set ?p" "y \<in> set (walk_pages key (page n f) ss (key (last ?p)))" for x y
    using that Cons.prems page_last [of s n x f c] walk_after [of ss n y f] by fastforce
  with Cons page_sorted [of s n f c] show ?case by (auto simp: Let_def sorted_wrt_append)
qed simp

text \<open>A row that is there all along is listed, once the walk has run to its end.\<close>

lemma walk_complete:
  "list_all inv ss \<Longrightarrow> 0 < n \<Longrightarrow> \<forall>s\<in>set ss. x \<in> set (rows s f) \<Longrightarrow> c < key x
     \<Longrightarrow> length (walk_pages key (page n f) ss c) < length ss
     \<Longrightarrow> x \<in> set (walk_pages key (page n f) ss c)"
proof (induction ss arbitrary: c)
  case (Cons s ss)
  let ?p = "page n f s c"
  show ?case
  proof (cases "x \<in> set ?p")
    case False
    with Cons.prems page_rest [of s n x f c]
    have p: "?p \<noteq> []" "key (last ?p) < key x" by simp_all
    then have "0 < length ?p" by simp
    moreover have "length ?p + length (walk_pages key (page n f) ss (key (last ?p))) < Suc (length ss)"
      using Cons.prems p by (simp add: Let_def)
    ultimately have "length (walk_pages key (page n f) ss (key (last ?p))) < length ss" by linarith
    with Cons p show ?thesis by (simp add: Let_def)
  qed (use Cons.prems in \<open>auto simp: Let_def\<close>)
qed simp

lemma walk_rows:
  "inv s \<Longrightarrow> 0 < n \<Longrightarrow>
     set (walk_pages key (page n f) (replicate m s) c) \<subseteq> set (rows s f)"
proof (induction m arbitrary: c)
  case (Suc m)
  then show ?case using page_after [of s n _ f c] by (auto simp: Let_def)
qed simp

text \<open>On a store that does not change the pages are the listing.\<close>

lemma walk_whole:
  assumes "inv s" "0 < n" "length (rows s f) < m" and start: "\<And>x. x \<in> set (rows s f) \<Longrightarrow> c < key x"
  shows "walk_pages key (page n f) (replicate m s) c = rows s f"
proof -
  let ?w = "walk_pages key (page n f) (replicate m s) c"
  have sw: "sorted_wrt (<) (map key ?w)" and sr: "sorted_wrt (<) (map key (rows s f))"
    using assms walk_sorted [of "replicate m s" n f c] rows_sorted by (simp_all add: list_all_iff)
  have sub: "set ?w \<subseteq> set (rows s f)" using assms walk_rows by blast
  have dw: "distinct ?w" using sw by (metis distinct_map strict_sorted_iff)
  have "length ?w \<le> length (rows s f)"
    using sub dw by (metis List.finite_set card_length card_mono distinct_card le_trans)
  then have "length ?w < m" using assms by simp
  then have "x \<in> set ?w" if "x \<in> set (rows s f)" for x
    using walk_complete [of "replicate m s" n x f c] that assms by (simp add: list_all_iff)
  with sub have "set ?w = set (rows s f)" by blast
  moreover have "inj_on key (set (rows s f))" using sr by (metis distinct_map strict_sorted_iff)
  ultimately show ?thesis
    using sw sr by (metis list.set_map map_inj_on strict_sorted_equal sup.idem)
qed

end

section \<open>Commands that name the version they expect\<close>

locale optimistic =
  fixes inv :: "'s \<Rightarrow> bool"
    and step :: "'s \<Rightarrow> 's \<Rightarrow> bool"
    and version :: "'s \<Rightarrow> 'k \<Rightarrow> 'v :: linorder option"
    and attempt :: "'k \<Rightarrow> 'v \<Rightarrow> 'a \<Rightarrow> 's \<Rightarrow> ('e + 'r) \<times> 's"
  assumes step_inv: "inv s \<Longrightarrow> step s s' \<Longrightarrow> inv s'"
    and step_version: "inv s \<Longrightarrow> step s s' \<Longrightarrow> version s k = Some v \<Longrightarrow> \<exists>v'\<ge>v. version s' k = Some v'"
    and attempt_wins: "inv s \<Longrightarrow> attempt k v a s = (Inr r, s') \<Longrightarrow>
      inv s' \<and> version s k = Some v \<and> (\<exists>v'>v. version s' k = Some v')"
begin

lemma steps_version:
  "step\<^sup>*\<^sup>* s s' \<Longrightarrow> inv s \<Longrightarrow> version s k = Some v \<Longrightarrow> inv s' \<and> (\<exists>v'\<ge>v. version s' k = Some v')"
proof (induction rule: rtranclp_induct)
  case (step t t')
  then show ?case using step_inv step_version by (metis order_trans)
qed auto

text \<open>Of the commands that expect one version of a record at most one wins.\<close>

lemma one_winner:
  assumes "inv s" "attempt k v a s = (Inr r, s1)" "step\<^sup>*\<^sup>* s1 s2"
  shows "\<exists>e. fst (attempt k v b s2) = Inl e"
proof (cases "attempt k v b s2")
  case (Pair res s3)
  obtain v1 where w: "inv s1" "v < v1" "version s1 k = Some v1" using attempt_wins assms by blast
  with steps_version assms(3) obtain v2 where s2: "inv s2" "v1 \<le> v2" "version s2 k = Some v2"
    by blast
  show ?thesis
  proof (cases res)
    case (Inr r')
    with Pair s2 attempt_wins have "version s2 k = Some v" by blast
    with s2 w show ?thesis by simp
  qed (simp add: Pair)
qed

end

end
