(* ===== verification/Paging.thy ===== *)
theory Paging
  imports Interfaces
begin

text \<open>
  The paging the in-memory stores share: \<open>pageTenants\<close>, \<open>pagePlans\<close> and
  \<open>pageSubscriptions\<close> are one function, and so are \<open>seekTenants\<close>, \<open>seekPlans\<close> and
  \<open>seekSubscriptions\<close>; both work on rows sorted by a key that no two rows share.
\<close>

lemma bot_less_string: "(s :: string) \<noteq> [] \<Longrightarrow> [] < s"
  by (cases s) simp_all

text \<open>\<open>rows[start:end]\<close>; a negative offset has been refused before.\<close>

definition pageRows :: "int64 \<Rightarrow> int64 \<Rightarrow> 'a list \<Rightarrow> 'a list" where
  "pageRows offset limit rows =
     (if int (length rows) \<le> offset then []
      else let start = offset;
               stop = (if 0 < limit \<and> limit < int (length rows) - start then start + limit
                       else int (length rows))
           in take (nat stop - nat start) (drop (nat start) rows))"

definition seekRows :: "('a \<Rightarrow> string) \<Rightarrow> string \<Rightarrow> 'a list \<Rightarrow> 'a list" where
  "seekRows key cursor rows =
     (if cursor = [] then rows else dropWhile (\<lambda>r. \<not> cursor < key r) rows)"

definition sortRows :: "('a \<Rightarrow> string) \<Rightarrow> ('a \<Rightarrow> bool) \<Rightarrow> ('k, 'a) gomap \<Rightarrow> 'a list" where
  "sortRows key matches m = sort_key key (filter matches (vals m))"

lemma pageRows_all: "pageRows 0 0 rows = rows"
  by (simp add: pageRows_def)

lemma pageRows_limit: "0 < n \<Longrightarrow> pageRows 0 (int n) rows = take n rows"
  by (auto simp: pageRows_def Let_def)

lemma pageRows_general:
  "0 \<le> offset \<Longrightarrow> 0 < limit \<Longrightarrow> pageRows offset limit rows = take (nat limit) (drop (nat offset) rows)"
  by (auto simp: pageRows_def Let_def nat_diff_distrib nat_add_distrib le_nat_iff)

definition keyed_map :: "('a \<Rightarrow> 'k) \<Rightarrow> ('k, 'a) gomap \<Rightarrow> bool" where
  "keyed_map key m \<longleftrightarrow> wf_map m \<and> (\<forall>k v. map_of m k = Some v \<longrightarrow> key v = k)"

lemma keyed_mapD: "keyed_map key m \<Longrightarrow> map_of m k = Some v \<Longrightarrow> key v = k"
  by (simp add: keyed_map_def)

lemma keyed_map_wf: "keyed_map key m \<Longrightarrow> wf_map m"
  by (simp add: keyed_map_def)

lemma keyed_map_vals: "keyed_map key m \<Longrightarrow> map key (vals m) = map fst m"
  by (auto simp: keyed_map_def vals_def)

lemma keyed_map_Nil [simp]: "keyed_map key []"
  by (simp add: keyed_map_def)

lemma keyed_map_update: "keyed_map key m \<Longrightarrow> key v = k \<Longrightarrow> keyed_map key (AList.update k v m)"
  by (simp add: keyed_map_def)

lemma keyed_map_delete: "keyed_map key m \<Longrightarrow> keyed_map key (AList.delete k m)"
  by (simp add: keyed_map_def)

lemma keyed_map_in_vals: "keyed_map key m \<Longrightarrow> v \<in> set (vals m) \<longleftrightarrow> map_of m (key v) = Some v"
  using keyed_mapD by (fastforce simp: keyed_map_wf in_vals_iff)

lemma list_ex_vals:
  "keyed_map key m \<Longrightarrow> list_ex P (vals m) \<longleftrightarrow> (\<exists>k v. map_of m k = Some v \<and> P v)"
  unfolding list_ex_iff using keyed_map_wf in_vals_iff by metis

lemma in_sortRows: "keyed_map key m \<Longrightarrow> v \<in> set (sortRows key P m) \<longleftrightarrow> map_of m (key v) = Some v \<and> P v"
  by (auto simp: sortRows_def keyed_map_in_vals)

lemma sortRows_sorted:
  assumes "keyed_map key m"
  shows "sorted_wrt (<) (map key (sortRows key P m))"
proof -
  have "distinct (map key (vals m))" using assms by (simp add: keyed_map_vals keyed_map_wf)
  then have "distinct (map key (filter P (vals m)))" by (rule distinct_map_filter)
  then have "distinct (map key (sortRows key P m))" by (simp add: sortRows_def distinct_map)
  moreover have "sorted (map key (sortRows key P m))" by (simp add: sortRows_def)
  ultimately show ?thesis by (simp add: strict_sorted_iff)
qed

lemma dropWhile_sorted:
  fixes key :: "'a \<Rightarrow> 'k :: linorder"
  shows "sorted_wrt (<) (map key rows) \<Longrightarrow> dropWhile (\<lambda>r. \<not> c < key r) rows = filter (\<lambda>r. c < key r) rows"
proof (induction rows)
  case (Cons r rows)
  show ?case
  proof (cases "c < key r")
    case True
    with Cons.prems have "\<forall>x\<in>set rows. c < key x" by (auto intro: less_trans)
    with True show ?thesis by simp
  qed (use Cons in auto)
qed simp

lemma seekRows_filter:
  assumes "sorted_wrt (<) (map key rows)" "\<And>r. r \<in> set rows \<Longrightarrow> key r \<noteq> []"
  shows "seekRows key c rows = filter (\<lambda>r. c < key r) rows"
proof (cases "c = []")
  case True
  have "\<forall>r\<in>set rows. c < key r" using assms(2) True by (auto intro: bot_less_string)
  then show ?thesis by (simp add: seekRows_def True)
next
  case False
  then show ?thesis using dropWhile_sorted [OF assms(1)] by (simp add: seekRows_def)
qed

lemma page_of_rows:
  assumes "keyed_map key m" "\<And>v. v \<in> set (vals m) \<Longrightarrow> key v \<noteq> []" "0 < n"
  shows "pageRows 0 (int n) (seekRows key c (sortRows key P m))
    = take n (filter (\<lambda>r. c < key r) (sortRows key P m))"
proof -
  have "seekRows key c (sortRows key P m) = filter (\<lambda>r. c < key r) (sortRows key P m)"
    using assms by (intro seekRows_filter sortRows_sorted) (auto simp: sortRows_def)
  then show ?thesis using assms by (simp add: pageRows_limit)
qed

end
