(* ===== verification/Tenant_Store.thy ===== *)
theory Tenant_Store
  imports Core_Types Paging
begin

text \<open>
  The in-memory tenant store (\<open>core/store\<close>): \<open>MemoryStore\<close>, its filters and its paging.
  It provides the directory contract with conditional replacement, and the listing contract.
\<close>

datatype tenant_error =
  TenantCtx ctx_error | ErrInvalidTenant | ErrTenantStatusRequired | ErrTenantNotFound
| ErrTenantAlreadyExists | ErrTenantConflict | ErrTenantListFilter | ErrInvalidState
| ErrHostRequired | ErrTenantHook string | ErrTenantJoined tenant_error tenant_error

record TenantMemory =
  tm_tenants :: "(TenantID, Tenant) gomap"

record TenantListFilter =
  tf_Statuses :: "TenantStatus list"
  tf_Limit :: int64
  tf_Offset :: int64

record TenantPageFilter =
  tp_Statuses :: "TenantStatus list"
  tp_Limit :: int64
  tp_Offset :: int64
  tp_Cursor :: TenantID

definition NewTenantMemory :: TenantMemory where
  "NewTenantMemory = \<lparr>tm_tenants = []\<rparr>"

definition validateTenant :: "Tenant \<Rightarrow> tenant_error + unit" where
  "validateTenant tenant =
     (if tn_ID tenant = [] then Inl ErrInvalidTenant
      else if tn_Status tenant = TenantStatusOther [] then Inl ErrTenantStatusRequired
      else Inr ())"

definition tenantFilterMatches :: "TenantListFilter \<Rightarrow> Tenant \<Rightarrow> bool" where
  "tenantFilterMatches filt tenant \<longleftrightarrow>
     tf_Statuses filt = [] \<or> list_ex (\<lambda>status. tn_Status tenant = status) (tf_Statuses filt)"

definition tenantFilterValidate :: "TenantListFilter \<Rightarrow> tenant_error + unit" where
  "tenantFilterValidate filt =
     (if tf_Limit filt < 0 \<or> tf_Offset filt < 0 then Inl ErrTenantListFilter
      else if 0 < tf_Offset filt \<and> tf_Limit filt = 0 then Inl ErrTenantListFilter
      else Inr ())"

definition tenantPageListFilter :: "TenantPageFilter \<Rightarrow> TenantListFilter" where
  "tenantPageListFilter filt =
     \<lparr>tf_Statuses = tp_Statuses filt, tf_Limit = tp_Limit filt, tf_Offset = tp_Offset filt\<rparr>"

definition tenantPageValidate :: "TenantPageFilter \<Rightarrow> tenant_error + unit" where
  "tenantPageValidate filt =
     bind_ok (tenantFilterValidate (tenantPageListFilter filt)) (\<lambda>_.
       if tp_Cursor filt \<noteq> [] \<and> 0 < tp_Offset filt then Inl ErrTenantListFilter
       else Inr ())"

definition pageTenants :: "Tenant list \<Rightarrow> TenantListFilter \<Rightarrow> Tenant list" where
  "pageTenants tenants filt = pageRows (tf_Offset filt) (tf_Limit filt) tenants"

definition seekTenants :: "Tenant list \<Rightarrow> TenantID \<Rightarrow> Tenant list" where
  "seekTenants tenants cursor = seekRows tn_ID cursor tenants"

section \<open>Operations\<close>

definition tenantCtx :: "ctx \<Rightarrow> tenant_error + unit" where
  "tenantCtx cx = (case cx of None \<Rightarrow> Inr () | Some e \<Rightarrow> Inl (TenantCtx e))"

definition Tenants_Get :: "ctx \<Rightarrow> TenantID \<Rightarrow> TenantMemory \<Rightarrow> tenant_error + Tenant" where
  "Tenants_Get cx tid st =
     bind_ok (tenantCtx cx) (\<lambda>_.
       if tid = [] then Inl ErrInvalidTenant
       else (case map_of (tm_tenants st) tid of
               None \<Rightarrow> Inl ErrTenantNotFound
             | Some tenant \<Rightarrow> Inr tenant))"

definition tenantsList :: "TenantListFilter \<Rightarrow> TenantID \<Rightarrow> TenantMemory \<Rightarrow> Tenant list" where
  "tenantsList filt cursor st =
     pageTenants (seekTenants (sortRows tn_ID (tenantFilterMatches filt) (tm_tenants st)) cursor)
       filt"

definition Tenants_List :: "ctx \<Rightarrow> TenantListFilter \<Rightarrow> TenantMemory \<Rightarrow> tenant_error + Tenant list" where
  "Tenants_List cx filt st =
     bind_ok (tenantCtx cx) (\<lambda>_. bind_ok (tenantFilterValidate filt) (\<lambda>_.
       Inr (tenantsList filt [] st)))"

definition Tenants_ListPage ::
  "ctx \<Rightarrow> TenantPageFilter \<Rightarrow> TenantMemory \<Rightarrow> tenant_error + Tenant list"
where
  "Tenants_ListPage cx filt st =
     bind_ok (tenantCtx cx) (\<lambda>_. bind_ok (tenantPageValidate filt) (\<lambda>_.
       Inr (tenantsList (tenantPageListFilter filt) (tp_Cursor filt) st)))"

definition putTenant :: "Tenant \<Rightarrow> TenantMemory \<Rightarrow> TenantMemory" where
  "putTenant tenant st = st\<lparr>tm_tenants := AList.update (tn_ID tenant) tenant (tm_tenants st)\<rparr>"

definition Tenants_Create ::
  "ctx \<Rightarrow> Tenant \<Rightarrow> TenantMemory \<Rightarrow> (tenant_error + unit) \<times> TenantMemory"
where
  "Tenants_Create cx tenant st =
     on_ok (tenantCtx cx) st (\<lambda>_. on_ok (validateTenant tenant) st (\<lambda>_.
       if map_of (tm_tenants st) (tn_ID tenant) \<noteq> None then fails ErrTenantAlreadyExists st
       else (Inr (), putTenant tenant st)))"

definition Tenants_Update ::
  "ctx \<Rightarrow> Tenant \<Rightarrow> TenantMemory \<Rightarrow> (tenant_error + unit) \<times> TenantMemory"
where
  "Tenants_Update cx tenant st =
     on_ok (tenantCtx cx) st (\<lambda>_. on_ok (validateTenant tenant) st (\<lambda>_.
       if map_of (tm_tenants st) (tn_ID tenant) = None then fails ErrTenantNotFound st
       else (Inr (), putTenant tenant st)))"

definition Tenants_CompareAndSwap ::
  "ctx \<Rightarrow> Tenant \<Rightarrow> Tenant \<Rightarrow> TenantMemory \<Rightarrow> (tenant_error + unit) \<times> TenantMemory"
where
  "Tenants_CompareAndSwap cx expected updated st =
     on_ok (tenantCtx cx) st (\<lambda>_. on_ok (validateTenant expected) st (\<lambda>_.
     on_ok (validateTenant updated) st (\<lambda>_.
       if tn_ID expected \<noteq> tn_ID updated then fails ErrInvalidTenant st
       else case map_of (tm_tenants st) (tn_ID expected) of
         None \<Rightarrow> fails ErrTenantNotFound st
       | Some current \<Rightarrow>
           if \<not> tenantsEqual current expected then fails ErrTenantConflict st
           else (Inr (), putTenant updated st))))"

definition Tenants_Delete ::
  "ctx \<Rightarrow> TenantID \<Rightarrow> TenantMemory \<Rightarrow> (tenant_error + unit) \<times> TenantMemory"
where
  "Tenants_Delete cx tid st =
     on_ok (tenantCtx cx) st (\<lambda>_.
       if tid = [] then fails ErrInvalidTenant st
       else if map_of (tm_tenants st) tid = None then fails ErrTenantNotFound st
       else (Inr (), st\<lparr>tm_tenants := AList.delete tid (tm_tenants st)\<rparr>))"

section \<open>The directory contract\<close>

definition tenant_inv :: "TenantMemory \<Rightarrow> bool" where
  "tenant_inv st \<longleftrightarrow> keyed_map tn_ID (tm_tenants st)
     \<and> (\<forall>tid t. map_of (tm_tenants st) tid = Some t \<longrightarrow> validateTenant t = Inr ())"

definition tenantRules :: "(TenantID, Tenant, tenant_error) dir_rules" where
  "tenantRules = \<lparr>dr_key = tn_ID, dr_check = (\<lambda>t. err_of (validateTenant t)),
     dr_may = (\<lambda>_ _. None), dr_bad = (\<lambda>tid. if tid = [] then Some ErrInvalidTenant else None),
     dr_exists = ErrTenantAlreadyExists, dr_missing = ErrTenantNotFound\<rparr>"

fun tenantExec ::
  "(TenantID, Tenant) dir_op \<Rightarrow> TenantMemory \<Rightarrow> (tenant_error, Tenant, TenantMemory) answer"
where
  "tenantExec (DGet tid) st = (map_sum id Some (Tenants_Get None tid st), st)"
| "tenantExec (DCreate t) st = map_prod (map_sum id (\<lambda>_. None)) id (Tenants_Create None t st)"
| "tenantExec (DUpdate t) st = map_prod (map_sum id (\<lambda>_. None)) id (Tenants_Update None t st)"
| "tenantExec (DRemove tid) st = map_prod (map_sum id (\<lambda>_. None)) id (Tenants_Delete None tid st)"

lemmas tenant_ops = Tenants_Get_def Tenants_Create_def Tenants_Update_def Tenants_Delete_def
  Tenants_CompareAndSwap_def

lemma tenantCtx_simps [simp]: "tenantCtx None = Inr ()" "tenantCtx (Some e) = Inl (TenantCtx e)"
  by (simp_all add: tenantCtx_def)

lemma tm_tenants_put [simp]:
  "tm_tenants (putTenant t st) = AList.update (tn_ID t) t (tm_tenants st)"
  by (simp add: putTenant_def)

lemma tenant_inv_put:
  "tenant_inv st \<Longrightarrow> validateTenant t = Inr () \<Longrightarrow> tenant_inv (putTenant t st)"
  by (simp add: tenant_inv_def keyed_map_update)

lemma tenant_inv_delete:
  "tenant_inv st \<Longrightarrow> tenant_inv (st\<lparr>tm_tenants := AList.delete tid (tm_tenants st)\<rparr>)"
  by (simp add: tenant_inv_def keyed_map_delete)

lemma tenant_inv_new: "tenant_inv NewTenantMemory"
  by (simp add: tenant_inv_def NewTenantMemory_def)

lemma validateTenant_key: "validateTenant t = Inr () \<Longrightarrow> tn_ID t \<noteq> []"
  by (auto simp: validateTenant_def)

lemma tenant_op_inv:
  "tenant_inv st \<Longrightarrow> tenant_inv (snd (Tenants_Create cx t st))"
  "tenant_inv st \<Longrightarrow> tenant_inv (snd (Tenants_Update cx t st))"
  "tenant_inv st \<Longrightarrow> tenant_inv (snd (Tenants_Delete cx tid st))"
  "tenant_inv st \<Longrightarrow> tenant_inv (snd (Tenants_CompareAndSwap cx t t' st))"
  by (auto simp: tenant_ops on_ok_def tenant_inv_put tenant_inv_delete
      split: sum.splits option.splits)

lemma tenant_exec_inv: "tenant_inv st \<Longrightarrow> tenant_inv (snd (tenantExec op st))"
  by (cases op) (simp_all add: tenant_op_inv)

lemma tenant_exec_spec:
  "(fst (tenantExec op st), map_of (tm_tenants (snd (tenantExec op st))))
     = dir_spec tenantRules op (map_of (tm_tenants st))"
  by (cases op)
     (auto simp: tenant_ops tenantRules_def on_ok_def err_of_def split: sum.splits option.splits)

interpretation tenants: cas_directory tenantRules "\<lambda>_. True" tenant_inv
    "\<lambda>st. map_of (tm_tenants st)" tenantExec tenantsEqual ErrTenantConflict
    "Tenants_CompareAndSwap None"
proof (unfold_locales, goal_cases)
  case (1 st op)
  then show ?case by (simp add: tenant_exec_inv)
next
  case (2 st op)
  then show ?case by (simp add: tenant_exec_spec)
next
  case (3 t)
  then show ?case by (auto simp: tenantRules_def dest: validateTenant_key)
next
  case (4 st old new)
  then show ?case by (simp add: tenant_op_inv)
next
  case (5 st old new u)
  then show ?case
    by (auto simp: tenant_ops tenantRules_def on_ok_def split: sum.splits option.splits if_splits)
next
  case (6 st old new u)
  then show ?case
    by (auto simp: tenant_ops tenantRules_def on_ok_def split: sum.splits option.splits if_splits)
next
  case (7 st old new e)
  then show ?case
    by (auto simp: tenant_ops on_ok_def split: sum.splits option.splits if_splits)
qed

section \<open>The listing contract\<close>

definition tenantRows :: "TenantMemory \<Rightarrow> TenantStatus list \<Rightarrow> Tenant list" where
  "tenantRows st statuses = sortRows tn_ID
     (tenantFilterMatches \<lparr>tf_Statuses = statuses, tf_Limit = 0, tf_Offset = 0\<rparr>) (tm_tenants st)"

definition tenantPage :: "nat \<Rightarrow> TenantStatus list \<Rightarrow> TenantMemory \<Rightarrow> TenantID \<Rightarrow> Tenant list" where
  "tenantPage n statuses st cursor =
     (case Tenants_ListPage None \<lparr>tp_Statuses = statuses, tp_Limit = int n, tp_Offset = 0,
             tp_Cursor = cursor\<rparr> st of
        Inl _ \<Rightarrow> [] | Inr tenants \<Rightarrow> tenants)"

lemma tenantFilterMatches_cong:
  "tenantFilterMatches \<lparr>tf_Statuses = s, tf_Limit = l, tf_Offset = n\<rparr>
     = tenantFilterMatches \<lparr>tf_Statuses = s, tf_Limit = l', tf_Offset = n'\<rparr>"
  by (rule ext) (simp add: tenantFilterMatches_def)

lemma tenant_inv_ids:
  assumes "tenant_inv st" "t \<in> set (vals (tm_tenants st))"
  shows "tn_ID t \<noteq> []"
proof -
  have "map_of (tm_tenants st) (tn_ID t) = Some t"
    using assms by (metis tenant_inv_def keyed_map_in_vals)
  then show ?thesis using assms(1) validateTenant_key by (auto simp: tenant_inv_def)
qed

interpretation tenant_listing: cursor_listing tn_ID tenant_inv tenantRows tenantPage
proof (unfold_locales, goal_cases)
  case (1 st f)
  then show ?case by (simp add: tenantRows_def tenant_inv_def sortRows_sorted)
next
  case (2 st n f c)
  have m: "tenantFilterMatches \<lparr>tf_Statuses = f, tf_Limit = int n, tf_Offset = 0\<rparr>
      = tenantFilterMatches \<lparr>tf_Statuses = f, tf_Limit = 0, tf_Offset = 0\<rparr>"
    by (rule tenantFilterMatches_cong)
  have "tenantPage n f st c = pageRows 0 (int n) (seekRows tn_ID c (tenantRows st f))"
    by (simp add: tenantPage_def Tenants_ListPage_def tenantPageValidate_def tenantFilterValidate_def
        tenantPageListFilter_def tenantsList_def pageTenants_def seekTenants_def tenantRows_def m)
  also have "\<dots> = take n (filter (\<lambda>t. c < tn_ID t) (tenantRows st f))"
    unfolding tenantRows_def
    using 2 tenant_inv_ids by (intro page_of_rows) (auto simp: tenant_inv_def)
  finally show ?case .
qed

section \<open>Properties\<close>

text \<open>
  C32. The tenant store implements a finite map from identifiers to tenants: from the empty
  store, any sequence of reads, creations, replacements and removals answers what it answers
  on the map, errors included, and leaves the same contents; and every tenant is stored under
  its own identifier and passes the validation.
\<close>

theorem tenants_refine_map:
  "fst (dir_run tenantExec ops NewTenantMemory) = fst (dir_run (dir_spec tenantRules) ops Map.empty)
   \<and> map_of (tm_tenants (snd (dir_run tenantExec ops NewTenantMemory)))
       = snd (dir_run (dir_spec tenantRules) ops Map.empty)
   \<and> dir_keyed tenantRules (map_of (tm_tenants (snd (dir_run tenantExec ops NewTenantMemory))))"
proof -
  have "map_of (tm_tenants NewTenantMemory) = Map.empty" by (simp add: NewTenantMemory_def)
  moreover have "list_all (\<lambda>_. True) ops" by (simp add: list_all_iff)
  ultimately show ?thesis
    using tenants.run_refines [OF tenant_inv_new, of ops]
      tenants.run_keyed [OF tenant_inv_new, of ops] by (simp add: dir_keyed_def)
qed

text \<open>
  A client that lists the tenants page by page, with the last identifier of a page as the
  cursor of the next, sees no tenant twice and sees them in order, even when the store changes
  between the pages; and once a page came back empty it has seen every matching tenant that
  was there all along.
\<close>

theorem tenant_pages_complete:
  assumes "list_all tenant_inv sts" "0 < n"
  shows "sorted_wrt (<) (map tn_ID (walk_pages tn_ID (tenantPage n statuses) sts []))
    \<and> (\<forall>t. (\<forall>st\<in>set sts. t \<in> set (tenantRows st statuses))
         \<longrightarrow> tn_ID t \<noteq> []
         \<longrightarrow> length (walk_pages tn_ID (tenantPage n statuses) sts []) < length sts
         \<longrightarrow> t \<in> set (walk_pages tn_ID (tenantPage n statuses) sts []))"
  using tenant_listing.walk_sorted [OF assms] tenant_listing.walk_complete [OF assms]
    bot_less_string by simp

definition sampleTenant :: "TenantID \<Rightarrow> TenantStatus \<Rightarrow> Tenant" where
  "sampleTenant tid status =
     \<lparr>tn_ID = tid, tn_Name = ''n'', tn_Status = status, tn_PlanID = [], tn_Config = None\<rparr>"

definition sampleTenants :: TenantMemory where
  "sampleTenants = \<lparr>tm_tenants = [(''b'', sampleTenant ''b'' TenantStatusActive),
     (''a'', sampleTenant ''a'' TenantStatusActive)]\<rparr>"

lemma sampleTenants_inv: "tenant_inv sampleTenants"
  by (simp add: tenant_inv_def keyed_map_def sampleTenants_def sampleTenant_def validateTenant_def)

theorem tenant_pages_complete_witness:
  "sampleTenant ''b'' TenantStatusActive \<in> set (walk_pages tn_ID
     (tenantPage 1 [TenantStatusActive]) [sampleTenants, sampleTenants, sampleTenants] [])"
proof -
  let ?sts = "[sampleTenants, sampleTenants, sampleTenants]"
  have "\<forall>st\<in>set ?sts. sampleTenant ''b'' TenantStatusActive \<in> set (tenantRows st [TenantStatusActive])"
    by simp code_simp
  moreover have "length (walk_pages tn_ID (tenantPage 1 [TenantStatusActive]) ?sts []) < length ?sts"
    by code_simp
  moreover have "tn_ID (sampleTenant ''b'' TenantStatusActive) \<noteq> []" by (simp add: sampleTenant_def)
  moreover have "list_all tenant_inv ?sts" by (simp add: sampleTenants_inv)
  ultimately show ?thesis
    using tenant_pages_complete [of ?sts 1 "[TenantStatusActive]"] by simp
qed

end
