(* ===== verification/Tenant_Manager.thy ===== *)
theory Tenant_Manager
  imports Tenant_Store Core_Context
begin

text \<open>
  The tenant manager (\<open>tenant/\<close>): every operation of \<open>Manager\<close>, over any tenant store.

  The store is an interface of the program: \<open>tenantOps\<close> holds its operations, \<open>to_CAS\<close>
  being \<open>None\<close> for a store that does not implement \<open>CompareAndSwapStore\<close>. Other users of
  the store act between two calls: \<open>te_other k\<close> is what they did before the call of number
  \<open>k\<close>, and \<open>te_ctx k\<close> the state of the context at that call. The generator, the seeder and
  the auditor are the host's. The state is the store and the events handed to the auditor.
\<close>

record 's tenantOps =
  to_Get :: "ctx \<Rightarrow> TenantID \<Rightarrow> 's \<Rightarrow> tenant_error + Tenant"
  to_Create :: "ctx \<Rightarrow> Tenant \<Rightarrow> 's \<Rightarrow> (tenant_error + unit) \<times> 's"
  to_Update :: "ctx \<Rightarrow> Tenant \<Rightarrow> 's \<Rightarrow> (tenant_error + unit) \<times> 's"
  to_Delete :: "ctx \<Rightarrow> TenantID \<Rightarrow> 's \<Rightarrow> (tenant_error + unit) \<times> 's"
  to_CAS :: "(ctx \<Rightarrow> Tenant \<Rightarrow> Tenant \<Rightarrow> 's \<Rightarrow> (tenant_error + unit) \<times> 's) option"

record TenantEvent =
  te_TenantID :: TenantID
  te_Action :: string
  te_From :: TenantStatus
  te_To :: TenantStatus

record 's Manager =
  mg_store :: "'s tenantOps"
  mg_generateID :: "tenant_error + TenantID"
  mg_seed :: "(Tenant \<Rightarrow> tenant_error option) option"
  mg_audit :: "(TenantEvent \<Rightarrow> tenant_error option) option"

record 's tenantEnv =
  te_ctx :: "nat \<Rightarrow> ctx"
  te_state :: "tenantState option"
  te_other :: "nat \<Rightarrow> 's \<Rightarrow> 's"

type_synonym 's managed = "'s \<times> TenantEvent list"

record TenantInput =
  in_ID :: TenantID
  in_Name :: string
  in_PlanID :: string
  in_Config :: "(string, string) gomap option"

definition noStatus :: TenantStatus where
  "noStatus = TenantStatusOther []"

section \<open>Construction\<close>

type_synonym 's ManagerOption = "'s Manager \<Rightarrow> 's Manager"

definition WithIDGenerator :: "(tenant_error + TenantID) option \<Rightarrow> 's ManagerOption" where
  "WithIDGenerator generator manager =
     (case generator of None \<Rightarrow> manager | Some g \<Rightarrow> manager\<lparr>mg_generateID := g\<rparr>)"

definition WithSeeder :: "(Tenant \<Rightarrow> tenant_error option) option \<Rightarrow> 's ManagerOption" where
  "WithSeeder seeder manager = manager\<lparr>mg_seed := seeder\<rparr>"

definition WithTenantAuditor :: "(TenantEvent \<Rightarrow> tenant_error option) option \<Rightarrow> 's ManagerOption" where
  "WithTenantAuditor auditor manager = manager\<lparr>mg_audit := auditor\<rparr>"

text \<open>The 16 bytes of \<open>rand.Read\<close>, or its error.\<close>

definition hexDigit :: "nat \<Rightarrow> char" where
  "hexDigit d = ''0123456789abcdef'' ! d"

definition hexEncode :: "char list \<Rightarrow> string" where
  "hexEncode bytes =
     concat (map (\<lambda>b. [hexDigit (of_char b div 16), hexDigit (of_char b mod 16)]) bytes)"

definition defaultIDGenerator :: "tenant_error + char list \<Rightarrow> tenant_error + TenantID" where
  "defaultIDGenerator random = bind_ok random (\<lambda>bytes. Inr (hexEncode bytes))"

definition NewManager ::
  "'s tenantOps \<Rightarrow> tenant_error + char list \<Rightarrow> 's ManagerOption option list \<Rightarrow> 's Manager"
where
  "NewManager ops random opts =
     fold (\<lambda>opt manager. case opt of None \<Rightarrow> manager | Some f \<Rightarrow> f manager) opts
       \<lparr>mg_store = ops, mg_generateID = defaultIDGenerator random, mg_seed = None, mg_audit = None\<rparr>"

section \<open>Steps\<close>

definition storeCall ::
  "'s tenantEnv \<Rightarrow> nat \<Rightarrow> (ctx \<Rightarrow> 's \<Rightarrow> ('e + 'a) \<times> 's) \<Rightarrow> 's managed \<Rightarrow> ('e + 'a) \<times> 's managed"
where
  "storeCall w k call st =
     (case call (te_ctx w k) (te_other w k (fst st)) of (r, s') \<Rightarrow> (r, (s', snd st)))"

definition managerGet ::
  "'s Manager \<Rightarrow> 's tenantEnv \<Rightarrow> nat \<Rightarrow> TenantID \<Rightarrow> 's managed \<Rightarrow> (tenant_error + Tenant) \<times> 's managed"
where
  "managerGet mg w k tid = storeCall w k (\<lambda>cx s. (to_Get (mg_store mg) cx tid s, s))"

definition emit :: "'s Manager \<Rightarrow> TenantEvent \<Rightarrow> 's managed \<Rightarrow> (tenant_error + unit) \<times> 's managed" where
  "emit mg event st =
     (case mg_audit mg of None \<Rightarrow> (Inr (), st)
      | Some audit \<Rightarrow>
          ((case audit event of None \<Rightarrow> Inr () | Some e \<Rightarrow> Inl e), (fst st, snd st @ [event])))"

fun isConflict :: "tenant_error \<Rightarrow> bool" where
  "isConflict ErrTenantConflict = True"
| "isConflict (ErrTenantJoined a b) = (isConflict a \<or> isConflict b)"
| "isConflict _ = False"

text \<open>
  \<open>compareAndSwap\<close> is one call of a store that has it, and otherwise a read and a write; the
  manager's mutex keeps its own other calls out, not those of other managers.
\<close>

definition managerCompareAndSwap ::
  "'s Manager \<Rightarrow> 's tenantEnv \<Rightarrow> nat \<Rightarrow> Tenant \<Rightarrow> Tenant \<Rightarrow> 's managed
     \<Rightarrow> (tenant_error + unit) \<times> 's managed"
where
  "managerCompareAndSwap mg w k expected updated st =
     (case to_CAS (mg_store mg) of
        Some cas \<Rightarrow> storeCall w k (\<lambda>cx. cas cx expected updated) st
      | None \<Rightarrow> on_done (managerGet mg w k (tn_ID expected) st) (\<lambda>current st1.
          if \<not> tenantsEqual current expected then fails ErrTenantConflict st1
          else storeCall w (k + 1) (\<lambda>cx. to_Update (mg_store mg) cx updated) st1))"

text \<open>
  The loop that \<open>Update\<close> and \<open>transition\<close> share: read, compute the replacement, replace
  conditionally, and start again after a conflict. \<open>n\<close> is what is left of the attempts, and
  an attempt has three moments.
\<close>

fun casLoop ::
  "'s Manager \<Rightarrow> 's tenantEnv \<Rightarrow> nat \<Rightarrow> nat \<Rightarrow> TenantID \<Rightarrow> (Tenant \<Rightarrow> tenant_error + Tenant)
     \<Rightarrow> (Tenant \<Rightarrow> Tenant \<Rightarrow> TenantEvent) \<Rightarrow> 's managed \<Rightarrow> (tenant_error + Tenant) \<times> 's managed"
where
  "casLoop mg w k 0 tid compute event st = fails ErrTenantConflict st"
| "casLoop mg w k (Suc n) tid compute event st =
     on_done (managerGet mg w k tid st) (\<lambda>current st1. on_ok (compute current) st1 (\<lambda>updated.
       (case managerCompareAndSwap mg w (k + 1) current updated st1 of
          (Inl e, st2) \<Rightarrow>
            if isConflict e \<and> 0 < n then casLoop mg w (k + 3) n tid compute event st2
            else fails e st2
        | (Inr _, st2) \<Rightarrow>
            on_done (emit mg (event current updated) st2) (\<lambda>_ st3. (Inr updated, st3)))))"

definition maxCompareAndSwapAttempts :: nat where
  "maxCompareAndSwapAttempts = 16"

section \<open>The lifecycle\<close>

type_synonym transitions = "(TenantStatus \<times> TenantStatus) list"

definition activateTransitions :: transitions where
  "activateTransitions = [(TenantStatusPending, TenantStatusActive)]"

definition suspendTransitions :: transitions where
  "suspendTransitions = [(TenantStatusActive, TenantStatusSuspended)]"

definition restoreTransitions :: transitions where
  "restoreTransitions = [(TenantStatusSuspended, TenantStatusActive)]"

definition softDeleteTransitions :: transitions where
  "softDeleteTransitions =
     [(TenantStatusActive, TenantStatusSoftDeleted), (TenantStatusSuspended, TenantStatusSoftDeleted)]"

definition withNext :: "transitions \<Rightarrow> Tenant \<Rightarrow> tenant_error + Tenant" where
  "withNext allowed current =
     (case map_of allowed (tn_Status current) of
        None \<Rightarrow> Inl ErrInvalidState
      | Some next_status \<Rightarrow> Inr (current\<lparr>tn_Status := next_status\<rparr>))"

definition transition ::
  "'s Manager \<Rightarrow> 's tenantEnv \<Rightarrow> TenantID \<Rightarrow> string \<Rightarrow> transitions \<Rightarrow> 's managed
     \<Rightarrow> (tenant_error + Tenant) \<times> 's managed"
where
  "transition mg w tid action allowed =
     casLoop mg w 0 maxCompareAndSwapAttempts tid (withNext allowed)
       (\<lambda>current updated. \<lparr>te_TenantID = tid, te_Action = action,
          te_From = tn_Status current, te_To = tn_Status updated\<rparr>)"

definition Manager_Activate where
  "Manager_Activate mg w tid = transition mg w tid ''activate'' activateTransitions"

definition Manager_Suspend where
  "Manager_Suspend mg w tid = transition mg w tid ''suspend'' suspendTransitions"

definition Manager_Restore where
  "Manager_Restore mg w tid = transition mg w tid ''restore'' restoreTransitions"

definition Manager_SoftDelete where
  "Manager_SoftDelete mg w tid = transition mg w tid ''soft_delete'' softDeleteTransitions"

definition Manager_Delete ::
  "'s Manager \<Rightarrow> 's tenantEnv \<Rightarrow> TenantID \<Rightarrow> 's managed \<Rightarrow> (tenant_error + unit) \<times> 's managed"
where
  "Manager_Delete mg w tid st = on_done (Manager_SoftDelete mg w tid st) (\<lambda>_ st1. (Inr (), st1))"

definition withMetadata :: "TenantInput \<Rightarrow> Tenant \<Rightarrow> tenant_error + Tenant" where
  "withMetadata input current =
     Inr (current\<lparr>tn_Name := in_Name input, tn_PlanID := in_PlanID input,
                  tn_Config := in_Config input\<rparr>)"

definition Manager_Update ::
  "'s Manager \<Rightarrow> 's tenantEnv \<Rightarrow> TenantInput \<Rightarrow> 's managed \<Rightarrow> (tenant_error + Tenant) \<times> 's managed"
where
  "Manager_Update mg w input =
     casLoop mg w 0 maxCompareAndSwapAttempts (in_ID input) (withMetadata input)
       (\<lambda>current updated. \<lparr>te_TenantID = tn_ID updated, te_Action = ''update'',
          te_From = tn_Status updated, te_To = tn_Status updated\<rparr>)"

definition Manager_Get ::
  "'s Manager \<Rightarrow> 's tenantEnv \<Rightarrow> TenantID \<Rightarrow> 's managed \<Rightarrow> (tenant_error + Tenant) \<times> 's managed"
where
  "Manager_Get mg w = managerGet mg w 0"

text \<open>
  Some branches of \<open>Create\<close> return the tenant together with an error; the answer is the
  tenant of the return, if it has one, and the error.
\<close>

definition Manager_Create ::
  "'s Manager \<Rightarrow> 's tenantEnv \<Rightarrow> TenantInput \<Rightarrow> 's managed
     \<Rightarrow> (Tenant option \<times> tenant_error option) \<times> 's managed"
where
  "Manager_Create mg w input st =
     (case (if in_ID input = [] then mg_generateID mg else Inr (in_ID input)) of
        Inl e \<Rightarrow> ((None, Some e), st)
      | Inr tid \<Rightarrow>
          let tenant = \<lparr>tn_ID = tid, tn_Name = in_Name input, tn_Status = TenantStatusPending,
                        tn_PlanID = in_PlanID input, tn_Config = in_Config input\<rparr> in
          (case storeCall w 0 (\<lambda>cx. to_Create (mg_store mg) cx tenant) st of
             (Inl e, st1) \<Rightarrow> ((None, Some e), st1)
           | (Inr _, st1) \<Rightarrow>
               (case (case mg_seed mg of None \<Rightarrow> None | Some seed \<Rightarrow> seed tenant) of
                  Some seedErr \<Rightarrow>
                    (case storeCall w 1 (\<lambda>cx. to_Delete (mg_store mg) cx (tn_ID tenant)) st1 of
                       (Inl deleteErr, st2) \<Rightarrow>
                         ((Some tenant, Some (ErrTenantJoined seedErr deleteErr)), st2)
                     | (Inr _, st2) \<Rightarrow> ((None, Some seedErr), st2))
                | None \<Rightarrow>
                    (case emit mg \<lparr>te_TenantID = tn_ID tenant, te_Action = ''create'',
                             te_From = noStatus, te_To = tn_Status tenant\<rparr> st1 of
                       (Inl e, st2) \<Rightarrow> ((Some tenant, Some e), st2)
                     | (Inr _, st2) \<Rightarrow> ((Some tenant, None), st2)))))"

definition Manager_HardDelete ::
  "'s Manager \<Rightarrow> 's tenantEnv \<Rightarrow> TenantID \<Rightarrow> 's managed \<Rightarrow> (tenant_error + unit) \<times> 's managed"
where
  "Manager_HardDelete mg w tid st =
     (if \<not> IsHost (te_state w) then fails ErrHostRequired st
      else on_done (managerGet mg w 0 tid st) (\<lambda>current st1.
        if tn_Status current \<noteq> TenantStatusActive \<and> tn_Status current \<noteq> TenantStatusSuspended
        then fails ErrInvalidState st1
        else on_done (emit mg \<lparr>te_TenantID = tid, te_Action = ''hard_delete'',
               te_From = tn_Status current, te_To = TenantStatusHardDeleted\<rparr> st1) (\<lambda>_ st2.
          storeCall w 1 (\<lambda>cx. to_Delete (mg_store mg) cx tid) st2)))"

end
