(* ===== verification/Tenant_Lifecycle.thy ===== *)
theory Tenant_Lifecycle
  imports Tenant_Manager
begin

text \<open>
  What the manager guarantees about tenants: every command makes at most one change of its own,
  exactly the one that is its job, on top of what the other users of the store did; and among
  users who do the same it is a sequence of lifecycle steps. The proofs are over any store that
  keeps the contract \<open>tenant_backend\<close>; the in-memory store is one.
\<close>

section \<open>The lifecycle as a step relation\<close>

inductive lifecycle_edge :: "TenantStatus \<Rightarrow> TenantStatus \<Rightarrow> bool" where
  activate: "lifecycle_edge TenantStatusPending TenantStatusActive"
| suspend: "lifecycle_edge TenantStatusActive TenantStatusSuspended"
| restore: "lifecycle_edge TenantStatusSuspended TenantStatusActive"
| delete_active: "lifecycle_edge TenantStatusActive TenantStatusSoftDeleted"
| delete_suspended: "lifecycle_edge TenantStatusSuspended TenantStatusSoftDeleted"

inductive_cases edgeE: "lifecycle_edge s s'"

type_synonym tenantMap = "TenantID \<Rightarrow> Tenant option"

inductive lifecycle_step :: "tenantMap \<Rightarrow> tenantMap \<Rightarrow> bool" where
  born: "m (tn_ID t) = None \<Longrightarrow> tn_Status t = TenantStatusPending \<Longrightarrow>
    lifecycle_step m (m(tn_ID t \<mapsto> t))"
| moved: "m (tn_ID t) = Some t0 \<Longrightarrow> lifecycle_edge (tn_Status t0) (tn_Status t) \<Longrightarrow>
    lifecycle_step m (m(tn_ID t \<mapsto> t))"
| edited: "m (tn_ID t) = Some t0 \<Longrightarrow> tn_Status t = tn_Status t0 \<Longrightarrow>
    lifecycle_step m (m(tn_ID t \<mapsto> t))"
| gone: "m tid = Some t \<Longrightarrow> lifecycle_step m (m(tid := None))"

abbreviation lifecycle_steps :: "tenantMap \<Rightarrow> tenantMap \<Rightarrow> bool" where
  "lifecycle_steps \<equiv> lifecycle_step\<^sup>*\<^sup>*"

inductive_cases lifecycle_stepE: "lifecycle_step m m'"

definition knownStatus :: "TenantStatus \<Rightarrow> bool" where
  "knownStatus s \<longleftrightarrow> s \<in> {TenantStatusPending, TenantStatusActive, TenantStatusSuspended,
     TenantStatusSoftDeleted}"

lemma lifecycle_step_origin:
  assumes "lifecycle_step m m'" "m' tid = Some t"
  shows "tn_Status t = TenantStatusPending
    \<or> (\<exists>t0. m tid = Some t0 \<and> (tn_Status t = tn_Status t0 \<or> lifecycle_edge (tn_Status t0) (tn_Status t)))"
  using assms by (auto elim!: lifecycle_stepE split: if_splits)

lemma edge_known: "lifecycle_edge s s' \<Longrightarrow> knownStatus s'"
  by (auto elim!: edgeE simp: knownStatus_def)

lemma pending_known: "knownStatus TenantStatusPending"
  by (simp add: knownStatus_def)

lemma lifecycle_steps_known:
  "lifecycle_steps m m' \<Longrightarrow> \<forall>tid t. m tid = Some t \<longrightarrow> knownStatus (tn_Status t) \<Longrightarrow>
     \<forall>tid t. m' tid = Some t \<longrightarrow> knownStatus (tn_Status t)"
proof (induction rule: rtranclp_induct)
  case (step a b)
  then show ?case using lifecycle_step_origin edge_known pending_known by metis
qed simp

section \<open>The contract of the store\<close>

locale tenant_backend =
  fixes ops :: "'s tenantOps"
    and cas :: "ctx \<Rightarrow> Tenant \<Rightarrow> Tenant \<Rightarrow> 's \<Rightarrow> (tenant_error + unit) \<times> 's"
    and inv :: "'s \<Rightarrow> bool"
    and abs :: "'s \<Rightarrow> tenantMap"
  assumes get_law: "inv s \<Longrightarrow> to_Get ops cx tid s = Inr t \<Longrightarrow> abs s tid = Some t"
    and get_failed: "inv s \<Longrightarrow> to_Get ops cx tid s = Inl e \<Longrightarrow> \<not> isConflict e"
    and keyed_law: "inv s \<Longrightarrow> abs s tid = Some t \<Longrightarrow> tn_ID t = tid"
    and create_inv: "inv s \<Longrightarrow> inv (snd (to_Create ops cx t s))"
    and create_law: "inv s \<Longrightarrow> to_Create ops cx t s = (r, s') \<Longrightarrow>
      (case r of Inl e \<Rightarrow> s' = s
       | Inr _ \<Rightarrow> abs s (tn_ID t) = None \<and> abs s' = (abs s)(tn_ID t \<mapsto> t))"
    and delete_inv: "inv s \<Longrightarrow> inv (snd (to_Delete ops cx tid s))"
    and delete_law: "inv s \<Longrightarrow> to_Delete ops cx tid s = (r, s') \<Longrightarrow>
      (case r of Inl e \<Rightarrow> s' = s
       | Inr _ \<Rightarrow> abs s tid \<noteq> None \<and> abs s' = (abs s)(tid := None))"
    and has_cas: "to_CAS ops = Some cas"
    and cas_inv: "inv s \<Longrightarrow> inv (snd (cas cx old new s))"
    and cas_law: "inv s \<Longrightarrow> cas cx old new s = (r, s') \<Longrightarrow>
      (case r of
         Inl e \<Rightarrow> s' = s
           \<and> (isConflict e \<longrightarrow> (\<forall>v. abs s (tn_ID old) = Some v \<longrightarrow> \<not> tenantsEqual v old))
       | Inr _ \<Rightarrow> tn_ID old = tn_ID new \<and> abs s' = (abs s)(tn_ID new \<mapsto> new)
           \<and> (\<exists>v. abs s (tn_ID old) = Some v \<and> tenantsEqual v old))"

text \<open>
  What the other users of the store do: they keep it well formed, and where the lifecycle is the
  point they make lifecycle steps, like the manager.
\<close>

definition keepsInv :: "('s \<Rightarrow> bool) \<Rightarrow> 's tenantEnv \<Rightarrow> bool" where
  "keepsInv ok w \<longleftrightarrow> (\<forall>k s. ok s \<longrightarrow> ok (te_other w k s))"

definition tenantRely :: "('s \<Rightarrow> bool) \<Rightarrow> ('s \<Rightarrow> tenantMap) \<Rightarrow> 's tenantEnv \<Rightarrow> bool" where
  "tenantRely ok view w \<longleftrightarrow>
     (\<forall>k s. ok s \<longrightarrow> ok (te_other w k s) \<and> lifecycle_steps (view s) (view (te_other w k s)))"

definition follows_lifecycle :: "(Tenant \<Rightarrow> Tenant \<Rightarrow> bool) \<Rightarrow> bool" where
  "follows_lifecycle move \<longleftrightarrow> (\<forall>t u. move t u \<longrightarrow> tn_ID u = tn_ID t
     \<and> (tn_Status u = tn_Status t \<or> lifecycle_edge (tn_Status t) (tn_Status u)))"

lemma tenantRely_inv: "tenantRely ok view w \<Longrightarrow> keepsInv ok w"
  by (simp add: tenantRely_def keepsInv_def)

text \<open>
  The moves of the others at the first \<open>n\<close> calls of a command, and nothing else: an attempt of
  the loop makes a call at its first and one at its second moment.
\<close>

definition callAt :: "nat \<Rightarrow> nat" where
  "callAt i = 3 * (i div 2) + i mod 2"

fun othersUntil :: "'s tenantEnv \<Rightarrow> nat \<Rightarrow> 's \<Rightarrow> 's" where
  "othersUntil w 0 s = s"
| "othersUntil w (Suc n) s = te_other w (callAt n) (othersUntil w n s)"

lemma callAt_simps [simp]:
  "callAt (2 * j) = 3 * j" "callAt (Suc (2 * j)) = Suc (3 * j)" "callAt 0 = 0" "callAt (Suc 0) = 1"
  by (simp_all add: callAt_def)

lemma othersUntil_inv: "keepsInv ok w \<Longrightarrow> ok s \<Longrightarrow> ok (othersUntil w n s)"
  by (induction n) (simp_all add: keepsInv_def)

lemma othersUntil_steps:
  "tenantRely ok view w \<Longrightarrow> ok s \<Longrightarrow> lifecycle_steps (view s) (view (othersUntil w n s))"
proof (induction n)
  case (Suc n)
  have "ok (othersUntil w n s)" by (rule othersUntil_inv [OF tenantRely_inv [OF Suc.prems(1)] Suc.prems(2)])
  with Suc show ?case by (auto simp: tenantRely_def intro: rtranclp_trans)
qed simp

section \<open>What a command may do\<close>

text \<open>The answer after a change: the auditor is told, and its error is the answer.\<close>

definition emitted ::
  "'s Manager \<Rightarrow> TenantEvent \<Rightarrow> 'a \<Rightarrow> TenantEvent list \<Rightarrow> (tenant_error + 'a) \<times> TenantEvent list"
where
  "emitted mg event x log =
     (case mg_audit mg of
        None \<Rightarrow> (Inr x, log)
      | Some audit \<Rightarrow> ((case audit event of None \<Rightarrow> Inr x | Some e \<Rightarrow> Inl e), log @ [event]))"

definition statusEvent :: "TenantID \<Rightarrow> string \<Rightarrow> Tenant \<Rightarrow> Tenant \<Rightarrow> TenantEvent" where
  "statusEvent tid action old new = \<lparr>te_TenantID = tid, te_Action = action, te_From = tn_Status old,
     te_To = tn_Status new\<rparr>"

text \<open>
  At most one conditional replacement: either the command failed, and all that has happened is what
  the others did; or it read the tenant, and at its next call, when the tenant still equalled what it
  had read, replaced it by one its \<open>move\<close> allows, on top of what the others had done until then. It
  then told the auditor of that replacement.
\<close>

definition swappedOnce ::
  "('s \<Rightarrow> tenantMap) \<Rightarrow> 's Manager \<Rightarrow> 's tenantEnv \<Rightarrow> (Tenant \<Rightarrow> Tenant \<Rightarrow> bool) \<Rightarrow> TenantID \<Rightarrow> string
     \<Rightarrow> 's managed \<Rightarrow> (tenant_error + Tenant) \<Rightarrow> 's managed \<Rightarrow> bool"
where
  "swappedOnce view mg w move tid action st r st' \<longleftrightarrow>
     (\<exists>n\<le>32. let s = othersUntil w n (fst st) in
        st' = (s, snd st) \<and> (\<exists>e. r = Inl e)
        \<or> even n \<and> 0 < n
          \<and> (\<exists>cur v u. view (othersUntil w (n - 1) (fst st)) tid = Some cur
               \<and> view s tid = Some v \<and> tenantsEqual v cur \<and> move cur u
               \<and> view (fst st') = (view s)(tid \<mapsto> u)
               \<and> (r, snd st') = emitted mg (statusEvent tid action cur u) u (snd st)))"

definition pendingTenant :: "TenantID \<Rightarrow> TenantInput \<Rightarrow> Tenant" where
  "pendingTenant tid input = \<lparr>tn_ID = tid, tn_Name = in_Name input, tn_Status = TenantStatusPending,
     tn_PlanID = in_PlanID input, tn_Config = in_Config input\<rparr>"

text \<open>
  A creation adds one pending tenant under an identifier nobody had, and when the seeder fails takes
  it away again, if it can.
\<close>

definition createdOnce ::
  "('s \<Rightarrow> bool) \<Rightarrow> ('s \<Rightarrow> tenantMap) \<Rightarrow> 's Manager \<Rightarrow> 's tenantEnv \<Rightarrow> TenantInput \<Rightarrow> 's managed
     \<Rightarrow> Tenant option \<times> tenant_error option \<Rightarrow> 's managed \<Rightarrow> bool"
where
  "createdOnce ok view mg w input st r st' \<longleftrightarrow>
     (\<exists>n\<le>1. st' = (othersUntil w n (fst st), snd st) \<and> fst r = None \<and> snd r \<noteq> None)
     \<or> (\<exists>tid s1. let s0 = othersUntil w 1 (fst st); new = pendingTenant tid input;
            seeded = (case mg_seed mg of None \<Rightarrow> None | Some seed \<Rightarrow> seed new) in
          (in_ID input \<noteq> [] \<longrightarrow> tid = in_ID input) \<and> ok s1 \<and> view s0 tid = None \<and> view s1 = (view s0)(tid \<mapsto> new)
          \<and> (if seeded = None
             then fst st' = s1 \<and> fst r = Some new
               \<and> (case_option (Inr ()) Inl (snd r), snd st')
                   = emitted mg \<lparr>te_TenantID = tid, te_Action = ''create'', te_From = noStatus,
                       te_To = TenantStatusPending\<rparr> () (snd st)
             else snd st' = snd st \<and> snd r \<noteq> None
               \<and> (fst r = None \<and> view (fst st') = (view (te_other w 1 s1))(tid := None)
                  \<or> fst r = Some new \<and> fst st' = te_other w 1 s1)))"

text \<open>A hard deletion is the host's, of a tenant that was active or suspended when it was read.\<close>

definition removedOnce ::
  "('s \<Rightarrow> tenantMap) \<Rightarrow> 's tenantEnv \<Rightarrow> TenantID \<Rightarrow> 's managed \<Rightarrow> tenant_error + unit \<Rightarrow> 's managed \<Rightarrow> bool"
where
  "removedOnce view w tid st r st' \<longleftrightarrow>
     (\<exists>n\<le>2. fst st' = othersUntil w n (fst st) \<and> (\<exists>e. r = Inl e))
     \<or> (IsHost (te_state w) \<and> r = Inr ()
        \<and> (\<exists>cur. view (othersUntil w 1 (fst st)) tid = Some cur
             \<and> tn_Status cur \<in> {TenantStatusActive, TenantStatusSuspended})
        \<and> view (othersUntil w 2 (fst st)) tid \<noteq> None
        \<and> view (fst st') = (view (othersUntil w 2 (fst st)))(tid := None))"

text \<open>A replacement the loop computes: a change that its command allows, of the same tenant.\<close>

definition computes :: "(Tenant \<Rightarrow> tenant_error + Tenant) \<Rightarrow> (Tenant \<Rightarrow> Tenant \<Rightarrow> bool) \<Rightarrow> bool" where
  "computes compute move \<longleftrightarrow> (\<forall>t u. compute t = Inr u \<longrightarrow> move t u \<and> tn_ID u = tn_ID t)"

text \<open>An auditor that never answers a conflict of its own.\<close>

definition calmAudit :: "'s Manager \<Rightarrow> bool" where
  "calmAudit mg \<longleftrightarrow> (\<forall>audit event e. mg_audit mg = Some audit \<longrightarrow> audit event = Some e \<longrightarrow> \<not> isConflict e)"

lemma emit_emitted:
  "on_done (emit mg event (s, log)) (\<lambda>_ st. (Inr x, st))
     = (fst (emitted mg event x log), (s, snd (emitted mg event x log)))"
  by (auto simp: emit_def emitted_def on_done_def split: option.split)

context tenant_backend
begin

lemma get_call:
  "mg_store mg = ops \<Longrightarrow> managerGet mg w k tid (s, log)
     = (to_Get ops (te_ctx w k) tid (te_other w k s), (te_other w k s, log))"
  by (simp add: managerGet_def storeCall_def)

lemma cas_call:
  "mg_store mg = ops \<Longrightarrow> managerCompareAndSwap mg w k old new (s, log)
     = (case cas (te_ctx w k) old new (te_other w k s) of (r, s') \<Rightarrow> (r, (s', log)))"
  by (simp add: managerCompareAndSwap_def storeCall_def has_cas)

text \<open>One attempt of the loop, in terms of the others' moves until its two calls.\<close>

lemma casLoop_attempt:
  assumes "mg_store mg = ops"
  shows "casLoop mg w (3 * j) (Suc n) tid compute event (othersUntil w (2 * j) s, log) =
    (let s1 = othersUntil w (2 * j + 1) s; s2 = othersUntil w (2 * j + 2) s in
     case to_Get ops (te_ctx w (3 * j)) tid s1 of
       Inl e \<Rightarrow> (Inl e, (s1, log))
     | Inr cur \<Rightarrow>
         (case compute cur of
            Inl e \<Rightarrow> (Inl e, (s1, log))
          | Inr u \<Rightarrow>
              (case cas (te_ctx w (3 * j + 1)) cur u s2 of
                 (Inl e, s3) \<Rightarrow>
                   if isConflict e \<and> 0 < n then casLoop mg w (3 * (j + 1)) n tid compute event (s3, log)
                   else (Inl e, (s3, log))
               | (Inr _, s3) \<Rightarrow> (fst (emitted mg (event cur u) u log), (s3, snd (emitted mg (event cur u) u log))))))"
proof -
  have "othersUntil w (2 * j + 1) s = te_other w (3 * j) (othersUntil w (2 * j) s)"
    "othersUntil w (2 * j + 2) s = te_other w (3 * j + 1) (te_other w (3 * j) (othersUntil w (2 * j) s))"
    by simp_all
  then show ?thesis
    by (simp add: get_call [OF assms] cas_call [OF assms] Let_def add.commute [of 3] emit_emitted
        on_done_def emit_emitted [unfolded on_done_def] split: sum.split prod.split)
qed

lemma casLoop_once:
  assumes rely: "keepsInv inv w" "mg_store mg = ops" "computes compute move" "inv s"
    and event: "\<And>cur u. move cur u \<Longrightarrow> tn_ID cur = tid \<Longrightarrow> tn_ID u = tid \<Longrightarrow>
      event cur u = statusEvent tid action cur u"
  shows "j + n \<le> 16 \<Longrightarrow>
    casLoop mg w (3 * j) n tid compute event (othersUntil w (2 * j) s, log) = (r, st') \<Longrightarrow>
    inv (fst st') \<and> swappedOnce abs mg w move tid action (s, log) r st'"
proof (induction n arbitrary: j)
  case 0
  then show ?case using othersUntil_inv [OF rely(1,4)]
    by (auto simp: swappedOnce_def Let_def intro: exI [of _ "2 * j"])
next
  case (Suc n)
  let ?s1 = "othersUntil w (2 * j + 1) s" and ?s2 = "othersUntil w (2 * j + 2) s"
  have inv: "inv (othersUntil w i s)" for i using othersUntil_inv [OF rely(1,4)] .
  note run = Suc.prems(2) [unfolded casLoop_attempt [OF rely(2)] Let_def]
  have stop: ?case if "st' = (othersUntil w i s, log)" "r = Inl e" "i \<le> 32" for i e
    using that inv by (auto simp: swappedOnce_def Let_def intro: exI [of _ i])
  show ?case
  proof (cases "to_Get ops (te_ctx w (3 * j)) tid ?s1")
    case (Inl e)
    with run have "st' = (?s1, log)" "r = Inl e" by auto
    then show ?thesis by (rule stop) (use Suc.prems(1) in simp)
  next
    case (Inr cur)
    then have cur: "abs ?s1 tid = Some cur" "tn_ID cur = tid" using get_law keyed_law inv by blast+
    show ?thesis
    proof (cases "compute cur")
      case (Inl e)
      with run Inr have "st' = (?s1, log)" "r = Inl e" by auto
      then show ?thesis by (rule stop) (use Suc.prems(1) in simp)
    next
      case upd: (Inr u)
      with rely(3) cur(2) have u: "move cur u" "tn_ID u = tid" by (auto simp: computes_def)
      obtain c s3 where cas: "cas (te_ctx w (3 * j + 1)) cur u ?s2 = (c, s3)" by (metis surj_pair)
      note law = cas_law [OF inv cas] and i3 = cas_inv [OF inv [of "2 * j + 2"], of "te_ctx w (3 * j + 1)" cur u]
      show ?thesis
      proof (cases c)
        case (Inl e)
        then have s3: "s3 = ?s2" using law by simp
        show ?thesis
        proof (cases "isConflict e \<and> 0 < n")
          case True
          with run Inr upd cas Inl s3
          have "casLoop mg w (3 * (j + 1)) n tid compute event (othersUntil w (2 * (j + 1)) s, log) = (r, st')"
            by simp
          with Suc.IH [of "j + 1"] Suc.prems(1) show ?thesis by simp
        next
          case False
          with run Inr upd cas Inl s3 have "st' = (?s2, log)" "r = Inl e" by auto
          then show ?thesis by (rule stop) (use Suc.prems(1) in simp)
        qed
      next
        case won: (Inr x)
        with law obtain v where v: "abs s3 = (abs ?s2)(tid \<mapsto> u)" "abs ?s2 tid = Some v" "tenantsEqual v cur"
          using cur(2) u(2) by auto
        have "st' = (s3, snd (emitted mg (event cur u) u log))" "r = fst (emitted mg (event cur u) u log)"
          using run Inr upd cas won by simp_all
        moreover have "event cur u = statusEvent tid action cur u" using event u cur(2) by blast
        ultimately have out: "fst st' = s3" "(r, snd st') = emitted mg (statusEvent tid action cur u) u log" by simp_all
        have "swappedOnce abs mg w move tid action (s, log) r st'"
          unfolding swappedOnce_def Let_def fst_conv snd_conv
          by (rule exI [of _ "2 * j + 2"], intro conjI disjI2 exI [of _ cur] exI [of _ v] exI [of _ u])
             (use Suc.prems(1) cur v u out in simp_all)
        with i3 cas out(1) show ?thesis by simp
      qed
    qed
  qed
qed

text \<open>
  The loop ends in a conflict only when the others changed the tenant between the two calls of
  every one of its attempts.
\<close>

lemma casLoop_conflict:
  assumes rely: "keepsInv inv w" "mg_store mg = ops" "inv s" "calmAudit mg"
    and compute: "\<And>t e. compute t = Inl e \<Longrightarrow> \<not> isConflict e"
  shows "casLoop mg w (3 * j) n tid compute event (othersUntil w (2 * j) s, log) = (Inl e, st') \<Longrightarrow>
    isConflict e \<Longrightarrow> j \<le> i \<Longrightarrow> i < j + n \<Longrightarrow>
    abs (othersUntil w (2 * i + 2) s) tid \<noteq> abs (othersUntil w (2 * i + 1) s) tid"
proof (induction n arbitrary: j)
  case (Suc n)
  let ?s1 = "othersUntil w (2 * j + 1) s" and ?s2 = "othersUntil w (2 * j + 2) s"
  have inv: "inv (othersUntil w i s)" for i using othersUntil_inv [OF rely(1,3)] .
  note run = Suc.prems(1) [unfolded casLoop_attempt [OF rely(2)] Let_def]
  have "\<not> isConflict f" if "to_Get ops (te_ctx w (3 * j)) tid ?s1 = Inl f" for f
    using get_failed [OF inv that] .
  then obtain cur where get: "to_Get ops (te_ctx w (3 * j)) tid ?s1 = Inr cur"
    using run Suc.prems(2)
    by (cases "to_Get ops (te_ctx w (3 * j)) tid ?s1") (auto simp del: othersUntil.simps)
  then have cur: "abs ?s1 tid = Some cur" "tn_ID cur = tid" using get_law keyed_law inv by blast+
  obtain u where upd: "compute cur = Inr u"
    using run get Suc.prems(2) compute by (cases "compute cur") auto
  obtain c s3 where cas: "cas (te_ctx w (3 * j + 1)) cur u ?s2 = (c, s3)" by (metis surj_pair)
  have "\<exists>f. c = Inl f \<and> isConflict f"
  proof (cases c)
    case (Inl f)
    then show ?thesis using run get upd cas Suc.prems(2) by (auto split: if_splits)
  next
    case (Inr x)
    then have "emitted mg (event cur u) u log = (Inl e, snd st')"
      using run get upd cas by (cases "emitted mg (event cur u) u log") auto
    then have "\<not> isConflict e" using rely(4) by (auto simp: emitted_def calmAudit_def split: option.splits)
    with Suc.prems(2) show ?thesis by simp
  qed
  then obtain f where f: "c = Inl f" "isConflict f" by blast
  then have s3: "s3 = ?s2" and changed: "\<forall>v. abs ?s2 tid = Some v \<longrightarrow> \<not> tenantsEqual v cur"
    using cas_law [OF inv cas] cur(2) by simp_all
  show ?case
  proof (cases "i = j")
    case True
    have "abs ?s2 tid \<noteq> abs ?s1 tid" using changed cur(1) tenantsEqual_refl by metis
    then show ?thesis unfolding True .
  next
    case False
    with Suc.prems(3,4) have n: "0 < n" "j + 1 \<le> i" "i < j + 1 + n" by simp_all
    with run get upd cas f s3
    have "casLoop mg w (3 * (j + 1)) n tid compute event (othersUntil w (2 * (j + 1)) s, log) = (Inl e, st')" by simp
    from Suc.IH [OF this Suc.prems(2) n(2,3)] show ?thesis .
  qed
qed simp

lemma create_once:
  assumes rely: "keepsInv inv w" "mg_store mg = ops" "inv (fst st)"
    and run: "Manager_Create mg w input st = (r, st')"
  shows "inv (fst st') \<and> createdOnce inv abs mg w input st r st'"
proof (cases "if in_ID input = [] then mg_generateID mg else Inr (in_ID input)")
  case (Inl e)
  with run have "st' = st" "r = (None, Some e)" by (simp_all add: Manager_Create_def split del: if_split)
  then show ?thesis using rely(3) by (auto simp: createdOnce_def intro: exI [of _ 0])
next
  case (Inr tid)
  let ?s0 = "othersUntil w 1 (fst st)" and ?t = "pendingTenant tid input"
  let ?seeded = "case mg_seed mg of None \<Rightarrow> None | Some seed \<Rightarrow> seed ?t"
  have given: "in_ID input \<noteq> [] \<longrightarrow> tid = in_ID input" using Inr by (auto split: if_splits)
  have i0: "inv ?s0" using othersUntil_inv [OF rely(1,3)] .
  obtain c s1 where c: "to_Create ops (te_ctx w 0) ?t ?s0 = (c, s1)" by (metis surj_pair)
  have i1: "inv s1" using create_inv [OF i0, of "te_ctx w 0" ?t] c by simp
  note start = Inr c [simplified] rely(2) run [unfolded Manager_Create_def, folded pendingTenant_def]
  show ?thesis
  proof (cases c)
    case (Inl e)
    then have "s1 = ?s0" using create_law [OF i0 c] by simp
    with start Inl have "st' = (?s0, snd st)" "r = (None, Some e)"
      by (auto simp: storeCall_def Let_def split del: if_split)
    then show ?thesis using i0 by (auto simp: createdOnce_def intro: exI [of _ 1])
  next
    case made: (Inr x)
    have new: "abs ?s0 tid = None" "abs s1 = (abs ?s0)(tid \<mapsto> ?t)"
      using create_law [OF i0 c] made by (simp_all add: pendingTenant_def)
    show ?thesis
    proof (cases ?seeded)
      case None
      let ?ev = "\<lparr>te_TenantID = tid, te_Action = ''create'', te_From = noStatus, te_To = TenantStatusPending\<rparr>"
      have "fst st' = s1 \<and> fst r = Some ?t
          \<and> (case_option (Inr ()) Inl (snd r), snd st') = emitted mg ?ev () (snd st)"
        using start made None
        by (cases "mg_audit mg")
           (auto simp: storeCall_def Let_def emit_def emitted_def pendingTenant_def split del: if_split
             split: option.splits)
      then show ?thesis using i1 new given None
        unfolding createdOnce_def Let_def by (intro conjI disjI2 exI [of _ tid] exI [of _ s1]) simp_all
    next
      case (Some seedErr)
      let ?s2 = "te_other w 1 s1"
      have i2: "inv ?s2" using rely(1) i1 by (simp add: keepsInv_def)
      obtain d s3 where d: "to_Delete ops (te_ctx w 1) tid ?s2 = (d, s3)" by (metis surj_pair)
      have tail: "fst st' = s3 \<and> snd st' = snd st \<and> snd r \<noteq> None
          \<and> fst r = (case d of Inl _ \<Rightarrow> Some ?t | Inr _ \<Rightarrow> None)"
        using start made Some d
        by (cases d) (auto simp: storeCall_def Let_def pendingTenant_def split del: if_split split: option.splits)
      have "(fst r = None \<and> abs s3 = (abs ?s2)(tid := None)) \<or> (fst r = Some ?t \<and> s3 = ?s2)"
        using delete_law [OF i2 d] tail by (cases d) simp_all
      moreover have "inv s3" using delete_inv [OF i2, of "te_ctx w 1" tid] d by simp
      ultimately show ?thesis using tail new given Some i1
        unfolding createdOnce_def Let_def by (intro conjI disjI2 exI [of _ tid] exI [of _ s1]) auto
    qed
  qed
qed

lemma remove_once:
  assumes rely: "keepsInv inv w" "mg_store mg = ops" "inv (fst st)"
    and run: "Manager_HardDelete mg w tid st = (r, st')"
  shows "inv (fst st') \<and> removedOnce abs w tid st r st'"
proof -
  let ?s1 = "othersUntil w 1 (fst st)" and ?s2 = "othersUntil w 2 (fst st)"
  have inv: "inv (othersUntil w i (fst st))" for i using othersUntil_inv [OF rely(1,3)] .
  have two: "?s2 = te_other w 1 ?s1" by (simp add: numeral_2_eq_2)
  have stop: ?thesis if "fst st' = othersUntil w i (fst st)" "r = Inl e" "i \<le> 2" for i e
    using that inv unfolding removedOnce_def by auto
  show ?thesis
  proof (cases "IsHost (te_state w)")
    case False
    with run have "fst st' = othersUntil w 0 (fst st)" "r = Inl ErrHostRequired" by (simp_all add: Manager_HardDelete_def)
    then show ?thesis by (rule stop) simp
  next
    case host: True
    show ?thesis
    proof (cases "to_Get ops (te_ctx w 0) tid ?s1")
      case (Inl e)
      with run host have "fst st' = ?s1" "r = Inl e"
        using get_call [OF rely(2), of w 0 tid "fst st" "snd st"] by (auto simp: Manager_HardDelete_def on_done_def)
      then show ?thesis by (rule stop) simp
    next
      case (Inr cur)
      then have cur: "abs ?s1 tid = Some cur" using get_law inv by blast
      note call = run [unfolded Manager_HardDelete_def] host Inr
        get_call [OF rely(2), of w 0 tid "fst st" "snd st"]
      show ?thesis
      proof (cases "tn_Status cur \<in> {TenantStatusActive, TenantStatusSuspended}")
        case False
        with call have "fst st' = ?s1" "r = Inl ErrInvalidState" by (auto simp: on_done_def)
        then show ?thesis by (rule stop) simp
      next
        case status: True
        let ?ev = "\<lparr>te_TenantID = tid, te_Action = ''hard_delete'', te_From = tn_Status cur,
          te_To = TenantStatusHardDeleted\<rparr>"
        obtain a log1 where em: "emit mg ?ev (?s1, snd st) = (a, (?s1, log1))"
          by (cases "mg_audit mg") (simp_all add: emit_def)
        show ?thesis
        proof (cases a)
          case (Inl e)
          with call status em have "fst st' = ?s1" "r = Inl e" by (auto simp: on_done_def)
          then show ?thesis by (rule stop) simp
        next
          case told: (Inr x)
          obtain d s3 where d: "to_Delete ops (te_ctx w 1) tid ?s2 = (d, s3)" by (metis surj_pair)
          have out: "fst st' = s3" "r = d"
            using call status em told d rely(2) two by (auto simp: on_done_def storeCall_def)
          show ?thesis
          proof (cases d)
            case (Inl e)
            then have "s3 = ?s2" using delete_law [OF inv d] by simp
            with out Inl have "fst st' = ?s2" "r = Inl e" by simp_all
            then show ?thesis by (rule stop) simp
          next
            case (Inr y)
            then have "abs ?s2 tid \<noteq> None" "abs s3 = (abs ?s2)(tid := None)" using delete_law [OF inv d] by simp_all
            moreover have "inv s3" using delete_inv [OF inv, of "te_ctx w 1" tid 2] d by simp
            ultimately show ?thesis using host status cur out Inr unfolding removedOnce_def by simp
          qed
        qed
      qed
    qed
  qed
qed

end

section \<open>Among users who keep to the lifecycle\<close>

text \<open>What such a command did is a sequence of lifecycle steps, when its own change is one.\<close>

lemma steps_then:
  "tenantRely ok view w \<Longrightarrow> ok s \<Longrightarrow> lifecycle_step (view (othersUntil w n s)) m \<Longrightarrow> lifecycle_steps (view s) m"
  using othersUntil_steps by (metis rtranclp.rtrancl_into_rtrancl)

lemma replaced_step:
  assumes "m tid = Some v" "tenantsEqual v cur" "tn_ID u = tid"
    and "tn_Status u = tn_Status cur \<or> lifecycle_edge (tn_Status cur) (tn_Status u)"
  shows "lifecycle_step m (m(tid \<mapsto> u))"
proof -
  have "tn_Status v = tn_Status cur" using assms(2) by (simp add: tenantsEqual_def)
  with assms(1,3,4) edited [of m u v] moved [of m u v] show ?thesis by auto
qed

lemma swapped_steps:
  assumes "tenantRely ok view w" "ok (fst st)" "swappedOnce view mg w move tid action st r st'"
    and "follows_lifecycle move" "\<And>s t. ok s \<Longrightarrow> view s tid = Some t \<Longrightarrow> tn_ID t = tid"
  shows "lifecycle_steps (view (fst st)) (view (fst st'))"
proof -
  note inv = othersUntil_inv [OF tenantRely_inv [OF assms(1)] assms(2)]
  from assms(3) obtain n where n: "let s = othersUntil w n (fst st) in
        st' = (s, snd st) \<and> (\<exists>e. r = Inl e)
        \<or> even n \<and> 0 < n
          \<and> (\<exists>cur v u. view (othersUntil w (n - 1) (fst st)) tid = Some cur
               \<and> view s tid = Some v \<and> tenantsEqual v cur \<and> move cur u
               \<and> view (fst st') = (view s)(tid \<mapsto> u)
               \<and> (r, snd st') = emitted mg (statusEvent tid action cur u) u (snd st))"
    unfolding swappedOnce_def by blast
  show ?thesis
  proof (cases "fst st' = othersUntil w n (fst st)")
    case True
    with othersUntil_steps [OF assms(1,2)] show ?thesis by simp
  next
    case False
    with n obtain cur v u where o: "view (othersUntil w (n - 1) (fst st)) tid = Some cur"
      "view (othersUntil w n (fst st)) tid = Some v" "tenantsEqual v cur" "move cur u"
      "view (fst st') = (view (othersUntil w n (fst st)))(tid \<mapsto> u)" by (auto simp: Let_def)
    have "tn_ID cur = tid" using assms(5) [OF inv o(1)] .
    with o(4) assms(4) have "tn_ID u = tid"
      "tn_Status u = tn_Status cur \<or> lifecycle_edge (tn_Status cur) (tn_Status u)"
      by (auto simp: follows_lifecycle_def)
    then have "lifecycle_step (view (othersUntil w n (fst st))) (view (fst st'))"
      using replaced_step [of "view (othersUntil w n (fst st))" tid v cur u] o by simp
    with steps_then [OF assms(1,2)] show ?thesis by blast
  qed
qed


lemma created_steps:
  assumes rely: "tenantRely ok view w" "ok (fst st)" and created: "createdOnce ok view mg w input st r st'"
  shows "lifecycle_steps (view (fst st)) (view (fst st'))"
proof -
  let ?s0 = "othersUntil w 1 (fst st)"
  from created consider n where "fst st' = othersUntil w n (fst st)"
    | tid s1 where "ok s1" "view ?s0 tid = None" "view s1 = (view ?s0)(tid \<mapsto> pendingTenant tid input)"
        "fst st' = s1 \<or> fst st' = te_other w 1 s1 \<or> view (fst st') = (view (te_other w 1 s1))(tid := None)"
    unfolding createdOnce_def Let_def
  proof (elim disjE exE conjE, goal_cases)
    case (1 n)
    then show ?thesis using \<open>\<And>n. fst st' = othersUntil w n (fst st) \<Longrightarrow> thesis\<close> by simp
  next
    case (2 tid s1)
    then show ?thesis by (auto split: if_splits)
  qed
  then show ?thesis
  proof cases
    case 1
    then show ?thesis using othersUntil_steps [OF rely] by simp
  next
    case 2
    let ?t = "pendingTenant tid input" and ?s2 = "te_other w 1 s1"
    have "lifecycle_step (view ?s0) (view s1)"
      using born [of "view ?s0" ?t] 2(2,3) by (simp add: pendingTenant_def)
    with steps_then [OF rely] have one: "lifecycle_steps (view (fst st)) (view s1)" by blast
    moreover have "lifecycle_steps (view s1) (view ?s2)" using rely(1) 2(1) by (simp add: tenantRely_def)
    ultimately have two: "lifecycle_steps (view (fst st)) (view ?s2)" by (rule rtranclp_trans)
    have "lifecycle_steps (view ?s2) ((view ?s2)(tid := None))"
      using gone [of "view ?s2" tid] by (cases "view ?s2 tid") (auto simp: fun_upd_idem)
    with two have three: "lifecycle_steps (view (fst st)) ((view ?s2)(tid := None))" by (rule rtranclp_trans)
    show ?thesis using 2(4) one two three by auto
  qed
qed

lemma removed_steps:
  assumes rely: "tenantRely ok view w" "ok (fst st)" and removed: "removedOnce view w tid st r st'"
  shows "lifecycle_steps (view (fst st)) (view (fst st'))"
  using removed othersUntil_steps [OF rely] steps_then [OF rely, of 2 "view (fst st')"]
    gone [of "view (othersUntil w 2 (fst st))" tid]
  unfolding removedOnce_def by (auto simp del: othersUntil.simps)

end
