(* ===== verification/Tenant_Guarantees.thy ===== *)
theory Tenant_Guarantees
  imports Tenant_Lifecycle
begin

text \<open>
  The manager over the in-memory tenant store: the store keeps the manager's contract, and
  what follows for the manager's commands.
\<close>

definition memoryTenantOps :: "TenantMemory tenantOps" where
  "memoryTenantOps = \<lparr>to_Get = Tenants_Get, to_Create = Tenants_Create, to_Update = Tenants_Update,
     to_Delete = Tenants_Delete, to_CAS = Some Tenants_CompareAndSwap\<rparr>"

definition tenantsOf :: "TenantMemory \<Rightarrow> tenantMap" where
  "tenantsOf st = map_of (tm_tenants st)"

lemma memory_get:
  assumes "tenant_inv s" "Tenants_Get cx tid s = r"
  shows "(\<forall>t. r = Inr t \<longrightarrow> tenantsOf s tid = Some t) \<and> (\<forall>e. r = Inl e \<longrightarrow> \<not> isConflict e)"
  using assms by (auto simp: tenant_ops tenantsOf_def tenantCtx_def split: option.splits if_splits)

lemma memory_create:
  "Tenants_Create cx t s = (r, s') \<Longrightarrow>
     (case r of Inl e \<Rightarrow> s' = s
      | Inr _ \<Rightarrow> tenantsOf s (tn_ID t) = None \<and> tenantsOf s' = (tenantsOf s)(tn_ID t \<mapsto> t))"
  by (auto simp: tenant_ops tenantsOf_def on_ok_result split: if_splits)

lemma memory_delete:
  "Tenants_Delete cx tid s = (r, s') \<Longrightarrow>
     (case r of Inl e \<Rightarrow> s' = s
      | Inr _ \<Rightarrow> tenantsOf s tid \<noteq> None \<and> tenantsOf s' = (tenantsOf s)(tid := None))"
  by (auto simp: tenant_ops tenantsOf_def on_ok_result split: if_splits)

lemma memory_cas_ok:
  "Tenants_CompareAndSwap cx old new s = (Inr u, s') \<Longrightarrow>
     tn_ID old = tn_ID new \<and> tenantsOf s' = (tenantsOf s)(tn_ID new \<mapsto> new)
     \<and> (\<exists>v. tenantsOf s (tn_ID old) = Some v \<and> tenantsEqual v old)"
  by (auto simp: tenant_ops tenantsOf_def ok_simps split: if_splits option.splits)

lemma ctx_not_conflict: "tenantCtx cx = Inl e \<Longrightarrow> \<not> isConflict e"
  by (auto simp: tenantCtx_def split: option.splits)

lemma validate_not_conflict: "validateTenant t = Inl e \<Longrightarrow> \<not> isConflict e"
  by (auto simp: validateTenant_def split: if_splits)

lemma memory_cas_failed:
  assumes "Tenants_CompareAndSwap cx old new s = (Inl e, s')"
  shows "s' = s \<and> (isConflict e \<longrightarrow> (\<forall>v. tenantsOf s (tn_ID old) = Some v \<longrightarrow> \<not> tenantsEqual v old))"
  using assms ctx_not_conflict validate_not_conflict
  by (auto simp: tenant_ops tenantsOf_def on_ok_result split: if_splits option.splits)

interpretation memory_backend: tenant_backend memoryTenantOps Tenants_CompareAndSwap tenant_inv tenantsOf
proof (unfold_locales, goal_cases)
  case (1 s cx tid t)
  then show ?case using memory_get by (simp add: memoryTenantOps_def)
next
  case (2 s cx tid e)
  then show ?case using memory_get by (simp add: memoryTenantOps_def)
next
  case (3 s tid t)
  then show ?case unfolding tenant_inv_def tenantsOf_def by (metis keyed_mapD)
next
  case (4 s cx t)
  then show ?case by (simp add: memoryTenantOps_def tenant_op_inv)
next
  case (5 s cx t r s')
  then show ?case using memory_create by (simp add: memoryTenantOps_def)
next
  case (6 s cx tid)
  then show ?case by (simp add: memoryTenantOps_def tenant_op_inv)
next
  case (7 s cx tid r s')
  then show ?case using memory_delete by (simp add: memoryTenantOps_def)
next
  case 8
  then show ?case by (simp add: memoryTenantOps_def)
next
  case (9 s cx old new)
  then show ?case by (simp add: tenant_op_inv)
next
  case (10 s cx old new r s')
  show ?case
  proof (cases r)
    case (Inl e)
    with 10 show ?thesis using memory_cas_failed [of cx old new s e s'] by simp
  next
    case (Inr u)
    with 10 show ?thesis using memory_cas_ok [of cx old new s u s'] by auto
  qed
qed

section \<open>The lifecycle\<close>

text \<open>What a transition may do to a tenant, and what an update may.\<close>

definition statusMove :: "(TenantStatus \<times> TenantStatus) set \<Rightarrow> Tenant \<Rightarrow> Tenant \<Rightarrow> bool" where
  "statusMove edges old new \<longleftrightarrow>
     (tn_Status old, tn_Status new) \<in> edges \<and> new = old\<lparr>tn_Status := tn_Status new\<rparr>"

definition metadataMove :: "TenantInput \<Rightarrow> Tenant \<Rightarrow> Tenant \<Rightarrow> bool" where
  "metadataMove input old new \<longleftrightarrow>
     new = \<lparr>tn_ID = tn_ID old, tn_Name = in_Name input, tn_Status = tn_Status old,
            tn_PlanID = in_PlanID input, tn_Config = in_Config input\<rparr>"

lemma tables_compute:
  "computes (withNext activateTransitions) (statusMove {(TenantStatusPending, TenantStatusActive)})"
  "computes (withNext suspendTransitions) (statusMove {(TenantStatusActive, TenantStatusSuspended)})"
  "computes (withNext restoreTransitions) (statusMove {(TenantStatusSuspended, TenantStatusActive)})"
  "computes (withNext softDeleteTransitions) (statusMove {(TenantStatusActive, TenantStatusSoftDeleted),
     (TenantStatusSuspended, TenantStatusSoftDeleted)})"
  "computes (withMetadata input) (metadataMove input)"
  by (auto simp: computes_def statusMove_def metadataMove_def withNext_def withMetadata_def
      activateTransitions_def suspendTransitions_def restoreTransitions_def softDeleteTransitions_def
      split: option.splits if_splits)

lemma metadata_follows: "follows_lifecycle (metadataMove input)"
  by (simp add: follows_lifecycle_def metadataMove_def)

lemma status_follows:
  "(\<And>a b. (a, b) \<in> edges \<Longrightarrow> lifecycle_edge a b) \<Longrightarrow> follows_lifecycle (statusMove edges)"
  unfolding follows_lifecycle_def statusMove_def by (metis Tenant.select_convs(1) Tenant.surjective Tenant.update_convs(3))

lemma moves_follow:
  "follows_lifecycle (statusMove {(TenantStatusPending, TenantStatusActive)})"
  "follows_lifecycle (statusMove {(TenantStatusActive, TenantStatusSuspended)})"
  "follows_lifecycle (statusMove {(TenantStatusSuspended, TenantStatusActive)})"
  "follows_lifecycle (statusMove {(TenantStatusActive, TenantStatusSoftDeleted),
     (TenantStatusSuspended, TenantStatusSoftDeleted)})"
  by (rule status_follows, auto intro: lifecycle_edge.intros)+

text \<open>A command over the in-memory store that leaves it well formed and swaps a tenant at most once.\<close>

definition swaps ::
  "TenantMemory Manager \<Rightarrow> TenantMemory tenantEnv \<Rightarrow> (Tenant \<Rightarrow> Tenant \<Rightarrow> bool) \<Rightarrow> TenantID \<Rightarrow> string
     \<Rightarrow> TenantMemory managed \<Rightarrow> (tenant_error + Tenant) \<times> TenantMemory managed \<Rightarrow> bool"
where
  "swaps mg w move tid action st res \<longleftrightarrow> tenant_inv (fst (snd res))
     \<and> swappedOnce tenantsOf mg w move tid action st (fst res) (snd res)"

lemma loop_swaps:
  assumes "keepsInv tenant_inv w" "mg_store mg = memoryTenantOps" "tenant_inv (fst st)"
    and "computes compute move"
    and "\<And>cur u. move cur u \<Longrightarrow> tn_ID cur = tid \<Longrightarrow> tn_ID u = tid \<Longrightarrow>
      event cur u = statusEvent tid action cur u"
  shows "swaps mg w move tid action st (casLoop mg w 0 maxCompareAndSwapAttempts tid compute event st)"
proof -
  obtain r st' where run: "casLoop mg w 0 maxCompareAndSwapAttempts tid compute event st = (r, st')"
    by (metis surj_pair)
  then have "casLoop mg w (3 * 0) 16 tid compute event (othersUntil w (2 * 0) (fst st), snd st) = (r, st')"
    by (simp add: maxCompareAndSwapAttempts_def)
  then have "tenant_inv (fst st') \<and> swappedOnce tenantsOf mg w move tid action (fst st, snd st) r st'"
    by (rule memory_backend.casLoop_once [OF assms(1,2,4,3) _ _, rotated 2]) (use assms(5) in blast, simp)
  then show ?thesis by (simp add: run swaps_def)
qed

lemma transition_swaps:
  assumes "keepsInv tenant_inv w" "mg_store mg = memoryTenantOps" "tenant_inv (fst st)"
    and "computes (withNext allowed) move"
  shows "swaps mg w move tid action st (transition mg w tid action allowed st)"
  unfolding transition_def by (rule loop_swaps [OF assms]) (simp add: statusEvent_def)

lemma update_swaps:
  assumes "keepsInv tenant_inv w" "mg_store mg = memoryTenantOps" "tenant_inv (fst st)"
  shows "swaps mg w (metadataMove input) (in_ID input) ''update'' st (Manager_Update mg w input st)"
  unfolding Manager_Update_def
  by (rule loop_swaps [OF assms tables_compute(5)]) (auto simp: statusEvent_def metadataMove_def)




text \<open>The environment in which nobody else uses the store, and a manager over it.\<close>

definition quietEnv :: "'s tenantEnv" where
  "quietEnv = \<lparr>te_ctx = (\<lambda>_. None), te_state = None, te_other = (\<lambda>_. id)\<rparr>"

definition sampleManager :: "TenantMemory Manager" where
  "sampleManager = NewManager memoryTenantOps (Inr ''0123456789abcdef'') []"

lemma quiet_rely: "tenantRely ok view quietEnv"
  by (simp add: tenantRely_def quietEnv_def)

lemma sampleManager_store [simp]:
  "mg_store sampleManager = memoryTenantOps" "mg_audit sampleManager = None"
  by (simp_all add: sampleManager_def NewManager_def)



text \<open>Among users who keep to the lifecycle, the commands are sequences of lifecycle steps.\<close>

definition lifecycleKept :: "TenantMemory managed \<Rightarrow> TenantMemory managed \<Rightarrow> bool" where
  "lifecycleKept st st' \<longleftrightarrow> tenant_inv (fst st')
     \<and> lifecycle_steps (tenantsOf (fst st)) (tenantsOf (fst st'))"

lemma swaps_kept:
  assumes "tenantRely tenant_inv tenantsOf w" "tenant_inv (fst st)"
    and "swaps mg w move tid action st res" "follows_lifecycle move"
  shows "lifecycleKept st (snd res)"
  using assms(3) swapped_steps [OF assms(1,2) _ assms(4), of mg tid action "fst res" "snd res"]
    memory_backend.keyed_law
  by (simp add: swaps_def lifecycleKept_def)

definition statusesKnown :: "TenantMemory managed \<Rightarrow> bool" where
  "statusesKnown st \<longleftrightarrow> (\<forall>tid t. tenantsOf (fst st) tid = Some t \<longrightarrow> knownStatus (tn_Status t))"

lemma kept_known: "lifecycleKept st st' \<Longrightarrow> statusesKnown st \<Longrightarrow> statusesKnown st'"
  unfolding lifecycleKept_def statusesKnown_def by (blast dest: lifecycle_steps_known)

lemma manager_kept:
  assumes rely: "tenantRely tenant_inv tenantsOf w" "mg_store mg = memoryTenantOps" "tenant_inv (fst st)"
  shows "lifecycleKept st (snd (Manager_Create mg w input st))"
    "lifecycleKept st (snd (Manager_Update mg w input st))"
    "computes (withNext allowed) move \<Longrightarrow> follows_lifecycle move \<Longrightarrow>
       lifecycleKept st (snd (transition mg w tid action allowed st))"
    "lifecycleKept st (snd (Manager_HardDelete mg w tid st))"
proof -
  note once = tenantRely_inv [OF rely(1)] rely(2,3)
  obtain r st' where c: "Manager_Create mg w input st = (r, st')" by (metis surj_pair)
  show "lifecycleKept st (snd (Manager_Create mg w input st))"
    using memory_backend.create_once [OF once c] created_steps [OF rely(1,3)]
    unfolding c lifecycleKept_def snd_conv by blast
  show "lifecycleKept st (snd (Manager_Update mg w input st))"
    by (rule swaps_kept [OF rely(1,3) update_swaps [OF once] metadata_follows])
  show "lifecycleKept st (snd (transition mg w tid action allowed st))"
    if "computes (withNext allowed) move" "follows_lifecycle move"
    by (rule swaps_kept [OF rely(1,3) transition_swaps [OF once that(1)] that(2)])
  obtain r st' where h: "Manager_HardDelete mg w tid st = (r, st')" by (metis surj_pair)
  show "lifecycleKept st (snd (Manager_HardDelete mg w tid st))"
    using memory_backend.remove_once [OF once h] removed_steps [OF rely(1,3)]
    unfolding h lifecycleKept_def snd_conv by blast
qed

lemmas transitions_kept = manager_kept(3) [OF _ _ _ tables_compute(1) moves_follow(1)]
  manager_kept(3) [OF _ _ _ tables_compute(2) moves_follow(2)]
  manager_kept(3) [OF _ _ _ tables_compute(3) moves_follow(3)]
  manager_kept(3) [OF _ _ _ tables_compute(4) moves_follow(4)]

text \<open>
  C40. The four statuses of the lifecycle are the only ones the manager's commands put in the
  store: when every tenant is pending, active, suspended or soft-deleted, so it is after any
  command and whatever the other managers did meanwhile; \<open>hard_deleted\<close> appears only in events.
\<close>

theorem stored_statuses:
  assumes "tenantRely tenant_inv tenantsOf w" "mg_store mg = memoryTenantOps" "tenant_inv (fst st)"
    and "statusesKnown st"
  shows "statusesKnown (snd (Manager_Create mg w input st))
    \<and> statusesKnown (snd (Manager_Update mg w input st))
    \<and> statusesKnown (snd (Manager_Activate mg w tid st))
    \<and> statusesKnown (snd (Manager_Suspend mg w tid st))
    \<and> statusesKnown (snd (Manager_Restore mg w tid st))
    \<and> statusesKnown (snd (Manager_SoftDelete mg w tid st))
    \<and> statusesKnown (snd (Manager_HardDelete mg w tid st))"
  using manager_kept(1,2,4) [OF assms(1-3)] transitions_kept [OF assms(1-3)] kept_known [OF _ assms(4)]
  by (simp add: Manager_Activate_def Manager_Suspend_def Manager_Restore_def Manager_SoftDelete_def)

theorem stored_statuses_witness:
  "statusesKnown (snd (Manager_SoftDelete sampleManager quietEnv ''a'' (sampleTenants, [])))
   \<and> tenantsOf (fst (snd (Manager_SoftDelete sampleManager quietEnv ''a'' (sampleTenants, [])))) ''a''
       = Some (sampleTenant ''a'' TenantStatusSoftDeleted)"
proof
  have "statusesKnown (sampleTenants, [])"
    by (simp add: statusesKnown_def sampleTenants_def tenantsOf_def sampleTenant_def knownStatus_def)
  then show "statusesKnown (snd (Manager_SoftDelete sampleManager quietEnv ''a'' (sampleTenants, [])))"
    by (intro stored_statuses [THEN conjunct2, THEN conjunct2, THEN conjunct2, THEN conjunct2,
          THEN conjunct2, THEN conjunct1]) (simp_all add: quiet_rely sampleTenants_inv)
qed code_simp

section \<open>What a command answers\<close>

lemma casLoop_rejected:
  assumes "mg_store mg = memoryTenantOps" "te_ctx w k = None" "tid \<noteq> []"
    and "tenantsOf (te_other w k (fst st)) tid = Some t" "compute t = Inl e" "0 < n"
  shows "casLoop mg w k n tid compute event st = (Inl e, (te_other w k (fst st), snd st))"
  using assms
  by (cases n) (simp_all add: managerGet_def storeCall_def memoryTenantOps_def Tenants_Get_def
      tenantsOf_def on_done_def)

text \<open>
  Soft deletion is final: once a tenant is soft-deleted, activating, suspending,
  restoring, soft-deleting, deleting and hard-deleting it all answer that the state is
  invalid; the command itself changes nothing and hands out no event.
\<close>

theorem soft_delete_final:
  assumes "mg_store mg = memoryTenantOps" "te_ctx w 0 = None" "tid \<noteq> []" "IsHost (te_state w)"
    and "tenantsOf (te_other w 0 s) tid = Some t" "tn_Status t = TenantStatusSoftDeleted"
  shows "Manager_Activate mg w tid (s, log) = (Inl ErrInvalidState, (te_other w 0 s, log))
    \<and> Manager_Suspend mg w tid (s, log) = (Inl ErrInvalidState, (te_other w 0 s, log))
    \<and> Manager_Restore mg w tid (s, log) = (Inl ErrInvalidState, (te_other w 0 s, log))
    \<and> Manager_SoftDelete mg w tid (s, log) = (Inl ErrInvalidState, (te_other w 0 s, log))
    \<and> Manager_Delete mg w tid (s, log) = (Inl ErrInvalidState, (te_other w 0 s, log))
    \<and> Manager_HardDelete mg w tid (s, log) = (Inl ErrInvalidState, (te_other w 0 s, log))"
proof -
  have "transition mg w tid action allowed (s, log) = (Inl ErrInvalidState, (te_other w 0 s, log))"
    if "map_of allowed TenantStatusSoftDeleted = None" for action allowed
    unfolding transition_def
    using that assms
    by (subst casLoop_rejected [where t = t and e = ErrInvalidState])
       (simp_all add: withNext_def maxCompareAndSwapAttempts_def)
  moreover have "Manager_HardDelete mg w tid (s, log) = (Inl ErrInvalidState, (te_other w 0 s, log))"
    using assms by (simp add: Manager_HardDelete_def managerGet_def storeCall_def memoryTenantOps_def
        Tenants_Get_def tenantsOf_def on_done_def)
  ultimately show ?thesis
    by (simp add: Manager_Activate_def Manager_Suspend_def Manager_Restore_def Manager_SoftDelete_def
        Manager_Delete_def on_done_def activateTransitions_def suspendTransitions_def
        restoreTransitions_def softDeleteTransitions_def)
qed

definition hostEnv :: "TenantMemory tenantEnv" where
  "hostEnv = quietEnv\<lparr>te_state := WithHost None\<rparr>"

definition deletedTenants :: TenantMemory where
  "deletedTenants = \<lparr>tm_tenants = [(''a'', sampleTenant ''a'' TenantStatusSoftDeleted)]\<rparr>"

theorem soft_delete_final_witness:
  "Manager_Restore sampleManager hostEnv ''a'' (deletedTenants, [])
     = (Inl ErrInvalidState, (deletedTenants, []))"
proof -
  have "te_other hostEnv 0 deletedTenants = deletedTenants" by (simp add: hostEnv_def quietEnv_def)
  moreover have "Manager_Restore sampleManager hostEnv ''a'' (deletedTenants, [])
      = (Inl ErrInvalidState, (te_other hostEnv 0 deletedTenants, []))"
    by (rule soft_delete_final [where t = "sampleTenant ''a'' TenantStatusSoftDeleted",
          THEN conjunct2, THEN conjunct2, THEN conjunct1])
       (simp_all add: hostEnv_def quietEnv_def deletedTenants_def tenantsOf_def sampleTenant_def
         tenant_context)
  ultimately show ?thesis by simp
qed

text \<open>The outcome of a command that runs undisturbed.\<close>

definition quietly :: "TenantMemory tenantEnv \<Rightarrow> bool" where
  "quietly w \<longleftrightarrow> (\<forall>k. te_ctx w k = None \<and> te_other w k = id)"

definition transitionResult ::
  "TenantMemory Manager \<Rightarrow> TenantID \<Rightarrow> string \<Rightarrow> transitions \<Rightarrow> TenantMemory managed
     \<Rightarrow> (tenant_error + Tenant) \<times> TenantMemory managed"
where
  "transitionResult mg tid action allowed st =
     (case tenantsOf (fst st) tid of
        None \<Rightarrow> (Inl ErrTenantNotFound, st)
      | Some t \<Rightarrow>
          (case map_of allowed (tn_Status t) of
             None \<Rightarrow> (Inl ErrInvalidState, st)
           | Some status \<Rightarrow>
               let t' = t\<lparr>tn_Status := status\<rparr>;
                   event = \<lparr>te_TenantID = tid, te_Action = action,
                            te_From = tn_Status t, te_To = status\<rparr>;
                   s' = putTenant t' (fst st) in
               (case mg_audit mg of
                  None \<Rightarrow> (Inr t', (s', snd st))
                | Some audit \<Rightarrow>
                    ((case audit event of None \<Rightarrow> Inr t' | Some e \<Rightarrow> Inl e),
                     (s', snd st @ [event])))))"

lemma casLoop_quiet:
  assumes "quietly w" "mg_store mg = memoryTenantOps" "tenant_inv s" "tenantsOf s tid = Some t"
    and "tid \<noteq> []" "compute t = Inr u" "tn_ID u = tid" "validateTenant u = Inr ()" "0 < n"
  shows "casLoop mg w k n tid compute event (s, log)
    = on_done (emit mg (event t u) (putTenant u s, log)) (\<lambda>_ st. (Inr u, st))"
proof -
  have t: "tn_ID t = tid" "validateTenant t = Inr ()"
    using assms(3,4) memory_backend.keyed_law by (auto simp: tenant_inv_def tenantsOf_def)
  then show ?thesis
    using assms
    by (cases n)
       (simp_all add: managerGet_def storeCall_def memoryTenantOps_def Tenants_Get_def on_done_def
         managerCompareAndSwap_def Tenants_CompareAndSwap_def tenantsOf_def quietly_def)
qed

text \<open>
  An undisturbed transition does exactly what its table says, whatever the auditor: an
  unknown tenant is not found, a status outside the table is an invalid state, and neither
  changes the store nor hands out an event; otherwise the tenant's status, and nothing else,
  is replaced, one event with the old and the new status is handed out, and an auditor's
  error is the answer although the change stays.
\<close>

theorem transition_exact:
  assumes "quietly w" "mg_store mg = memoryTenantOps" "tenant_inv (fst st)" "tid \<noteq> []"
  shows "Manager_Activate mg w tid st = transitionResult mg tid ''activate'' activateTransitions st
    \<and> Manager_Suspend mg w tid st = transitionResult mg tid ''suspend'' suspendTransitions st
    \<and> Manager_Restore mg w tid st = transitionResult mg tid ''restore'' restoreTransitions st
    \<and> Manager_SoftDelete mg w tid st
        = transitionResult mg tid ''soft_delete'' softDeleteTransitions st"
proof -
  have "transition mg w tid action allowed st = transitionResult mg tid action allowed st"
    if table: "TenantStatusOther [] \<notin> snd ` set allowed" for action allowed
  proof (cases "tenantsOf (fst st) tid")
    case None
    with assms show ?thesis
      by (cases st) (simp add: transition_def maxCompareAndSwapAttempts_def eval_nat_numeral
          managerGet_def storeCall_def memoryTenantOps_def Tenants_Get_def tenantsOf_def on_done_def
          quietly_def transitionResult_def)
  next
    case (Some t)
    show ?thesis
    proof (cases "map_of allowed (tn_Status t)")
      case None
      have "tenantsOf (te_other w 0 (fst st)) tid = Some t" "te_ctx w 0 = None"
        using assms(1) Some by (simp_all add: quietly_def)
      with None Some assms show ?thesis
        by (cases st) (simp add: transition_def transitionResult_def withNext_def quietly_def
            maxCompareAndSwapAttempts_def casLoop_rejected [where t = t and e = ErrInvalidState])
    next
      case status: (Some status)
      have "status \<noteq> TenantStatusOther []"
        using table map_of_SomeD [OF status] by force
      then have "validateTenant (t\<lparr>tn_Status := status\<rparr>) = Inr ()"
        using assms(4) Some memory_backend.keyed_law [OF assms(3)] by (simp add: validateTenant_def)
      with Some status assms memory_backend.keyed_law [OF assms(3)] show ?thesis
        by (cases st) (simp add: transition_def transitionResult_def withNext_def Let_def
            maxCompareAndSwapAttempts_def casLoop_quiet [where u = "t\<lparr>tn_Status := status\<rparr>"]
            emit_def on_done_def split: option.split)
    qed
  qed
  then show ?thesis
    by (simp add: Manager_Activate_def Manager_Suspend_def Manager_Restore_def Manager_SoftDelete_def
        activateTransitions_def suspendTransitions_def restoreTransitions_def softDeleteTransitions_def)
qed

theorem transition_exact_witness:
  "Manager_Suspend sampleManager quietEnv ''b'' (sampleTenants, [])
     = (Inr (sampleTenant ''b'' TenantStatusSuspended),
        (putTenant (sampleTenant ''b'' TenantStatusSuspended) sampleTenants, []))"
proof -
  have "Manager_Suspend sampleManager quietEnv ''b'' (sampleTenants, [])
      = transitionResult sampleManager ''b'' ''suspend'' suspendTransitions (sampleTenants, [])"
    by (rule transition_exact [THEN conjunct2, THEN conjunct1])
       (simp_all add: quietly_def quietEnv_def sampleTenants_inv)
  then show ?thesis
    by (simp add: transitionResult_def sampleTenants_def tenantsOf_def sampleTenant_def
        suspendTransitions_def Let_def)
qed

section \<open>Concurrent commands\<close>

text \<open>
  C31. No metadata update is lost and none brings back an old status: when \<open>Update\<close> succeeds, whatever
  the other users did between its calls, then its last act was to put the requested name, plan and
  configuration on the tenant as the others had left it at that very call, under the identifier and the
  status it had then; everything the others had done is still there.
\<close>

theorem update_not_lost:
  assumes "keepsInv tenant_inv w" "mg_store mg = memoryTenantOps" "tenant_inv (fst st)"
    and "Manager_Update mg w input st = (Inr u, st')"
  shows "\<exists>n v. even n \<and> 0 < n \<and> n \<le> 32 \<and> tenantsOf (othersUntil w n (fst st)) (in_ID input) = Some v
    \<and> u = \<lparr>tn_ID = in_ID input, tn_Name = in_Name input, tn_Status = tn_Status v,
          tn_PlanID = in_PlanID input, tn_Config = in_Config input\<rparr>
    \<and> tenantsOf (fst st') = (tenantsOf (othersUntil w n (fst st)))(in_ID input \<mapsto> u)"
proof -
  have "swappedOnce tenantsOf mg w (metadataMove input) (in_ID input) ''update'' st (Inr u) st'"
    using update_swaps [OF assms(1-3), of input] assms(4) by (simp add: swaps_def)
  then obtain n cur v new where o: "n \<le> 32" "even n" "0 < n" "tenantsOf (othersUntil w (n - 1) (fst st)) (in_ID input) = Some cur"
      "tenantsOf (othersUntil w n (fst st)) (in_ID input) = Some v" "tenantsEqual v cur" "metadataMove input cur new"
      "tenantsOf (fst st') = (tenantsOf (othersUntil w n (fst st)))(in_ID input \<mapsto> new)"
      "(Inr u, snd st') = emitted mg (statusEvent (in_ID input) ''update'' cur new) new (snd st)"
    unfolding swappedOnce_def Let_def by blast
  have "u = new" using o(9) by (auto simp: emitted_def split: option.splits)
  moreover have "tn_ID cur = in_ID input"
    using memory_backend.keyed_law [OF othersUntil_inv [OF assms(1,3)] o(4)] .
  ultimately have "u = \<lparr>tn_ID = in_ID input, tn_Name = in_Name input, tn_Status = tn_Status v,
      tn_PlanID = in_PlanID input, tn_Config = in_Config input\<rparr>"
    using o(6,7) by (simp add: metadataMove_def tenantsEqual_def)
  with o \<open>u = new\<close> show ?thesis by blast
qed

text \<open>An environment in which another manager soft-deletes the tenant before the replacement.\<close>

definition meddlingEnv :: "TenantMemory tenantEnv" where
  "meddlingEnv = \<lparr>te_ctx = (\<lambda>_. None), te_state = WithHost None, te_other = (\<lambda>k s.
     if k = 1 then fst (snd (Manager_SoftDelete sampleManager quietEnv ''a'' (s, []))) else s)\<rparr>"

lemma meddling_rely: "tenantRely tenant_inv tenantsOf meddlingEnv"
  using transitions_kept(4) [OF quiet_rely sampleManager_store(1), of _ "''a''" "''soft_delete''"]
  by (auto simp: tenantRely_def meddlingEnv_def Manager_SoftDelete_def lifecycleKept_def)

lemma meddling_inv: "keepsInv tenant_inv meddlingEnv"
  by (rule tenantRely_inv [OF meddling_rely])

definition renameInput :: TenantInput where
  "renameInput = \<lparr>in_ID = ''a'', in_Name = ''m'', in_PlanID = ''p'', in_Config = None\<rparr>"

theorem update_not_lost_witness:
  "\<exists>u st' n v. Manager_Update sampleManager meddlingEnv renameInput (sampleTenants, []) = (Inr u, st')
     \<and> tn_Status u = TenantStatusSoftDeleted
     \<and> tenantsOf (othersUntil meddlingEnv n sampleTenants) ''a'' = Some v \<and> tn_Status u = tn_Status v
     \<and> tenantsOf (fst st') = (tenantsOf (othersUntil meddlingEnv n sampleTenants))(''a'' \<mapsto> u)"
proof -
  let ?r = "Manager_Update sampleManager meddlingEnv renameInput (sampleTenants, [])"
  have "(case fst ?r of Inr u \<Rightarrow> tn_Status u = TenantStatusSoftDeleted | Inl _ \<Rightarrow> False)" by code_simp
  then obtain u st' where r: "?r = (Inr u, st')" "tn_Status u = TenantStatusSoftDeleted"
    by (cases ?r) (auto split: sum.splits)
  from update_not_lost [OF meddling_inv sampleManager_store(1) _ r(1)] sampleTenants_inv
  obtain n v where "tenantsOf (othersUntil meddlingEnv n sampleTenants) ''a'' = Some v" "tn_Status u = tn_Status v"
    "tenantsOf (fst st') = (tenantsOf (othersUntil meddlingEnv n sampleTenants))(''a'' \<mapsto> u)"
    by (auto simp: renameInput_def)
  with r show ?thesis by blast
qed

lemma withNext_calm: "withNext allowed t = Inl e \<Longrightarrow> \<not> isConflict e"
  by (auto simp: withNext_def split: option.splits)

lemma loop_calm:
  assumes "keepsInv tenant_inv w" "mg_store mg = memoryTenantOps" "tenant_inv (fst st)" "calmAudit mg"
    and "\<And>t e. compute t = Inl e \<Longrightarrow> \<not> isConflict e"
    and "i < 16" "tenantsOf (othersUntil w (2 * i + 2) (fst st)) tid = tenantsOf (othersUntil w (2 * i + 1) (fst st)) tid"
    and "fst (casLoop mg w 0 maxCompareAndSwapAttempts tid compute event st) = Inl e"
  shows "\<not> isConflict e"
proof
  assume c: "isConflict e"
  obtain st' where run: "casLoop mg w 0 16 tid compute event st = (Inl e, st')"
    using assms(8) by (cases "casLoop mg w 0 16 tid compute event st") (simp add: maxCompareAndSwapAttempts_def)
  from memory_backend.casLoop_conflict [OF assms(1-5), where j = 0 and n = 16 and i = i and log = "snd st"] run c
    assms(6,7) show False by simp
qed

text \<open>
  C38. The retries do not starve: if at one of the 16 attempts of a transition or an update the other
  users leave that tenant alone between the read and the conditional replacement, then the command does
  not end in a conflict, whatever they do the rest of the time and to other tenants - as long as the
  auditor does not itself answer a conflict, whose error would be the answer after the change.
\<close>

theorem transition_not_starved:
  assumes "keepsInv tenant_inv w" "mg_store mg = memoryTenantOps" "tenant_inv (fst st)" "calmAudit mg"
    and "i < 16" "tenantsOf (othersUntil w (2 * i + 2) (fst st)) tid = tenantsOf (othersUntil w (2 * i + 1) (fst st)) tid"
    and "in_ID input = tid" "isConflict e"
  shows "fst (Manager_Activate mg w tid st) \<noteq> Inl e \<and> fst (Manager_Suspend mg w tid st) \<noteq> Inl e
    \<and> fst (Manager_Restore mg w tid st) \<noteq> Inl e \<and> fst (Manager_SoftDelete mg w tid st) \<noteq> Inl e
    \<and> fst (Manager_Update mg w input st) \<noteq> Inl e"
proof -
  have "fst (transition mg w tid action allowed st) \<noteq> Inl e" for action allowed
    using loop_calm [OF assms(1-4) _ assms(5,6), where compute = "withNext allowed" and e = e] withNext_calm assms(8)
    unfolding transition_def by blast
  moreover have "fst (Manager_Update mg w input st) \<noteq> Inl e"
    using loop_calm [OF assms(1-4) _ assms(5,6), where compute = "withMetadata input"] assms(7,8)
    unfolding Manager_Update_def by (auto simp: withMetadata_def)
  ultimately show ?thesis
    by (simp add: Manager_Activate_def Manager_Suspend_def Manager_Restore_def Manager_SoftDelete_def)
qed

theorem transition_not_starved_witness:
  "fst (Manager_Suspend sampleManager meddlingEnv ''a'' (sampleTenants, [])) \<noteq> Inl ErrTenantConflict
   \<and> fst (Manager_Suspend sampleManager meddlingEnv ''a'' (sampleTenants, [])) = Inl ErrInvalidState"
proof
  have same: "tenantsOf (othersUntil meddlingEnv (2 * 1 + 2) (fst (sampleTenants, []))) ''a''
      = tenantsOf (othersUntil meddlingEnv (2 * 1 + 1) (fst (sampleTenants, []))) ''a''"
    by code_simp
  show "fst (Manager_Suspend sampleManager meddlingEnv ''a'' (sampleTenants, [])) \<noteq> Inl ErrTenantConflict"
    by (rule transition_not_starved [OF meddling_inv sampleManager_store(1) _ _ _ same, where input = renameInput,
          THEN conjunct2, THEN conjunct1])
       (simp_all add: sampleTenants_inv calmAudit_def renameInput_def)
  show "fst (Manager_Suspend sampleManager meddlingEnv ''a'' (sampleTenants, [])) = Inl ErrInvalidState"
    by code_simp
qed

text \<open>
  Hard deletion checks the status and removes the tenant in two calls of the store: a
  tenant that another manager soft-deletes in between is removed all the same, and the event
  handed out says that it was active, although hard deletion of a soft-deleted tenant is
  otherwise refused.
\<close>

theorem hard_delete_race:
  "tenantsOf (te_other meddlingEnv 1 sampleTenants) ''a''
       = Some (sampleTenant ''a'' TenantStatusSoftDeleted)
   \<and> fst (Manager_HardDelete sampleManager meddlingEnv ''a'' (sampleTenants, [])) = Inr ()
   \<and> tenantsOf (fst (snd (Manager_HardDelete sampleManager meddlingEnv ''a'' (sampleTenants, [])))) ''a'' = None
   \<and> fst (Manager_HardDelete sampleManager hostEnv ''a'' (deletedTenants, [])) = Inl ErrInvalidState"
  by (intro conjI; code_simp)

end
