(* ===== verification/Deployment_Store.thy ===== *)
theory Deployment_Store
  imports Core_Types Paging "HOL-Library.Word"
begin

text \<open>
  The in-memory deployment store (\<open>deployment/memory.go\<close>) and its records: units, the
  assignment of each tenant, and the prepared moves. The version of an assignment is an
  unsigned 64-bit word. The invariant \<open>placement_inv\<close> says that whatever is referenced is
  there and active.
\<close>

datatype deployment_error =
  DeployCtx ctx_error | ErrNilDeployStore | ErrInvalidDeploymentUnit | ErrDeploymentUnitNotFound
| ErrDeploymentUnitAlreadyExists | ErrDeploymentUnitUnavailable | ErrDeploymentUnitInUse
| ErrInvalidAssignment | ErrAssignmentNotFound | ErrAssignmentAlreadyExists | ErrAssignmentConflict
| ErrInvalidMove | ErrMoveNotFound | ErrMoveAlreadyExists | ErrMoveConflict
| ErrPolicyDenied string | ErrDeployHook string

record Assignment =
  as_TenantID :: TenantID
  as_UnitID :: DeploymentUnitID
  as_Version :: "64 word"

record Move =
  mv_TenantID :: TenantID
  mv_SourceUnitID :: DeploymentUnitID
  mv_TargetUnitID :: DeploymentUnitID

record DeployMemory =
  dm_units :: "(DeploymentUnitID, DeploymentUnit) gomap"
  dm_assignments :: "(TenantID, Assignment) gomap"
  dm_moves :: "(TenantID, Move) gomap"

definition NewDeployMemory :: DeployMemory where
  "NewDeployMemory = \<lparr>dm_units = [], dm_assignments = [], dm_moves = []\<rparr>"

section \<open>Validation\<close>

definition validateUnit :: "DeploymentUnit \<Rightarrow> deployment_error + unit" where
  "validateUnit u =
     (if du_ID u = [] \<or> TrimSpace (du_Region u) = [] then Inl ErrInvalidDeploymentUnit
      else case du_Status u of
        DeploymentUnitStatusActive \<Rightarrow> Inr ()
      | DeploymentUnitStatusDisabled \<Rightarrow> Inr ()
      | DeploymentUnitStatusOther _ \<Rightarrow> Inl ErrInvalidDeploymentUnit)"

definition validateAssignment :: "Assignment \<Rightarrow> deployment_error + unit" where
  "validateAssignment a =
     (if as_TenantID a = [] \<or> as_UnitID a = [] \<or> as_Version a = 0 then Inl ErrInvalidAssignment
      else Inr ())"

definition validateMove :: "Move \<Rightarrow> deployment_error + unit" where
  "validateMove m =
     (if mv_TenantID m = [] \<or> mv_SourceUnitID m = [] \<or> mv_TargetUnitID m = []
         \<or> mv_SourceUnitID m = mv_TargetUnitID m then Inl ErrInvalidMove
      else Inr ())"

definition deployCtx :: "ctx \<Rightarrow> deployment_error + unit" where
  "deployCtx cx = (case cx of None \<Rightarrow> Inr () | Some e \<Rightarrow> Inl (DeployCtx e))"

section \<open>Units\<close>

definition Deploy_GetUnit ::
  "ctx \<Rightarrow> DeploymentUnitID \<Rightarrow> DeployMemory \<Rightarrow> deployment_error + DeploymentUnit"
where
  "Deploy_GetUnit cx uid st =
     bind_ok (deployCtx cx) (\<lambda>_.
       if uid = [] then Inl ErrInvalidDeploymentUnit
       else (case map_of (dm_units st) uid of
               None \<Rightarrow> Inl ErrDeploymentUnitNotFound | Some u \<Rightarrow> Inr u))"

definition Deploy_ListUnits :: "ctx \<Rightarrow> DeployMemory \<Rightarrow> deployment_error + DeploymentUnit list" where
  "Deploy_ListUnits cx st =
     bind_ok (deployCtx cx) (\<lambda>_. Inr (sortRows du_ID (\<lambda>_. True) (dm_units st)))"

definition putUnit :: "DeploymentUnit \<Rightarrow> DeployMemory \<Rightarrow> DeployMemory" where
  "putUnit u st = st\<lparr>dm_units := AList.update (du_ID u) u (dm_units st)\<rparr>"

definition Deploy_CreateUnit ::
  "ctx \<Rightarrow> DeploymentUnit \<Rightarrow> DeployMemory \<Rightarrow> (deployment_error + unit) \<times> DeployMemory"
where
  "Deploy_CreateUnit cx u st =
     on_ok (deployCtx cx) st (\<lambda>_. on_ok (validateUnit u) st (\<lambda>_.
       if map_of (dm_units st) (du_ID u) \<noteq> None then fails ErrDeploymentUnitAlreadyExists st
       else (Inr (), putUnit u st)))"

definition Deploy_UpdateUnit ::
  "ctx \<Rightarrow> DeploymentUnit \<Rightarrow> DeployMemory \<Rightarrow> (deployment_error + unit) \<times> DeployMemory"
where
  "Deploy_UpdateUnit cx u st =
     on_ok (deployCtx cx) st (\<lambda>_. on_ok (validateUnit u) st (\<lambda>_.
       case map_of (dm_units st) (du_ID u) of
         None \<Rightarrow> fails ErrDeploymentUnitNotFound st
       | Some current \<Rightarrow>
           if du_Status current \<noteq> du_Status u then fails ErrInvalidDeploymentUnit st
           else (Inr (), putUnit u st)))"

definition unitReferencedLocked :: "DeploymentUnitID \<Rightarrow> DeployMemory \<Rightarrow> bool" where
  "unitReferencedLocked uid st \<longleftrightarrow>
     list_ex (\<lambda>a. as_UnitID a = uid) (vals (dm_assignments st))
     \<or> list_ex (\<lambda>m. mv_SourceUnitID m = uid \<or> mv_TargetUnitID m = uid) (vals (dm_moves st))"

definition Deploy_DisableUnit ::
  "ctx \<Rightarrow> DeploymentUnitID \<Rightarrow> DeployMemory
     \<Rightarrow> (deployment_error + DeploymentUnit \<times> bool) \<times> DeployMemory"
where
  "Deploy_DisableUnit cx uid st =
     on_ok (deployCtx cx) st (\<lambda>_.
       if uid = [] then fails ErrInvalidDeploymentUnit st
       else case map_of (dm_units st) uid of
         None \<Rightarrow> fails ErrDeploymentUnitNotFound st
       | Some u \<Rightarrow>
           if du_Status u = DeploymentUnitStatusDisabled then (Inr (u, False), st)
           else if unitReferencedLocked uid st then fails ErrDeploymentUnitInUse st
           else let u' = u\<lparr>du_Status := DeploymentUnitStatusDisabled\<rparr> in
             (Inr (u', True), st\<lparr>dm_units := AList.update uid u' (dm_units st)\<rparr>))"

definition Deploy_DeleteUnit ::
  "ctx \<Rightarrow> DeploymentUnitID \<Rightarrow> DeployMemory \<Rightarrow> (deployment_error + unit) \<times> DeployMemory"
where
  "Deploy_DeleteUnit cx uid st =
     on_ok (deployCtx cx) st (\<lambda>_.
       if uid = [] then fails ErrInvalidDeploymentUnit st
       else if map_of (dm_units st) uid = None then fails ErrDeploymentUnitNotFound st
       else if unitReferencedLocked uid st then fails ErrDeploymentUnitInUse st
       else (Inr (), st\<lparr>dm_units := AList.delete uid (dm_units st)\<rparr>))"

section \<open>Assignments\<close>

definition Deploy_GetAssignment ::
  "ctx \<Rightarrow> TenantID \<Rightarrow> DeployMemory \<Rightarrow> deployment_error + Assignment"
where
  "Deploy_GetAssignment cx tid st =
     bind_ok (deployCtx cx) (\<lambda>_.
       if tid = [] then Inl ErrInvalidAssignment
       else (case map_of (dm_assignments st) tid of
               None \<Rightarrow> Inl ErrAssignmentNotFound | Some a \<Rightarrow> Inr a))"

definition Deploy_ListAssignmentsByUnit ::
  "ctx \<Rightarrow> DeploymentUnitID \<Rightarrow> DeployMemory \<Rightarrow> deployment_error + Assignment list"
where
  "Deploy_ListAssignmentsByUnit cx uid st =
     bind_ok (deployCtx cx) (\<lambda>_.
       if uid = [] then Inl ErrInvalidDeploymentUnit
       else Inr (sortRows as_TenantID (\<lambda>a. as_UnitID a = uid) (dm_assignments st)))"

definition activeUnit :: "DeploymentUnitID \<Rightarrow> DeployMemory \<Rightarrow> deployment_error + unit" where
  "activeUnit uid st =
     (case map_of (dm_units st) uid of
        None \<Rightarrow> Inl ErrDeploymentUnitNotFound
      | Some u \<Rightarrow> if du_Status u \<noteq> DeploymentUnitStatusActive then Inl ErrDeploymentUnitUnavailable
                  else Inr ())"

definition putAssignment :: "Assignment \<Rightarrow> DeployMemory \<Rightarrow> DeployMemory" where
  "putAssignment a st = st\<lparr>dm_assignments := AList.update (as_TenantID a) a (dm_assignments st)\<rparr>"

definition Deploy_CreateAssignment ::
  "ctx \<Rightarrow> Assignment \<Rightarrow> DeployMemory \<Rightarrow> (deployment_error + unit) \<times> DeployMemory"
where
  "Deploy_CreateAssignment cx a st =
     on_ok (deployCtx cx) st (\<lambda>_. on_ok (validateAssignment a) st (\<lambda>_.
     on_ok (activeUnit (as_UnitID a) st) st (\<lambda>_.
       if map_of (dm_assignments st) (as_TenantID a) \<noteq> None then fails ErrAssignmentAlreadyExists st
       else (Inr (), putAssignment a st))))"

definition Deploy_CompareAndSwapAssignment ::
  "ctx \<Rightarrow> Assignment \<Rightarrow> Assignment \<Rightarrow> DeployMemory \<Rightarrow> (deployment_error + unit) \<times> DeployMemory"
where
  "Deploy_CompareAndSwapAssignment cx expected updated st =
     on_ok (deployCtx cx) st (\<lambda>_. on_ok (validateAssignment expected) st (\<lambda>_.
     on_ok (validateAssignment updated) st (\<lambda>_.
       if as_TenantID expected \<noteq> as_TenantID updated then fails ErrInvalidAssignment st
       else case map_of (dm_assignments st) (as_TenantID expected) of
         None \<Rightarrow> fails ErrAssignmentNotFound st
       | Some current \<Rightarrow>
           if current \<noteq> expected then fails ErrAssignmentConflict st
           else on_ok (activeUnit (as_UnitID updated) st) st (\<lambda>_.
             (Inr (), putAssignment updated st)))))"

section \<open>Moves\<close>

definition Deploy_CutoverMove ::
  "ctx \<Rightarrow> Assignment \<Rightarrow> Move \<Rightarrow> Assignment \<Rightarrow> DeployMemory \<Rightarrow> (deployment_error + unit) \<times> DeployMemory"
where
  "Deploy_CutoverMove cx expected move updated st =
     on_ok (deployCtx cx) st (\<lambda>_. on_ok (validateAssignment expected) st (\<lambda>_.
     on_ok (validateMove move) st (\<lambda>_. on_ok (validateAssignment updated) st (\<lambda>_.
       if as_TenantID expected \<noteq> as_TenantID updated \<or> mv_TenantID move \<noteq> as_TenantID expected
          \<or> as_UnitID expected \<noteq> mv_SourceUnitID move \<or> as_UnitID updated \<noteq> mv_TargetUnitID move
          \<or> as_Version updated \<noteq> as_Version expected + 1 then fails ErrMoveConflict st
       else case map_of (dm_moves st) (mv_TenantID move) of
         None \<Rightarrow> fails ErrMoveNotFound st
       | Some currentMove \<Rightarrow>
           if currentMove \<noteq> move then fails ErrMoveConflict st
           else case map_of (dm_assignments st) (as_TenantID expected) of
             None \<Rightarrow> fails ErrAssignmentNotFound st
           | Some currentAssignment \<Rightarrow>
               if currentAssignment \<noteq> expected then fails ErrAssignmentConflict st
               else on_ok (activeUnit (as_UnitID updated) st) st (\<lambda>_.
                 (Inr (), (putAssignment updated st)
                    \<lparr>dm_moves := AList.delete (mv_TenantID move) (dm_moves st)\<rparr>))))))"

definition Deploy_GetMove :: "ctx \<Rightarrow> TenantID \<Rightarrow> DeployMemory \<Rightarrow> deployment_error + Move" where
  "Deploy_GetMove cx tid st =
     bind_ok (deployCtx cx) (\<lambda>_.
       if tid = [] then Inl ErrInvalidMove
       else (case map_of (dm_moves st) tid of None \<Rightarrow> Inl ErrMoveNotFound | Some m \<Rightarrow> Inr m))"

definition Deploy_ListMovesByUnit ::
  "ctx \<Rightarrow> DeploymentUnitID \<Rightarrow> DeployMemory \<Rightarrow> deployment_error + Move list"
where
  "Deploy_ListMovesByUnit cx uid st =
     bind_ok (deployCtx cx) (\<lambda>_.
       if uid = [] then Inl ErrInvalidDeploymentUnit
       else Inr (sortRows mv_TenantID (\<lambda>m. mv_SourceUnitID m = uid \<or> mv_TargetUnitID m = uid)
                   (dm_moves st)))"

definition Deploy_CreateMove ::
  "ctx \<Rightarrow> Move \<Rightarrow> DeployMemory \<Rightarrow> (deployment_error + unit) \<times> DeployMemory"
where
  "Deploy_CreateMove cx move st =
     on_ok (deployCtx cx) st (\<lambda>_. on_ok (validateMove move) st (\<lambda>_.
     on_ok (activeUnit (mv_TargetUnitID move) st) st (\<lambda>_.
       case map_of (dm_assignments st) (mv_TenantID move) of
         None \<Rightarrow> fails ErrAssignmentNotFound st
       | Some a \<Rightarrow>
           if as_UnitID a \<noteq> mv_SourceUnitID move then fails ErrMoveConflict st
           else if map_of (dm_moves st) (mv_TenantID move) \<noteq> None then fails ErrMoveAlreadyExists st
           else (Inr (), st\<lparr>dm_moves := AList.update (mv_TenantID move) move (dm_moves st)\<rparr>))))"

definition Deploy_DeleteMove ::
  "ctx \<Rightarrow> TenantID \<Rightarrow> DeployMemory \<Rightarrow> (deployment_error + unit) \<times> DeployMemory"
where
  "Deploy_DeleteMove cx tid st =
     on_ok (deployCtx cx) st (\<lambda>_.
       if tid = [] then fails ErrInvalidMove st
       else if map_of (dm_moves st) tid = None then fails ErrMoveNotFound st
       else (Inr (), st\<lparr>dm_moves := AList.delete tid (dm_moves st)\<rparr>))"

definition Deploy_DeleteMoveIfMatch ::
  "ctx \<Rightarrow> Move \<Rightarrow> DeployMemory \<Rightarrow> (deployment_error + unit) \<times> DeployMemory"
where
  "Deploy_DeleteMoveIfMatch cx move st =
     on_ok (deployCtx cx) st (\<lambda>_. on_ok (validateMove move) st (\<lambda>_.
       case map_of (dm_moves st) (mv_TenantID move) of
         None \<Rightarrow> fails ErrMoveNotFound st
       | Some current \<Rightarrow>
           if current \<noteq> move then fails ErrMoveConflict st
           else (Inr (), st\<lparr>dm_moves := AList.delete (mv_TenantID move) (dm_moves st)\<rparr>)))"

section \<open>The invariant\<close>

definition unitActive :: "DeployMemory \<Rightarrow> DeploymentUnitID \<Rightarrow> bool" where
  "unitActive st uid \<longleftrightarrow>
     (\<exists>u. map_of (dm_units st) uid = Some u \<and> du_Status u = DeploymentUnitStatusActive)"

definition placement_inv :: "DeployMemory \<Rightarrow> bool" where
  "placement_inv st \<longleftrightarrow>
     keyed_map du_ID (dm_units st) \<and> keyed_map as_TenantID (dm_assignments st)
     \<and> keyed_map mv_TenantID (dm_moves st)
     \<and> (\<forall>uid u. map_of (dm_units st) uid = Some u \<longrightarrow> validateUnit u = Inr ())
     \<and> (\<forall>tid a. map_of (dm_assignments st) tid = Some a
          \<longrightarrow> validateAssignment a = Inr () \<and> unitActive st (as_UnitID a))
     \<and> (\<forall>tid m. map_of (dm_moves st) tid = Some m
          \<longrightarrow> validateMove m = Inr () \<and> map_of (dm_assignments st) tid \<noteq> None
              \<and> unitActive st (mv_SourceUnitID m) \<and> unitActive st (mv_TargetUnitID m))"

text \<open>
  The operations of the store, as steps. \<open>placement_step\<close> has those the service uses;
  \<open>CompareAndSwapAssignment\<close>, which the service never calls, may also set a version back.
\<close>

inductive placement_step :: "DeployMemory \<Rightarrow> DeployMemory \<Rightarrow> bool" where
  create_unit: "placement_step st (snd (Deploy_CreateUnit cx u st))"
| update_unit: "placement_step st (snd (Deploy_UpdateUnit cx u st))"
| disable_unit: "placement_step st (snd (Deploy_DisableUnit cx uid st))"
| delete_unit: "placement_step st (snd (Deploy_DeleteUnit cx uid st))"
| create_assignment: "placement_step st (snd (Deploy_CreateAssignment cx a st))"
| cutover_move: "placement_step st (snd (Deploy_CutoverMove cx a m a' st))"
| create_move: "placement_step st (snd (Deploy_CreateMove cx m st))"
| delete_move: "placement_step st (snd (Deploy_DeleteMove cx tid st))"
| delete_move_if_match: "placement_step st (snd (Deploy_DeleteMoveIfMatch cx m st))"

inductive deploy_step :: "DeployMemory \<Rightarrow> DeployMemory \<Rightarrow> bool" where
  placement: "placement_step st st' \<Longrightarrow> deploy_step st st'"
| swap_assignment: "deploy_step st (snd (Deploy_CompareAndSwapAssignment cx a a' st))"

inductive_cases placement_stepE: "placement_step st st'"
inductive_cases deploy_stepE: "deploy_step st st'"

end
