(* ===== verification/Deployment_Invariants.thy ===== *)
theory Deployment_Invariants
  imports Deployment_Store
begin

text \<open>
  What holds in every state of the deployment store: every operation keeps \<open>placement_inv\<close>,
  and an operation that fails changes nothing.
\<close>

lemmas deploy_ops = Deploy_CreateUnit_def Deploy_UpdateUnit_def Deploy_DisableUnit_def
  Deploy_DeleteUnit_def Deploy_CreateAssignment_def Deploy_CompareAndSwapAssignment_def
  Deploy_CutoverMove_def Deploy_CreateMove_def Deploy_DeleteMove_def Deploy_DeleteMoveIfMatch_def

lemma deployCtx_simps [simp]: "deployCtx None = Inr ()" "deployCtx (Some e) = Inl (DeployCtx e)"
  by (simp_all add: deployCtx_def)

lemma activeUnit_ok: "activeUnit uid st = Inr v \<longleftrightarrow> unitActive st uid"
  by (auto simp: activeUnit_def unitActive_def split: option.splits if_splits)

lemma assigned_active:
  "placement_inv st \<Longrightarrow> map_of (dm_assignments st) tid = Some a \<Longrightarrow> unitActive st (as_UnitID a)"
  unfolding placement_inv_def by blast

lemma placement_inv_new: "placement_inv NewDeployMemory"
  by (simp add: placement_inv_def NewDeployMemory_def)

definition referenced :: "DeploymentUnitID \<Rightarrow> DeployMemory \<Rightarrow> bool" where
  "referenced uid st \<longleftrightarrow>
     (\<exists>tid a. map_of (dm_assignments st) tid = Some a \<and> as_UnitID a = uid)
     \<or> (\<exists>tid m. map_of (dm_moves st) tid = Some m
          \<and> (mv_SourceUnitID m = uid \<or> mv_TargetUnitID m = uid))"

lemma unitReferencedLocked_iff:
  "placement_inv st \<Longrightarrow> unitReferencedLocked uid st \<longleftrightarrow> referenced uid st"
  unfolding unitReferencedLocked_def referenced_def placement_inv_def
  by (elim conjE) (simp only: list_ex_vals)

lemma referenced_active: "placement_inv st \<Longrightarrow> referenced uid st \<Longrightarrow> unitActive st uid"
  unfolding placement_inv_def referenced_def by blast

text \<open>How each kind of change keeps the invariant.\<close>

lemma placement_units:
  assumes inv: "placement_inv st" and keyed: "keyed_map du_ID us"
    and valid: "\<And>uid u. map_of us uid = Some u \<Longrightarrow> validateUnit u = Inr ()"
    and active: "\<And>uid. referenced uid st \<Longrightarrow> unitActive (st\<lparr>dm_units := us\<rparr>) uid"
  shows "placement_inv (st\<lparr>dm_units := us\<rparr>)"
proof -
  have "unitActive (st\<lparr>dm_units := us\<rparr>) (as_UnitID a)"
    if "map_of (dm_assignments st) tid = Some a" for tid a
    using that by (intro active) (auto simp: referenced_def)
  moreover have "unitActive (st\<lparr>dm_units := us\<rparr>) (mv_SourceUnitID m)
      \<and> unitActive (st\<lparr>dm_units := us\<rparr>) (mv_TargetUnitID m)"
    if "map_of (dm_moves st) tid = Some m" for tid m
    using that by (intro conjI active) (auto simp: referenced_def)
  ultimately show ?thesis using inv keyed valid unfolding placement_inv_def by simp
qed

lemma unitActive_other [simp]:
  "unitActive (st\<lparr>dm_assignments := x\<rparr>) uid = unitActive st uid"
  "unitActive (st\<lparr>dm_moves := y\<rparr>) uid = unitActive st uid"
  "unitActive (putAssignment a st) uid = unitActive st uid"
  by (simp_all add: unitActive_def putAssignment_def)

lemma placement_assignment:
  "placement_inv st \<Longrightarrow> validateAssignment a = Inr () \<Longrightarrow> unitActive st (as_UnitID a)
     \<Longrightarrow> placement_inv (putAssignment a st)"
  unfolding placement_inv_def by (auto simp: keyed_map_update putAssignment_def)

lemma placement_move_added:
  "placement_inv st \<Longrightarrow> validateMove m = Inr () \<Longrightarrow> map_of (dm_assignments st) (mv_TenantID m) \<noteq> None
     \<Longrightarrow> unitActive st (mv_SourceUnitID m) \<Longrightarrow> unitActive st (mv_TargetUnitID m)
     \<Longrightarrow> placement_inv (st\<lparr>dm_moves := AList.update (mv_TenantID m) m (dm_moves st)\<rparr>)"
  unfolding placement_inv_def by (simp add: keyed_map_update)

lemma placement_move_removed:
  "placement_inv st \<Longrightarrow> placement_inv (st\<lparr>dm_moves := AList.delete tid (dm_moves st)\<rparr>)"
  unfolding placement_inv_def by (simp add: keyed_map_delete)

lemma placement_unit_put:
  assumes inv: "placement_inv st" and valid: "validateUnit u = Inr ()"
    and ok: "referenced (du_ID u) st \<Longrightarrow> du_Status u = DeploymentUnitStatusActive"
  shows "placement_inv (st\<lparr>dm_units := AList.update (du_ID u) u (dm_units st)\<rparr>)"
proof (rule placement_units [OF inv])
  show "keyed_map du_ID (AList.update (du_ID u) u (dm_units st))"
    using inv by (simp add: placement_inv_def keyed_map_update)
  show "validateUnit v = Inr ()" if "map_of (AList.update (du_ID u) u (dm_units st)) uid = Some v" for uid v
    using that inv valid by (auto simp: placement_inv_def split: if_splits)
  show "unitActive (st\<lparr>dm_units := AList.update (du_ID u) u (dm_units st)\<rparr>) uid"
    if "referenced uid st" for uid
    using that ok referenced_active [OF inv that] by (auto simp: unitActive_def)
qed

lemma unit_id: "placement_inv st \<Longrightarrow> map_of (dm_units st) uid = Some u \<Longrightarrow> du_ID u = uid"
  unfolding placement_inv_def using keyed_mapD by metis

lemma validateUnit_disable:
  "validateUnit u = Inr () \<Longrightarrow> validateUnit (u\<lparr>du_Status := DeploymentUnitStatusDisabled\<rparr>) = Inr ()"
  by (simp add: validateUnit_def split: if_splits)

text \<open>One lemma per operation.\<close>

lemma CreateUnit_inv: "placement_inv st \<Longrightarrow> placement_inv (snd (Deploy_CreateUnit cx u st))"
proof -
  assume inv: "placement_inv st"
  have "placement_inv (putUnit u st)"
    if "validateUnit u = Inr ()" "map_of (dm_units st) (du_ID u) = None"
    using inv that referenced_active [OF inv, of "du_ID u"] unfolding putUnit_def
    by (intro placement_unit_put) (auto simp: unitActive_def)
  then show ?thesis using inv by (auto simp: deploy_ops on_ok_def split: sum.splits)
qed

lemma UpdateUnit_inv: "placement_inv st \<Longrightarrow> placement_inv (snd (Deploy_UpdateUnit cx u st))"
proof -
  assume inv: "placement_inv st"
  have "placement_inv (putUnit u st)"
    if "validateUnit u = Inr ()" "map_of (dm_units st) (du_ID u) = Some c" "du_Status c = du_Status u" for c
    using inv that referenced_active [OF inv, of "du_ID u"] unfolding putUnit_def
    by (intro placement_unit_put) (auto simp: unitActive_def)
  then show ?thesis using inv by (auto simp: deploy_ops on_ok_def split: sum.splits option.splits)
qed

lemma DisableUnit_inv: "placement_inv st \<Longrightarrow> placement_inv (snd (Deploy_DisableUnit cx uid st))"
proof -
  assume inv: "placement_inv st"
  have "placement_inv (st\<lparr>dm_units := AList.update uid
      (u\<lparr>du_Status := DeploymentUnitStatusDisabled\<rparr>) (dm_units st)\<rparr>)"
    if u: "map_of (dm_units st) uid = Some u" and free: "\<not> unitReferencedLocked uid st" for u
  proof -
    let ?u = "u\<lparr>du_Status := DeploymentUnitStatusDisabled\<rparr>"
    have "du_ID ?u = uid" using unit_id [OF inv u] by simp
    moreover have "validateUnit ?u = Inr ()"
      using inv u validateUnit_disable by (auto simp: placement_inv_def)
    ultimately show ?thesis
      using placement_unit_put [OF inv, of ?u] free unitReferencedLocked_iff [OF inv] by simp
  qed
  then show ?thesis using inv by (auto simp: deploy_ops on_ok_def Let_def split: sum.splits option.splits)
qed

lemma DeleteUnit_inv: "placement_inv st \<Longrightarrow> placement_inv (snd (Deploy_DeleteUnit cx uid st))"
proof -
  assume inv: "placement_inv st"
  have "placement_inv (st\<lparr>dm_units := AList.delete uid (dm_units st)\<rparr>)"
    if free: "\<not> unitReferencedLocked uid st"
  proof (rule placement_units [OF inv])
    show "keyed_map du_ID (AList.delete uid (dm_units st))"
      using inv by (simp add: placement_inv_def keyed_map_delete)
    show "validateUnit u = Inr ()" if "map_of (AList.delete uid (dm_units st)) i = Some u" for i u
      using that inv by (auto simp: placement_inv_def split: if_splits)
    show "unitActive (st\<lparr>dm_units := AList.delete uid (dm_units st)\<rparr>) i" if "referenced i st" for i
      using referenced_active [OF inv that] that free unitReferencedLocked_iff [OF inv]
      by (auto simp: unitActive_def)
  qed
  then show ?thesis using inv by (auto simp: deploy_ops on_ok_def split: sum.splits)
qed

lemma CreateAssignment_inv:
  "placement_inv st \<Longrightarrow> placement_inv (snd (Deploy_CreateAssignment cx a st))"
  using placement_assignment [of st a]
  by (auto simp: deploy_ops on_ok_def activeUnit_ok split: sum.splits)

lemma CompareAndSwapAssignment_inv:
  "placement_inv st \<Longrightarrow> placement_inv (snd (Deploy_CompareAndSwapAssignment cx a a' st))"
  using placement_assignment [of st a']
  by (auto simp: deploy_ops on_ok_def activeUnit_ok split: sum.splits option.splits)

lemma CutoverMove_inv:
  "placement_inv st \<Longrightarrow> placement_inv (snd (Deploy_CutoverMove cx a m a' st))"
proof -
  assume inv: "placement_inv st"
  have "placement_inv ((putAssignment a' st)\<lparr>dm_moves := AList.delete (mv_TenantID m) (dm_moves st)\<rparr>)"
    if "validateAssignment a' = Inr ()" "unitActive st (as_UnitID a')"
    using placement_move_removed [OF placement_assignment [OF inv that], of "mv_TenantID m"]
    by (simp add: putAssignment_def)
  then show ?thesis using inv
    by (auto simp: deploy_ops on_ok_def activeUnit_ok split: sum.splits option.splits)
qed

lemma CreateMove_inv: "placement_inv st \<Longrightarrow> placement_inv (snd (Deploy_CreateMove cx m st))"
proof -
  assume inv: "placement_inv st"
  have "unitActive st (mv_SourceUnitID m)"
    if "map_of (dm_assignments st) (mv_TenantID m) = Some a" "as_UnitID a = mv_SourceUnitID m" for a
    using assigned_active [OF inv that(1)] that(2) by simp
  then show ?thesis using inv placement_move_added [OF inv, of m]
    by (auto simp: deploy_ops on_ok_def activeUnit_ok split: sum.splits option.splits)
qed

lemma DeleteMove_inv:
  "placement_inv st \<Longrightarrow> placement_inv (snd (Deploy_DeleteMove cx tid st))"
  "placement_inv st \<Longrightarrow> placement_inv (snd (Deploy_DeleteMoveIfMatch cx m st))"
  using placement_move_removed
  by (auto simp: deploy_ops on_ok_def split: sum.splits option.splits)

lemmas deploy_op_inv = CreateUnit_inv UpdateUnit_inv DisableUnit_inv DeleteUnit_inv
  CreateAssignment_inv CompareAndSwapAssignment_inv CutoverMove_inv CreateMove_inv DeleteMove_inv

lemma deploy_step_inv: "deploy_step st st' \<Longrightarrow> placement_inv st \<Longrightarrow> placement_inv st'"
  by (auto elim!: deploy_stepE placement_stepE intro: deploy_op_inv)

lemma deploy_reach_inv: "deploy_step\<^sup>*\<^sup>* st st' \<Longrightarrow> placement_inv st \<Longrightarrow> placement_inv st'"
  by (induction rule: rtranclp_induct) (auto intro: deploy_step_inv)

section \<open>Properties\<close>

text \<open>
  C11. In every state the deployment store reaches from the empty one, by any operations in any
  order, each tenant is assigned to a unit that exists and is active, and so are the source and
  the target of every prepared move: no unit that is in use is ever disabled or deleted.
\<close>

theorem placements_active:
  assumes "deploy_step\<^sup>*\<^sup>* NewDeployMemory st"
  shows "(\<forall>tid a. map_of (dm_assignments st) tid = Some a
            \<longrightarrow> as_TenantID a = tid \<and> as_Version a \<noteq> 0 \<and> unitActive st (as_UnitID a))
    \<and> (\<forall>tid m. map_of (dm_moves st) tid = Some m
            \<longrightarrow> mv_TenantID m = tid \<and> mv_SourceUnitID m \<noteq> mv_TargetUnitID m
              \<and> map_of (dm_assignments st) tid \<noteq> None
              \<and> unitActive st (mv_SourceUnitID m) \<and> unitActive st (mv_TargetUnitID m))"
proof -
  have inv: "placement_inv st" using deploy_reach_inv [OF assms placement_inv_new] .
  have a: "as_TenantID a = tid" "as_Version a \<noteq> 0" "unitActive st (as_UnitID a)"
    if "map_of (dm_assignments st) tid = Some a" for tid a
    using inv that keyed_mapD [of as_TenantID "dm_assignments st" tid a]
    by (auto simp: placement_inv_def validateAssignment_def split: if_splits)
  have m: "mv_TenantID m = tid" "mv_SourceUnitID m \<noteq> mv_TargetUnitID m"
    "map_of (dm_assignments st) tid \<noteq> None"
    "unitActive st (mv_SourceUnitID m)" "unitActive st (mv_TargetUnitID m)"
    if "map_of (dm_moves st) tid = Some m" for tid m
    using inv that keyed_mapD [of mv_TenantID "dm_moves st" tid m]
    by (auto simp: placement_inv_def validateMove_def split: if_splits)
  show ?thesis using a m by blast
qed

definition sampleUnit :: "DeploymentUnitID \<Rightarrow> DeploymentUnit" where
  "sampleUnit uid = \<lparr>du_ID = uid, du_Status = DeploymentUnitStatusActive, du_Region = ''eu'',
     du_ResidencyTags = None, du_Metadata = None\<rparr>"

definition sampleAssignment :: "DeploymentUnitID \<Rightarrow> 64 word \<Rightarrow> Assignment" where
  "sampleAssignment uid v = \<lparr>as_TenantID = ''t'', as_UnitID = uid, as_Version = v\<rparr>"

definition sampleMove :: Move where
  "sampleMove = \<lparr>mv_TenantID = ''t'', mv_SourceUnitID = ''u'', mv_TargetUnitID = ''v''\<rparr>"

definition sampleDeploy :: DeployMemory where
  "sampleDeploy = snd (Deploy_CreateMove None sampleMove
     (snd (Deploy_CreateAssignment None (sampleAssignment ''u'' 1)
       (snd (Deploy_CreateUnit None (sampleUnit ''v'')
         (snd (Deploy_CreateUnit None (sampleUnit ''u'') NewDeployMemory)))))))"

lemma sampleDeploy_placed: "placement_step\<^sup>*\<^sup>* NewDeployMemory sampleDeploy"
  unfolding sampleDeploy_def
  by (rule rtranclp.rtrancl_into_rtrancl [rotated], rule create_move,
      rule rtranclp.rtrancl_into_rtrancl [rotated], rule create_assignment,
      rule rtranclp.rtrancl_into_rtrancl [rotated], rule create_unit,
      rule rtranclp.rtrancl_into_rtrancl [rotated], rule create_unit, rule rtranclp.rtrancl_refl)

lemma placed_reach: "placement_step\<^sup>*\<^sup>* st st' \<Longrightarrow> deploy_step\<^sup>*\<^sup>* st st'"
  by (rule rtranclp_mono [THEN predicate2D, rotated]) (auto intro: placement)

lemma sampleDeploy_reach: "deploy_step\<^sup>*\<^sup>* NewDeployMemory sampleDeploy"
  by (rule placed_reach [OF sampleDeploy_placed])

lemma sampleDeploy_contents:
  "map_of (dm_assignments sampleDeploy) ''t'' = Some (sampleAssignment ''u'' 1)"
  "map_of (dm_moves sampleDeploy) ''t'' = Some sampleMove"
  by code_simp+

theorem placements_active_witness: "unitActive sampleDeploy ''u'' \<and> unitActive sampleDeploy ''v''"
  using placements_active [OF sampleDeploy_reach, THEN conjunct2, rule_format, OF sampleDeploy_contents(2)]
  by (simp add: sampleMove_def)

section \<open>Cutover\<close>

lemma CutoverMove_ok:
  assumes "Deploy_CutoverMove cx a m a' st = (Inr u, st')"
  shows "as_TenantID a = as_TenantID a' \<and> mv_TenantID m = as_TenantID a
    \<and> as_UnitID a = mv_SourceUnitID m \<and> as_UnitID a' = mv_TargetUnitID m
    \<and> as_Version a' = as_Version a + 1 \<and> as_Version a' \<noteq> 0
    \<and> map_of (dm_moves st) (mv_TenantID m) = Some m
    \<and> map_of (dm_assignments st) (as_TenantID a) = Some a \<and> unitActive st (as_UnitID a')
    \<and> st' = (putAssignment a' st)\<lparr>dm_moves := AList.delete (mv_TenantID m) (dm_moves st)\<rparr>"
  using assms
  by (auto simp: deploy_ops ok_simps activeUnit_ok validateAssignment_def split: if_splits option.splits)

lemma version_next: "(v :: 64 word) + 1 \<noteq> 0 \<Longrightarrow> uint (v + 1) = uint v + 1"
proof -
  assume "v + 1 \<noteq> 0"
  then have "uint (v + 1) \<noteq> 0" by (simp add: uint_0_iff)
  moreover have "uint (v + 1) = (uint v + 1) mod 2 ^ 64" by (simp add: uint_word_ariths)
  moreover have "0 \<le> uint v" "uint v < 2 ^ 64" using uint_lt2p [of v] by simp_all
  ultimately show ?thesis by (cases "uint v + 1 = 2 ^ 64") auto
qed

lemma cutover_exact_facts:
  assumes "Deploy_CutoverMove cx a m a' st = (Inr u, st')"
  shows "uint (as_Version a') = uint (as_Version a) + 1
    \<and> map_of (dm_assignments st') = (map_of (dm_assignments st))(mv_TenantID m \<mapsto> a')"
  using CutoverMove_ok [OF assms] version_next [of "as_Version a"] by (auto simp: putAssignment_def)

text \<open>
  A cutover that the store accepts moves the tenant from exactly the expected assignment
  along exactly the prepared move: the tenant is then on the move's target, which is active,
  the version has grown by one as a number (it never wraps round), the move is gone, and no
  unit, no other assignment and no other move has changed.
\<close>

theorem cutover_exact:
  assumes "Deploy_CutoverMove cx a m a' st = (Inr u, st')"
  shows "map_of (dm_assignments st) (mv_TenantID m) = Some a
    \<and> map_of (dm_moves st) (mv_TenantID m) = Some m
    \<and> as_UnitID a = mv_SourceUnitID m \<and> as_UnitID a' = mv_TargetUnitID m
    \<and> unitActive st (mv_TargetUnitID m)
    \<and> uint (as_Version a') = uint (as_Version a) + 1
    \<and> map_of (dm_assignments st') = (map_of (dm_assignments st))(mv_TenantID m \<mapsto> a')
    \<and> map_of (dm_moves st') = (map_of (dm_moves st))(mv_TenantID m := None)
    \<and> dm_units st' = dm_units st"
  using CutoverMove_ok [OF assms] version_next [of "as_Version a"] by (auto simp: putAssignment_def)

theorem cutover_exact_witness:
  "\<exists>st'. Deploy_CutoverMove None (sampleAssignment ''u'' 1) sampleMove (sampleAssignment ''v'' 2) sampleDeploy
       = (Inr (), st')
     \<and> map_of (dm_assignments st') ''t'' = Some (sampleAssignment ''v'' 2)
     \<and> map_of (dm_moves st') ''t'' = None"
proof -
  let ?r = "Deploy_CutoverMove None (sampleAssignment ''u'' 1) sampleMove (sampleAssignment ''v'' 2) sampleDeploy"
  have "fst ?r = Inr ()" by code_simp
  then obtain st' where r: "?r = (Inr (), st')" by (metis prod.collapse)
  from cutover_exact [OF r] show ?thesis using r by (simp add: sampleMove_def)
qed

section \<open>Versions\<close>

definition assignedVersion :: "DeployMemory \<Rightarrow> TenantID \<Rightarrow> int option" where
  "assignedVersion st tid = map_option (\<lambda>a. uint (as_Version a)) (map_of (dm_assignments st) tid)"

lemma placement_step_version:
  assumes "placement_step st st'" "map_of (dm_assignments st) tid = Some a"
  shows "\<exists>a'. map_of (dm_assignments st') tid = Some a' \<and> uint (as_Version a) \<le> uint (as_Version a')"
  using assms(1)
proof cases
  case (cutover_move cx b m b')
  show ?thesis
  proof (cases "Deploy_CutoverMove cx b m b' st")
    case (Pair r s)
    show ?thesis
    proof (cases r)
      case (Inr u)
      with CutoverMove_ok [of cx b m b' st u s] cutover_exact_facts [of cx b m b' st u s]
        Pair cutover_move assms(2) show ?thesis by auto
    next
      case (Inl e)
      with Pair cutover_move assms(2) have "st' = st"
        by (auto simp: deploy_ops on_ok_result split: if_splits option.splits)
      with assms(2) show ?thesis by simp
    qed
  qed
qed (use assms(2) in \<open>auto simp: deploy_ops on_ok_def putUnit_def putAssignment_def Let_def
       split: sum.splits option.splits\<close>)

end
