(* ===== verification/Deployment_Service.thy ===== *)
theory Deployment_Service
  imports Deployment_Invariants
begin

text \<open>
  The deployment service (\<open>deployment/service.go\<close>), every operation of it. Other service
  instances share the store: \<open>de_other k\<close> is what they did before the store call of number
  \<open>k\<close>, and \<open>de_ctx k\<close> the answer of the context at that moment. The policy and the auditor
  are the host's; \<open>None\<close> is a nil one. The state is the store and the events handed to the
  auditor. An operation that returns a value beside an error answers with both.
\<close>

record DeployEvent =
  dv_Action :: string
  dv_TenantID :: TenantID
  dv_UnitID :: DeploymentUnitID
  dv_SourceUnitID :: DeploymentUnitID
  dv_TargetUnitID :: DeploymentUnitID

type_synonym Policy = "Tenant \<Rightarrow> DeploymentUnit \<Rightarrow> string option"
type_synonym Auditor = "DeployEvent \<Rightarrow> string option"

record DeployService =
  ds_store_nil :: bool
  ds_policy :: "Policy option"
  ds_auditor :: "Auditor option"

record deployEnv =
  de_ctx :: "nat \<Rightarrow> ctx"
  de_other :: "nat \<Rightarrow> DeployMemory \<Rightarrow> DeployMemory"

type_synonym deployed = "DeployMemory \<times> DeployEvent list"
type_synonym 'a result2 = "'a option \<times> deployment_error option"

text \<open>\<open>PolicyFunc\<close> and \<open>AuditorFunc\<close>: a nil function allows.\<close>

definition PolicyFunc_Validate :: "Policy option \<Rightarrow> Policy" where
  "PolicyFunc_Validate policy tenant u =
     (case policy of None \<Rightarrow> None | Some f \<Rightarrow> f tenant u)"

definition AuditorFunc_Record :: "Auditor option \<Rightarrow> Auditor" where
  "AuditorFunc_Record auditor event = (case auditor of None \<Rightarrow> None | Some f \<Rightarrow> f event)"

type_synonym DeployOption = "DeployService \<Rightarrow> DeployService"

definition WithPolicy :: "Policy option \<Rightarrow> DeployOption" where
  "WithPolicy policy service = service\<lparr>ds_policy := policy\<rparr>"

definition WithAuditor :: "Auditor option \<Rightarrow> DeployOption" where
  "WithAuditor auditor service = service\<lparr>ds_auditor := auditor\<rparr>"

definition NewDeployService :: "bool \<Rightarrow> DeployOption option list \<Rightarrow> DeployService" where
  "NewDeployService store_nil opts =
     fold (\<lambda>opt service. case opt of None \<Rightarrow> service | Some f \<Rightarrow> f service) opts
       \<lparr>ds_store_nil = store_nil, ds_policy = None, ds_auditor = None\<rparr>"

section \<open>Steps\<close>

definition deployReady :: "DeployService option \<Rightarrow> deployEnv \<Rightarrow> deployment_error + DeployService" where
  "deployReady sv w =
     (case sv of
        None \<Rightarrow> Inl ErrNilDeployStore
      | Some service \<Rightarrow>
          if ds_store_nil service then Inl ErrNilDeployStore
          else bind_ok (deployCtx (de_ctx w 0)) (\<lambda>_. Inr service))"

definition deployCall ::
  "deployEnv \<Rightarrow> nat \<Rightarrow> (ctx \<Rightarrow> DeployMemory \<Rightarrow> ('e + 'a) \<times> DeployMemory) \<Rightarrow> deployed \<Rightarrow> ('e + 'a) \<times> deployed"
where
  "deployCall w k call st =
     (case call (de_ctx w k) (de_other w k (fst st)) of (r, s') \<Rightarrow> (r, (s', snd st)))"

definition deployRead ::
  "deployEnv \<Rightarrow> nat \<Rightarrow> (ctx \<Rightarrow> DeployMemory \<Rightarrow> 'e + 'a) \<Rightarrow> deployed \<Rightarrow> ('e + 'a) \<times> deployed"
where
  "deployRead w k call = deployCall w k (\<lambda>cx s. (call cx s, s))"

definition deployEmit ::
  "DeployService \<Rightarrow> DeployEvent \<Rightarrow> deployed \<Rightarrow> deployment_error option \<times> deployed"
where
  "deployEmit service event st =
     (case ds_auditor service of None \<Rightarrow> (None, st)
      | Some auditor \<Rightarrow> (map_option ErrDeployHook (auditor event), (fst st, snd st @ [event])))"

definition noEvent :: DeployEvent where
  "noEvent = \<lparr>dv_Action = [], dv_TenantID = [], dv_UnitID = [], dv_SourceUnitID = [],
     dv_TargetUnitID = []\<rparr>"

definition activeUnitFor ::
  "DeployService \<Rightarrow> deployEnv \<Rightarrow> nat \<Rightarrow> Tenant \<Rightarrow> DeploymentUnitID \<Rightarrow> deployed
     \<Rightarrow> (deployment_error + DeploymentUnit) \<times> deployed"
where
  "activeUnitFor service w k tenant uid st =
     on_done (deployRead w k (\<lambda>cx. Deploy_GetUnit cx uid) st) (\<lambda>u st1.
       if du_Status u \<noteq> DeploymentUnitStatusActive then fails ErrDeploymentUnitUnavailable st1
       else case ds_policy service of
         None \<Rightarrow> (Inr u, st1)
       | Some policy \<Rightarrow>
           (case policy tenant u of
              None \<Rightarrow> (Inr u, st1) | Some text \<Rightarrow> fails (ErrPolicyDenied text) st1))"

text \<open>After the store call: its error is the answer, or the event is handed out.\<close>

definition finishCall ::
  "DeployService \<Rightarrow> DeployEvent \<Rightarrow> (deployment_error + 'b) \<times> deployed \<Rightarrow> 'a option
     \<Rightarrow> 'a result2 \<times> deployed"
where
  "finishCall service event p answer =
     (case p of
        (Inl e, st) \<Rightarrow> ((None, Some e), st)
      | (Inr _, st) \<Rightarrow> (case deployEmit service event st of (err, st') \<Rightarrow> ((answer, err), st')))"

definition withService ::
  "deployment_error + DeployService \<Rightarrow> bool \<Rightarrow> deployment_error \<Rightarrow> deployed
     \<Rightarrow> (DeployService \<Rightarrow> 'a result2 \<times> deployed) \<Rightarrow> 'a result2 \<times> deployed"
where
  "withService ready bad err st k =
     (case ready of
        Inl e \<Rightarrow> ((None, Some e), st)
      | Inr service \<Rightarrow> if bad then ((None, Some err), st) else k service)"

section \<open>Units\<close>

definition DeployService_CreateUnit ::
  "DeployService option \<Rightarrow> deployEnv \<Rightarrow> DeploymentUnit \<Rightarrow> deployed \<Rightarrow> unit result2 \<times> deployed"
where
  "DeployService_CreateUnit sv w u st =
     withService (deployReady sv w) (validateUnit u \<noteq> Inr ()) ErrInvalidDeploymentUnit st (\<lambda>service.
       finishCall service (noEvent\<lparr>dv_Action := ''deployment_unit.create'', dv_UnitID := du_ID u\<rparr>)
         (deployCall w 1 (\<lambda>cx. Deploy_CreateUnit cx u) st) None)"

definition DeployService_UpdateUnit ::
  "DeployService option \<Rightarrow> deployEnv \<Rightarrow> DeploymentUnit \<Rightarrow> deployed \<Rightarrow> unit result2 \<times> deployed"
where
  "DeployService_UpdateUnit sv w u st =
     withService (deployReady sv w) (validateUnit u \<noteq> Inr ()) ErrInvalidDeploymentUnit st (\<lambda>service.
       finishCall service (noEvent\<lparr>dv_Action := ''deployment_unit.update'', dv_UnitID := du_ID u\<rparr>)
         (deployCall w 1 (\<lambda>cx. Deploy_UpdateUnit cx u) st) None)"

definition DeployService_DisableUnit ::
  "DeployService option \<Rightarrow> deployEnv \<Rightarrow> DeploymentUnitID \<Rightarrow> deployed
     \<Rightarrow> DeploymentUnit result2 \<times> deployed"
where
  "DeployService_DisableUnit sv w uid st =
     withService (deployReady sv w) (uid = []) ErrInvalidDeploymentUnit st (\<lambda>service.
       case deployCall w 1 (\<lambda>cx. Deploy_DisableUnit cx uid) st of
         (Inl e, st1) \<Rightarrow> ((None, Some e), st1)
       | (Inr (u, changed), st1) \<Rightarrow>
           if changed then
             (case deployEmit service
                     (noEvent\<lparr>dv_Action := ''deployment_unit.disable'', dv_UnitID := uid\<rparr>) st1 of
                (err, st2) \<Rightarrow> ((Some u, err), st2))
           else ((Some u, None), st1))"

definition DeployService_DeleteUnit ::
  "DeployService option \<Rightarrow> deployEnv \<Rightarrow> DeploymentUnitID \<Rightarrow> deployed \<Rightarrow> unit result2 \<times> deployed"
where
  "DeployService_DeleteUnit sv w uid st =
     withService (deployReady sv w) (uid = []) ErrInvalidDeploymentUnit st (\<lambda>service.
       finishCall service (noEvent\<lparr>dv_Action := ''deployment_unit.delete'', dv_UnitID := uid\<rparr>)
         (on_done (deployRead w 1 (\<lambda>cx. Deploy_GetUnit cx uid) st) (\<lambda>_ st1.
            deployCall w 2 (\<lambda>cx. Deploy_DeleteUnit cx uid) st1)) None)"

section \<open>Placement\<close>

definition DeployService_Assign ::
  "DeployService option \<Rightarrow> deployEnv \<Rightarrow> Tenant \<Rightarrow> DeploymentUnitID \<Rightarrow> deployed
     \<Rightarrow> Assignment result2 \<times> deployed"
where
  "DeployService_Assign sv w tenant uid st =
     withService (deployReady sv w) (tn_ID tenant = [] \<or> uid = []) ErrInvalidAssignment st (\<lambda>service.
       case activeUnitFor service w 1 tenant uid st of
         (Inl e, st1) \<Rightarrow> ((None, Some e), st1)
       | (Inr u, st1) \<Rightarrow>
           let assignment = \<lparr>as_TenantID = tn_ID tenant, as_UnitID = du_ID u, as_Version = 1\<rparr> in
           finishCall service (noEvent\<lparr>dv_Action := ''assignment.create'',
               dv_TenantID := tn_ID tenant, dv_UnitID := du_ID u\<rparr>)
             (deployCall w 2 (\<lambda>cx. Deploy_CreateAssignment cx assignment) st1) (Some assignment))"

definition DeployService_Resolve ::
  "DeployService option \<Rightarrow> deployEnv \<Rightarrow> Tenant \<Rightarrow> deployed
     \<Rightarrow> (deployment_error + DeploymentUnit) \<times> deployed"
where
  "DeployService_Resolve sv w tenant st =
     on_ok (deployReady sv w) st (\<lambda>_.
       if tn_ID tenant = [] then fails ErrInvalidAssignment st
       else on_done (deployRead w 1 (\<lambda>cx. Deploy_GetAssignment cx (tn_ID tenant)) st) (\<lambda>a st1.
         on_done (deployRead w 2 (\<lambda>cx. Deploy_GetUnit cx (as_UnitID a)) st1) (\<lambda>u st2.
           if du_Status u \<noteq> DeploymentUnitStatusActive then fails ErrDeploymentUnitUnavailable st2
           else (Inr u, st2))))"

definition DeployService_PrepareMove ::
  "DeployService option \<Rightarrow> deployEnv \<Rightarrow> Tenant \<Rightarrow> DeploymentUnitID \<Rightarrow> deployed
     \<Rightarrow> Move result2 \<times> deployed"
where
  "DeployService_PrepareMove sv w tenant target st =
     withService (deployReady sv w) (tn_ID tenant = [] \<or> target = []) ErrInvalidMove st (\<lambda>service.
       case on_done (deployRead w 1 (\<lambda>cx. Deploy_GetAssignment cx (tn_ID tenant)) st) (\<lambda>a st1.
              if as_UnitID a = target then fails ErrInvalidMove st1
              else on_done (activeUnitFor service w 2 tenant target st1) (\<lambda>u st2.
                (Inr \<lparr>mv_TenantID = tn_ID tenant, mv_SourceUnitID = as_UnitID a,
                      mv_TargetUnitID = du_ID u\<rparr>, st2))) of
         (Inl e, st3) \<Rightarrow> ((None, Some e), st3)
       | (Inr move, st3) \<Rightarrow>
           finishCall service (noEvent\<lparr>dv_Action := ''move.prepare'', dv_TenantID := tn_ID tenant,
               dv_SourceUnitID := mv_SourceUnitID move, dv_TargetUnitID := mv_TargetUnitID move\<rparr>)
             (deployCall w 3 (\<lambda>cx. Deploy_CreateMove cx move) st3) (Some move))"

definition MaxUint64 :: "64 word" where
  "MaxUint64 = - 1"

definition cutover ::
  "DeployService \<Rightarrow> deployEnv \<Rightarrow> Tenant \<Rightarrow> deployed
     \<Rightarrow> (deployment_error + Assignment \<times> Move) \<times> deployed"
where
  "cutover service w tenant st =
     on_done (deployRead w 1 (\<lambda>cx. Deploy_GetMove cx (tn_ID tenant)) st) (\<lambda>move st1.
     on_done (deployRead w 2 (\<lambda>cx. Deploy_GetAssignment cx (tn_ID tenant)) st1) (\<lambda>a st2.
       if as_UnitID a \<noteq> mv_SourceUnitID move then fails ErrMoveConflict st2
       else if as_Version a = MaxUint64 then fails ErrAssignmentConflict st2
       else on_done (activeUnitFor service w 3 tenant (mv_TargetUnitID move) st2) (\<lambda>_ st3.
         let next_a = a\<lparr>as_UnitID := mv_TargetUnitID move, as_Version := as_Version a + 1\<rparr> in
         on_done (deployCall w 4 (\<lambda>cx. Deploy_CutoverMove cx a move next_a) st3) (\<lambda>_ st4.
           (Inr (next_a, move), st4)))))"

definition DeployService_CutoverMove ::
  "DeployService option \<Rightarrow> deployEnv \<Rightarrow> Tenant \<Rightarrow> deployed \<Rightarrow> Assignment result2 \<times> deployed"
where
  "DeployService_CutoverMove sv w tenant st =
     withService (deployReady sv w) (tn_ID tenant = []) ErrInvalidMove st (\<lambda>service.
       case cutover service w tenant st of
         (Inl e, st1) \<Rightarrow> ((None, Some e), st1)
       | (Inr (a, move), st1) \<Rightarrow>
           (case deployEmit service (noEvent\<lparr>dv_Action := ''move.cutover'',
                   dv_TenantID := tn_ID tenant, dv_UnitID := as_UnitID a,
                   dv_SourceUnitID := mv_SourceUnitID move,
                   dv_TargetUnitID := mv_TargetUnitID move\<rparr>) st1 of
              (err, st2) \<Rightarrow> ((Some a, err), st2)))"

definition DeployService_CancelMove ::
  "DeployService option \<Rightarrow> deployEnv \<Rightarrow> TenantID \<Rightarrow> deployed \<Rightarrow> unit result2 \<times> deployed"
where
  "DeployService_CancelMove sv w tid st =
     withService (deployReady sv w) (tid = []) ErrInvalidMove st (\<lambda>service.
       case on_done (deployRead w 1 (\<lambda>cx. Deploy_GetMove cx tid) st) (\<lambda>move st1.
              on_done (deployCall w 2 (\<lambda>cx. Deploy_DeleteMoveIfMatch cx move) st1) (\<lambda>_ st2.
                (Inr move, st2))) of
         (Inl e, st3) \<Rightarrow> ((None, Some e), st3)
       | (Inr move, st3) \<Rightarrow>
           (case deployEmit service (noEvent\<lparr>dv_Action := ''move.cancel'', dv_TenantID := tid,
                   dv_SourceUnitID := mv_SourceUnitID move,
                   dv_TargetUnitID := mv_TargetUnitID move\<rparr>) st3 of
              (err, st4) \<Rightarrow> ((None, err), st4)))"

end
