(* ===== verification/Deployment_Guarantees.thy ===== *)
theory Deployment_Guarantees
  imports Deployment_Service
begin

text \<open>
  What the deployment service guarantees: its commands are runs of store operations, a
  resolved tenant gets its active unit, moves do what they say, and of two cutovers that
  expect one version only one happens.
\<close>

section \<open>Commands are runs of store operations\<close>

abbreviation placed :: "DeployMemory \<Rightarrow> DeployMemory \<Rightarrow> bool" where
  "placed \<equiv> placement_step\<^sup>*\<^sup>*"

definition deployRely :: "deployEnv \<Rightarrow> bool" where
  "deployRely w \<longleftrightarrow> (\<forall>k s. placed s (de_other w k s))"

definition deployRuns :: "deployed \<Rightarrow> 'r \<times> deployed \<Rightarrow> bool" where
  "deployRuns st p \<longleftrightarrow> placed (fst st) (fst (snd p))"

named_theorems deploy_runs "runs of store operations"

lemma deployRuns_refl [deploy_runs]: "deployRuns st (r, st)"
  by (simp add: deployRuns_def)

lemma deployRuns_trans: "deployRuns st (r, st1) \<Longrightarrow> deployRuns st1 p \<Longrightarrow> deployRuns st p"
  unfolding deployRuns_def by (auto intro: rtranclp_trans)

lemma call_runs:
  assumes "deployRely w" "\<And>cx s. placement_step s (snd (call cx s))"
  shows "deployRuns st (deployCall w k call st)"
proof -
  have "placed (fst st) (de_other w k (fst st))" using assms(1) by (simp add: deployRely_def)
  then show ?thesis using assms(2)
    by (auto simp: deployRuns_def deployCall_def split: prod.splits
        intro: rtranclp.rtrancl_into_rtrancl) (metis rtranclp.rtrancl_into_rtrancl snd_conv)
qed

lemma read_runs [deploy_runs]: "deployRely w \<Longrightarrow> deployRuns st (deployRead w k call st)"
  by (simp add: deployRely_def deployRuns_def deployRead_def deployCall_def)

lemma store_runs [deploy_runs]:
  assumes "deployRely w"
  shows "deployRuns st (deployCall w k (\<lambda>cx. Deploy_CreateUnit cx u) st)"
    "deployRuns st (deployCall w k (\<lambda>cx. Deploy_UpdateUnit cx u) st)"
    "deployRuns st (deployCall w k (\<lambda>cx. Deploy_DisableUnit cx uid) st)"
    "deployRuns st (deployCall w k (\<lambda>cx. Deploy_DeleteUnit cx uid) st)"
    "deployRuns st (deployCall w k (\<lambda>cx. Deploy_CreateAssignment cx a) st)"
    "deployRuns st (deployCall w k (\<lambda>cx. Deploy_CreateMove cx m) st)"
    "deployRuns st (deployCall w k (\<lambda>cx. Deploy_CutoverMove cx a m a') st)"
    "deployRuns st (deployCall w k (\<lambda>cx. Deploy_DeleteMoveIfMatch cx m) st)"
  using assms by (auto intro: call_runs placement_step.intros)

lemma on_done_runs [deploy_runs]:
  "deployRuns st p \<Longrightarrow> (\<And>x st1. p = (Inr x, st1) \<Longrightarrow> deployRuns st1 (f x st1)) \<Longrightarrow> deployRuns st (on_done p f)"
  by (cases p; cases "fst p") (auto intro: deployRuns_trans simp: deployRuns_def)

lemma case_runs:
  "deployRuns st p \<Longrightarrow> (\<And>e st1. p = (Inl e, st1) \<Longrightarrow> fst (snd (f e st1)) = fst st1)
     \<Longrightarrow> (\<And>x st1. p = (Inr x, st1) \<Longrightarrow> deployRuns st1 (g x st1))
     \<Longrightarrow> deployRuns st (case p of (Inl e, st1) \<Rightarrow> f e st1 | (Inr x, st1) \<Rightarrow> g x st1)"
  by (cases p; cases "fst p") (auto intro: deployRuns_trans simp: deployRuns_def)

lemma emit_runs [deploy_runs]:
  "deployRuns st (case deployEmit service event st of (err, st') \<Rightarrow> ((answer, err), st'))"
  by (auto simp: deployRuns_def deployEmit_def split: option.splits)

lemma finish_runs [deploy_runs]: "deployRuns st p \<Longrightarrow> deployRuns st (finishCall service event p answer)"
  unfolding finishCall_def by (rule case_runs) (simp_all add: deploy_runs)

lemma with_runs [deploy_runs]:
  "(\<And>service. deployRuns st (k service)) \<Longrightarrow> deployRuns st (withService ready bad err st k)"
  by (auto simp: withService_def deployRuns_def split: sum.splits)

lemma active_runs [deploy_runs]: "deployRely w \<Longrightarrow> deployRuns st (activeUnitFor service w k tenant uid st)"
  unfolding activeUnitFor_def
  by (intro deploy_runs) (auto simp: deploy_runs split: option.split)

lemma service_runs_each:
  assumes rely: "deployRely w"
  shows "deployRuns st (DeployService_CreateUnit sv w u st)"
    and "deployRuns st (DeployService_UpdateUnit sv w u st)"
    and "deployRuns st (DeployService_DisableUnit sv w uid st)"
    and "deployRuns st (DeployService_DeleteUnit sv w uid st)"
    and "deployRuns st (DeployService_Assign sv w tenant uid st)"
    and "deployRuns st (DeployService_Resolve sv w tenant st)"
    and "deployRuns st (DeployService_PrepareMove sv w tenant uid st)"
    and "deployRuns st (DeployService_CutoverMove sv w tenant st)"
    and "deployRuns st (DeployService_CancelMove sv w tid st)"
proof -
  show "deployRuns st (DeployService_CreateUnit sv w u st)"
    "deployRuns st (DeployService_UpdateUnit sv w u st)"
    "deployRuns st (DeployService_DeleteUnit sv w uid st)"
    unfolding DeployService_CreateUnit_def DeployService_UpdateUnit_def DeployService_DeleteUnit_def
    by (intro deploy_runs rely)+
  show "deployRuns st (DeployService_DisableUnit sv w uid st)"
    unfolding DeployService_DisableUnit_def
    by (intro with_runs case_runs deploy_runs rely) (auto simp: deploy_runs)
  show "deployRuns st (DeployService_Assign sv w tenant uid st)"
    unfolding DeployService_Assign_def Let_def
    by (intro with_runs case_runs deploy_runs rely) simp_all
  show "deployRuns st (DeployService_Resolve sv w tenant st)"
    unfolding DeployService_Resolve_def on_ok_def
    by (auto simp: deploy_runs split: sum.split intro!: deploy_runs rely)
  show "deployRuns st (DeployService_PrepareMove sv w tenant uid st)"
    unfolding DeployService_PrepareMove_def
    by (intro with_runs case_runs on_done_runs deploy_runs rely)
       (auto simp: deploy_runs rely intro!: on_done_runs active_runs)
  have "deployRuns st (cutover service w tenant st)" for service
    unfolding cutover_def Let_def
    by (intro on_done_runs deploy_runs rely) (auto simp: deploy_runs rely intro!: on_done_runs deploy_runs)
  then show "deployRuns st (DeployService_CutoverMove sv w tenant st)"
    unfolding DeployService_CutoverMove_def
    by (intro with_runs case_runs) (auto simp: deploy_runs)
  show "deployRuns st (DeployService_CancelMove sv w tid st)"
    unfolding DeployService_CancelMove_def
    by (intro with_runs case_runs on_done_runs deploy_runs rely) (auto simp: deploy_runs)
qed

text \<open>
  Every command of the deployment service is a run of operations of the store, whatever
  other instances do to the store between its calls; so behind the service, too, every tenant
  stays assigned to a unit that exists and is active.
\<close>

theorem deploy_service_runs:
  assumes "deployRely w"
  shows "deployRuns st (DeployService_CreateUnit sv w u st)
    \<and> deployRuns st (DeployService_UpdateUnit sv w u st)
    \<and> deployRuns st (DeployService_DisableUnit sv w uid st)
    \<and> deployRuns st (DeployService_DeleteUnit sv w uid st)
    \<and> deployRuns st (DeployService_Assign sv w tenant uid st)
    \<and> deployRuns st (DeployService_Resolve sv w tenant st)
    \<and> deployRuns st (DeployService_PrepareMove sv w tenant uid st)
    \<and> deployRuns st (DeployService_CutoverMove sv w tenant st)
    \<and> deployRuns st (DeployService_CancelMove sv w tid st)
    \<and> (\<forall>s. placed (fst st) s \<longrightarrow> placement_inv (fst st) \<longrightarrow> placement_inv s)"
  using service_runs_each [OF assms] deploy_reach_inv [OF placed_reach] by auto

definition quietDeploy :: deployEnv where
  "quietDeploy = \<lparr>de_ctx = (\<lambda>_. None), de_other = (\<lambda>_. id)\<rparr>"

lemma quietDeploy_rely: "deployRely quietDeploy"
  by (simp add: deployRely_def quietDeploy_def)

definition sampleTenant0 :: "TenantID \<Rightarrow> Tenant" where
  "sampleTenant0 tid = \<lparr>tn_ID = tid, tn_Name = [], tn_Status = TenantStatusActive, tn_PlanID = [],
     tn_Config = None\<rparr>"

definition sampleService :: DeployService where
  "sampleService = NewDeployService False []"

theorem deploy_service_runs_witness:
  "deployRuns (sampleDeploy, []) (DeployService_CutoverMove (Some sampleService) quietDeploy
     (sampleTenant0 ''t'') (sampleDeploy, []))"
  by (rule deploy_service_runs [OF quietDeploy_rely, THEN conjunct2, THEN conjunct2, THEN conjunct2,
        THEN conjunct2, THEN conjunct2, THEN conjunct2, THEN conjunct2, THEN conjunct1])

section \<open>Resolution and moves, undisturbed\<close>

definition undisturbed :: "deployEnv \<Rightarrow> bool" where
  "undisturbed w \<longleftrightarrow> (\<forall>k. de_ctx w k = None \<and> de_other w k = id)"

lemma quietDeploy_undisturbed: "undisturbed quietDeploy"
  by (simp add: undisturbed_def quietDeploy_def)

lemma call_undisturbed:
  "undisturbed w \<Longrightarrow> deployCall w k call (s, log) = (case call None s of (r, s') \<Rightarrow> (r, (s', log)))"
  "undisturbed w \<Longrightarrow> deployRead w k read (s, log) = (read None s, (s, log))"
  by (simp_all add: undisturbed_def deployCall_def deployRead_def)

text \<open>
  In every state the store can reach, the service resolves a tenant by its assignment:
  undisturbed, it answers the unit the tenant is assigned to, which is active, and a tenant
  without an assignment is told so; it never finds the assigned unit missing or unavailable.
\<close>

theorem resolve_placed:
  assumes "deploy_step\<^sup>*\<^sup>* NewDeployMemory s" "undisturbed w" "\<not> ds_store_nil service"
    and "tn_ID tenant \<noteq> []"
  shows "DeployService_Resolve (Some service) w tenant (s, log) =
    ((case map_of (dm_assignments s) (tn_ID tenant) of
        None \<Rightarrow> Inl ErrAssignmentNotFound
      | Some a \<Rightarrow> Inr (the (map_of (dm_units s) (as_UnitID a)))), (s, log))
    \<and> (\<forall>a. map_of (dm_assignments s) (tn_ID tenant) = Some a
         \<longrightarrow> du_ID (the (map_of (dm_units s) (as_UnitID a))) = as_UnitID a
           \<and> du_Status (the (map_of (dm_units s) (as_UnitID a))) = DeploymentUnitStatusActive)"
proof -
  have inv: "placement_inv s" using deploy_reach_inv [OF assms(1) placement_inv_new] .
  show ?thesis
  proof (cases "map_of (dm_assignments s) (tn_ID tenant)")
    case None
    with assms show ?thesis
      by (simp add: DeployService_Resolve_def deployReady_def call_undisturbed undisturbed_def
          Deploy_GetAssignment_def)
  next
    case (Some a)
    from assigned_active [OF inv Some] obtain u where
      u: "map_of (dm_units s) (as_UnitID a) = Some u" "du_Status u = DeploymentUnitStatusActive"
      by (auto simp: unitActive_def)
    have "as_UnitID a \<noteq> []"
      using inv Some by (auto simp: placement_inv_def validateAssignment_def split: if_splits)
    with Some u assms unit_id [OF inv u(1)] show ?thesis
      by (simp add: DeployService_Resolve_def deployReady_def call_undisturbed undisturbed_def
          Deploy_GetAssignment_def Deploy_GetUnit_def)
  qed
qed

theorem resolve_placed_witness:
  "DeployService_Resolve (Some sampleService) quietDeploy (sampleTenant0 ''t'') (sampleDeploy, [])
     = (Inr (sampleUnit ''u''), (sampleDeploy, []))"
proof -
  have "map_of (dm_units sampleDeploy) (as_UnitID (sampleAssignment ''u'' 1)) = Some (sampleUnit ''u'')"
    by code_simp
  with resolve_placed [OF sampleDeploy_reach quietDeploy_undisturbed, of sampleService "sampleTenant0 ''t''" "[]"]
  show ?thesis
    by (simp add: sampleService_def NewDeployService_def sampleTenant0_def sampleDeploy_contents)
qed

lemma prepare_exact:
  assumes "undisturbed w" "\<not> ds_store_nil service" "ds_policy service = None" "ds_auditor service = None"
    and "map_of (dm_assignments s) (tn_ID tenant) = Some a" "map_of (dm_moves s) (tn_ID tenant) = None"
    and "tn_ID tenant \<noteq> []" "target \<noteq> []" "as_UnitID a \<noteq> target" "as_UnitID a \<noteq> []"
    and "map_of (dm_units s) target = Some u" "du_ID u = target" "du_Status u = DeploymentUnitStatusActive"
  shows "DeployService_PrepareMove (Some service) w tenant target (s, log) =
    (let m = \<lparr>mv_TenantID = tn_ID tenant, mv_SourceUnitID = as_UnitID a, mv_TargetUnitID = target\<rparr>
     in ((Some m, None), (s\<lparr>dm_moves := AList.update (tn_ID tenant) m (dm_moves s)\<rparr>, log)))"
proof -
  have w: "de_ctx w 0 = None" using assms(1) by (simp add: undisturbed_def)
  show ?thesis
    using assms(2-)
    by (simp add: DeployService_PrepareMove_def withService_def deployReady_def w
        call_undisturbed [OF assms(1)] activeUnitFor_def Deploy_GetAssignment_def Deploy_GetUnit_def
        finishCall_def deployEmit_def Deploy_CreateMove_def validateMove_def activeUnit_def Let_def)
qed

lemma cancel_exact:
  assumes "undisturbed w" "\<not> ds_store_nil service" "ds_auditor service = None"
    and "map_of (dm_moves s) tid = Some m" "mv_TenantID m = tid" "validateMove m = Inr ()" "tid \<noteq> []"
  shows "DeployService_CancelMove (Some service) w tid (s, log) =
    ((None, None), (s\<lparr>dm_moves := AList.delete tid (dm_moves s)\<rparr>, log))"
proof -
  have w: "de_ctx w 0 = None" using assms(1) by (simp add: undisturbed_def)
  show ?thesis
    using assms(2-)
    by (simp add: DeployService_CancelMove_def withService_def deployReady_def w
        call_undisturbed [OF assms(1)] Deploy_GetMove_def deployEmit_def Deploy_DeleteMoveIfMatch_def)
qed

lemma cutover_service_exact:
  assumes "undisturbed w" "\<not> ds_store_nil service" "ds_policy service = None" "ds_auditor service = None"
    and "map_of (dm_assignments s) (tn_ID tenant) = Some a" "map_of (dm_moves s) (tn_ID tenant) = Some m"
    and "mv_TenantID m = tn_ID tenant" "as_TenantID a = tn_ID tenant" "as_UnitID a = mv_SourceUnitID m"
    and "validateMove m = Inr ()" "validateAssignment a = Inr ()" "as_Version a \<noteq> MaxUint64"
    and "map_of (dm_units s) (mv_TargetUnitID m) = Some u" "du_Status u = DeploymentUnitStatusActive"
  shows "DeployService_CutoverMove (Some service) w tenant (s, log) =
    (let a' = a\<lparr>as_UnitID := mv_TargetUnitID m, as_Version := as_Version a + 1\<rparr>
     in ((Some a', None),
         ((putAssignment a' s)\<lparr>dm_moves := AList.delete (tn_ID tenant) (dm_moves s)\<rparr>, log)))"
proof -
  have w: "de_ctx w 0 = None" using assms(1) by (simp add: undisturbed_def)
  have "as_Version a + 1 \<noteq> 0"
    using assms(12) unfolding MaxUint64_def by (metis eq_neg_iff_add_eq_0)
  moreover have "tn_ID tenant \<noteq> []" "mv_TargetUnitID m \<noteq> []"
    using assms(7,10) by (auto simp: validateMove_def split: if_splits)
  ultimately show ?thesis
    using assms(2-)
    by (simp add: DeployService_CutoverMove_def withService_def deployReady_def w Let_def cutover_def
        call_undisturbed [OF assms(1)] activeUnitFor_def Deploy_GetMove_def Deploy_GetAssignment_def
        Deploy_GetUnit_def deployEmit_def Deploy_CutoverMove_def validateAssignment_def activeUnit_def)
qed

text \<open>
  C33. The move protocol, undisturbed and with neither policy nor auditor, from any state the
  store can reach: preparing a move to an active unit records it and leaves the assignment, and
  so resolution, as it was; cancelling it then restores the moves that were there before; and
  cutting over instead puts the tenant on the target under the next version and clears the move,
  so that the tenant resolves to the target from then on.
\<close>

theorem move_protocol:
  assumes "deploy_step\<^sup>*\<^sup>* NewDeployMemory s" "undisturbed w" "\<not> ds_store_nil service"
    and "ds_policy service = None" "ds_auditor service = None"
    and "map_of (dm_assignments s) (tn_ID tenant) = Some a" "map_of (dm_moves s) (tn_ID tenant) = None"
    and "tn_ID tenant \<noteq> []" "as_UnitID a \<noteq> target" "unitActive s target" "as_Version a \<noteq> MaxUint64"
  shows "\<exists>m s1 s2 s3 a'.
    DeployService_PrepareMove (Some service) w tenant target (s, log) = ((Some m, None), (s1, log))
    \<and> dm_assignments s1 = dm_assignments s \<and> dm_units s1 = dm_units s
    \<and> DeployService_CancelMove (Some service) w (tn_ID tenant) (s1, log) = ((None, None), (s2, log))
    \<and> dm_assignments s2 = dm_assignments s \<and> dm_units s2 = dm_units s
    \<and> map_of (dm_moves s2) = map_of (dm_moves s)
    \<and> DeployService_CutoverMove (Some service) w tenant (s1, log) = ((Some a', None), (s3, log))
    \<and> as_UnitID a' = target \<and> uint (as_Version a') = uint (as_Version a) + 1
    \<and> map_of (dm_moves s3) = map_of (dm_moves s)
    \<and> DeployService_Resolve (Some service) w tenant (s3, log)
        = (Inr (the (map_of (dm_units s) target)), (s3, log))"
proof -
  have inv: "placement_inv s" using deploy_reach_inv [OF assms(1) placement_inv_new] .
  from assms(10) obtain u where u: "map_of (dm_units s) target = Some u"
    "du_Status u = DeploymentUnitStatusActive" by (auto simp: unitActive_def)
  have uid: "du_ID u = target" by (rule unit_id [OF inv u(1)])
  have "validateUnit u = Inr ()" using inv u(1) by (auto simp: placement_inv_def)
  then have t: "target \<noteq> []" using uid by (auto simp: validateUnit_def split: if_splits)
  have va: "validateAssignment a = Inr ()" and ta: "as_TenantID a = tn_ID tenant"
    using inv assms(6) keyed_mapD [of as_TenantID] by (auto simp: placement_inv_def)
  then have ua: "as_UnitID a \<noteq> []" by (auto simp: validateAssignment_def split: if_splits)
  let ?m = "\<lparr>mv_TenantID = tn_ID tenant, mv_SourceUnitID = as_UnitID a, mv_TargetUnitID = target\<rparr>"
  let ?s1 = "s\<lparr>dm_moves := AList.update (tn_ID tenant) ?m (dm_moves s)\<rparr>"
  let ?a = "a\<lparr>as_UnitID := target, as_Version := as_Version a + 1\<rparr>"
  let ?s2 = "?s1\<lparr>dm_moves := AList.delete (tn_ID tenant) (dm_moves ?s1)\<rparr>"
  let ?s3 = "(putAssignment ?a ?s1)\<lparr>dm_moves := AList.delete (tn_ID tenant) (dm_moves ?s1)\<rparr>"
  have vm: "validateMove ?m = Inr ()" using assms t ua by (simp add: validateMove_def)
  have m1: "map_of (dm_moves ?s1) (tn_ID tenant) = Some ?m" by simp
  have gone: "map_of (AList.delete (tn_ID tenant) (dm_moves ?s1)) = map_of (dm_moves s)"
    using assms(7) by auto
  have "DeployService_PrepareMove (Some service) w tenant target (s, log) = ((Some ?m, None), (?s1, log))"
    using prepare_exact [OF assms(2-7,8) t assms(9) ua u(1) uid u(2)] by (simp add: Let_def)
  moreover have "DeployService_CancelMove (Some service) w (tn_ID tenant) (?s1, log) = ((None, None), (?s2, log))"
    by (rule cancel_exact [OF assms(2,3,5) m1 _ vm assms(8)]) simp
  moreover have "DeployService_CutoverMove (Some service) w tenant (?s1, log) = ((Some ?a, None), (?s3, log))"
    using cutover_service_exact [OF assms(2-5) _ m1, of a u log] assms va ta vm u by (simp add: Let_def)
  moreover have "DeployService_Resolve (Some service) w tenant (?s3, log)
      = (Inr (the (map_of (dm_units s) target)), (?s3, log))"
  proof -
    have w: "de_ctx w 0 = None" using assms(2) by (simp add: undisturbed_def)
    show ?thesis using assms(3,8) u t ta
      by (simp add: DeployService_Resolve_def deployReady_def w call_undisturbed [OF assms(2)]
          Deploy_GetAssignment_def Deploy_GetUnit_def putAssignment_def)
  qed
  moreover have "uint (as_Version ?a) = uint (as_Version a) + 1"
    using version_next [of "as_Version a"] assms(11) unfolding MaxUint64_def
    by simp (metis eq_neg_iff_add_eq_0)
  ultimately show ?thesis using gone by (intro exI conjI) (assumption | simp)+
qed

definition idleDeploy :: DeployMemory where
  "idleDeploy = snd (Deploy_DeleteMove None ''t'' sampleDeploy)"

lemma idleDeploy_reach: "deploy_step\<^sup>*\<^sup>* NewDeployMemory idleDeploy"
  unfolding idleDeploy_def
  by (rule rtranclp.rtrancl_into_rtrancl [OF sampleDeploy_reach placement [OF delete_move]])

theorem move_protocol_witness:
  "\<exists>s3. DeployService_Resolve (Some sampleService) quietDeploy (sampleTenant0 ''t'') (s3, [])
     = (Inr (sampleUnit ''v''), (s3, [])) \<and> s3 \<noteq> idleDeploy"
proof -
  have a: "map_of (dm_assignments idleDeploy) ''t'' = Some (sampleAssignment ''u'' 1)"
    and m: "map_of (dm_moves idleDeploy) ''t'' = None"
    and v: "map_of (dm_units idleDeploy) ''v'' = Some (sampleUnit ''v'')" by code_simp+
  from a m v obtain s3 where "DeployService_Resolve (Some sampleService) quietDeploy (sampleTenant0 ''t'') (s3, [])
     = (Inr (the (map_of (dm_units idleDeploy) ''v'')), (s3, []))"
    using move_protocol [OF idleDeploy_reach quietDeploy_undisturbed, of sampleService
        "sampleTenant0 ''t''" "sampleAssignment ''u'' 1" "''v''" "[]"]
    by (auto simp: sampleService_def NewDeployService_def sampleTenant0_def sampleAssignment_def
        unitActive_def sampleUnit_def MaxUint64_def)
  moreover have "fst (DeployService_Resolve (Some sampleService) quietDeploy (sampleTenant0 ''t'')
      (idleDeploy, [])) = Inr (sampleUnit ''u'')" by code_simp
  moreover have "sampleUnit ''u'' \<noteq> sampleUnit ''v''" by (simp add: sampleUnit_def)
  ultimately show ?thesis using v by (metis fst_conv option.sel sum.inject(2))
qed

section \<open>One cutover per version\<close>

definition wordVersion :: "DeployMemory \<Rightarrow> TenantID \<Rightarrow> 64 word option" where
  "wordVersion st tid = map_option as_Version (map_of (dm_assignments st) tid)"

text \<open>The cutover of a tenant from a unit, expecting a version.\<close>

definition cutoverAttempt ::
  "TenantID \<Rightarrow> 64 word \<Rightarrow> ctx \<times> DeploymentUnitID \<times> Move \<times> Assignment \<Rightarrow> DeployMemory
     \<Rightarrow> (deployment_error + unit) \<times> DeployMemory"
where
  "cutoverAttempt tid version arg =
     (case arg of (cx, source, move, updated) \<Rightarrow>
        Deploy_CutoverMove cx \<lparr>as_TenantID = tid, as_UnitID = source, as_Version = version\<rparr> move updated)"

interpretation cutover_race: optimistic "\<lambda>_. True" placement_step wordVersion cutoverAttempt
proof (unfold_locales, goal_cases)
  case (1 s s')
  then show ?case by simp
next
  case (2 s s' k v)
  then show ?case using placement_step_version [of s s' k]
    by (auto simp: wordVersion_def word_le_def)
next
  case (3 s k v a r s')
  obtain cx source move updated where a: "a = (cx, source, move, updated)" by (cases a)
  with 3 have c: "Deploy_CutoverMove cx \<lparr>as_TenantID = k, as_UnitID = source, as_Version = v\<rparr> move
      updated s = (Inr r, s')" by (simp add: cutoverAttempt_def)
  from CutoverMove_ok [OF c] cutover_exact_facts [OF c] show ?case
    by (auto simp: wordVersion_def word_less_def)
qed

text \<open>
  Of the cutovers that expect one version of a tenant's assignment at most one ever
  happens: after one has succeeded, and whatever operations the service's instances have run
  since, any other that names the same version fails.
\<close>

theorem one_cutover_per_version:
  assumes "Deploy_CutoverMove cx \<lparr>as_TenantID = tid, as_UnitID = source, as_Version = v\<rparr> move updated st
      = (Inr u, st1)" "placed st1 st2"
  shows "\<exists>e. fst (Deploy_CutoverMove cx' \<lparr>as_TenantID = tid, as_UnitID = source', as_Version = v\<rparr>
      move' updated' st2) = Inl e"
  using cutover_race.one_winner [where s = st and k = tid and v = v and r = u and ?s1.0 = st1
      and ?s2.0 = st2 and a = "(cx, source, move, updated)" and b = "(cx', source', move', updated')"] assms
  by (simp add: cutoverAttempt_def)

theorem one_cutover_per_version_witness:
  "\<exists>e. fst (Deploy_CutoverMove None (sampleAssignment ''u'' 1) sampleMove (sampleAssignment ''v'' 2)
     (snd (Deploy_CutoverMove None (sampleAssignment ''u'' 1) sampleMove (sampleAssignment ''v'' 2)
       sampleDeploy))) = Inl e"
proof -
  let ?r = "Deploy_CutoverMove None (sampleAssignment ''u'' 1) sampleMove (sampleAssignment ''v'' 2) sampleDeploy"
  have "fst ?r = Inr ()" by code_simp
  then have "?r = (Inr (), snd ?r)" by (metis prod.collapse)
  from one_cutover_per_version [OF this [unfolded sampleAssignment_def [of "''u''"]] rtranclp.rtrancl_refl]
  show ?thesis unfolding sampleAssignment_def [of "''u''"] by blast
qed

end
