(* ===== verification/Quota.thy ===== *)
theory Quota
  imports Prelude
begin

text \<open>
  Tenant quotas (\<open>quota/\<close>): the in-memory usage store and the service over it. Usage is a
  64-bit integer per tenant, resource and period; every sum and difference is the machine's.
\<close>

datatype quota_error = QuotaCtx ctx_error | ErrInvalidQuota | ErrQuotaExceeded | ErrNilQuotaStore

type_synonym Period = string
type_synonym usageKey = "TenantID \<times> string \<times> Period"

record Limit =
  l_TenantID :: TenantID
  l_Resource :: string
  l_Limit :: int64
  l_Period :: Period

record Usage =
  u_TenantID :: TenantID
  u_Resource :: string
  u_Period :: Period
  u_Used :: int64
  u_Limit :: int64

record QuotaMemory =
  qm_usage :: "(usageKey, int64) gomap"

definition NewQuotaMemory :: QuotaMemory where
  "NewQuotaMemory = \<lparr>qm_usage = []\<rparr>"

definition limitKey :: "Limit \<Rightarrow> usageKey" where
  "limitKey limit = (l_TenantID limit, l_Resource limit, l_Period limit)"

definition validateLimit :: "Limit \<Rightarrow> quota_error + unit" where
  "validateLimit limit =
     (if l_TenantID limit = [] \<or> l_Resource limit = [] \<or> l_Period limit = [] \<or> l_Limit limit < 0
      then Inl ErrInvalidQuota else Inr ())"

definition quotaCtx :: "ctx \<Rightarrow> quota_error + unit" where
  "quotaCtx cx = (case cx of None \<Rightarrow> Inr () | Some e \<Rightarrow> Inl (QuotaCtx e))"

definition usageOf :: "usageKey \<Rightarrow> QuotaMemory \<Rightarrow> int64" where
  "usageOf k st = lookup0 (qm_usage st) k"

definition setUsage :: "usageKey \<Rightarrow> int64 \<Rightarrow> QuotaMemory \<Rightarrow> QuotaMemory" where
  "setUsage k v st = st\<lparr>qm_usage := AList.update k v (qm_usage st)\<rparr>"

section \<open>The store\<close>

definition Quota_Add ::
  "ctx \<Rightarrow> TenantID \<Rightarrow> string \<Rightarrow> Period \<Rightarrow> int64 \<Rightarrow> QuotaMemory \<Rightarrow> (quota_error + int64) \<times> QuotaMemory"
where
  "Quota_Add cx tid resource period amount st =
     on_ok (quotaCtx cx) st (\<lambda>_.
       if amount < 0 \<or> tid = [] \<or> resource = [] \<or> period = [] then fails ErrInvalidQuota st
       else let k = (tid, resource, period) in
         if sub64 MaxInt64 (usageOf k st) < amount then fails ErrInvalidQuota st
         else let used = add64 (usageOf k st) amount in (Inr used, setUsage k used st))"

text \<open>When the limit is exceeded \<open>Consume\<close> returns the current usage beside the error.\<close>

definition Quota_Consume ::
  "ctx \<Rightarrow> Limit \<Rightarrow> int64 \<Rightarrow> QuotaMemory \<Rightarrow> (int64 \<times> quota_error option) \<times> QuotaMemory"
where
  "Quota_Consume cx limit amount st =
     (case bind_ok (quotaCtx cx) (\<lambda>_. validateLimit limit) of
        Inl e \<Rightarrow> ((0, Some e), st)
      | Inr _ \<Rightarrow>
          if amount < 0 then ((0, Some ErrInvalidQuota), st)
          else let k = limitKey limit; used = usageOf k st in
            if sub64 (l_Limit limit) used < amount then ((used, Some ErrQuotaExceeded), st)
            else let used' = add64 used amount in ((used', None), setUsage k used' st))"

definition Quota_Get ::
  "ctx \<Rightarrow> TenantID \<Rightarrow> string \<Rightarrow> Period \<Rightarrow> QuotaMemory \<Rightarrow> quota_error + int64"
where
  "Quota_Get cx tid resource period st =
     bind_ok (quotaCtx cx) (\<lambda>_.
       if tid = [] \<or> resource = [] \<or> period = [] then Inl ErrInvalidQuota
       else Inr (usageOf (tid, resource, period) st))"

definition Quota_Reset ::
  "ctx \<Rightarrow> TenantID \<Rightarrow> string \<Rightarrow> Period \<Rightarrow> QuotaMemory \<Rightarrow> (quota_error + unit) \<times> QuotaMemory"
where
  "Quota_Reset cx tid resource period st =
     on_ok (quotaCtx cx) st (\<lambda>_.
       if tid = [] \<or> resource = [] \<or> period = [] then fails ErrInvalidQuota st
       else (Inr (), st\<lparr>qm_usage := AList.delete (tid, resource, period) (qm_usage st)\<rparr>))"

section \<open>The service\<close>

text \<open>\<open>has_store\<close> is false for a nil service or a service of a nil store.\<close>

definition limitUsage :: "Limit \<Rightarrow> int64 \<Rightarrow> Usage" where
  "limitUsage limit used = \<lparr>u_TenantID = l_TenantID limit, u_Resource = l_Resource limit,
     u_Period = l_Period limit, u_Used = used, u_Limit = l_Limit limit\<rparr>"

definition zeroUsage :: Usage where
  "zeroUsage = \<lparr>u_TenantID = [], u_Resource = [], u_Period = [], u_Used = 0, u_Limit = 0\<rparr>"

definition QuotaService_Check ::
  "bool \<Rightarrow> ctx \<Rightarrow> Limit \<Rightarrow> int64 \<Rightarrow> QuotaMemory \<Rightarrow> Usage \<times> quota_error option"
where
  "QuotaService_Check has_store cx limit amount st =
     (if \<not> has_store then (zeroUsage, Some ErrNilQuotaStore)
      else case validateLimit limit of
        Inl e \<Rightarrow> (zeroUsage, Some e)
      | Inr _ \<Rightarrow>
          if amount < 0 then (zeroUsage, Some ErrInvalidQuota)
          else (case Quota_Get cx (l_TenantID limit) (l_Resource limit) (l_Period limit) st of
            Inl e \<Rightarrow> (zeroUsage, Some e)
          | Inr used \<Rightarrow>
              (limitUsage limit used,
               if sub64 (l_Limit limit) used < amount then Some ErrQuotaExceeded else None)))"

definition QuotaService_Consume ::
  "bool \<Rightarrow> ctx \<Rightarrow> Limit \<Rightarrow> int64 \<Rightarrow> QuotaMemory \<Rightarrow> (Usage \<times> quota_error option) \<times> QuotaMemory"
where
  "QuotaService_Consume has_store cx limit amount st =
     (if \<not> has_store then ((zeroUsage, Some ErrNilQuotaStore), st)
      else case validateLimit limit of
        Inl e \<Rightarrow> ((zeroUsage, Some e), st)
      | Inr _ \<Rightarrow>
          if amount < 0 then ((zeroUsage, Some ErrInvalidQuota), st)
          else (case Quota_Consume cx limit amount st of
            ((used, Some e), st1) \<Rightarrow> ((zeroUsage, Some e), st1)
          | ((used, None), st1) \<Rightarrow> ((limitUsage limit used, None), st1)))"

definition QuotaService_Reset ::
  "bool \<Rightarrow> ctx \<Rightarrow> TenantID \<Rightarrow> string \<Rightarrow> Period \<Rightarrow> QuotaMemory \<Rightarrow> (quota_error + unit) \<times> QuotaMemory"
where
  "QuotaService_Reset has_store cx tid resource period st =
     (if \<not> has_store then fails ErrNilQuotaStore st else Quota_Reset cx tid resource period st)"

section \<open>Usage never leaves its range\<close>

text \<open>One operation of the store, with arguments of their Go types.\<close>

datatype quotaOp =
  QAdd ctx TenantID string Period int64 | QConsume ctx Limit int64
| QReset ctx TenantID string Period

fun quotaTyped :: "quotaOp \<Rightarrow> bool" where
  "quotaTyped (QAdd cx tid resource period amount) = i64 amount"
| "quotaTyped (QConsume cx limit amount) = (i64 (l_Limit limit) \<and> i64 amount)"
| "quotaTyped (QReset cx tid resource period) = True"

fun quotaRun1 :: "quotaOp \<Rightarrow> QuotaMemory \<Rightarrow> QuotaMemory" where
  "quotaRun1 (QAdd cx tid resource period amount) st = snd (Quota_Add cx tid resource period amount st)"
| "quotaRun1 (QConsume cx limit amount) st = snd (Quota_Consume cx limit amount st)"
| "quotaRun1 (QReset cx tid resource period) st = snd (Quota_Reset cx tid resource period st)"

definition usage_inv :: "QuotaMemory \<Rightarrow> bool" where
  "usage_inv st \<longleftrightarrow> (\<forall>k. 0 \<le> usageOf k st \<and> usageOf k st \<le> MaxInt64)"

lemma usageOf_set [simp]: "usageOf k (setUsage k' v st) = (if k = k' then v else usageOf k st)"
  by (simp add: usageOf_def setUsage_def lookup0_def)

lemma usageOf_delete [simp]:
  "usageOf k (st\<lparr>qm_usage := AList.delete k' (qm_usage st)\<rparr>) = (if k = k' then 0 else usageOf k st)"
  by (simp add: usageOf_def lookup0_def)

lemma usage_invD: "usage_inv st \<Longrightarrow> 0 \<le> usageOf k st \<and> usageOf k st \<le> MaxInt64"
  unfolding usage_inv_def by blast

lemma quotaCtx_simps [simp]: "quotaCtx None = Inr ()" "quotaCtx (Some e) = Inl (QuotaCtx e)"
  by (simp_all add: quotaCtx_def)

text \<open>The room the limit leaves, and the new usage, computed without wrapping.\<close>

lemma room_exact:
  assumes "usage_inv st" "0 \<le> l" "i64 l"
  shows "sub64 l (usageOf k st) = l - usageOf k st"
proof (rule sub64_id)
  have "0 \<le> usageOf k st" "usageOf k st \<le> MaxInt64" using usage_invD [OF assms(1)] by simp_all
  then show "i64 (l - usageOf k st)" using assms(2,3) by (simp add: i64_def MaxInt64_def)
qed

lemma sum_exact:
  assumes "usage_inv st" "0 \<le> a" "a \<le> l - usageOf k st" "i64 l"
  shows "add64 (usageOf k st) a = usageOf k st + a \<and> 0 \<le> usageOf k st + a \<and> usageOf k st + a \<le> MaxInt64"
proof -
  have u: "0 \<le> usageOf k st" using usage_invD [OF assms(1)] by simp
  then have "0 \<le> usageOf k st + a \<and> usageOf k st + a \<le> MaxInt64"
    using assms(2-4) i64_le_Max [of l] by linarith
  then show ?thesis by (simp add: add64_id i64_nonneg)
qed

lemma Consume_effect:
  assumes "usage_inv st" "i64 (l_Limit limit)"
  shows "Quota_Consume cx limit amount st =
    (if cx = None \<and> validateLimit limit = Inr () \<and> 0 \<le> amount
        \<and> usageOf (limitKey limit) st + amount \<le> l_Limit limit
     then ((usageOf (limitKey limit) st + amount, None),
           setUsage (limitKey limit) (usageOf (limitKey limit) st + amount) st)
     else (fst (Quota_Consume cx limit amount st), st))"
proof (cases "cx = None \<and> validateLimit limit = Inr () \<and> 0 \<le> amount")
  case True
  then have l: "0 \<le> l_Limit limit" by (auto simp: validateLimit_def split: if_splits)
  note room = room_exact [OF assms(1) l assms(2), of "limitKey limit"]
  show ?thesis
  proof (cases "usageOf (limitKey limit) st + amount \<le> l_Limit limit")
    case fits: True
    then have "amount \<le> l_Limit limit - usageOf (limitKey limit) st" by simp
    from sum_exact [OF assms(1) _ this assms(2)] True fits show ?thesis
      by (simp add: Quota_Consume_def room Let_def)
  next
    case False
    with True show ?thesis by (simp add: Quota_Consume_def room Let_def)
  qed
next
  case False
  then show ?thesis
    by (cases cx; cases "validateLimit limit") (auto simp: Quota_Consume_def)
qed

lemma Consume_ok:
  assumes "usage_inv st" "i64 (l_Limit limit)" "Quota_Consume cx limit amount st = ((used, None), st')"
  shows "0 \<le> amount \<and> used = usageOf (limitKey limit) st + amount \<and> used \<le> l_Limit limit
    \<and> st' = setUsage (limitKey limit) used st"
proof (cases "cx = None \<and> validateLimit limit = Inr () \<and> 0 \<le> amount
    \<and> usageOf (limitKey limit) st + amount \<le> l_Limit limit")
  case True
  with Consume_effect [OF assms(1,2), of cx amount] assms(3) show ?thesis by auto
next
  case False
  have l: "validateLimit limit = Inr () \<Longrightarrow> 0 \<le> l_Limit limit"
    by (auto simp: validateLimit_def split: if_splits)
  from False assms(3) room_exact [OF assms(1) l assms(2), of "limitKey limit"] show ?thesis
    by (cases cx; cases "validateLimit limit") (auto simp: Quota_Consume_def Let_def split: if_splits)
qed

lemma quotaRun1_inv: "usage_inv st \<Longrightarrow> quotaTyped op \<Longrightarrow> usage_inv (quotaRun1 op st)"
proof (induction op)
  case (QAdd cx tid resource period amount)
  let ?k = "(tid, resource, period)"
  have room: "sub64 MaxInt64 (usageOf ?k st) = MaxInt64 - usageOf ?k st"
    using QAdd by (intro room_exact) (simp_all, simp add: MaxInt64_def)
  show ?case
  proof (cases "cx = None \<and> 0 \<le> amount \<and> tid \<noteq> [] \<and> resource \<noteq> [] \<and> period \<noteq> []
      \<and> amount \<le> MaxInt64 - usageOf ?k st")
    case True
    with sum_exact [OF QAdd(1), of amount MaxInt64 ?k] QAdd show ?thesis
      by (auto simp: Quota_Add_def room Let_def usage_inv_def)
  next
    case False
    with QAdd room show ?thesis by (cases cx) (auto simp: Quota_Add_def Let_def)
  qed
next
  case (QConsume cx limit amount)
  then have l: "usage_inv st" "i64 (l_Limit limit)" by simp_all
  show ?case
  proof (cases "cx = None \<and> validateLimit limit = Inr () \<and> 0 \<le> amount
      \<and> usageOf (limitKey limit) st + amount \<le> l_Limit limit")
    case True
    with Consume_effect [OF l, of cx amount] sum_exact [OF l(1), of amount "l_Limit limit" "limitKey limit"]
    show ?thesis using l by (auto simp: usage_inv_def)
  next
    case False
    with Consume_effect [OF l, of cx amount] l show ?thesis by (metis quotaRun1.simps(2) snd_conv)
  qed
next
  case (QReset cx tid resource period)
  then show ?case by (cases cx) (auto simp: Quota_Reset_def usage_inv_def MaxInt64_def)
qed

lemma quotaRun_inv: "list_all quotaTyped ops \<Longrightarrow> usage_inv st \<Longrightarrow> usage_inv (fold quotaRun1 ops st)"
  by (induction ops arbitrary: st) (auto intro: quotaRun1_inv)

lemma usage_inv_new: "usage_inv NewQuotaMemory"
  by (simp add: usage_inv_def NewQuotaMemory_def usageOf_def lookup0_def MaxInt64_def)

section \<open>Properties\<close>

text \<open>
  In every state the quota store reaches from the empty one, usage stays between zero and
  the largest 64-bit integer, and \<open>Consume\<close> grants an amount exactly when usage and amount
  together stay within the limit, computed exactly in spite of the machine arithmetic: then the
  usage of that tenant, resource and period grows by the amount and no other changes; in every
  other case there is an error and nothing changes.
\<close>

theorem consume_exact:
  assumes "list_all quotaTyped ops" "st = fold quotaRun1 ops NewQuotaMemory"
    and "i64 (l_Limit limit)" "validateLimit limit = Inr ()" "0 \<le> amount"
  shows "0 \<le> usageOf k st \<and> usageOf k st \<le> MaxInt64
    \<and> Quota_Consume None limit amount st =
      (if usageOf (limitKey limit) st + amount \<le> l_Limit limit
       then ((usageOf (limitKey limit) st + amount, None),
             setUsage (limitKey limit) (usageOf (limitKey limit) st + amount) st)
       else ((usageOf (limitKey limit) st, Some ErrQuotaExceeded), st))"
proof -
  have inv: "usage_inv st" using quotaRun_inv [OF assms(1) usage_inv_new] assms(2) by simp
  have l: "0 \<le> l_Limit limit" using assms(4) by (auto simp: validateLimit_def split: if_splits)
  have "Quota_Consume None limit amount st = ((usageOf (limitKey limit) st, Some ErrQuotaExceeded), st)"
    if "\<not> usageOf (limitKey limit) st + amount \<le> l_Limit limit"
    using that assms room_exact [OF inv l assms(3)] by (simp add: Quota_Consume_def Let_def)
  moreover have "Quota_Consume None limit amount st =
      ((usageOf (limitKey limit) st + amount, None),
       setUsage (limitKey limit) (usageOf (limitKey limit) st + amount) st)"
    if "usageOf (limitKey limit) st + amount \<le> l_Limit limit"
    using that assms(4,5) by (subst Consume_effect [OF inv assms(3)]) simp
  ultimately show ?thesis using usage_invD [OF inv] by simp
qed

definition sampleLimit :: Limit where
  "sampleLimit = \<lparr>l_TenantID = ''t'', l_Resource = ''calls'', l_Limit = 10, l_Period = ''day''\<rparr>"

theorem consume_exact_witness:
  "fst (Quota_Consume None sampleLimit 4 (fold quotaRun1 [QConsume None sampleLimit 7] NewQuotaMemory))
     = (7, Some ErrQuotaExceeded)"
proof -
  let ?st = "fold quotaRun1 [QConsume None sampleLimit 7] NewQuotaMemory"
  have "usageOf (limitKey sampleLimit) ?st = 7" by code_simp
  then show ?thesis
    using consume_exact [of "[QConsume None sampleLimit 7]" ?st sampleLimit 4]
    by (simp add: sampleLimit_def i64_def validateLimit_def)
qed

fun granted :: "usageKey \<Rightarrow> quotaOp list \<Rightarrow> QuotaMemory \<Rightarrow> int" where
  "granted k [] st = 0"
| "granted k (op # ops) st =
     (case op of
        QConsume cx limit amount \<Rightarrow>
          if limitKey limit = k \<and> snd (fst (Quota_Consume cx limit amount st)) = None then amount else 0
      | _ \<Rightarrow> 0) + granted k ops (quotaRun1 op st)"

text \<open>The operations that leave a key to \<open>Consume\<close> under a limit of at most \<open>l\<close>.\<close>

fun consumesOnly :: "usageKey \<Rightarrow> int64 \<Rightarrow> quotaOp \<Rightarrow> bool" where
  "consumesOnly k l (QAdd cx tid resource period amount) = ((tid, resource, period) \<noteq> k)"
| "consumesOnly k l (QConsume cx limit amount) = (limitKey limit = k \<longrightarrow> l_Limit limit \<le> l)"
| "consumesOnly k l (QReset cx tid resource period) = ((tid, resource, period) \<noteq> k)"

lemma consume_one:
  assumes "usage_inv st" "quotaTyped op" "consumesOnly k l op"
  shows "usageOf k (quotaRun1 op st) = usageOf k st + granted k [op] st
    \<and> (usageOf k st \<le> l \<longrightarrow> usageOf k (quotaRun1 op st) \<le> l)"
proof (cases op)
  case (QAdd cx tid resource period amount)
  then show ?thesis using assms(3) by (cases cx) (auto simp: Quota_Add_def Let_def)
next
  case (QReset cx tid resource period)
  then show ?thesis using assms(3) by (cases cx) (auto simp: Quota_Reset_def)
next
  case (QConsume cx limit amount)
  then have l: "i64 (l_Limit limit)" using assms(2) by simp
  show ?thesis
  proof (cases "snd (fst (Quota_Consume cx limit amount st))")
    case None
    then obtain used st' where c: "Quota_Consume cx limit amount st = ((used, None), st')"
      by (metis prod.collapse)
    from Consume_ok [OF assms(1) l c] QConsume c assms(3) show ?thesis by auto
  next
    case (Some e)
    then have "snd (Quota_Consume cx limit amount st) = st"
      using Consume_effect [OF assms(1) l, of cx amount] by (auto split: if_splits dest: arg_cong [of _ _ snd])
    with Some QConsume show ?thesis by simp
  qed
qed

text \<open>
  C22. A quota is never overrun, in whatever order its consumers come: as long as the usage of
  a tenant, resource and period is only changed by \<open>Consume\<close> with limits of at most \<open>l\<close>, with
  any other operations on other keys in between, the usage is what was granted and what was
  there before, and it stays within \<open>l\<close>.
\<close>

theorem quota_never_overrun:
  assumes "usage_inv st" "list_all quotaTyped ops" "list_all (consumesOnly k l) ops" "usageOf k st \<le> l"
  shows "usageOf k (fold quotaRun1 ops st) = usageOf k st + granted k ops st
    \<and> usageOf k (fold quotaRun1 ops st) \<le> l"
  using assms
proof (induction ops arbitrary: st)
  case (Cons op ops)
  from Cons.prems have op: "quotaTyped op" "consumesOnly k l op"
    and ops: "list_all quotaTyped ops" "list_all (consumesOnly k l) ops" by simp_all
  note one = consume_one [OF Cons.prems(1) op]
  have "usage_inv (quotaRun1 op st)" using quotaRun1_inv Cons.prems(1) op(1) by blast
  with Cons.IH [OF this ops] one Cons.prems(4) show ?case by simp
qed simp

theorem quota_never_overrun_witness:
  "usageOf (limitKey sampleLimit)
     (fold quotaRun1 [QConsume None sampleLimit 7, QConsume None sampleLimit 4, QConsume None sampleLimit 3]
        NewQuotaMemory) \<le> 10"
  by (rule quota_never_overrun [OF usage_inv_new, THEN conjunct2])
     (simp_all add: sampleLimit_def i64_def usageOf_def NewQuotaMemory_def lookup0_def)

text \<open>
  \<open>Check\<close> is \<open>Consume\<close> without the effect: asked in the same state it reports an error
  exactly when \<open>Consume\<close> would, the same one, and it reports the usage \<open>Consume\<close> would add to.
\<close>

theorem check_predicts_consume:
  assumes "usage_inv st" "i64 (l_Limit limit)"
  shows "snd (QuotaService_Check has_store cx limit amount st)
      = snd (fst (QuotaService_Consume has_store cx limit amount st))
    \<and> (snd (QuotaService_Check has_store cx limit amount st) = None \<longrightarrow>
        u_Used (fst (fst (QuotaService_Consume has_store cx limit amount st)))
          = u_Used (fst (QuotaService_Check has_store cx limit amount st)) + amount)"
proof (cases "has_store \<and> cx = None \<and> validateLimit limit = Inr () \<and> 0 \<le> amount")
  case True
  then have nonempty: "l_TenantID limit \<noteq> []" "l_Resource limit \<noteq> []" "l_Period limit \<noteq> []"
    and l: "0 \<le> l_Limit limit" by (auto simp: validateLimit_def split: if_splits)
  have get: "Quota_Get None (l_TenantID limit) (l_Resource limit) (l_Period limit) st
      = Inr (usageOf (limitKey limit) st)"
    using nonempty by (simp add: Quota_Get_def limitKey_def)
  note room = room_exact [OF assms(1) l assms(2), of "limitKey limit"]
  have sum: "amount \<le> l_Limit limit - usageOf (limitKey limit) st \<Longrightarrow>
      add64 (usageOf (limitKey limit) st) amount = usageOf (limitKey limit) st + amount"
    using sum_exact [OF assms(1) _ _ assms(2), of amount "limitKey limit"] True by simp
  show ?thesis using True sum
    by (simp add: QuotaService_Check_def QuotaService_Consume_def Quota_Consume_def get room Let_def
        limitUsage_def)
next
  case False
  then show ?thesis
    by (cases cx; cases "validateLimit limit")
       (auto simp: QuotaService_Check_def QuotaService_Consume_def Quota_Consume_def Quota_Get_def
         validateLimit_def split: if_splits)
qed

theorem check_predicts_consume_witness:
  "snd (fst (QuotaService_Consume True None sampleLimit 11 NewQuotaMemory)) = Some ErrQuotaExceeded"
proof -
  have "snd (QuotaService_Check True None sampleLimit 11 NewQuotaMemory) = Some ErrQuotaExceeded"
    by code_simp
  then show ?thesis
    using check_predicts_consume [OF usage_inv_new, of sampleLimit True None 11]
    by (simp add: sampleLimit_def i64_def)
qed

end
