(* ===== verification/Plan.thy ===== *)
theory Plan
  imports Paging
begin

text \<open>
  Plans (\<open>plan/\<close>): the in-memory plan service, its filters and paging. It provides the
  directory contract and the listing contract.
\<close>

datatype plan_error =
  PlanCtx ctx_error | ErrPlanNotFound | ErrPlanAlreadyExists | ErrInvalidPlan | ErrPlanListFilter

record Feature =
  ft_Key :: string
  ft_Enabled :: bool
  ft_Config :: "(string, string) gomap option"

text \<open>\<open>QuotaPeriod\<close> is a string.\<close>

record PlanQuota =
  pq_Resource :: string
  pq_Limit :: int64
  pq_Period :: string

record Plan =
  pl_ID :: string
  pl_Name :: string
  pl_Features :: "Feature list"
  pl_Quotas :: "PlanQuota list"

record PlanListFilter =
  pf_IDs :: "string list"
  pf_Limit :: int64
  pf_Offset :: int64

record PlanPageFilter =
  pp_IDs :: "string list"
  pp_Limit :: int64
  pp_Offset :: int64
  pp_Cursor :: string

record PlanMemory =
  pm_plans :: "(string, Plan) gomap"

definition NewPlanMemory :: PlanMemory where
  "NewPlanMemory = \<lparr>pm_plans = []\<rparr>"

definition validatePlan :: "Plan \<Rightarrow> plan_error + unit" where
  "validatePlan plan =
     (if pl_ID plan = [] \<or> pl_Name plan = [] then Inl ErrInvalidPlan
      else if list_ex (\<lambda>f. ft_Key f = []) (pl_Features plan) then Inl ErrInvalidPlan
      else if list_ex (\<lambda>q. pq_Resource q = [] \<or> pq_Limit q < 0 \<or> pq_Period q = []) (pl_Quotas plan)
      then Inl ErrInvalidPlan
      else Inr ())"

definition planFilterMatches :: "PlanListFilter \<Rightarrow> Plan \<Rightarrow> bool" where
  "planFilterMatches filt plan \<longleftrightarrow>
     pf_IDs filt = [] \<or> list_ex (\<lambda>i. pl_ID plan = i) (pf_IDs filt)"

definition planFilterValidate :: "PlanListFilter \<Rightarrow> plan_error + unit" where
  "planFilterValidate filt =
     (if pf_Limit filt < 0 \<or> pf_Offset filt < 0 then Inl ErrPlanListFilter
      else if 0 < pf_Offset filt \<and> pf_Limit filt = 0 then Inl ErrPlanListFilter
      else if list_ex (\<lambda>i. i = []) (pf_IDs filt) then Inl ErrPlanListFilter
      else Inr ())"

definition planPageListFilter :: "PlanPageFilter \<Rightarrow> PlanListFilter" where
  "planPageListFilter filt =
     \<lparr>pf_IDs = pp_IDs filt, pf_Limit = pp_Limit filt, pf_Offset = pp_Offset filt\<rparr>"

definition planPageValidate :: "PlanPageFilter \<Rightarrow> plan_error + unit" where
  "planPageValidate filt =
     bind_ok (planFilterValidate (planPageListFilter filt)) (\<lambda>_.
       if pp_Cursor filt \<noteq> [] \<and> 0 < pp_Offset filt then Inl ErrPlanListFilter else Inr ())"

definition pagePlans :: "Plan list \<Rightarrow> PlanListFilter \<Rightarrow> Plan list" where
  "pagePlans plans filt = pageRows (pf_Offset filt) (pf_Limit filt) plans"

definition seekPlans :: "Plan list \<Rightarrow> string \<Rightarrow> Plan list" where
  "seekPlans plans cursor = seekRows pl_ID cursor plans"

section \<open>Operations\<close>

definition planCtx :: "ctx \<Rightarrow> plan_error + unit" where
  "planCtx cx = (case cx of None \<Rightarrow> Inr () | Some e \<Rightarrow> Inl (PlanCtx e))"

definition putPlan :: "Plan \<Rightarrow> PlanMemory \<Rightarrow> PlanMemory" where
  "putPlan plan st = st\<lparr>pm_plans := AList.update (pl_ID plan) plan (pm_plans st)\<rparr>"

definition Plans_Create :: "ctx \<Rightarrow> Plan \<Rightarrow> PlanMemory \<Rightarrow> (plan_error + unit) \<times> PlanMemory" where
  "Plans_Create cx plan st =
     on_ok (planCtx cx) st (\<lambda>_. on_ok (validatePlan plan) st (\<lambda>_.
       if map_of (pm_plans st) (pl_ID plan) \<noteq> None then fails ErrPlanAlreadyExists st
       else (Inr (), putPlan plan st)))"

definition Plans_Get :: "ctx \<Rightarrow> string \<Rightarrow> PlanMemory \<Rightarrow> plan_error + Plan" where
  "Plans_Get cx i st =
     bind_ok (planCtx cx) (\<lambda>_.
       if i = [] then Inl ErrInvalidPlan
       else (case map_of (pm_plans st) i of None \<Rightarrow> Inl ErrPlanNotFound | Some plan \<Rightarrow> Inr plan))"

definition plansList :: "PlanListFilter \<Rightarrow> string \<Rightarrow> PlanMemory \<Rightarrow> Plan list" where
  "plansList filt cursor st =
     pagePlans (seekPlans (sortRows pl_ID (planFilterMatches filt) (pm_plans st)) cursor) filt"

definition Plans_List :: "ctx \<Rightarrow> PlanListFilter \<Rightarrow> PlanMemory \<Rightarrow> plan_error + Plan list" where
  "Plans_List cx filt st =
     bind_ok (planCtx cx) (\<lambda>_. bind_ok (planFilterValidate filt) (\<lambda>_.
       Inr (plansList filt [] st)))"

definition Plans_ListPage :: "ctx \<Rightarrow> PlanPageFilter \<Rightarrow> PlanMemory \<Rightarrow> plan_error + Plan list" where
  "Plans_ListPage cx filt st =
     bind_ok (planCtx cx) (\<lambda>_. bind_ok (planPageValidate filt) (\<lambda>_.
       Inr (plansList (planPageListFilter filt) (pp_Cursor filt) st)))"

definition Plans_Update :: "ctx \<Rightarrow> Plan \<Rightarrow> PlanMemory \<Rightarrow> (plan_error + unit) \<times> PlanMemory" where
  "Plans_Update cx plan st =
     on_ok (planCtx cx) st (\<lambda>_. on_ok (validatePlan plan) st (\<lambda>_.
       if map_of (pm_plans st) (pl_ID plan) = None then fails ErrPlanNotFound st
       else (Inr (), putPlan plan st)))"

definition Plans_Delete :: "ctx \<Rightarrow> string \<Rightarrow> PlanMemory \<Rightarrow> (plan_error + unit) \<times> PlanMemory" where
  "Plans_Delete cx i st =
     on_ok (planCtx cx) st (\<lambda>_.
       if i = [] then fails ErrInvalidPlan st
       else if map_of (pm_plans st) i = None then fails ErrPlanNotFound st
       else (Inr (), st\<lparr>pm_plans := AList.delete i (pm_plans st)\<rparr>))"

section \<open>The directory contract\<close>

definition plan_inv :: "PlanMemory \<Rightarrow> bool" where
  "plan_inv st \<longleftrightarrow> keyed_map pl_ID (pm_plans st)
     \<and> (\<forall>i p. map_of (pm_plans st) i = Some p \<longrightarrow> validatePlan p = Inr ())"

definition planRules :: "(string, Plan, plan_error) dir_rules" where
  "planRules = \<lparr>dr_key = pl_ID, dr_check = (\<lambda>p. err_of (validatePlan p)), dr_may = (\<lambda>_ _. None),
     dr_bad = (\<lambda>i. if i = [] then Some ErrInvalidPlan else None),
     dr_exists = ErrPlanAlreadyExists, dr_missing = ErrPlanNotFound\<rparr>"

fun planExec :: "(string, Plan) dir_op \<Rightarrow> PlanMemory \<Rightarrow> (plan_error, Plan, PlanMemory) answer" where
  "planExec (DGet i) st = (map_sum id Some (Plans_Get None i st), st)"
| "planExec (DCreate p) st = map_prod (map_sum id (\<lambda>_. None)) id (Plans_Create None p st)"
| "planExec (DUpdate p) st = map_prod (map_sum id (\<lambda>_. None)) id (Plans_Update None p st)"
| "planExec (DRemove i) st = map_prod (map_sum id (\<lambda>_. None)) id (Plans_Delete None i st)"

lemmas plan_ops = Plans_Get_def Plans_Create_def Plans_Update_def Plans_Delete_def

lemma planCtx_simps [simp]: "planCtx None = Inr ()" "planCtx (Some e) = Inl (PlanCtx e)"
  by (simp_all add: planCtx_def)

lemma plan_inv_put: "plan_inv st \<Longrightarrow> validatePlan p = Inr () \<Longrightarrow> plan_inv (putPlan p st)"
  by (simp add: plan_inv_def keyed_map_update putPlan_def)

lemma plan_inv_delete: "plan_inv st \<Longrightarrow> plan_inv (st\<lparr>pm_plans := AList.delete i (pm_plans st)\<rparr>)"
  by (simp add: plan_inv_def keyed_map_delete)

lemma plan_inv_new: "plan_inv NewPlanMemory"
  by (simp add: plan_inv_def NewPlanMemory_def)

lemma plan_exec_inv: "plan_inv st \<Longrightarrow> plan_inv (snd (planExec op st))"
  by (cases op) (auto simp: plan_ops on_ok_def plan_inv_put plan_inv_delete
      split: sum.splits option.splits)

interpretation plans: directory planRules "\<lambda>_. True" plan_inv "\<lambda>st. map_of (pm_plans st)" planExec
proof (unfold_locales, goal_cases)
  case (1 st op)
  then show ?case by (simp add: plan_exec_inv)
next
  case (2 st op)
  then show ?case
    by (cases op)
       (auto simp: plan_ops planRules_def on_ok_def err_of_def putPlan_def split: sum.splits option.splits)
next
  case (3 p)
  then show ?case by (auto simp: planRules_def validatePlan_def)
qed

section \<open>The listing contract\<close>

definition planRows :: "PlanMemory \<Rightarrow> string list \<Rightarrow> Plan list" where
  "planRows st ids =
     (if list_ex (\<lambda>i. i = []) ids then []
      else sortRows pl_ID (planFilterMatches \<lparr>pf_IDs = ids, pf_Limit = 0, pf_Offset = 0\<rparr>) (pm_plans st))"

definition planPage :: "nat \<Rightarrow> string list \<Rightarrow> PlanMemory \<Rightarrow> string \<Rightarrow> Plan list" where
  "planPage n ids st cursor =
     (case Plans_ListPage None \<lparr>pp_IDs = ids, pp_Limit = int n, pp_Offset = 0, pp_Cursor = cursor\<rparr> st of
        Inl _ \<Rightarrow> [] | Inr plans \<Rightarrow> plans)"

lemma planFilterMatches_cong:
  "planFilterMatches \<lparr>pf_IDs = ids, pf_Limit = l, pf_Offset = n\<rparr>
     = planFilterMatches \<lparr>pf_IDs = ids, pf_Limit = l', pf_Offset = n'\<rparr>"
  by (rule ext) (simp add: planFilterMatches_def)

lemma plan_inv_ids:
  assumes "plan_inv st" "p \<in> set (vals (pm_plans st))"
  shows "pl_ID p \<noteq> []"
proof -
  have "map_of (pm_plans st) (pl_ID p) = Some p" using assms by (metis plan_inv_def keyed_map_in_vals)
  then have "validatePlan p = Inr ()" using assms(1) by (auto simp: plan_inv_def)
  then show ?thesis by (auto simp: validatePlan_def)
qed

interpretation plan_listing: cursor_listing pl_ID plan_inv planRows planPage
proof (unfold_locales, goal_cases)
  case (1 st f)
  then show ?case by (simp add: planRows_def plan_inv_def sortRows_sorted)
next
  case (2 st n f c)
  have m: "planFilterMatches \<lparr>pf_IDs = f, pf_Limit = int n, pf_Offset = 0\<rparr>
      = planFilterMatches \<lparr>pf_IDs = f, pf_Limit = 0, pf_Offset = 0\<rparr>"
    by (rule planFilterMatches_cong)
  show ?case
  proof (cases "list_ex (\<lambda>i. i = []) f")
    case True
    then show ?thesis
      by (simp add: planPage_def planRows_def Plans_ListPage_def planPageValidate_def
          planFilterValidate_def planPageListFilter_def)
  next
    case False
    then have "planPage n f st c = pageRows 0 (int n) (seekRows pl_ID c (planRows st f))"
      by (simp add: planPage_def Plans_ListPage_def planPageValidate_def planFilterValidate_def
          planPageListFilter_def plansList_def pagePlans_def seekPlans_def planRows_def m)
    also have "\<dots> = take n (filter (\<lambda>p. c < pl_ID p) (planRows st f))"
      using 2 False plan_inv_ids unfolding planRows_def
      by (simp only: if_False) (intro page_of_rows; auto simp: plan_inv_def)
    finally show ?thesis .
  qed
qed

section \<open>Properties\<close>

text \<open>
  The plan service implements a finite map from identifiers to valid plans: from the empty
  service any sequence of reads, creations, replacements and removals gives the answers of the
  map, errors included, and leaves its contents; and listing the plans page by page yields
  every plan once and in order.
\<close>

theorem plans_refine_map:
  "fst (dir_run planExec ops NewPlanMemory) = fst (dir_run (dir_spec planRules) ops Map.empty)
   \<and> map_of (pm_plans (snd (dir_run planExec ops NewPlanMemory)))
       = snd (dir_run (dir_spec planRules) ops Map.empty)
   \<and> dir_keyed planRules (map_of (pm_plans (snd (dir_run planExec ops NewPlanMemory))))
   \<and> walk_pages pl_ID (planPage (Suc n) ids)
        (replicate (Suc (length (planRows (snd (dir_run planExec ops NewPlanMemory)) ids)))
          (snd (dir_run planExec ops NewPlanMemory))) []
       = planRows (snd (dir_run planExec ops NewPlanMemory)) ids"
proof -
  have e: "map_of (pm_plans NewPlanMemory) = Map.empty" by (simp add: NewPlanMemory_def)
  have ops: "list_all (\<lambda>_. True) ops" by (simp add: list_all_iff)
  let ?st = "snd (dir_run planExec ops NewPlanMemory)"
  note run = plans.run_refines [OF plan_inv_new ops] 
  have "[] < pl_ID p" if "p \<in> set (planRows ?st ids)" for p
    using that run plan_inv_ids [of ?st p]
    by (auto simp: planRows_def sortRows_def intro: bot_less_string split: if_splits)
  then have "walk_pages pl_ID (planPage (Suc n) ids) (replicate (Suc (length (planRows ?st ids))) ?st) []
      = planRows ?st ids"
    using run by (intro plan_listing.walk_whole) simp_all
  with run plans.run_keyed [OF plan_inv_new ops] show ?thesis by (simp add: e dir_keyed_def)
qed

end
