(* ===== verification/Subscription.thy ===== *)
theory Subscription
  imports Paging
begin

text \<open>
  Subscriptions (\<open>subscription/\<close>): the in-memory service with its staged mutations.

  A mutation with a billing event runs in three parts. Under the lock it waits until the
  tenant has no pending mutation, checks and stages the new subscription; without the lock it
  runs the billing hook; under the lock again it commits the staged value or drops it. A
  \<open>subEnv\<close> says what happens around them: \<open>se_other k\<close> is what other goroutines did to the
  service before the moment \<open>k\<close>, \<open>se_during k p\<close> what they and the hook itself did between
  the staging of the pending mutation \<open>p\<close> and its end, \<open>se_ctx k\<close> and \<open>se_now k\<close> are the
  answers of the context and of the clock, and \<open>se_hook\<close> is the billing hook, \<open>None\<close> when it
  is nil. A pending mutation is a pointer in the source: here it carries the number it was
  allocated under, which names its channel \<open>done\<close> as well; the service's field \<open>ss_closed\<close> says
  which of these channels have been closed. The context of a call made from hooks holds their marks, innermost first.
\<close>

datatype sub_error =
  SubCtx ctx_error | ErrSubscriptionNotFound | ErrSubscriptionAlreadyExists | ErrInvalidSubscription
| ErrInvalidTransition | ErrBillingHookReentrantMutation | ErrSubListFilter | ErrBillingHook string
| HookPanicked

datatype Status = StatusActive | StatusExpired | StatusCancelled | StatusOther string

record Subscription =
  sb_TenantID :: TenantID
  sb_PlanID :: string
  sb_Status :: Status
  sb_StartDate :: Time
  sb_EndDate :: "Time option"
  sb_CurrentPeriodEnd :: "Time option"
  sb_GracePeriodEnd :: "Time option"

record BillingEvent =
  be_TenantID :: TenantID
  be_Action :: string
  be_FromPlan :: string
  be_ToPlan :: string
  be_Status :: Status
  be_CurrentPeriodEnd :: "Time option"

record pendingMutation =
  pe_id :: nat
  pe_staged :: Subscription

record SubService =
  ss_gracePeriod :: Duration
  ss_subscriptions :: "(TenantID, Subscription) gomap"
  ss_pending :: "(TenantID, pendingMutation) gomap"
  ss_next :: nat
  ss_closed :: "nat list"

record billingHookContext =
  hc_service :: nat
  hc_tenantID :: TenantID
  hc_pending :: nat

type_synonym hookChain = "billingHookContext list"

datatype hookOutcome = HookOK | HookError string | HookPanic

record subEnv =
  se_ctx :: "nat \<Rightarrow> ctx"
  se_now :: "nat \<Rightarrow> Time"
  se_other :: "nat \<Rightarrow> SubService \<Rightarrow> SubService"
  se_during :: "nat \<Rightarrow> nat \<Rightarrow> SubService \<Rightarrow> SubService"
  se_hook :: "(nat \<Rightarrow> BillingEvent \<Rightarrow> hookOutcome) option"

definition NewSubService :: "Duration \<Rightarrow> SubService" where
  "NewSubService grace = \<lparr>ss_gracePeriod = (if 0 < grace then grace else 0), ss_subscriptions = [],
     ss_pending = [], ss_next = 0, ss_closed = []\<rparr>"

section \<open>Validation\<close>

definition validStatus :: "Status \<Rightarrow> bool" where
  "validStatus status = (case status of StatusOther _ \<Rightarrow> False | _ \<Rightarrow> True)"

definition validateSubscription :: "Subscription \<Rightarrow> sub_error + unit" where
  "validateSubscription s =
     (if sb_TenantID s = [] \<or> sb_PlanID s = [] \<or> \<not> validStatus (sb_Status s) \<or> IsZero (sb_StartDate s)
      then Inl ErrInvalidSubscription else Inr ())"

definition timePointersEqual :: "Time option \<Rightarrow> Time option \<Rightarrow> bool" where
  "timePointersEqual a b = (case (a, b) of (Some x, Some y) \<Rightarrow> x = y | _ \<Rightarrow> a = None \<and> b = None)"

definition subscriptionsEqual :: "Subscription \<Rightarrow> Subscription \<Rightarrow> bool" where
  "subscriptionsEqual a b \<longleftrightarrow> sb_TenantID a = sb_TenantID b \<and> sb_PlanID a = sb_PlanID b
     \<and> sb_Status a = sb_Status b \<and> sb_StartDate a = sb_StartDate b
     \<and> timePointersEqual (sb_EndDate a) (sb_EndDate b)
     \<and> timePointersEqual (sb_CurrentPeriodEnd a) (sb_CurrentPeriodEnd b)
     \<and> timePointersEqual (sb_GracePeriodEnd a) (sb_GracePeriodEnd b)"

definition setPeriod :: "SubService \<Rightarrow> Time \<Rightarrow> Subscription \<Rightarrow> Subscription" where
  "setPeriod sv end_at s = s\<lparr>sb_CurrentPeriodEnd := Some end_at,
     sb_GracePeriodEnd := (if 0 < ss_gracePeriod sv then Some (end_at + ss_gracePeriod sv) else None)\<rparr>"

text \<open>
  The source dereferences \<open>CurrentPeriodEnd\<close>; \<open>subscriptionDue\<close> has checked that it is there.
\<close>

definition expirationDate :: "Subscription \<Rightarrow> Time" where
  "expirationDate s =
     (case sb_GracePeriodEnd s of Some t \<Rightarrow> t
      | None \<Rightarrow> (case sb_CurrentPeriodEnd s of Some t \<Rightarrow> t | None \<Rightarrow> 0))"

definition subscriptionDue :: "Subscription \<Rightarrow> Time \<Rightarrow> bool" where
  "subscriptionDue s now \<longleftrightarrow>
     sb_Status s = StatusActive \<and> sb_CurrentPeriodEnd s \<noteq> None \<and> \<not> now < expirationDate s"

section \<open>Locking, staging and finishing\<close>

definition subCtx :: "ctx \<Rightarrow> sub_error + unit" where
  "subCtx cx = (case cx of None \<Rightarrow> Inr () | Some e \<Rightarrow> Inl (SubCtx e))"

definition hasBillingHookMarker :: "hookChain \<Rightarrow> bool" where
  "hasBillingHookMarker chain \<longleftrightarrow> chain \<noteq> []"

text \<open>
  The \<open>select\<close> of \<open>lockMutation\<close>: it blocks until the context is done or the channel of the
  pending mutation \<open>p\<close> is closed, and looks at both each time the others have moved. It may block
  for ever: then the result is \<open>None\<close>. When both are ready the source may take either; a
  context that is done stays done, so that both end in its error.
\<close>

partial_function (option) waitDone ::
  "subEnv \<Rightarrow> nat \<Rightarrow> nat \<Rightarrow> SubService \<Rightarrow> (ctx_error option \<times> SubService \<times> nat) option"
where
  "waitDone w p k sv =
     (let sv1 = se_other w k sv in
      case se_ctx w k of
        Some e \<Rightarrow> Some (Some e, sv1, k + 1)
      | None \<Rightarrow> if p \<in> set (ss_closed sv1) then Some (None, sv1, k + 1)
               else waitDone w p (k + 1) sv1)"

text \<open>
  A round of the loop of \<open>lockMutation\<close> starts with the context and looks at the pending
  mutation under the lock; if there is one, it waits for the channel of that mutation and goes
  round again. On success the lock is held, so the caller's check and change of the returned
  state are one atomic step.
\<close>

partial_function (option) lockMutation ::
  "subEnv \<Rightarrow> hookChain \<Rightarrow> nat \<Rightarrow> TenantID \<Rightarrow> SubService
     \<Rightarrow> ((sub_error + unit) \<times> SubService \<times> nat) option"
where
  "lockMutation w chain k tid sv =
     (case se_ctx w k of
        Some e \<Rightarrow> Some (Inl (SubCtx e), sv, k + 1)
      | None \<Rightarrow>
          let sv1 = se_other w k sv in
          (case map_of (ss_pending sv1) tid of
             None \<Rightarrow> Some (Inr (), sv1, k + 1)
           | Some pending \<Rightarrow>
               if hasBillingHookMarker chain then Some (Inl ErrBillingHookReentrantMutation, sv1, k + 1)
               else (case waitDone w (pe_id pending) (k + 1) sv1 of
                       None \<Rightarrow> None
                     | Some (Some e, sv2, k2) \<Rightarrow> Some (Inl (SubCtx e), sv2, k2)
                     | Some (None, sv2, k2) \<Rightarrow> lockMutation w chain k2 tid sv2)))"

declare waitDone.simps [code] lockMutation.simps [code]

definition stageLocked :: "TenantID \<Rightarrow> Subscription \<Rightarrow> SubService \<Rightarrow> nat \<times> SubService" where
  "stageLocked tid staged sv =
     (ss_next sv,
      sv\<lparr>ss_pending := AList.update tid \<lparr>pe_id = ss_next sv, pe_staged = staged\<rparr> (ss_pending sv),
         ss_next := ss_next sv + 1\<rparr>)"

definition finishPending :: "TenantID \<Rightarrow> nat \<Rightarrow> bool \<Rightarrow> SubService \<Rightarrow> SubService" where
  "finishPending tid p commit sv =
     (case map_of (ss_pending sv) tid of
        None \<Rightarrow> sv
      | Some pending \<Rightarrow>
          if pe_id pending \<noteq> p then sv
          else sv\<lparr>ss_subscriptions :=
                    (if commit then AList.update tid (pe_staged pending) (ss_subscriptions sv)
                     else ss_subscriptions sv),
                  ss_pending := AList.delete tid (ss_pending sv),
                  ss_closed := p # ss_closed sv\<rparr>)"

text \<open>A panic of the hook goes on after the rollback; it is an answer of its own here.\<close>

definition billingEmit :: "subEnv \<Rightarrow> nat \<Rightarrow> BillingEvent \<Rightarrow> sub_error + unit" where
  "billingEmit w k event =
     (case se_hook w of
        None \<Rightarrow> Inr ()
      | Some hook \<Rightarrow>
          (case hook k event of
             HookOK \<Rightarrow> Inr () | HookError text \<Rightarrow> Inl (ErrBillingHook text)
           | HookPanic \<Rightarrow> Inl HookPanicked))"

definition runBillingHook ::
  "subEnv \<Rightarrow> nat \<Rightarrow> BillingEvent \<Rightarrow> TenantID \<Rightarrow> nat \<Rightarrow> SubService \<Rightarrow> (sub_error + unit) \<times> SubService"
where
  "runBillingHook w k event tid p sv =
     (let sv1 = se_during w k p sv in
      case billingEmit w k event of
        Inl e \<Rightarrow> (Inl e, finishPending tid p False sv1)
      | Inr _ \<Rightarrow> (Inr (), finishPending tid p True sv1))"

text \<open>The mark the hook's context carries, on top of the caller's marks.\<close>

definition hookContext :: "nat \<Rightarrow> TenantID \<Rightarrow> nat \<Rightarrow> hookChain \<Rightarrow> hookChain" where
  "hookContext me tid p chain = \<lparr>hc_service = me, hc_tenantID = tid, hc_pending = p\<rparr> # chain"

definition hookCanRead :: "nat \<Rightarrow> TenantID \<Rightarrow> nat \<Rightarrow> hookChain \<Rightarrow> bool" where
  "hookCanRead me tid p chain \<longleftrightarrow>
     list_ex (\<lambda>h. hc_service h = me \<and> hc_tenantID h = tid \<and> hc_pending h = p) chain"

section \<open>Mutations with a billing event\<close>

type_synonym 'a subResult = "((sub_error + 'a) \<times> SubService \<times> nat) option"

definition locked ::
  "((sub_error + unit) \<times> SubService \<times> nat) option \<Rightarrow> (SubService \<Rightarrow> nat \<Rightarrow> 'a subResult) \<Rightarrow> 'a subResult"
where
  "locked l body =
     (case l of
        None \<Rightarrow> None
      | Some (Inl e, sv, k) \<Rightarrow> Some (Inl e, sv, k)
      | Some (Inr _, sv, k) \<Rightarrow> body sv k)"

definition stageAndBill ::
  "subEnv \<Rightarrow> TenantID \<Rightarrow> sub_error + Subscription \<times> BillingEvent \<Rightarrow> SubService \<Rightarrow> nat
     \<Rightarrow> Subscription subResult"
where
  "stageAndBill w tid decision sv k =
     (case decision of
        Inl e \<Rightarrow> Some (Inl e, sv, k)
      | Inr (staged, event) \<Rightarrow>
          (case stageLocked tid staged sv of (p, sv1) \<Rightarrow>
             (case runBillingHook w k event tid p sv1 of
                (Inl e, sv2) \<Rightarrow> Some (Inl e, sv2, k + 1)
              | (Inr _, sv2) \<Rightarrow> Some (Inr staged, sv2, k + 1))))"

definition subscribeDecision ::
  "TenantID \<Rightarrow> string \<Rightarrow> Time option \<Rightarrow> Time \<Rightarrow> SubService \<Rightarrow> sub_error + Subscription \<times> BillingEvent"
where
  "subscribeDecision tid plan period now sv =
     (if map_of (ss_subscriptions sv) tid \<noteq> None then Inl ErrSubscriptionAlreadyExists
      else let s0 = \<lparr>sb_TenantID = tid, sb_PlanID = plan, sb_Status = StatusActive,
                     sb_StartDate = now, sb_EndDate = None, sb_CurrentPeriodEnd = None,
                     sb_GracePeriodEnd = None\<rparr>;
               s = (case period of None \<Rightarrow> s0 | Some t \<Rightarrow> setPeriod sv t s0)
           in Inr (s, \<lparr>be_TenantID = tid, be_Action = ''subscribe'', be_FromPlan = [],
                       be_ToPlan = plan, be_Status = sb_Status s,
                       be_CurrentPeriodEnd = sb_CurrentPeriodEnd s\<rparr>))"

definition subscribe ::
  "subEnv \<Rightarrow> hookChain \<Rightarrow> TenantID \<Rightarrow> string \<Rightarrow> Time option \<Rightarrow> SubService \<Rightarrow> Subscription subResult"
where
  "subscribe w chain tid plan period sv =
     (case subCtx (se_ctx w 0) of Inl e \<Rightarrow> Some (Inl e, sv, 0) | Inr _ \<Rightarrow>
      if tid = [] \<or> plan = [] then Some (Inl ErrInvalidSubscription, sv, 0)
      else locked (lockMutation w chain 1 tid sv) (\<lambda>sv1 k.
        stageAndBill w tid (subscribeDecision tid plan period (se_now w k) sv1) sv1 k))"

definition Sub_Subscribe where
  "Sub_Subscribe w chain tid plan sv = subscribe w chain tid plan None sv"

definition Sub_SubscribeWithPeriod where
  "Sub_SubscribeWithPeriod w chain tid plan period_end sv =
     (if IsZero period_end then Some (Inl ErrInvalidSubscription, sv, 0)
      else subscribe w chain tid plan (Some period_end) sv)"

text \<open>The decision of a mutation of an existing subscription.\<close>

definition onCurrent ::
  "TenantID \<Rightarrow> SubService \<Rightarrow> (Subscription \<Rightarrow> sub_error + Subscription \<times> BillingEvent)
     \<Rightarrow> sub_error + Subscription \<times> BillingEvent"
where
  "onCurrent tid sv f =
     (case map_of (ss_subscriptions sv) tid of
        None \<Rightarrow> Inl ErrSubscriptionNotFound | Some current \<Rightarrow> f current)"

definition unsubscribeDecision where
  "unsubscribeDecision tid now current =
     (if sb_Status current \<noteq> StatusActive then Inl ErrInvalidTransition
      else let s = current\<lparr>sb_Status := StatusCancelled, sb_EndDate := Some now\<rparr> in
        Inr (s, \<lparr>be_TenantID = tid, be_Action = ''unsubscribe'', be_FromPlan = sb_PlanID s,
                 be_ToPlan = [], be_Status = sb_Status s, be_CurrentPeriodEnd = None\<rparr>))"

definition renewDecision where
  "renewDecision tid sv period_end current =
     (if sb_Status current = StatusCancelled then Inl ErrInvalidTransition
      else let s = setPeriod sv period_end (current\<lparr>sb_Status := StatusActive, sb_EndDate := None\<rparr>) in
        Inr (s, \<lparr>be_TenantID = tid, be_Action = ''renew'', be_FromPlan = [], be_ToPlan = sb_PlanID s,
                 be_Status = sb_Status s, be_CurrentPeriodEnd = sb_CurrentPeriodEnd s\<rparr>))"

definition expireDecision where
  "expireDecision tid now current =
     (if sb_Status current \<noteq> StatusActive then Inl ErrInvalidTransition
      else let s = current\<lparr>sb_Status := StatusExpired, sb_EndDate := Some now\<rparr> in
        Inr (s, \<lparr>be_TenantID = tid, be_Action = ''expire'', be_FromPlan = sb_PlanID s, be_ToPlan = [],
                 be_Status = sb_Status s, be_CurrentPeriodEnd = sb_CurrentPeriodEnd s\<rparr>))"

definition changePlanDecision where
  "changePlanDecision tid plan action current =
     (if sb_Status current \<noteq> StatusActive then Inl ErrInvalidTransition
      else let s = current\<lparr>sb_PlanID := plan\<rparr> in
        Inr (s, \<lparr>be_TenantID = tid, be_Action = action, be_FromPlan = sb_PlanID current,
                 be_ToPlan = plan, be_Status = sb_Status s, be_CurrentPeriodEnd = None\<rparr>))"

definition mutation ::
  "subEnv \<Rightarrow> hookChain \<Rightarrow> TenantID \<Rightarrow> bool
     \<Rightarrow> (Time \<Rightarrow> SubService \<Rightarrow> Subscription \<Rightarrow> sub_error + Subscription \<times> BillingEvent)
     \<Rightarrow> SubService \<Rightarrow> Subscription subResult"
where
  "mutation w chain tid invalid decide sv =
     (case subCtx (se_ctx w 0) of Inl e \<Rightarrow> Some (Inl e, sv, 0) | Inr _ \<Rightarrow>
      if invalid then Some (Inl ErrInvalidSubscription, sv, 0)
      else locked (lockMutation w chain 1 tid sv) (\<lambda>sv1 k.
        stageAndBill w tid (onCurrent tid sv1 (decide (se_now w k) sv1)) sv1 k))"

definition Sub_Unsubscribe where
  "Sub_Unsubscribe w chain tid =
     mutation w chain tid False (\<lambda>now sv. unsubscribeDecision tid now)"

definition Sub_Renew where
  "Sub_Renew w chain tid period_end =
     mutation w chain tid (tid = [] \<or> IsZero period_end) (\<lambda>now sv. renewDecision tid sv period_end)"

definition Sub_Expire where
  "Sub_Expire w chain tid = mutation w chain tid (tid = []) (\<lambda>now sv. expireDecision tid now)"

definition changePlan where
  "changePlan w chain tid plan action =
     mutation w chain tid (tid = [] \<or> plan = []) (\<lambda>now sv. changePlanDecision tid plan action)"

definition Sub_Upgrade where
  "Sub_Upgrade w chain tid plan = changePlan w chain tid plan ''upgrade''"

definition Sub_Downgrade where
  "Sub_Downgrade w chain tid plan = changePlan w chain tid plan ''downgrade''"

section \<open>Expiration of what is due\<close>

definition dueTenants :: "Time \<Rightarrow> SubService \<Rightarrow> TenantID list" where
  "dueTenants now sv =
     sort (map fst (filter (\<lambda>(tid, s). subscriptionDue s now) (ss_subscriptions sv)))"

definition dueExpiry :: "TenantID \<Rightarrow> Subscription \<Rightarrow> Subscription \<times> BillingEvent" where
  "dueExpiry tid current =
     (let s0 = current\<lparr>sb_Status := StatusExpired\<rparr>;
          s = s0\<lparr>sb_EndDate := Some (expirationDate s0)\<rparr>
      in (s, \<lparr>be_TenantID = tid, be_Action = ''expire'', be_FromPlan = sb_PlanID s, be_ToPlan = [],
              be_Status = sb_Status s, be_CurrentPeriodEnd = sb_CurrentPeriodEnd s\<rparr>))"

text \<open>The answer is what has been expired so far, and the error that ended the loop early.\<close>

fun expireLoop ::
  "subEnv \<Rightarrow> hookChain \<Rightarrow> Time \<Rightarrow> TenantID list \<Rightarrow> nat \<Rightarrow> SubService
     \<Rightarrow> ((Subscription list \<times> sub_error option) \<times> SubService \<times> nat) option"
where
  "expireLoop w chain now [] k sv = Some (([], None), sv, k)"
| "expireLoop w chain now (tid # tids) k sv =
     (case lockMutation w chain k tid sv of
        None \<Rightarrow> None
      | Some (Inl e, sv1, k1) \<Rightarrow> Some (([], Some e), sv1, k1)
      | Some (Inr _, sv1, k1) \<Rightarrow>
          (case map_of (ss_subscriptions sv1) tid of
             None \<Rightarrow> expireLoop w chain now tids k1 sv1
           | Some current \<Rightarrow>
               if \<not> subscriptionDue current now then expireLoop w chain now tids k1 sv1
               else (case stageAndBill w tid (Inr (dueExpiry tid current)) sv1 k1 of
                       None \<Rightarrow> None
                     | Some (Inl e, sv2, k2) \<Rightarrow> Some (([], Some e), sv2, k2)
                     | Some (Inr s, sv2, k2) \<Rightarrow>
                         map_option (\<lambda>((expired, err), rest). ((s # expired, err), rest))
                           (expireLoop w chain now tids k2 sv2))))"

definition Sub_ExpireDue ::
  "subEnv \<Rightarrow> hookChain \<Rightarrow> SubService
     \<Rightarrow> ((Subscription list \<times> sub_error option) \<times> SubService \<times> nat) option"
where
  "Sub_ExpireDue w chain sv =
     (case subCtx (se_ctx w 0) of Inl e \<Rightarrow> Some (([], Some e), sv, 0) | Inr _ \<Rightarrow>
      let sv1 = se_other w 0 sv; now = se_now w 0 in
      expireLoop w chain now (dueTenants now sv1) 1 sv1)"

section \<open>The store interface\<close>

definition onCommitted :: "TenantID \<Rightarrow> SubService \<Rightarrow> sub_error + Subscription" where
  "onCommitted tid sv =
     (case map_of (ss_subscriptions sv) tid of None \<Rightarrow> Inl ErrSubscriptionNotFound | Some s \<Rightarrow> Inr s)"

definition Sub_Get ::
  "nat \<Rightarrow> ctx \<Rightarrow> hookChain \<Rightarrow> TenantID \<Rightarrow> SubService \<Rightarrow> sub_error + Subscription"
where
  "Sub_Get me cx chain tid sv =
     bind_ok (subCtx cx) (\<lambda>_.
       if tid = [] then Inl ErrInvalidSubscription
       else case map_of (ss_pending sv) tid of
         Some pending \<Rightarrow>
           if hookCanRead me tid (pe_id pending) chain then Inr (pe_staged pending)
           else onCommitted tid sv
       | None \<Rightarrow> onCommitted tid sv)"

text \<open>
  \<open>Create\<close>, \<open>Update\<close> and \<open>Delete\<close> work on the committed map, under the lock that
  \<open>lockMutation\<close> returns with.
\<close>

definition Sub_Create :: "subEnv \<Rightarrow> hookChain \<Rightarrow> Subscription \<Rightarrow> SubService \<Rightarrow> unit subResult" where
  "Sub_Create w chain s sv =
     (case subCtx (se_ctx w 0) of Inl e \<Rightarrow> Some (Inl e, sv, 0) | Inr _ \<Rightarrow>
      (case validateSubscription s of Inl e \<Rightarrow> Some (Inl e, sv, 0) | Inr _ \<Rightarrow>
       locked (lockMutation w chain 1 (sb_TenantID s) sv) (\<lambda>sv1 k.
         if map_of (ss_subscriptions sv1) (sb_TenantID s) \<noteq> None
         then Some (Inl ErrSubscriptionAlreadyExists, sv1, k)
         else Some (Inr (), sv1\<lparr>ss_subscriptions :=
                AList.update (sb_TenantID s) s (ss_subscriptions sv1)\<rparr>, k))))"

definition Sub_Update :: "subEnv \<Rightarrow> hookChain \<Rightarrow> Subscription \<Rightarrow> SubService \<Rightarrow> unit subResult" where
  "Sub_Update w chain s sv =
     (case subCtx (se_ctx w 0) of Inl e \<Rightarrow> Some (Inl e, sv, 0) | Inr _ \<Rightarrow>
      (case validateSubscription s of Inl e \<Rightarrow> Some (Inl e, sv, 0) | Inr _ \<Rightarrow>
       locked (lockMutation w chain 1 (sb_TenantID s) sv) (\<lambda>sv1 k.
         if map_of (ss_subscriptions sv1) (sb_TenantID s) = None
         then Some (Inl ErrSubscriptionNotFound, sv1, k)
         else Some (Inr (), sv1\<lparr>ss_subscriptions :=
                AList.update (sb_TenantID s) s (ss_subscriptions sv1)\<rparr>, k))))"

definition Sub_Delete :: "subEnv \<Rightarrow> hookChain \<Rightarrow> TenantID \<Rightarrow> SubService \<Rightarrow> unit subResult" where
  "Sub_Delete w chain tid sv =
     (case subCtx (se_ctx w 0) of Inl e \<Rightarrow> Some (Inl e, sv, 0) | Inr _ \<Rightarrow>
      if tid = [] then Some (Inl ErrInvalidSubscription, sv, 0)
      else locked (lockMutation w chain 1 tid sv) (\<lambda>sv1 k.
        if map_of (ss_subscriptions sv1) tid = None
        then Some (Inl ErrSubscriptionNotFound, sv1, k)
        else Some (Inr (), sv1\<lparr>ss_subscriptions :=
               AList.delete tid (ss_subscriptions sv1)\<rparr>, k)))"

section \<open>Listing\<close>

record SubListFilter =
  sf_TenantIDs :: "TenantID list"
  sf_PlanIDs :: "string list"
  sf_Statuses :: "Status list"
  sf_Limit :: int64
  sf_Offset :: int64

record SubPageFilter =
  sp_TenantIDs :: "TenantID list"
  sp_PlanIDs :: "string list"
  sp_Statuses :: "Status list"
  sp_Limit :: int64
  sp_Offset :: int64
  sp_Cursor :: TenantID

definition subFilterMatches :: "SubListFilter \<Rightarrow> Subscription \<Rightarrow> bool" where
  "subFilterMatches filt s \<longleftrightarrow>
     (sf_TenantIDs filt = [] \<or> list_ex (\<lambda>tid. sb_TenantID s = tid) (sf_TenantIDs filt))
     \<and> (sf_PlanIDs filt = [] \<or> list_ex (\<lambda>plan. sb_PlanID s = plan) (sf_PlanIDs filt))
     \<and> (sf_Statuses filt = [] \<or> list_ex (\<lambda>status. sb_Status s = status) (sf_Statuses filt))"

definition subFilterValidate :: "SubListFilter \<Rightarrow> sub_error + unit" where
  "subFilterValidate filt =
     (if sf_Limit filt < 0 \<or> sf_Offset filt < 0 then Inl ErrSubListFilter
      else if 0 < sf_Offset filt \<and> sf_Limit filt = 0 then Inl ErrSubListFilter
      else if list_ex (\<lambda>tid. tid = []) (sf_TenantIDs filt) then Inl ErrSubListFilter
      else if list_ex (\<lambda>plan. plan = []) (sf_PlanIDs filt) then Inl ErrSubListFilter
      else if list_ex (\<lambda>status. \<not> validStatus status) (sf_Statuses filt) then Inl ErrSubListFilter
      else Inr ())"

definition subPageListFilter :: "SubPageFilter \<Rightarrow> SubListFilter" where
  "subPageListFilter filt =
     \<lparr>sf_TenantIDs = sp_TenantIDs filt, sf_PlanIDs = sp_PlanIDs filt, sf_Statuses = sp_Statuses filt,
      sf_Limit = sp_Limit filt, sf_Offset = sp_Offset filt\<rparr>"

definition subPageValidate :: "SubPageFilter \<Rightarrow> sub_error + unit" where
  "subPageValidate filt =
     bind_ok (subFilterValidate (subPageListFilter filt)) (\<lambda>_.
       if sp_Cursor filt \<noteq> [] \<and> 0 < sp_Offset filt then Inl ErrSubListFilter else Inr ())"

definition pageSubscriptions :: "Subscription list \<Rightarrow> SubListFilter \<Rightarrow> Subscription list" where
  "pageSubscriptions rows filt = pageRows (sf_Offset filt) (sf_Limit filt) rows"

definition seekSubscriptions :: "Subscription list \<Rightarrow> TenantID \<Rightarrow> Subscription list" where
  "seekSubscriptions rows cursor = seekRows sb_TenantID cursor rows"

definition subList :: "SubListFilter \<Rightarrow> TenantID \<Rightarrow> SubService \<Rightarrow> Subscription list" where
  "subList filt cursor sv =
     pageSubscriptions
       (seekSubscriptions (sortRows sb_TenantID (subFilterMatches filt) (ss_subscriptions sv)) cursor) filt"

definition Sub_List :: "ctx \<Rightarrow> SubListFilter \<Rightarrow> SubService \<Rightarrow> sub_error + Subscription list" where
  "Sub_List cx filt sv =
     bind_ok (subCtx cx) (\<lambda>_. bind_ok (subFilterValidate filt) (\<lambda>_. Inr (subList filt [] sv)))"

definition Sub_ListPage :: "ctx \<Rightarrow> SubPageFilter \<Rightarrow> SubService \<Rightarrow> sub_error + Subscription list" where
  "Sub_ListPage cx filt sv =
     bind_ok (subCtx cx) (\<lambda>_. bind_ok (subPageValidate filt) (\<lambda>_.
       Inr (subList (subPageListFilter filt) (sp_Cursor filt) sv)))"

end
