(* ===== verification/Subscription_Guarantees.thy ===== *)
theory Subscription_Guarantees
  imports Subscription
begin

text \<open>
  What the subscription service guarantees: its commands are runs of small steps under the
  lock, a staged mutation is committed whole or not at all, a status only moves along the
  lifecycle, a call waits only while a mutation of its tenant is pending and is woken by the end of
  that mutation, and \<open>ExpireDue\<close> expires what is due.
\<close>

section \<open>Steps of the service\<close>

text \<open>The changes a command of the service may stage for a committed subscription.\<close>

inductive sub_edge :: "Subscription option \<Rightarrow> Subscription \<Rightarrow> bool" where
  subscribed: "sb_Status s = StatusActive \<Longrightarrow> sb_EndDate s = None \<Longrightarrow> sub_edge None s"
| cancelled: "sb_Status c = StatusActive \<Longrightarrow>
    sub_edge (Some c) (c\<lparr>sb_Status := StatusCancelled, sb_EndDate := Some t\<rparr>)"
| renewed: "sb_Status c \<noteq> StatusCancelled \<Longrightarrow>
    sub_edge (Some c) (c\<lparr>sb_Status := StatusActive, sb_EndDate := None,
      sb_CurrentPeriodEnd := Some t, sb_GracePeriodEnd := g\<rparr>)"
| expired: "sb_Status c = StatusActive \<Longrightarrow>
    sub_edge (Some c) (c\<lparr>sb_Status := StatusExpired, sb_EndDate := Some t\<rparr>)"
| changed: "sb_Status c = StatusActive \<Longrightarrow> sub_edge (Some c) (c\<lparr>sb_PlanID := plan\<rparr>)"

inductive_cases sub_edge_SomeE: "sub_edge (Some c) s"

text \<open>
  A step under the lock. \<open>mine\<close> are pending mutations that only their owner finishes; the
  raw writes of the \<open>Store\<close> interface are there when \<open>raw\<close> is set.
\<close>

inductive sub_step :: "bool \<Rightarrow> nat set \<Rightarrow> SubService \<Rightarrow> SubService \<Rightarrow> bool" for raw mine where
  put: "raw \<Longrightarrow> map_of (ss_pending sv) (sb_TenantID s) = None \<Longrightarrow>
    sub_step raw mine sv
      (sv\<lparr>ss_subscriptions := AList.update (sb_TenantID s) s (ss_subscriptions sv)\<rparr>)"
| drop: "raw \<Longrightarrow> map_of (ss_pending sv) tid = None \<Longrightarrow>
    sub_step raw mine sv (sv\<lparr>ss_subscriptions := AList.delete tid (ss_subscriptions sv)\<rparr>)"
| stage: "map_of (ss_pending sv) tid = None \<Longrightarrow> sb_TenantID s = tid \<Longrightarrow>
    sub_edge (map_of (ss_subscriptions sv) tid) s \<Longrightarrow> sub_step raw mine sv (snd (stageLocked tid s sv))"
| finish: "p \<notin> mine \<Longrightarrow> sub_step raw mine sv (finishPending tid p commit sv)"

abbreviation sub_runs :: "bool \<Rightarrow> SubService \<Rightarrow> SubService \<Rightarrow> bool" where
  "sub_runs raw \<equiv> (sub_step raw {})\<^sup>*\<^sup>*"

text \<open>What the others do: such steps, and while a hook runs they leave its mutation alone.\<close>

definition subRely :: "bool \<Rightarrow> subEnv \<Rightarrow> bool" where
  "subRely raw w \<longleftrightarrow> (\<forall>k sv. sub_runs raw sv (se_other w k sv))
     \<and> (\<forall>k p sv. (sub_step raw {p})\<^sup>*\<^sup>* sv (se_during w k p sv))"

definition sub_inv :: "SubService \<Rightarrow> bool" where
  "sub_inv sv \<longleftrightarrow> keyed_map sb_TenantID (ss_subscriptions sv) \<and> wf_map (ss_pending sv)
     \<and> (\<forall>tid pe. map_of (ss_pending sv) tid = Some pe \<longrightarrow>
          pe_id pe < ss_next sv \<and> sb_TenantID (pe_staged pe) = tid
          \<and> sub_edge (map_of (ss_subscriptions sv) tid) (pe_staged pe))"

lemma sub_invD:
  "sub_inv sv \<Longrightarrow> map_of (ss_subscriptions sv) tid = Some s \<Longrightarrow> sb_TenantID s = tid"
  "sub_inv sv \<Longrightarrow> map_of (ss_pending sv) tid = Some pe \<Longrightarrow>
     sub_edge (map_of (ss_subscriptions sv) tid) (pe_staged pe) \<and> sb_TenantID (pe_staged pe) = tid"
  by (auto simp: sub_inv_def keyed_map_def)

lemma sub_inv_new: "sub_inv (NewSubService grace)"
  by (simp add: sub_inv_def NewSubService_def)

lemma finishPending_other:
  "map_of (ss_pending sv) tid = Some pe \<Longrightarrow> pe_id pe \<noteq> p \<Longrightarrow> finishPending tid p b sv = sv"
  "map_of (ss_pending sv) tid = None \<Longrightarrow> finishPending tid p b sv = sv"
  by (simp_all add: finishPending_def)

lemma finishPending_mine:
  "map_of (ss_pending sv) tid = Some pe \<Longrightarrow> pe_id pe = p \<Longrightarrow>
     ss_pending (finishPending tid p b sv) = AList.delete tid (ss_pending sv)
     \<and> map_of (ss_subscriptions (finishPending tid p b sv))
         = (if b then (map_of (ss_subscriptions sv))(tid \<mapsto> pe_staged pe) else map_of (ss_subscriptions sv))"
  by (simp add: finishPending_def)

lemma sub_step_inv: "sub_step raw mine sv sv' \<Longrightarrow> sub_inv sv \<Longrightarrow> sub_inv sv'"
proof (induction rule: sub_step.induct)
  case (finish p sv tid commit)
  then show ?case
    by (auto simp: sub_inv_def finishPending_def keyed_map_update simp del: map_of_eq_Some_iff
        split: option.splits if_splits)
qed (auto simp: sub_inv_def stageLocked_def keyed_map_update keyed_map_delete less_Suc_eq
    simp del: map_of_eq_Some_iff)

lemma sub_steps_inv: "(sub_step raw mine)\<^sup>*\<^sup>* sv sv' \<Longrightarrow> sub_inv sv \<Longrightarrow> sub_inv sv'"
  by (induction rule: rtranclp_induct) (auto intro: sub_step_inv)

lemma sub_step_mono: "sub_step raw mine sv sv' \<Longrightarrow> sub_step raw {} sv sv'"
  by (induction rule: sub_step.induct) (auto intro: sub_step.intros)

lemma sub_steps_mono: "(sub_step raw mine)\<^sup>*\<^sup>* sv sv' \<Longrightarrow> sub_runs raw sv sv'"
  by (rule rtranclp_mono [THEN predicate2D]) (auto intro: sub_step_mono)

text \<open>While a mutation of mine is pending, the tenant's committed value is frozen.\<close>

lemma sub_step_frozen:
  "sub_step raw {p} sv sv' \<Longrightarrow> map_of (ss_pending sv) tid = Some pe \<Longrightarrow> pe_id pe = p \<Longrightarrow>
     map_of (ss_pending sv') tid = Some pe
     \<and> map_of (ss_subscriptions sv') tid = map_of (ss_subscriptions sv) tid"
proof (induction rule: sub_step.induct)
  case (finish q sv tid' commit)
  then show ?case by (auto simp: finishPending_def split: option.split)
qed (auto simp: stageLocked_def)

lemma sub_steps_frozen:
  "(sub_step raw {p})\<^sup>*\<^sup>* sv sv' \<Longrightarrow> map_of (ss_pending sv) tid = Some pe \<Longrightarrow> pe_id pe = p \<Longrightarrow>
     map_of (ss_pending sv') tid = Some pe
     \<and> map_of (ss_subscriptions sv') tid = map_of (ss_subscriptions sv) tid"
  by (induction rule: rtranclp_induct) (auto dest: sub_step_frozen)

section \<open>The lock\<close>

text \<open>What \<open>n\<close> looks from the moment \<open>k\<close> on find: the moves of the others alone.\<close>

fun looks :: "subEnv \<Rightarrow> nat \<Rightarrow> nat \<Rightarrow> SubService \<Rightarrow> SubService" where
  "looks w k 0 sv = sv"
| "looks w k (Suc n) sv = looks w (Suc k) n (se_other w k sv)"

lemma looks_add: "looks w (k + m) n (looks w k m sv) = looks w k (m + n) sv"
proof (induction m arbitrary: k sv)
  case (Suc m)
  from Suc.IH [of "Suc k" "se_other w k sv"] show ?case by (simp only: looks.simps add_Suc add_Suc_right)
qed simp

lemma looks_runs: "subRely raw w \<Longrightarrow> sub_runs raw sv (looks w k n sv)"
proof (induction n arbitrary: k sv)
  case (Suc n)
  then have "sub_runs raw sv (se_other w k sv)" by (simp add: subRely_def)
  moreover have "sub_runs raw (se_other w k sv) (looks w (Suc k) n (se_other w k sv))" using Suc by blast
  ultimately show ?case unfolding looks.simps by (rule rtranclp_trans)
qed simp

lemma waitDone_result:
  assumes wait: "waitDone w p k sv = Some y"
  shows "\<exists>n. fst (snd y) = looks w k (Suc n) sv \<and> snd (snd y) = k + Suc n
    \<and> (fst y = None \<longrightarrow> se_ctx w (k + n) = None \<and> p \<in> set (ss_closed (fst (snd y))))"
proof (rule waitDone.raw_induct [OF _ wait, where P = "\<lambda>w p k sv y.
    \<exists>n. fst (snd y) = looks w k (Suc n) sv \<and> snd (snd y) = k + Suc n
      \<and> (fst y = None \<longrightarrow> se_ctx w (k + n) = None \<and> p \<in> set (ss_closed (fst (snd y))))"])
  fix waitD w p k sv and y :: "ctx_error option \<times> SubService \<times> nat"
  assume IH: "\<And>w p k sv y. waitD w p k sv = Some y \<Longrightarrow>
      \<exists>n. fst (snd y) = looks w k (Suc n) sv \<and> snd (snd y) = k + Suc n
        \<and> (fst y = None \<longrightarrow> se_ctx w (k + n) = None \<and> p \<in> set (ss_closed (fst (snd y))))"
    and body: "(let sv1 = se_other w k sv in
      case se_ctx w k of
        Some e \<Rightarrow> Some (Some e, sv1, k + 1)
      | None \<Rightarrow> if p \<in> set (ss_closed sv1) then Some (None, sv1, k + 1)
               else waitD w p (k + 1) sv1) = Some y"
  show "\<exists>n. fst (snd y) = looks w k (Suc n) sv \<and> snd (snd y) = k + Suc n
      \<and> (fst y = None \<longrightarrow> se_ctx w (k + n) = None \<and> p \<in> set (ss_closed (fst (snd y))))"
  proof (cases "se_ctx w k = None \<and> p \<notin> set (ss_closed (se_other w k sv))")
    case True
    with body have "waitD w p (k + 1) (se_other w k sv) = Some y" by (simp add: Let_def)
    from IH [OF this] obtain n where "fst (snd y) = looks w (k + 1) (Suc n) (se_other w k sv)"
      "snd (snd y) = k + 1 + Suc n"
      "fst y = None \<longrightarrow> se_ctx w (k + 1 + n) = None \<and> p \<in> set (ss_closed (fst (snd y)))"
      by (elim exE conjE) (rule that)
    then show ?thesis by (intro exI [of _ "Suc n"]) simp
  next
    case False
    with body show ?thesis
      by (intro exI [of _ 0]) (auto simp: Let_def split: option.splits if_splits)
  qed
qed

lemma lockMutation_result:
  assumes lock: "lockMutation w chain k tid sv = Some y"
  shows "\<exists>n. fst (snd y) = looks w k n sv
    \<and> (fst y = Inr () \<longrightarrow> map_of (ss_pending (fst (snd y))) tid = None)"
proof (rule lockMutation.raw_induct [OF _ lock, where P = "\<lambda>w chain k tid sv y.
    \<exists>n. fst (snd y) = looks w k n sv
      \<and> (fst y = Inr () \<longrightarrow> map_of (ss_pending (fst (snd y))) tid = None)"])
  fix lockM w chain k tid sv and y :: "(sub_error + unit) \<times> SubService \<times> nat"
  assume IH: "\<And>w chain k tid sv y. lockM w chain k tid sv = Some y \<Longrightarrow>
      \<exists>n. fst (snd y) = looks w k n sv
        \<and> (fst y = Inr () \<longrightarrow> map_of (ss_pending (fst (snd y))) tid = None)"
    and body: "(case se_ctx w k of
      Some e \<Rightarrow> Some (Inl (SubCtx e), sv, k + 1)
    | None \<Rightarrow>
        let sv1 = se_other w k sv in
        (case map_of (ss_pending sv1) tid of
           None \<Rightarrow> Some (Inr (), sv1, k + 1)
         | Some pending \<Rightarrow>
             if hasBillingHookMarker chain then Some (Inl ErrBillingHookReentrantMutation, sv1, k + 1)
             else (case waitDone w (pe_id pending) (k + 1) sv1 of
                     None \<Rightarrow> None
                   | Some (Some e, sv2, k2) \<Rightarrow> Some (Inl (SubCtx e), sv2, k2)
                   | Some (None, sv2, k2) \<Rightarrow> lockM w chain k2 tid sv2))) = Some y"
  show "\<exists>n. fst (snd y) = looks w k n sv
      \<and> (fst y = Inr () \<longrightarrow> map_of (ss_pending (fst (snd y))) tid = None)"
  proof (cases "se_ctx w k = None \<and> \<not> hasBillingHookMarker chain
      \<and> map_of (ss_pending (se_other w k sv)) tid \<noteq> None")
    case True
    let ?sv1 = "se_other w k sv"
    from True obtain pe where pe: "map_of (ss_pending ?sv1) tid = Some pe" by blast
    with body True obtain e sv2 k2 where wd: "waitDone w (pe_id pe) (k + 1) ?sv1 = Some (e, sv2, k2)"
      by (cases "waitDone w (pe_id pe) (k + 1) ?sv1") (auto simp: Let_def)
    from waitDone_result [OF wd] obtain n where n: "sv2 = looks w (k + 1) (Suc n) ?sv1" "k2 = k + 1 + Suc n"
      by auto
    then have sv2: "sv2 = looks w k (n + 2) sv" "k2 = k + (n + 2)" by simp_all
    show ?thesis
    proof (cases e)
      case None
      with body True pe wd have "lockM w chain k2 tid sv2 = Some y" by (simp add: Let_def)
      from IH [OF this] obtain m where m: "fst (snd y) = looks w k2 m sv2"
        "fst y = Inr () \<longrightarrow> map_of (ss_pending (fst (snd y))) tid = None" by blast
      then have "fst (snd y) = looks w k (n + 2 + m) sv" unfolding sv2 by (simp only: looks_add)
      with m(2) show ?thesis by blast
    next
      case (Some err)
      with body True pe wd have "y = (Inl (SubCtx err), sv2, k2)" by (simp add: Let_def)
      with sv2 show ?thesis by (intro exI [of _ "n + 2"]) simp
    qed
  next
    case False
    then show ?thesis
    proof (cases "se_ctx w k")
      case None
      with False body show ?thesis
        by (intro exI [of _ 1]) (auto simp: Let_def split: option.splits if_splits)
    qed (use body in \<open>auto intro: exI [of _ 0]\<close>)
  qed
qed

lemma lockMutation_locked:
  assumes "lockMutation w chain k tid sv = Some (l, sv1, k1)"
  obtains n where "sv1 = looks w k n sv" "l = Inr () \<Longrightarrow> map_of (ss_pending sv1) tid = None"
  using lockMutation_result [OF assms] by auto

lemma lockMutation_ran:
  assumes "lockMutation w chain k tid sv = Some (l, sv1, k1)" "subRely raw w"
  shows "sub_runs raw sv sv1 \<and> (l = Inr () \<longrightarrow> map_of (ss_pending sv1) tid = None)"
  using lockMutation_locked [OF assms(1)] looks_runs [OF assms(2)] by metis

text \<open>
  No lost wake-up: a pending mutation stays as it is until its channel is closed, and a closed
  channel stays closed. So a call that waits for the channel returns when the tenant is free.
\<close>

lemma channel_step:
  "sub_step raw mine sv sv' \<Longrightarrow>
     map_of (ss_pending sv) tid = Some pe \<or> pe_id pe \<in> set (ss_closed sv) \<Longrightarrow>
     map_of (ss_pending sv') tid = Some pe \<or> pe_id pe \<in> set (ss_closed sv')"
proof (induction rule: sub_step.induct)
  case (finish q sv tid' commit)
  then show ?case by (auto simp: finishPending_def split: option.split)
qed (auto simp: stageLocked_def)

lemma channel_runs:
  "sub_runs raw sv sv' \<Longrightarrow>
     map_of (ss_pending sv) tid = Some pe \<or> pe_id pe \<in> set (ss_closed sv) \<Longrightarrow>
     map_of (ss_pending sv') tid = Some pe \<or> pe_id pe \<in> set (ss_closed sv')"
  by (induction rule: rtranclp_induct) (use channel_step in blast)+

lemma waitDone_wakes:
  assumes "subRely raw w"
  shows "map_of (ss_pending sv) tid = Some pe \<or> pe_id pe \<in> set (ss_closed sv) \<Longrightarrow>
    se_ctx w (k + n) \<noteq> None \<or> map_of (ss_pending (looks w k (Suc n) sv)) tid = None \<Longrightarrow>
    \<exists>e m. m \<le> n \<and> waitDone w (pe_id pe) k sv = Some (e, looks w k (Suc m) sv, k + Suc m)"
proof (induction n arbitrary: k sv)
  case 0
  have "map_of (ss_pending (se_other w k sv)) tid = Some pe \<or> pe_id pe \<in> set (ss_closed (se_other w k sv))"
    using assms 0(1) channel_runs [of raw sv "se_other w k sv" tid pe] by (simp add: subRely_def)
  with 0 show ?case
    by (cases "se_ctx w k") (auto simp: waitDone.simps [of w _ k] Let_def intro!: exI [of _ 0])
next
  case (Suc n)
  show ?case
  proof (cases "se_ctx w k = None \<and> pe_id pe \<notin> set (ss_closed (se_other w k sv))")
    case True
    have "map_of (ss_pending (se_other w k sv)) tid = Some pe \<or> pe_id pe \<in> set (ss_closed (se_other w k sv))"
      using assms Suc.prems(1) channel_runs [of raw sv "se_other w k sv" tid pe] by (simp add: subRely_def)
    from Suc.IH [OF this, of "Suc k"] Suc.prems(2) obtain e m where
      "m \<le> n" "waitDone w (pe_id pe) (Suc k) (se_other w k sv)
         = Some (e, looks w (Suc k) (Suc m) (se_other w k sv), Suc k + Suc m)" by auto
    with True show ?thesis
      by (intro exI [of _ e] exI [of _ "Suc m"]) (simp add: waitDone.simps [of w _ k] Let_def)
  next
    case False
    then show ?thesis
      by (cases "se_ctx w k") (auto simp: waitDone.simps [of w _ k] Let_def intro!: exI [of _ 0])
  qed
qed

lemma lockMutation_free:
  "map_of (ss_pending (se_other w k sv)) tid = None \<Longrightarrow> lockMutation w chain k tid sv \<noteq> None"
  by (subst lockMutation.simps) (auto simp: Let_def split: option.split)

lemma lockMutation_marker: "hasBillingHookMarker chain \<Longrightarrow> lockMutation w chain k tid sv \<noteq> None"
  by (subst lockMutation.simps) (auto simp: Let_def split: option.split)

lemma lockMutation_ends:
  assumes "subRely raw w"
  shows "se_ctx w (k + n) \<noteq> None \<or> map_of (ss_pending (looks w k (n + 1) sv)) tid = None
      \<and> map_of (ss_pending (looks w k (n + 2) sv)) tid = None \<Longrightarrow>
    lockMutation w chain k tid sv \<noteq> None"
proof (induction n arbitrary: k sv rule: less_induct)
  case (less n)
  let ?sv1 = "se_other w k sv"
  show ?case
  proof (cases "se_ctx w k = None \<and> \<not> hasBillingHookMarker chain \<and> map_of (ss_pending ?sv1) tid \<noteq> None")
    case True
    then obtain pe where pe: "map_of (ss_pending ?sv1) tid = Some pe" by blast
    have "n \<noteq> 0"
    proof
      assume "n = 0"
      with less.prems True show False by simp
    qed
    then obtain i where i: "n = Suc i" by (cases n) auto
    have "se_ctx w (k + 1 + i) \<noteq> None \<or> map_of (ss_pending (looks w (k + 1) (Suc i) ?sv1)) tid = None"
      using less.prems i by auto
    from waitDone_wakes [OF assms disjI1 [OF pe] this] obtain e m where m: "m \<le> i" and
      wd: "waitDone w (pe_id pe) (k + 1) ?sv1 = Some (e, looks w (k + 1) (Suc m) ?sv1, k + 1 + Suc m)"
      by blast
    let ?k2 = "k + (m + 2)" and ?sv2 = "looks w k (m + 2) sv"
    have rest: "lockMutation w chain ?k2 tid ?sv2 \<noteq> None" if "e = None"
    proof (cases "m = i")
      case True
      with that waitDone_result [OF wd] i have "se_ctx w (k + n) = None" by auto
      with less.prems i True have "map_of (ss_pending (se_other w ?k2 ?sv2)) tid = None"
        using looks_add [of w k "m + 2" 1 sv] by simp
      then show ?thesis by (rule lockMutation_free)
    next
      case False
      with m i have n: "n - (m + 2) < n" "m + 2 + (n - (m + 2)) = n" by simp_all
      have later: "looks w k (n + j) sv = looks w ?k2 (n - (m + 2) + j) ?sv2" for j
        using looks_add [of w k "m + 2" "n - (m + 2) + j" sv] n(2) by (metis add.assoc)
      have "?k2 + (n - (m + 2)) = k + n" using n(2) by linarith
      with less.prems have "se_ctx w (?k2 + (n - (m + 2))) \<noteq> None
          \<or> map_of (ss_pending (looks w ?k2 (n - (m + 2) + 1) ?sv2)) tid = None
            \<and> map_of (ss_pending (looks w ?k2 (n - (m + 2) + 2) ?sv2)) tid = None"
        unfolding later by (simp only:)
      then show ?thesis by (rule less.IH [OF n(1)])
    qed
    from True pe wd show ?thesis
      by (subst lockMutation.simps) (use rest in \<open>auto simp: Let_def split: option.split\<close>)
  next
    case False
    then show ?thesis
      by (subst lockMutation.simps) (auto simp: Let_def split: option.split)
  qed
qed

text \<open>And it does wait: while one mutation stays pending and its channel open, nothing is returned.\<close>

lemma waitDone_blocks:
  assumes "waitDone w p k sv = Some y" "\<And>n. se_ctx w n = None"
  shows "\<exists>n. p \<in> set (ss_closed (looks w k (Suc n) sv))"
proof -
  from waitDone_result [OF assms(1)] obtain n where "fst (snd y) = looks w k (Suc n) sv"
    "fst y = None \<longrightarrow> p \<in> set (ss_closed (fst (snd y)))" by (elim exE conjE) (rule that, simp_all)
  moreover have "fst y = None"
  proof (rule waitDone.raw_induct [OF _ assms(1), where P = "\<lambda>v p k sv y. v = w \<longrightarrow> fst y = None",
        THEN mp, OF _ refl])
    fix waitD v q j s and z :: "ctx_error option \<times> SubService \<times> nat"
    assume "\<And>v p k sv y. waitD v p k sv = Some y \<Longrightarrow> v = w \<longrightarrow> fst y = None"
      and "(let sv1 = se_other v j s in
        case se_ctx v j of
          Some e \<Rightarrow> Some (Some e, sv1, j + 1)
        | None \<Rightarrow> if q \<in> set (ss_closed sv1) then Some (None, sv1, j + 1)
                 else waitD v q (j + 1) sv1) = Some z"
    then show "v = w \<longrightarrow> fst z = None"
      using assms(2) by (auto simp: Let_def split: if_splits option.splits)
  qed
  ultimately show ?thesis by auto
qed

definition blockedOn :: "subEnv \<Rightarrow> hookChain \<Rightarrow> TenantID \<Rightarrow> pendingMutation \<Rightarrow> SubService \<Rightarrow> bool" where
  "blockedOn w chain tid pe sv \<longleftrightarrow> \<not> hasBillingHookMarker chain \<and> (\<forall>n. se_ctx w n = None)
     \<and> (\<forall>n. map_of (ss_pending (looks w 1 (Suc n) sv)) tid = Some pe
            \<and> pe_id pe \<notin> set (ss_closed (looks w 1 (Suc n) sv)))"

lemma lockMutation_blocks: "blockedOn w chain tid pe sv \<Longrightarrow> lockMutation w chain 1 tid sv = None"
proof -
  assume b: "blockedOn w chain tid pe sv"
  have "\<And>n. pe_id pe \<notin> set (ss_closed (looks w (Suc 1) (Suc n) (se_other w 1 sv)))"
    using b unfolding blockedOn_def by (metis looks.simps(2))
  then have "waitDone w (pe_id pe) (Suc 1) (se_other w 1 sv) = None"
    using waitDone_blocks [of w "pe_id pe" "Suc 1" "se_other w 1 sv"] b
    by (cases "waitDone w (pe_id pe) (Suc 1) (se_other w 1 sv)") (auto simp: blockedOn_def)
  moreover have "map_of (ss_pending (se_other w 1 sv)) tid = Some pe"
    using b by (auto simp: blockedOn_def dest: spec [of _ "0 :: nat"])
  ultimately show ?thesis using b by (subst lockMutation.simps) (simp add: Let_def blockedOn_def)
qed

section \<open>Staging and billing\<close>

lemma rely_during:
  assumes "subRely raw w" "map_of (ss_pending sv) tid = Some pe" "pe_id pe = p"
  shows "sub_runs raw sv (se_during w k p sv) \<and> map_of (ss_pending (se_during w k p sv)) tid = Some pe
    \<and> map_of (ss_subscriptions (se_during w k p sv)) tid = map_of (ss_subscriptions sv) tid"
proof -
  have r: "(sub_step raw {p})\<^sup>*\<^sup>* sv (se_during w k p sv)" using assms(1) by (simp add: subRely_def)
  then show ?thesis using sub_steps_frozen [OF r assms(2,3)] sub_steps_mono [OF r] by simp
qed

lemma stageLocked_simps:
  "fst (stageLocked tid s sv) = ss_next sv"
  "map_of (ss_pending (snd (stageLocked tid s sv))) tid = Some \<lparr>pe_id = ss_next sv, pe_staged = s\<rparr>"
  "ss_subscriptions (snd (stageLocked tid s sv)) = ss_subscriptions sv"
  by (simp_all add: stageLocked_def)

definition stagedState :: "subEnv \<Rightarrow> TenantID \<Rightarrow> Subscription \<Rightarrow> SubService \<Rightarrow> nat \<Rightarrow> SubService" where
  "stagedState w tid s sv k = se_during w k (ss_next sv) (snd (stageLocked tid s sv))"

lemma stageAndBill_Inr:
  "stageAndBill w tid (Inr (s, ev)) sv k =
     Some (case billingEmit w k ev of
             Inl e \<Rightarrow> (Inl e, finishPending tid (ss_next sv) False (stagedState w tid s sv k), k + 1)
           | Inr _ \<Rightarrow> (Inr s, finishPending tid (ss_next sv) True (stagedState w tid s sv k), k + 1))"
  by (simp add: stageAndBill_def stageLocked_def runBillingHook_def stagedState_def Let_def split: sum.split)

lemma stagedState_frozen:
  assumes "subRely raw w"
  shows "sub_runs raw (snd (stageLocked tid s sv)) (stagedState w tid s sv k)"
    "map_of (ss_pending (stagedState w tid s sv k)) tid = Some \<lparr>pe_id = ss_next sv, pe_staged = s\<rparr>"
    "map_of (ss_subscriptions (stagedState w tid s sv k)) tid = map_of (ss_subscriptions sv) tid"
  using rely_during [OF assms, of "snd (stageLocked tid s sv)" tid]
  by (simp_all add: stageLocked_simps stagedState_def)

lemma stageAndBill_result:
  assumes "stageAndBill w tid dec sv k = Some (r, sv', k')" "subRely raw w"
    and "map_of (ss_pending sv) tid = None"
  shows "case r of
      Inl e \<Rightarrow> sv' = sv
        \<or> map_of (ss_subscriptions sv') tid = map_of (ss_subscriptions sv) tid
          \<and> map_of (ss_pending sv') tid = None
          \<and> (\<exists>s ev. dec = Inr (s, ev) \<and> billingEmit w k ev = Inl e)
    | Inr s \<Rightarrow> map_of (ss_pending sv') tid = None \<and> map_of (ss_subscriptions sv') tid = Some s
        \<and> (\<exists>ev. dec = Inr (s, ev) \<and> billingEmit w k ev = Inr ())"
proof (cases dec)
  case (Inr d)
  then obtain s ev where d: "dec = Inr (s, ev)" by (metis surj_pair)
  note st = stagedState_frozen [OF assms(2), of tid s sv k]
  show ?thesis
    using assms(1) st finishPending_mine [OF st(2)]
    by (auto simp: d stageAndBill_Inr split: sum.splits)
qed (use assms in \<open>auto simp: stageAndBill_def\<close>)

lemma stageAndBill_runs:
  assumes "stageAndBill w tid dec sv k = Some (r, sv', k')" "subRely raw w"
    and none: "map_of (ss_pending sv) tid = None"
    and edge: "\<And>s ev. dec = Inr (s, ev) \<Longrightarrow>
      sb_TenantID s = tid \<and> sub_edge (map_of (ss_subscriptions sv) tid) s"
  shows "sub_runs raw sv sv'"
proof (cases dec)
  case (Inr d)
  then obtain s ev where d: "dec = Inr (s, ev)" by (metis surj_pair)
  have "sub_step raw {} sv (snd (stageLocked tid s sv))" using none edge [OF d] by (intro stage) simp_all
  also have "sub_runs raw \<dots> (stagedState w tid s sv k)" using stagedState_frozen(1) [OF assms(2)] .
  finally have run: "sub_runs raw sv (stagedState w tid s sv k)"
    by (simp add: converse_rtranclp_into_rtranclp)
  have "sub_runs raw sv (finishPending tid (ss_next sv) b (stagedState w tid s sv k))" for b
    using run finish by (rule rtranclp.rtrancl_into_rtrancl) simp
  with assms(1) show ?thesis by (auto simp: d stageAndBill_Inr split: sum.splits)
qed (use assms in \<open>auto simp: stageAndBill_def\<close>)

section \<open>Commands\<close>

text \<open>
  \<open>committedAs\<close>: the command decided on the state \<open>sv1\<close> that the others alone had made of the
  state it started from, and in which no mutation of the tenant was pending when it succeeded.
  When it succeeds, what it returns is its decision on that state, the hook accepted the event of
  that decision, and it is now committed, with nothing pending; when it fails, what is committed
  for the tenant is what the others had left there, and if its decision was staged and refused by
  the hook, nothing is left pending either.
\<close>

definition committedAs ::
  "subEnv \<Rightarrow> TenantID \<Rightarrow> (Time \<Rightarrow> SubService \<Rightarrow> sub_error + Subscription \<times> BillingEvent)
     \<Rightarrow> SubService \<Rightarrow> Subscription subResult \<Rightarrow> bool"
where
  "committedAs w tid D sv res \<longleftrightarrow> (\<forall>r sv' k'. res = Some (r, sv', k') \<longrightarrow>
     (\<exists>n. let sv1 = looks w 1 n sv in
        (case r of
           Inl e \<Rightarrow> sv' = sv1
             \<or> map_of (ss_subscriptions sv') tid = map_of (ss_subscriptions sv1) tid
               \<and> map_of (ss_pending sv') tid = None
               \<and> (\<exists>k s ev. D (se_now w k) sv1 = Inr (s, ev) \<and> billingEmit w k ev = Inl e)
         | Inr s \<Rightarrow> map_of (ss_pending sv1) tid = None
             \<and> (\<exists>k ev. D (se_now w k) sv1 = Inr (s, ev) \<and> billingEmit w k ev = Inr ())
             \<and> map_of (ss_subscriptions sv') tid = Some s \<and> map_of (ss_pending sv') tid = None)))"

definition ranAs :: "bool \<Rightarrow> SubService \<Rightarrow> ('r \<times> SubService \<times> nat) option \<Rightarrow> bool" where
  "ranAs raw sv res \<longleftrightarrow> (\<forall>r sv' k'. res = Some (r, sv', k') \<longrightarrow> sub_runs raw sv sv')"

text \<open>A decision that stages a lifecycle edge of its tenant.\<close>

definition decides ::
  "TenantID \<Rightarrow> (Time \<Rightarrow> SubService \<Rightarrow> sub_error + Subscription \<times> BillingEvent) \<Rightarrow> bool"
where
  "decides tid D \<longleftrightarrow> (\<forall>now sv s ev. sub_inv sv \<longrightarrow> D now sv = Inr (s, ev) \<longrightarrow>
     sb_TenantID s = tid \<and> sub_edge (map_of (ss_subscriptions sv) tid) s)"

named_theorems sub_decisions "decisions stage lifecycle edges"

lemma decides_subscribe [sub_decisions]: "decides tid (subscribeDecision tid plan period)"
  by (auto simp: decides_def subscribeDecision_def setPeriod_def Let_def intro!: sub_edge.intros
      split: if_splits option.splits)

lemma decides_current:
  assumes "\<And>now sv c s ev. decide now sv c = Inr (s, ev) \<Longrightarrow>
    sb_TenantID s = sb_TenantID c \<and> sub_edge (Some c) s"
  shows "decides tid (\<lambda>now sv. onCurrent tid sv (decide now sv))"
  unfolding decides_def onCurrent_def using assms sub_invD(1) by (fastforce split: option.splits)

lemma decides_mutations [sub_decisions]:
  "decides tid (\<lambda>now sv. onCurrent tid sv (unsubscribeDecision tid now))"
  "decides tid (\<lambda>now sv. onCurrent tid sv (renewDecision tid sv period_end))"
  "decides tid (\<lambda>now sv. onCurrent tid sv (expireDecision tid now))"
  "decides tid (\<lambda>now sv. onCurrent tid sv (changePlanDecision tid plan action))"
  by (rule decides_current;
      auto simp: unsubscribeDecision_def renewDecision_def expireDecision_def changePlanDecision_def
        setPeriod_def Let_def split: if_splits intro: sub_edge.intros)+

abbreviation lockedStage ::
  "subEnv \<Rightarrow> hookChain \<Rightarrow> TenantID \<Rightarrow> (Time \<Rightarrow> SubService \<Rightarrow> sub_error + Subscription \<times> BillingEvent)
     \<Rightarrow> SubService \<Rightarrow> Subscription subResult"
where
  "lockedStage w chain tid D sv \<equiv>
     locked (lockMutation w chain 1 tid sv) (\<lambda>sv1 k. stageAndBill w tid (D (se_now w k) sv1) sv1 k)"

lemma committedAs_error: "committedAs w tid D sv (Some (Inl e, sv, k))"
  by (auto simp: committedAs_def Let_def intro: exI [of _ 0])

lemma ranAs_error: "ranAs raw sv (Some (r, sv, k))"
  by (simp add: ranAs_def)

lemma lockedStage_committed:
  assumes rely: "subRely raw w"
  shows "committedAs w tid D sv (lockedStage w chain tid D sv)"
  unfolding committedAs_def
proof (intro allI impI)
  fix r sv' k'
  assume res: "lockedStage w chain tid D sv = Some (r, sv', k')"
  then obtain l sv1 k1 where l: "lockMutation w chain 1 tid sv = Some (l, sv1, k1)"
    by (cases "lockMutation w chain 1 tid sv") (auto simp: locked_def)
  from lockMutation_locked [OF l] obtain n where
    n: "sv1 = looks w 1 n sv" "l = Inr () \<Longrightarrow> map_of (ss_pending sv1) tid = None" by blast
  show "\<exists>n. let sv1 = looks w 1 n sv in
        (case r of
           Inl e \<Rightarrow> sv' = sv1
             \<or> map_of (ss_subscriptions sv') tid = map_of (ss_subscriptions sv1) tid
               \<and> map_of (ss_pending sv') tid = None
               \<and> (\<exists>k s ev. D (se_now w k) sv1 = Inr (s, ev) \<and> billingEmit w k ev = Inl e)
         | Inr s \<Rightarrow> map_of (ss_pending sv1) tid = None
             \<and> (\<exists>k ev. D (se_now w k) sv1 = Inr (s, ev) \<and> billingEmit w k ev = Inr ())
             \<and> map_of (ss_subscriptions sv') tid = Some s \<and> map_of (ss_pending sv') tid = None)"
  proof (cases l)
    case (Inr u)
    with l res have "stageAndBill w tid (D (se_now w k1) sv1) sv1 k1 = Some (r, sv', k')"
      by (simp add: locked_def)
    from stageAndBill_result [OF this rely] n(2) Inr show ?thesis
      unfolding n(1) by (intro exI [of _ n]) (auto simp: Let_def split: sum.splits)
  qed (use l res n in \<open>auto simp: locked_def Let_def intro: exI [of _ n]\<close>)
qed

lemma lockedStage_runs:
  assumes rely: "subRely raw w" and wf: "sub_inv sv" and "decides tid D"
  shows "ranAs raw sv (lockedStage w chain tid D sv)"
  unfolding ranAs_def
proof (intro allI impI)
  fix r sv' k'
  assume res: "lockedStage w chain tid D sv = Some (r, sv', k')"
  then obtain l sv1 k1 where l: "lockMutation w chain 1 tid sv = Some (l, sv1, k1)"
    by (cases "lockMutation w chain 1 tid sv") (auto simp: locked_def)
  note lr = lockMutation_ran [OF l rely]
  show "sub_runs raw sv sv'"
  proof (cases l)
    case (Inr u)
    with l res have b: "stageAndBill w tid (D (se_now w k1) sv1) sv1 k1 = Some (r, sv', k')"
      by (simp add: locked_def)
    have "sub_inv sv1" using lr wf by (blast intro: sub_steps_inv)
    with assms(3) have "sub_runs raw sv1 sv'"
      using lr Inr by (intro stageAndBill_runs [OF b rely]) (auto simp: decides_def)
    with lr show ?thesis by (blast intro: rtranclp_trans)
  qed (use l res lr in \<open>auto simp: locked_def\<close>)
qed

lemmas sub_commands = Sub_Subscribe_def Sub_SubscribeWithPeriod_def Sub_Unsubscribe_def Sub_Renew_def
  Sub_Expire_def Sub_Upgrade_def Sub_Downgrade_def changePlan_def

lemma subscribe_committed:
  "subRely raw w \<Longrightarrow>
     committedAs w tid (subscribeDecision tid plan period) sv (subscribe w chain tid plan period sv)"
  by (simp add: subscribe_def committedAs_error lockedStage_committed [unfolded One_nat_def] split: sum.split)

lemma mutation_committed:
  "subRely raw w \<Longrightarrow> committedAs w tid (\<lambda>now sv. onCurrent tid sv (decide now sv)) sv
     (mutation w chain tid invalid decide sv)"
  using lockedStage_committed [of raw w tid "\<lambda>now sv. onCurrent tid sv (decide now sv)" sv chain]
  by (simp add: mutation_def committedAs_error split: sum.split)

lemma subscribe_runs:
  "subRely raw w \<Longrightarrow> sub_inv sv \<Longrightarrow> ranAs raw sv (subscribe w chain tid plan period sv)"
  by (simp add: subscribe_def ranAs_error lockedStage_runs [unfolded One_nat_def] sub_decisions split: sum.split)

lemma mutation_runs:
  "subRely raw w \<Longrightarrow> sub_inv sv \<Longrightarrow> decides tid (\<lambda>now sv. onCurrent tid sv (decide now sv)) \<Longrightarrow>
     ranAs raw sv (mutation w chain tid invalid decide sv)"
  using lockedStage_runs [of raw w sv tid "\<lambda>now sv. onCurrent tid sv (decide now sv)" chain]
  by (simp add: mutation_def ranAs_error split: sum.split)

text \<open>
  C12. A billing mutation is all or nothing. Whatever other goroutines and the hook do, a command
  decides on the state that the others alone have made of the one it started from, at a moment at
  which no other mutation of the tenant was pending. When it succeeds, the subscription it returns
  is its decision on that state, the billing hook accepted its event, and it is the committed value
  with nothing left pending. When it fails, it has committed nothing: after a refused validation or
  decision or a done context the state is exactly what the others made, and after a hook that
  returned an error or panicked the tenant has the committed value it had before the staging, and
  nothing pending.
\<close>

theorem staged_mutation_atomic:
  assumes "subRely raw w"
  shows "committedAs w tid (subscribeDecision tid plan None) sv (Sub_Subscribe w chain tid plan sv)
    \<and> committedAs w tid (subscribeDecision tid plan (Some t)) sv
        (Sub_SubscribeWithPeriod w chain tid plan t sv)
    \<and> committedAs w tid (\<lambda>now sv. onCurrent tid sv (unsubscribeDecision tid now)) sv
        (Sub_Unsubscribe w chain tid sv)
    \<and> committedAs w tid (\<lambda>now sv. onCurrent tid sv (renewDecision tid sv t)) sv
        (Sub_Renew w chain tid t sv)
    \<and> committedAs w tid (\<lambda>now sv. onCurrent tid sv (expireDecision tid now)) sv
        (Sub_Expire w chain tid sv)
    \<and> committedAs w tid (\<lambda>now sv. onCurrent tid sv (changePlanDecision tid plan ''upgrade'')) sv
        (Sub_Upgrade w chain tid plan sv)
    \<and> committedAs w tid (\<lambda>now sv. onCurrent tid sv (changePlanDecision tid plan ''downgrade'')) sv
        (Sub_Downgrade w chain tid plan sv)"
  by (simp add: sub_commands committedAs_error subscribe_committed [OF assms] mutation_committed [OF assms])

section \<open>Runs of the service\<close>

lemma expireLoop_runs:
  "expireLoop w chain now tids k sv = Some ((rs, err), sv', k') \<Longrightarrow> subRely raw w \<Longrightarrow> sub_inv sv
     \<Longrightarrow> sub_runs raw sv sv'"
proof (induction tids arbitrary: k sv rs)
  case (Cons tid tids)
  from Cons.prems(1) obtain l sv1 k1 where l: "lockMutation w chain k tid sv = Some (l, sv1, k1)"
    by (cases "lockMutation w chain k tid sv") auto
  note lr = lockMutation_ran [OF l Cons.prems(2)]
  then have i1: "sub_inv sv1" using Cons.prems(3) by (blast intro: sub_steps_inv)
  have skip: "sub_runs raw sv sv'" if "expireLoop w chain now tids k1 sv1 = Some ((rs, err), sv', k')"
    using Cons.IH [OF that Cons.prems(2) i1] lr by (blast intro: rtranclp_trans)
  show ?case
  proof (cases "l = Inr () \<and> (\<exists>c. map_of (ss_subscriptions sv1) tid = Some c \<and> subscriptionDue c now)")
    case True
    then obtain c where c: "map_of (ss_subscriptions sv1) tid = Some c" "subscriptionDue c now" by blast
    from Cons.prems(1) l True c obtain r sv2 k2 where
      b: "stageAndBill w tid (Inr (dueExpiry tid c)) sv1 k1 = Some (r, sv2, k2)"
      by (cases "stageAndBill w tid (Inr (dueExpiry tid c)) sv1 k1") auto
    have edge: "sb_TenantID s = tid \<and> sub_edge (map_of (ss_subscriptions sv1) tid) s"
      if "Inr (dueExpiry tid c) = (Inr (s, ev) :: sub_error + Subscription \<times> BillingEvent)" for s ev
      using that c sub_invD(1) [OF i1 c(1)]
      by (auto simp: dueExpiry_def Let_def subscriptionDue_def intro: sub_edge.intros)
    have r2: "sub_runs raw sv1 sv2"
      using lr True by (intro stageAndBill_runs [OF b Cons.prems(2) _ edge]) simp_all
    then have i2: "sub_inv sv2" using i1 by (blast intro: sub_steps_inv)
    have all: "sub_runs raw sv sv2" using lr r2 by (blast intro: rtranclp_trans)
    show ?thesis
    proof (cases r)
      case (Inr s)
      with Cons.prems(1) l True c b obtain rs' where
        "expireLoop w chain now tids k2 sv2 = Some ((rs', err), sv', k')" by auto
      from Cons.IH [OF this Cons.prems(2) i2] all show ?thesis by (blast intro: rtranclp_trans)
    qed (use Cons.prems(1) l True c b all in auto)
  qed (use Cons.prems(1) l lr skip in \<open>auto split: sum.splits option.splits if_splits\<close>)
qed simp

lemma ExpireDue_runs:
  assumes "subRely raw w" "sub_inv sv"
  shows "ranAs raw sv (Sub_ExpireDue w chain sv)"
proof -
  have r: "sub_runs raw sv (se_other w 0 sv)" using assms(1) by (simp add: subRely_def)
  then have "sub_inv (se_other w 0 sv)" using assms(2) by (blast intro: sub_steps_inv)
  with r expireLoop_runs assms(1) show ?thesis
    by (fastforce simp: ranAs_def Sub_ExpireDue_def Let_def subCtx_def split: option.splits
        intro: rtranclp_trans)
qed

lemma locked_write:
  assumes "subRely True w"
    and "\<And>sv1 k r sv' k'. map_of (ss_pending sv1) tid = None \<Longrightarrow> body sv1 k = Some (r, sv', k') \<Longrightarrow>
      sub_runs True sv1 sv'"
  shows "ranAs True sv (locked (lockMutation w chain k tid sv) body)"
  unfolding ranAs_def
proof (intro allI impI)
  fix r sv' k'
  assume res: "locked (lockMutation w chain k tid sv) body = Some (r, sv', k')"
  then obtain l sv1 k1 where l: "lockMutation w chain k tid sv = Some (l, sv1, k1)"
    by (cases "lockMutation w chain k tid sv") (auto simp: locked_def)
  note lr = lockMutation_ran [OF l assms(1)]
  show "sub_runs True sv sv'"
    using res l lr assms(2) [of sv1 k1 _ sv' k']
    by (cases l) (auto simp: locked_def intro: rtranclp_trans)
qed

lemma write_runs:
  "map_of (ss_pending sv) (sb_TenantID s) = None \<Longrightarrow>
     sub_runs True sv (sv\<lparr>ss_subscriptions := AList.update (sb_TenantID s) s (ss_subscriptions sv)\<rparr>)"
  "map_of (ss_pending sv) tid = None \<Longrightarrow>
     sub_runs True sv (sv\<lparr>ss_subscriptions := AList.delete tid (ss_subscriptions sv)\<rparr>)"
  by (rule r_into_rtranclp, rule put drop, simp, assumption)+

lemma store_ranAs:
  assumes "subRely True w"
  shows "ranAs True sv (Sub_Create w chain s sv)" "ranAs True sv (Sub_Update w chain s sv)"
    "ranAs True sv (Sub_Delete w chain tid sv)"
  by (auto simp: Sub_Create_def Sub_Update_def Sub_Delete_def ranAs_error split: sum.split if_splits
      intro!: locked_write [OF assms] write_runs)

text \<open>
  Every command of the service is a run of steps under its lock, each of which finds no
  pending mutation of the tenant it writes or stages a lifecycle edge, whatever other goroutines and
  hooks do in such steps; and these steps keep the state well formed: a committed value and a
  pending mutation are filed under their own tenant, and what is staged is a lifecycle edge away
  from what is committed.
\<close>

theorem subscription_runs:
  assumes "subRely True w" "sub_inv sv"
  shows "ranAs True sv (Sub_Subscribe w chain tid plan sv)
    \<and> ranAs True sv (Sub_SubscribeWithPeriod w chain tid plan t sv)
    \<and> ranAs True sv (Sub_Unsubscribe w chain tid sv)
    \<and> ranAs True sv (Sub_Renew w chain tid t sv)
    \<and> ranAs True sv (Sub_Expire w chain tid sv)
    \<and> ranAs True sv (Sub_ExpireDue w chain sv)
    \<and> ranAs True sv (Sub_Upgrade w chain tid plan sv)
    \<and> ranAs True sv (Sub_Downgrade w chain tid plan sv)
    \<and> ranAs True sv (Sub_Create w chain s sv)
    \<and> ranAs True sv (Sub_Update w chain s sv)
    \<and> ranAs True sv (Sub_Delete w chain tid sv)
    \<and> (\<forall>sv'. sub_runs True sv sv' \<longrightarrow> sub_inv sv')"
  using sub_steps_inv [of True "{}" sv] assms
  by (simp add: sub_commands ranAs_error subscribe_runs mutation_runs sub_decisions ExpireDue_runs store_ranAs)

section \<open>The lifecycle of a subscription\<close>

abbreviation sub_path :: "Subscription \<Rightarrow> Subscription \<Rightarrow> bool" where
  "sub_path \<equiv> (\<lambda>a b. sub_edge (Some a) b)\<^sup>*\<^sup>*"

lemma sub_step_path:
  assumes "sub_step False mine sv sv'" "sub_inv sv" "map_of (ss_subscriptions sv) tid = Some c"
  shows "\<exists>c'. map_of (ss_subscriptions sv') tid = Some c' \<and> sub_path c c'"
  using assms
proof (cases rule: sub_step.cases)
  case (finish p tid' commit)
  then show ?thesis
    using assms sub_invD(2) [of sv tid]
    by (cases "tid' = tid") (auto simp: finishPending_def split: option.splits if_splits)
qed (use assms in \<open>auto simp: stageLocked_def\<close>)

lemma sub_runs_path:
  assumes "sub_runs False sv sv'" "sub_inv sv" "map_of (ss_subscriptions sv) tid = Some c"
  shows "\<exists>c'. map_of (ss_subscriptions sv') tid = Some c' \<and> sub_path c c'"
  using assms
proof (induction rule: rtranclp_induct)
  case (step sv1 sv2)
  then obtain c1 where c1: "map_of (ss_subscriptions sv1) tid = Some c1" "sub_path c c1" by blast
  have "sub_inv sv1" using step by (blast intro: sub_steps_inv)
  with sub_step_path [OF step(2) _ c1(1)] c1(2) show ?case by (blast intro: rtranclp_trans)
qed auto

lemma sub_path_keeps:
  "sub_path c c' \<Longrightarrow> sb_TenantID c' = sb_TenantID c \<and> sb_StartDate c' = sb_StartDate c
     \<and> (sb_Status c = StatusCancelled \<longrightarrow> c' = c)"
proof (induction rule: rtranclp_induct)
  case (step b d)
  then show ?case by (cases "sb_Status c = StatusCancelled") (auto elim!: sub_edge_SomeE)
qed simp

definition keptBy :: "TenantID \<Rightarrow> Subscription \<Rightarrow> ('r \<times> SubService \<times> nat) option \<Rightarrow> bool" where
  "keptBy tid c res \<longleftrightarrow> (\<forall>r sv' k'. res = Some (r, sv', k') \<longrightarrow>
     (\<exists>c'. map_of (ss_subscriptions sv') tid = Some c' \<and> sub_path c c'
        \<and> sb_TenantID c' = sb_TenantID c \<and> sb_StartDate c' = sb_StartDate c
        \<and> (sb_Status c = StatusCancelled \<longrightarrow> c' = c)))"

lemma ranAs_kept:
  "ranAs False sv res \<Longrightarrow> sub_inv sv \<Longrightarrow> map_of (ss_subscriptions sv) tid = Some c \<Longrightarrow> keptBy tid c res"
  unfolding ranAs_def keptBy_def using sub_runs_path sub_path_keeps by blast

text \<open>
  C35. Where subscriptions are written by the commands only, a tenant that has a subscription
  keeps one, with its start date, and what is committed for it moves along the lifecycle: active
  to cancelled or expired, active or expired back to active by a renewal, another plan only while
  active. A cancelled subscription is never changed again.
\<close>

theorem subscription_lifecycle:
  assumes "subRely False w" "sub_inv sv" "map_of (ss_subscriptions sv) t = Some c"
  shows "keptBy t c (Sub_Subscribe w chain tid plan sv)
    \<and> keptBy t c (Sub_SubscribeWithPeriod w chain tid plan when sv)
    \<and> keptBy t c (Sub_Unsubscribe w chain tid sv)
    \<and> keptBy t c (Sub_Renew w chain tid when sv)
    \<and> keptBy t c (Sub_Expire w chain tid sv)
    \<and> keptBy t c (Sub_ExpireDue w chain sv)
    \<and> keptBy t c (Sub_Upgrade w chain tid plan sv)
    \<and> keptBy t c (Sub_Downgrade w chain tid plan sv)"
  unfolding sub_commands
  by (intro conjI ranAs_kept [OF _ assms(2,3)])
     (simp_all add: assms ranAs_error subscribe_runs mutation_runs sub_decisions ExpireDue_runs)

section \<open>Waiting\<close>

lemma locked_some: "l \<noteq> None \<Longrightarrow> (\<And>sv1 k. body sv1 k \<noteq> None) \<Longrightarrow> locked l body \<noteq> None"
  by (auto simp: locked_def split: option.split sum.split)

lemma stageAndBill_returns: "stageAndBill w tid dec sv k \<noteq> None"
  by (simp add: stageAndBill_def split: sum.split prod.split)

lemma subCtx_simps [simp]: "subCtx None = Inr ()" "subCtx (Some e) = Inl (SubCtx e)"
  by (simp_all add: subCtx_def)

lemma subscribe_returns:
  assumes "lockMutation w chain 1 tid sv \<noteq> None"
  shows "subscribe w chain tid plan period sv \<noteq> None"
  using locked_some [OF assms stageAndBill_returns] unfolding subscribe_def by (simp split: sum.split del: not_None_eq One_nat_def)

lemma mutation_returns:
  assumes "lockMutation w chain 1 tid sv \<noteq> None"
  shows "mutation w chain tid invalid decide sv \<noteq> None"
  using locked_some [OF assms stageAndBill_returns] unfolding mutation_def by (simp split: sum.split del: not_None_eq One_nat_def)

lemma store_returns:
  "lockMutation w chain 1 (sb_TenantID s) sv \<noteq> None \<Longrightarrow> Sub_Create w chain s sv \<noteq> None"
  "lockMutation w chain 1 (sb_TenantID s) sv \<noteq> None \<Longrightarrow> Sub_Update w chain s sv \<noteq> None"
  "lockMutation w chain 1 tid sv \<noteq> None \<Longrightarrow> Sub_Delete w chain tid sv \<noteq> None"
  unfolding Sub_Create_def Sub_Update_def Sub_Delete_def
  by (simp split: sum.split del: not_None_eq One_nat_def; intro impI conjI allI locked_some; simp)+

text \<open>
  What lets a call go that waits for the lock of the tenant: it comes from a hook, its context is
  done at some look, or at two looks in a row the tenant has nothing pending - at the first one
  the channel the call waits for has been closed, at the second it finds the tenant free.
\<close>

definition letsGo :: "subEnv \<Rightarrow> hookChain \<Rightarrow> TenantID \<Rightarrow> SubService \<Rightarrow> bool" where
  "letsGo w chain tid sv \<longleftrightarrow> hasBillingHookMarker chain
     \<or> (\<exists>n. se_ctx w (1 + n) \<noteq> None
            \<or> map_of (ss_pending (looks w 1 (n + 1) sv)) tid = None
              \<and> map_of (ss_pending (looks w 1 (n + 2) sv)) tid = None)"

lemma letsGo_returns: "subRely raw w \<Longrightarrow> letsGo w chain tid sv \<Longrightarrow> lockMutation w chain 1 tid sv \<noteq> None"
  unfolding letsGo_def using lockMutation_marker lockMutation_ends by blast

text \<open>
  C36. A command of the service that waits for the lock of its tenant waits on the channel of the
  pending mutation, and no wake-up is lost: when the call comes from a hook, its context is done at
  some look, or the tenant has nothing pending at two looks in a row, the command returns, whatever
  mutations the others staged and ended in between (ending one closes its channel; a hook is taken
  to return or panic). And it does wait: while one mutation stays pending, its channel open and the
  context not done, it does not return.
\<close>

theorem waits_only_while_pending:
  assumes "subRely raw w"
  shows "(letsGo w chain tid sv \<and> sb_TenantID s = tid \<longrightarrow>
      Sub_Subscribe w chain tid plan sv \<noteq> None \<and> Sub_SubscribeWithPeriod w chain tid plan t sv \<noteq> None
      \<and> Sub_Unsubscribe w chain tid sv \<noteq> None \<and> Sub_Renew w chain tid t sv \<noteq> None
      \<and> Sub_Expire w chain tid sv \<noteq> None \<and> Sub_Upgrade w chain tid plan sv \<noteq> None
      \<and> Sub_Downgrade w chain tid plan sv \<noteq> None \<and> Sub_Create w chain s sv \<noteq> None
      \<and> Sub_Update w chain s sv \<noteq> None \<and> Sub_Delete w chain tid sv \<noteq> None)
    \<and> (blockedOn w chain tid pe sv \<longrightarrow> Sub_Unsubscribe w chain tid sv = None
        \<and> (tid \<noteq> [] \<longrightarrow> Sub_Expire w chain tid sv = None \<and> Sub_Delete w chain tid sv = None))"
proof (intro conjI impI; (elim conjE)?)
  assume "letsGo w chain tid sv" and s: "sb_TenantID s = tid"
  from letsGo_returns [OF assms this(1)] have l: "lockMutation w chain 1 tid sv \<noteq> None" .
  show "Sub_Subscribe w chain tid plan sv \<noteq> None" "Sub_SubscribeWithPeriod w chain tid plan t sv \<noteq> None"
    "Sub_Unsubscribe w chain tid sv \<noteq> None" "Sub_Renew w chain tid t sv \<noteq> None"
    "Sub_Expire w chain tid sv \<noteq> None" "Sub_Upgrade w chain tid plan sv \<noteq> None"
    "Sub_Downgrade w chain tid plan sv \<noteq> None"
    using subscribe_returns [OF l] mutation_returns [OF l] by (simp_all add: sub_commands)
  show "Sub_Create w chain s sv \<noteq> None" "Sub_Update w chain s sv \<noteq> None"
    "Sub_Delete w chain tid sv \<noteq> None"
    using store_returns l s by auto
next
  assume b: "blockedOn w chain tid pe sv"
  then have "lockMutation w chain 1 tid sv = None" "se_ctx w 0 = None"
    using lockMutation_blocks [OF b] by (simp_all add: blockedOn_def)
  then show "Sub_Unsubscribe w chain tid sv = None"
    "tid \<noteq> [] \<Longrightarrow> Sub_Expire w chain tid sv = None" "tid \<noteq> [] \<Longrightarrow> Sub_Delete w chain tid sv = None"
    by (simp_all add: sub_commands mutation_def Sub_Delete_def locked_def)
qed

section \<open>Expiration\<close>

text \<open>An environment in which nobody else runs, no context is done and the hook accepts.\<close>

definition quietFor :: "subEnv \<Rightarrow> bool" where
  "quietFor w \<longleftrightarrow> (\<forall>k. se_ctx w k = None) \<and> (\<forall>k sv. se_other w k sv = sv)
     \<and> (\<forall>k p sv. se_during w k p sv = sv) \<and> (\<forall>k ev. billingEmit w k ev = Inr ())"

definition expiredAt :: "Subscription \<Rightarrow> Subscription" where
  "expiredAt s = s\<lparr>sb_Status := StatusExpired, sb_EndDate := Some (expirationDate s)\<rparr>"

lemma dueExpiry_expired: "fst (dueExpiry tid s) = expiredAt s"
  by (simp add: dueExpiry_def expiredAt_def expirationDate_def Let_def split: option.split)

lemma dueTenants_set:
  "wf_map (ss_subscriptions sv) \<Longrightarrow> tid \<in> set (dueTenants now sv) \<longleftrightarrow>
     (\<exists>s. map_of (ss_subscriptions sv) tid = Some s \<and> subscriptionDue s now)"
  by (force simp: dueTenants_def)

lemma dueTenants_sorted:
  "wf_map (ss_subscriptions sv) \<Longrightarrow> sorted_wrt (<) (dueTenants now sv)"
  by (simp add: dueTenants_def strict_sorted_iff distinct_map_filter)

lemma quiet_lock:
  "quietFor w \<Longrightarrow> map_of (ss_pending sv) tid = None \<Longrightarrow> lockMutation w chain k tid sv = Some (Inr (), sv, k + 1)"
  by (subst lockMutation.simps) (simp add: quietFor_def)

lemma quiet_stage:
  assumes "quietFor w" "ss_pending sv = []"
  shows "stageAndBill w tid (Inr (s, ev)) sv k =
    Some (Inr s, sv\<lparr>ss_subscriptions := AList.update tid s (ss_subscriptions sv),
                   ss_next := ss_next sv + 1, ss_closed := ss_next sv # ss_closed sv\<rparr>, k + 1)"
  using assms
  by (simp add: stageAndBill_Inr quietFor_def stagedState_def stageLocked_def finishPending_def)

lemma expireLoop_quiet:
  assumes "quietFor w"
  shows "ss_pending sv = [] \<Longrightarrow> distinct tids \<Longrightarrow>
    \<forall>tid\<in>set tids. \<exists>s. map_of (ss_subscriptions sv) tid = Some s \<and> subscriptionDue s now \<Longrightarrow>
    \<exists>sv' k'. expireLoop w chain now tids k sv =
        Some ((map (\<lambda>tid. expiredAt (the (map_of (ss_subscriptions sv) tid))) tids, None), sv', k')
      \<and> ss_pending sv' = []
      \<and> map_of (ss_subscriptions sv') = (\<lambda>tid. if tid \<in> set tids
          then Some (expiredAt (the (map_of (ss_subscriptions sv) tid)))
          else map_of (ss_subscriptions sv) tid)"
proof (induction tids arbitrary: k sv)
  case (Cons tid tids)
  then obtain c where c: "map_of (ss_subscriptions sv) tid = Some c" "subscriptionDue c now" by auto
  obtain ev where ev: "dueExpiry tid c = (expiredAt c, ev)" by (metis dueExpiry_expired prod.collapse)
  let ?sv = "sv\<lparr>ss_subscriptions := AList.update tid (expiredAt c) (ss_subscriptions sv),
                ss_next := ss_next sv + 1, ss_closed := ss_next sv # ss_closed sv\<rparr>"
  have "\<exists>sv' k'. expireLoop w chain now tids (k + 2) ?sv =
        Some ((map (\<lambda>tid. expiredAt (the (map_of (ss_subscriptions ?sv) tid))) tids, None), sv', k')
      \<and> ss_pending sv' = []
      \<and> map_of (ss_subscriptions sv') = (\<lambda>tid. if tid \<in> set tids
          then Some (expiredAt (the (map_of (ss_subscriptions ?sv) tid)))
          else map_of (ss_subscriptions ?sv) tid)"
    by (rule Cons.IH) (use Cons.prems in auto)
  then obtain sv' k' where "expireLoop w chain now tids (k + 2) ?sv =
        Some ((map (\<lambda>tid. expiredAt (the (map_of (ss_subscriptions ?sv) tid))) tids, None), sv', k')"
      "ss_pending sv' = []"
      "map_of (ss_subscriptions sv') = (\<lambda>tid. if tid \<in> set tids
          then Some (expiredAt (the (map_of (ss_subscriptions ?sv) tid)))
          else map_of (ss_subscriptions ?sv) tid)" by blast
  then show ?case
    using Cons.prems c ev
    by (auto simp: quiet_lock [OF assms] quiet_stage [OF assms] fun_eq_iff intro!: exI)
qed auto

lemma expireLoop_only_due:
  "expireLoop w chain now tids k sv = Some ((rs, err), sv', k') \<Longrightarrow>
     \<forall>s\<in>set rs. sb_Status s = StatusExpired \<and> (\<exists>t\<le>now. sb_EndDate s = Some t)"
proof (induction tids arbitrary: k sv rs)
  case (Cons tid tids)
  have due: "sb_Status s = StatusExpired \<and> (\<exists>t\<le>now. sb_EndDate s = Some t)"
    if "stageAndBill w tid (Inr (dueExpiry tid c)) sv1 k1 = Some (Inr s, sv2, k2)" "subscriptionDue c now"
    for c sv1 k1 s sv2 k2
  proof -
    obtain ev where "dueExpiry tid c = (expiredAt c, ev)" by (metis dueExpiry_expired prod.collapse)
    with that have "s = expiredAt c" by (auto simp: stageAndBill_Inr split: sum.splits)
    with that(2) show ?thesis by (simp add: expiredAt_def subscriptionDue_def)
  qed
  from Cons.prems Cons.IH due show ?case
    by (fastforce split: option.splits sum.splits if_splits prod.splits)
qed simp

text \<open>
  \<open>ExpireDue\<close>, undisturbed, expires exactly the active subscriptions whose period and grace
  window have ended, once each and in the order of their tenants, with the end of that window as
  their end date, and changes nothing else. And in any surroundings, hooks that fail included, it
  reports only subscriptions that were due at the instant it started.
\<close>

theorem expire_due_exact:
  assumes "quietFor w" "sub_inv sv" "ss_pending sv = []"
  shows "(\<exists>rs sv' k'. Sub_ExpireDue w chain sv = Some ((rs, None), sv', k')
      \<and> sorted_wrt (<) (map sb_TenantID rs)
      \<and> set rs = {expiredAt s |s tid. map_of (ss_subscriptions sv) tid = Some s \<and> subscriptionDue s (se_now w 0)}
      \<and> ss_pending sv' = []
      \<and> (\<forall>tid. map_of (ss_subscriptions sv') tid
           = map_option (\<lambda>s. if subscriptionDue s (se_now w 0) then expiredAt s else s)
               (map_of (ss_subscriptions sv) tid)))
    \<and> (\<forall>v rs err sv' k'. Sub_ExpireDue v chain sv = Some ((rs, err), sv', k') \<longrightarrow>
         (\<forall>s\<in>set rs. sb_Status s = StatusExpired \<and> (\<exists>t\<le>se_now v 0. sb_EndDate s = Some t)))"
proof
  let ?m = "map_of (ss_subscriptions sv)" and ?now = "se_now w 0"
  have wf: "wf_map (ss_subscriptions sv)" using assms(2) unfolding sub_inv_def by (blast intro: keyed_map_wf)
  note due = dueTenants_set [OF wf, of _ ?now]
  have id: "sb_TenantID (expiredAt (the (?m tid))) = tid" if "tid \<in> set (dueTenants ?now sv)" for tid
    using that due sub_invD(1) [OF assms(2)] by (auto simp: expiredAt_def)
  obtain sv' k' where loop: "expireLoop w chain ?now (dueTenants ?now sv) 1 sv =
        Some ((map (\<lambda>tid. expiredAt (the (?m tid))) (dueTenants ?now sv), None), sv', k')"
      "ss_pending sv' = []"
      "map_of (ss_subscriptions sv') = (\<lambda>tid. if tid \<in> set (dueTenants ?now sv)
          then Some (expiredAt (the (?m tid))) else ?m tid)"
    using expireLoop_quiet [OF assms(1,3), of "dueTenants ?now sv" ?now chain 1] due
      dueTenants_sorted [OF wf] by (auto simp: strict_sorted_iff)
  let ?rs = "map (\<lambda>tid. expiredAt (the (?m tid))) (dueTenants ?now sv)"
  have "Sub_ExpireDue w chain sv = Some ((?rs, None), sv', k')"
    using loop(1) assms(1) by (simp add: Sub_ExpireDue_def quietFor_def)
  moreover have "map sb_TenantID ?rs = dueTenants ?now sv" using id by (simp add: map_idI)
  moreover have "set ?rs = {expiredAt s |s tid. ?m tid = Some s \<and> subscriptionDue s ?now}"
    using due by (force simp: image_iff)
  moreover have "map_of (ss_subscriptions sv') tid
      = map_option (\<lambda>s. if subscriptionDue s ?now then expiredAt s else s) (?m tid)" for tid
    using loop(3) due [of tid] by (cases "?m tid") auto
  ultimately show "\<exists>rs sv' k'. Sub_ExpireDue w chain sv = Some ((rs, None), sv', k')
      \<and> sorted_wrt (<) (map sb_TenantID rs)
      \<and> set rs = {expiredAt s |s tid. ?m tid = Some s \<and> subscriptionDue s ?now}
      \<and> ss_pending sv' = []
      \<and> (\<forall>tid. map_of (ss_subscriptions sv') tid
           = map_option (\<lambda>s. if subscriptionDue s ?now then expiredAt s else s) (?m tid))"
    using dueTenants_sorted [OF wf] loop(2)
    by (intro exI [of _ ?rs] exI [of _ sv'] exI [of _ k']) simp
next
  show "\<forall>v rs err sv' k'. Sub_ExpireDue v chain sv = Some ((rs, err), sv', k') \<longrightarrow>
         (\<forall>s\<in>set rs. sb_Status s = StatusExpired \<and> (\<exists>t\<le>se_now v 0. sb_EndDate s = Some t))"
  proof (intro allI impI)
    fix v rs err sv' k'
    assume "Sub_ExpireDue v chain sv = Some ((rs, err), sv', k')"
    then have "rs = [] \<or> expireLoop v chain (se_now v 0) (dueTenants (se_now v 0) (se_other v 0 sv)) 1
        (se_other v 0 sv) = Some ((rs, err), sv', k')"
      by (cases "se_ctx v 0") (auto simp: Sub_ExpireDue_def Let_def)
    then show "\<forall>s\<in>set rs. sb_Status s = StatusExpired \<and> (\<exists>t\<le>se_now v 0. sb_EndDate s = Some t)"
      using expireLoop_only_due by auto
  qed
qed

section \<open>Samples\<close>

definition sampleSub :: Subscription where
  "sampleSub = \<lparr>sb_TenantID = ''t'', sb_PlanID = ''basic'', sb_Status = StatusActive, sb_StartDate = 1,
     sb_EndDate = None, sb_CurrentPeriodEnd = Some 10, sb_GracePeriodEnd = Some 15\<rparr>"

definition sampleSubs :: SubService where
  "sampleSubs = \<lparr>ss_gracePeriod = 5, ss_subscriptions = [(''t'', sampleSub)], ss_pending = [], ss_next = 0, ss_closed = []\<rparr>"

text \<open>Another mutation is dropped while the hook runs, and the hook rejects upgrades.\<close>

definition sampleSubEnv :: subEnv where
  "sampleSubEnv = \<lparr>se_ctx = (\<lambda>_. None), se_now = (\<lambda>_. 20), se_other = (\<lambda>_ sv. sv),
     se_during = (\<lambda>_ p sv. finishPending ''u'' (p + 1) False sv),
     se_hook = Some (\<lambda>_ ev. if be_Action ev = ''upgrade'' then HookError ''declined'' else HookOK)\<rparr>"

definition quietSubEnv :: subEnv where
  "quietSubEnv = \<lparr>se_ctx = (\<lambda>_. None), se_now = (\<lambda>_. 20), se_other = (\<lambda>_ sv. sv),
     se_during = (\<lambda>_ _ sv. sv), se_hook = None\<rparr>"

lemma sampleSubEnv_rely: "subRely raw sampleSubEnv"
proof -
  have "(sub_step raw {p})\<^sup>*\<^sup>* sv (finishPending tid (p + 1) b sv)" for p tid b sv
    by (rule r_into_rtranclp, rule finish) simp
  then show ?thesis by (simp add: subRely_def sampleSubEnv_def)
qed

lemma sampleSubs_inv: "sub_inv sampleSubs"
  by (simp add: sub_inv_def sampleSubs_def keyed_map_def sampleSub_def)

lemma quietSubEnv_quiet: "quietFor quietSubEnv"
  by (simp add: quietFor_def quietSubEnv_def billingEmit_def)

lemma staged_mutation_atomic_witness:
  "committedAs sampleSubEnv ''t'' (\<lambda>now sv. onCurrent ''t'' sv (changePlanDecision ''t'' ''gold'' ''upgrade''))
     sampleSubs (Sub_Upgrade sampleSubEnv [] ''t'' ''gold'' sampleSubs)
   \<and> Sub_Upgrade sampleSubEnv [] ''t'' ''gold'' sampleSubs
       = Some (Inl (ErrBillingHook ''declined''), sampleSubs\<lparr>ss_next := 1, ss_closed := [0]\<rparr>, 3)"
proof
  show "committedAs sampleSubEnv ''t''
     (\<lambda>now sv. onCurrent ''t'' sv (changePlanDecision ''t'' ''gold'' ''upgrade''))
     sampleSubs (Sub_Upgrade sampleSubEnv [] ''t'' ''gold'' sampleSubs)"
    using staged_mutation_atomic [of True sampleSubEnv "''t''" "''gold''" sampleSubs "[]" 0] sampleSubEnv_rely
    by blast
  show "Sub_Upgrade sampleSubEnv [] ''t'' ''gold'' sampleSubs
       = Some (Inl (ErrBillingHook ''declined''), sampleSubs\<lparr>ss_next := 1, ss_closed := [0]\<rparr>, 3)"
    by (simp add: sub_commands mutation_def lockMutation.simps sampleSubEnv_def sampleSubs_def sampleSub_def
        locked_def stageAndBill_def onCurrent_def changePlanDecision_def stageLocked_def runBillingHook_def
        billingEmit_def finishPending_def)
qed

lemma subscription_runs_witness:
  "ranAs True sampleSubs (Sub_Delete sampleSubEnv [] ''t'' sampleSubs)
   \<and> Sub_Delete sampleSubEnv [] ''t'' sampleSubs = Some (Inr (), sampleSubs\<lparr>ss_subscriptions := []\<rparr>, 2)"
proof
  show "ranAs True sampleSubs (Sub_Delete sampleSubEnv [] ''t'' sampleSubs)"
    using subscription_runs [of sampleSubEnv sampleSubs "[]" "''t''"] sampleSubEnv_rely sampleSubs_inv by blast
  show "Sub_Delete sampleSubEnv [] ''t'' sampleSubs = Some (Inr (), sampleSubs\<lparr>ss_subscriptions := []\<rparr>, 2)"
    by (simp add: Sub_Delete_def lockMutation.simps sampleSubEnv_def sampleSubs_def locked_def)
qed

lemma subscription_lifecycle_witness:
  "keptBy ''t'' sampleSub (Sub_Unsubscribe sampleSubEnv [] ''t'' sampleSubs)
   \<and> map_option fst (Sub_Unsubscribe sampleSubEnv [] ''t'' sampleSubs)
       = Some (Inr (sampleSub\<lparr>sb_Status := StatusCancelled, sb_EndDate := Some 20\<rparr>))"
proof
  show "keptBy ''t'' sampleSub (Sub_Unsubscribe sampleSubEnv [] ''t'' sampleSubs)"
    using subscription_lifecycle [of sampleSubEnv sampleSubs "''t''" sampleSub "[]" "''t''"] sampleSubEnv_rely
      sampleSubs_inv by (simp add: sampleSubs_def)
  show "map_option fst (Sub_Unsubscribe sampleSubEnv [] ''t'' sampleSubs)
       = Some (Inr (sampleSub\<lparr>sb_Status := StatusCancelled, sb_EndDate := Some 20\<rparr>))"
    by (simp add: sub_commands mutation_def lockMutation.simps sampleSubEnv_def sampleSubs_def sampleSub_def
        locked_def stageAndBill_def onCurrent_def unsubscribeDecision_def stageLocked_def runBillingHook_def
        billingEmit_def finishPending_def)
qed

lemma expire_due_exact_witness:
  "\<exists>rs sv' k'. Sub_ExpireDue quietSubEnv [] sampleSubs = Some ((rs, None), sv', k')
     \<and> set rs = {expiredAt sampleSub}"
proof -
  have "{expiredAt s |s tid. map_of (ss_subscriptions sampleSubs) tid = Some s
      \<and> subscriptionDue s (se_now quietSubEnv 0)} = {expiredAt sampleSub}"
    by (auto simp: sampleSubs_def sampleSub_def subscriptionDue_def expirationDate_def quietSubEnv_def)
  moreover have "ss_pending sampleSubs = []" by (simp add: sampleSubs_def)
  ultimately show ?thesis
    using expire_due_exact [of quietSubEnv sampleSubs "[]", THEN conjunct1] quietSubEnv_quiet sampleSubs_inv
    by metis
qed

text \<open>
  An upgrade of the tenant is pending under the number 0, and its owner commits it between the
  second and the third look: a cancellation that waits for it is woken and then succeeds.
\<close>

definition waitingSubs :: SubService where
  "waitingSubs = \<lparr>ss_gracePeriod = 5, ss_subscriptions = [(''t'', sampleSub)],
     ss_pending = [(''t'', \<lparr>pe_id = 0, pe_staged = sampleSub\<lparr>sb_PlanID := ''gold''\<rparr>\<rparr>)],
     ss_next = 1, ss_closed = []\<rparr>"

definition wakingEnv :: subEnv where
  "wakingEnv = \<lparr>se_ctx = (\<lambda>_. None), se_now = (\<lambda>_. 20),
     se_other = (\<lambda>k sv. if k = 3 then finishPending ''t'' 0 True sv else sv),
     se_during = (\<lambda>_ _ sv. sv), se_hook = None\<rparr>"

lemma wakingEnv_rely: "subRely raw wakingEnv"
proof -
  have "sub_runs raw sv (finishPending tid p b sv)" for sv tid p b
    by (rule r_into_rtranclp, rule finish) simp
  then show ?thesis by (simp add: subRely_def wakingEnv_def)
qed

lemma waits_only_while_pending_witness:
  "Sub_Unsubscribe wakingEnv [] ''t'' waitingSubs \<noteq> None
   \<and> map_option fst (Sub_Unsubscribe wakingEnv [] ''t'' waitingSubs)
       = Some (Inr (sampleSub\<lparr>sb_PlanID := ''gold'', sb_Status := StatusCancelled, sb_EndDate := Some 20\<rparr>))"
proof
  have "letsGo wakingEnv [] ''t'' waitingSubs"
    unfolding letsGo_def
    by (intro disjI2 exI [of _ 2])
       (simp add: eval_nat_numeral wakingEnv_def waitingSubs_def finishPending_def)
  then show "Sub_Unsubscribe wakingEnv [] ''t'' waitingSubs \<noteq> None"
    using waits_only_while_pending [of True wakingEnv "[]" "''t''" waitingSubs sampleSub] wakingEnv_rely
    by (simp add: sampleSub_def)
  show "map_option fst (Sub_Unsubscribe wakingEnv [] ''t'' waitingSubs)
       = Some (Inr (sampleSub\<lparr>sb_PlanID := ''gold'', sb_Status := StatusCancelled, sb_EndDate := Some 20\<rparr>))"
    by code_simp
qed

end
