(* ===== verification/Feature.thy ===== *)
theory Feature
  imports Paging
begin

text \<open>
  Feature flags (\<open>feature/\<close>): the in-memory store of plan defaults and tenant overrides. A flag
  map that is missing and one that is empty answer alike, so the \<open>nil\<close> tests of \<open>Resolve\<close> need
  no counterpart.
\<close>

datatype feature_error = FeatureCtx ctx_error | ErrInvalidFeature | ErrFeatureNotFound

record Flag =
  fl_Key :: string
  fl_Enabled :: bool
  fl_Config :: "(string, string) gomap option"

type_synonym flagIndex = "(string, Flag) gomap"

record FeatureMemory =
  fm_planDefaults :: "(string, flagIndex) gomap"
  fm_tenantOverrides :: "(TenantID, flagIndex) gomap"

definition NewFeatureMemory :: FeatureMemory where
  "NewFeatureMemory = \<lparr>fm_planDefaults = [], fm_tenantOverrides = []\<rparr>"

definition featureCtx :: "ctx \<Rightarrow> feature_error + unit" where
  "featureCtx cx = (case cx of None \<Rightarrow> Inr () | Some e \<Rightarrow> Inl (FeatureCtx e))"

text \<open>Of two flags with one key the later one counts.\<close>

fun indexFrom :: "flagIndex \<Rightarrow> Flag list \<Rightarrow> feature_error + flagIndex" where
  "indexFrom index [] = Inr index"
| "indexFrom index (flag # flags) =
     (if fl_Key flag = [] then Inl ErrInvalidFeature
      else indexFrom (AList.update (fl_Key flag) flag index) flags)"

definition indexFlags :: "Flag list \<Rightarrow> feature_error + flagIndex" where
  "indexFlags flags = indexFrom [] flags"

definition Features_SetPlanDefaults ::
  "ctx \<Rightarrow> string \<Rightarrow> Flag list \<Rightarrow> FeatureMemory \<Rightarrow> (feature_error + unit) \<times> FeatureMemory"
where
  "Features_SetPlanDefaults cx plan flags st =
     on_ok (featureCtx cx) st (\<lambda>_.
       if plan = [] then fails ErrInvalidFeature st
       else on_ok (indexFlags flags) st (\<lambda>index.
         (Inr (), st\<lparr>fm_planDefaults := AList.update plan index (fm_planDefaults st)\<rparr>)))"

definition Features_SetTenantOverrides ::
  "ctx \<Rightarrow> TenantID \<Rightarrow> Flag list \<Rightarrow> FeatureMemory \<Rightarrow> (feature_error + unit) \<times> FeatureMemory"
where
  "Features_SetTenantOverrides cx tid flags st =
     on_ok (featureCtx cx) st (\<lambda>_.
       if tid = [] then fails ErrInvalidFeature st
       else on_ok (indexFlags flags) st (\<lambda>index.
         (Inr (), st\<lparr>fm_tenantOverrides := AList.update tid index (fm_tenantOverrides st)\<rparr>)))"

definition flagsOf :: "'k \<Rightarrow> ('k, flagIndex) gomap \<Rightarrow> flagIndex" where
  "flagsOf k m = (case map_of m k of None \<Rightarrow> [] | Some index \<Rightarrow> index)"

definition Features_Resolve ::
  "ctx \<Rightarrow> TenantID \<Rightarrow> string \<Rightarrow> string \<Rightarrow> FeatureMemory \<Rightarrow> feature_error + Flag"
where
  "Features_Resolve cx tid plan key st =
     bind_ok (featureCtx cx) (\<lambda>_.
       if tid = [] \<or> plan = [] \<or> key = [] then Inl ErrInvalidFeature
       else case map_of (flagsOf tid (fm_tenantOverrides st)) key of
         Some flag \<Rightarrow> Inr flag
       | None \<Rightarrow>
           (case map_of (flagsOf plan (fm_planDefaults st)) key of
              Some flag \<Rightarrow> Inr flag | None \<Rightarrow> Inl ErrFeatureNotFound))"

definition mergeFlags :: "flagIndex \<Rightarrow> flagIndex \<Rightarrow> flagIndex" where
  "mergeFlags index merged = fold (\<lambda>(key, flag). AList.update key flag) index merged"

definition Features_List ::
  "ctx \<Rightarrow> TenantID \<Rightarrow> string \<Rightarrow> FeatureMemory \<Rightarrow> feature_error + Flag list"
where
  "Features_List cx tid plan st =
     bind_ok (featureCtx cx) (\<lambda>_.
       if tid = [] \<or> plan = [] then Inl ErrInvalidFeature
       else let merged = mergeFlags (flagsOf tid (fm_tenantOverrides st))
                           (mergeFlags (flagsOf plan (fm_planDefaults st)) [])
            in Inr (map snd (sort_key fst merged)))"

section \<open>Indexes are keyed\<close>

definition index_inv :: "flagIndex \<Rightarrow> bool" where
  "index_inv index \<longleftrightarrow> keyed_map fl_Key index \<and> [] \<notin> dom (map_of index)"

definition feature_inv :: "FeatureMemory \<Rightarrow> bool" where
  "feature_inv st \<longleftrightarrow> (\<forall>k index. map_of (fm_planDefaults st) k = Some index \<longrightarrow> index_inv index)
     \<and> (\<forall>k index. map_of (fm_tenantOverrides st) k = Some index \<longrightarrow> index_inv index)"

lemma index_inv_Nil [simp]: "index_inv []"
  by (simp add: index_inv_def)

lemma index_inv_update: "index_inv index \<Longrightarrow> fl_Key flag = key \<Longrightarrow> key \<noteq> [] \<Longrightarrow>
    index_inv (AList.update key flag index)"
  by (simp add: index_inv_def keyed_map_update)

lemma indexFrom_inv: "indexFrom index flags = Inr index' \<Longrightarrow> index_inv index \<Longrightarrow> index_inv index'"
  by (induction index flags rule: indexFrom.induct) (auto simp: index_inv_update split: if_splits)

text \<open>The last flag with a key is the one in the index, and an index fails only for an empty key.\<close>

lemma indexFrom_lookup:
  "indexFrom index flags = Inr index' \<Longrightarrow>
     map_of index' = map_of index ++ map_of (rev (map (\<lambda>flag. (fl_Key flag, flag)) flags))"
  by (induction index flags rule: indexFrom.induct)
     (auto simp: fun_eq_iff map_add_def split: if_splits option.splits)

lemma indexFrom_total: "(\<exists>index'. indexFrom index flags = Inr index') \<longleftrightarrow> (\<forall>flag\<in>set flags. fl_Key flag \<noteq> [])"
  by (induction index flags rule: indexFrom.induct) auto

lemma feature_inv_new: "feature_inv NewFeatureMemory"
  by (simp add: feature_inv_def NewFeatureMemory_def)

lemma feature_inv_set:
  "feature_inv st \<Longrightarrow> feature_inv (snd (Features_SetPlanDefaults cx plan flags st))"
  "feature_inv st \<Longrightarrow> feature_inv (snd (Features_SetTenantOverrides cx tid flags st))"
  using indexFrom_inv [of "[]" flags]
  by (auto simp: Features_SetPlanDefaults_def Features_SetTenantOverrides_def feature_inv_def on_ok_def
      indexFlags_def split: sum.splits if_splits)

lemma flagsOf_inv: "feature_inv st \<Longrightarrow> index_inv (flagsOf plan (fm_planDefaults st))"
  "feature_inv st \<Longrightarrow> index_inv (flagsOf tid (fm_tenantOverrides st))"
  by (auto simp: feature_inv_def flagsOf_def split: option.splits)

lemma mergeFlags_Cons: "mergeFlags ((k, v) # index) merged = mergeFlags index (AList.update k v merged)"
  by (simp add: mergeFlags_def)

lemma mergeFlags_map:
  "wf_map index \<Longrightarrow> map_of (mergeFlags index merged) = map_of merged ++ map_of index"
proof (induction index arbitrary: merged)
  case (Cons kv index)
  obtain k v where kv: "kv = (k, v)" by (cases kv)
  have "map_of index k = None" using Cons.prems kv by (simp add: map_of_eq_None_iff)
  moreover have "wf_map index" using Cons.prems kv by simp
  ultimately show ?case using Cons.IH [of "AList.update k v merged"] kv
    by (auto simp: mergeFlags_Cons fun_eq_iff map_add_def fun_upd_def split: option.split)
qed (simp add: mergeFlags_def)

lemma keyed_map_set: "keyed_map key m \<longleftrightarrow> wf_map m \<and> (\<forall>(k, v)\<in>set m. key v = k)"
  by (auto simp: keyed_map_def)

lemma index_inv_Cons: "index_inv ((k, v) # index) \<Longrightarrow> fl_Key v = k \<and> k \<noteq> [] \<and> index_inv index"
  by (auto simp: index_inv_def keyed_map_set dom_map_of_conv_image_fst)

lemma mergeFlags_inv: "index_inv index \<Longrightarrow> index_inv merged \<Longrightarrow> index_inv (mergeFlags index merged)"
proof (induction index arbitrary: merged)
  case (Cons kv index)
  obtain k v where kv: "kv = (k, v)" by (cases kv)
  with Cons index_inv_Cons [of k v index] show ?case by (simp add: mergeFlags_Cons index_inv_update)
qed (simp add: mergeFlags_def)

text \<open>A listing by key of a keyed map: in order, and with exactly its values.\<close>

lemma sorted_values:
  assumes "keyed_map key (m :: ('k :: linorder, 'v) gomap)"
  shows "sorted_wrt (<) (map key (map snd (sort_key fst m)))"
    and "v \<in> set (map snd (sort_key fst m)) \<longleftrightarrow> map_of m (key v) = Some v"
proof -
  have k: "\<forall>kv\<in>set m. key (snd kv) = fst kv" and wf: "wf_map m" using assms by (auto simp: keyed_map_set)
  have keys: "map key (map snd (sort_key fst m)) = map fst (sort_key fst m)" using k by simp
  have "mset (map fst (sort_key fst m)) = mset (map fst m)" by simp
  then have "distinct (map fst (sort_key fst m))" using wf by (metis mset_eq_imp_distinct_iff)
  then show "sorted_wrt (<) (map key (map snd (sort_key fst m)))"
    unfolding keys by (simp add: strict_sorted_iff)
  show "v \<in> set (map snd (sort_key fst m)) \<longleftrightarrow> map_of m (key v) = Some v"
    using k wf by force
qed

section \<open>Listing is resolving every key\<close>

datatype featureOp = SetDefaults ctx string "Flag list" | SetOverrides ctx TenantID "Flag list"

fun featureRun1 :: "featureOp \<Rightarrow> FeatureMemory \<Rightarrow> FeatureMemory" where
  "featureRun1 (SetDefaults cx plan flags) st = snd (Features_SetPlanDefaults cx plan flags st)"
| "featureRun1 (SetOverrides cx tid flags) st = snd (Features_SetTenantOverrides cx tid flags st)"

lemma featureRun1_inv: "feature_inv st \<Longrightarrow> feature_inv (featureRun1 op st)"
  by (cases op) (auto intro: feature_inv_set)

lemma features_reach_inv: "feature_inv (fold featureRun1 ops NewFeatureMemory)"
proof -
  have "feature_inv st \<Longrightarrow> feature_inv (fold featureRun1 ops st)" for st
    by (induction ops arbitrary: st) (auto intro: featureRun1_inv)
  then show ?thesis using feature_inv_new by blast
qed

text \<open>
  A tenant's flags are listed exactly as they resolve: in every state the store reaches, \<open>List\<close>
  answers the flags in strict order of their keys, one flag for each key that \<open>Resolve\<close> finds and
  that very flag, the tenant's override if there is one and the plan's default otherwise.
\<close>

theorem features_list_resolves:
  assumes "st = fold featureRun1 ops NewFeatureMemory" "tid \<noteq> []" "plan \<noteq> []"
  shows "\<exists>flags. Features_List None tid plan st = Inr flags
    \<and> sorted_wrt (<) (map fl_Key flags)
    \<and> (\<forall>key flag. flag \<in> set flags \<and> fl_Key flag = key \<longleftrightarrow> Features_Resolve None tid plan key st = Inr flag)"
proof -
  let ?o = "flagsOf tid (fm_tenantOverrides st)" and ?d = "flagsOf plan (fm_planDefaults st)"
  let ?m = "mergeFlags ?o (mergeFlags ?d [])"
  have wf: "feature_inv st" using assms(1) features_reach_inv by simp
  have od: "index_inv ?o" "index_inv ?d" using flagsOf_inv [OF wf] by blast+
  then have m: "index_inv ?m" by (simp add: mergeFlags_inv)
  then have key: "keyed_map fl_Key ?m" by (simp add: index_inv_def)
  have look: "map_of ?m = map_of ?d ++ map_of ?o"
    using od by (simp add: mergeFlags_map index_inv_def keyed_map_def)
  have list: "Features_List None tid plan st = Inr (map snd (sort_key fst ?m))"
    using assms by (simp add: Features_List_def featureCtx_def Let_def)
  have res: "Features_Resolve None tid plan key st = Inr flag \<longleftrightarrow> key \<noteq> [] \<and> map_of ?m key = Some flag"
    for key flag using assms(2,3)
    by (auto simp: Features_Resolve_def featureCtx_def look map_add_def split: option.splits)
  have "flag \<in> set (map snd (sort_key fst ?m)) \<and> fl_Key flag = key \<longleftrightarrow>
      key \<noteq> [] \<and> map_of ?m key = Some flag" for key flag
    using sorted_values(2) [OF key, of flag] m keyed_mapD [OF key, of key flag]
    by (auto simp: index_inv_def dom_def)
  with list res sorted_values(1) [OF key] show ?thesis by auto
qed

lemma features_list_resolves_witness:
  "\<exists>flags. Features_List None ''t'' ''p''
      (fold featureRun1 [SetDefaults None ''p'' [\<lparr>fl_Key = ''a'', fl_Enabled = False, fl_Config = None\<rparr>],
         SetOverrides None ''t'' [\<lparr>fl_Key = ''a'', fl_Enabled = True, fl_Config = None\<rparr>]] NewFeatureMemory)
        = Inr flags \<and> sorted_wrt (<) (map fl_Key flags)"
  using features_list_resolves [OF refl, of "''t''" "''p''"] by blast

end
