(* ===== verification/Audit_Log.thy ===== *)
theory Audit_Log
  imports Paging
begin

text \<open>
  The audit log (\<open>biz/audit/\<close>): the in-memory store and its pages. \<open>sort.Slice\<close> leaves the order
  of equal events open; here it is the order of recording.
\<close>

datatype audit_error = AuditCtx ctx_error | ErrInvalidEvent | ErrAuditListFilter

record AuditEvent =
  au_ID :: string
  au_TenantID :: TenantID
  au_ActorID :: string
  au_Action :: string
  au_Resource :: string
  au_CreatedAt :: Time
  au_Metadata :: "(string, string) gomap option"

record AuditCursor =
  ac_CreatedAt :: Time
  ac_ID :: string

record AuditListFilter =
  af_Cursor :: AuditCursor
  af_Limit :: int64

type_synonym AuditMemory = "AuditEvent list"

definition NewAuditMemory :: AuditMemory where
  "NewAuditMemory = []"

definition auditCtx :: "ctx \<Rightarrow> audit_error + unit" where
  "auditCtx cx = (case cx of None \<Rightarrow> Inr () | Some e \<Rightarrow> Inl (AuditCtx e))"

text \<open>\<open>now\<close> is the answer of the store's clock, asked only for an event without an instant.\<close>

definition Audit_Record ::
  "ctx \<Rightarrow> Time \<Rightarrow> AuditEvent \<Rightarrow> AuditMemory \<Rightarrow> (audit_error + unit) \<times> AuditMemory"
where
  "Audit_Record cx now event st =
     on_ok (auditCtx cx) st (\<lambda>_.
       if au_TenantID event = [] \<or> au_Action event = [] \<or> au_Resource event = []
       then fails ErrInvalidEvent st
       else let event' = (if IsZero (au_CreatedAt event) then event\<lparr>au_CreatedAt := now\<rparr> else event)
            in (Inr (), st @ [event']))"

definition CursorFor :: "AuditEvent \<Rightarrow> AuditCursor" where
  "CursorFor event = \<lparr>ac_CreatedAt = au_CreatedAt event, ac_ID = au_ID event\<rparr>"

definition auditFilterValidate :: "AuditListFilter \<Rightarrow> audit_error + unit" where
  "auditFilterValidate filt =
     (if af_Limit filt < 0 then Inl ErrAuditListFilter
      else if IsZero (ac_CreatedAt (af_Cursor filt)) \<noteq> (ac_ID (af_Cursor filt) = [])
      then Inl ErrAuditListFilter
      else Inr ())"

definition auditCursorEmpty :: "AuditCursor \<Rightarrow> bool" where
  "auditCursorEmpty cursor \<longleftrightarrow> IsZero (ac_CreatedAt cursor) \<and> ac_ID cursor = []"

definition eventAfterCursor :: "AuditEvent \<Rightarrow> AuditCursor \<Rightarrow> bool" where
  "eventAfterCursor event cursor \<longleftrightarrow>
     auditCursorEmpty cursor \<or> au_CreatedAt event > ac_CreatedAt cursor
     \<or> (au_CreatedAt event = ac_CreatedAt cursor \<and> au_ID event > ac_ID cursor)"

definition pageEvents :: "AuditEvent list \<Rightarrow> AuditListFilter \<Rightarrow> AuditEvent list" where
  "pageEvents events filt =
     (if 0 < af_Limit filt \<and> af_Limit filt < int (length events)
      then take (nat (af_Limit filt)) events else events)"

definition auditKey :: "AuditEvent \<Rightarrow> Time \<times> string" where
  "auditKey event = (au_CreatedAt event, au_ID event)"

definition Audit_ListPage ::
  "ctx \<Rightarrow> TenantID \<Rightarrow> AuditListFilter \<Rightarrow> AuditMemory \<Rightarrow> audit_error + AuditEvent list"
where
  "Audit_ListPage cx tid filt st =
     bind_ok (auditCtx cx) (\<lambda>_.
       if tid = [] then Inl ErrInvalidEvent
       else bind_ok (auditFilterValidate filt) (\<lambda>_.
         Inr (pageEvents (sort_key auditKey
           (filter (\<lambda>event. au_TenantID event = tid \<and> eventAfterCursor event (af_Cursor filt)) st)) filt)))"

definition noCursor :: AuditListFilter where
  "noCursor = \<lparr>af_Cursor = \<lparr>ac_CreatedAt = 0, ac_ID = []\<rparr>, af_Limit = 0\<rparr>"

definition Audit_List :: "ctx \<Rightarrow> TenantID \<Rightarrow> AuditMemory \<Rightarrow> audit_error + AuditEvent list" where
  "Audit_List cx tid st = Audit_ListPage cx tid noCursor st"

section \<open>Listing\<close>

text \<open>The whole log of a tenant, in order: what was recorded for it and nothing else.\<close>

lemma audit_list_exact:
  assumes "tid \<noteq> []"
  shows "\<exists>events. Audit_List None tid st = Inr events
    \<and> mset events = mset (filter (\<lambda>event. au_TenantID event = tid) st)
    \<and> sorted (map auditKey events)"
  using assms
  by (simp add: Audit_List_def Audit_ListPage_def auditCtx_def noCursor_def auditFilterValidate_def IsZero_def
      pageEvents_def eventAfterCursor_def auditCursorEmpty_def)

lemma Audit_Record_result:
  "Audit_Record None now event st = (Inr u, st') \<Longrightarrow>
     \<exists>event'. st' = st @ [event'] \<and> au_ID event' = au_ID event \<and> au_TenantID event' = au_TenantID event
       \<and> au_Action event' = au_Action event \<and> au_Resource event' = au_Resource event"
  by (auto simp: Audit_Record_def auditCtx_def Let_def split: if_splits)

lemma Audit_append_only: "\<exists>more. snd (Audit_Record cx now event st) = st @ more"
  by (auto simp: Audit_Record_def on_ok_def Let_def split: sum.split)

text \<open>
  An event may be recorded without an identifier, but no page can be continued after it: its
  cursor is refused.
\<close>

lemma audit_cursor_refused:
  assumes "au_ID event = []" "au_CreatedAt event \<noteq> 0" "au_TenantID event = tid" "tid \<noteq> []"
    and "au_Action event \<noteq> []" "au_Resource event \<noteq> []" "0 \<le> n"
  shows "fst (Audit_Record None now event st) = Inr ()
    \<and> Audit_ListPage None tid \<lparr>af_Cursor = CursorFor event, af_Limit = n\<rparr> st' = Inl ErrAuditListFilter"
  using assms
  by (simp add: Audit_Record_def auditCtx_def IsZero_def Audit_ListPage_def auditFilterValidate_def CursorFor_def)

end
