(* ===== verification/Notification.thy ===== *)
theory Notification
  imports Prelude
begin

text \<open>
  Delivery of messages (\<open>biz/notification/\<close>): the message, the in-memory notifier and the four
  wrappers - router, fan-out, retry and timeout - over any notifier. A notifier acts on a state
  \<open>'s\<close> and answers \<open>None\<close> for a nil error; what its context does is part of that. The questions a
  wrapper itself puts to the context are answered by \<open>cx\<close>, one answer per question. SMTP, HTTP
  and SES are delivery and not modelled.
\<close>

datatype notify_error =
  NotifyCtx ctx_error | ErrInvalidMessage | ErrInvalidNotifierConfig | ErrInvalidResendConfig
| ErrInvalidSMTPConfig | ErrInvalidWebhookConfig | ErrNilNotifier | ErrUnsupportedChannel | ErrTLSRequired
| NotifyRetryable bool string | NotifyOther string | NotifyJoined notify_error notify_error

record Message =
  mm_ID :: string
  mm_TenantID :: TenantID
  mm_Channel :: string
  mm_To :: string
  mm_Subject :: string
  mm_Body :: string
  mm_Metadata :: "(string, string) gomap option"
  mm_Tags :: "(string, string) gomap option"

type_synonym 's notifier = "Message \<Rightarrow> 's \<Rightarrow> notify_error option \<times> 's"

definition hasHeaderInjection :: "string \<Rightarrow> bool" where
  "hasHeaderInjection value \<longleftrightarrow> list_ex (\<lambda>c. c = CHR 0x0D \<or> c = CHR 0x0A) value"

definition Message_Validate :: "Message \<Rightarrow> notify_error option" where
  "Message_Validate m =
     (if mm_TenantID m = [] \<or> TrimSpace (mm_Channel m) = [] \<or> TrimSpace (mm_To m) = []
      then Some ErrInvalidMessage
      else if hasHeaderInjection (mm_ID m) \<or> hasHeaderInjection (mm_Channel m)
      then Some ErrInvalidMessage
      else None)"

text \<open>\<open>errors.Join\<close> of two errors, either of which may be nil.\<close>

definition joinErrors :: "notify_error option \<Rightarrow> notify_error option \<Rightarrow> notify_error option" where
  "joinErrors a b =
     (case (a, b) of (None, _) \<Rightarrow> b | (_, None) \<Rightarrow> a | (Some x, Some y) \<Rightarrow> Some (NotifyJoined x y))"

text \<open>The head of every \<open>Send\<close>: the context, a nil receiver, the message.\<close>

definition sendHead ::
  "ctx \<Rightarrow> bool \<Rightarrow> Message \<Rightarrow> 's \<Rightarrow> ('s \<Rightarrow> notify_error option \<times> 's) \<Rightarrow> notify_error option \<times> 's"
where
  "sendHead cx receiver_nil m s k =
     (case cx of Some e \<Rightarrow> (Some (NotifyCtx e), s)
      | None \<Rightarrow>
          if receiver_nil then (Some ErrNilNotifier, s)
          else case Message_Validate m of Some e \<Rightarrow> (Some e, s) | None \<Rightarrow> k s)"

definition NotifierFunc_Send :: "'s notifier option \<Rightarrow> 's notifier" where
  "NotifierFunc_Send fn m s = (case fn of None \<Rightarrow> (Some ErrNilNotifier, s) | Some f \<Rightarrow> f m s)"

definition MemoryNotifier_Send :: "ctx \<Rightarrow> bool \<Rightarrow> Message list notifier" where
  "MemoryNotifier_Send cx receiver_nil m s =
     sendHead cx receiver_nil m s (\<lambda>messages. (None, messages @ [m]))"

section \<open>Router and fan-out\<close>

definition normalizeChannel :: "string \<Rightarrow> string" where
  "normalizeChannel channel = TrimSpace channel"

text \<open>The routes given, in the order in which \<open>range\<close> visits them; \<open>None\<close> is a nil notifier.\<close>

fun copyRoutes ::
  "(string, 's notifier) gomap \<Rightarrow> (string \<times> 's notifier option) list
     \<Rightarrow> notify_error + (string, 's notifier) gomap"
where
  "copyRoutes copied [] = Inr copied"
| "copyRoutes copied ((channel, target) # routes) =
     (let channel = normalizeChannel channel in
      case target of None \<Rightarrow> Inl ErrInvalidNotifierConfig
      | Some send \<Rightarrow>
          if channel = [] then Inl ErrInvalidNotifierConfig
          else if map_of copied channel \<noteq> None then Inl ErrInvalidNotifierConfig
          else copyRoutes (AList.update channel send copied) routes)"

definition NewChannelRouter ::
  "(string \<times> 's notifier option) list \<Rightarrow> notify_error + (string, 's notifier) gomap"
where
  "NewChannelRouter routes =
     (if routes = [] then Inl ErrInvalidNotifierConfig else copyRoutes [] routes)"

definition ChannelRouter_Send :: "ctx \<Rightarrow> (string, 's notifier) gomap option \<Rightarrow> 's notifier" where
  "ChannelRouter_Send cx router m s =
     sendHead cx (router = None) m s (\<lambda>s.
       case router of None \<Rightarrow> (Some ErrNilNotifier, s)
       | Some routes \<Rightarrow>
           (case map_of routes (normalizeChannel (mm_Channel m)) of
              None \<Rightarrow> (Some ErrUnsupportedChannel, s) | Some send \<Rightarrow> send m s))"

definition NewFanoutNotifier :: "'s notifier option list \<Rightarrow> notify_error + 's notifier list" where
  "NewFanoutNotifier targets =
     (if targets = [] \<or> list_ex (\<lambda>t. t = None) targets then Inl ErrInvalidNotifierConfig
      else Inr (concat (map (\<lambda>t. case t of None \<Rightarrow> [] | Some send \<Rightarrow> [send]) targets)))"

fun fanoutLoop ::
  "(nat \<Rightarrow> ctx) \<Rightarrow> Message \<Rightarrow> 's notifier list \<Rightarrow> nat \<Rightarrow> notify_error option \<Rightarrow> 's
     \<Rightarrow> notify_error option \<times> 's"
where
  "fanoutLoop cx m [] k err s = (err, s)"
| "fanoutLoop cx m (send # targets) k err s =
     (case cx k of
        Some e \<Rightarrow> (joinErrors err (Some (NotifyCtx e)), s)
      | None \<Rightarrow> (case send m s of (r, s') \<Rightarrow> fanoutLoop cx m targets (k + 1) (joinErrors err r) s'))"

definition FanoutNotifier_Send :: "(nat \<Rightarrow> ctx) \<Rightarrow> 's notifier list option \<Rightarrow> 's notifier" where
  "FanoutNotifier_Send cx fanout m s =
     sendHead (cx 0) (fanout = None) m s (\<lambda>s.
       case fanout of None \<Rightarrow> (Some ErrNilNotifier, s) | Some targets \<Rightarrow> fanoutLoop cx m targets 1 None s)"

section \<open>Timeout\<close>

text \<open>The wrapped notifier runs with the deadline; \<open>with_timeout d\<close> is it in such a context.\<close>

definition NewTimeoutNotifier :: "bool \<Rightarrow> Duration \<Rightarrow> notify_error + Duration" where
  "NewTimeoutNotifier target_nil timeout =
     (if target_nil then Inl ErrNilNotifier
      else if timeout \<le> 0 then Inl ErrInvalidNotifierConfig else Inr timeout)"

definition TimeoutNotifier_Send ::
  "ctx \<Rightarrow> bool \<Rightarrow> Duration \<Rightarrow> (Duration \<Rightarrow> 's notifier) \<Rightarrow> 's notifier"
where
  "TimeoutNotifier_Send cx receiver_nil timeout with_timeout m s =
     sendHead cx receiver_nil m s (with_timeout timeout m)"

section \<open>Retry\<close>

text \<open>
  \<open>rc_Sleep k d\<close> is the answer of the \<open>k\<close>-th call of a configured sleep, and \<open>None\<close> stands for
  the default one.
\<close>

record RetryConfig =
  rc_Attempts :: int64
  rc_Backoff :: Duration
  rc_MaxBackoff :: Duration
  rc_RetryIf :: "(notify_error \<Rightarrow> bool) option"
  rc_Sleep :: "(nat \<Rightarrow> Duration \<Rightarrow> notify_error option) option"

definition defaultRetryAttempts :: int64 where "defaultRetryAttempts = 3"

definition defaultRetryBackoff :: Duration where "defaultRetryBackoff = 100000000"

definition defaultMaxBackoff :: Duration where "defaultMaxBackoff = 2000000000"

text \<open>\<open>errors.As\<close> and \<open>errors.Is\<close> look through joined errors, the first one first.\<close>

fun asRetryable :: "notify_error \<Rightarrow> bool option" where
  "asRetryable (NotifyRetryable b _) = Some b"
| "asRetryable (NotifyJoined x y) = (case asRetryable x of Some b \<Rightarrow> Some b | None \<Rightarrow> asRetryable y)"
| "asRetryable _ = None"

fun errorIs :: "notify_error \<Rightarrow> notify_error \<Rightarrow> bool" where
  "errorIs (NotifyJoined x y) target \<longleftrightarrow> NotifyJoined x y = target \<or> errorIs x target \<or> errorIs y target"
| "errorIs e target \<longleftrightarrow> e = target"

definition DefaultRetryIf :: "notify_error option \<Rightarrow> bool" where
  "DefaultRetryIf err =
     (case err of None \<Rightarrow> False
      | Some e \<Rightarrow>
          (case asRetryable e of
             Some b \<Rightarrow> b
           | None \<Rightarrow> \<not> errorIs e ErrInvalidMessage \<and> \<not> errorIs e ErrInvalidNotifierConfig
               \<and> \<not> errorIs e ErrInvalidResendConfig \<and> \<not> errorIs e ErrInvalidSMTPConfig
               \<and> \<not> errorIs e ErrInvalidWebhookConfig \<and> \<not> errorIs e ErrNilNotifier
               \<and> \<not> errorIs e ErrTLSRequired \<and> \<not> errorIs e ErrUnsupportedChannel))"

definition normalizeRetryConfig :: "RetryConfig \<Rightarrow> RetryConfig" where
  "normalizeRetryConfig c =
     (let c1 = (if rc_Attempts c = 0 then c\<lparr>rc_Attempts := defaultRetryAttempts\<rparr> else c);
          c2 = (if rc_Backoff c1 = 0 then c1\<lparr>rc_Backoff := defaultRetryBackoff\<rparr> else c1);
          c3 = (if rc_MaxBackoff c2 = 0 then c2\<lparr>rc_MaxBackoff := defaultMaxBackoff\<rparr> else c2);
          c4 = (if rc_MaxBackoff c3 < rc_Backoff c3 then c3\<lparr>rc_MaxBackoff := rc_Backoff c3\<rparr> else c3)
      in if rc_RetryIf c4 = None then c4\<lparr>rc_RetryIf := Some (\<lambda>e. DefaultRetryIf (Some e))\<rparr> else c4)"

definition NewRetryNotifier :: "bool \<Rightarrow> RetryConfig \<Rightarrow> notify_error + RetryConfig" where
  "NewRetryNotifier target_nil config =
     (if target_nil then Inl ErrNilNotifier
      else if rc_Attempts config < 0 \<or> rc_Backoff config < 0 \<or> rc_MaxBackoff config < 0
      then Inl ErrInvalidNotifierConfig
      else if 0 < rc_Backoff config \<and> 0 < rc_MaxBackoff config \<and> rc_MaxBackoff config < rc_Backoff config
      then Inl ErrInvalidNotifierConfig
      else let c = normalizeRetryConfig config in
        if rc_Attempts c \<le> 0 \<or> rc_Backoff c < 0 \<or> rc_MaxBackoff c < rc_Backoff c
        then Inl ErrInvalidNotifierConfig else Inr c)"

text \<open>The doubling loop; the machine's multiplication cannot wrap behind its guard.\<close>

fun delayLoop :: "RetryConfig \<Rightarrow> nat \<Rightarrow> Duration \<Rightarrow> Duration" where
  "delayLoop config 0 delay =
     (if delay > rc_MaxBackoff config then rc_MaxBackoff config else delay)"
| "delayLoop config (Suc n) delay =
     (if delay \<ge> quot64 (rc_MaxBackoff config) 2 then rc_MaxBackoff config
      else delayLoop config n (mul64 delay 2))"

definition retryDelay :: "RetryConfig \<Rightarrow> nat \<Rightarrow> Duration" where
  "retryDelay config attempt = delayLoop config (attempt - 1) (rc_Backoff config)"

text \<open>
  The default sleep: a delay that is not positive asks the context; otherwise the timer or the
  context ends it, whichever \<open>cx\<close> says.
\<close>

definition sleep :: "ctx \<Rightarrow> Duration \<Rightarrow> notify_error option" where
  "sleep cx delay = map_option NotifyCtx cx"

definition retryIf :: "RetryConfig \<Rightarrow> notify_error \<Rightarrow> bool" where
  "retryIf config e = (case rc_RetryIf config of None \<Rightarrow> DefaultRetryIf (Some e) | Some f \<Rightarrow> f e)"

definition retrySleep :: "RetryConfig \<Rightarrow> (nat \<Rightarrow> ctx) \<Rightarrow> nat \<Rightarrow> Duration \<Rightarrow> notify_error option" where
  "retrySleep config cx k delay =
     (case rc_Sleep config of None \<Rightarrow> sleep (cx k) delay | Some f \<Rightarrow> f k delay)"

text \<open>\<open>n\<close> attempts are left; \<open>attempt\<close> is the number of the next one.\<close>

fun retryLoop ::
  "RetryConfig \<Rightarrow> (nat \<Rightarrow> ctx) \<Rightarrow> 's notifier \<Rightarrow> Message \<Rightarrow> nat \<Rightarrow> nat \<Rightarrow> notify_error option \<Rightarrow> 's
     \<Rightarrow> notify_error option \<times> 's"
where
  "retryLoop config cx send m 0 attempt lastErr s = (lastErr, s)"
| "retryLoop config cx send m (Suc n) attempt lastErr s =
     (case send m s of
        (None, s') \<Rightarrow> (None, s')
      | (Some e, s') \<Rightarrow>
          (case cx (2 * attempt) of
             Some c \<Rightarrow> (Some (NotifyJoined e (NotifyCtx c)), s')
           | None \<Rightarrow>
               if int attempt = rc_Attempts config \<or> \<not> retryIf config e then (Some e, s')
               else (case retrySleep config cx (2 * attempt + 1) (retryDelay config attempt) of
                       Some w \<Rightarrow> (Some (NotifyJoined e w), s')
                     | None \<Rightarrow> retryLoop config cx send m n (attempt + 1) (Some e) s')))"

definition RetryNotifier_Send ::
  "(nat \<Rightarrow> ctx) \<Rightarrow> bool \<Rightarrow> RetryConfig \<Rightarrow> 's notifier \<Rightarrow> 's notifier"
where
  "RetryNotifier_Send cx receiver_nil config send m s =
     sendHead (cx 0) receiver_nil m s (retryLoop config cx send m (nat (rc_Attempts config)) 1 None)"

section \<open>Delays and attempts are bounded\<close>

definition retryReady :: "RetryConfig \<Rightarrow> bool" where
  "retryReady c \<longleftrightarrow> 0 < rc_Attempts c \<and> 0 < rc_Backoff c \<and> rc_Backoff c \<le> rc_MaxBackoff c \<and> i64 (rc_MaxBackoff c)"

lemma NewRetryNotifier_ready:
  "NewRetryNotifier target_nil config = Inr c \<Longrightarrow> i64 (rc_Backoff config) \<Longrightarrow> i64 (rc_MaxBackoff config) \<Longrightarrow>
     retryReady c"
  by (auto simp: NewRetryNotifier_def normalizeRetryConfig_def retryReady_def Let_def i64_def
      defaultRetryAttempts_def defaultRetryBackoff_def defaultMaxBackoff_def split: if_splits)

lemma half64: "0 < m \<Longrightarrow> i64 m \<Longrightarrow> quot64 m 2 = m div 2"
  by (simp add: quot64_nonneg)

lemma double64: "0 < d \<Longrightarrow> d < m div 2 \<Longrightarrow> i64 m \<Longrightarrow> mul64 d 2 = 2 * d \<and> 2 * d \<le> m"
  by (subst mul64_id) (auto simp: i64_def)

lemma delayLoop_bounds:
  "0 < d \<Longrightarrow> d \<le> rc_MaxBackoff c \<Longrightarrow> i64 (rc_MaxBackoff c) \<Longrightarrow>
     d \<le> delayLoop c n d \<and> delayLoop c n d \<le> rc_MaxBackoff c \<and> delayLoop c n d \<le> delayLoop c (Suc n) d"
proof (induction n arbitrary: d)
  case 0
  then show ?case using double64 [of d "rc_MaxBackoff c"] by (auto simp: half64)
next
  case (Suc n)
  show ?case
  proof (cases "d \<ge> rc_MaxBackoff c div 2")
    case False
    then have dd: "mul64 d 2 = 2 * d" "2 * d \<le> rc_MaxBackoff c"
      using Suc.prems double64 [of d "rc_MaxBackoff c"] by simp_all
    with Suc.IH [of "2 * d"] Suc.prems False show ?thesis by (simp add: half64)
  qed (use Suc.prems in \<open>simp add: half64\<close>)
qed

text \<open>Up to the cap the delay doubles.\<close>

lemma delayLoop_doubles:
  "0 < d \<Longrightarrow> i64 (rc_MaxBackoff c) \<Longrightarrow> 0 < rc_MaxBackoff c \<Longrightarrow> delayLoop c n d < rc_MaxBackoff c \<Longrightarrow>
     delayLoop c n d = d * 2 ^ n"
proof (induction n arbitrary: d)
  case (Suc n)
  have lt: "d < rc_MaxBackoff c div 2" using Suc.prems by (auto simp: half64 split: if_splits)
  then have dd: "mul64 d 2 = 2 * d" using double64 [of d "rc_MaxBackoff c"] Suc.prems by simp
  have "delayLoop c n (2 * d) < rc_MaxBackoff c" using Suc.prems lt dd by (simp add: half64)
  from Suc.IH [OF _ Suc.prems(2,3) this] Suc.prems lt dd show ?case by (simp add: half64)
qed (auto split: if_splits)

text \<open>The messages a counting notifier has seen.\<close>

definition counted :: "'s notifier \<Rightarrow> ('s \<times> nat) notifier" where
  "counted send m st = (case send m (fst st) of (r, s') \<Rightarrow> (r, (s', snd st + 1)))"

lemma retryLoop_attempts:
  "retryLoop c cx (counted send) m n a err st = (r, st') \<Longrightarrow>
     snd st \<le> snd st' \<and> snd st' \<le> snd st + n \<and> (0 < n \<longrightarrow> snd st < snd st')"
proof (induction n arbitrary: a err st)
  case (Suc n)
  obtain r1 s1 where s: "counted send m st = (r1, (s1, snd st + 1))"
    by (cases "send m (fst st)") (auto simp: counted_def)
  show ?case
  proof (cases "snd st' = snd st + 1")
    case False
    with Suc.prems s have "\<exists>e. retryLoop c cx (counted send) m n (a + 1) (Some e) (s1, snd st + 1) = (r, st')"
      by (auto split: option.splits if_splits)
    then obtain e where "retryLoop c cx (counted send) m n (a + 1) (Some e) (s1, snd st + 1) = (r, st')" ..
    from Suc.IH [OF this] show ?thesis by simp
  qed simp
qed simp

text \<open>
  A failure that is not retried and not a done context used up every attempt.
\<close>

lemma retryLoop_gives_up:
  "retryLoop c (\<lambda>k. None) (counted send) m n a err st = (Some e, st') \<Longrightarrow> 0 < n \<Longrightarrow>
     int (a + n) = rc_Attempts c + 1 \<Longrightarrow> rc_Sleep c = None \<Longrightarrow> retryIf c e \<Longrightarrow> snd st' = snd st + n"
proof (induction n arbitrary: a err st)
  case (Suc n)
  obtain r1 s1 where s: "counted send m st = (r1, (s1, snd st + 1))"
    by (cases "send m (fst st)") (auto simp: counted_def)
  with Suc.prems obtain e1 where e1: "r1 = Some e1" by (cases r1) auto
  show ?case
  proof (cases "int a = rc_Attempts c")
    case True
    with Suc.prems s e1 show ?thesis by auto
  next
    case False
    with Suc.prems s e1 have r: "retryIf c e1"
      "retryLoop c (\<lambda>k. None) (counted send) m n (a + 1) (Some e1) (s1, snd st + 1) = (Some e, st')"
      by (auto simp: retrySleep_def sleep_def split: if_splits)
    from Suc.IH [OF r(2)] Suc.prems False show ?thesis by simp
  qed
qed simp

text \<open>
  The retry notifier delivers within its bounds: from a configuration that \<open>NewRetryNotifier\<close>
  accepts, the delay before every further attempt is positive, at most the largest backoff, never
  shorter than the one before and twice as long until the cap is near, in 64-bit arithmetic that
  never wraps; and a message whose first delivery is attempted is attempted at least once and at
  most the configured number of times - exactly that number when, with a context that is never
  done and the default sleep, it fails in the end with an error that is worth a retry.
\<close>

theorem retry_bounded:
  assumes "NewRetryNotifier target_nil config = Inr c" "i64 (rc_Backoff config)" "i64 (rc_MaxBackoff config)"
  shows "0 < retryDelay c k \<and> retryDelay c k \<le> rc_MaxBackoff c
    \<and> retryDelay c k \<le> retryDelay c (Suc k)
    \<and> (retryDelay c (Suc k) < rc_MaxBackoff c \<longrightarrow> retryDelay c (Suc k) = rc_Backoff c * 2 ^ k)
    \<and> (cx 0 = None \<and> Message_Validate m = None \<longrightarrow>
        (let calls = snd (snd (RetryNotifier_Send cx False c (counted send) m (s, 0)))
         in 1 \<le> calls \<and> int calls \<le> rc_Attempts c))
    \<and> (rc_Sleep c = None \<and> Message_Validate m = None \<longrightarrow>
        (case RetryNotifier_Send (\<lambda>i. None) False c (counted send) m (s, 0) of
           (Some e, (s', calls)) \<Rightarrow> retryIf c e \<longrightarrow> int calls = rc_Attempts c
         | (None, (s', calls)) \<Rightarrow> True))"
proof -
  have ready: "retryReady c" using NewRetryNotifier_ready assms by blast
  then have b: "0 < rc_Backoff c" "rc_Backoff c \<le> rc_MaxBackoff c" "i64 (rc_MaxBackoff c)" "0 < rc_Attempts c"
    by (simp_all add: retryReady_def)
  note d = delayLoop_bounds [OF b(1-3)]
  have "retryDelay c k \<le> retryDelay c (Suc k)"
    using d [of "k - 1"] by (cases k) (simp_all add: retryDelay_def)
  moreover have "retryDelay c (Suc k) < rc_MaxBackoff c \<longrightarrow> retryDelay c (Suc k) = rc_Backoff c * 2 ^ k"
    using delayLoop_doubles [OF b(1,3), of k] b by (simp add: retryDelay_def)
  moreover have "cx 0 = None \<and> Message_Validate m = None \<longrightarrow>
      (let calls = snd (snd (RetryNotifier_Send cx False c (counted send) m (s, 0)))
       in 1 \<le> calls \<and> int calls \<le> rc_Attempts c)"
    using retryLoop_attempts [of c cx send m "nat (rc_Attempts c)" 1 None "(s, 0)", OF surjective_pairing] b(4)
    by (auto simp: RetryNotifier_Send_def sendHead_def Let_def)
  moreover have "rc_Sleep c = None \<and> Message_Validate m = None \<longrightarrow>
      (case RetryNotifier_Send (\<lambda>i. None) False c (counted send) m (s, 0) of
         (Some e, (s', calls)) \<Rightarrow> retryIf c e \<longrightarrow> int calls = rc_Attempts c
       | (None, (s', calls)) \<Rightarrow> True)"
    using retryLoop_gives_up [of c send m "nat (rc_Attempts c)" 1 None "(s, 0)"] b(4)
    by (auto simp: RetryNotifier_Send_def sendHead_def split: prod.split option.split)
  ultimately show ?thesis using d [of "k - 1"] b(1) by (simp add: retryDelay_def del: delayLoop.simps)
qed

definition sampleRetry :: RetryConfig where
  "sampleRetry = \<lparr>rc_Attempts = 0, rc_Backoff = 0, rc_MaxBackoff = 0, rc_RetryIf = None, rc_Sleep = None\<rparr>"

lemma retry_bounded_witness:
  "0 < retryDelay (normalizeRetryConfig sampleRetry) 3"
proof -
  have "NewRetryNotifier False sampleRetry = Inr (normalizeRetryConfig sampleRetry)"
    by (simp add: NewRetryNotifier_def normalizeRetryConfig_def sampleRetry_def Let_def
        defaultRetryAttempts_def defaultRetryBackoff_def defaultMaxBackoff_def)
  moreover have "i64 (rc_Backoff sampleRetry)" "i64 (rc_MaxBackoff sampleRetry)"
    by (simp_all add: sampleRetry_def i64_def)
  ultimately show ?thesis by (rule retry_bounded [THEN conjunct1])
qed

end
