(* ===== verification/Onboarding.thy ===== *)
theory Onboarding
  imports Tenant_Manager Deployment_Store Plan Subscription Feature Quota Audit_Log Notification
begin

text \<open>
  Onboarding (\<open>onboarding/service.go\<close>): one flow over seven services, each behind an interface.
  The services act on a world \<open>'s\<close>, which holds their stores, their contexts and clocks and
  whatever else happens meanwhile; a service that is nil is \<open>None\<close>. The service itself remembers
  the welcome messages it has sent. SHA-256 is a parameter.
\<close>

datatype onboard_error =
  ErrInvalidInput | OnboardCtx ctx_error | OnboardTenant tenant_error | OnboardPlan plan_error
| OnboardDeployment deployment_error | OnboardSubscription sub_error | OnboardFeature feature_error
| OnboardQuota quota_error | OnboardAudit audit_error | OnboardNotification notify_error

section \<open>The interfaces and the service\<close>

record 's tenantService =
  ts_Create :: "TenantInput \<Rightarrow> 's \<Rightarrow> (Tenant \<times> tenant_error option) \<times> 's"
  ts_Get :: "TenantID \<Rightarrow> 's \<Rightarrow> (tenant_error + Tenant) \<times> 's"
  ts_Activate :: "TenantID \<Rightarrow> 's \<Rightarrow> (tenant_error + Tenant) \<times> 's"

record 's planService =
  ps_Get :: "string \<Rightarrow> 's \<Rightarrow> (plan_error + Plan) \<times> 's"

text \<open>\<open>SubscribeWithPeriod\<close> is there when the service is a \<open>LifecycleService\<close>.\<close>

record 's subscriptionService =
  su_Get :: "TenantID \<Rightarrow> 's \<Rightarrow> (sub_error + Subscription) \<times> 's"
  su_Subscribe :: "TenantID \<Rightarrow> string \<Rightarrow> 's \<Rightarrow> (sub_error + Subscription) \<times> 's"
  su_SubscribeWithPeriod ::
    "(TenantID \<Rightarrow> string \<Rightarrow> Time \<Rightarrow> 's \<Rightarrow> (sub_error + Subscription) \<times> 's) option"

record 's featureStore =
  fs_SetPlanDefaults :: "string \<Rightarrow> Flag list \<Rightarrow> 's \<Rightarrow> (feature_error + unit) \<times> 's"
  fs_SetTenantOverrides :: "TenantID \<Rightarrow> Flag list \<Rightarrow> 's \<Rightarrow> (feature_error + unit) \<times> 's"
  fs_List :: "TenantID \<Rightarrow> string \<Rightarrow> 's \<Rightarrow> (feature_error + Flag list) \<times> 's"

record 's quotaStore =
  qs_Reset :: "TenantID \<Rightarrow> string \<Rightarrow> Period \<Rightarrow> 's \<Rightarrow> (quota_error + unit) \<times> 's"

record 's auditStore =
  at_List :: "TenantID \<Rightarrow> 's \<Rightarrow> (audit_error + AuditEvent list) \<times> 's"
  at_Record :: "AuditEvent \<Rightarrow> 's \<Rightarrow> (audit_error + unit) \<times> 's"

text \<open>The flow does not look at the assignment that \<open>Assign\<close> answers.\<close>

record 's deploymentService =
  dp_Assign :: "Tenant \<Rightarrow> DeploymentUnitID \<Rightarrow> 's \<Rightarrow> deployment_error option \<times> 's"
  dp_Resolve :: "Tenant \<Rightarrow> 's \<Rightarrow> (deployment_error + DeploymentUnit) \<times> 's"

record 's Onboarding =
  ob_tenants :: "'s tenantService option"
  ob_plans :: "'s planService option"
  ob_subscriptions :: "'s subscriptionService option"
  ob_features :: "'s featureStore option"
  ob_quotas :: "'s quotaStore option"
  ob_audit :: "'s auditStore option"
  ob_notifier :: "'s notifier option"
  ob_deployments :: "'s deploymentService option"

type_synonym 's onboarded = "'s \<times> (TenantID \<times> string) set"

type_synonym 's OnboardOption = "'s Onboarding \<Rightarrow> 's Onboarding"

definition WithFeatureStore :: "'s featureStore option \<Rightarrow> 's OnboardOption" where
  "WithFeatureStore store service = service\<lparr>ob_features := store\<rparr>"

definition WithQuotaStore :: "'s quotaStore option \<Rightarrow> 's OnboardOption" where
  "WithQuotaStore store service = service\<lparr>ob_quotas := store\<rparr>"

definition WithAuditStore :: "'s auditStore option \<Rightarrow> 's OnboardOption" where
  "WithAuditStore store service = service\<lparr>ob_audit := store\<rparr>"

definition WithNotifier :: "'s notifier option \<Rightarrow> 's OnboardOption" where
  "WithNotifier notifier service = service\<lparr>ob_notifier := notifier\<rparr>"

definition WithDeploymentService :: "'s deploymentService option \<Rightarrow> 's OnboardOption" where
  "WithDeploymentService deployments service = service\<lparr>ob_deployments := deployments\<rparr>"

text \<open>A new service has sent no message.\<close>

definition NewOnboarding ::
  "'s tenantService option \<Rightarrow> 's planService option \<Rightarrow> 's subscriptionService option
     \<Rightarrow> 's OnboardOption option list \<Rightarrow> 's Onboarding"
where
  "NewOnboarding tenants plans subscriptions opts =
     fold (\<lambda>opt service. case opt of None \<Rightarrow> service | Some f \<Rightarrow> f service) opts
       \<lparr>ob_tenants = tenants, ob_plans = plans, ob_subscriptions = subscriptions, ob_features = None,
        ob_quotas = None, ob_audit = None, ob_notifier = None, ob_deployments = None\<rparr>"

record OnboardInput =
  oi_Tenant :: TenantInput
  oi_DeploymentUnitID :: DeploymentUnitID
  oi_SubscriptionPeriodEnd :: "Time option"
  oi_FeatureOverrides :: "Flag list"
  oi_Welcome :: "Message option"
  oi_SkipActivation :: bool
  oi_AuditMetadata :: "(string, string) gomap option"

record OnboardResult =
  or_Tenant :: Tenant
  or_DeploymentUnit :: DeploymentUnit
  or_Plan :: Plan
  or_Subscription :: Subscription
  or_Features :: "Flag list"
  or_QuotaLimits :: "Limit list"

definition zeroSubscription :: Subscription where
  "zeroSubscription = \<lparr>sb_TenantID = [], sb_PlanID = [], sb_Status = StatusOther [], sb_StartDate = 0,
     sb_EndDate = None, sb_CurrentPeriodEnd = None, sb_GracePeriodEnd = None\<rparr>"

definition zeroPlan :: Plan where
  "zeroPlan = \<lparr>pl_ID = [], pl_Name = [], pl_Features = [], pl_Quotas = []\<rparr>"

definition zeroResult :: OnboardResult where
  "zeroResult = \<lparr>or_Tenant = zeroTenant, or_DeploymentUnit = zeroUnit, or_Plan = zeroPlan,
     or_Subscription = zeroSubscription, or_Features = [], or_QuotaLimits = []\<rparr>"

section \<open>Values of a request\<close>

definition validateInput :: "'s Onboarding option \<Rightarrow> OnboardInput \<Rightarrow> onboard_error option" where
  "validateInput service input =
     (case service of
        None \<Rightarrow> Some ErrInvalidInput
      | Some sv \<Rightarrow>
          if ob_tenants sv = None \<or> ob_plans sv = None \<or> ob_subscriptions sv = None then Some ErrInvalidInput
          else if in_PlanID (oi_Tenant input) = [] then Some ErrInvalidInput
          else if ob_deployments sv \<noteq> None \<and> oi_DeploymentUnitID input = [] then Some ErrInvalidInput
          else if ob_deployments sv = None \<and> oi_DeploymentUnitID input \<noteq> [] then Some ErrInvalidInput
          else if (case oi_SubscriptionPeriodEnd input of None \<Rightarrow> False
                   | Some t \<Rightarrow> IsZero t
                       \<or> (case ob_subscriptions sv of None \<Rightarrow> True
                          | Some subs \<Rightarrow> su_SubscribeWithPeriod subs = None)) then Some ErrInvalidInput
          else if oi_Welcome input \<noteq> None \<and> ob_notifier sv = None then Some ErrInvalidInput
          else None)"

definition planFeatureFlags :: "Feature list \<Rightarrow> Flag list" where
  "planFeatureFlags features =
     map (\<lambda>feature. \<lparr>fl_Key = ft_Key feature, fl_Enabled = ft_Enabled feature,
                     fl_Config = ft_Config feature\<rparr>) features"

definition quotaPeriod :: "string \<Rightarrow> Period" where
  "quotaPeriod period =
     (if period = ''none'' then ''none'' else if period = ''day'' then ''day''
      else if period = ''month'' then ''month'' else period)"

definition quotaLimits :: "TenantID \<Rightarrow> PlanQuota list \<Rightarrow> Limit list" where
  "quotaLimits tid quotas =
     map (\<lambda>quota. \<lparr>l_TenantID = tid, l_Resource = pq_Resource quota, l_Limit = pq_Limit quota,
                   l_Period = quotaPeriod (pq_Period quota)\<rparr>) quotas"

definition auditMetadata ::
  "string \<Rightarrow> TenantStatus \<Rightarrow> DeploymentUnitID \<Rightarrow> (string, string) gomap option \<Rightarrow> (string, string) gomap"
where
  "auditMetadata plan status uid extra =
     (let m0 = (case extra of None \<Rightarrow> [] | Some m \<Rightarrow> m);
          m1 = AList.update ''plan_id'' plan m0;
          m2 = AList.update ''tenant_status'' (tenantStatusString status) m1
      in if uid \<noteq> [] then AList.update ''deployment_unit_id'' uid m2 else m2)"

definition cloneWelcome :: "TenantID \<Rightarrow> Message \<Rightarrow> Message" where
  "cloneWelcome tid message = message\<lparr>mm_TenantID := tid\<rparr>"

definition onboardingOperationID :: "(char list \<Rightarrow> char list) \<Rightarrow> string \<Rightarrow> TenantID \<Rightarrow> string" where
  "onboardingOperationID sha256 kind tid =
     ''onboard_'' @ kind @ ''_'' @ hexEncode (take 16 (sha256 (kind @ [CHR 0x00] @ tid)))"

section \<open>The steps of the flow\<close>

fun isAlreadyExists :: "tenant_error \<Rightarrow> bool" where
  "isAlreadyExists ErrTenantAlreadyExists = True"
| "isAlreadyExists (ErrTenantJoined a b) = (isAlreadyExists a \<or> isAlreadyExists b)"
| "isAlreadyExists _ = False"

text \<open>The flow ignores whether the tenant is new.\<close>

definition createOrResumeTenant ::
  "'s tenantService \<Rightarrow> TenantInput \<Rightarrow> 's \<Rightarrow> (Tenant \<times> onboard_error option) \<times> 's"
where
  "createOrResumeTenant tenants input s =
     (case ts_Create tenants input s of
        ((created, None), s1) \<Rightarrow> ((created, None), s1)
      | ((created, Some e), s1) \<Rightarrow>
          if tn_ID created \<noteq> [] then ((created, Some (OnboardTenant e)), s1)
          else if in_ID input = [] \<or> \<not> isAlreadyExists e then ((zeroTenant, Some (OnboardTenant e)), s1)
          else
            (case ts_Get tenants (in_ID input) s1 of
               (Inl getErr, s2) \<Rightarrow> ((zeroTenant, Some (OnboardTenant getErr)), s2)
             | (Inr current, s2) \<Rightarrow>
                 if tn_Name current \<noteq> in_Name input \<or> tn_PlanID current \<noteq> in_PlanID input
                    \<or> \<not> mapsEqual (tn_Config current) (in_Config input)
                 then ((zeroTenant, Some ErrInvalidInput), s2)
                 else if tn_Status current \<noteq> TenantStatusPending \<and> tn_Status current \<noteq> TenantStatusActive
                 then ((zeroTenant, Some ErrInvalidInput), s2)
                 else ((current, None), s2)))"

definition subscriptionMatches :: "string \<Rightarrow> Time option \<Rightarrow> Subscription \<Rightarrow> bool" where
  "subscriptionMatches plan periodEnd current \<longleftrightarrow>
     \<not> (sb_PlanID current \<noteq> plan \<or> sb_Status current \<noteq> StatusActive)
     \<and> (periodEnd = None) = (sb_CurrentPeriodEnd current = None)
     \<and> (case (periodEnd, sb_CurrentPeriodEnd current) of (Some t, Some t') \<Rightarrow> t' = t | _ \<Rightarrow> True)"

definition existingSubscription ::
  "'s subscriptionService \<Rightarrow> TenantID \<Rightarrow> string \<Rightarrow> Time option \<Rightarrow> 's
     \<Rightarrow> (onboard_error + Subscription option) \<times> 's"
where
  "existingSubscription subs tid plan periodEnd s =
     (case su_Get subs tid s of
        (Inl e, s1) \<Rightarrow>
          if e = ErrSubscriptionNotFound then (Inr None, s1) else (Inl (OnboardSubscription e), s1)
      | (Inr current, s1) \<Rightarrow>
          if subscriptionMatches plan periodEnd current then (Inr (Some current), s1)
          else (Inl ErrInvalidInput, s1))"

definition onboardSubscribe ::
  "'s subscriptionService \<Rightarrow> TenantID \<Rightarrow> string \<Rightarrow> Time option \<Rightarrow> 's \<Rightarrow> (onboard_error + Subscription) \<times> 's"
where
  "onboardSubscribe subs tid plan periodEnd s =
     (case periodEnd of
        None \<Rightarrow> map_prod (map_sum OnboardSubscription id) id (su_Subscribe subs tid plan s)
      | Some t \<Rightarrow>
          (case su_SubscribeWithPeriod subs of
             None \<Rightarrow> (Inl ErrInvalidInput, s)
           | Some subscribeWithPeriod \<Rightarrow>
               map_prod (map_sum OnboardSubscription id) id (subscribeWithPeriod tid plan t s)))"

definition subscribeOrResume ::
  "'s subscriptionService \<Rightarrow> TenantID \<Rightarrow> string \<Rightarrow> Time option \<Rightarrow> 's \<Rightarrow> (onboard_error + Subscription) \<times> 's"
where
  "subscribeOrResume subs tid plan periodEnd s =
     (case onboardSubscribe subs tid plan periodEnd s of
        (Inr subscription, s1) \<Rightarrow> (Inr subscription, s1)
      | (Inl e, s1) \<Rightarrow>
          if e \<noteq> OnboardSubscription ErrSubscriptionAlreadyExists then (Inl e, s1)
          else on_done (existingSubscription subs tid plan periodEnd s1) (\<lambda>current s2.
            case current of
              None \<Rightarrow> (Inl (OnboardSubscription ErrSubscriptionNotFound), s2)
            | Some subscription \<Rightarrow> (Inr subscription, s2)))"

definition assignOrResolveDeployment ::
  "'s deploymentService \<Rightarrow> Tenant \<Rightarrow> DeploymentUnitID \<Rightarrow> 's
     \<Rightarrow> (DeploymentUnit \<times> onboard_error option) \<times> 's"
where
  "assignOrResolveDeployment deployments tenant uid s =
     (case dp_Assign deployments tenant uid s of (err, s1) \<Rightarrow>
        (case dp_Resolve deployments tenant s1 of (resolved, s2) \<Rightarrow>
           (case err of
              Some e \<Rightarrow>
                if e \<noteq> ErrAssignmentAlreadyExists
                then (case resolved of
                        Inr u \<Rightarrow> if du_ID u = uid then ((u, Some (OnboardDeployment e)), s2)
                                 else ((zeroUnit, Some (OnboardDeployment e)), s2)
                      | Inl _ \<Rightarrow> ((zeroUnit, Some (OnboardDeployment e)), s2))
                else (case resolved of
                        Inl e' \<Rightarrow> ((zeroUnit, Some (OnboardDeployment e')), s2)
                      | Inr u \<Rightarrow> if du_ID u \<noteq> uid then ((zeroUnit, Some ErrInvalidInput), s2)
                                 else ((u, None), s2))
            | None \<Rightarrow>
                (case resolved of
                   Inl e' \<Rightarrow> ((zeroUnit, Some (OnboardDeployment e')), s2)
                 | Inr u \<Rightarrow> if du_ID u \<noteq> uid then ((zeroUnit, Some ErrInvalidInput), s2)
                            else ((u, None), s2)))))"

definition placeTenant ::
  "'s deploymentService option \<Rightarrow> Tenant \<Rightarrow> DeploymentUnitID \<Rightarrow> 's
     \<Rightarrow> (DeploymentUnit \<times> onboard_error option) \<times> 's"
where
  "placeTenant deployments tenant uid s =
     (case deployments of None \<Rightarrow> ((zeroUnit, None), s)
      | Some dp \<Rightarrow> assignOrResolveDeployment dp tenant uid s)"

definition initializeFeatures ::
  "'s featureStore option \<Rightarrow> bool \<Rightarrow> TenantID \<Rightarrow> Plan \<Rightarrow> Flag list \<Rightarrow> 's
     \<Rightarrow> (onboard_error + Flag list) \<times> 's"
where
  "initializeFeatures features initialize tid plan overrides s =
     (case features of
        None \<Rightarrow> (Inr [], s)
      | Some fs \<Rightarrow>
          on_done
            (if \<not> initialize then (Inr (), s)
             else map_prod (map_sum OnboardFeature id) id
               (on_done (fs_SetPlanDefaults fs (pl_ID plan) (planFeatureFlags (pl_Features plan)) s)
                  (\<lambda>_ s1. if overrides = [] then (Inr (), s1)
                          else fs_SetTenantOverrides fs tid overrides s1)))
            (\<lambda>_ s2. map_prod (map_sum OnboardFeature id) id (fs_List fs tid (pl_ID plan) s2)))"

fun resetQuotas :: "'s quotaStore \<Rightarrow> Limit list \<Rightarrow> 's \<Rightarrow> (onboard_error + unit) \<times> 's" where
  "resetQuotas quotas [] s = (Inr (), s)"
| "resetQuotas quotas (limit # limits) s =
     (case qs_Reset quotas (l_TenantID limit) (l_Resource limit) (l_Period limit) s of
        (Inl e, s1) \<Rightarrow> (Inl (OnboardQuota e), s1)
      | (Inr _, s1) \<Rightarrow> resetQuotas quotas limits s1)"

definition initializeQuotas ::
  "'s quotaStore option \<Rightarrow> bool \<Rightarrow> Limit list \<Rightarrow> 's \<Rightarrow> (onboard_error + unit) \<times> 's"
where
  "initializeQuotas quotas initialize limits s =
     (case quotas of None \<Rightarrow> (Inr (), s)
      | Some qs \<Rightarrow> if initialize then resetQuotas qs limits s else (Inr (), s))"

definition activateTenant ::
  "'s tenantService \<Rightarrow> bool \<Rightarrow> Tenant \<Rightarrow> 's \<Rightarrow> (onboard_error + Tenant) \<times> 's"
where
  "activateTenant tenants skip created s =
     (if \<not> skip \<and> tn_Status created \<noteq> TenantStatusActive
      then map_prod (map_sum OnboardTenant id) id (ts_Activate tenants (tn_ID created) s)
      else (Inr created, s))"

definition hasOnboardingAudit :: "'s auditStore \<Rightarrow> AuditEvent \<Rightarrow> 's \<Rightarrow> (onboard_error + bool) \<times> 's" where
  "hasOnboardingAudit audit target s =
     (case at_List audit (au_TenantID target) s of
        (Inl e, s1) \<Rightarrow> (Inl (OnboardAudit e), s1)
      | (Inr events, s1) \<Rightarrow>
          (Inr (list_ex (\<lambda>event. au_ID event = au_ID target
             \<or> (au_Action event = au_Action target \<and> au_Resource event = au_Resource target)) events), s1))"

definition onboardEvent ::
  "(char list \<Rightarrow> char list) \<Rightarrow> TenantID \<Rightarrow> string \<Rightarrow> TenantStatus \<Rightarrow> DeploymentUnitID
     \<Rightarrow> (string, string) gomap option \<Rightarrow> AuditEvent"
where
  "onboardEvent sha256 tid plan status uid extra =
     \<lparr>au_ID = onboardingOperationID sha256 ''audit'' tid, au_TenantID = tid, au_ActorID = [],
      au_Action = ''tenant.onboard'', au_Resource = ''tenant:'' @ tid, au_CreatedAt = 0,
      au_Metadata = Some (auditMetadata plan status uid extra)\<rparr>"

definition recordOnboarding :: "'s auditStore option \<Rightarrow> AuditEvent \<Rightarrow> 's \<Rightarrow> (onboard_error + unit) \<times> 's" where
  "recordOnboarding audit event s =
     (case audit of None \<Rightarrow> (Inr (), s)
      | Some at \<Rightarrow> on_done (hasOnboardingAudit at event s) (\<lambda>recorded s1.
          if recorded then (Inr (), s1)
          else map_prod (map_sum OnboardAudit id) id (at_Record at event s1)))"

definition welcomeMessage :: "(char list \<Rightarrow> char list) \<Rightarrow> TenantID \<Rightarrow> Message \<Rightarrow> Message" where
  "welcomeMessage sha256 tid welcome =
     (let message = cloneWelcome tid welcome in
      if mm_ID message = [] then message\<lparr>mm_ID := onboardingOperationID sha256 ''welcome'' tid\<rparr>
      else message)"

text \<open>The last step: the answer is the result, the empty one where the source drops it.\<close>

definition sendWelcome ::
  "(char list \<Rightarrow> char list) \<Rightarrow> 's notifier option \<Rightarrow> TenantID \<Rightarrow> Message option \<Rightarrow> OnboardResult
     \<Rightarrow> 's onboarded \<Rightarrow> (OnboardResult \<times> onboard_error option) \<times> 's onboarded"
where
  "sendWelcome sha256 notifier tid welcome result st =
     (case welcome of
        None \<Rightarrow> ((result, None), st)
      | Some w \<Rightarrow>
          (case notifier of
             None \<Rightarrow> ((zeroResult, Some ErrInvalidInput), st)
           | Some send \<Rightarrow>
               let message = welcomeMessage sha256 tid w; key = (tid, mm_ID message) in
               if key \<in> snd st then ((result, None), st)
               else (case send message (fst st) of
                       (Some e, s1) \<Rightarrow> ((result, Some (OnboardNotification e)), (s1, snd st))
                     | (None, s1) \<Rightarrow> ((result, None), (s1, insert key (snd st))))))"

section \<open>The flow\<close>

text \<open>After a step that failed the answer is what has been completed, with the error.\<close>

definition or_return ::
  "OnboardResult \<Rightarrow> (TenantID \<times> string) set \<Rightarrow> (onboard_error + 'a) \<times> 's
     \<Rightarrow> ('a \<Rightarrow> 's \<Rightarrow> (OnboardResult \<times> onboard_error option) \<times> 's onboarded)
     \<Rightarrow> (OnboardResult \<times> onboard_error option) \<times> 's onboarded"
where
  "or_return result sent p k =
     (case p of (Inl e, s) \<Rightarrow> ((result, Some e), (s, sent)) | (Inr a, s) \<Rightarrow> k a s)"

definition completeOnboarding ::
  "(char list \<Rightarrow> char list) \<Rightarrow> 's Onboarding \<Rightarrow> 's tenantService \<Rightarrow> OnboardInput \<Rightarrow> Tenant \<Rightarrow> string
     \<Rightarrow> OnboardResult \<Rightarrow> (TenantID \<times> string) set \<Rightarrow> 's
     \<Rightarrow> (OnboardResult \<times> onboard_error option) \<times> 's onboarded"
where
  "completeOnboarding sha256 sv tenants input created plan result sent s =
     or_return result sent (activateTenant tenants (oi_SkipActivation input) created s)
       (\<lambda>tenant s1. let result = result\<lparr>or_Tenant := tenant\<rparr> in
     or_return result sent
       (recordOnboarding (ob_audit sv)
          (onboardEvent sha256 (tn_ID created) plan (tn_Status (or_Tenant result))
             (du_ID (or_DeploymentUnit result)) (oi_AuditMetadata input)) s1)
       (\<lambda>_ s2. sendWelcome sha256 (ob_notifier sv) (tn_ID created) (oi_Welcome input) result (s2, sent)))"

definition initializeTenant ::
  "(char list \<Rightarrow> char list) \<Rightarrow> 's Onboarding \<Rightarrow> 's tenantService \<Rightarrow> 's subscriptionService
     \<Rightarrow> OnboardInput \<Rightarrow> Tenant \<Rightarrow> Plan \<Rightarrow> OnboardResult \<Rightarrow> (TenantID \<times> string) set \<Rightarrow> 's
     \<Rightarrow> (OnboardResult \<times> onboard_error option) \<times> 's onboarded"
where
  "initializeTenant sha256 sv tenants subs input created plan result sent s =
     or_return result sent
       (existingSubscription subs (tn_ID created) (pl_ID plan) (oi_SubscriptionPeriodEnd input) s)
       (\<lambda>existing s1.
     or_return result sent
       (initializeFeatures (ob_features sv) (existing = None) (tn_ID created) plan
          (oi_FeatureOverrides input) s1)
       (\<lambda>flags s2. let result = result\<lparr>or_Features := flags\<rparr> in
     or_return result sent
       (initializeQuotas (ob_quotas sv) (existing = None) (or_QuotaLimits result) s2)
       (\<lambda>_ s3.
     or_return result sent
       (case existing of Some subscription \<Rightarrow> (Inr subscription, s3)
        | None \<Rightarrow> subscribeOrResume subs (tn_ID created) (pl_ID plan) (oi_SubscriptionPeriodEnd input) s3)
       (\<lambda>subscription s4. let result = result\<lparr>or_Subscription := subscription\<rparr> in
     completeOnboarding sha256 sv tenants input created (pl_ID plan) result sent s4))))"

definition Onboard ::
  "(char list \<Rightarrow> char list) \<Rightarrow> ctx \<Rightarrow> 's Onboarding option \<Rightarrow> OnboardInput \<Rightarrow> 's onboarded
     \<Rightarrow> (OnboardResult \<times> onboard_error option) \<times> 's onboarded"
where
  "Onboard sha256 cx service input st =
     (case validateInput service input of
        Some e \<Rightarrow> ((zeroResult, Some e), st)
      | None \<Rightarrow>
          (case cx of
             Some e \<Rightarrow> ((zeroResult, Some (OnboardCtx e)), st)
           | None \<Rightarrow>
               let sv = the service; tenants = the (ob_tenants sv); plans = the (ob_plans sv);
                   subs = the (ob_subscriptions sv); sent = snd st in
               or_return zeroResult sent
                 (map_prod (map_sum OnboardPlan id) id (ps_Get plans (in_PlanID (oi_Tenant input)) (fst st)))
                 (\<lambda>plan s1.
                   case createOrResumeTenant tenants (oi_Tenant input) s1 of
                     ((created, err), s2) \<Rightarrow>
                       let result = zeroResult\<lparr>or_Tenant := created, or_Plan := plan,
                             or_QuotaLimits := quotaLimits (tn_ID created) (pl_Quotas plan)\<rparr> in
                       (case err of
                          Some e \<Rightarrow>
                            (((if tn_ID created = [] then zeroResult else result), Some e), (s2, sent))
                        | None \<Rightarrow>
                            (case placeTenant (ob_deployments sv) created (oi_DeploymentUnitID input) s2 of
                               ((unit_placed, placeErr), s3) \<Rightarrow>
                                 let result = result\<lparr>or_DeploymentUnit := unit_placed\<rparr> in
                                 (case placeErr of
                                    Some e \<Rightarrow> ((result, Some e), (s3, sent))
                                  | None \<Rightarrow> initializeTenant sha256 sv tenants subs input created plan
                                              result sent s3))))))"

end
