(* ===== verification/Onboarding_Platform.thy ===== *)
theory Onboarding_Platform
  imports Onboarding Tenant_Guarantees Deployment_Guarantees Subscription_Guarantees
begin

text \<open>
  Onboarding on the platform whose services are the in-memory ones, with nobody else active: what
  each step of the flow changes, and what it has established when it succeeds. The manager's
  generator, seeder and auditor, the deployment policy, the billing hook, the delivery of messages,
  and which integrations are configured, are free.
\<close>

record platformConfig =
  pc_manager :: "TenantMemory Manager"
  pc_hook :: "(nat \<Rightarrow> BillingEvent \<Rightarrow> hookOutcome) option"
  pc_deployments :: "DeployService option"
  pc_features :: bool
  pc_quotas :: bool
  pc_audit :: bool
  pc_deliver :: "(Message \<Rightarrow> notify_error option) option"
  pc_now :: Time

record Platform =
  pt_tenants :: "TenantMemory managed"
  pt_plans :: PlanMemory
  pt_subs :: SubService
  pt_features :: FeatureMemory
  pt_quotas :: QuotaMemory
  pt_audit :: AuditMemory
  pt_deploy :: deployed
  pt_mail :: "Message list"

definition platformManager :: "platformConfig \<Rightarrow> TenantMemory Manager" where
  "platformManager c = (pc_manager c)\<lparr>mg_store := memoryTenantOps\<rparr>"

definition platformSubEnv :: "platformConfig \<Rightarrow> subEnv" where
  "platformSubEnv c = \<lparr>se_ctx = (\<lambda>_. None), se_now = (\<lambda>_. pc_now c), se_other = (\<lambda>_ sv. sv),
     se_during = (\<lambda>_ _ sv. sv), se_hook = pc_hook c\<rparr>"

definition onTenants :: "(TenantMemory managed \<Rightarrow> 'r \<times> TenantMemory managed) \<Rightarrow> Platform \<Rightarrow> 'r \<times> Platform" where
  "onTenants f s = (case f (pt_tenants s) of (r, x) \<Rightarrow> (r, s\<lparr>pt_tenants := x\<rparr>))"

definition onFeatures :: "(FeatureMemory \<Rightarrow> 'r \<times> FeatureMemory) \<Rightarrow> Platform \<Rightarrow> 'r \<times> Platform" where
  "onFeatures f s = (case f (pt_features s) of (r, x) \<Rightarrow> (r, s\<lparr>pt_features := x\<rparr>))"

definition onDeploy :: "(deployed \<Rightarrow> 'r \<times> deployed) \<Rightarrow> Platform \<Rightarrow> 'r \<times> Platform" where
  "onDeploy f s = (case f (pt_deploy s) of (r, x) \<Rightarrow> (r, s\<lparr>pt_deploy := x\<rparr>))"

text \<open>A mutation that never returns has no answer; that of an idle service returns.\<close>

definition onSubs :: "(SubService \<Rightarrow> Subscription subResult) \<Rightarrow> Platform \<Rightarrow> (sub_error + Subscription) \<times> Platform"
where
  "onSubs f s =
     (case f (pt_subs s) of
        None \<Rightarrow> (Inl (SubCtx DeadlineExceeded), s)
      | Some (r, x, k) \<Rightarrow> (r, s\<lparr>pt_subs := x\<rparr>))"

definition platformTenants :: "platformConfig \<Rightarrow> Platform tenantService" where
  "platformTenants c =
     \<lparr>ts_Create = (\<lambda>input. onTenants (\<lambda>st.
        map_prod (map_prod (case_option zeroTenant id) id) id (Manager_Create (platformManager c) quietEnv input st))),
      ts_Get = (\<lambda>tid. onTenants (Manager_Get (platformManager c) quietEnv tid)),
      ts_Activate = (\<lambda>tid. onTenants (Manager_Activate (platformManager c) quietEnv tid))\<rparr>"

definition platformPlans :: "Platform planService" where
  "platformPlans = \<lparr>ps_Get = (\<lambda>i s. (Plans_Get None i (pt_plans s), s))\<rparr>"

definition platformSubs :: "platformConfig \<Rightarrow> Platform subscriptionService" where
  "platformSubs c =
     \<lparr>su_Get = (\<lambda>tid s. (Sub_Get 0 None [] tid (pt_subs s), s)),
      su_Subscribe = (\<lambda>tid plan. onSubs (Sub_Subscribe (platformSubEnv c) [] tid plan)),
      su_SubscribeWithPeriod =
        Some (\<lambda>tid plan t. onSubs (Sub_SubscribeWithPeriod (platformSubEnv c) [] tid plan t))\<rparr>"

definition platformFeatures :: "Platform featureStore" where
  "platformFeatures =
     \<lparr>fs_SetPlanDefaults = (\<lambda>plan flags. onFeatures (Features_SetPlanDefaults None plan flags)),
      fs_SetTenantOverrides = (\<lambda>tid flags. onFeatures (Features_SetTenantOverrides None tid flags)),
      fs_List = (\<lambda>tid plan s. (Features_List None tid plan (pt_features s), s))\<rparr>"

definition platformQuotas :: "Platform quotaStore" where
  "platformQuotas = \<lparr>qs_Reset = (\<lambda>tid resource period s.
     case Quota_Reset None tid resource period (pt_quotas s) of (r, x) \<Rightarrow> (r, s\<lparr>pt_quotas := x\<rparr>))\<rparr>"

definition platformAudit :: "platformConfig \<Rightarrow> Platform auditStore" where
  "platformAudit c =
     \<lparr>at_List = (\<lambda>tid s. (Audit_List None tid (pt_audit s), s)),
      at_Record = (\<lambda>event s. case Audit_Record None (pc_now c) event (pt_audit s) of
        (r, x) \<Rightarrow> (r, s\<lparr>pt_audit := x\<rparr>))\<rparr>"

definition platformDeployments :: "DeployService \<Rightarrow> Platform deploymentService" where
  "platformDeployments d =
     \<lparr>dp_Assign = (\<lambda>tenant uid. onDeploy (\<lambda>st.
        map_prod snd id (DeployService_Assign (Some d) quietDeploy tenant uid st))),
      dp_Resolve = (\<lambda>tenant. onDeploy (DeployService_Resolve (Some d) quietDeploy tenant))\<rparr>"

definition platformNotifier :: "(Message \<Rightarrow> notify_error option) \<Rightarrow> Platform notifier" where
  "platformNotifier deliver message s =
     (case deliver message of
        Some e \<Rightarrow> (Some e, s) | None \<Rightarrow> (None, s\<lparr>pt_mail := pt_mail s @ [message]\<rparr>))"

definition platformOnboarding :: "platformConfig \<Rightarrow> Platform Onboarding" where
  "platformOnboarding c = NewOnboarding (Some (platformTenants c)) (Some platformPlans) (Some (platformSubs c))
     [Some (WithFeatureStore (if pc_features c then Some platformFeatures else None)),
      Some (WithQuotaStore (if pc_quotas c then Some platformQuotas else None)),
      Some (WithAuditStore (if pc_audit c then Some (platformAudit c) else None)),
      Some (WithNotifier (map_option platformNotifier (pc_deliver c))),
      Some (WithDeploymentService (map_option platformDeployments (pc_deployments c)))]"

text \<open>What holds of every such platform: the stores are well formed and nothing is pending.\<close>

definition platform_inv :: "Platform \<Rightarrow> bool" where
  "platform_inv s \<longleftrightarrow> tenant_inv (fst (pt_tenants s)) \<and> plan_inv (pt_plans s)
     \<and> sub_inv (pt_subs s) \<and> ss_pending (pt_subs s) = []
     \<and> keyed_map du_ID (dm_units (fst (pt_deploy s)))"

lemma platformOnboarding_simps [simp]:
  "ob_tenants (platformOnboarding c) = Some (platformTenants c)"
  "ob_plans (platformOnboarding c) = Some platformPlans"
  "ob_subscriptions (platformOnboarding c) = Some (platformSubs c)"
  "ob_features (platformOnboarding c) = (if pc_features c then Some platformFeatures else None)"
  "ob_quotas (platformOnboarding c) = (if pc_quotas c then Some platformQuotas else None)"
  "ob_audit (platformOnboarding c) = (if pc_audit c then Some (platformAudit c) else None)"
  "ob_notifier (platformOnboarding c) = map_option platformNotifier (pc_deliver c)"
  "ob_deployments (platformOnboarding c) = map_option platformDeployments (pc_deployments c)"
  by (simp_all add: platformOnboarding_def NewOnboarding_def WithFeatureStore_def WithQuotaStore_def
      WithAuditStore_def WithNotifier_def WithDeploymentService_def)

section \<open>Tenants\<close>

definition resumable :: "TenantInput \<Rightarrow> Tenant \<Rightarrow> bool" where
  "resumable input t \<longleftrightarrow> tn_Name t = in_Name input \<and> tn_PlanID t = in_PlanID input
     \<and> mapsEqual (tn_Config t) (in_Config input)
     \<and> (tn_Status t = TenantStatusPending \<or> tn_Status t = TenantStatusActive)"

lemma platformManager_simps [simp]:
  "mg_store (platformManager c) = memoryTenantOps"
  "mg_generateID (platformManager c) = mg_generateID (pc_manager c)"
  "mg_seed (platformManager c) = mg_seed (pc_manager c)"
  "mg_audit (platformManager c) = mg_audit (pc_manager c)"
  by (simp_all add: platformManager_def)

lemma quiet_call [simp]:
  "storeCall quietEnv k call st = (case call None (fst st) of (r, s') \<Rightarrow> (r, (s', snd st)))"
  by (simp add: storeCall_def quietEnv_def)

lemma memoryTenantOps_simps [simp]:
  "to_Get memoryTenantOps = Tenants_Get" "to_Create memoryTenantOps = Tenants_Create"
  "to_Delete memoryTenantOps = Tenants_Delete"
  by (simp_all add: memoryTenantOps_def)

text \<open>
  One creation: the tenant the answer names is the only one touched, and it was not there.
\<close>

lemma put_new_tenant:
  assumes "Tenants_Create None t s = (Inr u, s1)"
  shows "tn_ID t \<noteq> []" "tenantsOf s (tn_ID t) = None" "s1 = putTenant t s" "validateTenant t = Inr ()"
  using assms by (auto simp: Tenants_Create_def tenantCtx_def tenantsOf_def ok_simps validateTenant_def
      split: if_splits)

lemma tenantsOf_put [simp]: "tenantsOf (putTenant t s) = (tenantsOf s)(tn_ID t \<mapsto> t)"
  by (simp add: tenantsOf_def putTenant_def)

lemma delete_tenant:
  assumes "Tenants_Delete None tid s = (r, s')" "tenant_inv s"
  shows "tenant_inv s' \<and> (\<forall>i. i \<noteq> tid \<longrightarrow> tenantsOf s' i = tenantsOf s i)
    \<and> (r = Inr () \<longrightarrow> tenantsOf s' tid = None) \<and> (\<forall>e. r = Inl e \<longrightarrow> s' = s)"
  using assms
  by (auto simp: Tenants_Delete_def tenantCtx_def tenantsOf_def tenant_inv_def keyed_map_delete split: if_splits)

text \<open>
  One creation: the tenant it names is the only one touched, and only if it was not there.
\<close>

definition created_at :: "TenantInput \<Rightarrow> TenantID \<Rightarrow> Tenant option \<Rightarrow> TenantMemory \<Rightarrow> TenantMemory \<Rightarrow> bool" where
  "created_at input tid t s s' \<longleftrightarrow> (in_ID input \<noteq> [] \<longrightarrow> tid = in_ID input)
     \<and> (\<forall>i. i \<noteq> tid \<longrightarrow> tenantsOf s' i = tenantsOf s i)
     \<and> (tenantsOf s tid \<noteq> None \<longrightarrow> s' = s)
     \<and> (\<forall>t'. t = Some t' \<longrightarrow> tn_ID t' = tid \<and> tid \<noteq> [] \<and> tenantsOf s tid = None
          \<and> tenantsOf s' tid = Some t' \<and> resumable input t')"

lemma create_platform:
  assumes "Manager_Create (platformManager c) quietEnv input st = ((t, err), st')" "tenant_inv (fst st)"
  shows "tenant_inv (fst st') \<and> (\<exists>tid. created_at input tid t (fst st) (fst st')) \<and> (err = None \<longrightarrow> t \<noteq> None)"
proof (cases "if in_ID input = [] then mg_generateID (platformManager c) else Inr (in_ID input)")
  case (Inl e)
  then have "Manager_Create (platformManager c) quietEnv input st = ((None, Some e), st)"
    by (simp add: Manager_Create_def split del: if_split)
  moreover have "created_at input (in_ID input) None (fst st) (fst st)" by (simp add: created_at_def)
  ultimately show ?thesis using assms by auto
next
  case gen: (Inr tid)
  let ?t = "\<lparr>tn_ID = tid, tn_Name = in_Name input, tn_Status = TenantStatusPending,
             tn_PlanID = in_PlanID input, tn_Config = in_Config input\<rparr>"
  have tid: "in_ID input \<noteq> [] \<longrightarrow> tid = in_ID input" using gen by (auto split: if_splits)
  have res: "resumable input ?t" by (simp add: resumable_def)
  obtain r s1 where cr: "Tenants_Create None ?t (fst st) = (r, s1)" by (metis surj_pair)
  show ?thesis
  proof (cases r)
    case (Inl e)
    then have "s1 = fst st" using cr by (auto simp: Tenants_Create_def on_ok_result split: if_splits)
    with Inl have "Manager_Create (platformManager c) quietEnv input st = ((None, Some e), st)"
      using gen cr by (simp add: Manager_Create_def split del: if_split)
    moreover have "created_at input tid None (fst st) (fst st)" using tid by (simp add: created_at_def)
    ultimately show ?thesis using assms by auto
  next
    case (Inr u)
    note new = put_new_tenant [OF cr [unfolded Inr]]
    have inv1: "tenant_inv s1" using new assms(2) tenant_inv_put by simp
    have kept: "created_at input tid (Some ?t) (fst st) s1" using tid new res by (simp add: created_at_def)
    then have none: "created_at input tid None (fst st) s1" by (simp add: created_at_def)
    let ?seed = "case mg_seed (pc_manager c) of None \<Rightarrow> None | Some seed \<Rightarrow> seed ?t"
    show ?thesis
    proof (cases ?seed)
      case None
      then have "\<exists>e log. Manager_Create (platformManager c) quietEnv input st = ((Some ?t, e), (s1, log))"
        using gen cr \<open>r = Inr u\<close>
        by (cases "mg_audit (pc_manager c)") (auto simp: Manager_Create_def emit_def split del: if_split split: option.split)
      then show ?thesis using assms(1) inv1 kept by auto
    next
      case (Some seedErr)
      obtain r2 s2 where del: "Tenants_Delete None tid s1 = (r2, s2)" by (metis surj_pair)
      note gone = delete_tenant [OF del inv1]
      have "Manager_Create (platformManager c) quietEnv input st
          = (case r2 of Inl e \<Rightarrow> ((Some ?t, Some (ErrTenantJoined seedErr e)), (s2, snd st))
             | Inr v \<Rightarrow> ((None, Some seedErr), (s2, snd st)))"
        using gen cr \<open>r = Inr u\<close> Some del
        by (cases r2) (simp_all add: Manager_Create_def split del: if_split)
      moreover have "created_at input tid None (fst st) s2"
        using none gone new(2) by (simp add: created_at_def)
      moreover have "r2 = Inl e \<Longrightarrow> s2 = s1" for e using gone by simp
      ultimately show ?thesis using assms(1) gone inv1 kept by (cases r2) auto
    qed
  qed
qed

lemma get_platform:
  "Manager_Get (platformManager c) quietEnv tid st = (Tenants_Get None tid (fst st), st)"
  by (simp add: Manager_Get_def managerGet_def)

lemma Tenants_Get_Inr: "Tenants_Get None tid s = Inr t \<longleftrightarrow> tid \<noteq> [] \<and> tenantsOf s tid = Some t"
  by (auto simp: Tenants_Get_def tenantCtx_def tenantsOf_def split: option.splits)

lemma createOrResume_platform:
  assumes "createOrResumeTenant (platformTenants c) input s = ((t, err), s')" "platform_inv s"
  shows "\<exists>x tid. s' = s\<lparr>pt_tenants := x\<rparr> \<and> tenant_inv (fst x) \<and> (in_ID input \<noteq> [] \<longrightarrow> tid = in_ID input)
    \<and> (\<forall>i. i \<noteq> tid \<longrightarrow> tenantsOf (fst x) i = tenantsOf (fst (pt_tenants s)) i)
    \<and> (in_ID input = [] \<and> tenantsOf (fst (pt_tenants s)) tid \<noteq> None \<longrightarrow> fst x = fst (pt_tenants s) \<and> err \<noteq> None)
    \<and> (err = None \<longrightarrow> tn_ID t = tid \<and> tid \<noteq> [] \<and> tenantsOf (fst x) tid = Some t \<and> resumable input t)"
proof -
  obtain t0 e0 x where cr: "Manager_Create (platformManager c) quietEnv input (pt_tenants s) = ((t0, e0), x)"
    by (metis surj_pair)
  have inv: "tenant_inv (fst (pt_tenants s))" using assms(2) by (simp add: platform_inv_def)
  from create_platform [OF cr inv] obtain tid where
    at: "tenant_inv (fst x)" "created_at input tid t0 (fst (pt_tenants s)) (fst x)" and some: "e0 = None \<longrightarrow> t0 \<noteq> None"
    by blast
  have call: "ts_Create (platformTenants c) input s = ((case_option zeroTenant id t0, e0), s\<lparr>pt_tenants := x\<rparr>)"
    using cr by (simp add: platformTenants_def onTenants_def)
  have frame: "(in_ID input \<noteq> [] \<longrightarrow> tid = in_ID input)
      \<and> (\<forall>i. i \<noteq> tid \<longrightarrow> tenantsOf (fst x) i = tenantsOf (fst (pt_tenants s)) i)"
    using at(2) by (simp add: created_at_def)
  have s': "s' = s\<lparr>pt_tenants := x\<rparr>" using assms(1) call
    by (auto simp: createOrResumeTenant_def platformTenants_def onTenants_def get_platform
        split: option.splits if_splits sum.splits)
  have "tn_ID t = tid \<and> tid \<noteq> [] \<and> tenantsOf (fst x) tid = Some t \<and> resumable input t" if e: "err = None"
  proof (cases e0)
    case None
    then obtain t' where "t0 = Some t'" using some by auto
    then show ?thesis using assms(1) call None at(2) by (simp add: createOrResumeTenant_def created_at_def)
  next
    case (Some e1)
    with assms(1) call e have "in_ID input \<noteq> []" "Tenants_Get None (in_ID input) (fst x) = Inr t" "resumable input t"
      by (auto simp: createOrResumeTenant_def platformTenants_def onTenants_def get_platform resumable_def
          split: option.splits if_splits sum.splits)
    then show ?thesis using frame at(1) by (auto simp: Tenants_Get_Inr tenant_inv_def tenantsOf_def dest: keyed_mapD)
  qed
  moreover have "fst x = fst (pt_tenants s) \<and> err \<noteq> None"
    if "in_ID input = []" "tenantsOf (fst (pt_tenants s)) tid \<noteq> None"
    using that at(2) some assms(1) call
    by (auto simp: created_at_def createOrResumeTenant_def split: option.splits if_splits)
  ultimately show ?thesis using s' at(1) frame by blast
qed

lemma activate_platform:
  assumes "activateTenant (platformTenants c) skip t s = (r, s')" "platform_inv s" "tn_ID t \<noteq> []"
    and "tenantsOf (fst (pt_tenants s)) (tn_ID t) = Some t"
    and "tn_Status t = TenantStatusPending \<or> tn_Status t = TenantStatusActive"
  shows "\<exists>x. s' = s\<lparr>pt_tenants := x\<rparr> \<and> tenant_inv (fst x)
    \<and> (\<forall>i. i \<noteq> tn_ID t \<longrightarrow> tenantsOf (fst x) i = tenantsOf (fst (pt_tenants s)) i)
    \<and> (\<forall>t'. r = Inr t' \<longrightarrow> tenantsOf (fst x) (tn_ID t) = Some t'
         \<and> t' = (if skip then t else t\<lparr>tn_Status := TenantStatusActive\<rparr>))"
proof (cases "\<not> skip \<and> tn_Status t \<noteq> TenantStatusActive")
  case False
  then have "r = Inr t" "s' = s" "t\<lparr>tn_Status := TenantStatusActive\<rparr> = t \<or> skip"
    using assms(1) by (auto simp: activateTenant_def)
  then show ?thesis using assms(2,4) by (intro exI [of _ "pt_tenants s"]) (auto simp: platform_inv_def)
next
  case True
  let ?a = "t\<lparr>tn_Status := TenantStatusActive\<rparr>"
  obtain ts log where st: "pt_tenants s = (ts, log)" by (cases "pt_tenants s")
  have inv: "tenant_inv ts" using assms(2) st by (simp add: platform_inv_def)
  have valid: "validateTenant ?a = Inr ()" using assms(3) by (simp add: validateTenant_def)
  have "Manager_Activate (platformManager c) quietEnv (tn_ID t) (ts, log)
      = on_done (emit (platformManager c) \<lparr>te_TenantID = tn_ID t, te_Action = ''activate'',
           te_From = tn_Status t, te_To = tn_Status ?a\<rparr> (putTenant ?a ts, log)) (\<lambda>_ st. (Inr ?a, st))"
    unfolding Manager_Activate_def transition_def
    by (rule casLoop_quiet) (use assms(3-5) True st inv valid in
      \<open>auto simp: quietly_def quietEnv_def withNext_def activateTransitions_def maxCompareAndSwapAttempts_def\<close>)
  then obtain r1 log1 where
    run: "Manager_Activate (platformManager c) quietEnv (tn_ID t) (ts, log) = (r1, (putTenant ?a ts, log1))"
    "\<forall>t'. r1 = Inr t' \<longrightarrow> t' = ?a"
    by (cases "mg_audit (pc_manager c)") (auto simp: emit_def split: option.splits)
  have "s' = s\<lparr>pt_tenants := (putTenant ?a ts, log1)\<rparr>" "\<forall>t'. r = Inr t' \<longrightarrow> t' = ?a"
    using assms(1) True run st by (cases r1; auto simp: activateTenant_def platformTenants_def onTenants_def)+
  then show ?thesis using True tenant_inv_put [OF inv valid] st by auto
qed

section \<open>Placement\<close>

lemma resolve_platform:
  assumes "DeployService_Resolve (Some d) quietDeploy t st = (r, st')"
  shows "st' = st" "tn_ID t = tn_ID t' \<Longrightarrow> DeployService_Resolve (Some d) quietDeploy t' st = (r, st')"
proof -
  obtain s log where st: "st = (s, log)" by (cases st)
  show "st' = st" using assms
    by (auto simp: st DeployService_Resolve_def on_ok_result on_done_def call_undisturbed [OF quietDeploy_undisturbed]
        split: if_splits sum.splits prod.splits)
  show "tn_ID t = tn_ID t' \<Longrightarrow> DeployService_Resolve (Some d) quietDeploy t' st = (r, st')"
    using assms by (simp add: DeployService_Resolve_def cong: if_cong)
qed

lemma assign_platform:
  assumes "DeployService_Assign (Some d) quietDeploy t uid st = (r, st')"
  shows "(\<forall>i. i \<noteq> tn_ID t \<longrightarrow> map_of (dm_assignments (fst st')) i = map_of (dm_assignments (fst st)) i)
    \<and> dm_units (fst st') = dm_units (fst st)"
proof -
  obtain s log where st: "st = (s, log)" by (cases st)
  show ?thesis using assms
    by (auto simp: st DeployService_Assign_def withService_def activeUnitFor_def finishCall_def deployEmit_def
        on_done_def call_undisturbed [OF quietDeploy_undisturbed] Deploy_CreateAssignment_def on_ok_def
        putAssignment_def Let_def split: if_splits sum.splits prod.splits option.splits)
qed

lemma place_platform:
  assumes "placeTenant (ob_deployments (platformOnboarding c)) t uid s = ((u, err), s')"
  shows "\<exists>x. s' = s\<lparr>pt_deploy := x\<rparr> \<and> dm_units (fst x) = dm_units (fst (pt_deploy s))
    \<and> (\<forall>i. i \<noteq> tn_ID t \<longrightarrow> map_of (dm_assignments (fst x)) i = map_of (dm_assignments (fst (pt_deploy s))) i)
    \<and> (err = None \<longrightarrow> (case pc_deployments c of None \<Rightarrow> u = zeroUnit
         | Some d \<Rightarrow> DeployService_Resolve (Some d) quietDeploy t x = (Inr u, x) \<and> du_ID u = uid))"
proof (cases "pc_deployments c")
  case None
  then show ?thesis using assms by (intro exI [of _ "pt_deploy s"]) (auto simp: placeTenant_def)
next
  case (Some d)
  obtain a x where as: "DeployService_Assign (Some d) quietDeploy t uid (pt_deploy s) = (a, x)" by (metis surj_pair)
  obtain r x' where res: "DeployService_Resolve (Some d) quietDeploy t x = (r, x')" by (metis surj_pair)
  have "x' = x" using resolve_platform(1) [OF res] .
  then show ?thesis using assms Some as res assign_platform [OF as]
    by (intro exI [of _ x])
       (auto simp: placeTenant_def assignOrResolveDeployment_def platformDeployments_def onDeploy_def
         split: option.splits sum.splits if_splits)
qed

section \<open>Subscriptions\<close>

lemma existing_platform:
  assumes "existingSubscription (platformSubs c) tid plan pe s = (r, s')"
  shows "s' = s
    \<and> (\<forall>sub. r = Inr (Some sub) \<longrightarrow> Sub_Get 0 None [] tid (pt_subs s) = Inr sub \<and> subscriptionMatches plan pe sub)
    \<and> (r = Inr None \<longrightarrow> Sub_Get 0 None [] tid (pt_subs s) = Inl ErrSubscriptionNotFound)"
  using assms by (auto simp: existingSubscription_def platformSubs_def split: sum.splits if_splits)

lemma platformSubEnv_simps [simp]:
  "se_ctx (platformSubEnv c) k = None" "se_now (platformSubEnv c) k = pc_now c"
  by (simp_all add: platformSubEnv_def)

lemma idle_lock:
  "ss_pending sv = [] \<Longrightarrow> lockMutation (platformSubEnv c) chain k tid sv = Some (Inr (), sv, k + 1)"
  by (subst lockMutation.simps) (simp add: platformSubEnv_def)

lemma Sub_Get_idle:
  "ss_pending sv = [] \<Longrightarrow> Sub_Get 0 None [] tid sv = Inr s \<longleftrightarrow> tid \<noteq> [] \<and> map_of (ss_subscriptions sv) tid = Some s"
  by (auto simp: Sub_Get_def onCommitted_def split: option.splits)

text \<open>A new subscription of an idle service, whatever the billing hook answers.\<close>

lemma subscribe_platform:
  assumes "sub_inv sv" "ss_pending sv = []" "plan \<noteq> []" "tid \<noteq> []"
  shows "\<exists>r sv' k. subscribe (platformSubEnv c) [] tid plan pe sv = Some (r, sv', k) \<and> sub_inv sv'
    \<and> ss_pending sv' = [] \<and> (\<forall>i. i \<noteq> tid \<longrightarrow> map_of (ss_subscriptions sv') i = map_of (ss_subscriptions sv) i)
    \<and> (\<forall>e. r = Inl e \<longrightarrow> map_of (ss_subscriptions sv') tid = map_of (ss_subscriptions sv) tid)
    \<and> (\<forall>s. r = Inr s \<longrightarrow> map_of (ss_subscriptions sv) tid = None
         \<and> map_of (ss_subscriptions sv') tid = Some s \<and> subscriptionMatches plan pe s)"
proof (cases "map_of (ss_subscriptions sv) tid")
  case (Some old)
  then have "subscribe (platformSubEnv c) [] tid plan pe sv = Some (Inl ErrSubscriptionAlreadyExists, sv, 2)"
    using assms by (simp add: subscribe_def idle_lock locked_def stageAndBill_def subscribeDecision_def)
  then show ?thesis using assms by auto
next
  case None
  let ?s0 = "\<lparr>sb_TenantID = tid, sb_PlanID = plan, sb_Status = StatusActive, sb_StartDate = pc_now c,
    sb_EndDate = None, sb_CurrentPeriodEnd = None, sb_GracePeriodEnd = None\<rparr>"
  let ?s = "case pe of None \<Rightarrow> ?s0 | Some t \<Rightarrow> setPeriod sv t ?s0"
  let ?ev = "\<lparr>be_TenantID = tid, be_Action = ''subscribe'', be_FromPlan = [],
                       be_ToPlan = plan, be_Status = sb_Status ?s,
                       be_CurrentPeriodEnd = sb_CurrentPeriodEnd ?s\<rparr>"
  let ?on = "sv\<lparr>ss_subscriptions := AList.update tid ?s (ss_subscriptions sv), ss_next := ss_next sv + 1,
    ss_closed := ss_next sv # ss_closed sv\<rparr>"
  let ?off = "sv\<lparr>ss_next := ss_next sv + 1, ss_closed := ss_next sv # ss_closed sv\<rparr>"
  have m: "subscriptionMatches plan pe ?s" "sb_TenantID ?s = tid"
    by (auto simp: subscriptionMatches_def setPeriod_def split: option.splits)
  have "subscribe (platformSubEnv c) [] tid plan pe sv
      = stageAndBill (platformSubEnv c) tid (Inr (?s, ?ev)) sv 2"
    using assms None by (simp add: subscribe_def idle_lock locked_def subscribeDecision_def Let_def numeral_2_eq_2)
  also have "\<dots> = Some (case billingEmit (platformSubEnv c) 2 ?ev of
      Inl e \<Rightarrow> (Inl e, ?off, 3) | Inr _ \<Rightarrow> (Inr ?s, ?on, 3))"
    using assms(2) by (simp add: stageAndBill_Inr stagedState_def stageLocked_def finishPending_def
        platformSubEnv_def split: sum.split)
  finally have run: "subscribe (platformSubEnv c) [] tid plan pe sv = \<dots>" .
  have inv: "sub_inv ?on" "sub_inv ?off" using assms m by (auto simp: sub_inv_def keyed_map_update)
  show ?thesis
  proof (cases "billingEmit (platformSubEnv c) 2 ?ev")
    case (Inl e)
    then show ?thesis using run inv(2) assms by simp
  next
    case (Inr u)
    then show ?thesis using run inv(1) assms m None by simp
  qed
qed

lemma onboardSubscribe_platform:
  assumes "onboardSubscribe (platformSubs c) tid plan pe s = (r, s')" "platform_inv s" "tid \<noteq> []" "plan \<noteq> []"
  shows "\<exists>x. s' = s\<lparr>pt_subs := x\<rparr> \<and> sub_inv x \<and> ss_pending x = []
    \<and> (\<forall>i. i \<noteq> tid \<longrightarrow> map_of (ss_subscriptions x) i = map_of (ss_subscriptions (pt_subs s)) i)
    \<and> (\<forall>sub. r = Inr sub \<longrightarrow> map_of (ss_subscriptions x) tid = Some sub \<and> subscriptionMatches plan pe sub)"
proof (cases "case pe of None \<Rightarrow> False | Some t \<Rightarrow> IsZero t")
  case True
  then have "onboardSubscribe (platformSubs c) tid plan pe s
      = (Inl (OnboardSubscription ErrInvalidSubscription), s\<lparr>pt_subs := pt_subs s\<rparr>)"
    by (auto simp: onboardSubscribe_def platformSubs_def onSubs_def Sub_SubscribeWithPeriod_def split: option.splits)
  then show ?thesis using assms by (intro exI [of _ "pt_subs s"]) (auto simp: platform_inv_def)
next
  case False
  obtain r0 x k where run: "subscribe (platformSubEnv c) [] tid plan pe (pt_subs s) = Some (r0, x, k)"
    and x: "sub_inv x" "ss_pending x = []"
      "\<forall>i. i \<noteq> tid \<longrightarrow> map_of (ss_subscriptions x) i = map_of (ss_subscriptions (pt_subs s)) i"
      "\<forall>sub. r0 = Inr sub \<longrightarrow> map_of (ss_subscriptions x) tid = Some sub \<and> subscriptionMatches plan pe sub"
    using subscribe_platform [of "pt_subs s" plan tid c pe] assms by (auto simp: platform_inv_def)
  have "(r, s') = (map_sum OnboardSubscription id r0, s\<lparr>pt_subs := x\<rparr>)"
    using assms(1) run False
    by (auto simp: onboardSubscribe_def platformSubs_def onSubs_def Sub_SubscribeWithPeriod_def Sub_Subscribe_def
        split: option.splits)
  then show ?thesis using x by (cases r0) auto
qed

lemma subscribeOrResume_platform:
  assumes "subscribeOrResume (platformSubs c) tid plan pe s = (r, s')" "platform_inv s" "tid \<noteq> []" "plan \<noteq> []"
  shows "\<exists>x. s' = s\<lparr>pt_subs := x\<rparr> \<and> sub_inv x \<and> ss_pending x = []
    \<and> (\<forall>i. i \<noteq> tid \<longrightarrow> map_of (ss_subscriptions x) i = map_of (ss_subscriptions (pt_subs s)) i)
    \<and> (\<forall>sub. r = Inr sub \<longrightarrow> map_of (ss_subscriptions x) tid = Some sub \<and> subscriptionMatches plan pe sub)"
proof -
  obtain r1 s1 where one: "onboardSubscribe (platformSubs c) tid plan pe s = (r1, s1)" by (metis surj_pair)
  obtain r2 s2 where two: "existingSubscription (platformSubs c) tid plan pe s1 = (r2, s2)" by (metis surj_pair)
  from onboardSubscribe_platform [OF one assms(2-4)] obtain x where x: "s1 = s\<lparr>pt_subs := x\<rparr>" "sub_inv x"
    "ss_pending x = []" "\<forall>i. i \<noteq> tid \<longrightarrow> map_of (ss_subscriptions x) i = map_of (ss_subscriptions (pt_subs s)) i"
    "\<forall>sub. r1 = Inr sub \<longrightarrow> map_of (ss_subscriptions x) tid = Some sub \<and> subscriptionMatches plan pe sub" by blast
  have "(r, s') = (case r1 of Inr sub \<Rightarrow> (r1, s1)
      | Inl e \<Rightarrow> if e \<noteq> OnboardSubscription ErrSubscriptionAlreadyExists then (r1, s1)
          else (case r2 of Inl e' \<Rightarrow> (Inl e', s2) | Inr None \<Rightarrow> (Inl (OnboardSubscription ErrSubscriptionNotFound), s2)
            | Inr (Some sub) \<Rightarrow> (Inr sub, s2)))"
    using assms(1) one two by (auto simp: subscribeOrResume_def on_done_def split: sum.splits option.splits)
  then show ?thesis using x existing_platform [OF two] Sub_Get_idle [of x tid]
    by (intro exI [of _ x]) (auto split: sum.splits option.splits if_splits)
qed

section \<open>Features, quotas, audit and the welcome message\<close>

lemma setDefaults_frame:
  "fm_tenantOverrides (snd (Features_SetPlanDefaults cx plan flags st)) = fm_tenantOverrides st"
  by (auto simp: Features_SetPlanDefaults_def on_ok_def split: sum.split)

lemma setOverrides_frame:
  "i \<noteq> tid \<Longrightarrow> map_of (fm_tenantOverrides (snd (Features_SetTenantOverrides cx tid flags st))) i
     = map_of (fm_tenantOverrides st) i"
  by (auto simp: Features_SetTenantOverrides_def on_ok_def split: sum.split)

text \<open>
  The plan defaults are shared by all tenants of a plan. Initialising features sets those of one
  plan to the plan's own features and leaves the defaults of every other plan alone.
\<close>

definition defaultsFrom :: "Plan \<Rightarrow> FeatureMemory \<Rightarrow> FeatureMemory \<Rightarrow> bool" where
  "defaultsFrom plan st st' \<longleftrightarrow>
     (\<forall>p. p \<noteq> pl_ID plan \<longrightarrow> map_of (fm_planDefaults st') p = map_of (fm_planDefaults st) p)
     \<and> (map_of (fm_planDefaults st') (pl_ID plan) = map_of (fm_planDefaults st) (pl_ID plan)
        \<or> (\<exists>index. indexFlags (planFeatureFlags (pl_Features plan)) = Inr index
              \<and> map_of (fm_planDefaults st') (pl_ID plan) = Some index))"

lemma defaultsFrom_refl [simp]: "defaultsFrom plan st st"
  by (simp add: defaultsFrom_def)

lemma setDefaults_from:
  "defaultsFrom plan st (snd (Features_SetPlanDefaults cx (pl_ID plan) (planFeatureFlags (pl_Features plan)) st))"
  by (auto simp: Features_SetPlanDefaults_def on_ok_def defaultsFrom_def split: sum.split)

lemma setOverrides_defaults:
  "fm_planDefaults (snd (Features_SetTenantOverrides cx tid flags st)) = fm_planDefaults st"
  by (auto simp: Features_SetTenantOverrides_def on_ok_def split: sum.split)

lemma features_platform:
  assumes "initializeFeatures (ob_features (platformOnboarding c)) initialize tid plan overrides s = (r, s')"
  shows "\<exists>x. s' = s\<lparr>pt_features := x\<rparr> \<and> (\<not> initialize \<longrightarrow> x = pt_features s)
    \<and> defaultsFrom plan (pt_features s) x
    \<and> (\<forall>i. i \<noteq> tid \<longrightarrow> map_of (fm_tenantOverrides x) i = map_of (fm_tenantOverrides (pt_features s)) i)
    \<and> (\<forall>flags. r = Inr flags \<longrightarrow>
         (if pc_features c then Features_List None tid (pl_ID plan) x = Inr flags else flags = []))"
proof (cases "pc_features c")
  case False
  then show ?thesis using assms by (intro exI [of _ "pt_features s"]) (auto simp: initializeFeatures_def)
next
  case True
  obtain r1 x1 where one: "Features_SetPlanDefaults None (pl_ID plan) (planFeatureFlags (pl_Features plan))
      (pt_features s) = (r1, x1)" by (metis surj_pair)
  obtain r2 x2 where two: "Features_SetTenantOverrides None tid overrides x1 = (r2, x2)" by (metis surj_pair)
  define x where "x = (if \<not> initialize then pt_features s
    else if r1 = Inr () \<and> overrides \<noteq> [] then x2 else x1)"
  have frame: "i \<noteq> tid \<Longrightarrow> map_of (fm_tenantOverrides x) i = map_of (fm_tenantOverrides (pt_features s)) i" for i
    using setDefaults_frame [of None "pl_ID plan" "planFeatureFlags (pl_Features plan)" "pt_features s"]
      setOverrides_frame [of i tid None overrides x1] one two
    by (auto simp: x_def)
  have defaults: "defaultsFrom plan (pt_features s) x"
    using setDefaults_from [of plan "pt_features s" None] setOverrides_defaults [of None tid overrides x1] one two
    by (auto simp: x_def defaultsFrom_def)
  have "s' = s\<lparr>pt_features := x\<rparr> \<and> (\<forall>flags. r = Inr flags \<longrightarrow> Features_List None tid (pl_ID plan) x = Inr flags)"
    using assms True one two
    by (cases r1; cases r2; cases "Features_List None tid (pl_ID plan) x")
       (auto simp: initializeFeatures_def platformFeatures_def onFeatures_def x_def split: if_splits)
  with frame defaults True show ?thesis by (intro exI [of _ x]) (auto simp: x_def)
qed

lemma reset_usage:
  "Quota_Reset None tid resource period st = (r, st') \<Longrightarrow>
     (\<forall>k. usageOf k st' = usageOf k st \<or> (fst k = tid \<and> usageOf k st' = 0))
     \<and> (\<forall>u. r = Inr u \<longrightarrow> usageOf (tid, resource, period) st' = 0)"
  by (auto simp: Quota_Reset_def quotaCtx_def split: if_splits)

lemma resetQuotas_platform:
  "resetQuotas platformQuotas limits s = (r, s') \<Longrightarrow> \<forall>l\<in>set limits. l_TenantID l = tid \<Longrightarrow>
     \<exists>x. s' = s\<lparr>pt_quotas := x\<rparr>
       \<and> (\<forall>k. usageOf k x = usageOf k (pt_quotas s) \<or> (fst k = tid \<and> usageOf k x = 0))
       \<and> (r = Inr () \<longrightarrow> (\<forall>l\<in>set limits. usageOf (limitKey l) x = 0))"
proof (induction limits arbitrary: s)
  case Nil
  then show ?case by (intro exI [of _ "pt_quotas s"]) auto
next
  case (Cons l limits)
  obtain r1 x1 where one: "Quota_Reset None (l_TenantID l) (l_Resource l) (l_Period l) (pt_quotas s) = (r1, x1)"
    by (metis surj_pair)
  note u1 = reset_usage [OF one]
  show ?case
  proof (cases r1)
    case (Inl e)
    then show ?thesis using Cons.prems one u1
      by (intro exI [of _ x1]) (auto simp: platformQuotas_def)
  next
    case (Inr u)
    then have "resetQuotas platformQuotas limits (s\<lparr>pt_quotas := x1\<rparr>) = (r, s')"
      using Cons.prems one by (simp add: platformQuotas_def)
    from Cons.IH [OF this] Cons.prems(2) obtain x where
      x: "s' = s\<lparr>pt_quotas := x\<rparr>" "\<forall>k. usageOf k x = usageOf k x1 \<or> (fst k = tid \<and> usageOf k x = 0)"
      "r = Inr () \<longrightarrow> (\<forall>l\<in>set limits. usageOf (limitKey l) x = 0)" by auto
    have "usageOf k x = usageOf k (pt_quotas s) \<or> (fst k = tid \<and> usageOf k x = 0)" for k
      using x(2) u1 Cons.prems(2) by (metis list.set_intros(1))
    moreover have "usageOf (limitKey l) x = 0"
      using x(2) u1 Inr by (metis limitKey_def)
    ultimately show ?thesis using x(1,3) by (intro exI [of _ x]) auto
  qed
qed

lemma quotas_platform:
  assumes "initializeQuotas (ob_quotas (platformOnboarding c)) initialize (quotaLimits tid qs) s = (r, s')"
  shows "\<exists>x. s' = s\<lparr>pt_quotas := x\<rparr> \<and> (\<not> initialize \<longrightarrow> x = pt_quotas s)
    \<and> (\<forall>k. fst k \<noteq> tid \<longrightarrow> usageOf k x = usageOf k (pt_quotas s))
    \<and> (r = Inr () \<and> pc_quotas c \<and> initialize \<longrightarrow>
         (\<forall>l\<in>set (quotaLimits tid qs). usageOf (limitKey l) x = 0))"
proof (cases "pc_quotas c \<and> initialize")
  case True
  then have "resetQuotas platformQuotas (quotaLimits tid qs) s = (r, s')"
    using assms by (simp add: initializeQuotas_def)
  from resetQuotas_platform [OF this, of tid] True show ?thesis by (auto simp: quotaLimits_def)
next
  case False
  then show ?thesis using assms
    by (intro exI [of _ "pt_quotas s"]) (auto simp: initializeQuotas_def split: if_splits)
qed

definition sameEvent :: "AuditEvent \<Rightarrow> AuditEvent \<Rightarrow> bool" where
  "sameEvent target event \<longleftrightarrow> au_TenantID event = au_TenantID target
     \<and> (au_ID event = au_ID target
        \<or> (au_Action event = au_Action target \<and> au_Resource event = au_Resource target))"

lemma hasOnboardingAudit_platform:
  assumes "au_TenantID target \<noteq> []"
  shows "hasOnboardingAudit (platformAudit c) target s = (Inr (list_ex (sameEvent target) (pt_audit s)), s)"
proof -
  from audit_list_exact [OF assms, of "pt_audit s"] obtain events where
    "Audit_List None (au_TenantID target) (pt_audit s) = Inr events"
    and m: "mset events = mset (filter (\<lambda>event. au_TenantID event = au_TenantID target) (pt_audit s))" by blast
  moreover have "set events = {event \<in> set (pt_audit s). au_TenantID event = au_TenantID target}"
    using m by (metis set_filter set_mset_mset)
  ultimately show ?thesis
    by (auto simp: hasOnboardingAudit_def platformAudit_def list_ex_iff sameEvent_def)
qed

lemma audit_platform:
  assumes "recordOnboarding (ob_audit (platformOnboarding c)) event s = (r, s')" "au_TenantID event \<noteq> []"
  shows "\<exists>new. s' = s\<lparr>pt_audit := pt_audit s @ new\<rparr> \<and> (\<forall>e\<in>set new. au_TenantID e = au_TenantID event)
    \<and> (r = Inr () \<and> pc_audit c \<longrightarrow> list_ex (sameEvent event) (pt_audit s @ new)
         \<and> length (filter (sameEvent event) (pt_audit s @ new))
             = max 1 (length (filter (sameEvent event) (pt_audit s))))"
proof (cases "pc_audit c \<and> \<not> list_ex (sameEvent event) (pt_audit s)")
  case False
  then have "r = Inr ()" "s' = s" "pc_audit c \<longrightarrow> list_ex (sameEvent event) (pt_audit s)"
    using assms by (auto simp: recordOnboarding_def hasOnboardingAudit_platform split: if_splits)
  moreover have "list_ex (sameEvent event) (pt_audit s) \<Longrightarrow> 1 \<le> length (filter (sameEvent event) (pt_audit s))"
    by (auto simp: list_ex_iff Suc_le_eq filter_empty_conv)
  ultimately show ?thesis by (intro exI [of _ "[]"]) auto
next
  case True
  then have "map_prod (map_sum OnboardAudit id) id (at_Record (platformAudit c) event s) = (r, s')"
    using assms by (simp add: recordOnboarding_def hasOnboardingAudit_platform)
  moreover have none: "filter (sameEvent event) (pt_audit s) = []"
    using True by (auto simp: filter_empty_conv list_ex_iff)
  ultimately show ?thesis
    by (auto simp: platformAudit_def Audit_Record_def auditCtx_def sameEvent_def none
        intro: exI [of _ "[]"] split: if_splits)
qed

text \<open>The messages a flow that gets to its end delivers: the welcome, unless it has been sent.\<close>

definition welcomeDue ::
  "(char list \<Rightarrow> char list) \<Rightarrow> Message option \<Rightarrow> TenantID \<Rightarrow> (TenantID \<times> string) set \<Rightarrow> Message list"
where
  "welcomeDue sha welcome tid sent =
     (case welcome of
        None \<Rightarrow> []
      | Some w \<Rightarrow> if (tid, mm_ID (welcomeMessage sha tid w)) \<in> sent then [] else [welcomeMessage sha tid w])"

lemma welcome_platform:
  assumes "sendWelcome sha (ob_notifier (platformOnboarding c)) tid welcome result (s, sent)
      = ((res, err), (s', sent'))"
  shows "\<exists>new. s' = s\<lparr>pt_mail := pt_mail s @ new\<rparr> \<and> (\<forall>m\<in>set new. mm_TenantID m = tid)
    \<and> sent' = sent \<union> set (map (\<lambda>m. (mm_TenantID m, mm_ID m)) new)
    \<and> (new = [] \<or> (\<exists>m. new = [m] \<and> (mm_TenantID m, mm_ID m) \<notin> sent))
    \<and> (err = None \<longrightarrow> res = result \<and> new = welcomeDue sha welcome tid sent
         \<and> (\<forall>w. welcome = Some w \<longrightarrow> (tid, mm_ID (welcomeMessage sha tid w)) \<in> sent'))"
proof (cases "(\<exists>w deliver. welcome = Some w \<and> pc_deliver c = Some deliver
    \<and> (tid, mm_ID (welcomeMessage sha tid w)) \<notin> sent \<and> deliver (welcomeMessage sha tid w) = None)")
  case True
  then obtain w where w: "welcome = Some w" "s' = s\<lparr>pt_mail := pt_mail s @ [welcomeMessage sha tid w]\<rparr>"
    "(res, err) = (result, None)" "sent' = insert (tid, mm_ID (welcomeMessage sha tid w)) sent"
    "(tid, mm_ID (welcomeMessage sha tid w)) \<notin> sent"
    using assms by (auto simp: sendWelcome_def platformNotifier_def Let_def)
  have "mm_TenantID (welcomeMessage sha tid w) = tid"
    by (simp add: welcomeMessage_def cloneWelcome_def Let_def)
  with w show ?thesis by (intro exI [of _ "[welcomeMessage sha tid w]"]) (auto simp: welcomeDue_def)
next
  case False
  then show ?thesis using assms
    by (intro exI [of _ "[]"])
       (auto simp: sendWelcome_def platformNotifier_def welcomeDue_def Let_def split: option.splits if_splits)
qed

end
