(* ===== verification/Onboarding_Guarantees.thy ===== *)
theory Onboarding_Guarantees
  imports Onboarding_Platform
begin

text \<open>
  What onboarding guarantees on the in-memory platform: nobody else is affected but by the feature
  defaults of the requested plan, an initialised
  tenant is not initialised again, a success has done everything that was asked for, a retry of a
  success changes nothing, and a welcome message is sent once.
\<close>

section \<open>The effect of one flow\<close>

definition sameFor :: "TenantID \<Rightarrow> Platform \<Rightarrow> Platform \<Rightarrow> bool" where
  "sameFor i s s' \<longleftrightarrow> tenantsOf (fst (pt_tenants s')) i = tenantsOf (fst (pt_tenants s)) i
     \<and> map_of (ss_subscriptions (pt_subs s')) i = map_of (ss_subscriptions (pt_subs s)) i
     \<and> map_of (fm_tenantOverrides (pt_features s')) i = map_of (fm_tenantOverrides (pt_features s)) i
     \<and> (\<forall>resource period. usageOf (i, resource, period) (pt_quotas s')
          = usageOf (i, resource, period) (pt_quotas s))
     \<and> filter (\<lambda>e. au_TenantID e = i) (pt_audit s') = filter (\<lambda>e. au_TenantID e = i) (pt_audit s)
     \<and> map_of (dm_assignments (fst (pt_deploy s'))) i = map_of (dm_assignments (fst (pt_deploy s))) i
     \<and> filter (\<lambda>m. mm_TenantID m = i) (pt_mail s') = filter (\<lambda>m. mm_TenantID m = i) (pt_mail s)"

definition checkpointKept :: "TenantID \<Rightarrow> Platform \<Rightarrow> Platform \<Rightarrow> bool" where
  "checkpointKept tid s s' \<longleftrightarrow>
     (map_of (ss_subscriptions (pt_subs s)) tid \<noteq> None \<longrightarrow>
        pt_subs s' = pt_subs s \<and> pt_features s' = pt_features s \<and> pt_quotas s' = pt_quotas s)"

definition flowStep :: "TenantID \<Rightarrow> Platform \<Rightarrow> Platform \<Rightarrow> bool" where
  "flowStep tid s s' \<longleftrightarrow> (\<forall>i. i \<noteq> tid \<longrightarrow> sameFor i s s') \<and> checkpointKept tid s s'
     \<and> platform_inv s' \<and> pt_plans s' = pt_plans s"

lemma sameFor_refl [simp]: "sameFor i s s"
  by (simp add: sameFor_def)

lemma sameFor_trans: "sameFor i s s1 \<Longrightarrow> sameFor i s1 s' \<Longrightarrow> sameFor i s s'"
  by (simp add: sameFor_def)

lemma flowStep_refl: "platform_inv s \<Longrightarrow> flowStep tid s s"
  by (simp add: flowStep_def checkpointKept_def)

lemma flowStep_trans: "flowStep tid s s1 \<Longrightarrow> flowStep tid s1 s' \<Longrightarrow> flowStep tid s s'"
  unfolding flowStep_def checkpointKept_def by (metis sameFor_trans)

lemma or_return_cases:
  assumes "or_return result sent (r, s1) k = ((res, err), (s', sent'))"
  obtains e where "r = Inl e" "res = result" "err = Some e" "s' = s1" "sent' = sent"
  | a where "r = Inr a" "k a s1 = ((res, err), (s', sent'))"
  using assms by (cases r) (auto simp: or_return_def)

definition welcomed ::
  "(char list \<Rightarrow> char list) \<Rightarrow> OnboardInput \<Rightarrow> TenantID \<Rightarrow> (TenantID \<times> string) set \<Rightarrow> bool"
where
  "welcomed sha input tid sent \<longleftrightarrow>
     (\<forall>w. oi_Welcome input = Some w \<longrightarrow> (tid, mm_ID (welcomeMessage sha tid w)) \<in> sent)"

text \<open>The services answer afterwards what a result says.\<close>

definition settledAs ::
  "(char list \<Rightarrow> char list) \<Rightarrow> platformConfig \<Rightarrow> OnboardInput \<Rightarrow> OnboardResult \<Rightarrow> Platform onboarded \<Rightarrow> bool"
where
  "settledAs sha c input res st \<longleftrightarrow>
     (let s = fst st; t = or_Tenant res; tid = tn_ID t; plan = or_Plan res in
       tid \<noteq> [] \<and> (in_ID (oi_Tenant input) \<noteq> [] \<longrightarrow> tid = in_ID (oi_Tenant input))
     \<and> Plans_Get None (in_PlanID (oi_Tenant input)) (pt_plans s) = Inr plan
     \<and> Tenants_Get None tid (fst (pt_tenants s)) = Inr t \<and> resumable (oi_Tenant input) t
     \<and> (\<not> oi_SkipActivation input \<longrightarrow> tn_Status t = TenantStatusActive)
     \<and> (case pc_deployments c of None \<Rightarrow> or_DeploymentUnit res = zeroUnit
        | Some d \<Rightarrow> DeployService_Resolve (Some d) quietDeploy t (pt_deploy s)
             = (Inr (or_DeploymentUnit res), pt_deploy s)
           \<and> du_ID (or_DeploymentUnit res) = oi_DeploymentUnitID input)
     \<and> Sub_Get 0 None [] tid (pt_subs s) = Inr (or_Subscription res)
     \<and> subscriptionMatches (pl_ID plan) (oi_SubscriptionPeriodEnd input) (or_Subscription res)
     \<and> (if pc_features c then Features_List None tid (pl_ID plan) (pt_features s) = Inr (or_Features res)
        else or_Features res = [])
     \<and> or_QuotaLimits res = quotaLimits tid (pl_Quotas plan)
     \<and> (pc_audit c \<longrightarrow> list_ex (sameEvent (onboardEvent sha tid (pl_ID plan) (tn_Status t)
            (du_ID (or_DeploymentUnit res)) (oi_AuditMetadata input))) (pt_audit s))
     \<and> welcomed sha input tid (snd st))"

text \<open>Each step as a \<open>flowStep\<close>.\<close>

lemma subs_step:
  assumes "platform_inv s" "sub_inv x" "ss_pending x = []" "map_of (ss_subscriptions (pt_subs s)) tid = None"
    and "\<forall>i. i \<noteq> tid \<longrightarrow> map_of (ss_subscriptions x) i = map_of (ss_subscriptions (pt_subs s)) i"
  shows "flowStep tid s (s\<lparr>pt_subs := x\<rparr>)"
  using assms by (simp add: flowStep_def sameFor_def checkpointKept_def platform_inv_def)

lemma tenants_step:
  assumes "platform_inv s" "tenant_inv (fst x)"
    and "\<forall>i. i \<noteq> tid \<longrightarrow> tenantsOf (fst x) i = tenantsOf (fst (pt_tenants s)) i"
  shows "flowStep tid s (s\<lparr>pt_tenants := x\<rparr>)"
  using assms by (simp add: flowStep_def sameFor_def checkpointKept_def platform_inv_def)

lemma placement_effect:
  assumes "platform_inv s" "dm_units (fst x) = dm_units (fst (pt_deploy s))"
    and "\<forall>i. i \<noteq> tid \<longrightarrow> map_of (dm_assignments (fst x)) i = map_of (dm_assignments (fst (pt_deploy s))) i"
  shows "flowStep tid s (s\<lparr>pt_deploy := x\<rparr>)"
  using assms by (simp add: flowStep_def sameFor_def checkpointKept_def platform_inv_def)

lemma features_step:
  assumes "platform_inv s" "map_of (ss_subscriptions (pt_subs s)) tid \<noteq> None \<longrightarrow> x = pt_features s"
    and "\<forall>i. i \<noteq> tid \<longrightarrow> map_of (fm_tenantOverrides x) i = map_of (fm_tenantOverrides (pt_features s)) i"
  shows "flowStep tid s (s\<lparr>pt_features := x\<rparr>)"
  using assms by (simp add: flowStep_def sameFor_def checkpointKept_def platform_inv_def)

lemma quotas_step:
  assumes "platform_inv s" "map_of (ss_subscriptions (pt_subs s)) tid \<noteq> None \<longrightarrow> x = pt_quotas s"
    and "\<forall>k. fst k \<noteq> tid \<longrightarrow> usageOf k x = usageOf k (pt_quotas s)"
  shows "flowStep tid s (s\<lparr>pt_quotas := x\<rparr>)"
  using assms by (simp add: flowStep_def sameFor_def checkpointKept_def platform_inv_def)

lemma audit_step:
  assumes "platform_inv s" "\<forall>e\<in>set new. au_TenantID e = tid"
  shows "flowStep tid s (s\<lparr>pt_audit := pt_audit s @ new\<rparr>)"
  using assms by (auto simp: flowStep_def sameFor_def checkpointKept_def platform_inv_def filter_empty_conv)

lemma mail_step:
  assumes "platform_inv s" "\<forall>m\<in>set new. mm_TenantID m = tid"
  shows "flowStep tid s (s\<lparr>pt_mail := pt_mail s @ new\<rparr>)"
  using assms by (auto simp: flowStep_def sameFor_def checkpointKept_def platform_inv_def filter_empty_conv)

lemma flowStep_inv: "flowStep tid s s' \<Longrightarrow> platform_inv s'"
  by (simp add: flowStep_def)

definition mailStep :: "Platform onboarded \<Rightarrow> Platform onboarded \<Rightarrow> bool" where
  "mailStep st st' \<longleftrightarrow> (\<exists>new. pt_mail (fst st') = pt_mail (fst st) @ new
     \<and> snd st' = snd st \<union> set (map (\<lambda>m. (mm_TenantID m, mm_ID m)) new)
     \<and> (new = [] \<or> (\<exists>m. new = [m] \<and> (mm_TenantID m, mm_ID m) \<notin> snd st)))"

lemma mailStep_none [simp]: "pt_mail s' = pt_mail s \<Longrightarrow> mailStep (s, sent) (s', sent)"
  by (simp add: mailStep_def)

text \<open>What a result keeps while later steps fill in the rest.\<close>

lemma activation_onwards:
  assumes run: "completeOnboarding sha (platformOnboarding c) (platformTenants c) input t plan result sent s
     = ((res, err), (s', sent'))"
    and inv: "platform_inv s" and t: "tn_ID t \<noteq> []" "tenantsOf (fst (pt_tenants s)) (tn_ID t) = Some t"
      "tn_Status t = TenantStatusPending \<or> tn_Status t = TenantStatusActive"
  shows "flowStep (tn_ID t) s s' \<and> mailStep (s, sent) (s', sent') \<and> pt_deploy s' = pt_deploy s
    \<and> pt_subs s' = pt_subs s \<and> pt_features s' = pt_features s \<and> pt_quotas s' = pt_quotas s
    \<and> (err = None \<longrightarrow>
         res = result\<lparr>or_Tenant := (if oi_SkipActivation input then t else t\<lparr>tn_Status := TenantStatusActive\<rparr>)\<rparr>
       \<and> tenantsOf (fst (pt_tenants s')) (tn_ID t) = Some (or_Tenant res)
       \<and> (pc_audit c \<longrightarrow> list_ex (sameEvent (onboardEvent sha (tn_ID t) plan (tn_Status (or_Tenant res))
              (du_ID (or_DeploymentUnit res)) (oi_AuditMetadata input))) (pt_audit s'))
       \<and> welcomed sha input (tn_ID t) sent'
       \<and> pt_mail s' = pt_mail s @ welcomeDue sha (oi_Welcome input) (tn_ID t) sent)"
proof -
  obtain r5 s5 where act: "activateTenant (platformTenants c) (oi_SkipActivation input) t s = (r5, s5)"
    by (metis surj_pair)
  from activate_platform [OF act inv t] obtain x where x: "s5 = s\<lparr>pt_tenants := x\<rparr>" "tenant_inv (fst x)"
    "\<forall>i. i \<noteq> tn_ID t \<longrightarrow> tenantsOf (fst x) i = tenantsOf (fst (pt_tenants s)) i"
    "\<forall>t'. r5 = Inr t' \<longrightarrow> tenantsOf (fst x) (tn_ID t) = Some t'
         \<and> t' = (if oi_SkipActivation input then t else t\<lparr>tn_Status := TenantStatusActive\<rparr>)" by blast
  have f5: "flowStep (tn_ID t) s s5" using tenants_step [OF inv x(2,3)] x(1) by simp
  from run [unfolded completeOnboarding_def act] show ?thesis
  proof (cases rule: or_return_cases)
    case (1 e)
    then show ?thesis using f5 x(1) by simp
  next
    case (2 t5)
    let ?r = "result\<lparr>or_Tenant := t5\<rparr>"
    let ?ev = "onboardEvent sha (tn_ID t) plan (tn_Status t5) (du_ID (or_DeploymentUnit result)) (oi_AuditMetadata input)"
    obtain r6 s6 where rec: "recordOnboarding (ob_audit (platformOnboarding c)) ?ev s5 = (r6, s6)"
      by (metis surj_pair)
    have "au_TenantID ?ev = tn_ID t" by (simp add: onboardEvent_def)
    with audit_platform [OF rec] t(1) obtain new where new: "s6 = s5\<lparr>pt_audit := pt_audit s5 @ new\<rparr>"
      "\<forall>e\<in>set new. au_TenantID e = tn_ID t"
      "r6 = Inr () \<and> pc_audit c \<longrightarrow> list_ex (sameEvent ?ev) (pt_audit s6)" by auto
    have f6: "flowStep (tn_ID t) s5 s6" using audit_step [OF flowStep_inv [OF f5] new(2)] new(1) by simp
    from 2(2) rec have "or_return ?r sent (r6, s6) (\<lambda>_ s6. sendWelcome sha (ob_notifier (platformOnboarding c))
        (tn_ID t) (oi_Welcome input) ?r (s6, sent)) = ((res, err), (s', sent'))" by (simp add: Let_def)
    then show ?thesis
    proof (cases rule: or_return_cases)
      case (1 e)
      then show ?thesis using flowStep_trans [OF f5 f6] x(1) new(1) by simp
    next
      case w: (2 u)
      from welcome_platform [OF w(2)] obtain more where more: "s' = s6\<lparr>pt_mail := pt_mail s6 @ more\<rparr>"
        "\<forall>m\<in>set more. mm_TenantID m = tn_ID t"
        "sent' = sent \<union> set (map (\<lambda>m. (mm_TenantID m, mm_ID m)) more)"
        "more = [] \<or> (\<exists>m. more = [m] \<and> (mm_TenantID m, mm_ID m) \<notin> sent)"
        "err = None \<longrightarrow> res = ?r \<and> more = welcomeDue sha (oi_Welcome input) (tn_ID t) sent
          \<and> welcomed sha input (tn_ID t) sent'"
        unfolding welcomed_def by blast
      have f7: "flowStep (tn_ID t) s6 s'" using mail_step [OF flowStep_inv [OF f6] more(2)] more(1) by simp
      have "mailStep (s, sent) (s', sent')"
        using more(1,3,4) x(1) new(1) by (auto simp: mailStep_def)
      moreover have "flowStep (tn_ID t) s s'" using f5 f6 f7 flowStep_trans by blast
      moreover have same: "pt_deploy s' = pt_deploy s" "pt_subs s' = pt_subs s" "pt_features s' = pt_features s"
        "pt_quotas s' = pt_quotas s" "pt_tenants s' = x" "pt_audit s' = pt_audit s6"
        by (simp_all add: more(1) new(1) x(1))
      moreover have "tenantsOf (fst x) (tn_ID t) = Some t5"
        "t5 = (if oi_SkipActivation input then t else t\<lparr>tn_Status := TenantStatusActive\<rparr>)"
        using x(4) 2(1) by blast+
      moreover have "pc_audit c \<longrightarrow> list_ex (sameEvent ?ev) (pt_audit s6)" using new(3) w(1) by simp
      moreover have "pt_mail s' = pt_mail s @ more" by (simp add: more(1) new(1) x(1))
      ultimately show ?thesis using more(5) by (auto simp del: list_ex_iff)
    qed
  qed
qed

lemma initialize_platform:
  assumes run: "initializeTenant sha (platformOnboarding c) (platformTenants c) (platformSubs c) input t plan
       result sent s = ((res, err), (s', sent'))"
    and inv: "platform_inv s" and t: "tn_ID t \<noteq> []" "tenantsOf (fst (pt_tenants s)) (tn_ID t) = Some t"
      "tn_Status t = TenantStatusPending \<or> tn_Status t = TenantStatusActive"
    and plan: "pl_ID plan \<noteq> []" and limits: "or_QuotaLimits result = quotaLimits (tn_ID t) (pl_Quotas plan)"
  shows "flowStep (tn_ID t) s s' \<and> mailStep (s, sent) (s', sent') \<and> pt_deploy s' = pt_deploy s
    \<and> defaultsFrom plan (pt_features s) (pt_features s')
    \<and> (err = None \<longrightarrow> (\<exists>flags sub.
         res = result\<lparr>or_Features := flags, or_Subscription := sub,
           or_Tenant := (if oi_SkipActivation input then t else t\<lparr>tn_Status := TenantStatusActive\<rparr>)\<rparr>
       \<and> tenantsOf (fst (pt_tenants s')) (tn_ID t) = Some (or_Tenant res)
       \<and> map_of (ss_subscriptions (pt_subs s')) (tn_ID t) = Some sub
       \<and> subscriptionMatches (pl_ID plan) (oi_SubscriptionPeriodEnd input) sub
       \<and> (if pc_features c then Features_List None (tn_ID t) (pl_ID plan) (pt_features s') = Inr flags
          else flags = [])
       \<and> (pc_quotas c \<and> map_of (ss_subscriptions (pt_subs s)) (tn_ID t) = None \<longrightarrow>
            (\<forall>l\<in>set (or_QuotaLimits res). usageOf (limitKey l) (pt_quotas s') = 0))
       \<and> (pc_audit c \<longrightarrow> list_ex (sameEvent (onboardEvent sha (tn_ID t) (pl_ID plan) (tn_Status (or_Tenant res))
              (du_ID (or_DeploymentUnit res)) (oi_AuditMetadata input))) (pt_audit s'))
       \<and> welcomed sha input (tn_ID t) sent'
       \<and> pt_mail s' = pt_mail s @ welcomeDue sha (oi_Welcome input) (tn_ID t) sent))"
proof -
  let ?tid = "tn_ID t" and ?pe = "oi_SubscriptionPeriodEnd input"
  obtain r1 s1 where ex: "existingSubscription (platformSubs c) ?tid (pl_ID plan) ?pe s = (r1, s1)"
    by (metis surj_pair)
  note e1 = existing_platform [OF ex]
  have pend: "ss_pending (pt_subs s) = []" using inv by (simp add: platform_inv_def)
  from run [unfolded initializeTenant_def ex] show ?thesis
  proof (cases rule: or_return_cases)
    case (1 e)
    then show ?thesis using e1 flowStep_refl [OF inv] by simp
  next
    case ok1: (2 existing)
    let ?init = "existing = None"
    have none: "map_of (ss_subscriptions (pt_subs s)) ?tid \<noteq> None \<longleftrightarrow> \<not> ?init"
      using e1 ok1(1) Sub_Get_idle [OF pend] t(1) by (cases existing) (auto simp: Sub_Get_def pend onCommitted_def
        split: option.splits)
    obtain r2 s2 where ft: "initializeFeatures (ob_features (platformOnboarding c)) ?init ?tid plan
        (oi_FeatureOverrides input) s = (r2, s2)" by (metis surj_pair)
    from features_platform [OF ft] obtain x2 where x2: "s2 = s\<lparr>pt_features := x2\<rparr>" "\<not> ?init \<longrightarrow> x2 = pt_features s"
      "\<forall>i. i \<noteq> ?tid \<longrightarrow> map_of (fm_tenantOverrides x2) i = map_of (fm_tenantOverrides (pt_features s)) i"
      "\<forall>flags. r2 = Inr flags \<longrightarrow>
         (if pc_features c then Features_List None ?tid (pl_ID plan) x2 = Inr flags else flags = [])"
      "defaultsFrom plan (pt_features s) x2" by blast
    have f2: "flowStep ?tid s s2" using features_step [OF inv _ x2(3)] x2(1,2) none by simp
    have one: "s1 = s" using e1 by simp
    from ok1(2) [unfolded one ft] show ?thesis
    proof (cases rule: or_return_cases)
      case (1 e)
      then show ?thesis using f2 x2(1,5) by simp
    next
      case ok2: (2 flags)
      let ?r2 = "result\<lparr>or_Features := flags\<rparr>"
      have lim: "or_QuotaLimits ?r2 = quotaLimits ?tid (pl_Quotas plan)" using limits by simp
      obtain r3 s3 where qt: "initializeQuotas (ob_quotas (platformOnboarding c)) ?init
          (quotaLimits ?tid (pl_Quotas plan)) s2 = (r3, s3)" by (metis surj_pair)
      from quotas_platform [OF qt] obtain x3 where x3: "s3 = s2\<lparr>pt_quotas := x3\<rparr>" "\<not> ?init \<longrightarrow> x3 = pt_quotas s2"
        "\<forall>k. fst k \<noteq> ?tid \<longrightarrow> usageOf k x3 = usageOf k (pt_quotas s2)"
        "r3 = Inr () \<and> pc_quotas c \<and> ?init \<longrightarrow>
           (\<forall>l\<in>set (quotaLimits ?tid (pl_Quotas plan)). usageOf (limitKey l) x3 = 0)" by blast
      have f3: "flowStep ?tid s s3"
        using flowStep_trans [OF f2] quotas_step [OF flowStep_inv [OF f2] _ x3(3)] x3(1,2) x2(1) none by simp
      obtain r4 s4 where sb: "(case existing of Some subscription \<Rightarrow> (Inr subscription, s3)
          | None \<Rightarrow> subscribeOrResume (platformSubs c) ?tid (pl_ID plan) ?pe s3) = (r4, s4)" by (metis surj_pair)
      have "\<exists>x. s4 = s3\<lparr>pt_subs := x\<rparr> \<and> flowStep ?tid s3 s4 \<and> (\<forall>sub. r4 = Inr sub \<longrightarrow>
          map_of (ss_subscriptions x) ?tid = Some sub \<and> subscriptionMatches (pl_ID plan) ?pe sub)"
      proof (cases existing)
        case None
        from subscribeOrResume_platform [OF _ flowStep_inv [OF f3] t(1) plan, of c ?pe r4 s4] sb None
        obtain x where x: "s4 = s3\<lparr>pt_subs := x\<rparr>" "sub_inv x" "ss_pending x = []"
          "\<forall>i. i \<noteq> ?tid \<longrightarrow> map_of (ss_subscriptions x) i = map_of (ss_subscriptions (pt_subs s3)) i"
          "\<forall>sub. r4 = Inr sub \<longrightarrow>
             map_of (ss_subscriptions x) ?tid = Some sub \<and> subscriptionMatches (pl_ID plan) ?pe sub" by auto
        moreover have "map_of (ss_subscriptions (pt_subs s3)) ?tid = None" using none None x2(1) x3(1) by simp
        ultimately show ?thesis using subs_step [OF flowStep_inv [OF f3], of x ?tid] by auto
      next
        case (Some sub)
        then show ?thesis using sb e1 ok1(1) Sub_Get_idle [OF pend] x2(1) x3(1) flowStep_refl [OF flowStep_inv [OF f3]]
          by (intro exI [of _ "pt_subs s3"]) auto
      qed
      then obtain x4 where x4: "s4 = s3\<lparr>pt_subs := x4\<rparr>" "flowStep ?tid s3 s4" "\<forall>sub. r4 = Inr sub \<longrightarrow>
          map_of (ss_subscriptions x4) ?tid = Some sub \<and> subscriptionMatches (pl_ID plan) ?pe sub" by blast
      have f4: "flowStep ?tid s s4" using flowStep_trans [OF f3 x4(2)] .
      have t4: "tenantsOf (fst (pt_tenants s4)) ?tid = Some t" using t(2) x2(1) x3(1) x4(1) by simp
      from ok2(2) [unfolded Let_def lim qt] show ?thesis
      proof (cases rule: or_return_cases)
        case (1 e)
        then show ?thesis using f3 x2(1,5) x3(1) by simp
      next
        case ok3: (2 u)
        from ok3(2) [unfolded sb] show ?thesis
        proof (cases rule: or_return_cases)
          case (1 e)
          then show ?thesis using f4 x2(1,5) x3(1) x4(1) by simp
        next
          case ok4: (2 sub)
          note fin = activation_onwards [OF ok4(2) flowStep_inv [OF f4] t(1) t4 t(3)]
          have f: "flowStep ?tid s s'" using flowStep_trans [OF f4] fin by blast
          have m: "mailStep (s, sent) (s', sent')" using fin x2(1) x3(1) x4(1) by (simp add: mailStep_def)
          have d: "pt_deploy s' = pt_deploy s" "pt_subs s' = x4" "pt_features s' = x2" "pt_quotas s' = x3"
            using fin x2(1) x3(1) x4(1) by simp_all
          have res: "res = result\<lparr>or_Features := flags, or_Subscription := sub,
              or_Tenant := (if oi_SkipActivation input then t else t\<lparr>tn_Status := TenantStatusActive\<rparr>)\<rparr>"
            "tenantsOf (fst (pt_tenants s')) ?tid = Some (or_Tenant res)" "welcomed sha input ?tid sent'"
            "pc_audit c \<longrightarrow> list_ex (sameEvent (onboardEvent sha ?tid (pl_ID plan) (tn_Status (or_Tenant res))
              (du_ID (or_DeploymentUnit res)) (oi_AuditMetadata input))) (pt_audit s')" if "err = None"
            using fin that by blast+
          have mail: "pt_mail s' = pt_mail s @ welcomeDue sha (oi_Welcome input) ?tid sent" if "err = None"
            using fin that x2(1) x3(1) x4(1) by simp
          have sub: "map_of (ss_subscriptions x4) ?tid = Some sub" "subscriptionMatches (pl_ID plan) ?pe sub"
            using x4(3) ok4(1) by blast+
          have flags: "if pc_features c then Features_List None ?tid (pl_ID plan) x2 = Inr flags else flags = []"
            using x2(4) ok2(1) by blast
          have usage: "pc_quotas c \<and> map_of (ss_subscriptions (pt_subs s)) ?tid = None \<longrightarrow>
              (\<forall>l\<in>set (quotaLimits ?tid (pl_Quotas plan)). usageOf (limitKey l) x3 = 0)"
            using x3(4) ok3(1) none by (cases existing) auto
          have "or_QuotaLimits res = quotaLimits ?tid (pl_Quotas plan)" if "err = None"
            using res(1) [OF that] limits by simp
          then have "\<exists>flags sub. res = result\<lparr>or_Features := flags, or_Subscription := sub,
                or_Tenant := (if oi_SkipActivation input then t else t\<lparr>tn_Status := TenantStatusActive\<rparr>)\<rparr>
              \<and> tenantsOf (fst (pt_tenants s')) ?tid = Some (or_Tenant res)
              \<and> map_of (ss_subscriptions (pt_subs s')) ?tid = Some sub
              \<and> subscriptionMatches (pl_ID plan) ?pe sub
              \<and> (if pc_features c then Features_List None ?tid (pl_ID plan) (pt_features s') = Inr flags
                 else flags = [])
              \<and> (pc_quotas c \<and> map_of (ss_subscriptions (pt_subs s)) ?tid = None \<longrightarrow>
                   (\<forall>l\<in>set (or_QuotaLimits res). usageOf (limitKey l) (pt_quotas s') = 0))
              \<and> (pc_audit c \<longrightarrow> list_ex (sameEvent (onboardEvent sha ?tid (pl_ID plan) (tn_Status (or_Tenant res))
                   (du_ID (or_DeploymentUnit res)) (oi_AuditMetadata input))) (pt_audit s'))
              \<and> welcomed sha input ?tid sent'
              \<and> pt_mail s' = pt_mail s @ welcomeDue sha (oi_Welcome input) ?tid sent" if "err = None"
            unfolding d using res [OF that] mail [OF that] sub flags usage that by (intro exI conjI) simp_all
          with f m d(1,3) x2(5) show ?thesis by simp
        qed
      qed
    qed
  qed
qed

definition touches :: "OnboardInput \<Rightarrow> Platform \<Rightarrow> TenantID \<Rightarrow> bool" where
  "touches input s i \<longleftrightarrow>
     (if in_ID (oi_Tenant input) = [] then tenantsOf (fst (pt_tenants s)) i = None
      else i = in_ID (oi_Tenant input))"

text \<open>The whole flow, whatever comes of it.\<close>

definition flowEffect :: "OnboardInput \<Rightarrow> Platform onboarded \<Rightarrow> Platform onboarded \<Rightarrow> bool" where
  "flowEffect input st st' \<longleftrightarrow> (\<forall>i. \<not> touches input (fst st) i \<longrightarrow> sameFor i (fst st) (fst st'))
     \<and> (in_ID (oi_Tenant input) \<noteq> [] \<longrightarrow> checkpointKept (in_ID (oi_Tenant input)) (fst st) (fst st'))
     \<and> platform_inv (fst st') \<and> pt_plans (fst st') = pt_plans (fst st) \<and> mailStep st st'"

lemma flowEffect_same:
  "platform_inv s \<Longrightarrow> flowEffect input (s, sent) (s, sent)"
  by (simp add: flowEffect_def checkpointKept_def)

lemma flowEffect_step:
  assumes "flowStep tid s s'" "mailStep (s, sent) (s', sent')" "touches input s tid"
  shows "flowEffect input (s, sent) (s', sent')"
proof -
  have "sameFor i s s'" if "\<not> touches input s i" for i
    using assms(1,3) that by (cases "i = tid") (simp_all add: flowStep_def)
  moreover have "in_ID (oi_Tenant input) \<noteq> [] \<longrightarrow> tid = in_ID (oi_Tenant input)"
    using assms(3) by (simp add: touches_def split: if_splits)
  ultimately show ?thesis using assms(1,2) by (auto simp: flowEffect_def flowStep_def)
qed

text \<open>What the flow may do to the feature store beyond the overrides of its tenant.\<close>

definition featuresEffect :: "OnboardInput \<Rightarrow> Platform \<Rightarrow> Platform \<Rightarrow> bool" where
  "featuresEffect input s s' \<longleftrightarrow> pt_features s' = pt_features s
     \<or> (\<exists>plan. Plans_Get None (in_PlanID (oi_Tenant input)) (pt_plans s) = Inr plan
            \<and> defaultsFrom plan (pt_features s) (pt_features s'))"

lemma featuresEffect_same [simp]: "pt_features s' = pt_features s \<Longrightarrow> featuresEffect input s s'"
  by (simp add: featuresEffect_def)

lemma plan_platform_id: "plan_inv st \<Longrightarrow> Plans_Get None i st = Inr plan \<Longrightarrow> pl_ID plan = i"
  by (auto simp: Plans_Get_def plan_inv_def split: option.splits if_splits dest: keyed_mapD)

lemma plan_platform: "plan_inv st \<Longrightarrow> Plans_Get None i st = Inr plan \<Longrightarrow> pl_ID plan \<noteq> []"
  by (auto simp: Plans_Get_def plan_inv_def split: option.splits if_splits dest: keyed_mapD)

lemma onboard_run:
  assumes run: "Onboard sha cx (Some (platformOnboarding c)) input (s, sent) = ((res, err), (s', sent'))"
    and inv: "platform_inv s"
  shows "flowEffect input (s, sent) (s', sent') \<and> featuresEffect input s s'
    \<and> (err = None \<longrightarrow> settledAs sha c input res (s', sent')
         \<and> (pc_quotas c \<and> map_of (ss_subscriptions (pt_subs s)) (tn_ID (or_Tenant res)) = None \<longrightarrow>
              (\<forall>l\<in>set (or_QuotaLimits res). usageOf (limitKey l) (pt_quotas s') = 0))
         \<and> pt_mail s' = pt_mail s @ welcomeDue sha (oi_Welcome input) (tn_ID (or_Tenant res)) sent)"
proof (cases "validateInput (Some (platformOnboarding c)) input \<noteq> None \<or> cx \<noteq> None")
  case True
  then consider e where "validateInput (Some (platformOnboarding c)) input = Some e"
    | e where "validateInput (Some (platformOnboarding c)) input = None" "cx = Some e" by auto
  then have "s' = s \<and> sent' = sent \<and> err \<noteq> None" using run by cases (simp_all add: Onboard_def, blast+)
  then show ?thesis using flowEffect_same [OF inv] by auto
next
  case False
  let ?in = "oi_Tenant input"
  obtain t err1 s2 where cr: "createOrResumeTenant (platformTenants c) ?in s = ((t, err1), s2)" by (metis surj_pair)
  from createOrResume_platform [OF cr inv] obtain x tid where x: "s2 = s\<lparr>pt_tenants := x\<rparr>" "tenant_inv (fst x)"
    "in_ID ?in \<noteq> [] \<longrightarrow> tid = in_ID ?in"
    "\<forall>i. i \<noteq> tid \<longrightarrow> tenantsOf (fst x) i = tenantsOf (fst (pt_tenants s)) i"
    "in_ID ?in = [] \<and> tenantsOf (fst (pt_tenants s)) tid \<noteq> None \<longrightarrow> fst x = fst (pt_tenants s) \<and> err1 \<noteq> None"
    "err1 = None \<longrightarrow> tn_ID t = tid \<and> tid \<noteq> [] \<and> tenantsOf (fst x) tid = Some t \<and> resumable ?in t" by blast
  have f2: "flowStep tid s s2" using tenants_step [OF inv x(2,4)] x(1) by simp
  show ?thesis
  proof (cases "Plans_Get None (in_PlanID ?in) (pt_plans s)")
    case (Inl e)
    then have "s' = s \<and> sent' = sent \<and> err \<noteq> None" using run False
      by (auto simp: Onboard_def or_return_def platformPlans_def)
    then show ?thesis using flowEffect_same [OF inv] by auto
  next
    case plan: (Inr plan)
    let ?r1 = "zeroResult\<lparr>or_Tenant := t, or_Plan := plan, or_QuotaLimits := quotaLimits (tn_ID t) (pl_Quotas plan)\<rparr>"
    show ?thesis
    proof (cases err1)
      case (Some e)
      then have eq: "s' = s2 \<and> sent' = sent \<and> err \<noteq> None" using run False cr plan
        by (auto simp: Onboard_def or_return_def platformPlans_def Let_def)
      show ?thesis
      proof (cases "touches input s tid")
        case True
        then show ?thesis using flowEffect_step [OF f2, of sent sent] eq x(1) by auto
      next
        case False
        then have "fst x = fst (pt_tenants s)" using x(3,5) by (auto simp: touches_def split: if_splits)
        then have "\<forall>i. sameFor i s s2" "checkpointKept i s s2" for i
          using x(1) by (simp_all add: sameFor_def checkpointKept_def)
        then show ?thesis using eq f2 x(1) by (auto simp: flowEffect_def flowStep_def)
      qed
    next
      case None
      then have at: "tn_ID t = tid" "tid \<noteq> []" "tenantsOf (fst x) tid = Some t" "resumable ?in t" using x(6) by auto
      have touch: "touches input s tid" using x(3,5) None by (auto simp: touches_def)
      obtain u err2 s3 where pl: "placeTenant (ob_deployments (platformOnboarding c)) t (oi_DeploymentUnitID input) s2
          = ((u, err2), s3)" by (metis surj_pair)
      from place_platform [OF pl] obtain y where y: "s3 = s2\<lparr>pt_deploy := y\<rparr>"
        "dm_units (fst y) = dm_units (fst (pt_deploy s2))"
        "\<forall>i. i \<noteq> tn_ID t \<longrightarrow> map_of (dm_assignments (fst y)) i = map_of (dm_assignments (fst (pt_deploy s2))) i"
        "err2 = None \<longrightarrow> (case pc_deployments c of None \<Rightarrow> u = zeroUnit
         | Some d \<Rightarrow> DeployService_Resolve (Some d) quietDeploy t y = (Inr u, y) \<and> du_ID u = oi_DeploymentUnitID input)"
        by blast
      have f3: "flowStep tid s s3"
        using flowStep_trans [OF f2] placement_effect [OF flowStep_inv [OF f2] y(2)] y(1,3) at(1) by simp
      show ?thesis
      proof (cases err2)
        case (Some e)
        then have "s' = s3 \<and> sent' = sent \<and> err \<noteq> None" using run False cr plan None pl
          by (auto simp: Onboard_def or_return_def platformPlans_def Let_def)
        then show ?thesis using flowEffect_step [OF f3 _ touch, of sent sent] x(1) y(1) by auto
      next
        case none2: None
        let ?r = "?r1\<lparr>or_DeploymentUnit := u\<rparr>"
        have ini: "initializeTenant sha (platformOnboarding c) (platformTenants c) (platformSubs c) input t plan ?r
            sent s3 = ((res, err), (s', sent'))"
          using run False cr plan None pl none2
          by (auto simp: Onboard_def or_return_def platformPlans_def Let_def)
        have t3: "tn_ID t \<noteq> []" "tenantsOf (fst (pt_tenants s3)) (tn_ID t) = Some t"
          "tn_Status t = TenantStatusPending \<or> tn_Status t = TenantStatusActive"
          using at x(1) y(1) by (auto simp: resumable_def)
        have pinv: "pl_ID plan \<noteq> []" using plan_platform plan inv by (auto simp: platform_inv_def)
        note fin = initialize_platform [OF ini flowStep_inv [OF f3] t3 pinv]
        have lim: "or_QuotaLimits ?r = quotaLimits (tn_ID t) (pl_Quotas plan)" by simp
        note fin = fin [OF lim]
        have "flowStep tid s s'" using flowStep_trans [OF f3] fin at(1) by simp
        moreover have "mailStep (s, sent) (s', sent')" using fin x(1) y(1) by (simp add: mailStep_def)
        ultimately have eff: "flowEffect input (s, sent) (s', sent')" using flowEffect_step touch by blast
        have feat: "featuresEffect input s s'" using fin plan x(1) y(1) by (auto simp: featuresEffect_def)
        have "settledAs sha c input res (s', sent')
            \<and> (pc_quotas c \<and> map_of (ss_subscriptions (pt_subs s)) (tn_ID (or_Tenant res)) = None \<longrightarrow>
              (\<forall>l\<in>set (or_QuotaLimits res). usageOf (limitKey l) (pt_quotas s') = 0))
            \<and> pt_mail s' = pt_mail s @ welcomeDue sha (oi_Welcome input) (tn_ID (or_Tenant res)) sent"
          if ok: "err = None"
        proof -
          from fin ok obtain flags sub where res: "res = ?r\<lparr>or_Features := flags, or_Subscription := sub,
                or_Tenant := (if oi_SkipActivation input then t else t\<lparr>tn_Status := TenantStatusActive\<rparr>)\<rparr>"
            and stored: "tenantsOf (fst (pt_tenants s')) (tn_ID t) = Some (or_Tenant res)"
              "map_of (ss_subscriptions (pt_subs s')) (tn_ID t) = Some sub"
              "subscriptionMatches (pl_ID plan) (oi_SubscriptionPeriodEnd input) sub"
              "if pc_features c then Features_List None (tn_ID t) (pl_ID plan) (pt_features s') = Inr flags
               else flags = []"
            and usage: "pc_quotas c \<and> map_of (ss_subscriptions (pt_subs s3)) (tn_ID t) = None \<longrightarrow>
                   (\<forall>l\<in>set (or_QuotaLimits res). usageOf (limitKey l) (pt_quotas s') = 0)"
            and told: "pc_audit c \<longrightarrow> list_ex (sameEvent (onboardEvent sha (tn_ID t) (pl_ID plan)
                  (tn_Status (or_Tenant res)) (du_ID (or_DeploymentUnit res)) (oi_AuditMetadata input))) (pt_audit s')"
              "welcomed sha input (tn_ID t) sent'"
            and mail: "pt_mail s' = pt_mail s3 @ welcomeDue sha (oi_Welcome input) (tn_ID t) sent" by blast
          have same: "tn_ID (or_Tenant res) = tn_ID t" "or_Plan res = plan" "or_DeploymentUnit res = u"
            "or_Features res = flags" "or_Subscription res = sub"
            "or_QuotaLimits res = quotaLimits (tn_ID t) (pl_Quotas plan)" using res by simp_all
          have status: "resumable ?in (or_Tenant res)"
            "\<not> oi_SkipActivation input \<longrightarrow> tn_Status (or_Tenant res) = TenantStatusActive"
            using res at(4) by (simp_all add: resumable_def)
          have place: "case pc_deployments c of None \<Rightarrow> u = zeroUnit
             | Some d \<Rightarrow> DeployService_Resolve (Some d) quietDeploy (or_Tenant res) (pt_deploy s')
                 = (Inr u, pt_deploy s') \<and> du_ID u = oi_DeploymentUnitID input"
            using fin y(1,4) none2 resolve_platform(2) [of _ t y "Inr u" y "or_Tenant res"] same(1)
            by (auto split: option.splits)
          have "pt_plans s' = pt_plans s" "ss_pending (pt_subs s') = []" using eff
            by (simp_all add: flowEffect_def platform_inv_def)
          then show ?thesis
            using stored usage told mail status place same at(1,2) x(1,3) y(1) plan
            by (simp add: settledAs_def Let_def Tenants_Get_Inr Sub_Get_idle cong: if_cong option.case_cong)
        qed
        with eff feat show ?thesis by blast
      qed
    qed
  qed
qed

section \<open>Retries\<close>

definition withID :: "TenantID \<Rightarrow> OnboardInput \<Rightarrow> OnboardInput" where
  "withID tid input = input\<lparr>oi_Tenant := (oi_Tenant input)\<lparr>in_ID := tid\<rparr>\<rparr>"

text \<open>The deployment policy accepts the tenant as it is now on its unit.\<close>

definition policyAccepts :: "platformConfig \<Rightarrow> Tenant \<Rightarrow> DeploymentUnit \<Rightarrow> bool" where
  "policyAccepts c t u \<longleftrightarrow>
     (\<forall>d policy. pc_deployments c = Some d \<and> ds_policy d = Some policy \<longrightarrow> policy t u = None)"

lemma recreate_platform:
  assumes "tenantsOf (fst st) tid = Some t" "in_ID input = tid" "tid \<noteq> []"
  shows "Manager_Create (platformManager c) quietEnv input st = ((None, Some ErrTenantAlreadyExists), st)"
  using assms by (cases st)
    (simp add: Manager_Create_def Tenants_Create_def tenantCtx_def validateTenant_def tenantsOf_def)

lemma resume_platform:
  assumes "tenantsOf (fst (pt_tenants s)) tid = Some t" "resumable input t" "tid \<noteq> []"
  shows "createOrResumeTenant (platformTenants c) (input\<lparr>in_ID := tid\<rparr>) s = ((t, None), s)"
proof -
  have "Manager_Create (platformManager c) quietEnv (input\<lparr>in_ID := tid\<rparr>) (pt_tenants s)
      = ((None, Some ErrTenantAlreadyExists), pt_tenants s)"
    using recreate_platform [OF assms(1) _ assms(3)] by simp
  moreover have "Tenants_Get None tid (fst (pt_tenants s)) = Inr t" using assms by (simp add: Tenants_Get_Inr)
  ultimately show ?thesis using assms(2,3)
    by (auto simp: createOrResumeTenant_def platformTenants_def onTenants_def get_platform zeroTenant_def
        resumable_def)
qed

lemma replace_platform:
  assumes res: "DeployService_Resolve (Some d) quietDeploy t (pt_deploy s) = (Inr u, pt_deploy s)"
    and "platform_inv s" "policyAccepts c t u" "pc_deployments c = Some d" "tn_ID t \<noteq> []"
  shows "placeTenant (ob_deployments (platformOnboarding c)) t (du_ID u) s = ((u, None), s)"
proof -
  obtain m log where st: "pt_deploy s = (m, log)" by (cases "pt_deploy s")
  have ready: "\<not> ds_store_nil d" using res
    by (auto simp: DeployService_Resolve_def deployReady_def on_ok_def split: if_splits sum.splits)
  obtain a where a: "map_of (dm_assignments m) (tn_ID t) = Some a" "as_UnitID a \<noteq> []"
    "map_of (dm_units m) (as_UnitID a) = Some u" "du_Status u = DeploymentUnitStatusActive"
    using res ready assms(5) unfolding st
    by (auto simp: DeployService_Resolve_def deployReady_def on_done_def Deploy_GetAssignment_def deployCtx_def
        Deploy_GetUnit_def quietDeploy_def deployRead_def deployCall_def split: if_splits sum.splits option.splits)
  have uid: "du_ID u = as_UnitID a" using a(3) assms(2) st by (auto simp: platform_inv_def dest: keyed_mapD)
  have "DeployService_Assign (Some d) quietDeploy t (du_ID u) (pt_deploy s)
      = ((None, Some ErrAssignmentAlreadyExists), pt_deploy s)"
    unfolding st DeployService_Assign_def withService_def deployReady_def activeUnitFor_def
    using ready a uid assms(3-5)
    by (auto simp: on_done_def deployCtx_def Deploy_GetUnit_def quietDeploy_def
        deployRead_def deployCall_def policyAccepts_def finishCall_def Deploy_CreateAssignment_def
        validateAssignment_def activeUnit_def Let_def split: option.splits)
  then show ?thesis using res assms(4)
    by (simp add: placeTenant_def assignOrResolveDeployment_def platformDeployments_def onDeploy_def)
qed

lemma unplaced_platform:
  "pc_deployments c = None \<Longrightarrow> placeTenant (ob_deployments (platformOnboarding c)) t uid s = ((zeroUnit, None), s)"
  by (simp add: placeTenant_def)

lemma validateInput_withID: "validateInput sv (withID tid input) = validateInput sv input"
  by (simp add: validateInput_def withID_def cong: if_cong option.case_cong)

lemma settled_retry:
  assumes "settledAs sha c input res (s, sent)" "platform_inv s"
    and "validateInput (Some (platformOnboarding c)) input = None"
    and "policyAccepts c (or_Tenant res) (or_DeploymentUnit res)"
  shows "Onboard sha None (Some (platformOnboarding c)) (withID (tn_ID (or_Tenant res)) input) (s, sent)
    = ((res, None), (s, sent))"
proof -
  let ?t = "or_Tenant res" and ?in = "oi_Tenant input" and ?plan = "or_Plan res"
  let ?input = "withID (tn_ID ?t) input"
  have in_simps: "oi_Tenant ?input = ?in\<lparr>in_ID := tn_ID ?t\<rparr>" "oi_DeploymentUnitID ?input = oi_DeploymentUnitID input"
    "oi_SubscriptionPeriodEnd ?input = oi_SubscriptionPeriodEnd input" "oi_Welcome ?input = oi_Welcome input"
    "oi_SkipActivation ?input = oi_SkipActivation input" "oi_AuditMetadata ?input = oi_AuditMetadata input"
    by (simp_all add: withID_def)
  have valid: "validateInput (Some (platformOnboarding c)) ?input = None"
    using assms(3) by (simp add: validateInput_withID)
  note set = assms(1) [unfolded settledAs_def Let_def fst_conv snd_conv]
  have t: "tn_ID ?t \<noteq> []" "tenantsOf (fst (pt_tenants s)) (tn_ID ?t) = Some ?t" "resumable ?in ?t"
    using set by (auto simp: Tenants_Get_Inr)
  have plan: "ps_Get platformPlans (in_PlanID (oi_Tenant ?input)) s = (Inr ?plan, s)"
    using set by (simp add: platformPlans_def in_simps)
  have resume: "createOrResumeTenant (platformTenants c) (oi_Tenant ?input) s = ((?t, None), s)"
    using resume_platform [OF t(2,3,1)] by (simp add: in_simps)
  have place: "placeTenant (ob_deployments (platformOnboarding c)) ?t (oi_DeploymentUnitID ?input) s
      = ((or_DeploymentUnit res, None), s)"
    using set replace_platform [OF _ assms(2,4) _ t(1)] unplaced_platform
    by (cases "pc_deployments c") (auto simp: in_simps)
  have sub: "existingSubscription (platformSubs c) (tn_ID ?t) (pl_ID ?plan) (oi_SubscriptionPeriodEnd ?input) s
      = (Inr (Some (or_Subscription res)), s)"
    using set by (simp add: existingSubscription_def platformSubs_def in_simps)
  have flags: "initializeFeatures (ob_features (platformOnboarding c)) False (tn_ID ?t) ?plan ov s
      = (Inr (or_Features res), s)" for ov
    using set by (simp add: initializeFeatures_def platformFeatures_def split: if_splits)
  have quotas: "initializeQuotas (ob_quotas (platformOnboarding c)) False limits s = (Inr (), s)" for limits
    by (simp add: initializeQuotas_def)
  have act: "activateTenant (platformTenants c) (oi_SkipActivation ?input) ?t s = (Inr ?t, s)"
    using set by (auto simp: activateTenant_def in_simps)
  have rec: "recordOnboarding (ob_audit (platformOnboarding c)) (onboardEvent sha (tn_ID ?t) (pl_ID ?plan)
      (tn_Status ?t) (du_ID (or_DeploymentUnit res)) (oi_AuditMetadata ?input)) s = (Inr (), s)"
    using set t(1) by (simp add: recordOnboarding_def in_simps hasOnboardingAudit_platform onboardEvent_def)
  have mail: "sendWelcome sha (ob_notifier (platformOnboarding c)) (tn_ID ?t) (oi_Welcome ?input) r (s, sent)
      = ((r, None), (s, sent))" for r
    using set assms(3) by (auto simp: sendWelcome_def welcomed_def in_simps validateInput_def Let_def
        split: option.splits if_splits)
  have limits: "or_QuotaLimits res = quotaLimits (tn_ID ?t) (pl_Quotas ?plan)" using set by simp
  let ?r = "zeroResult\<lparr>or_Tenant := ?t, or_Plan := ?plan,
      or_QuotaLimits := quotaLimits (tn_ID ?t) (pl_Quotas ?plan), or_DeploymentUnit := or_DeploymentUnit res\<rparr>"
  have "initializeTenant sha (platformOnboarding c) (platformTenants c) (platformSubs c) ?input ?t ?plan ?r sent s
      = ((res, None), (s, sent))"
    using limits by (simp add: initializeTenant_def completeOnboarding_def or_return_def sub flags quotas act rec mail
        Let_def zeroResult_def del: platformOnboarding_simps)
  then show ?thesis
    by (simp add: Onboard_def valid or_return_def plan resume place Let_def
        del: platformOnboarding_simps(4-8))
qed

section \<open>The guarantees\<close>

text \<open>
  C7. Onboarding can be retried. When the flow has succeeded on the in-memory platform - from any
  well-formed state, whichever integrations are configured, whether it created the tenant or resumed
  one - the same request with the tenant's identifier, made again, answers the very same result and
  changes nothing at all: no store, no usage, no audit event, no second message; provided the
  deployment policy still accepts the tenant on its unit.
\<close>

theorem onboard_retry_idempotent:
  assumes "Onboard sha cx (Some (platformOnboarding c)) input (s, sent) = ((res, None), (s', sent'))"
    and "platform_inv s" "policyAccepts c (or_Tenant res) (or_DeploymentUnit res)"
  shows "Onboard sha None (Some (platformOnboarding c)) (withID (tn_ID (or_Tenant res)) input) (s', sent')
    = ((res, None), (s', sent'))"
proof -
  have run: "flowEffect input (s, sent) (s', sent')" "settledAs sha c input res (s', sent')"
    using onboard_run [OF assms(1,2)] by simp_all
  have "validateInput (Some (platformOnboarding c)) input = None"
    using assms(1) by (cases "validateInput (Some (platformOnboarding c)) input") (simp_all add: Onboard_def)
  then show ?thesis using settled_retry [OF run(2) _ _ assms(3)] run(1) by (simp add: flowEffect_def)
qed

text \<open>
  C19. A successful onboarding has done everything: afterwards the tenant manager, the plan service,
  the deployment service, the subscription service and the feature store answer what the result says
  - the tenant with the requested name, plan and configuration, active unless activation was skipped,
  on the requested unit, with an active subscription to the plan for the requested period - and its
  audit event is recorded; if it had no subscription before, the usage of every quota of the plan is
  zero; and what has been delivered meanwhile is exactly the requested welcome message, under the
  tenant's identifier, if the service had not sent it to this tenant before, and nothing otherwise.
\<close>

theorem onboard_complete:
  assumes "Onboard sha cx (Some (platformOnboarding c)) input (s, sent) = ((res, None), (s', sent'))"
    and "platform_inv s"
  shows "settledAs sha c input res (s', sent')
    \<and> (pc_quotas c \<and> map_of (ss_subscriptions (pt_subs s)) (tn_ID (or_Tenant res)) = None \<longrightarrow>
         (\<forall>l\<in>set (or_QuotaLimits res). usageOf (limitKey l) (pt_quotas s') = 0))
    \<and> pt_mail s' = pt_mail s @ welcomeDue sha (oi_Welcome input) (tn_ID (or_Tenant res)) sent"
  using onboard_run [OF assms] by simp

text \<open>What a tenant on a plan gets from the feature store.\<close>

definition sameFeatures :: "TenantID \<Rightarrow> string \<Rightarrow> FeatureMemory \<Rightarrow> FeatureMemory \<Rightarrow> bool" where
  "sameFeatures i p st st' \<longleftrightarrow> Features_List None i p st' = Features_List None i p st
     \<and> (\<forall>key. Features_Resolve None i p key st' = Features_Resolve None i p key st)"

lemma sameFeaturesI:
  "map_of (fm_tenantOverrides st') i = map_of (fm_tenantOverrides st) i \<Longrightarrow>
   map_of (fm_planDefaults st') p = map_of (fm_planDefaults st) p \<Longrightarrow> sameFeatures i p st st'"
  unfolding sameFeatures_def Features_List_def Features_Resolve_def
  by (simp only: flagsOf_def [of i] flagsOf_def [of p] simp_thms)

lemma featuresEffect_defaults:
  assumes "featuresEffect input s s'" "platform_inv s"
  shows "(\<forall>p. p \<noteq> in_PlanID (oi_Tenant input) \<longrightarrow>
       map_of (fm_planDefaults (pt_features s')) p = map_of (fm_planDefaults (pt_features s)) p)
    \<and> (map_of (fm_planDefaults (pt_features s')) (in_PlanID (oi_Tenant input))
         = map_of (fm_planDefaults (pt_features s)) (in_PlanID (oi_Tenant input))
       \<or> (\<exists>plan index. Plans_Get None (in_PlanID (oi_Tenant input)) (pt_plans s) = Inr plan
            \<and> indexFlags (planFeatureFlags (pl_Features plan)) = Inr index
            \<and> map_of (fm_planDefaults (pt_features s')) (in_PlanID (oi_Tenant input)) = Some index))"
  using assms plan_platform_id by (fastforce simp: featuresEffect_def defaultsFrom_def platform_inv_def)

text \<open>
  C15. Onboarding, however it ends, keeps to its tenant and to the defaults of the requested plan: no
  other tenant - and with a generated identifier none that was there before - has its record,
  subscription, feature overrides, usage, audit log, assignment or messages changed, and plans are
  untouched. What is shared is the feature defaults of plans: those of the requested plan may be set
  to the features the plan has in the plan service, which the tenants on that plan then get, those of
  every other plan stay, so that a tenant on another plan resolves and lists the very same features.
  A tenant that is subscribed is not initialised again: all subscriptions, features, plan defaults
  and usage stay exactly as they are.
\<close>

theorem onboard_isolated:
  assumes "Onboard sha cx (Some (platformOnboarding c)) input (s, sent) = ((res, err), (s', sent'))"
    and "platform_inv s" and "plan = in_PlanID (oi_Tenant input)"
  shows "(\<forall>i. \<not> touches input s i \<longrightarrow> sameFor i s s') \<and> pt_plans s' = pt_plans s \<and> platform_inv s'
    \<and> (\<forall>i p. \<not> touches input s i \<and> p \<noteq> plan \<longrightarrow> sameFeatures i p (pt_features s) (pt_features s'))
    \<and> (map_of (fm_planDefaults (pt_features s')) plan = map_of (fm_planDefaults (pt_features s)) plan
       \<or> (\<exists>pl index. Plans_Get None plan (pt_plans s) = Inr pl
            \<and> indexFlags (planFeatureFlags (pl_Features pl)) = Inr index
            \<and> map_of (fm_planDefaults (pt_features s')) plan = Some index))
    \<and> (in_ID (oi_Tenant input) \<noteq> [] \<and> map_of (ss_subscriptions (pt_subs s)) (in_ID (oi_Tenant input)) \<noteq> None
       \<longrightarrow> pt_subs s' = pt_subs s \<and> pt_features s' = pt_features s \<and> pt_quotas s' = pt_quotas s)"
proof -
  note run = onboard_run [OF assms(1,2)]
  then have defaults: "featuresEffect input s s'" by simp
  note d = featuresEffect_defaults [OF this assms(2), folded assms(3)]
  have same: "\<forall>i. \<not> touches input s i \<longrightarrow> sameFor i s s'" using run by (simp add: flowEffect_def)
  then have "sameFeatures i p (pt_features s) (pt_features s')" if "\<not> touches input s i \<and> p \<noteq> plan" for i p
    using that d by (intro sameFeaturesI) (simp_all add: sameFor_def)
  with same d run show ?thesis by (auto simp: flowEffect_def checkpointKept_def)
qed

fun onboardAll :: "(char list \<Rightarrow> char list) \<Rightarrow> platformConfig \<Rightarrow> (ctx \<times> OnboardInput) list
    \<Rightarrow> Platform onboarded \<Rightarrow> Platform onboarded"
where
  "onboardAll sha c [] st = st"
| "onboardAll sha c ((cx, input) # reqs) st =
     onboardAll sha c reqs (snd (Onboard sha cx (Some (platformOnboarding c)) input st))"

lemma onboardAll_mail:
  "platform_inv (fst st) \<Longrightarrow> distinct (map (\<lambda>m. (mm_TenantID m, mm_ID m)) (pt_mail (fst st))) \<Longrightarrow>
     \<forall>m\<in>set (pt_mail (fst st)). (mm_TenantID m, mm_ID m) \<in> snd st \<Longrightarrow>
     distinct (map (\<lambda>m. (mm_TenantID m, mm_ID m)) (pt_mail (fst (onboardAll sha c reqs st))))"
proof (induction reqs arbitrary: st)
  case (Cons req reqs)
  obtain cx input where req: "req = (cx, input)" by (cases req)
  obtain s sent where st: "st = (s, sent)" by (cases st)
  obtain res err s' sent' where run: "Onboard sha cx (Some (platformOnboarding c)) input (s, sent) = ((res, err), (s', sent'))"
    by (metis surj_pair)
  have inv: "platform_inv s" using Cons.prems st by simp
  from onboard_run [OF run inv] have eff: "platform_inv s'" "mailStep (s, sent) (s', sent')"
    by (simp_all add: flowEffect_def)
  then have "distinct (map (\<lambda>m. (mm_TenantID m, mm_ID m)) (pt_mail s'))"
    "\<forall>m\<in>set (pt_mail s'). (mm_TenantID m, mm_ID m) \<in> sent'"
    using Cons.prems st by (auto simp: mailStep_def)
  then show ?case using Cons.IH [of "(s', sent')"] eff(1) run req st by simp
qed simp

text \<open>
  C39. Welcome messages are sent at most once: whatever requests a service serves, and however they
  end, no two messages it has delivered are to the same tenant with the same identifier.
\<close>

theorem onboard_welcome_once:
  assumes "platform_inv s" "pt_mail s = []"
  shows "distinct (map (\<lambda>m. (mm_TenantID m, mm_ID m)) (pt_mail (fst (onboardAll sha c reqs (s, {})))))"
  using onboardAll_mail [of "(s, {})"] assms by simp

section \<open>A platform\<close>

definition sampleConfig :: platformConfig where
  "sampleConfig = \<lparr>pc_manager = sampleManager, pc_hook = None,
     pc_deployments = Some \<lparr>ds_store_nil = False, ds_policy = None, ds_auditor = None\<rparr>,
     pc_features = True, pc_quotas = True, pc_audit = True, pc_deliver = Some (\<lambda>_. None), pc_now = 5\<rparr>"

definition samplePlan :: Plan where
  "samplePlan = \<lparr>pl_ID = ''pro'', pl_Name = ''Pro'',
     pl_Features = [\<lparr>ft_Key = ''api'', ft_Enabled = True, ft_Config = None\<rparr>],
     pl_Quotas = [\<lparr>pq_Resource = ''calls'', pq_Limit = 10, pq_Period = ''day''\<rparr>]\<rparr>"

definition samplePlatform :: Platform where
  "samplePlatform = \<lparr>pt_tenants = (NewTenantMemory, []), pt_plans = \<lparr>pm_plans = [(''pro'', samplePlan)]\<rparr>,
     pt_subs = NewSubService 0, pt_features = NewFeatureMemory, pt_quotas = NewQuotaMemory,
     pt_audit = NewAuditMemory,
     pt_deploy = (NewDeployMemory\<lparr>dm_units := [(''u'', \<lparr>du_ID = ''u'', du_Status = DeploymentUnitStatusActive,
        du_Region = ''eu'', du_ResidencyTags = None, du_Metadata = None\<rparr>)]\<rparr>, []), pt_mail = []\<rparr>"

definition sampleInput :: OnboardInput where
  "sampleInput = \<lparr>oi_Tenant = \<lparr>in_ID = ''acme'', in_Name = ''Acme'', in_PlanID = ''pro'', in_Config = None\<rparr>,
     oi_DeploymentUnitID = ''u'', oi_SubscriptionPeriodEnd = Some 9, oi_FeatureOverrides = [],
     oi_Welcome = Some \<lparr>mm_ID = [], mm_TenantID = [], mm_Channel = ''mail'', mm_To = ''a'', mm_Subject = [],
       mm_Body = [], mm_Metadata = None, mm_Tags = None\<rparr>,
     oi_SkipActivation = False, oi_AuditMetadata = None\<rparr>"

definition sampleRun :: "(OnboardResult \<times> onboard_error option) \<times> Platform onboarded" where
  "sampleRun = Onboard (\<lambda>_. replicate 32 CHR 0x00) None (Some (platformOnboarding sampleConfig)) sampleInput
     (samplePlatform, {})"

lemma samplePlatform_inv: "platform_inv samplePlatform"
  by (simp add: platform_inv_def samplePlatform_def tenant_inv_def NewTenantMemory_def plan_inv_def samplePlan_def
      keyed_map_def validatePlan_def sub_inv_new NewDeployMemory_def NewSubService_def)
    (simp add: sub_inv_def NewSubService_def)

lemma sampleRun_ok: "snd (fst sampleRun) = None"
  by code_simp

lemma sampleRun_split:
  obtains res s' sent' where "sampleRun = ((res, None), (s', sent'))"
    "Onboard (\<lambda>_. replicate 32 CHR 0x00) None (Some (platformOnboarding sampleConfig)) sampleInput
       (samplePlatform, {}) = ((res, None), (s', sent'))"
proof -
  obtain res err s' sent' where run: "sampleRun = ((res, err), (s', sent'))" by (metis surj_pair)
  have "err = None" using sampleRun_ok by (simp only: run fst_conv snd_conv)
  with run that show thesis by (simp add: sampleRun_def)
qed

lemma onboard_retry_idempotent_witness:
  "Onboard (\<lambda>_. replicate 32 CHR 0x00) None (Some (platformOnboarding sampleConfig))
     (withID (tn_ID (or_Tenant (fst (fst sampleRun)))) sampleInput) (snd sampleRun)
   = ((fst (fst sampleRun), None), snd sampleRun)"
proof -
  obtain res s' sent' where run: "sampleRun = ((res, None), (s', sent'))"
    "Onboard (\<lambda>_. replicate 32 CHR 0x00) None (Some (platformOnboarding sampleConfig)) sampleInput
       (samplePlatform, {}) = ((res, None), (s', sent'))" by (rule sampleRun_split)
  have "policyAccepts sampleConfig (or_Tenant res) (or_DeploymentUnit res)"
    by (simp add: policyAccepts_def sampleConfig_def)
  from onboard_retry_idempotent [OF run(2) samplePlatform_inv this] show ?thesis by (simp add: run(1))
qed

lemma onboard_complete_witness:
  "settledAs (\<lambda>_. replicate 32 CHR 0x00) sampleConfig sampleInput (fst (fst sampleRun)) (snd sampleRun)
   \<and> length (pt_mail (fst (snd sampleRun))) = 1"
proof -
  obtain res s' sent' where run: "sampleRun = ((res, None), (s', sent'))"
    "Onboard (\<lambda>_. replicate 32 CHR 0x00) None (Some (platformOnboarding sampleConfig)) sampleInput
       (samplePlatform, {}) = ((res, None), (s', sent'))" by (rule sampleRun_split)
  from onboard_complete [OF run(2) samplePlatform_inv] show ?thesis
    by (simp add: run(1) welcomeDue_def samplePlatform_def sampleInput_def)
qed

lemma onboard_isolated_witness:
  "sameFor ''other'' samplePlatform (fst (snd sampleRun))
   \<and> sameFeatures ''other'' ''basic'' (pt_features samplePlatform) (pt_features (fst (snd sampleRun)))
   \<and> map_of (fm_planDefaults (pt_features (fst (snd sampleRun)))) ''pro'' \<noteq> None"
proof -
  obtain res s' sent' where run: "sampleRun = ((res, None), (s', sent'))"
    "Onboard (\<lambda>_. replicate 32 CHR 0x00) None (Some (platformOnboarding sampleConfig)) sampleInput
       (samplePlatform, {}) = ((res, None), (s', sent'))" by (rule sampleRun_split)
  have "touches sampleInput samplePlatform i \<longleftrightarrow> i = ''acme''" for i by (simp add: touches_def sampleInput_def)
  with onboard_isolated [OF run(2) samplePlatform_inv refl] have
    "sameFor ''other'' samplePlatform (fst (snd sampleRun))"
    "sameFeatures ''other'' ''basic'' (pt_features samplePlatform) (pt_features (fst (snd sampleRun)))"
    by (simp_all add: run(1) sampleInput_def)
  moreover have "map_of (fm_planDefaults (pt_features (fst (snd sampleRun)))) ''pro'' \<noteq> None" by code_simp
  ultimately show ?thesis by blast
qed

lemma onboard_welcome_once_witness:
  "distinct (map (\<lambda>m. (mm_TenantID m, mm_ID m)) (pt_mail (fst
     (onboardAll (\<lambda>_. replicate 32 CHR 0x00) sampleConfig [(None, sampleInput), (None, sampleInput)]
       (samplePlatform, {})))))"
  by (rule onboard_welcome_once [OF samplePlatform_inv]) (simp add: samplePlatform_def)

end
