(* ===== verification/SQL_Scanner.thy ===== *)
theory SQL_Scanner
  imports Core_Context
begin

text \<open>
  The SQL scanner and the analysis of statements (\<open>data/sqlx/scanner.go\<close>). The scanner looks only
  ahead, so it is a recursion over the rest of the text; \<open>index\<close> is where that rest starts. A
  token's text holds bytes. Keywords are ASCII; where \<open>strings.EqualFold\<close> meets a quoted
  identifier, which may hold any bytes, the two characters that fold to ASCII letters are written
  out in UTF-8.
\<close>

datatype sql_error = ErrUnsafeSQL | ErrTenantFieldUpdate | ErrNoTenant | ErrInvalidFieldName

datatype sqlTokenKind = sqlWord | sqlQuotedIdentifier | sqlString | sqlSymbol

record sqlToken =
  tk_kind :: sqlTokenKind
  tk_text :: string
  tk_start :: nat
  tk_end :: nat
  tk_depth :: nat

section \<open>Characters\<close>

definition isLetter :: "char \<Rightarrow> bool" where
  "isLetter c \<longleftrightarrow> (CHR ''a'' \<le> c \<and> c \<le> CHR ''z'') \<or> (CHR ''A'' \<le> c \<and> c \<le> CHR ''Z'')"

definition isSQLSpace :: "char \<Rightarrow> bool" where
  "isSQLSpace c \<longleftrightarrow> c \<in> {CHR '' '', CHR 0x09, CHR 0x0A, CHR 0x0D, CHR 0x0C, CHR 0x0B}"

definition isIdentifierStart :: "char \<Rightarrow> bool" where
  "isIdentifierStart c \<longleftrightarrow> c = CHR ''_'' \<or> isLetter c"

definition isIdentifierPart :: "char \<Rightarrow> bool" where
  "isIdentifierPart c \<longleftrightarrow> isIdentifierStart c \<or> (CHR ''0'' \<le> c \<and> c \<le> CHR ''9'') \<or> c = CHR ''$''"

definition isDollarTagStart :: "char \<Rightarrow> bool" where
  "isDollarTagStart c \<longleftrightarrow> c = CHR ''_'' \<or> isLetter c"

definition isDollarTagPart :: "char \<Rightarrow> bool" where
  "isDollarTagPart c \<longleftrightarrow> isDollarTagStart c \<or> (CHR ''0'' \<le> c \<and> c \<le> CHR ''9'')"

definition hasPrefix :: "string \<Rightarrow> string \<Rightarrow> bool" where
  "hasPrefix s p \<longleftrightarrow> take (length p) s = p"

section \<open>Quotes\<close>

text \<open>
  The length of a quoted text: \<open>rest\<close> follows its opening quote and \<open>n\<close> characters, the opening
  quote among them, are behind us.
\<close>

fun quotedLength :: "char \<Rightarrow> nat \<Rightarrow> string \<Rightarrow> nat option" where
  "quotedLength quote n [] = None"
| "quotedLength quote n (c # rest) =
     (if c = CHR 0x5C then None
      else if c \<noteq> quote then quotedLength quote (n + 1) rest
      else case rest of
        [] \<Rightarrow> Some (n + 1)
      | d # rest' \<Rightarrow> if d = quote then quotedLength quote (n + 2) rest' else Some (n + 1))"

definition scanQuoted :: "string \<Rightarrow> char \<Rightarrow> nat option" where
  "scanQuoted rest quote = quotedLength quote 1 (tl rest)"

fun bracketLength :: "nat \<Rightarrow> string \<Rightarrow> nat option" where
  "bracketLength n [] = None"
| "bracketLength n (c # rest) =
     (if c \<noteq> CHR '']'' then bracketLength (n + 1) rest
      else case rest of
        [] \<Rightarrow> Some (n + 1)
      | d # rest' \<Rightarrow> if d = CHR '']'' then bracketLength (n + 2) rest' else Some (n + 1))"

definition scanBracketIdentifier :: "string \<Rightarrow> nat option" where
  "scanBracketIdentifier rest = bracketLength 1 (tl rest)"

definition dollarQuoteDelimiter :: "string \<Rightarrow> string option" where
  "dollarQuoteDelimiter rest =
     (case rest of
        c # d # ds \<Rightarrow>
          if c \<noteq> CHR ''$'' then None
          else if d = CHR ''$'' then Some ''$$''
          else if \<not> isDollarTagStart d then None
          else (case dropWhile isDollarTagPart ds of
                  [] \<Rightarrow> None
                | e # _ \<Rightarrow> if e \<noteq> CHR ''$'' then None
                           else Some (c # d # takeWhile isDollarTagPart ds @ ''$''))
      | _ \<Rightarrow> None)"

text \<open>\<open>strings.Index\<close>.\<close>

fun indexOf :: "string \<Rightarrow> string \<Rightarrow> nat option" where
  "indexOf [] p = (if p = [] then Some 0 else None)"
| "indexOf (c # s) p = (if hasPrefix (c # s) p then Some 0 else map_option Suc (indexOf s p))"

section \<open>The scanner\<close>

definition forbidden :: "string \<Rightarrow> bool" where
  "forbidden rest \<longleftrightarrow> hd rest = CHR '';'' \<or> hd rest = CHR ''#'' \<or> hd rest = CHR 0x00
     \<or> hasPrefix rest ''--'' \<or> hasPrefix rest ''/*'' \<or> hasPrefix rest ''*/''"

text \<open>The kind and the length of the token at the start of a text that is neither a space nor
  forbidden; \<open>None\<close> when it does not end.\<close>

definition nextToken :: "string \<Rightarrow> (sqlTokenKind \<times> nat) option" where
  "nextToken rest =
     (case dollarQuoteDelimiter rest of
        Some delimiter \<Rightarrow>
          map_option (\<lambda>end_at. (sqlString, end_at + 2 * length delimiter))
            (indexOf (drop (length delimiter) rest) delimiter)
      | None \<Rightarrow>
          if hd rest = CHR 0x27 then map_option (Pair sqlString) (scanQuoted rest (hd rest))
          else if hd rest = CHR 0x22 \<or> hd rest = CHR 0x60
          then map_option (Pair sqlQuotedIdentifier) (scanQuoted rest (hd rest))
          else if hd rest = CHR ''['' then map_option (Pair sqlQuotedIdentifier) (scanBracketIdentifier rest)
          else if isIdentifierStart (hd rest)
          then Some (sqlWord, 1 + length (takeWhile isIdentifierPart (tl rest)))
          else Some (sqlSymbol, 1))"

definition tokenDepth :: "string \<Rightarrow> nat \<Rightarrow> nat option" where
  "tokenDepth text depth = (if text = '')'' then (if depth = 0 then None else Some (depth - 1)) else Some depth)"

definition depthAfter :: "string \<Rightarrow> nat \<Rightarrow> nat" where
  "depthAfter text depth = (if text = ''('' then depth + 1 else depth)"

lemma quotedLength_pos: "quotedLength quote n s = Some m \<Longrightarrow> n < m"
  by (induction quote n s rule: quotedLength.induct) (auto split: if_splits list.splits)

lemma bracketLength_pos: "bracketLength n s = Some m \<Longrightarrow> n < m"
  by (induction n s rule: bracketLength.induct) (auto split: if_splits list.splits)

lemma nextToken_pos: "nextToken rest = Some (kind, n) \<Longrightarrow> 0 < n"
  by (auto simp: nextToken_def scanQuoted_def scanBracketIdentifier_def dollarQuoteDelimiter_def
      dest: quotedLength_pos bracketLength_pos split: option.splits if_splits list.splits)

function scanFrom :: "nat \<Rightarrow> nat \<Rightarrow> string \<Rightarrow> sql_error + sqlToken list" where
  "scanFrom index depth [] = (if depth = 0 then Inr [] else Inl ErrUnsafeSQL)"
| "scanFrom index depth (c # rest) =
     (if isSQLSpace c then scanFrom (index + 1) depth rest
      else if forbidden (c # rest) then Inl ErrUnsafeSQL
      else case nextToken (c # rest) of
        None \<Rightarrow> Inl ErrUnsafeSQL
      | Some (kind, n) \<Rightarrow>
          (case tokenDepth (take n (c # rest)) depth of
             None \<Rightarrow> Inl ErrUnsafeSQL
           | Some d \<Rightarrow>
               map_sum id (Cons \<lparr>tk_kind = kind, tk_text = take n (c # rest), tk_start = index,
                                 tk_end = index + n, tk_depth = d\<rparr>)
                 (scanFrom (index + n) (depthAfter (take n (c # rest)) d) (drop n (c # rest)))))"
  by pat_completeness auto
termination
  by (relation "measure (\<lambda>(index, depth, rest). length rest)") (auto dest: nextToken_pos)

definition scanSQL :: "string \<Rightarrow> sql_error + sqlToken list" where
  "scanSQL sql = scanFrom 0 0 sql"

section \<open>Words and identifiers\<close>

definition toUpperChar :: "char \<Rightarrow> char" where
  "toUpperChar c = (if CHR ''a'' \<le> c \<and> c \<le> CHR ''z'' then char_of (of_char c - 32 :: nat) else c)"

text \<open>
  \<open>strings.EqualFold\<close> with an ASCII second argument: beside the two cases of a letter, the long s
  (U+017F) folds to S and the Kelvin sign (U+212A) to K.
\<close>

fun equalFold :: "string \<Rightarrow> string \<Rightarrow> bool" where
  "equalFold [] ts = (ts = [])"
| "equalFold (c # cs) [] = False"
| "equalFold (c # cs) (t # ts) =
     (if toUpperChar c = toUpperChar t then equalFold cs ts
      else if c = CHR 0xC5 \<and> hasPrefix cs [CHR 0xBF] \<and> toUpperChar t = CHR ''S'' then equalFold (drop 1 cs) ts
      else if c = CHR 0xE2 \<and> hasPrefix cs [CHR 0x84, CHR 0xAA] \<and> toUpperChar t = CHR ''K''
      then equalFold (drop 2 cs) ts
      else False)"

definition isWord :: "sqlToken \<Rightarrow> string \<Rightarrow> bool" where
  "isWord token word \<longleftrightarrow> tk_kind token = sqlWord \<and> equalFold (tk_text token) word"

definition isIdentifier :: "sqlToken \<Rightarrow> bool" where
  "isIdentifier token \<longleftrightarrow> tk_kind token = sqlWord \<or> tk_kind token = sqlQuotedIdentifier"

definition isStatementKeyword :: "sqlToken \<Rightarrow> bool" where
  "isStatementKeyword token \<longleftrightarrow> isWord token ''SELECT'' \<or> isWord token ''UPDATE''
     \<or> isWord token ''DELETE'' \<or> isWord token ''INSERT''"

definition isUnsupportedTopLevelKeyword :: "sqlToken \<Rightarrow> bool" where
  "isUnsupportedTopLevelKeyword token \<longleftrightarrow> tk_kind token = sqlWord
     \<and> map toUpperChar (tk_text token) \<in> {''JOIN'', ''UNION'', ''INTERSECT'', ''EXCEPT'', ''RETURNING'',
          ''ORDER'', ''GROUP'', ''HAVING'', ''LIMIT'', ''OFFSET'', ''FETCH'', ''FOR'', ''INTO'', ''USING'',
          ''WINDOW'', ''QUALIFY'', ''OUTPUT'', ''LOCK'', ''OPTION'', ''OVER'', ''CONNECT'', ''START'', ''MODEL''}"

definition isTopSymbol :: "sqlToken \<Rightarrow> char \<Rightarrow> bool" where
  "isTopSymbol token c \<longleftrightarrow> tk_depth token = 0 \<and> tk_kind token = sqlSymbol \<and> tk_text token = [c]"

text \<open>Every doubled \<open>c\<close> becomes a single one, from the left.\<close>

fun undouble :: "char \<Rightarrow> string \<Rightarrow> string" where
  "undouble c (a # b # s) = (if a = c \<and> b = c then c # undouble c s else a # undouble c (b # s))"
| "undouble c s = s"

definition identifierValue :: "sqlToken \<Rightarrow> string" where
  "identifierValue token =
     (if tk_kind token \<noteq> sqlQuotedIdentifier \<or> length (tk_text token) < 2 then tk_text token
      else let content = butlast (tl (tk_text token)); quote = hd (tk_text token) in
        if quote = CHR ''['' then undouble CHR '']'' content
        else if quote = CHR 0x60 then undouble CHR 0x60 content
        else if quote = CHR 0x22 then undouble CHR 0x22 content
        else content)"

definition trimChars :: "char set \<Rightarrow> string \<Rightarrow> string" where
  "trimChars cutset s = rev (dropWhile (\<lambda>c. c \<in> cutset) (rev (dropWhile (\<lambda>c. c \<in> cutset) s)))"

definition configuredColumnName :: "string \<Rightarrow> string" where
  "configuredColumnName field =
     trimChars {CHR 0x60, CHR 0x22, CHR ''['', CHR '']''}
       (rev (takeWhile (\<lambda>c. c \<noteq> CHR ''.'') (rev (TrimSpace field))))"

section \<open>The shape of a statement\<close>

definition topLevelWords :: "sqlToken list \<Rightarrow> nat \<Rightarrow> string \<Rightarrow> nat list" where
  "topLevelWords tokens start word =
     filter (\<lambda>i. tk_depth (tokens ! i) = 0 \<and> isWord (tokens ! i) word) [start..<length tokens]"

text \<open>\<open>None\<close> is a result that is not ok; an optional word that is missing is \<open>Some None\<close>.\<close>

definition uniqueTopLevelWord :: "sqlToken list \<Rightarrow> nat \<Rightarrow> string \<Rightarrow> nat option" where
  "uniqueTopLevelWord tokens start word =
     (case topLevelWords tokens start word of [i] \<Rightarrow> Some i | _ \<Rightarrow> None)"

definition optionalUniqueTopLevelWord :: "sqlToken list \<Rightarrow> nat \<Rightarrow> string \<Rightarrow> nat option option" where
  "optionalUniqueTopLevelWord tokens start word =
     (case topLevelWords tokens start word of [] \<Rightarrow> Some None | [i] \<Rightarrow> Some (Some i) | _ \<Rightarrow> None)"

text \<open>The length of the path at the start of the tokens, or \<open>None\<close> when it is not ok.\<close>

fun pathFrom :: "nat \<Rightarrow> sqlToken list \<Rightarrow> nat option" where
  "pathFrom n [] = Some n"
| "pathFrom n [d] = (if isTopSymbol d CHR ''.'' then None else Some n)"
| "pathFrom n (d # t # tokens) =
     (if \<not> isTopSymbol d CHR ''.'' then Some n
      else if \<not> isIdentifier t \<or> tk_depth t \<noteq> 0 then None
      else pathFrom (n + 2) tokens)"

definition consumeIdentifierPath :: "sqlToken list \<Rightarrow> nat option" where
  "consumeIdentifierPath tokens =
     (case tokens of [] \<Rightarrow> None
      | t # rest \<Rightarrow> if \<not> isIdentifier t \<or> tk_depth t \<noteq> 0 then None else pathFrom 1 rest)"

definition isSimpleRelation :: "sqlToken list \<Rightarrow> bool" where
  "isSimpleRelation tokens \<longleftrightarrow>
     (case consumeIdentifierPath tokens of
        None \<Rightarrow> False
      | Some i \<Rightarrow>
          if i = length tokens then True
          else let j = (if isWord (tokens ! i) ''AS'' then i + 1 else i) in
            if length tokens \<le> j \<or> \<not> isIdentifier (tokens ! j) then False
            else j + 1 = length tokens)"

definition slice :: "nat \<Rightarrow> nat \<Rightarrow> 'a list \<Rightarrow> 'a list" where
  "slice a b xs = take (b - a) (drop a xs)"

text \<open>The assignments of a SET list: the parts between its top-level commas.\<close>

fun splitAssignments :: "sqlToken list \<Rightarrow> sqlToken list \<Rightarrow> sqlToken list list" where
  "splitAssignments current [] = [rev current]"
| "splitAssignments current (t # tokens) =
     (if isTopSymbol t CHR '','' then rev current # splitAssignments [] tokens
      else splitAssignments (t # current) tokens)"

definition equalsAt :: "sqlToken list \<Rightarrow> nat" where
  "equalsAt assignment = length (takeWhile (\<lambda>t. \<not> isTopSymbol t CHR ''='') assignment)"

definition validateAssignment :: "string \<Rightarrow> sqlToken list \<Rightarrow> sql_error + unit" where
  "validateAssignment tenantColumn assignment =
     (let equals = equalsAt assignment in
      if assignment = [] \<or> equals = length assignment \<or> equals = 0 \<or> equals = length assignment - 1
      then Inl ErrUnsafeSQL
      else if consumeIdentifierPath (take equals assignment) \<noteq> Some equals then Inl ErrUnsafeSQL
      else if tenantColumn \<noteq> [] \<and> equalFold (identifierValue (assignment ! (equals - 1))) tenantColumn
      then Inl ErrTenantFieldUpdate
      else Inr ())"

fun validateEach :: "string \<Rightarrow> sqlToken list list \<Rightarrow> sql_error + unit" where
  "validateEach tenantColumn [] = Inr ()"
| "validateEach tenantColumn (a # assignments) =
     bind_ok (validateAssignment tenantColumn a) (\<lambda>_. validateEach tenantColumn assignments)"

definition validateAssignments :: "sqlToken list \<Rightarrow> string \<Rightarrow> sql_error + unit" where
  "validateAssignments tokens tenantField =
     (if tokens = [] then Inl ErrUnsafeSQL
      else validateEach (configuredColumnName tenantField) (splitAssignments [] tokens))"

text \<open>A WHERE may be missing; one at the very end is refused.\<close>

definition predicateEnd :: "sqlToken list \<Rightarrow> nat option \<Rightarrow> nat option" where
  "predicateEnd tokens where_at =
     (case where_at of None \<Rightarrow> Some (length tokens)
      | Some w \<Rightarrow> if w = length tokens - 1 then None else Some w)"

definition analyzeSelect :: "sqlToken list \<Rightarrow> sql_error + nat option" where
  "analyzeSelect tokens =
     (case uniqueTopLevelWord tokens 1 ''FROM'' of
        None \<Rightarrow> Inl ErrUnsafeSQL
      | Some from \<Rightarrow>
          if from = 1 then Inl ErrUnsafeSQL
          else case optionalUniqueTopLevelWord tokens (from + 1) ''WHERE'' of
            None \<Rightarrow> Inl ErrUnsafeSQL
          | Some where_at \<Rightarrow>
              (case predicateEnd tokens where_at of
                 None \<Rightarrow> Inl ErrUnsafeSQL
               | Some end_at \<Rightarrow>
                   if \<not> isSimpleRelation (slice (from + 1) end_at tokens) then Inl ErrUnsafeSQL
                   else Inr where_at))"

definition analyzeUpdate :: "sqlToken list \<Rightarrow> string \<Rightarrow> sql_error + nat option" where
  "analyzeUpdate tokens tenantField =
     (case uniqueTopLevelWord tokens 1 ''SET'' of
        None \<Rightarrow> Inl ErrUnsafeSQL
      | Some set_at \<Rightarrow>
          if set_at \<le> 1 \<or> \<not> isSimpleRelation (slice 1 set_at tokens) then Inl ErrUnsafeSQL
          else if optionalUniqueTopLevelWord tokens (set_at + 1) ''FROM'' \<noteq> Some None then Inl ErrUnsafeSQL
          else case optionalUniqueTopLevelWord tokens (set_at + 1) ''WHERE'' of
            None \<Rightarrow> Inl ErrUnsafeSQL
          | Some where_at \<Rightarrow>
              (case predicateEnd tokens where_at of
                 None \<Rightarrow> Inl ErrUnsafeSQL
               | Some end_at \<Rightarrow>
                   bind_ok (validateAssignments (slice (set_at + 1) end_at tokens) tenantField)
                     (\<lambda>_. Inr where_at)))"

definition analyzeDelete :: "sqlToken list \<Rightarrow> sql_error + nat option" where
  "analyzeDelete tokens =
     (if length tokens < 3 \<or> \<not> isWord (tokens ! 1) ''FROM'' \<or> tk_depth (tokens ! 1) \<noteq> 0 then Inl ErrUnsafeSQL
      else if uniqueTopLevelWord tokens 1 ''FROM'' \<noteq> Some 1 then Inl ErrUnsafeSQL
      else case optionalUniqueTopLevelWord tokens 2 ''WHERE'' of
        None \<Rightarrow> Inl ErrUnsafeSQL
      | Some where_at \<Rightarrow>
          (case predicateEnd tokens where_at of
             None \<Rightarrow> Inl ErrUnsafeSQL
           | Some end_at \<Rightarrow>
               if \<not> isSimpleRelation (slice 2 end_at tokens) then Inl ErrUnsafeSQL else Inr where_at))"

text \<open>The answer is where the WHERE ends, if there is one.\<close>

definition analyzeTenantRewriteSQL :: "string \<Rightarrow> string \<Rightarrow> sql_error + nat option" where
  "analyzeTenantRewriteSQL sql tenantField =
     (case scanSQL sql of
        Inl _ \<Rightarrow> Inl ErrUnsafeSQL
      | Inr tokens \<Rightarrow>
          if tokens = [] \<or> tk_kind (hd tokens) \<noteq> sqlWord \<or> tk_depth (hd tokens) \<noteq> 0 then Inl ErrUnsafeSQL
          else if list_ex isStatementKeyword (tl tokens)
            \<or> list_ex (\<lambda>t. tk_depth t = 0 \<and> isUnsupportedTopLevelKeyword t) tokens then Inl ErrUnsafeSQL
          else if isWord (last tokens) ''WHERE'' \<or> isWord (last tokens) ''AND'' \<or> isWord (last tokens) ''OR''
          then Inl ErrUnsafeSQL
          else bind_ok
            (if isWord (hd tokens) ''SELECT'' then analyzeSelect tokens
             else if isWord (hd tokens) ''UPDATE'' then analyzeUpdate tokens tenantField
             else if isWord (hd tokens) ''DELETE'' then analyzeDelete tokens
             else Inl ErrUnsafeSQL)
            (\<lambda>where_at. Inr (map_option (\<lambda>i. tk_end (tokens ! i)) where_at)))"

definition addTenantCondition :: "string \<Rightarrow> string \<Rightarrow> nat option \<Rightarrow> string" where
  "addTenantCondition sql condition whereEnd =
     (case whereEnd of
        None \<Rightarrow> sql @ '' WHERE '' @ condition
      | Some e \<Rightarrow> TrimSpace (take e sql) @ '' ('' @ TrimSpace (drop e sql) @ '') AND '' @ condition)"

end
