(* ===== verification/SQL_Filter.thy ===== *)
theory SQL_Filter
  imports SQL_Scanner
begin

text \<open>
  The tenant filter (\<open>data/\<close>) and the rewriting of statements with it (\<open>data/sqlx/query.go\<close>,
  \<open>exec.go\<close>). Only the three options of the package can change the unexported options of a filter.
  An argument of a statement is any value; the tenant identifier is one. The database is a parameter.
\<close>

section \<open>The filter\<close>

record filterOptions =
  fo_tenantField :: string
  fo_softDeleteField :: string
  fo_includeSoftDeleted :: bool

datatype FilterOption = WithTenantField string | WithSoftDeleteField string | WithIncludeSoftDeleted bool

definition isSafeIdentifier :: "string \<Rightarrow> bool" where
  "isSafeIdentifier value \<longleftrightarrow> value \<noteq> []
     \<and> list_all (\<lambda>(i, r). isLetter r \<or> r = CHR ''_'' \<or> (0 < i \<and> CHR ''0'' \<le> r \<and> r \<le> CHR ''9''))
         (zip [0..<length value] value)"

text \<open>\<open>strings.Split\<close> at the dots.\<close>

fun splitDots :: "string \<Rightarrow> string \<Rightarrow> string list" where
  "splitDots part [] = [rev part]"
| "splitDots part (c # s) = (if c = CHR ''.'' then rev part # splitDots [] s else splitDots (c # part) s)"

definition isSafeFieldName :: "string \<Rightarrow> bool" where
  "isSafeFieldName value \<longleftrightarrow> value \<noteq> [] \<and> list_all isSafeIdentifier (splitDots [] value)"

definition defaultFilterOptions :: filterOptions where
  "defaultFilterOptions = \<lparr>fo_tenantField = ''tenant_id'', fo_softDeleteField = [],
     fo_includeSoftDeleted = False\<rparr>"

fun applyOption :: "FilterOption \<Rightarrow> filterOptions \<Rightarrow> sql_error + filterOptions" where
  "applyOption (WithTenantField field) opts =
     (if \<not> isSafeFieldName field then Inl ErrInvalidFieldName else Inr (opts\<lparr>fo_tenantField := field\<rparr>))"
| "applyOption (WithSoftDeleteField field) opts =
     (if \<not> isSafeFieldName field then Inl ErrInvalidFieldName else Inr (opts\<lparr>fo_softDeleteField := field\<rparr>))"
| "applyOption (WithIncludeSoftDeleted incl) opts = Inr (opts\<lparr>fo_includeSoftDeleted := incl\<rparr>)"

fun applyOptions :: "FilterOption option list \<Rightarrow> filterOptions \<Rightarrow> sql_error + filterOptions" where
  "applyOptions [] options = Inr options"
| "applyOptions (None # opts) options = applyOptions opts options"
| "applyOptions (Some opt # opts) options = bind_ok (applyOption opt options) (applyOptions opts)"

record Filter =
  ft_tenantID :: TenantID
  ft_host :: bool
  ft_opts :: filterOptions

text \<open>A context that is nil is \<open>None\<close>.\<close>

definition NewFilter :: "saasContext option \<Rightarrow> FilterOption option list \<Rightarrow> sql_error + Filter" where
  "NewFilter cx opts =
     bind_ok (applyOptions opts defaultFilterOptions) (\<lambda>options.
       case cx of
         None \<Rightarrow> Inl ErrNoTenant
       | Some c \<Rightarrow>
           if IsHost c then Inr \<lparr>ft_tenantID = [], ft_host = True, ft_opts = options\<rparr>
           else case FromContext c of
             None \<Rightarrow> Inl ErrNoTenant
           | Some tenant \<Rightarrow>
               if tn_ID tenant = [] then Inl ErrNoTenant
               else Inr \<lparr>ft_tenantID = tn_ID tenant, ft_host = False, ft_opts = options\<rparr>)"

datatype 'a sqlArg = StringArg string | OtherArg 'a

record 'a Condition =
  cd_Expression :: string
  cd_Args :: "'a sqlArg list"

definition Condition_Empty :: "'a Condition \<Rightarrow> bool" where
  "Condition_Empty condition \<longleftrightarrow> cd_Expression condition = []"

definition Filter_Condition :: "Filter \<Rightarrow> 'a Condition" where
  "Filter_Condition filt =
     (if ft_host filt then \<lparr>cd_Expression = [], cd_Args = []\<rparr>
      else \<lparr>cd_Expression = fo_tenantField (ft_opts filt) @ '' = ?'' @
              (if fo_softDeleteField (ft_opts filt) \<noteq> [] \<and> \<not> fo_includeSoftDeleted (ft_opts filt)
               then '' AND '' @ fo_softDeleteField (ft_opts filt) @ '' IS NULL'' else []),
            cd_Args = [StringArg (ft_tenantID filt)]\<rparr>)"

definition Filter_TenantID :: "Filter \<Rightarrow> TenantID option" where
  "Filter_TenantID filt = (if ft_host filt \<or> ft_tenantID filt = [] then None else Some (ft_tenantID filt))"

definition Filter_IsHost :: "Filter \<Rightarrow> bool" where
  "Filter_IsHost filt = ft_host filt"

section \<open>Queries\<close>

definition tenantFieldFromCondition :: "string \<Rightarrow> string" where
  "tenantFieldFromCondition expression =
     (case indexOf expression '' = ?'' of Some i \<Rightarrow> TrimSpace (take i expression) | None \<Rightarrow> [])"

definition QueryWithArgs ::
  "saasContext option \<Rightarrow> string \<Rightarrow> 'a sqlArg list \<Rightarrow> FilterOption option list
     \<Rightarrow> sql_error + string \<times> 'a sqlArg list"
where
  "QueryWithArgs cx baseSQL baseArgs opts =
     (let sql = TrimSpace baseSQL in
      if sql = [] then Inl ErrUnsafeSQL
      else bind_ok (NewFilter cx opts) (\<lambda>filt.
        if Filter_IsHost filt then Inr (sql, baseArgs)
        else let condition = Filter_Condition filt in
          if Condition_Empty condition then Inr (sql, baseArgs)
          else bind_ok (analyzeTenantRewriteSQL sql (tenantFieldFromCondition (cd_Expression condition)))
            (\<lambda>whereEnd. Inr (addTenantCondition sql (cd_Expression condition) whereEnd,
                            baseArgs @ cd_Args condition))))"

definition Query :: "saasContext option \<Rightarrow> string \<Rightarrow> FilterOption option list \<Rightarrow> sql_error + string \<times> 'a sqlArg list"
where
  "Query cx baseSQL opts = QueryWithArgs cx baseSQL [] opts"

definition TenantCondition :: "saasContext option \<Rightarrow> FilterOption option list \<Rightarrow> sql_error + 'a Condition" where
  "TenantCondition cx opts = bind_ok (NewFilter cx opts) (\<lambda>filt. Inr (Filter_Condition filt))"

text \<open>The three calls of the database differ in the method they call.\<close>

definition ExecContext ::
  "(string \<Rightarrow> 'a sqlArg list \<Rightarrow> 's \<Rightarrow> 'r \<times> 's) \<Rightarrow> saasContext option \<Rightarrow> string \<Rightarrow> 'a sqlArg list
     \<Rightarrow> FilterOption option list \<Rightarrow> 's \<Rightarrow> (sql_error + 'r) \<times> 's"
where
  "ExecContext db cx baseSQL baseArgs opts s =
     on_ok (QueryWithArgs cx baseSQL baseArgs opts) s (\<lambda>(query, args).
       case db query args s of (r, s') \<Rightarrow> (Inr r, s'))"

definition SelectContext where "SelectContext = ExecContext"

definition GetContext where "GetContext = ExecContext"

section \<open>Lexemes\<close>

text \<open>
  What a scan says when positions do not matter: the lexemes of a text entered at a depth, and the
  depth at its end.
\<close>

type_synonym lexeme = "sqlTokenKind \<times> string \<times> nat"

definition lexeme :: "sqlToken \<Rightarrow> lexeme" where
  "lexeme t = (tk_kind t, tk_text t, tk_depth t)"

function lexAt :: "nat \<Rightarrow> string \<Rightarrow> (lexeme list \<times> nat) option" where
  "lexAt depth [] = Some ([], depth)"
| "lexAt depth (c # rest) =
     (if isSQLSpace c then lexAt depth rest
      else if forbidden (c # rest) then None
      else case nextToken (c # rest) of
        None \<Rightarrow> None
      | Some (kind, n) \<Rightarrow>
          (case tokenDepth (take n (c # rest)) depth of
             None \<Rightarrow> None
           | Some d \<Rightarrow>
               map_option (map_prod (Cons (kind, take n (c # rest), d)) id)
                 (lexAt (depthAfter (take n (c # rest)) d) (drop n (c # rest)))))"
  by pat_completeness auto
termination
  by (relation "measure (\<lambda>(depth, rest). length rest)") (auto dest: nextToken_pos)

lemma scan_lex:
  "map_sum id (map lexeme) (scanFrom i d s)
     = (case lexAt d s of Some (ls, e) \<Rightarrow> if e = 0 then Inr ls else Inl ErrUnsafeSQL | None \<Rightarrow> Inl ErrUnsafeSQL)"
proof (induction i d s rule: scanFrom.induct)
  case (2 i d c rest)
  show ?case
  proof (cases "isSQLSpace c \<or> forbidden (c # rest)")
    case True
    then show ?thesis using 2 by auto
  next
    case False
    show ?thesis
    proof (cases "nextToken (c # rest)")
      case (Some kn)
      obtain kind n where kn: "kn = (kind, n)" by (cases kn)
      show ?thesis
      proof (cases "tokenDepth (take n (c # rest)) d")
        case (Some e)
        then show ?thesis using 2(2) [OF _ _ \<open>nextToken _ = _\<close> kn [symmetric]] False kn \<open>nextToken _ = _\<close>
          by (cases "lexAt (depthAfter (take n (c # rest)) e) (drop n (c # rest))";
              cases "scanFrom (i + n) (depthAfter (take n (c # rest)) e) (drop n (c # rest))")
             (auto simp: lexeme_def split: if_splits)
      qed (use False kn \<open>nextToken _ = _\<close> in simp)
    qed (use False in simp)
  qed
qed simp

lemma scanSQL_lex: "scanSQL s = Inr ts \<Longrightarrow> lexAt 0 s = Some (map lexeme ts, 0)"
  using scan_lex [of 0 0 s] by (auto simp: scanSQL_def split: option.splits if_splits)

lemma lex_scanSQL: "lexAt 0 s = Some (ls, 0) \<Longrightarrow> \<exists>ts. scanSQL s = Inr ts \<and> map lexeme ts = ls"
  using scan_lex [of 0 0 s] by (cases "scanFrom 0 0 s") (auto simp: scanSQL_def)

end
