(* ===== verification/SQL_Lexemes.thy ===== *)
theory SQL_Lexemes
  imports SQL_Filter
begin

text \<open>
  Scanning and positions: how the lexemes of a text arise from those of its parts. A text may be
  followed by anything that begins with a space or a closing parenthesis, and a scanned text may be
  cut behind any of its tokens.
\<close>

section \<open>A text followed by a space or a closing parenthesis\<close>

definition boundary :: "string \<Rightarrow> bool" where
  "boundary b \<longleftrightarrow> b = [] \<or> hd b = CHR '' '' \<or> hd b = CHR '')''"

lemma not_part: "boundary b \<Longrightarrow> b \<noteq> [] \<Longrightarrow> \<not> isIdentifierPart (hd b) \<and> \<not> isDollarTagPart (hd b) \<and> hd b \<noteq> CHR ''$''"
  by (auto simp: boundary_def isIdentifierPart_def isIdentifierStart_def isLetter_def isDollarTagPart_def
      isDollarTagStart_def)

lemma takeWhile_boundary:
  "b = [] \<or> \<not> P (hd b) \<Longrightarrow> takeWhile P (s @ b) = takeWhile P s"
  by (induction s) (auto simp: takeWhile_eq_Nil_iff)

lemma dropWhile_boundary:
  "b = [] \<or> \<not> P (hd b) \<Longrightarrow> dropWhile P (s @ b) = dropWhile P s @ b"
  by (induction s) (auto simp: dropWhile_eq_self_iff)

lemma hasPrefix_append: "length p \<le> length s \<Longrightarrow> hasPrefix (s @ b) p \<longleftrightarrow> hasPrefix s p"
  by (simp add: hasPrefix_def)

lemma hasPrefix_length: "hasPrefix s p \<Longrightarrow> length p \<le> length s"
  by (metis hasPrefix_def length_take min.cobounded1)

lemma take_within: "n \<le> length s \<Longrightarrow> take n (s @ b) = take n s"
  and drop_within: "n \<le> length s \<Longrightarrow> drop n (s @ b) = drop n s @ b"
  by simp_all

lemma hasPrefix_two: "hasPrefix s [x, y] \<longleftrightarrow> (\<exists>t. s = x # y # t)"
  by (cases s; cases "tl s") (auto simp: hasPrefix_def)

lemma forbidden_boundary:
  assumes "boundary b"
  shows "forbidden ((c # s) @ b) \<longleftrightarrow> forbidden (c # s)"
proof (cases s)
  case Nil
  then show ?thesis using assms by (cases b) (auto simp: forbidden_def hasPrefix_two boundary_def)
next
  case (Cons d ds)
  then show ?thesis by (simp add: forbidden_def hasPrefix_two)
qed

lemma dollar_boundary:
  assumes "boundary b"
  shows "dollarQuoteDelimiter ((c # s) @ b) = dollarQuoteDelimiter (c # s)"
proof (cases s)
  case Nil
  then show ?thesis using assms
    by (cases b) (auto simp: dollarQuoteDelimiter_def boundary_def isDollarTagStart_def isLetter_def)
next
  case (Cons d ds)
  have b: "b = [] \<or> \<not> isDollarTagPart (hd b)" using not_part assms by blast
  show ?thesis
  proof (cases "dropWhile isDollarTagPart ds")
    case Nil
    then have "dropWhile isDollarTagPart (ds @ b) = b" using dropWhile_boundary [of b isDollarTagPart, OF b] by simp
    then show ?thesis using Cons Nil assms not_part [OF assms]
      by (cases b) (auto simp: dollarQuoteDelimiter_def simp del: dropWhile_eq_Nil_conv)
  next
    case (Cons e es)
    then show ?thesis using \<open>s = d # ds\<close>
      by (simp add: dollarQuoteDelimiter_def dropWhile_boundary [of b isDollarTagPart, OF b] takeWhile_boundary [of b isDollarTagPart, OF b])
  qed
qed

lemma indexOf_length: "indexOf s p = Some k \<Longrightarrow> k + length p \<le> length s"
proof (induction s p arbitrary: k rule: indexOf.induct)
  case (2 c s p)
  then show ?case using hasPrefix_length [of "c # s" p] by (auto split: if_splits)
qed (auto split: if_splits)

lemma indexOf_append: "indexOf s p = Some k \<Longrightarrow> indexOf (s @ b) p = Some k"
proof (induction s p arbitrary: k rule: indexOf.induct)
  case (1 p)
  then show ?case by (cases b) (auto simp: hasPrefix_def split: if_splits)
next
  case (2 c s p)
  have "length p \<le> length (c # s)" using indexOf_length [OF 2(2)] by simp
  then have "hasPrefix ((c # s) @ b) p \<longleftrightarrow> hasPrefix (c # s) p" by (rule hasPrefix_append)
  then show ?case using 2 by (auto split: if_splits)
qed

lemma quoted_append:
  "quotedLength q n s = Some m \<Longrightarrow> b = [] \<or> hd b \<noteq> q \<Longrightarrow> quotedLength q n (s @ b) = Some m"
proof (induction q n s rule: quotedLength.induct)
  case (2 q n c rest)
  then show ?case by (cases rest; cases b) (auto split: if_splits)
qed simp

lemma bracket_append:
  "bracketLength n s = Some m \<Longrightarrow> b = [] \<or> hd b \<noteq> CHR '']'' \<Longrightarrow> bracketLength n (s @ b) = Some m"
proof (induction n s rule: bracketLength.induct)
  case (2 n c rest)
  then show ?case by (cases rest; cases b) (auto split: if_splits)
qed simp

lemma quoted_bound: "quotedLength q n s = Some m \<Longrightarrow> m \<le> n + length s"
  by (induction q n s rule: quotedLength.induct) (fastforce split: if_splits list.splits)+

lemma bracket_bound: "bracketLength n s = Some m \<Longrightarrow> m \<le> n + length s"
  by (induction n s rule: bracketLength.induct) (fastforce split: if_splits list.splits)+

lemma delimiter_length: "dollarQuoteDelimiter s = Some d \<Longrightarrow> length d \<le> length s \<and> d \<noteq> []"
proof -
  assume d: "dollarQuoteDelimiter s = Some d"
  have "length (takeWhile isDollarTagPart ds) < length ds" if "dropWhile isDollarTagPart ds = e # es" for ds e es
    using that takeWhile_dropWhile_id [of isDollarTagPart ds] by (metis append_Nil2 length_append less_add_same_cancel1 length_greater_0_conv list.distinct(1))
  then show ?thesis using d
    by (fastforce simp: dollarQuoteDelimiter_def split: list.splits if_splits)
qed

lemma nextToken_bound:
  assumes "nextToken (c # s) = Some (kind, n)"
  shows "n \<le> length (c # s)"
proof (cases "dollarQuoteDelimiter (c # s)")
  case (Some d)
  then obtain k where k: "indexOf (drop (length d) (c # s)) d = Some k" "n = k + 2 * length d"
    using assms by (auto simp: nextToken_def)
  then show ?thesis using indexOf_length [OF k(1)] delimiter_length [OF Some] by simp
next
  case None
  have "length (takeWhile isIdentifierPart s) \<le> length s" by (rule length_takeWhile_le)
  then show ?thesis using assms None quoted_bound [of c 1 s n] bracket_bound [of 1 s n]
    by (auto simp: nextToken_def scanQuoted_def scanBracketIdentifier_def split: if_splits)
qed

lemma nextToken_append:
  assumes "nextToken (c # s) = Some (kind, n)" "boundary b"
  shows "nextToken ((c # s) @ b) = Some (kind, n)"
proof (cases "dollarQuoteDelimiter (c # s)")
  case (Some d)
  then obtain k where k: "indexOf (drop (length d) (c # s)) d = Some k" "n = k + 2 * length d" "kind = sqlString"
    using assms by (auto simp: nextToken_def)
  have "drop (length d) ((c # s) @ b) = drop (length d) (c # s) @ b"
    using delimiter_length [OF Some] by (intro drop_within) simp
  then show ?thesis using indexOf_append [OF k(1)] k dollar_boundary [OF assms(2)] Some
    by (simp add: nextToken_def)
next
  case None
  have q: "b = [] \<or> hd b \<noteq> CHR 0x27" "b = [] \<or> hd b \<noteq> CHR 0x22" "b = [] \<or> hd b \<noteq> CHR 0x60" "b = [] \<or> hd b \<noteq> CHR '']''"
    using assms(2) by (auto simp: boundary_def)
  have w: "takeWhile isIdentifierPart (s @ b) = takeWhile isIdentifierPart s"
    using takeWhile_boundary not_part [OF assms(2)] by blast
  show ?thesis using assms(1) None dollar_boundary [OF assms(2), of c s] q w
    by (auto simp: nextToken_def scanQuoted_def scanBracketIdentifier_def quoted_append bracket_append
        split: if_splits)
qed

text \<open>Scanning goes on after the first text where it stopped.\<close>

lemma lexAt_append:
  "lexAt d a = Some (ls, e) \<Longrightarrow> boundary b \<Longrightarrow>
     lexAt d (a @ b) = map_option (map_prod (append ls) id) (lexAt e b)"
proof (induction d a arbitrary: ls rule: lexAt.induct)
  case (1 d)
  then show ?case by (simp add: map_prod_def option.map_id0 [unfolded id_def] split_def)
next
  case (2 d c rest)
  show ?case
  proof (cases "isSQLSpace c")
    case True
    then show ?thesis using 2 by simp
  next
    case False
    with 2 obtain kind n e1 ls1 where next1: "\<not> forbidden (c # rest)" "nextToken (c # rest) = Some (kind, n)"
      "tokenDepth (take n (c # rest)) d = Some e1"
      "lexAt (depthAfter (take n (c # rest)) e1) (drop n (c # rest)) = Some (ls1, e)"
      "ls = (kind, take n (c # rest), e1) # ls1"
      by (auto split: if_splits option.splits)
    have n: "n \<le> length (c # rest)" using nextToken_bound [OF next1(2)] .
    have "take n ((c # rest) @ b) = take n (c # rest)" "drop n ((c # rest) @ b) = drop n (c # rest) @ b"
      using n by (rule take_within, rule drop_within)
    then show ?thesis
      using 2(2) [OF False next1(1,2) refl next1(3,4) 2(4)] False next1 nextToken_append [OF next1(2) 2(4)]
        forbidden_boundary [OF 2(4), of c rest]
      by (cases "lexAt e b") auto
  qed
qed

section \<open>A text cut after a token\<close>

lemma hasPrefix_more: "hasPrefix s p \<Longrightarrow> hasPrefix (s @ b) p"
  using hasPrefix_length hasPrefix_append by blast

lemma forbidden_cut: "forbidden (c # s) \<Longrightarrow> forbidden ((c # s) @ b)"
  by (auto simp: forbidden_def hasPrefix_two)

lemma takeWhile_cut:
  "length (takeWhile P (s @ b)) \<le> length s \<Longrightarrow> takeWhile P (s @ b) = takeWhile P s"
  by (induction s) auto

lemma dropWhile_cut: "dropWhile P s \<noteq> [] \<Longrightarrow> dropWhile P (s @ b) = dropWhile P s @ b \<and> takeWhile P (s @ b) = takeWhile P s"
  by (induction s) (auto split: if_splits)

lemma dollar_cut_None:
  assumes "dollarQuoteDelimiter ((c # s) @ b) = None"
  shows "dollarQuoteDelimiter (c # s) = None"
proof (cases s)
  case (Cons d ds)
  show ?thesis
  proof (cases "dropWhile isDollarTagPart ds")
    case (Cons e es)
    then show ?thesis using assms dropWhile_cut [of isDollarTagPart ds b] \<open>s = d # ds\<close>
      by (simp add: dollarQuoteDelimiter_def split: if_splits)
  qed (use assms Cons in \<open>simp add: dollarQuoteDelimiter_def split: if_splits del: dropWhile_eq_Nil_conv\<close>)
qed (simp add: dollarQuoteDelimiter_def)

lemma dollar_cut_Some:
  assumes "dollarQuoteDelimiter ((c # s) @ b) = Some delim" "length delim \<le> length (c # s)"
  shows "dollarQuoteDelimiter (c # s) = Some delim"
proof (cases s)
  case Nil
  have "2 \<le> length delim" using assms(1)
    by (auto simp: dollarQuoteDelimiter_def split: list.splits if_splits)
  then show ?thesis using assms(2) Nil by simp
next
  case (Cons d ds)
  show ?thesis
  proof (cases "dropWhile isDollarTagPart ds")
    case (Cons e es)
    then show ?thesis using assms(1) dropWhile_cut [of isDollarTagPart ds b] \<open>s = d # ds\<close>
      by (simp add: dollarQuoteDelimiter_def split: if_splits)
  next
    case Nil
    then have "takeWhile isDollarTagPart (ds @ b) = ds @ takeWhile isDollarTagPart b" by simp
    then show ?thesis using assms Cons
      by (auto simp: dollarQuoteDelimiter_def split: if_splits list.splits)
  qed
qed

lemma indexOf_cut: "indexOf (s @ b) p = Some k \<Longrightarrow> k + length p \<le> length s \<Longrightarrow> indexOf s p = Some k"
proof (induction s arbitrary: k)
  case (Cons c s)
  then show ?case using hasPrefix_append [of p "c # s" b] hasPrefix_more [of "c # s" p b]
    by (cases "hasPrefix (c # s) p") (auto split: if_splits)
qed simp

lemma quoted_cut: "quotedLength q n (s @ b) = Some m \<Longrightarrow> m \<le> n + length s \<Longrightarrow> quotedLength q n s = Some m"
proof (induction q n s rule: quotedLength.induct)
  case (1 q n)
  then show ?case using quotedLength_pos by fastforce
next
  case (2 q n c rest)
  then show ?case by (cases rest; cases b) (auto split: if_splits dest: quotedLength_pos)
qed

lemma bracket_cut: "bracketLength n (s @ b) = Some m \<Longrightarrow> m \<le> n + length s \<Longrightarrow> bracketLength n s = Some m"
proof (induction n s rule: bracketLength.induct)
  case (1 n)
  then show ?case using bracketLength_pos by fastforce
next
  case (2 n c rest)
  then show ?case by (cases rest; cases b) (auto split: if_splits dest: bracketLength_pos)
qed

lemma nextToken_cut:
  assumes "nextToken ((c # s) @ b) = Some (kind, n)" "n \<le> length (c # s)"
  shows "nextToken (c # s) = Some (kind, n)"
proof (cases "dollarQuoteDelimiter ((c # s) @ b)")
  case (Some d)
  then obtain k where k: "indexOf (drop (length d) ((c # s) @ b)) d = Some k" "n = k + 2 * length d" "kind = sqlString"
    using assms by (auto simp: nextToken_def)
  have len: "length d \<le> length (c # s)" using k(2) assms(2) by simp
  have "k + length d \<le> length (drop (length d) (c # s))" using k(2) assms(2) by simp
  then have "indexOf (drop (length d) (c # s)) d = Some k"
    using k(1) unfolding drop_within [OF len] by (rule indexOf_cut [rotated])
  then show ?thesis using dollar_cut_Some [OF Some len] k by (simp add: nextToken_def)
next
  case None
  note none = dollar_cut_None [OF None]
  show ?thesis
  proof (cases "c \<in> {CHR 0x27, CHR 0x22, CHR 0x60, CHR ''[''} \<or> \<not> isIdentifierStart c")
    case True
    then show ?thesis using assms None none quoted_cut [of c 1 s b n] bracket_cut [of 1 s b n]
      by (auto simp: nextToken_def scanQuoted_def scanBracketIdentifier_def split: if_splits)
  next
    case False
    then have "takeWhile isIdentifierPart (s @ b) = takeWhile isIdentifierPart s"
      using assms None by (intro takeWhile_cut) (auto simp: nextToken_def split: if_splits)
    then show ?thesis using assms None none False by (simp add: nextToken_def)
  qed
qed

definition depthBehind :: "sqlToken \<Rightarrow> nat" where
  "depthBehind t = depthAfter (tk_text t) (tk_depth t)"

lemma map_sum_Inr: "map_sum f g r = Inr y \<longleftrightarrow> (\<exists>x. r = Inr x \<and> y = g x)"
  by (cases r) auto

lemma lexeme_token:
  "lexeme \<lparr>tk_kind = kind, tk_text = t, tk_start = a, tk_end = b, tk_depth = d\<rparr> = (kind, t, d)"
  by (simp add: lexeme_def)

lemma scan_split:
  "scanFrom i d s = Inr ts \<Longrightarrow> k < length ts \<Longrightarrow>
     i < tk_end (ts ! k) \<and> tk_end (ts ! k) - i \<le> length s
     \<and> lexAt d (take (tk_end (ts ! k) - i) s) = Some (map lexeme (take (Suc k) ts), depthBehind (ts ! k))
     \<and> lexAt (depthBehind (ts ! k)) (drop (tk_end (ts ! k) - i) s) = Some (map lexeme (drop (Suc k) ts), 0)
     \<and> (\<exists>pre. take (tk_end (ts ! k) - i) s = pre @ tk_text (ts ! k))"
proof (induction i d s arbitrary: ts k rule: scanFrom.induct)
  case (1 i d)
  then show ?case by (simp split: if_splits)
next
  case (2 i d c rest)
  show ?case
  proof (cases "isSQLSpace c")
    case True
    then have run: "scanFrom (i + 1) d rest = Inr ts" using 2(3) by simp
    note ih = 2(1) [OF True run 2(4)]
    let ?m = "tk_end (ts ! k) - Suc i"
    have m: "tk_end (ts ! k) - i = Suc ?m" using ih by linarith
    have "\<exists>pre. take (Suc ?m) (c # rest) = pre @ tk_text (ts ! k)"
      using ih by simp (metis append_Cons)
    then show ?thesis unfolding m using ih True by simp
  next
    case False
    with 2(3) obtain kind n e ts1 where t: "\<not> forbidden (c # rest)" "nextToken (c # rest) = Some (kind, n)"
      "tokenDepth (take n (c # rest)) d = Some e"
      "scanFrom (i + n) (depthAfter (take n (c # rest)) e) (drop n (c # rest)) = Inr ts1"
      "ts = \<lparr>tk_kind = kind, tk_text = take n (c # rest), tk_start = i, tk_end = i + n, tk_depth = e\<rparr> # ts1"
      by (auto simp: map_sum_Inr split: if_splits option.splits)
    have n: "0 < n" "n \<le> length (c # rest)" using nextToken_pos [OF t(2)] nextToken_bound [OF t(2)] .
    have cut: "lexAt d (take m (c # rest))
        = map_option (map_prod (Cons (kind, take n (c # rest), e)) id)
            (lexAt (depthAfter (take n (c # rest)) e) (drop n (take m (c # rest))))" if m: "n \<le> m" for m
    proof -
      obtain m' where m': "m = Suc m'" using n(1) m by (cases m) auto
      have s: "c # rest = (c # take m' rest) @ drop m' rest" by simp
      have "nextToken (c # take m' rest) = Some (kind, n)"
        using nextToken_cut [of c "take m' rest" "drop m' rest" kind n] t(2) n(2) m m' by simp
      moreover have "\<not> forbidden (c # take m' rest)"
        using forbidden_cut [of c "take m' rest" "drop m' rest"] t(1) by auto
      moreover have "take n (c # take m' rest) = take n (c # rest)" using m m' n(1) by (cases n) simp_all
      ultimately show ?thesis using False t(3) m' by simp
    qed
    show ?thesis
    proof (cases k)
      case 0
      have "lexAt d (take n (c # rest)) = Some ([(kind, take n (c # rest), e)], depthAfter (take n (c # rest)) e)"
        using cut [of n] by simp
      moreover have "lexAt (depthAfter (take n (c # rest)) e) (drop n (c # rest)) = Some (map lexeme ts1, 0)"
        using scan_lex [of "i + n" "depthAfter (take n (c # rest)) e" "drop n (c # rest)"] t(4)
        by (auto split: option.splits if_splits)
      ultimately show ?thesis using 0 t(5) n by (auto simp: lexeme_def depthBehind_def)
    next
      case (Suc k')
      then have k': "k' < length ts1" "ts ! k = ts1 ! k'" using 2(4) t(5) by simp_all
      note ih = 2(2) [OF False t(1,2) refl t(3,4) k'(1)]
      let ?m = "tk_end (ts1 ! k') - (i + n)"
      have m: "tk_end (ts ! k) - i = n + ?m" using ih k'(2) by simp
      have dt: "drop n (take (n + ?m) (c # rest)) = take ?m (drop n (c # rest))" by (simp add: drop_take)
      have "take (n + ?m) (c # rest) = take n (c # rest) @ take ?m (drop n (c # rest))" by (rule take_add)
      then have "\<exists>pre. take (n + ?m) (c # rest) = pre @ tk_text (ts ! k)"
        using ih k'(2) by (metis append_assoc)
      moreover have "n + ?m \<le> length (c # rest)"
      proof -
        have "?m \<le> length (drop n (c # rest))" using ih by blast
        then show ?thesis using n(2) unfolding length_drop by linarith
      qed
      moreover have "lexAt d (take (n + ?m) (c # rest))
          = Some (map lexeme (take (Suc k) ts), depthBehind (ts ! k))"
        using cut [OF le_add1, of ?m] ih t(5) Suc k'(2) unfolding dt by (simp add: lexeme_token)
      moreover have "lexAt (depthBehind (ts ! k)) (drop (n + ?m) (c # rest)) = Some (map lexeme (drop (Suc k) ts), 0)"
      proof -
        have "drop (n + ?m) (c # rest) = drop ?m (drop n (c # rest))" by (simp add: add.commute)
        moreover have "drop (Suc k) ts = drop (Suc k') ts1" using t(5) Suc by simp
        ultimately show ?thesis using ih k'(2) by metis
      qed
      moreover have "i < tk_end (ts ! k)"
      proof -
        have "i + n < tk_end (ts1 ! k')" using ih by blast
        then show ?thesis unfolding k'(2) by linarith
      qed
      ultimately show ?thesis unfolding m by blast
    qed
  qed
qed

end
