(* ===== verification/SQL_Guarantees.thy ===== *)
theory SQL_Guarantees
  imports SQL_Lexemes Tenant_Guarantees
begin

text \<open>
  What rewriting guarantees: the rewritten statement, scanned again, is the given one with its
  predicate in parentheses and the tenant condition beside it, and no accepted UPDATE assigns the
  tenant column.
\<close>

section \<open>One level deeper\<close>

definition deeper :: "lexeme \<Rightarrow> lexeme" where
  "deeper l = (case l of (kind, t, d) \<Rightarrow> (kind, t, d + 1))"

lemma lexAt_deeper: "lexAt d s = Some (ls, e) \<Longrightarrow> lexAt (d + 1) s = Some (map deeper ls, e + 1)"
proof (induction d s arbitrary: ls rule: lexAt.induct)
  case (2 d c rest)
  show ?case
  proof (cases "isSQLSpace c")
    case False
    with 2(3) obtain kind n e1 ls1 where t: "\<not> forbidden (c # rest)" "nextToken (c # rest) = Some (kind, n)"
      "tokenDepth (take n (c # rest)) d = Some e1"
      "lexAt (depthAfter (take n (c # rest)) e1) (drop n (c # rest)) = Some (ls1, e)"
      "ls = (kind, take n (c # rest), e1) # ls1"
      by (auto split: if_splits option.splits)
    have "tokenDepth (take n (c # rest)) (d + 1) = Some (e1 + 1)"
      using t(3) by (auto simp: tokenDepth_def split: if_splits)
    moreover have "depthAfter (take n (c # rest)) (e1 + 1) = depthAfter (take n (c # rest)) e1 + 1"
      by (simp add: depthAfter_def)
    ultimately show ?thesis
      using 2(2) [OF False t(1,2) refl t(3,4)] False t by (simp add: deeper_def)
  qed (use 2 in simp)
qed simp

section \<open>Trimming\<close>

text \<open>A byte of a character outside ASCII is a symbol of its own.\<close>

definition highByte :: "char \<Rightarrow> bool" where
  "highByte c \<longleftrightarrow> CHR 0x7F < c"

lemma lexAt_high:
  "highByte c \<Longrightarrow> lexAt d (c # s) = map_option (map_prod (Cons (sqlSymbol, [c], d)) id) (lexAt d s)"
proof -
  assume "highByte c"
  then have c: "(of_char c :: nat) > 127" by (simp add: highByte_def less_char_def)
  have neq: "of_char k \<le> (127 :: nat) \<Longrightarrow> c \<noteq> k" for k using c by auto
  have "\<not> isLetter c" using c by (auto simp: isLetter_def less_eq_char_nat)
  moreover have "c \<noteq> CHR ''$''" "c \<noteq> CHR 0x27" "c \<noteq> CHR 0x22" "c \<noteq> CHR 0x60" "c \<noteq> CHR ''[''" "c \<noteq> CHR ''_''"
    "c \<noteq> CHR '';''" "c \<noteq> CHR ''#''" "c \<noteq> CHR 0x00" "c \<noteq> CHR ''-''" "c \<noteq> CHR ''/''" "c \<noteq> CHR ''*''"
    "c \<noteq> CHR '' ''" "c \<noteq> CHR 0x09" "c \<noteq> CHR 0x0A" "c \<noteq> CHR 0x0D" "c \<noteq> CHR 0x0C" "c \<noteq> CHR 0x0B"
    "c \<noteq> CHR ''(''" "c \<noteq> CHR '')''"
    by (rule neq, simp)+
  ultimately show ?thesis
    by (simp add: isSQLSpace_def forbidden_def hasPrefix_two nextToken_def dollarQuoteDelimiter_def
        isIdentifierStart_def tokenDepth_def depthAfter_def split: list.splits)
qed

definition highSymbol :: "lexeme \<Rightarrow> bool" where
  "highSymbol l \<longleftrightarrow> (\<exists>c d. l = (sqlSymbol, [c], d) \<and> highByte c)"

lemma lexAt_highs:
  "list_all highByte p \<Longrightarrow> lexAt d (p @ s) = map_option (map_prod (append (map (\<lambda>c. (sqlSymbol, [c], d)) p)) id) (lexAt d s)"
  by (induction p) (auto simp: lexAt_high option.map_comp comp_def map_prod_def split_def option.map_ident simp del: lexAt.simps(2))

lemma space_kinds:
  assumes "p \<in> set unicode_spaces"
  shows "list_all highByte p \<or> (\<exists>c. p = [c] \<and> isSQLSpace c)"
proof -
  have "list_all (\<lambda>p. list_all highByte p \<or> (case p of [c] \<Rightarrow> isSQLSpace c | _ \<Rightarrow> False)) unicode_spaces"
    by code_simp
  then have "list_all highByte p \<or> (case p of [c] \<Rightarrow> isSQLSpace c | _ \<Rightarrow> False)"
    using assms by (simp only: list_all_iff)
  then show ?thesis by (cases p; cases "tl p") auto
qed

lemma lexAt_strip:
  "lexAt d s = Some (ls, e) \<Longrightarrow>
     \<exists>junk ls'. lexAt d (strip_all n unicode_spaces s) = Some (ls', e) \<and> ls = junk @ ls' \<and> list_all highSymbol junk"
proof (induction n arbitrary: s ls)
  case (Suc n)
  show ?case
  proof (cases "strip_any unicode_spaces s")
    case (Some r)
    then obtain p where p: "p \<in> set unicode_spaces" "s = p @ r" using strip_any_Some by blast
    have "\<exists>junk ls1. lexAt d r = Some (ls1, e) \<and> ls = junk @ ls1 \<and> list_all highSymbol junk"
    proof (cases "list_all highByte p")
      case True
      then show ?thesis using Suc(2) p(2) lexAt_highs [OF True, of d r]
        by (auto simp: list_all_iff highSymbol_def)
    next
      case False
      then obtain c where "p = [c]" "isSQLSpace c" using space_kinds [OF p(1)] by blast
      then show ?thesis using Suc(2) p(2) by (intro exI [of _ "[]"] exI [of _ ls]) simp
    qed
    then obtain junk ls1 where j: "lexAt d r = Some (ls1, e)" "ls = junk @ ls1" "list_all highSymbol junk" by blast
    obtain junk' ls' where "lexAt d (strip_all n unicode_spaces r) = Some (ls', e)" "ls1 = junk' @ ls'" "list_all highSymbol junk'"
      using Suc(1) [OF j(1)] by blast
    then show ?thesis using j Some by (intro exI [of _ "junk @ junk'"] exI [of _ ls']) simp
  qed (use Suc in \<open>auto intro: exI [of _ "[]"]\<close>)
qed (auto intro: exI [of _ "[]"])

lemma TrimSpace_suffix:
  assumes "trimmed (a @ b)"
  shows "TrimSpace b = strip_all (length b) unicode_spaces b"
proof -
  let ?l = "strip_all (length b) unicode_spaces b"
  obtain pre where "b = pre @ ?l" using strip_all_suffix by blast
  then have "rev (a @ b) = rev ?l @ rev (a @ pre)" by (metis append.assoc rev_append)
  then have "strip_any (map rev unicode_spaces) (rev ?l) = None"
    using assms unfolding trimmed_def strip_any_None by (metis append.assoc)
  then show ?thesis by (simp add: TrimSpace_def Let_def strip_all_id)
qed

lemma TrimSpace_prefix:
  assumes "trimmed (a @ b)" "a \<noteq> []" "\<not> spaceEnd (last a)"
  shows "TrimSpace a = a"
proof (rule TrimSpace_id)
  have "strip_any unicode_spaces a = None"
    using assms(1) unfolding trimmed_def strip_any_None by (metis append.assoc)
  moreover have "rev a \<noteq> rev p @ r" if p: "p \<in> set unicode_spaces" for p r
    using that assms spaces_hd_last [OF p] spaces_nonempty
    by (metis last_appendR rev_append rev_rev_ident)
  ultimately show "trimmed a" by (simp add: trimmed_def strip_any_None)
qed

section \<open>The condition\<close>

text \<open>
  A safe field name is a path of words, and the condition reads back as the comparison of its
  column with the parameter.
\<close>

definition safeOptions :: "filterOptions \<Rightarrow> bool" where
  "safeOptions opts \<longleftrightarrow> isSafeFieldName (fo_tenantField opts)
     \<and> (fo_softDeleteField opts = [] \<or> isSafeFieldName (fo_softDeleteField opts))"

lemma applyOption_safe: "safeOptions opts \<Longrightarrow> applyOption opt opts = Inr opts' \<Longrightarrow> safeOptions opts'"
  by (cases opt) (auto simp: safeOptions_def split: if_splits)

lemma applyOptions_safe: "safeOptions opts \<Longrightarrow> applyOptions os opts = Inr opts' \<Longrightarrow> safeOptions opts'"
proof (induction os opts rule: applyOptions.induct)
  case (3 opt os options)
  then show ?case using applyOption_safe by (cases "applyOption opt options") auto
qed simp_all

lemma default_safe: "safeOptions defaultFilterOptions"
  by code_simp

definition wordStart :: "string \<Rightarrow> bool" where
  "wordStart p \<longleftrightarrow> p \<noteq> [] \<and> isIdentifierStart (hd p) \<and> list_all isIdentifierPart p \<and> CHR ''$'' \<notin> set p"

lemma safe_word: "isSafeIdentifier p \<Longrightarrow> wordStart p"
proof (cases p)
  case (Cons c cs)
  assume "isSafeIdentifier p"
  then have all: "\<forall>i<length p. isLetter (p ! i) \<or> p ! i = CHR ''_'' \<or> (0 < i \<and> CHR ''0'' \<le> p ! i \<and> p ! i \<le> CHR ''9'')"
    by (auto simp: isSafeIdentifier_def list_all_length)
  have "isIdentifierStart c" using all [rule_format, of 0] Cons by (auto simp: isIdentifierStart_def)
  moreover have "\<forall>x\<in>set p. isIdentifierPart x \<and> x \<noteq> CHR ''$''"
  proof (intro ballI conjI notI)
    fix x
    assume "x \<in> set p"
    then obtain i where i: "i < length p" "x = p ! i" by (auto simp: in_set_conv_nth)
    note kinds = all [rule_format, OF i(1), folded i(2)]
    show "isIdentifierPart x" using kinds by (auto simp: isIdentifierPart_def isIdentifierStart_def)
    assume "x = CHR ''$''"
    then show False using kinds by (simp add: isLetter_def)
  qed
  ultimately show ?thesis using Cons by (auto simp: wordStart_def list_all_iff)
qed (simp add: isSafeIdentifier_def)

fun joinDots :: "string list \<Rightarrow> string" where
  "joinDots [] = []"
| "joinDots [p] = p"
| "joinDots (p # q # ps) = p @ CHR ''.'' # joinDots (q # ps)"

fun pathLexemes :: "string list \<Rightarrow> lexeme list" where
  "pathLexemes [] = []"
| "pathLexemes [p] = [(sqlWord, p, 0)]"
| "pathLexemes (p # q # ps) = (sqlWord, p, 0) # (sqlSymbol, ''.'', 0) # pathLexemes (q # ps)"

lemma splitDots_neq_Nil [simp]: "splitDots part s \<noteq> []"
  by (induction part s rule: splitDots.induct) auto

lemma splitDots_join: "joinDots (splitDots part s) = rev part @ s"
proof (induction part s rule: splitDots.induct)
  case (2 part c s)
  then show ?case by (cases "splitDots [] s") auto
qed simp

lemma lexAt_dot: "lexAt 0 (CHR ''.'' # s) = map_option (map_prod (Cons (sqlSymbol, ''.'', 0)) id) (lexAt 0 s)"
  by (simp add: isSQLSpace_def forbidden_def hasPrefix_two nextToken_def dollarQuoteDelimiter_def
      isIdentifierStart_def isLetter_def tokenDepth_def depthAfter_def split: list.splits)

lemma lexAt_word:
  assumes "wordStart p" "s = [] \<or> \<not> isIdentifierPart (hd s)"
  shows "lexAt d (p @ s) = map_option (map_prod (Cons (sqlWord, p, d)) id) (lexAt d s)"
proof -
  obtain c cs where p: "p = c # cs" using assms(1) by (cases p) (auto simp: wordStart_def)
  have c: "isIdentifierStart c" "list_all isIdentifierPart cs" using assms(1) p by (auto simp: wordStart_def)
  then have neq: "c \<noteq> CHR ''$''" "c \<noteq> CHR 0x27" "c \<noteq> CHR 0x22" "c \<noteq> CHR 0x60" "c \<noteq> CHR ''[''"
    "c \<noteq> CHR '';''" "c \<noteq> CHR ''#''" "c \<noteq> CHR 0x00" "c \<noteq> CHR ''-''" "c \<noteq> CHR ''/''" "c \<noteq> CHR ''*''"
    "c \<noteq> CHR '' ''" "c \<noteq> CHR 0x09" "c \<noteq> CHR 0x0A" "c \<noteq> CHR 0x0D" "c \<noteq> CHR 0x0C" "c \<noteq> CHR 0x0B"
    "c \<noteq> CHR ''(''" "c \<noteq> CHR '')''"
    by (auto simp: isIdentifierStart_def isLetter_def)
  have "takeWhile isIdentifierPart (cs @ s) = cs"
    using takeWhile_boundary [of s isIdentifierPart cs] assms(2) c(2) by (simp add: list_all_iff)
  moreover have "dollarQuoteDelimiter (c # cs @ s) = None"
    using neq by (simp add: dollarQuoteDelimiter_def split: list.splits)
  ultimately have "nextToken (c # cs @ s) = Some (sqlWord, Suc (length cs))"
    using c neq by (simp add: nextToken_def)
  moreover have "\<not> forbidden (c # cs @ s)" using neq by (simp add: forbidden_def hasPrefix_two)
  ultimately show ?thesis using neq p by (simp add: isSQLSpace_def tokenDepth_def depthAfter_def)
qed

lemma lexAt_path:
  "ps \<noteq> [] \<Longrightarrow> \<forall>p\<in>set ps. wordStart p \<Longrightarrow> lexAt 0 (joinDots ps) = Some (pathLexemes ps, 0)"
proof (induction ps rule: joinDots.induct)
  case (2 p)
  then show ?case using lexAt_word [of p "[]"] by simp
next
  case (3 p q ps)
  have "\<not> isIdentifierPart CHR ''.''" by code_simp
  then show ?case using lexAt_word [of p "CHR ''.'' # joinDots (q # ps)"] lexAt_dot [of "joinDots (q # ps)"] 3
    by simp
qed simp

definition fieldLexemes :: "string \<Rightarrow> lexeme list" where
  "fieldLexemes field = pathLexemes (splitDots [] field)"

lemma lexAt_field: "isSafeFieldName field \<Longrightarrow> lexAt 0 field = Some (fieldLexemes field, 0)"
  using lexAt_path [of "splitDots [] field"] splitDots_join [of "[]" field]
  by (auto simp: isSafeFieldName_def fieldLexemes_def list_all_iff safe_word)

definition conditionLexemes :: "filterOptions \<Rightarrow> lexeme list" where
  "conditionLexemes opts = fieldLexemes (fo_tenantField opts) @ [(sqlSymbol, ''='', 0), (sqlSymbol, ''?'', 0)]
     @ (if fo_softDeleteField opts \<noteq> [] \<and> \<not> fo_includeSoftDeleted opts
        then (sqlWord, ''AND'', 0) # fieldLexemes (fo_softDeleteField opts)
               @ [(sqlWord, ''IS'', 0), (sqlWord, ''NULL'', 0)]
        else [])"

lemma lexAt_join:
  "lexAt d a = Some (la, d') \<Longrightarrow> boundary b \<Longrightarrow> lexAt d' b = Some (lb, e) \<Longrightarrow> lexAt d (a @ b) = Some (la @ lb, e)"
  using lexAt_append [of d a la d' b] by simp

lemma lexAt_space: "lexAt d (CHR '' '' # s) = lexAt d s"
  by (simp add: isSQLSpace_def)

lemma boundary_space [simp]: "boundary (CHR '' '' # s)"
  by (simp add: boundary_def)

lemma lexAt_condition:
  assumes "safeOptions (ft_opts filt)" "\<not> ft_host filt"
  shows "lexAt 0 (cd_Expression (Filter_Condition filt)) = Some (conditionLexemes (ft_opts filt), 0)"
proof -
  let ?opts = "ft_opts filt"
  have eq: "lexAt 0 '' = ?'' = Some ([(sqlSymbol, ''='', 0), (sqlSymbol, ''?'', 0)], 0)" by code_simp
  have tenant: "lexAt 0 (fo_tenantField ?opts @ '' = ?'')
      = Some (fieldLexemes (fo_tenantField ?opts) @ [(sqlSymbol, ''='', 0), (sqlSymbol, ''?'', 0)], 0)"
    using lexAt_join [OF lexAt_field _ eq] assms by (simp add: safeOptions_def)
  show ?thesis
  proof (cases "fo_softDeleteField ?opts \<noteq> [] \<and> \<not> fo_includeSoftDeleted ?opts")
    case True
    have "isSafeFieldName (fo_softDeleteField ?opts)" using assms True by (simp add: safeOptions_def)
    note field = lexAt_field [OF this]
    have is_null: "lexAt 0 '' IS NULL'' = Some ([(sqlWord, ''IS'', 0), (sqlWord, ''NULL'', 0)], 0)" by code_simp
    have "lexAt 0 ('' AND'' @ CHR '' '' # fo_softDeleteField ?opts @ '' IS NULL'')
        = Some ([(sqlWord, ''AND'', 0)] @ fieldLexemes (fo_softDeleteField ?opts)
              @ [(sqlWord, ''IS'', 0), (sqlWord, ''NULL'', 0)], 0)"
    proof (rule lexAt_join)
      show "lexAt 0 '' AND'' = Some ([(sqlWord, ''AND'', 0)], 0)" by code_simp
      show "lexAt 0 (CHR '' '' # fo_softDeleteField ?opts @ '' IS NULL'')
          = Some (fieldLexemes (fo_softDeleteField ?opts) @ [(sqlWord, ''IS'', 0), (sqlWord, ''NULL'', 0)], 0)"
        unfolding lexAt_space by (rule lexAt_join [OF field _ is_null]) simp
    qed simp
    from lexAt_join [OF tenant _ this] show ?thesis
      using True assms(2) by (simp add: Filter_Condition_def conditionLexemes_def)
  next
    case False
    then show ?thesis using tenant assms(2) by (auto simp: Filter_Condition_def conditionLexemes_def)
  qed
qed

section \<open>What an analysis accepts\<close>

lemma topLevelWords_mem:
  "i \<in> set (topLevelWords ts a word) \<Longrightarrow> a \<le> i \<and> i < length ts \<and> tk_depth (ts ! i) = 0 \<and> isWord (ts ! i) word"
  by (auto simp: topLevelWords_def)

lemma uniqueTopLevelWord_Some:
  "uniqueTopLevelWord ts a word = Some i \<Longrightarrow> a \<le> i \<and> i < length ts \<and> tk_depth (ts ! i) = 0 \<and> isWord (ts ! i) word"
  and optionalUniqueTopLevelWord_Some:
  "optionalUniqueTopLevelWord ts a word = Some (Some i) \<Longrightarrow>
     a \<le> i \<and> i < length ts \<and> tk_depth (ts ! i) = 0 \<and> isWord (ts ! i) word"
  using topLevelWords_mem [of i ts a word]
  by (auto simp: uniqueTopLevelWord_def optionalUniqueTopLevelWord_def split: list.splits)

definition topWhere :: "sqlToken list \<Rightarrow> nat \<Rightarrow> bool" where
  "topWhere ts w \<longleftrightarrow> w < length ts \<and> tk_depth (ts ! w) = 0 \<and> isWord (ts ! w) ''WHERE''"

lemma analyze_where:
  "analyzeSelect ts = Inr (Some w) \<Longrightarrow> topWhere ts w"
  "analyzeUpdate ts field = Inr (Some w) \<Longrightarrow> topWhere ts w"
  "analyzeDelete ts = Inr (Some w) \<Longrightarrow> topWhere ts w"
  unfolding topWhere_def analyzeSelect_def analyzeUpdate_def analyzeDelete_def
  by (auto dest!: optionalUniqueTopLevelWord_Some simp: bind_ok_def split: option.splits if_splits sum.splits)

lemma analyze_scanned:
  assumes "analyzeTenantRewriteSQL sql field = Inr whereEnd"
  obtains ts where "scanSQL sql = Inr ts" "whereEnd = None"
  | ts w where "scanSQL sql = Inr ts" "whereEnd = Some (tk_end (ts ! w))" "topWhere ts w"
proof -
  from assms obtain ts where ts: "scanSQL sql = Inr ts"
    by (auto simp: analyzeTenantRewriteSQL_def split: sum.splits)
  with assms obtain at where at: "whereEnd = map_option (\<lambda>i. tk_end (ts ! i)) at"
    "analyzeSelect ts = Inr at \<or> analyzeUpdate ts field = Inr at \<or> analyzeDelete ts = Inr at"
    by (auto simp: analyzeTenantRewriteSQL_def bind_ok_def split: if_splits sum.splits)
  show thesis
  proof (cases at)
    case None
    then show ?thesis using that(1) ts at by simp
  next
    case (Some w)
    then show ?thesis using that(2) [of ts w] ts at analyze_where by auto
  qed
qed

lemma lexAt_words:
  "lexAt d s = Some (ls, e) \<Longrightarrow> (sqlWord, t, k) \<in> set ls \<Longrightarrow> t \<noteq> [] \<and> (\<forall>c\<in>set t. isIdentifierPart c)"
proof (induction d s arbitrary: ls rule: lexAt.induct)
  case (2 d c rest)
  show ?case
  proof (cases "isSQLSpace c")
    case False
    with 2(3) obtain kind n e1 ls1 where run: "\<not> forbidden (c # rest)" "nextToken (c # rest) = Some (kind, n)"
      "tokenDepth (take n (c # rest)) d = Some e1"
      "lexAt (depthAfter (take n (c # rest)) e1) (drop n (c # rest)) = Some (ls1, e)"
      "ls = (kind, take n (c # rest), e1) # ls1"
      by (auto split: if_splits option.splits)
    show ?thesis
    proof (cases "(sqlWord, t, k) \<in> set ls1")
      case True
      then show ?thesis using 2(2) [OF False run(1,2) refl run(3,4)] by blast
    next
      case False
      then have t: "kind = sqlWord" "t = take n (c # rest)" using run(5) 2(4) by auto
      then have "isIdentifierStart c" "n = Suc (length (takeWhile isIdentifierPart rest))"
        using run(2) by (auto simp: nextToken_def split: option.splits if_splits)
      moreover from this have "t = c # takeWhile isIdentifierPart rest"
        using t(2) takeWhile_eq_take [of isIdentifierPart rest, symmetric] by simp
      ultimately show ?thesis by (auto simp: isIdentifierPart_def dest: set_takeWhileD)
    qed
  qed (use 2 in auto)
qed simp

lemma identifier_not_space: "isIdentifierPart c \<Longrightarrow> \<not> spaceEnd c"
proof -
  have "list_all (\<lambda>p. \<not> isIdentifierPart (hd p) \<and> \<not> isIdentifierPart (last p)) unicode_spaces" by code_simp
  then show "isIdentifierPart c \<Longrightarrow> ?thesis" by (auto simp: spaceEnd_def list_all_iff)
qed

text \<open>The text up to a WHERE needs no trimming, and scans to the tokens up to it.\<close>

lemma scan_where:
  assumes "scanSQL s = Inr ts" "topWhere ts w" "trimmed s"
  shows "TrimSpace (take (tk_end (ts ! w)) s) = take (tk_end (ts ! w)) s"
    and "lexAt 0 (take (tk_end (ts ! w)) s) = Some (map lexeme (take (Suc w) ts), 0)"
    and "\<exists>junk ls. lexAt 0 (TrimSpace (drop (tk_end (ts ! w)) s)) = Some (ls, 0)
           \<and> map lexeme (drop (Suc w) ts) = junk @ ls \<and> list_all highSymbol junk"
proof -
  let ?e = "tk_end (ts ! w)"
  have w: "w < length ts" "tk_kind (ts ! w) = sqlWord" "tk_depth (ts ! w) = 0"
    using assms(2) by (auto simp: topWhere_def isWord_def)
  have run: "scanFrom 0 0 s = Inr ts" using assms(1) by (simp add: scanSQL_def)
  have "lexeme (ts ! w) \<in> set (map lexeme ts)" using w(1) by simp
  then have chars: "tk_text (ts ! w) \<noteq> []" "\<forall>c\<in>set (tk_text (ts ! w)). isIdentifierPart c"
    using lexAt_words [OF scanSQL_lex [OF assms(1)], of "tk_text (ts ! w)" "tk_depth (ts ! w)"] w(2)
    by (simp_all add: lexeme_def)
  have paren: "\<not> isIdentifierPart CHR ''(''" by code_simp
  have behind: "depthBehind (ts ! w) = 0"
    using chars w(3) paren by (auto simp: depthBehind_def depthAfter_def)
  note split = scan_split [OF run w(1), unfolded behind diff_zero]
  show "lexAt 0 (take ?e s) = Some (map lexeme (take (Suc w) ts), 0)" using split by blast
  obtain pre where pre: "take ?e s = pre @ tk_text (ts ! w)" using split by blast
  then have "last (take ?e s) \<in> set (tk_text (ts ! w))" using chars(1) by simp
  then show "TrimSpace (take ?e s) = take ?e s"
    using TrimSpace_prefix [of "take ?e s" "drop ?e s", unfolded append_take_drop_id] assms(3) chars pre identifier_not_space by auto
  show "\<exists>junk ls. lexAt 0 (TrimSpace (drop ?e s)) = Some (ls, 0)
      \<and> map lexeme (drop (Suc w) ts) = junk @ ls \<and> list_all highSymbol junk"
    using lexAt_strip [of 0 "drop ?e s" "map lexeme (drop (Suc w) ts)" 0 "length (drop ?e s)"] split
      TrimSpace_suffix [of "take ?e s" "drop ?e s"] assms(3) by auto
qed

lemma lexAt_open: "lexAt 0 ('' ('' @ s) = map_option (map_prod (Cons (sqlSymbol, ''('', 0)) id) (lexAt 1 s)"
  by (simp add: isSQLSpace_def forbidden_def hasPrefix_two nextToken_def dollarQuoteDelimiter_def
      isIdentifierStart_def isLetter_def tokenDepth_def depthAfter_def split: list.splits)

lemma lexAt_rewritten:
  assumes "lexAt 0 pre = Some (lp, 0)" "lexAt 0 pred = Some (ls, 0)" "lexAt 0 cond = Some (lc, 0)"
  shows "lexAt 0 (pre @ '' ('' @ pred @ '') AND '' @ cond)
    = Some (lp @ (sqlSymbol, ''('', 0) # map deeper ls @ (sqlSymbol, '')'', 0) # (sqlWord, ''AND'', 0) # lc, 0)"
proof -
  have tail: "lexAt 1 ('') AND'' @ CHR '' '' # cond) = Some ([(sqlSymbol, '')'', 0), (sqlWord, ''AND'', 0)] @ lc, 0)"
  proof (rule lexAt_join)
    show "lexAt 1 '') AND'' = Some ([(sqlSymbol, '')'', 0), (sqlWord, ''AND'', 0)], 0)" by code_simp
  qed (simp_all only: lexAt_space assms boundary_space)
  have "lexAt 1 (pred @ '') AND'' @ CHR '' '' # cond) = Some (map deeper ls @ [(sqlSymbol, '')'', 0), (sqlWord, ''AND'', 0)] @ lc, 0)"
    using lexAt_join [of 1 pred "map deeper ls" 1, OF _ _ tail] lexAt_deeper [OF assms(2)]
    by (simp add: boundary_def)
  then show ?thesis
    using lexAt_join [OF assms(1), of "'' ('' @ pred @ '') AND'' @ CHR '' '' # cond"] lexAt_open [of "pred @ '') AND'' @ CHR '' '' # cond"]
    by simp
qed

section \<open>The tenant column\<close>

lemma joinDots_chars: "c \<in> set (joinDots ps) \<Longrightarrow> c = CHR ''.'' \<or> (\<exists>p\<in>set ps. c \<in> set p)"
  by (induction ps rule: joinDots.induct) auto

lemma splitDots_chars: "c \<in> set s \<Longrightarrow> c = CHR ''.'' \<or> (\<exists>p\<in>set (splitDots [] s). c \<in> set p)"
  using joinDots_chars [of c "splitDots [] s"] splitDots_join [of "[]" s] by simp

lemma safe_field_chars:
  assumes "isSafeFieldName field" "c \<in> set field"
  shows "c = CHR ''.'' \<or> isIdentifierPart c"
  using assms splitDots_chars [OF assms(2)] safe_word
  by (fastforce simp: isSafeFieldName_def list_all_iff wordStart_def)

lemma safe_field_trimmed:
  assumes "isSafeFieldName field"
  shows "TrimSpace field = field"
proof (rule TrimSpace_id, rule trimmed_plain)
  show "field \<noteq> []" using assms by (simp add: isSafeFieldName_def)
  have dot: "\<not> spaceEnd CHR ''.''" by code_simp
  then show "\<not> spaceEnd (hd field)" "\<not> spaceEnd (last field)"
    using safe_field_chars [OF assms, of "hd field"] safe_field_chars [OF assms, of "last field"]
      identifier_not_space \<open>field \<noteq> []\<close> by auto
qed

lemma indexOf_equals:
  "CHR '' '' \<notin> set field \<Longrightarrow> indexOf (field @ '' = ?'' @ s) '' = ?'' = Some (length field)"
  by (induction field) (auto simp: hasPrefix_def)

lemma tenantField_read:
  assumes "isSafeFieldName field"
  shows "tenantFieldFromCondition (field @ '' = ?'' @ s) = field"
proof -
  have space: "\<not> isIdentifierPart CHR '' ''" by code_simp
  then have "CHR '' '' \<notin> set field" using safe_field_chars [OF assms, of "CHR '' ''"] by auto
  from indexOf_equals [OF this, of s] show ?thesis
    using safe_field_trimmed [OF assms] by (simp add: tenantFieldFromCondition_def)
qed

lemma takeWhile_tail: "\<not> P x \<Longrightarrow> takeWhile P (xs @ x # ys) = takeWhile P xs"
  by (induction xs) simp_all

lemma last_part:
  "\<forall>c\<in>set part. c \<noteq> CHR ''.'' \<Longrightarrow>
     rev (takeWhile (\<lambda>c. c \<noteq> CHR ''.'') (rev (rev part @ s))) = last (splitDots part s)"
proof (induction part s rule: splitDots.induct)
  case (2 part c s)
  show ?case
  proof (cases "c = CHR ''.''")
    case True
    then show ?thesis using 2(1) by (simp add: takeWhile_tail)
  next
    case False
    then show ?thesis using 2 by simp
  qed
qed (auto simp: takeWhile_eq_all_conv [THEN iffD2])

lemma trimChars_id:
  "w \<noteq> [] \<Longrightarrow> hd w \<notin> cutset \<Longrightarrow> last w \<notin> cutset \<Longrightarrow> trimChars cutset w = w"
proof -
  assume w: "w \<noteq> []" "hd w \<notin> cutset" "last w \<notin> cutset"
  have "dropWhile (\<lambda>c. c \<in> cutset) w = w" "dropWhile (\<lambda>c. c \<in> cutset) (rev w) = rev w"
    using w by (simp_all add: hd_rev dropWhile_eq_self_iff [THEN iffD2])
  then show "trimChars cutset w = w" by (simp add: trimChars_def)
qed

lemma configured_column:
  assumes "isSafeFieldName field"
  shows "configuredColumnName field = last (splitDots [] field)" "last (splitDots [] field) \<noteq> []"
proof -
  let ?w = "last (splitDots [] field)"
  have "?w \<in> set (splitDots [] field)" by simp
  then have w: "wordStart ?w" using assms safe_word by (auto simp: isSafeFieldName_def list_all_iff)
  then show "?w \<noteq> []" by (simp add: wordStart_def)
  have "list_all (\<lambda>c. \<not> isIdentifierPart c) [CHR 0x60, CHR 0x22, CHR ''['', CHR '']'']" by code_simp
  then have quotes: "isIdentifierPart c \<Longrightarrow> c \<notin> {CHR 0x60, CHR 0x22, CHR ''['', CHR '']''}" for c
    by auto
  have "isIdentifierPart (hd ?w)" "isIdentifierPart (last ?w)"
    using w by (auto simp: wordStart_def list_all_iff)
  note ends = this [THEN quotes]
  show "configuredColumnName field = ?w"
    using last_part [of "[]" field] safe_field_trimmed [OF assms] trimChars_id [OF \<open>?w \<noteq> []\<close> ends]
    unfolding configuredColumnName_def by simp
qed

lemma validateEach_ok:
  "validateEach column parts = Inr () \<Longrightarrow> a \<in> set parts \<Longrightarrow> validateAssignment column a = Inr ()"
  by (induction column parts rule: validateEach.induct) (auto simp: ok_simps)

text \<open>
  The SET lists of plain column assignments, as a grammar: a path of identifiers and dots outside all
  parentheses, an equals sign, and an expression; separated by the commas outside all parentheses. No
  column that is assigned is the given one.
\<close>

inductive setPath :: "sqlToken list \<Rightarrow> sqlToken \<Rightarrow> bool" where
  column: "isIdentifier t \<Longrightarrow> tk_depth t = 0 \<Longrightarrow> setPath [t] t"
| dotted: "setPath path q \<Longrightarrow> isTopSymbol d CHR ''.'' \<Longrightarrow> isIdentifier t \<Longrightarrow> tk_depth t = 0 \<Longrightarrow>
    setPath (path @ [d, t]) t"

definition assigns :: "string \<Rightarrow> sqlToken list \<Rightarrow> bool" where
  "assigns column part \<longleftrightarrow> (\<forall>t\<in>set part. \<not> isTopSymbol t CHR '','')
     \<and> (\<exists>path t eq expr. part = path @ eq # expr \<and> setPath path t \<and> isTopSymbol eq CHR ''=''
          \<and> expr \<noteq> [] \<and> \<not> equalFold (identifierValue t) column)"

inductive setList :: "string \<Rightarrow> sqlToken list \<Rightarrow> bool" for column where
  single: "assigns column part \<Longrightarrow> setList column part"
| more: "assigns column part \<Longrightarrow> isTopSymbol c CHR '','' \<Longrightarrow> setList column ts \<Longrightarrow>
    setList column (part @ c # ts)"

lemma setPath_last: "setPath path t \<Longrightarrow> path \<noteq> [] \<and> last path = t"
  by (induction rule: setPath.induct) simp_all

lemma pathFrom_path:
  "pathFrom n ts = Some (n + length ts) \<Longrightarrow> setPath path q \<Longrightarrow> \<exists>t. setPath (path @ ts) t"
proof (induction n ts arbitrary: path q rule: pathFrom.induct)
  case (3 n d t tokens)
  then have step: "isTopSymbol d CHR ''.''" "isIdentifier t" "tk_depth t = 0"
    "pathFrom (n + 2) tokens = Some (n + 2 + length tokens)" by (auto split: if_splits)
  from setPath.dotted [OF 3(3) step(1-3)] have "setPath (path @ [d, t]) t" .
  from 3(1) [OF _ _ step(4) this] step show ?case by simp
qed (auto split: if_splits)

lemma consumed_path: "consumeIdentifierPath ts = Some (length ts) \<Longrightarrow> \<exists>t. setPath ts t"
  using pathFrom_path [of 1 "tl ts" "[hd ts]" "hd ts"] setPath.column [of "hd ts"]
  by (cases ts) (auto simp: consumeIdentifierPath_def split: if_splits)

lemma validateAssignment_ok:
  assumes "validateAssignment column part = Inr ()" "column \<noteq> []" "\<forall>t\<in>set part. \<not> isTopSymbol t CHR '',''"
  shows "assigns column part"
proof -
  let ?n = "equalsAt part"
  have v: "part \<noteq> []" "?n \<noteq> length part" "?n \<noteq> 0" "?n \<noteq> length part - 1"
    "consumeIdentifierPath (take ?n part) = Some ?n" "\<not> equalFold (identifierValue (part ! (?n - 1))) column"
    using assms(1,2) by (auto simp: validateAssignment_def Let_def split: if_splits)
  have n: "?n < length part" "Suc ?n < length part"
    using v length_takeWhile_le [of "\<lambda>t. \<not> isTopSymbol t CHR ''=''" part] by (auto simp: equalsAt_def)
  have eq: "isTopSymbol (part ! ?n) CHR ''=''"
    using nth_length_takeWhile [of "\<lambda>t. \<not> isTopSymbol t CHR ''=''" part] n(1) by (simp add: equalsAt_def)
  obtain t where t: "setPath (take ?n part) t" using consumed_path [of "take ?n part"] v(5) n(1) by auto
  have "last (take ?n part) = part ! (?n - 1)" using v(1,3) n(1) last_conv_nth [of "take ?n part"]
    by (simp add: min_absorb2 take_eq_Nil)
  then have "\<not> equalFold (identifierValue t) column" using setPath_last [OF t] v(6) by simp
  moreover have "part = take ?n part @ part ! ?n # drop (Suc ?n) part" by (rule id_take_nth_drop [OF n(1)])
  ultimately show ?thesis using assms(3) t eq n(2) unfolding assigns_def by (metis drop_eq_Nil not_le)
qed

lemma split_setList:
  "\<forall>part. part \<in> set (splitAssignments current ts) \<longrightarrow> (\<forall>t\<in>set part. \<not> isTopSymbol t CHR '','')
       \<longrightarrow> assigns column part \<Longrightarrow>
     \<forall>t\<in>set current. \<not> isTopSymbol t CHR '','' \<Longrightarrow> setList column (rev current @ ts)"
proof (induction current ts rule: splitAssignments.induct)
  case (1 current)
  then show ?case by (auto intro: setList.single)
next
  case (2 current t ts)
  show ?case
  proof (cases "isTopSymbol t CHR '',''")
    case True
    with 2 have "assigns column (rev current)" "setList column ts" by auto
    then show ?thesis using True setList.more [of column "rev current" t ts] by blast
  next
    case False
    with 2 show ?thesis by auto
  qed
qed

lemma update_not_select: "equalFold s ''UPDATE'' \<Longrightarrow> \<not> equalFold s ''SELECT''"
  by (cases s) (auto simp: toUpperChar_def split: if_splits)

section \<open>Properties\<close>

definition tenantConditionFor :: "Tenant \<Rightarrow> filterOptions \<Rightarrow> 'a Condition" where
  "tenantConditionFor tenant options =
     Filter_Condition \<lparr>ft_tenantID = tn_ID tenant, ft_host = False, ft_opts = options\<rparr>"

lemma QueryWithArgs_tenant:
  assumes "QueryWithArgs (Some cx) sql args opts = Inr (sql', args')" "\<not> IsHost cx"
  obtains tenant options whereEnd where
    "FromContext cx = Some tenant" "tn_ID tenant \<noteq> []" "applyOptions opts defaultFilterOptions = Inr options"
    "analyzeTenantRewriteSQL (TrimSpace sql)
       (tenantFieldFromCondition (cd_Expression (tenantConditionFor tenant options :: 'a Condition))) = Inr whereEnd"
    "sql' = addTenantCondition (TrimSpace sql) (cd_Expression (tenantConditionFor tenant options :: 'a Condition)) whereEnd"
    "args' = args @ [StringArg (tn_ID tenant) :: 'a sqlArg]"
  using assms
  by (auto simp: QueryWithArgs_def NewFilter_def Let_def ok_simps tenantConditionFor_def Condition_Empty_def
      Filter_IsHost_def split: if_splits option.splits) (auto simp: Filter_Condition_def)

text \<open>
  C4. A statement rewritten for a tenant, scanned again, is the given statement with the tenant
  condition at the top level: either \<open>WHERE\<close> and the condition are added at its end, or its own
  predicate stands in parentheses, every lexeme of it one level deeper, and the condition follows
  with \<open>AND\<close>, so that no \<open>OR\<close> of the predicate and no quote, comment or parenthesis in it reaches
  past the condition. The one argument added is the tenant's identifier, for the last parameter.
\<close>

theorem rewrite_confines_predicate:
  assumes "QueryWithArgs (Some cx) sql args opts = Inr (sql', args')" "\<not> IsHost cx"
  shows "\<exists>tenant options ts ts'. FromContext cx = Some tenant \<and> tn_ID tenant \<noteq> []
    \<and> args' = args @ [StringArg (tn_ID tenant)] \<and> applyOptions opts defaultFilterOptions = Inr options
    \<and> scanSQL (TrimSpace sql) = Inr ts \<and> scanSQL sql' = Inr ts'
    \<and> (map lexeme ts' = map lexeme ts @ (sqlWord, ''WHERE'', 0) # conditionLexemes options
      \<or> (\<exists>w junk pred. topWhere ts w \<and> map lexeme (drop (Suc w) ts) = junk @ pred \<and> list_all highSymbol junk
          \<and> map lexeme ts' = map lexeme (take (Suc w) ts) @ (sqlSymbol, ''('', 0) # map deeper pred
              @ (sqlSymbol, '')'', 0) # (sqlWord, ''AND'', 0) # conditionLexemes options))"
proof -
  obtain tenant options whereEnd where ok: "FromContext cx = Some tenant" "tn_ID tenant \<noteq> []"
    "applyOptions opts defaultFilterOptions = Inr options"
    "analyzeTenantRewriteSQL (TrimSpace sql)
       (tenantFieldFromCondition (cd_Expression (tenantConditionFor tenant options :: 'a Condition))) = Inr whereEnd"
    "sql' = addTenantCondition (TrimSpace sql) (cd_Expression (tenantConditionFor tenant options :: 'a Condition)) whereEnd"
    "args' = args @ [StringArg (tn_ID tenant)]"
    using QueryWithArgs_tenant [OF assms] by blast
  let ?cond = "cd_Expression (tenantConditionFor tenant options :: 'a Condition)"
  have cond: "lexAt 0 ?cond = Some (conditionLexemes options, 0)"
    using lexAt_condition [of "\<lparr>ft_tenantID = tn_ID tenant, ft_host = False, ft_opts = options\<rparr>"]
      applyOptions_safe [OF default_safe ok(3)] by (simp add: tenantConditionFor_def)
  from ok(4) show ?thesis
  proof (cases rule: analyze_scanned)
    case (1 ts)
    have "lexAt 0 ('' WHERE'' @ CHR '' '' # ?cond) = Some ([(sqlWord, ''WHERE'', 0)] @ conditionLexemes options, 0)"
    proof (rule lexAt_join)
      show "lexAt 0 '' WHERE'' = Some ([(sqlWord, ''WHERE'', 0)], 0)" by code_simp
    qed (simp_all only: lexAt_space cond boundary_space)
    then have "lexAt 0 sql' = Some (map lexeme ts @ (sqlWord, ''WHERE'', 0) # conditionLexemes options, 0)"
      using lexAt_join [OF scanSQL_lex [OF 1(1)], of "'' WHERE'' @ CHR '' '' # ?cond"] ok(5) 1(2)
      by (simp add: addTenantCondition_def)
    from lex_scanSQL [OF this] obtain ts' where ts': "scanSQL sql' = Inr ts'"
      "map lexeme ts' = map lexeme ts @ (sqlWord, ''WHERE'', 0) # conditionLexemes options" by blast
    show ?thesis
      by (intro exI [of _ tenant] exI [of _ options] exI [of _ ts] exI [of _ ts'] conjI disjI1 ok 1(1) ts')
  next
    case (2 ts w)
    note where_facts = scan_where [OF 2(1,3) TrimSpace_trimmed]
    obtain junk ls where pred: "lexAt 0 (TrimSpace (drop (tk_end (ts ! w)) (TrimSpace sql))) = Some (ls, 0)"
      "map lexeme (drop (Suc w) ts) = junk @ ls" "list_all highSymbol junk"
      using where_facts(3) by blast
    have "lexAt 0 sql' = Some (map lexeme (take (Suc w) ts) @ (sqlSymbol, ''('', 0) # map deeper ls
        @ (sqlSymbol, '')'', 0) # (sqlWord, ''AND'', 0) # conditionLexemes options, 0)"
      unfolding ok(5) 2(2) addTenantCondition_def option.case where_facts(1)
      by (rule lexAt_rewritten [OF where_facts(2) pred(1) cond])
    from lex_scanSQL [OF this] obtain ts' where ts': "scanSQL sql' = Inr ts'"
      "map lexeme ts' = map lexeme (take (Suc w) ts) @ (sqlSymbol, ''('', 0) # map deeper ls
        @ (sqlSymbol, '')'', 0) # (sqlWord, ''AND'', 0) # conditionLexemes options" by blast
    show ?thesis
      by (intro exI [of _ tenant] exI [of _ options] exI [of _ ts] exI [of _ ts'] conjI disjI2
          exI [of _ w] exI [of _ junk] exI [of _ ls] ok 2(1,3) pred(2,3) ts')
  qed
qed

text \<open>
  C29. An accepted UPDATE outside the host context never assigns the tenant column: everything between
  its SET and its WHERE or end is a list of plain assignments in the grammar above - each a path of
  identifiers and dots, an equals sign and an expression, with no parenthesis before the equals sign -
  and the last identifier of no path, quoted or not, is the tenant column under case folding.
\<close>

theorem update_keeps_tenant_column:
  assumes "QueryWithArgs (Some cx) sql args opts = Inr r" "\<not> IsHost cx"
    "scanSQL (TrimSpace sql) = Inr ts" "isWord (hd ts) ''UPDATE''"
  shows "\<exists>options set_at end_at. applyOptions opts defaultFilterOptions = Inr options
    \<and> uniqueTopLevelWord ts 1 ''SET'' = Some set_at \<and> set_at < end_at
    \<and> (end_at = length ts \<or> topWhere ts end_at)
    \<and> setList (last (splitDots [] (fo_tenantField options))) (slice (set_at + 1) end_at ts)"
proof -
  obtain sql' args' where r: "r = (sql', args')" by (cases r)
  obtain tenant options whereEnd where ok: "applyOptions opts defaultFilterOptions = Inr options"
    "analyzeTenantRewriteSQL (TrimSpace sql)
       (tenantFieldFromCondition (cd_Expression (tenantConditionFor tenant options :: 'a Condition))) = Inr whereEnd"
    by (rule QueryWithArgs_tenant [OF assms(1) [unfolded r] assms(2)]) (rule that)
  have field: "isSafeFieldName (fo_tenantField options)"
    using applyOptions_safe [OF default_safe ok(1)] by (simp add: safeOptions_def)
  have "tenantFieldFromCondition (cd_Expression (tenantConditionFor tenant options :: 'a Condition))
      = fo_tenantField options"
    unfolding tenantConditionFor_def Filter_Condition_def by (simp add: tenantField_read [OF field, simplified])
  with ok(2) assms(3,4) obtain where_at where up: "analyzeUpdate ts (fo_tenantField options) = Inr where_at"
    using update_not_select
    by (auto simp: analyzeTenantRewriteSQL_def isWord_def ok_simps split: if_splits)
  then obtain set_at end_at where parts: "uniqueTopLevelWord ts 1 ''SET'' = Some set_at"
    "optionalUniqueTopLevelWord ts (set_at + 1) ''WHERE'' = Some where_at"
    "predicateEnd ts where_at = Some end_at"
    "validateAssignments (slice (set_at + 1) end_at ts) (fo_tenantField options) = Inr ()"
    by (auto simp: analyzeUpdate_def ok_simps split: option.splits if_splits)
  have "end_at = length ts \<or> topWhere ts end_at \<and> set_at < end_at"
    using parts(2,3) optionalUniqueTopLevelWord_Some [of ts "set_at + 1" "''WHERE''"]
    by (cases where_at) (auto simp: predicateEnd_def topWhere_def split: if_splits)
  moreover have "set_at < length ts" using uniqueTopLevelWord_Some [OF parts(1)] by simp
  moreover have "validateAssignment (last (splitDots [] (fo_tenantField options))) part = Inr ()"
    if "part \<in> set (splitAssignments [] (slice (set_at + 1) end_at ts))" for part
    using parts(4) validateEach_ok [OF _ that] configured_column(1) [OF field]
    by (auto simp: validateAssignments_def split: if_splits)
  then have "setList (last (splitDots [] (fo_tenantField options))) (slice (set_at + 1) end_at ts)"
    using split_setList [of "[]" "slice (set_at + 1) end_at ts"]
      validateAssignment_ok [OF _ configured_column(2) [OF field]] by simp
  ultimately show ?thesis using ok(1) parts(1) by blast
qed

text \<open>
  C37. Without a tenant no statement reaches the database: outside the host context, a context that
  carries no tenant, or one with the empty identifier, is refused, and so is every statement the
  analysis does not accept; the database is left as it was. Only a host context runs the trimmed
  statement as it is given.
\<close>

theorem no_tenant_no_statement:
  "(\<not> IsHost cx \<longrightarrow> FromContext cx = None \<or> map_option tn_ID (FromContext cx) = Some [] \<longrightarrow>
      (\<exists>e. ExecContext db (Some cx) sql args opts s = (Inl e, s)))
   \<and> (QueryWithArgs (Some cx) sql args opts = Inl e \<longrightarrow> ExecContext db (Some cx) sql args opts s = (Inl e, s))
   \<and> (IsHost cx \<longrightarrow> QueryWithArgs (Some cx) sql args opts = Inr r \<longrightarrow> r = (TrimSpace sql, args))
   \<and> (\<exists>e. ExecContext db None sql args opts s = (Inl e, s))"
proof -
  have "\<exists>e. QueryWithArgs None sql args opts = Inl e"
    by (cases "applyOptions opts defaultFilterOptions") (auto simp: QueryWithArgs_def NewFilter_def Let_def)
  moreover have "\<exists>e. QueryWithArgs (Some cx) sql args opts = Inl e"
    if "\<not> IsHost cx" "FromContext cx = None \<or> map_option tn_ID (FromContext cx) = Some []"
    using that by (cases "applyOptions opts defaultFilterOptions") (auto simp: QueryWithArgs_def NewFilter_def Let_def)
  moreover have "IsHost cx \<Longrightarrow> QueryWithArgs (Some cx) sql args opts = Inr r \<Longrightarrow> r = (TrimSpace sql, args)"
    by (auto simp: QueryWithArgs_def NewFilter_def Filter_IsHost_def Let_def ok_simps split: if_splits)
  ultimately show ?thesis by (auto simp: ExecContext_def on_ok_def)
qed

definition tenantCx :: saasContext where
  "tenantCx = WithTenant None (sampleTenant ''a'' TenantStatusActive)"

lemma case_Inr: "(case r of Inr x \<Rightarrow> P x | Inl _ \<Rightarrow> False) \<Longrightarrow> (\<And>x. r = Inr x \<Longrightarrow> P x \<Longrightarrow> thesis) \<Longrightarrow> thesis"
  by (cases r) auto

theorem rewrite_confines_predicate_witness:
  "\<exists>ts'. scanSQL ''SELECT * FROM t WHERE (a = 1 OR b = 2) AND tenant_id = ?'' = Inr ts'"
proof -
  have "QueryWithArgs (Some tenantCx) ''SELECT * FROM t WHERE a = 1 OR b = 2'' ([] :: unit sqlArg list) []
      = Inr (''SELECT * FROM t WHERE (a = 1 OR b = 2) AND tenant_id = ?'', [StringArg ''a''])"
    by code_simp
  moreover have "\<not> IsHost tenantCx" by code_simp
  ultimately show ?thesis using rewrite_confines_predicate by blast
qed

theorem update_keeps_tenant_column_witness:
  "\<exists>ts set_at end_at. scanSQL ''update t set a = 1, b = 2 where c = 3'' = Inr ts
     \<and> uniqueTopLevelWord ts 1 ''SET'' = Some set_at \<and> setList ''tenant_id'' (slice (set_at + 1) end_at ts)"
proof -
  let ?sql = "''update t set a = 1, b = 2 where c = 3''"
  have run: "QueryWithArgs (Some tenantCx) ?sql ([] :: unit sqlArg list) []
      = Inr (''update t set a = 1, b = 2 where (c = 3) AND tenant_id = ?'', [StringArg ''a''])"
    by code_simp
  have host: "\<not> IsHost tenantCx" by code_simp
  have "case scanSQL (TrimSpace ?sql) of Inr ts \<Rightarrow> isWord (hd ts) ''UPDATE'' | Inl _ \<Rightarrow> False" by code_simp
  then obtain ts where ts: "scanSQL (TrimSpace ?sql) = Inr ts" "isWord (hd ts) ''UPDATE''" by (rule case_Inr)
  have trim: "TrimSpace ?sql = ?sql" by code_simp
  have field: "last (splitDots [] (fo_tenantField defaultFilterOptions)) = ''tenant_id''" by code_simp
  obtain options set_at end_at where "applyOptions [] defaultFilterOptions = Inr options"
    "uniqueTopLevelWord ts 1 ''SET'' = Some set_at"
    "setList (last (splitDots [] (fo_tenantField options))) (slice (set_at + 1) end_at ts)"
    using update_keeps_tenant_column [OF run host ts] by (elim exE conjE) (rule that)
  then have "uniqueTopLevelWord ts 1 ''SET'' = Some set_at" "setList ''tenant_id'' (slice (set_at + 1) end_at ts)"
    by (simp_all add: field)
  moreover have "scanSQL ?sql = Inr ts" using ts(1) by (simp only: trim)
  ultimately show ?thesis by (intro exI conjI)
qed

theorem no_tenant_no_statement_witness:
  "\<exists>e. ExecContext (\<lambda>q a s. ((), Suc s)) (Some (WithTenant None (sampleTenant [] TenantStatusActive)))
      ''DELETE FROM t'' ([] :: unit sqlArg list) [] 0 = (Inl e, 0)"
proof -
  let ?cx = "WithTenant None (sampleTenant [] TenantStatusActive)"
  have "\<not> IsHost ?cx" "map_option tn_ID (FromContext ?cx) = Some []" by code_simp+
  then show ?thesis
    using no_tenant_no_statement [of ?cx "\<lambda>q a s. ((), Suc s)" "''DELETE FROM t''" "[] :: unit sqlArg list" "[]" 0]
    by blast
qed

end
