(* ===== verification/Tenant_Cache.thy ===== *)
theory Tenant_Cache
  imports Tenant_Store
begin

text \<open>
  The in-memory tenant cache (\<open>core/store/memory_cache.go\<close>): entries with an expiry and a bound on
  their number. Every operation takes the answers of its context and of the cache's clock.
\<close>

record cacheEntry =
  ce_tenant :: Tenant
  ce_createdAt :: Time
  ce_expiresAt :: Time

record MemoryCache =
  mc_maxEntries :: int64
  mc_entries :: "(TenantID, cacheEntry) gomap"

datatype cache_error = ErrNilStore | ErrNilCache | ErrInvalidCacheSize

definition NewBoundedMemoryCache :: "int64 \<Rightarrow> cache_error + MemoryCache" where
  "NewBoundedMemoryCache maxEntries =
     (if maxEntries < 0 then Inl ErrInvalidCacheSize
      else Inr \<lparr>mc_maxEntries = maxEntries, mc_entries = []\<rparr>)"

definition NewMemoryCache :: MemoryCache where
  "NewMemoryCache = (case NewBoundedMemoryCache 0 of Inl _ \<Rightarrow> \<lparr>mc_maxEntries = 0, mc_entries = []\<rparr> | Inr c \<Rightarrow> c)"

definition expiredAt :: "Time \<Rightarrow> cacheEntry \<Rightarrow> bool" where
  "expiredAt now entry \<longleftrightarrow> \<not> IsZero (ce_expiresAt entry) \<and> \<not> now < ce_expiresAt entry"

definition MemoryCache_Get ::
  "ctx \<Rightarrow> Time \<Rightarrow> TenantID \<Rightarrow> MemoryCache \<Rightarrow> (tenant_error + Tenant option) \<times> MemoryCache"
where
  "MemoryCache_Get cx now tid cache =
     on_ok (tenantCtx cx) cache (\<lambda>_.
       if tid = [] then fails ErrInvalidTenant cache
       else case map_of (mc_entries cache) tid of
         None \<Rightarrow> (Inr None, cache)
       | Some entry \<Rightarrow>
           if expiredAt now entry
           then (Inr None, cache\<lparr>mc_entries := AList.delete tid (mc_entries cache)\<rparr>)
           else (Inr (Some (ce_tenant entry)), cache))"

definition evictExpiredLocked :: "Time \<Rightarrow> MemoryCache \<Rightarrow> MemoryCache" where
  "evictExpiredLocked now cache =
     cache\<lparr>mc_entries := filter (\<lambda>(tid, entry). \<not> expiredAt now entry) (mc_entries cache)\<rparr>"

fun oldestEntry :: "TenantID \<Rightarrow> Time \<Rightarrow> (TenantID, cacheEntry) gomap \<Rightarrow> TenantID" where
  "oldestEntry oldestID oldest [] = oldestID"
| "oldestEntry oldestID oldest ((tid, entry) # entries) =
     (if oldestID = [] \<or> ce_createdAt entry < oldest then oldestEntry tid (ce_createdAt entry) entries
      else oldestEntry oldestID oldest entries)"

definition evictOldestLocked :: "MemoryCache \<Rightarrow> MemoryCache" where
  "evictOldestLocked cache =
     (let oldestID = oldestEntry [] 0 (mc_entries cache) in
      if oldestID \<noteq> [] then cache\<lparr>mc_entries := AList.delete oldestID (mc_entries cache)\<rparr> else cache)"

definition cacheFull :: "TenantID \<Rightarrow> MemoryCache \<Rightarrow> bool" where
  "cacheFull tid cache \<longleftrightarrow> map_of (mc_entries cache) tid = None \<and> 0 < mc_maxEntries cache
     \<and> mc_maxEntries cache \<le> int (length (mc_entries cache))"

definition MemoryCache_Set ::
  "ctx \<Rightarrow> Time \<Rightarrow> Tenant \<Rightarrow> Duration \<Rightarrow> MemoryCache \<Rightarrow> (tenant_error + unit) \<times> MemoryCache"
where
  "MemoryCache_Set cx now tenant ttl cache =
     on_ok (tenantCtx cx) cache (\<lambda>_. on_ok (validateTenant tenant) cache (\<lambda>_.
       let entry = \<lparr>ce_tenant = tenant, ce_createdAt = now,
                    ce_expiresAt = (if 0 < ttl then now + ttl else 0)\<rparr>;
           c1 = (if cacheFull (tn_ID tenant) cache then evictExpiredLocked now cache else cache);
           c2 = (if cacheFull (tn_ID tenant) c1 then evictOldestLocked c1 else c1)
       in (Inr (), c2\<lparr>mc_entries := AList.update (tn_ID tenant) entry (mc_entries c2)\<rparr>)))"

definition MemoryCache_Delete :: "ctx \<Rightarrow> TenantID \<Rightarrow> MemoryCache \<Rightarrow> (tenant_error + unit) \<times> MemoryCache" where
  "MemoryCache_Delete cx tid cache =
     on_ok (tenantCtx cx) cache (\<lambda>_.
       if tid = [] then fails ErrInvalidTenant cache
       else (Inr (), cache\<lparr>mc_entries := AList.delete tid (mc_entries cache)\<rparr>))"

definition MemoryCache_Invalidate :: "ctx \<Rightarrow> MemoryCache \<Rightarrow> (tenant_error + unit) \<times> MemoryCache" where
  "MemoryCache_Invalidate cx cache =
     on_ok (tenantCtx cx) cache (\<lambda>_. (Inr (), cache\<lparr>mc_entries := []\<rparr>))"

section \<open>The contract of a cache\<close>

text \<open>
  What a caller of the \<open>Cache\<close> interface may rely on, whether or not an operation succeeds. The
  caller sees a cache through \<open>held\<close>, the tenants a lookup may still answer.
\<close>

record 'c cacheOps =
  co_Get :: "ctx \<Rightarrow> Time \<Rightarrow> TenantID \<Rightarrow> 'c \<Rightarrow> (tenant_error + Tenant option) \<times> 'c"
  co_Set :: "ctx \<Rightarrow> Time \<Rightarrow> Tenant \<Rightarrow> Duration \<Rightarrow> 'c \<Rightarrow> (tenant_error + unit) \<times> 'c"
  co_Delete :: "ctx \<Rightarrow> Time \<Rightarrow> TenantID \<Rightarrow> 'c \<Rightarrow> (tenant_error + unit) \<times> 'c"
  co_Invalidate :: "ctx \<Rightarrow> Time \<Rightarrow> 'c \<Rightarrow> (tenant_error + unit) \<times> 'c"

locale tenant_cache =
  fixes ops :: "'c cacheOps"
    and ok :: "'c \<Rightarrow> bool"
    and held :: "'c \<Rightarrow> TenantID \<Rightarrow> Tenant set"
  assumes get_ok: "ok c \<Longrightarrow> co_Get ops cx now tid c = (found, c') \<Longrightarrow> ok c' \<and> held c' k \<subseteq> held c k"
    and get_answer: "ok c \<Longrightarrow> co_Get ops cx now tid c = (Inr (Some t), c') \<Longrightarrow> t \<in> held c tid"
    and set_ok: "ok c \<Longrightarrow> co_Set ops cx now t ttl c = (r, c') \<Longrightarrow>
      ok c' \<and> held c' k \<subseteq> (if k = tn_ID t then insert t (held c k) else held c k)"
    and set_done: "ok c \<Longrightarrow> co_Set ops cx now t ttl c = (Inr u, c') \<Longrightarrow> held c' (tn_ID t) \<subseteq> {t}"
    and delete_ok: "ok c \<Longrightarrow> co_Delete ops cx now tid c = (r, c') \<Longrightarrow> ok c' \<and> held c' k \<subseteq> held c k"
    and delete_done: "ok c \<Longrightarrow> co_Delete ops cx now tid c = (Inr u, c') \<Longrightarrow> held c' tid = {}"
    and invalidate_ok: "ok c \<Longrightarrow> co_Invalidate ops cx now c = (r, c') \<Longrightarrow> ok c' \<and> held c' k \<subseteq> held c k"
    and invalidate_done: "ok c \<Longrightarrow> co_Invalidate ops cx now c = (Inr u, c') \<Longrightarrow> held c' k = {}"

definition memoryCacheOps :: "MemoryCache cacheOps" where
  "memoryCacheOps = \<lparr>co_Get = MemoryCache_Get, co_Set = MemoryCache_Set,
     co_Delete = (\<lambda>cx now. MemoryCache_Delete cx), co_Invalidate = (\<lambda>cx now. MemoryCache_Invalidate cx)\<rparr>"

definition memoryHeld :: "MemoryCache \<Rightarrow> TenantID \<Rightarrow> Tenant set" where
  "memoryHeld c tid = set_option (map_option ce_tenant (map_of (mc_entries c) tid))"

definition cache_inv :: "MemoryCache \<Rightarrow> bool" where
  "cache_inv c \<longleftrightarrow> keyed_map (\<lambda>e. tn_ID (ce_tenant e)) (mc_entries c)
     \<and> map_of (mc_entries c) [] = None
     \<and> (0 < mc_maxEntries c \<longrightarrow> int (length (mc_entries c)) \<le> mc_maxEntries c)"

lemma length_dom: "wf_map m \<Longrightarrow> length m = card (dom (map_of m))"
  using distinct_card [of "map fst m"] by (simp add: dom_map_of_conv_image_fst)

lemma wf_map_filter [simp]: "wf_map m \<Longrightarrow> wf_map (filter P m)"
  by (induction m) (auto simp: image_iff)

lemma map_of_filter_Some: "wf_map m \<Longrightarrow> map_of (filter P m) k = Some v \<longleftrightarrow> map_of m k = Some v \<and> P (k, v)"
  by (simp add: map_of_eq_Some_iff)

lemma keyed_map_filter: "keyed_map key m \<Longrightarrow> keyed_map key (filter P m)"
  by (simp add: keyed_map_def map_of_filter_Some)

lemma oldestEntry_from:
  "k \<noteq> [] \<Longrightarrow> \<forall>(tid, entry)\<in>set m. tid \<noteq> [] \<Longrightarrow>
     \<exists>created. (oldestEntry k t m = k \<and> created = t
          \<or> (\<exists>entry. (oldestEntry k t m, entry) \<in> set m \<and> created = ce_createdAt entry))
       \<and> created \<le> t \<and> (\<forall>(tid, entry)\<in>set m. created \<le> ce_createdAt entry)"
proof (induction k t m rule: oldestEntry.induct)
  case (2 k t tid entry m)
  have m: "tid \<noteq> []" "\<forall>(tid, entry)\<in>set m. tid \<noteq> []" using 2(4) by auto
  show ?case
  proof (cases "ce_createdAt entry < t")
    case True
    obtain created where "oldestEntry tid (ce_createdAt entry) m = tid \<and> created = ce_createdAt entry
        \<or> (\<exists>e. (oldestEntry tid (ce_createdAt entry) m, e) \<in> set m \<and> created = ce_createdAt e)"
      "created \<le> ce_createdAt entry" "\<forall>(tid, e)\<in>set m. created \<le> ce_createdAt e"
      using 2(1) True m by blast
    then show ?thesis using True by (intro exI [of _ created]) auto
  next
    case False
    obtain created where "oldestEntry k t m = k \<and> created = t
        \<or> (\<exists>e. (oldestEntry k t m, e) \<in> set m \<and> created = ce_createdAt e)"
      "created \<le> t" "\<forall>(tid, e)\<in>set m. created \<le> ce_createdAt e"
      using 2(2) 2(3) False m by blast
    then show ?thesis using False 2(3) by (intro exI [of _ created]) auto
  qed
qed simp

text \<open>The victim is an entry no other entry is older than.\<close>

lemma evictOldest_victim:
  assumes "wf_map (mc_entries c)" "\<forall>(tid, entry)\<in>set (mc_entries c). tid \<noteq> []" "mc_entries c \<noteq> []"
  obtains tid entry where "(tid, entry) \<in> set (mc_entries c)"
    "mc_entries (evictOldestLocked c) = AList.delete tid (mc_entries c)"
    "\<forall>(tid', entry')\<in>set (mc_entries c). ce_createdAt entry \<le> ce_createdAt entry'"
proof -
  obtain k e m where m: "mc_entries c = (k, e) # m" using assms(3) by (cases "mc_entries c") auto
  let ?o = "oldestEntry k (ce_createdAt e) m"
  have ids: "k \<noteq> []" "\<forall>(tid, entry)\<in>set m. tid \<noteq> []" using assms(2) m by auto
  from oldestEntry_from [OF this, of "ce_createdAt e"] obtain created where
    "?o = k \<and> created = ce_createdAt e \<or> (\<exists>entry. (?o, entry) \<in> set m \<and> created = ce_createdAt entry)"
    "created \<le> ce_createdAt e" "\<forall>(tid', entry')\<in>set m. created \<le> ce_createdAt entry'" by blast
  then have created: "\<exists>entry. (?o, entry) \<in> set (mc_entries c) \<and> created = ce_createdAt entry"
    "\<forall>(tid', entry')\<in>set (mc_entries c). created \<le> ce_createdAt entry'"
    using m by auto
  then obtain entry where entry: "(?o, entry) \<in> set (mc_entries c)" "created = ce_createdAt entry" by blast
  moreover have "?o \<noteq> []" using entry(1) assms(2) by blast
  then have "mc_entries (evictOldestLocked c) = AList.delete ?o (mc_entries c)"
    using m by (simp add: evictOldestLocked_def)
  ultimately show thesis using that created(2) by blast
qed

definition roomFor :: "Time \<Rightarrow> TenantID \<Rightarrow> MemoryCache \<Rightarrow> MemoryCache" where
  "roomFor now tid c =
     (let c1 = (if cacheFull tid c then evictExpiredLocked now c else c)
      in if cacheFull tid c1 then evictOldestLocked c1 else c1)"

lemma evicted_max [simp]:
  "mc_maxEntries (evictExpiredLocked now c) = mc_maxEntries c"
  "mc_maxEntries (evictOldestLocked c) = mc_maxEntries c"
  by (simp_all add: evictExpiredLocked_def evictOldestLocked_def Let_def)

lemma cache_inv_shrink:
  assumes "cache_inv c" "keyed_map (\<lambda>e. tn_ID (ce_tenant e)) (mc_entries c')"
    "map_of (mc_entries c') \<subseteq>\<^sub>m map_of (mc_entries c)" "length (mc_entries c') \<le> length (mc_entries c)"
    "mc_maxEntries c' = mc_maxEntries c"
  shows "cache_inv c'"
proof -
  have "map_of (mc_entries c') [] = None"
    using assms(1,3) by (metis cache_inv_def domIff map_le_def)
  then show ?thesis using assms by (auto simp: cache_inv_def)
qed

lemma evictExpired_inv:
  assumes "cache_inv c"
  shows "map_of (mc_entries (evictExpiredLocked now c)) \<subseteq>\<^sub>m map_of (mc_entries c)"
    and "cache_inv (evictExpiredLocked now c)"
proof -
  have keyed: "keyed_map (\<lambda>e. tn_ID (ce_tenant e)) (mc_entries c)" using assms by (simp add: cache_inv_def)
  then show sub: "map_of (mc_entries (evictExpiredLocked now c)) \<subseteq>\<^sub>m map_of (mc_entries c)"
    by (auto simp: evictExpiredLocked_def map_le_def map_of_filter_Some keyed_map_def)
  show "cache_inv (evictExpiredLocked now c)"
    by (rule cache_inv_shrink [OF assms _ sub]) (use keyed keyed_map_filter in \<open>simp_all add: evictExpiredLocked_def\<close>)
qed

lemma evictOldest_inv:
  assumes "cache_inv c"
  shows "map_of (mc_entries (evictOldestLocked c)) \<subseteq>\<^sub>m map_of (mc_entries c)"
    and "cache_inv (evictOldestLocked c)"
    and "mc_entries c \<noteq> [] \<Longrightarrow> length (mc_entries (evictOldestLocked c)) < length (mc_entries c)"
proof -
  show sub: "map_of (mc_entries (evictOldestLocked c)) \<subseteq>\<^sub>m map_of (mc_entries c)"
    by (auto simp: evictOldestLocked_def Let_def map_le_def)
  have "keyed_map (\<lambda>e. tn_ID (ce_tenant e)) (mc_entries (evictOldestLocked c))"
    using assms by (simp add: evictOldestLocked_def Let_def cache_inv_def keyed_map_delete)
  moreover have "length (mc_entries (evictOldestLocked c)) \<le> length (mc_entries c)"
    by (simp add: evictOldestLocked_def Let_def AList.delete_eq)
  ultimately show "cache_inv (evictOldestLocked c)"
    using cache_inv_shrink [OF assms _ sub] by simp
  assume ne: "mc_entries c \<noteq> []"
  have "wf_map (mc_entries c)" "\<forall>(tid, entry)\<in>set (mc_entries c). tid \<noteq> []"
    using assms by (simp_all add: cache_inv_def keyed_map_def map_of_eq_None_iff) force
  then obtain tid entry where victim: "(tid, entry) \<in> set (mc_entries c)"
    "mc_entries (evictOldestLocked c) = AList.delete tid (mc_entries c)"
    using evictOldest_victim ne by metis
  then show "length (mc_entries (evictOldestLocked c)) < length (mc_entries c)"
    unfolding victim(2) AList.delete_eq by (intro length_filter_less) auto
qed

lemma roomFor_inv:
  assumes "cache_inv c"
  shows "map_of (mc_entries (roomFor now tid c)) \<subseteq>\<^sub>m map_of (mc_entries c)"
    and "cache_inv (roomFor now tid c)" and "\<not> cacheFull tid (roomFor now tid c)"
    and "mc_maxEntries (roomFor now tid c) = mc_maxEntries c"
    and "mc_maxEntries c \<le> 0 \<Longrightarrow> roomFor now tid c = c"
proof -
  define c1 where "c1 = (if cacheFull tid c then evictExpiredLocked now c else c)"
  have c1: "map_of (mc_entries c1) \<subseteq>\<^sub>m map_of (mc_entries c)" "cache_inv c1" "mc_maxEntries c1 = mc_maxEntries c"
    using assms evictExpired_inv by (simp_all add: c1_def)
  have room: "roomFor now tid c = (if cacheFull tid c1 then evictOldestLocked c1 else c1)"
    by (simp add: roomFor_def c1_def Let_def)
  show "map_of (mc_entries (roomFor now tid c)) \<subseteq>\<^sub>m map_of (mc_entries c)"
    "cache_inv (roomFor now tid c)" "mc_maxEntries (roomFor now tid c) = mc_maxEntries c"
    using c1 evictOldest_inv [of c1] map_le_trans unfolding room by auto
  have "\<not> cacheFull tid (evictOldestLocked c1)" if full: "cacheFull tid c1"
  proof -
    have "mc_entries c1 \<noteq> []" using full by (auto simp: cacheFull_def)
    then have "int (length (mc_entries (evictOldestLocked c1))) < int (length (mc_entries c1))"
      using evictOldest_inv(3) [OF c1(2)] by simp
    moreover have "int (length (mc_entries c1)) \<le> mc_maxEntries c1"
      using c1(2) full by (simp add: cache_inv_def cacheFull_def)
    ultimately show ?thesis by (simp add: cacheFull_def)
  qed
  then show "\<not> cacheFull tid (roomFor now tid c)" unfolding room by simp
  show "mc_maxEntries c \<le> 0 \<Longrightarrow> roomFor now tid c = c"
    by (simp add: roomFor_def cacheFull_def Let_def)
qed

lemma length_update: "wf_map m \<Longrightarrow> length (AList.update k v m) = (if map_of m k = None then Suc (length m) else length m)"
  by (simp add: length_dom domIff insert_absorb card_insert_if finite_dom_map_of)

text \<open>The operations keep the invariant, and a cache never holds what was not set.\<close>

lemma MemoryCache_Set_eq:
  "MemoryCache_Set cx now t ttl c =
     (case tenantCtx cx of Inl e \<Rightarrow> (Inl e, c) | Inr _ \<Rightarrow> (case validateTenant t of Inl e \<Rightarrow> (Inl e, c) | Inr _ \<Rightarrow>
        (Inr (), (roomFor now (tn_ID t) c)\<lparr>mc_entries := AList.update (tn_ID t)
           \<lparr>ce_tenant = t, ce_createdAt = now, ce_expiresAt = (if 0 < ttl then now + ttl else 0)\<rparr>
           (mc_entries (roomFor now (tn_ID t) c))\<rparr>)))"
  by (simp add: MemoryCache_Set_def roomFor_def Let_def on_ok_def split: sum.splits)

lemma put_inv:
  assumes "cache_inv c" "\<not> cacheFull tid c" "tid \<noteq> []" "tn_ID (ce_tenant entry) = tid"
  shows "cache_inv (c\<lparr>mc_entries := AList.update tid entry (mc_entries c)\<rparr>)"
proof -
  have "wf_map (mc_entries c)" using assms(1) by (simp add: cache_inv_def keyed_map_def)
  then show ?thesis
    using assms by (auto simp: cache_inv_def keyed_map_update length_update cacheFull_def)
qed

lemma cache_op_inv:
  assumes "cache_inv c"
  shows "cache_inv (snd (MemoryCache_Get cx now tid c))" "cache_inv (snd (MemoryCache_Set cx now t ttl c))"
    "cache_inv (snd (MemoryCache_Delete cx tid c))" "cache_inv (snd (MemoryCache_Invalidate cx c))"
proof -
  have del: "cache_inv (c\<lparr>mc_entries := AList.delete tid (mc_entries c)\<rparr>)" for tid
    by (rule cache_inv_shrink [OF assms])
      (use assms in \<open>simp_all add: cache_inv_def keyed_map_delete map_le_def length_delete_le\<close>)
  then show "cache_inv (snd (MemoryCache_Get cx now tid c))" "cache_inv (snd (MemoryCache_Delete cx tid c))"
    using assms by (auto simp: MemoryCache_Get_def MemoryCache_Delete_def on_ok_def split: sum.splits option.splits)
  show "cache_inv (snd (MemoryCache_Invalidate cx c))"
    using assms by (auto simp: MemoryCache_Invalidate_def on_ok_def cache_inv_def split: sum.splits)
  show "cache_inv (snd (MemoryCache_Set cx now t ttl c))"
    using put_inv [OF roomFor_inv(2,3) [OF assms]] validateTenant_key [of t] assms
    by (auto simp: MemoryCache_Set_eq split: sum.splits)
qed

lemma memoryHeld_le: "map_of (mc_entries c') \<subseteq>\<^sub>m map_of (mc_entries c) \<Longrightarrow> memoryHeld c' k \<subseteq> memoryHeld c k"
  by (auto simp: memoryHeld_def map_le_def dom_def)

interpretation memory_cache: tenant_cache memoryCacheOps cache_inv memoryHeld
proof (unfold_locales, goal_cases)
  case (1 c cx now tid found c' k)
  then show ?case using cache_op_inv(1) [OF 1(1), of cx now tid]
    by (auto simp: memoryCacheOps_def MemoryCache_Get_def on_ok_def memoryHeld_def split: sum.splits option.splits if_splits)
next
  case (2 c cx now tid t c')
  then show ?case
    by (auto simp: memoryCacheOps_def MemoryCache_Get_def on_ok_def memoryHeld_def split: sum.splits option.splits if_splits)
next
  case (3 c cx now t ttl r c' k)
  have "memoryHeld (roomFor now (tn_ID t) c) k \<subseteq> memoryHeld c k"
    using roomFor_inv(1) [OF 3(1)] by (rule memoryHeld_le)
  then show ?case using 3 cache_op_inv(2) [OF 3(1), of cx now t ttl]
    by (auto simp: memoryCacheOps_def MemoryCache_Set_eq memoryHeld_def split: sum.splits if_splits)
next
  case (4 c cx now t ttl u c')
  then show ?case by (auto simp: memoryCacheOps_def MemoryCache_Set_eq memoryHeld_def split: sum.splits)
next
  case (5 c cx now tid r c' k)
  then show ?case using cache_op_inv(3) [OF 5(1), of cx tid]
    by (auto simp: memoryCacheOps_def MemoryCache_Delete_def on_ok_def memoryHeld_def split: sum.splits if_splits)
next
  case (6 c cx now tid u c')
  then show ?case
    by (auto simp: memoryCacheOps_def MemoryCache_Delete_def on_ok_def memoryHeld_def split: sum.splits if_splits)
next
  case (7 c cx now r c' k)
  then show ?case using cache_op_inv(4) [OF 7(1), of cx]
    by (auto simp: memoryCacheOps_def MemoryCache_Invalidate_def on_ok_def memoryHeld_def split: sum.splits)
next
  case (8 c cx now u c' k)
  then show ?case by (auto simp: memoryCacheOps_def MemoryCache_Invalidate_def on_ok_def memoryHeld_def split: sum.splits)
qed

section \<open>What a cache answers\<close>

datatype cacheCall = CacheGet TenantID | CacheSet Tenant Duration | CacheDelete TenantID | CacheInvalidate

fun cacheExec :: "ctx \<times> Time \<times> cacheCall \<Rightarrow> MemoryCache \<Rightarrow> MemoryCache" where
  "cacheExec (cx, now, CacheGet tid) c = snd (MemoryCache_Get cx now tid c)"
| "cacheExec (cx, now, CacheSet t ttl) c = snd (MemoryCache_Set cx now t ttl c)"
| "cacheExec (cx, now, CacheDelete tid) c = snd (MemoryCache_Delete cx tid c)"
| "cacheExec (cx, now, CacheInvalidate) c = snd (MemoryCache_Invalidate cx c)"

text \<open>The specification: the tenant last set for an identifier and not removed since, with the
  instant it expires at.\<close>

fun lastSet :: "ctx \<times> Time \<times> cacheCall \<Rightarrow> (TenantID \<rightharpoonup> Tenant \<times> Time) \<Rightarrow> (TenantID \<rightharpoonup> Tenant \<times> Time)" where
  "lastSet (cx, now, CacheGet tid) m = m"
| "lastSet (cx, now, CacheSet t ttl) m =
     (if cx = None \<and> validateTenant t = Inr ()
      then m(tn_ID t \<mapsto> (t, if 0 < ttl then now + ttl else 0)) else m)"
| "lastSet (cx, now, CacheDelete tid) m = (if cx = None then m(tid := None) else m)"
| "lastSet (cx, now, CacheInvalidate) m = (if cx = None then Map.empty else m)"

definition entryOf :: "cacheEntry \<Rightarrow> Tenant \<times> Time" where
  "entryOf entry = (ce_tenant entry, ce_expiresAt entry)"

definition cacheView :: "MemoryCache \<Rightarrow> TenantID \<rightharpoonup> Tenant \<times> Time" where
  "cacheView c tid = map_option entryOf (map_of (mc_entries c) tid)"

lemma cacheView_le: "map_of (mc_entries c') \<subseteq>\<^sub>m map_of (mc_entries c) \<Longrightarrow> cacheView c' \<subseteq>\<^sub>m cacheView c"
  by (auto simp: cacheView_def map_le_def dom_def)

lemma exec_view:
  assumes "cache_inv c" "cacheView c \<subseteq>\<^sub>m m"
  shows "cacheView (cacheExec op c) \<subseteq>\<^sub>m lastSet op m"
proof -
  obtain cx now call where op: "op = (cx, now, call)" by (cases op)
  have m: "cacheView c tid = Some x \<Longrightarrow> m tid = Some x" for tid x
    using assms(2) by (metis domI map_le_def)
  have room: "map_of (mc_entries (roomFor now tid c)) k = Some e \<Longrightarrow> m k = Some (entryOf e)" for tid k e
    using roomFor_inv(1) [OF assms(1), of now tid] m [of k] by (auto simp: cacheView_def map_le_def dom_def)
  have none: "cacheView c [] = None" using assms(1) by (simp add: cacheView_def cache_inv_def)
  show ?thesis
  proof (cases call)
    case (CacheGet tid)
    then show ?thesis using op m
      by (auto simp: MemoryCache_Get_def on_ok_def map_le_def cacheView_def split: sum.splits option.splits)
  next
    case (CacheSet t ttl)
    have "validateTenant t = Inr u \<Longrightarrow> u = ()" for u by simp
    then show ?thesis using op m room CacheSet
      by (auto simp: MemoryCache_Set_eq map_le_def cacheView_def entryOf_def tenantCtx_def split: sum.splits option.splits)
  next
    case (CacheDelete tid)
    then show ?thesis using op m none
      by (auto simp: MemoryCache_Delete_def on_ok_def map_le_def cacheView_def tenantCtx_def split: sum.splits option.splits)
  next
    case CacheInvalidate
    then show ?thesis using op m
      by (auto simp: MemoryCache_Invalidate_def on_ok_def map_le_def cacheView_def tenantCtx_def split: sum.splits option.splits)
  qed
qed

lemma exec_max [simp]: "mc_maxEntries (cacheExec op c) = mc_maxEntries c"
proof -
  have "mc_maxEntries (roomFor now tid c) = mc_maxEntries c" for now tid
    by (simp add: roomFor_def Let_def)
  then show ?thesis
    by (cases "(op, c)" rule: cacheExec.cases)
      (auto simp: MemoryCache_Get_def MemoryCache_Set_eq MemoryCache_Delete_def MemoryCache_Invalidate_def on_ok_def
        split: sum.splits option.splits)
qed

text \<open>Without a bound only an expired entry is missing.\<close>

definition onlyExpired :: "Time \<Rightarrow> MemoryCache \<Rightarrow> (TenantID \<rightharpoonup> Tenant \<times> Time) \<Rightarrow> bool" where
  "onlyExpired now c m \<longleftrightarrow>
     (\<forall>tid t expires. m tid = Some (t, expires) \<longrightarrow> tid \<noteq> [] \<and> (cacheView c tid = Some (t, expires) \<or> (expires \<noteq> 0 \<and> expires \<le> now)))"

lemma exec_complete:
  assumes "mc_maxEntries c = 0" "onlyExpired t0 c m" "t0 \<le> now"
  shows "onlyExpired now (cacheExec (cx, now, call) c) (lastSet (cx, now, call) m)"
proof -
  have room: "roomFor now tid c = c" for tid using assms(1) by (simp add: roomFor_def cacheFull_def Let_def)
  have c: "tid \<noteq> [] \<and> (cacheView c tid = Some (t, expires) \<or> (expires \<noteq> 0 \<and> expires \<le> now))"
    if "m tid = Some (t, expires)" for tid t expires
    using assms(2,3) that unfolding onlyExpired_def by fastforce
  show ?thesis
  proof (cases call)
    case (CacheGet tid)
    then show ?thesis using c
      by (fastforce simp: onlyExpired_def MemoryCache_Get_def on_ok_def cacheView_def expiredAt_def IsZero_def entryOf_def
          split: sum.splits option.splits)
  next
    case (CacheSet t ttl)
    then show ?thesis using c validateTenant_key [of t] room
      by (auto simp: onlyExpired_def MemoryCache_Set_eq cacheView_def entryOf_def tenantCtx_def split: sum.splits option.splits)
  next
    case (CacheDelete tid)
    then show ?thesis using c
      by (auto simp: onlyExpired_def MemoryCache_Delete_def on_ok_def cacheView_def tenantCtx_def split: sum.splits option.splits)
  next
    case CacheInvalidate
    then show ?thesis using c
      by (auto simp: onlyExpired_def MemoryCache_Invalidate_def on_ok_def cacheView_def tenantCtx_def split: sum.splits option.splits)
  qed
qed

lemma runs_inv:
  "cache_inv c \<Longrightarrow> cacheView c \<subseteq>\<^sub>m m \<Longrightarrow> cache_inv (fold cacheExec calls c) \<and> cacheView (fold cacheExec calls c) \<subseteq>\<^sub>m fold lastSet calls m"
proof (induction calls arbitrary: c m)
  case (Cons call calls)
  have "cache_inv (cacheExec call c)"
    using cache_op_inv [OF Cons(2)] by (cases "(call, c)" rule: cacheExec.cases) auto
  from Cons(1) [OF this exec_view [OF Cons(2,3)]] show ?case by simp
qed simp

lemma runs_complete:
  "mc_maxEntries c = 0 \<Longrightarrow> onlyExpired t0 c m \<Longrightarrow> sorted (t0 # map (\<lambda>(cx, now, call). now) calls @ [t]) \<Longrightarrow>
     onlyExpired t (fold cacheExec calls c) (fold lastSet calls m)"
proof (induction calls arbitrary: c m t0)
  case Nil
  then show ?case unfolding onlyExpired_def by fastforce
next
  case (Cons op calls)
  obtain cx now call where op: "op = (cx, now, call)" by (cases op)
  show ?case
    using Cons(1) [of "cacheExec op c" now "lastSet op m"] exec_complete [OF Cons(2,3), of now cx call] Cons(2,4) op
    by simp
qed

text \<open>
  A cache with room for \<open>maxEntries\<close> tenants holds at most that many. It answers a tenant only
  if that is what was last set for the identifier, was not removed since, and has not expired; and
  a cache without a bound, under a clock that does not go back, answers every such tenant.
\<close>

theorem memory_cache_exact:
  assumes "NewBoundedMemoryCache maxEntries = Inr c" "st = fold cacheExec calls c" "m = fold lastSet calls Map.empty"
  shows "(0 < maxEntries \<longrightarrow> int (length (mc_entries st)) \<le> maxEntries)
    \<and> (\<forall>cx now tid t. fst (MemoryCache_Get cx now tid st) = Inr (Some t) \<longrightarrow>
         (\<exists>expires. m tid = Some (t, expires) \<and> (expires = 0 \<or> now < expires)))
    \<and> (maxEntries = 0 \<longrightarrow> (\<forall>now tid t expires. sorted (map (\<lambda>(cx, now, call). now) calls @ [now]) \<longrightarrow>
         m tid = Some (t, expires) \<longrightarrow> expires = 0 \<or> now < expires \<longrightarrow>
         fst (MemoryCache_Get None now tid st) = Inr (Some t)))"
proof -
  have c: "c = \<lparr>mc_maxEntries = maxEntries, mc_entries = []\<rparr>"
    using assms(1) by (simp add: NewBoundedMemoryCache_def split: if_splits)
  have "cache_inv c" "cacheView c = Map.empty" by (auto simp: c cache_inv_def cacheView_def)
  then have st: "cache_inv st" "cacheView st \<subseteq>\<^sub>m m" using runs_inv [of c Map.empty calls] assms(2,3) by simp_all
  have "mc_maxEntries (fold cacheExec calls c') = mc_maxEntries c'" for c'
    by (induction calls arbitrary: c') simp_all
  then have max: "mc_maxEntries st = maxEntries" using assms(2) c by simp
  have "\<exists>expires. m tid = Some (t, expires) \<and> (expires = 0 \<or> now < expires)"
    if get: "fst (MemoryCache_Get cx now tid st) = Inr (Some t)" for cx now tid t
  proof -
    obtain entry where "map_of (mc_entries st) tid = Some entry" "\<not> expiredAt now entry" "t = ce_tenant entry"
      using get by (auto simp: MemoryCache_Get_def on_ok_def split: sum.splits option.splits if_splits)
    moreover from this have "m tid = Some (entryOf entry)"
      using st(2) by (auto simp: cacheView_def map_le_def dom_def)
    ultimately show ?thesis by (auto simp: entryOf_def expiredAt_def IsZero_def)
  qed
  moreover have "fst (MemoryCache_Get None now tid st) = Inr (Some t)"
    if "maxEntries = 0" "sorted (map (\<lambda>(cx, now, call). now) calls @ [now])" "m tid = Some (t, expires)"
      "expires = 0 \<or> now < expires" for now tid t expires
  proof -
    define t0 where "t0 = hd (map (\<lambda>(cx, now, call). now) calls @ [now])"
    have "sorted (t0 # map (\<lambda>(cx, now, call). now) calls @ [now])"
      using that(2) unfolding t0_def by (cases "map (\<lambda>(cx, now, call). now) calls @ [now]") auto
    then have "onlyExpired now st m"
      using runs_complete [of c t0 Map.empty calls now] that(1) assms(2,3) c by (simp add: onlyExpired_def)
    then have "tid \<noteq> []" "cacheView st tid = Some (t, expires)"
      using that(3,4) unfolding onlyExpired_def by fastforce+
    then show ?thesis using that(4)
      by (auto simp: MemoryCache_Get_def cacheView_def entryOf_def expiredAt_def IsZero_def)
  qed
  ultimately show ?thesis using st(1) max by (simp add: cache_inv_def)
qed

theorem memory_cache_exact_witness:
  "fst (MemoryCache_Get None 4 ''b'' (fold cacheExec
      [(None, 1, CacheSet (sampleTenant ''b'' TenantStatusActive) 5), (None, 2, CacheDelete ''a'')] NewMemoryCache))
    = Inr (Some (sampleTenant ''b'' TenantStatusActive))"
proof -
  let ?calls = "[(None, 1, CacheSet (sampleTenant ''b'' TenantStatusActive) 5), (None, 2, CacheDelete ''a'')]"
  have "NewBoundedMemoryCache 0 = Inr NewMemoryCache" by (simp add: NewMemoryCache_def NewBoundedMemoryCache_def)
  moreover have "fold lastSet ?calls Map.empty ''b'' = Some (sampleTenant ''b'' TenantStatusActive, 6)"
    by (simp add: sampleTenant_def validateTenant_def)
  ultimately show ?thesis using memory_cache_exact [of 0 NewMemoryCache _ ?calls] by fastforce
qed

end
