(* ===== verification/Cached_Store.thy ===== *)
theory Cached_Store
  imports Tenant_Cache Tenant_Guarantees "HOL-Library.Word"
begin

text \<open>
  The cached tenant store (\<open>core/store/cached.go\<close>). Goroutines share the source, the cache and the
  coordinator; an operation is a sequence of atomic sections: one call of the source, or one
  section under the coordinator's mutex. \<open>legacyMu\<close> makes the read and the write of the fallback
  for stores without a conditional replacement one section for all writers of the process.
\<close>

section \<open>Operations as sequences of atomic sections\<close>

text \<open>
  A section is marked when it is about to drop the cache entry of a tenant whose record in the
  source has been changed. An operation answers a tenant, if it reads, or nothing.
\<close>

datatype mark = Plain | Dropping TenantID

datatype ('a, 's) prog = Return 'a | Atomic mark "'s \<Rightarrow> ('a, 's) prog \<times> 's"

primrec runProg :: "('a, 's) prog \<Rightarrow> 's \<Rightarrow> 'a \<times> 's" where
  "runProg (Return a) = (\<lambda>w. (a, w))"
| "runProg (Atomic l f) = (\<lambda>w. case map_prod runProg id (f w) of (k, w') \<Rightarrow> k w')"

record coordinator =
  cc_generation :: "64 word"
  cc_poisoned :: "nat set"

record ('s, 'c) cachedWorld =
  cw_source :: 's
  cw_cache :: 'c
  cw_coord :: coordinator
  cw_ctx :: ctx
  cw_now :: Time

record ('s, 'c) CachedStore =
  cs_next :: "'s tenantOps"
  cs_cache :: "'c cacheOps"
  cs_ttl :: Duration
  cs_cacheID :: nat
  cs_cacheReads :: bool

text \<open>A cache with a stable identity is a non-nil pointer; \<open>pointer\<close> is its address.\<close>

definition NewCachedStore ::
  "'s tenantOps option \<Rightarrow> 'c cacheOps option \<Rightarrow> nat option \<Rightarrow> Duration \<Rightarrow> cache_error + ('s, 'c) CachedStore"
where
  "NewCachedStore next_store cache pointer ttl =
     (case next_store of None \<Rightarrow> Inl ErrNilStore | Some ops \<Rightarrow>
        (case cache of None \<Rightarrow> Inl ErrNilCache | Some c \<Rightarrow>
           (case pointer of
              None \<Rightarrow> Inr \<lparr>cs_next = ops, cs_cache = c, cs_ttl = ttl, cs_cacheID = 0, cs_cacheReads = False\<rparr>
            | Some p \<Rightarrow> Inr \<lparr>cs_next = ops, cs_cache = c, cs_ttl = ttl, cs_cacheID = p, cs_cacheReads = True\<rparr>)))"

section \<open>Sections under the coordinator's mutex\<close>

definition isPoisonedLocked :: "('s, 'c) CachedStore \<Rightarrow> coordinator \<Rightarrow> bool" where
  "isPoisonedLocked store coord \<longleftrightarrow> cs_cacheID store \<in> cc_poisoned coord"

definition poisonLocked :: "('s, 'c) CachedStore \<Rightarrow> coordinator \<Rightarrow> coordinator" where
  "poisonLocked store coord =
     (if cs_cacheID store \<in> cc_poisoned coord then coord
      else coord\<lparr>cc_poisoned := insert (cs_cacheID store) (cc_poisoned coord),
                 cc_generation := cc_generation coord + 1\<rparr>)"

definition clearPoisonLocked :: "('s, 'c) CachedStore \<Rightarrow> coordinator \<Rightarrow> coordinator" where
  "clearPoisonLocked store coord = coord\<lparr>cc_poisoned := cc_poisoned coord - {cs_cacheID store}\<rparr>"

definition nextGeneration :: "coordinator \<Rightarrow> coordinator" where
  "nextGeneration coord = coord\<lparr>cc_generation := cc_generation coord + 1\<rparr>"

definition recoverPoisonLocked ::
  "('s, 'c) CachedStore \<Rightarrow> ('s, 'c) cachedWorld \<Rightarrow> bool \<times> ('s, 'c) cachedWorld"
where
  "recoverPoisonLocked store w =
     (if \<not> isPoisonedLocked store (cw_coord w) then (True, w)
      else case co_Invalidate (cs_cache store) (cw_ctx w) (cw_now w) (cw_cache w) of
        (Inl _, c) \<Rightarrow> (False, w\<lparr>cw_cache := c\<rparr>)
      | (Inr _, c) \<Rightarrow>
          (True, w\<lparr>cw_cache := c, cw_coord := nextGeneration (clearPoisonLocked store (cw_coord w))\<rparr>))"

definition lookupCache ::
  "('s, 'c) CachedStore \<Rightarrow> TenantID \<Rightarrow> ('s, 'c) cachedWorld
     \<Rightarrow> (Tenant option \<times> 64 word) \<times> ('s, 'c) cachedWorld"
where
  "lookupCache store tid w =
     (case recoverPoisonLocked store w of
        (False, w1) \<Rightarrow> ((None, cc_generation (cw_coord w1)), w1)
      | (True, w1) \<Rightarrow>
          (case co_Get (cs_cache store) (cw_ctx w1) (cw_now w1) tid (cw_cache w1) of
             (Inr (Some tenant), c) \<Rightarrow> ((Some tenant, cc_generation (cw_coord w1)), w1\<lparr>cw_cache := c\<rparr>)
           | (_, c) \<Rightarrow> ((None, cc_generation (cw_coord w1)), w1\<lparr>cw_cache := c\<rparr>)))"

definition fillIfUnchanged ::
  "('s, 'c) CachedStore \<Rightarrow> Tenant \<Rightarrow> 64 word \<Rightarrow> ('s, 'c) cachedWorld \<Rightarrow> ('s, 'c) cachedWorld"
where
  "fillIfUnchanged store tenant generation w =
     (if \<not> cs_cacheReads store then w
      else if generation \<noteq> cc_generation (cw_coord w) \<or> isPoisonedLocked store (cw_coord w) then w
      else case co_Set (cs_cache store) (cw_ctx w) (cw_now w) tenant (cs_ttl store) (cw_cache w) of
        (Inr _, c) \<Rightarrow> w\<lparr>cw_cache := c\<rparr>
      | (Inl _, c) \<Rightarrow>
          (case co_Delete (cs_cache store) (cw_ctx w) (cw_now w) (tn_ID tenant) c of
             (Inr _, c') \<Rightarrow> w\<lparr>cw_cache := c'\<rparr>
           | (Inl _, c') \<Rightarrow> w\<lparr>cw_cache := c', cw_coord := poisonLocked store (cw_coord w)\<rparr>))"

definition invalidate ::
  "('s, 'c) CachedStore \<Rightarrow> TenantID \<Rightarrow> ('s, 'c) cachedWorld \<Rightarrow> 64 word \<times> ('s, 'c) cachedWorld"
where
  "invalidate store tid w =
     (if \<not> cs_cacheReads store then (0, w)
      else let coord = nextGeneration (cw_coord w) in
        if isPoisonedLocked store coord then
          (case co_Invalidate (cs_cache store) (cw_ctx w) (cw_now w) (cw_cache w) of
             (Inr _, c) \<Rightarrow> (cc_generation coord, w\<lparr>cw_cache := c, cw_coord := clearPoisonLocked store coord\<rparr>)
           | (Inl _, c) \<Rightarrow> (cc_generation coord, w\<lparr>cw_cache := c, cw_coord := coord\<rparr>))
        else
          (case co_Delete (cs_cache store) (cw_ctx w) (cw_now w) tid (cw_cache w) of
             (Inr _, c) \<Rightarrow> (cc_generation coord, w\<lparr>cw_cache := c, cw_coord := coord\<rparr>)
           | (Inl _, c) \<Rightarrow>
               (cc_generation (poisonLocked store coord),
                w\<lparr>cw_cache := c, cw_coord := poisonLocked store coord\<rparr>)))"

section \<open>The operations\<close>

type_synonym ('s, 'c) cachedProg = "(tenant_error + Tenant option, ('s, 'c) cachedWorld) prog"

fun isTenantNotFound :: "tenant_error \<Rightarrow> bool" where
  "isTenantNotFound ErrTenantNotFound = True"
| "isTenantNotFound (ErrTenantJoined a b) = (isTenantNotFound a \<or> isTenantNotFound b)"
| "isTenantNotFound _ = False"

definition sourceGet :: "('s, 'c) CachedStore \<Rightarrow> TenantID \<Rightarrow> ('s, 'c) cachedWorld \<Rightarrow> tenant_error + Tenant" where
  "sourceGet store tid w = to_Get (cs_next store) (cw_ctx w) tid (cw_source w)"

text \<open>The last sections of an operation: a fill, or the removal of an entry.\<close>

definition fillAndReturn ::
  "('s, 'c) CachedStore \<Rightarrow> Tenant \<Rightarrow> 64 word \<Rightarrow> tenant_error + Tenant option \<Rightarrow> ('s, 'c) cachedProg"
where
  "fillAndReturn store tenant generation answer =
     Atomic Plain (\<lambda>w. (Return answer, fillIfUnchanged store tenant generation w))"

definition dropAndReturn ::
  "mark \<Rightarrow> ('s, 'c) CachedStore \<Rightarrow> TenantID \<Rightarrow> tenant_error + Tenant option \<Rightarrow> ('s, 'c) cachedProg"
where
  "dropAndReturn l store tid answer = Atomic l (\<lambda>w. (Return answer, snd (invalidate store tid w)))"

definition readSource ::
  "('s, 'c) CachedStore \<Rightarrow> TenantID \<Rightarrow> 64 word \<Rightarrow> ('s, 'c) cachedProg"
where
  "readSource store tid generation =
     Atomic Plain (\<lambda>w. case sourceGet store tid w of
        Inl e \<Rightarrow> (if isTenantNotFound e then dropAndReturn Plain store tid (Inl e) else Return (Inl e), w)
      | Inr tenant \<Rightarrow> (fillAndReturn store tenant generation (Inr (Some tenant)), w))"

definition Cached_Get :: "('s, 'c) CachedStore \<Rightarrow> TenantID \<Rightarrow> ('s, 'c) cachedProg" where
  "Cached_Get store tid =
     (if \<not> cs_cacheReads store then Atomic Plain (\<lambda>w. (Return (map_sum id Some (sourceGet store tid w)), w))
      else Atomic Plain (\<lambda>w. case lookupCache store tid w of
        ((Some tenant, generation), w1) \<Rightarrow> (Return (Inr (Some tenant)), w1)
      | ((None, generation), w1) \<Rightarrow> (readSource store tid generation, w1)))"

definition refillCurrent :: "('s, 'c) CachedStore \<Rightarrow> TenantID \<Rightarrow> 64 word \<Rightarrow> ('s, 'c) cachedProg" where
  "refillCurrent store tid generation =
     (if \<not> cs_cacheReads store then Return (Inr None)
      else Atomic Plain (\<lambda>w. case sourceGet store tid w of
        Inl _ \<Rightarrow> (Return (Inr None), w)
      | Inr tenant \<Rightarrow> (fillAndReturn store tenant generation (Inr None), w)))"

text \<open>What \<open>Create\<close>, \<open>Update\<close> and \<open>CompareAndSwap\<close> do once the source has the tenant.\<close>

definition refresh :: "('s, 'c) CachedStore \<Rightarrow> TenantID \<Rightarrow> ('s, 'c) cachedProg" where
  "refresh store tid =
     Atomic (Dropping tid) (\<lambda>w. case invalidate store tid w of
        (generation, w1) \<Rightarrow> (refillCurrent store tid generation, w1))"

text \<open>One call that changes the source, and how the operation goes on.\<close>

definition mutateSource ::
  "(('s, 'c) cachedWorld \<Rightarrow> (tenant_error + unit) \<times> 's) \<Rightarrow> (tenant_error \<Rightarrow> ('s, 'c) cachedProg)
     \<Rightarrow> ('s, 'c) cachedProg \<Rightarrow> ('s, 'c) cachedProg"
where
  "mutateSource mutate failed succeeded =
     Atomic Plain (\<lambda>w. case mutate w of
        (Inl e, s) \<Rightarrow> (failed e, w\<lparr>cw_source := s\<rparr>)
      | (Inr _, s) \<Rightarrow> (succeeded, w\<lparr>cw_source := s\<rparr>))"

definition Cached_Create :: "('s, 'c) CachedStore \<Rightarrow> Tenant \<Rightarrow> ('s, 'c) cachedProg" where
  "Cached_Create store tenant =
     mutateSource (\<lambda>w. to_Create (cs_next store) (cw_ctx w) tenant (cw_source w))
       (\<lambda>e. Return (Inl e)) (refresh store (tn_ID tenant))"

definition Cached_Update :: "('s, 'c) CachedStore \<Rightarrow> Tenant \<Rightarrow> ('s, 'c) cachedProg" where
  "Cached_Update store tenant =
     mutateSource (\<lambda>w. to_Update (cs_next store) (cw_ctx w) tenant (cw_source w))
       (\<lambda>e. Return (Inl e)) (refresh store (tn_ID tenant))"

definition compareAndSwapLegacy ::
  "('s, 'c) CachedStore \<Rightarrow> Tenant \<Rightarrow> Tenant \<Rightarrow> ('s, 'c) cachedWorld \<Rightarrow> (tenant_error + unit) \<times> 's"
where
  "compareAndSwapLegacy store expected updated w =
     on_ok (sourceGet store (tn_ID expected) w) (cw_source w) (\<lambda>current.
       if \<not> tenantsEqual current expected then fails ErrTenantConflict (cw_source w)
       else to_Update (cs_next store) (cw_ctx w) updated (cw_source w))"

definition Cached_CompareAndSwap :: "('s, 'c) CachedStore \<Rightarrow> Tenant \<Rightarrow> Tenant \<Rightarrow> ('s, 'c) cachedProg" where
  "Cached_CompareAndSwap store expected updated =
     mutateSource (\<lambda>w. case to_CAS (cs_next store) of
          Some cas \<Rightarrow> cas (cw_ctx w) expected updated (cw_source w)
        | None \<Rightarrow> compareAndSwapLegacy store expected updated w)
       (\<lambda>e. if isConflict e \<or> isTenantNotFound e then dropAndReturn Plain store (tn_ID expected) (Inl e)
            else Return (Inl e))
       (refresh store (tn_ID updated))"

definition Cached_Delete :: "('s, 'c) CachedStore \<Rightarrow> TenantID \<Rightarrow> ('s, 'c) cachedProg" where
  "Cached_Delete store tid =
     mutateSource (\<lambda>w. to_Delete (cs_next store) (cw_ctx w) tid (cw_source w))
       (\<lambda>e. if isTenantNotFound e then dropAndReturn Plain store tid (Inl e) else Return (Inl e))
       (dropAndReturn (Dropping tid) store tid (Inr None))"

end
