(* ===== verification/Cached_Coherence.thy ===== *)
theory Cached_Coherence
  imports Cached_Store
begin

text \<open>
  Coherence of the cached store: under any interleaving of operations, with failing cache calls,
  expiring entries and contexts cancelled at any point, the cache holds nothing but the current
  record of a tenant, unless a change of this tenant has not yet dropped its entry.
\<close>

section \<open>Interleaving\<close>

text \<open>
  The goroutines take turns, one section each. Between the sections entries may disappear from the
  cache, contexts and the clock may answer anything, and operations on other caches that share the
  coordinator may move its generation and poison these caches.
\<close>

type_synonym ('s, 'c) system = "('s, 'c) cachedProg list \<times> ('s, 'c) cachedWorld"

definition worldMoves ::
  "nat \<Rightarrow> ('c \<Rightarrow> bool) \<Rightarrow> ('c \<Rightarrow> TenantID \<Rightarrow> Tenant set) \<Rightarrow> ('s, 'c) cachedWorld \<Rightarrow> ('s, 'c) cachedWorld \<Rightarrow> bool"
where
  "worldMoves cacheID ok held w w' \<longleftrightarrow>
     cw_source w' = cw_source w \<and> ok (cw_cache w') \<and> (\<forall>tid. held (cw_cache w') tid \<subseteq> held (cw_cache w) tid)
     \<and> (cacheID \<in> cc_poisoned (cw_coord w') \<longleftrightarrow> cacheID \<in> cc_poisoned (cw_coord w))
     \<and> (cc_generation (cw_coord w') = cc_generation (cw_coord w)
        \<or> cc_generation (cw_coord w') = cc_generation (cw_coord w) + 1)"

inductive systemSteps ::
  "nat \<Rightarrow> ('c \<Rightarrow> bool) \<Rightarrow> ('c \<Rightarrow> TenantID \<Rightarrow> Tenant set) \<Rightarrow> nat \<Rightarrow> ('s, 'c) system \<Rightarrow> ('s, 'c) system \<Rightarrow> bool"
  for cacheID ok held
where
  stay: "systemSteps cacheID ok held 0 st st"
| section_run: "systemSteps cacheID ok held n st (ps, w) \<Longrightarrow> i < length ps \<Longrightarrow> ps ! i = Atomic l f \<Longrightarrow> f w = (p, w') \<Longrightarrow>
    systemSteps cacheID ok held (Suc n) st (ps[i := p], w')"
| world_moves: "systemSteps cacheID ok held n st (ps, w) \<Longrightarrow> worldMoves cacheID ok held w w' \<Longrightarrow>
    systemSteps cacheID ok held (Suc n) st (ps, w')"

definition dropping :: "('s, 'c) cachedProg list \<Rightarrow> TenantID \<Rightarrow> bool" where
  "dropping ps tid \<longleftrightarrow> (\<exists>f. Atomic (Dropping tid) f \<in> set ps)"

text \<open>The operations as they begin.\<close>

datatype cachedCall =
  CallGet TenantID | CallCreate Tenant | CallUpdate Tenant | CallCompareAndSwap Tenant Tenant | CallDelete TenantID

fun startCall :: "('s, 'c) CachedStore \<times> cachedCall \<Rightarrow> ('s, 'c) cachedProg" where
  "startCall (store, CallGet tid) = Cached_Get store tid"
| "startCall (store, CallCreate t) = Cached_Create store t"
| "startCall (store, CallUpdate t) = Cached_Update store t"
| "startCall (store, CallCompareAndSwap expected updated) = Cached_CompareAndSwap store expected updated"
| "startCall (store, CallDelete tid) = Cached_Delete store tid"

section \<open>The store behind the cache\<close>

text \<open>
  What the cached store relies on: a read answers the record of the identifier it asks for, and a
  change that fails changes nothing, one that succeeds only the record it is about.
\<close>

locale tenant_source =
  fixes ops :: "'s tenantOps"
    and ok :: "'s \<Rightarrow> bool"
    and view :: "'s \<Rightarrow> tenantMap"
  assumes source_get: "ok s \<Longrightarrow> to_Get ops cx tid s = Inr t \<Longrightarrow> view s tid = Some t \<and> tn_ID t = tid"
    and source_create: "ok s \<Longrightarrow> to_Create ops cx t s = (r, s') \<Longrightarrow> ok s' \<and>
      (case r of Inl _ \<Rightarrow> view s' = view s | Inr _ \<Rightarrow> (\<forall>k. k \<noteq> tn_ID t \<longrightarrow> view s' k = view s k))"
    and source_update: "ok s \<Longrightarrow> to_Update ops cx t s = (r, s') \<Longrightarrow> ok s' \<and>
      (case r of Inl _ \<Rightarrow> view s' = view s | Inr _ \<Rightarrow> (\<forall>k. k \<noteq> tn_ID t \<longrightarrow> view s' k = view s k))"
    and source_cas: "ok s \<Longrightarrow> to_CAS ops = Some cas \<Longrightarrow> cas cx old t s = (r, s') \<Longrightarrow> ok s' \<and>
      (case r of Inl _ \<Rightarrow> view s' = view s | Inr _ \<Rightarrow> (\<forall>k. k \<noteq> tn_ID t \<longrightarrow> view s' k = view s k))"
    and source_delete: "ok s \<Longrightarrow> to_Delete ops cx tid s = (r, s') \<Longrightarrow> ok s' \<and>
      (case r of Inl _ \<Rightarrow> view s' = view s | Inr _ \<Rightarrow> (\<forall>k. k \<noteq> tid \<longrightarrow> view s' k = view s k))"

locale cached_source = tenant_source ops sok view + tenant_cache cops cok held
  for ops :: "'s tenantOps" and sok view and cops :: "'c cacheOps" and cok and held +
  fixes cacheID :: nat
begin

definition sharing :: "('s, 'c) CachedStore \<Rightarrow> bool" where
  "sharing store \<longleftrightarrow> cs_next store = ops \<and> cs_cache store = cops \<and> cs_cacheID store = cacheID \<and> cs_cacheReads store"

definition poisoned :: "('s, 'c) cachedWorld \<Rightarrow> bool" where
  "poisoned w \<longleftrightarrow> cacheID \<in> cc_poisoned (cw_coord w)"

text \<open>
  What holds of a goroutine in the middle of an operation. \<open>N\<close> counts how often the generation
  moved: a fill whose generation is still current would write the current record.
\<close>

inductive midway :: "64 word \<Rightarrow> nat \<Rightarrow> ('s, 'c) cachedWorld \<Rightarrow> (TenantID \<Rightarrow> bool) \<Rightarrow> ('s, 'c) cachedProg \<Rightarrow> bool"
  for g N w pend
where
  at_return: "midway g N w pend (Return a)"
| at_start: "sharing store \<Longrightarrow> midway g N w pend (startCall (store, call))"
| at_read: "sharing store \<Longrightarrow> m \<le> N \<Longrightarrow> midway g N w pend (readSource store tid (g + of_nat m))"
| at_fill: "sharing store \<Longrightarrow> m \<le> N \<Longrightarrow>
    (m = N \<Longrightarrow> \<not> poisoned w \<Longrightarrow> view (cw_source w) (tn_ID t) = Some t \<or> pend (tn_ID t)) \<Longrightarrow>
    midway g N w pend (fillAndReturn store t (g + of_nat m) a)"
| at_drop: "sharing store \<Longrightarrow> l = Plain \<or> l = Dropping tid \<Longrightarrow> midway g N w pend (dropAndReturn l store tid a)"
| at_refresh: "sharing store \<Longrightarrow> midway g N w pend (refresh store tid)"
| at_refill: "sharing store \<Longrightarrow> m \<le> N \<Longrightarrow> midway g N w pend (refillCurrent store tid (g + of_nat m))"

definition coherent :: "64 word \<Rightarrow> nat \<Rightarrow> ('s, 'c) system \<Rightarrow> bool" where
  "coherent g N st \<longleftrightarrow> (case st of (ps, w) \<Rightarrow>
     sok (cw_source w) \<and> cok (cw_cache w) \<and> cc_generation (cw_coord w) = g + of_nat N
     \<and> (\<forall>p\<in>set ps. midway g N w (dropping ps) p)
     \<and> (\<not> poisoned w \<longrightarrow> (\<forall>tid t. t \<in> held (cw_cache w) tid \<longrightarrow>
          view (cw_source w) tid = Some t \<or> dropping ps tid)))"

text \<open>What the others' progress leaves of it.\<close>

lemma midway_later:
  assumes "midway g N w pend p" "N \<le> N'"
    "N' = N \<Longrightarrow> poisoned w' = poisoned w"
    "N' = N \<Longrightarrow> \<forall>k. (view (cw_source w') k = view (cw_source w) k \<or> pend' k) \<and> (pend k \<longrightarrow> pend' k)"
  shows "midway g N' w' pend' p"
  using assms(1)
proof cases
  case (at_fill store m t a)
  have "view (cw_source w') (tn_ID t) = Some t \<or> pend' (tn_ID t)" if "m = N'" "\<not> poisoned w'"
  proof -
    have "N' = N" using that at_fill(3) assms(2) by simp
    then show ?thesis using at_fill(4) that assms(3,4) by metis
  qed
  then show ?thesis using at_fill assms(2) by (auto intro: midway.at_fill)
qed (use assms(2) in \<open>auto intro: midway.intros\<close>)

lemma dropping_kept:
  "dropping ps k \<Longrightarrow> i < length ps \<Longrightarrow> ps ! i = Atomic l f \<Longrightarrow> l \<noteq> Dropping k \<Longrightarrow> dropping (ps[i := p]) k"
  unfolding dropping_def in_set_conv_nth by (metis length_list_update nth_list_update_neq prog.inject(2))

lemma dropping_new: "i < length ps \<Longrightarrow> dropping (ps[i := Atomic (Dropping k) f]) k"
  unfolding dropping_def by (metis set_update_memI)

lemma coherent_section:
  assumes "coherent g N (ps, w)" "i < length ps"
    and "sok (cw_source w')" "cok (cw_cache w')" "cc_generation (cw_coord w') = g + of_nat N'" "N \<le> N'"
    and "midway g N' w' (dropping (ps[i := p])) p"
    and "N' = N \<Longrightarrow> poisoned w' = poisoned w"
    and "N' = N \<Longrightarrow> \<forall>k. (view (cw_source w') k = view (cw_source w) k \<or> dropping (ps[i := p]) k)
        \<and> (dropping ps k \<longrightarrow> dropping (ps[i := p]) k)"
    and "\<not> poisoned w' \<Longrightarrow> \<forall>k t. t \<in> held (cw_cache w') k \<longrightarrow> view (cw_source w') k = Some t \<or> dropping (ps[i := p]) k"
  shows "coherent g N' (ps[i := p], w')"
proof -
  have "midway g N' w' (dropping (ps[i := p])) q" if "q \<in> set (ps[i := p])" for q
  proof -
    have "q = p \<or> q \<in> set ps" using that set_update_subset_insert by fastforce
    moreover have "midway g N w (dropping ps) q" if "q \<in> set ps" using assms(1) that by (simp add: coherent_def)
    ultimately show ?thesis using assms(7) midway_later [OF _ assms(6,8,9)] by blast
  qed
  then show ?thesis using assms(3-5,10) by (simp add: coherent_def)
qed

section \<open>The sections\<close>

lemma invalidate_effect:
  assumes "invalidate store tid w = (generation, w')" "sharing store" "cok (cw_cache w)"
  shows "cw_source w' = cw_source w \<and> cok (cw_cache w') \<and> (\<forall>k. held (cw_cache w') k \<subseteq> held (cw_cache w) k)
    \<and> cc_generation (cw_coord w') = generation
    \<and> (generation = cc_generation (cw_coord w) + 1 \<or> generation = cc_generation (cw_coord w) + 2)
    \<and> (\<not> poisoned w' \<longrightarrow> held (cw_cache w') tid = {} \<and> (poisoned w \<longrightarrow> (\<forall>k. held (cw_cache w') k = {})))"
proof (cases "cacheID \<in> cc_poisoned (cw_coord w)")
  case True
  obtain r c where run: "co_Invalidate cops (cw_ctx w) (cw_now w) (cw_cache w) = (r, c)" by fastforce
  then have w': "w' = w\<lparr>cw_cache := c, cw_coord :=
      (case r of Inl _ \<Rightarrow> nextGeneration (cw_coord w) | Inr _ \<Rightarrow> clearPoisonLocked store (nextGeneration (cw_coord w)))\<rparr>"
    "generation = cc_generation (cw_coord w) + 1"
    using assms(1,2) True
    by (auto simp: invalidate_def sharing_def isPoisonedLocked_def nextGeneration_def Let_def split: sum.splits)
  show ?thesis
    using invalidate_ok [OF assms(3) run] invalidate_done [OF assms(3)] run True assms(2) unfolding w'
    by (auto simp: poisoned_def clearPoisonLocked_def nextGeneration_def sharing_def split: sum.splits)
next
  case False
  obtain r c where run: "co_Delete cops (cw_ctx w) (cw_now w) tid (cw_cache w) = (r, c)" by fastforce
  then have w': "w' = w\<lparr>cw_cache := c, cw_coord :=
      (case r of Inl _ \<Rightarrow> poisonLocked store (nextGeneration (cw_coord w)) | Inr _ \<Rightarrow> nextGeneration (cw_coord w))\<rparr>"
    "generation = cc_generation (cw_coord w')"
    using assms(1,2) False
    by (auto simp: invalidate_def sharing_def isPoisonedLocked_def nextGeneration_def Let_def split: sum.splits)
  show ?thesis
    using delete_ok [OF assms(3) run] delete_done [OF assms(3)] run False assms(2) unfolding w'
    by (auto simp: poisoned_def poisonLocked_def nextGeneration_def sharing_def split: sum.splits)
qed

lemma lookup_effect:
  assumes "lookupCache store tid w = ((found, generation), w')" "sharing store" "cok (cw_cache w)"
  shows "cw_source w' = cw_source w \<and> cok (cw_cache w') \<and> (\<forall>k. held (cw_cache w') k \<subseteq> held (cw_cache w) k)
    \<and> cc_generation (cw_coord w') = generation
    \<and> (generation = cc_generation (cw_coord w) \<and> poisoned w' = poisoned w
       \<or> generation = cc_generation (cw_coord w) + 1 \<and> \<not> poisoned w' \<and> (\<forall>k. held (cw_cache w') k = {}))
    \<and> (\<forall>t. found = Some t \<longrightarrow> \<not> poisoned w \<and> t \<in> held (cw_cache w) tid)"
proof -
  obtain recovered w1 where rec: "recoverPoisonLocked store w = (recovered, w1)" by fastforce
  have r: "cw_source w1 = cw_source w" "cok (cw_cache w1)" "\<forall>k. held (cw_cache w1) k \<subseteq> held (cw_cache w) k"
    "cw_coord w1 = cw_coord w \<and> (recovered \<longrightarrow> w1 = w \<and> \<not> poisoned w)
     \<or> cc_generation (cw_coord w1) = cc_generation (cw_coord w) + 1 \<and> \<not> poisoned w1 \<and> (\<forall>k. held (cw_cache w1) k = {})"
  proof -
    obtain r c where run: "co_Invalidate cops (cw_ctx w) (cw_now w) (cw_cache w) = (r, c)" by fastforce
    have "cok c" "\<And>k x. x \<in> held c k \<Longrightarrow> x \<in> held (cw_cache w) k" using invalidate_ok [OF assms(3) run] by blast+
    note facts = this invalidate_done [OF assms(3)] run rec assms(2,3)
    show "cw_source w1 = cw_source w" "cok (cw_cache w1)" "\<forall>k. held (cw_cache w1) k \<subseteq> held (cw_cache w) k"
      "cw_coord w1 = cw_coord w \<and> (recovered \<longrightarrow> w1 = w \<and> \<not> poisoned w)
       \<or> cc_generation (cw_coord w1) = cc_generation (cw_coord w) + 1 \<and> \<not> poisoned w1 \<and> (\<forall>k. held (cw_cache w1) k = {})"
      using facts
      by (auto simp: recoverPoisonLocked_def sharing_def isPoisonedLocked_def poisoned_def nextGeneration_def
          clearPoisonLocked_def split: if_splits sum.splits)
  qed
  show ?thesis
  proof (cases recovered)
    case False
    then show ?thesis using assms(1) rec r by (auto simp: lookupCache_def poisoned_def)
  next
    case True
    obtain a c where run: "co_Get cops (cw_ctx w1) (cw_now w1) tid (cw_cache w1) = (a, c)" by fastforce
    have w': "w' = w1\<lparr>cw_cache := c\<rparr>" "generation = cc_generation (cw_coord w1)"
      "found = (case a of Inr x \<Rightarrow> x | Inl _ \<Rightarrow> None)"
      using assms(1,2) rec True run by (auto simp: lookupCache_def sharing_def split: sum.splits option.splits)
    have "\<forall>k. held c k \<subseteq> held (cw_cache w1) k" "cok c" using get_ok [OF r(2) run] by blast+
    moreover have "found = Some t \<Longrightarrow> t \<in> held (cw_cache w1) tid" for t
      using get_answer [OF r(2)] run w'(3) by (auto split: sum.splits)
    ultimately show ?thesis using r True w' by (fastforce simp: poisoned_def)
  qed
qed

lemma fill_effect:
  assumes "fillIfUnchanged store t generation w = w'" "sharing store" "cok (cw_cache w)"
  shows "cw_source w' = cw_source w \<and> cok (cw_cache w')
    \<and> (w' = w \<or> generation = cc_generation (cw_coord w) \<and> \<not> poisoned w
        \<and> (\<forall>k. held (cw_cache w') k \<subseteq> (if k = tn_ID t then insert t (held (cw_cache w) k) else held (cw_cache w) k))
        \<and> (poisoned w' \<and> cc_generation (cw_coord w') = cc_generation (cw_coord w) + 1
           \<or> cw_coord w' = cw_coord w))"
proof (cases "generation \<noteq> cc_generation (cw_coord w) \<or> poisoned w")
  case True
  then have "w' = w"
    using assms(1,2) by (auto simp: fillIfUnchanged_def sharing_def poisoned_def isPoisonedLocked_def)
  then show ?thesis using assms(3) by simp
next
  case False
  obtain r c where set: "co_Set cops (cw_ctx w) (cw_now w) t (cs_ttl store) (cw_cache w) = (r, c)" by fastforce
  obtain r' c' where del: "co_Delete cops (cw_ctx w) (cw_now w) (tn_ID t) c = (r', c')" by fastforce
  have c: "cok c" "\<And>k. held c k \<subseteq> (if k = tn_ID t then insert t (held (cw_cache w) k) else held (cw_cache w) k)"
    using set_ok [OF assms(3) set] by blast+
  have c': "cok c'" "\<And>k. held c' k \<subseteq> held c k" using delete_ok [OF c(1) del] by blast+
  have w': "w' = (case r of Inr _ \<Rightarrow> w\<lparr>cw_cache := c\<rparr>
      | Inl _ \<Rightarrow> (case r' of Inr _ \<Rightarrow> w\<lparr>cw_cache := c'\<rparr>
                | Inl _ \<Rightarrow> w\<lparr>cw_cache := c', cw_coord := poisonLocked store (cw_coord w)\<rparr>))"
    using assms(1,2) False set del
    by (auto simp: fillIfUnchanged_def sharing_def poisoned_def isPoisonedLocked_def split: sum.splits)
  have "held c' k \<subseteq> (if k = tn_ID t then insert t (held (cw_cache w) k) else held (cw_cache w) k)" for k
    using c(2) c'(2) by (rule order_trans [rotated])
  moreover have "poisonLocked store (cw_coord w)
      = (cw_coord w)\<lparr>cc_poisoned := insert cacheID (cc_poisoned (cw_coord w)), cc_generation := cc_generation (cw_coord w) + 1\<rparr>"
    using False assms(2) by (simp add: poisonLocked_def sharing_def poisoned_def)
  ultimately show ?thesis using c c'(1) False
    unfolding w' by (cases r; cases r') (simp_all add: poisoned_def)
qed

lemma generation_current:
  assumes "g + of_nat m = g + (of_nat N :: 64 word)" "m \<le> N" "N < 2 ^ 64"
  shows "m = N"
proof -
  have "(of_nat m :: 64 word) = of_nat N" using assms(1) by simp
  then have "unat (of_nat m :: 64 word) = unat (of_nat N :: 64 word)" by simp
  then show ?thesis using assms(2,3) by (simp add: unat_of_nat)
qed

section \<open>Every section keeps coherence\<close>

definition tenantChange :: "TenantID \<Rightarrow> (('s, 'c) cachedWorld \<Rightarrow> (tenant_error + unit) \<times> 's) \<Rightarrow> bool" where
  "tenantChange tid mutate \<longleftrightarrow> (\<forall>w r s'. sok (cw_source w) \<longrightarrow> mutate w = (r, s') \<longrightarrow> sok s' \<and>
     (case r of Inl _ \<Rightarrow> view s' = view (cw_source w) | Inr _ \<Rightarrow> (\<forall>k. k \<noteq> tid \<longrightarrow> view s' k = view (cw_source w) k)))"

lemma mutate_coherent:
  assumes "coherent g N (ps, w)" "i < length ps" "ps ! i = mutateSource mutate failed (Atomic (Dropping tid) h)"
    and "ps ! i = Atomic l f" "f w = (p, w')" "tenantChange tid mutate"
    and "\<And>w pend e. midway g N w pend (failed e)" "\<And>w pend. midway g N w pend (Atomic (Dropping tid) h)"
  shows "coherent g N (ps[i := p], w')"
proof -
  obtain r s' where run: "mutate w = (r, s')" by fastforce
  have l: "l = Plain" and f: "f = (\<lambda>w. case mutate w of (Inl e, s) \<Rightarrow> (failed e, w\<lparr>cw_source := s\<rparr>)
      | (Inr _, s) \<Rightarrow> (Atomic (Dropping tid) h, w\<lparr>cw_source := s\<rparr>))"
    using assms(3,4) by (simp_all add: mutateSource_def)
  have p: "p = (case r of Inl e \<Rightarrow> failed e | Inr _ \<Rightarrow> Atomic (Dropping tid) h)" "w' = w\<lparr>cw_source := s'\<rparr>"
    using assms(5) run unfolding f by (auto split: sum.splits)
  have s': "sok s'" "case r of Inl _ \<Rightarrow> view s' = view (cw_source w) | Inr _ \<Rightarrow> (\<forall>k. k \<noteq> tid \<longrightarrow> view s' k = view (cw_source w) k)"
    using assms(1,6) run by (auto simp: tenantChange_def coherent_def)
  have kept: "dropping ps k \<longrightarrow> dropping (ps[i := p]) k" for k
    using dropping_kept [OF _ assms(2,4)] l by blast
  have changed: "view s' k = view (cw_source w) k \<or> dropping (ps[i := p]) k" for k
    using s'(2) dropping_new [OF assms(2), of tid h] p(1) by (cases r; cases "k = tid") auto
  show ?thesis
  proof (rule coherent_section [OF assms(1,2), of w' N p])
    show "midway g N w' (dropping (ps[i := p])) p" using assms(7,8) p(1) by (cases r) simp_all
    have old: "view (cw_source w) k = Some t \<or> dropping ps k"
      if "\<not> poisoned w" "t \<in> held (cw_cache w) k" for k t
      using assms(1) that by (simp add: coherent_def)
    assume "\<not> poisoned w'"
    then have "\<not> poisoned w" using p(2) by (simp add: poisoned_def)
    from old [OF this] show "\<forall>k t. t \<in> held (cw_cache w') k \<longrightarrow> view (cw_source w') k = Some t \<or> dropping (ps[i := p]) k"
      unfolding p(2) using changed kept by simp metis
  qed (use assms(1) s'(1) p(2) changed kept in \<open>auto simp: coherent_def poisoned_def\<close>)
qed

lemma start_changes:
  assumes "sharing store"
  shows "tenantChange (tn_ID t) (\<lambda>w. to_Create (cs_next store) (cw_ctx w) t (cw_source w))"
    and "tenantChange (tn_ID t) (\<lambda>w. to_Update (cs_next store) (cw_ctx w) t (cw_source w))"
    and "tenantChange tid (\<lambda>w. to_Delete (cs_next store) (cw_ctx w) tid (cw_source w))"
    and "tenantChange (tn_ID t) (\<lambda>w. case to_CAS (cs_next store) of
          Some cas \<Rightarrow> cas (cw_ctx w) old t (cw_source w) | None \<Rightarrow> compareAndSwapLegacy store old t w)"
proof -
  have ops: "cs_next store = ops" using assms by (simp add: sharing_def)
  show "tenantChange (tn_ID t) (\<lambda>w. to_Create (cs_next store) (cw_ctx w) t (cw_source w))"
    unfolding tenantChange_def ops using source_create by blast
  show "tenantChange (tn_ID t) (\<lambda>w. to_Update (cs_next store) (cw_ctx w) t (cw_source w))"
    unfolding tenantChange_def ops using source_update by blast
  show "tenantChange tid (\<lambda>w. to_Delete (cs_next store) (cw_ctx w) tid (cw_source w))"
    unfolding tenantChange_def ops using source_delete by blast
  show "tenantChange (tn_ID t) (\<lambda>w. case to_CAS (cs_next store) of
          Some cas \<Rightarrow> cas (cw_ctx w) old t (cw_source w) | None \<Rightarrow> compareAndSwapLegacy store old t w)"
  proof (cases "to_CAS ops")
    case None
    have "sok s' \<and> (case r of Inl _ \<Rightarrow> view s' = view (cw_source w) | Inr _ \<Rightarrow> (\<forall>k. k \<noteq> tn_ID t \<longrightarrow> view s' k = view (cw_source w) k))"
      if "sok (cw_source w)" "compareAndSwapLegacy store old t w = (r, s')" for w r s'
    proof (cases "\<exists>current. sourceGet store (tn_ID old) w = Inr current \<and> tenantsEqual current old")
      case True
      then have "to_Update ops (cw_ctx w) t (cw_source w) = (r, s')"
        using that(2) ops by (auto simp: compareAndSwapLegacy_def)
      then show ?thesis using source_update [OF that(1)] by blast
    next
      case False
      then have "s' = cw_source w \<and> (\<exists>e. r = Inl e)"
        using that(2) by (auto simp: compareAndSwapLegacy_def on_ok_def split: sum.splits if_splits)
      then show ?thesis using that(1) by auto
    qed
    then show ?thesis unfolding tenantChange_def ops None by simp
  next
    case (Some cas)
    then show ?thesis unfolding tenantChange_def ops using source_cas [OF _ Some] by simp
  qed
qed

text \<open>A section that leaves the source alone, and of the cache drops at most entries.\<close>

lemma quiet_coherent:
  assumes "coherent g N (ps, w)" "i < length ps" "ps ! i = Atomic Plain f"
    and "cw_source w' = cw_source w" "cok (cw_cache w')" "\<forall>k. held (cw_cache w') k \<subseteq> held (cw_cache w) k"
    and "cc_generation (cw_coord w') = g + of_nat N'" "N \<le> N'"
    and "N' = N \<and> poisoned w' = poisoned w \<or> N < N' \<and> (\<not> poisoned w' \<longrightarrow> (\<forall>k. held (cw_cache w') k = {}))"
    and "\<And>pend. midway g N' w' pend p"
  shows "coherent g N' (ps[i := p], w')"
proof -
  have kept: "dropping ps k \<longrightarrow> dropping (ps[i := p]) k" for k
    using dropping_kept [OF _ assms(2,3)] by blast
  show ?thesis
  proof (rule coherent_section [OF assms(1,2), of w' N' p])
    have old: "view (cw_source w) k = Some t \<or> dropping ps k"
      if "\<not> poisoned w" "t \<in> held (cw_cache w) k" for k t
      using assms(1) that by (simp add: coherent_def)
    assume "\<not> poisoned w'"
    then show "\<forall>k t. t \<in> held (cw_cache w') k \<longrightarrow> view (cw_source w') k = Some t \<or> dropping (ps[i := p]) k"
      using old assms(4,6,9) kept by (metis empty_iff subsetD)
  qed (use assms kept in \<open>auto simp: coherent_def\<close>)
qed

lemma same_world_coherent:
  assumes "coherent g N (ps, w)" "i < length ps" "ps ! i = Atomic Plain f" "\<And>pend. midway g N w pend p"
  shows "coherent g N (ps[i := p], w)"
  by (rule quiet_coherent [OF assms(1-3)]) (use assms(1,4) in \<open>simp_all add: coherent_def\<close>)

lemma get_coherent:
  assumes "coherent g N (ps, w)" "i < length ps" "ps ! i = Atomic l f" "f w = (p, w')"
    and "ps ! i = Cached_Get store tid" "sharing store"
  shows "\<exists>N'. N \<le> N' \<and> N' \<le> N + 2 \<and> coherent g N' (ps[i := p], w')"
proof -
  have cok: "cok (cw_cache w)" and gen: "cc_generation (cw_coord w) = g + of_nat N" using assms(1) by (simp_all add: coherent_def)
  obtain found generation w1 where run: "lookupCache store tid w = ((found, generation), w1)" by (metis prod.exhaust)
  have l: "ps ! i = Atomic Plain f" and f: "f = (\<lambda>w. case lookupCache store tid w of
        ((Some tenant, generation), w1) \<Rightarrow> (Return (Inr (Some tenant)), w1)
      | ((None, generation), w1) \<Rightarrow> (readSource store tid generation, w1))"
    using assms(3,5,6) by (auto simp: Cached_Get_def sharing_def)
  have p: "w' = w1" "p = (case found of Some t \<Rightarrow> Return (Inr (Some t)) | None \<Rightarrow> readSource store tid generation)"
    using assms(4) run unfolding f by (auto split: option.splits)
  note eff = lookup_effect [OF run assms(6) cok]
  define N' where "N' = (if generation = cc_generation (cw_coord w) \<and> poisoned w1 = poisoned w then N else N + 1)"
  have N': "generation = g + of_nat N'" "N \<le> N'" "N' \<le> N + 2"
    using eff gen by (auto simp: N'_def algebra_simps)
  moreover have "midway g N' w' pend p" for pend
    using assms(6) N'(1) by (auto simp: p(2) intro: midway.intros split: option.split)
  moreover have "N' = N \<and> poisoned w1 = poisoned w \<or> N < N' \<and> (\<not> poisoned w1 \<longrightarrow> (\<forall>k. held (cw_cache w1) k = {}))"
    using eff by (auto simp: N'_def)
  ultimately show ?thesis using quiet_coherent [OF assms(1,2) l] eff p(1) by metis
qed

lemma invalidate_coherent:
  assumes "coherent g N (ps, w)" "i < length ps" "ps ! i = Atomic l f" "l = Plain \<or> l = Dropping tid"
    and "f w = (p, w')" "invalidate store tid w = (generation, w')" "sharing store"
    and "\<And>N' w pend. generation = g + of_nat N' \<Longrightarrow> midway g N' w pend p"
  shows "\<exists>N'. N \<le> N' \<and> N' \<le> N + 2 \<and> coherent g N' (ps[i := p], w')"
proof -
  have cok: "cok (cw_cache w)" and gen: "cc_generation (cw_coord w) = g + of_nat N" using assms(1) by (simp_all add: coherent_def)
  note eff = invalidate_effect [OF assms(6,7) cok]
  define N' where "N' = (if generation = cc_generation (cw_coord w) + 1 then N + 1 else N + 2)"
  have N': "generation = g + of_nat N'" "N < N'" "N' \<le> N + 2"
    using eff gen by (auto simp: N'_def algebra_simps)
  have kept: "dropping ps k \<longrightarrow> dropping (ps[i := p]) k" if "k \<noteq> tid" for k
    using dropping_kept [OF _ assms(2,3)] assms(4) that by blast
  have old: "view (cw_source w) k = Some t \<or> dropping ps k"
    if "\<not> poisoned w" "t \<in> held (cw_cache w) k" for k t
    using assms(1) that by (simp add: coherent_def)
  have "coherent g N' (ps[i := p], w')"
  proof (rule coherent_section [OF assms(1,2), of w' N' p])
    show "midway g N' w' (dropping (ps[i := p])) p" using assms(8) N'(1) .
    assume np: "\<not> poisoned w'"
    show "\<forall>k t. t \<in> held (cw_cache w') k \<longrightarrow> view (cw_source w') k = Some t \<or> dropping (ps[i := p]) k"
    proof (intro allI impI)
      fix k t
      assume t: "t \<in> held (cw_cache w') k"
      then have "k \<noteq> tid" "\<not> poisoned w" "t \<in> held (cw_cache w) k" using eff np by auto
      then show "view (cw_source w') k = Some t \<or> dropping (ps[i := p]) k" using old kept eff by metis
    qed
  qed (use eff N' assms(1) in \<open>simp_all add: coherent_def\<close>)
  then show ?thesis using N' by (intro exI [of _ N']) simp
qed

lemma fill_coherent:
  assumes "coherent g N (ps, w)" "i < length ps" "ps ! i = Atomic Plain f" "N < 2 ^ 64"
    and "fillIfUnchanged store t (g + of_nat m) w = w'" "sharing store" "m \<le> N"
    and "m = N \<Longrightarrow> \<not> poisoned w \<Longrightarrow> view (cw_source w) (tn_ID t) = Some t \<or> dropping ps (tn_ID t)"
  shows "\<exists>N'. N \<le> N' \<and> N' \<le> N + 2 \<and> coherent g N' (ps[i := Return a], w')"
proof -
  have cok: "cok (cw_cache w)" and gen: "cc_generation (cw_coord w) = g + of_nat N" using assms(1) by (simp_all add: coherent_def)
  note eff = fill_effect [OF assms(5,6) cok]
  have kept: "dropping ps k \<longrightarrow> dropping (ps[i := Return a]) k" for k
    using dropping_kept [OF _ assms(2,3)] by blast
  have old: "view (cw_source w) k = Some t' \<or> dropping ps k"
    if "\<not> poisoned w" "t' \<in> held (cw_cache w) k" for k t'
    using assms(1) that by (simp add: coherent_def)
  consider (same) "w' = w" | (filled) "g + of_nat m = g + (of_nat N :: 64 word)" "\<not> poisoned w"
      "\<forall>k. held (cw_cache w') k \<subseteq> (if k = tn_ID t then insert t (held (cw_cache w) k) else held (cw_cache w) k)"
      "poisoned w' \<and> cc_generation (cw_coord w') = cc_generation (cw_coord w) + 1 \<or> cw_coord w' = cw_coord w"
    using eff gen by auto
  then show ?thesis
  proof cases
    case same
    then show ?thesis
      using same_world_coherent [OF assms(1-3) at_return, of a] by (intro exI [of _ N]) simp
  next
    case filled
    have current: "view (cw_source w) (tn_ID t) = Some t \<or> dropping ps (tn_ID t)"
      using assms(8) generation_current [OF filled(1) assms(7,4)] filled(2) by blast
    define N' where "N' = (if cw_coord w' = cw_coord w then N else N + 1)"
    have N': "cc_generation (cw_coord w') = g + of_nat N'" "N \<le> N'" "N' \<le> N + 2"
      using filled(4) gen by (auto simp: N'_def algebra_simps)
    have "coherent g N' (ps[i := Return a], w')"
    proof (rule coherent_section [OF assms(1,2), of w' N'])
      show "\<forall>k t'. t' \<in> held (cw_cache w') k \<longrightarrow> view (cw_source w') k = Some t' \<or> dropping (ps[i := Return a]) k"
      proof (intro allI impI)
        fix k t'
        assume "t' \<in> held (cw_cache w') k"
        then have "t' \<in> held (cw_cache w) k \<or> k = tn_ID t \<and> t' = t" using filled(3) by (auto split: if_splits)
        then show "view (cw_source w') k = Some t' \<or> dropping (ps[i := Return a]) k"
          unfolding eff [THEN conjunct1] using old [OF filled(2)] current kept by blast
      qed
      show "N' = N \<Longrightarrow> poisoned w' = poisoned w" by (auto simp: N'_def poisoned_def split: if_splits)
    qed (use eff N' kept assms(1) at_return in \<open>auto simp: coherent_def\<close>)
    then show ?thesis using N' by blast
  qed
qed

lemma start_coherent:
  assumes "coherent g N (ps, w)" "i < length ps" "ps ! i = startCall (store, call)" "sharing store"
    and "ps ! i = Atomic l f" "f w = (p, w')"
  shows "\<exists>N'. N \<le> N' \<and> N' \<le> N + 2 \<and> coherent g N' (ps[i := p], w')"
proof -
  have failed: "midway g N w pend (Return (Inl e))" "midway g N w pend (dropAndReturn Plain store tid (Inl e))" for N w pend tid e
    using assms(4) by (auto intro: midway.intros)
  have refresh: "midway g N w pend (refresh store tid)" "midway g N w pend (dropAndReturn (Dropping tid) store tid a)" for N w pend tid a
    using assms(4) by (auto intro: midway.intros)
  note changes = start_changes [OF assms(4)]
  have mutates: "coherent g N (ps[i := p], w')"
    if "ps ! i = mutateSource mutate failed (Atomic (Dropping tid) h)" "tenantChange tid mutate"
      "\<And>N w pend e. midway g N w pend (failed e)" "\<And>N w pend. midway g N w pend (Atomic (Dropping tid) h)"
    for mutate failed tid h
    using mutate_coherent [OF assms(1,2) that(1) assms(5,6) that(2)] that(3,4) by blast
  have "coherent g N (ps[i := p], w')" if "\<And>tid. call \<noteq> CallGet tid"
  proof (cases call)
    case (CallGet tid)
    then show ?thesis using that by simp
  next
    case (CallCreate t)
    then show ?thesis
      using mutates [OF _ changes(1)] assms(3) failed refresh by (simp add: Cached_Create_def refresh_def)
  next
    case (CallUpdate t)
    then show ?thesis
      using mutates [OF _ changes(2)] assms(3) failed refresh by (simp add: Cached_Update_def refresh_def)
  next
    case (CallCompareAndSwap old t)
    then show ?thesis
      using mutates [OF _ changes(4)] assms(3) failed refresh by (simp add: Cached_CompareAndSwap_def refresh_def)
  next
    case (CallDelete tid)
    then show ?thesis
      using mutates [OF _ changes(3)] assms(3) failed refresh by (simp add: Cached_Delete_def dropAndReturn_def)
  qed
  then show ?thesis using get_coherent [OF assms(1,2,5,6) _ assms(4)] assms(3)
    by (cases call) (auto intro: exI [of _ N])
qed

lemma section_coherent:
  assumes "coherent g N (ps, w)" "i < length ps" "ps ! i = Atomic l f" "f w = (p, w')" "N < 2 ^ 64"
  shows "\<exists>N'. N \<le> N' \<and> N' \<le> N + 2 \<and> coherent g N' (ps[i := p], w')"
proof -
  have same: "\<exists>N'. N \<le> N' \<and> N' \<le> N + 2 \<and> coherent g N' (ps[i := p], w)"
    if "l = Plain" "\<And>pend. midway g N w pend p"
    using same_world_coherent [OF assms(1,2) _ that(2)] assms(3) that(1) by (intro exI [of _ N]) simp
  have sok: "sok (cw_source w)" using assms(1) by (simp add: coherent_def)
  have fresh: "view (cw_source w) (tn_ID t) = Some t" if "sourceGet store tid w = Inr t" "sharing store" for store tid t
    using source_get [OF sok] that by (auto simp: sourceGet_def sharing_def)
  have "midway g N w (dropping ps) (ps ! i)" using assms(1,2) by (simp add: coherent_def)
  then show ?thesis
  proof cases
    case (at_return a)
    then show ?thesis using assms(3) by simp
  next
    case (at_start store call)
    then show ?thesis using start_coherent [OF assms(1,2) at_start assms(3,4)] by blast
  next
    case (at_read store m tid)
    have "l = Plain" "w' = w" using assms(3,4) at_read(1) by (auto simp: readSource_def split: sum.splits)
    moreover have "midway g N w pend p" for pend
      using assms(3,4) at_read fresh [of store tid]
      by (auto simp: readSource_def split: sum.splits if_splits intro: midway.intros)
    ultimately show ?thesis using same by blast
  next
    case (at_fill store m t a)
    have "l = Plain" "p = Return a" "w' = fillIfUnchanged store t (g + of_nat m) w"
      using assms(3,4) at_fill(1) by (auto simp: fillAndReturn_def)
    then show ?thesis using fill_coherent [OF assms(1,2) _ assms(5) _ at_fill(2,3,4)] assms(3) by blast
  next
    case (at_drop store l' tid a)
    have "l' = l" "p = Return a" "w' = snd (invalidate store tid w)"
      using assms(3,4) at_drop(1) by (auto simp: dropAndReturn_def)
    then show ?thesis
      using invalidate_coherent [OF assms(1-3) _ assms(4) _ at_drop(2)] at_drop(3) at_return
      by (metis prod.collapse)
  next
    case (at_refresh store tid)
    obtain generation w1 where run: "invalidate store tid w = (generation, w1)" by fastforce
    have p: "l = Dropping tid" "p = refillCurrent store tid generation" "w' = w1"
      using assms(3,4) at_refresh(1) run by (auto simp: refresh_def)
    show ?thesis
      using invalidate_coherent [OF assms(1-3) disjI2 [OF p(1)] assms(4) _ at_refresh(2)] run p at_refill [OF at_refresh(2) order_refl]
      by metis
  next
    case (at_refill store m tid)
    have "cs_cacheReads store" using at_refill(2) by (simp add: sharing_def)
    then have run: "l = Plain" "w' = w"
      "p = (case sourceGet store tid w of Inl _ \<Rightarrow> Return (Inr None) | Inr t \<Rightarrow> fillAndReturn store t (g + of_nat m) (Inr None))"
      using assms(3,4) at_refill(1) by (auto simp: refillCurrent_def split: sum.splits)
    moreover have "midway g N w pend p" for pend
      using at_refill(2,3) fresh [of store tid] unfolding run(3) by (auto split: sum.splits intro: midway.intros)
    ultimately show ?thesis using same by blast
  qed
qed

lemma world_coherent:
  assumes "coherent g N (ps, w)" "worldMoves cacheID cok held w w'"
  shows "\<exists>N'. N \<le> N' \<and> N' \<le> N + 2 \<and> coherent g N' (ps, w')"
proof -
  define N' where "N' = (if cc_generation (cw_coord w') = cc_generation (cw_coord w) then N else N + 1)"
  have N': "cc_generation (cw_coord w') = g + of_nat N'" "N \<le> N'" "N' \<le> N + 2"
    using assms by (auto simp: N'_def coherent_def worldMoves_def algebra_simps)
  have w': "cw_source w' = cw_source w" "cok (cw_cache w')" "\<forall>k. held (cw_cache w') k \<subseteq> held (cw_cache w) k"
    "poisoned w' = poisoned w"
    using assms(2) by (auto simp: worldMoves_def poisoned_def)
  have "midway g N' w' (dropping ps) q" if "q \<in> set ps" for q
    by (rule midway_later [of g N w "dropping ps"]) (use that assms(1) N'(2) w' in \<open>simp_all add: coherent_def\<close>)
  then have "coherent g N' (ps, w')"
    using assms(1) N'(1) w' by (simp add: coherent_def) blast
  then show ?thesis using N' by blast
qed

lemma steps_coherent:
  assumes "systemSteps cacheID cok held n st st'" "coherent g 0 st" "2 * n < 2 ^ 64"
  shows "\<exists>N. N \<le> 2 * n \<and> coherent g N st'"
  using assms
proof (induction rule: systemSteps.induct)
  case (section_run n st ps w i l f p w')
  then obtain N where N: "N \<le> 2 * n" "coherent g N (ps, w)" by auto
  have "N < 2 ^ 64" using N(1) section_run(7) unfolding mult_Suc_right by (meson add_lessD1 le_add2 le_less_trans)
  from section_coherent [OF N(2) section_run(2-4) this] obtain N' where "N' \<le> N + 2" "coherent g N' (ps[i := p], w')" by blast
  then show ?case using N(1) by (intro exI [of _ N']) simp
next
  case (world_moves n st ps w w')
  then obtain N where N: "N \<le> 2 * n" "coherent g N (ps, w)" by auto
  from world_coherent [OF N(2) world_moves(2)] obtain N' where "N' \<le> N + 2" "coherent g N' (ps, w')" by blast
  then show ?case using N(1) by (intro exI [of _ N']) simp
qed auto

lemma begin_coherent:
  assumes "sok (cw_source w)" "cok (cw_cache w)" "\<forall>store\<in>fst ` set calls. sharing store"
    "\<not> poisoned w \<longrightarrow> (\<forall>tid t. t \<in> held (cw_cache w) tid \<longrightarrow> view (cw_source w) tid = Some t)"
  shows "coherent (cc_generation (cw_coord w)) 0 (map startCall calls, w)"
  using assms at_start by (fastforce simp: coherent_def)

text \<open>Whatever happened, a lookup answers the current record, unless a change of this tenant has
  not dropped its entry yet.\<close>

lemma lookup_current:
  assumes "systemSteps cacheID cok held n (map startCall calls, w0) (ps, w)" "2 * n < 2 ^ 64"
    and "sok (cw_source w0)" "cok (cw_cache w0)" "\<forall>store\<in>fst ` set calls. sharing store"
    "\<not> poisoned w0 \<longrightarrow> (\<forall>tid t. t \<in> held (cw_cache w0) tid \<longrightarrow> view (cw_source w0) tid = Some t)"
    and "sharing store" "fst (fst (lookupCache store tid w)) = Some t"
  shows "view (cw_source w) tid = Some t \<or> dropping ps tid"
proof -
  obtain N where "coherent (cc_generation (cw_coord w0)) N (ps, w)"
    using steps_coherent [OF assms(1) begin_coherent [OF assms(3-6)] assms(2)] by blast
  moreover obtain generation w' where "lookupCache store tid w = ((Some t, generation), w')"
    using assms(8) by (metis prod.collapse)
  ultimately show ?thesis using lookup_effect [OF _ assms(7)] unfolding coherent_def by fastforce
qed

end

end
