(* ===== verification/Cached_Guarantees.thy ===== *)
theory Cached_Guarantees
  imports Cached_Coherence
begin

text \<open>
  The cached store over the in-memory store and the in-memory cache: coherence under interleaving,
  and transparency, which says that a client that uses it alone cannot tell it from the store.
\<close>

lemma memory_update:
  assumes "tenant_inv s" "Tenants_Update cx t s = (r, s')"
  shows "tenant_inv s' \<and> (case r of Inl _ \<Rightarrow> tenantsOf s' = tenantsOf s
    | Inr _ \<Rightarrow> (\<forall>k. k \<noteq> tn_ID t \<longrightarrow> tenantsOf s' k = tenantsOf s k))"
proof -
  have "tenant_inv s'" using tenant_op_inv(2) [OF assms(1), of cx t] assms(2) by simp
  then show ?thesis using assms(2)
    by (auto simp: Tenants_Update_def on_ok_def tenantsOf_def split: sum.splits if_splits)
qed

interpretation memory_source: tenant_source memoryTenantOps tenant_inv tenantsOf
proof (unfold_locales, goal_cases)
  case (1 s cx tid t)
  then have "tenantsOf s tid = Some t" by (auto intro: memory_backend.get_law)
  then show ?case using memory_backend.keyed_law [OF 1(1)] by blast
next
  case (2 s cx t r s')
  then show ?case using memory_backend.create_law [OF 2] memory_backend.create_inv [OF 2(1), of cx t]
    by (auto split: sum.splits)
next
  case (3 s cx t r s')
  then show ?case using memory_update [OF 3(1)] by (simp add: memoryTenantOps_def)
next
  case (4 s cas cx old t r s')
  then have "cas = Tenants_CompareAndSwap" using memory_backend.has_cas by simp
  then show ?case using memory_backend.cas_law [OF 4(1)] memory_backend.cas_inv [OF 4(1), of cx old t] 4(3)
    by (fastforce split: sum.splits)
next
  case (5 s cx tid r s')
  then show ?case using memory_backend.delete_law [OF 5] memory_backend.delete_inv [OF 5(1), of cx tid]
    by (auto split: sum.splits)
qed

interpretation cached_memory: cached_source memoryTenantOps tenant_inv tenantsOf memoryCacheOps cache_inv memoryHeld cacheID
  for cacheID
  by unfold_locales

definition memoryWrapper :: "nat \<Rightarrow> (TenantMemory, MemoryCache) CachedStore \<Rightarrow> bool" where
  "memoryWrapper cacheID store \<longleftrightarrow>
     (\<exists>ttl. NewCachedStore (Some memoryTenantOps) (Some memoryCacheOps) (Some cacheID) ttl = Inr store)"

lemma memoryWrapper_sharing: "memoryWrapper cacheID store \<Longrightarrow> cached_memory.sharing cacheID store"
  by (auto simp: memoryWrapper_def NewCachedStore_def cached_memory.sharing_def)

section \<open>Running one operation\<close>

text \<open>Every operation ends after at most so many sections.\<close>

inductive within :: "nat \<Rightarrow> ('a, 's) prog \<Rightarrow> bool" where
  within_return: "within k (Return a)"
| within_section: "(\<And>w. within k (fst (f w))) \<Longrightarrow> within (Suc k) (Atomic l f)"

lemma within_mono: "within k p \<Longrightarrow> k \<le> k' \<Longrightarrow> within k' p"
proof (induction arbitrary: k' rule: within.induct)
  case (within_section k f l)
  then obtain k'' where "k' = Suc k''" by (cases k') auto
  then show ?case using within_section by (auto intro: within.within_section)
qed (rule within_return)

declare within_return [simp]

lemma within_Atomic: "0 < k \<Longrightarrow> (\<And>w. within (k - 1) (fst (f w))) \<Longrightarrow> within k (Atomic l f)"
  by (cases k) (simp_all add: within_section)

lemma within_tails:
  "within 1 (fillAndReturn store t g a)" "within 1 (dropAndReturn l store tid a)"
  "within 2 (readSource store tid g)" "within 2 (refillCurrent store tid g)" "within 3 (refresh store tid)"
proof -
  show fill: "within 1 (fillAndReturn store t g a)" for t g a
    unfolding fillAndReturn_def by (rule within_Atomic) simp_all
  show drop: "within 1 (dropAndReturn l store tid a)" for l a
    unfolding dropAndReturn_def by (rule within_Atomic) simp_all
  show "within 2 (readSource store tid g)"
    unfolding readSource_def by (rule within_Atomic) (use fill drop in \<open>simp_all split: sum.split\<close>)
  have "within 2 (Atomic Plain (\<lambda>w. case sourceGet store tid w of
      Inl _ \<Rightarrow> (Return (Inr None), w) | Inr t \<Rightarrow> (fillAndReturn store t g (Inr None), w)))" for g
    by (rule within_Atomic) (use fill in \<open>simp_all split: sum.split\<close>)
  then show refill: "within 2 (refillCurrent store tid g)" for g
    by (simp add: refillCurrent_def)
  show "within 3 (refresh store tid)"
    unfolding refresh_def by (rule within_Atomic) (use refill in \<open>simp_all split: prod.split\<close>)
qed

lemma within_mutate:
  "(\<And>e. within 3 (failed e)) \<Longrightarrow> within 3 succeeded \<Longrightarrow> within 4 (mutateSource mutate failed succeeded)"
  unfolding mutateSource_def by (rule within_Atomic) (simp_all split: prod.split sum.split)

lemma within_call: "within 4 (startCall (store, call))"
proof -
  have tail: "within 3 (dropAndReturn l store tid a)" "within 3 (refresh store tid)" "within 3 (readSource store tid g)" for l tid a g
    using within_tails(5) within_mono [OF within_tails(2), of 3] within_mono [OF within_tails(3), of 3] by simp_all
  have "within 4 (Atomic Plain (\<lambda>w. case lookupCache store tid w of
      ((Some t, g), w1) \<Rightarrow> (Return (Inr (Some t)), w1) | ((None, g), w1) \<Rightarrow> (readSource store tid g, w1)))" for tid
    by (rule within_Atomic) (use tail in \<open>simp_all split: prod.split option.split\<close>)
  moreover have "within 4 (Atomic Plain (\<lambda>w. (Return (map_sum id Some (sourceGet store tid w)), w)))" for tid
    by (rule within_Atomic) simp_all
  ultimately show ?thesis using tail
    by (cases call) (auto simp: Cached_Get_def Cached_Create_def Cached_Update_def Cached_CompareAndSwap_def Cached_Delete_def
        intro!: within_mutate)
qed

lemma run_steps_from:
  "within k p \<Longrightarrow> systemSteps cacheID ok held n st ([p], w) \<Longrightarrow>
     \<exists>m\<le>n + k. systemSteps cacheID ok held m st ([Return (fst (runProg p w))], snd (runProg p w))"
proof (induction arbitrary: n w rule: within.induct)
  case (within_return k a)
  then show ?case by (intro exI [of _ n]) simp
next
  case (within_section k f l)
  obtain p w' where p: "f w = (p, w')" by fastforce
  have "systemSteps cacheID ok held (Suc n) st ([Atomic l f][0 := p], w')"
    by (rule section_run [where i = 0 and l = l and f = f and ps = "[Atomic l f]" and w = w])
      (use within_section(3) p in simp_all)
  then have "systemSteps cacheID ok held (Suc n) st ([fst (f w)], w')" by (simp add: p)
  from within_section(2) [OF this] show ?case by (simp add: p)
qed

text \<open>Alone, an operation leaves the cache coherent with the source.\<close>

definition alone :: "nat \<Rightarrow> (TenantMemory, MemoryCache) cachedWorld \<Rightarrow> bool" where
  "alone cacheID w \<longleftrightarrow> tenant_inv (cw_source w) \<and> cache_inv (cw_cache w)
     \<and> (cacheID \<notin> cc_poisoned (cw_coord w) \<longrightarrow>
          (\<forall>tid t. t \<in> memoryHeld (cw_cache w) tid \<longrightarrow> tenantsOf (cw_source w) tid = Some t))"

lemma alone_kept:
  assumes "alone cacheID w" "memoryWrapper cacheID store"
  shows "alone cacheID (snd (runProg (startCall (store, call)) w))"
proof -
  let ?call = "(store, call)"
  obtain m where m: "m \<le> 4" "systemSteps cacheID cache_inv memoryHeld m (map startCall [?call], w)
      ([Return (fst (runProg (startCall ?call) w))], snd (runProg (startCall ?call) w))"
    using run_steps_from [OF within_call [of store call] stay, of cacheID cache_inv memoryHeld w] by auto
  have "cached_memory.coherent cacheID (cc_generation (cw_coord w)) 0 (map startCall [?call], w)"
    using assms memoryWrapper_sharing
    by (intro cached_memory.begin_coherent) (auto simp: alone_def cached_memory.poisoned_def)
  from cached_memory.steps_coherent [OF m(2) this] m(1)
  show ?thesis by (auto simp: cached_memory.coherent_def cached_memory.poisoned_def alone_def dropping_def)
qed

section \<open>Transparency\<close>

lemma fill_keeps [simp]:
  "cw_source (fillIfUnchanged store t g w) = cw_source w" "cw_ctx (fillIfUnchanged store t g w) = cw_ctx w"
  by (simp_all add: fillIfUnchanged_def split: prod.split sum.split)

lemma invalidate_keeps [simp]:
  "cw_source (snd (invalidate store tid w)) = cw_source w" "cw_ctx (snd (invalidate store tid w)) = cw_ctx w"
  by (simp_all add: invalidate_def Let_def split: prod.split sum.split)

lemma lookup_keeps:
  "lookupCache store tid w = (r, w') \<Longrightarrow> cw_source w' = cw_source w \<and> cw_ctx w' = cw_ctx w"
  by (auto simp: lookupCache_def recoverPoisonLocked_def split: prod.splits sum.splits if_splits bool.splits option.splits)

lemma run_tails [simp]:
  "fst (runProg (fillAndReturn store t g a) w) = a" "cw_source (snd (runProg (fillAndReturn store t g a) w)) = cw_source w"
  "fst (runProg (dropAndReturn l store tid a) w) = a" "cw_source (snd (runProg (dropAndReturn l store tid a) w)) = cw_source w"
  by (simp_all add: fillAndReturn_def dropAndReturn_def)

lemma run_refill [simp]:
  "fst (runProg (refillCurrent store tid g) w) = Inr None" "cw_source (snd (runProg (refillCurrent store tid g) w)) = cw_source w"
  by (simp_all add: refillCurrent_def split: sum.split)

lemma run_refresh [simp]:
  "fst (runProg (refresh store tid) w) = Inr None" "cw_source (snd (runProg (refresh store tid) w)) = cw_source w"
  by (cases "invalidate store tid w", use invalidate_keeps(1) [of store tid w] in \<open>simp add: refresh_def\<close>)+

lemma run_mutate:
  assumes "\<And>e w. fst (runProg (failed e) w) = Inl e \<and> cw_source (snd (runProg (failed e) w)) = cw_source w"
    and "\<And>w. fst (runProg succeeded w) = Inr None \<and> cw_source (snd (runProg succeeded w)) = cw_source w"
  shows "fst (runProg (mutateSource mutate failed succeeded) w) = map_sum id (\<lambda>_. None) (fst (mutate w))
    \<and> cw_source (snd (runProg (mutateSource mutate failed succeeded) w)) = snd (mutate w)"
  using assms by (simp add: mutateSource_def split: prod.split sum.split)

fun plainCall :: "ctx \<Rightarrow> cachedCall \<Rightarrow> TenantMemory \<Rightarrow> (tenant_error + Tenant option) \<times> TenantMemory" where
  "plainCall cx (CallGet tid) s = (map_sum id Some (Tenants_Get cx tid s), s)"
| "plainCall cx (CallCreate t) s = map_prod (map_sum id (\<lambda>_. None)) id (Tenants_Create cx t s)"
| "plainCall cx (CallUpdate t) s = map_prod (map_sum id (\<lambda>_. None)) id (Tenants_Update cx t s)"
| "plainCall cx (CallCompareAndSwap expected updated) s =
     map_prod (map_sum id (\<lambda>_. None)) id (Tenants_CompareAndSwap cx expected updated s)"
| "plainCall cx (CallDelete tid) s = map_prod (map_sum id (\<lambda>_. None)) id (Tenants_Delete cx tid s)"

lemma wrapper_fields:
  "memoryWrapper cacheID store \<Longrightarrow> cs_next store = memoryTenantOps \<and> cs_cache store = memoryCacheOps
     \<and> cs_cacheID store = cacheID \<and> cs_cacheReads store"
  by (auto simp: memoryWrapper_def NewCachedStore_def)

lemma lookup_hit:
  assumes "alone cacheID w" "memoryWrapper cacheID store" "lookupCache store tid w = ((Some t, g), w')"
  shows "Tenants_Get (cw_ctx w) tid (cw_source w) = Inr t"
proof -
  note fields = wrapper_fields [OF assms(2)]
  have "cache_inv (cw_cache w)" using assms(1) by (simp add: alone_def)
  note eff = cached_memory.lookup_effect [OF assms(3) memoryWrapper_sharing [OF assms(2)] this]
  then have "tenantsOf (cw_source w) tid = Some t"
    using assms(1) by (auto simp: alone_def cached_memory.poisoned_def)
  moreover have "cw_ctx w = None \<and> tid \<noteq> []"
    using assms(3) fields eff
    by (auto simp: lookupCache_def recoverPoisonLocked_def isPoisonedLocked_def memoryCacheOps_def MemoryCache_Get_def
        on_ok_def tenantCtx_def cached_memory.poisoned_def split: prod.splits sum.splits if_splits bool.splits option.splits)
  ultimately show ?thesis by (simp add: Tenants_Get_def tenantsOf_def)
qed

lemma call_transparent:
  assumes "alone cacheID w" "memoryWrapper cacheID store"
  shows "fst (runProg (startCall (store, call)) w) = fst (plainCall (cw_ctx w) call (cw_source w))
    \<and> cw_source (snd (runProg (startCall (store, call)) w)) = snd (plainCall (cw_ctx w) call (cw_source w))"
proof -
  note fields = wrapper_fields [OF assms(2)]
  show ?thesis
  proof (cases call)
    case (CallGet tid)
    obtain found g w1 where run: "lookupCache store tid w = ((found, g), w1)" by (metis prod.exhaust)
    note kept = lookup_keeps [OF run]
    show ?thesis
    proof (cases found)
      case None
      then show ?thesis using CallGet fields run kept
        by (auto simp: Cached_Get_def readSource_def sourceGet_def memoryTenantOps_def split: sum.split)
    next
      case (Some t)
      then show ?thesis using CallGet fields run kept lookup_hit [OF assms, of tid t g w1]
        by (simp add: Cached_Get_def)
    qed
  qed (use fields in \<open>simp_all add: Cached_Create_def Cached_Update_def Cached_CompareAndSwap_def Cached_Delete_def
      memoryTenantOps_def run_mutate\<close>)
qed

text \<open>A client's requests, each with the answers of its context and of the clock.\<close>

type_synonym cachedRequest = "(TenantMemory, MemoryCache) CachedStore \<times> ctx \<times> Time \<times> cachedCall"

fun cachedRun ::
  "cachedRequest list \<Rightarrow> (TenantMemory, MemoryCache) cachedWorld
     \<Rightarrow> (tenant_error + Tenant option) list \<times> (TenantMemory, MemoryCache) cachedWorld"
where
  "cachedRun [] w = ([], w)"
| "cachedRun ((store, cx, now, call) # reqs) w =
     (case runProg (startCall (store, call)) (w\<lparr>cw_ctx := cx, cw_now := now\<rparr>) of (a, w1) \<Rightarrow>
        map_prod (Cons a) id (cachedRun reqs w1))"

fun plainRun :: "cachedRequest list \<Rightarrow> TenantMemory \<Rightarrow> (tenant_error + Tenant option) list \<times> TenantMemory" where
  "plainRun [] s = ([], s)"
| "plainRun ((store, cx, now, call) # reqs) s =
     (case plainCall cx call s of (a, s1) \<Rightarrow> map_prod (Cons a) id (plainRun reqs s1))"

lemma alone_env: "alone cacheID w \<Longrightarrow> alone cacheID (w\<lparr>cw_ctx := cx, cw_now := now\<rparr>)"
  by (simp add: alone_def)

lemma runs_transparent:
  "alone cacheID w \<Longrightarrow> list_all (\<lambda>(store, req). memoryWrapper cacheID store) reqs \<Longrightarrow>
     fst (cachedRun reqs w) = fst (plainRun reqs (cw_source w))
     \<and> cw_source (snd (cachedRun reqs w)) = snd (plainRun reqs (cw_source w))"
proof (induction reqs arbitrary: w)
  case (Cons req reqs)
  obtain store cx now call where req: "req = (store, cx, now, call)" by (cases req)
  let ?w = "w\<lparr>cw_ctx := cx, cw_now := now\<rparr>"
  have wrapper: "memoryWrapper cacheID store" using Cons(3) req by simp
  obtain a w1 where run: "runProg (startCall (store, call)) ?w = (a, w1)" by fastforce
  have "alone cacheID w1" using alone_kept [OF alone_env [where cx = cx and now = now, OF Cons(2)] wrapper, of call] run by simp
  moreover have "(a, cw_source w1) = plainCall cx call (cw_source w)"
    using call_transparent [OF alone_env [where cx = cx and now = now, OF Cons(2)] wrapper, of call] run by (simp add: prod_eq_iff)
  ultimately show ?case using Cons(1) [of w1] Cons(3) req run by (simp split: prod.split) (metis fst_conv snd_conv)
qed simp

section \<open>Properties\<close>

text \<open>
  C9. Whatever operations run at the same time on stores that share one cache, in whatever order
  their sections are interleaved, and whether or not contexts are cancelled in the middle of them
  and entries expire: a lookup answers the tenant as the source has it at that moment, unless an
  operation that has changed this tenant in the source has not yet dropped its entry. So once every
  operation has returned, no lookup answers an outdated tenant. (The generation may wrap around
  after 2 to the 64 changes, so the runs are shorter than that.)
\<close>

theorem cached_lookup_current:
  assumes "systemSteps cacheID cache_inv memoryHeld n (map startCall calls, w0) (ps, w)" "2 * n < 2 ^ 64"
    and "\<forall>store\<in>fst ` set calls. memoryWrapper cacheID store" "memoryWrapper cacheID store"
    and "tenant_inv (cw_source w0)" "NewBoundedMemoryCache maxEntries = Inr (cw_cache w0)"
    and "fst (fst (lookupCache store tid w)) = Some t"
  shows "(map_of (tm_tenants (cw_source w)) tid = Some t \<or> dropping ps tid)
    \<and> (list_all (\<lambda>p. \<exists>a. p = Return a) ps \<longrightarrow> map_of (tm_tenants (cw_source w)) tid = Some t)"
proof -
  have c: "cw_cache w0 = \<lparr>mc_maxEntries = maxEntries, mc_entries = []\<rparr>"
    using assms(6) by (auto simp: NewBoundedMemoryCache_def split: if_splits)
  have "\<forall>store\<in>fst ` set calls. cached_memory.sharing cacheID store"
    using assms(3) memoryWrapper_sharing by blast
  then have "map_of (tm_tenants (cw_source w)) tid = Some t \<or> dropping ps tid"
    using cached_memory.lookup_current [OF assms(1,2) assms(5) _ _ _ memoryWrapper_sharing [OF assms(4)] assms(7)]
    by (simp add: c cache_inv_def memoryHeld_def tenantsOf_def)
  moreover have "\<not> dropping ps tid" if "list_all (\<lambda>p. \<exists>a. p = Return a) ps"
    using that by (fastforce simp: dropping_def list_all_iff)
  ultimately show ?thesis by blast
qed

text \<open>
  C28. A client that uses cached stores over one source and one cache, one operation after the
  other, gets from each operation what the source itself would answer, errors and cancelled
  contexts included, and leaves the source as the same operations without a cache leave it.
\<close>

theorem cached_store_transparent:
  assumes "list_all (\<lambda>(store, req). memoryWrapper cacheID store) reqs"
    and "tenant_inv (cw_source w)" "NewBoundedMemoryCache maxEntries = Inr (cw_cache w)"
  shows "fst (cachedRun reqs w) = fst (plainRun reqs (cw_source w))
    \<and> cw_source (snd (cachedRun reqs w)) = snd (plainRun reqs (cw_source w))"
proof -
  have "cw_cache w = \<lparr>mc_maxEntries = maxEntries, mc_entries = []\<rparr>"
    using assms(3) by (auto simp: NewBoundedMemoryCache_def split: if_splits)
  then have "alone cacheID w" using assms(2) by (simp add: alone_def cache_inv_def memoryHeld_def)
  then show ?thesis using runs_transparent assms(1) by blast
qed

definition sampleWrapper :: "Duration \<Rightarrow> (TenantMemory, MemoryCache) CachedStore" where
  "sampleWrapper ttl = \<lparr>cs_next = memoryTenantOps, cs_cache = memoryCacheOps, cs_ttl = ttl, cs_cacheID = 7, cs_cacheReads = True\<rparr>"

definition sampleWorld :: "(TenantMemory, MemoryCache) cachedWorld" where
  "sampleWorld = \<lparr>cw_source = sampleTenants, cw_cache = NewMemoryCache,
     cw_coord = \<lparr>cc_generation = 5, cc_poisoned = {}\<rparr>, cw_ctx = None, cw_now = 1\<rparr>"

lemma sampleWrapper_ok: "memoryWrapper 7 (sampleWrapper ttl)"
  by (auto simp: memoryWrapper_def NewCachedStore_def sampleWrapper_def)

text \<open>The sections of a schedule; a goroutine that has returned does nothing.\<close>

fun runSchedule :: "nat list \<Rightarrow> ('s, 'c) system \<Rightarrow> ('s, 'c) system" where
  "runSchedule [] st = st"
| "runSchedule (i # turns) (ps, w) =
     runSchedule turns
       (if length ps \<le> i then (ps, w)
        else case ps ! i of Return a \<Rightarrow> (ps, w) | Atomic l f \<Rightarrow> (case f w of (p, w') \<Rightarrow> (ps[i := p], w')))"

lemma schedule_steps:
  "systemSteps cacheID ok held n st0 st \<Longrightarrow>
     \<exists>m\<le>n + length turns. systemSteps cacheID ok held m st0 (runSchedule turns st)"
proof (induction turns arbitrary: n st)
  case (Cons i turns)
  obtain ps w where st: "st = (ps, w)" by (cases st)
  show ?case
  proof (cases "i < length ps \<and> (\<exists>l f. ps ! i = Atomic l f)")
    case True
    then obtain l f where f: "i < length ps" "ps ! i = Atomic l f" by blast
    obtain p w' where p: "f w = (p, w')" by fastforce
    from Cons(1) [OF section_run [OF Cons(2) [unfolded st] f p]] show ?thesis using f p st by simp
  next
    case False
    then have "runSchedule (i # turns) st = runSchedule turns st" using st by (cases "ps ! i") auto
    then show ?thesis using Cons(1) [OF Cons(2)] le_SucI by fastforce
  qed
qed auto

text \<open>A reader that read the old tenant before a writer changed it: its fill is refused, and the
  writer's own fill is what a lookup finds.\<close>

definition sampleCalls :: "((TenantMemory, MemoryCache) CachedStore \<times> cachedCall) list" where
  "sampleCalls = [(sampleWrapper 0, CallGet ''a''),
     (sampleWrapper 9, CallUpdate (sampleTenant ''a'' TenantStatusSuspended))]"

definition sampleTurns :: "nat list" where
  "sampleTurns = [0, 0, 1, 1, 0, 1, 1]"

definition sampleRace :: "(TenantMemory, MemoryCache) system" where
  "sampleRace = runSchedule sampleTurns (map startCall sampleCalls, sampleWorld)"

theorem cached_lookup_current_witness:
  "map_of (tm_tenants (cw_source (snd sampleRace))) ''a'' = Some (sampleTenant ''a'' TenantStatusSuspended)
     \<or> dropping (fst sampleRace) ''a''"
proof -
  obtain n where n: "n \<le> 0 + length sampleTurns"
    "systemSteps 7 cache_inv memoryHeld n (map startCall sampleCalls, sampleWorld) (fst sampleRace, snd sampleRace)"
    using schedule_steps [OF stay, where turns = sampleTurns] unfolding sampleRace_def prod.collapse by blast
  have "2 * n < 2 ^ 64" using n(1) by (simp add: sampleTurns_def)
  moreover have "\<forall>store\<in>fst ` set sampleCalls. memoryWrapper 7 store"
    using sampleWrapper_ok by (simp add: sampleCalls_def)
  moreover have "tenant_inv (cw_source sampleWorld)" using sampleTenants_inv by (simp add: sampleWorld_def)
  moreover have "NewBoundedMemoryCache 0 = Inr (cw_cache sampleWorld)"
    by (simp add: NewBoundedMemoryCache_def NewMemoryCache_def sampleWorld_def)
  moreover have "fst (fst (lookupCache (sampleWrapper 0) ''a'' (snd sampleRace))) = Some (sampleTenant ''a'' TenantStatusSuspended)"
    by code_simp
  ultimately show ?thesis using cached_lookup_current [OF n(2) _ _ sampleWrapper_ok] by blast
qed

theorem cached_store_transparent_witness:
  "fst (cachedRun [(sampleWrapper 0, None, 2, CallGet ''a''), (sampleWrapper 9, Some Canceled, 3, CallDelete ''a''),
       (sampleWrapper 0, None, 4, CallDelete ''a''), (sampleWrapper 9, None, 5, CallGet ''a'')] sampleWorld)
     = [Inr (Some (sampleTenant ''a'' TenantStatusActive)), Inl (TenantCtx Canceled), Inr None, Inl ErrTenantNotFound]"
proof -
  let ?reqs = "[(sampleWrapper 0, None, 2, CallGet ''a''), (sampleWrapper 9, Some Canceled, 3, CallDelete ''a''),
       (sampleWrapper 0, None, 4, CallDelete ''a''), (sampleWrapper 9, None, 5, CallGet ''a'')]"
  have "list_all (\<lambda>(store, req). memoryWrapper 7 store) ?reqs" using sampleWrapper_ok by simp
  moreover have "tenant_inv (cw_source sampleWorld)" using sampleTenants_inv by (simp add: sampleWorld_def)
  moreover have "NewBoundedMemoryCache 0 = Inr (cw_cache sampleWorld)"
    by (simp add: NewBoundedMemoryCache_def NewMemoryCache_def sampleWorld_def)
  moreover have "fst (plainRun ?reqs (cw_source sampleWorld))
      = [Inr (Some (sampleTenant ''a'' TenantStatusActive)), Inl (TenantCtx Canceled), Inr None, Inl ErrTenantNotFound]"
    by code_simp
  ultimately show ?thesis using cached_store_transparent by metis
qed

end
