(* ===== verification/Users.thy ===== *)
theory Users
  imports Core_Types Paging
begin

text \<open>
  Users and memberships (\<open>biz/user\<close>): \<open>MemoryService\<close>, two Go maps behind one mutex. Users are
  only ever added; a membership needs its user and is listed per tenant, in order and in pages.
\<close>

datatype user_error =
  UserCtx ctx_error | ErrInvalidUser | ErrUserNotFound | ErrUserExists | ErrMemberNotFound | ErrMemberExists
| ErrInvalidMemberFilter

record User =
  us_ID :: string
  us_Email :: string
  us_Name :: string

record Member =
  mb_TenantID :: TenantID
  mb_UserID :: string
  mb_Roles :: "string list"

type_synonym memberKey = "TenantID \<times> string"

record UserMemory =
  um_users :: "(string, User) gomap"
  um_members :: "(memberKey, Member) gomap"

definition NewUserMemory :: UserMemory where
  "NewUserMemory = \<lparr>um_users = [], um_members = []\<rparr>"

record MemberListFilter =
  ml_Cursor :: string
  ml_Limit :: int64

definition memberFilterValidate :: "MemberListFilter \<Rightarrow> user_error + unit" where
  "memberFilterValidate f = ensure (\<not> ml_Limit f < 0) ErrInvalidMemberFilter"

definition pageMembers :: "Member list \<Rightarrow> MemberListFilter \<Rightarrow> Member list" where
  "pageMembers members f =
     (let rest = (if ml_Cursor f \<noteq> [] then dropWhile (\<lambda>m. \<not> ml_Cursor f < mb_UserID m) members else members)
      in if 0 < ml_Limit f \<and> ml_Limit f < int (length rest) then take (nat (ml_Limit f)) rest else rest)"

definition userCtx :: "ctx \<Rightarrow> user_error + unit" where
  "userCtx cx = (case cx of None \<Rightarrow> Inr () | Some e \<Rightarrow> Inl (UserCtx e))"

section \<open>Operations\<close>

definition Users_CreateUser :: "ctx \<Rightarrow> User \<Rightarrow> UserMemory \<Rightarrow> (user_error + unit) \<times> UserMemory" where
  "Users_CreateUser cx user st =
     on_ok (userCtx cx) st (\<lambda>_.
       if us_ID user = [] \<or> us_Email user = [] then fails ErrInvalidUser st
       else if map_of (um_users st) (us_ID user) \<noteq> None then fails ErrUserExists st
       else (Inr (), st\<lparr>um_users := AList.update (us_ID user) user (um_users st)\<rparr>))"

definition Users_GetUser :: "ctx \<Rightarrow> string \<Rightarrow> UserMemory \<Rightarrow> user_error + User" where
  "Users_GetUser cx uid st =
     bind_ok (userCtx cx) (\<lambda>_.
       if uid = [] then Inl ErrInvalidUser
       else case map_of (um_users st) uid of None \<Rightarrow> Inl ErrUserNotFound | Some user \<Rightarrow> Inr user)"

definition Users_AddMember :: "ctx \<Rightarrow> Member \<Rightarrow> UserMemory \<Rightarrow> (user_error + unit) \<times> UserMemory" where
  "Users_AddMember cx member st =
     on_ok (userCtx cx) st (\<lambda>_.
       if mb_TenantID member = [] \<or> mb_UserID member = [] then fails ErrInvalidUser st
       else if map_of (um_users st) (mb_UserID member) = None then fails ErrUserNotFound st
       else if map_of (um_members st) (mb_TenantID member, mb_UserID member) \<noteq> None then fails ErrMemberExists st
       else (Inr (), st\<lparr>um_members :=
         AList.update (mb_TenantID member, mb_UserID member) member (um_members st)\<rparr>))"

definition Users_GetMember :: "ctx \<Rightarrow> TenantID \<Rightarrow> string \<Rightarrow> UserMemory \<Rightarrow> user_error + Member" where
  "Users_GetMember cx tid uid st =
     bind_ok (userCtx cx) (\<lambda>_.
       if tid = [] \<or> uid = [] then Inl ErrInvalidUser
       else case map_of (um_members st) (tid, uid) of None \<Rightarrow> Inl ErrMemberNotFound | Some member \<Rightarrow> Inr member)"

definition Users_ListMembersPage ::
  "ctx \<Rightarrow> TenantID \<Rightarrow> MemberListFilter \<Rightarrow> UserMemory \<Rightarrow> user_error + Member list"
where
  "Users_ListMembersPage cx tid f st =
     bind_ok (userCtx cx) (\<lambda>_.
       if tid = [] then Inl ErrInvalidUser
       else bind_ok (memberFilterValidate f) (\<lambda>_.
         Inr (pageMembers
           (sort_key mb_UserID (map snd (filter (\<lambda>(key, _). fst key = tid) (um_members st)))) f)))"

definition Users_ListMembers :: "ctx \<Rightarrow> TenantID \<Rightarrow> UserMemory \<Rightarrow> user_error + Member list" where
  "Users_ListMembers cx tid st = Users_ListMembersPage cx tid \<lparr>ml_Cursor = [], ml_Limit = 0\<rparr> st"

definition Users_RemoveMember ::
  "ctx \<Rightarrow> TenantID \<Rightarrow> string \<Rightarrow> UserMemory \<Rightarrow> (user_error + unit) \<times> UserMemory"
where
  "Users_RemoveMember cx tid uid st =
     on_ok (userCtx cx) st (\<lambda>_.
       if tid = [] \<or> uid = [] then fails ErrInvalidUser st
       else if map_of (um_members st) (tid, uid) = None then fails ErrMemberNotFound st
       else (Inr (), st\<lparr>um_members := AList.delete (tid, uid) (um_members st)\<rparr>))"

section \<open>What every operation keeps\<close>

datatype userOp = OpCreateUser ctx User | OpAddMember ctx Member | OpRemoveMember ctx TenantID string

fun userRun :: "userOp \<Rightarrow> UserMemory \<Rightarrow> (user_error + unit) \<times> UserMemory" where
  "userRun (OpCreateUser cx user) st = Users_CreateUser cx user st"
| "userRun (OpAddMember cx member) st = Users_AddMember cx member st"
| "userRun (OpRemoveMember cx tid uid) st = Users_RemoveMember cx tid uid st"

definition userRuns :: "userOp list \<Rightarrow> UserMemory \<Rightarrow> UserMemory" where
  "userRuns = fold (\<lambda>op st. snd (userRun op st))"

definition memberKeyOf :: "Member \<Rightarrow> memberKey" where
  "memberKeyOf member = (mb_TenantID member, mb_UserID member)"

definition users_inv :: "UserMemory \<Rightarrow> bool" where
  "users_inv st \<longleftrightarrow> keyed_map us_ID (um_users st) \<and> keyed_map memberKeyOf (um_members st)
     \<and> (\<forall>uid user. map_of (um_users st) uid = Some user \<longrightarrow> uid \<noteq> [] \<and> us_Email user \<noteq> [])
     \<and> (\<forall>tid uid. map_of (um_members st) (tid, uid) \<noteq> None \<longrightarrow>
          tid \<noteq> [] \<and> uid \<noteq> [] \<and> map_of (um_users st) uid \<noteq> None)"

lemmas user_ops = Users_CreateUser_def Users_AddMember_def Users_RemoveMember_def

lemma userCtx_simps [simp]: "userCtx None = Inr ()" "userCtx (Some e) = Inl (UserCtx e)"
  by (simp_all add: userCtx_def)

lemma userCtx_Inr: "userCtx cx = Inr u \<longleftrightarrow> cx = None"
  by (simp add: userCtx_def split: option.split)

lemma users_inv_new: "users_inv NewUserMemory"
  by (simp add: users_inv_def NewUserMemory_def)

lemma users_inv_member:
  "users_inv st \<Longrightarrow> map_of (um_members st) (tid, uid) = Some m \<Longrightarrow>
     tid \<noteq> [] \<and> uid \<noteq> [] \<and> (\<exists>user. map_of (um_users st) uid = Some user)"
  unfolding users_inv_def by (metis not_None_eq)

lemma users_inv_step: "users_inv st \<Longrightarrow> users_inv (snd (userRun op st))"
  by (cases "(op, st)" rule: userRun.cases)
    (auto simp: user_ops users_inv_def memberKeyOf_def on_ok_def keyed_map_update keyed_map_delete split: sum.split)

lemma users_inv_runs: "users_inv st \<Longrightarrow> users_inv (userRuns ops st)"
  by (induction ops arbitrary: st) (simp_all add: userRuns_def users_inv_step)

text \<open>A user, once created, stays as it is.\<close>

lemma user_kept_step:
  "map_of (um_users st) uid = Some user \<Longrightarrow> map_of (um_users (snd (userRun op st))) uid = Some user"
  by (cases "(op, st)" rule: userRun.cases) (auto simp: user_ops on_ok_def split: sum.split)

lemma user_kept_runs:
  "map_of (um_users st) uid = Some user \<Longrightarrow> map_of (um_users (userRuns ops st)) uid = Some user"
  by (induction ops arbitrary: st) (simp_all add: userRuns_def user_kept_step)

lemma userRun_failed: "fst (userRun op st) = Inl e \<Longrightarrow> snd (userRun op st) = st"
  by (cases "(op, st)" rule: userRun.cases) (auto simp: user_ops on_ok_def split: sum.splits if_splits)

section \<open>Listing the members of a tenant\<close>

definition memberRows :: "UserMemory \<Rightarrow> TenantID \<Rightarrow> Member list" where
  "memberRows st tid = (case Users_ListMembers None tid st of Inl _ \<Rightarrow> [] | Inr rows \<Rightarrow> rows)"

definition memberPage :: "nat \<Rightarrow> TenantID \<Rightarrow> UserMemory \<Rightarrow> string \<Rightarrow> Member list" where
  "memberPage n tid st cursor =
     (case Users_ListMembersPage None tid \<lparr>ml_Cursor = cursor, ml_Limit = int n\<rparr> st of
        Inl _ \<Rightarrow> [] | Inr rows \<Rightarrow> rows)"

definition tenantMembers :: "UserMemory \<Rightarrow> TenantID \<Rightarrow> Member list" where
  "tenantMembers st tid = sort_key mb_UserID (map snd (filter (\<lambda>(key, _). fst key = tid) (um_members st)))"

lemma memberRows_eq: "memberRows st tid = (if tid = [] then [] else tenantMembers st tid)"
  by (simp add: memberRows_def Users_ListMembers_def Users_ListMembersPage_def memberFilterValidate_def
      pageMembers_def tenantMembers_def)

lemma in_tenantMembers:
  "users_inv st \<Longrightarrow> m \<in> set (tenantMembers st tid) \<longleftrightarrow> map_of (um_members st) (tid, mb_UserID m) = Some m"
proof -
  assume i: "users_inv st"
  then have k: "keyed_map memberKeyOf (um_members st)" by (simp add: users_inv_def)
  have "m \<in> set (tenantMembers st tid) \<longleftrightarrow> (\<exists>uid. map_of (um_members st) (tid, uid) = Some m)"
    using keyed_map_wf [OF k] by (force simp: tenantMembers_def)
  then show ?thesis using keyed_mapD [OF k] by (fastforce simp: memberKeyOf_def)
qed

lemma distinct_map_sort: "distinct (map f xs) \<Longrightarrow> distinct (map f (sort_key g xs))"
  by (simp add: distinct_map)

lemma tenantMembers_sorted:
  assumes "users_inv st"
  shows "sorted_wrt (<) (map mb_UserID (tenantMembers st tid))"
proof -
  let ?rows = "filter (\<lambda>(key, _). fst key = tid) (um_members st)"
  have k: "keyed_map memberKeyOf (um_members st)" using assms by (simp add: users_inv_def)
  have "distinct (map fst ?rows)" using keyed_map_wf [OF k] by (simp add: distinct_map_filter)
  moreover have "mb_UserID m = snd key \<and> fst key = tid" if "(key, m) \<in> set ?rows" for key m
    using that keyed_mapD [OF k, of key m] keyed_map_wf [OF k] by (auto simp: memberKeyOf_def)
  then have "map fst ?rows = map (\<lambda>m. (tid, mb_UserID m)) (map snd ?rows)" by fastforce
  ultimately have "distinct (map (Pair tid) (map mb_UserID (map snd ?rows)))" by (simp only: map_map comp_def)
  then have "distinct (map mb_UserID (map snd ?rows))" using distinct_map by blast
  then have "distinct (map mb_UserID (tenantMembers st tid))"
    unfolding tenantMembers_def by (rule distinct_map_sort)
  moreover have "sorted (map mb_UserID (tenantMembers st tid))" by (simp add: tenantMembers_def)
  ultimately show ?thesis by (simp add: strict_sorted_iff)
qed

interpretation member_listing: cursor_listing mb_UserID users_inv memberRows memberPage
proof (unfold_locales, goal_cases)
  case (1 st tid)
  then show ?case by (simp add: memberRows_eq tenantMembers_sorted)
next
  case (2 st n tid c)
  have "mb_UserID m \<noteq> []" if "m \<in> set (tenantMembers st tid)" for m
    using that 2 users_inv_member by (metis in_tenantMembers)
  then have "seekRows mb_UserID c (tenantMembers st tid) = filter (\<lambda>m. c < mb_UserID m) (tenantMembers st tid)"
    using 2 by (intro seekRows_filter tenantMembers_sorted) auto
  then have "pageMembers (tenantMembers st tid) \<lparr>ml_Cursor = c, ml_Limit = int n\<rparr>
      = take n (filter (\<lambda>m. c < mb_UserID m) (tenantMembers st tid))"
    using 2 by (simp add: pageMembers_def seekRows_def Let_def split: if_splits)
  then show ?case
    by (simp add: memberPage_def memberRows_eq Users_ListMembersPage_def memberFilterValidate_def tenantMembers_def)
qed

text \<open>
  After any sequence of operations every membership is that of an existing user, a user that
  was created is still the same, and a client that asks page after page sees exactly the
  members the tenant has, each once, in the order of their identifiers.
\<close>

theorem members_listed:
  assumes "st = userRuns ops NewUserMemory" "tid \<noteq> []" "0 < n" "length (um_members st) < k"
  shows "sorted_wrt (<) (map mb_UserID (walk_pages mb_UserID (memberPage n tid) (replicate k st) []))
    \<and> (\<forall>m. m \<in> set (walk_pages mb_UserID (memberPage n tid) (replicate k st) []) \<longleftrightarrow>
          Users_GetMember None tid (mb_UserID m) st = Inr m)
    \<and> (\<forall>m. Users_GetMember None tid (mb_UserID m) st = Inr m \<longrightarrow>
          (\<exists>user. Users_GetUser None (mb_UserID m) st = Inr user))
    \<and> (\<forall>cx uid user. Users_GetUser cx uid st = Inr user \<longrightarrow>
          Users_GetUser cx uid (userRuns more_ops st) = Inr user)"
proof -
  have i: "users_inv st" using assms(1) users_inv_runs [OF users_inv_new] by simp
  have ids: "mb_UserID m \<noteq> []" if "m \<in> set (tenantMembers st tid)" for m
    using that users_inv_member i by (metis in_tenantMembers)
  have "length (memberRows st tid) < k"
    using le_less_trans [OF length_filter_le assms(4)] assms(4) by (auto simp: memberRows_eq tenantMembers_def)
  then have w: "walk_pages mb_UserID (memberPage n tid) (replicate k st) [] = tenantMembers st tid"
    using member_listing.walk_whole [OF i assms(3), of tid k "[]"] assms(2) ids bot_less_string
    by (simp add: memberRows_eq)
  have get: "Users_GetMember None tid (mb_UserID m) st = Inr m \<longleftrightarrow> m \<in> set (tenantMembers st tid)" for m
    using i assms(2) by (auto simp: in_tenantMembers Users_GetMember_def users_inv_def split: option.split)
  have "\<exists>user. Users_GetUser None (mb_UserID m) st = Inr user" if "m \<in> set (tenantMembers st tid)" for m
    using users_inv_member [OF i] that ids [OF that] in_tenantMembers [OF i]
    by (fastforce simp: Users_GetUser_def)
  moreover have "Users_GetUser cx uid (userRuns more_ops st) = Inr user"
    if "Users_GetUser cx uid st = Inr user" for cx uid user
    using that user_kept_runs by (auto simp: Users_GetUser_def ok_simps)
  ultimately show ?thesis using w tenantMembers_sorted [OF i] get by auto
qed

theorem members_listed_witness:
  "walk_pages mb_UserID (memberPage 1 ''t'') (replicate 3 (userRuns
      [OpCreateUser None \<lparr>us_ID = ''u'', us_Email = ''e'', us_Name = []\<rparr>,
       OpAddMember None \<lparr>mb_TenantID = ''t'', mb_UserID = ''u'', mb_Roles = [''admin'']\<rparr>] NewUserMemory)) [] \<noteq> []"
proof -
  let ?m = "\<lparr>mb_TenantID = ''t'', mb_UserID = ''u'', mb_Roles = [''admin'']\<rparr>"
  let ?ops = "[OpCreateUser None \<lparr>us_ID = ''u'', us_Email = ''e'', us_Name = []\<rparr>, OpAddMember None ?m]"
  have "length (um_members (userRuns ?ops NewUserMemory)) < 3" by code_simp
  note facts = members_listed [OF refl _ _ this, where tid = "''t''" and n = 1, THEN conjunct2, THEN conjunct1]
  have "Users_GetMember None ''t'' ''u'' (userRuns ?ops NewUserMemory) = Inr ?m" by code_simp
  then have "?m \<in> set (walk_pages mb_UserID (memberPage 1 ''t'') (replicate 3 (userRuns ?ops NewUserMemory)) [])"
    using facts by simp
  then show ?thesis by (metis empty_iff list.set(1))
qed

end
