(* ===== verification/Identity.thy ===== *)
theory Identity
  imports Tenant_Manager Users
begin

text \<open>
  External identities (\<open>biz/identity\<close>): assertions, links and providers (\<open>identity.go\<close>,
  \<open>provider.go\<close>), the links of \<open>MemoryStore\<close> (\<open>memory.go\<close>), and the service (\<open>service.go\<close>) over
  the two interfaces it uses. The services act on a world \<open>'s\<close>, as in \<open>Onboarding\<close>. SHA-256 is a
  parameter; the constants of the Go types \<open>ProviderKey\<close> and \<open>ProviderKind\<close> are strings.
\<close>

datatype identity_error =
  IdentityCtx ctx_error | ErrInvalidIdentity | ErrIdentityNotFound | ErrIdentityConflict | ErrProviderNotAllowed
| ErrUnverifiedEmail | IdentityUser user_error

type_synonym ProviderKey = string
type_synonym ProviderKind = string

section \<open>Values\<close>

record Assertion =
  as_TenantID :: TenantID
  as_Provider :: ProviderKey
  as_Subject :: string
  as_UserID :: string
  as_Email :: string
  as_Name :: string
  as_EmailVerified :: bool
  as_Roles :: "string list"
  as_Metadata :: "(string, string) gomap option"

record Link =
  li_TenantID :: TenantID
  li_UserID :: string
  li_Provider :: ProviderKey
  li_Subject :: string
  li_Email :: string
  li_Name :: string
  li_EmailVerified :: bool
  li_Metadata :: "(string, string) gomap option"

record Session =
  se_TenantID :: TenantID
  se_UserID :: string
  se_Provider :: ProviderKey
  se_Subject :: string
  se_Email :: string
  se_Name :: string
  se_Roles :: "string list"

definition Assertion_validate :: "bool \<Rightarrow> Assertion \<Rightarrow> identity_error + unit" where
  "Assertion_validate requireVerifiedEmail a =
     (if as_TenantID a = [] \<or> as_Provider a = [] \<or> as_Subject a = [] \<or> as_Email a = [] then Inl ErrInvalidIdentity
      else if requireVerifiedEmail \<and> \<not> as_EmailVerified a then Inl ErrUnverifiedEmail
      else Inr ())"

definition Link_validate :: "Link \<Rightarrow> identity_error + unit" where
  "Link_validate l =
     (if li_TenantID l = [] \<or> li_UserID l = [] \<or> li_Provider l = [] \<or> li_Subject l = [] \<or> li_Email l = []
      then Inl ErrInvalidIdentity else Inr ())"

section \<open>Providers\<close>

record Provider =
  ip_Key :: ProviderKey
  ip_Kind :: ProviderKind
  ip_Issuer :: string
  ip_AuthorizationURL :: string
  ip_TokenURL :: string
  ip_UserInfoURL :: string
  ip_JWKSURL :: string
  ip_EntityID :: string
  ip_SSOURL :: string
  ip_Scopes :: "string list"
  ip_Metadata :: "(string, string) gomap option"

definition ProviderKindOIDC :: ProviderKind where "ProviderKindOIDC = ''oidc''"
definition ProviderKindOAuth2 :: ProviderKind where "ProviderKindOAuth2 = ''oauth2''"
definition ProviderKindMagicLink :: ProviderKind where "ProviderKindMagicLink = ''magic_link''"
definition ProviderKindSAML :: ProviderKind where "ProviderKindSAML = ''saml''"

lemmas provider_kinds = ProviderKindOIDC_def ProviderKindOAuth2_def ProviderKindMagicLink_def ProviderKindSAML_def

definition Provider_Validate :: "Provider \<Rightarrow> identity_error + unit" where
  "Provider_Validate p =
     (if ip_Key p = [] \<or> ip_Kind p = [] then Inl ErrInvalidIdentity
      else if ip_Kind p = ProviderKindOIDC then
        (if ip_Issuer p = [] then Inl ErrInvalidIdentity else Inr ())
      else if ip_Kind p = ProviderKindOAuth2 then
        (if ip_AuthorizationURL p = [] \<or> ip_TokenURL p = [] then Inl ErrInvalidIdentity else Inr ())
      else if ip_Kind p = ProviderKindMagicLink then
        (if ip_Key p = [] then Inl ErrInvalidIdentity else Inr ())
      else if ip_Kind p = ProviderKindSAML then
        (if ip_EntityID p = [] \<or> ip_SSOURL p = [] then Inl ErrInvalidIdentity else Inr ())
      else Inl ErrInvalidIdentity)"

definition zeroProvider :: Provider where
  "zeroProvider = \<lparr>ip_Key = [], ip_Kind = [], ip_Issuer = [], ip_AuthorizationURL = [], ip_TokenURL = [],
     ip_UserInfoURL = [], ip_JWKSURL = [], ip_EntityID = [], ip_SSOURL = [], ip_Scopes = [], ip_Metadata = None\<rparr>"

definition GoogleOIDC :: Provider where
  "GoogleOIDC = zeroProvider
     \<lparr>ip_Key := ''google'', ip_Kind := ProviderKindOIDC, ip_Issuer := ''https://accounts.google.com'',
      ip_AuthorizationURL := ''https://accounts.google.com/o/oauth2/v2/auth'',
      ip_TokenURL := ''https://oauth2.googleapis.com/token'',
      ip_UserInfoURL := ''https://openidconnect.googleapis.com/v1/userinfo'',
      ip_JWKSURL := ''https://www.googleapis.com/oauth2/v3/certs'',
      ip_Scopes := [''openid'', ''email'', ''profile'']\<rparr>"

definition GitHubOAuth :: Provider where
  "GitHubOAuth = zeroProvider
     \<lparr>ip_Key := ''github'', ip_Kind := ProviderKindOAuth2,
      ip_AuthorizationURL := ''https://github.com/login/oauth/authorize'',
      ip_TokenURL := ''https://github.com/login/oauth/access_token'',
      ip_UserInfoURL := ''https://api.github.com/user'', ip_Scopes := [''read:user'', ''user:email'']\<rparr>"

definition MicrosoftEntraID :: "string \<Rightarrow> Provider" where
  "MicrosoftEntraID tenant =
     (let tenant' = (if TrimSpace tenant = [] then ''common'' else TrimSpace tenant);
          baseURL = ''https://login.microsoftonline.com/'' @ tenant' @ ''/oauth2/v2.0''
      in zeroProvider
        \<lparr>ip_Key := ''microsoft'', ip_Kind := ProviderKindOIDC,
         ip_Issuer := ''https://login.microsoftonline.com/'' @ tenant' @ ''/v2.0'',
         ip_AuthorizationURL := baseURL @ ''/authorize'', ip_TokenURL := baseURL @ ''/token'',
         ip_UserInfoURL := ''https://graph.microsoft.com/oidc/userinfo'',
         ip_JWKSURL := ''https://login.microsoftonline.com/'' @ tenant' @ ''/discovery/v2.0/keys'',
         ip_Scopes := [''openid'', ''email'', ''profile'']\<rparr>)"

definition MagicLink :: "ProviderKey \<Rightarrow> Provider" where
  "MagicLink key = zeroProvider
     \<lparr>ip_Key := (if key = [] then ''magic_link'' else key), ip_Kind := ProviderKindMagicLink,
      ip_Metadata := Some [(''flow'', ''magic_link'')]\<rparr>"

definition SAML :: "ProviderKey \<Rightarrow> string \<Rightarrow> string \<Rightarrow> Provider" where
  "SAML key entityID ssoURL = zeroProvider
     \<lparr>ip_Key := (if key = [] then ''saml'' else key), ip_Kind := ProviderKindSAML,
      ip_EntityID := entityID, ip_SSOURL := ssoURL\<rparr>"

definition GenericOIDC :: "ProviderKey \<Rightarrow> string \<Rightarrow> string list \<Rightarrow> Provider" where
  "GenericOIDC key issuer scopes = zeroProvider
     \<lparr>ip_Key := key, ip_Kind := ProviderKindOIDC, ip_Issuer := issuer,
      ip_Scopes := (if scopes = [] then [''openid'', ''email'', ''profile''] else scopes)\<rparr>"

text \<open>The presets are valid, and the others exactly when their arguments are there.\<close>

lemma presets_valid:
  "Provider_Validate GoogleOIDC = Inr ()" "Provider_Validate GitHubOAuth = Inr ()"
  "Provider_Validate (MicrosoftEntraID tenant) = Inr ()" "Provider_Validate (MagicLink key) = Inr ()"
  "Provider_Validate (SAML key entityID ssoURL) = Inr () \<longleftrightarrow> entityID \<noteq> [] \<and> ssoURL \<noteq> []"
  "Provider_Validate (GenericOIDC key issuer scopes) = Inr () \<longleftrightarrow> key \<noteq> [] \<and> issuer \<noteq> []"
  by (simp_all add: Provider_Validate_def GoogleOIDC_def GitHubOAuth_def MicrosoftEntraID_def MagicLink_def
      SAML_def GenericOIDC_def provider_kinds Let_def)

section \<open>The links of the in-memory store\<close>

type_synonym externalKey = "TenantID \<times> ProviderKey \<times> string"

record LinkMemory =
  lm_links :: "(externalKey, Link) gomap"

definition NewLinkMemory :: LinkMemory where
  "NewLinkMemory = \<lparr>lm_links = []\<rparr>"

definition identityCtx :: "ctx \<Rightarrow> identity_error + unit" where
  "identityCtx cx = (case cx of None \<Rightarrow> Inr () | Some e \<Rightarrow> Inl (IdentityCtx e))"

definition linkKey :: "Link \<Rightarrow> externalKey" where
  "linkKey l = (li_TenantID l, li_Provider l, li_Subject l)"

definition Links_Link :: "ctx \<Rightarrow> Link \<Rightarrow> LinkMemory \<Rightarrow> (identity_error + unit) \<times> LinkMemory" where
  "Links_Link cx link st =
     on_ok (identityCtx cx) st (\<lambda>_. on_ok (Link_validate link) st (\<lambda>_.
       if (case map_of (lm_links st) (linkKey link) of None \<Rightarrow> False
           | Some current \<Rightarrow> li_UserID current \<noteq> li_UserID link) then fails ErrIdentityConflict st
       else (Inr (), st\<lparr>lm_links := AList.update (linkKey link) link (lm_links st)\<rparr>)))"

definition Links_GetByExternal ::
  "ctx \<Rightarrow> TenantID \<Rightarrow> ProviderKey \<Rightarrow> string \<Rightarrow> LinkMemory \<Rightarrow> identity_error + Link"
where
  "Links_GetByExternal cx tid provider subject st =
     bind_ok (identityCtx cx) (\<lambda>_.
       if tid = [] \<or> provider = [] \<or> subject = [] then Inl ErrInvalidIdentity
       else case map_of (lm_links st) (tid, provider, subject) of
              None \<Rightarrow> Inl ErrIdentityNotFound | Some link \<Rightarrow> Inr link)"

definition Links_GetByUser :: "ctx \<Rightarrow> TenantID \<Rightarrow> string \<Rightarrow> LinkMemory \<Rightarrow> identity_error + Link list" where
  "Links_GetByUser cx tid uid st =
     bind_ok (identityCtx cx) (\<lambda>_.
       if tid = [] \<or> uid = [] then Inl ErrInvalidIdentity
       else Inr (sort_key (\<lambda>l. (li_Provider l, li_Subject l))
              (filter (\<lambda>l. li_TenantID l = tid \<and> li_UserID l = uid) (vals (lm_links st)))))"

definition Links_Unlink ::
  "ctx \<Rightarrow> TenantID \<Rightarrow> ProviderKey \<Rightarrow> string \<Rightarrow> LinkMemory \<Rightarrow> (identity_error + unit) \<times> LinkMemory"
where
  "Links_Unlink cx tid provider subject st =
     on_ok (identityCtx cx) st (\<lambda>_.
       if tid = [] \<or> provider = [] \<or> subject = [] then fails ErrInvalidIdentity st
       else if map_of (lm_links st) (tid, provider, subject) = None then fails ErrIdentityNotFound st
       else (Inr (), st\<lparr>lm_links := AList.delete (tid, provider, subject) (lm_links st)\<rparr>))"

section \<open>The service\<close>

record 's userService =
  iu_GetUser :: "string \<Rightarrow> 's \<Rightarrow> (user_error + User) \<times> 's"
  iu_CreateUser :: "User \<Rightarrow> 's \<Rightarrow> (user_error + unit) \<times> 's"
  iu_AddMember :: "Member \<Rightarrow> 's \<Rightarrow> (user_error + unit) \<times> 's"
  iu_GetMember :: "TenantID \<Rightarrow> string \<Rightarrow> 's \<Rightarrow> (user_error + Member) \<times> 's"

record 's linkStore =
  il_Link :: "Link \<Rightarrow> 's \<Rightarrow> (identity_error + unit) \<times> 's"
  il_GetByExternal :: "TenantID \<Rightarrow> ProviderKey \<Rightarrow> string \<Rightarrow> 's \<Rightarrow> (identity_error + Link) \<times> 's"

record 's IdentityService =
  id_users :: "'s userService option"
  id_store :: "'s linkStore option"
  id_providers :: "(ProviderKey, Provider) gomap"
  id_defaultRoles :: "string list"
  id_requireVerifiedEmail :: bool

type_synonym 's IdentityOption = "'s IdentityService \<Rightarrow> 's IdentityService"

definition WithLinkStore :: "'s linkStore option \<Rightarrow> 's IdentityOption" where
  "WithLinkStore store service = (if store \<noteq> None then service\<lparr>id_store := store\<rparr> else service)"

definition WithProviders :: "Provider list \<Rightarrow> 's IdentityOption" where
  "WithProviders providers service =
     fold (\<lambda>provider service. if ip_Key provider = [] then service
             else service\<lparr>id_providers := AList.update (ip_Key provider) provider (id_providers service)\<rparr>)
       providers service"

definition WithDefaultRoles :: "string list \<Rightarrow> 's IdentityOption" where
  "WithDefaultRoles roles service = service\<lparr>id_defaultRoles := roles\<rparr>"

definition WithEmailVerificationRequired :: "bool \<Rightarrow> 's IdentityOption" where
  "WithEmailVerificationRequired required service = service\<lparr>id_requireVerifiedEmail := required\<rparr>"

text \<open>\<open>memory\<close> is the fresh in-memory store the constructor starts from.\<close>

definition NewIdentityService ::
  "'s linkStore \<Rightarrow> 's userService option \<Rightarrow> 's IdentityOption option list \<Rightarrow> 's IdentityService"
where
  "NewIdentityService memory users opts =
     fold (\<lambda>opt service. case opt of None \<Rightarrow> service | Some f \<Rightarrow> f service) opts
       \<lparr>id_users = users, id_store = Some memory, id_providers = [], id_defaultRoles = [],
        id_requireVerifiedEmail = True\<rparr>"

definition DefaultUserID :: "(string \<Rightarrow> char list) \<Rightarrow> ProviderKey \<Rightarrow> string \<Rightarrow> string" where
  "DefaultUserID sha256 provider subject =
     ''idp_'' @ hexEncode (take 16 (sha256 (provider @ [CHR 0x00] @ subject)))"

definition normalizeAssertion :: "Assertion \<Rightarrow> Assertion" where
  "normalizeAssertion a = a\<lparr>as_Provider := TrimSpace (as_Provider a), as_Subject := TrimSpace (as_Subject a),
     as_UserID := TrimSpace (as_UserID a), as_Email := TrimSpace (as_Email a), as_Name := TrimSpace (as_Name a)\<rparr>"

definition validateProvider :: "'s IdentityService \<Rightarrow> ProviderKey \<Rightarrow> identity_error + unit" where
  "validateProvider service key =
     (case map_of (id_providers service) key of
        None \<Rightarrow> Inl ErrProviderNotAllowed
      | Some provider \<Rightarrow> Provider_Validate provider)"

definition validateExistingUser :: "User \<Rightarrow> Assertion \<Rightarrow> identity_error + unit" where
  "validateExistingUser current a = ensure (us_Email current = as_Email a) ErrIdentityConflict"

text \<open>An error of the services, in a call that changes the world.\<close>

definition userCall :: "(user_error + 'a) \<times> 's \<Rightarrow> (identity_error + 'a) \<times> 's" where
  "userCall call = map_prod (map_sum IdentityUser id) id call"

text \<open>The two steps of \<open>userID\<close>: which user the assertion means, and whether the link agrees.\<close>

definition assertedUser ::
  "(string \<Rightarrow> char list) \<Rightarrow> 's linkStore \<Rightarrow> Assertion \<Rightarrow> 's \<Rightarrow> (identity_error + string) \<times> 's"
where
  "assertedUser sha256 store a s =
     (let orDefault = (\<lambda>uid. if uid = [] then DefaultUserID sha256 (as_Provider a) (as_Subject a) else uid) in
      if as_UserID a \<noteq> [] then (Inr (as_UserID a), s)
      else case il_GetByExternal store (as_TenantID a) (as_Provider a) (as_Subject a) s of
             (Inr link, s1) \<Rightarrow> (Inr (orDefault (li_UserID link)), s1)
           | (Inl e, s1) \<Rightarrow> if e = ErrIdentityNotFound then (Inr (orDefault []), s1) else fails e s1)"

definition userID ::
  "(string \<Rightarrow> char list) \<Rightarrow> 's linkStore \<Rightarrow> Assertion \<Rightarrow> 's \<Rightarrow> (identity_error + string) \<times> 's"
where
  "userID sha256 store a s =
     on_done (assertedUser sha256 store a s) (\<lambda>uid s1.
       case il_GetByExternal store (as_TenantID a) (as_Provider a) (as_Subject a) s1 of
         (Inr link, s2) \<Rightarrow> if li_UserID link \<noteq> uid then fails ErrIdentityConflict s2 else (Inr uid, s2)
       | (Inl e, s2) \<Rightarrow> if e \<noteq> ErrIdentityNotFound then fails e s2 else (Inr uid, s2))"

definition ensureUser :: "'s userService \<Rightarrow> string \<Rightarrow> Assertion \<Rightarrow> 's \<Rightarrow> (identity_error + unit) \<times> 's" where
  "ensureUser users uid a s =
     (case iu_GetUser users uid s of
        (Inr current, s1) \<Rightarrow> (validateExistingUser current a, s1)
      | (Inl e, s1) \<Rightarrow>
          if e \<noteq> ErrUserNotFound then fails (IdentityUser e) s1
          else case iu_CreateUser users \<lparr>us_ID = uid, us_Email = as_Email a, us_Name = as_Name a\<rparr> s1 of
                 (Inr u, s2) \<Rightarrow> (Inr (), s2)
               | (Inl e2, s2) \<Rightarrow>
                   if e2 = ErrUserExists then
                     on_done (userCall (iu_GetUser users uid s2)) (\<lambda>current s3. (validateExistingUser current a, s3))
                   else fails (IdentityUser e2) s2)"

text \<open>The membership, and the roles of the session.\<close>

definition ensureMember ::
  "'s IdentityService \<Rightarrow> 's userService \<Rightarrow> string \<Rightarrow> Assertion \<Rightarrow> 's \<Rightarrow> (identity_error + string list) \<times> 's"
where
  "ensureMember service users uid a s =
     (let roles = (if as_Roles a = [] then id_defaultRoles service else as_Roles a) in
      case iu_AddMember users \<lparr>mb_TenantID = as_TenantID a, mb_UserID = uid, mb_Roles = roles\<rparr> s of
        (Inr u, s1) \<Rightarrow> (Inr roles, s1)
      | (Inl e, s1) \<Rightarrow>
          if e \<noteq> ErrMemberExists then fails (IdentityUser e) s1
          else on_done (userCall (iu_GetMember users (as_TenantID a) uid s1))
                 (\<lambda>member s2. (Inr (mb_Roles member), s2)))"

definition assertedLink :: "string \<Rightarrow> Assertion \<Rightarrow> Link" where
  "assertedLink uid a =
     \<lparr>li_TenantID = as_TenantID a, li_UserID = uid, li_Provider = as_Provider a, li_Subject = as_Subject a,
      li_Email = as_Email a, li_Name = as_Name a, li_EmailVerified = as_EmailVerified a,
      li_Metadata = as_Metadata a\<rparr>"

definition assertedSession :: "string \<Rightarrow> string list \<Rightarrow> Assertion \<Rightarrow> Session" where
  "assertedSession uid roles a =
     \<lparr>se_TenantID = as_TenantID a, se_UserID = uid, se_Provider = as_Provider a, se_Subject = as_Subject a,
      se_Email = as_Email a, se_Name = as_Name a, se_Roles = roles\<rparr>"

definition Authenticate ::
  "(string \<Rightarrow> char list) \<Rightarrow> ctx \<Rightarrow> 's IdentityService option \<Rightarrow> Assertion \<Rightarrow> 's \<Rightarrow> (identity_error + Session) \<times> 's"
where
  "Authenticate sha256 cx service assertion s =
     on_ok (identityCtx cx) s (\<lambda>_.
       case service of None \<Rightarrow> fails ErrInvalidIdentity s | Some sv \<Rightarrow>
       (case (id_users sv, id_store sv) of
          (Some users, Some store) \<Rightarrow>
            (let a = normalizeAssertion assertion in
             on_ok (Assertion_validate (id_requireVerifiedEmail sv) a) s (\<lambda>_.
             on_ok (validateProvider sv (as_Provider a)) s (\<lambda>_.
             on_done (userID sha256 store a s) (\<lambda>uid s1.
             on_done (ensureUser users uid a s1) (\<lambda>_ s2.
             on_done (ensureMember sv users uid a s2) (\<lambda>roles s3.
             on_done (il_Link store (assertedLink uid a) s3) (\<lambda>_ s4.
               (Inr (assertedSession uid roles a), s4))))))))
        | _ \<Rightarrow> fails ErrInvalidIdentity s))"

end
