(* ===== verification/Identity_Guarantees.thy ===== *)
theory Identity_Guarantees
  imports Identity
begin

text \<open>
  What a login guarantees: proved once for any user service and link store that keep the contract
  \<open>login_backend\<close>, or \<open>stable_login_backend\<close> when an identity is not unlinked, and instantiated with
  the in-memory services among other users of them.
\<close>

section \<open>The contract of the services\<close>

locale login_backend =
  fixes users :: "'s userService" and store :: "'s linkStore" and inv :: "'s \<Rightarrow> bool"
    and user_of :: "'s \<Rightarrow> string \<Rightarrow> User option" and link_of :: "'s \<Rightarrow> externalKey \<Rightarrow> Link option"
    and evolves :: "'s \<Rightarrow> 's \<Rightarrow> bool"
  assumes evolves_refl: "evolves s s"
    and evolves_trans: "evolves s s' \<Longrightarrow> evolves s' s'' \<Longrightarrow> evolves s s''"
    and evolves_user: "evolves s s' \<Longrightarrow> user_of s uid = Some user \<Longrightarrow> user_of s' uid = Some user"
    and get_user: "inv s \<Longrightarrow> iu_GetUser users uid s = (ru, s') \<Longrightarrow>
      inv s' \<and> evolves s s' \<and> (\<forall>user. ru = Inr user \<longrightarrow> user_of s' uid = Some user)"
    and create_user: "inv s \<Longrightarrow> iu_CreateUser users user s = (rc, s') \<Longrightarrow>
      inv s' \<and> evolves s s' \<and> (rc = Inr () \<longrightarrow> user_of s' (us_ID user) = Some user)"
    and add_member: "inv s \<Longrightarrow> iu_AddMember users member s = (rc, s') \<Longrightarrow> inv s' \<and> evolves s s'"
    and get_member: "inv s \<Longrightarrow> iu_GetMember users tid uid s = (rm, s') \<Longrightarrow> inv s' \<and> evolves s s'"
    and link_done: "inv s \<Longrightarrow> il_Link store link s = (rl, s') \<Longrightarrow>
      inv s' \<and> evolves s s' \<and> (rl = Inr () \<longrightarrow> link_of s' (linkKey link) = Some link)"
    and get_external: "inv s \<Longrightarrow> il_GetByExternal store tid provider subject s = (rg, s') \<Longrightarrow>
      inv s' \<and> evolves s s'"
begin

lemma assertedUser_keeps: "inv s \<Longrightarrow> assertedUser sha256 store a s = (r, s') \<Longrightarrow> inv s' \<and> evolves s s'"
  using get_external [of s "as_TenantID a" "as_Provider a" "as_Subject a"] evolves_refl
  by (auto simp: assertedUser_def Let_def split: if_splits prod.splits sum.splits)

lemma userID_keeps:
  assumes "inv s" "userID sha256 store a s = (r, s')"
  shows "inv s' \<and> evolves s s'"
proof -
  obtain r1 s1 where u: "assertedUser sha256 store a s = (r1, s1)" by fastforce
  note k1 = assertedUser_keeps [OF assms(1) u]
  obtain g s2 where g: "il_GetByExternal store (as_TenantID a) (as_Provider a) (as_Subject a) s1 = (g, s2)" by fastforce
  note k2 = get_external [OF k1 [THEN conjunct1] g]
  have "s' = s1 \<or> s' = s2"
    using assms(2) u g by (auto simp: userID_def on_done_def split: if_splits sum.splits)
  then show ?thesis using k1 k2 evolves_trans by blast
qed

lemma ensureUser_keeps:
  assumes "inv s" "ensureUser users uid a s = (r, s')"
  shows "inv s' \<and> evolves s s' \<and> (r = Inr () \<longrightarrow> (\<exists>user. user_of s' uid = Some user \<and> us_Email user = as_Email a))"
proof -
  obtain g s1 where g: "iu_GetUser users uid s = (g, s1)" by fastforce
  note g' = get_user [OF assms(1) g]
  show ?thesis
  proof (cases g)
    case (Inr user)
    with g g' assms(2) show ?thesis by (auto simp: ensureUser_def validateExistingUser_def ok_simps)
  next
    case (Inl e)
    let ?new = "\<lparr>us_ID = uid, us_Email = as_Email a, us_Name = as_Name a\<rparr>"
    obtain c s2 where c: "iu_CreateUser users ?new s1 = (c, s2)" by fastforce
    have i1: "inv s1" using g' by simp
    note c' = create_user [OF i1 c]
    obtain h s3 where h: "iu_GetUser users uid s2 = (h, s3)" by fastforce
    have "inv s2" using c' by simp
    note h' = get_user [OF this h]
    have "evolves s s2" "evolves s s3" using g' c' h' evolves_trans by blast+
    with Inl g c h g' c' h' assms(2) show ?thesis
      by (cases h) (auto simp: ensureUser_def userCall_def validateExistingUser_def ok_simps split: if_splits sum.splits)
  qed
qed

lemma ensureMember_keeps:
  assumes "inv s" "ensureMember sv users uid a s = (r, s')"
  shows "inv s' \<and> evolves s s'"
proof -
  let ?member = "\<lparr>mb_TenantID = as_TenantID a, mb_UserID = uid,
    mb_Roles = (if as_Roles a = [] then id_defaultRoles sv else as_Roles a)\<rparr>"
  obtain r1 s1 where m: "iu_AddMember users ?member s = (r1, s1)" by fastforce
  note k1 = add_member [OF assms(1) m]
  obtain g s2 where g: "iu_GetMember users (as_TenantID a) uid s1 = (g, s2)" by fastforce
  note k2 = get_member [OF k1 [THEN conjunct1] g]
  have "s' = s1 \<or> s' = s2"
    using assms(2) m g by (auto simp: ensureMember_def userCall_def on_done_def Let_def split: if_splits sum.splits)
  then show ?thesis using k1 k2 evolves_trans by blast
qed

lemma login_keeps:
  assumes "inv s" "id_users sv = Some users" "id_store sv = Some store"
    "Authenticate sha256 cx (Some sv) a s = (Inr session, s')"
  shows "inv s' \<and> evolves s s' \<and> cx = None
    \<and> (\<exists>uid roles. session = assertedSession uid roles (normalizeAssertion a)
      \<and> Assertion_validate (id_requireVerifiedEmail sv) (normalizeAssertion a) = Inr ()
      \<and> validateProvider sv (se_Provider session) = Inr ()
      \<and> link_of s' (se_TenantID session, se_Provider session, se_Subject session)
          = Some (assertedLink uid (normalizeAssertion a))
      \<and> (\<exists>user. user_of s' uid = Some user \<and> us_Email user = se_Email session))"
proof -
  let ?a = "normalizeAssertion a"
  from assms(2-4) obtain uid s1 s2 roles s3 where
    checks: "cx = None" "Assertion_validate (id_requireVerifiedEmail sv) ?a = Inr ()"
      "validateProvider sv (as_Provider ?a) = Inr ()"
    and u: "userID sha256 store ?a s = (Inr uid, s1)" and e: "ensureUser users uid ?a s1 = (Inr (), s2)"
    and m: "ensureMember sv users uid ?a s2 = (Inr roles, s3)"
    and l: "il_Link store (assertedLink uid ?a) s3 = (Inr (), s')"
    and session: "session = assertedSession uid roles ?a"
    by (auto simp: Authenticate_def identityCtx_def Let_def ok_simps split: option.splits)
  note k1 = userID_keeps [OF assms(1) u]
  note k2 = ensureUser_keeps [OF k1 [THEN conjunct1] e]
  note k3 = ensureMember_keeps [OF k2 [THEN conjunct1] m]
  note k4 = link_done [OF k3 [THEN conjunct1] l]
  have "evolves s2 s'" "evolves s s'" using k1 k2 k3 k4 evolves_trans by blast+
  moreover obtain user where "user_of s2 uid = Some user" "us_Email user = as_Email ?a" using k2 by auto
  ultimately have "\<exists>user. user_of s' uid = Some user \<and> us_Email user = as_Email ?a" using evolves_user by blast
  with checks session k4 \<open>evolves s s'\<close> show ?thesis
    by (auto simp: assertedSession_def assertedLink_def linkKey_def)
qed

end

text \<open>The same when nobody unlinks the identity \<open>key\<close>.\<close>

locale stable_login_backend = login_backend users store inv user_of link_of evolves
  for users :: "'s userService" and store :: "'s linkStore" and inv user_of
    and link_of :: "'s \<Rightarrow> externalKey \<Rightarrow> Link option" and evolves +
  fixes key :: externalKey
  assumes evolves_link: "evolves s s' \<Longrightarrow> link_of s key = Some link \<Longrightarrow>
    \<exists>link'. link_of s' key = Some link' \<and> li_UserID link' = li_UserID link"
begin

lemma logins_agree:
  assumes "inv s" "id_users sv = Some users" "id_store sv = Some store"
    "Authenticate sha256 cx (Some sv) a s = (Inr session, s1)"
    "inv s2" "evolves s1 s2" "id_users sv' = Some users" "id_store sv' = Some store"
    "Authenticate sha256' cx' (Some sv') a' s2 = (Inr session', s3)"
    "(se_TenantID session, se_Provider session, se_Subject session) = key"
    "(se_TenantID session', se_Provider session', se_Subject session') = key"
  shows "se_UserID session' = se_UserID session"
proof -
  obtain l1 where l1: "link_of s1 key = Some l1" "li_UserID l1 = se_UserID session"
    using login_keeps [OF assms(1-4)] assms(10) by (auto simp: assertedSession_def assertedLink_def)
  obtain l3 where l3: "link_of s3 key = Some l3" "li_UserID l3 = se_UserID session'" and e: "evolves s2 s3"
    using login_keeps [OF assms(5,7-9)] assms(11) by (auto simp: assertedSession_def assertedLink_def)
  show ?thesis using evolves_link [OF evolves_trans [OF assms(6) e] l1(1)] l1(2) l3 by simp
qed

end

section \<open>The in-memory services among their other users\<close>

datatype linkOp = OpLink ctx Link | OpUnlink ctx TenantID ProviderKey string

fun linkRun :: "linkOp \<Rightarrow> LinkMemory \<Rightarrow> (identity_error + unit) \<times> LinkMemory" where
  "linkRun (OpLink cx link) st = Links_Link cx link st"
| "linkRun (OpUnlink cx tid provider subject) st = Links_Unlink cx tid provider subject st"

definition linkRuns :: "linkOp list \<Rightarrow> LinkMemory \<Rightarrow> LinkMemory" where
  "linkRuns = fold (\<lambda>op st. snd (linkRun op st))"

text \<open>What the others do before each call, and what each call's context answers.\<close>

record loginEnv =
  le_users :: "nat \<Rightarrow> userOp list"
  le_links :: "nat \<Rightarrow> linkOp list"
  le_ctx :: "nat \<Rightarrow> ctx"

record loginWorld =
  lw_users :: UserMemory
  lw_links :: LinkMemory
  lw_calls :: nat

definition othersRun :: "loginEnv \<Rightarrow> loginWorld \<Rightarrow> loginWorld" where
  "othersRun env w =
     \<lparr>lw_users = userRuns (le_users env (lw_calls w)) (lw_users w),
      lw_links = linkRuns (le_links env (lw_calls w)) (lw_links w), lw_calls = Suc (lw_calls w)\<rparr>"

definition onUsers ::
  "loginEnv \<Rightarrow> (ctx \<Rightarrow> UserMemory \<Rightarrow> 'r \<times> UserMemory) \<Rightarrow> loginWorld \<Rightarrow> 'r \<times> loginWorld"
where
  "onUsers env f w =
     (let w' = othersRun env w; (r, st) = f (le_ctx env (lw_calls w)) (lw_users w') in (r, w'\<lparr>lw_users := st\<rparr>))"

definition onLinks ::
  "loginEnv \<Rightarrow> (ctx \<Rightarrow> LinkMemory \<Rightarrow> 'r \<times> LinkMemory) \<Rightarrow> loginWorld \<Rightarrow> 'r \<times> loginWorld"
where
  "onLinks env f w =
     (let w' = othersRun env w; (r, st) = f (le_ctx env (lw_calls w)) (lw_links w') in (r, w'\<lparr>lw_links := st\<rparr>))"

definition memoryUsers :: "loginEnv \<Rightarrow> loginWorld userService" where
  "memoryUsers env =
     \<lparr>iu_GetUser = (\<lambda>uid. onUsers env (\<lambda>cx st. (Users_GetUser cx uid st, st))),
      iu_CreateUser = (\<lambda>user. onUsers env (\<lambda>cx. Users_CreateUser cx user)),
      iu_AddMember = (\<lambda>member. onUsers env (\<lambda>cx. Users_AddMember cx member)),
      iu_GetMember = (\<lambda>tid uid. onUsers env (\<lambda>cx st. (Users_GetMember cx tid uid st, st)))\<rparr>"

definition memoryLinks :: "loginEnv \<Rightarrow> loginWorld linkStore" where
  "memoryLinks env =
     \<lparr>il_Link = (\<lambda>link. onLinks env (\<lambda>cx. Links_Link cx link)),
      il_GetByExternal = (\<lambda>tid provider subject.
        onLinks env (\<lambda>cx st. (Links_GetByExternal cx tid provider subject st, st)))\<rparr>"

definition login_inv :: "loginWorld \<Rightarrow> bool" where
  "login_inv w \<longleftrightarrow> users_inv (lw_users w) \<and> keyed_map linkKey (lm_links (lw_links w))"

definition usersKept :: "loginWorld \<Rightarrow> loginWorld \<Rightarrow> bool" where
  "usersKept w w' \<longleftrightarrow> (\<forall>uid user. map_of (um_users (lw_users w)) uid = Some user \<longrightarrow>
     map_of (um_users (lw_users w')) uid = Some user)"

definition identityKept :: "externalKey \<Rightarrow> loginWorld \<Rightarrow> loginWorld \<Rightarrow> bool" where
  "identityKept key w w' \<longleftrightarrow> usersKept w w'
     \<and> (\<forall>link. map_of (lm_links (lw_links w)) key = Some link \<longrightarrow>
          (\<exists>link'. map_of (lm_links (lw_links w')) key = Some link' \<and> li_UserID link' = li_UserID link))"

fun unlinks :: "externalKey \<Rightarrow> linkOp \<Rightarrow> bool" where
  "unlinks key (OpLink cx link) = False"
| "unlinks key (OpUnlink cx tid provider subject) = ((tid, provider, subject) = key)"

text \<open>The environment without the calls that unlink an identity.\<close>

definition withoutUnlink :: "externalKey \<Rightarrow> loginEnv \<Rightarrow> loginEnv" where
  "withoutUnlink key env = env\<lparr>le_links := (\<lambda>n. filter (\<lambda>op. \<not> unlinks key op) (le_links env n))\<rparr>"

lemma identityCtx_simps [simp]: "identityCtx None = Inr ()" "identityCtx (Some e) = Inl (IdentityCtx e)"
  by (simp_all add: identityCtx_def)

lemma linkRun_keyed: "keyed_map linkKey (lm_links st) \<Longrightarrow> keyed_map linkKey (lm_links (snd (linkRun op st)))"
  by (cases "(op, st)" rule: linkRun.cases)
    (auto simp: Links_Link_def Links_Unlink_def on_ok_def keyed_map_update keyed_map_delete split: sum.split)

lemma linkRuns_keyed: "keyed_map linkKey (lm_links st) \<Longrightarrow> keyed_map linkKey (lm_links (linkRuns ops st))"
  by (induction ops arbitrary: st) (simp_all add: linkRuns_def linkRun_keyed)

text \<open>A link of the key stays with its user unless it is removed.\<close>

lemma linkRun_owner:
  "map_of (lm_links st) key = Some link \<Longrightarrow> \<not> unlinks key op \<Longrightarrow>
     \<exists>link'. map_of (lm_links (snd (linkRun op st))) key = Some link' \<and> li_UserID link' = li_UserID link"
  by (cases "(op, st)" rule: linkRun.cases)
    (auto simp: Links_Link_def Links_Unlink_def on_ok_def split: sum.split option.split)

lemma linkRuns_owner:
  "map_of (lm_links st) key = Some link \<Longrightarrow> list_all (\<lambda>op. \<not> unlinks key op) ops \<Longrightarrow>
     \<exists>link'. map_of (lm_links (linkRuns ops st)) key = Some link' \<and> li_UserID link' = li_UserID link"
proof (induction ops arbitrary: st link)
  case (Cons op ops)
  obtain link1 where "map_of (lm_links (snd (linkRun op st))) key = Some link1" "li_UserID link1 = li_UserID link"
    using linkRun_owner Cons.prems by fastforce
  then show ?case using Cons.IH [of "snd (linkRun op st)" link1] Cons.prems by (simp add: linkRuns_def)
qed (simp add: linkRuns_def)

lemma others_keep:
  assumes "login_inv w"
  shows "login_inv (othersRun env w)" "usersKept w (othersRun env w)"
    "identityKept key w (othersRun (withoutUnlink key env) w)"
  using assms users_inv_runs linkRuns_keyed user_kept_runs linkRuns_owner
  by (auto simp: login_inv_def usersKept_def identityKept_def othersRun_def withoutUnlink_def list_all_iff)

text \<open>A call of the user service, or of the link store, is one more operation after the others.\<close>

lemma user_call:
  assumes "login_inv w" "onUsers env (\<lambda>cx. userRun (op cx)) w = (r, w')"
  shows "login_inv w'" "usersKept w w'" "env = withoutUnlink key env' \<Longrightarrow> identityKept key w w'"
  using assms others_keep(1,2) [OF assms(1), of env] others_keep(3) [OF assms(1), of key env'] users_inv_step user_kept_step
  by (auto simp: onUsers_def Let_def split_beta login_inv_def usersKept_def identityKept_def)

lemma user_read:
  assumes "login_inv w" "onUsers env (\<lambda>cx st. (f cx st, st)) w = (r, w')"
  shows "login_inv w'" "usersKept w w'" "env = withoutUnlink key env' \<Longrightarrow> identityKept key w w'"
  using assms others_keep(1,2) [OF assms(1), of env] others_keep(3) [OF assms(1), of key env'] by (auto simp: onUsers_def Let_def)

lemma link_call:
  assumes "login_inv w" "onLinks env (\<lambda>cx. linkRun (op cx)) w = (r, w')"
  shows "login_inv w'" "usersKept w w'"
    "env = withoutUnlink key env' \<Longrightarrow> (\<And>cx. \<not> unlinks key (op cx)) \<Longrightarrow> identityKept key w w'"
proof -
  note keep = others_keep [OF assms(1)]
  show "login_inv w'" "usersKept w w'"
    using assms keep(1,2) [of env] linkRun_keyed by (auto simp: onLinks_def Let_def split_beta login_inv_def usersKept_def)
  assume env: "env = withoutUnlink key env'" and op: "\<And>cx. \<not> unlinks key (op cx)"
  show "identityKept key w w'"
    unfolding identityKept_def
  proof (intro conjI allI impI)
    fix link
    assume "map_of (lm_links (lw_links w)) key = Some link"
    then obtain link1 where l1: "map_of (lm_links (lw_links (othersRun env w))) key = Some link1"
      "li_UserID link1 = li_UserID link"
      using keep(3) [of key env'] env by (auto simp: identityKept_def)
    then show "\<exists>link'. map_of (lm_links (lw_links w')) key = Some link' \<and> li_UserID link' = li_UserID link"
      using linkRun_owner [OF l1(1) op] assms(2) by (auto simp: onLinks_def Let_def split_beta)
  qed (fact \<open>usersKept w w'\<close>)
qed

lemma link_read:
  assumes "login_inv w" "onLinks env (\<lambda>cx st. (f cx st, st)) w = (r, w')"
  shows "login_inv w'" "usersKept w w'" "env = withoutUnlink key env' \<Longrightarrow> identityKept key w w'"
  using assms others_keep(1,2) [OF assms(1), of env] others_keep(3) [OF assms(1), of key env'] by (auto simp: onLinks_def Let_def)

lemmas memory_calls = user_call user_read link_call link_read

lemma run_functions:
  "userRun (OpCreateUser cx user) = Users_CreateUser cx user"
  "userRun (OpAddMember cx member) = Users_AddMember cx member"
  "linkRun (OpLink cx link) = Links_Link cx link"
  by (simp_all add: fun_eq_iff)

lemma memory_services:
  "iu_GetUser (memoryUsers env) uid = onUsers env (\<lambda>cx st. (Users_GetUser cx uid st, st))"
  "iu_CreateUser (memoryUsers env) user = onUsers env (\<lambda>cx. userRun (OpCreateUser cx user))"
  "iu_AddMember (memoryUsers env) member = onUsers env (\<lambda>cx. userRun (OpAddMember cx member))"
  "iu_GetMember (memoryUsers env) tid uid = onUsers env (\<lambda>cx st. (Users_GetMember cx tid uid st, st))"
  "il_Link (memoryLinks env) link = onLinks env (\<lambda>cx. linkRun (OpLink cx link))"
  "il_GetByExternal (memoryLinks env) tid provider subject
     = onLinks env (\<lambda>cx st. (Links_GetByExternal cx tid provider subject st, st))"
  by (simp_all add: memoryUsers_def memoryLinks_def run_functions)

text \<open>What a successful call leaves behind.\<close>

lemma got_user:
  "onUsers env (\<lambda>cx st. (Users_GetUser cx uid st, st)) w = (Inr user, w') \<Longrightarrow>
     map_of (um_users (lw_users w')) uid = Some user"
  by (auto simp: onUsers_def Let_def Users_GetUser_def ok_simps)

lemma created_user:
  "onUsers env (\<lambda>cx. userRun (OpCreateUser cx user)) w = (Inr (), w') \<Longrightarrow>
     map_of (um_users (lw_users w')) (us_ID user) = Some user"
  by (auto simp: onUsers_def Let_def split_beta Users_CreateUser_def on_ok_def split: sum.splits if_splits)

lemma linked:
  "onLinks env (\<lambda>cx. linkRun (OpLink cx link)) w = (Inr (), w') \<Longrightarrow>
     map_of (lm_links (lw_links w')) (linkKey link) = Some link"
  by (auto simp: onLinks_def Let_def split_beta Links_Link_def on_ok_def split: sum.splits if_splits)

lemma usersKept_trans: "usersKept w w' \<Longrightarrow> usersKept w' w'' \<Longrightarrow> usersKept w w''"
  by (simp add: usersKept_def)

lemma identityKept_trans:
  assumes "identityKept key w w'" "identityKept key w' w''"
  shows "identityKept key w w''"
  using assms usersKept_trans unfolding identityKept_def by fastforce

interpretation logins: login_backend "memoryUsers env" "memoryLinks env" login_inv
  "\<lambda>w. map_of (um_users (lw_users w))" "\<lambda>w. map_of (lm_links (lw_links w))" usersKept
proof (unfold_locales, unfold memory_services, goal_cases)
  case (1 w)
  then show ?case by (simp add: usersKept_def)
next
  case (2 w w' w'')
  then show ?case by (rule usersKept_trans)
next
  case (3 w w' uid user)
  then show ?case by (simp add: usersKept_def)
next
  case (4 w uid r w')
  then show ?case using user_read(1,2) [OF 4] got_user [of env uid w] by blast
next
  case (5 w user r w')
  then show ?case using user_call(1,2) [OF 5] created_user [of env user w] by blast
next
  case (6 w member r w')
  then show ?case using user_call(1,2) [OF 6] by blast
next
  case (7 w tid uid r w')
  then show ?case using user_read(1,2) [OF 7] by blast
next
  case (8 w link r w')
  then show ?case using link_call(1,2) [OF 8] linked [of env link w] by blast
next
  case (9 w tid provider subject r w')
  then show ?case using link_read(1,2) [OF 9] by blast
qed

interpretation stable_logins: stable_login_backend "memoryUsers (withoutUnlink key env)"
  "memoryLinks (withoutUnlink key env)" login_inv "\<lambda>w. map_of (um_users (lw_users w))"
  "\<lambda>w. map_of (lm_links (lw_links w))" "identityKept key" key
proof (unfold_locales, unfold memory_services, goal_cases)
  case (1 w)
  then show ?case by (simp add: identityKept_def usersKept_def)
next
  case (2 w w' w'')
  then show ?case by (rule identityKept_trans)
next
  case (3 w w' uid user)
  then show ?case by (simp add: identityKept_def usersKept_def)
next
  case (4 w uid r w')
  then show ?case using user_read(1) [OF 4] user_read(3) [OF 4 refl] got_user [of _ uid w] by blast
next
  case (5 w user r w')
  then show ?case using user_call(1) [OF 5] user_call(3) [OF 5 refl] created_user [of _ user w] by blast
next
  case (6 w member r w')
  then show ?case using user_call(1) [OF 6] user_call(3) [OF 6 refl] by blast
next
  case (7 w tid uid r w')
  then show ?case using user_read(1) [OF 7] user_read(3) [OF 7 refl] by blast
next
  case (8 w link r w')
  have "identityKept key w w'" using link_call(3) [OF 8 refl] by simp
  then show ?case using link_call(1) [OF 8] linked [of _ link w] 8 by blast
next
  case (9 w tid provider subject r w')
  then show ?case using link_read(1) [OF 9] link_read(3) [OF 9 refl] by blast
next
  case (10 w w' link)
  then show ?case by (simp add: identityKept_def)
qed

section \<open>What a session says is so\<close>

definition externalKeyOf :: "Session \<Rightarrow> externalKey" where
  "externalKeyOf session = (se_TenantID session, se_Provider session, se_Subject session)"

lemma valid_asserted:
  "Assertion_validate required a = Inr () \<Longrightarrow> as_TenantID a \<noteq> [] \<and> as_Provider a \<noteq> [] \<and> as_Subject a \<noteq> []
     \<and> as_Email a \<noteq> [] \<and> (required \<longrightarrow> as_EmailVerified a)"
  by (simp add: Assertion_validate_def split: if_splits)

text \<open>
  C14. Whatever others do meanwhile, a session is only opened for a configured and valid provider,
  with a verified e-mail address where that is required, and afterwards the external identity
  is linked to the session's user, who exists and has exactly the asserted address: an
  assertion never logs in as a user with another address.
\<close>

theorem login_binds_identity:
  assumes "login_inv w" "id_users sv = Some (memoryUsers env)" "id_store sv = Some (memoryLinks env)"
    "Authenticate sha256 cx (Some sv) a w = (Inr session, w')"
  shows "(\<exists>provider. map_of (id_providers sv) (se_Provider session) = Some provider \<and> Provider_Validate provider = Inr ())
    \<and> (as_EmailVerified a \<or> \<not> id_requireVerifiedEmail sv)
    \<and> (\<exists>user. Users_GetUser None (se_UserID session) (lw_users w') = Inr user \<and> us_Email user = TrimSpace (as_Email a))
    \<and> (\<exists>link. Links_GetByExternal None (as_TenantID a) (TrimSpace (as_Provider a)) (TrimSpace (as_Subject a)) (lw_links w')
          = Inr link \<and> li_UserID link = se_UserID session)
    \<and> externalKeyOf session = (as_TenantID a, TrimSpace (as_Provider a), TrimSpace (as_Subject a))"
proof -
  let ?a = "normalizeAssertion a"
  obtain uid roles user where
    session: "session = assertedSession uid roles ?a" and i: "login_inv w'"
    and checks: "Assertion_validate (id_requireVerifiedEmail sv) ?a = Inr ()" "validateProvider sv (se_Provider session) = Inr ()"
    and link: "map_of (lm_links (lw_links w')) (externalKeyOf session) = Some (assertedLink uid ?a)"
    and user: "map_of (um_users (lw_users w')) uid = Some user" "us_Email user = se_Email session"
    using logins.login_keeps [OF assms] by (auto simp: externalKeyOf_def)
  note fields = valid_asserted [OF checks(1)]
  have "uid \<noteq> []" using i user(1) by (auto simp: login_inv_def users_inv_def)
  then have "Users_GetUser None uid (lw_users w') = Inr user" using user by (simp add: Users_GetUser_def)
  moreover have "Links_GetByExternal None (as_TenantID ?a) (as_Provider ?a) (as_Subject ?a) (lw_links w')
      = Inr (assertedLink uid ?a)"
    using link fields by (simp add: Links_GetByExternal_def session externalKeyOf_def assertedSession_def)
  moreover have "\<exists>provider. map_of (id_providers sv) (se_Provider session) = Some provider \<and> Provider_Validate provider = Inr ()"
    using checks(2) by (simp add: validateProvider_def split: option.splits)
  ultimately show ?thesis
    using user(2) fields
    by (auto simp: session assertedSession_def assertedLink_def normalizeAssertion_def externalKeyOf_def)
qed

text \<open>
  C6. An external identity of a tenant always logs in as the same user: two logins with it open
  sessions of one user, whatever the assertions claim, whatever is configured and whatever others
  do before, between and during them, unless this identity is unlinked.
\<close>

theorem identity_keeps_user:
  assumes "login_inv w" "\<forall>n. list_all (\<lambda>op. \<not> unlinks key op) (le_links env n)" "list_all (\<lambda>op. \<not> unlinks key op) lops"
    "id_users sv = Some (memoryUsers env)" "id_store sv = Some (memoryLinks env)"
    "id_users sv' = Some (memoryUsers env)" "id_store sv' = Some (memoryLinks env)"
    "Authenticate sha256 cx (Some sv) a w = (Inr session, w1)"
    "w2 = \<lparr>lw_users = userRuns uops (lw_users w1), lw_links = linkRuns lops (lw_links w1), lw_calls = n\<rparr>"
    "Authenticate sha256' cx' (Some sv') a' w2 = (Inr session', w3)"
    "externalKeyOf session = key" "externalKeyOf session' = key"
  shows "se_UserID session' = se_UserID session"
proof -
  have "withoutUnlink key env = env"
    using assms(2) by (simp add: withoutUnlink_def list_all_iff filter_id_conv)
  note agree = stable_logins.logins_agree [of w sv key env, unfolded this]
  have i1: "login_inv w1" using logins.login_keeps [OF assms(1,4,5,8)] by simp
  then have "login_inv w2"
    using assms(9) users_inv_runs linkRuns_keyed by (simp add: login_inv_def)
  moreover have "identityKept key w1 w2"
    using assms(3,9) user_kept_runs linkRuns_owner by (simp add: identityKept_def usersKept_def)
  ultimately show ?thesis
    using agree [OF assms(1,4,5,8) _ _ assms(6,7,10)] assms(11,12) by (simp add: externalKeyOf_def)
qed

section \<open>A login nobody disturbs\<close>

definition quietLogin :: loginEnv where
  "quietLogin = \<lparr>le_users = (\<lambda>_. []), le_links = (\<lambda>_. []), le_ctx = (\<lambda>_. None)\<rparr>"

definition loginServices :: "'a IdentityService \<Rightarrow> loginWorld IdentityService" where
  "loginServices sv = \<lparr>id_users = Some (memoryUsers quietLogin), id_store = Some (memoryLinks quietLogin),
     id_providers = id_providers sv, id_defaultRoles = id_defaultRoles sv,
     id_requireVerifiedEmail = id_requireVerifiedEmail sv\<rparr>"

lemma quiet_calls:
  "onUsers quietLogin f w = (fst (f None (lw_users w)),
     \<lparr>lw_users = snd (f None (lw_users w)), lw_links = lw_links w, lw_calls = Suc (lw_calls w)\<rparr>)"
  "onLinks quietLogin g w = (fst (g None (lw_links w)),
     \<lparr>lw_users = lw_users w, lw_links = snd (g None (lw_links w)), lw_calls = Suc (lw_calls w)\<rparr>)"
  by (simp_all add: onUsers_def onLinks_def othersRun_def quietLogin_def userRuns_def linkRuns_def Let_def split_beta)

lemmas quiet_services = memory_services [of quietLogin, unfolded quiet_calls, simplified]

text \<open>What each step leaves as it was.\<close>

lemma quiet_userID:
  assumes "userID sha256 (memoryLinks quietLogin) a w = (r, w')"
  shows "lw_users w' = lw_users w \<and> lw_links w' = lw_links w
    \<and> (\<forall>uid. r = Inr uid \<longrightarrow> as_UserID a \<noteq> [] \<longrightarrow> uid = as_UserID a)"
  using assms
  by (auto simp: userID_def assertedUser_def quiet_services on_done_def Let_def split: if_splits sum.splits)

lemma quiet_ensureUser:
  assumes "ensureUser (memoryUsers quietLogin) uid a w = (r, w')"
  shows "lw_links w' = lw_links w \<and> um_members (lw_users w') = um_members (lw_users w)"
  using assms
  by (auto simp: ensureUser_def quiet_services userCall_def on_done_def on_ok_def Users_CreateUser_def
      split: if_splits sum.splits)

lemma quiet_ensureMember:
  assumes "ensureMember sv (memoryUsers quietLogin) uid a w = (r, w')"
  shows "lw_links w' = lw_links w \<and> um_users (lw_users w') = um_users (lw_users w)
    \<and> (\<forall>key. key \<noteq> (as_TenantID a, uid) \<longrightarrow> map_of (um_members (lw_users w')) key = map_of (um_members (lw_users w)) key)
    \<and> (\<forall>roles. r = Inr roles \<longrightarrow>
         (\<exists>m. map_of (um_members (lw_users w')) (as_TenantID a, uid) = Some m \<and> mb_Roles m = roles))"
  using assms
  by (auto simp: ensureMember_def quiet_services userCall_def on_done_def Let_def Users_AddMember_def
      Users_GetMember_def split: if_splits sum.splits option.splits)

lemma quiet_link:
  assumes "il_Link (memoryLinks quietLogin) link w = (r, w')"
  shows "lw_users w' = lw_users w
    \<and> (\<forall>key. key \<noteq> linkKey link \<longrightarrow> map_of (lm_links (lw_links w')) key = map_of (lm_links (lw_links w)) key)
    \<and> (r = Inr () \<longrightarrow> map_of (lm_links (lw_links w')) (linkKey link) = Some link \<and> li_UserID link \<noteq> [])"
  using assms
  by (auto simp: quiet_services Links_Link_def Link_validate_def on_ok_def split: if_splits sum.splits)

text \<open>The steps once the user, the membership and the link are there.\<close>

lemma userID_again:
  assumes "map_of (lm_links (lw_links w)) (as_TenantID a, as_Provider a, as_Subject a) = Some link"
    "as_TenantID a \<noteq> []" "as_Provider a \<noteq> []" "as_Subject a \<noteq> []"
    "li_UserID link \<noteq> []" "as_UserID a \<noteq> [] \<Longrightarrow> as_UserID a = li_UserID link"
  shows "\<exists>n. userID sha256 (memoryLinks quietLogin) a w = (Inr (li_UserID link), \<lparr>lw_users = lw_users w, lw_links = lw_links w, lw_calls = n\<rparr>)"
  using assms by (simp add: userID_def assertedUser_def quiet_services Links_GetByExternal_def)

lemma ensureUser_again:
  assumes "map_of (um_users (lw_users w)) uid = Some user" "us_Email user = as_Email a" "uid \<noteq> []"
  shows "\<exists>n. ensureUser (memoryUsers quietLogin) uid a w = (Inr (), \<lparr>lw_users = lw_users w, lw_links = lw_links w, lw_calls = n\<rparr>)"
  using assms by (simp add: ensureUser_def quiet_services Users_GetUser_def validateExistingUser_def)

lemma ensureMember_again:
  assumes "map_of (um_members (lw_users w)) (as_TenantID a, uid) = Some m" "as_TenantID a \<noteq> []" "uid \<noteq> []"
    "map_of (um_users (lw_users w)) uid \<noteq> None"
  shows "\<exists>n. ensureMember sv (memoryUsers quietLogin) uid a w = (Inr (mb_Roles m), \<lparr>lw_users = lw_users w, lw_links = lw_links w, lw_calls = n\<rparr>)"
  using assms
  by (auto simp: ensureMember_def quiet_services userCall_def Users_AddMember_def Users_GetMember_def Let_def)

lemma link_again:
  assumes "map_of (lm_links (lw_links w)) (linkKey link) = Some link" "Link_validate link = Inr ()"
  shows "\<exists>w'. il_Link (memoryLinks quietLogin) link w = (Inr (), w') \<and> lw_users w' = lw_users w
    \<and> map_of (lm_links (lw_links w')) = map_of (lm_links (lw_links w))"
  using assms by (auto simp: quiet_services Links_Link_def)

definition sameElsewhere :: "TenantID \<Rightarrow> loginWorld \<Rightarrow> loginWorld \<Rightarrow> bool" where
  "sameElsewhere tid w w' \<longleftrightarrow> (\<forall>other. other \<noteq> tid \<longrightarrow>
     (\<forall>uid. map_of (um_members (lw_users w')) (other, uid) = map_of (um_members (lw_users w)) (other, uid))
     \<and> (\<forall>x. map_of (lm_links (lw_links w')) (other, x) = map_of (lm_links (lw_links w)) (other, x)))"

lemma sameElsewhere_trans: "sameElsewhere tid w w' \<Longrightarrow> sameElsewhere tid w' w'' \<Longrightarrow> sameElsewhere tid w w''"
  by (simp add: sameElsewhere_def)

lemma on_done_state:
  assumes "on_done p f = (r, s')" "R s (snd p)" "\<And>x s1. p = (Inr x, s1) \<Longrightarrow> f x s1 = (r, s') \<Longrightarrow> R s s'"
  shows "R s s'"
  using assms by (cases p; cases "fst p") (auto simp: on_done_def)

lemma login_isolated:
  assumes "Authenticate sha256 cx (Some (loginServices sv)) a w = (r, w')"
  shows "sameElsewhere (as_TenantID a) w w'"
proof -
  let ?a = "normalizeAssertion a" and ?R = "sameElsewhere (as_TenantID a)"
  have tid: "as_TenantID ?a = as_TenantID a" by (simp add: normalizeAssertion_def)
  have refl: "?R s s" for s by (simp add: sameElsewhere_def)
  have u: "?R s (snd (userID sha256 (memoryLinks quietLogin) ?a s))" for s
    using quiet_userID [of sha256 ?a s] by (metis prod.collapse refl sameElsewhere_def)
  have e: "?R s (snd (ensureUser (memoryUsers quietLogin) uid ?a s))" for s uid
    using quiet_ensureUser [of uid ?a s] by (metis prod.collapse refl sameElsewhere_def)
  have m: "?R s (snd (ensureMember sv' (memoryUsers quietLogin) uid ?a s))" for s uid and sv' :: "loginWorld IdentityService"
    using quiet_ensureMember [where sv = sv' and uid = uid and a = ?a and w = s, OF prod.collapse [symmetric]] tid
    by (auto simp: sameElsewhere_def)
  have l: "?R s (snd (il_Link (memoryLinks quietLogin) (assertedLink uid ?a) s))" for s uid
    using quiet_link [where link = "assertedLink uid ?a" and w = s, OF prod.collapse [symmetric]] tid
    by (auto simp: sameElsewhere_def assertedLink_def linkKey_def)
  have rest: "?R w w'" if "w' = w \<or> on_done (userID sha256 (memoryLinks quietLogin) ?a w) (\<lambda>uid s1.
      on_done (ensureUser (memoryUsers quietLogin) uid ?a s1) (\<lambda>_ s2.
      on_done (ensureMember (loginServices sv) (memoryUsers quietLogin) uid ?a s2) (\<lambda>roles s3.
      on_done (il_Link (memoryLinks quietLogin) (assertedLink uid ?a) s3) (\<lambda>_ s4.
        (Inr (assertedSession uid roles ?a), s4))))) = (r, w')"
    using that
  proof
    assume "on_done (userID sha256 (memoryLinks quietLogin) ?a w) (\<lambda>uid s1.
      on_done (ensureUser (memoryUsers quietLogin) uid ?a s1) (\<lambda>_ s2.
      on_done (ensureMember (loginServices sv) (memoryUsers quietLogin) uid ?a s2) (\<lambda>roles s3.
      on_done (il_Link (memoryLinks quietLogin) (assertedLink uid ?a) s3) (\<lambda>_ s4.
        (Inr (assertedSession uid roles ?a), s4))))) = (r, w')"
    then show ?thesis
    proof (rule on_done_state [where R = ?R], goal_cases)
      case 1
      show ?case by (rule u)
    next
      case (2 uid s1)
      have w1: "?R w s1" using u [of w] 2(1) by simp
      from 2(2) show ?case
      proof (rule on_done_state [where R = ?R], goal_cases)
        case 1
        show ?case by (rule sameElsewhere_trans [OF w1 e])
      next
        case (2 x s2)
        have w2: "?R w s2" using sameElsewhere_trans [OF w1 e [of s1 uid]] 2(1) by simp
        from 2(2) show ?case
        proof (rule on_done_state [where R = ?R], goal_cases)
          case 1
          show ?case by (rule sameElsewhere_trans [OF w2 m])
        next
          case (2 roles s3)
          have w3: "?R w s3" using sameElsewhere_trans [OF w2 m [of s2 "loginServices sv" uid]] 2(1) by simp
          from 2(2) show ?case
            using sameElsewhere_trans [OF w3 l [of s3 uid]] by (auto simp: on_done_def split: prod.splits sum.splits)
        qed
      qed
    qed
  qed (simp add: refl)
  show ?thesis
    using assms by (intro rest) (auto simp: Authenticate_def loginServices_def Let_def on_ok_def split: sum.splits)
qed

lemma login_repeats:
  assumes "login_inv w" "Authenticate sha256 cx (Some (loginServices sv)) a w = (Inr session, w')"
  shows "\<exists>m w''. map_of (um_members (lw_users w')) (as_TenantID a, se_UserID session) = Some m
    \<and> mb_Roles m = se_Roles session
    \<and> Authenticate sha256 cx (Some (loginServices sv)) a w' = (Inr session, w'') \<and> lw_users w'' = lw_users w'
    \<and> map_of (lm_links (lw_links w'')) = map_of (lm_links (lw_links w'))"
proof -
  let ?a = "normalizeAssertion a" and ?sv = "loginServices sv"
  have tid: "as_TenantID ?a = as_TenantID a" by (simp add: normalizeAssertion_def)
  have services: "id_users ?sv = Some (memoryUsers quietLogin)" "id_store ?sv = Some (memoryLinks quietLogin)"
    by (simp_all add: loginServices_def)
  from assms(2) services obtain uid w1 w2 roles w3 where
    checks: "cx = None" "Assertion_validate (id_requireVerifiedEmail ?sv) ?a = Inr ()"
      "validateProvider ?sv (as_Provider ?a) = Inr ()"
    and u: "userID sha256 (memoryLinks quietLogin) ?a w = (Inr uid, w1)"
    and e: "ensureUser (memoryUsers quietLogin) uid ?a w1 = (Inr (), w2)"
    and m: "ensureMember ?sv (memoryUsers quietLogin) uid ?a w2 = (Inr roles, w3)"
    and l: "il_Link (memoryLinks quietLogin) (assertedLink uid ?a) w3 = (Inr (), w')"
    and session: "session = assertedSession uid roles ?a"
    by (auto simp: Authenticate_def identityCtx_def Let_def ok_simps split: option.splits)
  note fields = valid_asserted [OF checks(2)]
  note u' = quiet_userID [OF u] and m' = quiet_ensureMember [OF m] and l' = quiet_link [OF l]
  have i1: "login_inv w1" using logins.userID_keeps [OF assms(1) u] by simp
  obtain user where user: "map_of (um_users (lw_users w2)) uid = Some user" "us_Email user = as_Email ?a"
    using logins.ensureUser_keeps [OF i1 e] by auto
  obtain member where member: "map_of (um_members (lw_users w')) (as_TenantID ?a, uid) = Some member" "mb_Roles member = roles"
    using m' l' by auto
  have link: "map_of (lm_links (lw_links w')) (linkKey (assertedLink uid ?a)) = Some (assertedLink uid ?a)" and uid: "uid \<noteq> []"
    using l' by (simp_all add: assertedLink_def)
  obtain n1 where r1: "userID sha256 (memoryLinks quietLogin) ?a w'
      = (Inr uid, \<lparr>lw_users = lw_users w', lw_links = lw_links w', lw_calls = n1\<rparr>)"
    using userID_again [of w' ?a "assertedLink uid ?a" sha256] link uid fields u'
    by (auto simp: linkKey_def assertedLink_def)
  let ?w1 = "\<lparr>lw_users = lw_users w', lw_links = lw_links w', lw_calls = n1\<rparr>"
  obtain n2 where r2: "ensureUser (memoryUsers quietLogin) uid ?a ?w1
      = (Inr (), \<lparr>lw_users = lw_users w', lw_links = lw_links w', lw_calls = n2\<rparr>)"
    using ensureUser_again [of ?w1 uid user ?a] user uid m' l' by auto
  let ?w2 = "\<lparr>lw_users = lw_users w', lw_links = lw_links w', lw_calls = n2\<rparr>"
  obtain n3 where r3: "ensureMember ?sv (memoryUsers quietLogin) uid ?a ?w2
      = (Inr roles, \<lparr>lw_users = lw_users w', lw_links = lw_links w', lw_calls = n3\<rparr>)"
    using ensureMember_again [of ?w2 ?a uid member ?sv] member user uid fields m' l' by auto
  let ?w3 = "\<lparr>lw_users = lw_users w', lw_links = lw_links w', lw_calls = n3\<rparr>"
  have "Link_validate (assertedLink uid ?a) = Inr ()"
    using fields uid by (simp add: Link_validate_def assertedLink_def)
  then obtain w'' where r4: "il_Link (memoryLinks quietLogin) (assertedLink uid ?a) ?w3 = (Inr (), w'')"
    and same: "lw_users w'' = lw_users w'" "map_of (lm_links (lw_links w'')) = map_of (lm_links (lw_links w'))"
    using link_again [of ?w3 "assertedLink uid ?a"] link by auto
  have "Authenticate sha256 cx (Some ?sv) a w' = (Inr session, w'')"
    using checks r1 r2 r3 r4 services session by (simp add: Authenticate_def Let_def)
  with member same show ?thesis by (auto simp: session assertedSession_def tid)
qed

text \<open>
  C34. A login that nobody disturbs, however it ends, changes no membership and no link of another
  tenant; when it succeeds the session has the roles of the membership, and the same login again
  opens the same session and changes nothing.
\<close>

theorem login_isolated_and_repeatable:
  assumes "login_inv w" "Authenticate sha256 cx (Some (loginServices sv)) a w = (r, w')"
  shows "(\<forall>other uid. other \<noteq> as_TenantID a \<longrightarrow>
        map_of (um_members (lw_users w')) (other, uid) = map_of (um_members (lw_users w)) (other, uid))
    \<and> (\<forall>other x. other \<noteq> as_TenantID a \<longrightarrow>
        map_of (lm_links (lw_links w')) (other, x) = map_of (lm_links (lw_links w)) (other, x))
    \<and> (\<forall>session. r = Inr session \<longrightarrow> (\<exists>m w''.
        map_of (um_members (lw_users w')) (as_TenantID a, se_UserID session) = Some m \<and> mb_Roles m = se_Roles session
        \<and> Authenticate sha256 cx (Some (loginServices sv)) a w' = (Inr session, w'') \<and> lw_users w'' = lw_users w'
        \<and> map_of (lm_links (lw_links w'')) = map_of (lm_links (lw_links w'))))"
proof (intro conjI)
  show "\<forall>session. r = Inr session \<longrightarrow> (\<exists>m w''.
      map_of (um_members (lw_users w')) (as_TenantID a, se_UserID session) = Some m \<and> mb_Roles m = se_Roles session
      \<and> Authenticate sha256 cx (Some (loginServices sv)) a w' = (Inr session, w'') \<and> lw_users w'' = lw_users w'
      \<and> map_of (lm_links (lw_links w'')) = map_of (lm_links (lw_links w')))"
    using login_repeats [OF assms(1)] assms(2) by blast
qed (use login_isolated [OF assms(2)] in \<open>simp_all add: sameElsewhere_def\<close>)

section \<open>A concrete login\<close>

definition sampleLogin :: "loginWorld IdentityService" where
  "sampleLogin = \<lparr>id_users = Some (memoryUsers quietLogin), id_store = Some (memoryLinks quietLogin),
     id_providers = [(''magic_link'', MagicLink [])], id_defaultRoles = [''member''], id_requireVerifiedEmail = True\<rparr>"

definition sampleAssertion :: "string \<Rightarrow> Assertion" where
  "sampleAssertion uid = \<lparr>as_TenantID = ''t'', as_Provider = ''magic_link'', as_Subject = ''s'', as_UserID = uid,
     as_Email = ''e'', as_Name = [], as_EmailVerified = True, as_Roles = [], as_Metadata = None\<rparr>"

definition emptyLogin :: loginWorld where
  "emptyLogin = \<lparr>lw_users = NewUserMemory, lw_links = NewLinkMemory, lw_calls = 0\<rparr>"

definition sampleHash :: "string \<Rightarrow> char list" where
  "sampleHash s = [CHR 0x2A]"

definition sampleSession :: Session where
  "sampleSession = \<lparr>se_TenantID = ''t'', se_UserID = ''idp_2a'', se_Provider = ''magic_link'', se_Subject = ''s'',
     se_Email = ''e'', se_Name = [], se_Roles = [''member'']\<rparr>"

lemma sample_login: "fst (Authenticate sampleHash None (Some sampleLogin) (sampleAssertion []) emptyLogin) = Inr sampleSession"
  by code_simp

lemma emptyLogin_inv: "login_inv emptyLogin"
  by (simp add: login_inv_def emptyLogin_def users_inv_new NewLinkMemory_def)

theorem login_binds_identity_witness:
  "\<exists>link. Links_GetByExternal None ''t'' ''magic_link'' ''s''
     (lw_links (snd (Authenticate sampleHash None (Some sampleLogin) (sampleAssertion []) emptyLogin))) = Inr link
     \<and> li_UserID link = ''idp_2a''"
proof -
  have run: "Authenticate sampleHash None (Some sampleLogin) (sampleAssertion []) emptyLogin
      = (Inr sampleSession, snd (Authenticate sampleHash None (Some sampleLogin) (sampleAssertion []) emptyLogin))"
    using sample_login by (metis prod.collapse)
  have sv: "id_users sampleLogin = Some (memoryUsers quietLogin)" "id_store sampleLogin = Some (memoryLinks quietLogin)"
    by (simp_all add: sampleLogin_def)
  have trim: "TrimSpace ''magic_link'' = ''magic_link''" "TrimSpace ''s'' = ''s''" by code_simp+
  show ?thesis
    using login_binds_identity [OF emptyLogin_inv sv run]
    by (simp add: sampleAssertion_def sampleSession_def trim)
qed

theorem identity_keeps_user_witness:
  "se_UserID (sampleSession\<lparr>se_Name := ''n''\<rparr>) = se_UserID sampleSession \<and> sampleSession\<lparr>se_Name := ''n''\<rparr> \<noteq> sampleSession"
proof -
  let ?key = "(''t'', ''magic_link'', ''s'')"
  let ?again = "sampleAssertion ''idp_2a''\<lparr>as_Name := ''n''\<rparr>"
  let ?w1 = "snd (Authenticate sampleHash None (Some sampleLogin) (sampleAssertion []) emptyLogin)"
  let ?w2 = "\<lparr>lw_users = userRuns [] (lw_users ?w1), lw_links = linkRuns [] (lw_links ?w1), lw_calls = 9\<rparr>"
  have run1: "Authenticate sampleHash None (Some sampleLogin) (sampleAssertion []) emptyLogin = (Inr sampleSession, ?w1)"
    using sample_login by (metis prod.collapse)
  have "fst (Authenticate sampleHash None (Some sampleLogin) ?again ?w2) = Inr (sampleSession\<lparr>se_Name := ''n''\<rparr>)"
    by code_simp
  then have run2: "Authenticate sampleHash None (Some sampleLogin) ?again ?w2
      = (Inr (sampleSession\<lparr>se_Name := ''n''\<rparr>), snd (Authenticate sampleHash None (Some sampleLogin) ?again ?w2))"
    by (metis prod.collapse)
  have sv: "id_users sampleLogin = Some (memoryUsers quietLogin)" "id_store sampleLogin = Some (memoryLinks quietLogin)"
    by (simp_all add: sampleLogin_def)
  have calm: "\<forall>n. list_all (\<lambda>op. \<not> unlinks ?key op) (le_links quietLogin n)" "list_all (\<lambda>op. \<not> unlinks ?key op) []"
    by (simp_all add: quietLogin_def)
  have key: "externalKeyOf sampleSession = ?key" "externalKeyOf (sampleSession\<lparr>se_Name := ''n''\<rparr>) = ?key"
    by (simp_all add: externalKeyOf_def sampleSession_def)
  have "sampleSession\<lparr>se_Name := ''n''\<rparr> \<noteq> sampleSession" by (simp add: sampleSession_def)
  with identity_keeps_user [OF emptyLogin_inv calm sv sv run1 refl run2 key] show ?thesis by blast
qed

theorem login_isolated_and_repeatable_witness:
  "\<exists>w''. fst (Authenticate sampleHash None (Some (loginServices sampleLogin)) (sampleAssertion [])
      (snd (Authenticate sampleHash None (Some (loginServices sampleLogin)) (sampleAssertion []) emptyLogin)))
    = Inr sampleSession \<and> login_inv w''"
proof -
  have same: "loginServices sampleLogin = sampleLogin" by (simp add: loginServices_def sampleLogin_def)
  let ?w1 = "snd (Authenticate sampleHash None (Some (loginServices sampleLogin)) (sampleAssertion []) emptyLogin)"
  have run: "Authenticate sampleHash None (Some (loginServices sampleLogin)) (sampleAssertion []) emptyLogin
      = (Inr sampleSession, ?w1)"
    using sample_login same by (metis prod.collapse)
  obtain w'' where
    "Authenticate sampleHash None (Some (loginServices sampleLogin)) (sampleAssertion []) ?w1 = (Inr sampleSession, w'')"
    using login_isolated_and_repeatable [OF emptyLogin_inv run] by blast
  then show ?thesis using emptyLogin_inv by auto
qed

end
