(* ===== verification/Access_Control.thy ===== *)
theory Access_Control
  imports Core_Types Paging
begin

text \<open>
  Roles and permissions (\<open>biz/rbac\<close>): \<open>MemoryService\<close>, which implements the directory contract for
  roles under the pair of a tenant and a key, without replacement. What one tenant does with its
  roles is invisible to every other tenant.
\<close>

datatype rbac_error = RbacCtx ctx_error | ErrInvalidRole | ErrRoleNotFound | ErrRoleExists | ErrPermissionDeny

type_synonym Permission = string

record Role =
  rl_TenantID :: TenantID
  rl_Key :: string
  rl_Permissions :: "Permission list"

type_synonym roleKey = "TenantID \<times> string"

record RoleMemory =
  rm_roles :: "(roleKey, Role) gomap"

definition NewRoleMemory :: RoleMemory where
  "NewRoleMemory = \<lparr>rm_roles = []\<rparr>"

definition HasPermission :: "Role \<Rightarrow> Permission \<Rightarrow> bool" where
  "HasPermission role permission \<longleftrightarrow>
     permission \<noteq> [] \<and> list_ex (\<lambda>candidate. candidate = permission) (rl_Permissions role)"

definition validateRole :: "Role \<Rightarrow> rbac_error + unit" where
  "validateRole role =
     (if rl_TenantID role = [] \<or> rl_Key role = [] then Inl ErrInvalidRole
      else if list_ex (\<lambda>permission. permission = []) (rl_Permissions role) then Inl ErrInvalidRole
      else Inr ())"

definition rbacCtx :: "ctx \<Rightarrow> rbac_error + unit" where
  "rbacCtx cx = (case cx of None \<Rightarrow> Inr () | Some e \<Rightarrow> Inl (RbacCtx e))"

section \<open>Operations\<close>

definition Roles_CreateRole :: "ctx \<Rightarrow> Role \<Rightarrow> RoleMemory \<Rightarrow> (rbac_error + unit) \<times> RoleMemory" where
  "Roles_CreateRole cx role st =
     on_ok (rbacCtx cx) st (\<lambda>_.
       case validateRole role of
         Inl _ \<Rightarrow> fails ErrInvalidRole st
       | Inr _ \<Rightarrow>
           if map_of (rm_roles st) (rl_TenantID role, rl_Key role) \<noteq> None then fails ErrRoleExists st
           else (Inr (), st\<lparr>rm_roles := AList.update (rl_TenantID role, rl_Key role) role (rm_roles st)\<rparr>))"

definition Roles_GetRole :: "ctx \<Rightarrow> TenantID \<Rightarrow> string \<Rightarrow> RoleMemory \<Rightarrow> rbac_error + Role" where
  "Roles_GetRole cx tid key st =
     bind_ok (rbacCtx cx) (\<lambda>_.
       if tid = [] \<or> key = [] then Inl ErrInvalidRole
       else case map_of (rm_roles st) (tid, key) of None \<Rightarrow> Inl ErrRoleNotFound | Some role \<Rightarrow> Inr role)"

definition Roles_DeleteRole :: "ctx \<Rightarrow> TenantID \<Rightarrow> string \<Rightarrow> RoleMemory \<Rightarrow> (rbac_error + unit) \<times> RoleMemory" where
  "Roles_DeleteRole cx tid key st =
     on_ok (rbacCtx cx) st (\<lambda>_.
       if tid = [] \<or> key = [] then fails ErrInvalidRole st
       else if map_of (rm_roles st) (tid, key) = None then fails ErrRoleNotFound st
       else (Inr (), st\<lparr>rm_roles := AList.delete (tid, key) (rm_roles st)\<rparr>))"

fun enforceLoop :: "TenantID \<Rightarrow> string list \<Rightarrow> Permission \<Rightarrow> RoleMemory \<Rightarrow> rbac_error + unit" where
  "enforceLoop tid [] permission st = Inl ErrPermissionDeny"
| "enforceLoop tid (key # roles) permission st =
     (case map_of (rm_roles st) (tid, key) of
        None \<Rightarrow> enforceLoop tid roles permission st
      | Some role \<Rightarrow>
          if HasPermission role permission then Inr () else enforceLoop tid roles permission st)"

definition Roles_Enforce ::
  "ctx \<Rightarrow> TenantID \<Rightarrow> string list \<Rightarrow> Permission \<Rightarrow> RoleMemory \<Rightarrow> rbac_error + unit"
where
  "Roles_Enforce cx tid roles permission st =
     bind_ok (rbacCtx cx) (\<lambda>_.
       if tid = [] \<or> permission = [] then Inl ErrInvalidRole
       else enforceLoop tid roles permission st)"

definition Roles_Authorize ::
  "ctx \<Rightarrow> TenantID \<Rightarrow> string list \<Rightarrow> Permission \<Rightarrow> RoleMemory \<Rightarrow> rbac_error + unit"
where
  "Roles_Authorize cx tid roles permission st = Roles_Enforce cx tid roles permission st"

section \<open>The directory contract\<close>

definition roleRules :: "(roleKey, Role, rbac_error) dir_rules" where
  "roleRules = \<lparr>dr_key = (\<lambda>role. (rl_TenantID role, rl_Key role)), dr_check = (\<lambda>role. err_of (validateRole role)),
     dr_may = (\<lambda>_ _. None), dr_bad = (\<lambda>(tid, key). if tid = [] \<or> key = [] then Some ErrInvalidRole else None),
     dr_exists = ErrRoleExists, dr_missing = ErrRoleNotFound\<rparr>"

fun roleExec :: "(roleKey, Role) dir_op \<Rightarrow> RoleMemory \<Rightarrow> (rbac_error, Role, RoleMemory) answer" where
  "roleExec (DGet (tid, key)) st = (map_sum id Some (Roles_GetRole None tid key st), st)"
| "roleExec (DCreate role) st = map_prod (map_sum id (\<lambda>_. None)) id (Roles_CreateRole None role st)"
| "roleExec (DUpdate role) st = (Inr None, st)"
| "roleExec (DRemove (tid, key)) st = map_prod (map_sum id (\<lambda>_. None)) id (Roles_DeleteRole None tid key st)"

definition noUpdate :: "('k, 'v) dir_op \<Rightarrow> bool" where
  "noUpdate op \<longleftrightarrow> (case op of DUpdate _ \<Rightarrow> False | _ \<Rightarrow> True)"

definition roles_inv :: "RoleMemory \<Rightarrow> bool" where
  "roles_inv st \<longleftrightarrow> keyed_map (\<lambda>role. (rl_TenantID role, rl_Key role)) (rm_roles st)"

lemmas role_ops = Roles_CreateRole_def Roles_GetRole_def Roles_DeleteRole_def

lemma rbacCtx_simps [simp]: "rbacCtx None = Inr ()" "rbacCtx (Some e) = Inl (RbacCtx e)"
  by (simp_all add: rbacCtx_def)

lemma validateRole_error: "validateRole role = Inl e \<Longrightarrow> e = ErrInvalidRole"
  by (auto simp: validateRole_def split: if_splits)

lemma role_exec_inv: "roles_inv st \<Longrightarrow> roles_inv (snd (roleExec op st))"
  by (cases "(op, st)" rule: roleExec.cases)
    (auto simp: role_ops roles_inv_def on_ok_def keyed_map_update keyed_map_delete split: sum.splits)

lemma role_exec_spec:
  "noUpdate op \<Longrightarrow> (fst (roleExec op st), map_of (rm_roles (snd (roleExec op st))))
     = dir_spec roleRules op (map_of (rm_roles st))"
  by (cases "(op, st)" rule: roleExec.cases)
    (auto simp: role_ops roleRules_def noUpdate_def on_ok_def err_of_def dest: validateRole_error
      split: sum.splits option.splits)

interpretation roles: directory roleRules noUpdate roles_inv "\<lambda>st. map_of (rm_roles st)" roleExec
proof (unfold_locales, goal_cases)
  case (3 role)
  then show ?case by (auto simp: roleRules_def validateRole_def split: if_splits)
qed (simp_all add: role_exec_inv role_exec_spec)

section \<open>Decisions\<close>

lemma enforceLoop_ok:
  "enforceLoop tid roles permission st = Inr () \<longleftrightarrow>
     (\<exists>key\<in>set roles. \<exists>role. map_of (rm_roles st) (tid, key) = Some role \<and> HasPermission role permission)"
  by (induction roles) (auto split: option.splits)

lemma enforceLoop_cases: "enforceLoop tid roles permission st = Inr () \<or> enforceLoop tid roles permission st = Inl ErrPermissionDeny"
  by (induction roles) (auto split: option.splits)

text \<open>The tenant an operation is about.\<close>

fun roleTenant :: "(roleKey, Role) dir_op \<Rightarrow> TenantID" where
  "roleTenant (DGet (tid, key)) = tid"
| "roleTenant (DCreate role) = rl_TenantID role"
| "roleTenant (DUpdate role) = rl_TenantID role"
| "roleTenant (DRemove (tid, key)) = tid"

text \<open>On the map, the roles of a tenant depend on the operations about this tenant alone.\<close>

lemma spec_other_tenant:
  "noUpdate op \<Longrightarrow> roleTenant op \<noteq> tid \<Longrightarrow> snd (dir_spec roleRules op m) (tid, key) = m (tid, key)"
  by (cases op rule: roleTenant.cases) (auto simp: roleRules_def noUpdate_def split: option.splits)

lemma spec_same_tenant:
  "noUpdate op \<Longrightarrow> roleTenant op = tid \<Longrightarrow> \<forall>key. m (tid, key) = m' (tid, key) \<Longrightarrow>
     snd (dir_spec roleRules op m) (tid, key) = snd (dir_spec roleRules op m') (tid, key)"
  by (cases op rule: roleTenant.cases) (auto simp: roleRules_def noUpdate_def split: option.splits)

lemma spec_run_tenant:
  "list_all noUpdate ops \<Longrightarrow> \<forall>key. m (tid, key) = m' (tid, key) \<Longrightarrow>
     \<forall>key. snd (dir_run (dir_spec roleRules) ops m) (tid, key)
       = snd (dir_run (dir_spec roleRules) (filter (\<lambda>op. roleTenant op = tid) ops) m') (tid, key)"
proof (induction ops arbitrary: m m')
  case (Cons op ops)
  show ?case
  proof (cases "roleTenant op = tid")
    case True
    have "\<forall>key. snd (dir_spec roleRules op m) (tid, key) = snd (dir_spec roleRules op m') (tid, key)"
      using spec_same_tenant [OF _ True Cons(3)] Cons(2) by simp
    then show ?thesis using Cons(1) [of "snd (dir_spec roleRules op m)" "snd (dir_spec roleRules op m')"] Cons(2) True
      by (simp add: Let_def split_beta)
  next
    case False
    have "\<forall>key. snd (dir_spec roleRules op m) (tid, key) = m' (tid, key)"
      using spec_other_tenant [OF _ False] Cons(2,3) by simp
    then show ?thesis using Cons(1) [of "snd (dir_spec roleRules op m)" m'] Cons(2) False
      by (simp add: Let_def split_beta)
  qed
qed simp

text \<open>
  C24. A decision grants exactly what the tenant's own roles grant: after any sequence of operations
  on roles a permission is granted if and only if one of the named roles exists in this tenant and
  lists it, everything else is refused, and the decision is the one that would have been taken if
  no other tenant had ever created or removed a role.
\<close>

theorem decisions_exact_and_isolated:
  assumes "list_all noUpdate ops" "st = snd (dir_run roleExec ops NewRoleMemory)"
  shows "(Roles_Enforce None tid roles permission st = Inr () \<longleftrightarrow> tid \<noteq> [] \<and> permission \<noteq> []
      \<and> (\<exists>key\<in>set roles. \<exists>role. map_of (rm_roles st) (tid, key) = Some role \<and> permission \<in> set (rl_Permissions role)))
    \<and> (tid \<noteq> [] \<and> permission \<noteq> [] \<and> Roles_Enforce None tid roles permission st \<noteq> Inr () \<longrightarrow>
         Roles_Enforce None tid roles permission st = Inl ErrPermissionDeny)
    \<and> Roles_Enforce cx tid roles permission st
       = Roles_Enforce cx tid roles permission
           (snd (dir_run roleExec (filter (\<lambda>op. roleTenant op = tid) ops) NewRoleMemory))"
proof -
  let ?st' = "snd (dir_run roleExec (filter (\<lambda>op. roleTenant op = tid) ops) NewRoleMemory)"
  have new: "roles_inv NewRoleMemory" "map_of (rm_roles NewRoleMemory) = Map.empty"
    by (simp_all add: roles_inv_def NewRoleMemory_def)
  have "list_all noUpdate (filter (\<lambda>op. roleTenant op = tid) ops)" using assms(1) by (simp add: list_all_iff)
  then have same: "map_of (rm_roles st) (tid, key) = map_of (rm_roles ?st') (tid, key)" for key
    using roles.run_refines [OF new(1)] spec_run_tenant [OF assms(1), of Map.empty tid Map.empty] assms
    by (simp add: new(2))
  have "enforceLoop tid roles permission st = enforceLoop tid roles permission ?st'"
    by (induction roles) (simp_all add: same split: option.split)
  then have "Roles_Enforce cx tid roles permission st = Roles_Enforce cx tid roles permission ?st'"
    by (simp add: Roles_Enforce_def)
  then show ?thesis
    using enforceLoop_ok [of tid roles permission st] enforceLoop_cases [of tid roles permission st]
    by (auto simp: Roles_Enforce_def HasPermission_def list_ex_iff)
qed

theorem decisions_exact_and_isolated_witness:
  "Roles_Enforce None ''a'' [''admin''] ''read'' (snd (dir_run roleExec
      [DCreate \<lparr>rl_TenantID = ''b'', rl_Key = ''admin'', rl_Permissions = [''read'']\<rparr>] NewRoleMemory)) \<noteq> Inr ()"
proof -
  let ?ops = "[DCreate \<lparr>rl_TenantID = ''b'', rl_Key = ''admin'', rl_Permissions = [''read'']\<rparr>]"
  have ops: "list_all noUpdate ?ops" by (simp add: noUpdate_def)
  have "Roles_Enforce None ''a'' [''admin''] ''read'' NewRoleMemory = Inl ErrPermissionDeny"
    by (simp add: Roles_Enforce_def NewRoleMemory_def)
  moreover have "filter (\<lambda>op. roleTenant op = ''a'') ?ops = []" by simp
  moreover note decisions_exact_and_isolated
    [OF ops refl, where tid = "''a''" and roles = "[''admin'']" and permission = "''read''" and cx = None,
      THEN conjunct2, THEN conjunct2]
  ultimately show ?thesis by (simp only:) simp
qed

end
