(* ===== verification/AI_Meter.thy ===== *)
theory AI_Meter
  imports Core_Context Quota
begin

text \<open>
  Metering of language models (\<open>ai\<close>): usage and limits per model and dimension (\<open>usage.go\<close>,
  \<open>meter.go\<close>) on top of a quota store, and the registry of providers (\<open>registry.go\<close>). The meter
  works on a world \<open>'s\<close> behind the interface of the store; the in-memory quota store with its
  other users is such a world.
\<close>

datatype ai_error =
  ErrNilProvider | ErrProviderNotFound | ErrNoTenant | ErrInvalidUsage | ErrNilMeterStore | AIQuota quota_error

section \<open>Values\<close>

definition DimTurns :: string where "DimTurns = ''turns''"
definition DimInputTokens :: string where "DimInputTokens = ''tokens_input''"
definition DimOutputTokens :: string where "DimOutputTokens = ''tokens_output''"
definition DimTotalTokens :: string where "DimTotalTokens = ''tokens_total''"

lemmas dimensions = DimTurns_def DimInputTokens_def DimOutputTokens_def DimTotalTokens_def

record ModelUsage =
  mo_Model :: string
  mo_Turns :: int64
  mo_InputTokens :: int64
  mo_OutputTokens :: int64

definition TotalTokens :: "ModelUsage \<Rightarrow> int64" where
  "TotalTokens usage = add64 (mo_InputTokens usage) (mo_OutputTokens usage)"

definition ResourceKey :: "string \<Rightarrow> string \<Rightarrow> string" where
  "ResourceKey model dimension =
     (if model = [] then ''ai//'' @ dimension else ''ai//'' @ model @ ''//'' @ dimension)"

record TokenLimit =
  tk_TenantID :: TenantID
  tk_Model :: string
  tk_TurnsLimit :: int64
  tk_InputLimit :: int64
  tk_OutputLimit :: int64
  tk_TotalLimit :: int64
  tk_Period :: Period

record Budget =
  bg_TenantID :: TenantID
  bg_Model :: string
  bg_Period :: Period
  bg_UsedTurns :: int64
  bg_UsedInput :: int64
  bg_UsedOutput :: int64
  bg_UsedTotal :: int64
  bg_LimitTurns :: int64
  bg_LimitInput :: int64
  bg_LimitOutput :: int64
  bg_LimitTotal :: int64

definition zeroBudget :: Budget where
  "zeroBudget = \<lparr>bg_TenantID = [], bg_Model = [], bg_Period = [], bg_UsedTurns = 0, bg_UsedInput = 0, bg_UsedOutput = 0,
     bg_UsedTotal = 0, bg_LimitTurns = 0, bg_LimitInput = 0, bg_LimitOutput = 0, bg_LimitTotal = 0\<rparr>"

definition validateTokenLimit :: "TokenLimit \<Rightarrow> ai_error + unit" where
  "validateTokenLimit limit = ensure (\<not> (tk_TenantID limit = [] \<or> tk_Period limit = [])) ErrInvalidUsage"

definition validateUsage :: "ModelUsage \<Rightarrow> ai_error + unit" where
  "validateUsage usage =
     ensure (\<not> (mo_Turns usage < 0 \<or> mo_InputTokens usage < 0 \<or> mo_OutputTokens usage < 0)) ErrInvalidUsage"

definition dimLimit :: "TokenLimit \<Rightarrow> string \<Rightarrow> int64 \<Rightarrow> Limit" where
  "dimLimit limit dimension capacity =
     \<lparr>l_TenantID = tk_TenantID limit, l_Resource = ResourceKey (tk_Model limit) dimension,
      l_Limit = capacity, l_Period = tk_Period limit\<rparr>"

section \<open>The meter\<close>

record 's usageStore =
  uo_Add :: "TenantID \<Rightarrow> string \<Rightarrow> Period \<Rightarrow> int64 \<Rightarrow> 's \<Rightarrow> (quota_error + int64) \<times> 's"
  uo_Consume :: "Limit \<Rightarrow> int64 \<Rightarrow> 's \<Rightarrow> (int64 \<times> quota_error option) \<times> 's"
  uo_Get :: "TenantID \<Rightarrow> string \<Rightarrow> Period \<Rightarrow> 's \<Rightarrow> (quota_error + int64) \<times> 's"

text \<open>A meter is its store; \<open>None\<close> is a nil meter or a meter of a nil store.\<close>

type_synonym 's Meter = "'s usageStore option"

definition Meter_tenantID :: "saasContext \<Rightarrow> ai_error + TenantID" where
  "Meter_tenantID tc = (case FromContext tc of None \<Rightarrow> Inl ErrNoTenant | Some tenant \<Rightarrow> Inr (tn_ID tenant))"

definition storeGet ::
  "'s usageStore \<Rightarrow> TokenLimit \<Rightarrow> string \<Rightarrow> 's \<Rightarrow> (ai_error + int64) \<times> 's"
where
  "storeGet store limit dimension s =
     map_prod (map_sum AIQuota id) id
       (uo_Get store (tk_TenantID limit) (ResourceKey (tk_Model limit) dimension) (tk_Period limit) s)"

definition recordDimension ::
  "'s usageStore \<Rightarrow> TenantID \<Rightarrow> string \<Rightarrow> Period \<Rightarrow> int64 \<Rightarrow> 's \<Rightarrow> (ai_error + unit) \<times> 's"
where
  "recordDimension store tid resource period amount s =
     (if amount \<le> 0 then (Inr (), s)
      else map_prod (map_sum AIQuota (\<lambda>_. ())) id (uo_Add store tid resource period amount s))"

definition Meter_RecordUsage ::
  "'s Meter \<Rightarrow> saasContext \<Rightarrow> ModelUsage \<Rightarrow> Period \<Rightarrow> 's \<Rightarrow> (ai_error + unit) \<times> 's"
where
  "Meter_RecordUsage meter tc usage period s =
     (case meter of None \<Rightarrow> fails ErrNilMeterStore s | Some store \<Rightarrow>
        on_ok (validateUsage usage) s (\<lambda>_. on_ok (Meter_tenantID tc) s (\<lambda>tid.
        on_done (recordDimension store tid (ResourceKey (mo_Model usage) DimTurns) period (mo_Turns usage) s) (\<lambda>_ s1.
        on_done (recordDimension store tid (ResourceKey (mo_Model usage) DimInputTokens) period (mo_InputTokens usage) s1) (\<lambda>_ s2.
          recordDimension store tid (ResourceKey (mo_Model usage) DimOutputTokens) period (mo_OutputTokens usage) s2)))))"

definition Meter_snapshot :: "'s usageStore \<Rightarrow> TokenLimit \<Rightarrow> 's \<Rightarrow> (ai_error + Budget) \<times> 's" where
  "Meter_snapshot store limit s =
     on_done (storeGet store limit DimTurns s) (\<lambda>turns s1.
     on_done (storeGet store limit DimInputTokens s1) (\<lambda>input s2.
     on_done (storeGet store limit DimOutputTokens s2) (\<lambda>output s3.
       (Inr \<lparr>bg_TenantID = tk_TenantID limit, bg_Model = tk_Model limit, bg_Period = tk_Period limit,
             bg_UsedTurns = turns, bg_UsedInput = input, bg_UsedOutput = output, bg_UsedTotal = add64 input output,
             bg_LimitTurns = tk_TurnsLimit limit, bg_LimitInput = tk_InputLimit limit,
             bg_LimitOutput = tk_OutputLimit limit, bg_LimitTotal = tk_TotalLimit limit\<rparr>, s3))))"

text \<open>\<open>budget.Used + amount > limit\<close> of a dimension that has a limit.\<close>

definition overLimit :: "int64 \<Rightarrow> int64 \<Rightarrow> int64 \<Rightarrow> bool" where
  "overLimit limit used amount \<longleftrightarrow> 0 < limit \<and> limit < add64 used amount"

definition Meter_CheckUsage ::
  "'s Meter \<Rightarrow> TokenLimit \<Rightarrow> ModelUsage \<Rightarrow> 's \<Rightarrow> (Budget \<times> ai_error option) \<times> 's"
where
  "Meter_CheckUsage meter limit usage s =
     (case meter of None \<Rightarrow> ((zeroBudget, Some ErrNilMeterStore), s) | Some store \<Rightarrow>
      (case bind_ok (validateTokenLimit limit) (\<lambda>_. validateUsage usage) of
         Inl e \<Rightarrow> ((zeroBudget, Some e), s)
       | Inr _ \<Rightarrow>
         (case Meter_snapshot store limit s of
            (Inl e, s1) \<Rightarrow> ((zeroBudget, Some e), s1)
          | (Inr budget, s1) \<Rightarrow>
              ((budget,
                if overLimit (tk_TurnsLimit limit) (bg_UsedTurns budget) (mo_Turns usage)
                  \<or> overLimit (tk_InputLimit limit) (bg_UsedInput budget) (mo_InputTokens usage)
                  \<or> overLimit (tk_OutputLimit limit) (bg_UsedOutput budget) (mo_OutputTokens usage)
                  \<or> overLimit (tk_TotalLimit limit) (bg_UsedTotal budget) (TotalTokens usage)
                then Some (AIQuota ErrQuotaExceeded) else None), s1))))"

definition consumeDimension ::
  "'s usageStore \<Rightarrow> TokenLimit \<Rightarrow> string \<Rightarrow> int64 \<Rightarrow> int64 \<Rightarrow> 's \<Rightarrow> (ai_error + unit) \<times> 's"
where
  "consumeDimension store limit dimension capacity amount s =
     (if 0 < amount \<and> 0 < capacity then
        (case uo_Consume store (dimLimit limit dimension capacity) amount s of
           ((_, Some e), s1) \<Rightarrow> (Inl (AIQuota e), s1)
         | ((_, None), s1) \<Rightarrow> (Inr (), s1))
      else (Inr (), s))"

definition Meter_ConsumeUsage ::
  "'s Meter \<Rightarrow> TokenLimit \<Rightarrow> ModelUsage \<Rightarrow> 's \<Rightarrow> (ai_error + Budget) \<times> 's"
where
  "Meter_ConsumeUsage meter limit usage s =
     (case meter of None \<Rightarrow> fails ErrNilMeterStore s | Some store \<Rightarrow>
        on_ok (validateTokenLimit limit) s (\<lambda>_. on_ok (validateUsage usage) s (\<lambda>_.
        on_done (consumeDimension store limit DimTurns (tk_TurnsLimit limit) (mo_Turns usage) s) (\<lambda>_ s1.
        on_done (consumeDimension store limit DimInputTokens (tk_InputLimit limit) (mo_InputTokens usage) s1) (\<lambda>_ s2.
        on_done (consumeDimension store limit DimOutputTokens (tk_OutputLimit limit) (mo_OutputTokens usage) s2) (\<lambda>_ s3.
        on_done (consumeDimension store limit DimTotalTokens (tk_TotalLimit limit) (TotalTokens usage) s3) (\<lambda>_ s4.
          Meter_snapshot store limit s4)))))))"

section \<open>The registry of providers\<close>

text \<open>A provider is known to the registry by its name.\<close>

record 'p Registry =
  rg_providers :: "(string, 'p) gomap"

definition NewRegistry :: "'p Registry" where
  "NewRegistry = \<lparr>rg_providers = []\<rparr>"

definition Registry_Register :: "('p \<Rightarrow> string) \<Rightarrow> 'p option \<Rightarrow> 'p Registry \<Rightarrow> (ai_error + unit) \<times> 'p Registry" where
  "Registry_Register name provider registry =
     (case provider of
        None \<Rightarrow> fails ErrNilProvider registry
      | Some p \<Rightarrow>
          if name p = [] then fails ErrNilProvider registry
          else (Inr (), registry\<lparr>rg_providers := AList.update (name p) p (rg_providers registry)\<rparr>))"

definition Registry_Get :: "string \<Rightarrow> 'p Registry \<Rightarrow> ai_error + 'p" where
  "Registry_Get name registry =
     (case map_of (rg_providers registry) name of None \<Rightarrow> Inl ErrProviderNotFound | Some p \<Rightarrow> Inr p)"

text \<open>What was registered last under a name is found under it, and nothing else.\<close>

definition registeredLast :: "('p \<Rightarrow> string) \<Rightarrow> string \<Rightarrow> 'p option list \<Rightarrow> 'p option" where
  "registeredLast name n ps =
     fold (\<lambda>p last. case p of None \<Rightarrow> last | Some q \<Rightarrow> if name q = n \<and> n \<noteq> [] then Some q else last) ps None"

lemma registry_finds_last:
  "Registry_Get n (fold (\<lambda>p registry. snd (Registry_Register name p registry)) ps NewRegistry)
     = (case registeredLast name n ps of None \<Rightarrow> Inl ErrProviderNotFound | Some p \<Rightarrow> Inr p)"
proof -
  have "map_of (rg_providers (fold (\<lambda>p registry. snd (Registry_Register name p registry)) ps registry)) n
      = fold (\<lambda>p last. case p of None \<Rightarrow> last | Some q \<Rightarrow> if name q = n \<and> n \<noteq> [] then Some q else last) ps
          (map_of (rg_providers registry) n)" for registry
  proof (induction ps arbitrary: registry)
    case (Cons p ps)
    have "map_of (rg_providers (snd (Registry_Register name p registry))) n
        = (case p of None \<Rightarrow> map_of (rg_providers registry) n
           | Some q \<Rightarrow> if name q = n \<and> n \<noteq> [] then Some q else map_of (rg_providers registry) n)"
      by (auto simp: Registry_Register_def split: option.split)
    then show ?case by (simp add: Cons.IH)
  qed simp
  then show ?thesis by (simp add: Registry_Get_def registeredLast_def NewRegistry_def)
qed

end
