(* ===== verification/AI_Guarantees.thy ===== *)
theory AI_Guarantees
  imports AI_Meter
begin

text \<open>
  What the meter guarantees: proved for any store that keeps the contract \<open>usage_backend\<close>, and
  instantiated with the in-memory quota store among its other users.
\<close>

section \<open>The contract of the store\<close>

text \<open>The dimensions a limit and a usage name, with the limit and the amount.\<close>

definition meterDimensions :: "TokenLimit \<Rightarrow> ModelUsage \<Rightarrow> (string \<times> int64 \<times> int64) list" where
  "meterDimensions limit usage =
     [(DimTurns, tk_TurnsLimit limit, mo_Turns usage), (DimInputTokens, tk_InputLimit limit, mo_InputTokens usage),
      (DimOutputTokens, tk_OutputLimit limit, mo_OutputTokens usage), (DimTotalTokens, tk_TotalLimit limit, TotalTokens usage)]"

locale usage_backend =
  fixes store :: "'s usageStore" and evolves :: "'s \<Rightarrow> 's \<Rightarrow> bool" and allowed :: "Limit \<Rightarrow> int64 \<Rightarrow> bool"
    and used :: "'s \<Rightarrow> int" and inv :: "'s \<Rightarrow> bool" and k :: usageKey
  assumes evolves_refl: "evolves s s"
    and evolves_trans: "evolves s s' \<Longrightarrow> evolves s' s'' \<Longrightarrow> evolves s s''"
    and evolves_inv: "inv s \<Longrightarrow> evolves s s' \<Longrightarrow> inv s'"
    and evolves_used: "inv s \<Longrightarrow> evolves s s' \<Longrightarrow> used s \<le> used s'"
    and get_evolves: "evolves s (snd (uo_Get store tid resource period s))"
    and consume_evolves: "allowed limit amount \<Longrightarrow> evolves s (snd (uo_Consume store limit amount s))"
    and consume_charges: "inv s \<Longrightarrow> allowed limit amount \<Longrightarrow> limitKey limit = k \<Longrightarrow>
      snd (fst (uo_Consume store limit amount s)) = None \<Longrightarrow> used s + amount \<le> used (snd (uo_Consume store limit amount s))"
begin

definition charged :: "int64 \<Rightarrow> 's \<Rightarrow> 's \<Rightarrow> bool" where
  "charged amount s s' \<longleftrightarrow> evolves s s' \<and> used s + amount \<le> used s'"

lemma get_step: "storeGet store limit dimension s = (r, s') \<Longrightarrow> evolves s s'"
  using get_evolves [of s "tk_TenantID limit" "ResourceKey (tk_Model limit) dimension" "tk_Period limit"]
  by (auto simp: storeGet_def map_prod_def split: prod.splits)

lemma snapshot_step:
  assumes "Meter_snapshot store limit s = (r, s')"
  shows "evolves s s'"
proof -
  obtain r1 s1 where g1: "storeGet store limit DimTurns s = (r1, s1)" by fastforce
  obtain r2 s2 where g2: "storeGet store limit DimInputTokens s1 = (r2, s2)" by fastforce
  obtain r3 s3 where g3: "storeGet store limit DimOutputTokens s2 = (r3, s3)" by fastforce
  have e: "evolves s s1" "evolves s s2" "evolves s s3"
    using get_step [OF g1] get_step [OF g2] get_step [OF g3] evolves_trans by blast+
  have "s' = s1 \<or> s' = s2 \<or> s' = s3"
    using assms g1 g2 g3 by (auto simp: Meter_snapshot_def on_done_def split: sum.splits)
  then show ?thesis using e by blast
qed

lemma dimension_step:
  assumes "allowed (dimLimit limit dimension capacity) amount"
    "consumeDimension store limit dimension capacity amount s = (r, s')"
  shows "evolves s s'"
    "inv s \<Longrightarrow> limitKey (dimLimit limit dimension capacity) = k \<Longrightarrow> r = Inr () \<Longrightarrow> 0 < amount \<Longrightarrow> 0 < capacity \<Longrightarrow>
       used s + amount \<le> used s'"
  using assms(2) consume_evolves [OF assms(1), of s] consume_charges [OF _ assms(1), of s] evolves_refl [of s]
  by (auto simp: consumeDimension_def split: if_splits prod.splits option.splits)

text \<open>A request that is granted is charged for the dimension of the key.\<close>

lemma consume_usage:
  assumes "inv s" "Meter_ConsumeUsage (Some store) limit usage s = (r, s')"
    "\<And>dimension capacity amount. (dimension, capacity, amount) \<in> set (meterDimensions limit usage) \<Longrightarrow>
       allowed (dimLimit limit dimension capacity) amount"
  shows "evolves s s'"
    "r = Inr budget \<Longrightarrow> (dimension, capacity, amount) \<in> set (meterDimensions limit usage) \<Longrightarrow>
       limitKey (dimLimit limit dimension capacity) = k \<Longrightarrow> 0 < amount \<Longrightarrow> 0 < capacity \<Longrightarrow> used s + amount \<le> used s'"
proof -
  let ?step = "consumeDimension store limit"
  note ok = assms(3) [unfolded meterDimensions_def]
  obtain r1 s1 where c1: "?step DimTurns (tk_TurnsLimit limit) (mo_Turns usage) s = (r1, s1)" by fastforce
  obtain r2 s2 where c2: "?step DimInputTokens (tk_InputLimit limit) (mo_InputTokens usage) s1 = (r2, s2)" by fastforce
  obtain r3 s3 where c3: "?step DimOutputTokens (tk_OutputLimit limit) (mo_OutputTokens usage) s2 = (r3, s3)" by fastforce
  obtain r4 s4 where c4: "?step DimTotalTokens (tk_TotalLimit limit) (TotalTokens usage) s3 = (r4, s4)" by fastforce
  obtain r5 s5 where c5: "Meter_snapshot store limit s4 = (r5, s5)" by fastforce
  note d1 = dimension_step [OF ok c1, simplified] and d2 = dimension_step [OF ok c2, simplified]
    and d3 = dimension_step [OF ok c3, simplified] and d4 = dimension_step [OF ok c4, simplified]
  have e: "evolves s s1" "evolves s1 s2" "evolves s2 s3" "evolves s3 s4" "evolves s4 s5"
    using d1(1) d2(1) d3(1) d4(1) snapshot_step [OF c5] by simp_all
  then have es: "evolves s s2" "evolves s s3" "evolves s s4" "evolves s s5" using evolves_trans by blast+
  have "s' = s \<or> s' = s1 \<or> s' = s2 \<or> s' = s3 \<or> s' = s4 \<or> s' = s5"
    using assms(2) c1 c2 c3 c4 c5
    by (auto simp: Meter_ConsumeUsage_def on_done_def on_ok_def split: sum.splits)
  then show "evolves s s'" using e es evolves_refl by blast
  assume "r = Inr budget"
  then have rs: "r1 = Inr ()" "r2 = Inr ()" "r3 = Inr ()" "r4 = Inr ()" "s' = s5"
    using assms(2) c1 c2 c3 c4 c5
    by (auto simp: Meter_ConsumeUsage_def on_done_def on_ok_def split: sum.splits)
  have i: "inv s1" "inv s2" "inv s3" "inv s4" using assms(1) e es evolves_inv by blast+
  have m: "used s \<le> used s1" "used s1 \<le> used s2" "used s2 \<le> used s3" "used s3 \<le> used s4" "used s4 \<le> used s5"
    using assms(1) i e evolves_used by blast+
  assume key: "limitKey (dimLimit limit dimension capacity) = k" and pos: "0 < amount" "0 < capacity"
    and d: "(dimension, capacity, amount) \<in> set (meterDimensions limit usage)"
  from d consider
      "dimension = DimTurns" "capacity = tk_TurnsLimit limit" "amount = mo_Turns usage"
    | "dimension = DimInputTokens" "capacity = tk_InputLimit limit" "amount = mo_InputTokens usage"
    | "dimension = DimOutputTokens" "capacity = tk_OutputLimit limit" "amount = mo_OutputTokens usage"
    | "dimension = DimTotalTokens" "capacity = tk_TotalLimit limit" "amount = TotalTokens usage"
    by (auto simp: meterDimensions_def)
  then show "used s + amount \<le> used s'"
  proof cases
    case 1
    with d1(2) [OF assms(1)] key pos rs m show ?thesis by simp
  next
    case 2
    with d2(2) [OF i(1)] key pos rs m show ?thesis by simp
  next
    case 3
    with d3(2) [OF i(2)] key pos rs m show ?thesis by simp
  next
    case 4
    with d4(2) [OF i(3)] key pos rs m show ?thesis by simp
  qed
qed

end

section \<open>The in-memory store among its other users\<close>

record meterEnv =
  mv_other :: "nat \<Rightarrow> quotaOp list"
  mv_ctx :: "nat \<Rightarrow> ctx"

record meterWorld =
  mw_quota :: QuotaMemory
  mw_calls :: nat

definition meterCall ::
  "meterEnv \<Rightarrow> (ctx \<Rightarrow> QuotaMemory \<Rightarrow> 'r \<times> QuotaMemory) \<Rightarrow> meterWorld \<Rightarrow> 'r \<times> meterWorld"
where
  "meterCall env f w =
     (let (r, st) = f (mv_ctx env (mw_calls w)) (fold quotaRun1 (mv_other env (mw_calls w)) (mw_quota w))
      in (r, \<lparr>mw_quota = st, mw_calls = Suc (mw_calls w)\<rparr>))"

definition memoryUsage :: "meterEnv \<Rightarrow> meterWorld usageStore" where
  "memoryUsage env =
     \<lparr>uo_Add = (\<lambda>tid resource period amount. meterCall env (\<lambda>cx. Quota_Add cx tid resource period amount)),
      uo_Consume = (\<lambda>limit amount. meterCall env (\<lambda>cx. Quota_Consume cx limit amount)),
      uo_Get = (\<lambda>tid resource period. meterCall env (\<lambda>cx st. (Quota_Get cx tid resource period st, st)))\<rparr>"

text \<open>The others consume under the key within its limit, and leave it alone otherwise.\<close>

definition respectful :: "usageKey \<Rightarrow> int64 \<Rightarrow> meterEnv \<Rightarrow> bool" where
  "respectful k l env \<longleftrightarrow> (\<forall>n. list_all (\<lambda>op. quotaTyped op \<and> consumesOnly k l op) (mv_other env n))"

definition respectfully :: "usageKey \<Rightarrow> int64 \<Rightarrow> meterEnv \<Rightarrow> meterEnv" where
  "respectfully k l env =
     env\<lparr>mv_other := (\<lambda>n. filter (\<lambda>op. quotaTyped op \<and> consumesOnly k l op) (mv_other env n))\<rparr>"

definition usageEvolves :: "usageKey \<Rightarrow> int64 \<Rightarrow> meterWorld \<Rightarrow> meterWorld \<Rightarrow> bool" where
  "usageEvolves k l w w' \<longleftrightarrow> (usage_inv (mw_quota w) \<longrightarrow> usage_inv (mw_quota w')
     \<and> usageOf k (mw_quota w) \<le> usageOf k (mw_quota w')
     \<and> (usageOf k (mw_quota w) \<le> l \<longrightarrow> usageOf k (mw_quota w') \<le> l))"

lemma granted_nonneg: "quotaTyped op \<Longrightarrow> usage_inv st \<Longrightarrow> 0 \<le> granted k [op] st"
proof (cases op)
  case (QConsume cx limit amount)
  assume "quotaTyped op" "usage_inv st"
  then show ?thesis
    using Consume_ok [of st limit cx amount] QConsume by (cases "Quota_Consume cx limit amount st") auto
qed simp_all

lemma run_evolves:
  "list_all (\<lambda>op. quotaTyped op \<and> consumesOnly k l op) ops \<Longrightarrow> usage_inv st \<Longrightarrow>
     usage_inv (fold quotaRun1 ops st) \<and> usageOf k st \<le> usageOf k (fold quotaRun1 ops st)
     \<and> (usageOf k st \<le> l \<longrightarrow> usageOf k (fold quotaRun1 ops st) \<le> l)"
proof (induction ops arbitrary: st)
  case (Cons op ops)
  then have op: "quotaTyped op" "consumesOnly k l op" by simp_all
  note one = consume_one [OF Cons.prems(2) op] and inv = quotaRun1_inv [OF Cons.prems(2) op(1)]
    and grow = granted_nonneg [OF op(1) Cons.prems(2), of k]
  show ?case using Cons.IH [OF _ inv] Cons.prems one grow by (simp del: granted.simps) linarith
qed simp

lemma respectfully_id: "respectful k l env \<Longrightarrow> respectfully k l env = env"
  by (simp add: respectful_def respectfully_def list_all_iff filter_id_conv)

lemma others_evolve:
  "usage_inv st \<Longrightarrow> st' = fold quotaRun1 (mv_other (respectfully k l env) n) st \<Longrightarrow>
     usage_inv st' \<and> usageOf k st \<le> usageOf k st' \<and> (usageOf k st \<le> l \<longrightarrow> usageOf k st' \<le> l)"
  using run_evolves [of k l "mv_other (respectfully k l env) n" st] by (simp add: respectfully_def list_all_iff)

interpretation metered: usage_backend "memoryUsage (respectfully k l env)" "usageEvolves k l"
  "\<lambda>limit amount. i64 amount \<and> i64 (l_Limit limit) \<and> (limitKey limit = k \<longrightarrow> l_Limit limit \<le> l)"
  "\<lambda>w. usageOf k (mw_quota w)" "\<lambda>w. usage_inv (mw_quota w)" k
proof (unfold_locales, goal_cases)
  case (2 w w' w'')
  then show ?case by (auto simp: usageEvolves_def)
next
  case (5 w tid resource period)
  show ?case
    using others_evolve by (auto simp: usageEvolves_def memoryUsage_def meterCall_def)
next
  case (6 limit amount w)
  let ?st = "fold quotaRun1 (mv_other (respectfully k l env) (mw_calls w)) (mw_quota w)"
  have "list_all (\<lambda>op. quotaTyped op \<and> consumesOnly k l op)
      [QConsume (mv_ctx (respectfully k l env) (mw_calls w)) limit amount]" using 6 by simp
  note one = run_evolves [OF this]
  show ?case
    unfolding usageEvolves_def
  proof (intro impI)
    assume i: "usage_inv (mw_quota w)"
    note o = others_evolve [OF i refl, of k l env "mw_calls w"]
    then have "usage_inv ?st" by simp
    from one [OF this] o show "usage_inv (mw_quota (snd (uo_Consume (memoryUsage (respectfully k l env)) limit amount w)))
        \<and> usageOf k (mw_quota w) \<le> usageOf k (mw_quota (snd (uo_Consume (memoryUsage (respectfully k l env)) limit amount w)))
        \<and> (usageOf k (mw_quota w) \<le> l \<longrightarrow>
            usageOf k (mw_quota (snd (uo_Consume (memoryUsage (respectfully k l env)) limit amount w))) \<le> l)"
      by (auto simp: memoryUsage_def meterCall_def split_beta)
  qed
next
  case (7 w limit amount)
  let ?st = "fold quotaRun1 (mv_other (respectfully k l env) (mw_calls w)) (mw_quota w)"
  let ?call = "Quota_Consume (mv_ctx (respectfully k l env) (mw_calls w)) limit amount ?st"
  note o = others_evolve [OF 7(1) refl, of k l env "mw_calls w"]
  then have i: "usage_inv ?st" by simp
  have "?call = ((fst (fst ?call), None), snd ?call)"
    using 7(4) by (auto simp: memoryUsage_def meterCall_def split_beta prod_eq_iff)
  from Consume_ok [OF i _ this] 7(2,3) o show ?case
    by (auto simp: memoryUsage_def meterCall_def split_beta)
qed (auto simp: usageEvolves_def)

section \<open>Limits hold\<close>

definition meterTyped :: "TokenLimit \<Rightarrow> ModelUsage \<Rightarrow> bool" where
  "meterTyped limit usage \<longleftrightarrow> i64 (tk_TurnsLimit limit) \<and> i64 (tk_InputLimit limit) \<and> i64 (tk_OutputLimit limit)
     \<and> i64 (tk_TotalLimit limit) \<and> i64 (mo_Turns usage) \<and> i64 (mo_InputTokens usage) \<and> i64 (mo_OutputTokens usage)"

lemma ResourceKey_inj: "ResourceKey model d = ResourceKey model d' \<longleftrightarrow> d = d'"
  by (simp add: ResourceKey_def)

lemma dimensions_distinct:
  "(d, c, a) \<in> set (meterDimensions limit usage) \<Longrightarrow> (d, c', a') \<in> set (meterDimensions limit usage) \<Longrightarrow> c' = c \<and> a' = a"
  by (auto simp: meterDimensions_def dimensions)

lemma dimensions_typed:
  "meterTyped limit usage \<Longrightarrow> (d, c, a) \<in> set (meterDimensions limit usage) \<Longrightarrow> i64 c \<and> i64 a"
  by (auto simp: meterTyped_def meterDimensions_def TotalTokens_def add64_def)

text \<open>What a request reports for a dimension, as integers that do not wrap.\<close>

definition reported :: "ModelUsage \<Rightarrow> string \<Rightarrow> int" where
  "reported usage dimension =
     (if dimension = DimTurns then mo_Turns usage else if dimension = DimInputTokens then mo_InputTokens usage
      else if dimension = DimOutputTokens then mo_OutputTokens usage
      else mo_InputTokens usage + mo_OutputTokens usage)"

lemma reported_amount:
  assumes "meterTyped limit usage" "validateUsage usage = Inr ()"
    and "(dimension, capacity, amount) \<in> set (meterDimensions limit usage)"
    and "dimension = DimTotalTokens \<longrightarrow> mo_InputTokens usage + mo_OutputTokens usage \<le> MaxInt64"
  shows "amount = reported usage dimension \<and> 0 \<le> amount"
proof -
  have v: "0 \<le> mo_Turns usage" "0 \<le> mo_InputTokens usage" "0 \<le> mo_OutputTokens usage"
    using assms(2) by (auto simp: validateUsage_def ensure_def split: if_splits)
  have "TotalTokens usage = mo_InputTokens usage + mo_OutputTokens usage" if "dimension = DimTotalTokens"
    unfolding TotalTokens_def add64_def
    by (rule wrap64_id) (use assms(4) that v in \<open>simp add: i64_def MaxInt64_def\<close>)
  moreover have "(dimension, capacity, amount) = (DimTurns, tk_TurnsLimit limit, mo_Turns usage)
      \<or> (dimension, capacity, amount) = (DimInputTokens, tk_InputLimit limit, mo_InputTokens usage)
      \<or> (dimension, capacity, amount) = (DimOutputTokens, tk_OutputLimit limit, mo_OutputTokens usage)
      \<or> (dimension, capacity, amount) = (DimTotalTokens, tk_TotalLimit limit, TotalTokens usage)"
    using assms(3) by (simp add: meterDimensions_def)
  ultimately show ?thesis
    using v by (elim disjE) (simp_all add: reported_def dimensions)
qed

lemma consumed_valid:
  "Meter_ConsumeUsage (Some store) limit usage w = (Inr budget, w') \<Longrightarrow> validateUsage usage = Inr ()"
  by (cases "validateTokenLimit limit"; cases "validateUsage usage") (auto simp: Meter_ConsumeUsage_def on_ok_def)

text \<open>
  C21. The limit of a model's turns, input tokens, output tokens or total tokens is never overrun,
  whatever other users of the quota store do meanwhile within the same limit and however the
  request ends. A request that is granted has been charged in full in every dimension that is limited
  (capacity above zero): its turns, its input tokens, its output tokens, and the sum of its input and
  output tokens if that sum fits 64 bits. A sum that does not fit wraps to a negative number in the
  source and is then not charged against the total limit (\<open>total_limit_skipped\<close> below).
\<close>

theorem usage_within_limits:
  assumes "usage_inv (mw_quota w)" "meterTyped limit usage"
    "(dimension, capacity, amount) \<in> set (meterDimensions limit usage)"
    "k = limitKey (dimLimit limit dimension capacity)" "usageOf k (mw_quota w) \<le> capacity" "respectful k capacity env"
    "Meter_ConsumeUsage (Some (memoryUsage env)) limit usage w = (r, w')"
  shows "usageOf k (mw_quota w') \<le> capacity
    \<and> (r = Inr budget \<and> 0 < capacity
        \<and> (dimension = DimTotalTokens \<longrightarrow> mo_InputTokens usage + mo_OutputTokens usage \<le> MaxInt64)
       \<longrightarrow> usageOf k (mw_quota w) + reported usage dimension \<le> usageOf k (mw_quota w'))"
proof -
  note env = respectfully_id [OF assms(6)]
  have ok: "i64 a \<and> i64 (l_Limit (dimLimit limit d c)) \<and>
      (limitKey (dimLimit limit d c) = k \<longrightarrow> l_Limit (dimLimit limit d c) \<le> capacity)"
    if d: "(d, c, a) \<in> set (meterDimensions limit usage)" for d c a
  proof -
    have "c = capacity" if "limitKey (dimLimit limit d c) = k"
    proof -
      have "d = dimension" using that assms(4) by (simp add: limitKey_def dimLimit_def ResourceKey_inj)
      then show ?thesis using dimensions_distinct d assms(3) by blast
    qed
    then show ?thesis using dimensions_typed [OF assms(2) d] by (auto simp: dimLimit_def)
  qed
  note run = metered.consume_usage [of w k capacity env, unfolded env, OF assms(1,7) ok]
  have "usageEvolves k capacity w w'" by (rule run(1))
  then have evolved: "usageOf k (mw_quota w') \<le> capacity" "usageOf k (mw_quota w) \<le> usageOf k (mw_quota w')"
    using assms(1,5) by (auto simp: usageEvolves_def)
  moreover have "usageOf k (mw_quota w) + reported usage dimension \<le> usageOf k (mw_quota w')"
    if "r = Inr budget" "0 < capacity"
      "dimension = DimTotalTokens \<longrightarrow> mo_InputTokens usage + mo_OutputTokens usage \<le> MaxInt64"
  proof -
    have valid: "validateUsage usage = Inr ()" by (rule consumed_valid [OF assms(7) [unfolded that(1)]])
    note amount = reported_amount [OF assms(2) valid assms(3) that(3)]
    show ?thesis
    proof (cases "amount = 0")
      case False
      with amount have "0 < amount" by simp
      with run(2) [of budget dimension capacity amount] that(1,2) assms(3,4) amount show ?thesis by simp
    qed (use amount evolved(2) in simp)
  qed
  ultimately show ?thesis by blast
qed

section \<open>Checking and consuming\<close>

definition quietMeter :: meterEnv where
  "quietMeter = \<lparr>mv_other = (\<lambda>_. []), mv_ctx = (\<lambda>_. None)\<rparr>"

lemma quiet_meter:
  "meterCall quietMeter f w = (fst (f None (mw_quota w)), \<lparr>mw_quota = snd (f None (mw_quota w)), mw_calls = Suc (mw_calls w)\<rparr>)"
  by (simp add: meterCall_def quietMeter_def split_beta)

definition dimKey :: "TokenLimit \<Rightarrow> string \<Rightarrow> usageKey" where
  "dimKey limit d = (tk_TenantID limit, ResourceKey (tk_Model limit) d, tk_Period limit)"

lemma dimKey_inj: "dimKey limit d = dimKey limit d' \<longleftrightarrow> d = d'"
  by (simp add: dimKey_def ResourceKey_inj)

lemma quiet_get:
  "validateTokenLimit limit = Inr () \<Longrightarrow> storeGet (memoryUsage quietMeter) limit d w
     = (Inr (usageOf (dimKey limit d) (mw_quota w)), \<lparr>mw_quota = mw_quota w, mw_calls = Suc (mw_calls w)\<rparr>)"
  by (simp add: storeGet_def memoryUsage_def quiet_meter Quota_Get_def validateTokenLimit_def ensure_def dimKey_def
      ResourceKey_def split: if_splits)

definition fits :: "TokenLimit \<Rightarrow> QuotaMemory \<Rightarrow> string \<Rightarrow> int64 \<Rightarrow> int64 \<Rightarrow> bool" where
  "fits limit st d c a \<longleftrightarrow> 0 < a \<and> 0 < c \<longrightarrow> usageOf (dimKey limit d) st + a \<le> c"

lemma quiet_consume:
  assumes "validateTokenLimit limit = Inr ()" "usage_inv (mw_quota w)" "i64 c" "i64 a"
    "consumeDimension (memoryUsage quietMeter) limit d c a w = (r, w')"
  shows "(r = Inr () \<longleftrightarrow> fits limit (mw_quota w) d c a) \<and> (\<forall>e. r = Inl e \<longrightarrow> e = AIQuota ErrQuotaExceeded)
    \<and> usage_inv (mw_quota w') \<and> (\<forall>key. key \<noteq> dimKey limit d \<longrightarrow> usageOf key (mw_quota w') = usageOf key (mw_quota w))"
proof (cases "0 < a \<and> 0 < c")
  case True
  let ?l = "dimLimit limit d c"
  have l: "limitKey ?l = dimKey limit d" "l_Limit ?l = c" "validateLimit ?l = Inr ()"
    using assms(1) True
    by (auto simp: limitKey_def dimLimit_def dimKey_def validateLimit_def validateTokenLimit_def ensure_def ResourceKey_def
        split: if_splits)
  have inv: "usage_inv (snd (Quota_Consume None ?l a (mw_quota w)))"
    using quotaRun1_inv [OF assms(2), of "QConsume None ?l a"] assms(3,4) l by simp
  show ?thesis
  proof (cases "usageOf (dimKey limit d) (mw_quota w) + a \<le> c")
    case fit: True
    then have "Quota_Consume None ?l a (mw_quota w) = ((usageOf (dimKey limit d) (mw_quota w) + a, None),
        setUsage (dimKey limit d) (usageOf (dimKey limit d) (mw_quota w) + a) (mw_quota w))"
      using Consume_effect [OF assms(2), of ?l None a] l assms(3) True by simp
    then show ?thesis using assms(5) True fit inv
      by (auto simp: consumeDimension_def memoryUsage_def quiet_meter fits_def)
  next
    case False
    then have "Quota_Consume None ?l a (mw_quota w) = ((usageOf (dimKey limit d) (mw_quota w), Some ErrQuotaExceeded), mw_quota w)"
      using room_exact [OF assms(2) _ assms(3), of "dimKey limit d"] l True by (simp add: Quota_Consume_def Let_def)
    then show ?thesis using assms(2,5) True False
      by (auto simp: consumeDimension_def memoryUsage_def quiet_meter fits_def)
  qed
qed (use assms in \<open>auto simp: consumeDimension_def fits_def\<close>)

lemma quiet_snapshot:
  "validateTokenLimit limit = Inr () \<Longrightarrow> \<exists>budget w'. Meter_snapshot (memoryUsage quietMeter) limit w = (Inr budget, w')
     \<and> mw_quota w' = mw_quota w \<and> bg_UsedTurns budget = usageOf (dimKey limit DimTurns) (mw_quota w)
     \<and> bg_UsedInput budget = usageOf (dimKey limit DimInputTokens) (mw_quota w)
     \<and> bg_UsedOutput budget = usageOf (dimKey limit DimOutputTokens) (mw_quota w)"
  by (simp add: Meter_snapshot_def quiet_get)

lemma overLimit_exact: "0 \<le> used \<Longrightarrow> 0 \<le> a \<Longrightarrow> used + a \<le> MaxInt64 \<Longrightarrow> overLimit c used a \<longleftrightarrow> 0 < c \<and> c < used + a"
  by (simp add: overLimit_def add64_id i64_nonneg)

lemma quiet_check:
  assumes "usage_inv st" "meterTyped limit usage" "validateTokenLimit limit = Inr ()" "validateUsage usage = Inr ()"
    "tk_TotalLimit limit \<le> 0"
    "\<forall>(d, c, a)\<in>set (meterDimensions limit usage). usageOf (dimKey limit d) st + a \<le> MaxInt64"
  shows "snd (fst (Meter_CheckUsage (Some (memoryUsage quietMeter)) limit usage \<lparr>mw_quota = st, mw_calls = n\<rparr>)) = None \<longleftrightarrow>
    (\<forall>(d, c, a)\<in>set (meterDimensions limit usage). 0 < c \<longrightarrow> usageOf (dimKey limit d) st + a \<le> c)"
proof -
  let ?m = "memoryUsage quietMeter" and ?w = "\<lparr>mw_quota = st, mw_calls = n\<rparr>"
  let ?D = "meterDimensions limit usage"
  have pos: "0 \<le> mo_Turns usage" "0 \<le> mo_InputTokens usage" "0 \<le> mo_OutputTokens usage"
    using assms(4) by (auto simp: validateUsage_def ensure_def split: if_splits)
  have nonneg: "0 \<le> usageOf key st" for key using usage_invD [OF assms(1)] by simp
  obtain budget w' where snap: "Meter_snapshot ?m limit ?w = (Inr budget, w')"
    and used: "bg_UsedTurns budget = usageOf (dimKey limit DimTurns) st"
      "bg_UsedInput budget = usageOf (dimKey limit DimInputTokens) st"
      "bg_UsedOutput budget = usageOf (dimKey limit DimOutputTokens) st"
    using quiet_snapshot [OF assms(3), of ?w] by auto
  have over: "overLimit c (usageOf (dimKey limit d) st) a \<longleftrightarrow> 0 < c \<and> c < usageOf (dimKey limit d) st + a"
    if "(d, c, a) \<in> set ?D" "0 \<le> a" for d c a
    using that assms(6) nonneg overLimit_exact by fastforce
  have "overLimit (tk_TurnsLimit limit) (usageOf (dimKey limit DimTurns) st) (mo_Turns usage) \<longleftrightarrow>
      0 < tk_TurnsLimit limit \<and> tk_TurnsLimit limit < usageOf (dimKey limit DimTurns) st + mo_Turns usage"
    "overLimit (tk_InputLimit limit) (usageOf (dimKey limit DimInputTokens) st) (mo_InputTokens usage) \<longleftrightarrow>
      0 < tk_InputLimit limit \<and> tk_InputLimit limit < usageOf (dimKey limit DimInputTokens) st + mo_InputTokens usage"
    "overLimit (tk_OutputLimit limit) (usageOf (dimKey limit DimOutputTokens) st) (mo_OutputTokens usage) \<longleftrightarrow>
      0 < tk_OutputLimit limit \<and> tk_OutputLimit limit < usageOf (dimKey limit DimOutputTokens) st + mo_OutputTokens usage"
    using pos by (intro over; simp add: meterDimensions_def)+
  moreover have "\<not> overLimit (tk_TotalLimit limit) x y" for x y using assms(5) by (simp add: overLimit_def)
  moreover have "snd (fst (Meter_CheckUsage (Some ?m) limit usage ?w)) = None \<longleftrightarrow>
      \<not> (overLimit (tk_TurnsLimit limit) (bg_UsedTurns budget) (mo_Turns usage)
         \<or> overLimit (tk_InputLimit limit) (bg_UsedInput budget) (mo_InputTokens usage)
         \<or> overLimit (tk_OutputLimit limit) (bg_UsedOutput budget) (mo_OutputTokens usage)
         \<or> overLimit (tk_TotalLimit limit) (bg_UsedTotal budget) (TotalTokens usage))"
    by (simp add: Meter_CheckUsage_def snap assms(3,4))
  moreover have "(\<forall>(d, c, a)\<in>set ?D. 0 < c \<longrightarrow> usageOf (dimKey limit d) st + a \<le> c) \<longleftrightarrow>
      (0 < tk_TurnsLimit limit \<longrightarrow> usageOf (dimKey limit DimTurns) st + mo_Turns usage \<le> tk_TurnsLimit limit)
      \<and> (0 < tk_InputLimit limit \<longrightarrow> usageOf (dimKey limit DimInputTokens) st + mo_InputTokens usage \<le> tk_InputLimit limit)
      \<and> (0 < tk_OutputLimit limit \<longrightarrow> usageOf (dimKey limit DimOutputTokens) st + mo_OutputTokens usage \<le> tk_OutputLimit limit)"
    using assms(5) by (simp add: meterDimensions_def)
  ultimately show ?thesis by (simp only: used not_le [symmetric]) blast
qed

lemma quiet_consume_usage:
  assumes "usage_inv st" "meterTyped limit usage" "validateTokenLimit limit = Inr ()" "validateUsage usage = Inr ()"
    "tk_TotalLimit limit \<le> 0"
  shows "(\<exists>budget. fst (Meter_ConsumeUsage (Some (memoryUsage quietMeter)) limit usage \<lparr>mw_quota = st, mw_calls = n\<rparr>) = Inr budget) \<longleftrightarrow>
      fits limit st DimTurns (tk_TurnsLimit limit) (mo_Turns usage)
      \<and> fits limit st DimInputTokens (tk_InputLimit limit) (mo_InputTokens usage)
      \<and> fits limit st DimOutputTokens (tk_OutputLimit limit) (mo_OutputTokens usage)"
    "fst (Meter_ConsumeUsage (Some (memoryUsage quietMeter)) limit usage \<lparr>mw_quota = st, mw_calls = n\<rparr>) = Inl e \<Longrightarrow>
      e = AIQuota ErrQuotaExceeded"
proof -
  let ?m = "memoryUsage quietMeter" and ?w = "\<lparr>mw_quota = st, mw_calls = n\<rparr>"
  obtain r1 w1 where c1: "consumeDimension ?m limit DimTurns (tk_TurnsLimit limit) (mo_Turns usage) ?w = (r1, w1)" by fastforce
  obtain r2 w2 where c2: "consumeDimension ?m limit DimInputTokens (tk_InputLimit limit) (mo_InputTokens usage) w1 = (r2, w2)" by fastforce
  obtain r3 w3 where c3: "consumeDimension ?m limit DimOutputTokens (tk_OutputLimit limit) (mo_OutputTokens usage) w2 = (r3, w3)" by fastforce
  have typed: "i64 (tk_TurnsLimit limit)" "i64 (mo_Turns usage)" "i64 (tk_InputLimit limit)" "i64 (mo_InputTokens usage)"
    "i64 (tk_OutputLimit limit)" "i64 (mo_OutputTokens usage)" using assms(2) by (simp_all add: meterTyped_def)
  have "usage_inv (mw_quota ?w)" using assms(1) by simp
  note q1 = quiet_consume [OF assms(3) this typed(1,2) c1]
  note q2 = quiet_consume [OF assms(3) q1 [THEN conjunct2, THEN conjunct2, THEN conjunct1] typed(3,4) c2]
  note q3 = quiet_consume [OF assms(3) q2 [THEN conjunct2, THEN conjunct2, THEN conjunct1] typed(5,6) c3]
  have ne: "dimKey limit DimInputTokens \<noteq> dimKey limit DimTurns" "dimKey limit DimOutputTokens \<noteq> dimKey limit DimTurns"
    "dimKey limit DimOutputTokens \<noteq> dimKey limit DimInputTokens"
    by (simp_all add: dimKey_inj dimensions)
  have "usageOf (dimKey limit DimInputTokens) (mw_quota w1) = usageOf (dimKey limit DimInputTokens) (mw_quota ?w)"
    "usageOf (dimKey limit DimOutputTokens) (mw_quota w1) = usageOf (dimKey limit DimOutputTokens) (mw_quota ?w)"
    using q1 [THEN conjunct2, THEN conjunct2, THEN conjunct2] ne by blast+
  moreover have "usageOf (dimKey limit DimOutputTokens) (mw_quota w2) = usageOf (dimKey limit DimOutputTokens) (mw_quota w1)"
    using q2 [THEN conjunct2, THEN conjunct2, THEN conjunct2] ne by blast
  ultimately have same: "usageOf (dimKey limit DimInputTokens) (mw_quota w1) = usageOf (dimKey limit DimInputTokens) st"
    "usageOf (dimKey limit DimOutputTokens) (mw_quota w2) = usageOf (dimKey limit DimOutputTokens) st" by simp_all
  have f: "r1 = Inr () \<longleftrightarrow> fits limit st DimTurns (tk_TurnsLimit limit) (mo_Turns usage)"
    "r2 = Inr () \<longleftrightarrow> fits limit st DimInputTokens (tk_InputLimit limit) (mo_InputTokens usage)"
    "r3 = Inr () \<longleftrightarrow> fits limit st DimOutputTokens (tk_OutputLimit limit) (mo_OutputTokens usage)"
    using q1 [THEN conjunct1] q2 [THEN conjunct1] q3 [THEN conjunct1] by (simp_all add: fits_def same)
  obtain budget w4 where snap: "Meter_snapshot ?m limit w3 = (Inr budget, w4)"
    using quiet_snapshot [OF assms(3), of w3] by auto
  have total: "consumeDimension ?m limit DimTotalTokens (tk_TotalLimit limit) (TotalTokens usage) w3 = (Inr (), w3)"
    using assms(5) by (simp add: consumeDimension_def)
  have run: "Meter_ConsumeUsage (Some ?m) limit usage ?w
      = on_done (r1, w1) (\<lambda>_ _. on_done (r2, w2) (\<lambda>_ _. on_done (r3, w3) (\<lambda>_ _. (Inr budget, w4))))"
    using c1 c2 c3 snap total assms(3,4) by (auto simp: Meter_ConsumeUsage_def on_done_def split: sum.splits)
  show "(\<exists>budget. fst (Meter_ConsumeUsage (Some ?m) limit usage ?w) = Inr budget) \<longleftrightarrow>
      fits limit st DimTurns (tk_TurnsLimit limit) (mo_Turns usage)
      \<and> fits limit st DimInputTokens (tk_InputLimit limit) (mo_InputTokens usage)
      \<and> fits limit st DimOutputTokens (tk_OutputLimit limit) (mo_OutputTokens usage)"
    unfolding f [symmetric] run by (cases r1; cases r2; cases r3) auto
  show "fst (Meter_ConsumeUsage (Some ?m) limit usage ?w) = Inl e \<Longrightarrow> e = AIQuota ErrQuotaExceeded"
    unfolding run using q1 q2 q3 by (cases r1; cases r2; cases r3) auto
qed

text \<open>
  \<open>CheckUsage\<close> predicts \<open>ConsumeUsage\<close> for limits on turns, input and output tokens, as long as no
  sum leaves the 64-bit range: the check passes exactly when every limited dimension has room
  for its amount, and the request is then granted; when it is refused, a dimension it needs had
  no room, and the error says that the quota is exceeded.
\<close>

theorem check_predicts_usage:
  assumes "usage_inv st" "meterTyped limit usage" "validateTokenLimit limit = Inr ()" "validateUsage usage = Inr ()"
    "tk_TotalLimit limit \<le> 0"
    "\<forall>(d, c, a)\<in>set (meterDimensions limit usage). usageOf (dimKey limit d) st + a \<le> MaxInt64"
  shows "(snd (fst (Meter_CheckUsage (Some (memoryUsage quietMeter)) limit usage \<lparr>mw_quota = st, mw_calls = n\<rparr>)) = None \<longleftrightarrow>
        (\<forall>(d, c, a)\<in>set (meterDimensions limit usage). 0 < c \<longrightarrow> usageOf (dimKey limit d) st + a \<le> c))
    \<and> ((\<exists>budget. fst (Meter_ConsumeUsage (Some (memoryUsage quietMeter)) limit usage \<lparr>mw_quota = st, mw_calls = n\<rparr>) = Inr budget) \<longleftrightarrow>
        (\<forall>(d, c, a)\<in>set (meterDimensions limit usage). 0 < a \<longrightarrow> 0 < c \<longrightarrow> usageOf (dimKey limit d) st + a \<le> c))
    \<and> (\<forall>e. fst (Meter_ConsumeUsage (Some (memoryUsage quietMeter)) limit usage \<lparr>mw_quota = st, mw_calls = n\<rparr>) = Inl e \<longrightarrow>
        e = AIQuota ErrQuotaExceeded)"
proof -
  have "(\<forall>(d, c, a)\<in>set (meterDimensions limit usage). 0 < a \<longrightarrow> 0 < c \<longrightarrow> usageOf (dimKey limit d) st + a \<le> c)
      \<longleftrightarrow> fits limit st DimTurns (tk_TurnsLimit limit) (mo_Turns usage)
        \<and> fits limit st DimInputTokens (tk_InputLimit limit) (mo_InputTokens usage)
        \<and> fits limit st DimOutputTokens (tk_OutputLimit limit) (mo_OutputTokens usage)"
    using assms(5) by (auto simp: meterDimensions_def fits_def)
  then show ?thesis using quiet_check [OF assms] quiet_consume_usage [OF assms(1-5)] by blast
qed

section \<open>Concrete requests\<close>

definition sampleTokens :: "int64 \<Rightarrow> int64 \<Rightarrow> ModelUsage" where
  "sampleTokens input output = \<lparr>mo_Model = ''m'', mo_Turns = 1, mo_InputTokens = input, mo_OutputTokens = output\<rparr>"

definition sampleTokenLimit :: "int64 \<Rightarrow> int64 \<Rightarrow> TokenLimit" where
  "sampleTokenLimit input cap = \<lparr>tk_TenantID = ''t'', tk_Model = ''m'', tk_TurnsLimit = 0, tk_InputLimit = input,
     tk_OutputLimit = 0, tk_TotalLimit = cap, tk_Period = ''day''\<rparr>"

definition usedInput :: "int64 \<Rightarrow> meterWorld" where
  "usedInput used = \<lparr>mw_quota = \<lparr>qm_usage = [((''t'', ''ai//m//tokens_input'', ''day''), used)]\<rparr>, mw_calls = 0\<rparr>"

text \<open>
  A sum that wraps: the check of a huge request passes and the request is refused.
\<close>

lemma check_passes_wrapped_sum:
  "snd (fst (Meter_CheckUsage (Some (memoryUsage quietMeter)) (sampleTokenLimit 10 0)
       (sampleTokens MaxInt64 0) (usedInput 5))) = None"
  "fst (Meter_ConsumeUsage (Some (memoryUsage quietMeter)) (sampleTokenLimit 10 0)
       (sampleTokens MaxInt64 0) (usedInput 5)) = Inl (AIQuota ErrQuotaExceeded)"
  by code_simp+

text \<open>
  Input and output tokens whose sum wraps are granted under a limit on the total, without being
  charged.
\<close>

lemma total_limit_skipped:
  "isl (fst (Meter_ConsumeUsage (Some (memoryUsage quietMeter)) (sampleTokenLimit 0 10)
       (sampleTokens 4611686018427387904 4611686018427387904) (usedInput 0))) = False"
  "usageOf (''t'', ''ai//m//tokens_total'', ''day'') (mw_quota (snd (Meter_ConsumeUsage (Some (memoryUsage quietMeter))
       (sampleTokenLimit 0 10) (sampleTokens 4611686018427387904 4611686018427387904) (usedInput 0)))) = 0"
  by code_simp+

text \<open>
  With a limit on the total only, \<open>CheckUsage\<close> does not see what \<open>ConsumeUsage\<close> has charged.
\<close>

lemma total_not_checked:
  "snd (fst (Meter_CheckUsage (Some (memoryUsage quietMeter)) (sampleTokenLimit 0 10) (sampleTokens 8 0)
       (snd (Meter_ConsumeUsage (Some (memoryUsage quietMeter)) (sampleTokenLimit 0 10) (sampleTokens 8 0) (usedInput 0))))) = None"
  "fst (Meter_ConsumeUsage (Some (memoryUsage quietMeter)) (sampleTokenLimit 0 10) (sampleTokens 8 0)
       (snd (Meter_ConsumeUsage (Some (memoryUsage quietMeter)) (sampleTokenLimit 0 10) (sampleTokens 8 0) (usedInput 0))))
     = Inl (AIQuota ErrQuotaExceeded)"
  by code_simp+

lemma usedInput_inv: "0 \<le> used \<Longrightarrow> used \<le> MaxInt64 \<Longrightarrow> usage_inv (mw_quota (usedInput used))"
  by (simp add: usage_inv_def usedInput_def usageOf_def lookup0_def MaxInt64_def)

theorem usage_within_limits_witness:
  "usageOf (''t'', ''ai//m//tokens_input'', ''day'') (mw_quota (snd (Meter_ConsumeUsage (Some (memoryUsage quietMeter))
     (sampleTokenLimit 10 0) (sampleTokens 4 0) (usedInput 5)))) \<le> 10
   \<and> 5 + 4 \<le> usageOf (''t'', ''ai//m//tokens_input'', ''day'') (mw_quota (snd (Meter_ConsumeUsage
       (Some (memoryUsage quietMeter)) (sampleTokenLimit 10 0) (sampleTokens 4 0) (usedInput 5))))"
proof -
  let ?run = "Meter_ConsumeUsage (Some (memoryUsage quietMeter)) (sampleTokenLimit 10 0) (sampleTokens 4 0) (usedInput 5)"
  have inv: "usage_inv (mw_quota (usedInput 5))" by (rule usedInput_inv) (simp_all add: MaxInt64_def)
  have typed: "meterTyped (sampleTokenLimit 10 0) (sampleTokens 4 0)"
    by (simp add: meterTyped_def sampleTokenLimit_def sampleTokens_def i64_def)
  have d: "(DimInputTokens, 10, 4) \<in> set (meterDimensions (sampleTokenLimit 10 0) (sampleTokens 4 0))"
    by (simp add: meterDimensions_def sampleTokenLimit_def sampleTokens_def)
  have key: "(''t'', ''ai//m//tokens_input'', ''day'') = limitKey (dimLimit (sampleTokenLimit 10 0) DimInputTokens 10)"
    by code_simp
  have room: "usageOf (''t'', ''ai//m//tokens_input'', ''day'') (mw_quota (usedInput 5)) \<le> 10" by code_simp
  have quiet: "respectful (''t'', ''ai//m//tokens_input'', ''day'') 10 quietMeter"
    by (simp add: respectful_def quietMeter_def)
  have "\<not> isl (fst ?run)" by code_simp
  then obtain budget where "?run = (Inr budget, snd ?run)" by (metis prod.collapse sum.collapse(2))
  moreover have "usageOf (''t'', ''ai//m//tokens_input'', ''day'') (mw_quota (usedInput 5)) = 5"
    "reported (sampleTokens 4 0) DimInputTokens = 4" by code_simp+
  ultimately show ?thesis using usage_within_limits [OF inv typed d key room quiet, of "Inr budget" "snd ?run" budget]
    by (simp add: dimensions)
qed

theorem check_predicts_usage_witness:
  "fst (Meter_ConsumeUsage (Some (memoryUsage quietMeter)) (sampleTokenLimit 10 0) (sampleTokens 6 0) (usedInput 5))
     = Inl (AIQuota ErrQuotaExceeded)"
proof -
  let ?st = "mw_quota (usedInput 5)"
  have inv: "usage_inv ?st" by (rule usedInput_inv) (simp_all add: MaxInt64_def)
  have typed: "meterTyped (sampleTokenLimit 10 0) (sampleTokens 6 0)"
    by (simp add: meterTyped_def sampleTokenLimit_def sampleTokens_def i64_def)
  have valid: "validateTokenLimit (sampleTokenLimit 10 0) = Inr ()" "validateUsage (sampleTokens 6 0) = Inr ()" by code_simp+
  have total: "tk_TotalLimit (sampleTokenLimit 10 0) \<le> 0" by (simp add: sampleTokenLimit_def)
  have D: "meterDimensions (sampleTokenLimit 10 0) (sampleTokens 6 0)
      = [(DimTurns, 0, 1), (DimInputTokens, 10, 6), (DimOutputTokens, 0, 0), (DimTotalTokens, 0, 6)]" by code_simp
  have u: "usageOf (dimKey (sampleTokenLimit 10 0) DimTurns) ?st = 0"
    "usageOf (dimKey (sampleTokenLimit 10 0) DimInputTokens) ?st = 5"
    "usageOf (dimKey (sampleTokenLimit 10 0) DimOutputTokens) ?st = 0"
    "usageOf (dimKey (sampleTokenLimit 10 0) DimTotalTokens) ?st = 0" by code_simp+
  have small: "\<forall>(d, c, a)\<in>set (meterDimensions (sampleTokenLimit 10 0) (sampleTokens 6 0)).
      usageOf (dimKey (sampleTokenLimit 10 0) d) ?st + a \<le> MaxInt64"
    by (simp add: D u MaxInt64_def)
  note facts = check_predicts_usage [OF inv typed valid total small, of 0]
  have w: "\<lparr>mw_quota = ?st, mw_calls = 0\<rparr> = usedInput 5" by (simp add: usedInput_def)
  have "\<not> (\<exists>budget. fst (Meter_ConsumeUsage (Some (memoryUsage quietMeter)) (sampleTokenLimit 10 0) (sampleTokens 6 0)
      \<lparr>mw_quota = ?st, mw_calls = 0\<rparr>) = Inr budget)"
    using facts [THEN conjunct2, THEN conjunct1] by (simp add: D u)
  then show ?thesis using facts [THEN conjunct2, THEN conjunct2] unfolding w
    by (metis sum.exhaust)
qed

end
