(* ===== verification/Scoped_Cache.thy ===== *)
theory Scoped_Cache
  imports Core_Context Tenant_Cache
begin

text \<open>
  The general cache (\<open>cache\<close>): keys that are scoped by the tenant of the context (\<open>key.go\<close>), the
  in-memory cache (\<open>memory.go\<close>) and the wrapper that scopes every operation
  (\<open>tenant_cache.go\<close>). A value is a string of bytes; a nil slice is the empty one.
\<close>

datatype scoped_error =
  ScopedCtx ctx_error | ErrNoScope | ErrUnsafeKey | ErrHostGlobalKeyNotAllowed | ErrInvalidMemorySize

section \<open>Keys\<close>

definition tenantPrefix :: string where "tenantPrefix = ''t2:''"
definition legacyTenantPrefix :: string where "legacyTenantPrefix = ''t:''"
definition globalPrefix :: string where "globalPrefix = ''g:''"

text \<open>\<open>base64.RawURLEncoding\<close>.\<close>

definition urlAlphabet :: string where
  "urlAlphabet = ''ABCDEFGHIJKLMNOPQRSTUVWXYZabcdefghijklmnopqrstuvwxyz0123456789-_''"

abbreviation byteAt :: "char \<Rightarrow> nat" where "byteAt c \<equiv> of_char c"

fun rawURLEncode :: "char list \<Rightarrow> string" where
  "rawURLEncode [] = []"
| "rawURLEncode [a] = [urlAlphabet ! (byteAt a div 4), urlAlphabet ! (byteAt a mod 4 * 16)]"
| "rawURLEncode [a, b] =
     [urlAlphabet ! (byteAt a div 4), urlAlphabet ! (byteAt a mod 4 * 16 + byteAt b div 16),
      urlAlphabet ! (byteAt b mod 16 * 4)]"
| "rawURLEncode (a # b # c # rest) =
     urlAlphabet ! (byteAt a div 4) # urlAlphabet ! (byteAt a mod 4 * 16 + byteAt b div 16)
     # urlAlphabet ! (byteAt b mod 16 * 4 + byteAt c div 64) # urlAlphabet ! (byteAt c mod 64) # rawURLEncode rest"

definition unsafeKey :: "string \<Rightarrow> bool" where
  "unsafeKey key \<longleftrightarrow> key = [] \<or> strip_prefix tenantPrefix key \<noteq> None \<or> strip_prefix legacyTenantPrefix key \<noteq> None
     \<or> strip_prefix globalPrefix key \<noteq> None"

record KeyBuilder =
  kb_AllowHostGlobal :: bool

definition KeyBuilder_Build :: "KeyBuilder \<Rightarrow> saasContext \<Rightarrow> string \<Rightarrow> scoped_error + string" where
  "KeyBuilder_Build builder tc key =
     (if unsafeKey key then Inl ErrUnsafeKey
      else case FromContext tc of
        Some tenant \<Rightarrow> Inr (tenantPrefix @ rawURLEncode (tn_ID tenant) @ '':'' @ key)
      | None \<Rightarrow>
          if IsHost tc then
            (if \<not> kb_AllowHostGlobal builder then Inl ErrHostGlobalKeyNotAllowed else Inr (globalPrefix @ key))
          else Inl ErrNoScope)"

section \<open>The in-memory cache\<close>

record byteEntry =
  be_value :: string
  be_createdAt :: Time
  be_expiresAt :: Time

record ByteMemory =
  bm_maxEntries :: int64
  bm_entries :: "(string, byteEntry) gomap"

definition NewBoundedByteMemory :: "int64 \<Rightarrow> scoped_error + ByteMemory" where
  "NewBoundedByteMemory maxEntries =
     (if maxEntries < 0 then Inl ErrInvalidMemorySize else Inr \<lparr>bm_maxEntries = maxEntries, bm_entries = []\<rparr>)"

definition scopedCtx :: "ctx \<Rightarrow> scoped_error + unit" where
  "scopedCtx cx = (case cx of None \<Rightarrow> Inr () | Some e \<Rightarrow> Inl (ScopedCtx e))"

definition byteExpired :: "Time \<Rightarrow> byteEntry \<Rightarrow> bool" where
  "byteExpired now entry \<longleftrightarrow> \<not> IsZero (be_expiresAt entry) \<and> \<not> now < be_expiresAt entry"

definition Memory_Get :: "ctx \<Rightarrow> Time \<Rightarrow> string \<Rightarrow> ByteMemory \<Rightarrow> (scoped_error + string option) \<times> ByteMemory" where
  "Memory_Get cx now key cache =
     on_ok (scopedCtx cx) cache (\<lambda>_.
       case map_of (bm_entries cache) key of
         None \<Rightarrow> (Inr None, cache)
       | Some entry \<Rightarrow>
           if byteExpired now entry then (Inr None, cache\<lparr>bm_entries := AList.delete key (bm_entries cache)\<rparr>)
           else (Inr (Some (be_value entry)), cache))"

definition evictExpiredBytes :: "Time \<Rightarrow> ByteMemory \<Rightarrow> ByteMemory" where
  "evictExpiredBytes now cache =
     cache\<lparr>bm_entries := filter (\<lambda>(key, entry). \<not> byteExpired now entry) (bm_entries cache)\<rparr>"

fun oldestBytes :: "string \<Rightarrow> Time \<Rightarrow> (string, byteEntry) gomap \<Rightarrow> string" where
  "oldestBytes oldestKey oldest [] = oldestKey"
| "oldestBytes oldestKey oldest ((key, entry) # entries) =
     (if oldestKey = [] \<or> be_createdAt entry < oldest then oldestBytes key (be_createdAt entry) entries
      else oldestBytes oldestKey oldest entries)"

definition evictOldestBytes :: "ByteMemory \<Rightarrow> ByteMemory" where
  "evictOldestBytes cache =
     (let oldestKey = oldestBytes [] 0 (bm_entries cache) in
      if oldestKey \<noteq> [] then cache\<lparr>bm_entries := AList.delete oldestKey (bm_entries cache)\<rparr> else cache)"

definition bytesFull :: "string \<Rightarrow> ByteMemory \<Rightarrow> bool" where
  "bytesFull key cache \<longleftrightarrow> map_of (bm_entries cache) key = None \<and> 0 < bm_maxEntries cache
     \<and> bm_maxEntries cache \<le> int (length (bm_entries cache))"

definition Memory_Set ::
  "ctx \<Rightarrow> Time \<Rightarrow> string \<Rightarrow> string \<Rightarrow> Duration \<Rightarrow> ByteMemory \<Rightarrow> (scoped_error + unit) \<times> ByteMemory"
where
  "Memory_Set cx now key value ttl cache =
     on_ok (scopedCtx cx) cache (\<lambda>_.
       let entry = \<lparr>be_value = value, be_createdAt = now, be_expiresAt = (if 0 < ttl then now + ttl else 0)\<rparr>;
           c1 = (if bytesFull key cache then evictExpiredBytes now cache else cache);
           c2 = (if bytesFull key c1 then evictOldestBytes c1 else c1)
       in (Inr (), c2\<lparr>bm_entries := AList.update key entry (bm_entries c2)\<rparr>))"

definition Memory_Delete :: "ctx \<Rightarrow> string \<Rightarrow> ByteMemory \<Rightarrow> (scoped_error + unit) \<times> ByteMemory" where
  "Memory_Delete cx key cache =
     on_ok (scopedCtx cx) cache (\<lambda>_. (Inr (), cache\<lparr>bm_entries := AList.delete key (bm_entries cache)\<rparr>))"

section \<open>The scoping wrapper\<close>

text \<open>The interface it wraps; each operation takes the answers of its context and of the clock.\<close>

record 'c byteCache =
  bc_Get :: "ctx \<Rightarrow> Time \<Rightarrow> string \<Rightarrow> 'c \<Rightarrow> (scoped_error + string option) \<times> 'c"
  bc_Set :: "ctx \<Rightarrow> Time \<Rightarrow> string \<Rightarrow> string \<Rightarrow> Duration \<Rightarrow> 'c \<Rightarrow> (scoped_error + unit) \<times> 'c"
  bc_Delete :: "ctx \<Rightarrow> Time \<Rightarrow> string \<Rightarrow> 'c \<Rightarrow> (scoped_error + unit) \<times> 'c"

record 'c TenantCache =
  tc_next :: "'c byteCache"
  tc_builder :: KeyBuilder

type_synonym 'c CacheOption = "'c TenantCache \<Rightarrow> 'c TenantCache"

definition WithHostGlobalKeys :: "bool \<Rightarrow> 'c CacheOption" where
  "WithHostGlobalKeys allow cache = cache\<lparr>tc_builder := (tc_builder cache)\<lparr>kb_AllowHostGlobal := allow\<rparr>\<rparr>"

definition NewTenantCache :: "'c byteCache \<Rightarrow> 'c CacheOption option list \<Rightarrow> 'c TenantCache" where
  "NewTenantCache next opts =
     fold (\<lambda>opt cache. case opt of None \<Rightarrow> cache | Some f \<Rightarrow> f cache) opts
       \<lparr>tc_next = next, tc_builder = \<lparr>kb_AllowHostGlobal = False\<rparr>\<rparr>"

definition TenantCache_Get ::
  "'c TenantCache \<Rightarrow> ctx \<Rightarrow> Time \<Rightarrow> saasContext \<Rightarrow> string \<Rightarrow> 'c \<Rightarrow> (scoped_error + string option) \<times> 'c"
where
  "TenantCache_Get cache cx now tc key c =
     on_ok (KeyBuilder_Build (tc_builder cache) tc key) c (\<lambda>scoped. bc_Get (tc_next cache) cx now scoped c)"

definition TenantCache_Set ::
  "'c TenantCache \<Rightarrow> ctx \<Rightarrow> Time \<Rightarrow> saasContext \<Rightarrow> string \<Rightarrow> string \<Rightarrow> Duration \<Rightarrow> 'c \<Rightarrow> (scoped_error + unit) \<times> 'c"
where
  "TenantCache_Set cache cx now tc key value ttl c =
     on_ok (KeyBuilder_Build (tc_builder cache) tc key) c (\<lambda>scoped. bc_Set (tc_next cache) cx now scoped value ttl c)"

definition TenantCache_Delete ::
  "'c TenantCache \<Rightarrow> ctx \<Rightarrow> Time \<Rightarrow> saasContext \<Rightarrow> string \<Rightarrow> 'c \<Rightarrow> (scoped_error + unit) \<times> 'c"
where
  "TenantCache_Delete cache cx now tc key c =
     on_ok (KeyBuilder_Build (tc_builder cache) tc key) c (\<lambda>scoped. bc_Delete (tc_next cache) cx now scoped c)"

section \<open>Scoped keys do not collide\<close>

lemma urlAlphabet_distinct: "distinct urlAlphabet"
  by code_simp

lemma urlAlphabet_colon: "CHR '':'' \<notin> set urlAlphabet"
  by code_simp

lemma urlAlphabet_length: "length urlAlphabet = 64"
  by code_simp

lemma alphabet_inj: "i < 64 \<Longrightarrow> j < 64 \<Longrightarrow> urlAlphabet ! i = urlAlphabet ! j \<longleftrightarrow> i = j"
  using urlAlphabet_distinct by (simp add: nth_eq_iff_index_eq urlAlphabet_length)

lemma alphabet_not_colon: "i < 64 \<Longrightarrow> urlAlphabet ! i \<noteq> CHR '':''"
  using urlAlphabet_colon nth_mem [of i urlAlphabet] by (metis urlAlphabet_length)

lemma byteAt_less: "byteAt c < 256"
  using nat_of_char_less_256 [of c] by simp

lemma sextets:
  "byteAt a div 4 < 64" "byteAt a mod 4 * 16 < 64" "byteAt a mod 4 * 16 + byteAt b div 16 < 64"
  "byteAt b mod 16 * 4 < 64" "byteAt b mod 16 * 4 + byteAt c div 64 < 64" "byteAt c mod 64 < 64"
  using byteAt_less [of a] byteAt_less [of b] byteAt_less [of c] by (simp_all, linarith+)

lemma encode_no_colon: "CHR '':'' \<notin> set (rawURLEncode bytes)"
  by (induction bytes rule: rawURLEncode.induct)
    (simp_all add: alphabet_not_colon [symmetric] alphabet_not_colon sextets)

text \<open>The encoding as digits of six bits, and back.\<close>

fun sextetsOf :: "char list \<Rightarrow> nat list" where
  "sextetsOf [] = []"
| "sextetsOf [a] = [byteAt a div 4, byteAt a mod 4 * 16]"
| "sextetsOf [a, b] = [byteAt a div 4, byteAt a mod 4 * 16 + byteAt b div 16, byteAt b mod 16 * 4]"
| "sextetsOf (a # b # c # rest) = [byteAt a div 4, byteAt a mod 4 * 16 + byteAt b div 16,
     byteAt b mod 16 * 4 + byteAt c div 64, byteAt c mod 64] @ sextetsOf rest"

fun bytesOf :: "nat list \<Rightarrow> nat list" where
  "bytesOf [p, q] = [p * 4 + q div 16]"
| "bytesOf [p, q, r] = [p * 4 + q div 16, q mod 16 * 16 + r div 4]"
| "bytesOf (p # q # r # s # rest) = [p * 4 + q div 16, q mod 16 * 16 + r div 4, r mod 4 * 64 + s] @ bytesOf rest"
| "bytesOf _ = []"

lemma encode_sextets: "rawURLEncode bytes = map ((!) urlAlphabet) (sextetsOf bytes)"
  by (induction bytes rule: rawURLEncode.induct) simp_all

lemma sextetsOf_less: "list_all (\<lambda>d. d < 64) (sextetsOf bytes)"
  by (induction bytes rule: sextetsOf.induct) (simp_all add: sextets)

lemma high_digits:
  "byteAt b div 16 div 16 = 0" "byteAt b div 16 mod 16 = byteAt b div 16"
  "byteAt b div 64 div 4 = 0" "byteAt b div 64 mod 4 = byteAt b div 64"
proof -
  have "byteAt b div 16 < 16" "byteAt b div 64 < 4" using byteAt_less [of b] by linarith+
  then show "byteAt b div 16 div 16 = 0" "byteAt b div 16 mod 16 = byteAt b div 16"
    "byteAt b div 64 div 4 = 0" "byteAt b div 64 mod 4 = byteAt b div 64" by simp_all
qed

lemma bytesOf_sextetsOf: "bytesOf (sextetsOf bytes) = map of_char bytes"
  by (induction bytes rule: sextetsOf.induct) (simp_all add: high_digits)

lemma encode_inj:
  assumes "rawURLEncode xs = rawURLEncode ys"
  shows "xs = ys"
proof -
  have "inj_on ((!) urlAlphabet) {d. d < 64}" by (auto intro: inj_onI simp: alphabet_inj)
  moreover have "set (sextetsOf bytes) \<subseteq> {d. d < 64}" for bytes
    using sextetsOf_less by (auto simp: list_all_iff)
  ultimately have "sextetsOf xs = sextetsOf ys"
    using assms by (simp add: encode_sextets) (meson Un_least inj_on_map_eq_map inj_on_subset)
  then have "map (of_char :: char \<Rightarrow> nat) xs = map of_char ys" by (metis bytesOf_sextetsOf)
  moreover have "inj (of_char :: char \<Rightarrow> nat)" by (metis char_of_char injI)
  ultimately show ?thesis by (simp add: inj_map_eq_map)
qed

lemma split_at_colon:
  "CHR '':'' \<notin> set xs \<Longrightarrow> CHR '':'' \<notin> set ys \<Longrightarrow> xs @ CHR '':'' # as = ys @ CHR '':'' # bs \<Longrightarrow> xs = ys \<and> as = bs"
proof (induction xs arbitrary: ys)
  case Nil
  then show ?case by (cases ys) auto
next
  case (Cons x xs)
  then show ?case by (cases ys) auto
qed

text \<open>The scope a context gives to a key: its tenant, or the host.\<close>

datatype scope = TenantScope TenantID | HostScope

definition scopeOf :: "saasContext \<Rightarrow> scope option" where
  "scopeOf tc = (case FromContext tc of
       Some tenant \<Rightarrow> Some (TenantScope (tn_ID tenant))
     | None \<Rightarrow> if IsHost tc then Some HostScope else None)"

lemma build_scope:
  "KeyBuilder_Build builder tc key = Inr scoped \<longleftrightarrow>
     \<not> unsafeKey key \<and> (case scopeOf tc of
         None \<Rightarrow> False
       | Some (TenantScope tid) \<Rightarrow> scoped = tenantPrefix @ rawURLEncode tid @ '':'' @ key
       | Some HostScope \<Rightarrow> kb_AllowHostGlobal builder \<and> scoped = globalPrefix @ key)"
  by (auto simp: KeyBuilder_Build_def scopeOf_def split: option.split)

lemma build_tenant:
  "KeyBuilder_Build builder tc key = Inr scoped \<Longrightarrow> scopeOf tc = Some (TenantScope tid) \<Longrightarrow>
     scoped = CHR ''t'' # CHR ''2'' # CHR '':'' # rawURLEncode tid @ CHR '':'' # key"
  by (simp add: build_scope tenantPrefix_def)

lemma build_host:
  "KeyBuilder_Build builder tc key = Inr scoped \<Longrightarrow> scopeOf tc = Some HostScope \<Longrightarrow>
     scoped = CHR ''g'' # CHR '':'' # key"
  by (simp add: build_scope globalPrefix_def)

lemma build_inj:
  assumes "KeyBuilder_Build builder tc key = Inr scoped" "KeyBuilder_Build builder tc' key' = Inr scoped"
  shows "scopeOf tc = scopeOf tc' \<and> key = key'"
proof -
  obtain sc where sc: "scopeOf tc = Some sc" using assms(1) by (auto simp: build_scope split: option.splits)
  obtain sc' where sc': "scopeOf tc' = Some sc'" using assms(2) by (auto simp: build_scope split: option.splits)
  note tenant = build_tenant [OF assms(1)] build_tenant [OF assms(2)] and host = build_host [OF assms(1)] build_host [OF assms(2)]
  show ?thesis
  proof (cases sc; cases sc')
    fix tid tid'
    assume s: "sc = TenantScope tid" "sc' = TenantScope tid'"
    have "scopeOf tc = Some (TenantScope tid)" "scopeOf tc' = Some (TenantScope tid')" using sc sc' s by simp_all
    from trans [OF sym [OF tenant(1) [OF this(1)]] tenant(2) [OF this(2)]]
    have "rawURLEncode tid @ CHR '':'' # key = rawURLEncode tid' @ CHR '':'' # key'" by (simp only: list.inject)
    note same = split_at_colon [OF encode_no_colon encode_no_colon this]
    have "tid = tid'" by (rule encode_inj [OF same [THEN conjunct1]])
    with same sc sc' s show ?thesis by simp
  next
    fix tid
    assume s: "sc = TenantScope tid" "sc' = HostScope"
    have "scopeOf tc = Some (TenantScope tid)" "scopeOf tc' = Some HostScope" using sc sc' s by simp_all
    from tenant(1) [OF this(1)] host(2) [OF this(2)] show ?thesis by auto
  next
    fix tid
    assume s: "sc = HostScope" "sc' = TenantScope tid"
    have "scopeOf tc' = Some (TenantScope tid)" "scopeOf tc = Some HostScope" using sc sc' s by simp_all
    from tenant(2) [OF this(1)] host(1) [OF this(2)] show ?thesis by auto
  next
    assume s: "sc = HostScope" "sc' = HostScope"
    have "scopeOf tc = Some HostScope" "scopeOf tc' = Some HostScope" using sc sc' s by simp_all
    with host(1) [OF this(1)] host(2) [OF this(2)] show ?thesis by auto
  qed
qed

section \<open>The contract of a cache, and what a tenant reads\<close>

text \<open>
  \<open>held c key\<close> are the values a lookup of the key may still answer: a caller may rely on the last
  write of a key, and on nothing else, since entries expire and are evicted.
\<close>

locale byte_cache =
  fixes ops :: "'c byteCache" and ok :: "'c \<Rightarrow> bool" and held :: "'c \<Rightarrow> string \<Rightarrow> string set"
  assumes get_keeps: "ok c \<Longrightarrow> bc_Get ops cx now key c = (found, c') \<Longrightarrow> ok c' \<and> held c' k \<subseteq> held c k"
    and get_answer: "ok c \<Longrightarrow> bc_Get ops cx now key c = (Inr (Some v), c') \<Longrightarrow> v \<in> held c key"
    and set_keeps: "ok c \<Longrightarrow> bc_Set ops cx now key v ttl c = (r, c') \<Longrightarrow>
      ok c' \<and> (k \<noteq> key \<or> r \<noteq> Inr () \<longrightarrow> held c' k \<subseteq> held c k)"
    and set_done: "ok c \<Longrightarrow> bc_Set ops cx now key v ttl c = (Inr (), c') \<Longrightarrow> held c' key \<subseteq> {v}"
    and delete_keeps: "ok c \<Longrightarrow> bc_Delete ops cx now key c = (r, c') \<Longrightarrow> ok c' \<and> held c' k \<subseteq> held c k"
    and delete_done: "ok c \<Longrightarrow> bc_Delete ops cx now key c = (Inr (), c') \<Longrightarrow> held c' key = {}"

text \<open>An operation on the scoped cache, with the context it comes in; and a run of them.\<close>

datatype scopedOp =
  KGet ctx Time saasContext string | KSet ctx Time saasContext string string Duration
| KDelete ctx Time saasContext string

fun scopedRun :: "'c TenantCache \<Rightarrow> scopedOp \<Rightarrow> 'c \<Rightarrow> bool \<times> 'c" where
  "scopedRun cache (KGet cx now tc key) c = map_prod (\<lambda>_. True) id (TenantCache_Get cache cx now tc key c)"
| "scopedRun cache (KSet cx now tc key v ttl) c = map_prod (\<lambda>r. r = Inr ()) id (TenantCache_Set cache cx now tc key v ttl c)"
| "scopedRun cache (KDelete cx now tc key) c = map_prod (\<lambda>r. r = Inr ()) id (TenantCache_Delete cache cx now tc key c)"

text \<open>What the last successful write of a key by a scope has left there.\<close>

fun writes :: "scope \<Rightarrow> string \<Rightarrow> scopedOp \<Rightarrow> string option \<Rightarrow> string option" where
  "writes sc key (KGet cx now tc k) prev = prev"
| "writes sc key (KSet cx now tc k v ttl) prev = (if scopeOf tc = Some sc \<and> k = key then Some v else prev)"
| "writes sc key (KDelete cx now tc k) prev = (if scopeOf tc = Some sc \<and> k = key then None else prev)"

fun lastWrite :: "'c TenantCache \<Rightarrow> scope \<Rightarrow> string \<Rightarrow> scopedOp list \<Rightarrow> 'c \<Rightarrow> string option \<Rightarrow> string option" where
  "lastWrite cache sc key [] c prev = prev"
| "lastWrite cache sc key (op # ops) c prev =
     (let (done_ok, c') = scopedRun cache op c
      in lastWrite cache sc key ops c' (if done_ok then writes sc key op prev else prev))"

fun scopedRuns :: "'c TenantCache \<Rightarrow> scopedOp list \<Rightarrow> 'c \<Rightarrow> 'c" where
  "scopedRuns cache [] c = c"
| "scopedRuns cache (op # ops) c = scopedRuns cache ops (snd (scopedRun cache op c))"

context byte_cache
begin

lemma run_step:
  assumes build: "KeyBuilder_Build (tc_builder cache) tc key = Inr scoped" "scopeOf tc = Some sc" "tc_next cache = ops"
    and okc: "ok c" and prev: "held c scoped \<subseteq> set_option prev" and run: "scopedRun cache op c = (done_ok, c')"
  shows "ok c' \<and> held c' scoped \<subseteq> set_option (if done_ok then writes sc key op prev else prev)"
proof (cases op)
  case (KGet cx now tc' key')
  show ?thesis
  proof (cases "KeyBuilder_Build (tc_builder cache) tc' key'")
    case (Inr scoped')
    with run KGet build(3) get_keeps [OF okc, of cx now scoped'] prev show ?thesis
      by (cases "bc_Get ops cx now scoped' c") (fastforce simp: TenantCache_Get_def)
  qed (use run KGet prev okc in \<open>auto simp: TenantCache_Get_def\<close>)
next
  case (KSet cx now tc' key' v ttl)
  show ?thesis
  proof (cases "KeyBuilder_Build (tc_builder cache) tc' key'")
    case (Inr scoped')
    obtain r where s: "bc_Set ops cx now scoped' v ttl c = (r, c')" "done_ok = (r = Inr ())"
      using run KSet build(3) Inr by (cases "bc_Set ops cx now scoped' v ttl c") (auto simp: TenantCache_Set_def)
    show ?thesis
    proof (cases "scoped' = scoped \<and> r = Inr ()")
      case True
      then have "scopeOf tc' = Some sc \<and> key' = key" using build_inj [OF build(1), of tc' key'] build(2) Inr by simp
      with True s set_done [OF okc] set_keeps [OF okc s(1)] KSet show ?thesis by auto
    next
      case False
      have "\<not> (scopeOf tc' = Some sc \<and> key' = key)" if "scoped' \<noteq> scoped"
        using that build(1,2) Inr by (auto simp: build_scope split: scope.splits)
      with False s set_keeps [OF okc s(1), of scoped] prev KSet show ?thesis by auto
    qed
  qed (use run KSet prev okc in \<open>auto simp: TenantCache_Set_def\<close>)
next
  case (KDelete cx now tc' key')
  show ?thesis
  proof (cases "KeyBuilder_Build (tc_builder cache) tc' key'")
    case (Inr scoped')
    obtain r where s: "bc_Delete ops cx now scoped' c = (r, c')" "done_ok = (r = Inr ())"
      using run KDelete build(3) Inr by (cases "bc_Delete ops cx now scoped' c") (auto simp: TenantCache_Delete_def)
    show ?thesis
    proof (cases "scoped' = scoped \<and> r = Inr ()")
      case True
      then show ?thesis using s delete_done [OF okc] delete_keeps [OF okc s(1)] by auto
    next
      case False
      have "\<not> (scopeOf tc' = Some sc \<and> key' = key)" if "scoped' \<noteq> scoped"
        using that build(1,2) Inr by (auto simp: build_scope split: scope.splits)
      with False s delete_keeps [OF okc s(1), of scoped] prev KDelete show ?thesis by auto
    qed
  qed (use run KDelete prev okc in \<open>auto simp: TenantCache_Delete_def\<close>)
qed

lemma run_last:
  "KeyBuilder_Build (tc_builder cache) tc key = Inr scoped \<Longrightarrow> scopeOf tc = Some sc \<Longrightarrow> tc_next cache = ops \<Longrightarrow>
     ok c \<Longrightarrow> held c scoped \<subseteq> set_option prev \<Longrightarrow>
     ok (scopedRuns cache rs c) \<and> held (scopedRuns cache rs c) scoped \<subseteq> set_option (lastWrite cache sc key rs c prev)"
proof (induction rs arbitrary: c prev)
  case (Cons op rs)
  obtain done_ok c' where run: "scopedRun cache op c = (done_ok, c')" by fastforce
  note step = run_step [OF Cons.prems run]
  from Cons.IH [OF Cons.prems(1-3) step [THEN conjunct1] step [THEN conjunct2]] run show ?case by simp
qed simp

lemma reads_own_writes:
  assumes "tc_next cache = ops" "ok c" "\<And>k. held c k = {}"
    "TenantCache_Get cache cx now tc key (scopedRuns cache rs c) = (Inr (Some v), c')"
  shows "\<exists>sc. scopeOf tc = Some sc \<and> lastWrite cache sc key rs c None = Some v"
proof -
  obtain scoped where b: "KeyBuilder_Build (tc_builder cache) tc key = Inr scoped"
    using assms(4) by (cases "KeyBuilder_Build (tc_builder cache) tc key") (auto simp: TenantCache_Get_def)
  then obtain sc where sc: "scopeOf tc = Some sc" by (auto simp: build_scope split: option.splits)
  have last: "ok (scopedRuns cache rs c) \<and> held (scopedRuns cache rs c) scoped \<subseteq> set_option (lastWrite cache sc key rs c None)"
    using run_last [OF b sc assms(1,2), of None rs] assms(3) by simp
  have "v \<in> held (scopedRuns cache rs c) scoped"
    using assms(1,4) b get_answer [OF last [THEN conjunct1]] by (simp add: TenantCache_Get_def)
  with last have "lastWrite cache sc key rs c None = Some v" by auto
  with sc show ?thesis by blast
qed

end

section \<open>The in-memory cache keeps the contract\<close>

definition memoryByteCache :: "ByteMemory byteCache" where
  "memoryByteCache = \<lparr>bc_Get = Memory_Get, bc_Set = Memory_Set, bc_Delete = (\<lambda>cx now. Memory_Delete cx)\<rparr>"

definition byteHeld :: "ByteMemory \<Rightarrow> string \<Rightarrow> string set" where
  "byteHeld c key = set_option (map_option be_value (map_of (bm_entries c) key))"

definition bytes_wf :: "ByteMemory \<Rightarrow> bool" where
  "bytes_wf c \<longleftrightarrow> wf_map (bm_entries c)"

lemma evictions_keep:
  assumes "bytes_wf c"
  shows "bytes_wf (evictExpiredBytes now c)" "bytes_wf (evictOldestBytes c)"
    "byteHeld (evictExpiredBytes now c) k \<subseteq> byteHeld c k" "byteHeld (evictOldestBytes c) k \<subseteq> byteHeld c k"
  using assms map_of_filter_Some [of "bm_entries c"]
  by (auto simp: bytes_wf_def byteHeld_def evictExpiredBytes_def evictOldestBytes_def Let_def)

lemma memory_set_keeps:
  assumes "bytes_wf c"
  shows "bytes_wf (snd (Memory_Set cx now key v ttl c))"
    "k \<noteq> key \<or> cx \<noteq> None \<Longrightarrow> byteHeld (snd (Memory_Set cx now key v ttl c)) k \<subseteq> byteHeld c k"
proof -
  define c1 where "c1 = (if bytesFull key c then evictExpiredBytes now c else c)"
  define c2 where "c2 = (if bytesFull key c1 then evictOldestBytes c1 else c1)"
  have 1: "bytes_wf c1" "byteHeld c1 k \<subseteq> byteHeld c k" for k using assms evictions_keep by (auto simp: c1_def)
  then have 2: "bytes_wf c2" "byteHeld c2 k \<subseteq> byteHeld c k" for k
    using evictions_keep(2,4) [OF 1(1)] by (auto simp: c2_def dest: subsetD)
  show "bytes_wf (snd (Memory_Set cx now key v ttl c))"
    using 2(1) assms by (cases cx) (auto simp: Memory_Set_def scopedCtx_def Let_def bytes_wf_def c1_def c2_def)
  show "byteHeld (snd (Memory_Set cx now key v ttl c)) k \<subseteq> byteHeld c k" if "k \<noteq> key \<or> cx \<noteq> None"
    using 2(2) [of k] that by (cases cx) (auto simp: Memory_Set_def scopedCtx_def Let_def byteHeld_def c1_def c2_def)
qed

lemma memory_set_result: "fst (Memory_Set cx now key v ttl c) = Inr () \<longleftrightarrow> cx = None"
  by (cases cx) (auto simp: Memory_Set_def scopedCtx_def Let_def)

lemma memory_set_value: "byteHeld (snd (Memory_Set None now key v ttl c)) key = {v}"
  by (simp add: Memory_Set_def scopedCtx_def Let_def byteHeld_def)

interpretation memory_bytes: byte_cache memoryByteCache bytes_wf byteHeld
proof (unfold_locales, goal_cases)
  case (1 c cx now key found c' k)
  then show ?case
    by (cases cx) (auto simp: memoryByteCache_def Memory_Get_def scopedCtx_def byteHeld_def bytes_wf_def split: option.splits if_splits)
next
  case (2 c cx now key v c')
  then show ?case
    by (cases cx) (auto simp: memoryByteCache_def Memory_Get_def scopedCtx_def byteHeld_def split: option.splits if_splits)
next
  case (3 c cx now key v ttl r c' k)
  then show ?case
    using memory_set_keeps [where c = c and key = key and cx = cx and now = now and v = v and ttl = ttl] memory_set_result [of cx now key v ttl c]
    by (auto simp: memoryByteCache_def)
next
  case (4 c cx now key v ttl c')
  then show ?case
    using memory_set_value [of now key v ttl c] memory_set_result [of cx now key v ttl c]
    by (auto simp: memoryByteCache_def)
next
  case (5 c cx now key r c' k)
  then show ?case
    by (cases cx) (auto simp: memoryByteCache_def Memory_Delete_def scopedCtx_def byteHeld_def bytes_wf_def split: if_splits dest: map_of_SomeD)
next
  case (6 c cx now key c')
  then show ?case
    by (cases cx) (auto simp: memoryByteCache_def Memory_Delete_def scopedCtx_def byteHeld_def)
qed

lemma tenant_cache_next: "tc_next (NewTenantCache next (map (map_option WithHostGlobalKeys) allow)) = next"
proof -
  have "tc_next (fold (\<lambda>opt cache. case opt of None \<Rightarrow> cache | Some f \<Rightarrow> f cache)
      (map (map_option WithHostGlobalKeys) allow) cache) = tc_next cache" for cache :: "'a TenantCache"
    by (induction allow arbitrary: cache) (auto simp: WithHostGlobalKeys_def split: option.split)
  then show ?thesis by (simp add: NewTenantCache_def)
qed

text \<open>
  C8. A cache that tenants share never mixes them up: whatever operations come in whatever
  contexts, a read in the context of a tenant (or of the host) answers only the value that the
  last successful write of this key by the same tenant (or by the host) has stored, whatever
  the identifiers of the tenants and the keys look like.
\<close>

theorem cache_never_mixes_tenants:
  assumes "NewBoundedByteMemory maxEntries = Inr c"
    "TenantCache_Get (NewTenantCache memoryByteCache (map (map_option WithHostGlobalKeys) allow)) cx now tc key
       (scopedRuns (NewTenantCache memoryByteCache (map (map_option WithHostGlobalKeys) allow)) rs c) = (Inr (Some v), c')"
  shows "\<exists>sc. scopeOf tc = Some sc \<and> lastWrite (NewTenantCache memoryByteCache (map (map_option WithHostGlobalKeys) allow)) sc key rs c None = Some v"
proof (rule memory_bytes.reads_own_writes)
  show "TenantCache_Get (NewTenantCache memoryByteCache (map (map_option WithHostGlobalKeys) allow)) cx now tc key
      (scopedRuns (NewTenantCache memoryByteCache (map (map_option WithHostGlobalKeys) allow)) rs c) = (Inr (Some v), c')" by (rule assms(2))
qed (use assms(1) tenant_cache_next in \<open>auto simp: NewBoundedByteMemory_def bytes_wf_def byteHeld_def split: if_splits\<close>)

theorem cache_never_mixes_tenants_witness:
  "lastWrite (NewTenantCache memoryByteCache (map (map_option WithHostGlobalKeys) [])) (TenantScope ''a'') ''k''
     [KSet None 1 (WithTenant None (zeroTenant\<lparr>tn_ID := ''a''\<rparr>)) ''k'' ''mine'' 0,
      KSet None 2 (WithTenant None (zeroTenant\<lparr>tn_ID := ''b''\<rparr>)) ''k'' ''theirs'' 0]
     \<lparr>bm_maxEntries = 2, bm_entries = []\<rparr> None = Some ''mine''"
proof -
  let ?cache = "NewTenantCache memoryByteCache (map (map_option WithHostGlobalKeys) [])"
  let ?a = "WithTenant None (zeroTenant\<lparr>tn_ID := ''a''\<rparr>)"
  let ?c = "\<lparr>bm_maxEntries = 2, bm_entries = []\<rparr>"
  let ?rs = "[KSet None 1 ?a ''k'' ''mine'' 0, KSet None 2 (WithTenant None (zeroTenant\<lparr>tn_ID := ''b''\<rparr>)) ''k'' ''theirs'' 0]"
  have new: "NewBoundedByteMemory 2 = Inr ?c" by (simp add: NewBoundedByteMemory_def)
  have "fst (TenantCache_Get ?cache None 3 ?a ''k'' (scopedRuns ?cache ?rs ?c)) = Inr (Some ''mine'')" by code_simp
  then have got: "TenantCache_Get ?cache None 3 ?a ''k'' (scopedRuns ?cache ?rs ?c)
      = (Inr (Some ''mine''), snd (TenantCache_Get ?cache None 3 ?a ''k'' (scopedRuns ?cache ?rs ?c)))"
    by (simp add: prod_eq_iff)
  have "scopeOf ?a = Some (TenantScope ''a'')" by code_simp
  with cache_never_mixes_tenants [OF new got] show ?thesis by auto
qed

section \<open>The bound\<close>

text \<open>
  With an entry of the empty key the bound of a cache does not hold: \<open>evictOldestLocked\<close> takes the empty key
  for "none found yet", so such an entry is never the oldest one.
\<close>

lemma empty_key_exceeds_bound:
  "map (length \<circ> bm_entries) [snd (Memory_Set None 2 ''a'' ''v'' 0 (snd (Memory_Set None 1 [] ''v'' 0
       \<lparr>bm_maxEntries = 1, bm_entries = []\<rparr>)))] = [2]"
  by code_simp

end
