(* ===== verification/Migration.thy ===== *)
theory Migration
  imports SQL_Guarantees
begin

text \<open>
  The migration planner (\<open>migration\<close>): statements that add a tenant column, create indexes and
  tables and seed tenants (\<open>planner.go\<close>, \<open>table.go\<close>). A type or a default is raw SQL by design; the
  names are not. JSON is a parameter that may fail.
\<close>

datatype migration_error = ErrInvalidIdentifier | ErrInvalidMigration | ErrUnsupportedDialect

type_synonym Dialect = string

definition DialectPostgres :: Dialect where "DialectPostgres = ''postgres''"
definition DialectMySQL :: Dialect where "DialectMySQL = ''mysql''"
definition DialectSQLite :: Dialect where "DialectSQLite = ''sqlite''"

lemmas dialects = DialectPostgres_def DialectMySQL_def DialectSQLite_def

definition DefaultTenantField :: string where "DefaultTenantField = ''tenant_id''"
definition DefaultTenantFieldType :: string where "DefaultTenantFieldType = ''VARCHAR(64)''"
definition DefaultSoftDeleteField :: string where "DefaultSoftDeleteField = ''deleted_at''"
definition DefaultDeleteMarker :: string where "DefaultDeleteMarker = ''deleted_flag''"

section \<open>Names\<close>

definition isSafeIdentifier :: "string \<Rightarrow> bool" where
  "isSafeIdentifier value \<longleftrightarrow> value \<noteq> []
     \<and> list_all (\<lambda>(i, r). isLetter r \<or> r = CHR ''_'' \<or> (0 < i \<and> CHR ''0'' \<le> r \<and> r \<le> CHR ''9''))
         (zip [0..<length value] value)"

definition isSafeQualifiedIdentifier :: "string \<Rightarrow> bool" where
  "isSafeQualifiedIdentifier value \<longleftrightarrow> value \<noteq> [] \<and> list_all isSafeIdentifier (splitDots [] value)"

text \<open>\<open>strings.Join(values, ", ")\<close>.\<close>

fun commaJoin :: "string list \<Rightarrow> string" where
  "commaJoin [] = []"
| "commaJoin [v] = v"
| "commaJoin (v # w # vs) = v @ '', '' @ commaJoin (w # vs)"

section \<open>The planner\<close>

record Planner =
  mp_Dialect :: Dialect

definition NewPlanner :: "Dialect \<Rightarrow> Planner" where
  "NewPlanner dialect = \<lparr>mp_Dialect = dialect\<rparr>"

definition validateDialect :: "Planner \<Rightarrow> migration_error + unit" where
  "validateDialect planner =
     (if mp_Dialect planner = DialectPostgres \<or> mp_Dialect planner = DialectMySQL \<or> mp_Dialect planner = DialectSQLite
      then Inr () else Inl ErrUnsupportedDialect)"

definition AddTenantColumn :: "Planner \<Rightarrow> string \<Rightarrow> string \<Rightarrow> string \<Rightarrow> migration_error + string" where
  "AddTenantColumn planner table tenantField fieldType =
     bind_ok (validateDialect planner) (\<lambda>_.
       let tenantField' = (if tenantField = [] then DefaultTenantField else tenantField);
           fieldType' = (if fieldType = [] then DefaultTenantFieldType else fieldType)
       in if \<not> isSafeQualifiedIdentifier table \<or> \<not> isSafeIdentifier tenantField' then Inl ErrInvalidIdentifier
          else if CHR '';'' \<in> set fieldType' then Inl ErrInvalidMigration
          else Inr (''ALTER TABLE '' @ table @ '' ADD COLUMN '' @ tenantField' @ '' '' @ fieldType'))"

definition indexColumns :: "string \<Rightarrow> string list \<Rightarrow> migration_error + string list" where
  "indexColumns tenantField businessFields =
     (let tenantField' = (if tenantField = [] then DefaultTenantField else tenantField) in
      if businessFields = [] then Inl ErrInvalidMigration
      else if \<not> isSafeIdentifier tenantField' then Inl ErrInvalidIdentifier
      else if \<not> list_all isSafeIdentifier businessFields then Inl ErrInvalidIdentifier
      else Inr (tenantField' # businessFields))"

definition uniqueIndex :: "string \<Rightarrow> string \<Rightarrow> string list \<Rightarrow> string" where
  "uniqueIndex indexName table columns =
     ''CREATE UNIQUE INDEX '' @ indexName @ '' ON '' @ table @ '' ('' @ commaJoin columns @ '')''"

definition CreateMySQLSoftDeleteUniqueIndex ::
  "Planner \<Rightarrow> string \<Rightarrow> string \<Rightarrow> string \<Rightarrow> string list \<Rightarrow> string \<Rightarrow> migration_error + string"
where
  "CreateMySQLSoftDeleteUniqueIndex planner table indexName tenantField businessFields markerField =
     (if mp_Dialect planner \<noteq> DialectMySQL then Inl ErrUnsupportedDialect
      else let markerField' = (if markerField = [] then DefaultDeleteMarker else markerField) in
        bind_ok (indexColumns tenantField businessFields) (\<lambda>columns.
          if \<not> isSafeQualifiedIdentifier table \<or> \<not> isSafeIdentifier indexName \<or> \<not> isSafeIdentifier markerField'
          then Inl ErrInvalidIdentifier
          else Inr (uniqueIndex indexName table (columns @ [markerField']))))"

definition CreateSoftDeleteUniqueIndex ::
  "Planner \<Rightarrow> string \<Rightarrow> string \<Rightarrow> string \<Rightarrow> string list \<Rightarrow> string \<Rightarrow> migration_error + string"
where
  "CreateSoftDeleteUniqueIndex planner table indexName tenantField businessFields softDeleteField =
     bind_ok (validateDialect planner) (\<lambda>_.
       let softDeleteField' = (if softDeleteField = [] then DefaultSoftDeleteField else softDeleteField) in
       if mp_Dialect planner = DialectMySQL
       then CreateMySQLSoftDeleteUniqueIndex planner table indexName tenantField businessFields DefaultDeleteMarker
       else bind_ok (indexColumns tenantField businessFields) (\<lambda>columns.
         if \<not> isSafeQualifiedIdentifier table \<or> \<not> isSafeIdentifier indexName \<or> \<not> isSafeIdentifier softDeleteField'
         then Inl ErrInvalidIdentifier
         else Inr (uniqueIndex indexName table columns @ '' WHERE '' @ softDeleteField' @ '' IS NULL'')))"

definition CreateHardDeleteUniqueIndex ::
  "Planner \<Rightarrow> string \<Rightarrow> string \<Rightarrow> string \<Rightarrow> string list \<Rightarrow> migration_error + string"
where
  "CreateHardDeleteUniqueIndex planner table indexName tenantField businessFields =
     bind_ok (validateDialect planner) (\<lambda>_.
     bind_ok (indexColumns tenantField businessFields) (\<lambda>columns.
       if \<not> isSafeQualifiedIdentifier table \<or> \<not> isSafeIdentifier indexName then Inl ErrInvalidIdentifier
       else Inr (uniqueIndex indexName table columns)))"

section \<open>Seeding tenants\<close>

text \<open>Every argument of these statements is a string.\<close>

record Statement =
  ss_SQL :: string
  ss_Args :: "string list"

definition placeholders :: "Planner \<Rightarrow> nat \<Rightarrow> string" where
  "placeholders planner n =
     commaJoin (map (\<lambda>i. if mp_Dialect planner = DialectPostgres then CHR ''$'' # FormatInt (int i + 1) else ''?'')
       [0..<n])"

fun seedStatements ::
  "((string, string) gomap \<Rightarrow> string option) \<Rightarrow> Planner \<Rightarrow> string \<Rightarrow> Tenant list \<Rightarrow> migration_error + Statement list"
where
  "seedStatements json planner table [] = Inr []"
| "seedStatements json planner table (tenant # tenants) =
     (if tn_ID tenant = [] \<or> tenantStatusString (tn_Status tenant) = [] then Inl ErrInvalidMigration
      else case json (case tn_Config tenant of None \<Rightarrow> [] | Some config \<Rightarrow> config) of
        None \<Rightarrow> Inl ErrInvalidMigration
      | Some encodedConfig \<Rightarrow>
          bind_ok (seedStatements json planner table tenants) (\<lambda>statements. Inr
            (\<lparr>ss_SQL = ''INSERT INTO '' @ table @ '' (id, name, status, plan_id, config) VALUES ('' @ placeholders planner 5 @ '')'',
              ss_Args = [tn_ID tenant, tn_Name tenant, tenantStatusString (tn_Status tenant), tn_PlanID tenant, encodedConfig]\<rparr>
             # statements)))"

definition SeedTenants ::
  "((string, string) gomap \<Rightarrow> string option) \<Rightarrow> Planner \<Rightarrow> string \<Rightarrow> Tenant list \<Rightarrow> migration_error + Statement list"
where
  "SeedTenants json planner table tenants =
     bind_ok (validateDialect planner) (\<lambda>_.
       if \<not> isSafeQualifiedIdentifier table then Inl ErrInvalidIdentifier
       else seedStatements json planner table tenants)"

definition DetectDeletePolicy :: "string list \<Rightarrow> string \<Rightarrow> string" where
  "DetectDeletePolicy columns softDeleteField =
     (let field = (if softDeleteField = [] then DefaultSoftDeleteField else softDeleteField) in
      if list_ex (\<lambda>column. column = field) columns then ''soft'' else ''hard'')"

section \<open>Creating a table\<close>

record Column =
  co_Name :: string
  co_Type :: string
  co_NotNull :: bool
  co_Default :: string

definition columnDefinition :: "Column \<Rightarrow> migration_error + string" where
  "columnDefinition column =
     (if \<not> isSafeIdentifier (co_Name column) then Inl ErrInvalidIdentifier
      else if co_Type column = [] \<or> CHR '';'' \<in> set (co_Type column) then Inl ErrInvalidMigration
      else let def = co_Name column @ '' '' @ co_Type column;
               def' = (if co_NotNull column then def @ '' NOT NULL'' else def)
           in if co_Default column \<noteq> [] then
                (if CHR '';'' \<in> set (co_Default column) then Inl ErrInvalidMigration
                 else Inr (def' @ '' DEFAULT '' @ co_Default column))
              else Inr def')"

definition uniqueDefinition :: "string list \<Rightarrow> migration_error + string" where
  "uniqueDefinition key =
     (if key = [] then Inl ErrInvalidMigration
      else if \<not> list_all isSafeIdentifier key then Inl ErrInvalidIdentifier
      else Inr (''UNIQUE ('' @ commaJoin key @ '')''))"

fun definitions :: "('a \<Rightarrow> migration_error + string) \<Rightarrow> 'a list \<Rightarrow> migration_error + string list" where
  "definitions f [] = Inr []"
| "definitions f (x # xs) = bind_ok (f x) (\<lambda>part. bind_ok (definitions f xs) (\<lambda>parts. Inr (part # parts)))"

definition CreateTable :: "Planner \<Rightarrow> string \<Rightarrow> Column list \<Rightarrow> string list list \<Rightarrow> migration_error + string" where
  "CreateTable planner table columns uniqueKeys =
     bind_ok (validateDialect planner) (\<lambda>_.
       if columns = [] then Inl ErrInvalidMigration
       else if \<not> isSafeQualifiedIdentifier table then Inl ErrInvalidIdentifier
       else bind_ok (definitions columnDefinition columns) (\<lambda>parts.
            bind_ok (definitions uniqueDefinition uniqueKeys) (\<lambda>keys.
              Inr (''CREATE TABLE '' @ table @ '' ('' @ commaJoin (parts @ keys) @ '')''))))"

section \<open>Names cannot add SQL\<close>

lemma same_identifier: "isSafeIdentifier = SQL_Filter.isSafeIdentifier"
  by (rule ext) (simp add: isSafeIdentifier_def SQL_Filter.isSafeIdentifier_def)

lemma same_qualified: "isSafeQualifiedIdentifier = isSafeFieldName"
  by (rule ext) (simp add: isSafeQualifiedIdentifier_def isSafeFieldName_def same_identifier)

fun columnLexemes :: "nat \<Rightarrow> string list \<Rightarrow> lexeme list" where
  "columnLexemes d [] = []"
| "columnLexemes d [v] = [(sqlWord, v, d)]"
| "columnLexemes d (v # w # vs) = (sqlWord, v, d) # (sqlSymbol, '','', d) # columnLexemes d (w # vs)"

text \<open>A comma and an opening parenthesis are lexemes of their own.\<close>

lemma lexAt_comma: "lexAt d (CHR '','' # s) = map_option (map_prod (Cons (sqlSymbol, '','', d)) id) (lexAt d s)"
  by (simp add: isSQLSpace_def forbidden_def hasPrefix_two nextToken_def dollarQuoteDelimiter_def
      isIdentifierStart_def isLetter_def tokenDepth_def depthAfter_def split: list.splits)

lemma lexAt_paren: "lexAt d (CHR ''('' # s) = map_option (map_prod (Cons (sqlSymbol, ''('', d)) id) (lexAt (Suc d) s)"
  by (simp add: isSQLSpace_def forbidden_def hasPrefix_two nextToken_def dollarQuoteDelimiter_def
      isIdentifierStart_def isLetter_def tokenDepth_def depthAfter_def split: list.splits)

lemma lexAt_close: "lexAt (Suc d) (CHR '')'' # s) = map_option (map_prod (Cons (sqlSymbol, '')'', d)) id) (lexAt d s)"
  by (simp add: isSQLSpace_def forbidden_def hasPrefix_two nextToken_def dollarQuoteDelimiter_def
      isIdentifierStart_def isLetter_def tokenDepth_def depthAfter_def split: list.splits)

lemma lexAt_columns:
  "vs \<noteq> [] \<Longrightarrow> list_all isSafeIdentifier vs \<Longrightarrow> lexAt d (commaJoin vs) = Some (columnLexemes d vs, d)"
proof (induction vs rule: commaJoin.induct)
  case (2 v)
  then show ?case using lexAt_word [of v "[]" d] safe_word by (simp add: same_identifier)
next
  case (3 v w vs)
  have "\<not> isIdentifierPart CHR '',''" by code_simp
  then show ?case
    using lexAt_word [of v "'', '' @ commaJoin (w # vs)" d] safe_word [of v] 3
    by (simp add: same_identifier lexAt_comma lexAt_space del: lexAt.simps)
qed simp

definition wordLexemes :: "string list \<Rightarrow> lexeme list" where
  "wordLexemes ws = map (\<lambda>w. (sqlWord, w, 0)) ws"

definition indexLexemes :: "string \<Rightarrow> string \<Rightarrow> string list \<Rightarrow> lexeme list" where
  "indexLexemes indexName table columns =
     wordLexemes [''CREATE'', ''UNIQUE'', ''INDEX'', indexName, ''ON''] @ fieldLexemes table
     @ (sqlSymbol, ''('', 0) # columnLexemes 1 columns @ [(sqlSymbol, '')'', 0)]"

lemma lexAt_name: "isSafeIdentifier v \<Longrightarrow> lexAt d v = Some ([(sqlWord, v, d)], d)"
  using lexAt_word [of v "[]" d] safe_word by (simp add: same_identifier)

lemma lexAt_index:
  assumes "isSafeQualifiedIdentifier table" "isSafeIdentifier indexName" "columns \<noteq> []" "list_all isSafeIdentifier columns"
  shows "lexAt 0 (uniqueIndex indexName table columns) = Some (indexLexemes indexName table columns, 0)"
proof -
  have close: "lexAt 1 '')'' = Some ([(sqlSymbol, '')'', 0)], 0)" by code_simp
  have cols: "lexAt 1 (commaJoin columns @ '')'') = Some (columnLexemes 1 columns @ [(sqlSymbol, '')'', 0)], 0)"
    by (rule lexAt_join [OF lexAt_columns [OF assms(3,4)] _ close]) (simp add: boundary_def)
  have parens: "lexAt 0 ('' ('' @ commaJoin columns @ '')'')
      = Some ((sqlSymbol, ''('', 0) # columnLexemes 1 columns @ [(sqlSymbol, '')'', 0)], 0)"
    using cols by (simp add: lexAt_space lexAt_paren del: lexAt.simps)
  have tab: "lexAt 0 (table @ '' ('' @ commaJoin columns @ '')'')
      = Some (fieldLexemes table @ (sqlSymbol, ''('', 0) # columnLexemes 1 columns @ [(sqlSymbol, '')'', 0)], 0)"
    by (rule lexAt_join [OF lexAt_field _ parens]) (use assms(1) in \<open>simp_all add: same_qualified\<close>)
  have on: "lexAt 0 '' ON'' = Some ([(sqlWord, ''ON'', 0)], 0)" by code_simp
  have on_tab: "lexAt 0 ('' ON'' @ CHR '' '' # table @ '' ('' @ commaJoin columns @ '')'')
      = Some ([(sqlWord, ''ON'', 0)] @ fieldLexemes table @ (sqlSymbol, ''('', 0) # columnLexemes 1 columns @ [(sqlSymbol, '')'', 0)], 0)"
    by (rule lexAt_join [OF on]) (simp_all add: lexAt_space tab [simplified append_Cons append_Nil] del: lexAt.simps)
  have idx: "lexAt 0 (indexName @ '' ON'' @ CHR '' '' # table @ '' ('' @ commaJoin columns @ '')'')
      = Some ([(sqlWord, indexName, 0)] @ [(sqlWord, ''ON'', 0)] @ fieldLexemes table
          @ (sqlSymbol, ''('', 0) # columnLexemes 1 columns @ [(sqlSymbol, '')'', 0)], 0)"
    by (rule lexAt_join [OF lexAt_name [OF assms(2)] _ on_tab]) simp
  have create: "lexAt 0 ''CREATE UNIQUE INDEX'' = Some (wordLexemes [''CREATE'', ''UNIQUE'', ''INDEX''], 0)" by code_simp
  have "lexAt 0 (''CREATE UNIQUE INDEX'' @ CHR '' '' # indexName @ '' ON'' @ CHR '' '' # table @ '' ('' @ commaJoin columns @ '')'')
      = Some (wordLexemes [''CREATE'', ''UNIQUE'', ''INDEX''] @ [(sqlWord, indexName, 0)] @ [(sqlWord, ''ON'', 0)] @ fieldLexemes table
          @ (sqlSymbol, ''('', 0) # columnLexemes 1 columns @ [(sqlSymbol, '')'', 0)], 0)"
    by (rule lexAt_join [OF create]) (simp_all add: lexAt_space idx [simplified append_Cons append_Nil] del: lexAt.simps)
  then show ?thesis by (simp add: uniqueIndex_def indexLexemes_def wordLexemes_def del: lexAt.simps)
qed

lemma indexColumns_Inr:
  "indexColumns tenantField businessFields = Inr columns \<longleftrightarrow>
     columns = (if tenantField = [] then DefaultTenantField else tenantField) # businessFields \<and> businessFields \<noteq> []
     \<and> list_all isSafeIdentifier columns"
  by (auto simp: indexColumns_def Let_def)

text \<open>
  C18. Whatever names a caller passes, an index statement the planner hands out reads, token by
  token, as exactly that one statement: the index of the table over the tenant column first and
  then the business columns, with the delete marker or the condition that the row is not deleted
  after them. No name can add SQL of its own.
\<close>

theorem index_statement_exact:
  assumes "CreateSoftDeleteUniqueIndex planner table indexName tenantField businessFields softDeleteField = Inr sql"
  shows "lexAt 0 sql = Some (
      if mp_Dialect planner = DialectMySQL
      then indexLexemes indexName table
             ((if tenantField = [] then DefaultTenantField else tenantField) # businessFields @ [DefaultDeleteMarker])
      else indexLexemes indexName table ((if tenantField = [] then DefaultTenantField else tenantField) # businessFields)
             @ wordLexemes [''WHERE'', if softDeleteField = [] then DefaultSoftDeleteField else softDeleteField, ''IS'', ''NULL''], 0)"
proof (cases "mp_Dialect planner = DialectMySQL")
  case True
  then obtain columns where "indexColumns tenantField businessFields = Inr columns" "isSafeQualifiedIdentifier table"
    "isSafeIdentifier indexName" "isSafeIdentifier DefaultDeleteMarker"
    "sql = uniqueIndex indexName table (columns @ [DefaultDeleteMarker])"
    using assms
    by (auto simp: CreateSoftDeleteUniqueIndex_def CreateMySQLSoftDeleteUniqueIndex_def validateDialect_def Let_def ok_simps
        DefaultDeleteMarker_def split: if_splits)
  note ok = this
  have columns: "columns = (if tenantField = [] then DefaultTenantField else tenantField) # businessFields"
    and "list_all isSafeIdentifier columns"
    using ok(1) [unfolded indexColumns_Inr] by blast+
  then have safe: "list_all isSafeIdentifier (columns @ [DefaultDeleteMarker])" using ok(4) by (simp only: list_all_append) simp
  have "lexAt 0 sql = Some (indexLexemes indexName table (columns @ [DefaultDeleteMarker]), 0)"
    unfolding ok(5) by (rule lexAt_index [OF ok(2,3) _ safe]) simp
  then show ?thesis using True unfolding columns by simp
next
  case False
  let ?field = "if softDeleteField = [] then DefaultSoftDeleteField else softDeleteField"
  from False obtain columns where ok: "indexColumns tenantField businessFields = Inr columns" "isSafeQualifiedIdentifier table"
    "isSafeIdentifier indexName" "isSafeIdentifier ?field"
    "sql = uniqueIndex indexName table columns @ '' WHERE '' @ ?field @ '' IS NULL''"
    using assms by (auto simp: CreateSoftDeleteUniqueIndex_def Let_def ok_simps split: if_splits)
  have columns: "columns = (if tenantField = [] then DefaultTenantField else tenantField) # businessFields"
    "columns \<noteq> []" "list_all isSafeIdentifier columns"
    using ok(1) [unfolded indexColumns_Inr] by blast+
  have is_null: "lexAt 0 '' IS NULL'' = Some (wordLexemes [''IS'', ''NULL''], 0)" by code_simp
  have field: "lexAt 0 (?field @ '' IS NULL'') = Some ([(sqlWord, ?field, 0)] @ wordLexemes [''IS'', ''NULL''], 0)"
    by (rule lexAt_join [OF lexAt_name [OF ok(4)] _ is_null]) simp
  have where_word: "lexAt 0 '' WHERE'' = Some ([(sqlWord, ''WHERE'', 0)], 0)" by code_simp
  have "lexAt 0 ('' WHERE'' @ CHR '' '' # ?field @ '' IS NULL'')
      = Some ([(sqlWord, ''WHERE'', 0)] @ [(sqlWord, ?field, 0)] @ wordLexemes [''IS'', ''NULL''], 0)"
    by (rule lexAt_join [OF where_word]) (simp_all add: lexAt_space field [simplified append_Cons append_Nil] del: lexAt.simps)
  then have "lexAt 0 (uniqueIndex indexName table columns @ '' WHERE'' @ CHR '' '' # ?field @ '' IS NULL'')
      = Some (indexLexemes indexName table columns @ [(sqlWord, ''WHERE'', 0)] @ [(sqlWord, ?field, 0)] @ wordLexemes [''IS'', ''NULL''], 0)"
    using lexAt_join [OF lexAt_index [OF ok(2,3)] boundary_space] columns by (simp del: lexAt.simps)
  then show ?thesis using False unfolding ok(5) columns(1) by (simp add: wordLexemes_def del: lexAt.simps)
qed

theorem index_statement_exact_witness:
  "lexAt 0 ''CREATE UNIQUE INDEX i ON s.t (tenant_id, a) WHERE deleted_at IS NULL''
     = Some (indexLexemes ''i'' ''s.t'' [''tenant_id'', ''a''] @ wordLexemes [''WHERE'', ''deleted_at'', ''IS'', ''NULL''], 0)"
proof -
  have "CreateSoftDeleteUniqueIndex (NewPlanner DialectPostgres) ''s.t'' ''i'' [] [''a''] []
      = Inr ''CREATE UNIQUE INDEX i ON s.t (tenant_id, a) WHERE deleted_at IS NULL''" by code_simp
  from index_statement_exact [OF this] show ?thesis
    by (simp add: NewPlanner_def dialects DefaultTenantField_def DefaultSoftDeleteField_def)
qed

end
