(* ===== verification/Resolver.thy ===== *)
theory Resolver
  imports Core_Types
begin

text \<open>
  The resolution of the tenant of an HTTP request (\<open>core/resolver\<close>). A request is what \<open>net/http\<close>
  has parsed: the headers by their canonical names, the query, the cookies and the host; \<open>None\<close> is a
  nil request or a nil URL. The lower-case form of text beyond ASCII and the claim extractor are
  parameters.
\<close>

datatype resolver_error =
  ErrNoTenantResolved | ErrNilRequest | ErrNilURL | ErrInvalidHost | ErrNilClaimExtractor
| ResolvedID tenant_id_error | CookieError string | ExtractorError string

text \<open>What \<open>Request.Cookie\<close> answers: the value, no cookie, or another error.\<close>

datatype cookieAnswer = CookieValue string | NoCookie | CookieFailure string

record Request =
  rq_Header :: "(string, string list) gomap"
  rq_Query :: "(string, string list) gomap option"
  rq_Cookie :: "string \<Rightarrow> cookieAnswer"
  rq_Host :: string

text \<open>A contributor answers an identifier, nothing, or an error.\<close>

type_synonym contrib = "Request option \<Rightarrow> resolver_error + TenantID option"

definition parsedID :: "string \<Rightarrow> TenantIDStrategy \<Rightarrow> resolver_error + TenantID option" where
  "parsedID raw strategy = map_sum ResolvedID Some (ParseTenantID raw strategy)"

section \<open>The composite\<close>

definition NewComposite :: "contrib option list \<Rightarrow> contrib list" where
  "NewComposite contribs = map the (filter (\<lambda>c. c \<noteq> None) contribs)"

fun firstContrib :: "contrib list \<Rightarrow> Request option \<Rightarrow> resolver_error + TenantID" where
  "firstContrib [] r = Inl ErrNoTenantResolved"
| "firstContrib (contrib # contribs) r =
     (case contrib r of
        Inl e \<Rightarrow> Inl e
      | Inr (Some tid) \<Rightarrow> Inr tid
      | Inr None \<Rightarrow> firstContrib contribs r)"

definition Composite_Resolve :: "contrib list \<Rightarrow> Request option \<Rightarrow> resolver_error + TenantID" where
  "Composite_Resolve contribs r = (if r = None then Inl ErrNilRequest else firstContrib contribs r)"

section \<open>Headers\<close>

text \<open>\<open>http.CanonicalHeaderKey\<close>: a name with a byte that no header name has is left as it is.\<close>

definition headerByte :: "char \<Rightarrow> bool" where
  "headerByte c \<longleftrightarrow> (CHR ''0'' \<le> c \<and> c \<le> CHR ''9'') \<or> (CHR ''a'' \<le> c \<and> c \<le> CHR ''z'') \<or> (CHR ''A'' \<le> c \<and> c \<le> CHR ''Z'')
     \<or> c \<in> set ''!#$%&*+-.^_|~'' \<or> c = CHR 0x27 \<or> c = CHR 0x60"

definition upperChar :: "char \<Rightarrow> char" where
  "upperChar c = (if CHR ''a'' \<le> c \<and> c \<le> CHR ''z'' then char_of (of_char c - 32 :: nat) else c)"

fun capitalise :: "bool \<Rightarrow> string \<Rightarrow> string" where
  "capitalise upper [] = []"
| "capitalise upper (c # s) =
     (let c' = (if upper then upperChar c else toLowerChar c) in c' # capitalise (c' = CHR ''-'') s)"

definition CanonicalHeaderKey :: "string \<Rightarrow> string" where
  "CanonicalHeaderKey name = (if list_all headerByte name then capitalise True name else name)"

definition DefaultHeaderName :: string where "DefaultHeaderName = ''x-tenant-id''"

record HeaderContrib =
  hc_name :: string
  hc_strategy :: TenantIDStrategy

definition NewHeaderContrib :: "string \<Rightarrow> TenantIDStrategy \<Rightarrow> HeaderContrib" where
  "NewHeaderContrib name strategy =
     \<lparr>hc_name = (if name = [] then DefaultHeaderName else name), hc_strategy = strategy\<rparr>"

definition headerValue :: "Request \<Rightarrow> string \<Rightarrow> string option" where
  "headerValue r name =
     (case map_of (rq_Header r) (CanonicalHeaderKey name) of
        None \<Rightarrow> None
      | Some values \<Rightarrow> if values = [] then None else Some (hd values))"

definition HeaderContrib_Resolve :: "HeaderContrib \<Rightarrow> contrib" where
  "HeaderContrib_Resolve contrib req =
     (case req of None \<Rightarrow> Inl ErrNilRequest | Some r \<Rightarrow>
       (case headerValue r (hc_name contrib) of
          None \<Rightarrow> Inr None
        | Some raw \<Rightarrow> parsedID raw (hc_strategy contrib)))"

section \<open>Query parameters and cookies\<close>

definition DefaultQueryParam :: string where "DefaultQueryParam = ''tenant_id''"

record QueryContrib =
  qc_name :: string
  qc_strategy :: TenantIDStrategy

definition NewQueryContrib :: "string \<Rightarrow> TenantIDStrategy \<Rightarrow> QueryContrib" where
  "NewQueryContrib name strategy =
     \<lparr>qc_name = (if name = [] then DefaultQueryParam else name), qc_strategy = strategy\<rparr>"

definition QueryContrib_Resolve :: "QueryContrib \<Rightarrow> contrib" where
  "QueryContrib_Resolve contrib req =
     (case req of None \<Rightarrow> Inl ErrNilRequest | Some r \<Rightarrow>
       (case rq_Query r of None \<Rightarrow> Inl ErrNilURL | Some query \<Rightarrow>
         (case map_of query (qc_name contrib) of
            None \<Rightarrow> Inr None
          | Some values \<Rightarrow> if values = [] then Inr None else parsedID (hd values) (qc_strategy contrib))))"

definition DefaultCookieName :: string where "DefaultCookieName = ''tenant_id''"

record CookieContrib =
  cc_name :: string
  cc_strategy :: TenantIDStrategy

definition NewCookieContrib :: "string \<Rightarrow> TenantIDStrategy \<Rightarrow> CookieContrib" where
  "NewCookieContrib name strategy =
     \<lparr>cc_name = (if name = [] then DefaultCookieName else name), cc_strategy = strategy\<rparr>"

definition CookieContrib_Resolve :: "CookieContrib \<Rightarrow> contrib" where
  "CookieContrib_Resolve contrib req =
     (case req of None \<Rightarrow> Inl ErrNilRequest | Some r \<Rightarrow>
       (case rq_Cookie r (cc_name contrib) of
          NoCookie \<Rightarrow> Inr None
        | CookieFailure e \<Rightarrow> Inl (CookieError e)
        | CookieValue value \<Rightarrow> parsedID value (cc_strategy contrib)))"

section \<open>Claims of a token\<close>

record TokenClaimContrib =
  tc_extractor :: "(Request \<Rightarrow> string + string option) option"
  tc_strategy :: TenantIDStrategy

definition TokenClaimContrib_Resolve :: "TokenClaimContrib \<Rightarrow> contrib" where
  "TokenClaimContrib_Resolve contrib req =
     (case req of None \<Rightarrow> Inl ErrNilRequest | Some r \<Rightarrow>
       (case tc_extractor contrib of None \<Rightarrow> Inl ErrNilClaimExtractor | Some extractor \<Rightarrow>
         (case extractor r of
            Inl e \<Rightarrow> Inl (ExtractorError e)
          | Inr None \<Rightarrow> Inr None
          | Inr (Some raw) \<Rightarrow> parsedID raw (tc_strategy contrib))))"

section \<open>Subdomains\<close>

text \<open>\<open>net.SplitHostPort\<close>, of which only the host is used; \<open>None\<close> is an error.\<close>

definition afterLastColon :: "string \<Rightarrow> nat option" where
  "afterLastColon s = (if CHR '':'' \<in> set s then Some (length s - length (takeWhile (\<lambda>c. c \<noteq> CHR '':'') (rev s))) else None)"

definition splitHost :: "string \<Rightarrow> string option" where
  "splitHost s =
     (case afterLastColon s of
        None \<Rightarrow> None
      | Some i \<Rightarrow>
          if hd s = CHR ''['' then
            (let e = length (takeWhile (\<lambda>c. c \<noteq> CHR '']'') s) in
             if e = length s \<or> e + 2 \<noteq> i then None
             else if CHR ''['' \<in> set (drop 1 s) \<or> CHR '']'' \<in> set (drop (e + 1) s) then None
             else Some (take (e - 1) (drop 1 s)))
          else if CHR '':'' \<in> set (take (i - 1) s) then None
          else if CHR ''['' \<in> set s \<or> CHR '']'' \<in> set s then None
          else Some (take (i - 1) s))"

definition hostWithoutPort :: "string \<Rightarrow> string" where
  "hostWithoutPort host = (case splitHost host of Some value \<Rightarrow> value | None \<Rightarrow> host)"

definition asciiByte :: "char \<Rightarrow> bool" where
  "asciiByte c \<longleftrightarrow> of_char c < (128 :: nat)"

text \<open>\<open>strings.ToLower\<close>, with \<open>unicodeLower\<close> for text that is not all ASCII.\<close>

definition ToLower :: "(string \<Rightarrow> string) \<Rightarrow> string \<Rightarrow> string" where
  "ToLower unicodeLower s = (if list_all asciiByte s then map toLowerChar s else unicodeLower s)"

definition trimBlanks :: "string \<Rightarrow> string" where
  "trimBlanks s = (let blank = (\<lambda>c. c \<in> {CHR '' '', CHR 0x09, CHR 0x0D, CHR 0x0A})
     in rev (dropWhile blank (rev (dropWhile blank s))))"

definition normalizeDomain :: "(string \<Rightarrow> string) \<Rightarrow> string \<Rightarrow> string" where
  "normalizeDomain unicodeLower domain =
     ToLower unicodeLower (trimBlanks (if domain \<noteq> [] \<and> last domain = CHR ''.'' then butlast domain else domain))"

record DomainContrib =
  dc_baseDomain :: string
  dc_strategy :: TenantIDStrategy

definition NewDomainContrib :: "(string \<Rightarrow> string) \<Rightarrow> string \<Rightarrow> TenantIDStrategy \<Rightarrow> DomainContrib" where
  "NewDomainContrib unicodeLower baseDomain strategy =
     \<lparr>dc_baseDomain = normalizeDomain unicodeLower baseDomain, dc_strategy = strategy\<rparr>"

definition hasSuffix :: "string \<Rightarrow> string \<Rightarrow> bool" where
  "hasSuffix s suffix \<longleftrightarrow> length suffix \<le> length s \<and> drop (length s - length suffix) s = suffix"

definition DomainContrib_Resolve :: "(string \<Rightarrow> string) \<Rightarrow> DomainContrib \<Rightarrow> contrib" where
  "DomainContrib_Resolve unicodeLower contrib req =
     (case req of None \<Rightarrow> Inl ErrNilRequest | Some r \<Rightarrow>
        if dc_baseDomain contrib = [] then Inl ErrInvalidHost
        else
          (let host = normalizeDomain unicodeLower (hostWithoutPort (rq_Host r));
               suffix = CHR ''.'' # dc_baseDomain contrib in
           if host = [] then Inl ErrInvalidHost
           else if host = dc_baseDomain contrib then Inr None
           else if \<not> hasSuffix host suffix then Inr None
           else
             (let subdomain = take (length host - length suffix) host in
              if subdomain = [] \<or> CHR ''.'' \<in> set subdomain then Inl ErrInvalidHost
              else parsedID subdomain (dc_strategy contrib))))"

section \<open>Contributors and their order\<close>

text \<open>
  What a composite relies on: a contributor refuses a nil request, and an identifier it answers is
  one that \<open>ParseTenantID\<close> has accepted.
\<close>

locale contributor =
  fixes resolve :: contrib
  assumes nil: "resolve None = Inl ErrNilRequest"
    and parsed: "resolve (Some r) = Inr (Some tid) \<Longrightarrow> \<exists>raw strategy. ParseTenantID raw strategy = Inr tid"
begin

lemma answers: "resolve req = Inr (Some tid) \<Longrightarrow> \<exists>r. req = Some r \<and> tid \<noteq> []"
proof (cases req)
  case (Some r)
  assume "resolve req = Inr (Some tid)"
  then obtain raw strategy where "ParseTenantID raw strategy = Inr tid" using parsed Some by blast
  then have "tid \<noteq> []" by (auto simp: ParseTenantID_def Let_def split: TenantIDStrategy.splits if_splits)
  with Some show ?thesis by simp
qed (simp add: nil)

end

lemma parsedID_Some: "parsedID raw strategy = Inr (Some tid) \<longleftrightarrow> ParseTenantID raw strategy = Inr tid"
  by (cases "ParseTenantID raw strategy") (simp_all add: parsedID_def)

lemma parsedID_None [simp]: "parsedID raw strategy \<noteq> Inr None"
  by (cases "ParseTenantID raw strategy") (simp_all add: parsedID_def)

interpretation by_header: contributor "HeaderContrib_Resolve contrib"
  by unfold_locales (auto simp: HeaderContrib_Resolve_def parsedID_Some split: option.splits)

interpretation by_query: contributor "QueryContrib_Resolve contrib"
  by unfold_locales (auto simp: QueryContrib_Resolve_def parsedID_Some split: option.splits if_splits)

interpretation by_cookie: contributor "CookieContrib_Resolve contrib"
  by unfold_locales (auto simp: CookieContrib_Resolve_def parsedID_Some split: cookieAnswer.splits)

interpretation by_token: contributor "TokenClaimContrib_Resolve contrib"
  by unfold_locales (auto simp: TokenClaimContrib_Resolve_def parsedID_Some split: option.splits sum.splits)

interpretation by_domain: contributor "DomainContrib_Resolve unicodeLower contrib"
  by unfold_locales (auto simp: DomainContrib_Resolve_def parsedID_Some Let_def split: if_splits)

datatype source =
  ByHeader HeaderContrib | ByQuery QueryContrib | ByCookie CookieContrib | ByToken TokenClaimContrib
| ByDomain DomainContrib

fun contribOf :: "(string \<Rightarrow> string) \<Rightarrow> source \<Rightarrow> contrib" where
  "contribOf unicodeLower (ByHeader contrib) = HeaderContrib_Resolve contrib"
| "contribOf unicodeLower (ByQuery contrib) = QueryContrib_Resolve contrib"
| "contribOf unicodeLower (ByCookie contrib) = CookieContrib_Resolve contrib"
| "contribOf unicodeLower (ByToken contrib) = TokenClaimContrib_Resolve contrib"
| "contribOf unicodeLower (ByDomain contrib) = DomainContrib_Resolve unicodeLower contrib"

lemma source_answers: "contribOf unicodeLower src (Some r) = Inr (Some tid) \<Longrightarrow> tid \<noteq> []"
  using by_header.answers by_query.answers by_cookie.answers by_token.answers by_domain.answers
  by (cases src) fastforce+

lemma NewComposite_sources:
  "NewComposite (map (map_option f) srcs) = map f (map the (filter (\<lambda>c. c \<noteq> None) srcs))"
  by (induction srcs) (auto simp: NewComposite_def split: option.splits)

definition firstAt :: "('a \<Rightarrow> bool) \<Rightarrow> ('a \<Rightarrow> bool) \<Rightarrow> 'a list \<Rightarrow> bool" where
  "firstAt P Q xs \<longleftrightarrow> (\<exists>pre x post. xs = pre @ x # post \<and> list_all P pre \<and> Q x)"

lemma firstAt_Nil [simp]: "\<not> firstAt P Q []"
  by (simp add: firstAt_def)

lemma firstAt_Cons [simp]: "firstAt P Q (a # xs) \<longleftrightarrow> Q a \<or> P a \<and> firstAt P Q xs"
proof
  assume "firstAt P Q (a # xs)"
  then obtain pre x post where "a # xs = pre @ x # post" "list_all P pre" "Q x" by (auto simp: firstAt_def)
  then show "Q a \<or> P a \<and> firstAt P Q xs" by (cases pre) (auto simp: firstAt_def)
next
  assume "Q a \<or> P a \<and> firstAt P Q xs"
  then consider "Q a" | pre x post where "P a" "xs = pre @ x # post" "list_all P pre" "Q x" by (auto simp: firstAt_def)
  then show "firstAt P Q (a # xs)"
  proof cases
    case 1
    then show ?thesis unfolding firstAt_def by (intro exI [of _ "[]"] exI [of _ a] exI [of _ xs]) simp
  next
    case 2
    then show ?thesis unfolding firstAt_def by (intro exI [of _ "a # pre"] exI [of _ x] exI [of _ post]) simp
  qed
qed

lemma firstContrib_answer:
  "firstContrib (map f srcs) req = Inr tid \<longleftrightarrow>
     firstAt (\<lambda>p. f p req = Inr None) (\<lambda>src. f src req = Inr (Some tid)) srcs"
  by (induction srcs) (auto split: sum.split option.split)

lemma firstContrib_error:
  "firstContrib (map f srcs) req = Inl e \<longleftrightarrow>
     firstAt (\<lambda>p. f p req = Inr None) (\<lambda>src. f src req = Inl e) srcs
     \<or> (e = ErrNoTenantResolved \<and> list_all (\<lambda>p. f p req = Inr None) srcs)"
  by (induction srcs) (auto split: sum.split option.split)

text \<open>
  The sources of a request have priorities: the tenant of a request is what the first
  source says that says anything, an error of a source is never passed over in favour of a later
  source, and a tenant that is resolved is never empty.
\<close>

theorem sources_in_order:
  "(Composite_Resolve (NewComposite (map (map_option (contribOf unicodeLower)) srcs)) (Some r) = Inr tid \<longleftrightarrow>
      tid \<noteq> [] \<and> (\<exists>pre src post. map the (filter (\<lambda>c. c \<noteq> None) srcs) = pre @ src # post
        \<and> list_all (\<lambda>p. contribOf unicodeLower p (Some r) = Inr None) pre \<and> contribOf unicodeLower src (Some r) = Inr (Some tid)))
   \<and> (Composite_Resolve (NewComposite (map (map_option (contribOf unicodeLower)) srcs)) (Some r) = Inl e \<longleftrightarrow>
      (\<exists>pre src post. map the (filter (\<lambda>c. c \<noteq> None) srcs) = pre @ src # post
        \<and> list_all (\<lambda>p. contribOf unicodeLower p (Some r) = Inr None) pre \<and> contribOf unicodeLower src (Some r) = Inl e)
      \<or> (e = ErrNoTenantResolved
         \<and> list_all (\<lambda>p. contribOf unicodeLower p (Some r) = Inr None) (map the (filter (\<lambda>c. c \<noteq> None) srcs))))"
proof -
  let ?srcs = "map the (filter (\<lambda>c. c \<noteq> None) srcs)" and ?f = "contribOf unicodeLower"
  have run: "Composite_Resolve (NewComposite (map (map_option ?f) srcs)) (Some r) = firstContrib (map ?f ?srcs) (Some r)"
    by (simp add: Composite_Resolve_def NewComposite_sources)
  have "tid \<noteq> []" if "firstAt (\<lambda>p. ?f p (Some r) = Inr None) (\<lambda>src. ?f src (Some r) = Inr (Some tid)) ?srcs"
    using that by (auto simp: firstAt_def dest: source_answers)
  then show ?thesis unfolding run firstContrib_answer firstContrib_error firstAt_def by blast
qed

section \<open>One label before the base domain\<close>

lemma hasSuffix_iff: "hasSuffix s suffix \<longleftrightarrow> (\<exists>p. s = p @ suffix)"
proof
  assume "hasSuffix s suffix"
  then have "s = take (length s - length suffix) s @ suffix" by (metis append_take_drop_id hasSuffix_def)
  then show "\<exists>p. s = p @ suffix" by blast
qed (auto simp: hasSuffix_def)

lemma lastColon_port: "CHR '':'' \<notin> set port \<Longrightarrow> afterLastColon (host @ CHR '':'' # port) = Some (Suc (length host))"
proof -
  assume p: "CHR '':'' \<notin> set port"
  have "takeWhile (\<lambda>c. c \<noteq> CHR '':'') (rev port @ CHR '':'' # rev host) = rev port"
    using p by (subst takeWhile_append2) auto
  then show ?thesis by (simp add: afterLastColon_def)
qed

definition plainHost :: "string \<Rightarrow> bool" where
  "plainHost s \<longleftrightarrow> CHR '':'' \<notin> set s \<and> CHR ''['' \<notin> set s \<and> CHR '']'' \<notin> set s"

lemma hostWithoutPort_plain:
  "plainHost host \<Longrightarrow> hostWithoutPort host = host"
  "plainHost host \<Longrightarrow> plainHost port \<Longrightarrow> hostWithoutPort (host @ CHR '':'' # port) = host"
proof -
  show "plainHost host \<Longrightarrow> hostWithoutPort host = host"
    by (simp add: hostWithoutPort_def splitHost_def afterLastColon_def plainHost_def)
  assume h: "plainHost host" "plainHost port"
  have "hd (host @ CHR '':'' # port) \<noteq> CHR ''[''" using h by (cases host) (auto simp: plainHost_def)
  then show "hostWithoutPort (host @ CHR '':'' # port) = host"
    using h lastColon_port [of port host] by (simp add: hostWithoutPort_def splitHost_def plainHost_def)
qed

text \<open>
  C30. A host names a tenant exactly when, without its port, without a final dot and in lower
  case, it is one label, a dot and the base domain: a deeper subdomain and a domain that merely
  ends like the base domain never do. The port does not matter.
\<close>

theorem domain_one_label:
  assumes "contrib = NewDomainContrib unicodeLower base strategy" "normalizeDomain unicodeLower base \<noteq> []"
  shows "(DomainContrib_Resolve unicodeLower contrib (Some r) = Inr (Some tid) \<longleftrightarrow>
      (\<exists>label. label \<noteq> [] \<and> CHR ''.'' \<notin> set label \<and> ParseTenantID label strategy = Inr tid
        \<and> normalizeDomain unicodeLower (hostWithoutPort (rq_Host r)) = label @ CHR ''.'' # normalizeDomain unicodeLower base))
    \<and> (plainHost host \<and> plainHost port \<longrightarrow>
        DomainContrib_Resolve unicodeLower contrib (Some (r\<lparr>rq_Host := host @ CHR '':'' # port\<rparr>))
          = DomainContrib_Resolve unicodeLower contrib (Some (r\<lparr>rq_Host := host\<rparr>)))"
proof -
  let ?b = "normalizeDomain unicodeLower base" and ?h = "normalizeDomain unicodeLower (hostWithoutPort (rq_Host r))"
  have c: "dc_baseDomain contrib = ?b" "dc_strategy contrib = strategy" using assms(1) by (simp_all add: NewDomainContrib_def)
  have "DomainContrib_Resolve unicodeLower contrib (Some r) = Inr (Some tid) \<longleftrightarrow>
      (\<exists>label. label \<noteq> [] \<and> CHR ''.'' \<notin> set label \<and> ParseTenantID label strategy = Inr tid \<and> ?h = label @ CHR ''.'' # ?b)"
  proof (cases "\<exists>label. ?h = label @ CHR ''.'' # ?b")
    case True
    then obtain label where label: "?h = label @ CHR ''.'' # ?b" by blast
    then have "?h \<noteq> ?b" "?h \<noteq> []" by auto
    moreover have "hasSuffix ?h (CHR ''.'' # ?b)" using label hasSuffix_iff by blast
    moreover have "take (length ?h - Suc (length ?b)) ?h = label" using label by simp
    ultimately show ?thesis
      using assms(2) label by (auto simp: DomainContrib_Resolve_def c Let_def parsedID_Some)
  next
    case False
    then have "\<not> hasSuffix ?h (CHR ''.'' # ?b)" using hasSuffix_iff by blast
    then show ?thesis using False assms(2) by (auto simp: DomainContrib_Resolve_def c Let_def)
  qed
  moreover have "DomainContrib_Resolve unicodeLower contrib (Some (r\<lparr>rq_Host := host @ CHR '':'' # port\<rparr>))
      = DomainContrib_Resolve unicodeLower contrib (Some (r\<lparr>rq_Host := host\<rparr>))" if "plainHost host" "plainHost port"
    using hostWithoutPort_plain that by (simp add: DomainContrib_Resolve_def)
  ultimately show ?thesis by blast
qed

theorem domain_one_label_witness:
  "DomainContrib_Resolve id (NewDomainContrib id ''Example.com.'' TenantIDStrategyString)
     (Some \<lparr>rq_Header = [], rq_Query = None, rq_Cookie = (\<lambda>_. NoCookie), rq_Host = ''ACME.example.com:8080''\<rparr>)
   = Inr (Some ''acme'')"
proof -
  have base: "normalizeDomain id ''Example.com.'' = ''example.com''" by code_simp
  have host: "normalizeDomain id (hostWithoutPort ''ACME.example.com:8080'') = ''acme'' @ CHR ''.'' # ''example.com''" by code_simp
  have "ParseTenantID ''acme'' TenantIDStrategyString = Inr ''acme''" by code_simp
  then have "\<exists>label. label \<noteq> [] \<and> CHR ''.'' \<notin> set label \<and> ParseTenantID label TenantIDStrategyString = Inr ''acme''
      \<and> normalizeDomain id (hostWithoutPort ''ACME.example.com:8080'') = label @ CHR ''.'' # normalizeDomain id ''Example.com.''"
    unfolding base host by (intro exI [of _ "''acme''"]) simp
  then show ?thesis
    using domain_one_label [OF refl, of id "''Example.com.''" TenantIDStrategyString] base by simp
qed

text \<open>
  The final dot is removed before the blanks, so a base domain with both keeps its dot and no
  host matches it.
\<close>

lemma normalize_keeps_dot: "normalizeDomain id ''example.com. '' = ''example.com.''"
  by code_simp

end
