(* ===== verification/Tenant_Carriers.thy ===== *)
theory Tenant_Carriers
  imports Core_Context
begin

text \<open>
  How the tenant of a context crosses a call (\<open>rpc\<close>, \<open>rpc/mq\<close>): it is written into the metadata
  of a message and read back on the other side. A carrier is a state with \<open>Get\<close> and \<open>Set\<close>; the
  headers of NATS, RabbitMQ and Kafka and the metadata of gRPC are not in the repository, so their
  operations are parameters. A nil carrier is \<open>None\<close>.
\<close>

datatype rpc_error = ErrNoTenantMetadata | ErrInvalidCarrier | MetadataID tenant_id_error

definition DefaultTenantMetadataKey :: string where
  "DefaultTenantMetadataKey = ''x-tenant-id''"

definition InjectTenant ::
  "('c \<Rightarrow> string \<Rightarrow> string \<Rightarrow> 'c) \<Rightarrow> saasContext \<Rightarrow> 'c option \<Rightarrow> string \<Rightarrow> rpc_error + 'c"
where
  "InjectTenant set1 cx carrier key =
     (case carrier of None \<Rightarrow> Inl ErrInvalidCarrier | Some c \<Rightarrow>
        (let key1 = (if key = [] then DefaultTenantMetadataKey else key) in
         (case FromContext cx of
            None \<Rightarrow> Inl ErrNoTenantMetadata
          | Some tenant \<Rightarrow>
              if tn_ID tenant = [] then Inl ErrNoTenantMetadata else Inr (set1 c key1 (tn_ID tenant)))))"

definition ExtractTenant ::
  "('c \<Rightarrow> string \<Rightarrow> string option) \<Rightarrow> 'c option \<Rightarrow> string \<Rightarrow> TenantIDStrategy \<Rightarrow> rpc_error + TenantID"
where
  "ExtractTenant get carrier key strategy =
     (case carrier of None \<Rightarrow> Inl ErrInvalidCarrier | Some c \<Rightarrow>
        (let key1 = (if key = [] then DefaultTenantMetadataKey else key) in
         (case get c key1 of
            None \<Rightarrow> Inl ErrNoTenantMetadata
          | Some raw \<Rightarrow> map_sum MetadataID id (ParseTenantID raw strategy))))"

section \<open>Carriers\<close>

text \<open>A map that is not nil; storing in a nil map panics.\<close>

type_synonym MapCarrier = "(string, string) gomap"

definition MapCarrier_Get :: "MapCarrier \<Rightarrow> string \<Rightarrow> string option" where
  "MapCarrier_Get carrier key = map_of carrier key"

definition MapCarrier_Set :: "MapCarrier \<Rightarrow> string \<Rightarrow> string \<Rightarrow> MapCarrier" where
  "MapCarrier_Set carrier key value1 = AList.update key value1 carrier"

datatype mq_error = ErrInvalidHeaders

definition NewNATSCarrier :: "'h option \<Rightarrow> mq_error + 'h" where
  "NewNATSCarrier headers = (case headers of None \<Rightarrow> Inl ErrInvalidHeaders | Some h \<Rightarrow> Inr h)"

definition NATSCarrier_Get :: "('h \<Rightarrow> string \<Rightarrow> string) \<Rightarrow> 'h \<Rightarrow> string \<Rightarrow> string option" where
  "NATSCarrier_Get get carrier key =
     (let value1 = get carrier key in if value1 \<noteq> [] then Some value1 else None)"

definition NATSCarrier_Set :: "('h \<Rightarrow> string \<Rightarrow> string \<Rightarrow> 'h) \<Rightarrow> 'h \<Rightarrow> string \<Rightarrow> string \<Rightarrow> 'h" where
  "NATSCarrier_Set set1 carrier key value1 = set1 carrier key value1"

definition NewRabbitMQCarrier :: "'h option \<Rightarrow> mq_error + 'h" where
  "NewRabbitMQCarrier headers = (case headers of None \<Rightarrow> Inl ErrInvalidHeaders | Some h \<Rightarrow> Inr h)"

definition RabbitMQCarrier_Get :: "('h \<Rightarrow> string \<Rightarrow> string option) \<Rightarrow> 'h \<Rightarrow> string \<Rightarrow> string option" where
  "RabbitMQCarrier_Get getString carrier key = getString carrier key"

definition RabbitMQCarrier_Set :: "('h \<Rightarrow> string \<Rightarrow> string \<Rightarrow> 'h) \<Rightarrow> 'h \<Rightarrow> string \<Rightarrow> string \<Rightarrow> 'h" where
  "RabbitMQCarrier_Set setString carrier key value1 = setString carrier key value1"

definition NewKafkaCarrier :: "'h option \<Rightarrow> mq_error + 'h" where
  "NewKafkaCarrier headers = (case headers of None \<Rightarrow> Inl ErrInvalidHeaders | Some h \<Rightarrow> Inr h)"

text \<open>A string is its bytes, so the conversions of Kafka's values are the identity.\<close>

definition KafkaCarrier_Get :: "('h \<Rightarrow> string \<Rightarrow> string option) \<Rightarrow> 'h \<Rightarrow> string \<Rightarrow> string option" where
  "KafkaCarrier_Get getBytes carrier key =
     (case getBytes carrier key of
        None \<Rightarrow> None
      | Some value1 \<Rightarrow> if length value1 = 0 then None else Some value1)"

definition KafkaCarrier_Set :: "('h \<Rightarrow> string \<Rightarrow> string \<Rightarrow> 'h) \<Rightarrow> 'h \<Rightarrow> string \<Rightarrow> string \<Rightarrow> 'h" where
  "KafkaCarrier_Set setBytes carrier key value1 = setBytes carrier key value1"

text \<open>The carrier of gRPC metadata, whose \<open>Get\<close> answers all values of a key.\<close>

definition metadataCarrier_Get :: "('m \<Rightarrow> string \<Rightarrow> string list) \<Rightarrow> 'm \<Rightarrow> string \<Rightarrow> string option" where
  "metadataCarrier_Get mdGet md key =
     (let vs = mdGet md key in if length vs = 0 then None else Some (hd vs))"

definition metadataCarrier_Set :: "('m \<Rightarrow> string \<Rightarrow> string list \<Rightarrow> 'm) \<Rightarrow> 'm \<Rightarrow> string \<Rightarrow> string \<Rightarrow> 'm" where
  "metadataCarrier_Set mdSet md key value1 = mdSet md key [value1]"

section \<open>What a carrier promises\<close>

text \<open>A non-empty value that was stored under a key is what is read under it.\<close>

locale tenant_carrier =
  fixes get :: "'c \<Rightarrow> string \<Rightarrow> string option"
    and set1 :: "'c \<Rightarrow> string \<Rightarrow> string \<Rightarrow> 'c"
  assumes stored: "v \<noteq> [] \<Longrightarrow> get (set1 c k v) k = Some v"
begin

lemma crosses:
  assumes "FromContext cx = Some tenant" "tn_ID tenant \<noteq> []"
  shows "\<exists>c'. InjectTenant set1 cx (Some c) key = Inr c'
     \<and> ExtractTenant get (Some c') key strategy = map_sum MetadataID id (ParseTenantID (tn_ID tenant) strategy)"
  using assms by (simp add: InjectTenant_def ExtractTenant_def Let_def stored)

lemma crosses_canonical:
  assumes "FromContext cx = Some tenant" "ParseTenantID raw strategy = Inr (tn_ID tenant)"
  shows "\<exists>c'. InjectTenant set1 cx (Some c) key = Inr c'
     \<and> ExtractTenant get (Some c') key strategy = Inr (tn_ID tenant)"
proof -
  have "tn_ID tenant \<noteq> []" "ParseTenantID (tn_ID tenant) strategy = Inr (tn_ID tenant)"
    using assms(2) parsed_again by blast+
  then show ?thesis using crosses [OF assms(1), of c key strategy] by simp
qed

end

interpretation by_map: tenant_carrier MapCarrier_Get MapCarrier_Set
  by unfold_locales (simp add: MapCarrier_Get_def MapCarrier_Set_def)

lemma nats_carrier:
  "(\<And>h k v. get (set1 h k v) k = v) \<Longrightarrow> tenant_carrier (NATSCarrier_Get get) (NATSCarrier_Set set1)"
  by unfold_locales (simp add: NATSCarrier_Get_def NATSCarrier_Set_def)

lemma rabbit_carrier:
  "(\<And>h k v. get (set1 h k v) k = Some v)
     \<Longrightarrow> tenant_carrier (RabbitMQCarrier_Get get) (RabbitMQCarrier_Set set1)"
  by unfold_locales (simp add: RabbitMQCarrier_Get_def RabbitMQCarrier_Set_def)

lemma kafka_carrier:
  "(\<And>h k v. get (set1 h k v) k = Some v) \<Longrightarrow> tenant_carrier (KafkaCarrier_Get get) (KafkaCarrier_Set set1)"
  by unfold_locales (simp add: KafkaCarrier_Get_def KafkaCarrier_Set_def)

lemma metadata_carrier:
  "(\<And>m k v. mdGet (mdSet m k [v]) k = [v])
     \<Longrightarrow> tenant_carrier (metadataCarrier_Get mdGet) (metadataCarrier_Set mdSet)"
  by unfold_locales (simp add: metadataCarrier_Get_def metadataCarrier_Set_def)

text \<open>
  A tenant that is not canonical for the strategy arrives as another one: the carrier takes any
  non-empty identifier of a context, and parsing trims it.
\<close>

lemma crossing_trims:
  "\<exists>c'. InjectTenant MapCarrier_Set (WithTenant None (zeroTenant\<lparr>tn_ID := '' acme''\<rparr>)) (Some []) [] = Inr c'
     \<and> ExtractTenant MapCarrier_Get (Some c') [] TenantIDStrategyString = Inr ''acme''"
proof -
  have "FromContext (WithTenant None (zeroTenant\<lparr>tn_ID := '' acme''\<rparr>)) = Some (zeroTenant\<lparr>tn_ID := '' acme''\<rparr>)"
    by (simp add: tenant_context)
  moreover have "ParseTenantID '' acme'' TenantIDStrategyString = Inr ''acme''" by code_simp
  ultimately show ?thesis
    using by_map.crosses [of "WithTenant None (zeroTenant\<lparr>tn_ID := '' acme''\<rparr>)" "zeroTenant\<lparr>tn_ID := '' acme''\<rparr>" "[]" "[]" TenantIDStrategyString]
    by simp
qed

end
