(* ===== verification/Admission.thy ===== *)
theory Admission
  imports Tenant_Carriers Resolver Tenant_Store Deployment_Guarantees
begin

text \<open>
  How a request is let in (\<open>web/http\<close>, \<open>web/gin\<close>, \<open>web/echo\<close>, \<open>web/fiber\<close>, \<open>web/kratos\<close>,
  \<open>rpc/grpc\<close>): each framework's middleware resolves the tenant, looks it up, checks that it is
  active, resolves its deployment unit and hands the request on in the tenant's context. The
  resolver, the answer of \<open>store.Get\<close> at the moment it is asked and the deployment resolver are
  arguments; a handler is a function of the context it runs in, and a refusal is the answer of the
  framework, so \<open>Inl\<close> means that no handler ran. The frameworks themselves are not in the
  repository: what they parse and how they write an answer stays outside.
\<close>

type_synonym DeploymentResolver = "Tenant \<Rightarrow> deployment_error + DeploymentUnit"

type_synonym getTenant = "TenantID \<Rightarrow> tenant_error + Tenant"

text \<open>\<open>errors.Is\<close> of \<open>Canceled\<close> or \<open>DeadlineExceeded\<close>.\<close>

fun isTimeout :: "tenant_error \<Rightarrow> bool" where
  "isTimeout (TenantCtx _) = True"
| "isTimeout (ErrTenantJoined a b) = (isTimeout a \<or> isTimeout b)"
| "isTimeout _ = False"

fun isDeployTimeout :: "deployment_error \<Rightarrow> bool" where
  "isDeployTimeout (DeployCtx _) = True"
| "isDeployTimeout _ = False"

text \<open>The unit a resolver answered, when it is usable, and else whether the error was a timeout.\<close>

definition usableUnit :: "deployment_error + DeploymentUnit \<Rightarrow> bool + DeploymentUnit" where
  "usableUnit answer =
     (case answer of
        Inl e \<Rightarrow> Inl (isDeployTimeout e)
      | Inr u \<Rightarrow> if du_ID u = [] \<or> du_Status u \<noteq> DeploymentUnitStatusActive then Inl False else Inr u)"

section \<open>net/http\<close>

record Config =
  cf_DeploymentResolver :: "DeploymentResolver option"

type_synonym AdmitOption = "Config \<Rightarrow> Config"

definition WithDeploymentResolver :: "DeploymentResolver option \<Rightarrow> AdmitOption" where
  "WithDeploymentResolver resolver config = config\<lparr>cf_DeploymentResolver := resolver\<rparr>"

definition newConfig :: "AdmitOption option list \<Rightarrow> Config" where
  "newConfig opts = fold (\<lambda>opt config. case opt of None \<Rightarrow> config | Some f \<Rightarrow> f config) opts
     \<lparr>cf_DeploymentResolver = None\<rparr>"

definition StatusUnauthorized :: nat where "StatusUnauthorized = 401"
definition StatusForbidden :: nat where "StatusForbidden = 403"
definition StatusRequestTimeout :: nat where "StatusRequestTimeout = 408"
definition StatusInternalServerError :: nat where "StatusInternalServerError = 500"

record HttpReply =
  hr_ContentType :: string
  hr_Status :: nat
  hr_Body :: string

definition writeError :: "nat \<Rightarrow> string \<Rightarrow> HttpReply" where
  "writeError status code = \<lparr>hr_ContentType = ''application/json'', hr_Status = status,
     hr_Body = ''{'' @ CHR 0x22 # ''error'' @ CHR 0x22 # '':'' @ CHR 0x22 # code @ CHR 0x22 # ''}''\<rparr>"

definition Http_TenantMiddleware ::
  "(Request option \<Rightarrow> 'e + TenantID) \<Rightarrow> getTenant \<Rightarrow> AdmitOption option list
     \<Rightarrow> (saasContext \<Rightarrow> HttpReply + 'r) \<Rightarrow> Request \<Rightarrow> saasContext \<Rightarrow> HttpReply + 'r"
where
  "Http_TenantMiddleware resolve get opts next1 r cx =
     (case resolve (Some r) of
        Inl _ \<Rightarrow> Inl (writeError StatusUnauthorized ''tenant_required'')
      | Inr tenantID \<Rightarrow>
     (case get tenantID of
        Inl e \<Rightarrow> Inl (writeError (if isTimeout e then StatusRequestTimeout else StatusForbidden) ''tenant_forbidden'')
      | Inr tenant \<Rightarrow>
        if tn_Status tenant \<noteq> TenantStatusActive then Inl (writeError StatusForbidden ''tenant_inactive'')
        else
     (case cf_DeploymentResolver (newConfig opts) of
        None \<Rightarrow> next1 (WithTenant cx tenant)
      | Some deploy \<Rightarrow>
          (case usableUnit (deploy tenant) of
             Inl timeout \<Rightarrow> Inl (writeError (if timeout then StatusRequestTimeout else StatusForbidden) ''deployment_unavailable'')
           | Inr u \<Rightarrow> next1 (WithTenantDeployment cx tenant u)))))"

definition Http_TenantStatusGuard :: "(saasContext \<Rightarrow> HttpReply + 'r) \<Rightarrow> saasContext \<Rightarrow> HttpReply + 'r" where
  "Http_TenantStatusGuard next1 cx =
     (case FromContext cx of
        None \<Rightarrow> Inl (writeError StatusUnauthorized ''tenant_required'')
      | Some tenant \<Rightarrow>
          if tn_Status tenant \<noteq> TenantStatusActive then Inl (writeError StatusForbidden ''tenant_inactive'')
          else next1 cx)"

definition Http_HostGuard :: "(saasContext \<Rightarrow> HttpReply + 'r) \<Rightarrow> saasContext \<Rightarrow> HttpReply + 'r" where
  "Http_HostGuard next1 cx =
     (if \<not> IsHost cx then Inl (writeError StatusForbidden ''host_required'') else next1 cx)"

section \<open>Gin, Echo and Fiber\<close>

text \<open>These answer a status and a map that the framework writes as JSON.\<close>

type_synonym jsonReply = "nat \<times> (string, string) gomap"

definition errorBody :: "string \<Rightarrow> (string, string) gomap" where
  "errorBody code = [(''error'', code)]"

definition Gin_TenantMiddleware ::
  "(Request option \<Rightarrow> 'e + TenantID) \<Rightarrow> getTenant \<Rightarrow> AdmitOption option list
     \<Rightarrow> (saasContext \<Rightarrow> jsonReply + 'r) \<Rightarrow> Request \<Rightarrow> saasContext \<Rightarrow> jsonReply + 'r"
where
  "Gin_TenantMiddleware resolve get opts next1 r cx =
     (case resolve (Some r) of
        Inl _ \<Rightarrow> Inl (StatusUnauthorized, errorBody ''tenant_required'')
      | Inr tenantID \<Rightarrow>
     (case get tenantID of
        Inl e \<Rightarrow> Inl (if isTimeout e then StatusRequestTimeout else StatusForbidden, errorBody ''tenant_forbidden'')
      | Inr tenant \<Rightarrow>
        if tn_Status tenant \<noteq> TenantStatusActive then Inl (StatusForbidden, errorBody ''tenant_inactive'')
        else
     (case cf_DeploymentResolver (newConfig opts) of
        None \<Rightarrow> next1 (WithTenant cx tenant)
      | Some deploy \<Rightarrow>
          (case usableUnit (deploy tenant) of
             Inl timeout \<Rightarrow> Inl (if timeout then StatusRequestTimeout else StatusForbidden, errorBody ''deployment_unavailable'')
           | Inr u \<Rightarrow> next1 (WithTenantDeployment cx tenant u)))))"

definition Gin_TenantStatusGuard :: "(saasContext \<Rightarrow> jsonReply + 'r) \<Rightarrow> saasContext \<Rightarrow> jsonReply + 'r" where
  "Gin_TenantStatusGuard next1 cx =
     (case FromContext cx of
        None \<Rightarrow> Inl (StatusUnauthorized, errorBody ''tenant_required'')
      | Some tenant \<Rightarrow>
          if tn_Status tenant \<noteq> TenantStatusActive then Inl (StatusForbidden, errorBody ''tenant_inactive'')
          else next1 cx)"

definition Gin_HostGuardMiddleware :: "(saasContext \<Rightarrow> jsonReply + 'r) \<Rightarrow> saasContext \<Rightarrow> jsonReply + 'r" where
  "Gin_HostGuardMiddleware next1 cx =
     (if \<not> IsHost cx then Inl (StatusForbidden, errorBody ''host_required'') else next1 cx)"

text \<open>What the handlers of a Gin request leave: their errors, and the answer once it is written.\<close>

record GinOutcome =
  go_Errors :: "string list"
  go_Written :: "jsonReply option"

definition Gin_ErrorHandler :: "(saasContext \<Rightarrow> GinOutcome) \<Rightarrow> saasContext \<Rightarrow> GinOutcome" where
  "Gin_ErrorHandler next1 cx =
     (let done1 = next1 cx in
      if length (go_Errors done1) = 0 \<or> go_Written done1 \<noteq> None then done1
      else done1\<lparr>go_Written := Some (StatusInternalServerError, errorBody ''internal_error'')\<rparr>)"

definition Echo_TenantMiddleware ::
  "(Request option \<Rightarrow> 'e + TenantID) \<Rightarrow> getTenant \<Rightarrow> AdmitOption option list
     \<Rightarrow> (saasContext \<Rightarrow> jsonReply + 'r) \<Rightarrow> Request \<Rightarrow> saasContext \<Rightarrow> jsonReply + 'r"
where
  "Echo_TenantMiddleware resolve get opts next1 r cx =
     (case resolve (Some r) of
        Inl _ \<Rightarrow> Inl (StatusUnauthorized, errorBody ''tenant_required'')
      | Inr tenantID \<Rightarrow>
     (case get tenantID of
        Inl e \<Rightarrow> Inl (if isTimeout e then StatusRequestTimeout else StatusForbidden, errorBody ''tenant_forbidden'')
      | Inr tenant \<Rightarrow>
        if tn_Status tenant \<noteq> TenantStatusActive then Inl (StatusForbidden, errorBody ''tenant_inactive'')
        else
     (case cf_DeploymentResolver (newConfig opts) of
        None \<Rightarrow> next1 (WithTenant cx tenant)
      | Some deploy \<Rightarrow>
          (case usableUnit (deploy tenant) of
             Inl timeout \<Rightarrow> Inl (if timeout then StatusRequestTimeout else StatusForbidden, errorBody ''deployment_unavailable'')
           | Inr u \<Rightarrow> next1 (WithTenantDeployment cx tenant u)))))"

definition Echo_TenantStatusGuard :: "(saasContext \<Rightarrow> jsonReply + 'r) \<Rightarrow> saasContext \<Rightarrow> jsonReply + 'r" where
  "Echo_TenantStatusGuard next1 cx =
     (case FromContext cx of
        None \<Rightarrow> Inl (StatusUnauthorized, errorBody ''tenant_required'')
      | Some tenant \<Rightarrow>
          if tn_Status tenant \<noteq> TenantStatusActive then Inl (StatusForbidden, errorBody ''tenant_inactive'')
          else next1 cx)"

definition Echo_HostGuardMiddleware :: "(saasContext \<Rightarrow> jsonReply + 'r) \<Rightarrow> saasContext \<Rightarrow> jsonReply + 'r" where
  "Echo_HostGuardMiddleware next1 cx =
     (if \<not> IsHost cx then Inl (StatusForbidden, errorBody ''host_required'') else next1 cx)"

text \<open>Fiber's request is converted to one of \<open>net/http\<close> first; \<open>None\<close> is an error of the adaptor.\<close>

definition Fiber_TenantMiddleware ::
  "(Request option \<Rightarrow> 'e + TenantID) \<Rightarrow> getTenant \<Rightarrow> AdmitOption option list
     \<Rightarrow> (saasContext \<Rightarrow> jsonReply + 'r) \<Rightarrow> Request option \<Rightarrow> saasContext \<Rightarrow> jsonReply + 'r"
where
  "Fiber_TenantMiddleware resolve get opts next1 converted cx =
     (case converted of
        None \<Rightarrow> Inl (StatusUnauthorized, errorBody ''tenant_required'')
      | Some r \<Rightarrow>
     (case resolve (Some r) of
        Inl _ \<Rightarrow> Inl (StatusUnauthorized, errorBody ''tenant_required'')
      | Inr tenantID \<Rightarrow>
     (case get tenantID of
        Inl e \<Rightarrow> Inl (if isTimeout e then StatusRequestTimeout else StatusForbidden, errorBody ''tenant_forbidden'')
      | Inr tenant \<Rightarrow>
        if tn_Status tenant \<noteq> TenantStatusActive then Inl (StatusForbidden, errorBody ''tenant_inactive'')
        else
     (case cf_DeploymentResolver (newConfig opts) of
        None \<Rightarrow> next1 (WithTenant cx tenant)
      | Some deploy \<Rightarrow>
          (case usableUnit (deploy tenant) of
             Inl timeout \<Rightarrow> Inl (if timeout then StatusRequestTimeout else StatusForbidden, errorBody ''deployment_unavailable'')
           | Inr u \<Rightarrow> next1 (WithTenantDeployment cx tenant u))))))"

definition Fiber_TenantStatusGuard :: "(saasContext \<Rightarrow> jsonReply + 'r) \<Rightarrow> saasContext \<Rightarrow> jsonReply + 'r" where
  "Fiber_TenantStatusGuard next1 cx =
     (case FromContext cx of
        None \<Rightarrow> Inl (StatusUnauthorized, errorBody ''tenant_required'')
      | Some tenant \<Rightarrow>
          if tn_Status tenant \<noteq> TenantStatusActive then Inl (StatusForbidden, errorBody ''tenant_inactive'')
          else next1 cx)"

definition Fiber_HostGuardMiddleware :: "(saasContext \<Rightarrow> jsonReply + 'r) \<Rightarrow> saasContext \<Rightarrow> jsonReply + 'r" where
  "Fiber_HostGuardMiddleware next1 cx =
     (if \<not> IsHost cx then Inl (StatusForbidden, errorBody ''host_required'') else next1 cx)"

section \<open>Kratos\<close>

record KratosError =
  ke_Code :: nat
  ke_Reason :: string
  ke_Message :: string

definition reasonTenantRequired :: string where "reasonTenantRequired = ''TENANT_REQUIRED''"
definition reasonTenantForbidden :: string where "reasonTenantForbidden = ''TENANT_FORBIDDEN''"
definition reasonTenantInactive :: string where "reasonTenantInactive = ''TENANT_INACTIVE''"
definition reasonDeploymentUnavailable :: string where "reasonDeploymentUnavailable = ''DEPLOYMENT_UNAVAILABLE''"
definition reasonHostRequired :: string where "reasonHostRequired = ''HOST_REQUIRED''"

definition kUnauthorized :: "string \<Rightarrow> string \<Rightarrow> KratosError" where
  "kUnauthorized reason message = \<lparr>ke_Code = StatusUnauthorized, ke_Reason = reason, ke_Message = message\<rparr>"

definition kForbidden :: "string \<Rightarrow> string \<Rightarrow> KratosError" where
  "kForbidden reason message = \<lparr>ke_Code = StatusForbidden, ke_Reason = reason, ke_Message = message\<rparr>"

text \<open>
  What Kratos has put into the context of a server: the HTTP request, or a transport with its
  request header, as the keys it lists and the values of a key.
\<close>

record KratosServer =
  ks_Request :: "Request option"
  ks_Transport :: "(string list \<times> (string \<Rightarrow> string list)) option option"

definition headerAdd :: "string \<Rightarrow> string \<Rightarrow> (string, string list) gomap \<Rightarrow> (string, string list) gomap" where
  "headerAdd key value1 header =
     (let k = CanonicalHeaderKey key in
      AList.update k ((case map_of header k of None \<Rightarrow> [] | Some vs \<Rightarrow> vs) @ [value1]) header)"

definition copyHeader :: "string list \<times> (string \<Rightarrow> string list) \<Rightarrow> (string, string list) gomap" where
  "copyHeader source1 =
     fold (\<lambda>key header. fold (headerAdd key) (snd source1 key) header) (fst source1) []"

definition headerGet :: "(string, string list) gomap \<Rightarrow> string \<Rightarrow> string" where
  "headerGet header key =
     (case map_of header (CanonicalHeaderKey key) of
        None \<Rightarrow> []
      | Some vs \<Rightarrow> if vs = [] then [] else hd vs)"

text \<open>\<open>cookieOf\<close> is what \<open>net/http\<close> reads from the headers of a request.\<close>

definition requestFromContext ::
  "((string, string list) gomap \<Rightarrow> string \<Rightarrow> cookieAnswer) \<Rightarrow> KratosServer \<Rightarrow> resolver_error + Request"
where
  "requestFromContext cookieOf server =
     (case ks_Request server of
        Some request \<Rightarrow> Inr request
      | None \<Rightarrow>
     (case ks_Transport server of
        None \<Rightarrow> Inl ErrNilRequest
      | Some None \<Rightarrow> Inl ErrNilRequest
      | Some (Some source1) \<Rightarrow>
          (let header = copyHeader source1 in
           Inr \<lparr>rq_Header = header, rq_Query = Some [], rq_Cookie = cookieOf header,
             rq_Host = headerGet header ''Host''\<rparr>)))"

definition Kratos_TenantMiddleware ::
  "((string, string list) gomap \<Rightarrow> string \<Rightarrow> cookieAnswer) \<Rightarrow> (Request option \<Rightarrow> 'e + TenantID) \<Rightarrow> getTenant
     \<Rightarrow> AdmitOption option list \<Rightarrow> (saasContext \<Rightarrow> KratosError + 'r) \<Rightarrow> KratosServer \<Rightarrow> saasContext
     \<Rightarrow> KratosError + 'r"
where
  "Kratos_TenantMiddleware cookieOf resolve get opts next1 server cx =
     (case requestFromContext cookieOf server of
        Inl _ \<Rightarrow> Inl (kUnauthorized reasonTenantRequired ''tenant required'')
      | Inr request \<Rightarrow>
     (case resolve (Some request) of
        Inl _ \<Rightarrow> Inl (kUnauthorized reasonTenantRequired ''tenant required'')
      | Inr tenantID \<Rightarrow>
     (case get tenantID of
        Inl e \<Rightarrow>
          if isTimeout e
          then Inl \<lparr>ke_Code = StatusRequestTimeout, ke_Reason = reasonTenantForbidden,
                 ke_Message = ''tenant lookup timed out''\<rparr>
          else Inl (kForbidden reasonTenantForbidden ''tenant forbidden'')
      | Inr tenant \<Rightarrow>
        if tn_Status tenant \<noteq> TenantStatusActive then Inl (kForbidden reasonTenantInactive ''tenant inactive'')
        else
     (case cf_DeploymentResolver (newConfig opts) of
        None \<Rightarrow> next1 (WithTenant cx tenant)
      | Some deploy \<Rightarrow>
          (case usableUnit (deploy tenant) of
             Inl timeout \<Rightarrow>
               if timeout
               then Inl \<lparr>ke_Code = StatusRequestTimeout, ke_Reason = reasonDeploymentUnavailable,
                      ke_Message = ''deployment resolution timed out''\<rparr>
               else Inl (kForbidden reasonDeploymentUnavailable ''deployment unavailable'')
           | Inr u \<Rightarrow> next1 (WithTenantDeployment cx tenant u))))))"

definition Kratos_TenantStatusGuard :: "(saasContext \<Rightarrow> KratosError + 'r) \<Rightarrow> saasContext \<Rightarrow> KratosError + 'r" where
  "Kratos_TenantStatusGuard next1 cx =
     (case FromContext cx of
        None \<Rightarrow> Inl (kUnauthorized reasonTenantRequired ''tenant required'')
      | Some tenant \<Rightarrow>
          if tn_Status tenant \<noteq> TenantStatusActive then Inl (kForbidden reasonTenantInactive ''tenant inactive'')
          else next1 cx)"

definition Kratos_HostGuard :: "(saasContext \<Rightarrow> KratosError + 'r) \<Rightarrow> saasContext \<Rightarrow> KratosError + 'r" where
  "Kratos_HostGuard next1 cx =
     (if \<not> IsHost cx then Inl (kForbidden reasonHostRequired ''host required'') else next1 cx)"

section \<open>gRPC\<close>

datatype grpcCode = Unauthenticated | PermissionDenied

type_synonym grpcStatus = "grpcCode \<times> string"

record GrpcConfig =
  gc_MetadataKey :: string
  gc_Strategy :: TenantIDStrategy
  gc_DeploymentResolver :: "DeploymentResolver option"

type_synonym GrpcOption = "GrpcConfig \<Rightarrow> GrpcConfig"

definition WithMetadataKey :: "string \<Rightarrow> GrpcOption" where
  "WithMetadataKey key config = config\<lparr>gc_MetadataKey := key\<rparr>"

definition WithTenantIDStrategy :: "TenantIDStrategy \<Rightarrow> GrpcOption" where
  "WithTenantIDStrategy strategy config = config\<lparr>gc_Strategy := strategy\<rparr>"

definition Grpc_WithDeploymentResolver :: "DeploymentResolver option \<Rightarrow> GrpcOption" where
  "Grpc_WithDeploymentResolver resolver config = config\<lparr>gc_DeploymentResolver := resolver\<rparr>"

definition Grpc_newConfig :: "GrpcOption option list \<Rightarrow> GrpcConfig" where
  "Grpc_newConfig opts = fold (\<lambda>opt config. case opt of None \<Rightarrow> config | Some f \<Rightarrow> f config) opts
     \<lparr>gc_MetadataKey = DefaultTenantMetadataKey, gc_Strategy = TenantIDStrategyString,
      gc_DeploymentResolver = None\<rparr>"

text \<open>\<open>md\<close> is the incoming metadata of the context, \<open>None\<close> when there is none.\<close>

definition tenantContext ::
  "('m \<Rightarrow> string \<Rightarrow> string list) \<Rightarrow> 'm option \<Rightarrow> saasContext \<Rightarrow> getTenant \<Rightarrow> GrpcConfig
     \<Rightarrow> grpcStatus + saasContext"
where
  "tenantContext mdGet md cx get config =
     (case md of
        None \<Rightarrow> Inl (Unauthenticated, ''tenant_required'')
      | Some m \<Rightarrow>
     (case ExtractTenant (metadataCarrier_Get mdGet) (Some m) (gc_MetadataKey config) (gc_Strategy config) of
        Inl _ \<Rightarrow> Inl (Unauthenticated, ''tenant_required'')
      | Inr tenantID \<Rightarrow>
     (case get tenantID of
        Inl _ \<Rightarrow> Inl (PermissionDenied, ''tenant_forbidden'')
      | Inr tenant \<Rightarrow>
        if tn_Status tenant \<noteq> TenantStatusActive then Inl (PermissionDenied, ''tenant_inactive'')
        else
     (case gc_DeploymentResolver config of
        None \<Rightarrow> Inr (WithTenant cx tenant)
      | Some deploy \<Rightarrow>
          (case usableUnit (deploy tenant) of
             Inl _ \<Rightarrow> Inl (PermissionDenied, ''deployment_unavailable'')
           | Inr u \<Rightarrow> Inr (WithTenantDeployment cx tenant u))))))"

definition TenantUnaryServerInterceptor ::
  "('m \<Rightarrow> string \<Rightarrow> string list) \<Rightarrow> getTenant \<Rightarrow> GrpcOption option list \<Rightarrow> (saasContext \<Rightarrow> grpcStatus + 'r)
     \<Rightarrow> 'm option \<Rightarrow> saasContext \<Rightarrow> grpcStatus + 'r"
where
  "TenantUnaryServerInterceptor mdGet get opts handler md cx =
     (case tenantContext mdGet md cx get (Grpc_newConfig opts) of
        Inl e \<Rightarrow> Inl e
      | Inr tenantCtx1 \<Rightarrow> handler tenantCtx1)"

text \<open>A stream is its context and whatever else it holds.\<close>

record 's ServerStream =
  ss_Context :: saasContext
  ss_Stream :: 's

definition contextServerStream :: "'s ServerStream \<Rightarrow> saasContext \<Rightarrow> 's ServerStream" where
  "contextServerStream stream cx = stream\<lparr>ss_Context := cx\<rparr>"

definition TenantStreamServerInterceptor ::
  "('m \<Rightarrow> string \<Rightarrow> string list) \<Rightarrow> getTenant \<Rightarrow> GrpcOption option list \<Rightarrow> ('s ServerStream \<Rightarrow> grpcStatus + 'r)
     \<Rightarrow> 'm option \<Rightarrow> 's ServerStream \<Rightarrow> grpcStatus + 'r"
where
  "TenantStreamServerInterceptor mdGet get opts handler md stream =
     (case tenantContext mdGet md (ss_Context stream) get (Grpc_newConfig opts) of
        Inl e \<Rightarrow> Inl e
      | Inr tenantCtx1 \<Rightarrow> handler (contextServerStream stream tenantCtx1))"

definition checkTenantStatus :: "saasContext \<Rightarrow> grpcStatus + unit" where
  "checkTenantStatus cx =
     (case FromContext cx of
        None \<Rightarrow> Inl (Unauthenticated, ''tenant_required'')
      | Some tenant \<Rightarrow>
          if tn_Status tenant \<noteq> TenantStatusActive then Inl (PermissionDenied, ''tenant_inactive'')
          else Inr ())"

definition TenantStatusUnaryServerInterceptor ::
  "(saasContext \<Rightarrow> grpcStatus + 'r) \<Rightarrow> saasContext \<Rightarrow> grpcStatus + 'r"
where
  "TenantStatusUnaryServerInterceptor handler cx = bind_ok (checkTenantStatus cx) (\<lambda>_. handler cx)"

definition TenantStatusStreamServerInterceptor ::
  "('s ServerStream \<Rightarrow> grpcStatus + 'r) \<Rightarrow> 's ServerStream \<Rightarrow> grpcStatus + 'r"
where
  "TenantStatusStreamServerInterceptor handler stream =
     bind_ok (checkTenantStatus (ss_Context stream)) (\<lambda>_. handler stream)"

definition HostUnaryServerInterceptor ::
  "(saasContext \<Rightarrow> grpcStatus + 'r) \<Rightarrow> saasContext \<Rightarrow> grpcStatus + 'r"
where
  "HostUnaryServerInterceptor handler cx =
     (if \<not> IsHost cx then Inl (PermissionDenied, ''host_required'') else handler cx)"

definition HostStreamServerInterceptor ::
  "('s ServerStream \<Rightarrow> grpcStatus + 'r) \<Rightarrow> 's ServerStream \<Rightarrow> grpcStatus + 'r"
where
  "HostStreamServerInterceptor handler stream =
     (if \<not> IsHost (ss_Context stream) then Inl (PermissionDenied, ''host_required'') else handler stream)"

section \<open>One admission for six frameworks\<close>

text \<open>The reference: why a request is refused, or the context its handler runs in.\<close>

datatype refusal = TenantRequired | TenantForbidden bool | TenantInactive | DeploymentUnavailable bool

definition admission ::
  "'e + TenantID \<Rightarrow> getTenant \<Rightarrow> DeploymentResolver option \<Rightarrow> refusal + saasContext"
where
  "admission resolved get deploy =
     (case resolved of
        Inl _ \<Rightarrow> Inl TenantRequired
      | Inr tid \<Rightarrow>
     (case get tid of
        Inl e \<Rightarrow> Inl (TenantForbidden (isTimeout e))
      | Inr t \<Rightarrow>
        if tn_Status t \<noteq> TenantStatusActive then Inl TenantInactive
        else
     (case deploy of
        None \<Rightarrow> Inr (WithTenant None t)
      | Some f \<Rightarrow>
          (case usableUnit (f t) of
             Inl timeout \<Rightarrow> Inl (DeploymentUnavailable timeout)
           | Inr u \<Rightarrow> Inr (WithTenantDeployment None t u)))))"

fun refusalStatus :: "refusal \<Rightarrow> nat" where
  "refusalStatus TenantRequired = StatusUnauthorized"
| "refusalStatus (TenantForbidden timeout) = (if timeout then StatusRequestTimeout else StatusForbidden)"
| "refusalStatus TenantInactive = StatusForbidden"
| "refusalStatus (DeploymentUnavailable timeout) = (if timeout then StatusRequestTimeout else StatusForbidden)"

fun refusalCode :: "refusal \<Rightarrow> string" where
  "refusalCode TenantRequired = ''tenant_required''"
| "refusalCode (TenantForbidden _) = ''tenant_forbidden''"
| "refusalCode TenantInactive = ''tenant_inactive''"
| "refusalCode (DeploymentUnavailable _) = ''deployment_unavailable''"

fun kratosRefusal :: "refusal \<Rightarrow> KratosError" where
  "kratosRefusal TenantRequired = kUnauthorized reasonTenantRequired ''tenant required''"
| "kratosRefusal (TenantForbidden timeout) =
     \<lparr>ke_Code = refusalStatus (TenantForbidden timeout), ke_Reason = reasonTenantForbidden,
      ke_Message = (if timeout then ''tenant lookup timed out'' else ''tenant forbidden'')\<rparr>"
| "kratosRefusal TenantInactive = kForbidden reasonTenantInactive ''tenant inactive''"
| "kratosRefusal (DeploymentUnavailable timeout) =
     \<lparr>ke_Code = refusalStatus (DeploymentUnavailable timeout), ke_Reason = reasonDeploymentUnavailable,
      ke_Message = (if timeout then ''deployment resolution timed out'' else ''deployment unavailable'')\<rparr>"

definition grpcRefusal :: "refusal \<Rightarrow> grpcStatus" where
  "grpcRefusal f = (if f = TenantRequired then Unauthenticated else PermissionDenied, refusalCode f)"

definition answered :: "(refusal \<Rightarrow> 'a) \<Rightarrow> (saasContext \<Rightarrow> 'a + 'r) \<Rightarrow> refusal + saasContext \<Rightarrow> 'a + 'r" where
  "answered reply next1 outcome = (case outcome of Inl f \<Rightarrow> Inl (reply f) | Inr cx \<Rightarrow> next1 cx)"

lemma with_any_context:
  "WithTenant cx t = WithTenant None t" "WithTenantDeployment cx t u = WithTenantDeployment None t u"
  by (simp_all add: WithTenant_def WithTenantDeployment_def)

lemmas admission_defs = admission_def answered_def errorBody_def WithTenant_def WithTenantDeployment_def

lemmas admission_splits = sum.split option.split

definition requestTenant :: "('m \<Rightarrow> string \<Rightarrow> string list) \<Rightarrow> 'm option \<Rightarrow> GrpcConfig \<Rightarrow> rpc_error + TenantID" where
  "requestTenant mdGet md config =
     (case md of
        None \<Rightarrow> Inl ErrNoTenantMetadata
      | Some m \<Rightarrow> ExtractTenant (metadataCarrier_Get mdGet) (Some m) (gc_MetadataKey config) (gc_Strategy config))"

lemma http_admission:
  "Http_TenantMiddleware resolve get opts next1 r cx =
     answered (\<lambda>f. writeError (refusalStatus f) (refusalCode f)) next1
       (admission (resolve (Some r)) get (cf_DeploymentResolver (newConfig opts)))"
  by (simp add: Http_TenantMiddleware_def admission_defs split: admission_splits)

lemma gin_admission:
  "Gin_TenantMiddleware resolve get opts next1 r cx =
     answered (\<lambda>f. (refusalStatus f, errorBody (refusalCode f))) next1
       (admission (resolve (Some r)) get (cf_DeploymentResolver (newConfig opts)))"
  by (simp add: Gin_TenantMiddleware_def admission_defs split: admission_splits)

lemma echo_admission:
  "Echo_TenantMiddleware resolve get opts next1 r cx =
     answered (\<lambda>f. (refusalStatus f, errorBody (refusalCode f))) next1
       (admission (resolve (Some r)) get (cf_DeploymentResolver (newConfig opts)))"
  by (simp add: Echo_TenantMiddleware_def admission_defs split: admission_splits)

lemma fiber_admission:
  "Fiber_TenantMiddleware resolve get opts next1 converted cx =
     answered (\<lambda>f. (refusalStatus f, errorBody (refusalCode f))) next1
       (case converted of None \<Rightarrow> Inl TenantRequired
        | Some r \<Rightarrow> admission (resolve (Some r)) get (cf_DeploymentResolver (newConfig opts)))"
  by (simp add: Fiber_TenantMiddleware_def admission_defs split: admission_splits)

lemma kratos_admission:
  "Kratos_TenantMiddleware cookieOf resolve get opts next1 server cx =
     answered kratosRefusal next1
       (case requestFromContext cookieOf server of Inl _ \<Rightarrow> Inl TenantRequired
        | Inr r \<Rightarrow> admission (resolve (Some r)) get (cf_DeploymentResolver (newConfig opts)))"
  by (simp add: Kratos_TenantMiddleware_def admission_defs kForbidden_def split: admission_splits)

lemma tenantContext_admission:
  "tenantContext mdGet md cx get config =
     answered grpcRefusal Inr (admission (requestTenant mdGet md config) get (gc_DeploymentResolver config))"
  by (simp add: tenantContext_def requestTenant_def admission_defs grpcRefusal_def split: admission_splits)

lemma grpc_admission:
  "TenantUnaryServerInterceptor mdGet get opts handler md cx =
     answered grpcRefusal handler
       (admission (requestTenant mdGet md (Grpc_newConfig opts)) get (gc_DeploymentResolver (Grpc_newConfig opts)))"
  "TenantStreamServerInterceptor mdGet get opts handler1 md stream =
     answered grpcRefusal (handler1 \<circ> contextServerStream stream)
       (admission (requestTenant mdGet md (Grpc_newConfig opts)) get (gc_DeploymentResolver (Grpc_newConfig opts)))"
  by (simp_all add: TenantUnaryServerInterceptor_def TenantStreamServerInterceptor_def tenantContext_admission
      answered_def split: sum.split)

text \<open>
  C13. The six frameworks are one admission: whatever resolves the tenant, whatever the store and
  the deployment resolver answer, net/http, Gin, Echo, Fiber, Kratos and gRPC run the handler for
  the same requests and in the same context, which does not depend on the context the request came
  with; and when they refuse they give the same reason, the web frameworks with the same status.
\<close>

theorem frameworks_admit_alike:
  "let outcome = admission (resolve (Some r)) get deploy in
   Http_TenantMiddleware resolve get [Some (WithDeploymentResolver deploy)] next1 r cx
       = answered (\<lambda>f. writeError (refusalStatus f) (refusalCode f)) next1 outcome
   \<and> Gin_TenantMiddleware resolve get [Some (WithDeploymentResolver deploy)] next2 r cx
       = answered (\<lambda>f. (refusalStatus f, errorBody (refusalCode f))) next2 outcome
   \<and> Echo_TenantMiddleware resolve get [Some (WithDeploymentResolver deploy)] next2 r cx
       = answered (\<lambda>f. (refusalStatus f, errorBody (refusalCode f))) next2 outcome
   \<and> Fiber_TenantMiddleware resolve get [Some (WithDeploymentResolver deploy)] next2 (Some r) cx
       = answered (\<lambda>f. (refusalStatus f, errorBody (refusalCode f))) next2 outcome
   \<and> Kratos_TenantMiddleware cookieOf resolve get [Some (WithDeploymentResolver deploy)] next3
         \<lparr>ks_Request = Some r, ks_Transport = transport\<rparr> cx
       = answered kratosRefusal next3 outcome
   \<and> (\<forall>f. ke_Code (kratosRefusal f) = refusalStatus f)
   \<and> TenantUnaryServerInterceptor mdGet get [Some (Grpc_WithDeploymentResolver deploy)] handler md cx
       = answered grpcRefusal handler
           (admission (requestTenant mdGet md (Grpc_newConfig [])) get deploy)"
proof -
  have config: "cf_DeploymentResolver (newConfig [Some (WithDeploymentResolver deploy)]) = deploy"
    by (simp add: newConfig_def WithDeploymentResolver_def)
  have grpc: "gc_DeploymentResolver (Grpc_newConfig [Some (Grpc_WithDeploymentResolver deploy)]) = deploy"
    "requestTenant mdGet md (Grpc_newConfig [Some (Grpc_WithDeploymentResolver deploy)]) = requestTenant mdGet md (Grpc_newConfig [])"
    by (cases md; simp add: Grpc_newConfig_def Grpc_WithDeploymentResolver_def requestTenant_def)+
  have code: "ke_Code (kratosRefusal f) = refusalStatus f" for f
    by (cases f) (simp_all add: kUnauthorized_def kForbidden_def)
  show ?thesis
    using code by (simp add: Let_def http_admission gin_admission echo_admission fiber_admission kratos_admission
        grpc_admission grpc config requestFromContext_def)
qed

section \<open>A request runs as its tenant\<close>

lemma answered_Inr: "answered reply Inr outcome = Inr cx \<longleftrightarrow> outcome = Inr cx"
  by (auto simp: answered_def split: sum.splits)

lemma admission_Inr:
  "admission resolved get (Some deploy) = Inr cx \<longleftrightarrow>
     (\<exists>tid t u. resolved = Inr tid \<and> get tid = Inr t \<and> tn_Status t = TenantStatusActive
        \<and> usableUnit (deploy t) = Inr u \<and> cx = WithTenantDeployment None t u)"
  by (auto simp: admission_def split: sum.splits)

lemma got_tenant:
  assumes "tenant_inv st"
  shows "Tenants_Get c tid st = Inr t \<longleftrightarrow>
    c = None \<and> tid \<noteq> [] \<and> map_of (tm_tenants st) tid = Some t \<and> tn_ID t = tid"
  using assms keyed_mapD [of tn_ID "tm_tenants st" tid t]
  by (cases c) (auto simp: Tenants_Get_def tenant_inv_def split: option.splits if_splits)

lemma placed_unit:
  assumes "deploy_step\<^sup>*\<^sup>* NewDeployMemory s" "undisturbed w" "\<not> ds_store_nil service" "tn_ID t \<noteq> []"
  shows "usableUnit (fst (DeployService_Resolve (Some service) w t (s, log))) = Inr u \<longleftrightarrow>
    (\<exists>a. map_of (dm_assignments s) (tn_ID t) = Some a \<and> map_of (dm_units s) (as_UnitID a) = Some u
       \<and> du_ID u = as_UnitID a \<and> du_Status u = DeploymentUnitStatusActive)"
proof (cases "map_of (dm_assignments s) (tn_ID t)")
  case None
  then show ?thesis using resolve_placed [OF assms, of log] by (simp add: usableUnit_def)
next
  case (Some a)
  have inv: "placement_inv s" using deploy_reach_inv [OF assms(1) placement_inv_new] .
  from assigned_active [OF inv Some] obtain v where v: "map_of (dm_units s) (as_UnitID a) = Some v"
    by (auto simp: unitActive_def)
  have "as_UnitID a \<noteq> []"
    using inv Some by (auto simp: placement_inv_def validateAssignment_def split: if_splits)
  then show ?thesis using resolve_placed [OF assms, of log] Some v by (auto simp: usableUnit_def)
qed

text \<open>
  C2. Over the in-memory tenant store and the deployment service, in any states they can reach, a
  handler runs exactly when the request names, through its sources, a tenant that is stored, active
  and placed on a unit; it then runs in the context of that very tenant, on the active unit the
  tenant is assigned to, never on the host's side: the guard for active tenants lets it pass, and
  the guard for the host refuses it whatever the context was before.
\<close>

theorem request_runs_as_its_tenant:
  assumes "tenant_inv st" "deploy_step\<^sup>*\<^sup>* NewDeployMemory s" "undisturbed w" "\<not> ds_store_nil service"
    and "run = Http_TenantMiddleware (Composite_Resolve contribs) (\<lambda>tid. Tenants_Get c tid st)
       [Some (WithDeploymentResolver (Some (\<lambda>t. fst (DeployService_Resolve (Some service) w t (s, log)))))]
       Inr r cx"
  shows "(run = Inr cx' \<longleftrightarrow>
       (\<exists>tid t a u. Composite_Resolve contribs (Some r) = Inr tid \<and> tid \<noteq> [] \<and> c = None
          \<and> map_of (tm_tenants st) tid = Some t \<and> tn_ID t = tid \<and> tn_Status t = TenantStatusActive
          \<and> map_of (dm_assignments s) tid = Some a \<and> map_of (dm_units s) (as_UnitID a) = Some u
          \<and> du_ID u = as_UnitID a \<and> du_Status u = DeploymentUnitStatusActive
          \<and> cx' = WithTenantDeployment cx t u))
   \<and> (run = Inr cx' \<longrightarrow>
       Http_TenantStatusGuard next1 cx' = next1 cx'
       \<and> Http_HostGuard next1 cx' = Inl (writeError StatusForbidden ''host_required''))"
proof -
  let ?deploy = "\<lambda>t. fst (DeployService_Resolve (Some service) w t (s, log))"
  have config: "cf_DeploymentResolver (newConfig [Some (WithDeploymentResolver (Some ?deploy))]) = Some ?deploy"
    by (simp add: newConfig_def WithDeploymentResolver_def)
  have run: "run = Inr cx' \<longleftrightarrow> (\<exists>tid t u. Composite_Resolve contribs (Some r) = Inr tid
      \<and> Tenants_Get c tid st = Inr t \<and> tn_Status t = TenantStatusActive \<and> usableUnit (?deploy t) = Inr u
      \<and> cx' = WithTenantDeployment None t u)"
    unfolding assms(5) http_admission config answered_Inr admission_Inr ..
  moreover have "Http_TenantStatusGuard next1 cx' = next1 cx'
      \<and> Http_HostGuard next1 cx' = Inl (writeError StatusForbidden ''host_required'')"
    if "tn_Status t = TenantStatusActive" "cx' = WithTenantDeployment None t u" for t u
    using that by (simp add: Http_TenantStatusGuard_def Http_HostGuard_def tenant_context)
  ultimately show ?thesis
    unfolding got_tenant [OF assms(1)] with_any_context(2) [of cx] using placed_unit [OF assms(2-4)] by blast
qed

text \<open>A tenant that is stored, active and placed, and a request that names it in a header.\<close>

definition sampleActive :: Tenant where
  "sampleActive = sampleTenant ''t'' TenantStatusActive"

definition sampleRequest :: Request where
  "sampleRequest = \<lparr>rq_Header = [(''X-Tenant-Id'', ['' t ''])], rq_Query = None, rq_Cookie = (\<lambda>_. NoCookie), rq_Host = []\<rparr>"

definition headerSource :: "contrib list" where
  "headerSource = NewComposite [None, Some (HeaderContrib_Resolve (NewHeaderContrib [] TenantIDStrategyString))]"

lemma sampleService_store: "\<not> ds_store_nil sampleService"
  by code_simp

lemma sample_resolves: "Composite_Resolve headerSource (Some sampleRequest) = Inr ''t''"
  by code_simp

theorem request_runs_as_its_tenant_witness:
  "Http_TenantMiddleware (Composite_Resolve headerSource) (\<lambda>tid. Tenants_Get None tid \<lparr>tm_tenants = [(''t'', sampleActive)]\<rparr>)
     [Some (WithDeploymentResolver (Some (\<lambda>t. fst (DeployService_Resolve (Some sampleService) quietDeploy t (sampleDeploy, [])))))]
     Inr sampleRequest (WithHost None) = Inr (WithTenantDeployment (WithHost None) sampleActive (sampleUnit ''u''))"
proof -
  have inv: "tenant_inv \<lparr>tm_tenants = [(''t'', sampleActive)]\<rparr>"
    by (auto simp: tenant_inv_def keyed_map_def sampleActive_def sampleTenant_def validateTenant_def)
  have tenant: "tn_ID sampleActive = ''t''" "tn_Status sampleActive = TenantStatusActive"
    by (simp_all add: sampleActive_def sampleTenant_def)
  have placed: "map_of (dm_assignments sampleDeploy) ''t'' = Some (sampleAssignment ''u'' 1)"
    "map_of (dm_units sampleDeploy) (as_UnitID (sampleAssignment ''u'' 1)) = Some (sampleUnit ''u'')"
    "du_ID (sampleUnit ''u'') = as_UnitID (sampleAssignment ''u'' 1)"
    "du_Status (sampleUnit ''u'') = DeploymentUnitStatusActive"
    by code_simp+
  have "\<exists>tid t a u. Composite_Resolve headerSource (Some sampleRequest) = Inr tid \<and> tid \<noteq> [] \<and> (None :: ctx) = None
      \<and> map_of (tm_tenants \<lparr>tm_tenants = [(''t'', sampleActive)]\<rparr>) tid = Some t \<and> tn_ID t = tid
      \<and> tn_Status t = TenantStatusActive \<and> map_of (dm_assignments sampleDeploy) tid = Some a
      \<and> map_of (dm_units sampleDeploy) (as_UnitID a) = Some u \<and> du_ID u = as_UnitID a
      \<and> du_Status u = DeploymentUnitStatusActive
      \<and> WithTenantDeployment (WithHost None) sampleActive (sampleUnit ''u'') = WithTenantDeployment (WithHost None) t u"
    using sample_resolves tenant placed
    by (intro exI [of _ "''t''"] exI [of _ sampleActive] exI [of _ "sampleAssignment ''u'' 1"] exI [of _ "sampleUnit ''u''"]) simp
  then show ?thesis
    using request_runs_as_its_tenant [OF inv sampleDeploy_reach quietDeploy_undisturbed sampleService_store refl,
      where c = None and contribs = headerSource and r = sampleRequest and cx = "WithHost None"
        and cx' = "WithTenantDeployment (WithHost None) sampleActive (sampleUnit ''u'')" and log = "[]", THEN conjunct1]
    by blast
qed

section \<open>A tenant crosses a call\<close>

text \<open>
  C26. The tenant of a context crosses a call: when its identifier is one that the strategy accepts
  as it is, what a client injects into a carrier, a map, NATS, RabbitMQ or Kafka headers or gRPC
  metadata, is extracted on the other side under the same key, whatever else the carrier held; and
  a gRPC server with the same key and strategy runs its handler as that tenant when its store has
  it active. Headers and metadata are assumed to return the one value that was stored last under a key.
\<close>

theorem tenant_crosses_calls:
  assumes "FromContext cx = Some tenant" "ParseTenantID raw strategy = Inr (tn_ID tenant)"
    and nats: "\<And>h k v. natsGet (natsSet h k v) k = v"
    and rabbit: "\<And>h k v. getString (setString h k v) k = Some v"
    and kafka: "\<And>h k v. getBytes (setBytes h k v) k = Some v"
    and metadata: "\<And>m k v. mdGet (mdSet m k [v]) k = [v]"
    and stored: "get (tn_ID tenant) = Inr tenant" "tn_Status tenant = TenantStatusActive"
  shows "(\<exists>c'. InjectTenant MapCarrier_Set cx (Some c) key = Inr c'
        \<and> ExtractTenant MapCarrier_Get (Some c') key strategy = Inr (tn_ID tenant))
    \<and> (\<exists>h'. InjectTenant (NATSCarrier_Set natsSet) cx (Some h1) key = Inr h'
        \<and> ExtractTenant (NATSCarrier_Get natsGet) (Some h') key strategy = Inr (tn_ID tenant))
    \<and> (\<exists>h'. InjectTenant (RabbitMQCarrier_Set setString) cx (Some h2) key = Inr h'
        \<and> ExtractTenant (RabbitMQCarrier_Get getString) (Some h') key strategy = Inr (tn_ID tenant))
    \<and> (\<exists>h'. InjectTenant (KafkaCarrier_Set setBytes) cx (Some h3) key = Inr h'
        \<and> ExtractTenant (KafkaCarrier_Get getBytes) (Some h') key strategy = Inr (tn_ID tenant))
    \<and> (\<exists>m'. InjectTenant (metadataCarrier_Set mdSet) cx (Some m) key = Inr m'
        \<and> TenantUnaryServerInterceptor mdGet get [Some (WithMetadataKey key), Some (WithTenantIDStrategy strategy)]
            handler (Some m') cx2 = handler (WithTenant cx2 tenant))"
proof -
  from tenant_carrier.crosses_canonical [OF metadata_carrier [of mdGet mdSet, OF metadata] assms(1,2), of m key]
  obtain m' where m: "InjectTenant (metadataCarrier_Set mdSet) cx (Some m) key = Inr m'"
    "ExtractTenant (metadataCarrier_Get mdGet) (Some m') key strategy = Inr (tn_ID tenant)" by blast
  have "TenantUnaryServerInterceptor mdGet get [Some (WithMetadataKey key), Some (WithTenantIDStrategy strategy)]
      handler (Some m') cx2 = handler (WithTenant cx2 tenant)"
    using m(2) stored by (simp add: TenantUnaryServerInterceptor_def tenantContext_def Grpc_newConfig_def
        WithMetadataKey_def WithTenantIDStrategy_def)
  with m(1) have "\<exists>m'. InjectTenant (metadataCarrier_Set mdSet) cx (Some m) key = Inr m'
        \<and> TenantUnaryServerInterceptor mdGet get [Some (WithMetadataKey key), Some (WithTenantIDStrategy strategy)]
            handler (Some m') cx2 = handler (WithTenant cx2 tenant)" by blast
  with by_map.crosses_canonical [OF assms(1,2), of c key]
    tenant_carrier.crosses_canonical [OF nats_carrier [of natsGet natsSet, OF nats] assms(1,2), of h1 key]
    tenant_carrier.crosses_canonical [OF rabbit_carrier [of getString setString, OF rabbit] assms(1,2), of h2 key]
    tenant_carrier.crosses_canonical [OF kafka_carrier [of getBytes setBytes, OF kafka] assms(1,2), of h3 key]
  show ?thesis by blast
qed

text \<open>Headers and metadata that return what was stored.\<close>

theorem tenant_crosses_calls_witness:
  "\<exists>m'. InjectTenant (metadataCarrier_Set (\<lambda>m k vs. m(k := vs))) (WithTenant None sampleActive) (Some (\<lambda>_. [])) ''tenant'' = Inr m'
     \<and> TenantUnaryServerInterceptor (\<lambda>m k. m k) (\<lambda>_. Inr sampleActive)
         [Some (WithMetadataKey ''tenant''), Some (WithTenantIDStrategy TenantIDStrategyString)] Inr (Some m') (WithHost None)
         = Inr (WithTenant (WithHost None) sampleActive)"
proof -
  have tenant: "FromContext (WithTenant None sampleActive) = Some sampleActive"
    "ParseTenantID ''t'' TenantIDStrategyString = Inr (tn_ID sampleActive)"
    "tn_Status sampleActive = TenantStatusActive"
    by (simp add: tenant_context, code_simp+)
  from tenant_crosses_calls [where natsGet = "\<lambda>h k. h k" and natsSet = "\<lambda>h k v. h(k := v)"
      and getString = "\<lambda>h k. h k" and setString = "\<lambda>h k v. h(k \<mapsto> v)"
      and getBytes = "\<lambda>h k. h k" and setBytes = "\<lambda>h k v. h(k \<mapsto> v)"
      and mdGet = "\<lambda>m k. m k" and mdSet = "\<lambda>m k vs. m(k := vs)" and get = "\<lambda>_. Inr sampleActive" and handler = Inr
      and key = "''tenant''" and m = "\<lambda>_. []" and c = "[]" and ?h1.0 = "\<lambda>_. []" and ?h2.0 = Map.empty and ?h3.0 = Map.empty
      and ?cx2.0 = "WithHost None", OF tenant(1,2) _ _ _ _ refl tenant(3), THEN conjunct2, THEN conjunct2, THEN conjunct2, THEN conjunct2]
  show ?thesis by simp
qed

end
