(* ===== verification/OIDC_Login.thy ===== *)
theory OIDC_Login
  imports Identity Scoped_Cache Resolver SQL_Scanner
begin

text \<open>
  The bridge to OpenID Connect (\<open>biz/identity/oidc\<close>): the client (\<open>client.go\<close>), the in-memory store
  of pending logins and the login flow over it (\<open>login_store.go\<close>). What the identity provider and
  the libraries for OAuth2 and ID tokens answer is a parameter, the record \<open>IdP\<close>: the exchange of
  a code, the verification of a token, its claims, the user information, and the URL of an
  authorization; so is the parsing of URLs and forms of \<open>net\<close>.
\<close>

datatype oidc_error =
  OidcCtx ctx_error | OidcProvider identity_error | OidcRemote string | ErrInvalidConfig | ErrInvalidCallback
| ErrStateMismatch | ErrNonceMismatch | ErrTokenMissing | ErrSubjectMismatch | ErrEmailMissing
| ErrProviderRejected string | ErrInsecureURL | ErrDuplicateParam | ErrLoginNotFound | ErrLoginExpired
| ErrLoginStoreFull

section \<open>Data\<close>

record AuthRequest =
  ar_URL :: string
  ar_State :: string
  ar_Nonce :: string
  ar_PKCEVerifier :: string

record LoginRequest =
  lr_TenantID :: TenantID
  lr_UserID :: string
  lr_Roles :: "string list"
  lr_ExpiresAt :: Time

text \<open>A login embeds the request it began with.\<close>

record Login = AuthRequest +
  lg_TenantID :: TenantID
  lg_UserID :: string
  lg_Roles :: "string list"
  lg_ExpiresAt :: Time

type_synonym urlValues = "(string, string list) gomap"

record Callback =
  cb_Values :: "urlValues option"
  cb_ExpectedState :: string
  cb_ExpectedNonce :: string
  cb_PKCEVerifier :: string
  cb_TenantID :: TenantID
  cb_UserID :: string
  cb_Roles :: "string list"

record claims =
  cm_Subject :: string
  cm_Email :: string
  cm_EmailVerified :: bool
  cm_Name :: string
  cm_PreferredName :: string
  cm_GivenName :: string
  cm_FamilyName :: string
  cm_HostedDomain :: string
  cm_OrganizationID :: string

text \<open>Values of the libraries, as far as the client reads them.\<close>

record Token =
  tk_AccessToken :: string
  tk_IDToken :: "string option"

record IDToken =
  it_Issuer :: string
  it_Subject :: string
  it_Nonce :: string
  it_AccessTokenHash :: string
  it_Claims :: "string + claims"

record UserInfo =
  ui_Subject :: string
  ui_Email :: string
  ui_EmailVerified :: bool
  ui_Claims :: "string + claims"

record Endpoint =
  ep_IssuerURL :: string
  ep_AuthURL :: string
  ep_TokenURL :: string
  ep_UserInfoURL :: string
  ep_JWKSURL :: string

record OAuthConfig =
  oa_ClientID :: string
  oa_ClientSecret :: string
  oa_RedirectURL :: string
  oa_Endpoint :: Endpoint
  oa_Scopes :: "string list"

datatype AuthCodeOption = CallerOption string | NonceOption string | S256ChallengeOption string

record ParsedURL =
  pu_Scheme :: string
  pu_Host :: string
  pu_Hostname :: string
  pu_Fragment :: string
  pu_RawQuery :: string

record IdP =
  dp_parseURL :: "string \<Rightarrow> ParsedURL option"
  dp_loopbackIP :: "string \<Rightarrow> bool"
  dp_discover :: "string \<Rightarrow> string + Endpoint"
  dp_authCodeURL :: "OAuthConfig \<Rightarrow> string \<Rightarrow> AuthCodeOption list \<Rightarrow> string"
  dp_exchange :: "OAuthConfig \<Rightarrow> string \<Rightarrow> string \<Rightarrow> string + Token"
  dp_verify :: "string \<Rightarrow> string + IDToken"
  dp_verifyAccess :: "IDToken \<Rightarrow> string \<Rightarrow> string option"
  dp_userInfo :: "Token \<Rightarrow> string + UserInfo"

record OIDCConfig =
  oc_Provider :: Provider
  oc_ClientID :: string
  oc_ClientSecret :: string
  oc_RedirectURL :: string
  oc_Scopes :: "string list"
  oc_FetchUserInfo :: bool

record Client =
  cl_provider :: Provider
  cl_oauth2 :: OAuthConfig
  cl_fetchUserInfo :: bool

record Result =
  rs_Assertion :: Assertion
  rs_Token :: Token
  rs_RawIDToken :: string

section \<open>The client\<close>

definition isLoopbackHost :: "IdP \<Rightarrow> string \<Rightarrow> bool" where
  "isLoopbackHost idp host \<longleftrightarrow> equalFold host ''localhost'' \<or> dp_loopbackIP idp host"

definition parseHTTPSOrLoopbackURL :: "IdP \<Rightarrow> string \<Rightarrow> oidc_error + ParsedURL" where
  "parseHTTPSOrLoopbackURL idp rawURL =
     (case dp_parseURL idp rawURL of
        None \<Rightarrow> Inl ErrInvalidConfig
      | Some parsed \<Rightarrow>
          if pu_Scheme parsed = [] \<or> pu_Host parsed = [] \<or> pu_Fragment parsed \<noteq> [] then Inl ErrInvalidConfig
          else if pu_Scheme parsed = ''https'' \<or> (pu_Scheme parsed = ''http'' \<and> isLoopbackHost idp (pu_Hostname parsed))
          then Inr parsed
          else if pu_Scheme parsed = ''http'' then Inl ErrInsecureURL
          else Inl ErrInvalidConfig)"

definition validateIssuerURL :: "IdP \<Rightarrow> string \<Rightarrow> oidc_error + unit" where
  "validateIssuerURL idp rawURL =
     bind_ok (parseHTTPSOrLoopbackURL idp rawURL) (\<lambda>parsed.
       if pu_RawQuery parsed \<noteq> [] then Inl ErrInvalidConfig else Inr ())"

definition validateProviderURL :: "IdP \<Rightarrow> string \<Rightarrow> oidc_error + unit" where
  "validateProviderURL idp rawURL = bind_ok (parseHTTPSOrLoopbackURL idp rawURL) (\<lambda>_. Inr ())"

definition validateRedirectURL :: "IdP \<Rightarrow> string \<Rightarrow> oidc_error + unit" where
  "validateRedirectURL idp rawURL = bind_ok (parseHTTPSOrLoopbackURL idp rawURL) (\<lambda>_. Inr ())"

fun validateProviderURLs :: "IdP \<Rightarrow> string list \<Rightarrow> oidc_error + unit" where
  "validateProviderURLs idp [] = Inr ()"
| "validateProviderURLs idp (rawURL # rest) =
     (if rawURL = [] then validateProviderURLs idp rest
      else bind_ok (validateProviderURL idp rawURL) (\<lambda>_. validateProviderURLs idp rest))"

definition validateURLs :: "IdP \<Rightarrow> Provider \<Rightarrow> string \<Rightarrow> oidc_error + unit" where
  "validateURLs idp provider redirectURL =
     bind_ok (validateIssuerURL idp (ip_Issuer provider)) (\<lambda>_.
     bind_ok (validateProviderURLs idp
       [ip_AuthorizationURL provider, ip_TokenURL provider, ip_UserInfoURL provider, ip_JWKSURL provider]) (\<lambda>_.
     validateRedirectURL idp redirectURL))"

definition newProvider :: "IdP \<Rightarrow> Provider \<Rightarrow> oidc_error + Endpoint" where
  "newProvider idp provider =
     (if ip_AuthorizationURL provider \<noteq> [] \<and> ip_TokenURL provider \<noteq> [] \<and> ip_JWKSURL provider \<noteq> []
      then Inr \<lparr>ep_IssuerURL = ip_Issuer provider, ep_AuthURL = ip_AuthorizationURL provider,
        ep_TokenURL = ip_TokenURL provider, ep_UserInfoURL = ip_UserInfoURL provider, ep_JWKSURL = ip_JWKSURL provider\<rparr>
      else map_sum OidcRemote id (dp_discover idp (ip_Issuer provider)))"

definition ScopeOpenID :: string where "ScopeOpenID = ''openid''"

definition ensureOpenIDScope :: "string list \<Rightarrow> string list" where
  "ensureOpenIDScope scopes = (if ScopeOpenID \<in> set scopes then scopes else ScopeOpenID # scopes)"

definition NewClient :: "IdP \<Rightarrow> OIDCConfig \<Rightarrow> oidc_error + Client" where
  "NewClient idp config =
     (let provider = oc_Provider config in
      bind_ok (map_sum OidcProvider id (Provider_Validate provider)) (\<lambda>_.
      if ip_Kind provider \<noteq> ProviderKindOIDC \<or> ip_Issuer provider = [] \<or> oc_ClientID config = []
         \<or> oc_RedirectURL config = [] then Inl ErrInvalidConfig
      else bind_ok (validateURLs idp provider (oc_RedirectURL config)) (\<lambda>_.
      bind_ok (newProvider idp provider) (\<lambda>endpoint.
      let scopes = (if length (oc_Scopes config) = 0 then ip_Scopes provider else oc_Scopes config) in
      Inr \<lparr>cl_provider = provider,
        cl_oauth2 = \<lparr>oa_ClientID = oc_ClientID config, oa_ClientSecret = oc_ClientSecret config,
          oa_RedirectURL = oc_RedirectURL config, oa_Endpoint = endpoint, oa_Scopes = ensureOpenIDScope scopes\<rparr>,
        cl_fetchUserInfo = oc_FetchUserInfo config\<rparr>))))"

text \<open>\<open>rand.Read\<close> of a size: the bytes, or an error.\<close>

definition randomURLValue :: "(nat \<Rightarrow> string + string) \<Rightarrow> nat \<Rightarrow> oidc_error + string" where
  "randomURLValue rand size1 =
     (if size1 = 0 then Inl ErrInvalidConfig
      else case rand size1 of Inl e \<Rightarrow> Inl (OidcRemote e) | Inr bytes \<Rightarrow> Inr (rawURLEncode bytes))"

definition AuthURL ::
  "IdP \<Rightarrow> Client option \<Rightarrow> string \<Rightarrow> string \<Rightarrow> string \<Rightarrow> AuthCodeOption list \<Rightarrow> oidc_error + string"
where
  "AuthURL idp client state nonce verifier opts =
     (case client of None \<Rightarrow> Inl ErrInvalidConfig | Some cl \<Rightarrow>
        if state = [] \<or> nonce = [] \<or> verifier = [] then Inl ErrInvalidConfig
        else Inr (dp_authCodeURL idp (cl_oauth2 cl) state (opts @ [NonceOption nonce, S256ChallengeOption verifier])))"

text \<open>The randomness of a login: the first read, the second, and the verifier the library makes.\<close>

record Randomness =
  rd_state :: "nat \<Rightarrow> string + string"
  rd_nonce :: "nat \<Rightarrow> string + string"
  rd_verifier :: string

definition Begin :: "IdP \<Rightarrow> Randomness \<Rightarrow> Client option \<Rightarrow> AuthCodeOption list \<Rightarrow> oidc_error + AuthRequest" where
  "Begin idp rand client opts =
     bind_ok (randomURLValue (rd_state rand) 32) (\<lambda>state.
     bind_ok (randomURLValue (rd_nonce rand) 32) (\<lambda>nonce.
     let verifier = rd_verifier rand in
     bind_ok (AuthURL idp client state nonce verifier opts) (\<lambda>authURL.
     Inr \<lparr>ar_URL = authURL, ar_State = state, ar_Nonce = nonce, ar_PKCEVerifier = verifier\<rparr>)))"

definition optionalCallbackValue :: "urlValues \<Rightarrow> string \<Rightarrow> oidc_error + string" where
  "optionalCallbackValue vs key =
     (case map_of vs key of
        None \<Rightarrow> Inr []
      | Some raw \<Rightarrow> if length raw \<noteq> 1 then Inl ErrDuplicateParam else Inr (raw ! 0))"

definition requiredCallbackValue :: "urlValues \<Rightarrow> string \<Rightarrow> oidc_error + string" where
  "requiredCallbackValue vs key =
     bind_ok (optionalCallbackValue vs key) (\<lambda>value1.
       if value1 = [] then Inl ErrInvalidCallback else Inr value1)"

definition constantTimeEqual :: "string \<Rightarrow> string \<Rightarrow> bool" where
  "constantTimeEqual expected actual \<longleftrightarrow>
     \<not> (expected = [] \<or> actual = [] \<or> length expected \<noteq> length actual) \<and> expected = actual"

text \<open>A request as \<open>net/http\<close> has parsed it: the form, or the error of parsing it, and the query.\<close>

record CallbackRequest =
  cr_Method :: string
  cr_ContentType :: string
  cr_Form :: "string + urlValues"
  cr_Query :: urlValues

definition isFormURLEncoded :: "(string \<Rightarrow> string) \<Rightarrow> string \<Rightarrow> bool" where
  "isFormURLEncoded unicodeLower contentType =
     (let c = ToLower unicodeLower (TrimSpace contentType) in
      c = ''application/x-www-form-urlencoded'' \<or> hasPrefix c ''application/x-www-form-urlencoded;'')"

definition callbackValuesFromRequest ::
  "(string \<Rightarrow> string) \<Rightarrow> CallbackRequest option \<Rightarrow> oidc_error + urlValues"
where
  "callbackValuesFromRequest unicodeLower request =
     (case request of None \<Rightarrow> Inl ErrInvalidCallback | Some r \<Rightarrow>
        if cr_Method r = ''POST'' \<and> isFormURLEncoded unicodeLower (cr_ContentType r)
        then map_sum OidcRemote id (cr_Form r)
        else Inr (cr_Query r))"

section \<open>Claims\<close>

definition mergeClaims :: "claims \<Rightarrow> claims \<Rightarrow> claims" where
  "mergeClaims primary fallback =
     (let p1 = (if cm_Email primary = []
                then primary\<lparr>cm_Email := cm_Email fallback, cm_EmailVerified := cm_EmailVerified fallback\<rparr>
                else if \<not> cm_EmailVerified primary
                     \<and> TrimSpace (cm_Email primary) = TrimSpace (cm_Email fallback)
                     \<and> TrimSpace (cm_Email fallback) \<noteq> []
                then primary\<lparr>cm_EmailVerified := cm_EmailVerified fallback\<rparr>
                else primary);
          p2 = (if cm_Name p1 = [] then p1\<lparr>cm_Name := cm_Name fallback\<rparr> else p1);
          p3 = (if cm_PreferredName p2 = [] then p2\<lparr>cm_PreferredName := cm_PreferredName fallback\<rparr> else p2);
          p4 = (if cm_GivenName p3 = [] then p3\<lparr>cm_GivenName := cm_GivenName fallback\<rparr> else p3);
          p5 = (if cm_FamilyName p4 = [] then p4\<lparr>cm_FamilyName := cm_FamilyName fallback\<rparr> else p4);
          p6 = (if cm_HostedDomain p5 = [] then p5\<lparr>cm_HostedDomain := cm_HostedDomain fallback\<rparr> else p5)
      in if cm_OrganizationID p6 = [] then p6\<lparr>cm_OrganizationID := cm_OrganizationID fallback\<rparr> else p6)"

definition zeroClaims :: claims where
  "zeroClaims = \<lparr>cm_Subject = [], cm_Email = [], cm_EmailVerified = False, cm_Name = [], cm_PreferredName = [],
     cm_GivenName = [], cm_FamilyName = [], cm_HostedDomain = [], cm_OrganizationID = []\<rparr>"

definition tokenClaims :: "IDToken \<Rightarrow> oidc_error + claims" where
  "tokenClaims idToken =
     (case it_Claims idToken of
        Inl e \<Rightarrow> Inl (OidcRemote e)
      | Inr vs \<Rightarrow> Inr (vs\<lparr>cm_Subject := it_Subject idToken\<rparr>))"

definition userInfoClaims :: "IdP \<Rightarrow> Token \<Rightarrow> oidc_error + claims" where
  "userInfoClaims idp token =
     (case dp_userInfo idp token of
        Inl e \<Rightarrow> Inl (OidcRemote e)
      | Inr info \<Rightarrow>
     (case ui_Claims info of
        Inl e \<Rightarrow> Inl (OidcRemote e)
      | Inr vs \<Rightarrow>
          (let vs1 = (if cm_Subject vs = [] then vs\<lparr>cm_Subject := ui_Subject info\<rparr> else vs) in
           Inr (mergeClaims vs1 (zeroClaims\<lparr>cm_Email := ui_Email info, cm_EmailVerified := ui_EmailVerified info\<rparr>)))))"

definition displayName :: "claims \<Rightarrow> string" where
  "displayName vs =
     (if cm_Name vs \<noteq> [] then TrimSpace (cm_Name vs)
      else if cm_PreferredName vs \<noteq> [] then TrimSpace (cm_PreferredName vs)
      else TrimSpace (cm_GivenName vs @ '' '' @ cm_FamilyName vs))"

section \<open>The callback\<close>

text \<open>The claims an assertion is made of: those of the ID token, completed by the user information.\<close>

definition assertedClaims :: "IdP \<Rightarrow> Client \<Rightarrow> Token \<Rightarrow> IDToken \<Rightarrow> oidc_error + claims" where
  "assertedClaims idp client token idToken =
     bind_ok (tokenClaims idToken) (\<lambda>idClaims.
     if cl_fetchUserInfo client \<or> cm_Email idClaims = []
     then bind_ok (userInfoClaims idp token) (\<lambda>info.
       if cm_Subject info \<noteq> [] \<and> cm_Subject info \<noteq> it_Subject idToken then Inl ErrSubjectMismatch
       else Inr (mergeClaims idClaims info))
     else Inr idClaims)"

definition assertionOf :: "Client \<Rightarrow> Callback \<Rightarrow> IDToken \<Rightarrow> claims \<Rightarrow> Assertion" where
  "assertionOf client callback idToken vs =
     (let metadata = [(''issuer'', it_Issuer idToken)];
          metadata1 = (if cm_HostedDomain vs \<noteq> [] then AList.update ''hosted_domain'' (cm_HostedDomain vs) metadata else metadata);
          metadata2 = (if cm_OrganizationID vs \<noteq> [] then AList.update ''organization_id'' (cm_OrganizationID vs) metadata1 else metadata1)
      in \<lparr>as_TenantID = cb_TenantID callback, as_Provider = ip_Key (cl_provider client), as_Subject = it_Subject idToken,
          as_UserID = TrimSpace (cb_UserID callback), as_Email = TrimSpace (cm_Email vs), as_Name = displayName vs,
          as_EmailVerified = cm_EmailVerified vs, as_Roles = cb_Roles callback, as_Metadata = Some metadata2\<rparr>)"

text \<open>What follows the exchange of the code.\<close>

definition finishCallback :: "IdP \<Rightarrow> Client \<Rightarrow> Callback \<Rightarrow> Token \<Rightarrow> oidc_error + Result" where
  "finishCallback idp client callback token =
     (case tk_IDToken token of None \<Rightarrow> Inl ErrTokenMissing | Some rawIDToken \<Rightarrow>
      if rawIDToken = [] then Inl ErrTokenMissing
      else case dp_verify idp rawIDToken of
        Inl e \<Rightarrow> Inl (OidcRemote e)
      | Inr idToken \<Rightarrow>
          if \<not> constantTimeEqual (cb_ExpectedNonce callback) (it_Nonce idToken) then Inl ErrNonceMismatch
          else if it_AccessTokenHash idToken \<noteq> [] \<and> tk_AccessToken token = [] then Inl ErrTokenMissing
          else case (if it_AccessTokenHash idToken \<noteq> [] then dp_verifyAccess idp idToken (tk_AccessToken token) else None) of
            Some e \<Rightarrow> Inl (OidcRemote e)
          | None \<Rightarrow>
              bind_ok (assertedClaims idp client token idToken) (\<lambda>vs.
                if cm_Email vs = [] then Inl ErrEmailMissing
                else Inr \<lparr>rs_Assertion = assertionOf client callback idToken vs, rs_Token = token,
                       rs_RawIDToken = rawIDToken\<rparr>))"

definition Client_Callback :: "IdP \<Rightarrow> Client option \<Rightarrow> Callback \<Rightarrow> oidc_error + Result" where
  "Client_Callback idp client callback =
     (case (client, cb_Values callback) of
        (Some cl, Some vs) \<Rightarrow>
          if cb_ExpectedState callback = [] \<or> cb_ExpectedNonce callback = [] \<or> cb_PKCEVerifier callback = []
             \<or> cb_TenantID callback = [] then Inl ErrInvalidCallback
          else
            bind_ok (optionalCallbackValue vs ''error'') (\<lambda>providerError.
            if providerError \<noteq> [] then Inl (ErrProviderRejected providerError)
            else
            bind_ok (requiredCallbackValue vs ''state'') (\<lambda>state.
            if \<not> constantTimeEqual (cb_ExpectedState callback) state then Inl ErrStateMismatch
            else
            bind_ok (requiredCallbackValue vs ''code'') (\<lambda>code.
            case dp_exchange idp (cl_oauth2 cl) code (cb_PKCEVerifier callback) of
              Inl e \<Rightarrow> Inl (OidcRemote e)
            | Inr token \<Rightarrow> finishCallback idp cl callback token)))
      | _ \<Rightarrow> Inl ErrInvalidCallback)"

definition HandleCallback ::
  "IdP \<Rightarrow> (string \<Rightarrow> string) \<Rightarrow> Client option \<Rightarrow> CallbackRequest option \<Rightarrow> AuthRequest \<Rightarrow> TenantID \<Rightarrow> string list
     \<Rightarrow> oidc_error + Result"
where
  "HandleCallback idp unicodeLower client request expected tid roles =
     bind_ok (callbackValuesFromRequest unicodeLower request) (\<lambda>vs.
       Client_Callback idp client
         \<lparr>cb_Values = Some vs, cb_ExpectedState = ar_State expected, cb_ExpectedNonce = ar_Nonce expected,
          cb_PKCEVerifier = ar_PKCEVerifier expected, cb_TenantID = tid, cb_UserID = [], cb_Roles = roles\<rparr>)"

end
