(* ===== verification/OIDC_Pending.thy ===== *)
theory OIDC_Pending
  imports OIDC_Login Tenant_Cache
begin

text \<open>
  The pending logins of the OpenID Connect bridge (\<open>login_store.go\<close>): the in-memory store and the
  flow that begins a login and consumes it once when its callback arrives. The receiver of a method
  of the store is not nil, and the clock is asked once per operation.
\<close>

section \<open>The store\<close>

record LoginMemory =
  ls_logins :: "(string, Login) gomap"
  ls_ttl :: Duration
  ls_maxPending :: int64
  ls_lastCleanup :: Time

definition Minute :: Duration where "Minute = 60000000000"

definition DefaultLoginTTL :: Duration where "DefaultLoginTTL = 10 * Minute"

definition DefaultMaxPendingLogins :: int64 where "DefaultMaxPendingLogins = 10000"

type_synonym LoginStoreOption = "LoginMemory \<Rightarrow> LoginMemory"

definition WithMaxPendingLogins :: "int64 \<Rightarrow> LoginStoreOption" where
  "WithMaxPendingLogins maxPending store = store\<lparr>ls_maxPending := maxPending\<rparr>"

definition NewLoginMemory :: "Duration \<Rightarrow> LoginStoreOption option list \<Rightarrow> LoginMemory" where
  "NewLoginMemory ttl opts =
     (let store = fold (\<lambda>opt st. case opt of None \<Rightarrow> st | Some f \<Rightarrow> f st) opts
        \<lparr>ls_logins = [], ls_ttl = (if ttl \<le> 0 then DefaultLoginTTL else ttl),
         ls_maxPending = DefaultMaxPendingLogins, ls_lastCleanup = 0\<rparr>
      in if ls_maxPending store \<le> 0 then store\<lparr>ls_maxPending := DefaultMaxPendingLogins\<rparr> else store)"

definition effectiveTTL :: "LoginMemory \<Rightarrow> Duration" where
  "effectiveTTL store = (if ls_ttl store \<le> 0 then DefaultLoginTTL else ls_ttl store)"

definition effectiveMaxPending :: "LoginMemory \<Rightarrow> int64" where
  "effectiveMaxPending store = (if ls_maxPending store \<le> 0 then DefaultMaxPendingLogins else ls_maxPending store)"

definition cleanupExpiredLocked :: "Time \<Rightarrow> bool \<Rightarrow> LoginMemory \<Rightarrow> LoginMemory" where
  "cleanupExpiredLocked now force store =
     (if \<not> force \<and> \<not> IsZero (ls_lastCleanup store) \<and> now - ls_lastCleanup store < Minute then store
      else store\<lparr>ls_logins := filter (\<lambda>(state, login). now < lg_ExpiresAt login) (ls_logins store),
             ls_lastCleanup := now\<rparr>)"

definition oidcCtx :: "ctx \<Rightarrow> oidc_error + unit" where
  "oidcCtx cx = (case cx of None \<Rightarrow> Inr () | Some e \<Rightarrow> Inl (OidcCtx e))"

definition SaveLogin :: "ctx \<Rightarrow> Time \<Rightarrow> Login \<Rightarrow> LoginMemory \<Rightarrow> (oidc_error + unit) \<times> LoginMemory" where
  "SaveLogin cx now login store =
     on_ok (oidcCtx cx) store (\<lambda>_.
       if ar_State login = [] \<or> ar_Nonce login = [] \<or> ar_PKCEVerifier login = [] \<or> lg_TenantID login = []
       then fails ErrInvalidConfig store
       else
         (let login1 = (if IsZero (lg_ExpiresAt login)
                        then login\<lparr>lg_ExpiresAt := now + effectiveTTL store\<rparr> else login) in
          if \<not> now < lg_ExpiresAt login1 then fails ErrLoginExpired store
          else
            (let login2 = login1\<lparr>lg_UserID := TrimSpace (lg_UserID login1)\<rparr>;
                 store1 = cleanupExpiredLocked now False store in
             if map_of (ls_logins store1) (ar_State login2) \<noteq> None then fails ErrDuplicateParam store1
             else
               (let store2 = (if effectiveMaxPending store1 \<le> int (length (ls_logins store1))
                              then cleanupExpiredLocked now True store1 else store1) in
                if effectiveMaxPending store2 \<le> int (length (ls_logins store2)) then fails ErrLoginStoreFull store2
                else (Inr (), store2\<lparr>ls_logins := AList.update (ar_State login2) login2 (ls_logins store2)\<rparr>)))))"

definition ConsumeLogin :: "ctx \<Rightarrow> Time \<Rightarrow> string \<Rightarrow> LoginMemory \<Rightarrow> (oidc_error + Login) \<times> LoginMemory" where
  "ConsumeLogin cx now state store =
     on_ok (oidcCtx cx) store (\<lambda>_.
       if state = [] then fails ErrInvalidCallback store
       else case map_of (ls_logins store) state of
         None \<Rightarrow> fails ErrLoginNotFound store
       | Some login \<Rightarrow>
           (let store1 = store\<lparr>ls_logins := AList.delete state (ls_logins store)\<rparr> in
            if \<not> now < lg_ExpiresAt login then fails ErrLoginExpired store1 else (Inr login, store1)))"

section \<open>The flow\<close>

text \<open>
  The flow over any store; \<open>None\<close> is a nil one. The functions of the record are its operations at the
  moments they are called.
\<close>

record 's loginStore =
  st_SaveLogin :: "Login \<Rightarrow> 's \<Rightarrow> (oidc_error + unit) \<times> 's"
  st_ConsumeLogin :: "string \<Rightarrow> 's \<Rightarrow> (oidc_error + Login) \<times> 's"

definition BeginLogin ::
  "IdP \<Rightarrow> Randomness \<Rightarrow> Client option \<Rightarrow> 's loginStore option \<Rightarrow> LoginRequest \<Rightarrow> AuthCodeOption list \<Rightarrow> 's
     \<Rightarrow> (oidc_error + AuthRequest) \<times> 's"
where
  "BeginLogin idp rand client store request opts s =
     (case store of None \<Rightarrow> fails ErrInvalidConfig s | Some ops \<Rightarrow>
        if lr_TenantID request = [] then fails ErrInvalidConfig s
        else on_ok (Begin idp rand client opts) s (\<lambda>authRequest.
          on_done (st_SaveLogin ops
              \<lparr>ar_URL = ar_URL authRequest, ar_State = ar_State authRequest, ar_Nonce = ar_Nonce authRequest,
               ar_PKCEVerifier = ar_PKCEVerifier authRequest, lg_TenantID = lr_TenantID request,
               lg_UserID = lr_UserID request, lg_Roles = lr_Roles request, lg_ExpiresAt = lr_ExpiresAt request\<rparr> s)
            (\<lambda>_ s1. (Inr authRequest, s1))))"

definition callbackOf :: "urlValues \<Rightarrow> Login \<Rightarrow> Callback" where
  "callbackOf vs login =
     \<lparr>cb_Values = Some vs, cb_ExpectedState = ar_State login, cb_ExpectedNonce = ar_Nonce login,
      cb_PKCEVerifier = ar_PKCEVerifier login, cb_TenantID = lg_TenantID login, cb_UserID = lg_UserID login,
      cb_Roles = lg_Roles login\<rparr>"

definition HandleLoginCallback ::
  "IdP \<Rightarrow> (string \<Rightarrow> string) \<Rightarrow> Client option \<Rightarrow> CallbackRequest option \<Rightarrow> 's loginStore option \<Rightarrow> 's
     \<Rightarrow> (oidc_error + Result) \<times> 's"
where
  "HandleLoginCallback idp unicodeLower client request store s =
     (if request = None then fails ErrInvalidCallback s
      else case store of None \<Rightarrow> fails ErrInvalidCallback s | Some ops \<Rightarrow>
        on_ok (callbackValuesFromRequest unicodeLower request) s (\<lambda>vs.
        on_ok (requiredCallbackValue vs ''state'') s (\<lambda>state.
        on_ok (optionalCallbackValue vs ''error'') s (\<lambda>providerError.
        on_ok (if providerError = [] then map_sum id (\<lambda>_. ()) (requiredCallbackValue vs ''code'') else Inr ()) s (\<lambda>_.
        on_done (st_ConsumeLogin ops state s) (\<lambda>login s1.
          (Client_Callback idp client (callbackOf vs login), s1)))))))"

text \<open>The in-memory store as one, with the answers of the context and the clock at each call.\<close>

definition memoryLogins :: "ctx \<Rightarrow> Time \<Rightarrow> LoginMemory loginStore" where
  "memoryLogins cx now = \<lparr>st_SaveLogin = SaveLogin cx now, st_ConsumeLogin = ConsumeLogin cx now\<rparr>"

section \<open>A login is used once\<close>

datatype loginOp = DoSave ctx Time Login | DoConsume ctx Time string

fun loginExec :: "loginOp \<Rightarrow> LoginMemory \<Rightarrow> (oidc_error + Login option) \<times> LoginMemory" where
  "loginExec (DoSave cx now login) st = map_prod (map_sum id (\<lambda>_. None)) id (SaveLogin cx now login st)"
| "loginExec (DoConsume cx now state) st = map_prod (map_sum id Some) id (ConsumeLogin cx now state st)"

text \<open>A run, as the operations with their answers, and the state it ends in.\<close>

fun loginRun :: "loginOp list \<Rightarrow> LoginMemory \<Rightarrow> (loginOp \<times> (oidc_error + Login option)) list \<times> LoginMemory" where
  "loginRun [] st = ([], st)"
| "loginRun (op # ops) st =
     (case loginExec op st of (answer, st1) \<Rightarrow>
        (case loginRun ops st1 of (log, st2) \<Rightarrow> ((op, answer) # log, st2)))"

definition savedAs :: "string \<Rightarrow> loginOp \<times> (oidc_error + Login option) \<Rightarrow> bool" where
  "savedAs state entry \<longleftrightarrow> (\<exists>cx now login. entry = (DoSave cx now login, Inr None) \<and> ar_State login = state)"

definition consumedAs :: "string \<Rightarrow> loginOp \<times> (oidc_error + Login option) \<Rightarrow> bool" where
  "consumedAs state entry \<longleftrightarrow> (\<exists>cx now login. entry = (DoConsume cx now state, Inr (Some login)))"

definition logins_inv :: "LoginMemory \<Rightarrow> bool" where
  "logins_inv st \<longleftrightarrow> keyed_map ar_State (ls_logins st) \<and> 0 < ls_maxPending st \<and> 0 < ls_ttl st
     \<and> int (length (ls_logins st)) \<le> ls_maxPending st
     \<and> (\<forall>state login. map_of (ls_logins st) state = Some login \<longrightarrow>
          ar_State login \<noteq> [] \<and> ar_Nonce login \<noteq> [] \<and> ar_PKCEVerifier login \<noteq> [] \<and> lg_TenantID login \<noteq> [])"

text \<open>A login as it is kept: with its expiry, and the user without spaces around.\<close>

definition asSaved :: "Duration \<Rightarrow> Time \<Rightarrow> Login \<Rightarrow> Login" where
  "asSaved ttl now login =
     (let login1 = (if IsZero (lg_ExpiresAt login) then login\<lparr>lg_ExpiresAt := now + ttl\<rparr> else login)
      in login1\<lparr>lg_UserID := TrimSpace (lg_UserID login1)\<rparr>)"

lemma asSaved_simps [simp]:
  "ar_State (asSaved ttl now login) = ar_State login" "ar_Nonce (asSaved ttl now login) = ar_Nonce login"
  "ar_PKCEVerifier (asSaved ttl now login) = ar_PKCEVerifier login"
  "lg_TenantID (asSaved ttl now login) = lg_TenantID login" "lg_Roles (asSaved ttl now login) = lg_Roles login"
  "lg_UserID (asSaved ttl now login) = TrimSpace (lg_UserID login)"
  by (simp_all add: asSaved_def Let_def)

lemma oidcCtx_simps [simp]: "oidcCtx None = Inr ()" "oidcCtx (Some e) = Inl (OidcCtx e)"
  by (simp_all add: oidcCtx_def)

definition live :: "Time \<Rightarrow> LoginMemory \<Rightarrow> (string, Login) gomap" where
  "live now st = filter (\<lambda>(state, login). now < lg_ExpiresAt login) (ls_logins st)"

lemma cleanup_simps [simp]:
  "ls_ttl (cleanupExpiredLocked now force st) = ls_ttl st"
  "ls_maxPending (cleanupExpiredLocked now force st) = ls_maxPending st"
  "effectiveMaxPending (cleanupExpiredLocked now force st) = effectiveMaxPending st"
  by (simp_all add: cleanupExpiredLocked_def effectiveMaxPending_def)

lemma cleanup_logins:
  "ls_logins (cleanupExpiredLocked now force st) = ls_logins st \<and> \<not> force
     \<or> ls_logins (cleanupExpiredLocked now force st) = live now st"
  by (auto simp: cleanupExpiredLocked_def live_def)

lemma live_length: "length (live now st) \<le> length (ls_logins st)"
  by (simp add: live_def)

lemma live_again: "ls_logins st' = live now st \<Longrightarrow> live now st' = live now st"
  by (simp add: live_def)

text \<open>A save either leaves the store, perhaps without expired logins, or adds one login to it.\<close>

definition cleaned :: "Time \<Rightarrow> LoginMemory \<Rightarrow> LoginMemory \<Rightarrow> bool" where
  "cleaned now st st2 \<longleftrightarrow> (ls_logins st2 = ls_logins st \<or> ls_logins st2 = live now st)
     \<and> ls_ttl st2 = ls_ttl st \<and> ls_maxPending st2 = ls_maxPending st"

lemma cleaned_refl [simp]: "cleaned now st st"
  by (simp add: cleaned_def)

lemma cleaned_once: "cleaned now st (cleanupExpiredLocked now force st)"
  using cleanup_logins [of now force st] by (auto simp: cleaned_def)

lemma cleaned_twice: "cleaned now st st2 \<Longrightarrow> cleaned now st (cleanupExpiredLocked now True st2)
    \<and> ls_logins (cleanupExpiredLocked now True st2) = live now st"
  using cleanup_logins [of now True st2] by (auto simp: cleaned_def live_def)

lemma save_cases:
  assumes "SaveLogin cx now login st = (r, st')"
  shows "(\<exists>e. r = Inl e \<and> cleaned now st st'
        \<and> (e = ErrLoginStoreFull \<longrightarrow> effectiveMaxPending st \<le> int (length (live now st))))
    \<or> (\<exists>st2. r = Inr () \<and> cleaned now st st2
        \<and> ar_State login \<noteq> [] \<and> ar_Nonce login \<noteq> [] \<and> ar_PKCEVerifier login \<noteq> [] \<and> lg_TenantID login \<noteq> []
        \<and> int (length (ls_logins st2)) < effectiveMaxPending st \<and> map_of (ls_logins st2) (ar_State login) = None
        \<and> st' = st2\<lparr>ls_logins := AList.update (ar_State login) (asSaved (effectiveTTL st) now login) (ls_logins st2)\<rparr>)"
proof -
  let ?login1 = "if IsZero (lg_ExpiresAt login) then login\<lparr>lg_ExpiresAt := now + effectiveTTL st\<rparr> else login"
  let ?ok = "cx = None \<and> \<not> (ar_State login = [] \<or> ar_Nonce login = [] \<or> ar_PKCEVerifier login = [] \<or> lg_TenantID login = [])
     \<and> now < lg_ExpiresAt ?login1"
  let ?s1 = "cleanupExpiredLocked now False st"
  let ?s = "if effectiveMaxPending ?s1 \<le> int (length (ls_logins ?s1)) then cleanupExpiredLocked now True ?s1 else ?s1"
  have one: "cleaned now st ?s1" by (rule cleaned_once)
  have two: "cleaned now st ?s" using one cleaned_twice [OF one] by simp
  have full: "ls_logins ?s = live now st" if "effectiveMaxPending st \<le> int (length (ls_logins ?s))"
    using that cleaned_twice [OF one] by (simp split: if_splits)
  have state: "ar_State ?login1 = ar_State login" by simp
  consider "\<not> ?ok" | "?ok" "map_of (ls_logins ?s1) (ar_State login) \<noteq> None"
    | "?ok" "map_of (ls_logins ?s1) (ar_State login) = None" by blast
  then show ?thesis
  proof cases
    case 1
    then have "\<exists>e. r = Inl e \<and> e \<noteq> ErrLoginStoreFull \<and> st' = st"
      using assms by (cases cx) (auto simp: SaveLogin_def Let_def split: if_splits)
    then show ?thesis by auto
  next
    case 2
    then have "r = Inl ErrDuplicateParam \<and> st' = ?s1"
      using assms by (auto simp: SaveLogin_def Let_def split: if_splits)
    with one show ?thesis by simp
  next
    case 3
    have run: "(r, st') = (if effectiveMaxPending st \<le> int (length (ls_logins ?s)) then (Inl ErrLoginStoreFull, ?s)
        else (Inr (), ?s\<lparr>ls_logins := AList.update (ar_State login) (asSaved (effectiveTTL st) now login) (ls_logins ?s)\<rparr>))"
      using assms 3 by (auto simp: SaveLogin_def Let_def asSaved_def split: if_splits)
    have absent: "map_of (ls_logins ?s) (ar_State login) = None"
      using 3(2) cleanup_logins [of now True ?s1]
      by (auto simp: live_def map_of_eq_None_iff split: if_splits)
    show ?thesis
    proof (cases "effectiveMaxPending st \<le> int (length (ls_logins ?s))")
      case True
      then have "r = Inl ErrLoginStoreFull" "st' = ?s" using run by simp_all
      with two full [OF True] True show ?thesis by (intro disjI1 exI [of _ ErrLoginStoreFull]) simp
    next
      case False
      then have "r = Inr ()" "st' = ?s\<lparr>ls_logins := AList.update (ar_State login) (asSaved (effectiveTTL st) now login) (ls_logins ?s)\<rparr>"
        using run by simp_all
      with two absent False 3(1) show ?thesis by (intro disjI2 exI [of _ ?s]) simp
    qed
  qed
qed

lemma cleaned_lookup: "cleaned now st st2 \<Longrightarrow> wf_map (ls_logins st)
    \<Longrightarrow> map_of (ls_logins st2) state = Some login \<Longrightarrow> map_of (ls_logins st) state = Some login"
  by (auto simp: cleaned_def live_def map_of_filter_Some)

lemma cleaned_inv: "cleaned now st st2 \<Longrightarrow> logins_inv st \<Longrightarrow> logins_inv st2"
proof -
  assume c: "cleaned now st st2" and inv: "logins_inv st"
  have "keyed_map ar_State (ls_logins st2)"
    using c inv by (auto simp: cleaned_def live_def logins_inv_def keyed_map_filter)
  moreover have "length (ls_logins st2) \<le> length (ls_logins st)"
    using c live_length [of now st] by (auto simp: cleaned_def)
  moreover have "\<forall>state login. map_of (ls_logins st2) state = Some login \<longrightarrow>
      ar_State login \<noteq> [] \<and> ar_Nonce login \<noteq> [] \<and> ar_PKCEVerifier login \<noteq> [] \<and> lg_TenantID login \<noteq> []"
    using inv cleaned_lookup [OF c] keyed_map_wf unfolding logins_inv_def by blast
  moreover have "ls_maxPending st2 = ls_maxPending st" "ls_ttl st2 = ls_ttl st" using c by (simp_all add: cleaned_def)
  ultimately show ?thesis using inv unfolding logins_inv_def by simp
qed

lemma inv_max: "logins_inv st \<Longrightarrow> effectiveMaxPending st = ls_maxPending st"
  by (simp add: logins_inv_def effectiveMaxPending_def)

lemma inv_ttl: "logins_inv st \<Longrightarrow> effectiveTTL st = ls_ttl st"
  by (simp add: logins_inv_def effectiveTTL_def)

lemma save_inv:
  assumes "logins_inv st" "SaveLogin cx now login st = (r, st')"
  shows "logins_inv st' \<and> ls_ttl st' = ls_ttl st \<and> ls_maxPending st' = ls_maxPending st"
  using save_cases [OF assms(2)]
proof (elim disjE exE conjE)
  fix e assume "cleaned now st st'"
  then show ?thesis using cleaned_inv assms(1) by (simp add: cleaned_def)
next
  fix st2
  assume c: "cleaned now st st2" and m: "int (length (ls_logins st2)) < effectiveMaxPending st"
    and fresh: "map_of (ls_logins st2) (ar_State login) = None"
    and st': "st' = st2\<lparr>ls_logins := AList.update (ar_State login) (asSaved (effectiveTTL st) now login) (ls_logins st2)\<rparr>"
    and ok: "ar_State login \<noteq> []" "ar_Nonce login \<noteq> []" "ar_PKCEVerifier login \<noteq> []" "lg_TenantID login \<noteq> []"
  have inv2: "logins_inv st2" using cleaned_inv [OF c assms(1)] .
  have "ls_maxPending st2 = ls_maxPending st" "ls_ttl st2 = ls_ttl st" using c by (simp_all add: cleaned_def)
  then show ?thesis
    using inv2 m fresh ok inv_max [OF assms(1)]
    by (auto simp: st' logins_inv_def keyed_map_update keyed_map_wf length_update)
qed

lemma consume_cases:
  assumes "ConsumeLogin cx now state st = (r, st')"
  shows "(\<exists>e. r = Inl e \<and> (st' = st \<or> st' = st\<lparr>ls_logins := AList.delete state (ls_logins st)\<rparr>))
    \<or> (\<exists>login. r = Inr login \<and> cx = None \<and> state \<noteq> [] \<and> map_of (ls_logins st) state = Some login
         \<and> now < lg_ExpiresAt login \<and> st' = st\<lparr>ls_logins := AList.delete state (ls_logins st)\<rparr>)"
  using assms by (cases cx) (auto simp: ConsumeLogin_def Let_def split: if_splits option.splits)

lemma delete_inv: "logins_inv st \<Longrightarrow> logins_inv (st\<lparr>ls_logins := AList.delete state (ls_logins st)\<rparr>)"
proof -
  assume inv: "logins_inv st"
  have "length (AList.delete state (ls_logins st)) \<le> length (ls_logins st)" by (rule length_delete_le)
  then show ?thesis using inv by (auto simp: logins_inv_def keyed_map_delete delete_conv')
qed

lemma exec_inv:
  assumes "logins_inv st" "loginExec op st = (answer, st')"
  shows "logins_inv st' \<and> ls_ttl st' = ls_ttl st \<and> ls_maxPending st' = ls_maxPending st"
proof (cases op)
  case (DoSave cx now login)
  then show ?thesis using assms save_inv [OF assms(1)] by (cases "SaveLogin cx now login st") auto
next
  case (DoConsume cx now state)
  then obtain r where "ConsumeLogin cx now state st = (r, st')"
    using assms(2) by (cases "ConsumeLogin cx now state st") auto
  from consume_cases [OF this] show ?thesis using assms(1) delete_inv [OF assms(1), of state] by auto
qed

text \<open>What a pending login goes back to: a save, with no use of its state since.\<close>

definition backedBy :: "Duration \<Rightarrow> (loginOp \<times> (oidc_error + Login option)) list \<Rightarrow> string \<Rightarrow> Login \<Rightarrow> bool" where
  "backedBy ttl log state login \<longleftrightarrow>
     (\<exists>before cx0 now0 login0 between. log = before @ (DoSave cx0 now0 login0, Inr None) # between
        \<and> ar_State login0 = state \<and> asSaved ttl now0 login0 = login \<and> (\<forall>e\<in>set between. \<not> consumedAs state e))"

lemma backedBy_now: "backedBy ttl (log @ [(DoSave cx now login, Inr None)]) (ar_State login) (asSaved ttl now login)"
  unfolding backedBy_def by (intro exI [of _ log] exI [of _ cx] exI [of _ now] exI [of _ login] exI [of _ "[]"]) simp

lemma backedBy_extend: "backedBy ttl log state login \<Longrightarrow> \<not> consumedAs state e \<Longrightarrow> backedBy ttl (log @ [e]) state login"
proof -
  assume "backedBy ttl log state login" and e: "\<not> consumedAs state e"
  then obtain before cx0 now0 login0 between where
    "log = before @ (DoSave cx0 now0 login0, Inr None) # between" "ar_State login0 = state"
    "asSaved ttl now0 login0 = login" "\<forall>e\<in>set between. \<not> consumedAs state e"
    unfolding backedBy_def by blast
  with e show ?thesis unfolding backedBy_def
    by (intro exI [of _ before] exI [of _ cx0] exI [of _ now0] exI [of _ login0] exI [of _ "between @ [e]"]) auto
qed

definition allBacked :: "(loginOp \<times> (oidc_error + Login option)) list \<Rightarrow> LoginMemory \<Rightarrow> bool" where
  "allBacked log st \<longleftrightarrow>
     (\<forall>state login. map_of (ls_logins st) state = Some login \<longrightarrow> backedBy (ls_ttl st) log state login)"

lemma save_backed:
  assumes "logins_inv st" "allBacked log st" "loginExec (DoSave cx now login) st = (answer, st')"
  shows "allBacked (log @ [(DoSave cx now login, answer)]) st'"
proof -
  obtain r where r: "SaveLogin cx now login st = (r, st')" "answer = map_sum id (\<lambda>_. None) r"
    using assms(3) by (cases "SaveLogin cx now login st") auto
  have wf: "wf_map (ls_logins st)" using assms(1) keyed_map_wf unfolding logins_inv_def by blast
  have no: "\<not> consumedAs state (DoSave cx now login, answer)" for state by (simp add: consumedAs_def)
  have old: "backedBy (ls_ttl st) (log @ [(DoSave cx now login, answer)]) state l"
    if "cleaned now st st2" "map_of (ls_logins st2) state = Some l" for st2 state l
    using backedBy_extend [OF _ no] assms(2) cleaned_lookup [OF that(1) wf that(2)] unfolding allBacked_def by blast
  have ttl: "ls_ttl st' = ls_ttl st" using save_inv [OF assms(1) r(1)] by blast
  from save_cases [OF r(1)] show ?thesis
  proof (elim disjE exE conjE)
    fix e assume "cleaned now st st'"
    then show ?thesis using old unfolding allBacked_def ttl by blast
  next
    fix st2
    assume "r = Inr ()" and c: "cleaned now st st2"
      and st': "st' = st2\<lparr>ls_logins := AList.update (ar_State login) (asSaved (effectiveTTL st) now login) (ls_logins st2)\<rparr>"
    then have "backedBy (ls_ttl st) (log @ [(DoSave cx now login, answer)]) (ar_State login) (asSaved (effectiveTTL st) now login)"
      using backedBy_now r(2) inv_ttl [OF assms(1)] by simp
    then show ?thesis using old [OF c] unfolding allBacked_def ttl by (auto simp: st')
  qed
qed

lemma consume_backed:
  assumes "allBacked log st" "loginExec (DoConsume cx now state) st = (answer, st')"
  shows "allBacked (log @ [(DoConsume cx now state, answer)]) st'"
proof -
  obtain r where r: "ConsumeLogin cx now state st = (r, st')" "answer = map_sum id Some r"
    using assms(2) by (cases "ConsumeLogin cx now state st") auto
  have other: "\<not> consumedAs state' (DoConsume cx now state, answer)" if "state' \<noteq> state" for state'
    using that by (simp add: consumedAs_def)
  have failed: "\<not> consumedAs state' (DoConsume cx now state, Inl e)" for state' e by (simp add: consumedAs_def)
  show ?thesis
  proof (cases "st' = st")
    case True
    moreover have "\<exists>e. r = Inl e" if "map_of (ls_logins st) state \<noteq> None"
      using consume_cases [OF r(1)] that True by (auto simp: delete_conv' dest!: arg_cong [where f = "\<lambda>s. map_of (ls_logins s) state"])
    ultimately show ?thesis using assms(1) backedBy_extend other failed r(2) unfolding allBacked_def
      by (metis map_sum.simps(1) option.distinct(1))
  next
    case False
    then have st': "st' = st\<lparr>ls_logins := AList.delete state (ls_logins st)\<rparr>" using consume_cases [OF r(1)] by blast
    show ?thesis unfolding allBacked_def
    proof (intro allI impI)
      fix state' l assume "map_of (ls_logins st') state' = Some l"
      then have "state' \<noteq> state" "map_of (ls_logins st) state' = Some l" by (auto simp: st' delete_conv' split: if_splits)
      then show "backedBy (ls_ttl st') (log @ [(DoConsume cx now state, answer)]) state' l"
        using assms(1) backedBy_extend [OF _ other] by (simp add: st' allBacked_def)
    qed
  qed
qed

lemma exec_backed:
  "logins_inv st \<Longrightarrow> allBacked log st \<Longrightarrow> loginExec op st = (answer, st') \<Longrightarrow> allBacked (log @ [(op, answer)]) st'"
  using save_backed consume_backed by (cases op) blast+

lemma run_backed:
  "loginRun ops st = (log, st') \<Longrightarrow> logins_inv st \<Longrightarrow> allBacked pre st
     \<Longrightarrow> logins_inv st' \<and> ls_ttl st' = ls_ttl st \<and> ls_maxPending st' = ls_maxPending st \<and> allBacked (pre @ log) st'"
proof (induction ops arbitrary: st log pre)
  case (Cons op ops)
  obtain answer st1 where one: "loginExec op st = (answer, st1)" by fastforce
  obtain log1 where two: "loginRun ops st1 = (log1, st')" "log = (op, answer) # log1"
    using Cons.prems(1) one by (auto split: prod.splits)
  have "logins_inv st1 \<and> ls_ttl st1 = ls_ttl st \<and> ls_maxPending st1 = ls_maxPending st"
    using exec_inv [OF Cons.prems(2) one] .
  with Cons.IH [OF two(1), of "pre @ [(op, answer)]"] exec_backed [OF Cons.prems(2,3) one] two(2)
  show ?case by simp
qed simp

lemma run_upto:
  "loginRun ops st = (pre @ (op, answer) # post, st') \<Longrightarrow>
     \<exists>ops1 st1 st2. loginRun ops1 st = (pre, st1) \<and> loginExec op st1 = (answer, st2)"
proof (induction pre arbitrary: ops st)
  case Nil
  then show ?case by (cases ops) (auto split: prod.splits intro: exI [of _ "[]"])
next
  case (Cons e pre)
  then obtain op1 ops1 where ops: "ops = op1 # ops1" by (cases ops) auto
  obtain a1 s1 where one: "loginExec op1 st = (a1, s1)" by fastforce
  have "loginRun ops1 s1 = (pre @ (op, answer) # post, st')" "e = (op1, a1)"
    using Cons.prems one by (auto simp: ops split: prod.splits)
  from Cons.IH [OF this(1)] obtain ops2 st1 st2 where
    "loginRun ops2 s1 = (pre, st1)" "loginExec op st1 = (answer, st2)" by blast
  then show ?case using one \<open>e = (op1, a1)\<close> by (intro exI [of _ "op1 # ops2"] exI [of _ st1] exI [of _ st2]) simp
qed

lemma new_inv: "logins_inv (NewLoginMemory ttl (map (map_option WithMaxPendingLogins) limits))"
proof -
  let ?step = "\<lambda>opt st. case opt of None \<Rightarrow> st | Some f \<Rightarrow> f st"
  have keep: "ls_logins (fold ?step (map (map_option WithMaxPendingLogins) limits) st) = ls_logins st
      \<and> ls_ttl (fold ?step (map (map_option WithMaxPendingLogins) limits) st) = ls_ttl st" for st
    by (induction limits arbitrary: st) (auto simp: WithMaxPendingLogins_def split: option.split)
  show ?thesis
    using keep by (auto simp: NewLoginMemory_def Let_def logins_inv_def DefaultLoginTTL_def Minute_def DefaultMaxPendingLogins_def)
qed

lemma new_backed: "allBacked [] (NewLoginMemory ttl (map (map_option WithMaxPendingLogins) limits))"
proof -
  let ?step = "\<lambda>opt st. case opt of None \<Rightarrow> st | Some f \<Rightarrow> f st"
  have "ls_logins (fold ?step (map (map_option WithMaxPendingLogins) limits) st) = ls_logins st" for st
    by (induction limits arbitrary: st) (auto simp: WithMaxPendingLogins_def split: option.split)
  then show ?thesis by (auto simp: allBacked_def NewLoginMemory_def Let_def)
qed

text \<open>
  C10. A pending login is used at most once. In every run of the in-memory store, a login that is
  handed out was saved before under that very state, is what was saved, with its tenant, nonce and
  verifier, has not expired, and has not been handed out since it was saved.
\<close>

theorem login_used_once:
  assumes "loginRun ops (NewLoginMemory ttl (map (map_option WithMaxPendingLogins) limits)) = (log, st')"
    and "log = pre @ (DoConsume cx now state, Inr (Some login)) # post"
  shows "cx = None \<and> now < lg_ExpiresAt login
    \<and> (\<exists>before cx0 now0 login0 between. pre = before @ (DoSave cx0 now0 login0, Inr None) # between
         \<and> ar_State login0 = state \<and> login = asSaved (ls_ttl st') now0 login0
         \<and> (\<forall>e\<in>set between. \<not> consumedAs state e))"
proof -
  let ?new = "NewLoginMemory ttl (map (map_option WithMaxPendingLogins) limits)"
  obtain ops1 st1 st2 where run: "loginRun ops1 ?new = (pre, st1)"
    and one: "loginExec (DoConsume cx now state) st1 = (Inr (Some login), st2)"
    using run_upto assms by blast
  have "allBacked pre st1" "ls_ttl st1 = ls_ttl ?new"
    using run_backed [OF run new_inv new_backed] by simp_all
  moreover have "ls_ttl st' = ls_ttl ?new" using run_backed [OF assms(1) new_inv new_backed] by blast
  moreover obtain r where "ConsumeLogin cx now state st1 = (r, st2)" "Inr (Some login) = map_sum id Some r"
    using one by (cases "ConsumeLogin cx now state st1") auto
  then have "ConsumeLogin cx now state st1 = (Inr login, st2)" by (cases r) auto
  from consume_cases [OF this]
  have "cx = None" "map_of (ls_logins st1) state = Some login" "now < lg_ExpiresAt login" by auto
  ultimately show ?thesis unfolding allBacked_def backedBy_def by metis
qed

definition sampleLogin :: Login where
  "sampleLogin = \<lparr>ar_URL = ''u'', ar_State = ''s'', ar_Nonce = ''n'', ar_PKCEVerifier = ''v'', lg_TenantID = ''t'',
     lg_UserID = '' me '', lg_Roles = [], lg_ExpiresAt = 0\<rparr>"

theorem login_used_once_witness:
  "loginRun [DoSave None 5 sampleLogin, DoConsume None 6 ''s'', DoConsume None 7 ''s'']
       (NewLoginMemory 0 (map (map_option WithMaxPendingLogins) [None, Some 2]))
     = ([(DoSave None 5 sampleLogin, Inr None),
         (DoConsume None 6 ''s'', Inr (Some (sampleLogin\<lparr>lg_UserID := ''me'', lg_ExpiresAt := 600000000005\<rparr>))),
         (DoConsume None 7 ''s'', Inl ErrLoginNotFound)],
        \<lparr>ls_logins = [], ls_ttl = DefaultLoginTTL, ls_maxPending = 2, ls_lastCleanup = 5\<rparr>)
   \<and> (\<exists>before cx0 now0 login0 between. [(DoSave None 5 sampleLogin, Inr None)] = before @ (DoSave cx0 now0 login0, Inr None) # between
         \<and> ar_State login0 = ''s''
         \<and> sampleLogin\<lparr>lg_UserID := ''me'', lg_ExpiresAt := 600000000005\<rparr>
             = asSaved (ls_ttl \<lparr>ls_logins = [], ls_ttl = DefaultLoginTTL, ls_maxPending = 2, ls_lastCleanup = 5\<rparr>) now0 login0
         \<and> (\<forall>e\<in>set between. \<not> consumedAs ''s'' e))"
proof -
  let ?login = "sampleLogin\<lparr>lg_UserID := ''me'', lg_ExpiresAt := 600000000005\<rparr>"
  have run: "loginRun [DoSave None 5 sampleLogin, DoConsume None 6 ''s'', DoConsume None 7 ''s'']
       (NewLoginMemory 0 (map (map_option WithMaxPendingLogins) [None, Some 2]))
      = ([(DoSave None 5 sampleLogin, Inr None), (DoConsume None 6 ''s'', Inr (Some ?login)),
          (DoConsume None 7 ''s'', Inl ErrLoginNotFound)],
         \<lparr>ls_logins = [], ls_ttl = DefaultLoginTTL, ls_maxPending = 2, ls_lastCleanup = 5\<rparr>)" by code_simp
  show ?thesis
    by (rule conjI [OF run login_used_once [OF run, THEN conjunct2, THEN conjunct2]]) simp
qed

text \<open>
  The store stays within its bound, and a login is refused for want of room only when
  that many unexpired logins are pending: expired ones are reclaimed first.
\<close>

theorem pending_logins_bounded:
  assumes "loginRun ops (NewLoginMemory ttl (map (map_option WithMaxPendingLogins) limits)) = (log, st)"
  shows "int (length (ls_logins st)) \<le> ls_maxPending st
    \<and> ls_maxPending st = ls_maxPending (NewLoginMemory ttl (map (map_option WithMaxPendingLogins) limits))
    \<and> (fst (SaveLogin cx now login st) = Inl ErrLoginStoreFull \<longrightarrow> int (length (live now st)) = ls_maxPending st)"
proof -
  have inv: "logins_inv st" and keep: "ls_maxPending st = ls_maxPending (NewLoginMemory ttl (map (map_option WithMaxPendingLogins) limits))"
    using run_backed [OF assms new_inv new_backed] by blast+
  have "int (length (live now st)) = ls_maxPending st" if "fst (SaveLogin cx now login st) = Inl ErrLoginStoreFull"
  proof -
    have "SaveLogin cx now login st = (Inl ErrLoginStoreFull, snd (SaveLogin cx now login st))"
      using that by (simp add: prod_eq_iff)
    from save_cases [OF this] have "ls_maxPending st \<le> int (length (live now st))"
      using inv_max [OF inv] by auto
    then show ?thesis using live_length [of now st] inv by (simp add: logins_inv_def)
  qed
  then show ?thesis using inv keep by (simp add: logins_inv_def)
qed

theorem pending_logins_bounded_witness:
  "fst (SaveLogin None 6 (sampleLogin\<lparr>ar_State := ''x''\<rparr>) (snd (loginRun [DoSave None 5 sampleLogin]
     (NewLoginMemory 0 (map (map_option WithMaxPendingLogins) [Some 1]))))) = Inl ErrLoginStoreFull
   \<and> int (length (live 6 (snd (loginRun [DoSave None 5 sampleLogin]
     (NewLoginMemory 0 (map (map_option WithMaxPendingLogins) [Some 1])))))) = 1"
proof -
  let ?r = "loginRun [DoSave None 5 sampleLogin] (NewLoginMemory 0 (map (map_option WithMaxPendingLogins) [Some 1]))"
  have full: "fst (SaveLogin None 6 (sampleLogin\<lparr>ar_State := ''x''\<rparr>) (snd ?r)) = Inl ErrLoginStoreFull" by code_simp
  have "ls_maxPending (snd ?r) = 1" by code_simp
  with pending_logins_bounded [OF surjective_pairing, of "[DoSave None 5 sampleLogin]" 0 "[Some 1]" None 6 "sampleLogin\<lparr>ar_State := ''x''\<rparr>"] full
  show ?thesis by simp
qed

section \<open>What an assertion rests on\<close>

lemma merge_email: "cm_Email (mergeClaims p f) = (if cm_Email p = [] then cm_Email f else cm_Email p)"
  by (simp add: mergeClaims_def Let_def)

lemma merge_verified: "cm_EmailVerified (mergeClaims p f) \<longleftrightarrow>
    (if cm_Email p = [] then cm_EmailVerified f
     else cm_EmailVerified p \<or> cm_EmailVerified f \<and> TrimSpace (cm_Email p) = TrimSpace (cm_Email f) \<and> TrimSpace (cm_Email f) \<noteq> [])"
  by (auto simp: mergeClaims_def Let_def)

lemma merge_source:
  "cm_EmailVerified (mergeClaims p f) \<Longrightarrow> TrimSpace (cm_Email (mergeClaims p f)) = email \<Longrightarrow>
     (cm_EmailVerified p \<and> TrimSpace (cm_Email p) = email) \<or> (cm_EmailVerified f \<and> TrimSpace (cm_Email f) = email)"
  unfolding merge_email merge_verified by (auto split: if_splits)

text \<open>
  Who says that an address is verified: the claims of the ID token, or the user information, if it
  names no subject but that of the ID token; and it says so of that very address.
\<close>

definition subjectOf :: "UserInfo \<Rightarrow> claims \<Rightarrow> string" where
  "subjectOf info vs = (if cm_Subject vs = [] then ui_Subject info else cm_Subject vs)"

definition emailVouched :: "IdP \<Rightarrow> Token \<Rightarrow> IDToken \<Rightarrow> string \<Rightarrow> bool" where
  "emailVouched idp token idToken email \<longleftrightarrow>
     (\<exists>vs. it_Claims idToken = Inr vs \<and> cm_EmailVerified vs \<and> TrimSpace (cm_Email vs) = email)
     \<or> (\<exists>info vs. dp_userInfo idp token = Inr info \<and> ui_Claims info = Inr vs
          \<and> (subjectOf info vs = [] \<or> subjectOf info vs = it_Subject idToken)
          \<and> (ui_EmailVerified info \<and> TrimSpace (ui_Email info) = email
             \<or> cm_EmailVerified vs \<and> TrimSpace (cm_Email vs) = email))"

lemma mergeClaims_subject: "cm_Subject (mergeClaims a b) = cm_Subject a"
  by (simp add: mergeClaims_def Let_def)

lemma info_vouched:
  assumes "userInfoClaims idp token = Inr info" "cm_EmailVerified info" "TrimSpace (cm_Email info) = email"
    and subject: "cm_Subject info = [] \<or> cm_Subject info = it_Subject idToken"
  shows "emailVouched idp token idToken email"
proof -
  obtain ui vs where u: "dp_userInfo idp token = Inr ui" "ui_Claims ui = Inr vs"
    and info: "info = mergeClaims (if cm_Subject vs = [] then vs\<lparr>cm_Subject := ui_Subject ui\<rparr> else vs)
        (zeroClaims\<lparr>cm_Email := ui_Email ui, cm_EmailVerified := ui_EmailVerified ui\<rparr>)"
    using assms(1) by (auto simp: userInfoClaims_def Let_def split: sum.splits)
  from merge_source [of "if cm_Subject vs = [] then vs\<lparr>cm_Subject := ui_Subject ui\<rparr> else vs", OF assms(2,3) [unfolded info]]
  moreover have "subjectOf ui vs = cm_Subject info" by (simp add: info mergeClaims_subject subjectOf_def)
  ultimately show ?thesis using u subject by (auto simp: emailVouched_def split: if_splits)
qed

lemma asserted_vouched:
  assumes "assertedClaims idp client token idToken = Inr vs" "cm_EmailVerified vs"
  shows "emailVouched idp token idToken (TrimSpace (cm_Email vs))"
proof -
  obtain ic where ic: "it_Claims idToken = Inr ic" "tokenClaims idToken = Inr (ic\<lparr>cm_Subject := it_Subject idToken\<rparr>)"
    using assms(1) by (auto simp: assertedClaims_def tokenClaims_def split: sum.splits)
  show ?thesis
  proof (cases "cl_fetchUserInfo client \<or> cm_Email ic = []")
    case True
    then obtain info where info: "userInfoClaims idp token = Inr info" "vs = mergeClaims (ic\<lparr>cm_Subject := it_Subject idToken\<rparr>) info"
      "cm_Subject info = [] \<or> cm_Subject info = it_Subject idToken"
      using assms(1) ic(2) by (auto simp: assertedClaims_def ok_simps split: if_splits)
    from merge_source [OF assms(2) [unfolded info(2)] refl] info(1) ic(1) show ?thesis
    proof (elim disjE)
      assume "cm_EmailVerified info \<and> TrimSpace (cm_Email info) = TrimSpace (cm_Email (mergeClaims (ic\<lparr>cm_Subject := it_Subject idToken\<rparr>) info))"
      then show ?thesis using info_vouched [OF info(1) _ _ info(3)] info(2) by simp
    qed (auto simp: emailVouched_def info(2))
  next
    case False
    then show ?thesis using assms ic by (auto simp: assertedClaims_def emailVouched_def)
  qed
qed

lemma optional_value: "optionalCallbackValue vs key = Inr v \<longleftrightarrow> map_of vs key = Some [v] \<or> map_of vs key = None \<and> v = []"
  by (auto simp: optionalCallbackValue_def length_Suc_conv split: option.splits if_splits)

lemma required_value: "requiredCallbackValue vs key = Inr v \<longleftrightarrow> map_of vs key = Some [v] \<and> v \<noteq> []"
  by (auto simp: requiredCallbackValue_def ok_simps optional_value)

lemma finish_success:
  assumes "finishCallback idp cl callback token = Inr result"
  shows "\<exists>raw idToken vs. tk_IDToken token = Some raw \<and> dp_verify idp raw = Inr idToken
    \<and> it_Nonce idToken = cb_ExpectedNonce callback
    \<and> (it_AccessTokenHash idToken = [] \<or> dp_verifyAccess idp idToken (tk_AccessToken token) = None)
    \<and> assertedClaims idp cl token idToken = Inr vs \<and> rs_Assertion result = assertionOf cl callback idToken vs"
proof -
  obtain raw where raw: "tk_IDToken token = Some raw" using assms by (cases "tk_IDToken token") (auto simp: finishCallback_def)
  obtain idToken where idt: "dp_verify idp raw = Inr idToken"
    using assms raw by (cases "dp_verify idp raw") (auto simp: finishCallback_def split: if_splits)
  have "it_Nonce idToken = cb_ExpectedNonce callback
      \<and> (it_AccessTokenHash idToken = [] \<or> dp_verifyAccess idp idToken (tk_AccessToken token) = None)
      \<and> (\<exists>vs. assertedClaims idp cl token idToken = Inr vs \<and> rs_Assertion result = assertionOf cl callback idToken vs)"
    using assms raw idt
    by (auto simp: finishCallback_def constantTimeEqual_def bind_ok_Inr split: option.splits if_splits)
  with raw idt show ?thesis by blast
qed

lemma callback_success:
  assumes "Client_Callback idp client callback = Inr result"
  shows "\<exists>cl vs code token. client = Some cl \<and> cb_Values callback = Some vs
    \<and> cb_ExpectedNonce callback \<noteq> [] \<and> cb_TenantID callback \<noteq> []
    \<and> map_of vs ''state'' = Some [cb_ExpectedState callback] \<and> map_of vs ''code'' = Some [code]
    \<and> dp_exchange idp (cl_oauth2 cl) code (cb_PKCEVerifier callback) = Inr token
    \<and> finishCallback idp cl callback token = Inr result"
proof -
  obtain cl vs where c: "client = Some cl" "cb_Values callback = Some vs"
    using assms by (auto simp: Client_Callback_def split: option.splits)
  then obtain code where code: "map_of vs ''code'' = Some [code]" "map_of vs ''state'' = Some [cb_ExpectedState callback]"
    "cb_ExpectedNonce callback \<noteq> []" "cb_TenantID callback \<noteq> []"
    and run: "(case dp_exchange idp (cl_oauth2 cl) code (cb_PKCEVerifier callback) of
         Inl e \<Rightarrow> Inl (OidcRemote e) | Inr token \<Rightarrow> finishCallback idp cl callback token) = Inr result"
    using assms by (auto simp: Client_Callback_def bind_ok_Inr required_value constantTimeEqual_def split: if_splits)
  show ?thesis
  proof (cases "dp_exchange idp (cl_oauth2 cl) code (cb_PKCEVerifier callback)")
    case (Inr token)
    with c code run show ?thesis by auto
  qed (use run in simp)
qed

text \<open>
  C5. What a login callback asserts is bound to the login that began it. When a callback over the
  in-memory store succeeds, its single state is that of a pending, unexpired login, which is gone
  afterwards; the code was exchanged with the verifier of that login, the ID token carries its
  nonce; the assertion is of the tenant, the user and the roles of that login and of the subject of
  the verified token; and an address is called verified only if the ID token vouches for that very
  address, or user information that names no subject but the token's.
\<close>

theorem callback_binds_login:
  assumes "HandleLoginCallback idp unicodeLower client request (Some (memoryLogins cx now)) st = (Inr result, st')"
  shows "\<exists>vs state login cl code token raw idToken.
      callbackValuesFromRequest unicodeLower request = Inr vs \<and> map_of vs ''state'' = Some [state]
    \<and> map_of (ls_logins st) state = Some login \<and> now < lg_ExpiresAt login \<and> ar_State login = state
    \<and> ls_logins st' = AList.delete state (ls_logins st)
    \<and> client = Some cl \<and> map_of vs ''code'' = Some [code]
    \<and> dp_exchange idp (cl_oauth2 cl) code (ar_PKCEVerifier login) = Inr token
    \<and> tk_IDToken token = Some raw \<and> dp_verify idp raw = Inr idToken
    \<and> it_Nonce idToken = ar_Nonce login \<and> ar_Nonce login \<noteq> []
    \<and> as_TenantID (rs_Assertion result) = lg_TenantID login \<and> lg_TenantID login \<noteq> []
    \<and> as_UserID (rs_Assertion result) = TrimSpace (lg_UserID login) \<and> as_Roles (rs_Assertion result) = lg_Roles login
    \<and> as_Provider (rs_Assertion result) = ip_Key (cl_provider cl) \<and> as_Subject (rs_Assertion result) = it_Subject idToken
    \<and> (as_EmailVerified (rs_Assertion result) \<longrightarrow> emailVouched idp token idToken (as_Email (rs_Assertion result)))"
proof -
  obtain vs state login where read: "callbackValuesFromRequest unicodeLower request = Inr vs" "map_of vs ''state'' = Some [state]"
    and consumed: "ConsumeLogin cx now state st = (Inr login, st')"
    and callback: "Client_Callback idp client (callbackOf vs login) = Inr result"
    using assms by (auto simp: HandleLoginCallback_def memoryLogins_def ok_simps required_value split: if_splits)
  from consume_cases [OF consumed] have pending: "map_of (ls_logins st) state = Some login" "now < lg_ExpiresAt login"
    "st' = st\<lparr>ls_logins := AList.delete state (ls_logins st)\<rparr>" by auto
  from callback_success [OF callback] obtain cl code token where cl: "client = Some cl" "ar_Nonce login \<noteq> []" "lg_TenantID login \<noteq> []"
    "map_of vs ''state'' = Some [ar_State login]" "map_of vs ''code'' = Some [code]"
    "dp_exchange idp (cl_oauth2 cl) code (ar_PKCEVerifier login) = Inr token"
    and finish: "finishCallback idp cl (callbackOf vs login) token = Inr result"
    by (auto simp: callbackOf_def)
  from finish_success [OF finish] obtain raw idToken cm where
    token: "tk_IDToken token = Some raw" "dp_verify idp raw = Inr idToken" "it_Nonce idToken = ar_Nonce login"
    and cm: "assertedClaims idp cl token idToken = Inr cm" "rs_Assertion result = assertionOf cl (callbackOf vs login) idToken cm"
    by (auto simp: callbackOf_def)
  have "as_EmailVerified (rs_Assertion result) \<longrightarrow> emailVouched idp token idToken (as_Email (rs_Assertion result))"
    using asserted_vouched [OF cm(1)] by (simp add: cm(2) assertionOf_def Let_def)
  moreover have "as_TenantID (rs_Assertion result) = lg_TenantID login" "as_UserID (rs_Assertion result) = TrimSpace (lg_UserID login)"
    "as_Roles (rs_Assertion result) = lg_Roles login" "as_Provider (rs_Assertion result) = ip_Key (cl_provider cl)"
    "as_Subject (rs_Assertion result) = it_Subject idToken"
    by (simp_all add: cm(2) assertionOf_def Let_def callbackOf_def)
  ultimately show ?thesis
    using read pending cl token
    by (intro exI [of _ vs] exI [of _ state] exI [of _ login] exI [of _ cl] exI [of _ code] exI [of _ token]
        exI [of _ raw] exI [of _ idToken]) simp
qed

text \<open>A provider that answers one user, whose address the user information vouches for.\<close>

definition sampleIdP :: IdP where
  "sampleIdP = \<lparr>dp_parseURL = (\<lambda>_. None), dp_loopbackIP = (\<lambda>_. False), dp_discover = (\<lambda>_. Inl []),
     dp_authCodeURL = (\<lambda>_ state _. state),
     dp_exchange = (\<lambda>_ code verifier. if verifier = ''v'' then Inr \<lparr>tk_AccessToken = [], tk_IDToken = Some code\<rparr> else Inl []),
     dp_verify = (\<lambda>_. Inr \<lparr>it_Issuer = ''i'', it_Subject = ''sub'', it_Nonce = ''n'', it_AccessTokenHash = [],
        it_Claims = Inr (zeroClaims\<lparr>cm_Email := '' a@b''\<rparr>)\<rparr>),
     dp_verifyAccess = (\<lambda>_ _. None),
     dp_userInfo = (\<lambda>_. Inr \<lparr>ui_Subject = ''sub'', ui_Email = ''a@b'', ui_EmailVerified = True, ui_Claims = Inr zeroClaims\<rparr>)\<rparr>"

definition sampleClient :: Client where
  "sampleClient = \<lparr>cl_provider = GoogleOIDC, cl_oauth2 = \<lparr>oa_ClientID = ''c'', oa_ClientSecret = [], oa_RedirectURL = ''r'',
     oa_Endpoint = \<lparr>ep_IssuerURL = [], ep_AuthURL = [], ep_TokenURL = [], ep_UserInfoURL = [], ep_JWKSURL = []\<rparr>,
     oa_Scopes = []\<rparr>, cl_fetchUserInfo = True\<rparr>"

definition sampleCallback :: CallbackRequest where
  "sampleCallback = \<lparr>cr_Method = ''GET'', cr_ContentType = [], cr_Form = Inl [],
     cr_Query = [(''state'', [''s'']), (''code'', [''c''])]\<rparr>"

definition samplePending :: LoginMemory where
  "samplePending = snd (SaveLogin None 5 sampleLogin (NewLoginMemory 0 []))"

theorem callback_binds_login_witness:
  "as_TenantID (rs_Assertion (case fst (HandleLoginCallback sampleIdP id (Some sampleClient) (Some sampleCallback)
       (Some (memoryLogins None 6)) samplePending) of Inr result \<Rightarrow> result)) = ''t''
   \<and> as_EmailVerified (rs_Assertion (case fst (HandleLoginCallback sampleIdP id (Some sampleClient) (Some sampleCallback)
       (Some (memoryLogins None 6)) samplePending) of Inr result \<Rightarrow> result))"
proof -
  let ?h = "HandleLoginCallback sampleIdP id (Some sampleClient) (Some sampleCallback) (Some (memoryLogins None 6)) samplePending"
  have ok: "(case ?h of (Inl _, _) \<Rightarrow> False | (Inr r, _) \<Rightarrow> as_EmailVerified (rs_Assertion r))" by code_simp
  then obtain result st' where run: "?h = (Inr result, st')" "as_EmailVerified (rs_Assertion result)"
    by (auto split: prod.splits sum.splits)
  have read: "callbackValuesFromRequest id (Some sampleCallback) = Inr [(''state'', [''s'']), (''code'', [''c''])]" by code_simp
  have tenant: "map_option lg_TenantID (map_of (ls_logins samplePending) ''s'') = Some ''t''" by code_simp
  from callback_binds_login [OF run(1)] obtain state login where
    "map_of [(''state'', [''s'']), (''code'', [''c''])] ''state'' = Some [state]"
    "map_of (ls_logins samplePending) state = Some login" "as_TenantID (rs_Assertion result) = lg_TenantID login"
    unfolding read by blast
  then show ?thesis using tenant run by auto
qed

end
