(* ===== verification/Observability.thy ===== *)
theory Observability
  imports Core_Context Resolver
begin

text \<open>
  Observability (\<open>obs\<close>, \<open>obs/otel\<close>): the fields that name the tenant of a context, and the redaction
  of sensitive values in maps and in trees of log attributes. Loggers, tracers and spans belong to
  \<open>slog\<close> and OpenTelemetry: what is modelled is what they are given.
\<close>

section \<open>The tenant's fields\<close>

definition TenantIDField :: string where "TenantIDField = ''tenant_id''"
definition TenantSideField :: string where "TenantSideField = ''tenant_side''"
definition DeploymentUnitIDField :: string where "DeploymentUnitIDField = ''deployment_unit_id''"
definition hostSide :: string where "hostSide = ''host''"
definition tenantSide :: string where "tenantSide = ''tenant''"

lemmas field_names = TenantIDField_def TenantSideField_def DeploymentUnitIDField_def hostSide_def tenantSide_def

definition fieldValues :: "saasContext \<Rightarrow> string \<times> string \<times> string" where
  "fieldValues cx =
     (case FromContext cx of
        Some tenant \<Rightarrow>
          (tn_ID tenant, tenantSide, (case DeploymentFromContext cx of Some u \<Rightarrow> du_ID u | None \<Rightarrow> []))
      | None \<Rightarrow> if IsHost cx then ([], hostSide, []) else ([], [], []))"

definition Fields :: "saasContext \<Rightarrow> (string, string) gomap" where
  "Fields cx =
     (case fieldValues cx of (tenantID, side1, deploymentUnitID) \<Rightarrow>
       (let f0 = [];
            f1 = (if tenantID \<noteq> [] then AList.update TenantIDField tenantID f0 else f0);
            f2 = (if side1 \<noteq> [] then AList.update TenantSideField side1 f1 else f1)
        in if deploymentUnitID \<noteq> [] then AList.update DeploymentUnitIDField deploymentUnitID f2 else f2))"

section \<open>Redaction\<close>

definition redactedValue :: string where "redactedValue = ''[REDACTED]''"

definition sensitiveKeys :: "string list" where
  "sensitiveKeys = [''access_token'', ''api_key'', ''apikey'', ''authorization'', ''client_secret'', ''cookie'',
     ''id_token'', ''password'', ''private_key'', ''refresh_token'', ''secret'', ''set_cookie'', ''token'']"

text \<open>\<open>unicodeLower\<close> is \<open>strings.ToLower\<close> of text that is not all ASCII.\<close>

definition isSensitiveKey :: "(string \<Rightarrow> string) \<Rightarrow> string \<Rightarrow> bool" where
  "isSensitiveKey unicodeLower key \<longleftrightarrow>
     map (\<lambda>c. if c = CHR ''-'' then CHR ''_'' else c) (ToLower unicodeLower (TrimSpace key)) \<in> set sensitiveKeys"

definition Redact :: "(string \<Rightarrow> string) \<Rightarrow> (string, string) gomap option \<Rightarrow> (string, string) gomap option" where
  "Redact unicodeLower fs =
     map_option (map (\<lambda>(key, value1). (key, if isSensitiveKey unicodeLower key then redactedValue else value1))) fs"

text \<open>
  A value of an attribute: a plain one of any kind, a group of attributes, or a \<open>LogValuer\<close> with the
  value it answers. \<open>Resolve\<close> asks at most a hundred times.
\<close>

datatype logValue = Plain string | Group "(string \<times> logValue) list" | Valuer logValue

type_synonym Attr = "string \<times> logValue"

definition maxLogValues :: nat where "maxLogValues = 100"

fun resolveValue :: "nat \<Rightarrow> logValue \<Rightarrow> logValue" where
  "resolveValue (Suc n) (Valuer v) = resolveValue n v"
| "resolveValue 0 (Valuer v) = Plain ''LogValue called too many times''"
| "resolveValue n v = v"

text \<open>\<open>slog.Group\<close>, which leaves out empty groups.\<close>

definition GroupAttr :: "string \<Rightarrow> Attr list \<Rightarrow> Attr" where
  "GroupAttr key attrs = (key, Group (filter (\<lambda>a. snd a \<noteq> Group []) attrs))"

lemma member_size: "a \<in> set attrs \<Longrightarrow> size (snd a) < size (Group attrs)"
  by (induction attrs) auto

lemma resolve_size: "size (resolveValue n v) \<le> size v"
  by (induction n v rule: resolveValue.induct) auto

function redactSlogAttr :: "(string \<Rightarrow> string) \<Rightarrow> Attr \<Rightarrow> Attr" where
  "redactSlogAttr unicodeLower attr =
     (if isSensitiveKey unicodeLower (fst attr) then (fst attr, Plain redactedValue)
      else case resolveValue maxLogValues (snd attr) of
        Group attrs \<Rightarrow> GroupAttr (fst attr) (map (redactSlogAttr unicodeLower) attrs)
      | value1 \<Rightarrow> (fst attr, value1))"
  by pat_completeness auto

termination
proof (relation "measure (\<lambda>(unicodeLower, attr). size (snd attr))")
  fix unicodeLower :: "string \<Rightarrow> string" and attr a :: Attr and attrs
  assume "resolveValue maxLogValues (snd attr) = Group attrs" "a \<in> set attrs"
  then show "((unicodeLower, a), (unicodeLower, attr)) \<in> measure (\<lambda>(unicodeLower, attr). size (snd attr))"
    using member_size resolve_size [of maxLogValues "snd attr"] by fastforce
qed simp

declare redactSlogAttr.simps [simp del]

lemma redact_secret:
  "isSensitiveKey unicodeLower key \<Longrightarrow> redactSlogAttr unicodeLower (key, v) = (key, Plain redactedValue)"
  by (simp add: redactSlogAttr.simps)

lemma redact_plain:
  "\<not> isSensitiveKey unicodeLower key \<Longrightarrow> resolveValue maxLogValues v = Plain x
     \<Longrightarrow> redactSlogAttr unicodeLower (key, v) = (key, Plain x)"
  by (simp add: redactSlogAttr.simps)

lemma redact_group:
  "\<not> isSensitiveKey unicodeLower key \<Longrightarrow> resolveValue maxLogValues v = Group attrs
     \<Longrightarrow> redactSlogAttr unicodeLower (key, v) = GroupAttr key (map (redactSlogAttr unicodeLower) attrs)"
  by (simp add: redactSlogAttr.simps)

definition RedactSlogAttrs :: "(string \<Rightarrow> string) \<Rightarrow> Attr list \<Rightarrow> Attr list" where
  "RedactSlogAttrs unicodeLower attrs = map (redactSlogAttr unicodeLower) attrs"

definition SlogAttrs :: "saasContext \<Rightarrow> Attr list" where
  "SlogAttrs cx =
     (case fieldValues cx of (tenantID, side1, deploymentUnitID) \<Rightarrow>
       if tenantID = [] \<and> side1 = [] \<and> deploymentUnitID = [] then []
       else (if tenantID \<noteq> [] then [(TenantIDField, Plain tenantID)] else [])
         @ (if side1 \<noteq> [] then [(TenantSideField, Plain side1)] else [])
         @ (if deploymentUnitID \<noteq> [] then [(DeploymentUnitIDField, Plain deploymentUnitID)] else []))"

text \<open>What the logger is given: the attributes it keeps, and those of one record.\<close>

definition LoggerWithTenant :: "saasContext \<Rightarrow> Attr list \<Rightarrow> Attr list" where
  "LoggerWithTenant cx logger = (let attrs = SlogAttrs cx in if length attrs = 0 then logger else logger @ attrs)"

definition LogAttrs :: "(string \<Rightarrow> string) \<Rightarrow> saasContext \<Rightarrow> Attr list \<Rightarrow> Attr list" where
  "LogAttrs unicodeLower cx attrs = SlogAttrs cx @ RedactSlogAttrs unicodeLower attrs"

section \<open>Spans\<close>

text \<open>A span, as far as it is used: whether it records, its attributes, its errors and its status.\<close>

record Span =
  sp_Recording :: bool
  sp_Attributes :: "(string \<times> string) list"
  sp_Errors :: "(string \<times> (string \<times> string) list) list"
  sp_Status :: "string option"

definition fieldAt :: "(string, string) gomap \<Rightarrow> string \<Rightarrow> string" where
  "fieldAt fs key = (case map_of fs key of None \<Rightarrow> [] | Some value1 \<Rightarrow> value1)"

definition SpanAttributes :: "saasContext \<Rightarrow> (string \<times> string) list" where
  "SpanAttributes cx =
     (let fs = Fields cx;
          tenantID = fieldAt fs TenantIDField;
          side1 = fieldAt fs TenantSideField;
          deploymentUnitID = fieldAt fs DeploymentUnitIDField
      in if tenantID = [] \<and> side1 = [] \<and> deploymentUnitID = [] then []
         else (if tenantID \<noteq> [] then [(TenantIDField, tenantID)] else [])
           @ (if side1 \<noteq> [] then [(TenantSideField, side1)] else [])
           @ (if deploymentUnitID \<noteq> [] then [(DeploymentUnitIDField, deploymentUnitID)] else []))"

definition AddSpanAttributes :: "saasContext \<Rightarrow> Span \<Rightarrow> Span" where
  "AddSpanAttributes cx span =
     (let attrs = SpanAttributes cx in
      if length attrs = 0 then span
      else if \<not> sp_Recording span then span
      else span\<lparr>sp_Attributes := sp_Attributes span @ attrs\<rparr>)"

definition defaultErrorDescription :: string where "defaultErrorDescription = ''operation failed''"
definition errorTypeAttribute :: string where "errorTypeAttribute = ''error.type''"

text \<open>An error is given by the name of its type; \<open>None\<close> is a nil error.\<close>

definition RecordSpanError :: "string option \<Rightarrow> string \<Rightarrow> Span \<Rightarrow> Span" where
  "RecordSpanError err description span =
     (case err of None \<Rightarrow> span | Some errorType \<Rightarrow>
        if \<not> sp_Recording span then span
        else
          (let d = (if description = [] then defaultErrorDescription else description) in
           span\<lparr>sp_Errors := sp_Errors span @ [(d, [(errorTypeAttribute, errorType)])], sp_Status := Some d\<rparr>))"

section \<open>No sensitive value is logged\<close>

text \<open>An attribute without secrets: a sensitive key has the replacement, at every depth of a group.\<close>

inductive clean :: "(string \<Rightarrow> string) \<Rightarrow> Attr \<Rightarrow> bool" for unicodeLower where
  hidden: "clean unicodeLower (key, Plain redactedValue)"
| plain: "\<not> isSensitiveKey unicodeLower key \<Longrightarrow> clean unicodeLower (key, Plain value1)"
| group: "\<not> isSensitiveKey unicodeLower key \<Longrightarrow> (\<And>a. a \<in> set attrs \<Longrightarrow> clean unicodeLower a)
    \<Longrightarrow> clean unicodeLower (key, Group attrs)"

lemma resolved_plain: "resolveValue n v \<noteq> Valuer w"
  by (induction n v rule: resolveValue.induct) auto

lemma resolve_done: "(\<And>w. v \<noteq> Valuer w) \<Longrightarrow> resolveValue n v = v"
  by (cases "(n, v)" rule: resolveValue.cases) auto

lemma resolved_cases:
  obtains x where "resolveValue n v = Plain x" | attrs where "resolveValue n v = Group attrs"
  using resolved_plain [of n v] by (cases "resolveValue n v") auto

lemma redact_clean: "clean unicodeLower (redactSlogAttr unicodeLower attr)"
proof (induction unicodeLower attr rule: redactSlogAttr.induct)
  case (1 unicodeLower attr)
  obtain key v where attr: "attr = (key, v)" by (cases attr)
  show ?case
  proof (cases "isSensitiveKey unicodeLower key")
    case True
    then show ?thesis by (simp add: attr redact_secret hidden)
  next
    case False
    from resolved_cases [of maxLogValues v] show ?thesis
    proof cases
      case (1 x)
      with False show ?thesis by (simp add: attr redact_plain plain)
    next
      case (2 attrs)
      have "clean unicodeLower (key, Group (filter (\<lambda>a. snd a \<noteq> Group []) (map (redactSlogAttr unicodeLower) attrs)))"
      proof (rule group [OF False])
        fix a assume "a \<in> set (filter (\<lambda>a. snd a \<noteq> Group []) (map (redactSlogAttr unicodeLower) attrs))"
        then obtain b where "b \<in> set attrs" "a = redactSlogAttr unicodeLower b" by auto
        then show "clean unicodeLower a" using "1.IH" [of attrs b] False 2 attr by simp
      qed
      with False 2 show ?thesis by (simp add: attr redact_group GroupAttr_def)
    qed
  qed
qed

text \<open>Two trees of attributes that differ only in what sensitive keys hold.\<close>

inductive sameButSecrets :: "(string \<Rightarrow> string) \<Rightarrow> Attr \<Rightarrow> Attr \<Rightarrow> bool" for unicodeLower where
  secret: "isSensitiveKey unicodeLower key \<Longrightarrow> sameButSecrets unicodeLower (key, v) (key, w)"
| value1: "sameButSecrets unicodeLower (key, Plain x) (key, Plain x)"
| group1: "list_all2 (sameButSecrets unicodeLower) as bs \<Longrightarrow> sameButSecrets unicodeLower (key, Group as) (key, Group bs)"
| valuer: "sameButSecrets unicodeLower (key, v) (key, w) \<Longrightarrow> sameButSecrets unicodeLower (key, Valuer v) (key, Valuer w)"

definition shownAlike :: "(string \<Rightarrow> string) \<Rightarrow> logValue \<Rightarrow> logValue \<Rightarrow> bool" where
  "shownAlike unicodeLower v w \<longleftrightarrow>
     (\<exists>x. v = Plain x \<and> w = Plain x)
     \<or> (\<exists>as bs. v = Group as \<and> w = Group bs \<and> map (redactSlogAttr unicodeLower) as = map (redactSlogAttr unicodeLower) bs)"

lemma shown_redacted:
  "\<not> isSensitiveKey unicodeLower key
     \<Longrightarrow> shownAlike unicodeLower (resolveValue maxLogValues v) (resolveValue maxLogValues w)
     \<Longrightarrow> redactSlogAttr unicodeLower (key, v) = redactSlogAttr unicodeLower (key, w)"
  by (auto simp: shownAlike_def redact_plain redact_group)

lemma alike_redacted:
  assumes "fst a = fst b \<and> (isSensitiveKey unicodeLower (fst a)
     \<or> (\<forall>n. shownAlike unicodeLower (resolveValue n (snd a)) (resolveValue n (snd b))))"
  shows "redactSlogAttr unicodeLower a = redactSlogAttr unicodeLower b"
proof -
  obtain key v w where ab: "a = (key, v)" "b = (key, w)" using assms by (cases a, cases b) auto
  show ?thesis
  proof (cases "isSensitiveKey unicodeLower key")
    case False
    then have "shownAlike unicodeLower (resolveValue maxLogValues v) (resolveValue maxLogValues w)" using assms ab by simp
    then show ?thesis unfolding ab by (rule shown_redacted [OF False])
  qed (simp add: ab redact_secret)
qed

lemma same_shown:
  "sameButSecrets unicodeLower a b \<Longrightarrow> fst a = fst b
     \<and> (isSensitiveKey unicodeLower (fst a) \<or> (\<forall>n. shownAlike unicodeLower (resolveValue n (snd a)) (resolveValue n (snd b))))"
proof (induction rule: sameButSecrets.induct)
  case (value1 key x)
  then show ?case by (simp add: shownAlike_def resolve_done)
next
  case (group1 as bs key)
  from group1 have "map (redactSlogAttr unicodeLower) as = map (redactSlogAttr unicodeLower) bs"
    by (induction as bs rule: list_all2_induct) (auto intro: alike_redacted)
  then show ?case by (simp add: shownAlike_def resolve_done)
next
  case (valuer key v w)
  have "shownAlike unicodeLower (resolveValue n (Valuer v)) (resolveValue n (Valuer w))"
    if "\<forall>n. shownAlike unicodeLower (resolveValue n v) (resolveValue n w)" for n
    using that by (cases n) (auto simp: shownAlike_def)
  with valuer.IH show ?case by auto
qed simp

lemma same_redacted: "sameButSecrets unicodeLower a b \<Longrightarrow> redactSlogAttr unicodeLower a = redactSlogAttr unicodeLower b"
  using alike_redacted same_shown by blast

lemma redact_key: "fst (redactSlogAttr unicodeLower attr) = fst attr"
proof -
  obtain key v where attr: "attr = (key, v)" by (cases attr)
  show ?thesis
    by (cases "isSensitiveKey unicodeLower key"; rule resolved_cases [of maxLogValues v])
      (auto simp: attr redact_secret redact_plain redact_group GroupAttr_def)
qed

lemma map_of_redacted:
  "map_of (map (\<lambda>(key, value1). (key, f key value1)) fs) k = map_option (f k) (map_of fs k)"
  by (induction fs) auto

text \<open>
  C17. No secret is logged. What a record holds does not depend on what sensitive keys hold, at any
  depth of its groups and behind any value that is resolved; every sensitive key is there with the
  replacement, after the tenant's fields and in the order it was given; and in a redacted map
  exactly the sensitive keys have lost their values.
\<close>

theorem secrets_never_logged:
  assumes "list_all2 (sameButSecrets unicodeLower) as bs"
  shows "LogAttrs unicodeLower cx as = LogAttrs unicodeLower cx bs
    \<and> LogAttrs unicodeLower cx as = SlogAttrs cx @ RedactSlogAttrs unicodeLower as
    \<and> map fst (RedactSlogAttrs unicodeLower as) = map fst as
    \<and> list_all (clean unicodeLower) (RedactSlogAttrs unicodeLower as)
    \<and> (\<forall>fs. \<exists>fs'. Redact unicodeLower (Some fs) = Some fs' \<and> (\<forall>key. map_of fs' key =
         (if isSensitiveKey unicodeLower key then map_option (\<lambda>_. redactedValue) (map_of fs key) else map_of fs key)))"
proof -
  have "RedactSlogAttrs unicodeLower as = RedactSlogAttrs unicodeLower bs"
    using assms unfolding RedactSlogAttrs_def by (induction as bs rule: list_all2_induct) (simp_all add: same_redacted)
  moreover have "map fst (RedactSlogAttrs unicodeLower as) = map fst as"
    by (simp add: RedactSlogAttrs_def redact_key)
  moreover have "list_all (clean unicodeLower) (RedactSlogAttrs unicodeLower as)"
    by (simp add: RedactSlogAttrs_def list_all_iff redact_clean)
  moreover have "\<exists>fs'. Redact unicodeLower (Some fs) = Some fs' \<and> (\<forall>key. map_of fs' key =
         (if isSensitiveKey unicodeLower key then map_option (\<lambda>_. redactedValue) (map_of fs key) else map_of fs key))" for fs
    by (auto simp: Redact_def map_of_redacted option.map_ident)
  ultimately show ?thesis by (simp add: LogAttrs_def)
qed

theorem secrets_never_logged_witness:
  "LogAttrs id (WithHost None) [(''user'', Valuer (Group [(''id'', Plain ''7''), ('' Set-Cookie '', Plain ''x'')]))]
   = LogAttrs id (WithHost None) [(''user'', Valuer (Group [(''id'', Plain ''7''), ('' Set-Cookie '', Group [])]))]"
proof -
  have cookie: "isSensitiveKey id '' Set-Cookie ''" by code_simp
  have "list_all2 (sameButSecrets id) [(''user'', Valuer (Group [(''id'', Plain ''7''), ('' Set-Cookie '', Plain ''x'')]))]
      [(''user'', Valuer (Group [(''id'', Plain ''7''), ('' Set-Cookie '', Group [])]))]"
    by (simp, rule valuer, rule group1) (simp add: value1 secret [OF cookie])
  from secrets_never_logged [OF this, of "WithHost None"] show ?thesis by blast
qed

text \<open>Maps, records and spans are given the same fields.\<close>

theorem fields_agree:
  "SlogAttrs cx = map (\<lambda>(key, value1). (key, Plain value1)) (Fields cx) \<and> SpanAttributes cx = Fields cx"
  by (cases "fieldValues cx") (auto simp: SlogAttrs_def SpanAttributes_def Fields_def Let_def fieldAt_def field_names)

text \<open>No error message reaches a span: what is recorded depends on the type of an error only.\<close>

lemma error_text_hidden:
  "RecordSpanError (Some errorType) description span =
     (if sp_Recording span
      then span\<lparr>sp_Errors := sp_Errors span @ [(if description = [] then ''operation failed'' else description,
             [(''error.type'', errorType)])],
             sp_Status := Some (if description = [] then ''operation failed'' else description)\<rparr>
      else span)"
  by (simp add: RecordSpanError_def Let_def defaultErrorDescription_def errorTypeAttribute_def)

end
