(* ===== verification/SQL_Helpers.thy ===== *)
theory SQL_Helpers
  imports SQL_Guarantees Resolver Decimals
begin

text \<open>
  The helpers the stores over \<open>database/sql\<close> share (\<open>internal/sqlutil\<close>): dialects and placeholders,
  the names that may be put into a statement, string maps as JSON text, and the classification of
  the errors of drivers. An error is its message, its SQL state when it has one, and what it wraps:
  one error, several joined ones, or none. JSON is a parameter, \<open>unicodeLower\<close> is \<open>strings.ToLower\<close>
  of text that is not all ASCII.
\<close>

section \<open>Dialects and placeholders\<close>

type_synonym Dialect = string

definition DialectMySQL :: Dialect where "DialectMySQL = ''mysql''"
definition DialectSQLite :: Dialect where "DialectSQLite = ''sqlite''"
definition DialectPostgres :: Dialect where "DialectPostgres = ''postgres''"

definition NormalizeDialect :: "Dialect \<Rightarrow> Dialect option" where
  "NormalizeDialect dialect =
     (if dialect = [] then Some DialectMySQL
      else if dialect \<in> {DialectMySQL, DialectSQLite, DialectPostgres} then Some dialect
      else None)"

definition Placeholder :: "Dialect \<Rightarrow> int64 \<Rightarrow> string" where
  "Placeholder dialect index1 = (if dialect = DialectPostgres then CHR ''$'' # FormatInt index1 else ''?'')"

text \<open>\<open>strings.Join(parts, ", ")\<close>.\<close>

fun joinComma :: "string list \<Rightarrow> string" where
  "joinComma [] = []"
| "joinComma [part] = part"
| "joinComma (part # rest) = part @ '', '' @ joinComma rest"

definition Placeholders :: "Dialect \<Rightarrow> int64 \<Rightarrow> int64 \<Rightarrow> string" where
  "Placeholders dialect count1 start =
     (if count1 \<le> 0 then []
      else joinComma (map (\<lambda>i. Placeholder dialect (add64 start (int i))) [0..<nat count1]))"

section \<open>Names\<close>

definition IsSafeIdentifier :: "string \<Rightarrow> bool" where
  "IsSafeIdentifier value1 \<longleftrightarrow> value1 \<noteq> []
     \<and> list_all (\<lambda>(i, r). isLetter r \<or> r = CHR ''_'' \<or> (0 < i \<and> CHR ''0'' \<le> r \<and> r \<le> CHR ''9''))
         (zip [0..<length value1] value1)"

definition IsSafeQualifiedIdentifier :: "string \<Rightarrow> bool" where
  "IsSafeQualifiedIdentifier value1 \<longleftrightarrow> value1 \<noteq> [] \<and> list_all IsSafeIdentifier (splitDots [] value1)"

section \<open>Maps as text\<close>

type_synonym stringMap = "(string, string) gomap"

definition MarshalStringMap :: "(stringMap \<Rightarrow> 'e + string) \<Rightarrow> stringMap option \<Rightarrow> 'e + string" where
  "MarshalStringMap marshal vs = marshal (case vs of None \<Rightarrow> [] | Some m \<Rightarrow> m)"

definition UnmarshalStringMap :: "(string \<Rightarrow> 'e + stringMap) \<Rightarrow> string \<Rightarrow> 'e + stringMap" where
  "UnmarshalStringMap unmarshal raw = (if TrimSpace raw = [] then Inr [] else unmarshal raw)"

section \<open>Errors of drivers\<close>

datatype goError =
  Single string "string option" "goError option"
| Several string "string option" "goError list"

fun errorMessage :: "goError \<Rightarrow> string" where
  "errorMessage (Single message _ _) = message"
| "errorMessage (Several message _ _) = message"

fun errorState :: "goError \<Rightarrow> string option" where
  "errorState (Single _ state _) = state"
| "errorState (Several _ state _) = state"

fun contains :: "string \<Rightarrow> string \<Rightarrow> bool" where
  "contains [] part = (part = [])"
| "contains (c # s) part = (hasPrefix (c # s) part \<or> contains s part)"

definition duplicateMessage :: "(string \<Rightarrow> string) \<Rightarrow> goError \<Rightarrow> bool" where
  "duplicateMessage unicodeLower err =
     (let message = ToLower unicodeLower (errorMessage err) in
      contains message ''duplicate'' \<and> contains message ''key''
      \<or> contains message ''duplicate'' \<and> contains message ''entry''
      \<or> contains message ''unique constraint''
      \<or> contains message ''constraint failed'' \<and> contains message ''unique''
      \<or> contains message ''primary key constraint'')"

fun IsDuplicateKeyError :: "(string \<Rightarrow> string) \<Rightarrow> goError option \<Rightarrow> bool" where
  "IsDuplicateKeyError unicodeLower None = False"
| "IsDuplicateKeyError unicodeLower (Some (Single message state wrapped)) =
     (duplicateMessage unicodeLower (Single message state wrapped) \<or> IsDuplicateKeyError unicodeLower wrapped)"
| "IsDuplicateKeyError unicodeLower (Some (Several message state joined)) =
     (duplicateMessage unicodeLower (Several message state joined)
      \<or> list_ex (\<lambda>child. IsDuplicateKeyError unicodeLower (Some child)) joined)"

definition NormalizeDuplicateKeyError ::
  "(string \<Rightarrow> string) \<Rightarrow> goError option \<Rightarrow> goError option \<Rightarrow> goError option"
where
  "NormalizeDuplicateKeyError unicodeLower err duplicate =
     (if err = None then None else if IsDuplicateKeyError unicodeLower err then duplicate else err)"

definition retryableHere :: "(string \<Rightarrow> string) \<Rightarrow> goError \<Rightarrow> bool" where
  "retryableHere unicodeLower err =
     ((case errorState err of None \<Rightarrow> False | Some state \<Rightarrow> state \<in> {''40001'', ''40P01'', ''55P03''})
      \<or> (let message = ToLower unicodeLower (errorMessage err) in
         contains message ''could not serialize access'' \<or> contains message ''serialization failure''
         \<or> contains message ''deadlock detected'' \<or> contains message ''deadlock found''
         \<or> contains message ''lock wait timeout'' \<or> contains message ''lock not available''
         \<or> contains message ''canceling statement due to lock timeout'' \<or> contains message ''database is locked''))"

fun IsRetryableTransactionError :: "(string \<Rightarrow> string) \<Rightarrow> goError option \<Rightarrow> bool" where
  "IsRetryableTransactionError unicodeLower None = False"
| "IsRetryableTransactionError unicodeLower (Some (Single message state wrapped)) =
     (retryableHere unicodeLower (Single message state wrapped) \<or> IsRetryableTransactionError unicodeLower wrapped)"
| "IsRetryableTransactionError unicodeLower (Some (Several message state joined)) =
     (retryableHere unicodeLower (Several message state joined)
      \<or> list_ex (\<lambda>child. IsRetryableTransactionError unicodeLower (Some child)) joined)"

section \<open>Classification looks at every error of the tree\<close>

text \<open>The errors that \<open>Unwrap\<close> reaches.\<close>

inductive reaches :: "goError \<Rightarrow> goError \<Rightarrow> bool" where
  here: "reaches e e"
| wrapped: "reaches w e \<Longrightarrow> reaches (Single message state (Some w)) e"
| joined: "w \<in> set ws \<Longrightarrow> reaches w e \<Longrightarrow> reaches (Several message state ws) e"

inductive_cases reaches_single: "reaches (Single message state w) e"
inductive_cases reaches_several: "reaches (Several message state ws) e"

lemma duplicate_reached:
  "IsDuplicateKeyError unicodeLower err \<longleftrightarrow> (\<exists>top e. err = Some top \<and> reaches top e \<and> duplicateMessage unicodeLower e)"
proof (induction unicodeLower err rule: IsDuplicateKeyError.induct)
  case (2 unicodeLower message state w)
  then show ?case by (auto intro: reaches.intros elim!: reaches_single)
next
  case (3 unicodeLower message state ws)
  then show ?case by (auto simp: list_ex_iff intro: reaches.intros elim!: reaches_several)
qed simp

lemma retryable_reached:
  "IsRetryableTransactionError unicodeLower err \<longleftrightarrow> (\<exists>top e. err = Some top \<and> reaches top e \<and> retryableHere unicodeLower e)"
proof (induction unicodeLower err rule: IsRetryableTransactionError.induct)
  case (2 unicodeLower message state w)
  then show ?case by (auto intro: reaches.intros elim!: reaches_single)
next
  case (3 unicodeLower message state ws)
  then show ?case by (auto simp: list_ex_iff intro: reaches.intros elim!: reaches_several)
qed simp

text \<open>
  An error is a duplicate key, or retryable, exactly when some error it wraps or joins, at any depth,
  is by itself; and normalising replaces exactly the duplicates.
\<close>

theorem driver_errors_classified:
  "IsDuplicateKeyError unicodeLower err \<longleftrightarrow> (\<exists>top e. err = Some top \<and> reaches top e \<and> duplicateMessage unicodeLower e)"
  "IsRetryableTransactionError unicodeLower err \<longleftrightarrow> (\<exists>top e. err = Some top \<and> reaches top e \<and> retryableHere unicodeLower e)"
  "NormalizeDuplicateKeyError unicodeLower err duplicate =
     (if \<exists>top e. err = Some top \<and> reaches top e \<and> duplicateMessage unicodeLower e then duplicate else err)"
proof -
  show "NormalizeDuplicateKeyError unicodeLower err duplicate =
     (if \<exists>top e. err = Some top \<and> reaches top e \<and> duplicateMessage unicodeLower e then duplicate else err)"
    unfolding duplicate_reached [symmetric] by (cases err) (simp_all add: NormalizeDuplicateKeyError_def)
qed (rule duplicate_reached retryable_reached)+

section \<open>A table name is one path\<close>

text \<open>The names that may stand for a table are the names that may stand for a field.\<close>

lemma safe_names: "IsSafeQualifiedIdentifier = isSafeFieldName"
proof -
  have "IsSafeIdentifier = isSafeIdentifier"
    by (rule ext) (simp add: IsSafeIdentifier_def isSafeIdentifier_def)
  then show ?thesis by (intro ext) (simp only: IsSafeQualifiedIdentifier_def isSafeFieldName_def)
qed

text \<open>A table name that is accepted scans, wherever it stands, to its words and dots.\<close>

lemma table_name_scanned: "IsSafeQualifiedIdentifier table \<Longrightarrow> lexAt 0 table = Some (fieldLexemes table, 0)"
  unfolding safe_names by (rule lexAt_field)

text \<open>
  The placeholders of a statement: as many as asked for, and in PostgreSQL numbered one after the
  other from the given index, so that no two are the same.
\<close>

theorem placeholders_numbered:
  assumes "0 < n" "i64 start" "i64 (start + n)"
  shows "\<exists>parts. Placeholders dialect n start = joinComma parts \<and> length parts = nat n
    \<and> (dialect \<noteq> DialectPostgres \<longrightarrow> set parts = {''?''})
    \<and> (dialect = DialectPostgres \<longrightarrow> distinct parts
         \<and> (\<forall>i<nat n. parts ! i = CHR ''$'' # FormatInt (start + int i)))"
proof -
  let ?parts = "map (\<lambda>i. Placeholder dialect (add64 start (int i))) [0..<nat n]"
  have add: "add64 start (int i) = start + int i" if "i < nat n" for i
    using that assms by (intro add64_id) (auto simp: i64_def)
  have "inj_on (\<lambda>i. FormatInt (add64 start (int i))) {0..<nat n}"
    by (auto simp: inj_on_def add FormatInt_inject)
  then have "distinct ?parts" if "dialect = DialectPostgres"
    using that by (auto simp: distinct_map Placeholder_def inj_on_def)
  moreover have "set ?parts = {''?''}" if "dialect \<noteq> DialectPostgres"
    using that assms(1) by (auto simp: Placeholder_def image_constant_conv)
  moreover have "?parts ! i = CHR ''$'' # FormatInt (start + int i)" if "dialect = DialectPostgres" "i < nat n" for i
    using that add by (simp add: Placeholder_def)
  ultimately show ?thesis using assms(1) by (intro exI [of _ ?parts]) (simp add: Placeholders_def)
qed

theorem placeholders_numbered_witness: "\<exists>parts. Placeholders DialectPostgres 3 2 = joinComma parts \<and> length parts = 3 \<and> distinct parts"
  using placeholders_numbered [of 3 2 DialectPostgres] by (auto simp: i64_def)

end
