(* ===== verification/Mail_Delivery.thy ===== *)
theory Mail_Delivery
  imports Notification Decimals
begin

text \<open>
  Delivery by SMTP (\<open>biz/notification/smtp.go\<close>). A session is the list of what was done on the
  connection, oldest first; the server answers each step, given what went before, with an error or
  none. The parsing and printing of addresses and the encoding of a subject are those of
  \<open>net/mail\<close> and \<open>mime\<close>, and are parameters.
\<close>

section \<open>Configuration and messages\<close>

type_synonym SMTPTLSMode = string

definition SMTPTLSModeStartTLS :: SMTPTLSMode where "SMTPTLSModeStartTLS = ''starttls''"
definition SMTPTLSModeImplicitTLS :: SMTPTLSMode where "SMTPTLSModeImplicitTLS = ''tls''"
definition SMTPTLSModeNone :: SMTPTLSMode where "SMTPTLSModeNone = ''none''"

lemmas tls_modes = SMTPTLSModeStartTLS_def SMTPTLSModeImplicitTLS_def SMTPTLSModeNone_def

definition ChannelEmail :: string where "ChannelEmail = ''email''"
definition defaultSMTPPort :: int64 where "defaultSMTPPort = 587"
definition defaultSMTPTimeout :: Duration where "defaultSMTPTimeout = 10000000000"

record SMTPConfig =
  sm_Host :: string
  sm_Port :: int64
  sm_ServerName :: string
  sm_Username :: string
  sm_Password :: string
  sm_From :: string
  sm_Channel :: string
  sm_TLSMode :: SMTPTLSMode
  sm_Timeout :: Duration

record MailAddress =
  ma_Name :: string
  ma_Address :: string

record MailLibrary =
  ml_ParseAddress :: "string \<Rightarrow> string + MailAddress"
  ml_ParseAddressList :: "string \<Rightarrow> string + MailAddress list"
  ml_String :: "MailAddress \<Rightarrow> string"
  ml_QEncode :: "string \<Rightarrow> string"

definition parseSingleAddress :: "MailLibrary \<Rightarrow> string \<Rightarrow> notify_error + MailAddress" where
  "parseSingleAddress lib value1 =
     (case ml_ParseAddress lib value1 of
        Inl e \<Rightarrow> Inl (NotifyOther e)
      | Inr address \<Rightarrow> if ma_Address address = [] then Inl ErrInvalidMessage else Inr address)"

definition parseAddressList :: "MailLibrary \<Rightarrow> string \<Rightarrow> notify_error + MailAddress list" where
  "parseAddressList lib value1 =
     (case ml_ParseAddressList lib value1 of
        Inl e \<Rightarrow> Inl (NotifyOther e)
      | Inr addresses \<Rightarrow> if length addresses = 0 then Inl ErrInvalidMessage else Inr addresses)"

definition normalizeSMTPConfig :: "SMTPConfig \<Rightarrow> SMTPConfig" where
  "normalizeSMTPConfig config =
     (let c1 = config\<lparr>sm_Host := TrimSpace (sm_Host config), sm_ServerName := TrimSpace (sm_ServerName config),
            sm_Username := TrimSpace (sm_Username config), sm_From := TrimSpace (sm_From config),
            sm_Channel := TrimSpace (sm_Channel config)\<rparr>;
          c2 = (if sm_Port c1 = 0 then c1\<lparr>sm_Port := defaultSMTPPort\<rparr> else c1);
          c3 = (if sm_ServerName c2 = [] then c2\<lparr>sm_ServerName := sm_Host c2\<rparr> else c2);
          c4 = (if sm_Channel c3 = [] then c3\<lparr>sm_Channel := ChannelEmail\<rparr> else c3);
          c5 = (if sm_TLSMode c4 = [] then c4\<lparr>sm_TLSMode := SMTPTLSModeStartTLS\<rparr> else c4)
      in if sm_Timeout c5 \<le> 0 then c5\<lparr>sm_Timeout := defaultSMTPTimeout\<rparr> else c5)"

definition validateSMTPConfig :: "MailLibrary \<Rightarrow> SMTPConfig \<Rightarrow> notify_error + unit" where
  "validateSMTPConfig lib config =
     (if sm_Host config = [] \<or> sm_Port config \<le> 0 \<or> sm_ServerName config = [] \<or> sm_From config = []
      then Inl ErrInvalidSMTPConfig
      else if sm_TLSMode config \<notin> {SMTPTLSModeStartTLS, SMTPTLSModeImplicitTLS, SMTPTLSModeNone}
      then Inl ErrInvalidSMTPConfig
      else if hasHeaderInjection (sm_From config) \<or> hasHeaderInjection (sm_ServerName config)
         \<or> hasHeaderInjection (sm_Channel config) then Inl ErrInvalidSMTPConfig
      else (case parseSingleAddress lib (sm_From config) of Inl _ \<Rightarrow> Inl ErrInvalidSMTPConfig | Inr _ \<Rightarrow> Inr ()))"

definition NewSMTPNotifier :: "MailLibrary \<Rightarrow> SMTPConfig \<Rightarrow> notify_error + SMTPConfig" where
  "NewSMTPNotifier lib config =
     (let c = normalizeSMTPConfig config in bind_ok (validateSMTPConfig lib c) (\<lambda>_. Inr c))"

definition validateSMTPMessage :: "MailLibrary \<Rightarrow> SMTPConfig \<Rightarrow> Message \<Rightarrow> notify_error + unit" where
  "validateSMTPMessage lib config m =
     (case Message_Validate m of Some e \<Rightarrow> Inl e | None \<Rightarrow>
        if mm_Channel m \<noteq> sm_Channel config then Inl ErrUnsupportedChannel
        else if hasHeaderInjection (mm_To m) \<or> hasHeaderInjection (mm_Subject m) then Inl ErrInvalidMessage
        else (case parseAddressList lib (mm_To m) of Inl _ \<Rightarrow> Inl ErrInvalidMessage | Inr _ \<Rightarrow> Inr ()))"

definition CRLF :: string where "CRLF = [CHR 0x0D, CHR 0x0A]"

definition writeHeader :: "string \<Rightarrow> string \<Rightarrow> string" where
  "writeHeader key value1 = key @ '': '' @ value1 @ CRLF"

fun commaList :: "string list \<Rightarrow> string" where
  "commaList [] = []"
| "commaList [part] = part"
| "commaList (part # rest) = part @ '', '' @ commaList rest"

definition addressListString :: "MailLibrary \<Rightarrow> MailAddress list \<Rightarrow> string" where
  "addressListString lib addresses = commaList (map (ml_String lib) addresses)"

text \<open>\<open>strings.ReplaceAll\<close> of CR LF by LF.\<close>

fun dropCR :: "string \<Rightarrow> string" where
  "dropCR [] = []"
| "dropCR [c] = [c]"
| "dropCR (c # d # s) =
     (if c = CHR 0x0D \<and> d = CHR 0x0A then CHR 0x0A # dropCR s else c # dropCR (d # s))"

definition normalizeEmailBody :: "string \<Rightarrow> string" where
  "normalizeEmailBody body =
     (let body1 = dropCR body;
          body2 = map (\<lambda>c. if c = CHR 0x0D then CHR 0x0A else c) body1
      in concat (map (\<lambda>c. if c = CHR 0x0A then CRLF else [c]) body2))"

definition buildSMTPMessage :: "MailLibrary \<Rightarrow> string \<Rightarrow> MailAddress list \<Rightarrow> Message \<Rightarrow> notify_error + string" where
  "buildSMTPMessage lib from1 recipients m =
     (if hasHeaderInjection from1 \<or> hasHeaderInjection (mm_Subject m) then Inl ErrInvalidMessage
      else Inr (writeHeader ''From'' from1
        @ writeHeader ''To'' (addressListString lib recipients)
        @ writeHeader ''Subject'' (ml_QEncode lib (mm_Subject m))
        @ writeHeader ''MIME-Version'' ''1.0''
        @ writeHeader ''Content-Type'' (''text/plain; charset='' @ CHR 0x22 # ''utf-8'' @ [CHR 0x22])
        @ writeHeader ''Content-Transfer-Encoding'' ''8bit''
        @ CRLF @ normalizeEmailBody (mm_Body m)))"

section \<open>The session\<close>

datatype smtpEvent =
  Dial string | SetDeadline | Handshake string | Greeting string | AskStartTLS | StartTLS string
| Auth string string string | MailFrom string | RcptTo string | DataBegin | WriteBody string | DataEnd | Quit | Close

type_synonym smtpServer = "smtpEvent list \<Rightarrow> smtpEvent \<Rightarrow> string option"

definition smtpDo :: "smtpServer \<Rightarrow> smtpEvent \<Rightarrow> smtpEvent list \<Rightarrow> (notify_error + unit) \<times> smtpEvent list" where
  "smtpDo server ev log =
     ((case server log ev of None \<Rightarrow> Inr () | Some e \<Rightarrow> Inl (NotifyOther e)), log @ [ev])"

text \<open>Closing the connection after an error, whatever closing answers.\<close>

definition closeOnError ::
  "smtpServer \<Rightarrow> (notify_error + unit) \<times> smtpEvent list \<Rightarrow> (notify_error + unit) \<times> smtpEvent list"
where
  "closeOnError server p =
     (case p of (Inr u, log) \<Rightarrow> (Inr u, log) | (Inl e, log) \<Rightarrow> (Inl e, snd (smtpDo server Close log)))"

definition smtpClient :: "smtpServer \<Rightarrow> SMTPConfig \<Rightarrow> string \<Rightarrow> smtpEvent list \<Rightarrow> (notify_error + unit) \<times> smtpEvent list" where
  "smtpClient server config address log =
     on_done (smtpDo server (Dial address) log) (\<lambda>_ log1.
     on_done (closeOnError server (smtpDo server SetDeadline log1)) (\<lambda>_ log2.
     if sm_TLSMode config = SMTPTLSModeImplicitTLS
     then on_done (closeOnError server (smtpDo server (Handshake (sm_ServerName config)) log2)) (\<lambda>_ log3.
            closeOnError server (smtpDo server (Greeting (sm_ServerName config)) log3))
     else closeOnError server (smtpDo server (Greeting (sm_ServerName config)) log2)))"

definition secure :: "smtpServer \<Rightarrow> SMTPConfig \<Rightarrow> smtpEvent list \<Rightarrow> (notify_error + unit) \<times> smtpEvent list" where
  "secure server config log =
     (if sm_TLSMode config = SMTPTLSModeImplicitTLS then (Inr (), log)
      else if sm_TLSMode config = SMTPTLSModeStartTLS then
        (case smtpDo server AskStartTLS log of
           (Inl _, log1) \<Rightarrow> fails ErrTLSRequired log1
         | (Inr _, log1) \<Rightarrow> smtpDo server (StartTLS (sm_ServerName config)) log1)
      else if sm_TLSMode config = SMTPTLSModeNone then (Inr (), log)
      else fails ErrInvalidSMTPConfig log)"

definition authenticate :: "smtpServer \<Rightarrow> SMTPConfig \<Rightarrow> smtpEvent list \<Rightarrow> (notify_error + unit) \<times> smtpEvent list" where
  "authenticate server config log =
     (if sm_Username config = [] \<and> sm_Password config = [] then (Inr (), log)
      else smtpDo server (Auth (sm_Username config) (sm_Password config) (sm_ServerName config)) log)"

fun rcptLoop :: "smtpServer \<Rightarrow> MailAddress list \<Rightarrow> smtpEvent list \<Rightarrow> (notify_error + unit) \<times> smtpEvent list" where
  "rcptLoop server [] log = (Inr (), log)"
| "rcptLoop server (recipient # recipients) log =
     on_done (smtpDo server (RcptTo (ma_Address recipient)) log) (\<lambda>_ log1. rcptLoop server recipients log1)"

definition writeMail :: "smtpServer \<Rightarrow> string \<Rightarrow> smtpEvent list \<Rightarrow> (notify_error + unit) \<times> smtpEvent list" where
  "writeMail server body log =
     (case smtpDo server (WriteBody body) log of
        (Inl e, log1) \<Rightarrow> (Inl e, snd (smtpDo server DataEnd log1))
      | (Inr _, log1) \<Rightarrow> smtpDo server DataEnd log1)"

text \<open>What is done once the client is there, up to the end of the session.\<close>

definition converse1 ::
  "smtpServer \<Rightarrow> SMTPConfig \<Rightarrow> MailAddress \<Rightarrow> MailAddress list \<Rightarrow> string \<Rightarrow> smtpEvent list
     \<Rightarrow> (notify_error + unit) \<times> smtpEvent list"
where
  "converse1 server config from1 recipients body log =
     on_done (secure server config log) (\<lambda>_ log1.
     on_done (authenticate server config log1) (\<lambda>_ log2.
     on_done (smtpDo server (MailFrom (ma_Address from1)) log2) (\<lambda>_ log3.
     on_done (rcptLoop server recipients log3) (\<lambda>_ log4.
     on_done (smtpDo server DataBegin log4) (\<lambda>_ log5.
     on_done (writeMail server body log5) (\<lambda>_ log6. smtpDo server Quit log6))))))"

definition JoinHostPort :: "string \<Rightarrow> string \<Rightarrow> string" where
  "JoinHostPort host port =
     (if CHR '':'' \<in> set host then CHR ''['' # host @ '']:'' @ port else host @ CHR '':'' # port)"

definition deliver ::
  "smtpServer \<Rightarrow> MailLibrary \<Rightarrow> SMTPConfig \<Rightarrow> Message \<Rightarrow> smtpEvent list \<Rightarrow> notify_error option \<times> smtpEvent list"
where
  "deliver server lib config m log =
     (case parseSingleAddress lib (sm_From config) of Inl e \<Rightarrow> (Some e, log) | Inr from1 \<Rightarrow>
     (case parseAddressList lib (mm_To m) of Inl e \<Rightarrow> (Some e, log) | Inr recipients \<Rightarrow>
     (case buildSMTPMessage lib (ml_String lib from1) recipients m of Inl e \<Rightarrow> (Some e, log) | Inr body \<Rightarrow>
     (case smtpClient server config (JoinHostPort (sm_Host config) (FormatInt (sm_Port config))) log of
        (Inl e, log1) \<Rightarrow> (Some e, log1)
      | (Inr _, log1) \<Rightarrow>
          (case converse1 server config from1 recipients body log1 of
             (Inr _, log2) \<Rightarrow> (None, log2)
           | (Inl e, log2) \<Rightarrow>
               (case smtpDo server Close log2 of
                  (Inl c, log3) \<Rightarrow> (joinErrors (Some e) (Some c), log3)
                | (Inr _, log3) \<Rightarrow> (Some e, log3)))))))"

text \<open>\<open>late\<close> is what the context says once an error is there: its error, or a deadline that has passed.\<close>

definition SMTPNotifier_Send ::
  "smtpServer \<Rightarrow> MailLibrary \<Rightarrow> ctx \<Rightarrow> ctx \<Rightarrow> SMTPConfig option \<Rightarrow> smtpEvent list notifier"
where
  "SMTPNotifier_Send server lib cx late notifier m log =
     (case cx of Some e \<Rightarrow> (Some (NotifyCtx e), log) | None \<Rightarrow>
     (case notifier of None \<Rightarrow> (Some ErrInvalidSMTPConfig, log) | Some config \<Rightarrow>
     (case validateSMTPMessage lib config m of Inl e \<Rightarrow> (Some e, log) | Inr _ \<Rightarrow>
     (case deliver server lib config m log of
        (None, log1) \<Rightarrow> (None, log1)
      | (Some e, log1) \<Rightarrow> (joinErrors (Some e) (map_option NotifyCtx late), log1)))))"

section \<open>Nothing is sent in the clear\<close>

fun carries :: "smtpEvent \<Rightarrow> bool" where
  "carries (Auth _ _ _) = True"
| "carries (MailFrom _) = True"
| "carries (RcptTo _) = True"
| "carries (WriteBody _) = True"
| "carries _ = False"

text \<open>The connection is protected after a handshake with the configured server that succeeded.\<close>

definition protected :: "smtpServer \<Rightarrow> SMTPConfig \<Rightarrow> smtpEvent list \<Rightarrow> bool" where
  "protected server config log \<longleftrightarrow>
     (\<exists>pre ev post. log = pre @ ev # post \<and> server pre ev = None
        \<and> (ev = Handshake (sm_ServerName config) \<or> ev = StartTLS (sm_ServerName config)))"

definition discreet :: "smtpServer \<Rightarrow> SMTPConfig \<Rightarrow> smtpEvent list \<Rightarrow> bool" where
  "discreet server config log \<longleftrightarrow>
     (\<forall>pre ev post. log = pre @ ev # post \<longrightarrow> carries ev \<longrightarrow> protected server config pre)"

lemma protected_more: "protected server config log \<Longrightarrow> protected server config (log @ more1)"
proof -
  assume "protected server config log"
  then obtain pre ev post where "log = pre @ ev # post" "server pre ev = None"
    "ev = Handshake (sm_ServerName config) \<or> ev = StartTLS (sm_ServerName config)" by (auto simp: protected_def)
  then show ?thesis unfolding protected_def by (intro exI [of _ pre] exI [of _ ev] exI [of _ "post @ more1"]) simp
qed

lemma protected_now:
  "server log ev = None \<Longrightarrow> ev = Handshake (sm_ServerName config) \<or> ev = StartTLS (sm_ServerName config)
     \<Longrightarrow> protected server config (log @ [ev])"
  unfolding protected_def by (intro exI [of _ log] exI [of _ ev] exI [of _ "[]"]) simp

lemma discreet_step:
  "discreet server config log \<Longrightarrow> \<not> carries ev \<or> protected server config log \<Longrightarrow> discreet server config (log @ [ev])"
  unfolding discreet_def by (auto simp: append_eq_append_conv2 append_eq_Cons_conv Cons_eq_append_conv)

lemma discreet_two:
  "discreet server config log \<Longrightarrow> \<not> carries a \<Longrightarrow> \<not> carries b \<Longrightarrow> discreet server config (log @ [a, b])"
  using discreet_step [of server config "log @ [a]" b] discreet_step [of server config log a] by simp

lemma discreet_Nil [simp]: "discreet server config []"
  by (simp add: discreet_def)

text \<open>Steps that carry nothing keep a session discreet, and all steps do once it is protected.\<close>

abbreviation safe :: "smtpServer \<Rightarrow> SMTPConfig \<Rightarrow> smtpEvent list \<Rightarrow> bool" where
  "safe server config log \<equiv> discreet server config log \<and> protected server config log"

lemma on_done_keeps:
  "P (snd p) \<Longrightarrow> (\<And>x log. p = (Inr x, log) \<Longrightarrow> P log \<Longrightarrow> P (snd (f x log))) \<Longrightarrow> P (snd (on_done p f))"
  by (cases p; cases "fst p") auto

lemma do_log: "snd (smtpDo server ev log) = log @ [ev]"
  by (simp add: smtpDo_def)

lemma do_ok: "fst (smtpDo server ev log) = Inr () \<longleftrightarrow> server log ev = None"
  by (simp add: smtpDo_def split: option.splits)

lemma do_discreet: "discreet server config log \<Longrightarrow> \<not> carries ev \<Longrightarrow> discreet server config (snd (smtpDo server ev log))"
  by (simp add: do_log discreet_step)

lemma do_safe: "safe server config log \<Longrightarrow> safe server config (snd (smtpDo server ev log))"
  by (simp add: do_log discreet_step protected_more)

lemma close_discreet: "discreet server config (snd p) \<Longrightarrow> discreet server config (snd (closeOnError server p))"
  by (cases p; cases "fst p") (auto simp: closeOnError_def do_discreet)

lemma close_ok: "closeOnError server p = (Inr x, log) \<longleftrightarrow> p = (Inr x, log)"
  by (cases p; cases "fst p") (auto simp: closeOnError_def)

lemma client_discreet:
  assumes "discreet server config log"
  shows "discreet server config (snd (smtpClient server config address log))"
  unfolding smtpClient_def
proof (rule on_done_keeps)
  show "discreet server config (snd (smtpDo server (Dial address) log))" using assms by (simp add: do_discreet)
next
  fix x :: unit and l assume l: "discreet server config l"
  show "discreet server config (snd (on_done (closeOnError server (smtpDo server SetDeadline l)) (\<lambda>_ log2.
     if sm_TLSMode config = SMTPTLSModeImplicitTLS
     then on_done (closeOnError server (smtpDo server (Handshake (sm_ServerName config)) log2)) (\<lambda>_ log3.
            closeOnError server (smtpDo server (Greeting (sm_ServerName config)) log3))
     else closeOnError server (smtpDo server (Greeting (sm_ServerName config)) log2))))"
  proof (rule on_done_keeps)
    show "discreet server config (snd (closeOnError server (smtpDo server SetDeadline l)))"
      using l by (simp add: close_discreet do_discreet)
  next
    fix y :: unit and l2 assume "discreet server config l2"
    then show "discreet server config (snd (if sm_TLSMode config = SMTPTLSModeImplicitTLS
       then on_done (closeOnError server (smtpDo server (Handshake (sm_ServerName config)) l2)) (\<lambda>_ log3.
              closeOnError server (smtpDo server (Greeting (sm_ServerName config)) log3))
       else closeOnError server (smtpDo server (Greeting (sm_ServerName config)) l2)))"
      by (auto intro!: on_done_keeps [of "discreet server config"] close_discreet do_discreet)
  qed
qed

lemma client_protected:
  assumes "smtpClient server config address log = (Inr x, log')" "sm_TLSMode config = SMTPTLSModeImplicitTLS"
  shows "protected server config log'"
proof -
  obtain log2 log3 where "smtpDo server (Handshake (sm_ServerName config)) log2 = (Inr (), log3)"
    "smtpDo server (Greeting (sm_ServerName config)) log3 = (Inr (), log')"
    using assms by (auto simp: smtpClient_def on_done_Inr close_ok)
  then have "server log2 (Handshake (sm_ServerName config)) = None" "log' = (log2 @ [Handshake (sm_ServerName config)]) @ [Greeting (sm_ServerName config)]"
    by (auto simp: smtpDo_def split: option.splits)
  then show ?thesis using protected_more [OF protected_now] by metis
qed

lemma secure_discreet: "discreet server config log \<Longrightarrow> discreet server config (snd (secure server config log))"
  by (auto simp: secure_def smtpDo_def discreet_step discreet_two split: option.splits)

lemma secure_protected:
  assumes "secure server config log = (Inr x, log')" "sm_TLSMode config \<noteq> SMTPTLSModeNone"
    and "sm_TLSMode config = SMTPTLSModeImplicitTLS \<Longrightarrow> protected server config log"
  shows "protected server config log'"
proof (cases "sm_TLSMode config = SMTPTLSModeImplicitTLS")
  case False
  then have "\<exists>log1. server log1 (StartTLS (sm_ServerName config)) = None \<and> log' = log1 @ [StartTLS (sm_ServerName config)]"
    using assms(1,2) by (auto simp: secure_def smtpDo_def split: if_splits option.splits)
  then show ?thesis using protected_now by blast
qed (use assms in \<open>simp add: secure_def\<close>)

lemma authenticate_safe: "safe server config log \<Longrightarrow> safe server config (snd (authenticate server config log))"
  by (simp add: authenticate_def do_safe)

lemma rcpt_safe: "safe server config log \<Longrightarrow> safe server config (snd (rcptLoop server recipients log))"
proof (induction recipients arbitrary: log)
  case (Cons recipient recipients)
  show ?case unfolding rcptLoop.simps
    by (rule on_done_keeps [of "safe server config"]) (use Cons do_safe in blast)+
qed simp

lemma write_safe: "safe server config log \<Longrightarrow> safe server config (snd (writeMail server body log))"
proof -
  assume "safe server config log"
  then have one: "safe server config (log @ [WriteBody body])" using do_safe [of server config log "WriteBody body"] by (simp add: do_log)
  show ?thesis using do_safe [OF one, of DataEnd] one
    by (auto simp: writeMail_def smtpDo_def split: option.splits)
qed

lemma converse_discreet:
  assumes "discreet server config log" "sm_TLSMode config \<noteq> SMTPTLSModeNone"
    and "sm_TLSMode config = SMTPTLSModeImplicitTLS \<Longrightarrow> protected server config log"
  shows "discreet server config (snd (converse1 server config from1 recipients body log))"
  unfolding converse1_def
proof (rule on_done_keeps)
  show "discreet server config (snd (secure server config log))" using assms(1) by (rule secure_discreet)
next
  fix x :: unit and log1
  assume s: "secure server config log = (Inr x, log1)" and "discreet server config log1"
  then have "safe server config log1" using secure_protected [OF s assms(2,3)] by blast
  then have "safe server config (snd (on_done (authenticate server config log1) (\<lambda>_ log2.
     on_done (smtpDo server (MailFrom (ma_Address from1)) log2) (\<lambda>_ log3.
     on_done (rcptLoop server recipients log3) (\<lambda>_ log4.
     on_done (smtpDo server DataBegin log4) (\<lambda>_ log5.
     on_done (writeMail server body log5) (\<lambda>_ log6. smtpDo server Quit log6)))))))"
    by (intro on_done_keeps [of "safe server config"] authenticate_safe do_safe rcpt_safe write_safe)
  then show "discreet server config (snd (on_done (authenticate server config log1) (\<lambda>_ log2.
     on_done (smtpDo server (MailFrom (ma_Address from1)) log2) (\<lambda>_ log3.
     on_done (rcptLoop server recipients log3) (\<lambda>_ log4.
     on_done (smtpDo server DataBegin log4) (\<lambda>_ log5.
     on_done (writeMail server body log5) (\<lambda>_ log6. smtpDo server Quit log6)))))))" by blast
qed

lemma deliver_discreet:
  assumes "sm_TLSMode config \<noteq> SMTPTLSModeNone"
  shows "discreet server config (snd (deliver server lib config m []))"
proof -
  have run: "discreet server config (snd (case smtpClient server config address [] of
        (Inl e, log1) \<Rightarrow> (Some e, log1)
      | (Inr _, log1) \<Rightarrow>
          (case converse1 server config from1 recipients body log1 of
             (Inr _, log2) \<Rightarrow> (None, log2)
           | (Inl e, log2) \<Rightarrow>
               (case smtpDo server Close log2 of
                  (Inl c, log3) \<Rightarrow> (joinErrors (Some e) (Some c), log3)
                | (Inr _, log3) \<Rightarrow> (Some e, log3)))))" for address from1 recipients body
  proof -
    obtain r log1 where c: "smtpClient server config address [] = (r, log1)" by fastforce
    have d1: "discreet server config log1" using client_discreet [of server config "[]" address] c by simp
    obtain r2 log2 where v: "converse1 server config from1 recipients body log1 = (r2, log2)" by fastforce
    have d2: "discreet server config log2" if "r = Inr x" for x
      using converse_discreet [OF d1 assms, of from1 recipients body] client_protected [OF c [unfolded that]] v by simp
    show ?thesis
      using d1 d2 discreet_step [of server config log2 Close]
      by (cases r; cases r2) (auto simp: c v smtpDo_def split: option.splits)
  qed
  show ?thesis using run by (simp add: deliver_def split: sum.splits)
qed

text \<open>
  C20. Mail is not sent in the clear. Whatever the server answers, and unless the configuration says
  in so many words that there is no TLS, neither credentials nor addresses nor the message are
  given to the connection before a TLS handshake with the configured server has succeeded on it; a
  configuration that says nothing asks for STARTTLS.
\<close>

theorem mail_never_in_clear:
  assumes "NewSMTPNotifier lib config = Inr notifier" "sm_TLSMode config \<noteq> SMTPTLSModeNone"
  shows "discreet server notifier (snd (SMTPNotifier_Send server lib cx late (Some notifier) m []))
    \<and> sm_TLSMode notifier = (if sm_TLSMode config = [] then SMTPTLSModeStartTLS else sm_TLSMode config)"
proof -
  have n: "notifier = normalizeSMTPConfig config" using assms(1) by (auto simp: NewSMTPNotifier_def Let_def ok_simps)
  have mode: "sm_TLSMode notifier = (if sm_TLSMode config = [] then SMTPTLSModeStartTLS else sm_TLSMode config)"
    by (simp add: n normalizeSMTPConfig_def Let_def)
  then have "sm_TLSMode notifier \<noteq> SMTPTLSModeNone" using assms(2) by (simp add: tls_modes)
  then have "discreet server notifier (snd (deliver server lib notifier m []))" by (rule deliver_discreet)
  then have "discreet server notifier (snd (SMTPNotifier_Send server lib cx late (Some notifier) m []))"
    by (auto simp: SMTPNotifier_Send_def split: option.splits sum.splits prod.splits)
  with mode show ?thesis by blast
qed

definition sampleLibrary :: MailLibrary where
  "sampleLibrary = \<lparr>ml_ParseAddress = (\<lambda>s. Inr \<lparr>ma_Name = [], ma_Address = s\<rparr>),
     ml_ParseAddressList = (\<lambda>s. Inr [\<lparr>ma_Name = [], ma_Address = s\<rparr>]), ml_String = ma_Address, ml_QEncode = (\<lambda>s. s)\<rparr>"

definition sampleSMTP :: SMTPConfig where
  "sampleSMTP = \<lparr>sm_Host = ''mx'', sm_Port = 0, sm_ServerName = [], sm_Username = ''u'', sm_Password = ''p'',
     sm_From = ''a@b'', sm_Channel = [], sm_TLSMode = [], sm_Timeout = 0\<rparr>"

definition sampleNotifier :: SMTPConfig where
  "sampleNotifier = \<lparr>sm_Host = ''mx'', sm_Port = 587, sm_ServerName = ''mx'', sm_Username = ''u'', sm_Password = ''p'',
     sm_From = ''a@b'', sm_Channel = ''email'', sm_TLSMode = ''starttls'', sm_Timeout = 10000000000\<rparr>"

definition sampleMail :: Message where
  "sampleMail = \<lparr>mm_ID = ''m'', mm_TenantID = ''t'', mm_Channel = ''email'', mm_To = ''c@d'', mm_Subject = ''hi'',
     mm_Body = [CHR ''x'', CHR 0x0A, CHR ''y''], mm_Metadata = None, mm_Tags = None\<rparr>"

text \<open>A server that takes everything, and one whose handshake fails: the first is given the mail, the second is not.\<close>

lemma mail_never_in_clear_witness:
  "NewSMTPNotifier sampleLibrary sampleSMTP = Inr sampleNotifier
   \<and> discreet (\<lambda>_ _. None) sampleNotifier (snd (SMTPNotifier_Send (\<lambda>_ _. None) sampleLibrary None None (Some sampleNotifier) sampleMail []))
   \<and> list_ex carries (snd (SMTPNotifier_Send (\<lambda>_ _. None) sampleLibrary None None (Some sampleNotifier) sampleMail []))
   \<and> \<not> list_ex carries (snd (SMTPNotifier_Send (\<lambda>_ ev. if ev = StartTLS ''mx'' then Some ''no'' else None)
          sampleLibrary None None (Some sampleNotifier) sampleMail []))"
proof -
  have new: "NewSMTPNotifier sampleLibrary sampleSMTP = Inr sampleNotifier" by code_simp
  have mode: "sm_TLSMode sampleSMTP \<noteq> SMTPTLSModeNone" by code_simp
  have "list_ex carries (snd (SMTPNotifier_Send (\<lambda>_ _. None) sampleLibrary None None (Some sampleNotifier) sampleMail []))"
    by code_simp
  moreover have "\<not> list_ex carries (snd (SMTPNotifier_Send (\<lambda>_ ev. if ev = StartTLS ''mx'' then Some ''no'' else None)
          sampleLibrary None None (Some sampleNotifier) sampleMail []))" by code_simp
  ultimately show ?thesis
    using new mail_never_in_clear [OF new mode, of "\<lambda>_ _. None" None None sampleMail] by blast
qed

section \<open>The message that is written\<close>

definition writesOnly :: "string \<Rightarrow> smtpEvent list \<Rightarrow> bool" where
  "writesOnly body log \<longleftrightarrow> (\<forall>b. WriteBody b \<in> set log \<longrightarrow> b = body)"

lemma do_only: "writesOnly body log \<Longrightarrow> (\<And>b. ev = WriteBody b \<Longrightarrow> b = body) \<Longrightarrow> writesOnly body (snd (smtpDo server ev log))"
  by (auto simp: writesOnly_def do_log)

lemma close_only: "writesOnly body (snd p) \<Longrightarrow> writesOnly body (snd (closeOnError server p))"
  by (cases p; cases "fst p") (auto simp: closeOnError_def do_log writesOnly_def)

lemma client_only: "writesOnly body log \<Longrightarrow> writesOnly body (snd (smtpClient server config address log))"
  unfolding smtpClient_def
  by (auto intro!: on_done_keeps [of "writesOnly body"] close_only do_only)

lemma secure_only: "writesOnly body log \<Longrightarrow> writesOnly body (snd (secure server config log))"
  by (auto simp: secure_def smtpDo_def writesOnly_def split: option.splits)

lemma rcpt_only: "writesOnly body log \<Longrightarrow> writesOnly body (snd (rcptLoop server recipients log))"
proof (induction recipients arbitrary: log)
  case (Cons recipient recipients)
  show ?case unfolding rcptLoop.simps
    by (rule on_done_keeps [of "writesOnly body"]) (use Cons do_only in blast)+
qed simp

lemma write_only: "writesOnly body log \<Longrightarrow> writesOnly body (snd (writeMail server body log))"
  by (auto simp: writeMail_def smtpDo_def writesOnly_def split: option.splits)

lemma converse_only: "writesOnly body log \<Longrightarrow> writesOnly body (snd (converse1 server config from1 recipients body log))"
  unfolding converse1_def
  by (intro on_done_keeps [of "writesOnly body"] secure_only rcpt_only write_only do_only)
    (auto simp: authenticate_def intro: do_only)

lemma deliver_written:
  assumes "WriteBody b \<in> set (snd (deliver server lib config m []))"
  shows "\<exists>from1 recipients. parseSingleAddress lib (sm_From config) = Inr from1
    \<and> parseAddressList lib (mm_To m) = Inr recipients \<and> buildSMTPMessage lib (ml_String lib from1) recipients m = Inr b"
proof -
  obtain from1 recipients body where parts: "parseSingleAddress lib (sm_From config) = Inr from1"
    "parseAddressList lib (mm_To m) = Inr recipients" "buildSMTPMessage lib (ml_String lib from1) recipients m = Inr body"
    using assms by (auto simp: deliver_def split: sum.splits)
  let ?address = "JoinHostPort (sm_Host config) (FormatInt (sm_Port config))"
  obtain r log1 where c: "smtpClient server config ?address [] = (r, log1)" by fastforce
  obtain r2 log2 where v: "converse1 server config from1 recipients body log1 = (r2, log2)" by fastforce
  have one: "writesOnly body log1" using client_only [of body "[]" server config ?address] c by (simp add: writesOnly_def)
  have two: "writesOnly body log2" using converse_only [OF one, of server config from1 recipients] v by simp
  have "writesOnly body (snd (deliver server lib config m []))"
    using one two parts by (cases r; cases r2) (auto simp: deliver_def c v smtpDo_def writesOnly_def split: option.splits)
  then show ?thesis using assms parts unfolding writesOnly_def by blast
qed

text \<open>The lines of a text, whichever of CR LF, CR and LF ends them, and lines joined by CR LF.\<close>

fun bodyLines :: "string \<Rightarrow> string list" where
  "bodyLines [] = [[]]"
| "bodyLines [c] = (if c = CHR 0x0D \<or> c = CHR 0x0A then [[], []] else [[c]])"
| "bodyLines (c # d # s) =
     (if c = CHR 0x0D \<and> d = CHR 0x0A then [] # bodyLines s
      else if c = CHR 0x0D \<or> c = CHR 0x0A then [] # bodyLines (d # s)
      else (c # hd (bodyLines (d # s))) # tl (bodyLines (d # s)))"

fun joinLines :: "string list \<Rightarrow> string" where
  "joinLines [] = []"
| "joinLines [l] = l"
| "joinLines (l # rest) = l @ CRLF @ joinLines rest"

lemma bodyLines_Cons: "\<exists>l ls. bodyLines s = l # ls"
  by (cases s rule: bodyLines.cases) auto

lemma joinLines_Cons: "ls \<noteq> [] \<Longrightarrow> joinLines (l # ls) = l @ CRLF @ joinLines ls"
  by (cases ls) auto

lemma joinLines_char: "joinLines ((c # l) # ls) = c # joinLines (l # ls)"
  by (cases ls) auto

lemma bodyLines_plain: "l \<in> set (bodyLines s) \<Longrightarrow> \<not> hasHeaderInjection l"
proof (induction s arbitrary: l rule: bodyLines.induct)
  case (3 c d s)
  obtain k ks where "bodyLines (d # s) = k # ks" using bodyLines_Cons by blast
  with 3 show ?case by (auto simp: hasHeaderInjection_def split: if_splits)
qed (auto simp: hasHeaderInjection_def split: if_splits)

definition crlf1 :: "char \<Rightarrow> string" where
  "crlf1 c = (if c = CHR 0x0A then CRLF else [c])"

lemma normalize_steps:
  "normalizeEmailBody body = concat (map crlf1 (map (\<lambda>c. if c = CHR 0x0D then CHR 0x0A else c) (dropCR body)))"
  by (simp add: normalizeEmailBody_def Let_def crlf1_def [abs_def])

lemma normalize_lines: "normalizeEmailBody body = joinLines (bodyLines body)"
proof (induction body rule: dropCR.induct)
  case (3 c d s)
  obtain k ks where k: "bodyLines (d # s) = k # ks" using bodyLines_Cons by blast
  obtain l ls where l: "bodyLines s = l # ls" using bodyLines_Cons by blast
  consider "c = CHR 0x0D \<and> d = CHR 0x0A" | "\<not> (c = CHR 0x0D \<and> d = CHR 0x0A)" by blast
  then show ?case
  proof cases
    case 1
    with "3.IH"(1) l show ?thesis by (simp add: normalize_steps crlf1_def joinLines_Cons)
  next
    case 2
    then have "normalizeEmailBody (c # d # s) = crlf1 (if c = CHR 0x0D then CHR 0x0A else c) @ normalizeEmailBody (d # s)"
      by (simp add: normalize_steps)
    with "3.IH"(2) [OF 2] k 2 show ?thesis by (simp add: crlf1_def joinLines_Cons joinLines_char del: bodyLines.simps) (simp add: k joinLines_char)
  qed
qed (auto simp: normalize_steps crlf1_def CRLF_def)

text \<open>What is asked of \<open>net/mail\<close> and \<open>mime\<close>: they make no line breaks of their own.\<close>

definition plainLibrary :: "MailLibrary \<Rightarrow> bool" where
  "plainLibrary lib \<longleftrightarrow>
     (\<forall>s as a. ml_ParseAddressList lib s = Inr as \<longrightarrow> a \<in> set as \<longrightarrow> \<not> hasHeaderInjection s
        \<longrightarrow> \<not> hasHeaderInjection (ml_String lib a))
     \<and> (\<forall>s. \<not> hasHeaderInjection s \<longrightarrow> \<not> hasHeaderInjection (ml_QEncode lib s))"

lemma commaList_plain: "\<forall>p\<in>set parts. \<not> hasHeaderInjection p \<Longrightarrow> \<not> hasHeaderInjection (commaList parts)"
  by (induction parts rule: commaList.induct) (auto simp: hasHeaderInjection_def)

text \<open>
  No header can be smuggled into a mail. What is written to the connection is six headers, by
  name and in this order, the sender, the recipients and the subject in the first three, each on one
  line whatever they are, an empty line, and the lines of the body, each ended in the same way; and what
  would need a line break in a header is refused before anything is sent.
\<close>

theorem mail_headers_intact:
  assumes "plainLibrary lib" "WriteBody written \<in> set (snd (SMTPNotifier_Send server lib cx late (Some notifier) m []))"
  shows "\<exists>headers. written = concat (map (\<lambda>(key, value1). key @ '': '' @ value1 @ CRLF) headers) @ CRLF @ joinLines (bodyLines (mm_Body m))
    \<and> map fst headers = [''From'', ''To'', ''Subject'', ''MIME-Version'', ''Content-Type'', ''Content-Transfer-Encoding'']
    \<and> (\<exists>from1 recipients. ml_ParseAddress lib (sm_From notifier) = Inr from1 \<and> ml_ParseAddressList lib (mm_To m) = Inr recipients
         \<and> take 3 (map snd headers) = [ml_String lib from1, commaList (map (ml_String lib) recipients), ml_QEncode lib (mm_Subject m)])
    \<and> (\<forall>(key, value1)\<in>set headers. \<not> hasHeaderInjection value1)
    \<and> (\<forall>l\<in>set (bodyLines (mm_Body m)). \<not> hasHeaderInjection l)
    \<and> mm_Channel m = sm_Channel notifier \<and> \<not> hasHeaderInjection (mm_To m) \<and> \<not> hasHeaderInjection (mm_Subject m)"
proof -
  have valid: "validateSMTPMessage lib notifier m = Inr ()" and sent: "WriteBody written \<in> set (snd (deliver server lib notifier m []))"
    using assms(2) by (auto simp: SMTPNotifier_Send_def split: option.splits sum.splits prod.splits)
  from deliver_written [OF sent] obtain from1 recipients where parts: "parseSingleAddress lib (sm_From notifier) = Inr from1"
    "parseAddressList lib (mm_To m) = Inr recipients" "buildSMTPMessage lib (ml_String lib from1) recipients m = Inr written" by blast
  have sender: "ml_ParseAddress lib (sm_From notifier) = Inr from1"
    using parts(1) by (auto simp: parseSingleAddress_def split: sum.splits if_splits)
  have plain: "mm_Channel m = sm_Channel notifier" "\<not> hasHeaderInjection (mm_To m)" "\<not> hasHeaderInjection (mm_Subject m)"
    using valid by (auto simp: validateSMTPMessage_def split: option.splits if_splits)
  have listed: "ml_ParseAddressList lib (mm_To m) = Inr recipients" using parts(2) by (auto simp: parseAddressList_def split: sum.splits if_splits)
  from listed have to: "\<not> hasHeaderInjection (addressListString lib recipients)"
    using assms(1) plain(2) unfolding plainLibrary_def addressListString_def by (intro commaList_plain) auto
  have subject: "\<not> hasHeaderInjection (ml_QEncode lib (mm_Subject m))" using assms(1) plain(3) unfolding plainLibrary_def by blast
  let ?headers = "[(''From'', ml_String lib from1), (''To'', addressListString lib recipients),
    (''Subject'', ml_QEncode lib (mm_Subject m)), (''MIME-Version'', ''1.0''),
    (''Content-Type'', ''text/plain; charset='' @ CHR 0x22 # ''utf-8'' @ [CHR 0x22]), (''Content-Transfer-Encoding'', ''8bit'')]"
  have "\<not> hasHeaderInjection (ml_String lib from1)" and written: "written = concat (map (\<lambda>(key, value1). key @ '': '' @ value1 @ CRLF) ?headers)
      @ CRLF @ joinLines (bodyLines (mm_Body m))"
    using parts(3) by (auto simp: buildSMTPMessage_def writeHeader_def normalize_lines split: if_splits)
  moreover have "\<not> hasHeaderInjection ''1.0''" "\<not> hasHeaderInjection ''8bit''"
    "\<not> hasHeaderInjection (''text/plain; charset='' @ CHR 0x22 # ''utf-8'' @ [CHR 0x22])" by code_simp+
  ultimately show ?thesis using plain to subject bodyLines_plain sender listed
    by (intro exI [of _ ?headers] conjI) (simp_all add: addressListString_def)
qed

lemma mail_headers_intact_witness:
  "plainLibrary sampleLibrary
   \<and> (\<exists>written headers. WriteBody written \<in> set (snd (SMTPNotifier_Send (\<lambda>_ _. None) sampleLibrary None None (Some sampleNotifier) sampleMail []))
        \<and> written = concat (map (\<lambda>(key, value1). key @ '': '' @ value1 @ CRLF) headers) @ CRLF @ joinLines (bodyLines (mm_Body sampleMail))
        \<and> length headers = 6 \<and> bodyLines (mm_Body sampleMail) = [''x'', ''y''])"
proof -
  let ?run = "snd (SMTPNotifier_Send (\<lambda>_ _. None) sampleLibrary None None (Some sampleNotifier) sampleMail [])"
  have lib: "plainLibrary sampleLibrary" by (auto simp: plainLibrary_def sampleLibrary_def)
  have "list_ex (\<lambda>ev. case ev of WriteBody _ \<Rightarrow> True | _ \<Rightarrow> False) ?run" by code_simp
  then obtain ev where "ev \<in> set ?run" "case ev of WriteBody _ \<Rightarrow> True | _ \<Rightarrow> False" unfolding list_ex_iff by blast
  then obtain written where w: "WriteBody written \<in> set ?run" by - (cases ev; simp)
  obtain headers where h:
    "written = concat (map (\<lambda>(key, value1). key @ '': '' @ value1 @ CRLF) headers) @ CRLF @ joinLines (bodyLines (mm_Body sampleMail))"
    "map fst headers = [''From'', ''To'', ''Subject'', ''MIME-Version'', ''Content-Type'', ''Content-Transfer-Encoding'']"
    using mail_headers_intact [OF lib w] by (elim exE conjE) (rule that)
  from arg_cong [OF h(2), of length] have "length headers = 6" by simp
  moreover have "bodyLines (mm_Body sampleMail) = [''x'', ''y'']" by code_simp
  ultimately show ?thesis using lib w h(1) by blast
qed

end
