(* ===== verification/Spec2Isabelle.thy ===== *)
theory Spec2Isabelle
  imports
    Commission_Caps
    Core_Context
    Tenant_Guarantees
    Deployment_Guarantees
    Quota
    Plan
    Subscription_Guarantees
    Onboarding_Guarantees
    SQL_Guarantees
    Cached_Guarantees
    Identity_Guarantees
    Access_Control
    AI_Guarantees
    Scoped_Cache
    Migration
    Resolver
    Admission
    OIDC_Pending
    Observability
    SQL_Helpers
    Mail_Delivery
begin

text \<open>
  A verification library for the multi-tenancy toolkit of this repository: tenants, their lifecycle
  and the deployment units they are placed on, the admission of requests, users and logins, plans,
  subscriptions, feature flags, quotas and metering, caches, statements on shared tables, the audit
  log, notifications, the onboarding of a tenant, and the commission ledger.

  \<^bold>\<open>The parts and how they interact.\<close> A request arrives at the middleware of a framework
  (\<open>web\<close>) or an interceptor (\<open>rpc\<close>), which finds the identifier of the tenant (\<open>core/resolver\<close>, or
  a carrier that a caller filled), reads the tenant (\<open>core/types\<close>) from a store (\<open>core/store\<close>) that
  may be cached, asks the deployment service for its unit and puts both into the context
  (\<open>core/context\<close>) for the handler; what is logged of it is redacted (\<open>obs\<close>). The tenant manager
  (\<open>tenant\<close>) reads and conditionally replaces tenants in the store; the deployment service
  (\<open>deployment\<close>) places them on units through versioned assignments and two-phase moves. A login
  (\<open>biz/identity\<close>, and \<open>biz/identity/oidc\<close> for OpenID Connect) turns the assertion of a provider
  into a session of a user (\<open>biz/user\<close>) with the roles of a membership, which \<open>biz/rbac\<close> judges.
  Plans (\<open>plan\<close>) are a directory; a subscription (\<open>subscription\<close>) binds a tenant to a plan and is
  staged while a billing hook runs; usage is counted against limits (\<open>quota\<close>), that of models
  through a meter (\<open>ai\<close>); features are resolved from plan defaults and tenant overrides
  (\<open>feature\<close>). Onboarding (\<open>onboarding\<close>) is one flow over these services with an audit log
  (\<open>biz/audit\<close>) and a notifier (\<open>biz/notification\<close>). Statements on shared tables are rewritten so
  that they stay within the tenant of the context (\<open>data\<close>, \<open>data/sqlx\<close>), tables and indexes are
  planned (\<open>migration\<close>), and cached values are scoped (\<open>cache\<close>). The commission service
  (\<open>biz/commission\<close>) turns sales events into earnings that freeze, become available and are paid
  through settlements, with a journal and an outbox.

  \<^bold>\<open>Theories.\<close>
  \<^item> \<open>Prelude\<close>: 64-bit arithmetic with its wrap-around, byte strings and \<open>TrimSpace\<close>, instants,
    contexts, early returns, Go maps as association lists. \<open>Decimals\<close>: \<open>strconv\<close>'s decimal
    numerals. \<open>Paging\<close>: the paging and seeking the in-memory stores share.
  \<^item> \<open>Interfaces\<close>: the locales \<open>directory\<close> (a store of keyed records refines a finite map),
    \<open>cas_directory\<close> (with a conditional replacement), \<open>cursor_listing\<close> (a page-by-page walk is
    ordered and misses nothing) and \<open>optimistic\<close> (commands that name the version they expect).
    \<open>Tenant_Store\<close> interprets the first three, \<open>Plan\<close> the first and the third, \<open>Access_Control\<close> the
    first, \<open>Users\<close> the third and \<open>Deployment_Guarantees\<close> the last. The other contracts stand with
    their clients: \<open>tenant_backend\<close> (\<open>Tenant_Lifecycle\<close>), \<open>tenant_source\<close>, \<open>tenant_cache\<close> and
    \<open>cached_source\<close> (\<open>Cached_Coherence\<close>, \<open>Tenant_Cache\<close>), \<open>login_backend\<close> and
    \<open>stable_login_backend\<close> (\<open>Identity_Guarantees\<close>), \<open>usage_backend\<close> (\<open>AI_Guarantees\<close>),
    \<open>byte_cache\<close> (\<open>Scoped_Cache\<close>), \<open>contributor\<close> (\<open>Resolver\<close>) and \<open>tenant_carrier\<close>
    (\<open>Tenant_Carriers\<close>); each is interpreted with the models of the in-memory stores or of the
    repository's own contributors and carriers.
  \<^item> \<open>Core_Types\<close> (\<open>core/types\<close>): tenants, units, tenant identifiers and their parser.
    \<open>Core_Context\<close> (\<open>core/context\<close>): the sides of a context.
  \<^item> \<open>Tenant_Store\<close> (\<open>core/store\<close>: \<open>memory.go\<close>, \<open>store.go\<close>, \<open>clone.go\<close>): the operations
    \<open>Tenants_...\<close> on a map of tenants; it refines a finite map, and listing is complete.
  \<^item> \<open>Tenant_Cache\<close>, \<open>Cached_Store\<close> (\<open>core/store\<close>: \<open>memory_cache.go\<close>, \<open>cached.go\<close>): the cache, and the
    operations \<open>Cached_...\<close> as sequences of atomic sections; \<open>Cached_Coherence\<close> proves coherence under
    interleaving for any source and cache that keep the contracts \<open>tenant_source\<close> and
    \<open>tenant_cache\<close>, \<open>Cached_Guarantees\<close> instantiates it with the in-memory ones.
  \<^item> \<open>Tenant_Manager\<close>, \<open>Tenant_Lifecycle\<close>, \<open>Tenant_Guarantees\<close> (\<open>tenant\<close>): the commands
    \<open>Manager_...\<close> with their compare-and-swap loop of 16 attempts; each makes exactly its own change
    once, on top of what the others did (\<open>othersUntil\<close>), loses no update, and does not starve.
  \<^item> \<open>Deployment_Store\<close>, \<open>Deployment_Invariants\<close>, \<open>Deployment_Service\<close>, \<open>Deployment_Guarantees\<close>
    (\<open>deployment\<close>): the operations \<open>Deploy_...\<close> and the commands \<open>DeployService_...\<close>; every tenant
    stays on an active unit, and moves do what they say.
  \<^item> \<open>Quota\<close> (\<open>quota\<close>), \<open>Plan\<close> (\<open>plan\<close>): usage never overruns a limit; plans refine a map.
  \<^item> \<open>Subscription\<close>, \<open>Subscription_Guarantees\<close> (\<open>subscription\<close>): the staged mutations
    \<open>Sub_...\<close>, the channel of a pending mutation on which others wait and its closing
    (\<open>ss_closed\<close>, \<open>waitDone\<close>); they are atomic, follow the lifecycle, and no wake-up is lost.
  \<^item> \<open>Feature\<close> (\<open>feature\<close>), \<open>Audit_Log\<close> (\<open>biz/audit\<close>): a listing is what resolves; the log is
    listed as recorded. \<open>Notification\<close> (\<open>biz/notification\<close>): the router, the fan-out, the timeout
    and the retry loop over any notifier, with their bounds. \<open>Mail_Delivery\<close>
    (\<open>biz/notification/smtp.go\<close>): a session with a mail server as the list of what was done on the
    connection; nothing is sent in the clear, and no header can be smuggled in.
  \<^item> \<open>Onboarding\<close> (\<open>onboarding/service.go\<close>): the flow over the interfaces of seven services;
    \<open>Onboarding_Platform\<close> instantiates it with the models of the in-memory services and says what
    each step changes; \<open>Onboarding_Guarantees\<close>: isolation but for the feature defaults of the
    requested plan, completeness with what is delivered, idempotence of retries.
  \<^item> \<open>SQL_Scanner\<close>, \<open>SQL_Filter\<close> (\<open>data\<close>, \<open>data/sqlx\<close>): the scanner, the analysis of statements,
    the tenant filter and the rewriting; \<open>SQL_Lexemes\<close>: how a text scans that is cut or joined;
    \<open>SQL_Guarantees\<close>: what a rewritten statement is when it is scanned again.
  \<^item> \<open>SQL_Helpers\<close> (\<open>internal/sqlutil\<close>): placeholders, dialects, JSON columns and the recognition
    of errors. \<open>Migration\<close> (\<open>migration\<close>): the statements of the planner, scanned by the scanner above.
  \<^item> \<open>Resolver\<close> (\<open>core/resolver\<close>): the five contributors and their composite. \<open>Tenant_Carriers\<close>
    (\<open>rpc\<close>, \<open>rpc/mq\<close>, \<open>rpc/grpc\<close>): injection and extraction. \<open>Admission\<close> (\<open>web\<close>, \<open>rpc/grpc\<close>): the
    middleware and guards of six frameworks; they agree, and a handler runs as the tenant of its
    request. \<open>Observability\<close> (\<open>obs\<close>): what is logged does not depend on secrets.
  \<^item> \<open>Access_Control\<close> (\<open>biz/rbac\<close>), \<open>Users\<close> (\<open>biz/user\<close>): roles and decisions, users and
    memberships. \<open>Identity\<close>, \<open>Identity_Guarantees\<close> (\<open>biz/identity\<close>): links and logins over any
    user service and link store. \<open>OIDC_Login\<close>, \<open>OIDC_Pending\<close> (\<open>biz/identity/oidc\<close>): the client over
    the libraries of the record \<open>IdP\<close>, and pending logins, which are used once.
  \<^item> \<open>AI_Meter\<close>, \<open>AI_Guarantees\<close> (\<open>ai\<close>): the meter over any quota store. \<open>Scoped_Cache\<close> (\<open>cache\<close>):
    keys that cannot be mistaken for those of another tenant, and the in-memory cache.
  \<^item> \<open>Commission_Types\<close>, \<open>_Formula\<close>, \<open>_Lifecycle\<close>, \<open>_Records\<close>, \<open>_Limits\<close> (\<open>biz/commission\<close>:
    \<open>model.go\<close>, \<open>amount.go\<close>, \<open>formula.go\<close>, \<open>state.go\<close>, \<open>lifecycle.go\<close>, \<open>identifiers.go\<close>,
    \<open>limits.go\<close>): data, the calculator, the state machines, identifiers; \<open>Commission_Store\<close> and
    \<open>_Earnings\<close> (\<open>memory.go\<close>): the store's operations \<open>Store_...\<close>; \<open>Commission_Service\<close>
    (\<open>service.go\<close>): the commands \<open>Service_...\<close>; \<open>_Steps\<close>, \<open>_Ledger\<close>, \<open>_Effects\<close>,
    \<open>_Invariants\<close>, \<open>_Settle\<close>, \<open>_Guarantees\<close>: the invariants of every reachable store;
    \<open>_Boundary\<close>, \<open>_Caps\<close>: what holds at the service; \<open>_Samples\<close>: concrete values.

  \<^bold>\<open>State and concurrency.\<close> A store is a record of Go maps; an operation runs under the store's
  mutex and is a function from the state to its answer and the new state, so errors are values and
  every early return is a branch. A command of a service makes several such calls: its environment
  (\<open>tenantEnv\<close>, \<open>deployEnv\<close>, \<open>subEnv\<close>, \<open>loginEnv\<close>, \<open>meterEnv\<close>, \<open>world\<close>) says what the others did to
  the store before each call, and what the context, the clock and the callbacks answer. The
  hypothesis \<open>keepsInv\<close> says that the others keep a store well formed, \<open>tenantRely\<close>, \<open>deployRely\<close>, \<open>subRely\<close>
  and \<open>storeWorld\<close> that they, too, use its operations only; \<open>quietly\<close>, \<open>undisturbed\<close> and
  \<open>quietFor\<close> that there are none.

  \<^bold>\<open>Bounds and fuel.\<close> The retry loop of the manager is bounded by the source's own 16 attempts.
  \<open>strip_all\<close> takes one unit of fuel per byte, enough because each round removes one.
  \<open>lockMutation\<close> and \<open>waitDone\<close> may wait for ever and are \<open>partial_function (option)\<close>; it is proved
  when they return and when they wait. Billing hooks are functions: one that never returns is not
  modelled. Amounts, limits, usages and versions are 64-bit with their wrap-around.

  \<^bold>\<open>Parameters.\<close> SHA-256 and JSON (\<open>digests\<close>, \<open>json\<close>), with \<open>collisionFree\<close> where identifiers must
  not collide; the host authorizer, the settlement adapter, auditors, seeders, policies, billing
  hooks and identifier generators; the lower case of letters beyond ASCII, the extractor of token
  claims, gRPC metadata and the headers of message systems, the libraries for OAuth2 and ID tokens,
  randomness, the parsing of URLs, and \<open>net/mail\<close> and \<open>mime\<close>.

  \<^bold>\<open>Not modelled.\<close> The stores over SQL and Redis, whose behaviour is that of a server outside the
  repository; delivery by webhook, Resend and Amazon SES; the adapters for ent and GORM, which work
  on values of those libraries; what the frameworks parse and how they write an answer; the providers
  of models and their mock; helpers of tests and example programs. Cloning of values has no
  counterpart: values of the model are immutable, so aliasing is not observable.
\<close>

end
